(* ===== verification/Go_Prelude.thy ===== *)
theory Go_Prelude
  imports Main "HOL-Library.Word" "HOL-Library.AList" "HOL-Library.Sublist" "HOL-Library.Multiset"
begin

text \<open>
  Shared vocabulary of the development: how the Go values the program computes with are
  represented, the parts of Go's standard library the sources call (byte strings, UTF-8 runes,
  \<^verbatim>\<open>strings.TrimSpace\<close>, \<^verbatim>\<open>strings.HasPrefix\<close>, \<^verbatim>\<open>%d\<close> formatting), and the generic lemmas
  the component theories build on.

  A Go \<^verbatim>\<open>string\<close> is a sequence of bytes, here a \<^typ>\<open>string\<close> whose characters are those bytes;
  \<open>length\<close> is Go's \<^verbatim>\<open>len\<close>. A rune of a string is represented by its UTF-8 encoding, so
  \<^verbatim>\<open>[]rune(s)\<close> is \<open>runes s\<close> and \<^verbatim>\<open>string(rs)\<close> is \<open>concat rs\<close>; an invalid byte decodes to the
  replacement rune, as Go does it. Sequence numbers stay at their width (\<^verbatim>\<open>uint64\<close> is a 64-bit
  word); \<^verbatim>\<open>int\<close> values that count bytes, tokens or items are unbounded integers. An instant
  \<^verbatim>\<open>time.Time\<close> is the number of nanoseconds since Go's zero time, so \<^verbatim>\<open>IsZero\<close> is \<open>= 0\<close>.
\<close>

section \<open>Types of values\<close>

type_synonym u64 = "64 word"
type_synonym gotime = int
type_synonym rune = string

named_theorems go_string \<open>rewrite rules on byte strings and runes\<close>
named_theorems hub_defs \<open>definitions of the event hub operations\<close>
named_theorems inv_intros \<open>introduction rules for component invariants\<close>

section \<open>Bytes and white space\<close>

definition byte :: "char \<Rightarrow> nat" where
  "byte c = of_char c"

definition nth_byte :: "string \<Rightarrow> nat \<Rightarrow> nat" where
  "nth_byte s i = (if i < length s then byte (s ! i) else 0)"

text \<open>\<^verbatim>\<open>unicode.IsSpace\<close> on the bytes of one encoded rune: the six ASCII spaces, U+0085 and U+00A0
  (two bytes), and U+1680, U+2000--U+200A, U+2028, U+2029, U+202F, U+205F, U+3000 (three bytes).\<close>

definition ascii_space :: "nat \<Rightarrow> bool" where
  "ascii_space b \<longleftrightarrow> b = 9 \<or> b = 10 \<or> b = 11 \<or> b = 12 \<or> b = 13 \<or> b = 32"

definition space2 :: "nat \<Rightarrow> nat \<Rightarrow> bool" where
  "space2 b1 b2 \<longleftrightarrow> b1 = 0xC2 \<and> (b2 = 0x85 \<or> b2 = 0xA0)"

definition space3 :: "nat \<Rightarrow> nat \<Rightarrow> nat \<Rightarrow> bool" where
  "space3 b1 b2 b3 \<longleftrightarrow>
     (b1 = 0xE1 \<and> b2 = 0x9A \<and> b3 = 0x80) \<or>
     (b1 = 0xE2 \<and> b2 = 0x80 \<and> (0x80 \<le> b3 \<and> b3 \<le> 0x8A \<or> b3 = 0xA8 \<or> b3 = 0xA9 \<or> b3 = 0xAF)) \<or>
     (b1 = 0xE2 \<and> b2 = 0x81 \<and> b3 = 0x9F) \<or>
     (b1 = 0xE3 \<and> b2 = 0x80 \<and> b3 = 0x80)"

text \<open>The width of the white-space rune a string starts with (\<open>0\<close>: none), and the width of the
  one it ends with, on the reversed string.\<close>

definition space_len :: "string \<Rightarrow> nat" where
  "space_len s =
     (if s = [] then 0
      else if ascii_space (nth_byte s 0) then 1
      else if space2 (nth_byte s 0) (nth_byte s 1) then 2
      else if space3 (nth_byte s 0) (nth_byte s 1) (nth_byte s 2) then 3
      else 0)"

definition space_len_last :: "string \<Rightarrow> nat" where
  "space_len_last r =
     (if r = [] then 0
      else if ascii_space (nth_byte r 0) then 1
      else if space2 (nth_byte r 1) (nth_byte r 0) then 2
      else if space3 (nth_byte r 2) (nth_byte r 1) (nth_byte r 0) then 3
      else 0)"

function trim_with :: "(string \<Rightarrow> nat) \<Rightarrow> string \<Rightarrow> string" where
  "trim_with f s = (if s = [] \<or> f s = 0 then s else trim_with f (drop (f s) s))"
  by pat_completeness auto
termination
  by (relation "measure (\<lambda>(f, s). length s)") auto

declare trim_with.simps [simp del]

definition trim_left :: "string \<Rightarrow> string" where
  "trim_left s = trim_with space_len s"

definition trim_right :: "string \<Rightarrow> string" where
  "trim_right s = rev (trim_with space_len_last (rev s))"

text \<open>\<^verbatim>\<open>strings.TrimSpace\<close>, \<^verbatim>\<open>strings.HasPrefix\<close>.\<close>

definition TrimSpace :: "string \<Rightarrow> string" where
  "TrimSpace s = trim_right (trim_left s)"

definition HasPrefix :: "string \<Rightarrow> string \<Rightarrow> bool" where
  "HasPrefix s p \<longleftrightarrow> take (length p) s = p"

section \<open>UTF-8 runes\<close>

definition cont_byte :: "nat \<Rightarrow> bool" where
  "cont_byte b \<longleftrightarrow> 0x80 \<le> b \<and> b \<le> 0xBF"

text \<open>The width of the valid UTF-8 encoding a non-empty string starts with, \<open>0\<close> if there is none
  (Go's table in \<^verbatim>\<open>unicode/utf8\<close>: no overlong forms, no surrogates, at most U+10FFFF).\<close>

definition lead_info :: "nat \<Rightarrow> nat \<times> nat \<times> nat" where
  "lead_info b0 =
     (if b0 < 0x80 then (1, 0, 0)
      else if b0 < 0xC2 then (0, 0, 0)
      else if b0 \<le> 0xDF then (2, 0x80, 0xBF)
      else if b0 = 0xE0 then (3, 0xA0, 0xBF)
      else if b0 = 0xED then (3, 0x80, 0x9F)
      else if b0 \<le> 0xEF then (3, 0x80, 0xBF)
      else if b0 = 0xF0 then (4, 0x90, 0xBF)
      else if b0 \<le> 0xF3 then (4, 0x80, 0xBF)
      else if b0 = 0xF4 then (4, 0x80, 0x8F)
      else (0, 0, 0))"

definition rune_width :: "nat \<Rightarrow> nat \<Rightarrow> nat \<Rightarrow> nat \<Rightarrow> nat" where
  "rune_width b0 b1 b2 b3 =
     (case lead_info b0 of (n, lo, hi) \<Rightarrow>
        if n \<le> 1 then n
        else if lo \<le> b1 \<and> b1 \<le> hi \<and> (3 \<le> n \<longrightarrow> cont_byte b2) \<and> (4 \<le> n \<longrightarrow> cont_byte b3) then n
        else 0)"

definition rune_len :: "string \<Rightarrow> nat" where
  "rune_len s =
     (if s = [] then 0
      else rune_width (nth_byte s 0) (nth_byte s 1) (nth_byte s 2) (nth_byte s 3))"

definition rune_error :: rune where
  "rune_error = [CHR 0xEF, CHR 0xBF, CHR 0xBD]"

function runes :: "string \<Rightarrow> rune list" where
  "runes s =
     (if s = [] then []
      else if rune_len s = 0 then rune_error # runes (tl s)
      else take (rune_len s) s # runes (drop (rune_len s) s))"
  by pat_completeness auto
termination
  by (relation "measure length") auto

declare runes.simps [simp del]

definition RuneCount :: "string \<Rightarrow> nat" where
  "RuneCount s = length (runes s)"

definition valid_rune :: "rune \<Rightarrow> bool" where
  "valid_rune r \<longleftrightarrow> r \<noteq> [] \<and> rune_len r = length r"

section \<open>Decimal formatting\<close>

fun nat_digits :: "nat \<Rightarrow> string" where
  "nat_digits n =
     (if n < 10 then [char_of (48 + n)] else nat_digits (n div 10) @ [char_of (48 + n mod 10)])"

declare nat_digits.simps [simp del]

definition itoa :: "int \<Rightarrow> string" where
  "itoa i = (if i < 0 then CHR ''-'' # nat_digits (nat (- i)) else nat_digits (nat i))"

section \<open>Lemmas on bytes, white space and runes\<close>

lemma HasPrefix_iff [go_string]: "HasPrefix s p \<longleftrightarrow> prefix p s"
  by (auto simp: HasPrefix_def prefix_def) (metis append_take_drop_id)

lemma length_trim_with_le: "length (trim_with f s) \<le> length s"
proof (induction f s rule: trim_with.induct)
  case (1 f s)
  show ?case
  proof (cases "s = [] \<or> f s = 0")
    case True
    then show ?thesis by (simp add: trim_with.simps [of f s])
  next
    case False
    with 1 have "length (trim_with f (drop (f s) s)) \<le> length (drop (f s) s)" by blast
    with False show ?thesis by (simp add: trim_with.simps [of f s])
  qed
qed

lemma trim_with_suffix: "suffix (trim_with f s) s"
proof (induction f s rule: trim_with.induct)
  case (1 f s)
  show ?case
  proof (cases "s = [] \<or> f s = 0")
    case True
    then show ?thesis by (simp add: trim_with.simps [of f s])
  next
    case False
    with 1 have "suffix (trim_with f (drop (f s) s)) (drop (f s) s)" by blast
    with False show ?thesis
      by (simp add: trim_with.simps [of f s]) (meson suffix_drop suffix_order.trans)
  qed
qed

lemma trim_with_Nil [simp]: "trim_with f [] = []"
  by (simp add: trim_with.simps)

lemma TrimSpace_Nil [simp]: "TrimSpace [] = []"
  by (simp add: TrimSpace_def trim_left_def trim_right_def)

lemma length_TrimSpace_le: "length (TrimSpace s) \<le> length s"
  using length_trim_with_le [of space_len_last "rev (trim_left s)"]
    length_trim_with_le [of space_len s]
  by (simp add: TrimSpace_def trim_right_def trim_left_def)

text \<open>Trimming is idempotent: cutting bytes off the end never makes a white-space rune at the front.\<close>

lemma nth_byte_prefix: "prefix p s \<Longrightarrow> nth_byte p i \<noteq> 0 \<Longrightarrow> nth_byte s i = nth_byte p i"
  by (auto simp: nth_byte_def prefix_def nth_append split: if_splits)

lemma space_bytes_nonzero:
  "ascii_space b \<Longrightarrow> b \<noteq> 0" "space2 b c \<Longrightarrow> b \<noteq> 0 \<and> c \<noteq> 0" "space3 b c d \<Longrightarrow> b \<noteq> 0 \<and> c \<noteq> 0 \<and> d \<noteq> 0"
  by (auto simp: ascii_space_def space2_def space3_def)

lemma space_len_pos_iff:
  "space_len s \<noteq> 0 \<longleftrightarrow> s \<noteq> [] \<and> (ascii_space (nth_byte s 0) \<or> space2 (nth_byte s 0) (nth_byte s 1) \<or>
     space3 (nth_byte s 0) (nth_byte s 1) (nth_byte s 2))"
  by (simp add: space_len_def)

lemma space_len_prefix:
  assumes "prefix p s" "space_len p \<noteq> 0"
  shows "space_len s \<noteq> 0"
proof -
  have "s \<noteq> []" using assms by (auto simp: space_len_def)
  moreover have "ascii_space (nth_byte p 0) \<or> space2 (nth_byte p 0) (nth_byte p 1) \<or>
      space3 (nth_byte p 0) (nth_byte p 1) (nth_byte p 2)"
    using assms(2) unfolding space_len_pos_iff by blast
  ultimately show ?thesis
    unfolding space_len_pos_iff using nth_byte_prefix [OF assms(1)] space_bytes_nonzero by metis
qed

lemma trim_with_fixed: "trim_with f s = s \<longleftrightarrow> s = [] \<or> f s = 0"
proof (cases "s = [] \<or> f s = 0")
  case False
  then have "length (trim_with f s) < length s"
    using length_trim_with_le [of f "drop (f s) s"]
    by (simp add: trim_with.simps [of f s]) (metis diff_less le_less_trans length_greater_0_conv neq0_conv)
  with False show ?thesis by auto
qed (auto simp: trim_with.simps [of f s])

lemma trim_with_idem: "trim_with f (trim_with f s) = trim_with f s"
proof (induction f s rule: trim_with.induct)
  case (1 f s)
  then show ?case by (cases "s = [] \<or> f s = 0") (auto simp: trim_with.simps [of f s])
qed

lemma trim_left_TrimSpace: "trim_left (TrimSpace s) = TrimSpace s"
proof -
  have "prefix (TrimSpace s) (trim_left s)"
    using trim_with_suffix [of space_len_last "rev (trim_left s)"]
    by (simp add: TrimSpace_def trim_right_def suffix_to_prefix)
  moreover have "trim_left s = [] \<or> space_len (trim_left s) = 0"
    using trim_with_idem [of space_len s] by (simp add: trim_left_def trim_with_fixed)
  ultimately have "TrimSpace s = [] \<or> space_len (TrimSpace s) = 0"
    using space_len_prefix [of "TrimSpace s" "trim_left s"] by auto
  then show ?thesis by (simp add: trim_left_def trim_with_fixed)
qed

lemma TrimSpace_idem [simp]: "TrimSpace (TrimSpace s) = TrimSpace s"
  unfolding TrimSpace_def [of "TrimSpace s"] trim_left_TrimSpace
  by (simp add: TrimSpace_def trim_right_def trim_with_idem)

text \<open>The width depends only on the bytes it covers, and a width of \<open>k\<close> reads \<open>k\<close> bytes that are
  there (a missing byte reads as \<open>0\<close>, which no continuation byte is).\<close>

lemma lead_info_bounds: "lead_info b0 = (n, lo, hi) \<Longrightarrow> n \<le> 4 \<and> (2 \<le> n \<longrightarrow> 0 < lo)"
  by (auto simp: lead_info_def split: if_splits)

lemma rune_width_1: "rune_width b0 b1 b2 b3 = 1 \<Longrightarrow> rune_width b0 x y z = 1"
  by (auto simp: rune_width_def split: prod.splits if_splits)

lemma rune_width_2: "rune_width b0 b1 b2 b3 = 2 \<Longrightarrow> rune_width b0 b1 y z = 2 \<and> b1 \<noteq> 0"
  by (auto simp: rune_width_def dest: lead_info_bounds split: prod.splits if_splits)

lemma rune_width_3: "rune_width b0 b1 b2 b3 = 3 \<Longrightarrow> rune_width b0 b1 b2 z = 3 \<and> b2 \<noteq> 0"
  by (auto simp: rune_width_def cont_byte_def split: prod.splits if_splits)

lemma rune_width_4: "rune_width b0 b1 b2 b3 = 4 \<Longrightarrow> b3 \<noteq> 0"
  by (auto simp: rune_width_def cont_byte_def split: prod.splits if_splits)

lemma rune_width_le: "rune_width b0 b1 b2 b3 \<le> 4"
  using lead_info_bounds by (auto simp: rune_width_def split: prod.splits)

lemma rune_width_cases:
  obtains "rune_width b0 b1 b2 b3 = 0" | "rune_width b0 b1 b2 b3 = 1" | "rune_width b0 b1 b2 b3 = 2"
  | "rune_width b0 b1 b2 b3 = 3" | "rune_width b0 b1 b2 b3 = 4"
  using rune_width_le [of b0 b1 b2 b3] by linarith

lemma nth_byte_append [simp]: "i < length s \<Longrightarrow> nth_byte (s @ t) i = nth_byte s i"
  by (simp add: nth_byte_def nth_append)

lemma nth_byte_take [simp]: "i < n \<Longrightarrow> nth_byte (take n s) i = nth_byte s i"
  by (simp add: nth_byte_def)

lemma nth_byte_nonzero: "nth_byte s i \<noteq> 0 \<Longrightarrow> i < length s"
  by (simp add: nth_byte_def split: if_splits)

lemma rune_len_le: "rune_len s \<le> length s"
proof (cases "s = []")
  case False
  let ?w = "rune_width (nth_byte s 0) (nth_byte s 1) (nth_byte s 2) (nth_byte s 3)"
  have "?w \<le> length s"
  proof (cases rule: rune_width_cases
      [of "nth_byte s 0" "nth_byte s 1" "nth_byte s 2" "nth_byte s 3"])
    case 3 with rune_width_2 [OF 3] show ?thesis using nth_byte_nonzero [of s 1] by auto
  next
    case 4 with rune_width_3 [OF 4] show ?thesis using nth_byte_nonzero [of s 2] by auto
  next
    case 5 with rune_width_4 [OF 5] show ?thesis using nth_byte_nonzero [of s 3] by auto
  qed (use False in \<open>auto simp: Suc_le_eq\<close>)
  with False show ?thesis by (simp add: rune_len_def)
qed (simp add: rune_len_def)

text \<open>Two strings that agree on the first \<open>rune_len\<close> bytes have the same first rune.\<close>

lemma rune_len_cong:
  assumes "rune_len s = n" "n \<noteq> 0" "t \<noteq> []" "\<And>i. i < n \<Longrightarrow> nth_byte t i = nth_byte s i"
  shows "rune_len t = n"
proof -
  let ?b = "nth_byte s" and ?c = "nth_byte t"
  have w: "rune_width (?b 0) (?b 1) (?b 2) (?b 3) = n"
    using assms(1,2) by (auto simp: rune_len_def split: if_splits)
  have "rune_width (?c 0) (?c 1) (?c 2) (?c 3) = n"
  proof (cases rule: rune_width_cases [of "?b 0" "?b 1" "?b 2" "?b 3"])
    case 2 with w assms(4) show ?thesis using rune_width_1 [OF 2] by auto
  next
    case 3 with w assms(4) show ?thesis using rune_width_2 [OF 3] by auto
  next
    case 4 with w assms(4) show ?thesis using rune_width_3 [OF 4] by auto
  next
    case 5 with w assms(4) show ?thesis by auto
  qed (use w assms(2) in auto)
  with assms(3) show ?thesis by (simp add: rune_len_def)
qed

lemma rune_len_append:
  assumes "rune_len r = length r" "r \<noteq> []"
  shows "rune_len (r @ t) = length r"
  using assms by (intro rune_len_cong [OF refl, of r "r @ t", simplified assms(1)]) simp_all

lemma rune_len_take:
  assumes "rune_len s \<noteq> 0"
  shows "rune_len (take (rune_len s) s) = rune_len s"
  using assms rune_len_le [of s] by (intro rune_len_cong [OF refl]) auto

lemma valid_rune_error: "valid_rune rune_error"
  by (simp add: valid_rune_def rune_error_def rune_len_def rune_width_def lead_info_def nth_byte_def byte_def cont_byte_def)

lemma runes_Nil [simp]: "runes [] = []"
  by (simp add: runes.simps)

lemma valid_runes: "r \<in> set (runes s) \<Longrightarrow> valid_rune r"
proof (induction s rule: runes.induct)
  case (1 s)
  show ?case
  proof (cases "s = [] \<or> rune_len s = 0")
    case True
    with 1 show ?thesis by (auto simp: runes.simps [of s] valid_rune_error split: if_splits)
  next
    case False
    have "valid_rune (take (rune_len s) s)"
      using False rune_len_take [of s] rune_len_le [of s] by (auto simp: valid_rune_def)
    with 1 False show ?thesis by (auto simp: runes.simps [of s])
  qed
qed

lemma runes_Cons: "valid_rune r \<Longrightarrow> runes (r @ t) = r # runes t"
  by (subst runes.simps) (auto simp: valid_rune_def rune_len_append)

lemma runes_concat [go_string]: "(\<And>r. r \<in> set rs \<Longrightarrow> valid_rune r) \<Longrightarrow> runes (concat rs) = rs"
  by (induction rs) (auto simp: runes_Cons)

lemma runes_prefix: "runes (concat (take k (runes s))) = take k (runes s)"
  by (rule runes_concat) (meson in_set_takeD valid_runes)

lemma concat_runes_empty_iff: "concat (runes s) = [] \<longleftrightarrow> s = []"
proof -
  have "runes s \<noteq> []" if "s \<noteq> []" using that by (simp add: runes.simps [of s])
  moreover have "hd (runes s) \<noteq> []" if "runes s \<noteq> []"
    using valid_runes [of "hd (runes s)" s] that by (auto simp: valid_rune_def)
  ultimately show ?thesis
    by (metis concat.simps(1) concat_eq_Nil_conv list.set_sel(1) runes_Nil)
qed

lemma take_concat_prefix: "j \<le> k \<Longrightarrow> prefix (concat (take j rs)) (concat (take k rs))"
  by (metis append_take_drop_id concat_append prefixI take_take min.absorb2 min.commute)

section \<open>Decimal formatting is injective\<close>

definition digit_value :: "string \<Rightarrow> nat" where
  "digit_value s = foldl (\<lambda>a c. 10 * a + (byte c - 48)) 0 s"

lemma digit_value_snoc: "digit_value (s @ [c]) = 10 * digit_value s + (byte c - 48)"
  by (simp add: digit_value_def)

lemma byte_char_of [simp]: "n < 256 \<Longrightarrow> byte (char_of n) = n"
  by (simp add: byte_def)

lemma digit_value_nat_digits [simp]: "digit_value (nat_digits n) = n"
proof (induction n rule: nat_digits.induct)
  case (1 n)
  show ?case
  proof (cases "n < 10")
    case True
    then show ?thesis by (simp add: nat_digits.simps [of n] digit_value_def)
  next
    case False
    with 1 have "digit_value (nat_digits (n div 10)) = n div 10" by simp
    with False show ?thesis by (simp add: nat_digits.simps [of n] digit_value_snoc)
  qed
qed

lemma nat_digits_inj: "nat_digits m = nat_digits n \<Longrightarrow> m = n"
  by (metis digit_value_nat_digits)

lemma nat_digits_bytes: "c \<in> set (nat_digits n) \<Longrightarrow> 48 \<le> byte c \<and> byte c \<le> 57"
proof (induction n rule: nat_digits.induct)
  case (1 n)
  have "n mod 10 < 10" by simp
  with 1 show ?case by (cases "n < 10") (auto simp: nat_digits.simps [of n])
qed

lemma nat_digits_nonempty [simp]: "nat_digits n \<noteq> []"
  by (simp add: nat_digits.simps [of n])

lemma itoa_no_colon: "CHR '':'' \<notin> set (itoa i)"
proof -
  have "byte (CHR '':'') = 58" by (simp add: byte_def)
  then show ?thesis by (auto simp: itoa_def dest!: nat_digits_bytes)
qed

lemma itoa_inj: "itoa i = itoa j \<Longrightarrow> i = j"
proof -
  have minus: "nat_digits m \<noteq> CHR ''-'' # s" for m s
  proof
    assume "nat_digits m = CHR ''-'' # s"
    then have "CHR ''-'' \<in> set (nat_digits m)" by simp
    from nat_digits_bytes [OF this] show False by (simp add: byte_def)
  qed
  assume eq: "itoa i = itoa j"
  show "i = j"
  proof (cases "i < 0")
    case True
    have "j < 0" using eq [symmetric] True minus [of "nat j"] by (cases "j < 0") (auto simp: itoa_def)
    with eq True have "nat_digits (nat (- i)) = nat_digits (nat (- j))" by (simp add: itoa_def)
    from nat_digits_inj [OF this] True \<open>j < 0\<close> show ?thesis by simp
  next
    case False
    have "\<not> j < 0" using eq False minus [of "nat i"] by (cases "j < 0") (auto simp: itoa_def)
    with eq False have "nat_digits (nat i) = nat_digits (nat j)" by (simp add: itoa_def)
    from nat_digits_inj [OF this] False \<open>\<not> j < 0\<close> show ?thesis by simp
  qed
qed

section \<open>Generic lemmas on lists\<close>

lemma sorted_wrt_map_filter: "sorted_wrt R (map f xs) \<Longrightarrow> sorted_wrt R (map f (filter P xs))"
  by (induction xs) auto

lemma subseq_set: "subseq xs ys \<Longrightarrow> set xs \<subseteq> set ys"
  by (induction rule: list_emb.induct) auto

lemma subseq_sorted_wrt: "subseq xs ys \<Longrightarrow> sorted_wrt R ys \<Longrightarrow> sorted_wrt R xs"
  by (induction rule: list_emb.induct) (auto dest!: subseq_set)

lemma sum_list_filter_split:
  "(\<Sum>x\<leftarrow>xs. f x) = (\<Sum>x\<leftarrow>filter P xs. f x) + (\<Sum>x\<leftarrow>filter (\<lambda>x. \<not> P x) xs. (f x :: int))"
  by (induction xs) auto

lemma sum_list_nonneg_map: "(\<And>x. x \<in> set xs \<Longrightarrow> 0 \<le> (f x :: int)) \<Longrightarrow> 0 \<le> (\<Sum>x\<leftarrow>xs. f x)"
  by (induction xs) auto

end
