(* ===== verification/Run_Status.thy ===== *)
theory Run_Status
  imports Go_Prelude
begin

text \<open>
  The status machines of the durable objects: a run (\<^verbatim>\<open>internal/domain/agent/run.go\<close>) and the goal of a
  conversation (\<^verbatim>\<open>internal/domain/goal/goal.go\<close>). A status is the string the database holds, so a machine is
  a relation on all strings. A locale has what the two share: statuses that have an end, and what follows
  for every sequence of accepted changes.
\<close>

section \<open>The status of a run\<close>

abbreviation RunStatusRunning :: string where "RunStatusRunning \<equiv> ''running''"
abbreviation RunStatusQueued :: string where "RunStatusQueued \<equiv> ''queued''"
abbreviation RunStatusSucceeded :: string where "RunStatusSucceeded \<equiv> ''succeeded''"
abbreviation RunStatusFailed :: string where "RunStatusFailed \<equiv> ''failed''"
abbreviation RunStatusCancelled :: string where "RunStatusCancelled \<equiv> ''cancelled''"
abbreviation RunStatusWaitingHuman :: string where "RunStatusWaitingHuman \<equiv> ''waiting_human''"
abbreviation RunStatusPaused :: string where "RunStatusPaused \<equiv> ''paused''"
abbreviation RunStatusResuming :: string where "RunStatusResuming \<equiv> ''resuming''"
abbreviation RunStatusTimeout :: string where "RunStatusTimeout \<equiv> ''timeout''"

definition canTransitionRunStatus :: "string \<Rightarrow> string \<Rightarrow> bool" where
  "canTransitionRunStatus from to =
     (if from = [] then to = RunStatusQueued \<or> to = RunStatusRunning
      else if from = RunStatusQueued
      then to = RunStatusRunning \<or> to = RunStatusCancelled \<or> to = RunStatusFailed
      else if from = RunStatusRunning
      then to = RunStatusQueued \<or> to = RunStatusWaitingHuman \<or> to = RunStatusPaused \<or> to = RunStatusSucceeded \<or>
           to = RunStatusFailed \<or> to = RunStatusCancelled \<or> to = RunStatusTimeout
      else if from = RunStatusWaitingHuman \<or> from = RunStatusPaused
      then to = RunStatusResuming \<or> to = RunStatusCancelled \<or> to = RunStatusFailed
      else if from = RunStatusResuming
      then to = RunStatusQueued \<or> to = RunStatusRunning \<or> to = RunStatusWaitingHuman \<or> to = RunStatusPaused \<or>
           to = RunStatusSucceeded \<or> to = RunStatusFailed \<or> to = RunStatusCancelled
      else False)"

text \<open>\<^verbatim>\<open>%q\<close> of a status: the statuses have no character that is escaped.\<close>

definition quoted :: "string \<Rightarrow> string" where
  "quoted s = [CHR 0x22] @ s @ [CHR 0x22]"

definition transition_error :: "string \<Rightarrow> string \<Rightarrow> string" where
  "transition_error from to = ''invalid run status transition '' @ quoted from @ '' -> '' @ quoted to"

text \<open>\<^verbatim>\<open>TransitionStatus\<close> returns the new status of the run, or the error that leaves it alone.\<close>

definition TransitionStatus :: "string \<Rightarrow> string \<Rightarrow> string + string" where
  "TransitionStatus from to =
     (if from = to then Inr to
      else if \<not> canTransitionRunStatus from to then Inl (transition_error from to)
      else Inr to)"

definition IsActiveRunStatus :: "string \<Rightarrow> bool" where
  "IsActiveRunStatus status \<longleftrightarrow>
     status \<in> {RunStatusQueued, RunStatusRunning, RunStatusResuming, RunStatusWaitingHuman, RunStatusPaused}"

section \<open>The status of a goal\<close>

abbreviation GoalActive :: string where "GoalActive \<equiv> ''active''"
abbreviation GoalPaused :: string where "GoalPaused \<equiv> ''paused''"
abbreviation GoalBlocked :: string where "GoalBlocked \<equiv> ''blocked''"
abbreviation GoalUsageLimited :: string where "GoalUsageLimited \<equiv> ''usage_limited''"
abbreviation GoalBudgetLimited :: string where "GoalBudgetLimited \<equiv> ''budget_limited''"
abbreviation GoalComplete :: string where "GoalComplete \<equiv> ''complete''"

definition ValidateObjective :: "string \<Rightarrow> string option" where
  "ValidateObjective objective =
     (if objective = [] then Some ''goal objective is required''
      else if 4000 < RuneCount objective then Some ''goal objective must be at most 4000 Unicode characters''
      else None)"

definition NormalizeObjective :: "string \<Rightarrow> string + string" where
  "NormalizeObjective objective =
     (let objective = TrimSpace objective in
      case ValidateObjective objective of Some err \<Rightarrow> Inl err | None \<Rightarrow> Inr objective)"

definition ValidateStatus :: "string \<Rightarrow> bool" where
  "ValidateStatus status \<longleftrightarrow>
     status \<in> {GoalActive, GoalPaused, GoalBlocked, GoalUsageLimited, GoalBudgetLimited, GoalComplete}"

definition IsTerminal :: "string \<Rightarrow> bool" where
  "IsTerminal status \<longleftrightarrow> status = GoalBudgetLimited \<or> status = GoalComplete"

definition CanSetStatus :: "string \<Rightarrow> string \<Rightarrow> bool" where
  "CanSetStatus current next_status =
     (if current = GoalComplete then next_status = GoalComplete
      else if current = GoalBudgetLimited then next_status = GoalBudgetLimited \<or> next_status = GoalComplete
      else True)"

definition NormalizeBudget :: "int option \<Rightarrow> int option \<Rightarrow> string + int option" where
  "NormalizeBudget budget maximum =
     (if \<exists>c\<in>set_option maximum. c \<le> 0 then Inl ''configured goal token budget must be positive''
      else case budget of
             None \<Rightarrow> Inr maximum
           | Some v \<Rightarrow> if v \<le> 0 then Inl ''goal token budget must be positive''
                      else if \<exists>c\<in>set_option maximum. c < v then Inl ''goal token budget exceeds configured ceiling''
                      else Inr (Some v))"

section \<open>What the machines share\<close>

text \<open>A machine accepts changes and has final statuses, which it leaves for final statuses only; a rank
  says how far along the final statuses are.\<close>

locale status_machine =
  fixes accepts :: "string \<Rightarrow> string \<Rightarrow> bool"
    and final :: "string \<Rightarrow> bool"
    and rank :: "string \<Rightarrow> nat"
  assumes final_step: "final s \<Longrightarrow> accepts s t \<Longrightarrow> s \<noteq> t \<Longrightarrow> final t \<and> rank s < rank t"
begin

lemma final_closed:
  assumes "accepts\<^sup>*\<^sup>* s t" and "final s"
  shows "final t \<and> (s = t \<or> rank s < rank t)"
  using assms(1)
proof (induction rule: rtranclp_induct)
  case base
  show ?case using assms(2) by simp
next
  case (step t u)
  then show ?case using final_step [of t u] by (cases "t = u") (auto intro: less_trans)
qed

text \<open>No sequence of accepted changes comes back to a final status it has left.\<close>

lemma no_return:
  assumes "accepts\<^sup>*\<^sup>* s t" "accepts\<^sup>*\<^sup>* t s" "final s"
  shows "s = t"
  using final_closed [OF assms(1,3)] final_closed [OF assms(2)] by auto

end

definition run_final :: "string \<Rightarrow> bool" where
  "run_final status \<longleftrightarrow> status \<noteq> [] \<and> \<not> IsActiveRunStatus status"

definition run_accepts :: "string \<Rightarrow> string \<Rightarrow> bool" where
  "run_accepts from to \<longleftrightarrow> TransitionStatus from to = Inr to"

interpretation run_machine: status_machine run_accepts run_final "\<lambda>_. 0"
  by unfold_locales
    (auto simp: run_accepts_def run_final_def TransitionStatus_def canTransitionRunStatus_def IsActiveRunStatus_def split: if_splits)

definition goal_rank :: "string \<Rightarrow> nat" where
  "goal_rank status = (if status = GoalComplete then 1 else 0)"

interpretation goal_machine: status_machine CanSetStatus IsTerminal goal_rank
  by unfold_locales (auto simp: CanSetStatus_def IsTerminal_def goal_rank_def split: if_splits)

lemma TransitionStatus_same [simp]: "TransitionStatus s s = Inr s"
  by (simp add: TransitionStatus_def)

lemma TransitionStatus_result: "TransitionStatus s t = Inr u \<Longrightarrow> u = t"
  by (auto simp: TransitionStatus_def split: if_splits)

lemma final_statuses:
  assumes "run_accepts\<^sup>*\<^sup>* [] s" and "run_final s"
  shows "s \<in> {RunStatusSucceeded, RunStatusFailed, RunStatusCancelled, RunStatusTimeout}"
proof -
  have "s \<in> {[], RunStatusQueued, RunStatusRunning, RunStatusResuming, RunStatusWaitingHuman, RunStatusPaused,
       RunStatusSucceeded, RunStatusFailed, RunStatusCancelled, RunStatusTimeout}"
    using assms(1)
    by (induction rule: rtranclp_induct)
       (auto simp: run_accepts_def TransitionStatus_def canTransitionRunStatus_def split: if_splits)
  then show ?thesis using assms(2) by (auto simp: run_final_def IsActiveRunStatus_def)
qed

lemma terminal_statuses_immutable_parts:
  shows "{s. run_accepts\<^sup>*\<^sup>* [] s \<and> run_final s} = {RunStatusSucceeded, RunStatusFailed, RunStatusCancelled, RunStatusTimeout}"
    and "run_final s \<Longrightarrow> run_accepts\<^sup>*\<^sup>* s t \<Longrightarrow> t = s"
    and "TransitionStatus s RunStatusResuming = Inr u \<Longrightarrow> s \<in> {RunStatusPaused, RunStatusWaitingHuman, RunStatusResuming}"
    and "IsTerminal g \<Longrightarrow> CanSetStatus\<^sup>*\<^sup>* g h \<Longrightarrow> h = g \<or> g = GoalBudgetLimited \<and> h = GoalComplete"
proof -
  have go: "run_accepts [] RunStatusRunning" "run_accepts RunStatusRunning RunStatusSucceeded"
    "run_accepts RunStatusRunning RunStatusFailed" "run_accepts RunStatusRunning RunStatusCancelled"
    "run_accepts RunStatusRunning RunStatusTimeout"
    by (simp_all add: run_accepts_def TransitionStatus_def canTransitionRunStatus_def)
  have "run_accepts\<^sup>*\<^sup>* [] s" if "s \<in> {RunStatusSucceeded, RunStatusFailed, RunStatusCancelled, RunStatusTimeout}" for s
    using that go by (auto intro: rtranclp.rtrancl_into_rtrancl)
  moreover have "run_final s" if "s \<in> {RunStatusSucceeded, RunStatusFailed, RunStatusCancelled, RunStatusTimeout}" for s
    using that by (auto simp: run_final_def IsActiveRunStatus_def)
  ultimately show "{s. run_accepts\<^sup>*\<^sup>* [] s \<and> run_final s} = {RunStatusSucceeded, RunStatusFailed, RunStatusCancelled, RunStatusTimeout}"
    using final_statuses by blast
  show "run_final s \<Longrightarrow> run_accepts\<^sup>*\<^sup>* s t \<Longrightarrow> t = s"
    using run_machine.final_closed [of s t] by simp
  show "TransitionStatus s RunStatusResuming = Inr u \<Longrightarrow> s \<in> {RunStatusPaused, RunStatusWaitingHuman, RunStatusResuming}"
    by (auto simp: TransitionStatus_def canTransitionRunStatus_def split: if_splits)
  show "IsTerminal g \<Longrightarrow> CanSetStatus\<^sup>*\<^sup>* g h \<Longrightarrow> h = g \<or> g = GoalBudgetLimited \<and> h = GoalComplete"
    using goal_machine.final_closed [of g h] by (auto simp: IsTerminal_def goal_rank_def split: if_splits)
qed

text \<open>C17: The status machines. From no status on, the final statuses of a run are exactly the four the
  comments call terminal; a run that has reached one keeps it through every sequence of accepted changes;
  a status becomes resuming only from paused or waiting for a human. A goal that is budget limited or
  complete never becomes active again: it stays, or goes from budget limited to complete.\<close>

theorem terminal_statuses_immutable:
  "{s. run_accepts\<^sup>*\<^sup>* [] s \<and> run_final s} = {RunStatusSucceeded, RunStatusFailed, RunStatusCancelled, RunStatusTimeout} \<and>
   (\<forall>s t. run_final s \<and> run_accepts\<^sup>*\<^sup>* s t \<longrightarrow> t = s) \<and>
   (\<forall>s u. TransitionStatus s RunStatusResuming = Inr u \<longrightarrow> s \<in> {RunStatusPaused, RunStatusWaitingHuman, RunStatusResuming}) \<and>
   (\<forall>g h. IsTerminal g \<and> CanSetStatus\<^sup>*\<^sup>* g h \<longrightarrow> h = g \<or> g = GoalBudgetLimited \<and> h = GoalComplete)"
  by (intro conjI allI impI; (elim conjE)?)
     (fact terminal_statuses_immutable_parts | erule (1) terminal_statuses_immutable_parts(2,4) | erule terminal_statuses_immutable_parts(3))+

theorem terminal_statuses_immutable_witness:
  "run_final RunStatusFailed \<and> {t. run_accepts\<^sup>*\<^sup>* RunStatusFailed t} = {RunStatusFailed} \<and>
   TransitionStatus RunStatusPaused RunStatusResuming = Inr RunStatusResuming \<and>
   {h. CanSetStatus\<^sup>*\<^sup>* GoalBudgetLimited h} = {GoalBudgetLimited, GoalComplete}"
proof -
  have f: "run_final RunStatusFailed" by (simp add: run_final_def IsActiveRunStatus_def)
  have g: "IsTerminal GoalBudgetLimited" "CanSetStatus GoalBudgetLimited GoalComplete"
    by (simp_all add: IsTerminal_def CanSetStatus_def)
  note all = terminal_statuses_immutable
  have "{t. run_accepts\<^sup>*\<^sup>* RunStatusFailed t} = {RunStatusFailed}"
    using conjunct1 [OF conjunct2 [OF all]] f by blast
  moreover have "{h. CanSetStatus\<^sup>*\<^sup>* GoalBudgetLimited h} = {GoalBudgetLimited, GoalComplete}"
    using conjunct2 [OF conjunct2 [OF conjunct2 [OF all]]] g by blast
  moreover have "TransitionStatus RunStatusPaused RunStatusResuming = Inr RunStatusResuming"
    by (simp add: TransitionStatus_def canTransitionRunStatus_def)
  ultimately show ?thesis using f by blast
qed

end
