(* ===== verification/Go_Json.thy ===== *)
theory Go_Json
  imports Complex_Main Go_Prelude
begin

text \<open>
  The further parts of Go's standard library that the tool pipeline calls: the generic JSON values of
  \<^verbatim>\<open>encoding/json\<close> (\<^verbatim>\<open>any\<close> holding \<^verbatim>\<open>nil\<close>, \<^verbatim>\<open>bool\<close>, \<^verbatim>\<open>float64\<close>, \<^verbatim>\<open>string\<close>, \<^verbatim>\<open>[]any\<close> or
  \<^verbatim>\<open>map[string]any\<close>) with \<^verbatim>\<open>reflect.DeepEqual\<close> on them, and \<^verbatim>\<open>strings.ToLower\<close>, \<^verbatim>\<open>EqualFold\<close>,
  \<^verbatim>\<open>Contains\<close>, \<^verbatim>\<open>Fields\<close>, \<^verbatim>\<open>Join\<close> on byte strings.

  A finite \<^verbatim>\<open>float64\<close> is its exact rational value (JSON has no other ones). A \<^verbatim>\<open>map[string]any\<close> is the
  list of its entries in the order in which a \<^verbatim>\<open>range\<close> loop happens to visit them; lookups do not
  depend on that order, and results that do depend on it are stated for every order.

  What rests on large tables or on foreign algorithms is a field of \<open>go_lib\<close>, an argument of the
  definitions that use it: the Unicode lower-case and fold tables on non-ASCII runes, the
  \<^verbatim>\<open>%q\<close> quoting, SHA-256 in hexadecimal, and the JSON codec with its error messages.
\<close>

section \<open>JSON values\<close>

datatype json =
    JNull
  | JBool bool
  | JNum rat
  | JStr string
  | JArr "json list"
  | JObj "(string \<times> json) list"

type_synonym json_object = "(string \<times> json) list"

record go_lib =
  lower_tab :: "rune \<Rightarrow> rune"
  fold_tab :: "rune \<Rightarrow> rune"
  quote :: "string \<Rightarrow> string"
  sha256_hex :: "string \<Rightarrow> string"
  json_Valid :: "string \<Rightarrow> bool"
  unmarshal_any :: "string \<Rightarrow> string + json"
  unmarshal_map :: "string \<Rightarrow> string + json_object"
  marshal :: "json \<Rightarrow> string option"
  unmarshal_empty :: "string \<Rightarrow> string option"
  unmarshal_strings :: "string \<Rightarrow> string \<Rightarrow> string + string list"
  unmarshal_ints :: "string \<Rightarrow> string \<Rightarrow> string \<Rightarrow> string + (int \<times> int)"
  unmarshal_text :: "string \<Rightarrow> string \<Rightarrow> string \<Rightarrow> string + (string \<times> string)"
  unmarshal_string_map :: "string \<Rightarrow> string + (string \<times> string) list"

text \<open>\<^verbatim>\<open>reflect.DeepEqual\<close>: arrays pointwise, maps by key.\<close>

fun json_eq :: "json \<Rightarrow> json \<Rightarrow> bool"
  and arr_eq :: "json list \<Rightarrow> json list \<Rightarrow> bool"
  and obj_sub :: "json_object \<Rightarrow> json_object \<Rightarrow> bool" where
  "json_eq JNull w = (w = JNull)"
| "json_eq (JBool b) w = (w = JBool b)"
| "json_eq (JNum n) w = (w = JNum n)"
| "json_eq (JStr s) w = (w = JStr s)"
| "json_eq (JArr xs) w = (case w of JArr ys \<Rightarrow> arr_eq xs ys | _ \<Rightarrow> False)"
| "json_eq (JObj a) w = (case w of JObj b \<Rightarrow> length a = length b \<and> obj_sub a b | _ \<Rightarrow> False)"
| "arr_eq [] ys = (ys = [])"
| "arr_eq (x # xs) ys = (case ys of [] \<Rightarrow> False | y # ys' \<Rightarrow> json_eq x y \<and> arr_eq xs ys')"
| "obj_sub [] b = True"
| "obj_sub ((k, v) # a) b =
     ((case map_of b k of None \<Rightarrow> False | Some w \<Rightarrow> json_eq v w) \<and> obj_sub a b)"

text \<open>\<^verbatim>\<open>v == float64(int64(v))\<close> and \<^verbatim>\<open>v == float64(int(v))\<close>: an integer the 64-bit conversion keeps
  (a value out of range converts to \<open>-2\<^sup>6\<^sup>3\<close>, so it compares unequal).\<close>

definition int64_rat :: "rat \<Rightarrow> bool" where
  "int64_rat r \<longleftrightarrow> of_int (floor r) = r \<and> - (2 ^ 63) \<le> floor r \<and> floor r < 2 ^ 63"

section \<open>Strings\<close>

definition is_ascii :: "string \<Rightarrow> bool" where
  "is_ascii s \<longleftrightarrow> (\<forall>c\<in>set s. byte c < 128)"

definition ascii_lower :: "char \<Rightarrow> char" where
  "ascii_lower c = (if 65 \<le> byte c \<and> byte c \<le> 90 then char_of (byte c + 32) else c)"

definition ToLower :: "go_lib \<Rightarrow> string \<Rightarrow> string" where
  "ToLower lib s =
     (if is_ascii s then map ascii_lower s
      else concat (map (\<lambda>r. if length r = 1 then map ascii_lower r else lower_tab lib r) (runes s)))"

definition fold_rune :: "go_lib \<Rightarrow> rune \<Rightarrow> rune" where
  "fold_rune lib r = (if length r = 1 then map ascii_lower r else fold_tab lib r)"

definition EqualFold :: "go_lib \<Rightarrow> string \<Rightarrow> string \<Rightarrow> bool" where
  "EqualFold lib s t \<longleftrightarrow> map (fold_rune lib) (runes s) = map (fold_rune lib) (runes t)"

definition Contains :: "string \<Rightarrow> string \<Rightarrow> bool" where
  "Contains s p \<longleftrightarrow> list_ex (\<lambda>t. HasPrefix t p) (suffixes s)"

definition TrimPrefix :: "string \<Rightarrow> string \<Rightarrow> string" where
  "TrimPrefix s p = (if HasPrefix s p then drop (length p) s else s)"

function fields_from :: "string \<Rightarrow> string \<Rightarrow> string list" where
  "fields_from cur s =
     (if s = [] then (if cur = [] then [] else [rev cur])
      else if space_len s \<noteq> 0
        then (if cur = [] then [] else [rev cur]) @ fields_from [] (drop (space_len s) s)
      else fields_from (hd s # cur) (tl s))"
  by pat_completeness auto
termination
  by (relation "measure (\<lambda>(cur, s). length s)") auto

declare fields_from.simps [simp del]

definition Fields :: "string \<Rightarrow> string list" where
  "Fields s = fields_from [] s"

fun Join :: "string list \<Rightarrow> string \<Rightarrow> string" where
  "Join [] sep = []"
| "Join [x] sep = x"
| "Join (x # y # xs) sep = x @ sep @ Join (y # xs) sep"

section \<open>Lemmas\<close>

lemma Contains_iff [go_string]: "Contains s p \<longleftrightarrow> sublist p s"
proof -
  have "Contains s p \<longleftrightarrow> (\<exists>t. suffix t s \<and> prefix p t)"
    by (auto simp: Contains_def list_ex_iff HasPrefix_iff)
  also have "\<dots> \<longleftrightarrow> sublist p s"
    by (auto simp: suffix_def prefix_def sublist_def)
  finally show ?thesis .
qed

lemma EqualFold_refl [simp]: "EqualFold lib s s"
  and EqualFold_sym: "EqualFold lib s t \<Longrightarrow> EqualFold lib t s"
  and EqualFold_trans: "EqualFold lib s t \<Longrightarrow> EqualFold lib t u \<Longrightarrow> EqualFold lib s u"
  by (auto simp: EqualFold_def)

lemma obj_sub_iff:
  "obj_sub a b \<longleftrightarrow> (\<forall>(k, v)\<in>set a. \<exists>w. map_of b k = Some w \<and> json_eq v w)"
  by (induction a) (auto split: option.splits)

lemma arr_eq_iff: "arr_eq xs ys \<longleftrightarrow> list_all2 json_eq xs ys"
  by (induction xs arbitrary: ys) (auto split: list.splits simp: list_all2_Cons1)

end
