(* ===== verification/Turn_Store.thy ===== *)
theory Turn_Store
  imports Run_Status Go_Json
begin

text \<open>
  The durable store of turns and runs: the rows (\<^verbatim>\<open>internal/domain/agent\<close>, \<^verbatim>\<open>internal/domain/goal\<close>) and
  the repositories over them (\<^verbatim>\<open>agent_repo.go\<close>, \<^verbatim>\<open>run_repo.go\<close>, \<^verbatim>\<open>approval_repo.go\<close> and \<^verbatim>\<open>goal_repo.go\<close> of
  \<^verbatim>\<open>internal/infrastructure/mysql\<close>).

  A table is the list of its rows in the order of the primary key. The SQL the repositories send is read
  as what it says: a condition is a predicate on rows, \<^verbatim>\<open>First\<close> takes the first row in key order that
  satisfies it, \<^verbatim>\<open>Updates\<close> changes the rows that satisfy it and reports how many, \<^verbatim>\<open>Save\<close> writes a whole row
  by its key, \<^verbatim>\<open>Create\<close> adds a row under a key not used before. A transaction whose body fails, or that
  cannot commit, changes no table. Every statement may fail: a stream of faults, an argument, says
  what becomes of the \<open>n\<close>-th one, so that a theorem about all streams holds for every sequence of
  failures. The clock is a stream of readings, another argument. A transaction locks the rows it reads,
  so a repository call is one step; rows another transaction holds at that moment, which
  \<^verbatim>\<open>SKIP LOCKED\<close> passes over, are an argument too.

  A repository changes the Go values it is given even when its transaction is rolled back, so the calls
  that do this return those values beside the error.
\<close>

section \<open>Rows\<close>

abbreviation TurnStatusQueued :: string where "TurnStatusQueued \<equiv> ''queued''"
abbreviation TurnStatusRunning :: string where "TurnStatusRunning \<equiv> ''running''"
abbreviation TurnStatusWaitingHuman :: string where "TurnStatusWaitingHuman \<equiv> ''waiting_human''"
abbreviation TurnStatusPaused :: string where "TurnStatusPaused \<equiv> ''paused''"
abbreviation TurnStatusSucceeded :: string where "TurnStatusSucceeded \<equiv> ''succeeded''"
abbreviation TurnStatusFailed :: string where "TurnStatusFailed \<equiv> ''failed''"
abbreviation TurnStatusCancelled :: string where "TurnStatusCancelled \<equiv> ''cancelled''"
abbreviation TurnStatusRetryWait :: string where "TurnStatusRetryWait \<equiv> ''retry_wait''"

record turn =
  tn_ID :: int
  tn_OwnerID :: int
  tn_CreatedAt :: gotime
  tn_UpdatedAt :: gotime
  tn_AgentID :: int
  tn_ConversationID :: int
  tn_RunID :: "int option"
  tn_UserMessageID :: int
  tn_AssistantMessageID :: "int option"
  tn_IdempotencyKey :: string
  tn_Status :: string
  tn_InputJSON :: string
  tn_OutputJSON :: string
  tn_ErrorMessage :: string
  tn_AttemptCount :: int
  tn_MaxAttempts :: int
  tn_WorkerID :: string
  tn_LeaseToken :: string
  tn_LeaseExpiresAt :: "gotime option"
  tn_LastHeartbeatAt :: "gotime option"
  tn_RetryAt :: "gotime option"
  tn_StartedAt :: "gotime option"
  tn_FinishedAt :: "gotime option"

abbreviation RunTypeTurn :: string where "RunTypeTurn \<equiv> ''turn''"
abbreviation RunTypeSubagent :: string where "RunTypeSubagent \<equiv> ''subagent''"

record run =
  rn_ID :: int
  rn_OwnerID :: int
  rn_CreatedAt :: gotime
  rn_UpdatedAt :: gotime
  rn_AgentID :: int
  rn_ConversationID :: "int option"
  rn_WorkspaceID :: "int option"
  rn_ParentRunID :: "int option"
  rn_RunType :: string
  rn_DelegationDepth :: int
  rn_DefinitionJSON :: string
  rn_DefinitionHash :: string
  rn_RuleHash :: string
  rn_Status :: string
  rn_InputJSON :: string
  rn_OutputJSON :: string
  rn_ErrorMessage :: string
  rn_TotalTokens :: int
  rn_LatencyMS :: int
  rn_StartedAt :: gotime
  rn_FinishedAt :: "gotime option"

abbreviation ApprovalStatusPending :: string where "ApprovalStatusPending \<equiv> ''pending''"
abbreviation ApprovalStatusApproved :: string where "ApprovalStatusApproved \<equiv> ''approved''"
abbreviation ApprovalStatusRejected :: string where "ApprovalStatusRejected \<equiv> ''rejected''"

record approval_request =
  ap_ID :: int
  ap_OwnerID :: int
  ap_CreatedAt :: gotime
  ap_UpdatedAt :: gotime
  ap_RunID :: int
  ap_ToolCallID :: string
  ap_InteractionID :: string
  ap_ToolName :: string
  ap_RiskLevel :: string
  ap_Reason :: string
  ap_RequestJSON :: string
  ap_Status :: string
  ap_DecisionNote :: string
  ap_DecidedAt :: "gotime option"

record run_checkpoint =
  cp_ID :: int
  cp_OwnerID :: int
  cp_CreatedAt :: gotime
  cp_RunID :: int
  cp_CheckpointJSON :: string

record message =
  ms_ID :: int
  ms_OwnerID :: int
  ms_CreatedAt :: gotime
  ms_ConversationID :: int
  ms_Role :: string
  ms_Content :: string
  ms_RunID :: "int option"
  ms_TokenCount :: int
  ms_ContentType :: string

record conversation_row =
  cv_ID :: int
  cv_OwnerID :: int
  cv_UpdatedAt :: gotime
  cv_DeletedAt :: "gotime option"
  cv_AgentID :: "int option"
  cv_ProjectID :: "int option"
  cv_AgentMode :: string
  cv_LastMessageAt :: "gotime option"

record step_row =
  st_OwnerID :: int
  st_RunID :: int
  st_StepType :: string

record thread_goal =
  tg_ID :: int
  tg_OwnerID :: int
  tg_CreatedAt :: gotime
  tg_UpdatedAt :: gotime
  tg_ConversationID :: int
  tg_GoalID :: string
  tg_Objective :: string
  tg_Status :: string
  tg_TokenBudget :: "int option"
  tg_TokensUsed :: int
  tg_TimeUsedSeconds :: int

section \<open>Tables, statements and transactions\<close>

record db =
  db_turns :: "turn list"
  db_runs :: "run list"
  db_approvals :: "approval_request list"
  db_checkpoints :: "run_checkpoint list"
  db_messages :: "message list"
  db_conversations :: "conversation_row list"
  db_steps :: "step_row list"
  db_goals :: "thread_goal list"
  db_deferrals :: "(int \<times> int) list"

record world =
  w_db :: db
  w_statements :: nat
  w_readings :: nat
  w_next_id :: int

datatype db_error = ErrRecordNotFound | ErrInvalidData | ErrLeaseLost | ErrNoTurnAvailable | ErrDuplicatedKey | Db_error string

record db_env =
  statement_fails :: "nat \<Rightarrow> string option"
  clock_reading :: "nat \<Rightarrow> gotime"
  row_locked :: "nat \<Rightarrow> turn \<Rightarrow> bool"
  json_valid :: "string \<Rightarrow> bool"
  new_uuid :: "nat \<Rightarrow> string"

definition Now :: "db_env \<Rightarrow> world \<Rightarrow> gotime \<times> world" where
  "Now env w = (clock_reading env (w_readings w), w\<lparr>w_readings := Suc (w_readings w)\<rparr>)"

text \<open>One statement: it counts, and fails or has its effect on the tables.\<close>

definition statement :: "db_env \<Rightarrow> (db \<Rightarrow> (db_error + 'a) \<times> db) \<Rightarrow> world \<Rightarrow> (db_error + 'a) \<times> world" where
  "statement env f w =
     (case statement_fails env (w_statements w) of
        Some e \<Rightarrow> (Inl (Db_error e), w\<lparr>w_statements := Suc (w_statements w)\<rparr>)
      | None \<Rightarrow> (case f (w_db w) of (r, d) \<Rightarrow> (r, w\<lparr>w_statements := Suc (w_statements w), w_db := d\<rparr>)))"

definition First :: "db_env \<Rightarrow> (db \<Rightarrow> 'r list) \<Rightarrow> ('r \<Rightarrow> bool) \<Rightarrow> world \<Rightarrow> (db_error + 'r) \<times> world" where
  "First env rows P =
     statement env (\<lambda>d. (case List.find P (rows d) of None \<Rightarrow> Inl ErrRecordNotFound | Some r \<Rightarrow> Inr r, d))"

text \<open>\<^verbatim>\<open>Order("id DESC").First\<close>.\<close>

definition Last_first :: "db_env \<Rightarrow> (db \<Rightarrow> 'r list) \<Rightarrow> ('r \<Rightarrow> bool) \<Rightarrow> world \<Rightarrow> (db_error + 'r) \<times> world" where
  "Last_first env rows P = First env (\<lambda>d. rev (rows d)) P"

definition Find :: "db_env \<Rightarrow> (db \<Rightarrow> 'r list) \<Rightarrow> ('r \<Rightarrow> bool) \<Rightarrow> world \<Rightarrow> (db_error + 'r list) \<times> world" where
  "Find env rows P = statement env (\<lambda>d. (Inr (filter P (rows d)), d))"

definition change_where :: "('r \<Rightarrow> bool) \<Rightarrow> ('r \<Rightarrow> 'r) \<Rightarrow> 'r list \<Rightarrow> 'r list" where
  "change_where P f = map (\<lambda>r. if P r then f r else r)"

definition Updates ::
  "db_env \<Rightarrow> (db \<Rightarrow> 'r list) \<Rightarrow> (('r list \<Rightarrow> 'r list) \<Rightarrow> db \<Rightarrow> db) \<Rightarrow> ('r \<Rightarrow> bool) \<Rightarrow> ('r \<Rightarrow> 'r) \<Rightarrow> world \<Rightarrow> (db_error + nat) \<times> world" where
  "Updates env rows upd P f =
     statement env (\<lambda>d. (Inr (length (filter P (rows d))), upd (change_where P f) d))"

text \<open>\<^verbatim>\<open>Save\<close> writes the row with the key of the given one, or adds it when there is none.\<close>

definition put_row :: "('r \<Rightarrow> int) \<Rightarrow> 'r \<Rightarrow> 'r list \<Rightarrow> 'r list" where
  "put_row key r rs =
     (if \<exists>x\<in>set rs. key x = key r then change_where (\<lambda>x. key x = key r) (\<lambda>_. r) rs else insort_key key r rs)"

definition Save :: "db_env \<Rightarrow> (('r list \<Rightarrow> 'r list) \<Rightarrow> db \<Rightarrow> db) \<Rightarrow> ('r \<Rightarrow> int) \<Rightarrow> 'r \<Rightarrow> world \<Rightarrow> (db_error + unit) \<times> world" where
  "Save env upd key r = statement env (\<lambda>d. (Inr (), upd (put_row key r) d))"

definition Save_turn :: "db_env \<Rightarrow> turn \<Rightarrow> world \<Rightarrow> (db_error + unit) \<times> world" where
  "Save_turn env = Save env db_turns_update tn_ID"

definition Save_run :: "db_env \<Rightarrow> run \<Rightarrow> world \<Rightarrow> (db_error + unit) \<times> world" where
  "Save_run env = Save env db_runs_update rn_ID"

text \<open>\<^verbatim>\<open>Create\<close>: the database picks the key, the row gets it. The unique keys of the table of turns are checked.\<close>

definition fresh_id :: "world \<Rightarrow> int \<times> world" where
  "fresh_id w = (w_next_id w, w\<lparr>w_next_id := w_next_id w + 1\<rparr>)"

definition Create :: "db_env \<Rightarrow> (('r list \<Rightarrow> 'r list) \<Rightarrow> db \<Rightarrow> db) \<Rightarrow> (int \<Rightarrow> 'r) \<Rightarrow> (db \<Rightarrow> 'r \<Rightarrow> bool) \<Rightarrow> world \<Rightarrow> (db_error + 'r) \<times> world" where
  "Create env upd mk taken w =
     (case fresh_id w of (i, w) \<Rightarrow>
        statement env (\<lambda>d. if taken d (mk i) then (Inl ErrDuplicatedKey, d) else (Inr (mk i), upd (\<lambda>rs. rs @ [mk i]) d)) w)"

definition turn_key_taken :: "db \<Rightarrow> turn \<Rightarrow> bool" where
  "turn_key_taken d t \<longleftrightarrow>
     (\<exists>x\<in>set (db_turns d). (tn_OwnerID x = tn_OwnerID t \<and> tn_ConversationID x = tn_ConversationID t \<and> tn_IdempotencyKey x = tn_IdempotencyKey t) \<or>
        (tn_RunID x = tn_RunID t \<and> tn_RunID t \<noteq> None))"

text \<open>A body runs on; the values it has changed are kept beside its error.\<close>

definition try_db ::
  "(db_error + 'a) \<times> world \<Rightarrow> 'm \<Rightarrow> ('a \<Rightarrow> world \<Rightarrow> (db_error option \<times> 'm) \<times> world) \<Rightarrow> (db_error option \<times> 'm) \<times> world" where
  "try_db r m k = (case r of (Inl e, w) \<Rightarrow> ((Some e, m), w) | (Inr x, w) \<Rightarrow> k x w)"

text \<open>\<^verbatim>\<open>db.Transaction\<close>: an error of the body, or of the commit, rolls the tables back.\<close>

definition transaction :: "db_env \<Rightarrow> (world \<Rightarrow> (db_error option \<times> 'm) \<times> world) \<Rightarrow> world \<Rightarrow> (db_error option \<times> 'm) \<times> world" where
  "transaction env body w =
     (case body w of
        ((Some e, m), w') \<Rightarrow> ((Some e, m), w'\<lparr>w_db := w_db w\<rparr>)
      | ((None, m), w') \<Rightarrow>
          (case statement env (\<lambda>d. (Inr (), d)) w' of
             (Inl e, w'') \<Rightarrow> ((Some e, m), w''\<lparr>w_db := w_db w\<rparr>)
           | (Inr _, w'') \<Rightarrow> ((None, m), w'')))"

section \<open>Turns (agent\_repo.go)\<close>

definition turn_defaults :: "gotime \<Rightarrow> turn \<Rightarrow> turn" where
  "turn_defaults now item =
     item\<lparr>tn_CreatedAt := now, tn_UpdatedAt := now,
       tn_Status := (if tn_Status item = [] then TurnStatusQueued else tn_Status item),
       tn_MaxAttempts := (if tn_MaxAttempts item \<le> 0 then 3 else tn_MaxAttempts item),
       tn_InputJSON := (if tn_InputJSON item = [] then ''{}'' else tn_InputJSON item)\<rparr>"

definition create_turn :: "db_env \<Rightarrow> turn \<Rightarrow> world \<Rightarrow> (db_error + turn) \<times> world" where
  "create_turn env item = Create env db_turns_update (\<lambda>i. item\<lparr>tn_ID := i\<rparr>) turn_key_taken"

definition turn_Create :: "db_env \<Rightarrow> turn \<Rightarrow> world \<Rightarrow> (db_error + turn) \<times> world" where
  "turn_Create env item w = (case Now env w of (now, w) \<Rightarrow> create_turn env (turn_defaults now item) w)"

definition touchConversationLastMessage :: "db_env \<Rightarrow> int \<Rightarrow> int \<Rightarrow> gotime \<Rightarrow> world \<Rightarrow> (db_error + unit) \<times> world" where
  "touchConversationLastMessage env ownerID conversationID lastMessageAt w =
     (if conversationID \<le> 0 then (Inr (), w)
      else case Now env w of (now, w) \<Rightarrow>
        (case Updates env db_conversations db_conversations_update
                (\<lambda>c. cv_ID c = conversationID \<and> cv_OwnerID c = ownerID \<and> cv_DeletedAt c = None)
                (\<lambda>c. c\<lparr>cv_LastMessageAt := Some lastMessageAt, cv_UpdatedAt := now\<rparr>) w of
           (Inl e, w) \<Rightarrow> (Inl e, w) | (Inr _, w) \<Rightarrow> (Inr (), w)))"

text \<open>\<^verbatim>\<open>createTurnArtifacts\<close>: the message, the run and the turn, which then refers to the two.\<close>

definition createTurnArtifacts ::
  "db_env \<Rightarrow> turn \<times> message \<times> run \<Rightarrow> world \<Rightarrow> (db_error option \<times> turn \<times> message \<times> run) \<times> world" where
  "createTurnArtifacts env m w =
     (case m of (item, userMessage, run) \<Rightarrow>
      case Now env w of (now, w) \<Rightarrow>
      let userMessage = userMessage\<lparr>ms_CreatedAt := now\<rparr> in
      try_db (Create env db_messages_update (\<lambda>i. userMessage\<lparr>ms_ID := i\<rparr>) (\<lambda>_ _. False) w) (item, userMessage, run) (\<lambda>userMessage w.
      try_db (touchConversationLastMessage env (ms_OwnerID userMessage) (ms_ConversationID userMessage) now w) (item, userMessage, run) (\<lambda>_ w.
      let run = run\<lparr>rn_CreatedAt := now, rn_UpdatedAt := now, rn_StartedAt := (if rn_StartedAt run = 0 then now else rn_StartedAt run)\<rparr> in
      try_db (Create env db_runs_update (\<lambda>i. run\<lparr>rn_ID := i\<rparr>) (\<lambda>_ _. False) w) (item, userMessage, run) (\<lambda>run w.
      let item = turn_defaults now (item\<lparr>tn_RunID := Some (rn_ID run), tn_UserMessageID := ms_ID userMessage\<rparr>) in
      try_db (create_turn env item w) (item, userMessage, run) (\<lambda>item w. ((None, item, userMessage, run), w))))))"

definition CreateWithArtifacts ::
  "db_env \<Rightarrow> turn \<Rightarrow> message \<Rightarrow> run \<Rightarrow> world \<Rightarrow> (db_error option \<times> turn \<times> message \<times> run) \<times> world" where
  "CreateWithArtifacts env item userMessage run = transaction env (createTurnArtifacts env (item, userMessage, run))"

definition goal_run_blocks :: "run \<Rightarrow> run \<Rightarrow> bool" where
  "goal_run_blocks run r \<longleftrightarrow> rn_OwnerID r = rn_OwnerID run \<and> rn_ConversationID r = rn_ConversationID run \<and>
     rn_Status r \<in> {RunStatusQueued, RunStatusRunning, RunStatusResuming, RunStatusWaitingHuman, RunStatusPaused}"

text \<open>The flag says whether the artifacts were created. A conversation id is demanded up front.\<close>

definition CreateGoalContinuationWithArtifacts ::
  "db_env \<Rightarrow> string \<Rightarrow> turn \<Rightarrow> message \<Rightarrow> run \<Rightarrow> world \<Rightarrow> (db_error option \<times> bool \<times> turn \<times> message \<times> run) \<times> world" where
  "CreateGoalContinuationWithArtifacts env goalID item userMessage run w =
     (let m = (item, userMessage, run) in
      case rn_ConversationID run of
        None \<Rightarrow> ((Some ErrInvalidData, False, m), w)
      | Some conv \<Rightarrow>
          if TrimSpace goalID = [] then ((Some ErrInvalidData, False, m), w)
          else transaction env (\<lambda>w.
            case First env db_goals (\<lambda>g. tg_OwnerID g = rn_OwnerID run \<and> tg_ConversationID g = conv \<and> tg_GoalID g = goalID) w of
              (Inl ErrRecordNotFound, w) \<Rightarrow> ((None, False, m), w)
            | (Inl e, w) \<Rightarrow> ((Some e, False, m), w)
            | (Inr current, w) \<Rightarrow>
                if tg_Status current \<noteq> GoalActive then ((None, False, m), w)
                else try_db (Find env db_deferrals (\<lambda>p. p = (rn_OwnerID run, conv)) w) (False, m) (\<lambda>deferred w.
                  if deferred \<noteq> [] then ((None, False, m), w)
                  else try_db (Find env db_runs (goal_run_blocks run) w) (False, m) (\<lambda>activeRuns w.
                    if activeRuns \<noteq> [] then ((None, False, m), w)
                    else case createTurnArtifacts env m w of
                           ((Some e, m), w) \<Rightarrow> ((Some e, False, m), w)
                         | ((None, m), w) \<Rightarrow> ((None, True, m), w)))) w)"

definition clearTurnLease :: "turn \<Rightarrow> turn" where
  "clearTurnLease item =
     item\<lparr>tn_WorkerID := [], tn_LeaseToken := [], tn_LeaseExpiresAt := None, tn_LastHeartbeatAt := None\<rparr>"

definition owns_turn :: "turn \<Rightarrow> turn \<Rightarrow> bool" where
  "owns_turn item t \<longleftrightarrow> tn_ID t = tn_ID item \<and> tn_OwnerID t = tn_OwnerID item \<and>
     (tn_LeaseToken item \<noteq> [] \<longrightarrow> tn_LeaseToken t = tn_LeaseToken item \<and> tn_Status t = TurnStatusRunning)"

definition run_open :: "run \<Rightarrow> run \<Rightarrow> bool" where
  "run_open run r \<longleftrightarrow> rn_ID r = rn_ID run \<and> rn_OwnerID r = rn_OwnerID run \<and>
     rn_Status r \<in> {RunStatusQueued, RunStatusRunning, RunStatusResuming}"

definition locked_run :: "db_env \<Rightarrow> turn \<Rightarrow> run \<Rightarrow> world \<Rightarrow> (db_error + run) \<times> world" where
  "locked_run env item run w = (if tn_LeaseToken item \<noteq> [] then First env db_runs (run_open run) w else (Inr run, w))"

definition lost :: "bool \<Rightarrow> db_error option \<Rightarrow> db_error option" where
  "lost protect err = (if err = Some ErrRecordNotFound \<and> protect then Some ErrLeaseLost else err)"

definition save_pair :: "db_env \<Rightarrow> gotime \<Rightarrow> turn \<Rightarrow> run \<Rightarrow> world \<Rightarrow> (db_error option \<times> turn \<times> run) \<times> world" where
  "save_pair env now item run w =
     (let item = item\<lparr>tn_UpdatedAt := now\<rparr>; run = run\<lparr>rn_UpdatedAt := now\<rparr> in
      try_db (Save_turn env item w) (item, run) (\<lambda>_ w.
      try_db (Save_run env run w) (item, run) (\<lambda>_ w. ((None, item, run), w))))"

definition completeOwned ::
  "db_env \<Rightarrow> turn \<Rightarrow> run \<Rightarrow> (gotime \<Rightarrow> turn \<Rightarrow> world \<Rightarrow> (db_error option \<times> turn) \<times> world) \<Rightarrow> world \<Rightarrow>
     (db_error option \<times> turn \<times> run) \<times> world" where
  "completeOwned env item run beforeSave w =
     (case transaction env (\<lambda>w.
        try_db (First env db_turns (owns_turn item) w) (item, run) (\<lambda>_ w.
        try_db (locked_run env item run w) (item, run) (\<lambda>_ w.
        case Now env w of (now, w) \<Rightarrow>
        case beforeSave now item w of
          ((Some e, item), w) \<Rightarrow> ((Some e, item, run), w)
        | ((None, item), w) \<Rightarrow> save_pair env now item run w))) w of
        ((err, m), w) \<Rightarrow> ((lost (tn_LeaseToken item \<noteq> []) err, m), w))"

definition UpdateRunOwned :: "db_env \<Rightarrow> turn \<Rightarrow> run \<Rightarrow> bool \<Rightarrow> world \<Rightarrow> (db_error option \<times> turn \<times> run) \<times> world" where
  "UpdateRunOwned env item run releaseLease =
     completeOwned env item run (\<lambda>_ item w. ((None, if releaseLease then clearTurnLease item else item), w))"

text \<open>The turn refers to the message, whose key the insertion has set, also when a later statement fails. The
  message is returned with the key it has then.\<close>

definition insert_answer ::
  "db_env \<Rightarrow> message \<Rightarrow> gotime \<Rightarrow> turn \<Rightarrow> world \<Rightarrow> (db_error option \<times> turn) \<times> world" where
  "insert_answer env assistantMessage now item w =
     (let assistantMessage = assistantMessage\<lparr>ms_CreatedAt := now\<rparr> in
      try_db (Create env db_messages_update (\<lambda>i. assistantMessage\<lparr>ms_ID := i\<rparr>) (\<lambda>_ _. False) w) item (\<lambda>msg w.
      let item = item\<lparr>tn_AssistantMessageID := Some (ms_ID msg)\<rparr> in
      try_db (touchConversationLastMessage env (ms_OwnerID msg) (ms_ConversationID msg) now w) item (\<lambda>_ w.
      ((None, clearTurnLease item), w))))"

definition CompleteWithMessage ::
  "db_env \<Rightarrow> turn \<Rightarrow> message \<Rightarrow> run \<Rightarrow> world \<Rightarrow> (db_error option \<times> turn \<times> run) \<times> world" where
  "CompleteWithMessage env item assistantMessage run = completeOwned env item run (insert_answer env assistantMessage)"

definition turn_FindByID :: "db_env \<Rightarrow> int \<Rightarrow> int \<Rightarrow> world \<Rightarrow> (db_error + turn) \<times> world" where
  "turn_FindByID env ownerID i = First env db_turns (\<lambda>t. tn_OwnerID t = ownerID \<and> tn_ID t = i)"

definition FindByIdempotencyKey :: "db_env \<Rightarrow> int \<Rightarrow> int \<Rightarrow> string \<Rightarrow> world \<Rightarrow> (db_error + turn) \<times> world" where
  "FindByIdempotencyKey env ownerID conversationID key =
     First env db_turns (\<lambda>t. tn_OwnerID t = ownerID \<and> tn_ConversationID t = conversationID \<and> tn_IdempotencyKey t = key)"

definition FindByRunID :: "db_env \<Rightarrow> int \<Rightarrow> int \<Rightarrow> world \<Rightarrow> (db_error + turn) \<times> world" where
  "FindByRunID env ownerID runID = First env db_turns (\<lambda>t. tn_OwnerID t = ownerID \<and> tn_RunID t = Some runID)"

definition FindLatestByConversation :: "db_env \<Rightarrow> int \<Rightarrow> int \<Rightarrow> int \<Rightarrow> world \<Rightarrow> (db_error + turn) \<times> world" where
  "FindLatestByConversation env ownerID agentID conversationID =
     Last_first env db_turns (\<lambda>t. tn_OwnerID t = ownerID \<and> tn_AgentID t = agentID \<and> tn_ConversationID t = conversationID)"

definition turn_Update :: "db_env \<Rightarrow> turn \<Rightarrow> world \<Rightarrow> (db_error option \<times> turn) \<times> world" where
  "turn_Update env item w =
     (case Now env w of (now, w) \<Rightarrow>
      let item = item\<lparr>tn_UpdatedAt := now\<rparr> in
      try_db (Updates env db_turns db_turns_update
                (\<lambda>t. tn_ID t = tn_ID item \<and> tn_OwnerID t = tn_OwnerID item \<and>
                     (tn_LeaseToken item \<noteq> [] \<longrightarrow> tn_LeaseToken t = tn_LeaseToken item))
                (\<lambda>_. item) w) item (\<lambda>rowsAffected w.
        ((if rowsAffected \<noteq> 1 \<and> tn_LeaseToken item \<noteq> [] then Some ErrLeaseLost else None, item), w)))"

definition turn_open :: "string \<Rightarrow> bool" where
  "turn_open status \<longleftrightarrow>
     status \<in> {TurnStatusQueued, TurnStatusRunning, TurnStatusRetryWait, TurnStatusWaitingHuman, TurnStatusPaused}"

definition cancelled_turn :: "gotime \<Rightarrow> turn \<Rightarrow> turn" where
  "cancelled_turn finishedAt t =
     t\<lparr>tn_Status := TurnStatusCancelled, tn_FinishedAt := Some finishedAt, tn_UpdatedAt := finishedAt, tn_WorkerID := [],
       tn_LeaseToken := [], tn_LeaseExpiresAt := None, tn_LastHeartbeatAt := None, tn_RetryAt := None\<rparr>"

definition CancelByRun :: "db_env \<Rightarrow> int \<Rightarrow> int \<Rightarrow> gotime \<Rightarrow> world \<Rightarrow> (db_error + turn) \<times> world" where
  "CancelByRun env ownerID runID finishedAt w =
     (case Updates env db_turns db_turns_update
             (\<lambda>t. tn_OwnerID t = ownerID \<and> tn_RunID t = Some runID \<and> turn_open (tn_Status t)) (cancelled_turn finishedAt) w of
        (Inl e, w) \<Rightarrow> (Inl e, w)
      | (Inr rowsAffected, w) \<Rightarrow>
          if rowsAffected \<noteq> 1 then (Inl ErrNoTurnAvailable, w) else FindByRunID env ownerID runID w)"

definition claimable :: "gotime \<Rightarrow> turn \<Rightarrow> bool" where
  "claimable now t \<longleftrightarrow> (tn_Status t = TurnStatusQueued \<or> tn_Status t = TurnStatusRetryWait) \<and>
     (case tn_RetryAt t of None \<Rightarrow> True | Some r \<Rightarrow> r \<le> now) \<and> tn_AttemptCount t < tn_MaxAttempts t"

definition claimed_turn :: "string \<Rightarrow> string \<Rightarrow> gotime \<Rightarrow> gotime \<Rightarrow> turn \<Rightarrow> turn" where
  "claimed_turn workerID leaseToken leaseUntil now t =
     t\<lparr>tn_Status := TurnStatusRunning, tn_WorkerID := workerID, tn_LeaseToken := leaseToken, tn_LeaseExpiresAt := Some leaseUntil,
       tn_LastHeartbeatAt := Some now, tn_RetryAt := None, tn_AttemptCount := tn_AttemptCount t + 1, tn_UpdatedAt := now,
       tn_StartedAt := (case tn_StartedAt t of None \<Rightarrow> Some now | Some s \<Rightarrow> Some s)\<rparr>"

text \<open>\<^verbatim>\<open>ClaimNext\<close> returns the row as it is read back after the update.\<close>

definition ClaimNext :: "db_env \<Rightarrow> string \<Rightarrow> string \<Rightarrow> gotime \<Rightarrow> world \<Rightarrow> (db_error + turn) \<times> world" where
  "ClaimNext env workerID leaseToken leaseUntil w =
     (case transaction env (\<lambda>w.
        case Now env w of (now, w) \<Rightarrow>
        try_db (First env db_turns (\<lambda>t. claimable now t \<and> \<not> row_locked env (w_statements w) t) w) None (\<lambda>claimed w.
        try_db (Updates env db_turns db_turns_update (\<lambda>t. tn_ID t = tn_ID claimed)
                  (claimed_turn workerID leaseToken leaseUntil now) w) None (\<lambda>_ w.
        try_db (First env db_turns (\<lambda>t. tn_ID t = tn_ID claimed) w) None (\<lambda>claimed w. ((None, Some claimed), w))))) w of
        ((None, Some claimed), w) \<Rightarrow> (Inr claimed, w)
      | ((None, None), w) \<Rightarrow> (Inl ErrRecordNotFound, w)
      | ((Some e, _), w) \<Rightarrow> (Inl (if e = ErrRecordNotFound then ErrNoTurnAvailable else e), w))"

definition RenewLease :: "db_env \<Rightarrow> int \<Rightarrow> string \<Rightarrow> gotime \<Rightarrow> world \<Rightarrow> db_error option \<times> world" where
  "RenewLease env turnID leaseToken leaseUntil w =
     (case Now env w of (now, w) \<Rightarrow>
      case Updates env db_turns db_turns_update
             (\<lambda>t. tn_ID t = turnID \<and> tn_LeaseToken t = leaseToken \<and> tn_Status t = TurnStatusRunning)
             (\<lambda>t. t\<lparr>tn_LeaseExpiresAt := Some leaseUntil, tn_LastHeartbeatAt := Some now, tn_UpdatedAt := now\<rparr>) w of
        (Inl e, w) \<Rightarrow> (Some e, w)
      | (Inr rowsAffected, w) \<Rightarrow> (if rowsAffected \<noteq> 1 then Some ErrRecordNotFound else None, w))"

definition expired_at :: "gotime \<Rightarrow> turn \<Rightarrow> bool" where
  "expired_at now t \<longleftrightarrow> tn_Status t = TurnStatusRunning \<and> (\<exists>e\<in>set_option (tn_LeaseExpiresAt t). e < now)"

definition ListExpiredRunning :: "db_env \<Rightarrow> gotime \<Rightarrow> int \<Rightarrow> world \<Rightarrow> (db_error + turn list) \<times> world" where
  "ListExpiredRunning env before maximum w =
     (let maximum = (if maximum \<le> 0 \<or> 1000 < maximum then 100 else maximum) in
      case Find env db_turns (expired_at before) w of
        (Inl e, w) \<Rightarrow> (Inl e, w)
      | (Inr items, w) \<Rightarrow> (Inr (take (nat maximum) (sort_key (\<lambda>t. the (tn_LeaseExpiresAt t)) items)), w))"

definition run_recoverable :: "run \<Rightarrow> run \<Rightarrow> bool" where
  "run_recoverable run r \<longleftrightarrow> rn_ID r = rn_ID run \<and> rn_OwnerID r = rn_OwnerID run \<and>
     rn_Status r \<in> {RunStatusRunning, RunStatusResuming}"

definition RecoverExpired :: "db_env \<Rightarrow> turn \<Rightarrow> run \<Rightarrow> world \<Rightarrow> (db_error option \<times> turn \<times> run) \<times> world" where
  "RecoverExpired env item run w =
     (if tn_LeaseToken item = [] then ((Some ErrInvalidData, item, run), w)
      else case transaction env (\<lambda>w.
        case Now env w of (now, w) \<Rightarrow>
        try_db (First env db_turns (\<lambda>t. owns_turn item t \<and> expired_at now t) w) (item, run) (\<lambda>_ w.
        try_db (First env db_runs (run_recoverable run) w) (item, run) (\<lambda>_ w.
        save_pair env now (clearTurnLease item) run w))) w of
        ((err, m), w) \<Rightarrow> ((lost True err, m), w))"

section \<open>Runs (run\_repo.go)\<close>

definition run_Create :: "db_env \<Rightarrow> run \<Rightarrow> world \<Rightarrow> (db_error + run) \<times> world" where
  "run_Create env item w =
     (case Now env w of (now, w) \<Rightarrow>
      let item = item\<lparr>rn_CreatedAt := now, rn_UpdatedAt := now, rn_StartedAt := (if rn_StartedAt item = 0 then now else rn_StartedAt item)\<rparr> in
      Create env db_runs_update (\<lambda>i. item\<lparr>rn_ID := i\<rparr>) (\<lambda>_ _. False) w)"

definition run_FindByID :: "db_env \<Rightarrow> int \<Rightarrow> int \<Rightarrow> world \<Rightarrow> (db_error + run) \<times> world" where
  "run_FindByID env ownerID i = First env db_runs (\<lambda>r. rn_ID r = i \<and> rn_OwnerID r = ownerID)"

definition ListByParent :: "db_env \<Rightarrow> int \<Rightarrow> int \<Rightarrow> world \<Rightarrow> (db_error + run list) \<times> world" where
  "ListByParent env ownerID parentRunID = Find env db_runs (\<lambda>r. rn_OwnerID r = ownerID \<and> rn_ParentRunID r = Some parentRunID)"

definition run_Update :: "db_env \<Rightarrow> run \<Rightarrow> world \<Rightarrow> (db_error option \<times> run) \<times> world" where
  "run_Update env item w =
     (case Now env w of (now, w) \<Rightarrow>
      let item = item\<lparr>rn_UpdatedAt := now\<rparr> in
      try_db (Save_run env item w) item (\<lambda>_ w. ((None, item), w)))"

definition cancelled_run :: "gotime \<Rightarrow> run \<Rightarrow> run" where
  "cancelled_run finishedAt r = r\<lparr>rn_Status := RunStatusCancelled, rn_FinishedAt := Some finishedAt, rn_UpdatedAt := finishedAt\<rparr>"

definition CancelActive :: "db_env \<Rightarrow> run \<Rightarrow> gotime \<Rightarrow> world \<Rightarrow> (db_error + (bool \<times> run)) \<times> world" where
  "CancelActive env item finishedAt w =
     (case Updates env db_runs db_runs_update
             (\<lambda>r. rn_ID r = rn_ID item \<and> rn_OwnerID r = rn_OwnerID item \<and> IsActiveRunStatus (rn_Status r)) (cancelled_run finishedAt) w of
        (Inl e, w) \<Rightarrow> (Inl e, w)
      | (Inr rowsAffected, w) \<Rightarrow> (Inr (if rowsAffected = 1 then (True, cancelled_run finishedAt item) else (False, item)), w))"

section \<open>Approvals and checkpoints (approval\_repo.go)\<close>

definition CreateApprovalRequest :: "db_env \<Rightarrow> approval_request \<Rightarrow> world \<Rightarrow> (db_error + approval_request) \<times> world" where
  "CreateApprovalRequest env item w =
     (case Now env w of (now, w) \<Rightarrow>
      let item = item\<lparr>ap_CreatedAt := now, ap_UpdatedAt := now,
                   ap_Status := (if ap_Status item = [] then ApprovalStatusPending else ap_Status item)\<rparr> in
      Create env db_approvals_update (\<lambda>i. item\<lparr>ap_ID := i\<rparr>) (\<lambda>_ _. False) w)"

definition FindApprovalRequestByID :: "db_env \<Rightarrow> int \<Rightarrow> int \<Rightarrow> world \<Rightarrow> (db_error + approval_request) \<times> world" where
  "FindApprovalRequestByID env ownerID i = First env db_approvals (\<lambda>a. ap_ID a = i \<and> ap_OwnerID a = ownerID)"

definition FindPendingApprovalByRun :: "db_env \<Rightarrow> int \<Rightarrow> int \<Rightarrow> world \<Rightarrow> (db_error + approval_request) \<times> world" where
  "FindPendingApprovalByRun env ownerID runID =
     Last_first env db_approvals (\<lambda>a. ap_OwnerID a = ownerID \<and> ap_RunID a = runID \<and> ap_Status a = ApprovalStatusPending)"

definition ListApprovalRequests :: "db_env \<Rightarrow> int \<Rightarrow> string \<Rightarrow> world \<Rightarrow> (db_error + approval_request list) \<times> world" where
  "ListApprovalRequests env ownerID status =
     Find env (\<lambda>d. rev (db_approvals d)) (\<lambda>a. ap_OwnerID a = ownerID \<and> (status \<noteq> [] \<longrightarrow> ap_Status a = status))"

definition CreateCheckpoint :: "db_env \<Rightarrow> run_checkpoint \<Rightarrow> world \<Rightarrow> (db_error + run_checkpoint) \<times> world" where
  "CreateCheckpoint env item w =
     (case Now env w of (now, w) \<Rightarrow> Create env db_checkpoints_update (\<lambda>i. item\<lparr>cp_ID := i, cp_CreatedAt := now\<rparr>) (\<lambda>_ _. False) w)"

definition create_approval :: "db_env \<Rightarrow> gotime \<Rightarrow> approval_request option \<Rightarrow> world \<Rightarrow> (db_error + approval_request option) \<times> world" where
  "create_approval env now approval w =
     (case approval of
        None \<Rightarrow> (Inr None, w)
      | Some a \<Rightarrow>
          let a = a\<lparr>ap_CreatedAt := now, ap_UpdatedAt := now,
                 ap_Status := (if ap_Status a = [] then ApprovalStatusPending else ap_Status a)\<rparr> in
          case Create env db_approvals_update (\<lambda>i. a\<lparr>ap_ID := i\<rparr>) (\<lambda>_ _. False) w of
            (Inl e, w) \<Rightarrow> (Inl e, w) | (Inr a, w) \<Rightarrow> (Inr (Some a), w))"

definition SavePausedRun ::
  "db_env \<Rightarrow> turn \<Rightarrow> run \<Rightarrow> approval_request option \<Rightarrow> run_checkpoint \<Rightarrow> world \<Rightarrow> (db_error option \<times> turn \<times> run) \<times> world" where
  "SavePausedRun env turn run approval checkpoint w =
     (if tn_LeaseToken turn = [] then ((Some ErrInvalidData, turn, run), w)
      else case transaction env (\<lambda>w.
        try_db (First env db_turns (owns_turn turn) w) (turn, run) (\<lambda>_ w.
        try_db (First env db_runs (run_recoverable run) w) (turn, run) (\<lambda>_ w.
        case Now env w of (now, w) \<Rightarrow>
        case save_pair env now (clearTurnLease turn) run w of
          ((Some e, m), w) \<Rightarrow> ((Some e, m), w)
        | ((None, m), w) \<Rightarrow>
            try_db (create_approval env now approval w) m (\<lambda>_ w.
            try_db (Create env db_checkpoints_update (\<lambda>i. checkpoint\<lparr>cp_ID := i, cp_CreatedAt := now\<rparr>) (\<lambda>_ _. False) w) m
              (\<lambda>_ w. ((None, m), w)))))) w of
        ((err, m), w) \<Rightarrow> ((lost True err, m), w))"

definition FindLatestCheckpointByRun :: "db_env \<Rightarrow> int \<Rightarrow> int \<Rightarrow> world \<Rightarrow> (db_error + run_checkpoint) \<times> world" where
  "FindLatestCheckpointByRun env ownerID runID = Last_first env db_checkpoints (\<lambda>c. cp_OwnerID c = ownerID \<and> cp_RunID c = runID)"

definition run_waits :: "run \<Rightarrow> bool" where
  "run_waits r \<longleftrightarrow> rn_Status r = RunStatusWaitingHuman \<or> rn_Status r = RunStatusPaused"

definition requeued_turn :: "string \<Rightarrow> gotime \<Rightarrow> turn \<Rightarrow> turn" where
  "requeued_turn input now t =
     t\<lparr>tn_Status := TurnStatusQueued, tn_InputJSON := input, tn_ErrorMessage := [], tn_FinishedAt := None, tn_RetryAt := None,
       tn_WorkerID := [], tn_LeaseToken := [], tn_LeaseExpiresAt := None, tn_LastHeartbeatAt := None, tn_UpdatedAt := now\<rparr>"

definition resume_turn :: "run \<Rightarrow> string \<Rightarrow> gotime \<Rightarrow> turn" where
  "resume_turn run input now =
     \<lparr>tn_ID = 0, tn_OwnerID = rn_OwnerID run, tn_CreatedAt = now, tn_UpdatedAt = now, tn_AgentID = rn_AgentID run,
      tn_ConversationID = (case rn_ConversationID run of None \<Rightarrow> 0 | Some c \<Rightarrow> c), tn_RunID = Some (rn_ID run),
      tn_UserMessageID = 0, tn_AssistantMessageID = None, tn_IdempotencyKey = ''subagent-resume-'' @ itoa (rn_ID run),
      tn_Status = TurnStatusQueued, tn_InputJSON = input, tn_OutputJSON = [], tn_ErrorMessage = [], tn_AttemptCount = 0,
      tn_MaxAttempts = 3, tn_WorkerID = [], tn_LeaseToken = [], tn_LeaseExpiresAt = None, tn_LastHeartbeatAt = None,
      tn_RetryAt = None, tn_StartedAt = None, tn_FinishedAt = None\<rparr>"

definition queueResumeTurn :: "db_env \<Rightarrow> run \<Rightarrow> string \<Rightarrow> gotime \<Rightarrow> world \<Rightarrow> (db_error option \<times> unit) \<times> world" where
  "queueResumeTurn env run input now w =
     (if input = [] \<or> \<not> json_valid env input then ((Some ErrInvalidData, ()), w)
      else try_db (Updates env db_turns db_turns_update
             (\<lambda>t. tn_OwnerID t = rn_OwnerID run \<and> tn_RunID t = Some (rn_ID run) \<and>
                  (tn_Status t = TurnStatusPaused \<or> tn_Status t = TurnStatusWaitingHuman))
             (requeued_turn input now) w) () (\<lambda>rowsAffected w.
           if rowsAffected \<noteq> 1 then
             if rn_RunType run \<noteq> RunTypeSubagent then ((Some ErrInvalidData, ()), w)
             else try_db (create_turn env (resume_turn run input now) w) () (\<lambda>_ w. ((None, ()), w))
           else ((None, ()), w)))"

definition mark_resuming :: "db_env \<Rightarrow> int \<Rightarrow> int \<Rightarrow> gotime \<Rightarrow> world \<Rightarrow> (db_error + nat) \<times> world" where
  "mark_resuming env ownerID runID now =
     Updates env db_runs db_runs_update (\<lambda>r. rn_ID r = runID \<and> rn_OwnerID r = ownerID \<and> run_waits r)
       (\<lambda>r. r\<lparr>rn_Status := RunStatusResuming, rn_UpdatedAt := now\<rparr>)"

definition ClaimResume :: "db_env \<Rightarrow> int \<Rightarrow> int \<Rightarrow> string \<Rightarrow> world \<Rightarrow> (db_error option \<times> unit) \<times> world" where
  "ClaimResume env ownerID runID turnInput =
     transaction env (\<lambda>w.
       try_db (run_FindByID env ownerID runID w) () (\<lambda>run w.
       if \<not> run_waits run then ((Some ErrInvalidData, ()), w)
       else case Now env w of (now, w) \<Rightarrow>
         try_db (mark_resuming env ownerID runID now w) () (\<lambda>rowsAffected w.
         if rowsAffected \<noteq> 1 then ((Some ErrInvalidData, ()), w)
         else case Now env w of (now, w) \<Rightarrow> queueResumeTurn env run turnInput now w)))"

definition DecideApprovalAndClaimResume ::
  "db_env \<Rightarrow> approval_request \<Rightarrow> string \<Rightarrow> world \<Rightarrow> (db_error option \<times> unit) \<times> world" where
  "DecideApprovalAndClaimResume env item turnInput =
     transaction env (\<lambda>w.
       try_db (FindApprovalRequestByID env (ap_OwnerID item) (ap_ID item) w) () (\<lambda>current w.
       if ap_Status current \<noteq> ApprovalStatusPending \<or> ap_RunID current \<noteq> ap_RunID item then ((Some ErrInvalidData, ()), w)
       else try_db (run_FindByID env (ap_OwnerID item) (ap_RunID item) w) () (\<lambda>run w.
       if \<not> run_waits run then ((Some ErrInvalidData, ()), w)
       else case Now env w of (now, w) \<Rightarrow>
         try_db (Updates env db_approvals db_approvals_update
                   (\<lambda>a. ap_ID a = ap_ID item \<and> ap_OwnerID a = ap_OwnerID item \<and> ap_RunID a = ap_RunID item \<and> ap_Status a = ApprovalStatusPending)
                   (\<lambda>a. a\<lparr>ap_Status := ap_Status item, ap_DecisionNote := ap_DecisionNote item, ap_DecidedAt := ap_DecidedAt item,
                          ap_UpdatedAt := now\<rparr>) w) () (\<lambda>rowsAffected w.
         if rowsAffected \<noteq> 1 then ((Some ErrInvalidData, ()), w)
         else try_db (mark_resuming env (ap_OwnerID item) (ap_RunID item) now w) () (\<lambda>rowsAffected w.
         if rowsAffected \<noteq> 1 then ((Some ErrInvalidData, ()), w)
         else queueResumeTurn env run turnInput now w)))))"

section \<open>Goals (goal\_repo.go)\<close>

datatype goal_error = GoalNotFound | GoalConflict | Goal_db db_error

definition goal_Get :: "db_env \<Rightarrow> int \<Rightarrow> int \<Rightarrow> world \<Rightarrow> (goal_error + thread_goal) \<times> world" where
  "goal_Get env ownerID conversationID w =
     (case First env db_goals (\<lambda>g. tg_OwnerID g = ownerID \<and> tg_ConversationID g = conversationID) w of
        (Inl ErrRecordNotFound, w) \<Rightarrow> (Inl GoalNotFound, w)
      | (Inl e, w) \<Rightarrow> (Inl (Goal_db e), w)
      | (Inr item, w) \<Rightarrow> (Inr item, w))"

definition goal_key_taken :: "db \<Rightarrow> thread_goal \<Rightarrow> bool" where
  "goal_key_taken d g \<longleftrightarrow>
     (\<exists>x\<in>set (db_goals d). (tg_OwnerID x = tg_OwnerID g \<and> tg_ConversationID x = tg_ConversationID g) \<or> tg_GoalID x = tg_GoalID g)"

definition goal_Create :: "db_env \<Rightarrow> thread_goal \<Rightarrow> world \<Rightarrow> (goal_error + thread_goal) \<times> world" where
  "goal_Create env item w =
     (let item = item\<lparr>tg_GoalID := (if tg_GoalID item = [] then new_uuid env (w_statements w) else tg_GoalID item),
                   tg_Status := (if tg_Status item = [] then GoalActive else tg_Status item)\<rparr> in
      case Now env w of (now, w) \<Rightarrow>
      case Create env db_goals_update (\<lambda>i. item\<lparr>tg_ID := i, tg_CreatedAt := now, tg_UpdatedAt := now\<rparr>) goal_key_taken w of
        (Inl e, w) \<Rightarrow> (Inl (Goal_db e), w) | (Inr item, w) \<Rightarrow> (Inr item, w))"

definition goal_Update :: "db_env \<Rightarrow> thread_goal \<Rightarrow> string \<Rightarrow> world \<Rightarrow> goal_error option \<times> world" where
  "goal_Update env item expectedGoalID w =
     (case transaction env (\<lambda>w.
        case First env db_goals (\<lambda>g. tg_OwnerID g = tg_OwnerID item \<and> tg_ConversationID g = tg_ConversationID item \<and>
               (expectedGoalID \<noteq> [] \<longrightarrow> tg_GoalID g = expectedGoalID)) w of
          (Inl ErrRecordNotFound, w) \<Rightarrow> ((Some ErrRecordNotFound, Some GoalConflict), w)
        | (Inl e, w) \<Rightarrow> ((Some e, Some (Goal_db e)), w)
        | (Inr current, w) \<Rightarrow>
            if \<not> CanSetStatus (tg_Status current) (tg_Status item) then ((Some ErrInvalidData, Some GoalConflict), w)
            else case Now env w of (now, w) \<Rightarrow>
              (case Updates env db_goals db_goals_update (\<lambda>g. tg_ID g = tg_ID current)
                      (\<lambda>g. g\<lparr>tg_Objective := tg_Objective item, tg_Status := tg_Status item, tg_TokenBudget := tg_TokenBudget item,
                             tg_UpdatedAt := now\<rparr>) w of
                 (Inl e, w) \<Rightarrow> ((Some e, Some (Goal_db e)), w)
               | (Inr _, w) \<Rightarrow> ((None, None), w))) w of
        ((None, _), w) \<Rightarrow> (None, w)
      | ((Some e, Some ge), w) \<Rightarrow> (Some ge, w)
      | ((Some e, None), w) \<Rightarrow> (Some (Goal_db e), w))"

definition goal_Delete :: "db_env \<Rightarrow> int \<Rightarrow> int \<Rightarrow> world \<Rightarrow> goal_error option \<times> world" where
  "goal_Delete env ownerID conversationID w =
     (let P = (\<lambda>g. tg_OwnerID g = ownerID \<and> tg_ConversationID g = conversationID) in
      case statement env (\<lambda>d. (Inr (length (filter P (db_goals d))), d\<lparr>db_goals := filter (\<lambda>g. \<not> P g) (db_goals d)\<rparr>)) w of
        (Inl e, w) \<Rightarrow> (Some (Goal_db e), w)
      | (Inr rowsAffected, w) \<Rightarrow> (if rowsAffected = 0 then Some GoalNotFound else None, w))"

definition accounting_allowed :: "string \<Rightarrow> string \<Rightarrow> bool" where
  "accounting_allowed mode status =
     (if mode = ''active_or_stopped''
      then status \<in> {GoalActive, GoalPaused, GoalBlocked, GoalUsageLimited, GoalBudgetLimited}
      else if mode = ''active_or_complete'' then status \<in> {GoalActive, GoalBudgetLimited, GoalComplete}
      else status \<in> {GoalActive, GoalBudgetLimited})"

definition charged :: "int \<Rightarrow> int \<Rightarrow> gotime \<Rightarrow> thread_goal \<Rightarrow> thread_goal" where
  "charged timeDelta tokenDelta now g =
     (let used = tg_TokensUsed g + tokenDelta in
      g\<lparr>tg_TimeUsedSeconds := tg_TimeUsedSeconds g + timeDelta, tg_TokensUsed := used,
        tg_Status := (if tg_Status g = GoalActive \<and> (\<exists>b\<in>set_option (tg_TokenBudget g). b \<le> used) then GoalBudgetLimited else tg_Status g),
        tg_UpdatedAt := now\<rparr>)"

definition account :: "db_env \<Rightarrow> int \<Rightarrow> int \<Rightarrow> int \<Rightarrow> int \<Rightarrow> string \<Rightarrow> string \<Rightarrow> world \<Rightarrow> (goal_error + thread_goal) \<times> world" where
  "account env ownerID conversationID timeDelta tokenDelta mode expectedGoalID w =
     (let timeDelta = max 0 timeDelta; tokenDelta = max 0 tokenDelta in
      case transaction env (\<lambda>w.
        try_db (First env db_goals (\<lambda>g. tg_OwnerID g = ownerID \<and> tg_ConversationID g = conversationID) w) None (\<lambda>current w.
        if (expectedGoalID \<noteq> [] \<and> tg_GoalID current \<noteq> expectedGoalID) \<or> \<not> accounting_allowed mode (tg_Status current) \<or>
           (timeDelta = 0 \<and> tokenDelta = 0)
        then ((None, Some current), w)
        else case Now env w of (now, w) \<Rightarrow>
          let current = charged timeDelta tokenDelta now current in
          try_db (Updates env db_goals db_goals_update (\<lambda>g. tg_ID g = tg_ID current)
                    (\<lambda>g. g\<lparr>tg_TimeUsedSeconds := tg_TimeUsedSeconds current, tg_TokensUsed := tg_TokensUsed current,
                           tg_Status := tg_Status current, tg_UpdatedAt := now\<rparr>) w) None (\<lambda>_ w. ((None, Some current), w)))) w of
        ((None, Some g), w) \<Rightarrow> (Inr g, w)
      | ((Some ErrRecordNotFound, _), w) \<Rightarrow> (Inl GoalNotFound, w)
      | ((Some e, _), w) \<Rightarrow> (Inl (Goal_db e), w)
      | ((None, None), w) \<Rightarrow> (Inl GoalNotFound, w))"

definition SetDeferral :: "db_env \<Rightarrow> int \<Rightarrow> int \<Rightarrow> bool \<Rightarrow> world \<Rightarrow> db_error option \<times> world" where
  "SetDeferral env ownerID conversationID deferred w =
     (let k = (ownerID, conversationID) in
      case statement env (\<lambda>d. (Inr (), d\<lparr>db_deferrals := (if \<not> deferred then removeAll k (db_deferrals d)
                  else if k \<in> set (db_deferrals d) then db_deferrals d else db_deferrals d @ [k])\<rparr>)) w of
        (Inl e, w) \<Rightarrow> (Some e, w) | (Inr _, w) \<Rightarrow> (None, w))"

definition HasDeferral :: "db_env \<Rightarrow> int \<Rightarrow> int \<Rightarrow> world \<Rightarrow> (db_error + bool) \<times> world" where
  "HasDeferral env ownerID conversationID w =
     (case Find env db_deferrals (\<lambda>p. p = (ownerID, conversationID)) w of
        (Inl e, w) \<Rightarrow> (Inl e, w) | (Inr rows, w) \<Rightarrow> (Inr (rows \<noteq> []), w))"

end
