(* ===== verification/Model_Stream.thy ===== *)
theory Model_Stream
  imports Go_Prelude
begin

text \<open>
  The provider-neutral stream of one model response
  (\<^verbatim>\<open>internal/infrastructure/llm/tool_stream.go\<close>, \<^verbatim>\<open>tool_stream_accumulator.go\<close> and the stream
  parser of \<^verbatim>\<open>chat_client.go\<close>): the events, the parser that takes proposed plans out of the text, the
  accumulator that rebuilds the message, and the parser that turns provider chunks into events.

  A callback \<^verbatim>\<open>onEvent\<close> acts on a world of the caller's: a function from a world and an event to the
  new world and an error. \<open>json_valid\<close> is \<^verbatim>\<open>json.Valid\<close>, arbitrary. The statement
  \<^verbatim>\<open>if err := f(); err != nil { return err }\<close> is \<open>go_try\<close>.
\<close>

section \<open>Errors that end a sequence of statements\<close>

type_synonym 's outcome = "'s \<times> string option"

definition go_try :: "'s outcome \<Rightarrow> ('s \<Rightarrow> 's outcome) \<Rightarrow> 's outcome" where
  "go_try m k = (case snd m of None \<Rightarrow> k (fst m) | Some e \<Rightarrow> (fst m, Some e))"

fun go_for :: "('s \<Rightarrow> 'x \<Rightarrow> 's outcome) \<Rightarrow> 's \<Rightarrow> 'x list \<Rightarrow> 's outcome" where
  "go_for f s [] = (s, None)"
| "go_for f s (x # xs) = go_try (f s x) (\<lambda>s'. go_for f s' xs)"

lemma go_try_simps [simp]: "go_try (s, None) k = k s" "go_try (s, Some e) k = (s, Some e)"
  by (simp_all add: go_try_def)

lemma go_for_append: "go_for f s (xs @ ys) = go_try (go_for f s xs) (\<lambda>s'. go_for f s' ys)"
  by (induction xs arbitrary: s) (auto simp: go_try_def split: option.split)

text \<open>An invariant of a sequence of statements, whether or not it ends in an error.\<close>

lemma go_try_inv: "P (fst m) \<Longrightarrow> (\<And>s. snd m = None \<Longrightarrow> s = fst m \<Longrightarrow> P s \<Longrightarrow> P (fst (k s))) \<Longrightarrow> P (fst (go_try m k))"
  by (simp add: go_try_def split: option.split)

lemma go_for_inv:
  assumes "P s" "\<And>s x. x \<in> set xs \<Longrightarrow> P s \<Longrightarrow> P (fst (f s x))"
  shows "P (fst (go_for f s xs))"
  using assms
proof (induction xs arbitrary: s)
  case (Cons x xs)
  then have "P (fst (f s x))" by simp
  then show ?case unfolding go_for.simps
    by (rule go_try_inv) (rule Cons.IH, use Cons.prems in auto)
qed simp

section \<open>Events\<close>

datatype model_kind =
    ModelTextStart | ModelTextDelta | ModelTextEnd
  | ModelReasoningStart | ModelReasoningDelta | ModelReasoningEnd
  | ModelProposedPlanStart | ModelProposedPlanDelta | ModelProposedPlanEnd
  | ModelToolCallStart | ModelToolCallDelta | ModelToolCallEnd
  | ModelUsage | ModelDone | ModelError

record usage =
  PromptTokens :: int
  CompletionTokens :: int
  TotalTokens :: int
  CachedInputTokens :: int
  ReasoningTokens :: int

definition no_usage :: usage where
  "no_usage = \<lparr>PromptTokens = 0, CompletionTokens = 0, TotalTokens = 0, CachedInputTokens = 0, ReasoningTokens = 0\<rparr>"

record model_event =
  me_Kind :: model_kind
  me_Index :: int
  me_CallID :: string
  me_Name :: string
  me_Text :: string
  me_ArgumentDelta :: string
  me_Arguments :: "string option"
  me_Usage :: usage
  me_Err :: "string option"

definition mev :: "model_kind \<Rightarrow> model_event" where
  "mev k = \<lparr>me_Kind = k, me_Index = 0, me_CallID = '''', me_Name = '''', me_Text = '''', me_ArgumentDelta = '''',
     me_Arguments = None, me_Usage = no_usage, me_Err = None\<rparr>"

abbreviation text_delta :: "string \<Rightarrow> model_event" where
  "text_delta t \<equiv> (mev ModelTextDelta)\<lparr>me_Text := t\<rparr>"

abbreviation plan_delta :: "string \<Rightarrow> model_event" where
  "plan_delta t \<equiv> (mev ModelProposedPlanDelta)\<lparr>me_Text := t\<rparr>"

type_synonym 'w sink = "'w \<Rightarrow> model_event \<Rightarrow> 'w outcome"

section \<open>Proposed plans\<close>

definition proposedPlanOpenTag :: string where "proposedPlanOpenTag = ''<proposed_plan>''"
definition proposedPlanCloseTag :: string where "proposedPlanCloseTag = ''</proposed_plan>''"

record plan_parser =
  pp_line :: string
  pp_visible :: string
  pp_inside :: bool
  pp_plan :: string
  pp_lastPlan :: string
  pp_sawPlan :: bool

definition new_plan_parser :: plan_parser where
  "new_plan_parser = \<lparr>pp_line = [], pp_visible = [], pp_inside = False, pp_plan = [], pp_lastPlan = [], pp_sawPlan = False\<rparr>"

definition TrimSuffix :: "string \<Rightarrow> string \<Rightarrow> string" where
  "TrimSuffix s suf =
     (if length suf \<le> length s \<and> drop (length s - length suf) s = suf then take (length s - length suf) s else s)"

definition newline :: rune where "newline = [CHR 0x0A]"
definition carriage :: string where "carriage = [CHR 0x0D]"

definition flushLine :: "plan_parser \<Rightarrow> model_event list \<times> plan_parser" where
  "flushLine p =
     (let line = pp_line p;
          p = p\<lparr>pp_line := []\<rparr>;
          trimmed = TrimSuffix (TrimSuffix line newline) carriage
      in if \<not> pp_inside p \<and> trimmed = proposedPlanOpenTag
         then ([mev ModelProposedPlanStart], p\<lparr>pp_inside := True, pp_sawPlan := True, pp_plan := []\<rparr>)
         else if pp_inside p \<and> trimmed = proposedPlanCloseTag
         then ([mev ModelProposedPlanEnd], p\<lparr>pp_inside := False, pp_lastPlan := pp_plan p\<rparr>)
         else if pp_inside p
         then ([plan_delta line], p\<lparr>pp_plan := pp_plan p @ line\<rparr>)
         else ([text_delta line], p\<lparr>pp_visible := pp_visible p @ line\<rparr>))"

fun push_runes :: "plan_parser \<Rightarrow> rune list \<Rightarrow> model_event list \<times> plan_parser" where
  "push_runes p [] = ([], p)"
| "push_runes p (r # rs) =
     (let p = p\<lparr>pp_line := pp_line p @ r\<rparr> in
      if r \<noteq> newline then push_runes p rs
      else case flushLine p of (es, p') \<Rightarrow> case push_runes p' rs of (es', p'') \<Rightarrow> (es @ es', p''))"

definition Push :: "plan_parser \<Rightarrow> string \<Rightarrow> model_event list \<times> plan_parser" where
  "Push p text = (if text = [] then ([], p) else push_runes p (runes text))"

definition Finish :: "plan_parser \<Rightarrow> model_event list \<times> plan_parser" where
  "Finish p =
     (case (if 0 < length (pp_line p) then flushLine p else ([], p)) of (es, p) \<Rightarrow>
        if pp_inside p
        then (es @ [mev ModelProposedPlanEnd], p\<lparr>pp_inside := False, pp_lastPlan := pp_plan p\<rparr>)
        else (es, p))"

definition NormalizeProposedPlan :: "string \<Rightarrow> string \<times> string" where
  "NormalizeProposedPlan text =
     (case Push new_plan_parser text of (es, p) \<Rightarrow>
      case Finish p of (es', p') \<Rightarrow>
        (concat (map me_Text (filter (\<lambda>e. me_Kind e = ModelTextDelta) (es @ es'))), pp_lastPlan p'))"

section \<open>The accumulator\<close>

record stream_tool_call =
  st_id :: string
  st_typ :: string
  st_name :: string
  st_arguments :: string

record accumulator =
  acc_content :: string
  acc_usage :: usage
  acc_toolCalls :: "(int \<times> stream_tool_call) list"
  acc_toolOrder :: "int list"

record tool_call =
  tc_ID :: string
  tc_Type :: string
  tc_Name :: string
  tc_Arguments :: string

definition NewToolStreamAccumulator :: accumulator where
  "NewToolStreamAccumulator = \<lparr>acc_content = [], acc_usage = no_usage, acc_toolCalls = [], acc_toolOrder = []\<rparr>"

definition AddText :: "accumulator \<Rightarrow> string \<Rightarrow> accumulator" where
  "AddText a text = (if text = [] then a else a\<lparr>acc_content := acc_content a @ text\<rparr>)"

definition AddUsage :: "accumulator \<Rightarrow> usage \<Rightarrow> accumulator" where
  "AddUsage a u = a\<lparr>acc_usage := u\<rparr>"

definition AddToolCallDelta :: "accumulator \<Rightarrow> int \<Rightarrow> string \<Rightarrow> string \<Rightarrow> string \<Rightarrow> accumulator" where
  "AddToolCallDelta a index callID name argumentDelta =
     (let (a, call) = (case map_of (acc_toolCalls a) index of
            Some call \<Rightarrow> (a, call)
          | None \<Rightarrow> (a\<lparr>acc_toolOrder := acc_toolOrder a @ [index]\<rparr>,
                     \<lparr>st_id = [], st_typ = ''function'', st_name = [], st_arguments = []\<rparr>));
          call = (if callID \<noteq> [] then call\<lparr>st_id := callID\<rparr> else call);
          call = (if name \<noteq> [] then call\<lparr>st_name := name\<rparr> else call);
          call = (if argumentDelta \<noteq> [] then call\<lparr>st_arguments := st_arguments call @ argumentDelta\<rparr> else call)
      in a\<lparr>acc_toolCalls := AList.update index call (acc_toolCalls a)\<rparr>)"

definition validToolArguments :: "(string \<Rightarrow> bool) \<Rightarrow> string \<Rightarrow> string + string" where
  "validToolArguments json_valid raw =
     (let trimmed = TrimSpace raw in
      if length trimmed = 0 then Inr ''{}''
      else if \<not> json_valid trimmed then Inl ''invalid JSON arguments''
      else Inr trimmed)"

definition ToolCall :: "(string \<Rightarrow> bool) \<Rightarrow> accumulator \<Rightarrow> int \<Rightarrow> string + tool_call" where
  "ToolCall json_valid a index =
     (case map_of (acc_toolCalls a) index of
        None \<Rightarrow> Inl (''tool call index '' @ itoa index @ '' is not present'')
      | Some call \<Rightarrow>
          (case validToolArguments json_valid (st_arguments call) of
             Inl err \<Rightarrow> Inl (''tool call index '' @ itoa index @ '': '' @ err)
           | Inr arguments \<Rightarrow>
               Inr \<lparr>tc_ID = st_id call, tc_Type = (if st_typ call = [] then ''function'' else st_typ call),
                    tc_Name = st_name call, tc_Arguments = arguments\<rparr>))"

definition orderedToolIndexes :: "accumulator \<Rightarrow> int list" where
  "orderedToolIndexes a = sort (acc_toolOrder a)"

fun collect_calls :: "(string \<Rightarrow> bool) \<Rightarrow> accumulator \<Rightarrow> int list \<Rightarrow> string + tool_call list" where
  "collect_calls json_valid a [] = Inr []"
| "collect_calls json_valid a (i # is) =
     (case ToolCall json_valid a i of
        Inl err \<Rightarrow> Inl err
      | Inr call \<Rightarrow> (case collect_calls json_valid a is of Inl err \<Rightarrow> Inl err | Inr calls \<Rightarrow> Inr (call # calls)))"

definition ToolCalls :: "(string \<Rightarrow> bool) \<Rightarrow> accumulator \<Rightarrow> string + tool_call list" where
  "ToolCalls json_valid a =
     (if length (acc_toolOrder a) = 0 then Inr [] else collect_calls json_valid a (orderedToolIndexes a))"

record chat_message =
  cm_Role :: string
  cm_Content :: string
  cm_ToolCallID :: string
  cm_ToolCalls :: "tool_call list"

record chat_response =
  cr_Message :: chat_message
  cr_Usage :: usage
  cr_ProposedPlan :: string

definition Response :: "(string \<Rightarrow> bool) \<Rightarrow> accumulator \<Rightarrow> string + chat_response" where
  "Response json_valid a =
     (case ToolCalls json_valid a of
        Inl err \<Rightarrow> Inl err
      | Inr calls \<Rightarrow>
          Inr \<lparr>cr_Message = \<lparr>cm_Role = ''assistant'', cm_Content = acc_content a, cm_ToolCallID = [], cm_ToolCalls = calls\<rparr>,
               cr_Usage = acc_usage a, cr_ProposedPlan = []\<rparr>)"

section \<open>From provider chunks to events\<close>

record stream_call =
  sc_Index :: "int option"
  sc_ID :: string
  sc_Name :: string
  sc_Arguments :: string

record stream_choice =
  ch_FinishReason :: string
  ch_Content :: string
  ch_ReasoningContent :: string
  ch_Reasoning :: string
  ch_ToolCalls :: "stream_call list"

record stream_chunk =
  ck_Choices :: "stream_choice list"
  ck_Usage :: "usage option"

text \<open>The parser and the world of its callback, which the parser's methods both change. The maps from
  indexes to true are sets.\<close>

record 'w stream_parser =
  sp_world :: 'w
  sp_acc :: accumulator
  sp_textOpen :: bool
  sp_reasoningOpen :: bool
  sp_toolStarted :: "int set"
  sp_toolEnded :: "int set"
  sp_failed :: bool
  sp_done :: bool

definition newToolStreamParser :: "'w \<Rightarrow> 'w stream_parser" where
  "newToolStreamParser w = \<lparr>sp_world = w, sp_acc = NewToolStreamAccumulator, sp_textOpen = False,
     sp_reasoningOpen = False, sp_toolStarted = {}, sp_toolEnded = {}, sp_failed = False, sp_done = False\<rparr>"

definition emit :: "'w sink \<Rightarrow> 'w stream_parser \<Rightarrow> model_event \<Rightarrow> 'w stream_parser outcome" where
  "emit onEvent p ev = (case onEvent (sp_world p) ev of (w, err) \<Rightarrow> (p\<lparr>sp_world := w\<rparr>, err))"

definition fail :: "'w sink \<Rightarrow> 'w stream_parser \<Rightarrow> string \<Rightarrow> 'w stream_parser outcome" where
  "fail onEvent p err =
     (if sp_failed p then (p, Some err)
      else go_try (emit onEvent (p\<lparr>sp_failed := True\<rparr>) ((mev ModelError)\<lparr>me_Err := Some err\<rparr>))
             (\<lambda>p. (p, Some err)))"

definition closeTextAndReasoning :: "'w sink \<Rightarrow> 'w stream_parser \<Rightarrow> 'w stream_parser outcome" where
  "closeTextAndReasoning onEvent p =
     go_try (if sp_textOpen p
             then go_try (emit onEvent p (mev ModelTextEnd)) (\<lambda>p. (p\<lparr>sp_textOpen := False\<rparr>, None))
             else (p, None))
       (\<lambda>p. if sp_reasoningOpen p
            then go_try (emit onEvent p (mev ModelReasoningEnd)) (\<lambda>p. (p\<lparr>sp_reasoningOpen := False\<rparr>, None))
            else (p, None))"

definition beginText :: "'w sink \<Rightarrow> 'w stream_parser \<Rightarrow> 'w stream_parser outcome" where
  "beginText onEvent p =
     (if sp_textOpen p then (p, None)
      else go_try (if sp_reasoningOpen p
                   then go_try (emit onEvent p (mev ModelReasoningEnd)) (\<lambda>p. (p\<lparr>sp_reasoningOpen := False\<rparr>, None))
                   else (p, None))
             (\<lambda>p. emit onEvent (p\<lparr>sp_textOpen := True\<rparr>) (mev ModelTextStart)))"

definition beginReasoning :: "'w sink \<Rightarrow> 'w stream_parser \<Rightarrow> 'w stream_parser outcome" where
  "beginReasoning onEvent p =
     (if sp_reasoningOpen p then (p, None)
      else go_try (if sp_textOpen p
                   then go_try (emit onEvent p (mev ModelTextEnd)) (\<lambda>p. (p\<lparr>sp_textOpen := False\<rparr>, None))
                   else (p, None))
             (\<lambda>p. emit onEvent (p\<lparr>sp_reasoningOpen := True\<rparr>) (mev ModelReasoningStart)))"

definition finish_tool :: "(string \<Rightarrow> bool) \<Rightarrow> 'w sink \<Rightarrow> 'w stream_parser \<Rightarrow> int \<Rightarrow> 'w stream_parser outcome" where
  "finish_tool json_valid onEvent p index =
     (if index \<in> sp_toolEnded p then (p, None)
      else case ToolCall json_valid (sp_acc p) index of
        Inl err \<Rightarrow> fail onEvent p err
      | Inr call \<Rightarrow>
          go_try (emit onEvent p ((mev ModelToolCallEnd)\<lparr>me_Index := index, me_CallID := tc_ID call, me_Name := tc_Name call,
                    me_Arguments := Some (tc_Arguments call)\<rparr>))
            (\<lambda>p. (p\<lparr>sp_toolEnded := insert index (sp_toolEnded p)\<rparr>, None)))"

definition finishTools :: "(string \<Rightarrow> bool) \<Rightarrow> 'w sink \<Rightarrow> 'w stream_parser \<Rightarrow> 'w stream_parser outcome" where
  "finishTools json_valid onEvent p = go_for (finish_tool json_valid onEvent) p (orderedToolIndexes (sp_acc p))"

definition finish :: "(string \<Rightarrow> bool) \<Rightarrow> 'w sink \<Rightarrow> 'w stream_parser \<Rightarrow> 'w stream_parser outcome" where
  "finish json_valid onEvent p =
     (if sp_done p then (p, None)
      else go_try (closeTextAndReasoning onEvent p)
        (\<lambda>p. go_try (finishTools json_valid onEvent p)
          (\<lambda>p. emit onEvent (p\<lparr>sp_done := True\<rparr>) (mev ModelDone))))"

definition finishForReason :: "(string \<Rightarrow> bool) \<Rightarrow> 'w sink \<Rightarrow> 'w stream_parser \<Rightarrow> string \<Rightarrow> 'w stream_parser outcome" where
  "finishForReason json_valid onEvent p reason =
     (if reason \<in> {''tool_calls'', ''function_call'', ''stop'', ''length'', ''content_filter''}
      then go_try (closeTextAndReasoning onEvent p) (finishTools json_valid onEvent)
      else (p, None))"

definition accept_call :: "'w sink \<Rightarrow> 'w stream_parser \<Rightarrow> stream_call \<Rightarrow> 'w stream_parser outcome" where
  "accept_call onEvent p tc =
     (let index = (case sc_Index tc of Some i \<Rightarrow> i | None \<Rightarrow> 0);
          index = (if index < 0 then 0 else index);
          first = (index \<notin> sp_toolStarted p)
      in go_try (if first
                 then go_try (closeTextAndReasoning onEvent p)
                        (\<lambda>p. (p\<lparr>sp_toolStarted := insert index (sp_toolStarted p)\<rparr>, None))
                 else (p, None))
        (\<lambda>p. let p = p\<lparr>sp_acc := AddToolCallDelta (sp_acc p) index (sc_ID tc) (sc_Name tc) (sc_Arguments tc)\<rparr> in
           go_try (if first
                   then emit onEvent p ((mev ModelToolCallStart)\<lparr>me_Index := index, me_CallID := sc_ID tc, me_Name := sc_Name tc\<rparr>)
                   else (p, None))
             (\<lambda>p. if sc_Arguments tc \<noteq> [] \<or> (\<not> first \<and> (sc_ID tc \<noteq> [] \<or> sc_Name tc \<noteq> []))
                  then emit onEvent p ((mev ModelToolCallDelta)\<lparr>me_Index := index, me_CallID := sc_ID tc,
                         me_Name := sc_Name tc, me_ArgumentDelta := sc_Arguments tc\<rparr>)
                  else (p, None))))"

definition accept_reasoning :: "'w sink \<Rightarrow> 'w stream_parser \<Rightarrow> string \<Rightarrow> 'w stream_parser outcome" where
  "accept_reasoning onEvent p reasoning =
     (if reasoning = [] then (p, None)
      else go_try (beginReasoning onEvent p)
             (\<lambda>p. emit onEvent p ((mev ModelReasoningDelta)\<lparr>me_Text := reasoning\<rparr>)))"

definition accept_content :: "'w sink \<Rightarrow> 'w stream_parser \<Rightarrow> string \<Rightarrow> 'w stream_parser outcome" where
  "accept_content onEvent p content =
     (if content = [] then (p, None)
      else go_try (beginText onEvent p)
             (\<lambda>p. emit onEvent (p\<lparr>sp_acc := AddText (sp_acc p) content\<rparr>) (text_delta content)))"

definition accept_choice :: "(string \<Rightarrow> bool) \<Rightarrow> 'w sink \<Rightarrow> 'w stream_parser \<Rightarrow> stream_choice \<Rightarrow> 'w stream_parser outcome" where
  "accept_choice json_valid onEvent p c =
     go_try (accept_reasoning onEvent p (if ch_ReasoningContent c = [] then ch_Reasoning c else ch_ReasoningContent c))
       (\<lambda>p. go_try (accept_content onEvent p (ch_Content c))
         (\<lambda>p. go_try (go_for (accept_call onEvent) p (ch_ToolCalls c))
           (\<lambda>p. if ch_FinishReason c \<noteq> [] then finishForReason json_valid onEvent p (ch_FinishReason c) else (p, None))))"

definition accept_usage :: "(string \<Rightarrow> bool) \<Rightarrow> 'w sink \<Rightarrow> 'w stream_parser \<Rightarrow> usage option \<Rightarrow> 'w stream_parser outcome" where
  "accept_usage json_valid onEvent p us =
     (case us of
        None \<Rightarrow> (p, None)
      | Some u \<Rightarrow>
          go_try (closeTextAndReasoning onEvent p)
            (\<lambda>p. go_try (finishTools json_valid onEvent p)
              (\<lambda>p. emit onEvent (p\<lparr>sp_acc := AddUsage (sp_acc p) u\<rparr>) ((mev ModelUsage)\<lparr>me_Usage := u\<rparr>))))"

definition accept :: "(string \<Rightarrow> bool) \<Rightarrow> 'w sink \<Rightarrow> 'w stream_parser \<Rightarrow> stream_chunk \<Rightarrow> 'w stream_parser outcome" where
  "accept json_valid onEvent p chunk =
     go_try (go_for (accept_choice json_valid onEvent) p (ck_Choices chunk))
       (\<lambda>p. accept_usage json_valid onEvent p (ck_Usage chunk))"

text \<open>The part of \<^verbatim>\<open>StreamChatWithTools\<close> that reads the body of a successful response, line by line.
  \<open>decode\<close> is \<^verbatim>\<open>json.Unmarshal\<close> into a chunk; \<open>scan_err\<close> the error of the scanner after the last
  line, \<open>ctx_err\<close> that of the context.\<close>

fun stream_lines :: "(string \<Rightarrow> bool) \<Rightarrow> (string \<Rightarrow> string + stream_chunk) \<Rightarrow> 'w sink \<Rightarrow> 'w stream_parser \<Rightarrow> string list \<Rightarrow>
    bool \<times> 'w stream_parser outcome" where
  "stream_lines json_valid decode onEvent p [] = (False, (p, None))"
| "stream_lines json_valid decode onEvent p (l # ls) =
     (let line = TrimSpace l in
      if line = [] \<or> HasPrefix line '':'' \<or> \<not> HasPrefix line ''data:'' then stream_lines json_valid decode onEvent p ls
      else
        let data = TrimSpace (drop 5 line) in
        if data = [] then stream_lines json_valid decode onEvent p ls
        else if data = ''[DONE]'' then (True, finish json_valid onEvent p)
        else case decode data of
               Inl err \<Rightarrow> (False, fail onEvent p err)
             | Inr chunk \<Rightarrow>
                 (case accept json_valid onEvent p chunk of
                    (p, Some err) \<Rightarrow> (False, (p, Some err))
                  | (p, None) \<Rightarrow> stream_lines json_valid decode onEvent p ls))"

definition stream_body ::
  "(string \<Rightarrow> bool) \<Rightarrow> (string \<Rightarrow> string + stream_chunk) \<Rightarrow> 'w sink \<Rightarrow> 'w \<Rightarrow> string list \<Rightarrow> string option \<Rightarrow> string option \<Rightarrow>
     'w \<times> (string + chat_response)" where
  "stream_body json_valid decode onEvent w ls scan_err ctx_err =
     (case stream_lines json_valid decode onEvent (newToolStreamParser w) ls of
        (_, (p, Some err)) \<Rightarrow> (sp_world p, Inl err)
      | (True, (p, None)) \<Rightarrow> (sp_world p, Response json_valid (sp_acc p))
      | (False, (p, None)) \<Rightarrow>
          (let err = (case scan_err of
                 Some e \<Rightarrow> (case ctx_err of Some c \<Rightarrow> c | None \<Rightarrow> e)
               | None \<Rightarrow> (case ctx_err of Some c \<Rightarrow> c | None \<Rightarrow> ''unexpected EOF''))
           in case fail onEvent p err of (p, e) \<Rightarrow> (sp_world p, Inl (case e of Some x \<Rightarrow> x | None \<Rightarrow> err))))"

end
