(* ===== verification/Goal_Service.thy ===== *)
theory Goal_Service
  imports Turn_Store Model_Stream
begin

text \<open>
  The part of the agent service that works for goals and starts turns (\<^verbatim>\<open>goal.go\<close>, and \<^verbatim>\<open>StartTurn\<close> with the
  steering queue of \<^verbatim>\<open>service.go\<close>, of \<^verbatim>\<open>internal/application/agent_usecase\<close>).

  The state of the service is the store and its maps: the usage already charged per run, the queued
  steering messages. What it publishes is recorded in order: the snapshots of runs (\<^verbatim>\<open>publishRunSnapshot\<close>) and the
  goals (\<^verbatim>\<open>emitGoalUpdated\<close>); reads that only serve to address a publication are left out. Turning
  the stored definition of an agent into the snapshot of a run is an argument, as is the JSON codec. The guard
  against two continuations of one conversation at the same moment is left out: calls do not overlap here.
\<close>

section \<open>State\<close>

record goal_usage =
  gu_GoalID :: string
  gu_LastUsage :: usage
  gu_HasUsage :: bool
  gu_TokensAccounted :: int
  gu_SecondsAccounted :: int

definition no_goal_usage :: goal_usage where
  "no_goal_usage = \<lparr>gu_GoalID = [], gu_LastUsage = no_usage, gu_HasUsage = False, gu_TokensAccounted = 0, gu_SecondsAccounted = 0\<rparr>"

record service =
  sv_world :: world
  sv_steering :: "int \<Rightarrow> string list"
  sv_usage :: "int \<Rightarrow> goal_usage option"
  sv_snapshots :: "(run \<times> turn option \<times> int option) list"
  sv_goal_events :: "(int \<times> thread_goal option) list"

record svc_env =
  se_db :: db_env
  se_lib :: go_lib
  se_goals :: bool
  se_steps :: bool
  se_budget_ceiling :: "int option"
  se_text :: "db_error \<Rightarrow> string"
  se_definition :: "int \<Rightarrow> int \<Rightarrow> string + (string \<times> string \<times> string)"
  se_observability :: "int \<Rightarrow> int \<Rightarrow> json"

definition on_world :: "(world \<Rightarrow> 'a \<times> world) \<Rightarrow> service \<Rightarrow> 'a \<times> service" where
  "on_world f sv = (case f (sv_world sv) of (r, w) \<Rightarrow> (r, sv\<lparr>sv_world := w\<rparr>))"

definition svc_Now :: "svc_env \<Rightarrow> service \<Rightarrow> gotime \<times> service" where
  "svc_Now env = on_world (Now (se_db env))"

definition emitGoalUpdated :: "int \<Rightarrow> thread_goal option \<Rightarrow> service \<Rightarrow> service" where
  "emitGoalUpdated conversationID item sv =
     (if conversationID \<le> 0 then sv else sv\<lparr>sv_goal_events := sv_goal_events sv @ [(conversationID, item)]\<rparr>)"

definition queueSteering :: "int \<Rightarrow> string \<Rightarrow> service \<Rightarrow> bool \<times> service" where
  "queueSteering runID content sv =
     (let content = TrimSpace content in
      if runID \<le> 0 \<or> content = [] then (False, sv)
      else (True, sv\<lparr>sv_steering := (sv_steering sv)(runID := sv_steering sv runID @ [content])\<rparr>))"

definition consumeSteering :: "int \<Rightarrow> service \<Rightarrow> string list \<times> service" where
  "consumeSteering runID sv = (sv_steering sv runID, sv\<lparr>sv_steering := (sv_steering sv)(runID := [])\<rparr>)"

definition clearSteering :: "int \<Rightarrow> service \<Rightarrow> service" where
  "clearSteering runID sv = sv\<lparr>sv_steering := (sv_steering sv)(runID := [])\<rparr>"

section \<open>Modes and inputs\<close>

definition NormalizeMode :: "string \<Rightarrow> string option" where
  "NormalizeMode mode =
     (let mode = TrimSpace mode in
      if mode \<in> {[], ''default'', ''goal'', ''react''} then Some ''default''
      else if mode \<in> {''plan'', ''plan_execute''} then Some ''plan''
      else None)"

definition decodeInputJSON :: "go_lib \<Rightarrow> string \<Rightarrow> string + json_object" where
  "decodeInputJSON lib raw =
     (let trimmed = TrimSpace raw in
      if trimmed = [] \<or> trimmed = ''null'' then Inr [] else unmarshal_map lib trimmed)"

text \<open>\<^verbatim>\<open>normalizeAgentMode(fmt.Sprint(input["mode"]))\<close>. \<^verbatim>\<open>Sprint\<close> of a value that is not a string is never a mode.\<close>

definition input_mode :: "go_lib \<Rightarrow> string \<Rightarrow> string option" where
  "input_mode lib raw =
     (case decodeInputJSON lib raw of
        Inl _ \<Rightarrow> None
      | Inr input \<Rightarrow> (case map_of input ''mode'' of Some (JStr s) \<Rightarrow> NormalizeMode s | _ \<Rightarrow> None))"

section \<open>Goals of a user\<close>

definition goal_text :: "svc_env \<Rightarrow> goal_error \<Rightarrow> string" where
  "goal_text env e = (case e of GoalNotFound \<Rightarrow> ''goal not found'' | GoalConflict \<Rightarrow> ''goal conflict'' | Goal_db e \<Rightarrow> se_text env e)"

definition GetGoal :: "svc_env \<Rightarrow> int \<Rightarrow> int \<Rightarrow> service \<Rightarrow> (string + thread_goal option) \<times> service" where
  "GetGoal env ownerID conversationID sv =
     (if \<not> se_goals env \<or> ownerID \<le> 0 \<or> conversationID \<le> 0 then (Inl ''goal repository is not configured'', sv)
      else case on_world (goal_Get (se_db env) ownerID conversationID) sv of
             (Inl GoalNotFound, sv) \<Rightarrow> (Inr None, sv)
           | (Inl e, sv) \<Rightarrow> (Inl (goal_text env e), sv)
           | (Inr item, sv) \<Rightarrow> (Inr (Some item), sv))"

record goal_update_request =
  gr_Objective :: "string option"
  gr_Status :: "string option"
  gr_TokenBudget :: "int option"

definition request_objective :: "string option \<Rightarrow> string + string option" where
  "request_objective ob =
     (case ob of None \<Rightarrow> Inr None
      | Some s \<Rightarrow> (case NormalizeObjective s of Inl e \<Rightarrow> Inl e | Inr s \<Rightarrow> Inr (Some s)))"

definition request_status :: "thread_goal option \<Rightarrow> string option \<Rightarrow> string + string" where
  "request_status current requested =
     (case requested of
        None \<Rightarrow> Inr (case current of None \<Rightarrow> GoalActive | Some c \<Rightarrow> tg_Status c)
      | Some s \<Rightarrow> if \<not> ValidateStatus s then Inl ''invalid goal status''
                 else if \<exists>c\<in>set_option current. \<not> CanSetStatus (tg_Status c) s then Inl ''cannot change a terminal goal status''
                 else Inr s)"

definition request_budget :: "svc_env \<Rightarrow> thread_goal option \<Rightarrow> int option \<Rightarrow> string + int option" where
  "request_budget env current requested =
     (case requested of
        Some b \<Rightarrow> NormalizeBudget (Some b) (se_budget_ceiling env)
      | None \<Rightarrow> (case current of None \<Rightarrow> NormalizeBudget None (se_budget_ceiling env) | Some c \<Rightarrow> Inr (tg_TokenBudget c)))"

definition steering_text :: "string \<Rightarrow> string" where
  "steering_text objective =
     ''The active thread goal objective was updated. Continue toward this new objective and preserve the latest user intent:'' @
     [CHR 0x0A, CHR 0x0A] @ ''<objective>'' @ [CHR 0x0A] @ objective @ [CHR 0x0A] @ ''</objective>''"

text \<open>The run of the latest turn of the conversation hears of a new objective if it is at work.\<close>

definition steer_latest :: "svc_env \<Rightarrow> int \<Rightarrow> int \<Rightarrow> string \<Rightarrow> service \<Rightarrow> service" where
  "steer_latest env ownerID conversationID objective sv =
     (case on_world (First (se_db env) db_conversations (\<lambda>c. cv_ID c = conversationID \<and> cv_OwnerID c = ownerID \<and> cv_DeletedAt c = None)) sv of (res, sv) \<Rightarrow>
      let agentID = (case res of Inr c \<Rightarrow> (case cv_AgentID c of Some a \<Rightarrow> a | None \<Rightarrow> 0) | Inl _ \<Rightarrow> 0) in
      case on_world (FindLatestByConversation (se_db env) ownerID agentID conversationID) sv of
        (Inl _, sv) \<Rightarrow> sv
      | (Inr turn, sv) \<Rightarrow>
          (case tn_RunID turn of
             None \<Rightarrow> sv
           | Some runID \<Rightarrow>
               (case on_world (run_FindByID (se_db env) ownerID runID) sv of
                  (Inl _, sv) \<Rightarrow> sv
                | (Inr run, sv) \<Rightarrow>
                    if rn_Status run = RunStatusRunning \<or> rn_Status run = RunStatusResuming
                    then snd (queueSteering (rn_ID run) (steering_text objective) sv) else sv)))"

definition SetGoal :: "svc_env \<Rightarrow> int \<Rightarrow> int \<Rightarrow> goal_update_request \<Rightarrow> service \<Rightarrow> (string + thread_goal) \<times> service" where
  "SetGoal env ownerID conversationID request sv =
     (if \<not> se_goals env \<or> ownerID \<le> 0 \<or> conversationID \<le> 0 then (Inl ''goal repository is not configured'', sv)
      else case on_world (goal_Get (se_db env) ownerID conversationID) sv of (got, sv) \<Rightarrow>
      case (case got of Inl GoalNotFound \<Rightarrow> Inr None | Inl e \<Rightarrow> Inl (goal_text env e) | Inr g \<Rightarrow> Inr (Some g)) of
        Inl e \<Rightarrow> (Inl e, sv)
      | Inr current \<Rightarrow>
      case request_objective (gr_Objective request) of
        Inl e \<Rightarrow> (Inl e, sv)
      | Inr objective \<Rightarrow>
      case request_status current (gr_Status request) of
        Inl e \<Rightarrow> (Inl e, sv)
      | Inr status \<Rightarrow>
      case request_budget env current (gr_TokenBudget request) of
        Inl e \<Rightarrow> (Inl e, sv)
      | Inr budget \<Rightarrow>
      case current of
        None \<Rightarrow>
          (case objective of
             None \<Rightarrow> (Inl ''goal objective is required'', sv)
           | Some ob \<Rightarrow>
               (case on_world (goal_Create (se_db env)
                      \<lparr>tg_ID = 0, tg_OwnerID = ownerID, tg_CreatedAt = 0, tg_UpdatedAt = 0, tg_ConversationID = conversationID, tg_GoalID = [],
                       tg_Objective = ob, tg_Status = status, tg_TokenBudget = budget, tg_TokensUsed = 0, tg_TimeUsedSeconds = 0\<rparr>) sv of
                  (Inl e, sv) \<Rightarrow> (Inl (goal_text env e), sv)
                | (Inr item, sv) \<Rightarrow> (Inr item, emitGoalUpdated conversationID (Some item) sv)))
      | Some g \<Rightarrow>
          let g = g\<lparr>tg_Objective := (case objective of None \<Rightarrow> tg_Objective g | Some ob \<Rightarrow> ob), tg_Status := status, tg_TokenBudget := budget\<rparr> in
          (case on_world (goal_Update (se_db env) g (tg_GoalID g)) sv of
             (Some e, sv) \<Rightarrow> (Inl (goal_text env e), sv)
           | (None, sv) \<Rightarrow>
               let sv = emitGoalUpdated conversationID (Some g) sv in
               (Inr g, if objective = None then sv else steer_latest env ownerID conversationID (tg_Objective g) sv)))"

definition ClearGoal :: "svc_env \<Rightarrow> int \<Rightarrow> int \<Rightarrow> service \<Rightarrow> string option \<times> service" where
  "ClearGoal env ownerID conversationID sv =
     (if \<not> se_goals env then (Some ''goal repository is not configured'', sv)
      else case on_world (goal_Delete (se_db env) ownerID conversationID) sv of
             (Some GoalNotFound, sv) \<Rightarrow> (None, sv)
           | (Some e, sv) \<Rightarrow> (Some (goal_text env e), sv)
           | (None, sv) \<Rightarrow> (None, emitGoalUpdated conversationID None sv))"

section \<open>Charging a goal\<close>

definition goalTokenDelta :: "usage \<Rightarrow> int" where
  "goalTokenDelta u = max 0 (PromptTokens u - CachedInputTokens u) + max 0 (CompletionTokens u)"

definition usage_diff :: "usage \<Rightarrow> usage \<Rightarrow> usage" where
  "usage_diff u previous =
     no_usage\<lparr>PromptTokens := PromptTokens u - PromptTokens previous, CompletionTokens := CompletionTokens u - CompletionTokens previous,
       CachedInputTokens := CachedInputTokens u - CachedInputTokens previous\<rparr>"

definition usage_reset :: "usage \<Rightarrow> usage \<Rightarrow> bool" where
  "usage_reset u previous \<longleftrightarrow>
     PromptTokens u < PromptTokens previous \<or> CompletionTokens u < CompletionTokens previous \<or> TotalTokens u < TotalTokens previous"

definition event_tokens :: "usage \<Rightarrow> usage \<Rightarrow> int" where
  "event_tokens u previous = max 0 (goalTokenDelta (usage_diff u (if usage_reset u previous then no_usage else previous)))"

definition usage_of :: "int \<Rightarrow> service \<Rightarrow> goal_usage" where
  "usage_of runID sv = (case sv_usage sv runID of None \<Rightarrow> no_goal_usage | Some s \<Rightarrow> s)"

definition put_usage :: "int \<Rightarrow> goal_usage \<Rightarrow> service \<Rightarrow> service" where
  "put_usage runID s sv = sv\<lparr>sv_usage := (sv_usage sv)(runID := Some s)\<rparr>"

definition clearGoalUsage :: "int \<Rightarrow> service \<Rightarrow> service" where
  "clearGoalUsage runID sv = sv\<lparr>sv_usage := (sv_usage sv)(runID := None)\<rparr>"

definition accountGoalUsageEvent :: "svc_env \<Rightarrow> int \<Rightarrow> int \<Rightarrow> usage \<Rightarrow> service \<Rightarrow> service" where
  "accountGoalUsageEvent env ownerID runID u sv =
     (if \<not> se_goals env \<or> runID \<le> 0 then sv
      else case on_world (run_FindByID (se_db env) ownerID runID) sv of
        (Inl _, sv) \<Rightarrow> sv
      | (Inr run, sv) \<Rightarrow>
      case rn_ConversationID run of
        None \<Rightarrow> sv
      | Some conv \<Rightarrow>
          if rn_RunType run = RunTypeSubagent \<or> input_mode (se_lib env) (rn_InputJSON run) = Some ''plan'' then sv
          else case on_world (goal_Get (se_db env) ownerID conv) sv of
            (Inl _, sv) \<Rightarrow> sv
          | (Inr current, sv) \<Rightarrow>
              if tg_Status current = GoalComplete then sv
              else
                let state = (if gu_GoalID (usage_of runID sv) \<noteq> tg_GoalID current then no_goal_usage\<lparr>gu_GoalID := tg_GoalID current\<rparr>
                             else usage_of runID sv);
                    tokens = event_tokens u (gu_LastUsage state);
                    state = state\<lparr>gu_LastUsage := u, gu_HasUsage := True\<rparr>;
                    sv = put_usage runID state sv in
                if tokens \<le> 0 then sv
                else case on_world (account (se_db env) ownerID conv 0 tokens ''active_only'' (tg_GoalID current)) sv of
                       (Inl _, sv) \<Rightarrow> sv
                     | (Inr updated, sv) \<Rightarrow>
                         let sv = put_usage runID (state\<lparr>gu_TokensAccounted := gu_TokensAccounted state + tokens\<rparr>) sv in
                         if tg_Status updated = GoalBudgetLimited
                         then emitGoalUpdated conv (Some updated) (snd (queueSteering runID
                                ''The active thread goal has reached its token budget. Stop substantive work and report the budget-limited state.'' sv))
                         else sv)"

section \<open>The result of a run\<close>

text \<open>The output of the agent runtime is a \<^verbatim>\<open>map[string]any\<close>. The record has what the service reads of it, each entry as
  its type assertion gives it (the zero value, or \<open>None\<close>, when the entry is missing or of another type):
  the decoded approval and checkpoint, and the JSON of the whole.\<close>

record run_output =
  ro_stop_reason :: string
  ro_error :: string
  ro_final_answer :: string
  ro_total_tokens :: "int option"
  ro_latency_ms :: int
  ro_message_int64 :: int
  ro_message_float :: "rat option"
  ro_usage :: usage
  ro_approval :: "approval_request option"
  ro_checkpoint :: "(string \<times> string) option"
  ro_json :: string

definition no_output :: run_output where
  "no_output = \<lparr>ro_stop_reason = [], ro_error = [], ro_final_answer = [], ro_total_tokens = None, ro_latency_ms = 0, ro_message_int64 = 0,
     ro_message_float = None, ro_usage = no_usage, ro_approval = None, ro_checkpoint = None, ro_json = ''{}''\<rparr>"

definition accounting_mode :: "goal_error + thread_goal \<Rightarrow> string" where
  "accounting_mode current =
     (case current of
        Inr g \<Rightarrow> if tg_Status g = GoalComplete then ''active_or_complete''
                else if tg_Status g = GoalBlocked then ''active_or_stopped'' else ''active_only''
      | Inl _ \<Rightarrow> ''active_only'')"

definition run_seconds :: "run \<Rightarrow> run_output \<Rightarrow> int" where
  "run_seconds run out =
     (let latencyMS = (if ro_latency_ms out \<le> 0 then rn_LatencyMS run else ro_latency_ms out) in
      if 0 < latencyMS then latencyMS div 1000 else 0)"

definition accountGoalRun :: "svc_env \<Rightarrow> run \<Rightarrow> run_output \<Rightarrow> service \<Rightarrow> service" where
  "accountGoalRun env run out sv =
     (case rn_ConversationID run of
        None \<Rightarrow> sv
      | Some conv \<Rightarrow>
          if \<not> se_goals env \<or> input_mode (se_lib env) (rn_InputJSON run) = Some ''plan'' then sv
          else case on_world (goal_Get (se_db env) (rn_OwnerID run) conv) sv of (current, sv) \<Rightarrow>
            let state = usage_of (rn_ID run) sv;
                residualTokens = max 0 (goalTokenDelta (ro_usage out) - gu_TokensAccounted state);
                residualSeconds = max 0 (run_seconds run out - gu_SecondsAccounted state) in
            (case on_world (account (se_db env) (rn_OwnerID run) conv residualSeconds residualTokens (accounting_mode current) (gu_GoalID state)) sv of
               (Inl _, sv) \<Rightarrow> sv
             | (Inr updated, sv) \<Rightarrow> if tg_Status updated = GoalBudgetLimited then emitGoalUpdated conv (Some updated) sv else sv))"

definition markGoalStatus :: "svc_env \<Rightarrow> run \<Rightarrow> string \<Rightarrow> service \<Rightarrow> service" where
  "markGoalStatus env run status sv =
     (case rn_ConversationID run of
        None \<Rightarrow> sv
      | Some conv \<Rightarrow>
          if \<not> se_goals env then sv
          else case on_world (goal_Get (se_db env) (rn_OwnerID run) conv) sv of
            (Inl _, sv) \<Rightarrow> sv
          | (Inr item, sv) \<Rightarrow>
              if tg_Status item \<noteq> GoalActive then sv
              else let item = item\<lparr>tg_Status := status\<rparr> in
                (case on_world (goal_Update (se_db env) item (tg_GoalID item)) sv of
                   (Some _, sv) \<Rightarrow> sv
                 | (None, sv) \<Rightarrow> emitGoalUpdated conv (Some item) sv))"

section \<open>Starting a turn\<close>

abbreviation ErrInvalidInput :: string where "ErrInvalidInput \<equiv> ''invalid input''"
abbreviation ErrConflict :: string where "ErrConflict \<equiv> ''conflict''"
abbreviation ErrForbidden :: string where "ErrForbidden \<equiv> ''forbidden''"
abbreviation ErrNotFound :: string where "ErrNotFound \<equiv> ''not found''"

definition mapNotFound :: "svc_env \<Rightarrow> db_error \<Rightarrow> string" where
  "mapNotFound env e = (if Contains (ToLower (se_lib env) (se_text env e)) ''record not found'' then ErrNotFound else se_text env e)"

definition GetConversation :: "svc_env \<Rightarrow> int \<Rightarrow> int \<Rightarrow> int \<Rightarrow> service \<Rightarrow> (string + conversation_row) \<times> service" where
  "GetConversation env ownerID agentID conversationID sv =
     (case on_world (First (se_db env) db_conversations (\<lambda>c. cv_ID c = conversationID \<and> cv_OwnerID c = ownerID \<and> cv_DeletedAt c = None)) sv of
        (Inl e, sv) \<Rightarrow> (Inl (mapNotFound env e), sv)
      | (Inr item, sv) \<Rightarrow>
          if cv_AgentID item \<noteq> Some agentID then (Inl ErrNotFound, sv)
          else (Inr (item\<lparr>cv_AgentMode := (case NormalizeMode (cv_AgentMode item) of Some m \<Rightarrow> m | None \<Rightarrow> cv_AgentMode item)\<rparr>), sv))"

record create_turn_request =
  ct_Content :: string
  ct_ManualCompaction :: bool
  ct_GoalContinuation :: bool
  ct_GoalID :: string

definition existing_turn :: "svc_env \<Rightarrow> int \<Rightarrow> turn \<Rightarrow> service \<Rightarrow> (turn \<times> run option) \<times> service" where
  "existing_turn env ownerID existing sv =
     (case tn_RunID existing of
        None \<Rightarrow> ((existing, None), sv)
      | Some runID \<Rightarrow>
          (case on_world (run_FindByID (se_db env) ownerID runID) sv of
             (Inl _, sv) \<Rightarrow> ((existing, None), sv) | (Inr run, sv) \<Rightarrow> ((existing, Some run), sv)))"

definition user_message :: "int \<Rightarrow> int \<Rightarrow> string \<Rightarrow> create_turn_request \<Rightarrow> message" where
  "user_message ownerID conversationID content req =
     \<lparr>ms_ID = 0, ms_OwnerID = ownerID, ms_CreatedAt = 0, ms_ConversationID = conversationID,
      ms_Role = (if ct_GoalContinuation req then ''developer'' else ''user''), ms_Content = content, ms_RunID = None, ms_TokenCount = 0,
      ms_ContentType = (if ct_ManualCompaction req then ''system_echo'' else [])\<rparr>"

definition queued_run :: "int \<Rightarrow> int \<Rightarrow> int \<Rightarrow> string \<times> string \<times> string \<Rightarrow> string \<Rightarrow> gotime \<Rightarrow> run" where
  "queued_run ownerID agentID conversationID def input now =
     \<lparr>rn_ID = 0, rn_OwnerID = ownerID, rn_CreatedAt = now, rn_UpdatedAt = now, rn_AgentID = agentID, rn_ConversationID = Some conversationID,
      rn_WorkspaceID = None, rn_ParentRunID = None, rn_RunType = RunTypeTurn, rn_DelegationDepth = 0, rn_DefinitionJSON = fst def,
      rn_DefinitionHash = fst (snd def), rn_RuleHash = snd (snd def), rn_Status = RunStatusQueued, rn_InputJSON = input, rn_OutputJSON = [],
      rn_ErrorMessage = [], rn_TotalTokens = 0, rn_LatencyMS = 0, rn_StartedAt = now, rn_FinishedAt = None\<rparr>"

definition queued_turn :: "int \<Rightarrow> int \<Rightarrow> int \<Rightarrow> string \<Rightarrow> string \<Rightarrow> turn" where
  "queued_turn ownerID agentID conversationID key input =
     \<lparr>tn_ID = 0, tn_OwnerID = ownerID, tn_CreatedAt = 0, tn_UpdatedAt = 0, tn_AgentID = agentID, tn_ConversationID = conversationID,
      tn_RunID = None, tn_UserMessageID = 0, tn_AssistantMessageID = None, tn_IdempotencyKey = key, tn_Status = TurnStatusQueued,
      tn_InputJSON = input, tn_OutputJSON = [], tn_ErrorMessage = [], tn_AttemptCount = 0, tn_MaxAttempts = 0, tn_WorkerID = [],
      tn_LeaseToken = [], tn_LeaseExpiresAt = None, tn_LastHeartbeatAt = None, tn_RetryAt = None, tn_StartedAt = None, tn_FinishedAt = None\<rparr>"

definition create_artifacts ::
  "svc_env \<Rightarrow> create_turn_request \<Rightarrow> turn \<Rightarrow> message \<Rightarrow> run \<Rightarrow> service \<Rightarrow> (db_error option \<times> bool \<times> turn \<times> run) \<times> service" where
  "create_artifacts env req turn msg run sv =
     (if ct_GoalContinuation req \<and> TrimSpace (ct_GoalID req) \<noteq> []
      then case on_world (CreateGoalContinuationWithArtifacts (se_db env) (TrimSpace (ct_GoalID req)) turn msg run) sv of
             ((err, created, turn, _, run), sv) \<Rightarrow> ((err, created, turn, run), sv)
      else case on_world (CreateWithArtifacts (se_db env) turn msg run) sv of
             ((err, turn, _, run), sv) \<Rightarrow> ((err, True, turn, run), sv))"

definition clear_deferral :: "svc_env \<Rightarrow> create_turn_request \<Rightarrow> int \<Rightarrow> int \<Rightarrow> service \<Rightarrow> service" where
  "clear_deferral env req ownerID conversationID sv =
     (if \<not> ct_GoalContinuation req \<and> se_goals env then snd (on_world (SetDeferral (se_db env) ownerID conversationID False) sv) else sv)"

definition StartTurn ::
  "svc_env \<Rightarrow> int \<Rightarrow> int \<Rightarrow> int \<Rightarrow> string \<Rightarrow> create_turn_request \<Rightarrow> service \<Rightarrow> (string + (turn \<times> run option)) \<times> service" where
  "StartTurn env ownerID agentID conversationID idempotencyKey req sv =
     (let content = TrimSpace (ct_Content req); key = TrimSpace idempotencyKey in
      if content = [] \<or> key = [] \<or> 128 < length key then (Inl ErrInvalidInput, sv)
      else case GetConversation env ownerID agentID conversationID sv of
        (Inl e, sv) \<Rightarrow> (Inl e, sv)
      | (Inr conv, sv) \<Rightarrow>
      case on_world (FindByIdempotencyKey (se_db env) ownerID conversationID key) (clear_deferral env req ownerID conversationID sv) of
        (Inr existing, sv) \<Rightarrow> (case existing_turn env ownerID existing sv of (r, sv) \<Rightarrow> (Inr r, sv))
      | (Inl _, sv) \<Rightarrow>
      case se_definition env ownerID agentID of
        Inl e \<Rightarrow> (Inl e, sv)
      | Inr def \<Rightarrow>
      case svc_Now env sv of (now, sv) \<Rightarrow>
      case NormalizeMode (cv_AgentMode conv) of
        None \<Rightarrow> (Inl ErrInvalidInput, sv)
      | Some mode \<Rightarrow>
          let input = JObj [(''query'', JStr content), (''mode'', JStr mode), (''manual_compaction'', JBool (ct_ManualCompaction req)),
                        (''observability'', se_observability env ownerID conversationID)];
              inputJSON = (case marshal (se_lib env) input of Some s \<Rightarrow> s | None \<Rightarrow> []) in
          (case create_artifacts env req (queued_turn ownerID agentID conversationID key inputJSON)
                  (user_message ownerID conversationID content req) (queued_run ownerID agentID conversationID def inputJSON now) sv of
             ((Some e, _), sv) \<Rightarrow>
               (case on_world (FindByIdempotencyKey (se_db env) ownerID conversationID key) sv of
                  (Inr existing, sv) \<Rightarrow> (case existing_turn env ownerID existing sv of (r, sv) \<Rightarrow> (Inr r, sv))
                | (Inl _, sv) \<Rightarrow> (Inl (se_text env e), sv))
           | ((None, created, turn, run), sv) \<Rightarrow> if \<not> created then (Inl ErrConflict, sv) else (Inr (turn, Some run), sv)))"

definition budgetText :: "int option \<Rightarrow> string" where
  "budgetText b = (case b of None \<Rightarrow> ''unbounded'' | Some v \<Rightarrow> itoa v)"

text \<open>The prompt of a continuation is a fixed text around the objective, the usage and the budget, an argument.\<close>

definition maybeContinueGoal :: "(string \<Rightarrow> int \<Rightarrow> string \<Rightarrow> string \<Rightarrow> string) \<Rightarrow> svc_env \<Rightarrow> run \<Rightarrow> service \<Rightarrow> service" where
  "maybeContinueGoal prompt env run sv =
     (case rn_ConversationID run of
        None \<Rightarrow> sv
      | Some conv \<Rightarrow>
          if \<not> se_goals env \<or> rn_RunType run = RunTypeSubagent \<or> input_mode (se_lib env) (rn_InputJSON run) = Some ''plan'' then sv
          else case on_world (goal_Get (se_db env) (rn_OwnerID run) conv) sv of
            (Inl _, sv) \<Rightarrow> sv
          | (Inr item, sv) \<Rightarrow>
              if tg_Status item \<noteq> GoalActive then sv
              else case on_world (HasDeferral (se_db env) (rn_OwnerID run) conv) sv of
                (Inl _, sv) \<Rightarrow> sv
              | (Inr deferred, sv) \<Rightarrow>
                  let objective = TrimSpace (tg_Objective item);
                      remaining = (case tg_TokenBudget item of None \<Rightarrow> ''unbounded'' | Some b \<Rightarrow> itoa (max 0 (b - tg_TokensUsed item))) in
                  if deferred \<or> objective = [] then sv
                  else snd (StartTurn env (rn_OwnerID run) (rn_AgentID run) conv
                         (''goal-continuation-'' @ tg_GoalID item @ ''-after-'' @ itoa (rn_ID run))
                         \<lparr>ct_Content = prompt objective (tg_TokensUsed item) (budgetText (tg_TokenBudget item)) remaining, ct_ManualCompaction = False,
                          ct_GoalContinuation = True, ct_GoalID = tg_GoalID item\<rparr> sv))"

end
