(* ===== verification/Turn_Worker.thy ===== *)
theory Turn_Worker
  imports Goal_Service "HOL-Library.AList"
begin

text \<open>
  The worker that executes turns and the controls of a run (\<^verbatim>\<open>turn_worker.go\<close> and \<^verbatim>\<open>run_control.go\<close> of
  \<^verbatim>\<open>internal/application/agent_usecase\<close>).

  A handler gets the turn and the run it works on, which it changes in place, and returns them. The agent
  runtime, the workspace service and the decoding of definitions are arguments: the runtime may change the
  store and the service in any way while it runs, since other processes do. A cancelled context shows
  only in what the runtime returns and in statements that fail, both of which are arguments, so the table of
  cancel functions is left out. So are logging, the indexing of messages for search, the queue of
  reviews, and the publication of a request for approval.
\<close>

record go_error =
  er_text :: string
  er_rate_limited :: bool

definition plain :: "string \<Rightarrow> go_error" where
  "plain t = \<lparr>er_text = t, er_rate_limited = False\<rparr>"

definition joined :: "go_error \<Rightarrow> string \<Rightarrow> go_error" where
  "joined cause t = cause\<lparr>er_text := er_text cause @ [CHR 0x0A] @ t\<rparr>"

definition millis :: "int \<Rightarrow> int" where
  "millis d = (if 0 \<le> d then d div 1000000 else - ((- d) div 1000000))"

definition backoff :: "int \<Rightarrow> int" where
  "backoff attempts = 1000000000 * 2 ^ nat (min (max (attempts - 1) 0) 6)"

definition max_attempts :: "turn \<Rightarrow> int" where
  "max_attempts turn = (if tn_MaxAttempts turn \<le> 0 then 3 else tn_MaxAttempts turn)"

definition publishSnapshot :: "run \<Rightarrow> turn option \<Rightarrow> int option \<Rightarrow> service \<Rightarrow> service" where
  "publishSnapshot run turn msg sv = sv\<lparr>sv_snapshots := sv_snapshots sv @ [(run, turn, msg)]\<rparr>"

definition runHasToolSideEffects :: "svc_env \<Rightarrow> int \<Rightarrow> int option \<Rightarrow> service \<Rightarrow> (db_error + bool) \<times> service" where
  "runHasToolSideEffects env ownerID runID sv =
     (case runID of
        None \<Rightarrow> (Inr False, sv)
      | Some i \<Rightarrow>
          if \<not> se_steps env then (Inr False, sv)
          else case on_world (Find (se_db env) db_steps (\<lambda>s. st_OwnerID s = ownerID \<and> st_RunID s = i)) sv of
                 (Inl e, sv) \<Rightarrow> (Inl e, sv)
               | (Inr steps, sv) \<Rightarrow> (Inr (\<exists>s\<in>set steps. st_StepType s = ''tool_call'' \<or> st_StepType s = ''tool_result''), sv))"

section \<open>Failing a turn\<close>

text \<open>The turn of a run that a user has cancelled ends as cancelled.\<close>

definition cancel_turn_of :: "svc_env \<Rightarrow> turn \<Rightarrow> service \<Rightarrow> (db_error option \<times> turn) \<times> service" where
  "cancel_turn_of env turn sv =
     (case svc_Now env sv of (now, sv) \<Rightarrow>
      on_world (turn_Update (se_db env) (turn\<lparr>tn_Status := TurnStatusCancelled, tn_FinishedAt := Some now\<rparr>)) sv)"

definition failed_run :: "run \<Rightarrow> go_error \<Rightarrow> gotime \<Rightarrow> run" where
  "failed_run run cause now =
     (let run = (case TransitionStatus (rn_Status run) RunStatusFailed of
                   Inl err \<Rightarrow> run\<lparr>rn_ErrorMessage := err\<rparr>
                 | Inr s \<Rightarrow> run\<lparr>rn_Status := s, rn_ErrorMessage := er_text cause, rn_FinishedAt := Some now\<rparr>) in
      run\<lparr>rn_LatencyMS := millis (now - rn_StartedAt run)\<rparr>)"

definition after_failure :: "svc_env \<Rightarrow> turn \<Rightarrow> run \<Rightarrow> go_error \<Rightarrow> service \<Rightarrow> service" where
  "after_failure env turn run cause sv =
     (let sv = clearSteering (rn_ID run) (accountGoalRun env run no_output sv);
          sv = markGoalStatus env run (if er_rate_limited cause then GoalUsageLimited else GoalBlocked) sv in
      publishSnapshot run (Some turn) None (clearGoalUsage (rn_ID run) sv))"

definition fail_both :: "svc_env \<Rightarrow> turn \<Rightarrow> run \<Rightarrow> go_error \<Rightarrow> service \<Rightarrow> turn \<times> run \<times> service" where
  "fail_both env turn run cause sv =
     (case svc_Now env sv of (now, sv) \<Rightarrow>
      case on_world (UpdateRunOwned (se_db env)
             (turn\<lparr>tn_Status := TurnStatusFailed, tn_ErrorMessage := er_text cause, tn_FinishedAt := Some now\<rparr>)
             (failed_run run cause now) True) sv of
        ((Some _, _), sv) \<Rightarrow> (turn, run, sv)
      | ((None, turn, run), sv) \<Rightarrow> (turn, run, after_failure env turn run cause sv))"

definition failTurn :: "svc_env \<Rightarrow> turn \<Rightarrow> run \<Rightarrow> go_error \<Rightarrow> service \<Rightarrow> turn \<times> run \<times> service" where
  "failTurn env turn run cause sv =
     (case on_world (run_FindByID (se_db env) (tn_OwnerID turn) (rn_ID run)) sv of (res, sv) \<Rightarrow>
      case res of
        Inl _ \<Rightarrow> fail_both env turn run cause sv
      | Inr current \<Rightarrow>
          if rn_Status current = RunStatusCancelled
          then case cancel_turn_of env turn sv of ((err, turn), sv) \<Rightarrow>
            (turn, run, if err = None then publishSnapshot current (Some turn) None sv else sv)
          else fail_both env turn run cause sv)"

text \<open>\<^verbatim>\<open>failTurn\<close> when the run could not be loaded.\<close>

definition failTurn_no_run :: "svc_env \<Rightarrow> turn \<Rightarrow> go_error \<Rightarrow> service \<Rightarrow> turn \<times> service" where
  "failTurn_no_run env turn cause sv =
     (case svc_Now env sv of (now, sv) \<Rightarrow>
      case on_world (turn_Update (se_db env)
             (turn\<lparr>tn_Status := TurnStatusFailed, tn_ErrorMessage := er_text cause, tn_FinishedAt := Some now\<rparr>)) sv of
        ((None, failedTurn), sv) \<Rightarrow> (failedTurn, sv)
      | ((Some _, _), sv) \<Rightarrow> (turn, sv))"

section \<open>Trying a turn again\<close>

definition retry_both :: "svc_env \<Rightarrow> turn \<Rightarrow> run \<Rightarrow> string \<Rightarrow> go_error \<Rightarrow> service \<Rightarrow> turn \<times> run \<times> service" where
  "retry_both env turn run status cause sv =
     (case svc_Now env sv of (now, sv) \<Rightarrow>
      case on_world (UpdateRunOwned (se_db env)
             (turn\<lparr>tn_Status := TurnStatusRetryWait, tn_ErrorMessage := er_text cause,
                   tn_RetryAt := Some (now + backoff (tn_AttemptCount turn)), tn_FinishedAt := None\<rparr>)
             (run\<lparr>rn_Status := status, rn_ErrorMessage := er_text cause, rn_FinishedAt := None\<rparr>) True) sv of
        ((Some e, _), sv) \<Rightarrow>
          if e \<noteq> ErrLeaseLost then failTurn env turn run (joined cause (''persist agent turn retry: '' @ se_text env e)) sv
          else (turn, run, sv)
      | ((None, turn, run), sv) \<Rightarrow> (turn, run, publishSnapshot run (Some turn) None sv))"

definition retryTurn :: "svc_env \<Rightarrow> turn \<Rightarrow> run \<Rightarrow> go_error \<Rightarrow> service \<Rightarrow> turn \<times> run \<times> service" where
  "retryTurn env turn run cause sv =
     (case runHasToolSideEffects env (tn_OwnerID turn) (tn_RunID turn) sv of
        (Inl e, sv) \<Rightarrow> failTurn env turn run (joined cause (''inspect persisted tool steps: '' @ se_text env e)) sv
      | (Inr hasToolSideEffect, sv) \<Rightarrow>
          if hasToolSideEffect \<or> max_attempts turn \<le> tn_AttemptCount turn then failTurn env turn run cause sv
          else if rn_Status run = RunStatusRunning then
            (case TransitionStatus (rn_Status run) RunStatusQueued of
               Inl err \<Rightarrow> failTurn env turn run (plain err) sv
             | Inr s \<Rightarrow> retry_both env turn run s cause sv)
          else if rn_Status run = RunStatusResuming then retry_both env turn run (rn_Status run) cause sv
          else failTurn env turn run cause sv)"

section \<open>Recovering expired turns\<close>

definition paused_reason :: string where
  "paused_reason = ''expired worker lease requires checkpoint/manual review to avoid replaying tool side effects''"

definition requeued_reason :: string where
  "requeued_reason = ''requeued after expired worker lease before any tool call''"

text \<open>What becomes of an expired turn and its run, or why the run cannot be recovered.\<close>

definition recovered_pair :: "bool \<Rightarrow> turn \<Rightarrow> run \<Rightarrow> gotime \<Rightarrow> string + (turn \<times> run)" where
  "recovered_pair hasToolSideEffect turn run now =
     (if hasToolSideEffect \<or> max_attempts turn \<le> tn_AttemptCount turn
      then case TransitionStatus (rn_Status run) RunStatusPaused of
             Inl err \<Rightarrow> Inl err
           | Inr s \<Rightarrow> Inr (turn\<lparr>tn_Status := TurnStatusPaused, tn_ErrorMessage := paused_reason, tn_FinishedAt := Some now\<rparr>,
                          run\<lparr>rn_Status := s, rn_ErrorMessage := paused_reason, rn_FinishedAt := None\<rparr>)
      else let turn = turn\<lparr>tn_Status := TurnStatusRetryWait, tn_ErrorMessage := requeued_reason,
                        tn_RetryAt := Some (now + backoff (tn_AttemptCount turn)), tn_FinishedAt := None\<rparr> in
        if rn_Status run = RunStatusRunning
        then case TransitionStatus (rn_Status run) RunStatusQueued of
               Inl err \<Rightarrow> Inl err
             | Inr s \<Rightarrow> Inr (turn, run\<lparr>rn_Status := s, rn_ErrorMessage := requeued_reason, rn_FinishedAt := None\<rparr>)
        else if rn_Status run \<noteq> RunStatusResuming
        then Inl (''cannot recover run '' @ itoa (rn_ID run) @ '' from status '' @ rn_Status run)
        else Inr (turn, run\<lparr>rn_ErrorMessage := requeued_reason, rn_FinishedAt := None\<rparr>))"

text \<open>One round of the loop: an error ends the whole pass, a lease taken meanwhile does not.\<close>

definition recover_one :: "svc_env \<Rightarrow> turn \<Rightarrow> service \<Rightarrow> string option \<times> service" where
  "recover_one env turn sv =
     (case tn_RunID turn of
        None \<Rightarrow> (Some (''expired agent turn '' @ itoa (tn_ID turn) @ '' has no run''), sv)
      | Some runID \<Rightarrow>
      case on_world (run_FindByID (se_db env) (tn_OwnerID turn) runID) sv of
        (Inl e, sv) \<Rightarrow> (Some (se_text env e), sv)
      | (Inr run, sv) \<Rightarrow>
      case runHasToolSideEffects env (tn_OwnerID turn) (tn_RunID turn) sv of
        (Inl e, sv) \<Rightarrow> (Some (se_text env e), sv)
      | (Inr hasToolSideEffect, sv) \<Rightarrow>
      case svc_Now env sv of (now, sv) \<Rightarrow>
      case recovered_pair hasToolSideEffect turn run now of
        Inl err \<Rightarrow> (Some err, sv)
      | Inr (recoveredTurn, recoveredRun) \<Rightarrow>
      case on_world (RecoverExpired (se_db env) recoveredTurn recoveredRun) sv of
        ((Some e, _), sv) \<Rightarrow> if e = ErrLeaseLost then (None, sv) else (Some (se_text env e), sv)
      | ((None, turn, run), sv) \<Rightarrow> (None, publishSnapshot run (Some turn) None sv))"

fun recover_items :: "svc_env \<Rightarrow> turn list \<Rightarrow> service \<Rightarrow> string option \<times> service" where
  "recover_items env [] sv = (None, sv)"
| "recover_items env (turn # items) sv =
     (case recover_one env turn sv of (Some err, sv) \<Rightarrow> (Some err, sv) | (None, sv) \<Rightarrow> recover_items env items sv)"

definition recoverExpired :: "svc_env \<Rightarrow> service \<Rightarrow> string option \<times> service" where
  "recoverExpired env sv =
     (case svc_Now env sv of (now, sv) \<Rightarrow>
      case on_world (ListExpiredRunning (se_db env) now 100) sv of
        (Inl e, sv) \<Rightarrow> (Some (se_text env e), sv)
      | (Inr items, sv) \<Rightarrow> recover_items env items sv)"

section \<open>Completing a turn\<close>

definition checkpointArtifacts :: "run \<Rightarrow> run_output \<Rightarrow> approval_request option \<times> run_checkpoint option" where
  "checkpointArtifacts run out =
     (let interactionID = (case ro_checkpoint out of None \<Rightarrow> [] | Some (i, _) \<Rightarrow> i) in
      (map_option (\<lambda>a. a\<lparr>ap_ID := 0, ap_OwnerID := rn_OwnerID run, ap_RunID := rn_ID run, ap_InteractionID := interactionID,
          ap_Status := ApprovalStatusPending, ap_DecisionNote := [], ap_DecidedAt := None\<rparr>) (ro_approval out),
       map_option (\<lambda>c. \<lparr>cp_ID = 0, cp_OwnerID = rn_OwnerID run, cp_CreatedAt = 0, cp_RunID = rn_ID run, cp_CheckpointJSON = snd c\<rparr>)
         (ro_checkpoint out)))"

definition pause_turn :: "svc_env \<Rightarrow> turn \<Rightarrow> run \<Rightarrow> run_output \<Rightarrow> string \<Rightarrow> service \<Rightarrow> turn \<times> run \<times> service" where
  "pause_turn env turn run out status sv =
     (let turn = turn\<lparr>tn_Status := status\<rparr> in
      case TransitionStatus (rn_Status run) status of
        Inl err \<Rightarrow> failTurn env turn run (plain err) sv
      | Inr s \<Rightarrow>
          let turn = turn\<lparr>tn_OutputJSON := ro_json out\<rparr>; run = run\<lparr>rn_Status := s, rn_OutputJSON := ro_json out\<rparr> in
          (case checkpointArtifacts run out of
             (_, None) \<Rightarrow> failTurn env turn run (plain ''runtime paused without checkpoint'') sv
           | (approval, Some checkpoint) \<Rightarrow>
               (case on_world (SavePausedRun (se_db env) turn run approval checkpoint) sv of
                  ((Some e, turn, run), sv) \<Rightarrow> failTurn env turn run (plain (se_text env e)) sv
                | ((None, turn, run), sv) \<Rightarrow> (turn, run, publishSnapshot run (Some turn) None sv))))"

definition finished_run :: "run \<Rightarrow> run_output \<Rightarrow> gotime \<Rightarrow> run" where
  "finished_run run out now =
     run\<lparr>rn_OutputJSON := ro_json out, rn_FinishedAt := Some now,
       rn_TotalTokens := (case ro_total_tokens out of Some n \<Rightarrow> n | None \<Rightarrow> rn_TotalTokens run),
       rn_LatencyMS := millis (now - rn_StartedAt run)\<rparr>"

text \<open>What follows a call that was to finish the turn: a lost lease ends silently, another error fails the turn with
  the values the call has left behind.\<close>

definition finish_with ::
  "svc_env \<Rightarrow> (world \<Rightarrow> (db_error option \<times> turn \<times> run) \<times> world) \<Rightarrow> (turn \<Rightarrow> run \<Rightarrow> service \<Rightarrow> service) \<Rightarrow> service \<Rightarrow> turn \<times> run \<times> service" where
  "finish_with env call after sv =
     (case on_world call sv of
        ((Some e, turn, run), sv) \<Rightarrow>
          if e = ErrLeaseLost then (turn, run, sv) else failTurn env turn run (plain (se_text env e)) sv
      | ((None, turn, run), sv) \<Rightarrow> (turn, run, after turn run sv))"

definition finish_subagent :: "svc_env \<Rightarrow> turn \<Rightarrow> run \<Rightarrow> run_output \<Rightarrow> service \<Rightarrow> turn \<times> run \<times> service" where
  "finish_subagent env turn run out sv =
     (case svc_Now env sv of (now, sv) \<Rightarrow>
      let turn = turn\<lparr>tn_Status := TurnStatusSucceeded, tn_OutputJSON := ro_json out, tn_FinishedAt := Some now\<rparr> in
      case TransitionStatus (rn_Status run) RunStatusSucceeded of
        Inl err \<Rightarrow> failTurn env turn run (plain err) sv
      | Inr s \<Rightarrow>
          let run = finished_run (run\<lparr>rn_Status := s\<rparr>) out now in
          finish_with env (UpdateRunOwned (se_db env) turn run True) (\<lambda>turn run. publishSnapshot run (Some turn) None) sv)"

definition truncate_rat :: "rat \<Rightarrow> int" where
  "truncate_rat q = (if 0 \<le> q then \<lfloor>q\<rfloor> else - \<lfloor>- q\<rfloor>)"

definition existing_message :: "run_output \<Rightarrow> int" where
  "existing_message out =
     (if 0 < ro_message_int64 out then ro_message_int64 out
      else case ro_message_float out of Some q \<Rightarrow> truncate_rat q | None \<Rightarrow> ro_message_int64 out)"

definition manual_compaction :: "go_lib \<Rightarrow> run \<Rightarrow> bool" where
  "manual_compaction lib run =
     (case decodeInputJSON lib (rn_InputJSON run) of
        Inl _ \<Rightarrow> False | Inr input \<Rightarrow> map_of input ''manual_compaction'' = Some (JBool True))"

definition assistant_message :: "go_lib \<Rightarrow> turn \<Rightarrow> run \<Rightarrow> run_output \<Rightarrow> message" where
  "assistant_message lib turn run out =
     \<lparr>ms_ID = 0, ms_OwnerID = tn_OwnerID turn, ms_CreatedAt = 0, ms_ConversationID = tn_ConversationID turn, ms_Role = ''assistant'',
      ms_Content = ro_final_answer out, ms_RunID = Some (rn_ID run),
      ms_TokenCount = (case ro_total_tokens out of Some n \<Rightarrow> n | None \<Rightarrow> 0),
      ms_ContentType = (if manual_compaction lib run then ''system_echo'' else ''text'')\<rparr>"

definition finish_turn ::
  "(string \<Rightarrow> int \<Rightarrow> string \<Rightarrow> string \<Rightarrow> string) \<Rightarrow> svc_env \<Rightarrow> turn \<Rightarrow> run \<Rightarrow> run_output \<Rightarrow> service \<Rightarrow> turn \<times> run \<times> service" where
  "finish_turn prompt env turn run out sv =
     (let assistant = assistant_message (se_lib env) turn run out; existing = existing_message out in
      case svc_Now env sv of (now, sv) \<Rightarrow>
      let turn = turn\<lparr>tn_Status := TurnStatusSucceeded, tn_AssistantMessageID := Some 0, tn_OutputJSON := ro_json out, tn_FinishedAt := Some now\<rparr> in
      case TransitionStatus (rn_Status run) RunStatusSucceeded of
        Inl err \<Rightarrow> failTurn env turn run (plain err) sv
      | Inr s \<Rightarrow>
          let run = finished_run (run\<lparr>rn_Status := s\<rparr>) out now;
              after = (\<lambda>turn run sv. publishSnapshot run (Some turn) (tn_AssistantMessageID turn) (maybeContinueGoal prompt env run sv)) in
          if 0 < existing
          then finish_with env (UpdateRunOwned (se_db env) (turn\<lparr>tn_AssistantMessageID := Some existing\<rparr>) run True) after sv
          else finish_with env (CompleteWithMessage (se_db env) turn assistant run) after sv)"

definition completeTurn ::
  "(string \<Rightarrow> int \<Rightarrow> string \<Rightarrow> string \<Rightarrow> string) \<Rightarrow> svc_env \<Rightarrow> turn \<Rightarrow> run \<Rightarrow> run_output option \<Rightarrow> service \<Rightarrow> turn \<times> run \<times> service" where
  "completeTurn prompt env turn run result sv =
     (case result of
        None \<Rightarrow> failTurn env turn run (plain ''agent runtime returned no result'') sv
      | Some out \<Rightarrow>
          let sv = clearSteering (rn_ID run) (clearGoalUsage (rn_ID run) (accountGoalRun env run out sv)) in
          case on_world (run_FindByID (se_db env) (tn_OwnerID turn) (rn_ID run)) sv of (res, sv) \<Rightarrow>
          if (case res of Inr current \<Rightarrow> rn_Status current = RunStatusCancelled | Inl _ \<Rightarrow> False)
          then case cancel_turn_of env turn sv of ((err, turn), sv) \<Rightarrow>
            (turn, run, if err = None then publishSnapshot (projr res) (Some turn) None sv else sv)
          else if ro_stop_reason out = ''llm_error''
          then failTurn env turn run (plain (if TrimSpace (ro_error out) = [] then ''agent runtime returned an LLM error'' else ro_error out)) sv
          else if ro_stop_reason out = ''waiting_human'' then pause_turn env turn run out TurnStatusWaitingHuman sv
          else if ro_stop_reason out = ''paused'' then pause_turn env turn run out TurnStatusPaused sv
          else if rn_RunType run = RunTypeSubagent then finish_subagent env turn run out sv
          else finish_turn prompt env turn run out sv)"

section \<open>Executing a turn\<close>

text \<open>The code outside: the decoding of definitions and checkpoints (an error text, if any), the workspace service (whether
  there is one, and whether it is enabled), the runtime, and the text of a goal continuation. Preparing a workspace covers
  the look-up of its project; the release of its lock, and the events about it, are left out.\<close>

record runtime_env =
  rt_definition_error :: "string \<Rightarrow> string option"
  rt_checkpoint_error :: "string \<Rightarrow> string option"
  rt_workspace_service :: bool
  rt_workspaces :: bool
  rt_prepare :: "turn \<Rightarrow> run \<Rightarrow> conversation_row \<Rightarrow> service \<Rightarrow> ((go_error \<times> int option) + int) \<times> service"
  rt_resolve :: "run \<Rightarrow> service \<Rightarrow> go_error option \<times> service"
  rt_execute :: "turn \<Rightarrow> run \<Rightarrow> service \<Rightarrow> (go_error + run_output option) \<times> service"
  rt_resume :: "run \<Rightarrow> run_checkpoint \<Rightarrow> bool \<Rightarrow> string \<Rightarrow> service \<Rightarrow> (go_error + run_output option) \<times> service"
  rt_prompt :: "string \<Rightarrow> int \<Rightarrow> string \<Rightarrow> string \<Rightarrow> string"

text \<open>The workspace of a run in a project; the turn and the run come back with what the store call has changed.\<close>

definition prepare_workspace ::
  "runtime_env \<Rightarrow> svc_env \<Rightarrow> turn \<Rightarrow> run \<Rightarrow> service \<Rightarrow> (go_error option \<times> turn \<times> run) \<times> service" where
  "prepare_workspace rt env turn run sv =
     (case rn_ConversationID run of
        None \<Rightarrow> ((None, turn, run), sv)
      | Some conv \<Rightarrow>
          (case on_world (First (se_db env) db_conversations (\<lambda>c. cv_ID c = conv \<and> cv_OwnerID c = tn_OwnerID turn \<and> cv_DeletedAt c = None)) sv of
             (Inl e, sv) \<Rightarrow> ((Some (plain (se_text env e)), turn, run), sv)
           | (Inr c, sv) \<Rightarrow>
               if cv_ProjectID c = None \<or> \<not> rt_workspaces rt then ((None, turn, run), sv)
               else case rt_prepare rt turn run c sv of
                 (Inl (err, ws), sv) \<Rightarrow>
                   ((Some err, turn, run\<lparr>rn_WorkspaceID := (case ws of Some i \<Rightarrow> Some i | None \<Rightarrow> rn_WorkspaceID run)\<rparr>), sv)
               | (Inr ws, sv) \<Rightarrow>
                   (case on_world (UpdateRunOwned (se_db env) turn (run\<lparr>rn_WorkspaceID := Some ws\<rparr>) False) sv of
                      ((err, turn, run), sv) \<Rightarrow> ((map_option (\<lambda>e. plain (se_text env e)) err, turn, run), sv))))"

definition run_turn :: "runtime_env \<Rightarrow> svc_env \<Rightarrow> turn \<Rightarrow> run \<Rightarrow> service \<Rightarrow> turn \<times> run \<times> service" where
  "run_turn rt env turn run sv =
     (let run = run\<lparr>rn_ErrorMessage := []\<rparr> in
      case rt_definition_error rt (rn_DefinitionJSON run) of
        Some err \<Rightarrow> failTurn env turn run (plain err) sv
      | None \<Rightarrow>
      case decodeInputJSON (se_lib env) (tn_InputJSON turn) of
        Inl err \<Rightarrow> failTurn env turn run (plain (''decode turn input: '' @ err)) sv
      | Inr input \<Rightarrow>
      case prepare_workspace rt env turn run sv of
        ((Some err, turn, run), sv) \<Rightarrow> failTurn env turn run err sv
      | ((None, turn, run), sv) \<Rightarrow>
      case TransitionStatus (rn_Status run) RunStatusRunning of
        Inl err \<Rightarrow> failTurn env turn run (plain err) sv
      | Inr s \<Rightarrow>
      case on_world (UpdateRunOwned (se_db env) turn (run\<lparr>rn_Status := s\<rparr>) False) sv of
        ((Some e, turn, run), sv) \<Rightarrow> failTurn env turn run (plain (se_text env e)) sv
      | ((None, turn, run), sv) \<Rightarrow>
      case rt_execute rt turn run sv of
        (Inl err, sv) \<Rightarrow> retryTurn env turn run err sv
      | (Inr result, sv) \<Rightarrow> completeTurn (rt_prompt rt) env turn run result sv)"

section \<open>Resuming a run\<close>

definition persistCheckpoint :: "svc_env \<Rightarrow> run \<Rightarrow> run_output \<Rightarrow> service \<Rightarrow> db_error option \<times> service" where
  "persistCheckpoint env run out sv =
     (case checkpointArtifacts run out of (approval, checkpoint) \<Rightarrow>
      case (case approval of None \<Rightarrow> (None, sv)
            | Some a \<Rightarrow> (case on_world (CreateApprovalRequest (se_db env) a) sv of (Inl e, sv) \<Rightarrow> (Some e, sv) | (Inr _, sv) \<Rightarrow> (None, sv))) of
        (Some e, sv) \<Rightarrow> (Some e, sv)
      | (None, sv) \<Rightarrow>
          (case checkpoint of None \<Rightarrow> (None, sv)
           | Some c \<Rightarrow> (case on_world (CreateCheckpoint (se_db env) c) sv of (Inl e, sv) \<Rightarrow> (Some e, sv) | (Inr _, sv) \<Rightarrow> (None, sv))))"

definition set_status :: "string \<Rightarrow> run \<Rightarrow> run" where
  "set_status to run = (case TransitionStatus (rn_Status run) to of Inl err \<Rightarrow> run\<lparr>rn_ErrorMessage := err\<rparr> | Inr s \<Rightarrow> run\<lparr>rn_Status := s\<rparr>)"

definition completeSubagentRun :: "svc_env \<Rightarrow> run \<Rightarrow> run_output option \<Rightarrow> service \<Rightarrow> run \<times> service" where
  "completeSubagentRun env run result sv =
     (case result of
        None \<Rightarrow> (run, sv)
      | Some out \<Rightarrow>
          let run = run\<lparr>rn_OutputJSON := ro_json out\<rparr>;
              run = (if ro_stop_reason out = ''waiting_human'' then set_status RunStatusWaitingHuman run
                     else if ro_stop_reason out = ''paused'' then set_status RunStatusPaused run
                     else set_status RunStatusSucceeded run) in
          case (if rn_Status run = RunStatusWaitingHuman \<or> rn_Status run = RunStatusPaused
                then let run = run\<lparr>rn_FinishedAt := None\<rparr> in
                  (case persistCheckpoint env run out sv of
                     (None, sv) \<Rightarrow> (run, sv)
                   | (Some e, sv) \<Rightarrow>
                       (case TransitionStatus (rn_Status run) RunStatusFailed of
                          Inl err \<Rightarrow> (run\<lparr>rn_ErrorMessage := err\<rparr>, sv)
                        | Inr s \<Rightarrow> (run\<lparr>rn_Status := s, rn_ErrorMessage := se_text env e\<rparr>, sv)))
                else case svc_Now env sv of (now, sv) \<Rightarrow>
                  (run\<lparr>rn_FinishedAt := Some now, rn_LatencyMS := millis (now - rn_StartedAt run)\<rparr>, sv)) of
            (run, sv) \<Rightarrow>
              (case on_world (run_Update (se_db env) run) sv of ((_, run), sv) \<Rightarrow> (run, publishSnapshot run None None sv)))"

text \<open>The failure of a run without a turn.\<close>

definition fail_run_only :: "svc_env \<Rightarrow> run \<Rightarrow> go_error \<Rightarrow> bool \<Rightarrow> service \<Rightarrow> go_error \<times> run \<times> service" where
  "fail_run_only env run cause publish sv =
     (case svc_Now env sv of (now, sv) \<Rightarrow>
      case on_world (run_Update (se_db env) (failed_run run cause now)) sv of
        ((Some e, run), sv) \<Rightarrow>
          (joined cause ((if publish then ''persist failed resume: '' else ''persist failed subagent resume: '') @ se_text env e), run, sv)
      | ((None, run), sv) \<Rightarrow> (cause, run, if publish then publishSnapshot run None None sv else sv))"

definition resume_mismatch :: "turn option \<Rightarrow> run \<Rightarrow> bool" where
  "resume_mismatch turn run \<longleftrightarrow> (\<exists>t\<in>set_option turn. tn_RunID t \<noteq> Some (rn_ID run) \<or> tn_OwnerID t \<noteq> rn_OwnerID run)"

text \<open>Everything that can refuse the resumption before the run changes.\<close>

definition resume_checks ::
  "runtime_env \<Rightarrow> svc_env \<Rightarrow> run \<Rightarrow> run_checkpoint \<Rightarrow> turn option \<Rightarrow> service \<Rightarrow> (string + turn option) \<times> service" where
  "resume_checks rt env run stored claimedTurn sv =
     (if rn_AgentID run \<le> 0 \<or> rn_DefinitionJSON run = [] \<or> TrimSpace (rn_DefinitionHash run) = [] then (Inl ErrInvalidInput, sv)
      else case (if claimedTurn = None \<and> rn_RunType run \<noteq> RunTypeSubagent
                 then case on_world (FindByRunID (se_db env) (rn_OwnerID run) (rn_ID run)) sv of
                        (Inl e, sv) \<Rightarrow> (Inl (mapNotFound env e), sv) | (Inr t, sv) \<Rightarrow> (Inr (Some t), sv)
                 else (Inr claimedTurn, sv)) of
        (Inl e, sv) \<Rightarrow> (Inl e, sv)
      | (Inr turn, sv) \<Rightarrow>
          if resume_mismatch turn run then (Inl ErrInvalidInput, sv)
          else case rt_definition_error rt (rn_DefinitionJSON run) of
            Some err \<Rightarrow> (Inl err, sv)
          | None \<Rightarrow>
          case rt_checkpoint_error rt (cp_CheckpointJSON stored) of
            Some err \<Rightarrow> (Inl (''decode runtime checkpoint: '' @ err), sv)
          | None \<Rightarrow>
          case decodeInputJSON (se_lib env) (rn_InputJSON run) of
            Inl err \<Rightarrow> (Inl (''decode run input: '' @ err), sv)
          | Inr _ \<Rightarrow>
          case rn_ConversationID run of
            None \<Rightarrow> (Inr turn, sv)
          | Some conv \<Rightarrow>
              (case on_world (First (se_db env) db_conversations (\<lambda>c. cv_ID c = conv \<and> cv_OwnerID c = rn_OwnerID run \<and> cv_DeletedAt c = None)) sv of
                 (Inl e, sv) \<Rightarrow> (Inl (mapNotFound env e), sv) | (Inr _, sv) \<Rightarrow> (Inr turn, sv)))"

definition save_resuming :: "svc_env \<Rightarrow> turn option \<Rightarrow> run \<Rightarrow> service \<Rightarrow> (db_error option \<times> turn option \<times> run) \<times> service" where
  "save_resuming env turn run sv =
     (case turn of
        Some t \<Rightarrow> (case on_world (UpdateRunOwned (se_db env) (t\<lparr>tn_Status := TurnStatusRunning\<rparr>) run False) sv of
                    ((err, t, run), sv) \<Rightarrow> ((err, Some t, run), sv))
      | None \<Rightarrow> (case on_world (run_Update (se_db env) run) sv of ((err, run), sv) \<Rightarrow> ((err, None, run), sv)))"

definition resumeRun ::
  "runtime_env \<Rightarrow> svc_env \<Rightarrow> run \<Rightarrow> run_checkpoint \<Rightarrow> (string \<times> string) option \<Rightarrow> turn option \<Rightarrow> service \<Rightarrow>
     go_error option \<times> turn option \<times> run \<times> service" where
  "resumeRun rt env run stored decision claimedTurn sv =
     (case resume_checks rt env run stored claimedTurn sv of
        (Inl e, sv) \<Rightarrow> (Some (plain e), claimedTurn, run, sv)
      | (Inr turn, sv) \<Rightarrow>
      case TransitionStatus (rn_Status run) RunStatusResuming of
        Inl err \<Rightarrow> (Some (plain err), turn, run, sv)
      | Inr s \<Rightarrow>
      case save_resuming env turn (run\<lparr>rn_Status := s\<rparr>) sv of
        ((Some e, turn, run), sv) \<Rightarrow> (Some (plain (se_text env e)), turn, run, sv)
      | ((None, turn, run), sv) \<Rightarrow>
      case (if rt_workspace_service rt \<and> rn_WorkspaceID run \<noteq> None then rt_resolve rt run sv else (None, sv)) of
        (Some cause, sv) \<Rightarrow>
          (case turn of
             Some t \<Rightarrow> (case failTurn env t run cause sv of (t, run, sv) \<Rightarrow> (Some cause, Some t, run, sv))
           | None \<Rightarrow> (case fail_run_only env run cause True sv of (cause, run, sv) \<Rightarrow> (Some cause, None, run, sv)))
      | (None, sv) \<Rightarrow>
      case rt_resume rt run stored (\<exists>d\<in>set_option decision. fst d = ApprovalStatusApproved) (case decision of None \<Rightarrow> [] | Some d \<Rightarrow> snd d) sv of
        (Inl execErr, sv) \<Rightarrow>
          (case turn of
             Some t \<Rightarrow> (case retryTurn env t run execErr sv of (t, run, sv) \<Rightarrow> (Some execErr, Some t, run, sv))
           | None \<Rightarrow> (case fail_run_only env run execErr False sv of (cause, run, sv) \<Rightarrow> (Some cause, None, run, sv)))
      | (Inr result, sv) \<Rightarrow>
          (case (case turn of
                   Some t \<Rightarrow> (case completeTurn (rt_prompt rt) env t run result sv of (t, run, sv) \<Rightarrow> (Some t, run, sv))
                 | None \<Rightarrow> (case completeSubagentRun env run result sv of (run, sv) \<Rightarrow> (None, run, sv))) of
             (turn, run, sv) \<Rightarrow>
               (case on_world (run_FindByID (se_db env) (rn_OwnerID run) (rn_ID run)) sv of
                  (Inl e, sv) \<Rightarrow> (Some (plain (se_text env e)), turn, run, sv)
                | (Inr _, sv) \<Rightarrow> (None, turn, run, sv))))"

text \<open>The decision of the user that the input of the turn carries.\<close>

definition resume_decision :: "go_lib \<Rightarrow> json_object \<Rightarrow> (string \<times> string) option" where
  "resume_decision lib input =
     (case map_of input ''resume_approved'' of
        Some (JBool approved) \<Rightarrow>
          Some (if approved then ApprovalStatusApproved else ApprovalStatusRejected,
            case map_of input ''resume_answers'' of
              Some (JObj answers) \<Rightarrow> ''answers:'' @ (case marshal lib (JObj answers) of Some s \<Rightarrow> s | None \<Rightarrow> [])
            | _ \<Rightarrow> (case map_of input ''resume_note'' of Some (JStr note) \<Rightarrow> note | _ \<Rightarrow> []))
      | _ \<Rightarrow> None)"

definition resume_claimed :: "runtime_env \<Rightarrow> svc_env \<Rightarrow> turn \<Rightarrow> run \<Rightarrow> service \<Rightarrow> go_error option \<times> turn \<times> run \<times> service" where
  "resume_claimed rt env turn run sv =
     (if rn_ID run \<le> 0 then (Some (plain ''resume dependencies are not configured''), turn, run, sv)
      else case on_world (FindLatestCheckpointByRun (se_db env) (rn_OwnerID run) (rn_ID run)) sv of
        (Inl e, sv) \<Rightarrow> (Some (plain (mapNotFound env e)), turn, run, sv)
      | (Inr checkpoint, sv) \<Rightarrow>
      case decodeInputJSON (se_lib env) (tn_InputJSON turn) of
        Inl err \<Rightarrow> (Some (plain (''decode resume input: '' @ err)), turn, run, sv)
      | Inr input \<Rightarrow>
          (case resumeRun rt env run checkpoint (resume_decision (se_lib env) input) (Some turn) sv of
             (err, Some t, run, sv) \<Rightarrow> (err, t, run, sv)
           | (err, None, run, sv) \<Rightarrow> (err, turn, run, sv)))"

text \<open>\<^verbatim>\<open>execute\<close>. A turn that is claimed refers to its run.\<close>

definition execute :: "runtime_env \<Rightarrow> svc_env \<Rightarrow> turn \<Rightarrow> service \<Rightarrow> turn \<times> run option \<times> service" where
  "execute rt env turn sv =
     (case tn_RunID turn of
        None \<Rightarrow> (turn, None, sv)
      | Some runID \<Rightarrow>
      case on_world (run_FindByID (se_db env) (tn_OwnerID turn) runID) sv of
        (Inl e, sv) \<Rightarrow> (case failTurn_no_run env turn (plain (se_text env e)) sv of (turn, sv) \<Rightarrow> (turn, None, sv))
      | (Inr run, sv) \<Rightarrow>
          if rn_Status run = RunStatusCancelled
          then case cancel_turn_of env turn sv of ((_, turn), sv) \<Rightarrow> (turn, Some run, sv)
          else if rn_Status run = RunStatusResuming
          then case resume_claimed rt env turn run sv of (err, turn, run, sv) \<Rightarrow>
            (case err of
               Some cause \<Rightarrow>
                 if rn_Status run = RunStatusResuming
                 then case failTurn env turn run cause sv of (turn, run, sv) \<Rightarrow> (turn, Some run, sv)
                 else (turn, Some run, sv)
             | None \<Rightarrow> (turn, Some run, sv))
          else case run_turn rt env turn run sv of (turn, run, sv) \<Rightarrow> (turn, Some run, sv))"

section \<open>Controls\<close>

definition resumeTurnInputWithAnswers ::
  "svc_env \<Rightarrow> run \<Rightarrow> bool \<Rightarrow> string \<Rightarrow> (string \<times> string) list \<Rightarrow> service \<Rightarrow> (string + string) \<times> service" where
  "resumeTurnInputWithAnswers env run approved note answers sv =
     (if rn_ID run \<le> 0 then (Inl ErrInvalidInput, sv)
      else case (if rn_RunType run \<noteq> RunTypeSubagent
                 then case on_world (FindByRunID (se_db env) (rn_OwnerID run) (rn_ID run)) sv of
                        (Inl e, sv) \<Rightarrow> (Inl (mapNotFound env e), sv)
                      | (Inr t, sv) \<Rightarrow>
                          if tn_Status t \<noteq> TurnStatusPaused \<and> tn_Status t \<noteq> TurnStatusWaitingHuman then (Inl ErrConflict, sv)
                          else (Inr (tn_InputJSON t), sv)
                 else (Inr (rn_InputJSON run), sv)) of
        (Inl e, sv) \<Rightarrow> (Inl e, sv)
      | (Inr raw, sv) \<Rightarrow>
      case decodeInputJSON (se_lib env) raw of
        Inl err \<Rightarrow> (Inl (''decode turn input: '' @ err), sv)
      | Inr input \<Rightarrow>
          let input = AList.update ''resume_note'' (JStr (TrimSpace note)) (AList.update ''resume_approved'' (JBool approved) input);
              input = (if answers \<noteq> [] then AList.update ''resume_answers'' (JObj (map (\<lambda>(k, v). (k, JStr v)) answers)) input else input) in
          (case marshal (se_lib env) (JObj input) of
             None \<Rightarrow> (Inl ''encode resume input'', sv) | Some encoded \<Rightarrow> (Inr encoded, sv)))"

definition GetRun :: "svc_env \<Rightarrow> int \<Rightarrow> int \<Rightarrow> service \<Rightarrow> (string + run) \<times> service" where
  "GetRun env ownerID runID sv =
     (case on_world (run_FindByID (se_db env) ownerID runID) sv of (Inl e, sv) \<Rightarrow> (Inl (mapNotFound env e), sv) | (Inr run, sv) \<Rightarrow> (Inr run, sv))"

text \<open>The questions of a request, and the check of the answers to them, are arguments.\<close>

definition decideApprovalRequest ::
  "(approval_request \<Rightarrow> 'q list) \<Rightarrow> ('q list \<Rightarrow> (string \<times> string) list \<Rightarrow> bool) \<Rightarrow> svc_env \<Rightarrow> int \<Rightarrow> int \<Rightarrow> bool \<Rightarrow> string \<Rightarrow>
     (string \<times> string) list \<Rightarrow> service \<Rightarrow> (string + run) \<times> service" where
  "decideApprovalRequest questions answers_ok env ownerID requestID approved note answers sv =
     (if ownerID \<le> 0 \<or> requestID \<le> 0 then (Inl ErrInvalidInput, sv)
      else case on_world (FindApprovalRequestByID (se_db env) ownerID requestID) sv of
        (Inl e, sv) \<Rightarrow> (Inl (mapNotFound env e), sv)
      | (Inr request, sv) \<Rightarrow>
          if ap_Status request \<noteq> ApprovalStatusPending then (Inl ErrConflict, sv)
          else if approved \<and> questions request \<noteq> [] \<and> \<not> answers_ok (questions request) answers then (Inl ErrInvalidInput, sv)
          else case GetRun env ownerID (ap_RunID request) sv of
            (Inl e, sv) \<Rightarrow> (Inl e, sv)
          | (Inr run, sv) \<Rightarrow>
          case svc_Now env sv of (decidedAt, sv) \<Rightarrow>
          let request = request\<lparr>ap_DecidedAt := Some decidedAt,
                ap_DecisionNote := (if answers \<noteq> []
                   then ''answers:'' @ (case marshal (se_lib env) (JObj (map (\<lambda>(k, v). (k, JStr v)) answers)) of Some s \<Rightarrow> s | None \<Rightarrow> [])
                   else TrimSpace note),
                ap_Status := (if approved then ApprovalStatusApproved else ApprovalStatusRejected)\<rparr> in
          (case resumeTurnInputWithAnswers env run approved (ap_DecisionNote request) answers sv of
             (Inl e, sv) \<Rightarrow> (Inl e, sv)
           | (Inr resumeInput, sv) \<Rightarrow>
               (case on_world (DecideApprovalAndClaimResume (se_db env) request resumeInput) sv of
                  ((Some _, _), sv) \<Rightarrow> (Inl ErrConflict, sv)
                | ((None, _), sv) \<Rightarrow> GetRun env ownerID (rn_ID run) sv)))"

definition ResumeByID :: "svc_env \<Rightarrow> int \<Rightarrow> int \<Rightarrow> service \<Rightarrow> (string + run) \<times> service" where
  "ResumeByID env ownerID runID sv =
     (case GetRun env ownerID runID sv of
        (Inl e, sv) \<Rightarrow> (Inl e, sv)
      | (Inr run, sv) \<Rightarrow>
          if rn_Status run \<noteq> RunStatusPaused then (Inl ErrConflict, sv)
          else case on_world (FindPendingApprovalByRun (se_db env) ownerID runID) sv of
            (Inr pending, sv) \<Rightarrow> (Inl ErrForbidden, sv)
          | (Inl e, sv) \<Rightarrow>
              if mapNotFound env e \<noteq> ErrNotFound then (Inl (se_text env e), sv)
              else case on_world (FindLatestCheckpointByRun (se_db env) ownerID runID) sv of
                (Inl e, sv) \<Rightarrow> (Inl (mapNotFound env e), sv)
              | (Inr _, sv) \<Rightarrow>
              case resumeTurnInputWithAnswers env run True [] [] sv of
                (Inl e, sv) \<Rightarrow> (Inl e, sv)
              | (Inr resumeInput, sv) \<Rightarrow>
                  (case on_world (ClaimResume (se_db env) ownerID runID resumeInput) sv of
                     ((Some _, _), sv) \<Rightarrow> (Inl ErrConflict, sv)
                   | ((None, _), sv) \<Rightarrow> GetRun env ownerID runID sv))"

definition join_errors :: "string option \<Rightarrow> string \<Rightarrow> string option" where
  "join_errors err t = Some (case err of None \<Rightarrow> t | Some s \<Rightarrow> s @ [CHR 0x0A] @ t)"

text \<open>The end of \<^verbatim>\<open>CancelRun\<close>: the turn of the run, and the snapshot.\<close>

definition cancel_own_turn :: "svc_env \<Rightarrow> int \<Rightarrow> run \<Rightarrow> string option \<Rightarrow> service \<Rightarrow> string option \<times> service" where
  "cancel_own_turn env ownerID run cancelErr sv =
     (case svc_Now env sv of (now, sv) \<Rightarrow>
      case on_world (CancelByRun (se_db env) ownerID (rn_ID run) (case rn_FinishedAt run of None \<Rightarrow> now | Some f \<Rightarrow> f)) sv of
        (Inr turn, sv) \<Rightarrow> (cancelErr, publishSnapshot run (Some turn) None sv)
      | (Inl e, sv) \<Rightarrow>
          (if e = ErrNoTurnAvailable then cancelErr
           else join_errors cancelErr (''cancel run turn '' @ itoa (rn_ID run) @ '': '' @ se_text env e),
           publishSnapshot run None None sv))"

text \<open>The run to cancel, as it is after the attempt: \<open>Inl\<close> ends the call with that answer.\<close>

definition cancel_this :: "svc_env \<Rightarrow> int \<Rightarrow> int \<Rightarrow> service \<Rightarrow> (string option + run) \<times> service" where
  "cancel_this env ownerID runID sv =
     (case on_world (run_FindByID (se_db env) ownerID runID) sv of
        (Inl e, sv) \<Rightarrow> (Inl (Some (mapNotFound env e)), sv)
      | (Inr run, sv) \<Rightarrow>
      case (if IsActiveRunStatus (rn_Status run)
            then case svc_Now env sv of (finished, sv) \<Rightarrow>
              (case on_world (CancelActive (se_db env) run finished) sv of
                 (Inl e, sv) \<Rightarrow> (Inl (Some (se_text env e)), sv)
               | (Inr (True, run), sv) \<Rightarrow> (Inr run, sv)
               | (Inr (False, run), sv) \<Rightarrow>
                   (case on_world (run_FindByID (se_db env) ownerID runID) sv of
                      (Inl e, sv) \<Rightarrow> (Inl (Some (mapNotFound env e)), sv) | (Inr run, sv) \<Rightarrow> (Inr run, sv)))
            else (Inr run, sv)) of
        (Inl err, sv) \<Rightarrow> (Inl err, sv)
      | (Inr run, sv) \<Rightarrow>
          if IsActiveRunStatus (rn_Status run) then (Inl (Some ErrConflict), sv)
          else if rn_Status run \<noteq> RunStatusCancelled then (Inl None, sv)
          else (Inr run, sv))"

text \<open>\<^verbatim>\<open>CancelRun\<close> calls itself for the children. The fuel bounds how deep; \<open>None\<close> is running out of it.\<close>

fun CancelRun :: "nat \<Rightarrow> svc_env \<Rightarrow> int \<Rightarrow> int \<Rightarrow> service \<Rightarrow> (string option \<times> service) option"
  and cancel_children :: "nat \<Rightarrow> svc_env \<Rightarrow> int \<Rightarrow> run list \<Rightarrow> string option \<Rightarrow> service \<Rightarrow> (string option \<times> service) option" where
  "CancelRun 0 env ownerID runID sv = None"
| "CancelRun (Suc n) env ownerID runID sv =
     (case cancel_this env ownerID runID sv of
        (Inl answer, sv) \<Rightarrow> Some (answer, sv)
      | (Inr run, sv) \<Rightarrow>
          (case on_world (ListByParent (se_db env) ownerID runID) sv of
             (Inl e, sv) \<Rightarrow> Some (cancel_own_turn env ownerID run (Some (''list child runs for '' @ itoa runID @ '': '' @ se_text env e)) sv)
           | (Inr children, sv) \<Rightarrow>
               (case cancel_children n env ownerID children None sv of
                  None \<Rightarrow> None
                | Some (cancelErr, sv) \<Rightarrow> Some (cancel_own_turn env ownerID run cancelErr sv))))"
| "cancel_children n env ownerID [] err sv = Some (err, sv)"
| "cancel_children n env ownerID (c # cs) err sv =
     (if \<not> IsActiveRunStatus (rn_Status c) then cancel_children n env ownerID cs err sv
      else case CancelRun n env ownerID (rn_ID c) sv of
             None \<Rightarrow> None
           | Some (None, sv) \<Rightarrow> cancel_children n env ownerID cs err sv
           | Some (Some e, sv) \<Rightarrow> cancel_children n env ownerID cs (join_errors err (''cancel child run '' @ itoa (rn_ID c) @ '': '' @ e)) sv)"

section \<open>The loops of the worker\<close>

text \<open>One round of \<^verbatim>\<open>workerLoop\<close> and one tick of \<^verbatim>\<open>heartbeatLease\<close>, with the duration of a lease in nanoseconds; the
  flag of the tick says that the execution is cancelled.\<close>

definition effectiveLeaseDuration :: "int \<Rightarrow> int" where
  "effectiveLeaseDuration configured = (if configured < 10000000000 then 30000000000 else configured)"

definition worker_round :: "runtime_env \<Rightarrow> svc_env \<Rightarrow> int \<Rightarrow> string \<Rightarrow> string \<Rightarrow> service \<Rightarrow> service" where
  "worker_round rt env configured workerID token sv =
     (case svc_Now env sv of (now, sv) \<Rightarrow>
      case on_world (ClaimNext (se_db env) workerID token (now + effectiveLeaseDuration configured)) sv of
        (Inl _, sv) \<Rightarrow> sv
      | (Inr turn, sv) \<Rightarrow> (case execute rt env turn sv of (_, _, sv) \<Rightarrow> sv))"

definition heartbeat_tick :: "svc_env \<Rightarrow> int \<Rightarrow> int \<Rightarrow> string \<Rightarrow> service \<Rightarrow> bool \<times> service" where
  "heartbeat_tick env configured turnID token sv =
     (case svc_Now env sv of (now, sv) \<Rightarrow>
      case on_world (RenewLease (se_db env) turnID token (now + effectiveLeaseDuration configured)) sv of (err, sv) \<Rightarrow> (err \<noteq> None, sv))"

end
