(* ===== verification/Turn_Store_Props.thy ===== *)
theory Turn_Store_Props
  imports Turn_Store
begin

text \<open>
  What the store guarantees. Statements and transactions first: a failed one changes no table. Then, for
  each repository call, its effect on the table of turns; and over these the lease protocol: any number
  of workers, a recovery process and users act on the store in any order, under every sequence of
  failures, and a turn has at most one owner and is claimed at most as often as it allows.
\<close>

section \<open>Statements and transactions\<close>

named_theorems ids_grow

abbreviation turns :: "world \<Rightarrow> turn list" where "turns w \<equiv> db_turns (w_db w)"
abbreviation runs_of :: "world \<Rightarrow> run list" where "runs_of w \<equiv> db_runs (w_db w)"

definition quiet :: "db_env \<Rightarrow> bool" where
  "quiet env \<longleftrightarrow> (\<forall>n. statement_fails env n = None)"

lemma quiet_statement [simp]: "quiet env \<Longrightarrow> statement_fails env n = None"
  by (simp add: quiet_def)

lemma Now_eq: "Now env w = (now, w') \<Longrightarrow> w_db w' = w_db w \<and> w_next_id w' = w_next_id w \<and> w_statements w' = w_statements w"
  by (auto simp: Now_def)

lemma First_cases:
  assumes "First env rows P w = (res, w')"
  shows "w_db w' = w_db w \<and> w_next_id w' = w_next_id w"
    and "res = Inl e \<Longrightarrow> e = ErrRecordNotFound \<and> (\<forall>x\<in>set (rows (w_db w)). \<not> P x) \<or> (\<exists>m. e = Db_error m)"
    and "res = Inr r \<Longrightarrow> r \<in> set (rows (w_db w)) \<and> P r"
  using assms
  by (auto simp: First_def statement_def find_Some_iff find_None_iff split: option.splits)

lemma Updates_cases:
  assumes "Updates env rows upd P f w = (res, w')"
  shows "w_next_id w' = w_next_id w"
    and "res = Inl e \<Longrightarrow> w_db w' = w_db w \<and> (\<exists>m. e = Db_error m)"
    and "res = Inr n \<Longrightarrow> w_db w' = upd (change_where P f) (w_db w) \<and> n = length (filter P (rows (w_db w)))"
  using assms by (auto simp: Updates_def statement_def split: option.splits)

lemma Save_cases:
  assumes "Save env upd key r w = (res, w')"
  shows "w_next_id w' = w_next_id w"
    and "res = Inl e \<Longrightarrow> w_db w' = w_db w \<and> (\<exists>m. e = Db_error m)"
    and "res = Inr u \<Longrightarrow> w_db w' = upd (put_row key r) (w_db w)"
  using assms by (auto simp: Save_def statement_def split: option.splits)

lemma Find_cases:
  assumes "Find env rows P w = (res, w')"
  shows "w_db w' = w_db w \<and> w_next_id w' = w_next_id w"
    and "res = Inr xs \<Longrightarrow> xs = filter P (rows (w_db w))"
  using assms by (auto simp: Find_def statement_def split: option.splits)

lemma Create_cases:
  assumes "Create env upd mk taken w = (res, w')"
  shows "w_next_id w' = w_next_id w + 1"
    and "res = Inl e \<Longrightarrow> w_db w' = w_db w"
    and "res = Inr r \<Longrightarrow> r = mk (w_next_id w) \<and> w_db w' = upd (\<lambda>rs. rs @ [r]) (w_db w) \<and> \<not> taken (w_db w) r"
  using assms by (auto simp: Create_def fresh_id_def statement_def split: option.splits if_splits)

lemma transaction_error:
  "transaction env body w = ((Some e, m), w') \<Longrightarrow> w_db w' = w_db w"
  by (auto simp: transaction_def statement_def split: prod.splits option.splits)

lemma transaction_ok:
  assumes "transaction env body w = ((None, m), w')"
  obtains w1 where "body w = ((None, m), w1)" "w_db w' = w_db w1" "w_next_id w' = w_next_id w1"
  using assms by (auto simp: transaction_def statement_def split: prod.splits option.splits)

lemma try_db_ok:
  assumes "try_db r m k = ((None, m'), w')"
  obtains x w1 where "r = (Inr x, w1)" "k x w1 = ((None, m'), w')"
  using assms by (cases "fst r") (auto simp: try_db_def split: prod.splits)

text \<open>The key a \<^verbatim>\<open>Create\<close> has used is used up, also by a transaction that is rolled back.\<close>

lemma statement_ids [simp]: "w_next_id (snd (statement env f w)) = w_next_id w"
  by (auto simp: statement_def split: option.splits prod.splits)

lemma First_ids [simp]: "w_next_id (snd (First env rows P w)) = w_next_id w"
  by (simp add: First_def)

lemma Find_ids [simp]: "w_next_id (snd (Find env rows P w)) = w_next_id w"
  by (simp add: Find_def)

lemma Updates_ids [simp]: "w_next_id (snd (Updates env rows upd P f w)) = w_next_id w"
  by (simp add: Updates_def)

lemma Save_ids [simp]: "w_next_id (snd (Save env upd key r w)) = w_next_id w"
  by (simp add: Save_def)

lemma Create_ids [ids_grow]: "b \<le> w_next_id w \<Longrightarrow> b \<le> w_next_id (snd (Create env upd mk taken w))"
  by (simp add: Create_def fresh_id_def)

lemma Now_ids [simp]: "w_next_id (snd (Now env w)) = w_next_id w"
  by (simp add: Now_def)

lemma try_db_ids [ids_grow]:
  assumes "b \<le> w_next_id (snd r)" "\<And>x w'. b \<le> w_next_id w' \<Longrightarrow> b \<le> w_next_id (snd (k x w'))"
  shows "b \<le> w_next_id (snd (try_db r m k))"
  using assms by (auto simp: try_db_def split: prod.splits sum.splits)

lemma case_prod_ids [ids_grow]:
  assumes "b \<le> w_next_id (snd r)" "\<And>x w'. b \<le> w_next_id w' \<Longrightarrow> b \<le> w_next_id (snd (k x w'))"
  shows "b \<le> w_next_id (snd (case r of (x, w') \<Rightarrow> k x w'))"
  using assms by (auto split: prod.splits)

lemma case_result_ids [ids_grow]:
  fixes r :: "db_error option \<times> 'm"
  assumes "\<And>x y. b \<le> w_next_id (snd (k x y))"
  shows "b \<le> w_next_id (snd (case r of (x, y) \<Rightarrow> k x y))"
  using assms by (auto split: prod.splits)

lemma case_sum_ids [ids_grow]:
  assumes "\<And>e. b \<le> w_next_id (snd (f e))" "\<And>x. b \<le> w_next_id (snd (k x))"
  shows "b \<le> w_next_id (snd (case s of Inl e \<Rightarrow> f e | Inr x \<Rightarrow> k x))"
  using assms by (cases s) auto

lemma case_option_ids [ids_grow]:
  assumes "b \<le> w_next_id (snd f)" "\<And>x. b \<le> w_next_id (snd (k x))"
  shows "b \<le> w_next_id (snd (case s of None \<Rightarrow> f | Some x \<Rightarrow> k x))"
  using assms by (cases s) auto

lemma if_ids [ids_grow]:
  assumes "b \<le> w_next_id (snd f)" "b \<le> w_next_id (snd g)"
  shows "b \<le> w_next_id (snd (if c then f else g))"
  using assms by simp

lemma let_ids [ids_grow]:
  assumes "b \<le> w_next_id (snd (f v))"
  shows "b \<le> w_next_id (snd (let x = v in f x))"
  using assms by simp

lemma transaction_ids [ids_grow]:
  assumes "b \<le> w_next_id (snd (body w))"
  shows "b \<le> w_next_id (snd (transaction env body w))"
  using assms by (auto simp: transaction_def statement_def split: prod.splits option.splits)

section \<open>Keyed rows\<close>

lemma change_where_set: "x \<in> set (change_where P f rs) \<longleftrightarrow> (\<exists>r\<in>set rs. x = (if P r then f r else r))"
  by (auto simp: change_where_def)

lemma change_where_keys:
  "(\<And>r. r \<in> set rs \<Longrightarrow> P r \<Longrightarrow> key (f r) = key r) \<Longrightarrow> map key (change_where P f rs) = map key rs"
  by (simp add: change_where_def)

lemma put_row_present: "\<exists>x\<in>set rs. key x = key r \<Longrightarrow> put_row key r rs = change_where (\<lambda>x. key x = key r) (\<lambda>_. r) rs"
  by (simp add: put_row_def)

lemma distinct_key_eq: "distinct (map key rs) \<Longrightarrow> x \<in> set rs \<Longrightarrow> y \<in> set rs \<Longrightarrow> key x = key y \<Longrightarrow> x = y"
  by (auto simp: distinct_map dest: inj_onD)

section \<open>The effect of a call on the turns\<close>

text \<open>Two values of a turn that stem from the same claim.\<close>

definition same_claim :: "turn \<Rightarrow> turn \<Rightarrow> bool" where
  "same_claim h t \<longleftrightarrow> tn_ID t = tn_ID h \<and> tn_OwnerID t = tn_OwnerID h \<and> tn_LeaseToken t = tn_LeaseToken h \<and>
     tn_AttemptCount t = tn_AttemptCount h \<and> tn_MaxAttempts t = tn_MaxAttempts h"

definition keeps_claim :: "turn \<Rightarrow> turn \<Rightarrow> bool" where
  "keeps_claim t u \<longleftrightarrow> tn_ID u = tn_ID t \<and> tn_OwnerID u = tn_OwnerID t \<and> tn_AttemptCount u = tn_AttemptCount t \<and>
     tn_MaxAttempts u = tn_MaxAttempts t \<and> (tn_LeaseToken u = tn_LeaseToken t \<or> tn_LeaseToken u = [])"

lemma keeps_claim_refl [simp]: "keeps_claim t t"
  by (simp add: keeps_claim_def)

text \<open>A write through a copy: nothing, or the row whose lease the copy has is replaced.\<close>

definition leased :: "turn \<Rightarrow> turn \<Rightarrow> bool" where
  "leased item t \<longleftrightarrow> tn_ID t = tn_ID item \<and> tn_OwnerID t = tn_OwnerID item \<and>
     (tn_LeaseToken item \<noteq> [] \<longrightarrow> tn_LeaseToken t = tn_LeaseToken item)"

definition writes_through :: "turn \<Rightarrow> turn list \<Rightarrow> turn list \<Rightarrow> bool" where
  "writes_through item ts ts' \<longleftrightarrow> ts' = ts \<or>
     (\<exists>t\<in>set ts. leased item t) \<and>
     (\<exists>P u. (\<forall>x. P x \<longrightarrow> tn_ID x = tn_ID item) \<and> keeps_claim item u \<and> ts' = change_where P (\<lambda>_. u) ts)"

lemma owns_turn_leased: "owns_turn item t \<Longrightarrow> leased item t"
  by (simp add: owns_turn_def leased_def)

lemma save_pair_turns:
  assumes "save_pair env now item run w = ((err, item', run'), w')"
  shows "w_next_id w' = w_next_id w"
    and "err = None \<Longrightarrow> item' = item\<lparr>tn_UpdatedAt := now\<rparr> \<and> run' = run\<lparr>rn_UpdatedAt := now\<rparr> \<and>
           w_db w' = (w_db w)\<lparr>db_turns := put_row tn_ID item' (turns w), db_runs := put_row rn_ID run' (runs_of w)\<rparr>"
  using assms
  by (auto simp: save_pair_def try_db_def Save_turn_def Save_run_def Save_def statement_def Let_def
      split: prod.splits sum.splits option.splits)

lemma save_pair_ids [ids_grow]: "b \<le> w_next_id w \<Longrightarrow> b \<le> w_next_id (snd (save_pair env now item run w))"
  unfolding save_pair_def Save_turn_def Save_run_def by (rule ids_grow | assumption | (simp; fail))+

lemma locked_run_ids [ids_grow]: "b \<le> w_next_id w \<Longrightarrow> b \<le> w_next_id (snd (locked_run env item run w))"
  unfolding locked_run_def by (rule ids_grow | assumption | (simp; fail))+

lemma completeOwned_ids [ids_grow]:
  assumes "b \<le> w_next_id w" "\<And>now item w. b \<le> w_next_id w \<Longrightarrow> b \<le> w_next_id (snd (before now item w))"
  shows "b \<le> w_next_id (snd (completeOwned env item run before w))"
  unfolding completeOwned_def by (rule ids_grow assms | assumption | (simp add: assms(1); fail))+

text \<open>What \<^verbatim>\<open>completeOwned\<close> does when it succeeds, and that it does nothing to the tables otherwise.\<close>

lemma completeOwned_error:
  assumes "completeOwned env item run before w = ((Some e, m), w')"
  shows "w_db w' = w_db w"
  using assms by (auto simp: completeOwned_def lost_def split: prod.splits if_splits dest!: transaction_error)

lemma locked_run_ok:
  assumes "locked_run env item run w = (Inr r, w')"
  shows "w_db w' = w_db w" and "w_next_id w' = w_next_id w"
    and "tn_LeaseToken item \<noteq> [] \<Longrightarrow> \<exists>r\<in>set (runs_of w). run_open run r"
  using assms by (auto simp: locked_run_def split: if_splits dest: First_cases(1) First_cases(3) [OF _ refl])

lemma completeOwned_ok:
  assumes "completeOwned env item run before w = ((None, item', run'), w')"
  obtains now itemB wA wB where
    "\<exists>t\<in>set (turns w). owns_turn item t"
    "tn_LeaseToken item \<noteq> [] \<Longrightarrow> \<exists>r\<in>set (runs_of w). run_open run r"
    "before now item wA = ((None, itemB), wB)" "w_db wA = w_db w" "w_next_id wA = w_next_id w"
    "item' = itemB\<lparr>tn_UpdatedAt := now\<rparr>" "run' = run\<lparr>rn_UpdatedAt := now\<rparr>" "w_next_id w' = w_next_id wB"
    "w_db w' = (w_db wB)\<lparr>db_turns := put_row tn_ID item' (turns wB), db_runs := put_row rn_ID run' (runs_of wB)\<rparr>"
proof -
  from assms obtain err where "transaction env (\<lambda>w.
        try_db (First env db_turns (owns_turn item) w) (item, run) (\<lambda>_ w.
        try_db (locked_run env item run w) (item, run) (\<lambda>_ w.
        case Now env w of (now, w) \<Rightarrow>
        case before now item w of
          ((Some e, item), w) \<Rightarrow> ((Some e, item, run), w)
        | ((None, item), w) \<Rightarrow> save_pair env now item run w))) w = ((err, item', run'), w')" and "lost (tn_LeaseToken item \<noteq> []) err = None"
    by (auto simp: completeOwned_def split: prod.splits)
  moreover from this have "err = None" by (auto simp: lost_def split: if_splits)
  ultimately obtain w1 where body: "try_db (First env db_turns (owns_turn item) w) (item, run) (\<lambda>_ w.
        try_db (locked_run env item run w) (item, run) (\<lambda>_ w.
        case Now env w of (now, w) \<Rightarrow>
        case before now item w of
          ((Some e, item), w) \<Rightarrow> ((Some e, item, run), w)
        | ((None, item), w) \<Rightarrow> save_pair env now item run w)) = ((None, item', run'), w1)"
    and w1: "w_db w' = w_db w1" "w_next_id w' = w_next_id w1"
    by (auto elim: transaction_ok)
  from body obtain t w2 where t: "First env db_turns (owns_turn item) w = (Inr t, w2)"
    and rest: "try_db (locked_run env item run w2) (item, run) (\<lambda>_ w.
        case Now env w of (now, w) \<Rightarrow>
        case before now item w of
          ((Some e, item), w) \<Rightarrow> ((Some e, item, run), w)
        | ((None, item), w) \<Rightarrow> save_pair env now item run w) = ((None, item', run'), w1)"
    by (rule try_db_ok)
  from rest obtain r w3 where r: "locked_run env item run w2 = (Inr r, w3)"
    and end': "(case Now env w3 of (now, w) \<Rightarrow>
        case before now item w of
          ((Some e, item), w) \<Rightarrow> ((Some e, item, run), w)
        | ((None, item), w) \<Rightarrow> save_pair env now item run w) = ((None, item', run'), w1)"
    by (rule try_db_ok)
  obtain now wA where now: "Now env w3 = (now, wA)" by (cases "Now env w3")
  obtain itemB wB where b: "before now item wA = ((None, itemB), wB)" and sp: "save_pair env now itemB run wB = ((None, item', run'), w1)"
    using end' now by (auto split: prod.splits option.splits)
  show ?thesis
    using that [of now wA itemB wB] First_cases(1,3) [OF t] locked_run_ok [OF r] Now_eq [OF now] b save_pair_turns [OF sp] w1 by auto
qed

lemma writes_throughI:
  assumes "\<exists>t\<in>set ts. owns_turn item t" "keeps_claim item u" "ts' = put_row tn_ID u ts"
  shows "writes_through item ts ts'"
proof -
  have "\<exists>x\<in>set ts. tn_ID x = tn_ID u" using assms(1,2) by (auto simp: owns_turn_def keeps_claim_def)
  then have "ts' = change_where (\<lambda>x. tn_ID x = tn_ID item) (\<lambda>_. u) ts"
    using assms(2,3) by (simp add: put_row_present keeps_claim_def)
  moreover have "\<exists>t\<in>set ts. leased item t" using assms(1) owns_turn_leased by auto
  ultimately show ?thesis
    using assms(2) unfolding writes_through_def by (intro disjI2 conjI exI [of _ "\<lambda>x. tn_ID x = tn_ID item"] exI [of _ u]) auto
qed

lemma clearTurnLease_keeps [simp]: "keeps_claim item (clearTurnLease item)"
  by (simp add: keeps_claim_def clearTurnLease_def)

lemma keeps_claim_updated [simp]: "keeps_claim item (u\<lparr>tn_UpdatedAt := now\<rparr>) = keeps_claim item u"
  by (simp add: keeps_claim_def)

lemma UpdateRunOwned_turns:
  assumes "UpdateRunOwned env item run rel w = ((err, m), w')"
  shows "writes_through item (turns w) (turns w')" and "w_next_id w \<le> w_next_id w'"
proof -
  obtain item' run' where m: "m = (item', run')" by (cases m)
  have ids: "w_next_id w \<le> w_next_id (snd (UpdateRunOwned env item run rel w))"
    by (simp add: UpdateRunOwned_def completeOwned_ids)
  show "w_next_id w \<le> w_next_id w'" using ids assms by simp
  show "writes_through item (turns w) (turns w')"
  proof (cases err)
    case (Some e)
    then show ?thesis using assms completeOwned_error [of env item run _ w e m w'] by (auto simp: UpdateRunOwned_def writes_through_def)
  next
    case None
    with assms have "completeOwned env item run (\<lambda>_ item w. ((None, if rel then clearTurnLease item else item), w)) w = ((None, item', run'), w')"
      by (simp add: UpdateRunOwned_def m)
    then show ?thesis by (rule completeOwned_ok) (auto intro!: writes_throughI)
  qed
qed

text \<open>Rows changed in place, each keeping its key and its count, and its lease unless it is cleared; and rows
  added, which nobody has claimed.\<close>

definition touches_rows :: "turn list \<Rightarrow> turn list \<Rightarrow> bool" where
  "touches_rows ts ts' \<longleftrightarrow> (\<exists>P g. (\<forall>t. keeps_claim t (g t)) \<and> ts' = change_where P g ts)"

definition new_turn :: "world \<Rightarrow> world \<Rightarrow> turn \<Rightarrow> bool" where
  "new_turn w w' t \<longleftrightarrow> tn_AttemptCount t = 0 \<and> 0 < tn_MaxAttempts t \<and> tn_LeaseToken t = [] \<and>
     w_next_id w \<le> tn_ID t \<and> tn_ID t < w_next_id w'"

lemma touches_rows_refl [simp]: "touches_rows ts ts"
  unfolding touches_rows_def by (rule exI [of _ "\<lambda>_. False"], rule exI [of _ id]) (simp add: change_where_def)

lemma touches_rowsI: "(\<And>t. keeps_claim t (g t)) \<Longrightarrow> touches_rows ts (change_where P g ts)"
  by (auto simp: touches_rows_def)

lemma completeOwned_turns:
  assumes call: "completeOwned env item run before w = ((err, m), w')"
    and before: "\<And>now wA itemB wB. before now item wA = ((None, itemB), wB) \<Longrightarrow> turns wB = turns wA \<and> keeps_claim item itemB"
  shows "writes_through item (turns w) (turns w')"
proof (cases err)
  case (Some e)
  then show ?thesis using call completeOwned_error [of env item run before w e m w'] by (simp add: writes_through_def)
next
  case None
  obtain item' run' where "m = (item', run')" by (cases m)
  with call None have "completeOwned env item run before w = ((None, item', run'), w')" by simp
  then show ?thesis
  proof (rule completeOwned_ok)
    fix now itemB wA wB
    assume "\<exists>t\<in>set (turns w). owns_turn item t" and b: "before now item wA = ((None, itemB), wB)" and "w_db wA = w_db w"
      and "item' = itemB\<lparr>tn_UpdatedAt := now\<rparr>"
      and "w_db w' = (w_db wB)\<lparr>db_turns := put_row tn_ID item' (turns wB), db_runs := put_row rn_ID run' (runs_of wB)\<rparr>"
    then show ?thesis using before [OF b] by (intro writes_throughI [where u = item']) auto
  qed
qed

lemma touch_ok:
  assumes "touchConversationLastMessage env own c now w = (Inr u, w')"
  shows "turns w' = turns w" and "runs_of w' = runs_of w"
  using assms by (auto simp: touchConversationLastMessage_def split: if_splits prod.splits sum.splits
      dest!: Now_eq Updates_cases(3) [OF _ refl])

lemma touch_ids [ids_grow]: "b \<le> w_next_id w \<Longrightarrow> b \<le> w_next_id (snd (touchConversationLastMessage env own c now w))"
  unfolding touchConversationLastMessage_def by (rule ids_grow | assumption | (simp; fail))+

lemma insert_answer_ok:
  assumes "insert_answer env msg now item w = ((None, itemB), wB)"
  shows "turns wB = turns w \<and> keeps_claim item itemB"
proof -
  from assms obtain ms w1 w2 u where c: "Create env db_messages_update (\<lambda>i. msg\<lparr>ms_CreatedAt := now, ms_ID := i\<rparr>) (\<lambda>_ _. False) w = (Inr ms, w1)"
    and t: "touchConversationLastMessage env (ms_OwnerID ms) (ms_ConversationID ms) now w1 = (Inr u, w2)"
    and e: "itemB = clearTurnLease (item\<lparr>tn_AssistantMessageID := Some (ms_ID ms)\<rparr>)" "wB = w2"
    unfolding insert_answer_def Let_def by (elim try_db_ok) auto
  show ?thesis using Create_cases(3) [OF c refl] touch_ok [OF t] e by (auto simp: keeps_claim_def clearTurnLease_def)
qed

lemma CompleteWithMessage_turns:
  assumes "CompleteWithMessage env item msg run w = ((err, m), w')"
  shows "writes_through item (turns w) (turns w')" and "w_next_id w \<le> w_next_id w'"
proof -
  show "writes_through item (turns w) (turns w')"
    using assms unfolding CompleteWithMessage_def by (rule completeOwned_turns) (rule insert_answer_ok)
  have "w_next_id w \<le> w_next_id (snd (CompleteWithMessage env item msg run w))"
    unfolding CompleteWithMessage_def insert_answer_def Let_def
    by (rule ids_grow | assumption | (simp; fail))+
  then show "w_next_id w \<le> w_next_id w'" using assms by simp
qed

text \<open>The two other calls that write a turn through its lease.\<close>

lemma create_approval_ok:
  assumes "create_approval env now a w = (Inr b, w')"
  shows "turns w' = turns w" and "runs_of w' = runs_of w"
  using assms by (auto simp: create_approval_def Let_def split: option.splits prod.splits sum.splits dest!: Create_cases(3) [OF _ refl])

lemma create_approval_ids [ids_grow]: "b \<le> w_next_id w \<Longrightarrow> b \<le> w_next_id (snd (create_approval env now a w))"
  unfolding create_approval_def by (rule ids_grow | assumption | (simp; fail))+

lemma SavePausedRun_ok:
  assumes "SavePausedRun env item run ap cp w = ((None, m), w')"
  obtains item' run' where "tn_LeaseToken item \<noteq> []" "m = (item', run')" "\<exists>t\<in>set (turns w). owns_turn item t" "\<exists>r\<in>set (runs_of w). run_recoverable run r"
    "keeps_claim item item'" "turns w' = put_row tn_ID item' (turns w)" "tn_Status item' = tn_Status item"
    "rn_ID run' = rn_ID run" "rn_Status run' = rn_Status run" "runs_of w' = put_row rn_ID run' (runs_of w)"
proof -
  obtain item' run' where m: "m = (item', run')" by (cases m)
  from assms have tok: "tn_LeaseToken item \<noteq> []" by (auto simp: SavePausedRun_def split: if_splits)
  from assms tok obtain w1 where
    "try_db (First env db_turns (owns_turn item) w) (item, run) (\<lambda>_ w.
        try_db (First env db_runs (run_recoverable run) w) (item, run) (\<lambda>_ w.
        case Now env w of (now, w) \<Rightarrow>
        case save_pair env now (clearTurnLease item) run w of
          ((Some e, m), w) \<Rightarrow> ((Some e, m), w)
        | ((None, m), w) \<Rightarrow>
            try_db (create_approval env now ap w) m (\<lambda>_ w.
            try_db (Create env db_checkpoints_update (\<lambda>i. cp\<lparr>cp_ID := i, cp_CreatedAt := now\<rparr>) (\<lambda>_ _. False) w) m
              (\<lambda>_ w. ((None, m), w))))) = ((None, m), w1)" and w1: "w_db w' = w_db w1"
    by (auto simp: SavePausedRun_def lost_def split: prod.splits if_splits elim!: transaction_ok)
  then obtain t w2 r w3 where t: "First env db_turns (owns_turn item) w = (Inr t, w2)"
    and r: "First env db_runs (run_recoverable run) w2 = (Inr r, w3)"
    and rest: "(case Now env w3 of (now, w) \<Rightarrow>
        case save_pair env now (clearTurnLease item) run w of
          ((Some e, m), w) \<Rightarrow> ((Some e, m), w)
        | ((None, m), w) \<Rightarrow>
            try_db (create_approval env now ap w) m (\<lambda>_ w.
            try_db (Create env db_checkpoints_update (\<lambda>i. cp\<lparr>cp_ID := i, cp_CreatedAt := now\<rparr>) (\<lambda>_ _. False) w) m
              (\<lambda>_ w. ((None, m), w)))) = ((None, m), w1)"
    by (elim try_db_ok) auto
  obtain now w4 where now: "Now env w3 = (now, w4)" by (cases "Now env w3")
  with rest obtain m1 w5 where sp: "save_pair env now (clearTurnLease item) run w4 = ((None, m1), w5)"
    and more: "try_db (create_approval env now ap w5) m1 (\<lambda>_ w.
            try_db (Create env db_checkpoints_update (\<lambda>i. cp\<lparr>cp_ID := i, cp_CreatedAt := now\<rparr>) (\<lambda>_ _. False) w) m1
              (\<lambda>_ w. ((None, m1), w))) = ((None, m), w1)"
    by (auto split: prod.splits option.splits)
  from more obtain x w6 y where ca: "create_approval env now ap w5 = (Inr x, w6)"
    and cc: "Create env db_checkpoints_update (\<lambda>i. cp\<lparr>cp_ID := i, cp_CreatedAt := now\<rparr>) (\<lambda>_ _. False) w6 = (Inr y, w1)" and "m1 = m"
    by (elim try_db_ok) auto
  then have sp: "save_pair env now (clearTurnLease item) run w4 = ((None, item', run'), w5)" using sp m by simp
  have wr: "turns w' = put_row tn_ID item' (turns w)" "runs_of w' = put_row rn_ID run' (runs_of w)"
    using First_cases(1) [OF t] First_cases(1) [OF r] Now_eq [OF now] save_pair_turns(2) [OF sp refl] create_approval_ok [OF ca]
      Create_cases(3) [OF cc refl] w1 by auto
  have "\<exists>t\<in>set (turns w). owns_turn item t" "\<exists>r\<in>set (runs_of w). run_recoverable run r"
    using First_cases(1) [OF t] First_cases(3) [OF t refl] First_cases(3) [OF r refl] by auto
  then show ?thesis
    using that [OF tok m _ _ _ wr(1) _ _ _ wr(2)] save_pair_turns(2) [OF sp refl] by (simp add: clearTurnLease_def keeps_claim_def)
qed

lemma SavePausedRun_error:
  assumes "SavePausedRun env item run ap cp w = ((Some e, m), w')"
  shows "w_db w' = w_db w"
  using assms by (auto simp: SavePausedRun_def lost_def split: prod.splits if_splits dest!: transaction_error)

lemma SavePausedRun_turns:
  assumes "SavePausedRun env item run ap cp w = ((err, m), w')"
  shows "writes_through item (turns w) (turns w')" and "w_next_id w \<le> w_next_id w'"
proof -
  show "writes_through item (turns w) (turns w')"
  proof (cases err)
    case (Some e)
    then show ?thesis using assms SavePausedRun_error by (simp add: writes_through_def)
  next
    case None
    with assms have "SavePausedRun env item run ap cp w = ((None, m), w')" by simp
    then show ?thesis by (rule SavePausedRun_ok) (auto intro: writes_throughI)
  qed
  have "w_next_id w \<le> w_next_id (snd (SavePausedRun env item run ap cp w))"
    unfolding SavePausedRun_def by (rule ids_grow | assumption | (simp; fail))+
  then show "w_next_id w \<le> w_next_id w'" using assms by simp
qed

lemma RecoverExpired_ok:
  assumes "RecoverExpired env item run w = ((None, m), w')"
  obtains item' run' now where "tn_LeaseToken item \<noteq> []" "m = (item', run')" "\<exists>t\<in>set (turns w). owns_turn item t \<and> expired_at now t" "\<exists>r\<in>set (runs_of w). run_recoverable run r"
    "item' = (clearTurnLease item)\<lparr>tn_UpdatedAt := now\<rparr>" "turns w' = put_row tn_ID item' (turns w)"
    "run' = run\<lparr>rn_UpdatedAt := now\<rparr>" "runs_of w' = put_row rn_ID run' (runs_of w)"
    "db_steps (w_db w') = db_steps (w_db w)"
proof -
  obtain item' run' where m: "m = (item', run')" by (cases m)
  from assms have tok: "tn_LeaseToken item \<noteq> []" by (auto simp: RecoverExpired_def split: if_splits)
  obtain now w2 where now: "Now env w = (now, w2)" by (cases "Now env w")
  from assms tok now obtain w1 where
    "try_db (First env db_turns (\<lambda>t. owns_turn item t \<and> expired_at now t) w2) (item, run) (\<lambda>_ w.
        try_db (First env db_runs (run_recoverable run) w) (item, run) (\<lambda>_ w.
        save_pair env now (clearTurnLease item) run w)) = ((None, m), w1)" and w1: "w_db w' = w_db w1"
    by (auto simp: RecoverExpired_def lost_def split: prod.splits if_splits elim!: transaction_ok)
  then obtain t w3 r w4 where t: "First env db_turns (\<lambda>t. owns_turn item t \<and> expired_at now t) w2 = (Inr t, w3)"
    and r: "First env db_runs (run_recoverable run) w3 = (Inr r, w4)"
    and sp: "save_pair env now (clearTurnLease item) run w4 = ((None, item', run'), w1)"
    unfolding m by (elim try_db_ok) auto
  show ?thesis
    using that [OF tok m] First_cases(1) [OF t] First_cases(3) [OF t refl] First_cases(1) [OF r] First_cases(3) [OF r refl] Now_eq [OF now]
      save_pair_turns(2) [OF sp refl] w1 by auto
qed

lemma RecoverExpired_error:
  assumes "RecoverExpired env item run w = ((Some e, m), w')"
  shows "w_db w' = w_db w"
  using assms by (auto simp: RecoverExpired_def lost_def split: prod.splits if_splits dest!: transaction_error)

lemma RecoverExpired_turns:
  assumes "RecoverExpired env item run w = ((err, m), w')"
  shows "writes_through item (turns w) (turns w')" and "w_next_id w \<le> w_next_id w'"
proof -
  show "writes_through item (turns w) (turns w')"
  proof (cases err)
    case (Some e)
    then show ?thesis using assms RecoverExpired_error by (simp add: writes_through_def)
  next
    case None
    with assms have "RecoverExpired env item run w = ((None, m), w')" by simp
    then show ?thesis
    proof (rule RecoverExpired_ok)
      fix item' run' now
      assume "\<exists>t\<in>set (turns w). owns_turn item t \<and> expired_at now t" "item' = (clearTurnLease item)\<lparr>tn_UpdatedAt := now\<rparr>"
        "turns w' = put_row tn_ID item' (turns w)"
      then show ?thesis by (intro writes_throughI [where u = item']) auto
    qed
  qed
  have "w_next_id w \<le> w_next_id (snd (RecoverExpired env item run w))"
    unfolding RecoverExpired_def by (rule ids_grow | assumption | (simp; fail))+
  then show "w_next_id w \<le> w_next_id w'" using assms by simp
qed

lemma turn_Update_turns:
  assumes "turn_Update env item w = ((err, m), w')"
  shows "writes_through item (turns w) (turns w')" and "w_next_id w \<le> w_next_id w'"
proof -
  obtain now w1 where now: "Now env w = (now, w1)" by (cases "Now env w")
  obtain res w2 where u: "Updates env db_turns db_turns_update (leased (item\<lparr>tn_UpdatedAt := now\<rparr>)) (\<lambda>_. item\<lparr>tn_UpdatedAt := now\<rparr>) w1 = (res, w2)"
    by (cases "Updates env db_turns db_turns_update (leased (item\<lparr>tn_UpdatedAt := now\<rparr>)) (\<lambda>_. item\<lparr>tn_UpdatedAt := now\<rparr>) w1")
  have w2: "w' = w2" using assms now u by (auto simp: turn_Update_def try_db_def Let_def leased_def [abs_def] split: sum.splits)
  show "w_next_id w \<le> w_next_id w'" using w2 Now_eq [OF now] Updates_cases(1) [OF u] by simp
  let ?P = "leased (item\<lparr>tn_UpdatedAt := now\<rparr>)" and ?u = "item\<lparr>tn_UpdatedAt := now\<rparr>"
  show "writes_through item (turns w) (turns w')"
  proof (cases "(\<exists>e. res = Inl e) \<or> (\<forall>t\<in>set (turns w). \<not> ?P t)")
    case True
    then have "turns w' = turns w"
      using Updates_cases(2,3) [OF u] Now_eq [OF now] w2 by (cases res) (auto simp: change_where_def intro!: map_idI)
    then show ?thesis by (simp add: writes_through_def)
  next
    case False
    then obtain n where "res = Inr n" by (cases res) auto
    then have t: "turns w' = change_where ?P (\<lambda>_. ?u) (turns w)" using Updates_cases(3) [OF u] Now_eq [OF now] w2 by simp
    moreover have "\<forall>x. ?P x \<longrightarrow> tn_ID x = tn_ID item" "keeps_claim item ?u" by (simp_all add: leased_def)
    moreover have "\<exists>t\<in>set (turns w). leased item t" using False by (auto simp: leased_def)
    ultimately show ?thesis unfolding writes_through_def by blast
  qed
qed

text \<open>The calls of users and of the lease keeper.\<close>

lemma Updates_touch:
  assumes "Updates env db_turns db_turns_update P g w = (res, w')" "\<And>t. keeps_claim t (g t)"
  shows "touches_rows (turns w) (turns w') \<and> w_next_id w' = w_next_id w"
  using Updates_cases [OF assms(1)] assms(2) by (cases res) (auto intro: touches_rowsI)

lemma RenewLease_turns:
  assumes "RenewLease env i tok until w = (err, w')"
  shows "touches_rows (turns w) (turns w')" and "w_next_id w \<le> w_next_id w'"
proof -
  obtain now w1 where now: "Now env w = (now, w1)" by (cases "Now env w")
  obtain res where u: "Updates env db_turns db_turns_update (\<lambda>t. tn_ID t = i \<and> tn_LeaseToken t = tok \<and> tn_Status t = TurnStatusRunning)
      (\<lambda>t. t\<lparr>tn_LeaseExpiresAt := Some until, tn_LastHeartbeatAt := Some now, tn_UpdatedAt := now\<rparr>) w1 = (res, w')"
    using assms now by (auto simp: RenewLease_def split: prod.splits sum.splits)
  have "touches_rows (turns w1) (turns w') \<and> w_next_id w' = w_next_id w1"
    by (rule Updates_touch [OF u]) (simp add: keeps_claim_def)
  then show "touches_rows (turns w) (turns w')" and "w_next_id w \<le> w_next_id w'" using Now_eq [OF now] by auto
qed

lemma cancelled_turn_keeps [simp]: "keeps_claim t (cancelled_turn now t)"
  by (simp add: keeps_claim_def cancelled_turn_def)

lemma CancelByRun_turns:
  assumes "CancelByRun env own runID now w = (res, w')"
  shows "touches_rows (turns w) (turns w')" and "w_next_id w \<le> w_next_id w'"
proof -
  obtain r1 w1 where u: "Updates env db_turns db_turns_update (\<lambda>t. tn_OwnerID t = own \<and> tn_RunID t = Some runID \<and> turn_open (tn_Status t))
      (cancelled_turn now) w = (r1, w1)" by (cases "Updates env db_turns db_turns_update (\<lambda>t. tn_OwnerID t = own \<and> tn_RunID t = Some runID \<and> turn_open (tn_Status t)) (cancelled_turn now) w")
  have "w_db w' = w_db w1 \<and> w_next_id w' = w_next_id w1"
    using assms u by (auto simp: CancelByRun_def FindByRunID_def split: sum.splits if_splits dest: First_cases(1))
  then show "touches_rows (turns w) (turns w')" and "w_next_id w \<le> w_next_id w'" using Updates_touch [OF u] by auto
qed

lemma CancelActive_turns:
  assumes "CancelActive env run now w = (res, w')"
  shows "turns w' = turns w" and "w_next_id w \<le> w_next_id w'"
  using assms
  by (auto simp: CancelActive_def split: prod.splits sum.splits if_splits
      dest: Updates_cases(2) [OF _ refl] Updates_cases(3) [OF _ refl] Updates_cases(1))

lemma requeued_turn_keeps [simp]: "keeps_claim t (requeued_turn input now t)"
  by (simp add: keeps_claim_def requeued_turn_def)

text \<open>A turn queued for a run that resumes: a waiting turn is queued again, or a new one is added.\<close>

definition touches_or_adds :: "world \<Rightarrow> world \<Rightarrow> bool" where
  "touches_or_adds w w' \<longleftrightarrow> touches_rows (turns w) (turns w') \<or> (\<exists>t. new_turn w w' t \<and> turns w' = turns w @ [t]) \<or>
     (\<exists>ts t. touches_rows (turns w) ts \<and> new_turn w w' t \<and> turns w' = ts @ [t])"

lemma create_turn_cases:
  assumes "create_turn env item w = (res, w')"
  shows "w_next_id w' = w_next_id w + 1"
    and "res = Inl e \<Longrightarrow> w_db w' = w_db w"
    and "res = Inr t \<Longrightarrow> t = item\<lparr>tn_ID := w_next_id w\<rparr> \<and> turns w' = turns w @ [t]"
  using Create_cases [OF assms [unfolded create_turn_def]] by auto

lemma create_turn_ids [ids_grow]: "b \<le> w_next_id w \<Longrightarrow> b \<le> w_next_id (snd (create_turn env item w))"
  unfolding create_turn_def by (rule ids_grow)

lemma queueResumeTurn_ids [ids_grow]: "b \<le> w_next_id w \<Longrightarrow> b \<le> w_next_id (snd (queueResumeTurn env run input now w))"
  unfolding queueResumeTurn_def by (rule ids_grow | assumption | (simp; fail))+

lemma queueResumeTurn_ok:
  assumes "queueResumeTurn env run input now w = ((None, u), w')"
  shows "touches_or_adds w w'"
proof -
  from assms obtain n w1 where up: "Updates env db_turns db_turns_update
             (\<lambda>t. tn_OwnerID t = rn_OwnerID run \<and> tn_RunID t = Some (rn_ID run) \<and>
                  (tn_Status t = TurnStatusPaused \<or> tn_Status t = TurnStatusWaitingHuman)) (requeued_turn input now) w = (Inr n, w1)"
    and rest: "(if n \<noteq> 1 then
             if rn_RunType run \<noteq> RunTypeSubagent then ((Some ErrInvalidData, ()), w1)
             else try_db (create_turn env (resume_turn run input now) w1) () (\<lambda>_ w. ((None, ()), w))
           else ((None, ()), w1)) = ((None, u), w')"
    unfolding queueResumeTurn_def by (auto split: if_splits elim!: try_db_ok)
  have t: "touches_rows (turns w) (turns w1)" "w_next_id w1 = w_next_id w" using Updates_touch [OF up] by auto
  show ?thesis
  proof (cases "n = 1")
    case True
    then show ?thesis using rest t by (simp add: touches_or_adds_def)
  next
    case False
    then obtain x where c: "create_turn env (resume_turn run input now) w1 = (Inr x, w')"
      using rest by (auto split: if_splits elim!: try_db_ok)
    have "new_turn w w' x" using create_turn_cases [OF c] t by (simp add: new_turn_def resume_turn_def)
    then show ?thesis using create_turn_cases(3) [OF c refl] t by (auto simp: touches_or_adds_def)
  qed
qed

lemma ClaimResume_turns:
  assumes "ClaimResume env own runID input w = ((err, u), w')"
  shows "touches_or_adds w w'" and "w_next_id w \<le> w_next_id w'"
proof -
  have "w_next_id w \<le> w_next_id (snd (ClaimResume env own runID input w))"
    unfolding ClaimResume_def run_FindByID_def mark_resuming_def by (rule ids_grow | assumption | (simp; fail))+
  then show "w_next_id w \<le> w_next_id w'" using assms by simp
  show "touches_or_adds w w'"
  proof (cases err)
    case (Some e)
    then show ?thesis using assms transaction_error [of env _ w e u w'] by (auto simp: ClaimResume_def touches_or_adds_def)
  next
    case None
    with assms have "ClaimResume env own runID input w = ((None, u), w')" by simp
    then obtain r w1 n w2 now1 w3 now2 w4 w5 where
      f: "run_FindByID env own runID w = (Inr r, w1)" and n1: "Now env w1 = (now1, w2)"
      and u: "mark_resuming env own runID now1 w2 = (Inr n, w3)" and n2: "Now env w3 = (now2, w4)"
      and q: "queueResumeTurn env r input now2 w4 = ((None, u), w5)" and w5: "w_db w' = w_db w5" "w_next_id w' = w_next_id w5"
      unfolding ClaimResume_def by (auto elim!: transaction_ok try_db_ok split: prod.splits if_splits)
    have "turns w4 = turns w" "w_next_id w4 = w_next_id w"
      using First_cases(1) [OF f [unfolded run_FindByID_def]] Now_eq [OF n1] Now_eq [OF n2]
        Updates_cases(1) [OF u [unfolded mark_resuming_def]] Updates_cases(3) [OF u [unfolded mark_resuming_def] refl] by auto
    then show ?thesis using queueResumeTurn_ok [OF q] w5 by (simp add: touches_or_adds_def new_turn_def)
  qed
qed

lemma DecideApprovalAndClaimResume_turns:
  assumes "DecideApprovalAndClaimResume env item input w = ((err, u), w')"
  shows "touches_or_adds w w'" and "w_next_id w \<le> w_next_id w'"
proof -
  have "w_next_id w \<le> w_next_id (snd (DecideApprovalAndClaimResume env item input w))"
    unfolding DecideApprovalAndClaimResume_def FindApprovalRequestByID_def run_FindByID_def mark_resuming_def
    by (rule ids_grow | assumption | (simp; fail))+
  then show "w_next_id w \<le> w_next_id w'" using assms by simp
  show "touches_or_adds w w'"
  proof (cases err)
    case (Some e)
    then show ?thesis using assms transaction_error [of env _ w e u w'] by (auto simp: DecideApprovalAndClaimResume_def touches_or_adds_def)
  next
    case None
    with assms have "DecideApprovalAndClaimResume env item input w = ((None, u), w')" by simp
    then obtain a w1 r w2 now1 w3 n w4 n' w5 w6 where
      f: "FindApprovalRequestByID env (ap_OwnerID item) (ap_ID item) w = (Inr a, w1)"
      and g: "run_FindByID env (ap_OwnerID item) (ap_RunID item) w1 = (Inr r, w2)" and n1: "Now env w2 = (now1, w3)"
      and ua: "Updates env db_approvals db_approvals_update
                   (\<lambda>a. ap_ID a = ap_ID item \<and> ap_OwnerID a = ap_OwnerID item \<and> ap_RunID a = ap_RunID item \<and> ap_Status a = ApprovalStatusPending)
                   (\<lambda>a. a\<lparr>ap_Status := ap_Status item, ap_DecisionNote := ap_DecisionNote item, ap_DecidedAt := ap_DecidedAt item,
                          ap_UpdatedAt := now1\<rparr>) w3 = (Inr n, w4)"
      and u: "mark_resuming env (ap_OwnerID item) (ap_RunID item) now1 w4 = (Inr n', w5)"
      and q: "queueResumeTurn env r input now1 w5 = ((None, u), w6)" and w6: "w_db w' = w_db w6" "w_next_id w' = w_next_id w6"
      unfolding DecideApprovalAndClaimResume_def by (auto elim!: transaction_ok try_db_ok split: prod.splits if_splits)
    have "turns w5 = turns w" "w_next_id w5 = w_next_id w"
      using First_cases(1) [OF f [unfolded FindApprovalRequestByID_def]] First_cases(1) [OF g [unfolded run_FindByID_def]] Now_eq [OF n1]
        Updates_cases(1) [OF ua] Updates_cases(3) [OF ua refl]
        Updates_cases(1) [OF u [unfolded mark_resuming_def]] Updates_cases(3) [OF u [unfolded mark_resuming_def] refl] by auto
    then show ?thesis using queueResumeTurn_ok [OF q] w6 by (simp add: touches_or_adds_def new_turn_def)
  qed
qed

text \<open>New turns, and the claim.\<close>

lemma createTurnArtifacts_ids [ids_grow]: "b \<le> w_next_id w \<Longrightarrow> b \<le> w_next_id (snd (createTurnArtifacts env m w))"
  unfolding createTurnArtifacts_def
  by (cases m) (simp only: split, (rule ids_grow | assumption | (simp; fail))+)

lemma createTurnArtifacts_ok:
  assumes "createTurnArtifacts env (item, msg, run) w = ((None, m), w')"
    and "tn_AttemptCount item = 0" "tn_LeaseToken item = []"
  obtains t where "new_turn w w' t" "turns w' = turns w @ [t]"
proof -
  obtain now w0 where now: "Now env w = (now, w0)" by (cases "Now env w")
  from assms(1) now obtain ms w1 u w2 r w3 t where
    c1: "Create env db_messages_update (\<lambda>i. msg\<lparr>ms_CreatedAt := now, ms_ID := i\<rparr>) (\<lambda>_ _. False) w0 = (Inr ms, w1)"
    and c2: "touchConversationLastMessage env (ms_OwnerID ms) (ms_ConversationID ms) now w1 = (Inr u, w2)"
    and c3: "Create env db_runs_update (\<lambda>i. run\<lparr>rn_CreatedAt := now, rn_UpdatedAt := now,
               rn_StartedAt := (if rn_StartedAt run = 0 then now else rn_StartedAt run), rn_ID := i\<rparr>) (\<lambda>_ _. False) w2 = (Inr r, w3)"
    and c4: "create_turn env (turn_defaults now (item\<lparr>tn_RunID := Some (rn_ID r), tn_UserMessageID := ms_ID ms\<rparr>)) w3 = (Inr t, w')"
    unfolding createTurnArtifacts_def Let_def by (simp only: split) (elim try_db_ok, auto)
  have g: "w_next_id w1 \<le> w_next_id w2"
    using touch_ids [of "w_next_id w1" w1 env "ms_OwnerID ms" "ms_ConversationID ms" now] c2 by simp
  have "turns w3 = turns w"
    using Now_eq [OF now] Create_cases(3) [OF c1 refl] touch_ok(1) [OF c2] Create_cases(3) [OF c3 refl] by auto
  moreover have "new_turn w w' t"
    using Now_eq [OF now] Create_cases(1) [OF c1] g Create_cases(1) [OF c3] create_turn_cases(1) [OF c4] create_turn_cases(3) [OF c4 refl] assms(2,3)
    by (simp add: new_turn_def turn_defaults_def)
  ultimately show ?thesis using that create_turn_cases(3) [OF c4 refl] by auto
qed

lemma touches_or_adds_refl [simp]: "turns w' = turns w \<Longrightarrow> touches_or_adds w w'"
  by (simp add: touches_or_adds_def)

lemma CreateWithArtifacts_turns:
  assumes "CreateWithArtifacts env item msg run w = ((err, m), w')" "tn_AttemptCount item = 0" "tn_LeaseToken item = []"
  shows "touches_or_adds w w'" and "w_next_id w \<le> w_next_id w'"
proof -
  have "w_next_id w \<le> w_next_id (snd (CreateWithArtifacts env item msg run w))"
    unfolding CreateWithArtifacts_def by (rule ids_grow | assumption | (simp; fail))+
  then show "w_next_id w \<le> w_next_id w'" using assms by simp
  show "touches_or_adds w w'"
  proof (cases err)
    case (Some e)
    then show ?thesis using assms transaction_error [of env _ w e m w'] by (simp add: CreateWithArtifacts_def)
  next
    case None
    then obtain w1 where "createTurnArtifacts env (item, msg, run) w = ((None, m), w1)" and "w_db w' = w_db w1" "w_next_id w' = w_next_id w1"
      using assms(1) unfolding CreateWithArtifacts_def by (auto elim: transaction_ok)
    then show ?thesis using assms(2,3) by (auto elim!: createTurnArtifacts_ok simp: touches_or_adds_def new_turn_def)
  qed
qed

lemma ClaimNext_turns:
  assumes "ClaimNext env wid tok until w = (res, w')"
  shows "w_next_id w \<le> w_next_id w'" and "res = Inl e \<Longrightarrow> w_db w' = w_db w"
    and "res = Inr c \<Longrightarrow> \<exists>t now. t \<in> set (turns w) \<and> claimable now t \<and>
           w_db w' = (w_db w)\<lparr>db_turns := change_where (\<lambda>x. tn_ID x = tn_ID t) (claimed_turn wid tok until now) (turns w)\<rparr> \<and>
           c \<in> set (turns w') \<and> tn_ID c = tn_ID t"
proof -
  obtain now w1 where now: "Now env w = (now, w1)" by (cases "Now env w")
  define body where "body = (\<lambda>w. case Now env w of (now, w) \<Rightarrow>
        try_db (First env db_turns (\<lambda>t. claimable now t \<and> \<not> row_locked env (w_statements w) t) w) None (\<lambda>claimed w.
        try_db (Updates env db_turns db_turns_update (\<lambda>t. tn_ID t = tn_ID claimed)
                  (claimed_turn wid tok until now) w) None (\<lambda>_ w.
        try_db (First env db_turns (\<lambda>t. tn_ID t = tn_ID claimed) w) None (\<lambda>claimed w. ((None, Some claimed), w)))))"
  have call: "(case transaction env body w of
        ((None, Some claimed), w) \<Rightarrow> (Inr claimed, w)
      | ((None, None), w) \<Rightarrow> (Inl ErrRecordNotFound, w)
      | ((Some e, _), w) \<Rightarrow> (Inl (if e = ErrRecordNotFound then ErrNoTurnAvailable else e), w)) = (res, w')"
    using assms unfolding ClaimNext_def body_def .
  obtain err m w2 where tr: "transaction env body w = ((err, m), w2)" by (cases "transaction env body w") auto
  have w2: "w2 = w'" using call tr by (auto split: option.splits)
  have "w_next_id w \<le> w_next_id (snd (transaction env body w))"
    unfolding body_def by (rule ids_grow | assumption | (simp; fail))+
  then show "w_next_id w \<le> w_next_id w'" using tr w2 by simp
  have inl: "err \<noteq> None \<or> m = None" if "res = Inl e"
    using call tr that by (auto split: option.splits)
  have ok: "\<exists>t c. m = Some c \<and> t \<in> set (turns w) \<and> claimable now t \<and>
           w_db w' = (w_db w)\<lparr>db_turns := change_where (\<lambda>x. tn_ID x = tn_ID t) (claimed_turn wid tok until now) (turns w)\<rparr> \<and>
           c \<in> set (turns w') \<and> tn_ID c = tn_ID t" if "err = None"
  proof -
    from tr that obtain w3 where b: "body w = ((None, m), w3)" and w3: "w_db w2 = w_db w3" by (auto elim: transaction_ok)
    from b now obtain t w4 n w5 c where f: "First env db_turns (\<lambda>t. claimable now t \<and> \<not> row_locked env (w_statements w1) t) w1 = (Inr t, w4)"
      and u: "Updates env db_turns db_turns_update (\<lambda>x. tn_ID x = tn_ID t) (claimed_turn wid tok until now) w4 = (Inr n, w5)"
      and f2: "First env db_turns (\<lambda>x. tn_ID x = tn_ID t) w5 = (Inr c, w3)" and m: "m = Some c"
      unfolding body_def by (simp only: split) (elim try_db_ok, auto)
    have e: "w_db w5 = (w_db w)\<lparr>db_turns := change_where (\<lambda>x. tn_ID x = tn_ID t) (claimed_turn wid tok until now) (turns w)\<rparr>"
      using First_cases(1) [OF f] Now_eq [OF now] Updates_cases(3) [OF u refl] by simp
    have "t \<in> set (turns w) \<and> claimable now t" using First_cases(3) [OF f refl] Now_eq [OF now] by simp
    moreover have "c \<in> set (turns w') \<and> tn_ID c = tn_ID t" "w_db w' = w_db w5"
      using First_cases(1) [OF f2] First_cases(3) [OF f2 refl] w3 w2 by auto
    ultimately show ?thesis using e m by auto
  qed
  show "res = Inl e \<Longrightarrow> w_db w' = w_db w" using inl ok transaction_error tr w2 by (cases err) auto
  show "res = Inr c \<Longrightarrow> \<exists>t now. t \<in> set (turns w) \<and> claimable now t \<and>
           w_db w' = (w_db w)\<lparr>db_turns := change_where (\<lambda>x. tn_ID x = tn_ID t) (claimed_turn wid tok until now) (turns w)\<rparr> \<and>
           c \<in> set (turns w') \<and> tn_ID c = tn_ID t"
    using call tr w2 ok by (cases err; cases m) auto
qed

end
