(* ===== verification/Lease_Protocol.thy ===== *)
theory Lease_Protocol
  imports Turn_Store_Props
begin

text \<open>
  The lease protocol of the turns. The state is the store, the copies of turns the workers have got from
  \<^verbatim>\<open>ClaimNext\<close>, and how often each turn was claimed. A step is one call to a repository by any process: a
  worker claims a turn, writes one through a copy it has claimed, or renews its lease; the recovery process
  takes a turn away; users start, cancel and resume runs. A call may fail at any statement. Tokens are
  fresh, which is what \<^verbatim>\<open>newLeaseToken\<close> takes random bytes for.
\<close>

section \<open>Steps\<close>

record lease_state =
  ls_world :: world
  ls_held :: "turn list"
  ls_claims :: "int \<Rightarrow> int"

inductive lease_step :: "db_env \<Rightarrow> lease_state \<Rightarrow> lease_state \<Rightarrow> bool" for env where
  claim: "ClaimNext env wid tok until (ls_world s) = (Inr c, w') \<Longrightarrow> tok \<noteq> [] \<Longrightarrow> tok \<notin> tn_LeaseToken ` set (ls_held s) \<Longrightarrow>
    lease_step env s (s\<lparr>ls_world := w', ls_held := c # ls_held s, ls_claims := (ls_claims s)(tn_ID c := ls_claims s (tn_ID c) + 1)\<rparr>)"
| claim_fails: "ClaimNext env wid tok until (ls_world s) = (Inl e, w') \<Longrightarrow> lease_step env s (s\<lparr>ls_world := w'\<rparr>)"
| update_owned: "h \<in> set (ls_held s) \<Longrightarrow> same_claim h item \<Longrightarrow> UpdateRunOwned env item run rel (ls_world s) = ((err, m), w') \<Longrightarrow>
    lease_step env s (s\<lparr>ls_world := w'\<rparr>)"
| complete: "h \<in> set (ls_held s) \<Longrightarrow> same_claim h item \<Longrightarrow> CompleteWithMessage env item msg run (ls_world s) = ((err, m), w') \<Longrightarrow>
    lease_step env s (s\<lparr>ls_world := w'\<rparr>)"
| pause: "h \<in> set (ls_held s) \<Longrightarrow> same_claim h item \<Longrightarrow> SavePausedRun env item run ap cp (ls_world s) = ((err, m), w') \<Longrightarrow>
    lease_step env s (s\<lparr>ls_world := w'\<rparr>)"
| put: "h \<in> set (ls_held s) \<Longrightarrow> same_claim h item \<Longrightarrow> turn_Update env item (ls_world s) = ((err, m'), w') \<Longrightarrow>
    lease_step env s (s\<lparr>ls_world := w'\<rparr>)"
| recover: "h \<in> set (ls_held s) \<Longrightarrow> same_claim h item \<Longrightarrow> RecoverExpired env item run (ls_world s) = ((err, m), w') \<Longrightarrow>
    lease_step env s (s\<lparr>ls_world := w'\<rparr>)"
| renew: "RenewLease env i tok until (ls_world s) = (err, w') \<Longrightarrow> lease_step env s (s\<lparr>ls_world := w'\<rparr>)"
| cancel_run: "CancelActive env run now (ls_world s) = (res, w') \<Longrightarrow> lease_step env s (s\<lparr>ls_world := w'\<rparr>)"
| cancel_turn: "CancelByRun env own i now (ls_world s) = (res', w') \<Longrightarrow> lease_step env s (s\<lparr>ls_world := w'\<rparr>)"
| resume: "ClaimResume env own i input (ls_world s) = ((err, u), w') \<Longrightarrow> lease_step env s (s\<lparr>ls_world := w'\<rparr>)"
| decide: "DecideApprovalAndClaimResume env a input (ls_world s) = ((err, u), w') \<Longrightarrow> lease_step env s (s\<lparr>ls_world := w'\<rparr>)"
| start: "tn_AttemptCount item = 0 \<Longrightarrow> tn_LeaseToken item = [] \<Longrightarrow>
    CreateWithArtifacts env item msg run (ls_world s) = ((err, m''), w') \<Longrightarrow> lease_step env s (s\<lparr>ls_world := w'\<rparr>)"
| other: "turns w' = turns (ls_world s) \<Longrightarrow> w_next_id (ls_world s) \<le> w_next_id w' \<Longrightarrow> lease_step env s (s\<lparr>ls_world := w'\<rparr>)"

section \<open>The invariant\<close>

definition lease_inv :: "lease_state \<Rightarrow> bool" where
  "lease_inv s \<longleftrightarrow>
     distinct (map tn_ID (turns (ls_world s))) \<and>
     (\<forall>t\<in>set (turns (ls_world s)). tn_ID t < w_next_id (ls_world s) \<and> tn_AttemptCount t = ls_claims s (tn_ID t) \<and>
        tn_AttemptCount t \<le> tn_MaxAttempts t) \<and>
     (\<forall>i\<ge>w_next_id (ls_world s). ls_claims s i = 0) \<and>
     (\<forall>t\<in>set (turns (ls_world s)). tn_LeaseToken t \<noteq> [] \<longrightarrow> (\<exists>h\<in>set (ls_held s). same_claim h t)) \<and>
     (\<forall>h\<in>set (ls_held s). tn_LeaseToken h \<noteq> []) \<and>
     (\<forall>h\<in>set (ls_held s). \<forall>h'\<in>set (ls_held s). tn_LeaseToken h = tn_LeaseToken h' \<longrightarrow> h = h')"

lemma lease_invI:
  assumes "distinct (map tn_ID (turns (ls_world s)))"
    and "\<And>t. t \<in> set (turns (ls_world s)) \<Longrightarrow> tn_ID t < w_next_id (ls_world s)"
    and "\<And>t. t \<in> set (turns (ls_world s)) \<Longrightarrow> tn_AttemptCount t = ls_claims s (tn_ID t) \<and> tn_AttemptCount t \<le> tn_MaxAttempts t"
    and "\<And>i. w_next_id (ls_world s) \<le> i \<Longrightarrow> ls_claims s i = 0"
    and "\<And>t. t \<in> set (turns (ls_world s)) \<Longrightarrow> tn_LeaseToken t \<noteq> [] \<Longrightarrow> \<exists>h\<in>set (ls_held s). same_claim h t"
    and "\<And>h. h \<in> set (ls_held s) \<Longrightarrow> tn_LeaseToken h \<noteq> []"
    and "\<And>h h'. h \<in> set (ls_held s) \<Longrightarrow> h' \<in> set (ls_held s) \<Longrightarrow> tn_LeaseToken h = tn_LeaseToken h' \<Longrightarrow> h = h'"
  shows "lease_inv s"
  unfolding lease_inv_def using assms by blast

lemma lease_inv_holder:
  assumes "lease_inv s" "t \<in> set (turns (ls_world s))" "tn_LeaseToken t \<noteq> []"
  obtains h where "h \<in> set (ls_held s)" "same_claim h t"
  using assms unfolding lease_inv_def by blast

text \<open>A step that changes rows in place keeps it: no row is claimed anew.\<close>

lemma inv_rows:
  assumes inv: "lease_inv s" and ids: "w_next_id (ls_world s) \<le> w_next_id w'"
    and keep: "\<And>u. u \<in> set (turns w') \<Longrightarrow> \<exists>t\<in>set (turns (ls_world s)). keeps_claim t u"
    and keys: "map tn_ID (turns w') = map tn_ID (turns (ls_world s))"
  shows "lease_inv (s\<lparr>ls_world := w'\<rparr>)"
proof (rule lease_invI)
  show "distinct (map tn_ID (turns (ls_world (s\<lparr>ls_world := w'\<rparr>))))" using inv keys by (simp add: lease_inv_def)
next
  fix u assume "u \<in> set (turns (ls_world (s\<lparr>ls_world := w'\<rparr>)))"
  then obtain t where t: "t \<in> set (turns (ls_world s))" "keeps_claim t u" using keep by auto
  show "tn_ID u < w_next_id (ls_world (s\<lparr>ls_world := w'\<rparr>))" using t inv ids by (fastforce simp: lease_inv_def keeps_claim_def)
  show "tn_AttemptCount u = ls_claims (s\<lparr>ls_world := w'\<rparr>) (tn_ID u) \<and> tn_AttemptCount u \<le> tn_MaxAttempts u"
    using t inv by (auto simp: lease_inv_def keeps_claim_def)
  show "\<exists>h\<in>set (ls_held (s\<lparr>ls_world := w'\<rparr>)). same_claim h u" if tok: "tn_LeaseToken u \<noteq> []"
  proof -
    have tt: "tn_LeaseToken t = tn_LeaseToken u" using t tok by (auto simp: keeps_claim_def)
    obtain h where "h \<in> set (ls_held s)" "same_claim h t" by (rule lease_inv_holder [OF inv t(1)]) (use tt tok in auto)
    then show ?thesis using t(2) tok by (auto simp: same_claim_def keeps_claim_def)
  qed
qed (use inv ids in \<open>auto simp: lease_inv_def\<close>)

lemma inv_touches:
  assumes "lease_inv s" "w_next_id (ls_world s) \<le> w_next_id w'" "touches_rows (turns (ls_world s)) (turns w')"
  shows "lease_inv (s\<lparr>ls_world := w'\<rparr>)"
proof (rule inv_rows [OF assms(1,2)])
  from assms(3) obtain P g where g: "\<And>t. keeps_claim t (g t)" "turns w' = change_where P g (turns (ls_world s))"
    by (auto simp: touches_rows_def)
  show "map tn_ID (turns w') = map tn_ID (turns (ls_world s))"
    using g(1) unfolding g(2) by (intro change_where_keys) (simp add: keeps_claim_def)
  show "\<exists>t\<in>set (turns (ls_world s)). keeps_claim t u" if "u \<in> set (turns w')" for u
    using that g(1) by (auto simp: g(2) change_where_set split: if_splits intro!: bexI)
qed

text \<open>A write through a copy replaces a row that stems from the same claim.\<close>

lemma inv_writes:
  assumes inv: "lease_inv s" and ids: "w_next_id (ls_world s) \<le> w_next_id w'"
    and h: "h \<in> set (ls_held s)" "same_claim h item" and wr: "writes_through item (turns (ls_world s)) (turns w')"
  shows "lease_inv (s\<lparr>ls_world := w'\<rparr>)"
proof (cases "turns w' = turns (ls_world s)")
  case True
  then show ?thesis using inv_touches [OF inv ids] by simp
next
  case False
  with wr obtain t P u where t: "t \<in> set (turns (ls_world s))" "leased item t" and P: "\<And>x. P x \<Longrightarrow> tn_ID x = tn_ID item"
    and u: "keeps_claim item u" and w': "turns w' = change_where P (\<lambda>_. u) (turns (ls_world s))"
    unfolding writes_through_def by blast
  have tok: "tn_LeaseToken item \<noteq> []" using inv h by (auto simp: lease_inv_def same_claim_def)
  then have tt: "tn_LeaseToken t = tn_LeaseToken h" "tn_ID t = tn_ID item" using t(2) h(2) by (auto simp: leased_def same_claim_def)
  then obtain h' where h': "h' \<in> set (ls_held s)" "same_claim h' t" using lease_inv_holder [OF inv t(1)] tok h(2) by (auto simp: same_claim_def)
  then have "h' = h" using inv h(1) tt by (auto simp: lease_inv_def same_claim_def)
  then have ku: "keeps_claim t u" using h' h(2) u tt by (auto simp: same_claim_def keeps_claim_def)
  have eq: "x = t" if "x \<in> set (turns (ls_world s))" "P x" for x
    using that P tt(2) t(1) inv distinct_key_eq [of tn_ID "turns (ls_world s)" x t] by (auto simp: lease_inv_def)
  show ?thesis
  proof (rule inv_rows [OF inv ids])
    show "map tn_ID (turns w') = map tn_ID (turns (ls_world s))"
      unfolding w' by (rule change_where_keys) (use eq ku in \<open>auto simp: keeps_claim_def\<close>)
    show "\<exists>t\<in>set (turns (ls_world s)). keeps_claim t v" if "v \<in> set (turns w')" for v
      using that eq ku by (auto simp: w' change_where_set) (metis keeps_claim_refl)+
  qed
qed

lemma inv_adds:
  assumes inv: "lease_inv s" and ids: "w_next_id (ls_world s) \<le> w_next_id w'" and new: "new_turn (ls_world s) w' t"
    and w': "turns w' = turns (ls_world s) @ [t]"
  shows "lease_inv (s\<lparr>ls_world := w'\<rparr>)"
proof (rule lease_invI)
  have fresh: "tn_ID x \<noteq> tn_ID t" if "x \<in> set (turns (ls_world s))" for x
    using that inv new by (auto simp: lease_inv_def new_turn_def)
  then have "tn_ID t \<notin> tn_ID ` set (turns (ls_world s))" by fastforce
  then show "distinct (map tn_ID (turns (ls_world (s\<lparr>ls_world := w'\<rparr>))))" using inv w' by (simp add: lease_inv_def)
  have old: "tn_ID x < w_next_id w'" if "x \<in> set (turns (ls_world s))" for x
    using that inv ids by (fastforce simp: lease_inv_def)
  fix x assume "x \<in> set (turns (ls_world (s\<lparr>ls_world := w'\<rparr>)))"
  then have x: "x = t \<or> x \<in> set (turns (ls_world s))" using w' by auto
  show "tn_ID x < w_next_id (ls_world (s\<lparr>ls_world := w'\<rparr>))" using x new old by (auto simp: new_turn_def)
  show "tn_AttemptCount x = ls_claims (s\<lparr>ls_world := w'\<rparr>) (tn_ID x) \<and> tn_AttemptCount x \<le> tn_MaxAttempts x"
    using x new inv by (auto simp: new_turn_def lease_inv_def)
  show "\<exists>h\<in>set (ls_held (s\<lparr>ls_world := w'\<rparr>)). same_claim h x" if "tn_LeaseToken x \<noteq> []"
    using x new inv that by (auto simp: new_turn_def lease_inv_def)
qed (use inv ids in \<open>auto simp: lease_inv_def\<close>)

lemma inv_touches_or_adds:
  assumes inv: "lease_inv s" and ids: "w_next_id (ls_world s) \<le> w_next_id w'" and ta: "touches_or_adds (ls_world s) w'"
  shows "lease_inv (s\<lparr>ls_world := w'\<rparr>)"
proof -
  consider "touches_rows (turns (ls_world s)) (turns w')"
    | ts t where "touches_rows (turns (ls_world s)) ts" "new_turn (ls_world s) w' t" "turns w' = ts @ [t]"
    using ta touches_rows_refl unfolding touches_or_adds_def by blast
  then show ?thesis
  proof cases
    case 1
    then show ?thesis by (rule inv_touches [OF inv ids])
  next
    case (2 ts t)
    define w1 where "w1 = (ls_world s)\<lparr>w_db := (w_db (ls_world s))\<lparr>db_turns := ts\<rparr>\<rparr>"
    have "lease_inv (s\<lparr>ls_world := w1\<rparr>)" by (rule inv_touches [OF inv]) (use 2 in \<open>simp_all add: w1_def\<close>)
    then have "lease_inv ((s\<lparr>ls_world := w1\<rparr>)\<lparr>ls_world := w'\<rparr>)"
      by (rule inv_adds [where t = t]) (use 2 ids in \<open>simp_all add: w1_def new_turn_def\<close>)
    then show ?thesis by simp
  qed
qed

text \<open>A claim counts one more, within the bound, under a token of its own.\<close>

lemma inv_claim:
  assumes inv: "lease_inv s" and call: "ClaimNext env wid tok until (ls_world s) = (Inr c, w')"
    and tok: "tok \<noteq> []" "tok \<notin> tn_LeaseToken ` set (ls_held s)"
  shows "lease_inv (s\<lparr>ls_world := w', ls_held := c # ls_held s, ls_claims := (ls_claims s)(tn_ID c := ls_claims s (tn_ID c) + 1)\<rparr>)"
proof -
  let ?w = "ls_world s"
  obtain t now where t: "t \<in> set (turns ?w)" "claimable now t"
    and w': "turns w' = change_where (\<lambda>x. tn_ID x = tn_ID t) (claimed_turn wid tok until now) (turns ?w)"
    and c: "c \<in> set (turns w')" "tn_ID c = tn_ID t"
    using ClaimNext_turns(3) [OF call refl] by auto
  have ids: "w_next_id ?w \<le> w_next_id w'" by (rule ClaimNext_turns(1) [OF call])
  have dist: "distinct (map tn_ID (turns ?w))" using inv by (simp add: lease_inv_def)
  have same: "x = t" if "x \<in> set (turns ?w)" "tn_ID x = tn_ID t" for x using distinct_key_eq [OF dist that(1) t(1) that(2)] .
  have ct: "c = claimed_turn wid tok until now t"
  proof -
    obtain r where r: "r \<in> set (turns ?w)" "c = (if tn_ID r = tn_ID t then claimed_turn wid tok until now r else r)"
      using c(1) by (auto simp: w' change_where_set)
    then have "tn_ID r = tn_ID t" using c(2) by (auto split: if_splits)
    then show ?thesis using r same by auto
  qed
  have cf: "tn_AttemptCount c = tn_AttemptCount t + 1" "tn_MaxAttempts c = tn_MaxAttempts t" "tn_LeaseToken c = tok"
    by (simp_all add: ct claimed_turn_def)
  have rows: "x = c \<or> x \<in> set (turns ?w) \<and> tn_ID x \<noteq> tn_ID c" if xw: "x \<in> set (turns w')" for x
  proof -
    obtain r where r: "r \<in> set (turns ?w)" "x = (if tn_ID r = tn_ID t then claimed_turn wid tok until now r else r)"
      using xw by (auto simp: w' change_where_set)
    then show ?thesis using same [of r] c(2) by (cases "tn_ID r = tn_ID t") (simp_all add: ct)
  qed
  have tb: "tn_AttemptCount t < tn_MaxAttempts t" "tn_ID t < w_next_id ?w" "tn_AttemptCount t = ls_claims s (tn_ID t)"
    using t inv by (simp_all add: claimable_def lease_inv_def)
  have old: "tn_ID x < w_next_id ?w \<and> tn_AttemptCount x = ls_claims s (tn_ID x) \<and> tn_AttemptCount x \<le> tn_MaxAttempts x"
    if "x \<in> set (turns ?w)" for x using that inv unfolding lease_inv_def by blast
  let ?s = "s\<lparr>ls_world := w', ls_held := c # ls_held s, ls_claims := (ls_claims s)(tn_ID c := ls_claims s (tn_ID c) + 1)\<rparr>"
  show ?thesis
  proof (rule lease_invI)
    have "map tn_ID (turns w') = map tn_ID (turns ?w)" unfolding w' by (rule change_where_keys) (simp add: claimed_turn_def)
    then show "distinct (map tn_ID (turns (ls_world ?s)))" using dist by simp
  next
    fix x assume "x \<in> set (turns (ls_world ?s))"
    then consider "x = c" | "x \<in> set (turns ?w)" "tn_ID x \<noteq> tn_ID c" using rows by auto
    note cases = this
    show "tn_ID x < w_next_id (ls_world ?s)" using cases old [of x] tb c(2) ids by cases auto
    show "tn_AttemptCount x = ls_claims ?s (tn_ID x) \<and> tn_AttemptCount x \<le> tn_MaxAttempts x"
      using cases by cases (use old [of x] tb cf c(2) in auto)
    show "\<exists>h\<in>set (ls_held ?s). same_claim h x" if tk: "tn_LeaseToken x \<noteq> []"
      using cases
    proof cases
      case 1
      then show ?thesis by (simp add: same_claim_def)
    next
      case 2
      then show ?thesis using tk by (auto elim: lease_inv_holder [OF inv])
    qed
  next
    fix i assume "w_next_id (ls_world ?s) \<le> i"
    then show "ls_claims ?s i = 0" using inv ids tb c(2) by (simp add: lease_inv_def)
  next
    show "tn_LeaseToken h \<noteq> []" if "h \<in> set (ls_held ?s)" for h using that inv tok(1) cf(3) by (auto simp: lease_inv_def)
    show "h = h'" if "h \<in> set (ls_held ?s)" "h' \<in> set (ls_held ?s)" "tn_LeaseToken h = tn_LeaseToken h'" for h h'
    proof -
      have "h = c \<or> h \<in> set (ls_held s)" "h' = c \<or> h' \<in> set (ls_held s)" using that(1,2) by auto
      moreover have "tn_LeaseToken x \<noteq> tn_LeaseToken c" if "x \<in> set (ls_held s)" for x using that tok(2) cf(3) by (metis imageI)
      moreover have "h = h'" if "h \<in> set (ls_held s)" "h' \<in> set (ls_held s)" using that \<open>tn_LeaseToken h = tn_LeaseToken h'\<close> inv by (simp add: lease_inv_def)
      ultimately show ?thesis using \<open>tn_LeaseToken h = tn_LeaseToken h'\<close> by metis
    qed
  qed
qed

lemma lease_step_inv:
  assumes "lease_step env s s'" "lease_inv s"
  shows "lease_inv s'"
  using assms
proof (cases rule: lease_step.cases)
  case (claim wid tok until c w')
  then show ?thesis using inv_claim assms(2) by simp
next
  case (claim_fails wid tok until e w')
  then show ?thesis using inv_touches [OF assms(2), of w'] ClaimNext_turns(1,2) by simp
next
  case (other w')
  then show ?thesis using inv_touches [OF assms(2), of w'] by simp
qed (simp_all add: inv_writes [OF assms(2)] inv_touches [OF assms(2)] inv_touches_or_adds [OF assms(2)]
    UpdateRunOwned_turns CompleteWithMessage_turns SavePausedRun_turns turn_Update_turns RecoverExpired_turns
    RenewLease_turns CancelActive_turns CancelByRun_turns ClaimResume_turns DecideApprovalAndClaimResume_turns CreateWithArtifacts_turns)

section \<open>A lost lease\<close>

text \<open>A copy whose lease is gone, or whose run is not open any more.\<close>

definition stale :: "world \<Rightarrow> turn \<Rightarrow> run \<Rightarrow> bool" where
  "stale w item run \<longleftrightarrow> (\<forall>t\<in>set (turns w). \<not> owns_turn item t) \<or> (\<forall>r\<in>set (runs_of w). \<not> run_open run r)"

definition refused :: "db_error option \<Rightarrow> bool" where
  "refused err \<longleftrightarrow> err = Some ErrLeaseLost \<or> (\<exists>e. err = Some (Db_error e))"

lemma run_recoverable_open: "run_recoverable run r \<Longrightarrow> run_open run r"
  by (auto simp: run_recoverable_def run_open_def)

text \<open>Two reads that guard a body; one of them finds nothing, or fails.\<close>

lemma guarded_transaction:
  assumes "transaction env (\<lambda>w. try_db (First env db_turns P w) m (\<lambda>_ w. try_db (First env db_runs Q w) m k)) w = ((err, m'), w')"
    and "(\<forall>t\<in>set (turns w). \<not> P t) \<or> (\<forall>r\<in>set (runs_of w). \<not> Q r)"
  shows "w_db w' = w_db w \<and> m' = m \<and> refused (lost True err)"
proof -
  obtain res w1 where f: "First env db_turns P w = (res, w1)" by (cases "First env db_turns P w")
  obtain res2 w2 where g: "First env db_runs Q w1 = (res2, w2)" by (cases "First env db_runs Q w1")
  have "\<exists>e w3. (try_db (First env db_turns P w) m (\<lambda>_ w. try_db (First env db_runs Q w) m k)) = ((Some e, m), w3) \<and>
      (e = ErrRecordNotFound \<or> (\<exists>s. e = Db_error s))"
    using f g assms(2) First_cases(1,2,3) [OF f] First_cases(2,3) [OF g] by (cases res; cases res2) (auto simp: try_db_def)
  then obtain e w3 where "try_db (First env db_turns P w) m (\<lambda>_ w. try_db (First env db_runs Q w) m k) = ((Some e, m), w3)"
    and e: "e = ErrRecordNotFound \<or> (\<exists>s. e = Db_error s)" by blast
  then have "((err, m'), w') = ((Some e, m), w3\<lparr>w_db := w_db w\<rparr>)" using assms(1) by (simp add: transaction_def)
  then show ?thesis using e by (auto simp: refused_def lost_def)
qed

lemma completeOwned_stale:
  assumes "tn_LeaseToken item \<noteq> []" "stale w item run" "completeOwned env item run before w = ((err, m), w')"
  shows "w_db w' = w_db w \<and> m = (item, run) \<and> refused err"
proof -
  from assms(1,3) obtain err' where "lost True err' = err"
    and "transaction env (\<lambda>w. try_db (First env db_turns (owns_turn item) w) (item, run) (\<lambda>_ w.
        try_db (First env db_runs (run_open run) w) (item, run) (\<lambda>_ w.
        case Now env w of (now, w) \<Rightarrow>
        case before now item w of
          ((Some e, item), w) \<Rightarrow> ((Some e, item, run), w)
        | ((None, item), w) \<Rightarrow> save_pair env now item run w))) w = ((err', m), w')"
    unfolding completeOwned_def locked_run_def by (auto split: prod.splits)
  with guarded_transaction [OF this(2)] assms(2) show ?thesis by (simp add: stale_def)
qed

lemma SavePausedRun_stale:
  assumes "tn_LeaseToken item \<noteq> []" "stale w item run" "SavePausedRun env item run ap cp w = ((err, m), w')"
  shows "w_db w' = w_db w \<and> m = (item, run) \<and> refused err"
proof -
  from assms(1,3) obtain err' k where "lost True err' = err"
    and "transaction env (\<lambda>w. try_db (First env db_turns (owns_turn item) w) (item, run) (\<lambda>_ w.
        try_db (First env db_runs (run_recoverable run) w) (item, run) k)) w = ((err', m), w')"
    unfolding SavePausedRun_def by (auto split: prod.splits)
  with guarded_transaction [OF this(2)] assms(2) show ?thesis by (auto simp: stale_def dest: run_recoverable_open)
qed

lemma transaction_now:
  assumes "Now env w = (now, w1)"
  shows "transaction env (\<lambda>w. case Now env w of (now, w) \<Rightarrow> body now w) w = transaction env (body now) w1"
proof -
  have "w_db w1 = w_db w" using Now_eq [OF assms] by simp
  note db = this
  show ?thesis unfolding transaction_def db assms by simp
qed

lemma RecoverExpired_stale:
  assumes "tn_LeaseToken item \<noteq> []" "stale w item run" "RecoverExpired env item run w = ((err, m), w')"
  shows "w_db w' = w_db w \<and> m = (item, run) \<and> refused err"
proof -
  obtain now w1 where now: "Now env w = (now, w1)" by (cases "Now env w")
  from assms(1,3) obtain err' where err: "lost True err' = err"
    and "transaction env (\<lambda>w. try_db (First env db_turns (\<lambda>t. owns_turn item t \<and> expired_at now t) w) (item, run) (\<lambda>_ w.
        try_db (First env db_runs (run_recoverable run) w) (item, run) (\<lambda>_ w. save_pair env now (clearTurnLease item) run w))) w1 = ((err', m), w')"
    unfolding RecoverExpired_def transaction_now [OF now] by (auto split: prod.splits)
  with guarded_transaction [OF this(2)] assms(2) Now_eq [OF now] show ?thesis by (auto simp: stale_def dest: run_recoverable_open)
qed

section \<open>The protocol\<close>

definition lease_init :: "lease_state \<Rightarrow> bool" where
  "lease_init s \<longleftrightarrow> ls_held s = [] \<and> (\<forall>i. ls_claims s i = 0) \<and> distinct (map tn_ID (turns (ls_world s))) \<and>
     (\<forall>t\<in>set (turns (ls_world s)). tn_ID t < w_next_id (ls_world s) \<and> tn_AttemptCount t = 0 \<and> 0 \<le> tn_MaxAttempts t \<and> tn_LeaseToken t = [])"

lemma lease_reachable_inv:
  assumes "lease_init s0" "(lease_step env)\<^sup>*\<^sup>* s0 s"
  shows "lease_inv s"
  using assms(2)
proof (induction rule: rtranclp_induct)
  case base
  show ?case using assms(1) by (auto simp: lease_init_def lease_inv_def)
next
  case (step s s')
  then show ?case using lease_step_inv by blast
qed

lemma lease_protocol_parts:
  assumes "lease_init s0" "(lease_step env)\<^sup>*\<^sup>* s0 s"
  shows "t \<in> set (turns (ls_world s)) \<Longrightarrow> tn_AttemptCount t = ls_claims s (tn_ID t) \<and> ls_claims s (tn_ID t) \<le> tn_MaxAttempts t"
    and "t \<in> set (turns (ls_world s)) \<Longrightarrow> h \<in> set (ls_held s) \<Longrightarrow> h' \<in> set (ls_held s) \<Longrightarrow> owns_turn h t \<Longrightarrow> owns_turn h' t \<Longrightarrow> h = h'"
    and "h \<in> set (ls_held s) \<Longrightarrow> same_claim h item \<Longrightarrow> stale (ls_world s) item run \<Longrightarrow>
           UpdateRunOwned env item run rel (ls_world s) = ((err, m), w') \<or> CompleteWithMessage env item msg run (ls_world s) = ((err, m), w') \<or>
           SavePausedRun env item run ap cp (ls_world s) = ((err, m), w') \<or> RecoverExpired env item run (ls_world s) = ((err, m), w') \<Longrightarrow>
           refused err \<and> w_db w' = w_db (ls_world s) \<and> m = (item, run)"
proof -
  have inv: "lease_inv s" using assms by (rule lease_reachable_inv)
  show "t \<in> set (turns (ls_world s)) \<Longrightarrow> tn_AttemptCount t = ls_claims s (tn_ID t) \<and> ls_claims s (tn_ID t) \<le> tn_MaxAttempts t"
    using inv unfolding lease_inv_def by metis
  show "h = h'" if "h \<in> set (ls_held s)" "h' \<in> set (ls_held s)" "owns_turn h t" "owns_turn h' t"
  proof -
    have "tn_LeaseToken h \<noteq> []" "tn_LeaseToken h' \<noteq> []" using inv that(1,2) by (auto simp: lease_inv_def)
    then have "tn_LeaseToken h = tn_LeaseToken h'" using that(3,4) by (simp add: owns_turn_def)
    then show ?thesis using inv that(1,2) unfolding lease_inv_def by blast
  qed
  show "refused err \<and> w_db w' = w_db (ls_world s) \<and> m = (item, run)"
    if h: "h \<in> set (ls_held s)" "same_claim h item" and st: "stale (ls_world s) item run"
      and c: "UpdateRunOwned env item run rel (ls_world s) = ((err, m), w') \<or> CompleteWithMessage env item msg run (ls_world s) = ((err, m), w') \<or>
           SavePausedRun env item run ap cp (ls_world s) = ((err, m), w') \<or> RecoverExpired env item run (ls_world s) = ((err, m), w')"
  proof -
    have tok: "tn_LeaseToken item \<noteq> []" using h inv by (auto simp: lease_inv_def same_claim_def)
    show ?thesis
      using c completeOwned_stale [OF tok st] SavePausedRun_stale [OF tok st] RecoverExpired_stale [OF tok st]
      unfolding UpdateRunOwned_def CompleteWithMessage_def by blast
  qed
qed


text \<open>A turn whose first worker dies: its lease expires, the turn is taken away and claimed by another worker, and
  the first one, should it still be there, cannot write.\<close>

definition ex_env :: db_env where
  "ex_env = \<lparr>statement_fails = \<lambda>_. None, clock_reading = \<lambda>n. 10 * int n, row_locked = \<lambda>_ _. False, json_valid = \<lambda>_. True, new_uuid = \<lambda>_. ''u''\<rparr>"

definition ex_turn :: turn where
  "ex_turn = \<lparr>tn_ID = 1, tn_OwnerID = 1, tn_CreatedAt = 0, tn_UpdatedAt = 0, tn_AgentID = 1, tn_ConversationID = 1, tn_RunID = Some 2,
     tn_UserMessageID = 3, tn_AssistantMessageID = None, tn_IdempotencyKey = ''k'', tn_Status = TurnStatusQueued, tn_InputJSON = ''{}'',
     tn_OutputJSON = [], tn_ErrorMessage = [], tn_AttemptCount = 0, tn_MaxAttempts = 3, tn_WorkerID = [], tn_LeaseToken = [],
     tn_LeaseExpiresAt = None, tn_LastHeartbeatAt = None, tn_RetryAt = None, tn_StartedAt = None, tn_FinishedAt = None\<rparr>"

definition ex_run :: run where
  "ex_run = \<lparr>rn_ID = 2, rn_OwnerID = 1, rn_CreatedAt = 0, rn_UpdatedAt = 0, rn_AgentID = 1, rn_ConversationID = Some 1, rn_WorkspaceID = None,
     rn_ParentRunID = None, rn_RunType = RunTypeTurn, rn_DelegationDepth = 0, rn_DefinitionJSON = ''{}'', rn_DefinitionHash = ''h'',
     rn_RuleHash = [], rn_Status = RunStatusRunning, rn_InputJSON = ''{}'', rn_OutputJSON = [], rn_ErrorMessage = [], rn_TotalTokens = 0,
     rn_LatencyMS = 0, rn_StartedAt = 0, rn_FinishedAt = None\<rparr>"

definition ex_db :: "turn list \<Rightarrow> run list \<Rightarrow> db" where
  "ex_db ts rs = \<lparr>db_turns = ts, db_runs = rs, db_approvals = [], db_checkpoints = [], db_messages = [], db_conversations = [],
     db_steps = [], db_goals = [], db_deferrals = []\<rparr>"

definition ex_world :: "turn list \<Rightarrow> run list \<Rightarrow> world" where
  "ex_world ts rs = \<lparr>w_db = ex_db ts rs, w_statements = 0, w_readings = 0, w_next_id = 100\<rparr>"

lemmas ex_defs = ex_env_def ex_turn_def ex_run_def ex_db_def ex_world_def
lemmas store_defs = ClaimNext_def RecoverExpired_def UpdateRunOwned_def completeOwned_def locked_run_def save_pair_def Save_turn_def Save_run_def
  Save_def put_row_def change_where_def Updates_def First_def Find_def statement_def transaction_def try_db_def Now_def lost_def owns_turn_def run_open_def
  run_recoverable_def claimable_def claimed_turn_def expired_at_def clearTurnLease_def Let_def


end
