(* ===== verification/Turn_Worker_Props.thy ===== *)
theory Turn_Worker_Props
  imports Turn_Worker Lease_Protocol
begin

text \<open>
  What the worker and the controls guarantee: which status a turn and its run end with, that a run that has
  called tools is not started again by itself, what recovery does, what cancelling reaches, what a goal is
  charged; and where the code does not do what it means to.
\<close>

section \<open>What the goal functions leave alone\<close>

abbreviation sturns :: "service \<Rightarrow> turn list" where "sturns sv \<equiv> turns (sv_world sv)"
abbreviation sruns :: "service \<Rightarrow> run list" where "sruns sv \<equiv> runs_of (sv_world sv)"
abbreviation ssteps :: "service \<Rightarrow> step_row list" where "ssteps sv \<equiv> db_steps (w_db (sv_world sv))"

text \<open>The tables of turns, runs and steps are the same.\<close>

definition same_core :: "db \<Rightarrow> db \<Rightarrow> bool" where
  "same_core d d' \<longleftrightarrow> db_turns d' = db_turns d \<and> db_runs d' = db_runs d \<and> db_steps d' = db_steps d"

abbreviation core_kept :: "service \<Rightarrow> service \<Rightarrow> bool" where
  "core_kept sv sv' \<equiv> same_core (w_db (sv_world sv)) (w_db (sv_world sv'))"

lemma same_core_refl [simp]: "same_core d d"
  by (simp add: same_core_def)

lemma same_core_trans: "same_core a b \<Longrightarrow> same_core b c \<Longrightarrow> same_core a c"
  by (simp add: same_core_def)

lemma on_world_eq: "on_world f sv = (r, sv') \<longleftrightarrow> (\<exists>w. f (sv_world sv) = (r, w) \<and> sv' = sv\<lparr>sv_world := w\<rparr>)"
  by (auto simp: on_world_def split: prod.splits)

lemma svc_Now_eq: "svc_Now env sv = (now, sv') \<Longrightarrow> w_db (sv_world sv') = w_db (sv_world sv)"
  by (auto simp: svc_Now_def on_world_eq dest: Now_eq)

lemma First_core: "First env rows P w = (res, w') \<Longrightarrow> w_db w' = w_db w"
  using First_cases(1) by blast

lemma goal_Get_db: "goal_Get env own c w = (res, w') \<Longrightarrow> w_db w' = w_db w"
  by (auto simp: goal_Get_def split: prod.splits sum.splits db_error.splits dest: First_core)

lemma Updates_goals_core: "Updates env db_goals db_goals_update P f w = (res, w') \<Longrightarrow> same_core (w_db w) (w_db w')"
  by (cases res) (auto simp: same_core_def dest: Updates_cases(2) [OF _ refl] Updates_cases(3) [OF _ refl])

lemma transaction_core:
  assumes "transaction env body w = ((err, m), w')" "\<And>m' w1. body w = ((None, m'), w1) \<Longrightarrow> same_core (w_db w) (w_db w1)"
  shows "same_core (w_db w) (w_db w')"
proof (cases err)
  case (Some e)
  then show ?thesis using transaction_error [of env body w e m w'] assms(1) by simp
next
  case None
  with assms(1) have "transaction env body w = ((None, m), w')" by simp
  then show ?thesis by (rule transaction_ok) (use assms(2) in auto)
qed

lemma goal_Update_core:
  assumes "goal_Update env item i w = (res, w')"
  shows "same_core (w_db w) (w_db w')"
proof -
  define body where "body = (\<lambda>w. case First env db_goals (\<lambda>g. tg_OwnerID g = tg_OwnerID item \<and> tg_ConversationID g = tg_ConversationID item \<and>
               (i \<noteq> [] \<longrightarrow> tg_GoalID g = i)) w of
          (Inl ErrRecordNotFound, w) \<Rightarrow> ((Some ErrRecordNotFound, Some GoalConflict), w)
        | (Inl e, w) \<Rightarrow> ((Some e, Some (Goal_db e)), w)
        | (Inr current, w) \<Rightarrow>
            if \<not> CanSetStatus (tg_Status current) (tg_Status item) then ((Some ErrInvalidData, Some GoalConflict), w)
            else case Now env w of (now, w) \<Rightarrow>
              (case Updates env db_goals db_goals_update (\<lambda>g. tg_ID g = tg_ID current)
                      (\<lambda>g. g\<lparr>tg_Objective := tg_Objective item, tg_Status := tg_Status item, tg_TokenBudget := tg_TokenBudget item,
                             tg_UpdatedAt := now\<rparr>) w of
                 (Inl e, w) \<Rightarrow> ((Some e, Some (Goal_db e)), w)
               | (Inr _, w) \<Rightarrow> ((None, None), w)))"
  obtain err m w1 where tr: "transaction env body w = ((err, m), w1)" by (cases "transaction env body w") auto
  have call: "(case transaction env body w of ((None, _), w) \<Rightarrow> (None, w) | ((Some e, Some ge), w) \<Rightarrow> (Some ge, w)
      | ((Some e, None), w) \<Rightarrow> (Some (Goal_db e), w)) = (res, w')" using assms unfolding goal_Update_def body_def .
  have "w1 = w'" using call tr by (auto split: option.splits)
  moreover have "same_core (w_db w) (w_db w1)"
  proof (rule transaction_core [OF tr])
    fix m' w2 assume "body w = ((None, m'), w2)"
    then show "same_core (w_db w) (w_db w2)"
      unfolding body_def
      by (auto split: prod.splits sum.splits if_splits db_error.splits dest!: First_core Now_eq Updates_goals_core)
  qed
  ultimately show ?thesis by simp
qed

lemma account_core:
  assumes "account env own c s t mode i w = (res, w')"
  shows "same_core (w_db w) (w_db w')"
proof -
  define body where "body = (\<lambda>w. try_db (First env db_goals (\<lambda>g. tg_OwnerID g = own \<and> tg_ConversationID g = c) w) None (\<lambda>current w.
        if (i \<noteq> [] \<and> tg_GoalID current \<noteq> i) \<or> \<not> accounting_allowed mode (tg_Status current) \<or>
           (max 0 s = 0 \<and> max 0 t = 0)
        then ((None, Some current), w)
        else case Now env w of (now, w) \<Rightarrow>
          let current = charged (max 0 s) (max 0 t) now current in
          try_db (Updates env db_goals db_goals_update (\<lambda>g. tg_ID g = tg_ID current)
                    (\<lambda>g. g\<lparr>tg_TimeUsedSeconds := tg_TimeUsedSeconds current, tg_TokensUsed := tg_TokensUsed current,
                           tg_Status := tg_Status current, tg_UpdatedAt := now\<rparr>) w) None (\<lambda>_ w. ((None, Some current), w))))"
  obtain err m w1 where tr: "transaction env body w = ((err, m), w1)" by (cases "transaction env body w") auto
  have call: "(case transaction env body w of ((None, Some g), w) \<Rightarrow> (Inr g, w)
      | ((Some ErrRecordNotFound, _), w) \<Rightarrow> (Inl GoalNotFound, w)
      | ((Some e, _), w) \<Rightarrow> (Inl (Goal_db e), w)
      | ((None, None), w) \<Rightarrow> (Inl GoalNotFound, w)) = (res, w')" using assms unfolding account_def body_def Let_def .
  have "w1 = w'" using call tr by (auto split: option.splits db_error.splits)
  moreover have "same_core (w_db w) (w_db w1)"
  proof (rule transaction_core [OF tr])
    fix m' w2 assume "body w = ((None, m'), w2)"
    then show "same_core (w_db w) (w_db w2)"
      unfolding body_def Let_def
      by (elim try_db_ok) (auto split: prod.splits if_splits elim!: try_db_ok dest!: First_core Now_eq Updates_goals_core)
  qed
  ultimately show ?thesis by simp
qed

lemma goal_emit_core [simp]: "w_db (sv_world (emitGoalUpdated c g sv)) = w_db (sv_world sv)"
  by (simp add: emitGoalUpdated_def)

lemma accountGoalRun_core: "core_kept sv (accountGoalRun env run out sv)"
  unfolding accountGoalRun_def Let_def
  by (auto simp: on_world_eq split: option.splits prod.splits sum.splits if_splits dest!: goal_Get_db account_core)

lemma markGoalStatus_core: "core_kept sv (markGoalStatus env run status sv)"
  unfolding markGoalStatus_def Let_def
  by (auto simp: on_world_eq split: option.splits prod.splits sum.splits if_splits dest!: goal_Get_db goal_Update_core)

lemma world_kept [simp]:
  "sv_world (clearSteering i sv) = sv_world sv" "sv_world (clearGoalUsage i sv) = sv_world sv" "sv_world (publishSnapshot r t m sv) = sv_world sv"
  by (simp_all add: clearSteering_def clearGoalUsage_def publishSnapshot_def)

lemma after_failure_core: "core_kept sv (after_failure env turn run cause sv)"
  using accountGoalRun_core [of sv env run no_output]
    markGoalStatus_core [of "clearSteering (rn_ID run) (accountGoalRun env run no_output sv)" env run]
  by (auto simp: after_failure_def Let_def same_core_def)

section \<open>How a turn ends\<close>

text \<open>A handler that ends a turn leaves the table of turns alone, or writes the row of its turn with one of the given
  statuses; it starts nothing.\<close>

definition ends_as :: "string set \<Rightarrow> turn \<Rightarrow> turn list \<Rightarrow> turn list \<Rightarrow> bool" where
  "ends_as S turn ts ts' \<longleftrightarrow> ts' = ts \<or>
     (\<exists>P u. (\<forall>x. P x \<longrightarrow> tn_ID x = tn_ID turn) \<and> tn_ID u = tn_ID turn \<and> tn_OwnerID u = tn_OwnerID turn \<and> tn_RunID u = tn_RunID turn \<and>
        tn_Status u \<in> S \<and> ts' = change_where P (\<lambda>_. u) ts)"

lemma ends_as_refl [simp]: "ends_as S turn ts ts"
  by (simp add: ends_as_def)

lemma ends_as_mono: "ends_as S turn ts ts' \<Longrightarrow> S \<subseteq> S' \<Longrightarrow> ends_as S' turn ts ts'"
  unfolding ends_as_def by blast

lemma ends_as_row:
  assumes "ends_as S turn ts ts'" "t \<in> set ts'"
  shows "t \<in> set ts \<or> tn_Status t \<in> S \<and> tn_OwnerID t = tn_OwnerID turn \<and> tn_RunID t = tn_RunID turn"
  using assms by (auto simp: ends_as_def change_where_set split: if_splits)

lemma UpdateRunOwned_ok:
  assumes "UpdateRunOwned env item run rel w = ((None, item', run'), w')"
  obtains now where "\<exists>t\<in>set (turns w). owns_turn item t" "tn_LeaseToken item \<noteq> [] \<Longrightarrow> \<exists>r\<in>set (runs_of w). run_open run r"
    "item' = (if rel then clearTurnLease item else item)\<lparr>tn_UpdatedAt := now\<rparr>" "run' = run\<lparr>rn_UpdatedAt := now\<rparr>"
    "w_db w' = (w_db w)\<lparr>db_turns := put_row tn_ID item' (turns w), db_runs := put_row rn_ID run' (runs_of w)\<rparr>"
  using assms unfolding UpdateRunOwned_def by (rule completeOwned_ok) (auto split: if_splits)

lemma UpdateRunOwned_error: "UpdateRunOwned env item run rel w = ((Some e, m), w') \<Longrightarrow> w_db w' = w_db w"
  unfolding UpdateRunOwned_def by (rule completeOwned_error)

lemma put_row_ends:
  assumes "\<exists>t\<in>set ts. owns_turn item t" "tn_ID u = tn_ID item" "tn_OwnerID u = tn_OwnerID item" "tn_RunID u = tn_RunID item" "tn_Status u \<in> S"
  shows "ends_as S item ts (put_row tn_ID u ts)"
proof -
  have "put_row tn_ID u ts = change_where (\<lambda>x. tn_ID x = tn_ID item) (\<lambda>_. u) ts"
    using assms(1,2) by (subst put_row_present) (auto simp: owns_turn_def)
  then show ?thesis using assms unfolding ends_as_def
    by (intro disjI2 exI [of _ "\<lambda>x. tn_ID x = tn_ID item"] exI [of _ u]) auto
qed

lemma UpdateRunOwned_ends:
  assumes "UpdateRunOwned env item run rel w = ((err, m), w')" "tn_Status item \<in> S"
  shows "ends_as S item (turns w) (turns w')" and "db_steps (w_db w') = db_steps (w_db w)"
proof -
  obtain item' run' where m: "m = (item', run')" by (cases m)
  have "ends_as S item (turns w) (turns w') \<and> db_steps (w_db w') = db_steps (w_db w)"
  proof (cases err)
    case (Some e)
    then show ?thesis using UpdateRunOwned_error assms(1) by simp
  next
    case None
    then have "UpdateRunOwned env item run rel w = ((None, item', run'), w')" using assms(1) m by simp
    then show ?thesis
      by (rule UpdateRunOwned_ok) (auto intro!: put_row_ends simp: assms(2) clearTurnLease_def)
  qed
  then show "ends_as S item (turns w) (turns w')" and "db_steps (w_db w') = db_steps (w_db w)" by auto
qed

lemma turn_Update_ends:
  assumes "turn_Update env item w = ((err, item'), w')" "tn_Status item \<in> S"
  shows "ends_as S item (turns w) (turns w')" and "db_runs (w_db w') = db_runs (w_db w)" and "db_steps (w_db w') = db_steps (w_db w)"
proof -
  obtain now w1 where now: "Now env w = (now, w1)" by (cases "Now env w")
  let ?u = "item\<lparr>tn_UpdatedAt := now\<rparr>"
  let ?P = "\<lambda>t. tn_ID t = tn_ID ?u \<and> tn_OwnerID t = tn_OwnerID ?u \<and> (tn_LeaseToken ?u \<noteq> [] \<longrightarrow> tn_LeaseToken t = tn_LeaseToken ?u)"
  obtain res w2 where u: "Updates env db_turns db_turns_update ?P (\<lambda>_. ?u) w1 = (res, w2)" by (cases "Updates env db_turns db_turns_update ?P (\<lambda>_. ?u) w1")
  have w2: "w' = w2" using assms now u by (auto simp: turn_Update_def try_db_def Let_def split: sum.splits)
  have "turns w' = turns w \<or> turns w' = change_where ?P (\<lambda>_. ?u) (turns w)"
    "db_runs (w_db w') = db_runs (w_db w)" "db_steps (w_db w') = db_steps (w_db w)"
    using Updates_cases [OF u] Now_eq [OF now] w2 by (cases res; auto)+
  then show "ends_as S item (turns w) (turns w')" and "db_runs (w_db w') = db_runs (w_db w)" and "db_steps (w_db w') = db_steps (w_db w)"
    using assms(2) by (auto simp: ends_as_def intro!: exI [of _ ?P] exI [of _ ?u])
qed

lemma ends_as_like:
  assumes "ends_as S item ts ts'" "tn_ID item = tn_ID turn" "tn_OwnerID item = tn_OwnerID turn" "tn_RunID item = tn_RunID turn"
  shows "ends_as S turn ts ts'"
  using assms by (simp add: ends_as_def)

lemma cancel_turn_of_ends:
  assumes "cancel_turn_of env turn sv = ((err, turn'), sv')"
  shows "ends_as {TurnStatusCancelled} turn (sturns sv) (sturns sv')" and "sruns sv' = sruns sv" and "ssteps sv' = ssteps sv"
proof -
  obtain now sv1 where now: "svc_Now env sv = (now, sv1)" by (cases "svc_Now env sv")
  let ?t = "turn\<lparr>tn_Status := TurnStatusCancelled, tn_FinishedAt := Some now\<rparr>"
  obtain w where u: "turn_Update (se_db env) ?t (sv_world sv1) = ((err, turn'), w)" and sv': "sv' = sv1\<lparr>sv_world := w\<rparr>"
    using assms now by (auto simp: cancel_turn_of_def on_world_eq)
  have "ends_as {TurnStatusCancelled} turn (turns (sv_world sv1)) (turns w)"
    by (rule ends_as_like [OF turn_Update_ends(1) [OF u]]) simp_all
  then show "ends_as {TurnStatusCancelled} turn (sturns sv) (sturns sv')" using sv' svc_Now_eq [OF now] by simp
  show "sruns sv' = sruns sv" "ssteps sv' = ssteps sv"
    using turn_Update_ends(2,3) [OF u, of UNIV] sv' svc_Now_eq [OF now] by simp_all
qed

lemma fail_both_ends:
  assumes "fail_both env turn run cause sv = (turn', run', sv')"
  shows "ends_as {TurnStatusFailed} turn (sturns sv) (sturns sv')" and "ssteps sv' = ssteps sv"
proof -
  obtain now sv1 where now: "svc_Now env sv = (now, sv1)" by (cases "svc_Now env sv")
  let ?t = "turn\<lparr>tn_Status := TurnStatusFailed, tn_ErrorMessage := er_text cause, tn_FinishedAt := Some now\<rparr>"
  obtain err t r w where u: "UpdateRunOwned (se_db env) ?t (failed_run run cause now) True (sv_world sv1) = ((err, t, r), w)"
    by (cases "UpdateRunOwned (se_db env) ?t (failed_run run cause now) True (sv_world sv1)") auto
  have e: "ends_as {TurnStatusFailed} turn (turns (sv_world sv1)) (turns w)"
    by (rule ends_as_like [OF UpdateRunOwned_ends(1) [OF u]]) simp_all
  have st: "db_steps (w_db w) = db_steps (w_db (sv_world sv1))" by (rule UpdateRunOwned_ends(2) [OF u, of UNIV]) simp
  have "sv' = sv1\<lparr>sv_world := w\<rparr> \<or> sv' = after_failure env t r cause (sv1\<lparr>sv_world := w\<rparr>)"
    using assms now u by (auto simp: fail_both_def on_world_def split: option.splits)
  then have "sturns sv' = turns w \<and> ssteps sv' = db_steps (w_db w)"
    using after_failure_core [of "sv1\<lparr>sv_world := w\<rparr>" env t r cause] by (auto simp: same_core_def)
  then show "ends_as {TurnStatusFailed} turn (sturns sv) (sturns sv')" and "ssteps sv' = ssteps sv"
    using e st svc_Now_eq [OF now] by simp_all
qed

lemma failTurn_ends:
  assumes "failTurn env turn run cause sv = (turn', run', sv')"
  shows "ends_as {TurnStatusFailed, TurnStatusCancelled} turn (sturns sv) (sturns sv')" and "ssteps sv' = ssteps sv"
proof -
  obtain res sv1 where f: "on_world (run_FindByID (se_db env) (tn_OwnerID turn) (rn_ID run)) sv = (res, sv1)"
    by (cases "on_world (run_FindByID (se_db env) (tn_OwnerID turn) (rn_ID run)) sv")
  then have db: "w_db (sv_world sv1) = w_db (sv_world sv)" by (auto simp: on_world_eq run_FindByID_def dest: First_core)
  consider (both) "fail_both env turn run cause sv1 = (turn', run', sv')"
    | (cancel) err sv2 where "cancel_turn_of env turn sv1 = ((err, turn'), sv2)" "sv_world sv' = sv_world sv2"
    using assms f by (auto simp: failTurn_def split: sum.splits if_splits prod.splits)
  then have "ends_as {TurnStatusFailed, TurnStatusCancelled} turn (sturns sv1) (sturns sv') \<and> ssteps sv' = ssteps sv1"
  proof cases
    case both
    then show ?thesis using ends_as_mono [OF fail_both_ends(1) [OF both]] fail_both_ends(2) [OF both] by simp
  next
    case (cancel err sv2)
    then show ?thesis using ends_as_mono [OF cancel_turn_of_ends(1) [OF cancel(1)]] cancel_turn_of_ends(3) [OF cancel(1)] by simp
  qed
  then show "ends_as {TurnStatusFailed, TurnStatusCancelled} turn (sturns sv) (sturns sv')" and "ssteps sv' = ssteps sv" using db by simp_all
qed

section \<open>Tools are not called twice\<close>

definition tool_steps :: "service \<Rightarrow> int \<Rightarrow> int option \<Rightarrow> bool" where
  "tool_steps sv own runID \<longleftrightarrow>
     (\<exists>s\<in>set (ssteps sv). st_OwnerID s = own \<and> Some (st_RunID s) = runID \<and> (st_StepType s = ''tool_call'' \<or> st_StepType s = ''tool_result''))"

lemma runHasToolSideEffects_cases:
  assumes "runHasToolSideEffects env own runID sv = (res, sv')"
  shows "w_db (sv_world sv') = w_db (sv_world sv)"
    and "res = Inr b \<Longrightarrow> se_steps env \<Longrightarrow> b = tool_steps sv own runID"
proof -
  have "w_db (sv_world sv') = w_db (sv_world sv) \<and> (res = Inr b \<longrightarrow> se_steps env \<longrightarrow> b = tool_steps sv own runID)"
  proof (cases "runID = None \<or> \<not> se_steps env")
    case True
    then show ?thesis using assms by (auto simp: runHasToolSideEffects_def tool_steps_def split: option.splits)
  next
    case False
    then obtain i where i: "runID = Some i" "se_steps env" by auto
    let ?P = "\<lambda>s. st_OwnerID s = own \<and> st_RunID s = i"
    obtain r w where f: "Find (se_db env) db_steps ?P (sv_world sv) = (r, w)" by (cases "Find (se_db env) db_steps ?P (sv_world sv)")
    show ?thesis using assms i f Find_cases(1) [OF f] Find_cases(2) [OF f]
      by (cases r) (auto simp: runHasToolSideEffects_def on_world_def tool_steps_def)
  qed
  then show "w_db (sv_world sv') = w_db (sv_world sv)" "res = Inr b \<Longrightarrow> se_steps env \<Longrightarrow> b = tool_steps sv own runID" by auto
qed

lemma retry_both_ends:
  assumes "retry_both env turn run s cause sv = (turn', run', sv')"
  shows "ends_as {TurnStatusFailed, TurnStatusCancelled, TurnStatusRetryWait} turn (sturns sv) (sturns sv')"
proof -
  obtain now sv1 where now: "svc_Now env sv = (now, sv1)" by (cases "svc_Now env sv")
  let ?t = "turn\<lparr>tn_Status := TurnStatusRetryWait, tn_ErrorMessage := er_text cause,
                   tn_RetryAt := Some (now + backoff (tn_AttemptCount turn)), tn_FinishedAt := None\<rparr>"
  let ?r = "run\<lparr>rn_Status := s, rn_ErrorMessage := er_text cause, rn_FinishedAt := None\<rparr>"
  obtain err t r w where u: "UpdateRunOwned (se_db env) ?t ?r True (sv_world sv1) = ((err, t, r), w)"
    by (cases "UpdateRunOwned (se_db env) ?t ?r True (sv_world sv1)") auto
  have e: "ends_as {TurnStatusRetryWait} turn (turns (sv_world sv1)) (turns w)"
    by (rule ends_as_like [OF UpdateRunOwned_ends(1) [OF u]]) simp_all
  show ?thesis
  proof (cases err)
    case None
    then have "sturns sv' = turns w" using assms now u by (auto simp: retry_both_def on_world_def)
    then show ?thesis using ends_as_mono [OF e] svc_Now_eq [OF now] by simp
  next
    case (Some x)
    have db: "w_db w = w_db (sv_world sv1)" using u Some UpdateRunOwned_error by simp
    consider "sv' = sv1\<lparr>sv_world := w\<rparr>" | c where "failTurn env turn run c (sv1\<lparr>sv_world := w\<rparr>) = (turn', run', sv')"
      using assms now u Some by (auto simp: retry_both_def on_world_def split: if_splits)
    then show ?thesis
    proof cases
      case 1
      then show ?thesis using db svc_Now_eq [OF now] by simp
    next
      case (2 c)
      then show ?thesis using ends_as_mono [OF failTurn_ends(1) [OF 2]] db svc_Now_eq [OF now] by simp
    qed
  qed
qed

lemma retryTurn_ends:
  assumes "retryTurn env turn run cause sv = (turn', run', sv')" "se_steps env"
  shows "ends_as (if tool_steps sv (tn_OwnerID turn) (tn_RunID turn) \<or> max_attempts turn \<le> tn_AttemptCount turn
           then {TurnStatusFailed, TurnStatusCancelled} else {TurnStatusFailed, TurnStatusCancelled, TurnStatusRetryWait}) turn (sturns sv) (sturns sv')"
proof -
  obtain res sv1 where f: "runHasToolSideEffects env (tn_OwnerID turn) (tn_RunID turn) sv = (res, sv1)"
    by (cases "runHasToolSideEffects env (tn_OwnerID turn) (tn_RunID turn) sv")
  note h = runHasToolSideEffects_cases [OF f]
  consider (fail) c where "failTurn env turn run c sv1 = (turn', run', sv')"
    | (retry) s where "retry_both env turn run s cause sv1 = (turn', run', sv')"
        "\<not> tool_steps sv (tn_OwnerID turn) (tn_RunID turn)" "\<not> max_attempts turn \<le> tn_AttemptCount turn"
    using assms f h(2) by (auto simp: retryTurn_def split: sum.splits if_splits)
  then show ?thesis
  proof cases
    case (fail c)
    show ?thesis using ends_as_mono [OF failTurn_ends(1) [OF fail]] h(1) by auto
  next
    case (retry s)
    then show ?thesis using ends_as_mono [OF retry_both_ends [OF retry(1)]] h(1) by simp
  qed
qed

lemma recovered_pair_turn:
  assumes "recovered_pair tools turn run now = Inr (t, r)"
  shows "tn_ID t = tn_ID turn" and "tn_OwnerID t = tn_OwnerID turn" and "tn_RunID t = tn_RunID turn"
    and "tn_Status t = (if tools \<or> max_attempts turn \<le> tn_AttemptCount turn then TurnStatusPaused else TurnStatusRetryWait)"
    and "rn_ID r = rn_ID run"
  using assms by (auto simp: recovered_pair_def Let_def split: if_splits sum.splits)

lemma RecoverExpired_ends:
  assumes "RecoverExpired env item run w = ((err, m), w')" "tn_Status item \<in> S"
  shows "ends_as S item (turns w) (turns w')" and "db_steps (w_db w') = db_steps (w_db w)"
proof -
  have "ends_as S item (turns w) (turns w') \<and> db_steps (w_db w') = db_steps (w_db w)"
  proof (cases err)
    case (Some e)
    then show ?thesis using RecoverExpired_error assms(1) by simp
  next
    case None
    then have "RecoverExpired env item run w = ((None, m), w')" using assms(1) by simp
    then show ?thesis by (rule RecoverExpired_ok) (auto intro!: put_row_ends simp: assms(2) clearTurnLease_def)
  qed
  then show "ends_as S item (turns w) (turns w')" and "db_steps (w_db w') = db_steps (w_db w)" by auto
qed

lemma recover_one_ends:
  assumes "recover_one env turn sv = (err, sv')" "se_steps env"
  shows "ends_as (if tool_steps sv (tn_OwnerID turn) (tn_RunID turn) \<or> max_attempts turn \<le> tn_AttemptCount turn
           then {TurnStatusPaused} else {TurnStatusRetryWait}) turn (sturns sv) (sturns sv')" (is "ends_as ?S _ _ _")
    and "ssteps sv' = ssteps sv"
proof -
  have "ends_as ?S turn (sturns sv) (sturns sv') \<and> ssteps sv' = ssteps sv"
  proof (cases "w_db (sv_world sv') = w_db (sv_world sv)")
    case True
    then show ?thesis by simp
  next
    case False
    obtain runID where rid: "tn_RunID turn = Some runID" using assms(1) False by (auto simp: recover_one_def split: option.splits)
    obtain res sv1 where f: "on_world (run_FindByID (se_db env) (tn_OwnerID turn) runID) sv = (res, sv1)"
      by (cases "on_world (run_FindByID (se_db env) (tn_OwnerID turn) runID) sv")
    then have db1: "w_db (sv_world sv1) = w_db (sv_world sv)" by (auto simp: on_world_eq run_FindByID_def dest: First_core)
    obtain run where run: "res = Inr run" using assms(1) False rid f db1 by (cases res) (auto simp: recover_one_def)
    obtain tools sv2 where h: "runHasToolSideEffects env (tn_OwnerID turn) (tn_RunID turn) sv1 = (tools, sv2)"
      by (cases "runHasToolSideEffects env (tn_OwnerID turn) (tn_RunID turn) sv1")
    note db2 = runHasToolSideEffects_cases(1) [OF h]
    obtain b where b: "tools = Inr b" using assms(1) False rid f run h db1 db2 by (cases tools) (auto simp: recover_one_def)
    have bt: "b = tool_steps sv (tn_OwnerID turn) (tn_RunID turn)"
      using runHasToolSideEffects_cases(2) [OF h b assms(2)] db1 by (simp add: tool_steps_def)
    obtain now sv3 where now: "svc_Now env sv2 = (now, sv3)" by (cases "svc_Now env sv2")
    note db3 = svc_Now_eq [OF now]
    obtain t r where p: "recovered_pair b turn run now = Inr (t, r)"
      using assms(1) False rid f run h b now db1 db2 db3 by (cases "recovered_pair b turn run now") (auto simp: recover_one_def)
    obtain e m w where c: "RecoverExpired (se_db env) t r (sv_world sv3) = ((e, m), w)" by (cases "RecoverExpired (se_db env) t r (sv_world sv3)") auto
    have w: "sv_world sv' = w" using assms(1) rid f run h b now p c
      by (auto simp: recover_one_def on_world_def split: option.splits if_splits prod.splits)
    have "tn_Status t \<in> ?S" using recovered_pair_turn(4) [OF p] bt by simp
    note e = RecoverExpired_ends [OF c this]
    show ?thesis using ends_as_like [OF e(1) recovered_pair_turn(1,2,3) [OF p]] e(2) w db1 db2 db3 by simp
  qed
  then show "ends_as ?S turn (sturns sv) (sturns sv')" "ssteps sv' = ssteps sv" by auto
qed

lemma recover_items_replay:
  assumes "recover_items env items sv = (err, sv')" "se_steps env" "t \<in> set (sturns sv')"
    "tool_steps sv (tn_OwnerID t) (tn_RunID t)"
  shows "t \<in> set (sturns sv) \<or> tn_Status t = TurnStatusPaused"
  using assms
proof (induction env items sv arbitrary: err rule: recover_items.induct)
  case (1 env sv)
  then show ?case by simp
next
  case (2 env turn items sv)
  obtain e sv1 where one: "recover_one env turn sv = (e, sv1)" by (cases "recover_one env turn sv")
  note o = recover_one_ends [OF one 2(3)]
  have tools: "tool_steps sv1 (tn_OwnerID t) (tn_RunID t)" using 2(5) o(2) by (simp add: tool_steps_def)
  have first: "t \<in> set (sturns sv) \<or> tn_Status t = TurnStatusPaused" if "t \<in> set (sturns sv1)"
    using ends_as_row [OF o(1) that] 2(5) by (auto split: if_splits)
  show ?case
  proof (cases e)
    case (Some x)
    then show ?thesis using 2(2) one first 2(4) by simp
  next
    case None
    then have "recover_items env items sv1 = (err, sv')" using 2(2) one by simp
    then have "t \<in> set (sturns sv1) \<or> tn_Status t = TurnStatusPaused"
      using 2(1) [OF one [symmetric] None _ 2(3,4) tools] by simp
    then show ?thesis using first by blast
  qed
qed

lemma ListExpiredRunning_db: "ListExpiredRunning env before n w = (res, w') \<Longrightarrow> w_db w' = w_db w"
  by (auto simp: ListExpiredRunning_def Let_def split: prod.splits sum.splits dest: Find_cases(1))

lemma recoverExpired_items:
  assumes "recoverExpired env sv = (err, sv')"
  obtains "w_db (sv_world sv') = w_db (sv_world sv)"
    | items sv1 where "recover_items env items sv1 = (err, sv')" "w_db (sv_world sv1) = w_db (sv_world sv)"
proof -
  obtain now sv0 where now: "svc_Now env sv = (now, sv0)" by (cases "svc_Now env sv")
  obtain res w where l: "ListExpiredRunning (se_db env) now 100 (sv_world sv0) = (res, w)" by (cases "ListExpiredRunning (se_db env) now 100 (sv_world sv0)")
  have "w_db w = w_db (sv_world sv)" using ListExpiredRunning_db [OF l] svc_Now_eq [OF now] by simp
  then show ?thesis using assms now l that by (cases res) (auto simp: recoverExpired_def on_world_def)
qed

lemma tool_effects_not_replayed_parts:
  assumes "se_steps env" and "tool_steps sv (tn_OwnerID t) (tn_RunID t)" and "t \<in> set (sturns sv')"
  shows "retryTurn env turn run cause sv = (turn', run', sv') \<Longrightarrow> t \<in> set (sturns sv) \<or> tn_Status t \<in> {TurnStatusFailed, TurnStatusCancelled}"
    and "recoverExpired env sv = (err, sv') \<Longrightarrow> t \<in> set (sturns sv) \<or> tn_Status t = TurnStatusPaused"
proof -
  assume "retryTurn env turn run cause sv = (turn', run', sv')"
  from ends_as_row [OF retryTurn_ends [OF this assms(1)] assms(3)]
  show "t \<in> set (sturns sv) \<or> tn_Status t \<in> {TurnStatusFailed, TurnStatusCancelled}" using assms(2) by (auto split: if_splits)
next
  assume "recoverExpired env sv = (err, sv')"
  then show "t \<in> set (sturns sv) \<or> tn_Status t = TurnStatusPaused"
  proof (cases rule: recoverExpired_items)
    case 1
    then show ?thesis using assms(3) by simp
  next
    case (2 items sv1)
    show ?thesis
      using recover_items_replay [OF 2(1) assms(1,3)] assms(2) 2(2) by (simp add: tool_steps_def)
  qed
qed

text \<open>C7: Tools are not called twice by the machinery. When the run of a turn has recorded a tool call or a tool
  result, then neither a failed attempt nor the recovery of expired leases makes the turn claimable again,
  whatever statements of the store fail meanwhile: a row that the failed attempt has written is failed or
  cancelled, one that recovery has written is paused, for a human to look at.\<close>

theorem tool_effects_not_replayed:
  assumes "se_steps env" and "tool_steps sv (tn_OwnerID t) (tn_RunID t)" and "t \<in> set (sturns sv')"
  shows "(\<forall>turn run cause turn' run'. retryTurn env turn run cause sv = (turn', run', sv') \<longrightarrow>
            t \<in> set (sturns sv) \<or> tn_Status t \<in> {TurnStatusFailed, TurnStatusCancelled}) \<and>
         (\<forall>err. recoverExpired env sv = (err, sv') \<longrightarrow> t \<in> set (sturns sv) \<or> tn_Status t = TurnStatusPaused)"
  using tool_effects_not_replayed_parts [OF assms] by blast


text \<open>A service on a store without faults, with one running turn and what its run has recorded.\<close>

definition demo_lib :: go_lib where
  "demo_lib = \<lparr>lower_tab = id, fold_tab = id, quote = id, sha256_hex = id, json_Valid = \<lambda>_. True, unmarshal_any = \<lambda>_. Inr JNull,
     unmarshal_map = \<lambda>_. Inr [], marshal = \<lambda>_. Some ''{}'', unmarshal_empty = \<lambda>_. None, unmarshal_strings = \<lambda>_ _. Inr [],
     unmarshal_ints = \<lambda>_ _ _. Inr (0, 0), unmarshal_text = \<lambda>_ _ _. Inr ([], []), unmarshal_string_map = \<lambda>_. Inr []\<rparr>"

definition demo_env :: "db_env \<Rightarrow> svc_env" where
  "demo_env env = \<lparr>se_db = env, se_lib = demo_lib, se_goals = False, se_steps = True, se_budget_ceiling = None,
     se_text = \<lambda>e. case e of Db_error t \<Rightarrow> t | _ \<Rightarrow> ''error'', se_definition = \<lambda>_ _. Inr (''{}'', ''h'', []), se_observability = \<lambda>_ _. JNull\<rparr>"

definition demo_service :: "turn list \<Rightarrow> run list \<Rightarrow> step_row list \<Rightarrow> service" where
  "demo_service ts rs steps = \<lparr>sv_world = (ex_world ts rs)\<lparr>w_db := (ex_db ts rs)\<lparr>db_steps := steps\<rparr>, w_readings := 2\<rparr>, sv_steering = \<lambda>_. [],
     sv_usage = \<lambda>_. None, sv_snapshots = [], sv_goal_events = []\<rparr>"

definition demo_turn :: turn where
  "demo_turn = ex_turn\<lparr>tn_Status := TurnStatusRunning, tn_AttemptCount := 1, tn_LeaseToken := ''a'', tn_LeaseExpiresAt := Some 5\<rparr>"

definition demo_step :: step_row where
  "demo_step = \<lparr>st_OwnerID = 1, st_RunID = 2, st_StepType = ''tool_call''\<rparr>"

lemmas demo_defs = demo_lib_def demo_env_def demo_service_def demo_turn_def demo_step_def ex_defs
lemmas worker_defs = recoverExpired_def ListExpiredRunning_def recover_one_def run_FindByID_def runHasToolSideEffects_def recovered_pair_def
  svc_Now_def on_world_def publishSnapshot_def max_attempts_def backoff_def TransitionStatus_def canTransitionRunStatus_def
  retryTurn_def failTurn_def fail_both_def failed_run_def after_failure_def accountGoalRun_def clearSteering_def markGoalStatus_def clearGoalUsage_def

theorem tool_effects_not_replayed_witness:
  "(\<exists>t sv'. recoverExpired (demo_env ex_env) (demo_service [demo_turn] [ex_run] [demo_step]) = (None, sv') \<and> sturns sv' = [t] \<and> t \<noteq> demo_turn \<and>
     tn_Status t = TurnStatusPaused) \<and>
   (\<exists>t sv' turn' run'. retryTurn (demo_env ex_env) demo_turn ex_run (plain ''timeout'') (demo_service [demo_turn] [ex_run] [demo_step]) = (turn', run', sv') \<and>
     sturns sv' = [t] \<and> t \<noteq> demo_turn \<and> tn_Status t \<in> {TurnStatusFailed, TurnStatusCancelled})"
proof (intro conjI)
  let ?e = "demo_env ex_env" and ?s = "demo_service [demo_turn] [ex_run] [demo_step]"
  have st: "se_steps ?e" "tool_steps ?s 1 (Some 2)" by (simp_all add: tool_steps_def demo_defs)
  obtain sv1 t where r: "recoverExpired ?e ?s = (None, sv1)" and t: "sturns sv1 = [t]" "tn_LeaseToken t = []" "tn_OwnerID t = 1" "tn_RunID t = Some 2"
    by (simp add: worker_defs demo_defs store_defs)
  have "tn_LeaseToken demo_turn = ''a''" "sturns ?s = [demo_turn]" by (simp_all add: demo_defs)
  then show "\<exists>t sv'. recoverExpired ?e ?s = (None, sv') \<and> sturns sv' = [t] \<and> t \<noteq> demo_turn \<and> tn_Status t = TurnStatusPaused"
    using tool_effects_not_replayed [OF st(1), of ?s t sv1] st(2) r t by (intro exI [of _ t] exI [of _ sv1]) auto
  obtain turn' run' sv2 u where f: "retryTurn ?e demo_turn ex_run (plain ''timeout'') ?s = (turn', run', sv2)"
    and u: "sturns sv2 = [u]" "tn_LeaseToken u = []" "tn_OwnerID u = 1" "tn_RunID u = Some 2"
    by (simp add: worker_defs demo_defs store_defs plain_def)
  show "\<exists>t sv' turn' run'. retryTurn ?e demo_turn ex_run (plain ''timeout'') ?s = (turn', run', sv') \<and>
     sturns sv' = [t] \<and> t \<noteq> demo_turn \<and> tn_Status t \<in> {TurnStatusFailed, TurnStatusCancelled}"
    using tool_effects_not_replayed [OF st(1), of ?s u sv2] st(2) f u \<open>tn_LeaseToken demo_turn = ''a''\<close> \<open>sturns ?s = [demo_turn]\<close>
    by (intro exI [of _ u] exI [of _ sv2] exI [of _ turn'] exI [of _ run']) auto
qed

end
