(* ===== verification/Turn_Recovery.thy ===== *)
theory Turn_Recovery
  imports Turn_Worker_Props
begin

text \<open>
  Recovery of turns whose worker is gone: what a pass of \<^verbatim>\<open>recoverExpired\<close> achieves on a store that answers,
  and the state in which every pass ends at the same turn.
\<close>

section \<open>A store that answers\<close>

lemma quiet_First:
  "quiet env \<Longrightarrow> First env rows P w =
     ((case List.find P (rows (w_db w)) of None \<Rightarrow> Inl ErrRecordNotFound | Some r \<Rightarrow> Inr r), w\<lparr>w_statements := Suc (w_statements w)\<rparr>)"
  by (simp add: First_def statement_def)

lemma quiet_Find: "quiet env \<Longrightarrow> Find env rows P w = (Inr (filter P (rows (w_db w))), w\<lparr>w_statements := Suc (w_statements w)\<rparr>)"
  by (simp add: Find_def statement_def)

lemma quiet_Save:
  "quiet env \<Longrightarrow> Save env upd key r w = (Inr (), w\<lparr>w_statements := Suc (w_statements w), w_db := upd (put_row key r) (w_db w)\<rparr>)"
  by (simp add: Save_def statement_def)

lemma quiet_save_pair:
  assumes "quiet env"
  obtains w' where "save_pair env now item run w = ((None, item\<lparr>tn_UpdatedAt := now\<rparr>, run\<lparr>rn_UpdatedAt := now\<rparr>), w')"
    "w_db w' = (w_db w)\<lparr>db_turns := put_row tn_ID (item\<lparr>tn_UpdatedAt := now\<rparr>) (turns w),
                          db_runs := put_row rn_ID (run\<lparr>rn_UpdatedAt := now\<rparr>) (runs_of w)\<rparr>"
    "w_readings w' = w_readings w"
  using assms by (simp add: save_pair_def Save_turn_def Save_run_def quiet_Save try_db_def Let_def)

lemma quiet_transaction:
  assumes "quiet env" "body w = ((None, m), w1)"
  shows "transaction env body w = ((None, m), w1\<lparr>w_statements := Suc (w_statements w1)\<rparr>)"
  using assms by (simp add: transaction_def statement_def)

lemma find_present: "x \<in> set xs \<Longrightarrow> P x \<Longrightarrow> \<exists>y. List.find P xs = Some y \<and> y \<in> set xs \<and> P y"
  by (cases "List.find P xs") (auto simp: find_None_iff find_Some_iff)

lemma find_only: "x \<in> set xs \<Longrightarrow> P x \<Longrightarrow> (\<And>y. y \<in> set xs \<Longrightarrow> P y \<Longrightarrow> y = x) \<Longrightarrow> List.find P xs = Some x"
  by (metis find_present)

lemma quiet_RecoverExpired:
  assumes q: "quiet env" and tok: "tn_LeaseToken item \<noteq> []"
    and t: "t \<in> set (turns w)" "owns_turn item t" "expired_at (clock_reading env (w_readings w)) t"
    and r: "r \<in> set (runs_of w)" "run_recoverable run r"
  obtains w' now item' run' where "RecoverExpired env item run w = ((None, item', run'), w')"
    "item' = (clearTurnLease item)\<lparr>tn_UpdatedAt := now\<rparr>" "run' = run\<lparr>rn_UpdatedAt := now\<rparr>"
    "w_db w' = (w_db w)\<lparr>db_turns := put_row tn_ID item' (turns w), db_runs := put_row rn_ID run' (runs_of w)\<rparr>"
    "w_readings w' = Suc (w_readings w)"
proof -
  define now where "now = clock_reading env (w_readings w)"
  define w2 where "w2 = w\<lparr>w_readings := Suc (w_readings w), w_statements := Suc (Suc (w_statements w))\<rparr>"
  obtain w3 where sp: "save_pair env now (clearTurnLease item) run w2 =
      ((None, (clearTurnLease item)\<lparr>tn_UpdatedAt := now\<rparr>, run\<lparr>rn_UpdatedAt := now\<rparr>), w3)"
    "w_db w3 = (w_db w2)\<lparr>db_turns := put_row tn_ID ((clearTurnLease item)\<lparr>tn_UpdatedAt := now\<rparr>) (turns w2),
                          db_runs := put_row rn_ID (run\<lparr>rn_UpdatedAt := now\<rparr>) (runs_of w2)\<rparr>" "w_readings w3 = w_readings w2"
    by (rule quiet_save_pair [OF q])
  obtain t' r' where ft: "List.find (\<lambda>t. owns_turn item t \<and> expired_at now t) (turns w) = Some t'"
    and fr: "List.find (run_recoverable run) (runs_of w) = Some r'"
    using find_present [of t "turns w" "\<lambda>t. owns_turn item t \<and> expired_at now t"] find_present [of r "runs_of w" "run_recoverable run"] t r
    by (auto simp: now_def)
  have "transaction env (\<lambda>w.
        case Now env w of (now, w) \<Rightarrow>
        try_db (First env db_turns (\<lambda>t. owns_turn item t \<and> expired_at now t) w) (item, run) (\<lambda>_ w.
        try_db (First env db_runs (run_recoverable run) w) (item, run) (\<lambda>_ w.
        save_pair env now (clearTurnLease item) run w))) w =
      ((None, (clearTurnLease item)\<lparr>tn_UpdatedAt := now\<rparr>, run\<lparr>rn_UpdatedAt := now\<rparr>), w3\<lparr>w_statements := Suc (w_statements w3)\<rparr>)"
    by (rule quiet_transaction [OF q])
       (use ft fr sp(1) in \<open>simp add: Now_def try_db_def quiet_First [OF q] w2_def flip: now_def\<close>)
  then show ?thesis
    by (intro that [of "(clearTurnLease item)\<lparr>tn_UpdatedAt := now\<rparr>" "run\<lparr>rn_UpdatedAt := now\<rparr>" "w3\<lparr>w_statements := Suc (w_statements w3)\<rparr>" now])
       (use tok sp in \<open>simp_all add: RecoverExpired_def lost_def w2_def\<close>)
qed

section \<open>One turn\<close>

text \<open>The keys of the tables: the ids, and that a run belongs to one turn.\<close>

definition store_keys :: "service \<Rightarrow> bool" where
  "store_keys sv \<longleftrightarrow> distinct (map tn_ID (sturns sv)) \<and> distinct (map rn_ID (sruns sv)) \<and>
     (\<forall>t\<in>set (sturns sv). \<forall>u\<in>set (sturns sv). tn_RunID t = tn_RunID u \<longrightarrow> tn_RunID t \<noteq> None \<longrightarrow> tn_ID t = tn_ID u)"

definition recoverable :: "service \<Rightarrow> turn \<Rightarrow> bool" where
  "recoverable sv t \<longleftrightarrow> tn_LeaseToken t \<noteq> [] \<and>
     (\<exists>r\<in>set (sruns sv). tn_RunID t = Some (rn_ID r) \<and> rn_OwnerID r = tn_OwnerID t \<and> rn_Status r \<in> {RunStatusRunning, RunStatusResuming})"

definition needs_review :: "service \<Rightarrow> turn \<Rightarrow> bool" where
  "needs_review sv t \<longleftrightarrow> tool_steps sv (tn_OwnerID t) (tn_RunID t) \<or> max_attempts t \<le> tn_AttemptCount t"

definition recovered_status :: "service \<Rightarrow> turn \<Rightarrow> string" where
  "recovered_status sv t = (if needs_review sv t then TurnStatusPaused else TurnStatusRetryWait)"

text \<open>What recovery makes of a turn and its run.\<close>

definition is_recovered :: "service \<Rightarrow> turn \<Rightarrow> turn \<Rightarrow> bool" where
  "is_recovered sv t u \<longleftrightarrow> tn_ID u = tn_ID t \<and> tn_OwnerID u = tn_OwnerID t \<and> tn_RunID u = tn_RunID t \<and> tn_LeaseToken u = [] \<and> tn_Status u = recovered_status sv t"

lemma recovered_pair_ok:
  assumes "rn_Status run = RunStatusRunning \<or> rn_Status run = RunStatusResuming"
  shows "\<exists>t r. recovered_pair b turn run now = Inr (t, r) \<and> tn_LeaseToken t = tn_LeaseToken turn \<and> rn_OwnerID r = rn_OwnerID run"
  using assms
  by (cases "b \<or> max_attempts turn \<le> tn_AttemptCount turn")
     (elim disjE; simp add: recovered_pair_def TransitionStatus_def canTransitionRunStatus_def Let_def)+

lemma recover_one_ok:
  assumes q: "quiet (se_db env)" "se_steps env" and keys: "store_keys sv" and t: "t \<in> set (sturns sv)" "recoverable sv t"
    and ex: "expired_at (clock_reading (se_db env) (w_readings (sv_world sv))) t" and mono: "mono (clock_reading (se_db env))"
  obtains sv' u r where "recover_one env t sv = (None, sv')" "is_recovered sv t u" "Some (rn_ID r) = tn_RunID t"
    "sturns sv' = change_where (\<lambda>x. tn_ID x = tn_ID t) (\<lambda>_. u) (sturns sv)"
    "sruns sv' = change_where (\<lambda>x. rn_ID x = rn_ID r) (\<lambda>_. r) (sruns sv)" "ssteps sv' = ssteps sv"
    "w_readings (sv_world sv) \<le> w_readings (sv_world sv')"
proof -
  let ?n = "w_readings (sv_world sv)"
  obtain r where r: "r \<in> set (sruns sv)" "tn_RunID t = Some (rn_ID r)" "rn_OwnerID r = tn_OwnerID t" "rn_Status r \<in> {RunStatusRunning, RunStatusResuming}"
    using t(2) unfolding recoverable_def by blast
  have tok: "tn_LeaseToken t \<noteq> []" using t(2) by (simp add: recoverable_def)
  have fr: "List.find (\<lambda>x. rn_ID x = rn_ID r \<and> rn_OwnerID x = tn_OwnerID t) (sruns sv) = Some r"
    by (rule find_only) (use r keys distinct_key_eq [of rn_ID "sruns sv" _ r] in \<open>auto simp: store_keys_def\<close>)
  define now where "now = clock_reading (se_db env) ?n"
  define b where "b = tool_steps sv (tn_OwnerID t) (tn_RunID t)"
  define w3 where "w3 = (sv_world sv)\<lparr>w_statements := Suc (Suc (w_statements (sv_world sv))), w_readings := Suc ?n\<rparr>"
  obtain p rr where p: "recovered_pair b t r now = Inr (p, rr)" "tn_LeaseToken p = tn_LeaseToken t" "rn_OwnerID rr = rn_OwnerID r"
    using recovered_pair_ok [of r b t now] r(4) by blast
  note pt = recovered_pair_turn [OF p(1)]
  have run: "tn_Status t = TurnStatusRunning" using ex by (simp add: expired_at_def)
  have later: "expired_at (clock_reading (se_db env) (w_readings w3)) t"
    using ex monoD [OF mono, of ?n "Suc ?n"] by (auto simp: expired_at_def w3_def)
  have own: "owns_turn p t" using pt p(2) run by (simp add: owns_turn_def)
  have rec: "run_recoverable rr r" using pt p(3) r(4) by (simp add: run_recoverable_def)
  have mem: "t \<in> set (turns w3)" "r \<in> set (runs_of w3)" "tn_LeaseToken p \<noteq> []" using t r p(2) tok by (simp_all add: w3_def)
  obtain w' now2 u r' where c: "RecoverExpired (se_db env) p rr w3 = ((None, u, r'), w')"
    "u = (clearTurnLease p)\<lparr>tn_UpdatedAt := now2\<rparr>" "r' = rr\<lparr>rn_UpdatedAt := now2\<rparr>"
    "w_db w' = (w_db w3)\<lparr>db_turns := put_row tn_ID u (turns w3), db_runs := put_row rn_ID r' (runs_of w3)\<rparr>"
    "w_readings w' = Suc (w_readings w3)"
    by (rule quiet_RecoverExpired [OF q(1) mem(3) mem(1) own later mem(2) rec])
  have bb: "(\<exists>s\<in>set (filter (\<lambda>s. st_OwnerID s = tn_OwnerID t \<and> st_RunID s = rn_ID r) (ssteps sv)).
      st_StepType s = ''tool_call'' \<or> st_StepType s = ''tool_result'') = b" using r(2) by (auto simp: b_def tool_steps_def)
  have "recover_one env t sv = (None, publishSnapshot r' (Some u) None (sv\<lparr>sv_world := w'\<rparr>))"
    using r(2) fr q(2) p(1) c(1) bb
    by (simp add: recover_one_def run_FindByID_def runHasToolSideEffects_def on_world_def quiet_First [OF q(1)] quiet_Find [OF q(1)]
        svc_Now_def Now_def w3_def flip: now_def)
  moreover have "put_row tn_ID u (sturns sv) = change_where (\<lambda>x. tn_ID x = tn_ID t) (\<lambda>_. u) (sturns sv)"
    using t(1) pt(1) by (subst put_row_present) (auto simp: c(2) clearTurnLease_def)
  moreover have "put_row rn_ID r' (sruns sv) = change_where (\<lambda>x. rn_ID x = rn_ID r') (\<lambda>_. r') (sruns sv)"
    using r(1) pt(5) by (intro put_row_present) (auto simp: c(3))
  moreover have "is_recovered sv t u"
    using pt b_def by (simp add: is_recovered_def recovered_status_def needs_review_def c(2) clearTurnLease_def)
  ultimately show ?thesis
    by (intro that [of "publishSnapshot r' (Some u) None (sv\<lparr>sv_world := w'\<rparr>)" u r']) (use c r(2) pt(5) in \<open>simp_all add: w3_def\<close>)
qed


lemma is_recovered_steps: "ssteps sv' = ssteps sv \<Longrightarrow> is_recovered sv' = is_recovered sv"
  by (intro ext) (simp add: is_recovered_def recovered_status_def needs_review_def tool_steps_def)

section \<open>A whole pass\<close>

definition can_recover :: "svc_env \<Rightarrow> service \<Rightarrow> turn list \<Rightarrow> bool" where
  "can_recover env sv items \<longleftrightarrow> store_keys sv \<and> distinct (map tn_ID items) \<and>
     (\<forall>t\<in>set items. t \<in> set (sturns sv) \<and> recoverable sv t \<and> expired_at (clock_reading (se_db env) (w_readings (sv_world sv))) t)"

lemma can_recover_next:
  assumes can: "can_recover env sv (t # items)" and mono: "mono (clock_reading (se_db env))" and u: "is_recovered sv t u" "Some (rn_ID r) = tn_RunID t"
    and ts: "sturns sv' = change_where (\<lambda>x. tn_ID x = tn_ID t) (\<lambda>_. u) (sturns sv)"
    and rs: "sruns sv' = change_where (\<lambda>x. rn_ID x = rn_ID r) (\<lambda>_. r) (sruns sv)"
    and read: "w_readings (sv_world sv) \<le> w_readings (sv_world sv')"
  shows "can_recover env sv' items"
proof -
  have t: "t \<in> set (sturns sv)" "store_keys sv" using can by (simp_all add: can_recover_def)
  have same: "x = t" if "x \<in> set (sturns sv)" "tn_ID x = tn_ID t" for x
    using distinct_key_eq [of tn_ID "sturns sv" x t] t that by (simp add: store_keys_def)
  have ids: "map tn_ID (sturns sv') = map tn_ID (sturns sv)" unfolding ts by (rule change_where_keys) (use u in \<open>simp add: is_recovered_def\<close>)
  have rids: "map rn_ID (sruns sv') = map rn_ID (sruns sv)" unfolding rs by (rule change_where_keys) simp
  have old: "\<exists>y\<in>set (sturns sv). tn_ID y = tn_ID x \<and> tn_RunID y = tn_RunID x" if "x \<in> set (sturns sv')" for x
    using that t(1) u(1) unfolding ts by (auto simp: change_where_set is_recovered_def split: if_splits)
  have uniq: "tn_ID x = tn_ID y" if "x \<in> set (sturns sv')" "y \<in> set (sturns sv')" "tn_RunID x = tn_RunID y" "tn_RunID x \<noteq> None" for x y
    using old [OF that(1)] old [OF that(2)] that(3,4) t(2) unfolding store_keys_def by metis
  have "store_keys sv'" using t(2) uniq ids rids unfolding store_keys_def by metis
  moreover have "x \<in> set (sturns sv') \<and> recoverable sv' x \<and> expired_at (clock_reading (se_db env) (w_readings (sv_world sv'))) x" if x: "x \<in> set items" for x
  proof (intro conjI)
    have xs: "x \<in> set (sturns sv)" "recoverable sv x" "expired_at (clock_reading (se_db env) (w_readings (sv_world sv))) x" "tn_ID x \<noteq> tn_ID t"
      using can x by (simp_all add: can_recover_def) (metis image_eqI)
    show "x \<in> set (sturns sv')" using xs unfolding ts by (auto simp: change_where_set intro!: bexI [of _ x])
    obtain q where q: "q \<in> set (sruns sv)" "tn_RunID x = Some (rn_ID q)" "rn_OwnerID q = tn_OwnerID x" "rn_Status q \<in> {RunStatusRunning, RunStatusResuming}"
      using xs(2) unfolding recoverable_def by blast
    have "rn_ID q \<noteq> rn_ID r"
    proof
      assume "rn_ID q = rn_ID r"
      then have "tn_RunID x = tn_RunID t" "tn_RunID x \<noteq> None" unfolding q(2) u(2) [symmetric] by simp_all
      then show False using xs t unfolding store_keys_def by blast
    qed
    then have "q \<in> set (sruns sv')" using q(1) unfolding rs by (auto simp: change_where_set intro!: bexI [of _ q])
    then show "recoverable sv' x" using q xs(2) unfolding recoverable_def by blast
    show "expired_at (clock_reading (se_db env) (w_readings (sv_world sv'))) x"
      using xs(3) monoD [OF mono read] by (auto simp: expired_at_def)
  qed
  ultimately show ?thesis using can unfolding can_recover_def by simp
qed

lemma recover_items_ok:
  assumes "quiet (se_db env)" "se_steps env" "mono (clock_reading (se_db env))" "can_recover env sv items"
  shows "\<exists>sv'. recover_items env items sv = (None, sv') \<and> (\<forall>t\<in>set items. \<exists>u\<in>set (sturns sv'). is_recovered sv t u) \<and>
     (\<forall>x\<in>set (sturns sv). tn_ID x \<notin> tn_ID ` set items \<longrightarrow> x \<in> set (sturns sv')) \<and> map tn_ID (sturns sv') = map tn_ID (sturns sv)"
  using assms(4)
proof (induction items arbitrary: sv)
  case Nil
  then show ?case by simp
next
  case (Cons t items)
  have t: "t \<in> set (sturns sv)" "recoverable sv t" "store_keys sv" "expired_at (clock_reading (se_db env) (w_readings (sv_world sv))) t"
    "tn_ID t \<notin> tn_ID ` set items" using Cons.prems by (simp_all add: can_recover_def)
  obtain sv1 u r where one: "recover_one env t sv = (None, sv1)" and u: "is_recovered sv t u" "Some (rn_ID r) = tn_RunID t"
    and ts: "sturns sv1 = change_where (\<lambda>x. tn_ID x = tn_ID t) (\<lambda>_. u) (sturns sv)"
    and rs: "sruns sv1 = change_where (\<lambda>x. rn_ID x = rn_ID r) (\<lambda>_. r) (sruns sv)" and st: "ssteps sv1 = ssteps sv"
    and read: "w_readings (sv_world sv) \<le> w_readings (sv_world sv1)"
    by (rule recover_one_ok [OF assms(1,2) t(3,1,2,4) assms(3)])
  obtain sv' where sv': "recover_items env items sv1 = (None, sv')" "\<forall>x\<in>set items. \<exists>u\<in>set (sturns sv'). is_recovered sv1 x u"
    "\<forall>x\<in>set (sturns sv1). tn_ID x \<notin> tn_ID ` set items \<longrightarrow> x \<in> set (sturns sv')" "map tn_ID (sturns sv') = map tn_ID (sturns sv1)"
    using Cons.IH [OF can_recover_next [OF Cons.prems assms(3) u ts rs read]] by blast
  have "u \<in> set (sturns sv1)" using t(1) by (auto simp: ts change_where_set intro!: bexI [of _ t])
  then have uin: "u \<in> set (sturns sv')" using sv'(3) t(5) u(1) by (simp add: is_recovered_def)
  have ids: "map tn_ID (sturns sv1) = map tn_ID (sturns sv)" unfolding ts by (rule change_where_keys) (use u in \<open>simp add: is_recovered_def\<close>)
  have kept: "x \<in> set (sturns sv')" if "x \<in> set (sturns sv)" "tn_ID x \<notin> tn_ID ` set (t # items)" for x
  proof -
    have "x \<in> set (sturns sv1)" using that by (auto simp: ts change_where_set intro!: bexI [of _ x])
    then show ?thesis using sv'(3) that(2) by simp
  qed
  show ?case
    using one sv'(1,2,4) uin u(1) ids kept is_recovered_steps [OF st]
    by (intro exI [of _ sv']) auto
qed

text \<open>C11: Recovery brings back every turn whose worker is gone. On a store that answers, with a clock that does not
  run backwards, if the runs of the expired turns are running or resuming, a pass returns without error and
  has dealt with each of the oldest hundred: the turn has lost its lease and waits for another attempt, or,
  when its run has called tools or its attempts are used up, it is paused. No other turn changes.\<close>

theorem recovery_complete:
  assumes "quiet (se_db env)" "se_steps env" "mono (clock_reading (se_db env))" "store_keys sv"
    and items: "items = take 100 (sort_key (\<lambda>t. the (tn_LeaseExpiresAt t))
           (filter (expired_at (clock_reading (se_db env) (w_readings (sv_world sv)))) (sturns sv)))"
    and "\<forall>t\<in>set items. recoverable sv t"
  shows "\<exists>sv'. recoverExpired env sv = (None, sv') \<and> (\<forall>t\<in>set items. \<exists>u\<in>set (sturns sv'). is_recovered sv t u) \<and>
     (\<forall>x\<in>set (sturns sv). tn_ID x \<notin> tn_ID ` set items \<longrightarrow> x \<in> set (sturns sv')) \<and> map tn_ID (sturns sv') = map tn_ID (sturns sv)"
proof -
  let ?n = "w_readings (sv_world sv)" and ?key = "\<lambda>t. the (tn_LeaseExpiresAt t)"
  let ?ex = "filter (expired_at (clock_reading (se_db env) ?n)) (sturns sv)"
  define sv1 where "sv1 = sv\<lparr>sv_world := (sv_world sv)\<lparr>w_readings := Suc ?n, w_statements := Suc (w_statements (sv_world sv))\<rparr>\<rparr>"
  have call: "recoverExpired env sv = recover_items env items sv1"
    by (simp add: recoverExpired_def svc_Now_def on_world_def Now_def ListExpiredRunning_def quiet_Find [OF assms(1)] sv1_def flip: items)
  have eq: "sturns sv1 = sturns sv" "sruns sv1 = sruns sv" "ssteps sv1 = ssteps sv" "w_readings (sv_world sv1) = Suc ?n" by (simp_all add: sv1_def)
  have keys: "store_keys sv1" using assms(4) unfolding store_keys_def eq .
  have rec: "recoverable sv1 = recoverable sv" unfolding fun_eq_iff recoverable_def eq by simp
  have sub: "set items \<subseteq> set ?ex" unfolding items by (metis set_sort set_take_subset)
  have "distinct (map tn_ID ?ex)" using assms(4) unfolding store_keys_def by (metis distinct_map_filter)
  then have "distinct (map tn_ID (sort_key ?key ?ex))" by (simp only: distinct_map distinct_sort set_sort)
  then have "distinct (map tn_ID items)" unfolding items by (metis distinct_take take_map)
  moreover have "t \<in> set (sturns sv) \<and> expired_at (clock_reading (se_db env) (Suc ?n)) t" if tin: "t \<in> set items" for t
  proof -
    have "t \<in> set ?ex" using tin sub by blast
    then show ?thesis using monoD [OF assms(3), of ?n "Suc ?n"] by (auto simp: expired_at_def)
  qed
  ultimately have "can_recover env sv1 items" using assms(6) keys unfolding can_recover_def eq rec by metis
  from recover_items_ok [OF assms(1-3) this] show ?thesis
    unfolding call eq is_recovered_steps [OF eq(3)] .
qed


theorem recovery_complete_witness:
  "\<exists>sv' t. recoverExpired (demo_env ex_env) (demo_service [demo_turn] [ex_run] []) = (None, sv') \<and> t \<in> set (sturns sv') \<and>
     tn_ID t = tn_ID demo_turn \<and> tn_Status t = TurnStatusRetryWait \<and> tn_LeaseToken t = []"
proof -
  let ?e = "demo_env ex_env" and ?s = "demo_service [demo_turn] [ex_run] []"
  let ?items = "take 100 (sort_key (\<lambda>t. the (tn_LeaseExpiresAt t))
           (filter (expired_at (clock_reading (se_db ?e) (w_readings (sv_world ?s)))) (sturns ?s)))"
  have "quiet (se_db ?e)" "se_steps ?e" "mono (clock_reading (se_db ?e))" by (simp_all add: quiet_def demo_defs mono_def)
  moreover have "store_keys ?s" by (simp add: store_keys_def demo_defs)
  moreover have items: "?items = [demo_turn]" by (simp add: demo_defs expired_at_def)
  moreover have "\<forall>t\<in>set ?items. recoverable ?s t" unfolding items by (simp add: recoverable_def demo_defs)
  ultimately obtain sv' u where "recoverExpired ?e ?s = (None, sv')" "u \<in> set (sturns sv')" "is_recovered ?s demo_turn u"
    using recovery_complete [of ?e ?s ?items] by auto
  moreover have "\<not> needs_review ?s demo_turn" by (simp add: needs_review_def tool_steps_def max_attempts_def demo_defs)
  ultimately show ?thesis by (auto simp: is_recovered_def recovered_status_def)
qed

section \<open>A turn that stops recovery\<close>

lemma recover_one_blocked:
  assumes "tn_RunID t = Some i"
    and "\<forall>r\<in>set (sruns sv). rn_ID r = i \<and> rn_OwnerID r = tn_OwnerID t \<longrightarrow> rn_Status r \<notin> {RunStatusRunning, RunStatusResuming, RunStatusPaused}"
  shows "\<exists>e sv'. recover_one env t sv = (Some e, sv') \<and> w_db (sv_world sv') = w_db (sv_world sv)"
proof -
  obtain res sv1 where f: "on_world (run_FindByID (se_db env) (tn_OwnerID t) i) sv = (res, sv1)"
    by (cases "on_world (run_FindByID (se_db env) (tn_OwnerID t) i) sv")
  then obtain w where w: "First (se_db env) db_runs (\<lambda>r. rn_ID r = i \<and> rn_OwnerID r = tn_OwnerID t) (sv_world sv) = (res, w)"
    and sv1: "sv1 = sv\<lparr>sv_world := w\<rparr>" by (auto simp: on_world_eq run_FindByID_def)
  note db1 = First_cases(1) [OF w]
  show ?thesis
  proof (cases res)
    case (Inl e)
    then show ?thesis using assms(1) f db1 sv1 by (simp add: recover_one_def)
  next
    case (Inr r)
    then have r: "rn_Status r \<notin> {RunStatusRunning, RunStatusResuming, RunStatusPaused}"
      using First_cases(3) [OF w] assms(2) by blast
    obtain tools sv2 where h: "runHasToolSideEffects env (tn_OwnerID t) (tn_RunID t) sv1 = (tools, sv2)"
      by (cases "runHasToolSideEffects env (tn_OwnerID t) (tn_RunID t) sv1")
    obtain now sv3 where now: "svc_Now env sv2 = (now, sv3)" by (cases "svc_Now env sv2")
    note db = db1 sv1 runHasToolSideEffects_cases(1) [OF h] svc_Now_eq [OF now]
    show ?thesis
    proof (cases tools)
      case (Inl e)
      then show ?thesis using assms(1) f Inr h db by (simp add: recover_one_def)
    next
      case tools: (Inr b)
      have "\<exists>e. recovered_pair b t r now = Inl e"
        using r by (simp add: recovered_pair_def TransitionStatus_def canTransitionRunStatus_def Let_def)
      then show ?thesis using tools assms(1) f Inr h now db by (auto simp: recover_one_def)
    qed
  qed
qed

lemma oldest_first:
  assumes "t \<in> set xs" and "\<And>u. u \<in> set xs \<Longrightarrow> u \<noteq> t \<Longrightarrow> f t < f u" and "0 < n"
  shows "\<exists>ys. take n (sort_key f xs) = t # ys"
proof -
  obtain y ys where s: "sort_key f xs = y # ys" using assms(1) by (cases "sort_key f xs") (auto dest: arg_cong [of _ _ set])
  have sorted: "sorted (map f (y # ys))" using sorted_sort_key [of f xs] unfolding s .
  have set: "set (y # ys) = set xs" using set_sort [of f xs] unfolding s .
  have "f y \<le> f t" using sorted set assms(1) by auto
  then have "y = t" using assms(2) [of y] set by force
  then show ?thesis using s assms(3) by (cases n) auto
qed

definition blocks_recovery :: "svc_env \<Rightarrow> turn \<Rightarrow> db \<Rightarrow> bool" where
  "blocks_recovery env t d \<longleftrightarrow> t \<in> set (db_turns d) \<and> tn_Status t = TurnStatusRunning \<and>
     (\<exists>x. tn_LeaseExpiresAt t = Some x \<and> (\<forall>n. x < clock_reading (se_db env) n) \<and>
        (\<forall>u\<in>set (db_turns d). u \<noteq> t \<longrightarrow> (\<forall>y. tn_LeaseExpiresAt u = Some y \<longrightarrow> x < y))) \<and>
     (\<exists>i. tn_RunID t = Some i \<and>
        (\<forall>r\<in>set (db_runs d). rn_ID r = i \<and> rn_OwnerID r = tn_OwnerID t \<longrightarrow> rn_Status r \<notin> {RunStatusRunning, RunStatusResuming, RunStatusPaused}))"

lemma recoverExpired_blocked:
  assumes "blocks_recovery env t (w_db (sv_world sv))"
  shows "\<exists>e sv'. recoverExpired env sv = (Some e, sv') \<and> w_db (sv_world sv') = w_db (sv_world sv)"
proof -
  obtain x i where t: "t \<in> set (sturns sv)" "tn_Status t = TurnStatusRunning" "tn_LeaseExpiresAt t = Some x" "\<And>n. x < clock_reading (se_db env) n"
    "\<And>u y. u \<in> set (sturns sv) \<Longrightarrow> u \<noteq> t \<Longrightarrow> tn_LeaseExpiresAt u = Some y \<Longrightarrow> x < y"
    and i: "tn_RunID t = Some i"
      "\<forall>r\<in>set (sruns sv). rn_ID r = i \<and> rn_OwnerID r = tn_OwnerID t \<longrightarrow> rn_Status r \<notin> {RunStatusRunning, RunStatusResuming, RunStatusPaused}"
    using assms unfolding blocks_recovery_def by blast
  obtain now sv1 where now: "svc_Now env sv = (now, sv1)" by (cases "svc_Now env sv")
  have nowc: "now = clock_reading (se_db env) (w_readings (sv_world sv))" using now by (auto simp: svc_Now_def on_world_def Now_def)
  note db1 = svc_Now_eq [OF now]
  obtain res w where f: "Find (se_db env) db_turns (expired_at now) (sv_world sv1) = (res, w)" by (cases "Find (se_db env) db_turns (expired_at now) (sv_world sv1)")
  note db2 = Find_cases(1) [OF f]
  show ?thesis
  proof (cases res)
    case (Inl e)
    then show ?thesis using now f db1 db2 by (simp add: recoverExpired_def on_world_def ListExpiredRunning_def)
  next
    case (Inr items)
    then have items: "items = filter (expired_at now) (sturns sv)" using Find_cases(2) [OF f] db1 by simp
    have "\<exists>ys. take 100 (sort_key (\<lambda>t. the (tn_LeaseExpiresAt t)) items) = t # ys"
    proof (rule oldest_first)
      show "t \<in> set items" using t(1,2,3) t(4) [of "w_readings (sv_world sv)"] by (simp add: items expired_at_def nowc)
      show "the (tn_LeaseExpiresAt t) < the (tn_LeaseExpiresAt u)" if "u \<in> set items" "u \<noteq> t" for u
        using that t(3) t(5) [of u] by (auto simp: items expired_at_def)
    qed simp
    then obtain ys where ys: "take 100 (sort_key (\<lambda>t. the (tn_LeaseExpiresAt t)) items) = t # ys" by blast
    have "w_db (sv_world (sv1\<lparr>sv_world := w\<rparr>)) = w_db (sv_world sv)" using db1 db2 by simp
    moreover from this obtain e sv' where "recover_one env t (sv1\<lparr>sv_world := w\<rparr>) = (Some e, sv')" "w_db (sv_world sv') = w_db (sv_world (sv1\<lparr>sv_world := w\<rparr>))"
      using recover_one_blocked [OF i(1), of "sv1\<lparr>sv_world := w\<rparr>" env] i(2) by auto
    ultimately show ?thesis using now f Inr ys by (simp add: recoverExpired_def on_world_def ListExpiredRunning_def)
  qed
qed

text \<open>C39: One turn can stop recovery for good. When the oldest expired lease belongs to a turn whose run is still queued
  (its worker has died between claiming the turn and starting the run), or has been cancelled, then every
  pass reports an error and changes nothing, whatever the store does and however many other turns have expired:
  those behind it are not recovered until somebody repairs the row.\<close>

theorem recovery_blocked:
  assumes "blocks_recovery env t (w_db (sv_world sv))"
  shows "w_db (sv_world (((\<lambda>sv. snd (recoverExpired env sv)) ^^ n) sv)) = w_db (sv_world sv) \<and>
     (\<exists>e. fst (recoverExpired env (((\<lambda>sv. snd (recoverExpired env sv)) ^^ n) sv)) = Some e)"
proof -
  have same: "w_db (sv_world (((\<lambda>sv. snd (recoverExpired env sv)) ^^ n) sv)) = w_db (sv_world sv)"
  proof (induction n)
    case (Suc n)
    then show ?case using recoverExpired_blocked [of env t "((\<lambda>sv. snd (recoverExpired env sv)) ^^ n) sv"] assms by auto
  qed simp
  then show ?thesis using recoverExpired_blocked [of env t "((\<lambda>sv. snd (recoverExpired env sv)) ^^ n) sv"] assms by auto
qed

text \<open>Two expired turns; the worker of the older one has not started its run.\<close>

theorem recovery_blocked_witness:
  "let behind = demo_turn\<lparr>tn_ID := 5, tn_RunID := Some 6, tn_LeaseToken := ''b'', tn_LeaseExpiresAt := Some 7\<rparr>;
       sv = demo_service [demo_turn, behind] [ex_run\<lparr>rn_Status := RunStatusQueued\<rparr>, ex_run\<lparr>rn_ID := 6\<rparr>] [] in
   behind \<in> set (sturns (((\<lambda>sv. snd (recoverExpired (demo_env (ex_env\<lparr>clock_reading := \<lambda>n. 10 + int n\<rparr>)) sv)) ^^ 1000) sv))"
proof -
  let ?b = "demo_turn\<lparr>tn_ID := 5, tn_RunID := Some 6, tn_LeaseToken := ''b'', tn_LeaseExpiresAt := Some 7\<rparr>"
  let ?sv = "demo_service [demo_turn, ?b] [ex_run\<lparr>rn_Status := RunStatusQueued\<rparr>, ex_run\<lparr>rn_ID := 6\<rparr>] []"
  let ?e = "demo_env (ex_env\<lparr>clock_reading := \<lambda>n. 10 + int n\<rparr>)"
  have "blocks_recovery ?e demo_turn (w_db (sv_world ?sv))" by (simp add: blocks_recovery_def demo_defs)
  from recovery_blocked [OF this, of 1000] show ?thesis
    unfolding Let_def by (auto simp: demo_service_def ex_world_def ex_db_def)
qed

end
