(* ===== verification/Turn_Outcomes.thy ===== *)
theory Turn_Outcomes
  imports Turn_Recovery
begin

text \<open>
  How a turn ends: which statuses the turn and its run have in the store when the runtime has returned a
  result, and what else is stored with them.
\<close>

section \<open>Writes that go through\<close>

lemma quiet_completeOwned:
  assumes q: "quiet env" and t: "t \<in> set (turns w)" "owns_turn item t"
    and r: "tn_LeaseToken item \<noteq> [] \<Longrightarrow> \<exists>r\<in>set (runs_of w). run_open run r"
    and before: "\<And>now wA. w_db wA = w_db w \<Longrightarrow> \<exists>itemB wB. before now item wA = ((None, itemB), wB) \<and> Q now itemB wB"
  obtains now itemB wB item' run' w' where "completeOwned env item run before w = ((None, item', run'), w')" "Q now itemB wB"
    "item' = itemB\<lparr>tn_UpdatedAt := now\<rparr>" "run' = run\<lparr>rn_UpdatedAt := now\<rparr>"
    "w_db w' = (w_db wB)\<lparr>db_turns := put_row tn_ID item' (turns wB), db_runs := put_row rn_ID run' (runs_of wB)\<rparr>"
proof -
  obtain t' where ft: "List.find (owns_turn item) (turns w) = Some t'" using find_present [of t "turns w"] t by blast
  define w1 where "w1 = w\<lparr>w_statements := Suc (w_statements w)\<rparr>"
  obtain r' w2 where lr: "locked_run env item run w1 = (Inr r', w2)" and w2: "w_db w2 = w_db w"
  proof (cases "tn_LeaseToken item = []")
    case True
    then show ?thesis by (intro that [of run w1]) (simp_all add: locked_run_def w1_def)
  next
    case False
    obtain y where "List.find (run_open run) (runs_of w) = Some y" using r [OF False] find_present by metis
    then show ?thesis using False by (intro that [of y "w1\<lparr>w_statements := Suc (w_statements w1)\<rparr>"])
      (simp_all add: locked_run_def w1_def quiet_First [OF q])
  qed
  obtain now w3 where now: "Now env w2 = (now, w3)" by (cases "Now env w2")
  obtain itemB wB where b: "before now item w3 = ((None, itemB), wB)" "Q now itemB wB" using before [of w3 now] Now_eq [OF now] w2 by auto
  obtain w4 where sp: "save_pair env now itemB run wB = ((None, itemB\<lparr>tn_UpdatedAt := now\<rparr>, run\<lparr>rn_UpdatedAt := now\<rparr>), w4)"
    "w_db w4 = (w_db wB)\<lparr>db_turns := put_row tn_ID (itemB\<lparr>tn_UpdatedAt := now\<rparr>) (turns wB),
                          db_runs := put_row rn_ID (run\<lparr>rn_UpdatedAt := now\<rparr>) (runs_of wB)\<rparr>" "w_readings w4 = w_readings wB"
    by (rule quiet_save_pair [OF q])
  have "transaction env (\<lambda>w.
        try_db (First env db_turns (owns_turn item) w) (item, run) (\<lambda>_ w.
        try_db (locked_run env item run w) (item, run) (\<lambda>_ w.
        case Now env w of (now, w) \<Rightarrow>
        case before now item w of
          ((Some e, item), w) \<Rightarrow> ((Some e, item, run), w)
        | ((None, item), w) \<Rightarrow> save_pair env now item run w))) w =
      ((None, itemB\<lparr>tn_UpdatedAt := now\<rparr>, run\<lparr>rn_UpdatedAt := now\<rparr>), w4\<lparr>w_statements := Suc (w_statements w4)\<rparr>)"
    by (rule quiet_transaction [OF q]) (use ft lr now b(1) sp(1) in \<open>simp add: quiet_First [OF q] try_db_def flip: w1_def\<close>)
  then show ?thesis
    by (intro that [of "itemB\<lparr>tn_UpdatedAt := now\<rparr>" "run\<lparr>rn_UpdatedAt := now\<rparr>" "w4\<lparr>w_statements := Suc (w_statements w4)\<rparr>" now itemB wB])
       (use b sp in \<open>simp_all add: completeOwned_def lost_def\<close>)
qed

lemma quiet_UpdateRunOwned:
  assumes q: "quiet env" and t: "t \<in> set (turns w)" "owns_turn item t"
    and r: "tn_LeaseToken item \<noteq> [] \<Longrightarrow> \<exists>r\<in>set (runs_of w). run_open run r"
  obtains now item' run' w' where "UpdateRunOwned env item run rel w = ((None, item', run'), w')"
    "item' = (if rel then clearTurnLease item else item)\<lparr>tn_UpdatedAt := now\<rparr>" "run' = run\<lparr>rn_UpdatedAt := now\<rparr>"
    "w_db w' = (w_db w)\<lparr>db_turns := put_row tn_ID item' (turns w), db_runs := put_row rn_ID run' (runs_of w)\<rparr>"
proof -
  define keep where "keep = (\<lambda>(_ :: gotime) item (w :: world). ((None :: db_error option, if rel then clearTurnLease item else item), w))"
  define Q where "Q = (\<lambda>(_ :: gotime) itemB (wB :: world). itemB = (if rel then clearTurnLease item else item) \<and> w_db wB = w_db w)"
  show ?thesis
  proof (rule quiet_completeOwned [OF q t r, of keep Q])
    show "\<exists>itemB wB. keep now item wA = ((None, itemB), wB) \<and> Q now itemB wB" if "w_db wA = w_db w" for now wA
      using that by (simp add: keep_def Q_def)
    fix now itemB wB item' run' w'
    assume "completeOwned env item run keep w = ((None, item', run'), w')" "Q now itemB wB" "item' = itemB\<lparr>tn_UpdatedAt := now\<rparr>"
      "run' = run\<lparr>rn_UpdatedAt := now\<rparr>" "w_db w' = (w_db wB)\<lparr>db_turns := put_row tn_ID item' (turns wB), db_runs := put_row rn_ID run' (runs_of wB)\<rparr>"
    then show ?thesis using that [of item' run' w' now] unfolding UpdateRunOwned_def keep_def Q_def by simp
  qed
qed

lemma quiet_touch:
  assumes "quiet env"
  obtains w' where "touchConversationLastMessage env own c now w = (Inr (), w')" "db_messages (w_db w') = db_messages (w_db w)"
    "turns w' = turns w" "runs_of w' = runs_of w"
  using assms by (cases "c \<le> 0") (simp_all add: touchConversationLastMessage_def Now_def Updates_def statement_def)

lemma quiet_Create:
  "quiet env \<Longrightarrow> \<not> taken (w_db w) (mk (w_next_id w)) \<Longrightarrow> Create env upd mk taken w =
     (Inr (mk (w_next_id w)), w\<lparr>w_next_id := w_next_id w + 1, w_statements := Suc (w_statements w),
        w_db := upd (\<lambda>rs. rs @ [mk (w_next_id w)]) (w_db w)\<rparr>)"
  by (simp add: Create_def fresh_id_def statement_def)

lemma quiet_insert_answer:
  assumes q: "quiet env"
  obtains m item' w' where "insert_answer env msg now item w = ((None, item'), w')" "m = msg\<lparr>ms_CreatedAt := now, ms_ID := w_next_id w\<rparr>"
    "item' = clearTurnLease (item\<lparr>tn_AssistantMessageID := Some (ms_ID m)\<rparr>)" "db_messages (w_db w') = db_messages (w_db w) @ [m]"
    "turns w' = turns w" "runs_of w' = runs_of w"
proof -
  define m where "m = msg\<lparr>ms_CreatedAt := now, ms_ID := w_next_id w\<rparr>"
  define w1 where "w1 = w\<lparr>w_next_id := w_next_id w + 1, w_statements := Suc (w_statements w), w_db := db_messages_update (\<lambda>rs. rs @ [m]) (w_db w)\<rparr>"
  have c: "Create env db_messages_update (\<lambda>i. msg\<lparr>ms_CreatedAt := now, ms_ID := i\<rparr>) (\<lambda>_ _. False) w = (Inr m, w1)"
    by (simp add: quiet_Create [OF q] m_def w1_def)
  obtain w' where "touchConversationLastMessage env (ms_OwnerID m) (ms_ConversationID m) now w1 = (Inr (), w')"
    "db_messages (w_db w') = db_messages (w_db w1)" "turns w' = turns w1" "runs_of w' = runs_of w1" by (rule quiet_touch [OF q])
  then show ?thesis using c that [OF _ m_def, of _ w'] by (simp add: insert_answer_def Let_def try_db_def w1_def)
qed

lemma quiet_CompleteWithMessage:
  assumes q: "quiet env" and t: "t \<in> set (turns w)" "owns_turn item t"
    and r: "tn_LeaseToken item \<noteq> [] \<Longrightarrow> \<exists>r\<in>set (runs_of w). run_open run r"
  obtains now m item' run' w' where "CompleteWithMessage env item msg run w = ((None, item', run'), w')"
    "item' = (clearTurnLease (item\<lparr>tn_AssistantMessageID := Some (ms_ID m)\<rparr>))\<lparr>tn_UpdatedAt := now\<rparr>" "run' = run\<lparr>rn_UpdatedAt := now\<rparr>"
    "m = msg\<lparr>ms_CreatedAt := now, ms_ID := ms_ID m\<rparr>" "db_messages (w_db w') = db_messages (w_db w) @ [m]"
    "turns w' = put_row tn_ID item' (turns w)" "runs_of w' = put_row rn_ID run' (runs_of w)"
proof -
  define Q where "Q = (\<lambda>now itemB (wB :: world). \<exists>m. m = msg\<lparr>ms_CreatedAt := now, ms_ID := ms_ID m\<rparr> \<and>
     itemB = clearTurnLease (item\<lparr>tn_AssistantMessageID := Some (ms_ID m)\<rparr>) \<and> db_messages (w_db wB) = db_messages (w_db w) @ [m] \<and>
     turns wB = turns w \<and> runs_of wB = runs_of w)"
  show ?thesis
  proof (rule quiet_completeOwned [OF q t r, of "insert_answer env msg" Q])
    show "\<exists>itemB wB. insert_answer env msg now item wA = ((None, itemB), wB) \<and> Q now itemB wB" if w: "w_db wA = w_db w" for now wA
    proof -
      obtain m item' w' where i: "insert_answer env msg now item wA = ((None, item'), w')" "m = msg\<lparr>ms_CreatedAt := now, ms_ID := w_next_id wA\<rparr>"
        "item' = clearTurnLease (item\<lparr>tn_AssistantMessageID := Some (ms_ID m)\<rparr>)" "db_messages (w_db w') = db_messages (w_db wA) @ [m]"
        "turns w' = turns wA" "runs_of w' = runs_of wA" by (rule quiet_insert_answer [OF q])
      then have "Q now item' w'" unfolding Q_def using w by (intro exI [of _ m]) simp
      then show ?thesis using i(1) by blast
    qed
    fix now itemB wB item' run' w'
    assume c: "completeOwned env item run (insert_answer env msg) w = ((None, item', run'), w')" "Q now itemB wB" "item' = itemB\<lparr>tn_UpdatedAt := now\<rparr>"
      "run' = run\<lparr>rn_UpdatedAt := now\<rparr>" "w_db w' = (w_db wB)\<lparr>db_turns := put_row tn_ID item' (turns wB), db_runs := put_row rn_ID run' (runs_of wB)\<rparr>"
    then obtain m where m: "m = msg\<lparr>ms_CreatedAt := now, ms_ID := ms_ID m\<rparr>" "itemB = clearTurnLease (item\<lparr>tn_AssistantMessageID := Some (ms_ID m)\<rparr>)"
      "db_messages (w_db wB) = db_messages (w_db w) @ [m]" "turns wB = turns w" "runs_of wB = runs_of w" unfolding Q_def by blast
    show ?thesis
      by (rule that [where m = m and now = now and w' = w' and item' = item' and run' = run']) (use c m in \<open>simp_all add: CompleteWithMessage_def\<close>)
  qed
qed

lemma quiet_create_approval:
  assumes q: "quiet env"
  obtains b w' where "create_approval env now ap w = (Inr b, w')" "turns w' = turns w" "runs_of w' = runs_of w"
    "db_checkpoints (w_db w') = db_checkpoints (w_db w)"
    "\<And>a. ap = Some a \<Longrightarrow> ap_Status a = ApprovalStatusPending \<Longrightarrow> \<exists>a'\<in>set (db_approvals (w_db w')). ap_RunID a' = ap_RunID a \<and> ap_Status a' = ApprovalStatusPending"
  by (cases ap) (simp_all add: create_approval_def quiet_Create [OF q] Let_def)

lemma quiet_SavePausedRun:
  assumes q: "quiet env" and tok: "tn_LeaseToken item \<noteq> []" and t: "t \<in> set (turns w)" "owns_turn item t"
    and r: "r \<in> set (runs_of w)" "run_recoverable run r"
  obtains now item' run' w' where "SavePausedRun env item run ap cp w = ((None, item', run'), w')"
    "item' = (clearTurnLease item)\<lparr>tn_UpdatedAt := now\<rparr>" "run' = run\<lparr>rn_UpdatedAt := now\<rparr>"
    "turns w' = put_row tn_ID item' (turns w)" "runs_of w' = put_row rn_ID run' (runs_of w)"
    "\<exists>c\<in>set (db_checkpoints (w_db w')). cp_RunID c = cp_RunID cp \<and> cp_CheckpointJSON c = cp_CheckpointJSON cp"
    "\<And>a. ap = Some a \<Longrightarrow> ap_Status a = ApprovalStatusPending \<Longrightarrow> \<exists>a'\<in>set (db_approvals (w_db w')). ap_RunID a' = ap_RunID a \<and> ap_Status a' = ApprovalStatusPending"
proof -
  obtain t' where ft: "List.find (owns_turn item) (turns w) = Some t'" using find_present [of t "turns w"] t by blast
  obtain r' where fr: "List.find (run_recoverable run) (runs_of w) = Some r'" using find_present [of r "runs_of w"] r by blast
  define w2 where "w2 = w\<lparr>w_statements := Suc (Suc (w_statements w))\<rparr>"
  obtain now w3 where now: "Now env w2 = (now, w3)" by (cases "Now env w2")
  define item' where "item' = (clearTurnLease item)\<lparr>tn_UpdatedAt := now\<rparr>"
  define run' where "run' = run\<lparr>rn_UpdatedAt := now\<rparr>"
  obtain w4 where sp: "save_pair env now (clearTurnLease item) run w3 = ((None, item', run'), w4)"
    "w_db w4 = (w_db w3)\<lparr>db_turns := put_row tn_ID item' (turns w3), db_runs := put_row rn_ID run' (runs_of w3)\<rparr>"
    unfolding item'_def run'_def by (rule quiet_save_pair [OF q]) blast
  obtain b w5 where ca: "create_approval env now ap w4 = (Inr b, w5)" "turns w5 = turns w4" "runs_of w5 = runs_of w4"
    "\<And>a. ap = Some a \<Longrightarrow> ap_Status a = ApprovalStatusPending \<Longrightarrow> \<exists>a'\<in>set (db_approvals (w_db w5)). ap_RunID a' = ap_RunID a \<and> ap_Status a' = ApprovalStatusPending"
    by (rule quiet_create_approval [OF q, of now ap w4]) blast
  define c where "c = cp\<lparr>cp_ID := w_next_id w5, cp_CreatedAt := now\<rparr>"
  define w6 where "w6 = w5\<lparr>w_next_id := w_next_id w5 + 1, w_statements := Suc (w_statements w5), w_db := db_checkpoints_update (\<lambda>rs. rs @ [c]) (w_db w5)\<rparr>"
  have cc: "Create env db_checkpoints_update (\<lambda>i. cp\<lparr>cp_ID := i, cp_CreatedAt := now\<rparr>) (\<lambda>_ _. False) w5 = (Inr c, w6)"
    by (simp add: quiet_Create [OF q] c_def w6_def)
  have tr: "transaction env (\<lambda>w.
        try_db (First env db_turns (owns_turn item) w) (item, run) (\<lambda>_ w.
        try_db (First env db_runs (run_recoverable run) w) (item, run) (\<lambda>_ w.
        case Now env w of (now, w) \<Rightarrow>
        case save_pair env now (clearTurnLease item) run w of
          ((Some e, m), w) \<Rightarrow> ((Some e, m), w)
        | ((None, m), w) \<Rightarrow>
            try_db (create_approval env now ap w) m (\<lambda>_ w.
            try_db (Create env db_checkpoints_update (\<lambda>i. cp\<lparr>cp_ID := i, cp_CreatedAt := now\<rparr>) (\<lambda>_ _. False) w) m
              (\<lambda>_ w. ((None, m), w)))))) w = ((None, item', run'), w6\<lparr>w_statements := Suc (w_statements w6)\<rparr>)"
    by (rule quiet_transaction [OF q]) (use ft fr now sp(1) ca(1) cc in \<open>simp add: quiet_First [OF q] try_db_def flip: w2_def\<close>)
  have db: "turns w6 = put_row tn_ID item' (turns w)" "runs_of w6 = put_row rn_ID run' (runs_of w)"
    using Now_eq [OF now] sp(2) ca(2,3) by (simp_all add: w6_def w2_def)
  show ?thesis
    by (rule that [OF _ item'_def run'_def, of "w6\<lparr>w_statements := Suc (w_statements w6)\<rparr>"])
       (use tok tr db ca(4) in \<open>simp_all add: SavePausedRun_def lost_def w6_def c_def\<close>)
qed


section \<open>Starting another turn keeps what is there\<close>

definition grows :: "db \<Rightarrow> db \<Rightarrow> bool" where
  "grows d d' \<longleftrightarrow> set (db_turns d) \<subseteq> set (db_turns d') \<and> set (db_runs d) \<subseteq> set (db_runs d') \<and> set (db_messages d) \<subseteq> set (db_messages d')"

abbreviation sgrows :: "service \<Rightarrow> service \<Rightarrow> bool" where
  "sgrows sv sv' \<equiv> grows (w_db (sv_world sv)) (w_db (sv_world sv'))"

lemma grows_refl [simp]: "grows d d"
  by (simp add: grows_def)

lemma grows_trans: "grows a b \<Longrightarrow> grows b c \<Longrightarrow> grows a c"
  unfolding grows_def by blast

lemma transaction_grows:
  assumes "transaction env body w = ((err, m), w')" "\<And>m' w1. body w = ((None, m'), w1) \<Longrightarrow> grows (w_db w) (w_db w1)"
  shows "grows (w_db w) (w_db w')"
proof (cases err)
  case (Some e)
  then show ?thesis using transaction_error [of env body w e m w'] assms(1) by simp
next
  case None
  with assms(1) have "transaction env body w = ((None, m), w')" by simp
  then show ?thesis by (rule transaction_ok) (use assms(2) in auto)
qed

lemma touch_grows: "touchConversationLastMessage env own c now w = (Inr u, w') \<Longrightarrow> grows (w_db w) (w_db w')"
  by (auto simp: touchConversationLastMessage_def grows_def split: if_splits prod.splits sum.splits
      dest!: Now_eq Updates_cases(3) [OF _ refl])

lemma createTurnArtifacts_grows:
  assumes "createTurnArtifacts env (item, msg, run) w = ((None, m), w')"
  shows "grows (w_db w) (w_db w')"
proof -
  obtain now w0 where now: "Now env w = (now, w0)" by (cases "Now env w")
  let ?r = "run\<lparr>rn_CreatedAt := now, rn_UpdatedAt := now, rn_StartedAt := (if rn_StartedAt run = 0 then now else rn_StartedAt run)\<rparr>"
  from assms now obtain ms w1 u w2 r w3 t where
    c1: "Create env db_messages_update (\<lambda>i. msg\<lparr>ms_CreatedAt := now, ms_ID := i\<rparr>) (\<lambda>_ _. False) w0 = (Inr ms, w1)"
    and c2: "touchConversationLastMessage env (ms_OwnerID ms) (ms_ConversationID ms) now w1 = (Inr u, w2)"
    and c3: "Create env db_runs_update (\<lambda>i. ?r\<lparr>rn_ID := i\<rparr>) (\<lambda>_ _. False) w2 = (Inr r, w3)"
    and c4: "create_turn env (turn_defaults now (item\<lparr>tn_RunID := Some (rn_ID r), tn_UserMessageID := ms_ID ms\<rparr>)) w3 = (Inr t, w')"
    unfolding createTurnArtifacts_def Let_def by (auto elim!: try_db_ok)
  have "grows (w_db w) (w_db w1)" using Create_cases(3) [OF c1 refl] Now_eq [OF now] by (auto simp: grows_def)
  moreover have "grows (w_db w1) (w_db w2)" by (rule touch_grows [OF c2])
  moreover have "grows (w_db w2) (w_db w3)" using Create_cases(3) [OF c3 refl] by (auto simp: grows_def)
  moreover have "grows (w_db w3) (w_db w')" using Create_cases(3) [OF c4 [unfolded create_turn_def] refl] by (auto simp: grows_def)
  ultimately show ?thesis using grows_trans by blast
qed

lemma CreateGoalContinuation_grows:
  assumes "CreateGoalContinuationWithArtifacts env gid item msg run w = (r, w')"
  shows "grows (w_db w) (w_db w')"
proof (cases "rn_ConversationID run = None \<or> TrimSpace gid = []")
  case True
  then show ?thesis using assms by (auto simp: CreateGoalContinuationWithArtifacts_def Let_def split: option.splits if_splits)
next
  case False
  then obtain conv where conv: "rn_ConversationID run = Some conv" "TrimSpace gid \<noteq> []" by auto
  define m where "m = (item, msg, run)"
  define body where "body = (\<lambda>w.
            case First env db_goals (\<lambda>g. tg_OwnerID g = rn_OwnerID run \<and> tg_ConversationID g = conv \<and> tg_GoalID g = gid) w of
              (Inl ErrRecordNotFound, w) \<Rightarrow> ((None, False, m), w)
            | (Inl e, w) \<Rightarrow> ((Some e, False, m), w)
            | (Inr current, w) \<Rightarrow>
                if tg_Status current \<noteq> GoalActive then ((None, False, m), w)
                else try_db (Find env db_deferrals (\<lambda>p. p = (rn_OwnerID run, conv)) w) (False, m) (\<lambda>deferred w.
                  if deferred \<noteq> [] then ((None, False, m), w)
                  else try_db (Find env db_runs (goal_run_blocks run) w) (False, m) (\<lambda>activeRuns w.
                    if activeRuns \<noteq> [] then ((None, False, m), w)
                    else case createTurnArtifacts env m w of
                           ((Some e, m), w) \<Rightarrow> ((Some e, False, m), w)
                         | ((None, m), w) \<Rightarrow> ((None, True, m), w))))"
  have call: "transaction env body w = (r, w')"
    using assms conv unfolding CreateGoalContinuationWithArtifacts_def Let_def body_def m_def by simp
  obtain err x where r: "r = (err, x)" by (cases r)
  show ?thesis
  proof (rule transaction_grows [OF call [unfolded r]])
    fix m' w1 assume "body w = ((None, m'), w1)"
    then show "grows (w_db w) (w_db w1)"
      unfolding body_def m_def
      by (auto split: prod.splits sum.splits if_splits db_error.splits option.splits elim!: try_db_ok
          dest!: First_core Find_cases(1) createTurnArtifacts_grows)
  qed
qed

lemma create_artifacts_grows:
  assumes "create_artifacts env req turn msg run sv = (r, sv')"
  shows "sgrows sv sv'"
  using assms
  by (auto simp: create_artifacts_def on_world_def CreateWithArtifacts_def split: if_splits prod.splits
      dest!: CreateGoalContinuation_grows transaction_grows [OF _ createTurnArtifacts_grows])

lemma clear_deferral_grows: "sgrows sv (clear_deferral env req own conv sv)"
  by (auto simp: clear_deferral_def on_world_def SetDeferral_def statement_def grows_def Let_def split: prod.splits option.splits)

lemma GetConversation_db: "GetConversation env own a c sv = (r, sv') \<Longrightarrow> w_db (sv_world sv') = w_db (sv_world sv)"
  by (auto simp: GetConversation_def on_world_eq split: prod.splits sum.splits if_splits dest: First_core)

lemma existing_turn_db: "existing_turn env own t sv = (r, sv') \<Longrightarrow> w_db (sv_world sv') = w_db (sv_world sv)"
  by (auto simp: existing_turn_def on_world_eq run_FindByID_def split: prod.splits sum.splits option.splits dest: First_core)

lemma FindByIdempotencyKey_db:
  "on_world (FindByIdempotencyKey env own c key) sv = (r, sv') \<Longrightarrow> w_db (sv_world sv') = w_db (sv_world sv)"
  by (auto simp: FindByIdempotencyKey_def on_world_eq dest: First_core)


definition has_key :: "int \<Rightarrow> int \<Rightarrow> string \<Rightarrow> turn \<Rightarrow> bool" where
  "has_key own conv key t \<longleftrightarrow> tn_OwnerID t = own \<and> tn_ConversationID t = conv \<and> tn_IdempotencyKey t = key"

lemma existing_turn_fst: "existing_turn env own t sv = ((x, rr), sv') \<Longrightarrow> x = t"
  by (auto simp: existing_turn_def split: option.splits prod.splits sum.splits)

lemma FindByIdempotencyKey_row:
  "on_world (FindByIdempotencyKey env own c key) sv = (Inr x, sv') \<Longrightarrow> x \<in> set (sturns sv) \<and> has_key own c key x"
  by (auto simp: FindByIdempotencyKey_def on_world_eq has_key_def dest: First_cases(3) [OF _ refl])

text \<open>What \<^verbatim>\<open>StartTurn\<close> does, step by step.\<close>

lemma StartTurn_cases:
  assumes "StartTurn env own ag conv key req sv = (res, sv')"
  obtains (refused) e where "res = Inl e" "w_db (sv_world sv') = w_db (sv_world sv)"
    | (known) x sv1 sv2 sv3 where "w_db (sv_world sv1) = w_db (sv_world sv)"
        "on_world (FindByIdempotencyKey (se_db env) own conv (TrimSpace key)) (clear_deferral env req own conv sv1) = (Inr x, sv2)"
        "existing_turn env own x sv2 = (sv3, sv')" "res = Inr sv3"
    | (stopped) e sv1 f sv2 where "w_db (sv_world sv1) = w_db (sv_world sv)"
        "on_world (FindByIdempotencyKey (se_db env) own conv (TrimSpace key)) (clear_deferral env req own conv sv1) = (Inl f, sv2)"
        "res = Inl e" "w_db (sv_world sv') = w_db (sv_world sv2)"
    | (created) sv1 f sv2 sv3 input def now err c turn run sv4 where "w_db (sv_world sv1) = w_db (sv_world sv)"
        "on_world (FindByIdempotencyKey (se_db env) own conv (TrimSpace key)) (clear_deferral env req own conv sv1) = (Inl f, sv2)"
        "w_db (sv_world sv3) = w_db (sv_world sv2)"
        "create_artifacts env req (queued_turn own ag conv (TrimSpace key) input) (user_message own conv (TrimSpace (ct_Content req)) req)
           (queued_run own ag conv def input now) sv3 = ((err, c, turn, run), sv4)"
        "w_db (sv_world sv') = w_db (sv_world sv4)" "err = None \<Longrightarrow> res = (if c then Inr (turn, Some run) else Inl ErrConflict)"
        "\<And>x rr. err \<noteq> None \<Longrightarrow> res = Inr (x, rr) \<Longrightarrow> x \<in> set (sturns sv') \<and> has_key own conv (TrimSpace key) x"
proof (cases "TrimSpace (ct_Content req) = [] \<or> TrimSpace key = [] \<or> 128 < length (TrimSpace key)")
  case True
  then show ?thesis using assms by (intro refused [of ErrInvalidInput]) (auto simp: StartTurn_def Let_def)
next
  case ok: False
  obtain g sv1 where g: "GetConversation env own ag conv sv = (g, sv1)" by (cases "GetConversation env own ag conv sv")
  note db1 = GetConversation_db [OF g]
  show ?thesis
  proof (cases g)
    case (Inl e)
    then show ?thesis using assms ok g db1 by (intro refused [of e]) (auto simp: StartTurn_def Let_def)
  next
    case cv: (Inr cv)
    obtain k sv2 where k: "on_world (FindByIdempotencyKey (se_db env) own conv (TrimSpace key)) (clear_deferral env req own conv sv1) = (k, sv2)"
      by (cases "on_world (FindByIdempotencyKey (se_db env) own conv (TrimSpace key)) (clear_deferral env req own conv sv1)")
    show ?thesis
    proof (cases k)
      case (Inr x)
      obtain y sv3 where "existing_turn env own x sv2 = (y, sv3)" by (cases "existing_turn env own x sv2")
      then show ?thesis using assms ok g cv k Inr db1 by (intro known [of sv1 x sv2 y]) (auto simp: StartTurn_def Let_def)
    next
      case none: (Inl f)
      obtain now sv3 where now: "svc_Now env sv2 = (now, sv3)" by (cases "svc_Now env sv2")
      note db3 = svc_Now_eq [OF now]
      show ?thesis
      proof (cases "se_definition env own ag")
        case (Inl e)
        then show ?thesis using assms ok g cv k none db1 by (intro stopped [of sv1 f sv2 e]) (auto simp: StartTurn_def Let_def)
      next
        case def: (Inr d)
        show ?thesis
        proof (cases "NormalizeMode (cv_AgentMode cv)")
          case None
          then show ?thesis using assms ok g cv k none db1 db3 def now
            by (intro stopped [of sv1 f sv2 ErrInvalidInput]) (auto simp: StartTurn_def Let_def)
        next
          case mode: (Some mode)
          define input where "input = (case marshal (se_lib env) (JObj [(''query'', JStr (TrimSpace (ct_Content req))), (''mode'', JStr mode),
              (''manual_compaction'', JBool (ct_ManualCompaction req)), (''observability'', se_observability env own conv)]) of Some s \<Rightarrow> s | None \<Rightarrow> [])"
          obtain err c turn run sv4 where ca: "create_artifacts env req (queued_turn own ag conv (TrimSpace key) input)
              (user_message own conv (TrimSpace (ct_Content req)) req) (queued_run own ag conv d input now) sv3 = ((err, c, turn, run), sv4)"
            by (cases "create_artifacts env req (queued_turn own ag conv (TrimSpace key) input)
              (user_message own conv (TrimSpace (ct_Content req)) req) (queued_run own ag conv d input now) sv3") auto
          have call: "(case err of
               Some e \<Rightarrow> (case on_world (FindByIdempotencyKey (se_db env) own conv (TrimSpace key)) sv4 of
                  (Inr existing, sv) \<Rightarrow> (case existing_turn env own existing sv of (r, sv) \<Rightarrow> (Inr r, sv))
                | (Inl _, sv) \<Rightarrow> (Inl (se_text env e), sv))
             | None \<Rightarrow> if \<not> c then (Inl ErrConflict, sv4) else (Inr (turn, Some run), sv4)) = (res, sv')"
            using assms ok g cv k none def now mode ca unfolding StartTurn_def Let_def input_def by (cases err) simp_all
          have "w_db (sv_world sv') = w_db (sv_world sv4)"
          proof (cases err)
            case None
            then show ?thesis using call by (auto split: if_splits)
          next
            case (Some e)
            then show ?thesis using call
              by (auto split: prod.splits sum.splits dest!: existing_turn_db FindByIdempotencyKey_db)
          qed
          moreover have "res = (if c then Inr (turn, Some run) else Inl ErrConflict)" if "err = None"
            using call that by (cases c) auto
          moreover have "x \<in> set (sturns sv') \<and> has_key own conv (TrimSpace key) x" if e: "err \<noteq> None" "res = Inr (x, rr)" for x rr
          proof -
            obtain f5 sv5 where f5: "on_world (FindByIdempotencyKey (se_db env) own conv (TrimSpace key)) sv4 = (f5, sv5)"
              by (cases "on_world (FindByIdempotencyKey (se_db env) own conv (TrimSpace key)) sv4")
            obtain y where y: "f5 = Inr y" "existing_turn env own y sv5 = ((x, rr), sv')"
              using call e f5 by (cases f5) (auto split: prod.splits)
            have "y \<in> set (sturns sv') \<and> has_key own conv (TrimSpace key) y"
              using FindByIdempotencyKey_row [OF f5 [unfolded y(1)]] existing_turn_db [OF y(2)] FindByIdempotencyKey_db [OF f5] by simp
            then show ?thesis using existing_turn_fst [OF y(2)] by simp
          qed
          ultimately show ?thesis by (rule created [OF db1 k [unfolded none] db3 ca])
        qed
      qed
    qed
  qed
qed

lemma StartTurn_grows:
  assumes "StartTurn env own ag conv key req sv = (res, sv')"
  shows "sgrows sv sv'"
  using assms
proof (cases rule: StartTurn_cases)
  case (refused e)
  then show ?thesis by simp
next
  case (known x sv1 sv2 sv3)
  then show ?thesis
    using clear_deferral_grows [of sv1 env req own conv] FindByIdempotencyKey_db [OF known(2)] existing_turn_db [OF known(3)] by simp
next
  case (stopped e sv1 f sv2)
  then show ?thesis using clear_deferral_grows [of sv1 env req own conv] FindByIdempotencyKey_db [OF stopped(2)] by simp
next
  case (created sv1 f sv2 sv3 input def now err c turn run sv4)
  then show ?thesis
    using clear_deferral_grows [of sv1 env req own conv] FindByIdempotencyKey_db [OF created(2)] create_artifacts_grows [OF created(4)]
    by (auto intro: grows_trans)
qed

lemma HasDeferral_db: "on_world (HasDeferral env own c) sv = (r, sv') \<Longrightarrow> w_db (sv_world sv') = w_db (sv_world sv)"
  by (auto simp: HasDeferral_def on_world_eq split: prod.splits sum.splits dest: Find_cases(1))

lemma maybeContinueGoal_grows: "sgrows sv (maybeContinueGoal prompt env run sv)"
proof (cases "rn_ConversationID run")
  case (Some conv)
  obtain g sv1 where g: "on_world (goal_Get (se_db env) (rn_OwnerID run) conv) sv = (g, sv1)"
    by (cases "on_world (goal_Get (se_db env) (rn_OwnerID run) conv) sv")
  obtain d sv2 where d: "on_world (HasDeferral (se_db env) (rn_OwnerID run) conv) sv1 = (d, sv2)"
    by (cases "on_world (HasDeferral (se_db env) (rn_OwnerID run) conv) sv1")
  have db: "w_db (sv_world sv1) = w_db (sv_world sv)" "w_db (sv_world sv2) = w_db (sv_world sv)"
    using g HasDeferral_db [OF d] by (auto simp: on_world_eq dest: goal_Get_db)
  have start: "sgrows sv2 (snd (StartTurn env own ag c key req sv2))" for own ag c key req
    by (cases "StartTurn env own ag c key req sv2") (simp add: StartTurn_grows)
  show ?thesis
    using Some g d db start unfolding maybeContinueGoal_def Let_def
    by (auto split: sum.splits if_splits)
qed (simp add: maybeContinueGoal_def)


section \<open>How a turn ends on a store that answers\<close>

text \<open>A worker holds the turn, and the run is at work; the worker's copies may already have other statuses.\<close>

definition holds :: "turn \<Rightarrow> run \<Rightarrow> service \<Rightarrow> bool" where
  "holds turn run sv \<longleftrightarrow> tn_LeaseToken turn \<noteq> [] \<and> (\<exists>t\<in>set (sturns sv). owns_turn turn t) \<and> distinct (map rn_ID (sruns sv)) \<and>
     rn_OwnerID run = tn_OwnerID turn \<and>
     (\<exists>r\<in>set (sruns sv). rn_ID r = rn_ID run \<and> rn_OwnerID r = rn_OwnerID run \<and> rn_Status r \<in> {RunStatusRunning, RunStatusResuming})"

definition ended :: "string \<Rightarrow> turn \<Rightarrow> run \<Rightarrow> service \<Rightarrow> bool" where
  "ended s turn run sv \<longleftrightarrow> (\<exists>t\<in>set (sturns sv). tn_ID t = tn_ID turn \<and> tn_Status t = s \<and> tn_LeaseToken t = []) \<and>
     (\<exists>r\<in>set (sruns sv). rn_ID r = rn_ID run \<and> rn_Status r = s)"

lemma holds_like:
  assumes "holds turn run sv" "tn_ID turn' = tn_ID turn" "tn_OwnerID turn' = tn_OwnerID turn" "tn_LeaseToken turn' = tn_LeaseToken turn"
    "rn_ID run' = rn_ID run" "rn_OwnerID run' = rn_OwnerID run" "sturns sv' = sturns sv" "sruns sv' = sruns sv"
  shows "holds turn' run' sv'"
  using assms by (auto simp: holds_def owns_turn_def)

lemma ended_mono: "ended s turn run sv \<Longrightarrow> sgrows sv sv' \<Longrightarrow> ended s turn run sv'"
  unfolding ended_def grows_def by blast

lemma put_row_mem: "x \<in> set (put_row key x xs)"
  by (auto simp: put_row_def change_where_set set_insort_key)

lemma ended_put:
  assumes "sturns sv' = put_row tn_ID t ts" "sruns sv' = put_row rn_ID r rs" "tn_ID t = tn_ID turn" "tn_Status t = s" "tn_LeaseToken t = []"
    "rn_ID r = rn_ID run" "rn_Status r = s"
  shows "ended s turn run sv'"
proof -
  have "t \<in> set (sturns sv')" "r \<in> set (sruns sv')" using assms(1,2) put_row_mem by metis+
  then show ?thesis using assms unfolding ended_def by blast
qed

lemma holds_run:
  assumes "holds turn run sv"
  obtains r where "List.find (\<lambda>r. rn_ID r = rn_ID run \<and> rn_OwnerID r = tn_OwnerID turn) (sruns sv) = Some r" "r \<in> set (sruns sv)"
    "rn_ID r = rn_ID run" "rn_OwnerID r = rn_OwnerID run" "rn_Status r \<in> {RunStatusRunning, RunStatusResuming}"
proof -
  obtain r where r: "r \<in> set (sruns sv)" "rn_ID r = rn_ID run" "rn_OwnerID r = rn_OwnerID run" "rn_Status r \<in> {RunStatusRunning, RunStatusResuming}"
    using assms unfolding holds_def by blast
  have "List.find (\<lambda>r. rn_ID r = rn_ID run \<and> rn_OwnerID r = tn_OwnerID turn) (sruns sv) = Some r"
  proof (rule find_only [OF r(1)])
    show "rn_ID r = rn_ID run \<and> rn_OwnerID r = tn_OwnerID turn" using r assms unfolding holds_def by simp
    show "y = r" if "y \<in> set (sruns sv)" "rn_ID y = rn_ID run \<and> rn_OwnerID y = tn_OwnerID turn" for y
      by (rule distinct_key_eq [of rn_ID "sruns sv"]) (use that r assms in \<open>simp_all add: holds_def\<close>)
  qed
  then show ?thesis using that r by blast
qed

text \<open>The look at the run before a turn ends finds it at work.\<close>

lemma holds_FindByID:
  assumes "quiet (se_db env)" "holds turn run sv"
  obtains r sv1 where "on_world (run_FindByID (se_db env) (tn_OwnerID turn) (rn_ID run)) sv = (Inr r, sv1)"
    "rn_Status r \<noteq> RunStatusCancelled" "holds turn run sv1"
proof -
  obtain r where r: "List.find (\<lambda>r. rn_ID r = rn_ID run \<and> rn_OwnerID r = tn_OwnerID turn) (sruns sv) = Some r"
    "rn_Status r \<in> {RunStatusRunning, RunStatusResuming}" by (rule holds_run [OF assms(2)])
  define sv1 where "sv1 = sv\<lparr>sv_world := (sv_world sv)\<lparr>w_statements := Suc (w_statements (sv_world sv))\<rparr>\<rparr>"
  have "holds turn run sv1" by (rule holds_like [OF assms(2)]) (simp_all add: sv1_def)
  moreover have "on_world (run_FindByID (se_db env) (tn_OwnerID turn) (rn_ID run)) sv = (Inr r, sv1)"
    using r(1) by (simp add: on_world_def run_FindByID_def quiet_First [OF assms(1)] sv1_def)
  ultimately show ?thesis using that r(2) by auto
qed

lemma holds_now: "holds turn run sv \<Longrightarrow> svc_Now env sv = (now, sv1) \<Longrightarrow> holds turn run sv1"
  by (rule holds_like) (simp_all add: svc_Now_eq)

text \<open>The stored pair after a write that releases the lease.\<close>

lemma holds_update:
  assumes q: "quiet (se_db env)" and h: "holds turn run sv" and i: "tn_ID item = tn_ID turn" "tn_OwnerID item = tn_OwnerID turn"
    "tn_LeaseToken item = tn_LeaseToken turn" "rn_ID r = rn_ID run" "rn_OwnerID r = rn_OwnerID run" and s: "tn_Status item = s" "rn_Status r = s"
  obtains item' r' sv' where "on_world (UpdateRunOwned (se_db env) item r True) sv = ((None, item', r'), sv')" "ended s turn run sv'"
proof -
  have h': "holds item r sv" by (rule holds_like [OF h]) (simp_all add: i)
  then obtain t where t: "t \<in> set (sturns sv)" "owns_turn item t" by (auto simp: holds_def)
  have "\<exists>x\<in>set (sruns sv). run_open r x" using h' by (auto simp: holds_def run_open_def)
  with t obtain now item' r' w' where u: "UpdateRunOwned (se_db env) item r True (sv_world sv) = ((None, item', r'), w')"
    "item' = (clearTurnLease item)\<lparr>tn_UpdatedAt := now\<rparr>" "r' = r\<lparr>rn_UpdatedAt := now\<rparr>"
    "w_db w' = (w_db (sv_world sv))\<lparr>db_turns := put_row tn_ID item' (sturns sv), db_runs := put_row rn_ID r' (sruns sv)\<rparr>"
    using quiet_UpdateRunOwned [OF q t, of r True] by (metis (full_types))
  show ?thesis
  proof (rule that [of item' r' "sv\<lparr>sv_world := w'\<rparr>"])
    show "ended s turn run (sv\<lparr>sv_world := w'\<rparr>)"
      by (rule ended_put [of _ item' "sturns sv" r' "sruns sv"]) (use u(2-4) i s in \<open>simp_all add: clearTurnLease_def\<close>)
  qed (use u(1) in \<open>simp add: on_world_def\<close>)
qed

lemma failTurn_ended:
  assumes q: "quiet (se_db env)" and h: "holds turn run sv" and act: "IsActiveRunStatus (rn_Status run)"
    and call: "failTurn env turn run cause sv = (turn', run', sv')"
  shows "ended TurnStatusFailed turn run sv'"
proof -
  obtain r sv1 where f: "on_world (run_FindByID (se_db env) (tn_OwnerID turn) (rn_ID run)) sv = (Inr r, sv1)"
    "rn_Status r \<noteq> RunStatusCancelled" "holds turn run sv1" by (rule holds_FindByID [OF q h])
  obtain now sv2 where now: "svc_Now env sv1 = (now, sv2)" by (cases "svc_Now env sv1")
  let ?t = "turn\<lparr>tn_Status := TurnStatusFailed, tn_ErrorMessage := er_text cause, tn_FinishedAt := Some now\<rparr>"
  have fr: "rn_Status (failed_run run cause now) = RunStatusFailed" "rn_ID (failed_run run cause now) = rn_ID run"
    "rn_OwnerID (failed_run run cause now) = rn_OwnerID run"
    using act by (auto simp: failed_run_def TransitionStatus_def canTransitionRunStatus_def IsActiveRunStatus_def Let_def)
  obtain t2 r2 sv3 where u: "on_world (UpdateRunOwned (se_db env) ?t (failed_run run cause now) True) sv2 = ((None, t2, r2), sv3)"
    "ended RunStatusFailed turn run sv3"
    by (rule holds_update [OF q holds_now [OF f(3) now], of ?t "failed_run run cause now" RunStatusFailed]) (use fr in simp_all)
  have "sv' = after_failure env t2 r2 cause sv3" using call f now u(1) by (auto simp: failTurn_def fail_both_def)
  then have "core_kept sv3 sv'" using after_failure_core by simp
  then show ?thesis using u(2) by (simp add: ended_def same_core_def)
qed


text \<open>The status that a result means for the turn and its run.\<close>

definition outcome :: "run_output \<Rightarrow> string" where
  "outcome out =
     (if ro_stop_reason out = ''llm_error'' then TurnStatusFailed
      else if ro_stop_reason out = ''waiting_human'' then if ro_checkpoint out = None then TurnStatusFailed else TurnStatusWaitingHuman
      else if ro_stop_reason out = ''paused'' then if ro_checkpoint out = None then TurnStatusFailed else TurnStatusPaused
      else TurnStatusSucceeded)"

definition checkpointed :: "run \<Rightarrow> run_output \<Rightarrow> service \<Rightarrow> bool" where
  "checkpointed run out sv \<longleftrightarrow>
     (\<exists>c\<in>set (db_checkpoints (w_db (sv_world sv))). cp_RunID c = rn_ID run \<and> Some (cp_CheckpointJSON c) = map_option snd (ro_checkpoint out)) \<and>
     (ro_approval out \<noteq> None \<longrightarrow> (\<exists>a\<in>set (db_approvals (w_db (sv_world sv))). ap_RunID a = rn_ID run \<and> ap_Status a = ApprovalStatusPending))"

lemma pause_turn_ended:
  assumes q: "quiet (se_db env)" and h: "holds turn run sv" and act: "rn_Status run = RunStatusRunning \<or> rn_Status run = RunStatusResuming"
    and s: "s = TurnStatusWaitingHuman \<or> s = TurnStatusPaused" and call: "pause_turn env turn run out s sv = (turn', run', sv')"
  shows "if ro_checkpoint out = None then ended TurnStatusFailed turn run sv' else ended s turn run sv' \<and> checkpointed run out sv'"
proof -
  let ?t = "turn\<lparr>tn_Status := s, tn_OutputJSON := ro_json out\<rparr>" and ?r = "run\<lparr>rn_Status := s, rn_OutputJSON := ro_json out\<rparr>"
  have tr: "TransitionStatus (rn_Status run) s = Inr s" using act s by (elim disjE) (simp_all add: TransitionStatus_def canTransitionRunStatus_def)
  have h': "holds ?t ?r sv" by (rule holds_like [OF h]) simp_all
  show ?thesis
  proof (cases "ro_checkpoint out")
    case None
    then have "failTurn env ?t ?r (plain ''runtime paused without checkpoint'') sv = (turn', run', sv')"
      using call tr by (simp add: pause_turn_def checkpointArtifacts_def Let_def)
    from failTurn_ended [OF q h' _ this] s have "ended TurnStatusFailed ?t ?r sv'" by (auto simp: IsActiveRunStatus_def)
    then show ?thesis using None by (simp add: ended_def)
  next
    case (Some c)
    obtain ap cp where art: "checkpointArtifacts ?r out = (ap, Some cp)" using Some by (simp add: checkpointArtifacts_def)
    have cp: "cp_RunID cp = rn_ID run" "Some (cp_CheckpointJSON cp) = map_option snd (ro_checkpoint out)"
      using art by (auto simp: checkpointArtifacts_def)
    have ap: "\<exists>a. ap = Some a \<and> ap_RunID a = rn_ID run \<and> ap_Status a = ApprovalStatusPending" if "ro_approval out \<noteq> None"
      using art that by (auto simp: checkpointArtifacts_def)
    obtain t where t: "t \<in> set (sturns sv)" "owns_turn ?t t" using h' by (auto simp: holds_def)
    obtain r where r: "r \<in> set (sruns sv)" "run_recoverable ?r r" using h' unfolding holds_def run_recoverable_def by blast
    have tok: "tn_LeaseToken ?t \<noteq> []" using h' by (simp add: holds_def)
    obtain now item' r' w' where sp: "SavePausedRun (se_db env) ?t ?r ap cp (sv_world sv) = ((None, item', r'), w')"
      "item' = (clearTurnLease ?t)\<lparr>tn_UpdatedAt := now\<rparr>" "r' = ?r\<lparr>rn_UpdatedAt := now\<rparr>"
      "turns w' = put_row tn_ID item' (sturns sv)" "runs_of w' = put_row rn_ID r' (sruns sv)"
      "\<exists>c\<in>set (db_checkpoints (w_db w')). cp_RunID c = cp_RunID cp \<and> cp_CheckpointJSON c = cp_CheckpointJSON cp"
      "\<And>a. ap = Some a \<Longrightarrow> ap_Status a = ApprovalStatusPending \<Longrightarrow> \<exists>a'\<in>set (db_approvals (w_db w')). ap_RunID a' = ap_RunID a \<and> ap_Status a' = ApprovalStatusPending"
      by (rule quiet_SavePausedRun [OF q tok t r, of ap cp]) blast
    have sv': "sv_world sv' = w'" using call tr art sp(1) by (auto simp: pause_turn_def Let_def on_world_def)
    have "ended s turn run sv'"
      by (rule ended_put [of _ item' "sturns sv" r' "sruns sv"]) (use sv' sp(2-5) in \<open>simp_all add: clearTurnLease_def\<close>)
    moreover have "checkpointed run out sv'" unfolding checkpointed_def sv' using sp(6,7) cp ap by metis
    ultimately show ?thesis using Some by simp
  qed
qed

lemma finished_run_simps [simp]:
  "rn_ID (finished_run run out now) = rn_ID run" "rn_OwnerID (finished_run run out now) = rn_OwnerID run"
  "rn_Status (finished_run run out now) = rn_Status run"
  by (simp_all add: finished_run_def)

lemma finish_subagent_ended:
  assumes q: "quiet (se_db env)" and h: "holds turn run sv" and act: "rn_Status run = RunStatusRunning \<or> rn_Status run = RunStatusResuming"
    and call: "finish_subagent env turn run out sv = (turn', run', sv')"
  shows "ended TurnStatusSucceeded turn run sv'"
proof -
  obtain now sv1 where now: "svc_Now env sv = (now, sv1)" by (cases "svc_Now env sv")
  let ?t = "turn\<lparr>tn_Status := TurnStatusSucceeded, tn_OutputJSON := ro_json out, tn_FinishedAt := Some now\<rparr>"
  let ?r = "finished_run (run\<lparr>rn_Status := RunStatusSucceeded\<rparr>) out now"
  have tr: "TransitionStatus (rn_Status run) RunStatusSucceeded = Inr RunStatusSucceeded"
    using act by (elim disjE) (simp_all add: TransitionStatus_def canTransitionRunStatus_def)
  obtain t2 r2 sv2 where u: "on_world (UpdateRunOwned (se_db env) ?t ?r True) sv1 = ((None, t2, r2), sv2)" "ended TurnStatusSucceeded turn run sv2"
    by (rule holds_update [OF q holds_now [OF h now], of ?t ?r TurnStatusSucceeded]) simp_all
  have "sv' = publishSnapshot r2 (Some t2) None sv2" using call now tr u(1) by (auto simp: finish_subagent_def finish_with_def Let_def)
  then show ?thesis using u(2) by (simp add: ended_def)
qed

text \<open>The stored turn refers to a stored message with the answer.\<close>

definition answered :: "turn \<Rightarrow> run \<Rightarrow> run_output \<Rightarrow> service \<Rightarrow> bool" where
  "answered turn run out sv \<longleftrightarrow>
     (\<exists>t\<in>set (sturns sv). \<exists>m\<in>set (db_messages (w_db (sv_world sv))). tn_ID t = tn_ID turn \<and> tn_AssistantMessageID t = Some (ms_ID m) \<and>
        ms_Content m = ro_final_answer out \<and> ms_RunID m = Some (rn_ID run) \<and> ms_Role m = ''assistant'' \<and> ms_ConversationID m = tn_ConversationID turn)"

lemma finish_turn_ended:
  assumes q: "quiet (se_db env)" and h: "holds turn run sv" and act: "rn_Status run = RunStatusRunning \<or> rn_Status run = RunStatusResuming"
    and call: "finish_turn prompt env turn run out sv = (turn', run', sv')"
  shows "ended TurnStatusSucceeded turn run sv' \<and> (existing_message out \<le> 0 \<longrightarrow> answered turn run out sv')"
proof -
  obtain now sv1 where now: "svc_Now env sv = (now, sv1)" by (cases "svc_Now env sv")
  define t where "t = turn\<lparr>tn_Status := TurnStatusSucceeded, tn_AssistantMessageID := Some 0, tn_OutputJSON := ro_json out, tn_FinishedAt := Some now\<rparr>"
  define r where "r = finished_run (run\<lparr>rn_Status := RunStatusSucceeded\<rparr>) out now"
  let ?after = "\<lambda>turn run sv. publishSnapshot run (Some turn) (tn_AssistantMessageID turn) (maybeContinueGoal prompt env run sv)"
  have tr: "TransitionStatus (rn_Status run) RunStatusSucceeded = Inr RunStatusSucceeded"
    using act by (elim disjE) (simp_all add: TransitionStatus_def canTransitionRunStatus_def)
  have h1: "holds turn run sv1" by (rule holds_now [OF h now])
  show ?thesis
  proof (cases "0 < existing_message out")
    case True
    let ?t = "t\<lparr>tn_AssistantMessageID := Some (existing_message out)\<rparr>"
    obtain t2 r2 sv2 where u: "on_world (UpdateRunOwned (se_db env) ?t r True) sv1 = ((None, t2, r2), sv2)" "ended TurnStatusSucceeded turn run sv2"
      by (rule holds_update [OF q h1, of ?t r TurnStatusSucceeded]) (simp_all add: t_def r_def)
    have "sv' = ?after t2 r2 sv2" using call now tr u(1) True by (auto simp: finish_turn_def finish_with_def Let_def t_def r_def)
    then have "sgrows sv2 sv'" using maybeContinueGoal_grows by simp
    then show ?thesis using ended_mono [OF u(2)] True by simp
  next
    case False
    have h2: "holds t r sv1" by (rule holds_like [OF h1]) (simp_all add: t_def r_def)
    then obtain x where x: "x \<in> set (sturns sv1)" "owns_turn t x" by (auto simp: holds_def)
    have op: "\<exists>x\<in>set (sruns sv1). run_open r x" using h2 by (auto simp: holds_def run_open_def)
    obtain nw m t2 r2 w' where u: "CompleteWithMessage (se_db env) t (assistant_message (se_lib env) turn run out) r (sv_world sv1) = ((None, t2, r2), w')"
      "t2 = (clearTurnLease (t\<lparr>tn_AssistantMessageID := Some (ms_ID m)\<rparr>))\<lparr>tn_UpdatedAt := nw\<rparr>" "r2 = r\<lparr>rn_UpdatedAt := nw\<rparr>"
      "m = (assistant_message (se_lib env) turn run out)\<lparr>ms_CreatedAt := nw, ms_ID := ms_ID m\<rparr>" "db_messages (w_db w') = db_messages (w_db (sv_world sv1)) @ [m]"
      "turns w' = put_row tn_ID t2 (sturns sv1)" "runs_of w' = put_row rn_ID r2 (sruns sv1)"
      by (rule quiet_CompleteWithMessage [OF q x op])
    define sv2 where "sv2 = sv1\<lparr>sv_world := w'\<rparr>"
    have sv': "sv' = ?after t2 r2 sv2"
      using call now tr u(1) False by (auto simp: finish_turn_def finish_with_def Let_def t_def r_def on_world_def sv2_def)
    have gr: "sgrows sv2 sv'" using maybeContinueGoal_grows [of sv2 prompt env r2] by (simp add: sv')
    have "ended TurnStatusSucceeded turn run sv2"
      by (rule ended_put [of _ t2 "sturns sv1" r2 "sruns sv1"]) (use u(2,3,6,7) in \<open>simp_all add: clearTurnLease_def t_def r_def sv2_def\<close>)
    moreover have "answered turn run out sv'"
    proof -
      have "t2 \<in> set (sturns sv2)" using u(6) put_row_mem by (metis service.select_convs(1) service.surjective service.update_convs(1) sv2_def)
      then have "t2 \<in> set (sturns sv')" "m \<in> set (db_messages (w_db (sv_world sv')))" using gr u(5) by (auto simp: grows_def sv2_def)
      moreover have "ms_Content m = ro_final_answer out" "ms_RunID m = Some (rn_ID run)" "ms_Role m = ''assistant''" "ms_ConversationID m = tn_ConversationID turn"
        by (subst u(4), simp add: assistant_message_def)+
      moreover have "tn_ID t2 = tn_ID turn" "tn_AssistantMessageID t2 = Some (ms_ID m)" by (simp_all add: u(2) t_def clearTurnLease_def)
      ultimately show ?thesis unfolding answered_def by blast
    qed
    ultimately show ?thesis using ended_mono [OF _ gr] by blast
  qed
qed


lemma turn_outcome_parts:
  assumes q: "quiet (se_db env)" and h: "holds turn run sv" and act: "rn_Status run = RunStatusRunning \<or> rn_Status run = RunStatusResuming"
    and call: "completeTurn prompt env turn run (Some out) sv = (turn', run', sv')"
  shows "ended (outcome out) turn run sv'"
    and "outcome out \<in> {TurnStatusWaitingHuman, TurnStatusPaused} \<Longrightarrow> checkpointed run out sv'"
    and "outcome out = TurnStatusSucceeded \<Longrightarrow> rn_RunType run \<noteq> RunTypeSubagent \<Longrightarrow> existing_message out \<le> 0 \<Longrightarrow> answered turn run out sv'"
proof -
  define sv0 where "sv0 = clearSteering (rn_ID run) (clearGoalUsage (rn_ID run) (accountGoalRun env run out sv))"
  have "core_kept sv sv0" using accountGoalRun_core [of sv env run out] by (simp add: sv0_def)
  then have h0: "holds turn run sv0" by (intro holds_like [OF h]) (simp_all add: same_core_def)
  obtain r sv1 where f: "on_world (run_FindByID (se_db env) (tn_OwnerID turn) (rn_ID run)) sv0 = (Inr r, sv1)"
    "rn_Status r \<noteq> RunStatusCancelled" "holds turn run sv1" by (rule holds_FindByID [OF q h0])
  have ac: "IsActiveRunStatus (rn_Status run)" using act by (auto simp: IsActiveRunStatus_def)
  have rest: "(if ro_stop_reason out = ''llm_error''
          then failTurn env turn run (plain (if TrimSpace (ro_error out) = [] then ''agent runtime returned an LLM error'' else ro_error out)) sv1
          else if ro_stop_reason out = ''waiting_human'' then pause_turn env turn run out TurnStatusWaitingHuman sv1
          else if ro_stop_reason out = ''paused'' then pause_turn env turn run out TurnStatusPaused sv1
          else if rn_RunType run = RunTypeSubagent then finish_subagent env turn run out sv1
          else finish_turn prompt env turn run out sv1) = (turn', run', sv')"
    using call f by (simp add: completeTurn_def Let_def flip: sv0_def)
  have "ended (outcome out) turn run sv' \<and> (outcome out \<in> {TurnStatusWaitingHuman, TurnStatusPaused} \<longrightarrow> checkpointed run out sv') \<and>
    (outcome out = TurnStatusSucceeded \<longrightarrow> rn_RunType run \<noteq> RunTypeSubagent \<longrightarrow> existing_message out \<le> 0 \<longrightarrow> answered turn run out sv')"
  proof -
    consider (err) "ro_stop_reason out = ''llm_error''" | (wait) "ro_stop_reason out = ''waiting_human''" | (pause) "ro_stop_reason out = ''paused''"
      | (ok) "ro_stop_reason out \<noteq> ''llm_error''" "ro_stop_reason out \<noteq> ''waiting_human''" "ro_stop_reason out \<noteq> ''paused''" by blast
    then show ?thesis
    proof cases
      case err
      then show ?thesis using failTurn_ended [OF q f(3) ac] rest by (simp add: outcome_def)
    next
      case wait
      then have "pause_turn env turn run out TurnStatusWaitingHuman sv1 = (turn', run', sv')" using rest by simp
      from pause_turn_ended [OF q f(3) act _ this] wait show ?thesis by (simp add: outcome_def split: if_splits)
    next
      case pause
      then have "pause_turn env turn run out TurnStatusPaused sv1 = (turn', run', sv')" using rest by simp
      from pause_turn_ended [OF q f(3) act _ this] pause show ?thesis by (simp add: outcome_def split: if_splits)
    next
      case ok
      have out: "outcome out = TurnStatusSucceeded" using ok by (simp add: outcome_def)
      show ?thesis
      proof (cases "rn_RunType run = RunTypeSubagent")
        case True
        then show ?thesis using finish_subagent_ended [OF q f(3) act] rest ok out by simp
      next
        case False
        then show ?thesis using finish_turn_ended [OF q f(3) act] rest ok out by simp
      qed
    qed
  qed
  then show "ended (outcome out) turn run sv'" "outcome out \<in> {TurnStatusWaitingHuman, TurnStatusPaused} \<Longrightarrow> checkpointed run out sv'"
    "outcome out = TurnStatusSucceeded \<Longrightarrow> rn_RunType run \<noteq> RunTypeSubagent \<Longrightarrow> existing_message out \<le> 0 \<Longrightarrow> answered turn run out sv'" by blast+
qed

text \<open>C3: A result of the runtime decides how the turn and its run end, alike. On a store that answers, for a worker that
  holds the lease of a turn whose run is at work, the stored turn has lost its lease and both rows have the
  status the result means: failed after a model error, waiting or paused when the runtime asks for that
  and hands over a checkpoint, which is stored with the request for approval if there is one, failed when it
  does not, and succeeded otherwise; then the answer is stored as a message of the assistant that the
  turn refers to, unless the runtime has stored one itself.\<close>

theorem turn_outcome:
  assumes q: "quiet (se_db env)" and h: "holds turn run sv" and act: "rn_Status run = RunStatusRunning \<or> rn_Status run = RunStatusResuming"
    and call: "completeTurn prompt env turn run (Some out) sv = (turn', run', sv')"
  shows "ended (outcome out) turn run sv' \<and> (outcome out \<in> {TurnStatusWaitingHuman, TurnStatusPaused} \<longrightarrow> checkpointed run out sv') \<and>
    (outcome out = TurnStatusSucceeded \<and> rn_RunType run \<noteq> RunTypeSubagent \<and> existing_message out \<le> 0 \<longrightarrow> answered turn run out sv')"
  using turn_outcome_parts [OF assms] by blast

theorem turn_outcome_witness:
  "(\<exists>turn' run' sv'. completeTurn (\<lambda>_ _ _ _. []) (demo_env ex_env) demo_turn ex_run (Some (no_output\<lparr>ro_final_answer := ''42''\<rparr>))
       (demo_service [demo_turn] [ex_run] []) = (turn', run', sv') \<and>
     ended TurnStatusSucceeded demo_turn ex_run sv' \<and> answered demo_turn ex_run (no_output\<lparr>ro_final_answer := ''42''\<rparr>) sv') \<and>
   (\<exists>turn' run' sv'. completeTurn (\<lambda>_ _ _ _. []) (demo_env ex_env) demo_turn ex_run (Some (no_output\<lparr>ro_stop_reason := ''paused'', ro_checkpoint := Some ([], ''{}'')\<rparr>))
       (demo_service [demo_turn] [ex_run] []) = (turn', run', sv') \<and>
     ended TurnStatusPaused demo_turn ex_run sv' \<and> checkpointed ex_run (no_output\<lparr>ro_stop_reason := ''paused'', ro_checkpoint := Some ([], ''{}'')\<rparr>) sv')"
proof (intro conjI)
  let ?e = "demo_env ex_env" and ?s = "demo_service [demo_turn] [ex_run] []"
  have q: "quiet (se_db ?e)" "holds demo_turn ex_run ?s" "rn_Status ex_run = RunStatusRunning \<or> rn_Status ex_run = RunStatusResuming"
    by (simp_all add: quiet_def holds_def owns_turn_def demo_defs)
  obtain t r s where c: "completeTurn (\<lambda>_ _ _ _. []) ?e demo_turn ex_run (Some (no_output\<lparr>ro_final_answer := ''42''\<rparr>)) ?s = (t, r, s)"
    by (metis prod_cases3)
  have "outcome (no_output\<lparr>ro_final_answer := ''42''\<rparr>) = TurnStatusSucceeded" "existing_message (no_output\<lparr>ro_final_answer := ''42''\<rparr>) \<le> 0"
    "rn_RunType ex_run \<noteq> RunTypeSubagent" by (simp_all add: outcome_def no_output_def existing_message_def ex_run_def)
  then show "\<exists>turn' run' sv'. completeTurn (\<lambda>_ _ _ _. []) ?e demo_turn ex_run (Some (no_output\<lparr>ro_final_answer := ''42''\<rparr>)) ?s = (turn', run', sv') \<and>
     ended TurnStatusSucceeded demo_turn ex_run sv' \<and> answered demo_turn ex_run (no_output\<lparr>ro_final_answer := ''42''\<rparr>) sv'"
    using turn_outcome [OF q c] c by simp
  let ?o = "no_output\<lparr>ro_stop_reason := ''paused'', ro_checkpoint := Some ([], ''{}'')\<rparr>"
  obtain t r s where c: "completeTurn (\<lambda>_ _ _ _. []) ?e demo_turn ex_run (Some ?o) ?s = (t, r, s)" by (metis prod_cases3)
  have "outcome ?o = TurnStatusPaused" by (simp add: outcome_def)
  then show "\<exists>turn' run' sv'. completeTurn (\<lambda>_ _ _ _. []) ?e demo_turn ex_run (Some ?o) ?s = (turn', run', sv') \<and>
     ended TurnStatusPaused demo_turn ex_run sv' \<and> checkpointed ex_run ?o sv'"
    using turn_outcome [OF q c] c by simp
qed

end
