(* ===== verification/Turn_Start.thy ===== *)
theory Turn_Start
  imports Turn_Outcomes
begin

text \<open>
  Starting a turn: the idempotency key of the client names at most one turn, whatever is tried again and
  whatever fails.
\<close>

lemma createTurnArtifacts_key:
  assumes "createTurnArtifacts env (item, msg, run) w = ((None, t, ms, r), w')"
  shows "turns w' = turns w @ [t]" and "has_key (tn_OwnerID item) (tn_ConversationID item) (tn_IdempotencyKey item) t"
    and "\<not> (\<exists>x\<in>set (turns w). has_key (tn_OwnerID item) (tn_ConversationID item) (tn_IdempotencyKey item) x)"
proof -
  obtain now w0 where now: "Now env w = (now, w0)" by (cases "Now env w")
  let ?r = "run\<lparr>rn_CreatedAt := now, rn_UpdatedAt := now, rn_StartedAt := (if rn_StartedAt run = 0 then now else rn_StartedAt run)\<rparr>"
  from assms now obtain w1 u w2 w3 where
    c1: "Create env db_messages_update (\<lambda>i. msg\<lparr>ms_CreatedAt := now, ms_ID := i\<rparr>) (\<lambda>_ _. False) w0 = (Inr ms, w1)"
    and c2: "touchConversationLastMessage env (ms_OwnerID ms) (ms_ConversationID ms) now w1 = (Inr u, w2)"
    and c3: "Create env db_runs_update (\<lambda>i. ?r\<lparr>rn_ID := i\<rparr>) (\<lambda>_ _. False) w2 = (Inr r, w3)"
    and c4: "create_turn env (turn_defaults now (item\<lparr>tn_RunID := Some (rn_ID r), tn_UserMessageID := ms_ID ms\<rparr>)) w3 = (Inr t, w')"
    unfolding createTurnArtifacts_def Let_def by (auto elim!: try_db_ok)
  note t = Create_cases(3) [OF c4 [unfolded create_turn_def] refl]
  have w3: "turns w3 = turns w" using Create_cases(3) [OF c1 refl] Create_cases(3) [OF c3 refl] touch_ok [OF c2] Now_eq [OF now] by simp
  show k: "has_key (tn_OwnerID item) (tn_ConversationID item) (tn_IdempotencyKey item) t"
    using t by (simp add: has_key_def turn_defaults_def)
  show "turns w' = turns w @ [t]" using t w3 by simp
  show "\<not> (\<exists>x\<in>set (turns w). has_key (tn_OwnerID item) (tn_ConversationID item) (tn_IdempotencyKey item) x)"
    using t w3 k by (auto simp: turn_key_taken_def has_key_def)
qed

text \<open>Either nothing of the three tables changes, or one turn with the key is added, which had none before.\<close>

definition starts :: "int \<Rightarrow> int \<Rightarrow> string \<Rightarrow> db \<Rightarrow> db \<Rightarrow> bool \<Rightarrow> turn \<Rightarrow> bool" where
  "starts own conv key d d' made t \<longleftrightarrow>
     (if made then db_turns d' = db_turns d @ [t] \<and> has_key own conv key t \<and> \<not> (\<exists>x\<in>set (db_turns d). has_key own conv key x)
      else db_turns d' = db_turns d \<and> db_runs d' = db_runs d \<and> db_messages d' = db_messages d)"

lemma starts_refl [simp]: "starts own conv key d d False t"
  by (simp add: starts_def)

lemma createTurnArtifacts_starts:
  "createTurnArtifacts env (item, msg, run) w = ((None, t, ms, r), w') \<Longrightarrow>
     starts (tn_OwnerID item) (tn_ConversationID item) (tn_IdempotencyKey item) (w_db w) (w_db w') True t"
  using createTurnArtifacts_key unfolding starts_def by auto

lemma CreateWithArtifacts_starts:
  assumes "CreateWithArtifacts env item msg run w = ((err, t, ms, r), w')"
  shows "starts (tn_OwnerID item) (tn_ConversationID item) (tn_IdempotencyKey item) (w_db w) (w_db w') (err = None) t"
proof (cases err)
  case None
  then show ?thesis using assms unfolding CreateWithArtifacts_def
    by (auto elim!: transaction_ok simp: starts_def dest: createTurnArtifacts_key)
next
  case (Some e)
  then show ?thesis using assms unfolding CreateWithArtifacts_def by (simp add: starts_def transaction_error)
qed

lemma CreateGoalContinuation_starts:
  assumes "CreateGoalContinuationWithArtifacts env gid item msg run w = ((err, c, t, ms, r), w')"
  shows "starts (tn_OwnerID item) (tn_ConversationID item) (tn_IdempotencyKey item) (w_db w) (w_db w') (err = None \<and> c) t"
proof (cases "rn_ConversationID run = None \<or> TrimSpace gid = []")
  case True
  then show ?thesis using assms by (auto simp: CreateGoalContinuationWithArtifacts_def Let_def starts_def split: option.splits if_splits)
next
  case False
  then obtain conv where conv: "rn_ConversationID run = Some conv" "TrimSpace gid \<noteq> []" by auto
  define m where "m = (item, msg, run)"
  define body where "body = (\<lambda>w.
            case First env db_goals (\<lambda>g. tg_OwnerID g = rn_OwnerID run \<and> tg_ConversationID g = conv \<and> tg_GoalID g = gid) w of
              (Inl ErrRecordNotFound, w) \<Rightarrow> ((None, False, m), w)
            | (Inl e, w) \<Rightarrow> ((Some e, False, m), w)
            | (Inr current, w) \<Rightarrow>
                if tg_Status current \<noteq> GoalActive then ((None, False, m), w)
                else try_db (Find env db_deferrals (\<lambda>p. p = (rn_OwnerID run, conv)) w) (False, m) (\<lambda>deferred w.
                  if deferred \<noteq> [] then ((None, False, m), w)
                  else try_db (Find env db_runs (goal_run_blocks run) w) (False, m) (\<lambda>activeRuns w.
                    if activeRuns \<noteq> [] then ((None, False, m), w)
                    else case createTurnArtifacts env m w of
                           ((Some e, m), w) \<Rightarrow> ((Some e, False, m), w)
                         | ((None, m), w) \<Rightarrow> ((None, True, m), w))))"
  have call: "transaction env body w = ((err, c, t, ms, r), w')"
    using assms conv unfolding CreateGoalContinuationWithArtifacts_def Let_def body_def m_def by simp
  show ?thesis
  proof (cases err)
    case (Some e)
    then show ?thesis using call by (simp add: starts_def transaction_error)
  next
    case None
    then obtain w1 where b: "body w = ((None, c, t, ms, r), w1)" and w1: "w_db w' = w_db w1" using call by (auto elim: transaction_ok)
    have "starts (tn_OwnerID item) (tn_ConversationID item) (tn_IdempotencyKey item) (w_db w) (w_db w1) c t"
      using b unfolding body_def m_def
      by (auto split: prod.splits sum.splits if_splits db_error.splits option.splits elim!: try_db_ok
          dest!: First_core Find_cases(1) createTurnArtifacts_starts)
    then show ?thesis using None w1 by simp
  qed
qed

lemma create_artifacts_starts:
  assumes "create_artifacts env req turn msg run sv = ((err, c, t, r), sv')"
  shows "starts (tn_OwnerID turn) (tn_ConversationID turn) (tn_IdempotencyKey turn) (w_db (sv_world sv)) (w_db (sv_world sv')) (err = None \<and> c) t"
  using assms
  by (auto simp: create_artifacts_def on_world_def split: if_splits prod.splits dest!: CreateGoalContinuation_starts CreateWithArtifacts_starts)

lemma clear_deferral_tables:
  "sturns (clear_deferral env req own conv sv) = sturns sv" "sruns (clear_deferral env req own conv sv) = sruns sv"
  "db_messages (w_db (sv_world (clear_deferral env req own conv sv))) = db_messages (w_db (sv_world sv))"
  by (auto simp: clear_deferral_def on_world_def SetDeferral_def statement_def Let_def split: prod.splits option.splits)

text \<open>One call: what it adds, and that the turn it returns is a stored one with the key.\<close>

lemma StartTurn_starts:
  assumes call: "StartTurn env own ag conv key req sv = (res, sv')"
  obtains made t where "starts own conv (TrimSpace key) (w_db (sv_world sv)) (w_db (sv_world sv')) made t"
    "\<And>x rr. res = Inr (x, rr) \<Longrightarrow> x \<in> set (sturns sv') \<and> has_key own conv (TrimSpace key) x"
  using call
proof (cases rule: StartTurn_cases)
  case (refused e)
  then show ?thesis using that [of False] by simp
next
  case (known x sv1 sv2 y)
  have "w_db (sv_world sv') = w_db (sv_world (clear_deferral env req own conv sv1))"
    using FindByIdempotencyKey_db [OF known(2)] existing_turn_db [OF known(3)] by simp
  then have "starts own conv (TrimSpace key) (w_db (sv_world sv)) (w_db (sv_world sv')) False undefined"
    and same: "sturns sv' = sturns (clear_deferral env req own conv sv1)"
    using known(1) by (simp_all add: starts_def clear_deferral_tables)
  then show ?thesis using FindByIdempotencyKey_row [OF known(2)] known(3,4) by (intro that) (auto dest: existing_turn_fst)
next
  case (stopped e sv1 f sv2)
  then have "starts own conv (TrimSpace key) (w_db (sv_world sv)) (w_db (sv_world sv')) False undefined"
    using FindByIdempotencyKey_db [OF stopped(2)] by (simp add: starts_def clear_deferral_tables)
  then show ?thesis using stopped(3) by (intro that) auto
next
  case (created sv1 f sv2 sv3 input def now err c turn run sv4)
  have st: "starts own conv (TrimSpace key) (w_db (sv_world sv3)) (w_db (sv_world sv4)) (err = None \<and> c) turn"
    using create_artifacts_starts [OF created(4)] by (simp add: queued_turn_def)
  have "w_db (sv_world sv3) = w_db (sv_world (clear_deferral env req own conv sv1))" using created(3) FindByIdempotencyKey_db [OF created(2)] by simp
  then have tabs: "sturns sv3 = sturns sv" "sruns sv3 = sruns sv" "db_messages (w_db (sv_world sv3)) = db_messages (w_db (sv_world sv))"
    using created(1) by (simp_all add: clear_deferral_tables)
  have "starts own conv (TrimSpace key) (w_db (sv_world sv)) (w_db (sv_world sv')) (err = None \<and> c) turn"
    using st unfolding starts_def tabs created(5) .
  then show ?thesis
  proof (rule that)
    fix x rr assume res: "res = Inr (x, rr)"
    show "x \<in> set (sturns sv') \<and> has_key own conv (TrimSpace key) x"
    proof (cases "err = None")
      case True
      then show ?thesis using created(6) res st created(5) by (auto simp: starts_def split: if_splits)
    next
      case False
      then show ?thesis using created(7) res by blast
    qed
  qed
qed

definition keys_unique :: "turn list \<Rightarrow> bool" where
  "keys_unique ts \<longleftrightarrow> (\<forall>own conv key. length (filter (has_key own conv key) ts) \<le> 1)"

lemma keys_unique_eq:
  assumes "keys_unique ts" "x \<in> set ts" "y \<in> set ts" "has_key own conv key x" "has_key own conv key y"
  shows "x = y"
proof -
  have "length (filter (has_key own conv key) ts) \<le> 1" using assms(1) by (simp add: keys_unique_def)
  moreover have "x \<in> set (filter (has_key own conv key) ts)" "y \<in> set (filter (has_key own conv key) ts)" using assms by auto
  ultimately show ?thesis by (cases "filter (has_key own conv key) ts") auto
qed

lemma starts_unique: "starts own conv key d d' made t \<Longrightarrow> keys_unique (db_turns d) \<Longrightarrow> keys_unique (db_turns d')"
  by (auto simp: starts_def keys_unique_def has_key_def filter_empty_conv split: if_splits)

lemma start_turn_idempotent_parts:
  assumes uniq: "keys_unique (sturns sv)"
    and one: "StartTurn env own ag conv key req sv = (Inr (turn, r), sv')"
    and two: "StartTurn env' own ag' conv key req' sv' = (res, sv'')"
  shows "keys_unique (sturns sv'')"
    and "sturns sv'' = sturns sv' \<and> sruns sv'' = sruns sv' \<and> db_messages (w_db (sv_world sv'')) = db_messages (w_db (sv_world sv'))"
    and "res = Inr (turn2, r2) \<Longrightarrow> turn2 = turn"
proof -
  obtain m t where s1: "starts own conv (TrimSpace key) (w_db (sv_world sv)) (w_db (sv_world sv')) m t"
    and r1: "turn \<in> set (sturns sv') \<and> has_key own conv (TrimSpace key) turn" by (rule StartTurn_starts [OF one]) blast
  obtain m' t' where s2: "starts own conv (TrimSpace key) (w_db (sv_world sv')) (w_db (sv_world sv'')) m' t'"
    and r2: "\<And>x rr. res = Inr (x, rr) \<Longrightarrow> x \<in> set (sturns sv'') \<and> has_key own conv (TrimSpace key) x" by (rule StartTurn_starts [OF two]) blast
  have u1: "keys_unique (sturns sv')" by (rule starts_unique [OF s1 uniq])
  show u2: "keys_unique (sturns sv'')" by (rule starts_unique [OF s2 u1])
  show same: "sturns sv'' = sturns sv' \<and> sruns sv'' = sruns sv' \<and> db_messages (w_db (sv_world sv'')) = db_messages (w_db (sv_world sv'))"
    using s2 r1 by (auto simp: starts_def split: if_splits)
  show "turn2 = turn" if "res = Inr (turn2, r2)"
    using keys_unique_eq [OF u1] r1 r2 [OF that] same by metis
qed

text \<open>C12: Starting a turn is idempotent. In every store whose idempotency keys are unique they stay so, whatever fails.
  When a call has returned a turn, no later call with the same key adds a turn, a run or a message, whatever
  its content and whatever statements fail during it; if it returns a turn, it is the same one.\<close>

theorem start_turn_idempotent:
  assumes uniq: "keys_unique (sturns sv)"
    and one: "StartTurn env own ag conv key req sv = (Inr (turn, r), sv')"
    and two: "StartTurn env' own ag' conv key req' sv' = (res, sv'')"
  shows "keys_unique (sturns sv'') \<and>
    sturns sv'' = sturns sv' \<and> sruns sv'' = sruns sv' \<and> db_messages (w_db (sv_world sv'')) = db_messages (w_db (sv_world sv')) \<and>
    (\<forall>turn2 r2. res = Inr (turn2, r2) \<longrightarrow> turn2 = turn)"
  using start_turn_idempotent_parts [OF assms] by blast


definition demo_conversation :: conversation_row where
  "demo_conversation = \<lparr>cv_ID = 1, cv_OwnerID = 1, cv_UpdatedAt = 0, cv_DeletedAt = None, cv_AgentID = Some 1, cv_ProjectID = None,
     cv_AgentMode = ''default'', cv_LastMessageAt = None\<rparr>"

definition demo_start :: service where
  "demo_start = (demo_service [] [] [])\<lparr>sv_world := (ex_world [] [])\<lparr>w_db := (ex_db [] [])\<lparr>db_conversations := [demo_conversation]\<rparr>\<rparr>\<rparr>"

definition demo_request :: "string \<Rightarrow> create_turn_request" where
  "demo_request s = \<lparr>ct_Content = s, ct_ManualCompaction = False, ct_GoalContinuation = False, ct_GoalID = []\<rparr>"

lemma demo_trims: "TrimSpace ''k'' = ''k''" "TrimSpace ''hi'' = ''hi''" "NormalizeMode ''default'' = Some ''default''"
  by code_simp+

lemmas start_defs = StartTurn_def GetConversation_def clear_deferral_def FindByIdempotencyKey_def create_artifacts_def CreateWithArtifacts_def
  createTurnArtifacts_def create_turn_def turn_defaults_def turn_key_taken_def touchConversationLastMessage_def Create_def fresh_id_def
  queued_turn_def queued_run_def user_message_def demo_start_def demo_conversation_def demo_request_def

theorem start_turn_idempotent_witness:
  "\<exists>turn r sv' res sv''. StartTurn (demo_env ex_env) 1 1 1 ''k'' (demo_request ''hi'') demo_start = (Inr (turn, r), sv') \<and>
     StartTurn (demo_env ex_env) 1 1 1 ''k'' (demo_request ''hi'') sv' = (res, sv'') \<and> length (sturns sv') = 1 \<and> sturns sv'' = sturns sv'"
proof -
  have u: "keys_unique (sturns demo_start)" by (simp add: keys_unique_def demo_start_def ex_defs)
  obtain turn r sv' where a: "StartTurn (demo_env ex_env) 1 1 1 ''k'' (demo_request ''hi'') demo_start = (Inr (turn, r), sv')" "length (sturns sv') = 1"
    by (simp add: start_defs demo_defs demo_trims on_world_def svc_Now_def store_defs)
  obtain res sv'' where b: "StartTurn (demo_env ex_env) 1 1 1 ''k'' (demo_request ''hi'') sv' = (res, sv'')"
    by (cases "StartTurn (demo_env ex_env) 1 1 1 ''k'' (demo_request ''hi'') sv'")
  from start_turn_idempotent [OF u a(1) b] a b show ?thesis by blast
qed

end
