(* ===== verification/Cancel_Tree.thy ===== *)
theory Cancel_Tree
  imports Turn_Outcomes
begin

text \<open>
  Cancelling a run cancels the runs below it: the recursion of \<^verbatim>\<open>CancelRun\<close> ends, however deep the delegation is,
  and when it reports no error then no run it has cancelled keeps an active child or an open turn.
\<close>

section \<open>What one call changes\<close>

definition is_active :: "int \<Rightarrow> run list \<Rightarrow> int \<Rightarrow> bool" where
  "is_active own rs j \<longleftrightarrow> (\<exists>r\<in>set rs. rn_ID r = j \<and> rn_OwnerID r = own \<and> IsActiveRunStatus (rn_Status r))"

definition is_child :: "int \<Rightarrow> run list \<Rightarrow> int \<Rightarrow> int \<Rightarrow> bool" where
  "is_child own rs j k \<longleftrightarrow> (\<exists>r\<in>set rs. rn_ID r = k \<and> rn_OwnerID r = own \<and> rn_ParentRunID r = Some j)"

definition has_open_turn :: "int \<Rightarrow> turn list \<Rightarrow> int \<Rightarrow> bool" where
  "has_open_turn own ts j \<longleftrightarrow> (\<exists>t\<in>set ts. tn_OwnerID t = own \<and> tn_RunID t = Some j \<and> turn_open (tn_Status t))"

text \<open>The shape of the forest stays, and nothing becomes active or open again.\<close>

definition cools :: "db \<Rightarrow> db \<Rightarrow> bool" where
  "cools d d' \<longleftrightarrow> map (\<lambda>r. (rn_ID r, rn_OwnerID r, rn_ParentRunID r)) (db_runs d') = map (\<lambda>r. (rn_ID r, rn_OwnerID r, rn_ParentRunID r)) (db_runs d) \<and>
     (\<forall>own j. is_active own (db_runs d') j \<longrightarrow> is_active own (db_runs d) j) \<and>
     (\<forall>own j. has_open_turn own (db_turns d') j \<longrightarrow> has_open_turn own (db_turns d) j)"

abbreviation scools :: "service \<Rightarrow> service \<Rightarrow> bool" where
  "scools sv sv' \<equiv> cools (w_db (sv_world sv)) (w_db (sv_world sv'))"

lemma cools_refl [simp]: "cools d d"
  by (simp add: cools_def)

lemma cools_trans: "cools a b \<Longrightarrow> cools b c \<Longrightarrow> cools a c"
  unfolding cools_def by metis

lemma cools_eq: "d' = d \<Longrightarrow> cools d d'"
  by simp

lemma is_child_shape: "is_child own rs j k \<longleftrightarrow> (k, own, Some j) \<in> set (map (\<lambda>r. (rn_ID r, rn_OwnerID r, rn_ParentRunID r)) rs)"
  by (auto simp: is_child_def)

lemma cools_child: "cools d d' \<Longrightarrow> is_child own (db_runs d') j k = is_child own (db_runs d) j k"
  unfolding is_child_shape cools_def by metis

lemma cancelled_simps [simp]:
  "\<not> turn_open (tn_Status (cancelled_turn now t))" "tn_OwnerID (cancelled_turn now t) = tn_OwnerID t" "tn_RunID (cancelled_turn now t) = tn_RunID t"
  "\<not> IsActiveRunStatus RunStatusCancelled" "rn_ID (cancelled_run now r) = rn_ID r" "rn_OwnerID (cancelled_run now r) = rn_OwnerID r"
  "rn_ParentRunID (cancelled_run now r) = rn_ParentRunID r" "rn_Status (cancelled_run now r) = RunStatusCancelled"
  by (simp_all add: cancelled_turn_def turn_open_def cancelled_run_def IsActiveRunStatus_def)

lemma change_where_gone:
  assumes "x \<in> set (change_where P f rs)" "\<And>r. \<not> P (f r)"
  shows "\<not> P x"
proof -
  obtain r where "x = (if P r then f r else r)" using assms(1) by (auto simp: change_where_set)
  then show ?thesis using assms(2) by (cases "P r") auto
qed

lemma CancelActive_cools:
  assumes "CancelActive env item now w = (res, w')"
  shows "cools (w_db w) (w_db w')" and "res = Inr x \<Longrightarrow> \<not> is_active (rn_OwnerID item) (runs_of w') (rn_ID item)"
    and "res = Inr (True, r) \<Longrightarrow> r = cancelled_run now item"
proof -
  let ?P = "\<lambda>r. rn_ID r = rn_ID item \<and> rn_OwnerID r = rn_OwnerID item \<and> IsActiveRunStatus (rn_Status r)"
  obtain n w1 where u: "Updates env db_runs db_runs_update ?P (cancelled_run now) w = (n, w1)" by (cases "Updates env db_runs db_runs_update ?P (cancelled_run now) w")
  have w1: "w' = w1" using assms u by (auto simp: CancelActive_def split: sum.splits)
  have shape: "cools (w_db w) (w_db w')" if "w_db w' = db_runs_update (change_where ?P (cancelled_run now)) (w_db w)"
    using that by (auto simp: cools_def is_active_def change_where_def split: if_splits)
  show "cools (w_db w) (w_db w')" using Updates_cases(2,3) [OF u] shape w1 by (cases n) (auto intro: cools_eq)
  show "\<not> is_active (rn_OwnerID item) (runs_of w') (rn_ID item)" if r: "res = Inr x"
  proof -
    obtain k where "n = Inr k" using assms u r by (cases n) (auto simp: CancelActive_def)
    then have "runs_of w' = change_where ?P (cancelled_run now) (runs_of w)" using Updates_cases(3) [OF u] w1 by simp
    then show ?thesis using change_where_gone [of _ ?P "cancelled_run now"] unfolding is_active_def by fastforce
  qed
  show "r = cancelled_run now item" if "res = Inr (True, r)" using assms u that by (auto simp: CancelActive_def split: sum.splits if_splits)
qed

lemma CancelByRun_cools:
  assumes "CancelByRun env own i now w = (res, w')"
  shows "cools (w_db w) (w_db w')" and "res = Inr t \<or> res = Inl ErrNoTurnAvailable \<Longrightarrow> \<not> has_open_turn own (turns w') i"
proof -
  let ?P = "\<lambda>t. tn_OwnerID t = own \<and> tn_RunID t = Some i \<and> turn_open (tn_Status t)"
  obtain n w1 where u: "Updates env db_turns db_turns_update ?P (cancelled_turn now) w = (n, w1)" by (cases "Updates env db_turns db_turns_update ?P (cancelled_turn now) w")
  have w1: "w_db w' = w_db w1"
    using assms u by (auto simp: CancelByRun_def FindByRunID_def split: sum.splits if_splits dest: First_core)
  have shape: "cools (w_db w) (w_db w')" if "w_db w' = db_turns_update (change_where ?P (cancelled_turn now)) (w_db w)"
    using that by (auto simp: cools_def has_open_turn_def change_where_def split: if_splits)
  show "cools (w_db w) (w_db w')" using Updates_cases(2,3) [OF u] shape w1 by (cases n) (auto intro: cools_eq)
  show "\<not> has_open_turn own (turns w') i" if r: "res = Inr t \<or> res = Inl ErrNoTurnAvailable"
  proof -
    obtain k where "n = Inr k" using assms u r Updates_cases(2) [OF u] by (cases n) (auto simp: CancelByRun_def)
    then have "turns w' = change_where ?P (cancelled_turn now) (turns w)" using Updates_cases(3) [OF u] w1 by simp
    then show ?thesis using change_where_gone [of _ ?P "cancelled_turn now"] unfolding has_open_turn_def by fastforce
  qed
qed

lemma CancelByRun_runs: "CancelByRun env own i now w = (res, w') \<Longrightarrow> runs_of w' = runs_of w"
  by (auto simp: CancelByRun_def FindByRunID_def Updates_def statement_def split: prod.splits sum.splits option.splits if_splits dest!: First_core)

section \<open>Who was cancelled, and what is below\<close>

text \<open>Every run that has stopped being active, except those given, has no active child and no open turn left.\<close>

definition settled :: "int \<Rightarrow> service \<Rightarrow> service \<Rightarrow> int set \<Rightarrow> bool" where
  "settled own sv sv' X \<longleftrightarrow> (\<forall>j. is_active own (sruns sv) j \<longrightarrow> \<not> is_active own (sruns sv') j \<longrightarrow> j \<notin> X \<longrightarrow>
     (\<forall>k. is_child own (sruns sv') j k \<longrightarrow> \<not> is_active own (sruns sv') k) \<and> \<not> has_open_turn own (sturns sv') j)"

lemma settled_same: "sruns sv' = sruns sv \<Longrightarrow> settled own sv sv' X"
  by (simp add: settled_def)

lemma settled_trans:
  assumes "settled own a b X" "settled own b c X" "scools b c"
  shows "settled own a c X"
  using assms cools_child [OF assms(3)] unfolding settled_def cools_def by metis

abbreviation keyed :: "service \<Rightarrow> bool" where
  "keyed sv \<equiv> distinct (map rn_ID (sruns sv))"

lemma cools_keyed:
  assumes "scools sv sv'" "keyed sv"
  shows "keyed sv'"
proof -
  have ids: "map rn_ID rs = map fst (map (\<lambda>r. (rn_ID r, rn_OwnerID r, rn_ParentRunID r)) rs)" for rs :: "run list" by (simp add: comp_def)
  have "map rn_ID (sruns sv') = map rn_ID (sruns sv)"
    using assms(1) ids [of "sruns sv'"] ids [of "sruns sv"] unfolding cools_def by (simp only:)
  then show ?thesis using assms(2) by (simp only:)
qed

lemma keyed_active: "keyed sv \<Longrightarrow> r \<in> set (sruns sv) \<Longrightarrow> is_active (rn_OwnerID r) (sruns sv) (rn_ID r) = IsActiveRunStatus (rn_Status r)"
  unfolding is_active_def by (metis distinct_key_eq)

lemma FindByID_found:
  "on_world (run_FindByID env own i) sv = (Inr r, sv') \<Longrightarrow> r \<in> set (sruns sv) \<and> rn_ID r = i \<and> rn_OwnerID r = own \<and> w_db (sv_world sv') = w_db (sv_world sv)"
  by (auto simp: run_FindByID_def on_world_eq dest: First_core First_cases(3) [OF _ refl])

lemma FindByID_db: "on_world (run_FindByID env own i) sv = (res, sv') \<Longrightarrow> w_db (sv_world sv') = w_db (sv_world sv)"
  by (auto simp: run_FindByID_def on_world_eq dest: First_core)

lemma CancelActive_others:
  assumes "CancelActive env item now w = (res, w')" "j \<noteq> rn_ID item" "is_active own (runs_of w) j"
  shows "is_active own (runs_of w') j"
proof -
  let ?P = "\<lambda>r. rn_ID r = rn_ID item \<and> rn_OwnerID r = rn_OwnerID item \<and> IsActiveRunStatus (rn_Status r)"
  obtain n w1 where u: "Updates env db_runs db_runs_update ?P (cancelled_run now) w = (n, w1)" by (cases "Updates env db_runs db_runs_update ?P (cancelled_run now) w")
  have "w' = w1" using assms u by (auto simp: CancelActive_def split: sum.splits)
  then have "runs_of w' = runs_of w \<or> runs_of w' = change_where ?P (cancelled_run now) (runs_of w)" using Updates_cases(2,3) [OF u] by (cases n) auto
  moreover obtain r where "r \<in> set (runs_of w)" "rn_ID r = j" "rn_OwnerID r = own" "IsActiveRunStatus (rn_Status r)" using assms(3) by (auto simp: is_active_def)
  ultimately show ?thesis using assms(2) unfolding is_active_def by (auto simp: change_where_set intro!: bexI [of _ r])
qed

lemma filter_one:
  assumes "x \<in> set xs" "distinct (map key xs)" "P x" "\<And>y. P y \<Longrightarrow> key y = key x"
  shows "filter P xs = [x]"
  using assms
proof (induction xs)
  case (Cons a xs)
  show ?case
  proof (cases "a = x")
    case True
    have "\<not> P y" if "y \<in> set xs" for y
    proof
      assume "P y"
      then have "key a \<in> key ` set xs" using Cons.prems(4) True that by (metis image_eqI)
      then show False using Cons.prems(2) by simp
    qed
    then show ?thesis using True Cons.prems(3) by (simp add: filter_empty_conv)
  next
    case False
    then have "x \<in> set xs" using Cons.prems(1) by simp
    moreover have "\<not> P a"
    proof
      assume "P a"
      then have "key a = key x" by (rule Cons.prems(4))
      then show False using Cons.prems(2) calculation by auto
    qed
    moreover have "filter P xs = [x]" by (rule Cons.IH [OF _ _ Cons.prems(3,4)]) (use Cons.prems(2) calculation(1) in simp_all)
    ultimately show ?thesis by simp
  qed
qed simp

lemma CancelActive_hits:
  assumes "CancelActive env item now w = (Inr (False, x), w')" "item \<in> set (runs_of w)" "IsActiveRunStatus (rn_Status item)" "distinct (map rn_ID (runs_of w))"
  shows False
proof -
  let ?P = "\<lambda>r. rn_ID r = rn_ID item \<and> rn_OwnerID r = rn_OwnerID item \<and> IsActiveRunStatus (rn_Status r)"
  have "filter ?P (runs_of w) = [item]" by (rule filter_one [of item "runs_of w" rn_ID ?P]) (use assms(2-4) in auto)
  then show False using assms(1) by (auto simp: CancelActive_def Updates_def statement_def split: option.splits if_splits prod.splits)
qed


section \<open>The recursion\<close>

lemma cancel_this_settled:
  assumes call: "cancel_this env own i sv = (res, sv')" and k: "keyed sv"
  shows "scools sv sv'" and "res = Inl None \<Longrightarrow> settled own sv sv' {} \<and> \<not> is_active own (sruns sv') i"
    and "res = Inr r \<Longrightarrow> settled own sv sv' {i} \<and> rn_ID r = i \<and> \<not> is_active own (sruns sv') i"
proof -
  obtain f sv1 where f: "on_world (run_FindByID (se_db env) own i) sv = (f, sv1)" by (cases "on_world (run_FindByID (se_db env) own i) sv")
  note db1 = FindByID_db [OF f]
  have "scools sv sv' \<and> (res = Inl None \<longrightarrow> settled own sv sv' {} \<and> \<not> is_active own (sruns sv') i) \<and>
    (\<forall>r. res = Inr r \<longrightarrow> settled own sv sv' {i} \<and> rn_ID r = i \<and> \<not> is_active own (sruns sv') i)"
  proof (cases f)
    case (Inl e)
    then show ?thesis using call f db1 by (auto simp: cancel_this_def)
  next
    case found: (Inr run)
    have run: "run \<in> set (sruns sv)" "rn_ID run = i" "rn_OwnerID run = own" using FindByID_found f found by auto
    show ?thesis
    proof (cases "IsActiveRunStatus (rn_Status run)")
      case False
      then have "res = (if rn_Status run \<noteq> RunStatusCancelled then Inl None else Inr run)" "sv' = sv1" using call f found by (auto simp: cancel_this_def split: if_splits)
      moreover have "\<not> is_active own (sruns sv) i" using keyed_active [OF k run(1)] False run by simp
      ultimately show ?thesis using db1 run(2) settled_same [of sv' sv own] by auto
    next
      case True
      obtain now sv2 where now: "svc_Now env sv1 = (now, sv2)" by (cases "svc_Now env sv1")
      obtain c w where c: "CancelActive (se_db env) run now (sv_world sv2) = (c, w)" by (cases "CancelActive (se_db env) run now (sv_world sv2)")
      have db2: "w_db (sv_world sv2) = w_db (sv_world sv)" using svc_Now_eq [OF now] db1 by simp
      note co = CancelActive_cools [OF c] and others = CancelActive_others [OF c]
      show ?thesis
      proof (cases c)
        case (Inl e)
        then show ?thesis using call f found True now c co(1) db2 by (auto simp: cancel_this_def on_world_def)
      next
        case (Inr p)
        obtain b r where p: "p = (b, r)" by (cases p)
        have "b" using CancelActive_hits [of "se_db env" run now "sv_world sv2" r w] c Inr p run(1) True k db2 by auto
        then have r: "r = cancelled_run now run" "res = Inr r" "sv' = sv2\<lparr>sv_world := w\<rparr>"
          using call f found True now c Inr p co(3) by (auto simp: cancel_this_def on_world_def)
        have na: "\<not> is_active own (sruns sv') i" using co(2) [OF Inr] run r by simp
        have "settled own sv sv' {i}" using others run db2 r(3) unfolding settled_def by auto
        then show ?thesis using na r co(1) db2 run by simp
      qed
    qed
  qed
  then show "scools sv sv'" "res = Inl None \<Longrightarrow> settled own sv sv' {} \<and> \<not> is_active own (sruns sv') i"
    "res = Inr r \<Longrightarrow> settled own sv sv' {i} \<and> rn_ID r = i \<and> \<not> is_active own (sruns sv') i" by auto
qed

lemma cancel_own_turn_settled:
  assumes "cancel_own_turn env own run err sv = (ans, sv')"
  shows "scools sv sv'" and "ans = None \<Longrightarrow> err = None \<and> \<not> has_open_turn own (sturns sv') (rn_ID run)" and "sruns sv' = sruns sv"
proof -
  obtain now sv1 where now: "svc_Now env sv = (now, sv1)" by (cases "svc_Now env sv")
  let ?at = "case rn_FinishedAt run of None \<Rightarrow> now | Some f \<Rightarrow> f"
  obtain c w where c: "CancelByRun (se_db env) own (rn_ID run) ?at (sv_world sv1) = (c, w)" by (cases "CancelByRun (se_db env) own (rn_ID run) ?at (sv_world sv1)")
  have w: "sv_world sv' = w" using assms now c by (cases c) (auto simp: cancel_own_turn_def on_world_def)
  note db1 = svc_Now_eq [OF now]
  show "scools sv sv'" using CancelByRun_cools(1) [OF c] w db1 by simp
  show "sruns sv' = sruns sv" using CancelByRun_runs [OF c] w db1 by simp
  show "err = None \<and> \<not> has_open_turn own (sturns sv') (rn_ID run)" if a: "ans = None"
  proof -
    have "err = None \<and> (c = Inl ErrNoTurnAvailable \<or> (\<exists>t. c = Inr t))"
      using assms now c a by (cases c) (auto simp: cancel_own_turn_def on_world_def join_errors_def split: if_splits)
    then show ?thesis using CancelByRun_cools(2) [OF c] w by auto
  qed
qed


lemma CancelRun_settled:
  shows "CancelRun n env own i sv = Some (ans, sv') \<Longrightarrow> keyed sv \<Longrightarrow>
      scools sv sv' \<and> (ans = None \<longrightarrow> settled own sv sv' {} \<and> \<not> is_active own (sruns sv') i)"
    and "cancel_children n env own cs err sv = Some (ans, sv') \<Longrightarrow> keyed sv \<Longrightarrow>
      scools sv sv' \<and> (ans = None \<longrightarrow> err = None \<and> settled own sv sv' {} \<and>
        (\<forall>c\<in>set cs. IsActiveRunStatus (rn_Status c) \<longrightarrow> \<not> is_active own (sruns sv') (rn_ID c)))"
proof (induction n env own i sv and n env own cs err sv arbitrary: ans sv' and ans sv' rule: CancelRun_cancel_children.induct)
  case (1 env own i sv)
  then show ?case by simp
next
  case (2 n env own i sv)
  obtain res sv1 where th: "cancel_this env own i sv = (res, sv1)" by (cases "cancel_this env own i sv")
  note ct = cancel_this_settled [OF th 2(3)]
  show ?case
  proof (cases res)
    case (Inl a)
    then show ?thesis using 2(2) th ct by auto
  next
    case run: (Inr run)
    obtain l sv2 where l: "on_world (ListByParent (se_db env) own i) sv1 = (l, sv2)" by (cases "on_world (ListByParent (se_db env) own i) sv1")
    then obtain w where w: "Find (se_db env) db_runs (\<lambda>r. rn_OwnerID r = own \<and> rn_ParentRunID r = Some i) (sv_world sv1) = (l, w)" "sv2 = sv1\<lparr>sv_world := w\<rparr>"
      by (auto simp: ListByParent_def on_world_eq)
    have db2: "w_db (sv_world sv2) = w_db (sv_world sv1)" using Find_cases(1) [OF w(1)] w(2) by simp
    show ?thesis
    proof (cases l)
      case (Inl e)
      define err where "err = Some (''list child runs for '' @ itoa i @ '': '' @ se_text env e)"
      have o: "cancel_own_turn env own run err sv2 = (ans, sv')" using 2(2) th run l Inl by (simp add: err_def)
      show ?thesis using cancel_own_turn_settled(1,2) [OF o] ct(1) db2 cools_trans by (auto simp: err_def)
    next
      case children: (Inr cs)
      have cs: "cs = filter (\<lambda>r. rn_OwnerID r = own \<and> rn_ParentRunID r = Some i) (sruns sv2)" using Find_cases(2) [OF w(1) children] db2 by simp
      obtain err sv3 where cc: "cancel_children n env own cs None sv2 = Some (err, sv3)" and o: "cancel_own_turn env own run err sv3 = (ans, sv')"
        using 2(2) th run l children by (auto split: option.splits)
      have k2: "keyed sv2" using cools_keyed [OF ct(1) 2(3)] db2 by simp
      note IH = 2(1) [OF th [symmetric] run l [symmetric] children cc k2]
      note ow = cancel_own_turn_settled [OF o]
      have co: "scools sv sv3" "scools sv3 sv'" "scools sv2 sv3" using IH ow(1) ct(1) db2 cools_trans by auto
      show ?thesis
      proof (intro conjI impI)
        show "scools sv sv'" by (rule cools_trans [OF co(1,2)])
        assume a: "ans = None"
        then have err: "err = None" "\<not> has_open_turn own (sturns sv') i" using ow(2) ct(3) [OF run] by auto
        have na: "\<not> is_active own (sruns sv') i" using ct(3) [OF run] co db2 ow(3) unfolding cools_def by metis
        then show "\<not> is_active own (sruns sv') i" .
        have kids: "\<not> is_active own (sruns sv') k" if ch: "is_child own (sruns sv') i k" for k
        proof
          assume act: "is_active own (sruns sv') k"
          then have "is_active own (sruns sv2) k" using co ow(3) unfolding cools_def by metis
          then obtain x where x: "x \<in> set (sruns sv2)" "rn_ID x = k" "rn_OwnerID x = own" "IsActiveRunStatus (rn_Status x)" by (auto simp: is_active_def)
          have "is_child own (sruns sv2) i k" using ch cools_child [OF co(3)] ow(3) by simp
          then obtain y where y: "y \<in> set (sruns sv2)" "rn_ID y = k" "rn_ParentRunID y = Some i" by (auto simp: is_child_def)
          have "x = y" by (rule distinct_key_eq [OF k2 x(1) y(1)]) (simp add: x(2) y(2))
          then have "x \<in> set cs" using x y cs by simp
          then show False using IH err(1) x act ow(3) by auto
        qed
        have "settled own sv sv3 {i}" by (rule settled_trans [of own sv sv2 "{i}"]) (use ct(3) [OF run] IH err(1) co(3) db2 in \<open>auto simp: settled_def\<close>)
        then have "settled own sv sv' {i}" by (rule settled_trans [OF _ settled_same [OF ow(3)] co(2)])
        then show "settled own sv sv' {}" using kids err(2) unfolding settled_def by auto
      qed
    qed
  qed
next
  case (3 n env own err sv)
  then show ?case by (simp add: settled_same)
next
  case (4 n env own c cs err sv)
  show ?case
  proof (cases "IsActiveRunStatus (rn_Status c)")
    case False
    then show ?thesis using 4 by simp
  next
    case True
    obtain a sv1 where one: "CancelRun n env own (rn_ID c) sv = Some (a, sv1)" using 4(5) True by (cases "CancelRun n env own (rn_ID c) sv") auto
    have h1: "scools sv sv1 \<and> (a = None \<longrightarrow> settled own sv sv1 {} \<and> \<not> is_active own (sruns sv1) (rn_ID c))" using 4(2) True one 4(6) by blast
    have k1: "keyed sv1" using cools_keyed h1 4(6) by blast
    show ?thesis
    proof (cases a)
      case None
      then have rest: "cancel_children n env own cs err sv1 = Some (ans, sv')" using 4(5) True one by simp
      have h2: "scools sv1 sv' \<and> (ans = None \<longrightarrow> err = None \<and> settled own sv1 sv' {} \<and>
          (\<forall>c\<in>set cs. IsActiveRunStatus (rn_Status c) \<longrightarrow> \<not> is_active own (sruns sv') (rn_ID c)))"
        using 4(3) True one None rest k1 by blast
      have "settled own sv sv' {} \<and> \<not> is_active own (sruns sv') (rn_ID c)" if "ans = None"
        using h1 h2 None that settled_trans [of own sv sv1 "{}" sv'] unfolding cools_def by blast
      then show ?thesis using h1 h2 None cools_trans by auto
    next
      case (Some e)
      then have rest: "cancel_children n env own cs (join_errors err (''cancel child run '' @ itoa (rn_ID c) @ '': '' @ e)) sv1 = Some (ans, sv')"
        using 4(5) True one by simp
      have "scools sv1 sv' \<and> (ans = None \<longrightarrow> join_errors err (''cancel child run '' @ itoa (rn_ID c) @ '': '' @ e) = None)"
        using 4(4) True one Some rest k1 by blast
      then show ?thesis using h1 cools_trans by (auto simp: join_errors_def)
    qed
  qed
qed


section \<open>The recursion ends\<close>

text \<open>A run is created after its parent, so its id is larger.\<close>

definition ordered :: "run list \<Rightarrow> bool" where
  "ordered rs \<longleftrightarrow> (\<forall>r\<in>set rs. \<forall>p. rn_ParentRunID r = Some p \<longrightarrow> p < rn_ID r)"

definition above :: "run list \<Rightarrow> int \<Rightarrow> nat" where
  "above rs i = length (filter (\<lambda>r. i < rn_ID r) rs)"

lemma cools_shape:
  assumes "scools sv sv'"
  shows "ordered (sruns sv') = ordered (sruns sv)" and "above (sruns sv') i = above (sruns sv) i"
proof -
  let ?f = "\<lambda>r. (rn_ID r, rn_OwnerID r, rn_ParentRunID r)"
  have m: "map ?f (sruns sv') = map ?f (sruns sv)" using assms by (simp add: cools_def)
  have o: "ordered rs = (\<forall>x\<in>set (map ?f rs). \<forall>p. snd (snd x) = Some p \<longrightarrow> p < fst x)" for rs by (auto simp: ordered_def)
  show "ordered (sruns sv') = ordered (sruns sv)" unfolding o m ..
  have a: "above rs i = length (filter (\<lambda>x. i < fst x) (map ?f rs))" for rs by (simp add: above_def filter_map comp_def)
  show "above (sruns sv') i = above (sruns sv) i" unfolding a m ..
qed

lemma above_less:
  assumes "c \<in> set rs" "i < rn_ID c"
  shows "above rs (rn_ID c) < above rs i"
proof -
  have "filter (\<lambda>r. rn_ID c < rn_ID r) rs = filter (\<lambda>r. rn_ID c < rn_ID r) (filter (\<lambda>r. i < rn_ID r) rs)"
    using assms(2) by (auto intro!: filter_cong)
  moreover have "c \<in> set (filter (\<lambda>r. i < rn_ID r) rs)" using assms by simp
  ultimately show ?thesis unfolding above_def using length_filter_less [of c "filter (\<lambda>r. i < rn_ID r) rs" "\<lambda>r. rn_ID c < rn_ID r"] by simp
qed

lemma CancelRun_ends:
  shows "keyed sv \<Longrightarrow> ordered (sruns sv) \<Longrightarrow> above (sruns sv) i < n \<Longrightarrow> CancelRun n env own i sv \<noteq> None"
    and "keyed sv \<Longrightarrow> ordered (sruns sv) \<Longrightarrow> \<forall>c\<in>set cs. above (sruns sv) (rn_ID c) < n \<Longrightarrow> cancel_children n env own cs err sv \<noteq> None"
proof (induction n env own i sv and n env own cs err sv rule: CancelRun_cancel_children.induct)
  case (2 n env own i sv)
  obtain res sv1 where th: "cancel_this env own i sv = (res, sv1)" by (cases "cancel_this env own i sv")
  show ?case
  proof (cases res)
    case run: (Inr run)
    obtain l sv2 where l: "on_world (ListByParent (se_db env) own i) sv1 = (l, sv2)" by (cases "on_world (ListByParent (se_db env) own i) sv1")
    then obtain w where w: "Find (se_db env) db_runs (\<lambda>r. rn_OwnerID r = own \<and> rn_ParentRunID r = Some i) (sv_world sv1) = (l, w)" "sv2 = sv1\<lparr>sv_world := w\<rparr>"
      by (auto simp: ListByParent_def on_world_eq)
    have co: "scools sv sv2" using Find_cases(1) [OF w(1)] w(2) cancel_this_settled(1) [OF th 2(2)] by simp
    show ?thesis
    proof (cases l)
      case (Inr cs)
      have "above (sruns sv2) (rn_ID c) < n" if "c \<in> set cs" for c
      proof -
        have c: "c \<in> set (sruns sv2)" "rn_ParentRunID c = Some i" using that Find_cases(2) [OF w(1) Inr] Find_cases(1) [OF w(1)] w(2) by auto
        then have "i < rn_ID c" using 2(3) cools_shape(1) [OF co] by (auto simp: ordered_def)
        from above_less [OF c(1) this] show ?thesis using 2(4) cools_shape(2) [OF co] by simp
      qed
      then have "cancel_children n env own cs None sv2 \<noteq> None"
        using 2(1) [OF th [symmetric] run l [symmetric] Inr] cools_keyed [OF co 2(2)] cools_shape(1) [OF co] 2(3) by simp
      then show ?thesis using th run l Inr by auto
    qed (use th run l in simp)
  qed (use th in simp)
next
  case (4 n env own c cs err sv)
  show ?case
  proof (cases "IsActiveRunStatus (rn_Status c)")
    case False
    then show ?thesis using 4 by simp
  next
    case True
    have "CancelRun n env own (rn_ID c) sv \<noteq> None" using 4(2) True 4(5-7) by simp
    then obtain a sv1 where one: "CancelRun n env own (rn_ID c) sv = Some (a, sv1)" by auto
    have co: "scools sv sv1" using CancelRun_settled(1) [OF one 4(5)] by simp
    have hyp: "keyed sv1" "ordered (sruns sv1)" "\<forall>c\<in>set cs. above (sruns sv1) (rn_ID c) < n"
      using cools_keyed [OF co 4(5)] cools_shape [OF co] 4(6,7) by simp_all
    show ?thesis
    proof (cases a)
      case None
      then show ?thesis using 4(3) True one hyp by simp
    next
      case (Some e)
      then show ?thesis using 4(4) True one hyp by simp
    qed
  qed
qed simp_all

text \<open>C13: Cancelling a run reaches everything below it. For every store in which runs have ids larger than those of
  their parents, and whatever statements fail, the recursion ends within as many levels as there are later
  runs. When it reports no error, the run is not active any more, and every run that has stopped being active
  has no active child and no open turn; nothing has become active or open.\<close>

theorem cancel_reaches_subtree:
  assumes "keyed sv" "ordered (sruns sv)" "above (sruns sv) i < n"
  shows "\<exists>ans sv'. CancelRun n env own i sv = Some (ans, sv') \<and> scools sv sv' \<and>
     (ans = None \<longrightarrow> \<not> is_active own (sruns sv') i \<and>
        (\<forall>j. is_active own (sruns sv) j \<and> \<not> is_active own (sruns sv') j \<longrightarrow>
           (\<forall>k. is_child own (sruns sv') j k \<longrightarrow> \<not> is_active own (sruns sv') k) \<and> \<not> has_open_turn own (sturns sv') j))"
proof -
  obtain ans sv' where c: "CancelRun n env own i sv = Some (ans, sv')" using CancelRun_ends(1) [OF assms, of env own] by auto
  from CancelRun_settled(1) [OF c assms(1)] c show ?thesis unfolding settled_def by blast
qed

theorem cancel_reaches_subtree_witness:
  "let child = ex_run\<lparr>rn_ID := 5, rn_ParentRunID := Some 2, rn_RunType := RunTypeSubagent\<rparr>;
       sv = demo_service [demo_turn] [ex_run, child] [] in
   \<exists>ans sv'. CancelRun 2 (demo_env ex_env) 1 2 sv = Some (ans, sv') \<and> ans = None \<and> \<not> is_active 1 (sruns sv') 2 \<and> \<not> is_active 1 (sruns sv') 5 \<and>
     \<not> has_open_turn 1 (sturns sv') 2"
proof -
  let ?c = "ex_run\<lparr>rn_ID := 5, rn_ParentRunID := Some 2, rn_RunType := RunTypeSubagent\<rparr>"
  let ?sv = "demo_service [demo_turn] [ex_run, ?c] []"
  have "keyed ?sv" "ordered (sruns ?sv)" "above (sruns ?sv) 2 < 2" by (simp_all add: demo_defs ordered_def above_def)
  from cancel_reaches_subtree [OF this, of "demo_env ex_env" 1] obtain ans sv' where
    c: "CancelRun 2 (demo_env ex_env) 1 2 ?sv = Some (ans, sv')" "scools ?sv sv'"
    "ans = None \<longrightarrow> \<not> is_active 1 (sruns sv') 2 \<and>
        (\<forall>j. is_active 1 (sruns ?sv) j \<and> \<not> is_active 1 (sruns sv') j \<longrightarrow>
           (\<forall>k. is_child 1 (sruns sv') j k \<longrightarrow> \<not> is_active 1 (sruns sv') k) \<and> \<not> has_open_turn 1 (sturns sv') j)" by blast
  have "map_option fst (CancelRun 2 (demo_env ex_env) 1 2 ?sv) = Some None"
    by (simp add: numeral_2_eq_2 cancel_this_def run_FindByID_def on_world_def svc_Now_def ListByParent_def CancelActive_def cancel_own_turn_def
        CancelByRun_def FindByRunID_def demo_defs store_defs IsActiveRunStatus_def cancelled_run_def cancelled_turn_def turn_open_def publishSnapshot_def)
  then have a: "ans = None" using c(1) by simp
  have "is_active 1 (sruns ?sv) 2" "is_child 1 (sruns ?sv) 2 5" by (auto simp: is_active_def is_child_def demo_defs IsActiveRunStatus_def)
  then show ?thesis using c a cools_child [OF c(2), of 1 2 5] unfolding Let_def by blast
qed

end
