(* ===== verification/Turn_Faults.thy ===== *)
theory Turn_Faults
  imports Turn_Start Cancel_Tree
begin

text \<open>
  What keeps a lease alive, and three states that the worker can leave behind and should not: a turn that nobody
  can claim after its run was resumed, a turn that has failed with a run that has succeeded, and a
  resumption that was to be tried again and is ended instead.
\<close>

section \<open>The heartbeat\<close>

lemma heartbeat_rows:
  assumes "quiet (se_db env)" and "until = clock_reading (se_db env) (w_readings (sv_world sv)) + effectiveLeaseDuration d"
  obtains sv' now where "heartbeat_tick env d i tok sv = (length (filter (\<lambda>t. tn_ID t = i \<and> tn_LeaseToken t = tok \<and> tn_Status t = TurnStatusRunning) (sturns sv)) \<noteq> 1, sv')"
    "sturns sv' = change_where (\<lambda>t. tn_ID t = i \<and> tn_LeaseToken t = tok \<and> tn_Status t = TurnStatusRunning)
       (\<lambda>t. t\<lparr>tn_LeaseExpiresAt := Some until, tn_LastHeartbeatAt := Some now, tn_UpdatedAt := now\<rparr>) (sturns sv)"
  using assms by (simp add: heartbeat_tick_def svc_Now_def on_world_def Now_def RenewLease_def Updates_def statement_def)

text \<open>A tick renews the lease of a turn that is still held, so that it does not expire before its time, and stops the
  execution of a turn that is not.\<close>

lemma heartbeat_keeps_lease:
  assumes q: "quiet (se_db env)" and k: "distinct (map tn_ID (sturns sv))"
  shows "t \<in> set (sturns sv) \<Longrightarrow> tn_ID t = i \<Longrightarrow> tn_LeaseToken t = tok \<Longrightarrow> tn_Status t = TurnStatusRunning \<Longrightarrow>
      \<exists>sv'. heartbeat_tick env d i tok sv = (False, sv') \<and> (\<exists>u\<in>set (sturns sv'). tn_ID u = i \<and> tn_LeaseToken u = tok \<and>
        (\<forall>now \<le> clock_reading (se_db env) (w_readings (sv_world sv)) + effectiveLeaseDuration d. \<not> expired_at now u))"
    and "\<forall>t\<in>set (sturns sv). \<not> (tn_ID t = i \<and> tn_LeaseToken t = tok \<and> tn_Status t = TurnStatusRunning) \<Longrightarrow> fst (heartbeat_tick env d i tok sv)"
proof -
  let ?P = "\<lambda>t. tn_ID t = i \<and> tn_LeaseToken t = tok \<and> tn_Status t = TurnStatusRunning"
  let ?u = "clock_reading (se_db env) (w_readings (sv_world sv)) + effectiveLeaseDuration d"
  obtain sv' now where h: "heartbeat_tick env d i tok sv = (length (filter ?P (sturns sv)) \<noteq> 1, sv')"
    "sturns sv' = change_where ?P (\<lambda>t. t\<lparr>tn_LeaseExpiresAt := Some ?u, tn_LastHeartbeatAt := Some now, tn_UpdatedAt := now\<rparr>) (sturns sv)"
    by (rule heartbeat_rows [OF q refl])
  show "\<exists>sv'. heartbeat_tick env d i tok sv = (False, sv') \<and> (\<exists>u\<in>set (sturns sv'). tn_ID u = i \<and> tn_LeaseToken u = tok \<and> (\<forall>now \<le> ?u. \<not> expired_at now u))"
    if t: "t \<in> set (sturns sv)" "tn_ID t = i" "tn_LeaseToken t = tok" "tn_Status t = TurnStatusRunning"
  proof -
    have "filter ?P (sturns sv) = [t]" by (rule filter_one [of t "sturns sv" tn_ID ?P]) (use t k in auto)
    then have "heartbeat_tick env d i tok sv = (False, sv')" using h(1) by simp
    moreover define v where "v = t\<lparr>tn_LeaseExpiresAt := Some ?u, tn_LastHeartbeatAt := Some now, tn_UpdatedAt := now\<rparr>"
    have "v \<in> set (sturns sv')" using t by (auto simp: h(2) change_where_set v_def intro!: bexI [of _ t])
    moreover have "tn_ID v = i \<and> tn_LeaseToken v = tok \<and> (\<forall>now \<le> ?u. \<not> expired_at now v)" using t by (simp add: v_def expired_at_def)
    ultimately show ?thesis by blast
  qed
  show "fst (heartbeat_tick env d i tok sv)" if "\<forall>t\<in>set (sturns sv). \<not> ?P t" using h(1) that by (simp add: filter_empty_conv)
qed

section \<open>A resumed turn without attempts\<close>

lemma queueResumeTurn_rows:
  assumes "queueResumeTurn env run input now w = ((None, u), w')" and t: "t \<in> set (turns w)" "tn_OwnerID t = rn_OwnerID run" "tn_RunID t = Some (rn_ID run)"
    "tn_Status t = TurnStatusPaused \<or> tn_Status t = TurnStatusWaitingHuman"
  shows "requeued_turn input now t \<in> set (turns w')" and "runs_of w' = runs_of w"
proof -
  let ?P = "\<lambda>t. tn_OwnerID t = rn_OwnerID run \<and> tn_RunID t = Some (rn_ID run) \<and> (tn_Status t = TurnStatusPaused \<or> tn_Status t = TurnStatusWaitingHuman)"
  from assms(1) obtain n w1 where up: "Updates env db_turns db_turns_update ?P (requeued_turn input now) w = (Inr n, w1)"
    and rest: "(if n \<noteq> 1 then
             if rn_RunType run \<noteq> RunTypeSubagent then ((Some ErrInvalidData, ()), w1)
             else try_db (create_turn env (resume_turn run input now) w1) () (\<lambda>_ w. ((None, ()), w))
           else ((None, ()), w1)) = ((None, u), w')"
    unfolding queueResumeTurn_def by (auto split: if_splits elim!: try_db_ok)
  have "requeued_turn input now t \<in> set (turns w1)" "runs_of w1 = runs_of w"
    using Updates_cases(3) [OF up refl] t by (auto simp: change_where_set intro!: bexI [of _ t])
  moreover have "set (turns w1) \<subseteq> set (turns w') \<and> runs_of w' = runs_of w1"
    using rest by (auto split: if_splits elim!: try_db_ok simp: create_turn_def dest!: Create_cases(3) [OF _ refl])
  ultimately show "requeued_turn input now t \<in> set (turns w')" and "runs_of w' = runs_of w" by auto
qed

text \<open>C40: A turn that has used its attempts can be resumed, and then hangs. Resuming a run puts its turn back into the
  queue but keeps the count of attempts, and a claim needs an attempt left. So when the turn of a paused run
  has as many attempts behind it as it may have, a successful resumption leaves the turn queued and the run
  resuming, and no worker ever claims the turn, at no time.\<close>

theorem resumed_without_attempts:
  assumes call: "ClaimResume env own i input w = ((None, u), w')"
    and t: "t \<in> set (turns w)" "tn_OwnerID t = own" "tn_RunID t = Some i" "tn_Status t = TurnStatusPaused \<or> tn_Status t = TurnStatusWaitingHuman"
    and used: "tn_MaxAttempts t \<le> tn_AttemptCount t"
  shows "\<exists>t'\<in>set (turns w'). \<exists>r\<in>set (runs_of w'). tn_ID t' = tn_ID t \<and> tn_Status t' = TurnStatusQueued \<and> (\<forall>now. \<not> claimable now t') \<and>
     rn_ID r = i \<and> rn_OwnerID r = own \<and> rn_Status r = RunStatusResuming"
proof -
  from call obtain w1 where b: "try_db (run_FindByID env own i w) () (\<lambda>run w.
       if \<not> run_waits run then ((Some ErrInvalidData, ()), w)
       else case Now env w of (now, w) \<Rightarrow>
         try_db (mark_resuming env own i now w) () (\<lambda>rowsAffected w.
         if rowsAffected \<noteq> 1 then ((Some ErrInvalidData, ()), w)
         else case Now env w of (now, w) \<Rightarrow> queueResumeTurn env run input now w)) = ((None, u), w1)" and w1: "w_db w' = w_db w1"
    unfolding ClaimResume_def by (auto elim!: transaction_ok)
  then obtain run w2 where f: "run_FindByID env own i w = (Inr run, w2)" and rest: "(if \<not> run_waits run then ((Some ErrInvalidData, ()), w2)
       else case Now env w2 of (now, w) \<Rightarrow>
         try_db (mark_resuming env own i now w) () (\<lambda>rowsAffected w.
         if rowsAffected \<noteq> 1 then ((Some ErrInvalidData, ()), w)
         else case Now env w of (now, w) \<Rightarrow> queueResumeTurn env run input now w)) = ((None, u), w1)" by (elim try_db_ok) auto
  have run: "run \<in> set (runs_of w)" "rn_ID run = i" "rn_OwnerID run = own" "w_db w2 = w_db w"
    using First_cases [OF f [unfolded run_FindByID_def]] by auto
  have waits: "run_waits run" using rest by (auto split: if_splits)
  obtain now w3 where now: "Now env w2 = (now, w3)" by (cases "Now env w2")
  from rest waits now obtain n w4 where m: "mark_resuming env own i now w3 = (Inr n, w4)"
    and q: "(case Now env w4 of (now, w) \<Rightarrow> queueResumeTurn env run input now w) = ((None, u), w1)"
    by (auto elim!: try_db_ok split: if_splits)
  obtain now' w5 where now': "Now env w4 = (now', w5)" by (cases "Now env w4")
  then have q: "queueResumeTurn env run input now' w5 = ((None, u), w1)" using q by simp
  note up = Updates_cases(3) [OF m [unfolded mark_resuming_def] refl]
  let ?r = "run\<lparr>rn_Status := RunStatusResuming, rn_UpdatedAt := now\<rparr>"
  have r4: "?r \<in> set (runs_of w5)" using up run waits Now_eq [OF now] Now_eq [OF now'] by (auto simp: change_where_set intro!: bexI [of _ run])
  have t5: "t \<in> set (turns w5)" using t(1) up run(4) Now_eq [OF now] Now_eq [OF now'] by simp
  have tr: "tn_OwnerID t = rn_OwnerID run" "tn_RunID t = Some (rn_ID run)" using t(2,3) run(2,3) by simp_all
  have "requeued_turn input now' t \<in> set (turns w')" "?r \<in> set (runs_of w')"
    using queueResumeTurn_rows [OF q t5 tr t(4)] r4 w1 by simp_all
  then show ?thesis
    using used run by (intro bexI [of _ "requeued_turn input now' t"] bexI [of _ ?r]) (simp_all add: requeued_turn_def claimable_def)
qed

theorem resumed_without_attempts_witness:
  "let t = ex_turn\<lparr>tn_Status := TurnStatusPaused, tn_AttemptCount := 3\<rparr>; w = ex_world [t] [ex_run\<lparr>rn_Status := RunStatusPaused\<rparr>] in
   \<exists>u w'. ClaimResume ex_env 1 2 ''{}'' w = ((None, u), w') \<and> (\<exists>t'\<in>set (turns w'). tn_Status t' = TurnStatusQueued \<and> (\<forall>now. \<not> claimable now t'))"
proof -
  let ?t = "ex_turn\<lparr>tn_Status := TurnStatusPaused, tn_AttemptCount := 3\<rparr>"
  let ?w = "ex_world [?t] [ex_run\<lparr>rn_Status := RunStatusPaused\<rparr>]"
  obtain u w' where c: "ClaimResume ex_env 1 2 ''{}'' ?w = ((None, u), w')"
    by (simp add: ClaimResume_def run_FindByID_def run_waits_def mark_resuming_def queueResumeTurn_def requeued_turn_def ex_defs store_defs)
  from resumed_without_attempts [OF c, of ?t] have "\<exists>t'\<in>set (turns w'). tn_Status t' = TurnStatusQueued \<and> (\<forall>now. \<not> claimable now t')"
    by (auto simp: ex_defs)
  then show ?thesis using c unfolding Let_def by blast
qed

section \<open>A finished run with a failed turn\<close>

text \<open>When a statement of the final transaction fails, the worker ends the turn as failed. But the run it passes on is already
  succeeded in memory, and so is stored as succeeded, with the message that it cannot fail.\<close>

lemma completed_turn_marked_failed:
  "\<exists>turn' run' sv' t r. completeTurn (\<lambda>_ _ _ _. []) (demo_env (ex_env\<lparr>statement_fails := \<lambda>n. if n = 6 then Some ''deadlock'' else None\<rparr>))
       demo_turn ex_run (Some (no_output\<lparr>ro_final_answer := ''42''\<rparr>)) (demo_service [demo_turn] [ex_run] []) = (turn', run', sv') \<and>
     sturns sv' = [t] \<and> sruns sv' = [r] \<and> tn_Status t = TurnStatusFailed \<and> tn_ErrorMessage t = ''deadlock'' \<and>
     rn_Status r = RunStatusSucceeded \<and> rn_ErrorMessage r = transition_error RunStatusSucceeded RunStatusFailed \<and> db_messages (w_db (sv_world sv')) = []"
  by (simp add: completeTurn_def accountGoalRun_def worker_defs demo_defs store_defs no_output_def plain_def finish_turn_def finish_with_def existing_message_def
      finished_run_def CompleteWithMessage_def insert_answer_def Create_def fresh_id_def touchConversationLastMessage_def assistant_message_def
      manual_compaction_def decodeInputJSON_def)


section \<open>A resumption that is not tried again\<close>

definition demo_runtime :: runtime_env where
  "demo_runtime = \<lparr>rt_definition_error = \<lambda>_. None, rt_checkpoint_error = \<lambda>_. None, rt_workspace_service = False, rt_workspaces = False, rt_prepare = \<lambda>_ _ _ sv. (Inr 0, sv),
     rt_resolve = \<lambda>_ sv. (None, sv), rt_execute = \<lambda>_ _ sv. (Inl (plain ''unreachable''), sv),
     rt_resume = \<lambda>_ _ _ _ sv. (Inl (plain ''unreachable''), sv), rt_prompt = \<lambda>_ _ _ _. []\<rparr>"

definition demo_world :: "run \<Rightarrow> service" where
  "demo_world run = (demo_service [demo_turn] [run] [])\<lparr>sv_world := (ex_world [demo_turn] [run])\<lparr>w_db := (ex_db [demo_turn] [run])
     \<lparr>db_conversations := [demo_conversation], db_checkpoints := [\<lparr>cp_ID = 9, cp_OwnerID = 1, cp_CreatedAt = 0, cp_RunID = 2, cp_CheckpointJSON = ''{}''\<rparr>]\<rparr>\<rparr>\<rparr>"

lemma demo_inputs: "TrimSpace ''h'' = ''h''" "TrimSpace ''{}'' = ''{}''"
  by code_simp+

lemmas execute_defs = execute_def resume_claimed_def resumeRun_def resume_checks_def resume_mismatch_def resume_decision_def save_resuming_def
  FindLatestCheckpointByRun_def Last_first_def run_turn_def prepare_workspace_def decodeInputJSON_def demo_runtime_def demo_world_def
  demo_conversation_def demo_inputs

text \<open>The same error of the runtime, at the first of three attempts and before any tool call: a started run waits for
  another attempt, a resumed one has failed, after its turn had been put back already.\<close>

lemma started_run_retried:
  "\<exists>turn' run' sv' t r. execute demo_runtime (demo_env ex_env) demo_turn (demo_world (ex_run\<lparr>rn_Status := RunStatusQueued\<rparr>)) = (turn', run', sv') \<and>
     sturns sv' = [t] \<and> sruns sv' = [r] \<and> tn_Status t = TurnStatusRetryWait \<and> rn_Status r = RunStatusQueued"
  by (simp add: execute_defs worker_defs demo_defs store_defs plain_def retry_both_def)

lemma resumed_run_not_retried:
  "\<exists>turn' run' sv' t r. execute demo_runtime (demo_env ex_env) demo_turn (demo_world (ex_run\<lparr>rn_Status := RunStatusResuming\<rparr>)) = (turn', run', sv') \<and>
     sturns sv' = [t] \<and> sruns sv' = [r] \<and> tn_Status t = TurnStatusFailed \<and> rn_Status r = RunStatusFailed \<and>
     map (\<lambda>s. (rn_Status (fst s), map_option tn_Status (fst (snd s)))) (sv_snapshots sv') =
       [(RunStatusResuming, Some TurnStatusRetryWait), (RunStatusFailed, Some TurnStatusFailed)]"
  by (simp add: execute_defs worker_defs demo_defs store_defs plain_def retry_both_def)

end
