(* ===== verification/Goal_Charge.thy ===== *)
theory Goal_Charge
  imports Turn_Recovery
begin

text \<open>
  What a run costs its goal. The usage events of the model charge the goal while the run goes on, and the
  result of the run charges what they have not covered, so that a run is charged once.
\<close>

section \<open>One charge\<close>

definition goal_is :: "int \<Rightarrow> int \<Rightarrow> thread_goal \<Rightarrow> service \<Rightarrow> bool" where
  "goal_is own c g sv \<longleftrightarrow> List.find (\<lambda>g. tg_OwnerID g = own \<and> tg_ConversationID g = c) (db_goals (w_db (sv_world sv))) = Some g \<and>
     distinct (map tg_ID (db_goals (w_db (sv_world sv))))"

definition chargeable :: "thread_goal \<Rightarrow> bool" where
  "chargeable g \<longleftrightarrow> tg_Status g = GoalActive \<or> tg_Status g = GoalBudgetLimited"

lemma find_updated:
  assumes "List.find P gs = Some g" "distinct (map tg_ID gs)" "P g'" "tg_ID g' = tg_ID g" "f g = g'"
  shows "List.find P (change_where (\<lambda>x. tg_ID x = tg_ID g) f gs) = Some g'"
  using assms(1,2)
proof (induction gs)
  case (Cons a gs)
  show ?case
  proof (cases "P a")
    case True
    then show ?thesis using Cons.prems assms(3,5) by (simp add: change_where_def)
  next
    case False
    then have find: "List.find P gs = Some g" using Cons.prems by simp
    then have "g \<in> set gs" by (auto simp: find_Some_iff)
    then have "tg_ID a \<noteq> tg_ID g" using Cons.prems(2) by auto
    then show ?thesis using Cons.IH [OF find] Cons.prems(2) False by (simp add: change_where_def)
  qed
qed simp

lemma change_where_ids: "(\<And>x. P x \<Longrightarrow> tg_ID (f x) = tg_ID x) \<Longrightarrow> map tg_ID (change_where P f gs) = map tg_ID gs"
  by (simp add: change_where_def)

text \<open>A charge on a store that answers.\<close>

lemma quiet_account:
  assumes q: "quiet (se_db env)" and g: "goal_is own c g sv" and e: "gid = [] \<or> gid = tg_GoalID g" and m: "accounting_allowed mode (tg_Status g)"
    and nn: "0 \<le> s" "0 \<le> t"
  obtains g' sv' where "on_world (account (se_db env) own c s t mode gid) sv = (Inr g', sv')" "goal_is own c g' sv'"
    "tg_TokensUsed g' = tg_TokensUsed g + t" "tg_GoalID g' = tg_GoalID g" "chargeable g \<Longrightarrow> chargeable g'" "sruns sv' = sruns sv" "sv_usage sv' = sv_usage sv"
proof -
  have mx: "max 0 s = s" "max 0 t = t" using nn by simp_all
  define w1 where "w1 = (sv_world sv)\<lparr>w_statements := Suc (w_statements (sv_world sv))\<rparr>"
  define body where "body = (\<lambda>w. try_db (First (se_db env) db_goals (\<lambda>g. tg_OwnerID g = own \<and> tg_ConversationID g = c) w) None (\<lambda>current w.
        if (gid \<noteq> [] \<and> tg_GoalID current \<noteq> gid) \<or> \<not> accounting_allowed mode (tg_Status current) \<or> (s = 0 \<and> t = 0)
        then ((None, Some current), w)
        else case Now (se_db env) w of (now, w) \<Rightarrow>
          let current = charged s t now current in
          try_db (Updates (se_db env) db_goals db_goals_update (\<lambda>g. tg_ID g = tg_ID current)
                    (\<lambda>g. g\<lparr>tg_TimeUsedSeconds := tg_TimeUsedSeconds current, tg_TokensUsed := tg_TokensUsed current,
                           tg_Status := tg_Status current, tg_UpdatedAt := now\<rparr>) w) None (\<lambda>_ w. ((None, Some current), w))))"
  have acc: "account (se_db env) own c s t mode gid w = (case transaction (se_db env) body w of ((None, Some g), w) \<Rightarrow> (Inr g, w)
      | ((Some ErrRecordNotFound, _), w) \<Rightarrow> (Inl GoalNotFound, w) | ((Some e, _), w) \<Rightarrow> (Inl (Goal_db e), w)
      | ((None, None), w) \<Rightarrow> (Inl GoalNotFound, w))" for w
    unfolding account_def body_def Let_def mx ..
  have first: "First (se_db env) db_goals (\<lambda>g. tg_OwnerID g = own \<and> tg_ConversationID g = c) (sv_world sv) = (Inr g, w1)"
    using g by (simp add: quiet_First [OF q] goal_is_def w1_def)
  show ?thesis
  proof (cases "s = 0 \<and> t = 0")
    case True
    then have "body (sv_world sv) = ((None, Some g), w1)" using first by (simp add: body_def try_db_def)
    from quiet_transaction [where body = body, OF q this]
    have call: "on_world (account (se_db env) own c s t mode gid) sv = (Inr g, sv\<lparr>sv_world := w1\<lparr>w_statements := Suc (w_statements w1)\<rparr>\<rparr>)"
      by (simp add: on_world_def acc)
    show ?thesis by (rule that [OF call]) (use g True in \<open>simp_all add: goal_is_def w1_def\<close>)
  next
    case False
    obtain now w2 where now: "Now (se_db env) w1 = (now, w2)" by (cases "Now (se_db env) w1")
    define g' where "g' = charged s t now g"
    let ?f = "\<lambda>x. x\<lparr>tg_TimeUsedSeconds := tg_TimeUsedSeconds g', tg_TokensUsed := tg_TokensUsed g', tg_Status := tg_Status g', tg_UpdatedAt := now\<rparr>"
    define w3 where "w3 = w2\<lparr>w_statements := Suc (w_statements w2), w_db := db_goals_update (change_where (\<lambda>x. tg_ID x = tg_ID g') ?f) (w_db w2)\<rparr>"
    have ch: "tg_ID g' = tg_ID g" "tg_OwnerID g' = tg_OwnerID g" "tg_ConversationID g' = tg_ConversationID g" "tg_GoalID g' = tg_GoalID g"
      "tg_TokensUsed g' = tg_TokensUsed g + t" "chargeable g \<Longrightarrow> chargeable g'" "?f g = g'"
      by (auto simp: g'_def charged_def Let_def chargeable_def)
    have "Updates (se_db env) db_goals db_goals_update (\<lambda>x. tg_ID x = tg_ID g') ?f w2 =
        (Inr (length (filter (\<lambda>x. tg_ID x = tg_ID g') (db_goals (w_db w2)))), w3)" using q by (simp add: Updates_def statement_def w3_def)
    then have "body (sv_world sv) = ((None, Some g'), w3)"
      using first False e m now by (auto simp: body_def try_db_def g'_def Let_def)
    from quiet_transaction [where body = body, OF q this]
    have call: "on_world (account (se_db env) own c s t mode gid) sv = (Inr g', sv\<lparr>sv_world := w3\<lparr>w_statements := Suc (w_statements w3)\<rparr>\<rparr>)"
      by (simp add: on_world_def acc)
    have db2: "w_db w2 = w_db (sv_world sv)" using Now_eq [OF now] by (simp add: w1_def)
    have gg: "tg_OwnerID g' = own \<and> tg_ConversationID g' = c" using g ch by (auto simp: goal_is_def find_Some_iff)
    have "List.find (\<lambda>g. tg_OwnerID g = own \<and> tg_ConversationID g = c) (change_where (\<lambda>x. tg_ID x = tg_ID g) ?f (db_goals (w_db (sv_world sv)))) = Some g'"
      by (rule find_updated) (use g gg ch in \<open>simp_all add: goal_is_def\<close>)
    moreover have "distinct (map tg_ID (change_where (\<lambda>x. tg_ID x = tg_ID g) ?f (db_goals (w_db (sv_world sv)))))"
      using g by (subst change_where_ids) (simp_all add: goal_is_def)
    ultimately have "goal_is own c g' (sv\<lparr>sv_world := w3\<lparr>w_statements := Suc (w_statements w3)\<rparr>\<rparr>)" using db2 ch(1) by (simp add: goal_is_def w3_def)
    then show ?thesis by (rule that [OF call]) (use ch db2 in \<open>simp_all add: w3_def\<close>)
  qed
qed

lemma quiet_goal_Get:
  assumes "quiet (se_db env)" "goal_is own c g sv"
  shows "on_world (goal_Get (se_db env) own c) sv = (Inr g, sv\<lparr>sv_world := (sv_world sv)\<lparr>w_statements := Suc (w_statements (sv_world sv))\<rparr>\<rparr>)"
  using assms(2) by (simp add: on_world_def goal_Get_def quiet_First [OF assms(1)] goal_is_def)

section \<open>A whole run\<close>

text \<open>The run that is charged.\<close>

definition pays :: "svc_env \<Rightarrow> int \<Rightarrow> int \<Rightarrow> int \<Rightarrow> run \<Rightarrow> service \<Rightarrow> bool" where
  "pays env own i c r sv \<longleftrightarrow> List.find (\<lambda>r. rn_ID r = i \<and> rn_OwnerID r = own) (sruns sv) = Some r \<and> rn_ID r = i \<and> rn_OwnerID r = own \<and> 0 < i \<and>
     rn_ConversationID r = Some c \<and> rn_RunType r \<noteq> RunTypeSubagent \<and> input_mode (se_lib env) (rn_InputJSON r) \<noteq> Some ''plan'' \<and> se_goals env"

text \<open>Where the accounting stands: the goal, the tokens charged so far, the last usage seen.\<close>

definition accounted :: "int \<Rightarrow> int \<Rightarrow> int \<Rightarrow> string \<Rightarrow> int \<Rightarrow> int \<Rightarrow> usage \<Rightarrow> service \<Rightarrow> bool" where
  "accounted own i c gid base acc lastu sv \<longleftrightarrow>
     (\<exists>g. goal_is own c g sv \<and> chargeable g \<and> tg_GoalID g = gid \<and> tg_TokensUsed g = base + acc) \<and>
     (acc = 0 \<and> lastu = no_usage \<and> sv_usage sv i = None \<or>
      (\<exists>s. sv_usage sv i = Some s \<and> gu_GoalID s = gid \<and> gu_LastUsage s = lastu \<and> gu_TokensAccounted s = acc))"

lemma usage_event_charges:
  assumes q: "quiet (se_db env)" and p: "pays env own i c r sv" and a: "accounted own i c gid base acc lastu sv" and gid: "gid \<noteq> []"
  shows "pays env own i c r (accountGoalUsageEvent env own i u sv) \<and>
     accounted own i c gid base (acc + event_tokens u lastu) u (accountGoalUsageEvent env own i u sv)"
proof -
  obtain g where g: "goal_is own c g sv" "chargeable g" "tg_GoalID g = gid" "tg_TokensUsed g = base + acc" using a by (auto simp: accounted_def)
  define sv1 where "sv1 = sv\<lparr>sv_world := (sv_world sv)\<lparr>w_statements := Suc (w_statements (sv_world sv))\<rparr>\<rparr>"
  define sv2 where "sv2 = sv1\<lparr>sv_world := (sv_world sv1)\<lparr>w_statements := Suc (w_statements (sv_world sv1))\<rparr>\<rparr>"
  have f: "on_world (run_FindByID (se_db env) own i) sv = (Inr r, sv1)"
    using p by (simp add: on_world_def run_FindByID_def quiet_First [OF q] pays_def sv1_def)
  have g1: "goal_is own c g sv1" using g(1) by (simp add: goal_is_def sv1_def)
  have gg: "on_world (goal_Get (se_db env) own c) sv1 = (Inr g, sv2)" using quiet_goal_Get [OF q g1] by (simp add: sv2_def)
  define state where "state = (if gu_GoalID (usage_of i sv2) \<noteq> tg_GoalID g then no_goal_usage\<lparr>gu_GoalID := tg_GoalID g\<rparr> else usage_of i sv2)"
  have st: "gu_GoalID state = gid" "gu_LastUsage state = lastu" "gu_TokensAccounted state = acc"
    using a g(3) gid by (auto simp: state_def accounted_def usage_of_def no_goal_usage_def sv2_def sv1_def)
  define n where "n = event_tokens u (gu_LastUsage state)"
  define state1 where "state1 = state\<lparr>gu_LastUsage := u, gu_HasUsage := True\<rparr>"
  have nc: "tg_Status g \<noteq> GoalComplete" using g(2) by (auto simp: chargeable_def)
  have nn: "0 \<le> n" by (simp add: n_def event_tokens_def)
  have nl: "event_tokens u lastu = n" by (simp add: n_def st(2))
  have call: "accountGoalUsageEvent env own i u sv = (if n \<le> 0 then put_usage i state1 sv2
      else case on_world (account (se_db env) own c 0 n ''active_only'' gid) (put_usage i state1 sv2) of
             (Inl _, sv) \<Rightarrow> sv
           | (Inr updated, sv) \<Rightarrow>
               let sv = put_usage i (state1\<lparr>gu_TokensAccounted := gu_TokensAccounted state1 + n\<rparr>) sv in
               if tg_Status updated = GoalBudgetLimited
               then emitGoalUpdated c (Some updated) (snd (queueSteering i
                      ''The active thread goal has reached its token budget. Stop substantive work and report the budget-limited state.'' sv))
               else sv)"
    using p f gg nc unfolding accountGoalUsageEvent_def pays_def
    unfolding g(3) [symmetric] by (simp only: Let_def n_def state1_def state_def split: if_split) simp
  define sv3 where "sv3 = put_usage i state1 sv2"
  have same3: "w_db (sv_world sv3) = w_db (sv_world sv)" "sv_usage sv3 i = Some state1" by (simp_all add: sv3_def put_usage_def sv2_def sv1_def)
  show ?thesis
  proof (cases "n \<le> 0")
    case True
    then have "accountGoalUsageEvent env own i u sv = sv3" "n = 0" using call nn by (simp_all add: sv3_def)
    then show ?thesis
      using p g st same3 by (auto simp: pays_def accounted_def goal_is_def state1_def nl)
  next
    case False
    have g3: "goal_is own c g sv3" using g(1) same3 by (simp add: goal_is_def)
    have al: "accounting_allowed ''active_only'' (tg_Status g)" using g(2) by (auto simp: accounting_allowed_def chargeable_def)
    obtain g' sv4 where acc: "on_world (account (se_db env) own c 0 n ''active_only'' gid) sv3 = (Inr g', sv4)" "goal_is own c g' sv4"
      "tg_TokensUsed g' = tg_TokensUsed g + n" "tg_GoalID g' = tg_GoalID g" "chargeable g \<Longrightarrow> chargeable g'" "sruns sv4 = sruns sv3" "sv_usage sv4 = sv_usage sv3"
      by (rule quiet_account [OF q g3, of gid "''active_only''" 0 n]) (use g(3) al nn in auto)
    define sv5 where "sv5 = put_usage i (state1\<lparr>gu_TokensAccounted := gu_TokensAccounted state1 + n\<rparr>) sv4"
    have "accountGoalUsageEvent env own i u sv \<in> {sv5, emitGoalUpdated c (Some g') (snd (queueSteering i
        ''The active thread goal has reached its token budget. Stop substantive work and report the budget-limited state.'' sv5))}"
      using call False acc(1) by (simp add: sv5_def Let_def flip: sv3_def)
    then have "w_db (sv_world (accountGoalUsageEvent env own i u sv)) = w_db (sv_world sv4)"
      "sv_usage (accountGoalUsageEvent env own i u sv) i = Some (state1\<lparr>gu_TokensAccounted := gu_TokensAccounted state1 + n\<rparr>)"
      by (auto simp: emitGoalUpdated_def queueSteering_def Let_def sv5_def put_usage_def)
    then show ?thesis
      using p g acc st same3(1) by (auto simp: pays_def accounted_def goal_is_def state1_def nl)
  qed
qed


fun events_tokens :: "usage \<Rightarrow> usage list \<Rightarrow> int" where
  "events_tokens previous [] = 0"
| "events_tokens previous (u # us) = event_tokens u previous + events_tokens u us"

lemma usage_events_charge:
  assumes "quiet (se_db env)" "gid \<noteq> []" "pays env own i c r sv" "accounted own i c gid base acc lastu sv"
  shows "\<exists>l. pays env own i c r (foldl (\<lambda>sv u. accountGoalUsageEvent env own i u sv) sv us) \<and>
     accounted own i c gid base (acc + events_tokens lastu us) l (foldl (\<lambda>sv u. accountGoalUsageEvent env own i u sv) sv us)"
  using assms(3,4)
proof (induction us arbitrary: sv acc lastu)
  case Nil
  then show ?case by auto
next
  case (Cons u us)
  note e = usage_event_charges [OF assms(1) Cons.prems assms(2), of u]
  show ?case using Cons.IH [OF conjunct1 [OF e] conjunct2 [OF e]] by (simp add: add.assoc)
qed

text \<open>Usage that only grows, as the events of one run report it.\<close>

definition fresh :: "usage \<Rightarrow> int" where
  "fresh u = PromptTokens u - CachedInputTokens u"

fun growing :: "usage \<Rightarrow> usage list \<Rightarrow> bool" where
  "growing previous [] \<longleftrightarrow> True"
| "growing previous (u # us) \<longleftrightarrow> PromptTokens previous \<le> PromptTokens u \<and> CompletionTokens previous \<le> CompletionTokens u \<and>
     TotalTokens previous \<le> TotalTokens u \<and> fresh previous \<le> fresh u \<and> growing u us"

lemma growing_tokens:
  assumes "growing previous us" "0 \<le> fresh previous" "0 \<le> CompletionTokens previous"
  shows "events_tokens previous us = goalTokenDelta (last (previous # us)) - goalTokenDelta previous"
  using assms
proof (induction us arbitrary: previous)
  case (Cons u us)
  have "event_tokens u previous = goalTokenDelta u - goalTokenDelta previous"
    using Cons.prems by (simp add: event_tokens_def usage_reset_def usage_diff_def goalTokenDelta_def fresh_def no_usage_def)
  moreover have "events_tokens u us = goalTokenDelta (last (u # us)) - goalTokenDelta u"
    using Cons.prems by (intro Cons.IH) (simp_all add: fresh_def)
  ultimately show ?case by simp
qed simp

lemma goal_charged_once_parts:
  assumes q: "quiet (se_db env)" and p: "pays env own i c r sv" and g: "goal_is own c g sv" "chargeable g" "tg_GoalID g \<noteq> []" and new: "sv_usage sv i = None"
    and sv': "sv' = accountGoalRun env r out (foldl (\<lambda>sv u. accountGoalUsageEvent env own i u sv) sv us)"
  shows "\<exists>g'. goal_is own c g' sv' \<and> tg_TokensUsed g' = tg_TokensUsed g + max (events_tokens no_usage us) (goalTokenDelta (ro_usage out))"
    and "growing no_usage us \<Longrightarrow> ro_usage out = last (no_usage # us) \<Longrightarrow>
       \<exists>g'. goal_is own c g' sv' \<and> tg_TokensUsed g' = tg_TokensUsed g + goalTokenDelta (ro_usage out)"
proof -
  define sv1 where "sv1 = foldl (\<lambda>sv u. accountGoalUsageEvent env own i u sv) sv us"
  have "accounted own i c (tg_GoalID g) (tg_TokensUsed g) 0 no_usage sv" using g new by (auto simp: accounted_def)
  from usage_events_charge [OF q g(3) p this, of us] obtain l where p1: "pays env own i c r sv1"
    and a1: "accounted own i c (tg_GoalID g) (tg_TokensUsed g) (events_tokens no_usage us) l sv1" unfolding sv1_def by auto
  define acc where "acc = events_tokens no_usage us"
  obtain g1 where g1: "goal_is own c g1 sv1" "chargeable g1" "tg_GoalID g1 = tg_GoalID g" "tg_TokensUsed g1 = tg_TokensUsed g + acc"
    using a1 by (auto simp: accounted_def acc_def)
  define sv2 where "sv2 = sv1\<lparr>sv_world := (sv_world sv1)\<lparr>w_statements := Suc (w_statements (sv_world sv1))\<rparr>\<rparr>"
  have get: "on_world (goal_Get (se_db env) own c) sv1 = (Inr g1, sv2)" using quiet_goal_Get [OF q g1(1)] by (simp add: sv2_def)
  define st where "st = usage_of i sv2"
  have st: "gu_TokensAccounted st = acc" "gu_GoalID st = [] \<or> gu_GoalID st = tg_GoalID g1"
    using a1 g1(3) by (auto simp: st_def usage_of_def sv2_def accounted_def acc_def no_goal_usage_def)
  define n where "n = max 0 (goalTokenDelta (ro_usage out) - acc)"
  define s where "s = max 0 (run_seconds r out - gu_SecondsAccounted st)"
  have md: "accounting_mode (Inr g1) = ''active_only''" "accounting_allowed ''active_only'' (tg_Status g1)"
    using g1(2) by (auto simp: accounting_mode_def accounting_allowed_def chargeable_def)
  have g2: "goal_is own c g1 sv2" using g1(1) by (simp add: goal_is_def sv2_def)
  obtain g' sv3 where acc3: "on_world (account (se_db env) own c s n ''active_only'' (gu_GoalID st)) sv2 = (Inr g', sv3)" "goal_is own c g' sv3"
    "tg_TokensUsed g' = tg_TokensUsed g1 + n"
    by (rule quiet_account [OF q g2 st(2) md(2), of s n]) (auto simp: s_def n_def)
  have run: "rn_ConversationID r = Some c" "rn_ID r = i" "rn_OwnerID r = own" "se_goals env" "input_mode (se_lib env) (rn_InputJSON r) \<noteq> Some ''plan''"
    using p by (simp_all add: pays_def)
  have "sv' \<in> {sv3, emitGoalUpdated c (Some g') sv3}"
    using run get acc3(1) unfolding sv' sv1_def [symmetric] accountGoalRun_def Let_def
    by (simp add: md(1) st(1) flip: st_def n_def s_def)
  then have "goal_is own c g' sv'" using acc3(2) by (auto simp: goal_is_def emitGoalUpdated_def)
  moreover have "tg_TokensUsed g' = tg_TokensUsed g + max acc (goalTokenDelta (ro_usage out))" using acc3(3) g1(4) by (simp add: n_def)
  ultimately show first: "\<exists>g'. goal_is own c g' sv' \<and> tg_TokensUsed g' = tg_TokensUsed g + max (events_tokens no_usage us) (goalTokenDelta (ro_usage out))"
    unfolding acc_def by blast
  show "\<exists>g'. goal_is own c g' sv' \<and> tg_TokensUsed g' = tg_TokensUsed g + goalTokenDelta (ro_usage out)"
    if "growing no_usage us" "ro_usage out = last (no_usage # us)"
    using first growing_tokens [OF that(1)] that(2) by (simp add: fresh_def no_usage_def goalTokenDelta_def)
qed

text \<open>C18: A run is charged to its goal once. On a store that answers, after any usage events and the result of the run,
  the goal has paid the sum of the events or what the result reports, whichever is more, and not both. When
  the usage that the events report only grows, and the result reports the last of it, the goal has paid
  exactly that: the fresh prompt tokens and the completion tokens.\<close>

theorem goal_charged_once:
  assumes q: "quiet (se_db env)" and p: "pays env own i c r sv" and g: "goal_is own c g sv" "chargeable g" "tg_GoalID g \<noteq> []" and new: "sv_usage sv i = None"
    and sv': "sv' = accountGoalRun env r out (foldl (\<lambda>sv u. accountGoalUsageEvent env own i u sv) sv us)"
  shows "(\<exists>g'. goal_is own c g' sv' \<and> tg_TokensUsed g' = tg_TokensUsed g + max (events_tokens no_usage us) (goalTokenDelta (ro_usage out))) \<and>
    (growing no_usage us \<and> ro_usage out = last (no_usage # us) \<longrightarrow>
       (\<exists>g'. goal_is own c g' sv' \<and> tg_TokensUsed g' = tg_TokensUsed g + goalTokenDelta (ro_usage out)))"
  using goal_charged_once_parts [OF assms] by blast


definition demo_goal :: thread_goal where
  "demo_goal = \<lparr>tg_ID = 7, tg_OwnerID = 1, tg_CreatedAt = 0, tg_UpdatedAt = 0, tg_ConversationID = 1, tg_GoalID = ''g'', tg_Objective = ''o'',
     tg_Status = GoalActive, tg_TokenBudget = Some 100, tg_TokensUsed = 5, tg_TimeUsedSeconds = 0\<rparr>"

definition demo_usage :: "int \<Rightarrow> int \<Rightarrow> int \<Rightarrow> usage" where
  "demo_usage p c d = no_usage\<lparr>PromptTokens := p, CompletionTokens := c, TotalTokens := p + c, CachedInputTokens := d\<rparr>"

theorem goal_charged_once_witness:
  "let env = (demo_env ex_env)\<lparr>se_goals := True\<rparr>; sv = (demo_service [] [ex_run] [])\<lparr>sv_world := (ex_world [] [ex_run])\<lparr>w_db := (ex_db [] [ex_run])\<lparr>db_goals := [demo_goal]\<rparr>\<rparr>\<rparr>;
       us = [demo_usage 10 2 4, demo_usage 30 5 12];
       sv' = accountGoalRun env ex_run (no_output\<lparr>ro_usage := demo_usage 30 5 12\<rparr>) (foldl (\<lambda>sv u. accountGoalUsageEvent env 1 2 u sv) sv us) in
   \<exists>g'. goal_is 1 1 g' sv' \<and> tg_TokensUsed g' = 28"
proof -
  let ?e = "(demo_env ex_env)\<lparr>se_goals := True\<rparr>"
  let ?sv = "(demo_service [] [ex_run] [])\<lparr>sv_world := (ex_world [] [ex_run])\<lparr>w_db := (ex_db [] [ex_run])\<lparr>db_goals := [demo_goal]\<rparr>\<rparr>\<rparr>"
  let ?us = "[demo_usage 10 2 4, demo_usage 30 5 12]" and ?o = "no_output\<lparr>ro_usage := demo_usage 30 5 12\<rparr>"
  have q: "quiet (se_db ?e)" by (simp add: quiet_def demo_defs)
  have p: "pays ?e 1 2 1 ex_run ?sv" by (simp add: pays_def demo_defs input_mode_def decodeInputJSON_def Let_def)
  have g: "goal_is 1 1 demo_goal ?sv" "chargeable demo_goal" "tg_GoalID demo_goal \<noteq> []" "sv_usage ?sv 2 = None"
    by (simp_all add: goal_is_def chargeable_def demo_goal_def demo_defs)
  have u: "growing no_usage ?us" "ro_usage ?o = last (no_usage # ?us)" "goalTokenDelta (ro_usage ?o) = 23" "tg_TokensUsed demo_goal = 5"
    by (simp_all add: fresh_def demo_usage_def no_usage_def goalTokenDelta_def demo_goal_def)
  from conjunct2 [OF goal_charged_once [OF q p g refl, of ?o ?us], THEN mp, OF conjI [OF u(1,2)]] show ?thesis unfolding Let_def u(3,4) by simp
qed

end
