(* ===== verification/Event_Hub.thy ===== *)
theory Event_Hub
  imports Go_Prelude
begin

text \<open>
  The in-process event transport of a running agent
  (\<^verbatim>\<open>internal/runtime/event/stream.go\<close>, \<^verbatim>\<open>internal/runtime/eventhub/hub.go\<close>,
  \<^verbatim>\<open>memory_hub.go\<close>, \<^verbatim>\<open>legacy.go\<close>): per-run sequence numbers, the bounded replay ring, live
  subscriber channels, snapshots, the terminal event and its retention.

  A \<open>run_state\<close> is Go's \<^verbatim>\<open>runState\<close>. A live channel is shared between the hub and a client that
  keeps reading it after it was closed, so channels live in an explicit store \<open>chan_heap\<close> and a
  subscriber holds the address of its channel. Go iterates over the \<^verbatim>\<open>subscribers\<close> and \<^verbatim>\<open>runs\<close>
  maps in an unspecified order; the model keeps both as association lists, and what an
  iteration does to one entry does not depend on the others. Every operation of the hub runs
  under the run's lock and is one atomic step of the model; the instant it reads from the clock
  is the argument \<open>now\<close>. \<open>marshal\<close> is \<^verbatim>\<open>json.Marshal\<close> on the legacy payload map and
  \<open>unmarshal\<close> is \<^verbatim>\<open>json.Unmarshal\<close> into a map (an error, or a map that is nil for \<^verbatim>\<open>null\<close>), both arbitrary: no property below depends on
  the encoding. The guards for a nil \<^verbatim>\<open>*MemoryHub\<close> return at once and are not modelled.
\<close>

section \<open>Stream events\<close>

record 'p stream_event =
  ev_Version :: int
  ev_RunID :: int
  ev_ConversationID :: "int option"
  ev_Seq :: u64
  ev_Kind :: string
  ev_CreatedAt :: gotime
  ev_Data :: "string option"
  ev_Type :: string
  ev_Payload :: "'p option"

definition RunStreamVersion :: int where "RunStreamVersion = 1"

definition StreamSnapshot :: string where "StreamSnapshot = ''stream.snapshot''"
definition RunComplete :: string where "RunComplete = ''run.complete''"
definition RunFailed :: string where "RunFailed = ''run.failed''"
definition RunPaused :: string where "RunPaused = ''run.paused''"
definition RunWaiting :: string where "RunWaiting = ''run.waiting''"
definition RunCancelled :: string where "RunCancelled = ''run.cancelled''"
definition LegacyAgentFinished :: string where "LegacyAgentFinished = ''agent_finished''"
definition LegacyAgentFailed :: string where "LegacyAgentFailed = ''agent_failed''"

definition terminal_kinds :: "string list" where
  "terminal_kinds = [RunComplete, RunFailed, RunPaused, RunWaiting, RunCancelled,
     LegacyAgentFinished, LegacyAgentFailed]"

definition isTerminalKind :: "string \<Rightarrow> bool" where
  "isTerminalKind kind \<longleftrightarrow> kind \<in> set terminal_kinds"

definition normalizeEvent ::
  "('p \<Rightarrow> string option) \<Rightarrow> 'p stream_event \<Rightarrow> int \<Rightarrow> gotime \<Rightarrow> 'p stream_event" where
  "normalizeEvent marshal ev runID now =
     (let ev = (if ev_Version ev = 0 then ev\<lparr>ev_Version := RunStreamVersion\<rparr> else ev);
          ev = (if ev_RunID ev = 0 then ev\<lparr>ev_RunID := runID\<rparr> else ev);
          ev = (if ev_Kind ev = '''' then ev\<lparr>ev_Kind := ev_Type ev\<rparr> else ev);
          ev = (if ev_Type ev = '''' then ev\<lparr>ev_Type := ev_Kind ev\<rparr> else ev);
          ev = (if ev_CreatedAt ev = 0 then ev\<lparr>ev_CreatedAt := now\<rparr> else ev)
      in case (ev_Data ev, ev_Payload ev) of
           (None, Some p) \<Rightarrow>
             (case marshal p of Some d \<Rightarrow> ev\<lparr>ev_Data := Some d\<rparr> | None \<Rightarrow> ev)
         | _ \<Rightarrow> ev)"

text \<open>Copying a value leaves it as it is, but for one case: appending an empty non-nil
  \<^verbatim>\<open>json.RawMessage\<close> to the nil slice gives nil.\<close>

definition cloneEvent :: "'p stream_event \<Rightarrow> 'p stream_event" where
  "cloneEvent ev = (if ev_Data ev = Some [] then ev\<lparr>ev_Data := None\<rparr> else ev)"

definition data_len :: "'p stream_event \<Rightarrow> nat" where
  "data_len ev = (case ev_Data ev of None \<Rightarrow> 0 | Some d \<Rightarrow> length d)"

definition eventSize :: "'p stream_event \<Rightarrow> int" where
  "eventSize ev = 96 + int (length (ev_Kind ev)) + int (length (ev_Type ev)) + int (data_len ev)"

section \<open>Configuration\<close>

text \<open>\<^verbatim>\<open>SnapshotProvider\<close> reads the authoritative state outside the hub: a function of the run that
  may fail. \<^verbatim>\<open>Now\<close> is the \<open>now\<close> argument of the operations.\<close>

record 'p hub_config =
  cfg_MaxEvents :: int
  cfg_MaxBytes :: int
  cfg_TerminalRetention :: int
  cfg_SubscriberBuffer :: int
  cfg_SnapshotProvider :: "(int \<Rightarrow> 'p stream_event option) option"

definition defaultMaxEvents :: int where "defaultMaxEvents = 1024"
definition defaultMaxBytes :: int where "defaultMaxBytes = 1048576"
definition defaultTerminalRetention :: int where "defaultTerminalRetention = 5 * 60 * 1000000000"
definition defaultSubscriberBuffer :: int where "defaultSubscriberBuffer = 64"

definition withDefaults :: "'p hub_config \<Rightarrow> 'p hub_config" where
  "withDefaults c =
     (let c = (if cfg_MaxEvents c \<le> 0 then c\<lparr>cfg_MaxEvents := defaultMaxEvents\<rparr> else c);
          c = (if cfg_MaxBytes c \<le> 0 then c\<lparr>cfg_MaxBytes := defaultMaxBytes\<rparr> else c);
          c = (if cfg_TerminalRetention c \<le> 0
               then c\<lparr>cfg_TerminalRetention := defaultTerminalRetention\<rparr> else c);
          c = (if cfg_SubscriberBuffer c \<le> 0
               then c\<lparr>cfg_SubscriberBuffer := defaultSubscriberBuffer\<rparr> else c)
      in c)"

section \<open>Run state, subscribers and channels\<close>

record 'p channel =
  ch_buf :: "'p stream_event list"
  ch_cap :: int
  ch_closed :: bool

type_synonym 'p chan_heap = "nat \<Rightarrow> 'p channel"

record subscriber =
  sub_ch :: nat
  sub_closed :: bool

record 'p run_state =
  rs_nextSeq :: u64
  rs_lastPublished :: u64
  rs_events :: "'p stream_event list"
  rs_eventBytes :: int
  rs_nextSubscriber :: u64
  rs_subscribers :: "(u64 \<times> subscriber) list"
  rs_closed :: bool
  rs_closedAt :: gotime
  rs_terminal :: "'p stream_event option"
  rs_snapshot :: "'p stream_event option"

definition newRunState :: "'p run_state" where
  "newRunState = \<lparr>rs_nextSeq = 1, rs_lastPublished = 0, rs_events = [], rs_eventBytes = 0,
     rs_nextSubscriber = 0, rs_subscribers = [], rs_closed = False, rs_closedAt = 0,
     rs_terminal = None, rs_snapshot = None\<rparr>"

record 'p memory_hub =
  hub_runs :: "(int \<times> 'p run_state) list"
  hub_config :: "'p hub_config"
  hub_heap :: "'p chan_heap"
  hub_next :: nat

definition NewMemoryHub :: "'p hub_config \<Rightarrow> 'p memory_hub" where
  "NewMemoryHub c = \<lparr>hub_runs = [], hub_config = withDefaults c,
     hub_heap = (\<lambda>_. \<lparr>ch_buf = [], ch_cap = 0, ch_closed = True\<rparr>), hub_next = 0\<rparr>"

text \<open>\<^verbatim>\<open>getRun\<close>: the run's state, created on demand; run 0 is no run.\<close>

definition getRun :: "'p memory_hub \<Rightarrow> int \<Rightarrow> bool \<Rightarrow> ('p memory_hub \<times> 'p run_state) option" where
  "getRun h runID create =
     (if runID = 0 then None
      else
        let h = h\<lparr>hub_config := withDefaults (hub_config h)\<rparr> in
        case map_of (hub_runs h) runID of
          Some st \<Rightarrow> Some (h, st)
        | None \<Rightarrow>
            if \<not> create then None
            else Some (h\<lparr>hub_runs := AList.update runID newRunState (hub_runs h)\<rparr>, newRunState))"

definition putRun :: "'p memory_hub \<Rightarrow> int \<Rightarrow> 'p chan_heap \<Rightarrow> 'p run_state \<Rightarrow> 'p memory_hub" where
  "putRun h runID heap st =
     h\<lparr>hub_runs := AList.update runID st (hub_runs h), hub_heap := heap\<rparr>"

definition closeSubscriberLocked ::
  "'p chan_heap \<Rightarrow> 'p run_state \<Rightarrow> u64 \<Rightarrow> subscriber \<Rightarrow> 'p chan_heap \<times> 'p run_state" where
  "closeSubscriberLocked heap st sid sub =
     (let st' = st\<lparr>rs_subscribers := AList.delete sid (rs_subscribers st)\<rparr> in
      if sub_closed sub then (heap, st')
      else (heap(sub_ch sub := (heap (sub_ch sub))\<lparr>ch_closed := True\<rparr>), st'))"

text \<open>The loop that closes every subscriber of a run (\<^verbatim>\<open>CloseRun\<close>, \<^verbatim>\<open>Close\<close>,
  \<^verbatim>\<open>removeExpiredRuns\<close>).\<close>

fun close_subs :: "'p chan_heap \<Rightarrow> 'p run_state \<Rightarrow> (u64 \<times> subscriber) list \<Rightarrow> 'p chan_heap \<times> 'p run_state" where
  "close_subs heap st [] = (heap, st)"
| "close_subs heap st ((sid, sub) # rest) =
     (case closeSubscriberLocked heap st sid sub of (heap', st') \<Rightarrow> close_subs heap' st' rest)"

text \<open>\<^verbatim>\<open>notifySubscribersLocked\<close>: a non-blocking send to each live channel; a full channel is
  closed and its subscriber dropped.\<close>

fun notify_subs :: "'p stream_event \<Rightarrow> 'p chan_heap \<Rightarrow> 'p run_state \<Rightarrow> (u64 \<times> subscriber) list \<Rightarrow>
    'p chan_heap \<times> 'p run_state" where
  "notify_subs ev heap st [] = (heap, st)"
| "notify_subs ev heap st ((sid, sub) # rest) =
     (if sub_closed sub
      then notify_subs ev heap (st\<lparr>rs_subscribers := AList.delete sid (rs_subscribers st)\<rparr>) rest
      else
        let c = heap (sub_ch sub) in
        if int (length (ch_buf c)) < ch_cap c
        then notify_subs ev (heap(sub_ch sub := c\<lparr>ch_buf := ch_buf c @ [cloneEvent ev]\<rparr>)) st rest
        else (case closeSubscriberLocked heap st sid sub of (heap', st') \<Rightarrow>
                notify_subs ev heap' st' rest))"

definition notifySubscribersLocked ::
  "'p stream_event \<Rightarrow> 'p chan_heap \<Rightarrow> 'p run_state \<Rightarrow> 'p chan_heap \<times> 'p run_state" where
  "notifySubscribersLocked ev heap st = notify_subs ev heap st (rs_subscribers st)"

text \<open>The loop of \<^verbatim>\<open>trimEventsLocked\<close>. \<open>None\<close> is the value of a loop that never ends.\<close>

partial_function (option) trim_loop ::
  "int \<Rightarrow> int \<Rightarrow> 'p stream_event list \<Rightarrow> int \<Rightarrow> ('p stream_event list \<times> int) option" where
  "trim_loop maxEvents maxBytes es bytes =
     (if int (length es) > maxEvents \<or> bytes > maxBytes
      then if es = [] then Some ([], 0)
           else if isTerminalKind (ev_Kind (hd es))
                then if length es = 1 then Some (es, bytes)
                     else trim_loop maxEvents maxBytes (tl es @ [hd es]) bytes
                else trim_loop maxEvents maxBytes (tl es) (bytes - eventSize (hd es))
      else Some (sort_key ev_Seq es, bytes))"

definition trimEventsLocked :: "'p run_state \<Rightarrow> int \<Rightarrow> int \<Rightarrow> 'p run_state option" where
  "trimEventsLocked st maxEvents maxBytes =
     (let maxEvents = (if maxEvents \<le> 0 then defaultMaxEvents else maxEvents);
          maxBytes = (if maxBytes \<le> 0 then defaultMaxBytes else maxBytes)
      in map_option (\<lambda>(es, b). st\<lparr>rs_events := es, rs_eventBytes := b\<rparr>)
           (trim_loop maxEvents maxBytes (rs_events st) (rs_eventBytes st)))"

section \<open>Hub operations\<close>

text \<open>Reserving the next sequence number; 0 stands for an exhausted counter and restarts at 1.\<close>

definition next_seq :: "'p run_state \<Rightarrow> u64 \<times> 'p run_state" where
  "next_seq st =
     (let n = (if rs_nextSeq st = 0 then 1 else rs_nextSeq st)
      in (n, st\<lparr>rs_nextSeq := n + 1\<rparr>))"

definition prepare_locked ::
  "('p \<Rightarrow> string option) \<Rightarrow> int \<Rightarrow> gotime \<Rightarrow> 'p run_state \<Rightarrow> 'p stream_event \<Rightarrow>
     'p stream_event \<times> 'p run_state" where
  "prepare_locked marshal runID now st ev =
     (if rs_closed st then (normalizeEvent marshal ev runID now, st)
      else case next_seq st of (n, st') \<Rightarrow>
        (cloneEvent ((normalizeEvent marshal ev runID now)\<lparr>ev_Seq := n\<rparr>), st'))"

definition Prepare ::
  "('p \<Rightarrow> string option) \<Rightarrow> gotime \<Rightarrow> 'p memory_hub \<Rightarrow> int \<Rightarrow> 'p stream_event \<Rightarrow>
     'p stream_event \<times> 'p memory_hub" where
  "Prepare marshal now h runID ev =
     (case getRun h runID True of
        None \<Rightarrow> (ev, h)
      | Some (h', st) \<Rightarrow>
          (case prepare_locked marshal runID now st ev of
             (ev', st') \<Rightarrow> (ev', putRun h' runID (hub_heap h') st')))"

text \<open>The body of \<^verbatim>\<open>PublishPrepared\<close> under the run's lock.\<close>

definition record_event :: "'p run_state \<Rightarrow> 'p stream_event \<Rightarrow> 'p run_state" where
  "record_event st ev =
     st\<lparr>rs_events := rs_events st @ [ev],
        rs_eventBytes := rs_eventBytes st + eventSize ev,
        rs_lastPublished := (if ev_Seq ev > rs_lastPublished st then ev_Seq ev else rs_lastPublished st)\<rparr>"

definition assign_seq :: "'p run_state \<Rightarrow> 'p stream_event \<Rightarrow> 'p stream_event \<times> 'p run_state" where
  "assign_seq st ev =
     (if ev_Seq ev = 0 then (case next_seq st of (n, st') \<Rightarrow> (ev\<lparr>ev_Seq := n\<rparr>, st')) else (ev, st))"

definition publish_new ::
  "'p hub_config \<Rightarrow> 'p chan_heap \<Rightarrow> 'p run_state \<Rightarrow> 'p stream_event \<Rightarrow>
     ('p chan_heap \<times> 'p run_state) option" where
  "publish_new cfg heap st ev =
     (let st = (if ev_Seq ev \<ge> rs_nextSeq st then st\<lparr>rs_nextSeq := ev_Seq ev + 1\<rparr> else st);
          ev = cloneEvent ev;
          st = record_event st ev;
          st = (if ev_Kind ev = StreamSnapshot then st\<lparr>rs_snapshot := Some (cloneEvent ev)\<rparr> else st);
          st = (if isTerminalKind (ev_Kind ev) then st\<lparr>rs_terminal := Some (cloneEvent ev)\<rparr> else st)
      in map_option (notifySubscribersLocked ev heap)
           (trimEventsLocked st (cfg_MaxEvents cfg) (cfg_MaxBytes cfg)))"

definition publish_locked ::
  "('p \<Rightarrow> string option) \<Rightarrow> 'p hub_config \<Rightarrow> gotime \<Rightarrow> 'p chan_heap \<Rightarrow> 'p run_state \<Rightarrow>
     'p stream_event \<Rightarrow> ('p chan_heap \<times> 'p run_state) option" where
  "publish_locked marshal cfg now heap st ev =
     (if rs_closed st then Some (heap, st)
      else case assign_seq st (normalizeEvent marshal ev (ev_RunID ev) now) of (ev, st) \<Rightarrow>
        if ev_Seq ev \<le> rs_lastPublished st then Some (heap, st)
        else publish_new cfg heap st ev)"

definition PublishPrepared ::
  "('p \<Rightarrow> string option) \<Rightarrow> gotime \<Rightarrow> 'p memory_hub \<Rightarrow> 'p stream_event \<Rightarrow> 'p memory_hub option" where
  "PublishPrepared marshal now h ev =
     (case getRun h (ev_RunID ev) True of
        None \<Rightarrow> Some h
      | Some (h', st) \<Rightarrow>
          map_option (\<lambda>(heap, st'). putRun h' (ev_RunID ev) heap st')
            (publish_locked marshal (hub_config h') now (hub_heap h') st ev))"

definition run_expired :: "'p hub_config \<Rightarrow> gotime \<Rightarrow> 'p run_state \<Rightarrow> bool" where
  "run_expired cfg now st \<longleftrightarrow>
     rs_closed st \<and> rs_closedAt st \<noteq> 0 \<and> \<not> now < rs_closedAt st + cfg_TerminalRetention cfg"

text \<open>\<^verbatim>\<open>removeExpiredRuns\<close>: the loop over the runs closes the subscribers of an expired run and
  forgets it (the emptied \<^verbatim>\<open>runState\<close> is not reachable any more).\<close>

fun expire_runs :: "'p hub_config \<Rightarrow> gotime \<Rightarrow> 'p chan_heap \<Rightarrow> (int \<times> 'p run_state) list \<Rightarrow>
    'p chan_heap \<times> (int \<times> 'p run_state) list" where
  "expire_runs cfg now heap [] = (heap, [])"
| "expire_runs cfg now heap ((runID, st) # rest) =
     (if run_expired cfg now st
      then expire_runs cfg now (fst (close_subs heap st (rs_subscribers st))) rest
      else (case expire_runs cfg now heap rest of (heap', rest') \<Rightarrow> (heap', (runID, st) # rest')))"

definition removeExpiredRuns :: "'p memory_hub \<Rightarrow> gotime \<Rightarrow> 'p memory_hub" where
  "removeExpiredRuns h now =
     (let h = h\<lparr>hub_config := withDefaults (hub_config h)\<rparr> in
      case expire_runs (hub_config h) now (hub_heap h) (hub_runs h) of
        (heap, runs) \<Rightarrow> h\<lparr>hub_heap := heap, hub_runs := runs\<rparr>)"

definition PurgeExpired :: "'p memory_hub \<Rightarrow> gotime \<Rightarrow> 'p memory_hub" where
  "PurgeExpired h now = removeExpiredRuns h now"

definition replayHasGap :: "'p stream_event list \<Rightarrow> u64 \<Rightarrow> bool" where
  "replayHasGap es afterSeq =
     (case es of
        [] \<Rightarrow> False
      | e # rest \<Rightarrow>
          let earliest = foldl (\<lambda>m x. if ev_Seq x < m then ev_Seq x else m) (ev_Seq e) rest
          in earliest > 0 \<and> afterSeq < earliest - 1)"

definition normalizeSnapshot ::
  "('p \<Rightarrow> string option) \<Rightarrow> 'p stream_event \<Rightarrow> int \<Rightarrow> u64 \<Rightarrow> gotime \<Rightarrow> 'p stream_event" where
  "normalizeSnapshot marshal snap runID sequence now =
     (let snap = (normalizeEvent marshal snap runID now)
                   \<lparr>ev_Kind := StreamSnapshot, ev_Type := StreamSnapshot\<rparr>;
          snap = (if sequence > 0 then snap\<lparr>ev_Seq := sequence\<rparr> else snap)
      in cloneEvent snap)"

definition snapshotLocked ::
  "('p \<Rightarrow> string option) \<Rightarrow> 'p hub_config \<Rightarrow> int \<Rightarrow> 'p run_state \<Rightarrow> gotime \<Rightarrow> 'p stream_event option" where
  "snapshotLocked marshal cfg runID st now =
     (case rs_snapshot st of
        Some s \<Rightarrow>
          (let s = cloneEvent s;
               s = (if ev_Seq s = 0 then s\<lparr>ev_Seq := rs_lastPublished st\<rparr> else s)
           in Some (normalizeSnapshot marshal s runID (rs_lastPublished st) now))
      | None \<Rightarrow>
          (case Option.bind (cfg_SnapshotProvider cfg) (\<lambda>provider. provider runID) of
             Some s \<Rightarrow> Some (normalizeSnapshot marshal s runID (rs_lastPublished st) now)
           | None \<Rightarrow>
               map_option (\<lambda>t. normalizeSnapshot marshal t runID (rs_lastPublished st) now)
                 (rs_terminal st)))"

text \<open>What \<^verbatim>\<open>Subscribe\<close> replays, decided under the lock together with the registration.\<close>

definition subscribe_replay ::
  "('p \<Rightarrow> string option) \<Rightarrow> 'p hub_config \<Rightarrow> int \<Rightarrow> 'p run_state \<Rightarrow> u64 \<Rightarrow> gotime \<Rightarrow> 'p stream_event list" where
  "subscribe_replay marshal cfg runID st afterSeq now =
     (if replayHasGap (rs_events st) afterSeq
      then (case snapshotLocked marshal cfg runID st now of Some s \<Rightarrow> [s] | None \<Rightarrow> [])
      else map cloneEvent (filter (\<lambda>e. ev_Seq e > afterSeq) (rs_events st)))"

text \<open>The result of \<^verbatim>\<open>Subscribe\<close>: the replay, the address of the live channel and the handle the
  returned \<^verbatim>\<open>cancel\<close> closes over (\<open>None\<close>: the channel was closed from the start and \<^verbatim>\<open>cancel\<close>
  does nothing).\<close>

record 'p subscription =
  sb_replay :: "'p stream_event list"
  sb_live :: nat
  sb_id :: "u64 option"

definition alloc_chan :: "'p memory_hub \<Rightarrow> 'p channel \<Rightarrow> nat \<times> 'p memory_hub" where
  "alloc_chan h c = (hub_next h, h\<lparr>hub_heap := (hub_heap h)(hub_next h := c), hub_next := Suc (hub_next h)\<rparr>)"

definition Subscribe ::
  "('p \<Rightarrow> string option) \<Rightarrow> gotime \<Rightarrow> 'p memory_hub \<Rightarrow> int \<Rightarrow> u64 \<Rightarrow> 'p subscription \<times> 'p memory_hub" where
  "Subscribe marshal now h runID afterSeq =
     (if runID = 0 then
        (case alloc_chan h \<lparr>ch_buf = [], ch_cap = 0, ch_closed = True\<rparr> of
           (a, h') \<Rightarrow> (\<lparr>sb_replay = [], sb_live = a, sb_id = None\<rparr>, h'))
      else case getRun (removeExpiredRuns h now) runID True of
        None \<Rightarrow> (\<lparr>sb_replay = [], sb_live = hub_next h, sb_id = None\<rparr>, h)
      | Some (h, st) \<Rightarrow>
          let cfg = hub_config h;
              replay = subscribe_replay marshal cfg runID st afterSeq now;
              buffer = (if cfg_SubscriberBuffer cfg \<le> 0 then defaultSubscriberBuffer
                        else cfg_SubscriberBuffer cfg)
          in if rs_closed st then
               (case alloc_chan h \<lparr>ch_buf = [], ch_cap = 0, ch_closed = True\<rparr> of
                  (a, h') \<Rightarrow> (\<lparr>sb_replay = map cloneEvent replay, sb_live = a, sb_id = None\<rparr>, h'))
             else
               (case alloc_chan h \<lparr>ch_buf = [], ch_cap = buffer, ch_closed = False\<rparr> of
                  (a, h') \<Rightarrow>
                    let sid = rs_nextSubscriber st + 1;
                        st' = st\<lparr>rs_nextSubscriber := sid,
                                 rs_subscribers :=
                                   AList.update sid \<lparr>sub_ch = a, sub_closed = False\<rparr> (rs_subscribers st)\<rparr>
                    in (\<lparr>sb_replay = map cloneEvent replay, sb_live = a, sb_id = Some sid\<rparr>,
                        putRun h' runID (hub_heap h') st')))"

text \<open>The \<^verbatim>\<open>cancel\<close> function: closes the subscriber if it is still the registered one. A pointer
  comparison of subscribers is the comparison of their channel addresses, which are never reused.\<close>

definition cancel_locked ::
  "'p chan_heap \<Rightarrow> 'p run_state \<Rightarrow> u64 \<Rightarrow> nat \<Rightarrow> 'p chan_heap \<times> 'p run_state" where
  "cancel_locked heap st sid a =
     (case map_of (rs_subscribers st) sid of
        Some sub \<Rightarrow> if sub_ch sub = a then closeSubscriberLocked heap st sid sub else (heap, st)
      | None \<Rightarrow> (heap, st))"

definition cancel :: "'p memory_hub \<Rightarrow> int \<Rightarrow> 'p subscription \<Rightarrow> 'p memory_hub" where
  "cancel h runID sb =
     (case sb_id sb of
        None \<Rightarrow> h
      | Some sid \<Rightarrow>
          (case map_of (hub_runs h) runID of
             None \<Rightarrow> h
           | Some st \<Rightarrow>
               (case cancel_locked (hub_heap h) st sid (sb_live sb) of
                  (heap, st') \<Rightarrow> putRun h runID heap st')))"

datatype hub_error = ErrRunNotFound | ErrSnapshotUnavailable

definition Snapshot ::
  "('p \<Rightarrow> string option) \<Rightarrow> gotime \<Rightarrow> 'p memory_hub \<Rightarrow> int \<Rightarrow> (hub_error + 'p stream_event) \<times> 'p memory_hub" where
  "Snapshot marshal now h runID =
     (if runID = 0 then (Inl ErrRunNotFound, h)
      else
        let h = removeExpiredRuns h now in
        case getRun h runID False of
          None \<Rightarrow> (Inl ErrRunNotFound, h)
        | Some (h', st) \<Rightarrow>
            (case snapshotLocked marshal (hub_config h') runID st now of
               None \<Rightarrow> (Inl ErrSnapshotUnavailable, h')
             | Some s \<Rightarrow> (Inr s, h')))"

definition close_publish ::
  "'p hub_config \<Rightarrow> 'p chan_heap \<Rightarrow> 'p run_state \<Rightarrow> 'p stream_event \<Rightarrow>
     ('p chan_heap \<times> 'p run_state) option" where
  "close_publish cfg heap st ev =
     (if ev_Seq ev > rs_lastPublished st then
        let ev = cloneEvent ev;
            st = record_event st ev;
            st = (if ev_Seq ev \<ge> rs_nextSeq st then st\<lparr>rs_nextSeq := ev_Seq ev + 1\<rparr> else st);
            st = st\<lparr>rs_terminal := Some (cloneEvent ev)\<rparr>
        in map_option (notifySubscribersLocked ev heap)
             (trimEventsLocked st (cfg_MaxEvents cfg) (cfg_MaxBytes cfg))
      else Some (heap, st))"

definition close_finish ::
  "gotime \<Rightarrow> 'p chan_heap \<times> 'p run_state \<Rightarrow> 'p chan_heap \<times> 'p run_state" where
  "close_finish now = (\<lambda>(heap, st).
     let st = st\<lparr>rs_closed := True, rs_closedAt := now\<rparr>
     in close_subs heap st (rs_subscribers st))"

definition close_locked ::
  "('p \<Rightarrow> string option) \<Rightarrow> 'p hub_config \<Rightarrow> int \<Rightarrow> gotime \<Rightarrow> 'p chan_heap \<Rightarrow> 'p run_state \<Rightarrow>
     'p stream_event \<Rightarrow> ('p chan_heap \<times> 'p run_state) option" where
  "close_locked marshal cfg runID now heap st ev =
     (if rs_closed st then Some (heap, st)
      else case assign_seq st (normalizeEvent marshal ev runID now) of (ev, st) \<Rightarrow>
        map_option (close_finish now) (close_publish cfg heap st ev))"

definition CloseRun ::
  "('p \<Rightarrow> string option) \<Rightarrow> gotime \<Rightarrow> 'p memory_hub \<Rightarrow> int \<Rightarrow> 'p stream_event \<Rightarrow> 'p memory_hub option" where
  "CloseRun marshal now h runID ev =
     (case getRun h runID True of
        None \<Rightarrow> Some h
      | Some (h', st) \<Rightarrow>
          map_option (\<lambda>(heap, st'). putRun h' runID heap st')
            (close_locked marshal (hub_config h') runID now (hub_heap h') st ev))"

fun close_all :: "'p chan_heap \<Rightarrow> (int \<times> 'p run_state) list \<Rightarrow> 'p chan_heap" where
  "close_all heap [] = heap"
| "close_all heap ((runID, st) # rest) = close_all (fst (close_subs heap st (rs_subscribers st))) rest"

definition Close :: "'p memory_hub \<Rightarrow> 'p memory_hub" where
  "Close h = h\<lparr>hub_heap := close_all (hub_heap h) (hub_runs h), hub_runs := []\<rparr>"

section \<open>The legacy event adapter\<close>

record 'p runtime_event =
  re_Type :: string
  re_RunID :: int
  re_Payload :: "'p option"
  re_CreatedAt :: gotime

definition FromRuntimeEvent :: "('p \<Rightarrow> string option) \<Rightarrow> 'p runtime_event \<Rightarrow> 'p stream_event" where
  "FromRuntimeEvent marshal input =
     \<lparr>ev_Version = RunStreamVersion, ev_RunID = re_RunID input, ev_ConversationID = None, ev_Seq = 0,
      ev_Kind = re_Type input, ev_CreatedAt = re_CreatedAt input,
      ev_Data = Option.bind (re_Payload input) marshal,
      ev_Type = re_Type input, ev_Payload = re_Payload input\<rparr>"

definition ToRuntimeEvent :: "(string \<Rightarrow> 'p option option) \<Rightarrow> 'p stream_event \<Rightarrow> 'p runtime_event" where
  "ToRuntimeEvent unmarshal ev =
     \<lparr>re_Type = (if ev_Kind ev = '''' then ev_Type ev else ev_Kind ev),
      re_RunID = ev_RunID ev,
      re_Payload = (case ev_Data ev of
                      Some d \<Rightarrow> (if d = [] then ev_Payload ev
                                 else case unmarshal d of Some p \<Rightarrow> p | None \<Rightarrow> ev_Payload ev)
                    | None \<Rightarrow> ev_Payload ev),
      re_CreatedAt = ev_CreatedAt ev\<rparr>"

definition PrepareLegacy ::
  "('p \<Rightarrow> string option) \<Rightarrow> gotime \<Rightarrow> 'p memory_hub \<Rightarrow> int \<Rightarrow> 'p runtime_event \<Rightarrow>
     'p stream_event \<times> 'p memory_hub" where
  "PrepareLegacy marshal now h runID input = Prepare marshal now h runID (FromRuntimeEvent marshal input)"

definition PublishLegacy ::
  "('p \<Rightarrow> string option) \<Rightarrow> gotime \<Rightarrow> 'p memory_hub \<Rightarrow> int \<Rightarrow> 'p runtime_event \<Rightarrow>
     ('p stream_event \<times> 'p memory_hub) option" where
  "PublishLegacy marshal now h runID input =
     (case PrepareLegacy marshal now h runID input of
        (ev, h') \<Rightarrow> map_option (\<lambda>h''. (ev, h'')) (PublishPrepared marshal now h' ev))"

end
