(* ===== verification/Event_Ring.thy ===== *)
theory Event_Ring
  imports Event_Hub
begin

text \<open>
  The replay ring of the event hub: what the eviction loop of \<^verbatim>\<open>trimEventsLocked\<close> computes. The
  loop rotates a terminal event it finds at the head to the back of the ring and goes on, so
  whether it ends at all depends on the terminal events. The reference \<open>evict\<close> drops the oldest
  transient event as long as the ring is over its limits; the loop is shown to return exactly
  that ring, sorted, unless two or more terminal events alone exceed the limits, and then it
  never returns.
\<close>

section \<open>Reference eviction\<close>

definition is_term :: "'p stream_event \<Rightarrow> bool" where
  "is_term e \<longleftrightarrow> isTerminalKind (ev_Kind e)"

definition ring_bytes :: "'p stream_event list \<Rightarrow> int" where
  "ring_bytes es = (\<Sum>e\<leftarrow>es. eventSize e)"

definition over_limit :: "int \<Rightarrow> int \<Rightarrow> 'p stream_event list \<Rightarrow> bool" where
  "over_limit mE mB es \<longleftrightarrow> int (length es) > mE \<or> ring_bytes es > mB"

fun drop_oldest :: "'p stream_event list \<Rightarrow> 'p stream_event list" where
  "drop_oldest [] = []"
| "drop_oldest (e # es) = (if is_term e then e # drop_oldest es else es)"

lemma length_drop_oldest: "\<not> list_all is_term es \<Longrightarrow> length (drop_oldest es) < length es"
  by (induction es) auto

function evict :: "int \<Rightarrow> int \<Rightarrow> 'p stream_event list \<Rightarrow> 'p stream_event list" where
  "evict mE mB es =
     (if over_limit mE mB es \<and> \<not> list_all is_term es then evict mE mB (drop_oldest es) else es)"
  by pat_completeness auto
termination
  by (relation "measure (\<lambda>(mE, mB, es). length es)") (auto simp: length_drop_oldest)

declare evict.simps [simp del]

definition trim_diverges :: "int \<Rightarrow> int \<Rightarrow> 'p stream_event list \<Rightarrow> bool" where
  "trim_diverges mE mB es \<longleftrightarrow>
     over_limit mE mB (filter is_term es) \<and> 2 \<le> length (filter is_term es)"

section \<open>Lemmas\<close>

lemma ring_bytes_simps [simp]:
  "ring_bytes [] = 0" "ring_bytes (e # es) = eventSize e + ring_bytes es"
  "ring_bytes (es @ fs) = ring_bytes es + ring_bytes fs"
  by (simp_all add: ring_bytes_def)

lemma eventSize_pos: "0 < eventSize e"
  by (simp add: eventSize_def)

lemma ring_bytes_nonneg: "0 \<le> ring_bytes es"
  unfolding ring_bytes_def by (rule sum_list_nonneg_map) (simp add: eventSize_pos less_imp_le)

lemma ring_bytes_filter_le: "ring_bytes (filter P es) \<le> ring_bytes es"
  by (induction es) (use eventSize_pos in \<open>auto intro: add_increasing less_imp_le\<close>)

lemma ring_bytes_commute: "ring_bytes (es @ fs) = ring_bytes (fs @ es)"
  by simp

lemma over_limit_swap: "over_limit mE mB (es @ fs) = over_limit mE mB (fs @ es)"
  by (simp add: over_limit_def add.commute)

lemma trim_loop_over:
  assumes "over_limit mE mB es" "es = e # rest"
  shows "trim_loop mE mB es (ring_bytes es) =
    (if is_term e then if rest = [] then Some (es, ring_bytes es)
                       else trim_loop mE mB (rest @ [e]) (ring_bytes (rest @ [e]))
     else trim_loop mE mB rest (ring_bytes rest))"
  using assms by (subst trim_loop.simps) (auto simp: over_limit_def is_term_def add.commute)

lemma trim_loop_within:
  "\<not> over_limit mE mB es \<Longrightarrow> trim_loop mE mB es (ring_bytes es) = Some (sort_key ev_Seq es, ring_bytes es)"
  by (subst trim_loop.simps) (auto simp: over_limit_def)

text \<open>A ring of terminal events over its limits is rotated forever.\<close>

lemma trim_loop_rotates:
  assumes "list_all is_term es" "2 \<le> length es" "over_limit mE mB es"
  shows "trim_loop mE mB es (ring_bytes es) = None"
proof (rule ccontr)
  assume "\<not> ?thesis"
  then obtain r where ret: "trim_loop mE mB es (ring_bytes es) = Some r" by auto
  have "\<not> (list_all is_term es \<and> 2 \<le> length es \<and> over_limit mE mB es \<and> ring_bytes es = ring_bytes es)"
  proof (rule trim_loop.raw_induct [where
        P = "\<lambda>mE mB es b r. \<not> (list_all is_term es \<and> 2 \<le> length es \<and> over_limit mE mB es \<and> b = ring_bytes es)",
        OF _ ret])
    fix f :: "int \<Rightarrow> int \<Rightarrow> 'a stream_event list \<Rightarrow> int \<Rightarrow> ('a stream_event list \<times> int) option"
      and mE mB es b r
    assume IH: "\<And>mE mB es b r. f mE mB es b = Some r \<Longrightarrow>
        \<not> (list_all is_term es \<and> 2 \<le> length es \<and> over_limit mE mB es \<and> b = ring_bytes es)"
      and eq: "(if mE < int (length es) \<or> mB < b
            then if es = [] then Some ([], 0)
                 else if isTerminalKind (ev_Kind (hd es))
                      then if length es = 1 then Some (es, b) else f mE mB (tl es @ [hd es]) b
                      else f mE mB (tl es) (b - eventSize (hd es))
            else Some (sort_key ev_Seq es, b)) = Some r"
    show "\<not> (list_all is_term es \<and> 2 \<le> length es \<and> over_limit mE mB es \<and> b = ring_bytes es)"
    proof
      assume H: "list_all is_term es \<and> 2 \<le> length es \<and> over_limit mE mB es \<and> b = ring_bytes es"
      then obtain e rest where es: "es = e # rest" by (cases es) auto
      with H eq have "f mE mB (rest @ [e]) b = Some r"
        by (auto simp: over_limit_def is_term_def split: if_splits)
      from IH [OF this] H es show False by (auto simp: over_limit_def add.commute)
    qed
  qed
  with assms show False by simp
qed

lemma drop_oldest_append:
  "list_all is_term xs \<Longrightarrow> drop_oldest (xs @ ys) = xs @ drop_oldest ys"
  by (induction xs) auto

lemma filter_is_term_all: "list_all is_term (filter is_term xs)"
  by (induction xs) auto

lemma evict_transient:
  assumes "over_limit mE mB (ts @ e # es)" "list_all is_term ts" "\<not> is_term e"
  shows "evict mE mB (ts @ e # es) = evict mE mB (ts @ es)"
  using assms by (subst evict.simps) (auto simp: drop_oldest_append)

lemma evict_within: "\<not> over_limit mE mB es \<Longrightarrow> evict mE mB es = es"
  by (subst evict.simps) simp

lemma evict_all_term: "list_all is_term es \<Longrightarrow> evict mE mB es = es"
  by (subst evict.simps) simp

lemma sort_key_rotated:
  assumes "sorted_wrt (<) (map ev_Seq (xs @ ys))"
  shows "sort_key ev_Seq (ys @ xs) = xs @ ys"
proof (rule sort_key_inj_key_eq)
  have "distinct (map ev_Seq (xs @ ys))" "sorted (map ev_Seq (xs @ ys))"
    using assms strict_sorted_iff by blast+
  then show "inj_on ev_Seq (set (ys @ xs))" "sorted (map ev_Seq (xs @ ys))"
    by (simp_all only: distinct_map set_append Un_commute)
qed simp

lemma over_limit_filter: "over_limit mE mB (filter P es) \<Longrightarrow> over_limit mE mB es"
  using length_filter_le [of P es] ring_bytes_filter_le [of P es] unfolding over_limit_def by linarith

text \<open>The state of the loop: the part of the ring it has not looked at, followed by the terminal
  events it has rotated to the back.\<close>

lemma trim_loop_state:
  assumes "sorted_wrt (<) (map ev_Seq (ts @ es))" "list_all is_term ts"
  shows "trim_loop mE mB (es @ ts) (ring_bytes (es @ ts)) =
    (if trim_diverges mE mB (ts @ es) then None
     else Some (evict mE mB (ts @ es), ring_bytes (evict mE mB (ts @ es))))"
  using assms
proof (induction es arbitrary: ts)
  case Nil
  show ?case
  proof (cases "over_limit mE mB ts")
    case True
    consider "ts = []" | e where "ts = [e]" | "2 \<le> length ts"
      by (cases ts rule: remdups_adj.cases) auto
    then show ?thesis
    proof cases
      case 1
      then show ?thesis by (subst trim_loop.simps) (auto simp: trim_diverges_def evict_all_term)
    next
      case 2
      with True Nil show ?thesis
        by (subst trim_loop.simps)
          (auto simp: trim_diverges_def evict_all_term over_limit_def is_term_def)
    next
      case 3
      with True Nil show ?thesis
        using trim_loop_rotates [of ts mE mB] by (simp add: trim_diverges_def list_all_iff)
    qed
  next
    case False
    with Nil show ?thesis
      using sort_key_rotated [of ts "[]"]
      by (simp add: trim_loop_within evict_all_term trim_diverges_def list_all_iff)
  qed
next
  case (Cons e es)
  show ?case
  proof (cases "over_limit mE mB (ts @ e # es)")
    case False
    then have "\<not> over_limit mE mB (filter is_term (ts @ e # es))"
      using over_limit_filter by blast
    with False Cons.prems show ?thesis
      using trim_loop_within [of mE mB "(e # es) @ ts"] sort_key_rotated [of ts "e # es"]
        over_limit_swap [of mE mB ts "e # es"]
      by (simp add: evict_within trim_diverges_def add.commute)
  next
    case True
    then have over: "over_limit mE mB (e # es @ ts)"
      using over_limit_swap [of mE mB ts "e # es"] by simp
    show ?thesis
    proof (cases "is_term e")
      case tm: True
      show ?thesis
      proof (cases "es @ ts = []")
        case True
        with over tm trim_loop_over [OF over refl] show ?thesis
          by (simp add: trim_diverges_def evict_all_term)
      next
        case False
        have "trim_loop mE mB ((e # es) @ ts) (ring_bytes ((e # es) @ ts)) =
            trim_loop mE mB (es @ (ts @ [e])) (ring_bytes (es @ (ts @ [e])))"
          using trim_loop_over [OF over refl] tm False by auto
        with Cons.IH [of "ts @ [e]"] Cons.prems tm show ?thesis by simp
      qed
    next
      case tr: False
      have "trim_loop mE mB ((e # es) @ ts) (ring_bytes ((e # es) @ ts)) =
          trim_loop mE mB (es @ ts) (ring_bytes (es @ ts))"
        using trim_loop_over [OF over refl] tr by simp
      moreover have "sorted_wrt (<) (map ev_Seq (ts @ es))"
        using Cons.prems(1) by (auto simp: sorted_wrt_append)
      moreover have "trim_diverges mE mB (ts @ e # es) = trim_diverges mE mB (ts @ es)"
        using tr by (simp add: trim_diverges_def)
      ultimately show ?thesis
        using Cons.IH [of ts] Cons.prems(2) evict_transient [OF True Cons.prems(2) tr] by simp
    qed
  qed
qed

corollary trim_loop_exact:
  assumes "sorted_wrt (<) (map ev_Seq es)" "b = ring_bytes es"
  shows "trim_loop mE mB es b =
    (if trim_diverges mE mB es then None
     else Some (evict mE mB es, ring_bytes (evict mE mB es)))"
  using trim_loop_state [of "[]" es mE mB] assms by simp

section \<open>What eviction keeps\<close>

lemma drop_oldest_filter:
  "filter is_term (drop_oldest es) = filter is_term es"
  "filter (\<lambda>e. \<not> is_term e) (drop_oldest es) = tl (filter (\<lambda>e. \<not> is_term e) es)"
  by (induction es) auto

lemma subseq_drop_oldest: "subseq (drop_oldest es) es"
  by (induction es) auto

lemma evict_terminals [simp]: "filter is_term (evict mE mB es) = filter is_term es"
proof (induction mE mB es rule: evict.induct)
  case (1 mE mB es)
  then show ?case by (subst evict.simps) (simp add: drop_oldest_filter)
qed

lemma subseq_evict: "subseq (evict mE mB es) es"
proof (induction mE mB es rule: evict.induct)
  case (1 mE mB es)
  then show ?case
    by (subst evict.simps) (auto intro: subseq_drop_oldest subseq_order.trans)
qed

lemma evict_transients:
  "\<exists>k. filter (\<lambda>e. \<not> is_term e) (evict mE mB es) = drop k (filter (\<lambda>e. \<not> is_term e) es)"
proof (induction mE mB es rule: evict.induct)
  case (1 mE mB es)
  show ?case
  proof (cases "over_limit mE mB es \<and> \<not> list_all is_term es")
    case True
    with 1 obtain k where
      "filter (\<lambda>e. \<not> is_term e) (evict mE mB (drop_oldest es)) = drop k (tl (filter (\<lambda>e. \<not> is_term e) es))"
      by (auto simp: drop_oldest_filter)
    with True show ?thesis
      by (subst evict.simps) (auto simp: drop_Suc intro: exI [of _ "Suc k"])
  next
    case False
    then show ?thesis by (subst evict.simps) (auto intro: exI [of _ 0])
  qed
qed

lemma evict_limit: "over_limit mE mB (evict mE mB es) \<Longrightarrow> list_all is_term (evict mE mB es)"
proof (induction mE mB es rule: evict.induct)
  case (1 mE mB es)
  show ?case
  proof (cases "over_limit mE mB es \<and> \<not> list_all is_term es")
    case True
    with 1 have "evict mE mB es = evict mE mB (drop_oldest es)" by (subst evict.simps) simp
    with 1 True show ?thesis by simp
  next
    case False
    then have "evict mE mB es = es" by (subst evict.simps) (auto simp del: evict.simps)
    with False 1(2) show ?thesis by auto
  qed
qed

lemma set_evict: "set (evict mE mB es) \<subseteq> set es"
  by (rule subseq_set [OF subseq_evict])

end
