(* ===== verification/Event_Hub_Inv.thy ===== *)
theory Event_Hub_Inv
  imports Event_Ring
begin

text \<open>
  Invariants of one run's state in the event hub and of the whole hub, and what each operation
  does to them. The counters are 64-bit words: the side conditions \<open>\<noteq> - 1\<close> say that a counter
  is not at its largest value, so that the next increment does not wrap.
\<close>

section \<open>Invariants and reference operations\<close>

definition cfg_ok :: "'p hub_config \<Rightarrow> bool" where
  "cfg_ok c \<longleftrightarrow> 0 < cfg_MaxEvents c \<and> 0 < cfg_MaxBytes c \<and> 0 < cfg_TerminalRetention c \<and>
     0 < cfg_SubscriberBuffer c"

definition run_inv :: "'p hub_config \<Rightarrow> 'p run_state \<Rightarrow> bool" where
  "run_inv cfg st \<longleftrightarrow>
     sorted_wrt (<) (map ev_Seq (rs_events st)) \<and>
     (\<forall>e\<in>set (rs_events st). 0 < ev_Seq e \<and> ev_Seq e \<le> rs_lastPublished st) \<and>
     rs_lastPublished st < rs_nextSeq st \<and>
     rs_eventBytes st = ring_bytes (rs_events st) \<and>
     (over_limit (cfg_MaxEvents cfg) (cfg_MaxBytes cfg) (rs_events st) \<longrightarrow>
        list_all is_term (rs_events st) \<and> length (rs_events st) \<le> 1) \<and>
     distinct (map fst (rs_subscribers st)) \<and>
     (\<forall>(sid, sub)\<in>set (rs_subscribers st). sid \<le> rs_nextSubscriber st \<and> \<not> sub_closed sub) \<and>
     (rs_closed st \<longrightarrow> rs_subscribers st = [])"

text \<open>The event a publication makes visible (\<open>None\<close>: it is ignored), and the state that holds it
  before the ring is trimmed.\<close>

definition accepted ::
  "('p \<Rightarrow> string option) \<Rightarrow> int \<Rightarrow> gotime \<Rightarrow> 'p run_state \<Rightarrow> 'p stream_event \<Rightarrow> 'p stream_event option" where
  "accepted marshal r now st ev =
     (if rs_closed st then None
      else
        let ev = normalizeEvent marshal ev r now;
            ev = (if ev_Seq ev = 0 then ev\<lparr>ev_Seq := rs_nextSeq st\<rparr> else ev)
        in if ev_Seq ev \<le> rs_lastPublished st then None else Some (cloneEvent ev))"

definition commit_event :: "'p run_state \<Rightarrow> 'p stream_event \<Rightarrow> 'p run_state" where
  "commit_event st e =
     st\<lparr>rs_nextSeq := (if ev_Seq e \<ge> rs_nextSeq st then ev_Seq e + 1 else rs_nextSeq st),
        rs_lastPublished := ev_Seq e,
        rs_snapshot := (if ev_Kind e = StreamSnapshot then Some e else rs_snapshot st),
        rs_terminal := (if is_term e then Some e else rs_terminal st)\<rparr>"

definition ring_append :: "'p hub_config \<Rightarrow> 'p run_state \<Rightarrow> 'p stream_event \<Rightarrow> 'p stream_event list" where
  "ring_append cfg st e = evict (cfg_MaxEvents cfg) (cfg_MaxBytes cfg) (rs_events st @ [e])"

definition ring_diverges :: "'p hub_config \<Rightarrow> 'p run_state \<Rightarrow> 'p stream_event \<Rightarrow> bool" where
  "ring_diverges cfg st e \<longleftrightarrow> trim_diverges (cfg_MaxEvents cfg) (cfg_MaxBytes cfg) (rs_events st @ [e])"

definition published :: "'p hub_config \<Rightarrow> 'p run_state \<Rightarrow> 'p stream_event \<Rightarrow> 'p run_state" where
  "published cfg st e =
     (commit_event st e)\<lparr>rs_events := ring_append cfg st e,
        rs_eventBytes := ring_bytes (ring_append cfg st e)\<rparr>"

definition has_room :: "'p chan_heap \<Rightarrow> nat \<Rightarrow> bool" where
  "has_room heap a \<longleftrightarrow> int (length (ch_buf (heap a))) < ch_cap (heap a)"

definition chans :: "(u64 \<times> subscriber) list \<Rightarrow> nat set" where
  "chans subs = sub_ch ` snd ` set subs"

section \<open>Clones and counters\<close>

lemma cloneEvent_idem [simp]: "cloneEvent (cloneEvent e) = cloneEvent e"
  by (simp add: cloneEvent_def)

lemma cloneEvent_sel [simp]:
  "ev_Seq (cloneEvent e) = ev_Seq e" "ev_Kind (cloneEvent e) = ev_Kind e"
  "ev_RunID (cloneEvent e) = ev_RunID e" "ev_Type (cloneEvent e) = ev_Type e"
  by (simp_all add: cloneEvent_def)

lemma normalizeEvent_Seq [simp]: "ev_Seq (normalizeEvent marshal e r now) = ev_Seq e"
  by (simp add: normalizeEvent_def Let_def split: option.split)

lemma u64_less_Suc: "(n::u64) \<noteq> - 1 \<Longrightarrow> n < n + 1"
  using inc_less_eq_self_iff_eq [of n] by (simp add: not_le [symmetric])

lemma withDefaults_ok: "cfg_ok (withDefaults c)"
  by (simp add: withDefaults_def Let_def cfg_ok_def defaultMaxEvents_def defaultMaxBytes_def
      defaultTerminalRetention_def defaultSubscriberBuffer_def)

lemma withDefaults_id: "cfg_ok c \<Longrightarrow> withDefaults c = c"
  by (simp add: withDefaults_def cfg_ok_def)

lemma trimEventsLocked_exact:
  assumes "cfg_ok cfg" "sorted_wrt (<) (map ev_Seq (rs_events st))" "rs_eventBytes st = ring_bytes (rs_events st)"
  shows "trimEventsLocked st (cfg_MaxEvents cfg) (cfg_MaxBytes cfg) =
    (if trim_diverges (cfg_MaxEvents cfg) (cfg_MaxBytes cfg) (rs_events st) then None
     else Some (st\<lparr>rs_events := evict (cfg_MaxEvents cfg) (cfg_MaxBytes cfg) (rs_events st),
        rs_eventBytes := ring_bytes (evict (cfg_MaxEvents cfg) (cfg_MaxBytes cfg) (rs_events st))\<rparr>))"
  using assms by (simp add: trimEventsLocked_def cfg_ok_def trim_loop_exact Let_def)

section \<open>Delivery to the subscribers\<close>

lemma notify_subs_heap:
  assumes "\<forall>(sid, sub)\<in>set L. \<not> sub_closed sub" "distinct (map (sub_ch \<circ> snd) L)"
  shows "fst (notify_subs ev heap st L) a =
    (if a \<in> chans L
     then if has_room heap a then (heap a)\<lparr>ch_buf := ch_buf (heap a) @ [cloneEvent ev]\<rparr>
          else (heap a)\<lparr>ch_closed := True\<rparr>
     else heap a)"
  using assms
proof (induction L arbitrary: heap st)
  case (Cons p L)
  obtain sid sub where p: "p = (sid, sub)" by (cases p)
  have fresh: "sub_ch sub \<notin> chans L" using Cons.prems(2) p by (auto simp: chans_def)
  show ?case
    using Cons.prems Cons.IH fresh
    by (auto simp: p chans_def has_room_def Let_def closeSubscriberLocked_def)
qed (simp add: chans_def)

lemma notify_subs_state:
  assumes "\<forall>(sid, sub)\<in>set L. \<not> sub_closed sub" "distinct (map (sub_ch \<circ> snd) L)"
  shows "snd (notify_subs ev heap st L) =
    st\<lparr>rs_subscribers := filter (\<lambda>(sid, sub). \<forall>sub'. (sid, sub') \<in> set L \<longrightarrow> has_room heap (sub_ch sub'))
         (rs_subscribers st)\<rparr>"
  using assms
proof (induction L arbitrary: heap st)
  case (Cons p L)
  obtain sid sub where p: "p = (sid, sub)" by (cases p)
  let ?a = "sub_ch sub"
  have same: "has_room (heap(?a := c)) (sub_ch sub') = has_room heap (sub_ch sub')"
    if "(sid', sub') \<in> set L" for sid' sub' c
  proof -
    have "sub_ch sub' \<noteq> ?a" using Cons.prems(2) p that by force
    then show ?thesis by (simp add: has_room_def)
  qed
  show ?case
  proof (cases "has_room heap ?a")
    case True
    with Cons.prems Cons.IH show ?thesis
      by (auto simp: p has_room_def [of heap ?a] Let_def same intro!: arg_cong [where f = "\<lambda>x. rs_subscribers_update (\<lambda>_. x) st"] filter_cong)
  next
    case False
    with Cons.prems Cons.IH show ?thesis
      by (auto simp: p has_room_def [of heap ?a] Let_def same closeSubscriberLocked_def AList.delete_eq
          intro!: arg_cong [where f = "\<lambda>x. rs_subscribers_update (\<lambda>_. x) st"] filter_cong)
  qed
qed simp

lemma distinct_sub_keys:
  "distinct (map fst L) \<Longrightarrow> (sid, sub) \<in> set L \<Longrightarrow> (sid, sub') \<in> set L \<Longrightarrow> sub = sub'"
  by (metis eq_key_imp_eq_value)

lemma notifySubscribersLocked_state:
  assumes "run_inv cfg st" "distinct (map (sub_ch \<circ> snd) (rs_subscribers st))"
  shows "snd (notifySubscribersLocked ev heap st) =
    st\<lparr>rs_subscribers := filter (\<lambda>(sid, sub). has_room heap (sub_ch sub)) (rs_subscribers st)\<rparr>"
proof -
  have "\<forall>(sid, sub)\<in>set (rs_subscribers st). \<not> sub_closed sub" "distinct (map fst (rs_subscribers st))"
    using assms(1) by (auto simp: run_inv_def)
  then show ?thesis
    unfolding notifySubscribersLocked_def
    by (subst notify_subs_state [OF _ assms(2)])
      (auto intro!: arg_cong [where f = "\<lambda>x. rs_subscribers_update (\<lambda>_. x) st"] filter_cong
        dest: distinct_sub_keys)
qed

lemma notifySubscribersLocked_heap:
  assumes "run_inv cfg st" "distinct (map (sub_ch \<circ> snd) (rs_subscribers st))"
  shows "fst (notifySubscribersLocked ev heap st) a =
    (if a \<in> chans (rs_subscribers st)
     then if has_room heap a then (heap a)\<lparr>ch_buf := ch_buf (heap a) @ [cloneEvent ev]\<rparr>
          else (heap a)\<lparr>ch_closed := True\<rparr>
     else heap a)"
  using assms unfolding notifySubscribersLocked_def
  by (subst notify_subs_heap) (auto simp: run_inv_def)

text \<open>Closing every subscriber of a run.\<close>

lemma close_subs_effect:
  assumes "\<forall>(sid, sub)\<in>set L. \<not> sub_closed sub"
  shows "fst (close_subs heap st L) a = (if a \<in> chans L then (heap a)\<lparr>ch_closed := True\<rparr> else heap a)"
    and "snd (close_subs heap st L) =
      st\<lparr>rs_subscribers := filter (\<lambda>(sid, sub). sid \<notin> fst ` set L) (rs_subscribers st)\<rparr>"
  using assms
proof (induction L arbitrary: heap st)
  case (Cons p L)
  obtain sid sub where p: "p = (sid, sub)" by (cases p)
  { case 1
    with Cons.IH(1) show ?case
      by (auto simp: p closeSubscriberLocked_def chans_def)
  next
    case 2
    with Cons.IH(2) show ?case
      by (auto simp: p closeSubscriberLocked_def AList.delete_eq
          intro!: arg_cong [where f = "\<lambda>x. rs_subscribers_update (\<lambda>_. x) st"] filter_cong)
  }
qed (simp_all add: chans_def)

section \<open>Publication\<close>

lemma record_event_commit:
  assumes "ev_Seq e > rs_lastPublished st"
  shows "record_event st e = st\<lparr>rs_events := rs_events st @ [e],
      rs_eventBytes := rs_eventBytes st + eventSize e, rs_lastPublished := ev_Seq e\<rparr>"
  using assms by (simp add: record_event_def)

lemma accepted_Seq:
  "accepted marshal r now st ev = Some e \<Longrightarrow> rs_lastPublished st < ev_Seq e \<and> \<not> rs_closed st"
  by (auto simp: accepted_def Let_def not_le split: if_splits)

lemma ring_sorted_append:
  assumes "run_inv cfg st" "rs_lastPublished st < ev_Seq e"
  shows "sorted_wrt (<) (map ev_Seq (rs_events st @ [e]))"
  using assms by (force simp: run_inv_def sorted_wrt_append)

text \<open>The state of a run that holds a new event, before the ring is trimmed.\<close>

lemma publish_new_exact:
  assumes inv: "run_inv cfg st" and cfg: "cfg_ok cfg" and new: "rs_lastPublished st < ev_Seq ev"
    and st': "st' = st \<or> st' = st\<lparr>rs_nextSeq := rs_nextSeq st + 1\<rparr> \<and> ev_Seq ev = rs_nextSeq st \<and> rs_nextSeq st \<noteq> - 1"
  shows "publish_new cfg heap st' ev =
    (if ring_diverges cfg st (cloneEvent ev) then None
     else Some (notifySubscribersLocked (cloneEvent ev) heap (published cfg st (cloneEvent ev))))"
proof -
  let ?e = "cloneEvent ev"
  let ?c = "(commit_event st ?e)\<lparr>rs_events := rs_events st @ [?e],
        rs_eventBytes := rs_eventBytes st + eventSize ?e\<rparr>"
  have n: "rs_nextSeq (if rs_nextSeq st' \<le> ev_Seq ev then st'\<lparr>rs_nextSeq := ev_Seq ev + 1\<rparr> else st') =
      (if rs_nextSeq st \<le> ev_Seq ev then ev_Seq ev + 1 else rs_nextSeq st)"
    using st' u64_less_Suc [of "rs_nextSeq st"] by auto
  have "publish_new cfg heap st' ev =
      map_option (notifySubscribersLocked ?e heap)
        (trimEventsLocked ?c (cfg_MaxEvents cfg) (cfg_MaxBytes cfg))"
  proof -
    have "(let st = (if ev_Seq ev \<ge> rs_nextSeq st' then st'\<lparr>rs_nextSeq := ev_Seq ev + 1\<rparr> else st');
               st = record_event st ?e;
               st = (if ev_Kind ?e = StreamSnapshot then st\<lparr>rs_snapshot := Some (cloneEvent ?e)\<rparr> else st)
           in if isTerminalKind (ev_Kind ?e) then st\<lparr>rs_terminal := Some (cloneEvent ?e)\<rparr> else st) = ?c"
      using new st' n
      by (intro run_state.equality) (auto simp: record_event_def commit_event_def is_term_def Let_def)
    then show ?thesis by (simp only: publish_new_def Let_def)
  qed
  moreover have "sorted_wrt (<) (map ev_Seq (rs_events ?c))"
    using ring_sorted_append [OF inv, of ?e] new by simp
  moreover have "rs_eventBytes ?c = ring_bytes (rs_events ?c)"
    using inv by (simp add: run_inv_def)
  ultimately show ?thesis
    by (simp add: trimEventsLocked_exact [OF cfg] ring_diverges_def published_def ring_append_def)
qed

lemma publish_locked_exact:
  assumes inv: "run_inv cfg st" and cfg: "cfg_ok cfg" and wrap: "rs_nextSeq st \<noteq> - 1"
  shows "publish_locked marshal cfg now heap st ev =
    (case accepted marshal (ev_RunID ev) now st ev of
       None \<Rightarrow> Some (heap, st)
     | Some e \<Rightarrow> if ring_diverges cfg st e then None
                 else Some (notifySubscribersLocked e heap (published cfg st e)))"
proof -
  have lt: "rs_lastPublished st < rs_nextSeq st" using inv by (simp add: run_inv_def)
  then have nz: "rs_nextSeq st \<noteq> 0" by auto
  let ?n = "normalizeEvent marshal ev (ev_RunID ev) now"
  show ?thesis
  proof (cases "ev_Seq ev = 0")
    case True
    with lt nz wrap show ?thesis
      using publish_new_exact [OF inv cfg, of "?n\<lparr>ev_Seq := rs_nextSeq st\<rparr>" "st\<lparr>rs_nextSeq := rs_nextSeq st + 1\<rparr>" heap]
      by (simp add: publish_locked_def assign_seq_def next_seq_def accepted_def Let_def)
  next
    case False
    then show ?thesis
      using publish_new_exact [OF inv cfg, of ?n st heap]
      by (simp add: publish_locked_def assign_seq_def accepted_def Let_def)
  qed
qed

lemma close_publish_exact:
  assumes inv: "run_inv cfg st" and cfg: "cfg_ok cfg" and new: "rs_lastPublished st < ev_Seq ev"
    and st': "st' = st \<or> st' = st\<lparr>rs_nextSeq := rs_nextSeq st + 1\<rparr> \<and> ev_Seq ev = rs_nextSeq st \<and> rs_nextSeq st \<noteq> - 1"
  shows "close_publish cfg heap st' ev =
    (if ring_diverges cfg st (cloneEvent ev) then None
     else Some (notifySubscribersLocked (cloneEvent ev) heap
       ((published cfg st (cloneEvent ev))\<lparr>rs_snapshot := rs_snapshot st, rs_terminal := Some (cloneEvent ev)\<rparr>)))"
proof -
  let ?e = "cloneEvent ev"
  let ?c = "(commit_event st ?e)\<lparr>rs_events := rs_events st @ [?e],
        rs_eventBytes := rs_eventBytes st + eventSize ?e, rs_snapshot := rs_snapshot st,
        rs_terminal := Some ?e\<rparr>"
  have n: "(if rs_nextSeq st' \<le> ev_Seq ev then ev_Seq ev + 1 else rs_nextSeq st') =
      (if rs_nextSeq st \<le> ev_Seq ev then ev_Seq ev + 1 else rs_nextSeq st)"
    using st' u64_less_Suc [of "rs_nextSeq st"] by auto
  have "close_publish cfg heap st' ev =
      map_option (notifySubscribersLocked ?e heap)
        (trimEventsLocked ?c (cfg_MaxEvents cfg) (cfg_MaxBytes cfg))"
  proof -
    have "(let st = record_event st' ?e;
               st = (if ev_Seq ?e \<ge> rs_nextSeq st then st\<lparr>rs_nextSeq := ev_Seq ?e + 1\<rparr> else st)
           in st\<lparr>rs_terminal := Some (cloneEvent ?e)\<rparr>) = ?c"
      using new st' n
      by (intro run_state.equality) (auto simp: record_event_def commit_event_def Let_def)
    then show ?thesis using new st' by (auto simp: close_publish_def Let_def)
  qed
  moreover have "sorted_wrt (<) (map ev_Seq (rs_events ?c))"
    using ring_sorted_append [OF inv, of ?e] new by simp
  moreover have "rs_eventBytes ?c = ring_bytes (rs_events ?c)"
    using inv by (simp add: run_inv_def)
  moreover have "?c\<lparr>rs_events := ring_append cfg st ?e, rs_eventBytes := ring_bytes (ring_append cfg st ?e)\<rparr> =
      (published cfg st ?e)\<lparr>rs_snapshot := rs_snapshot st, rs_terminal := Some ?e\<rparr>"
    by (intro run_state.equality) (simp_all add: published_def)
  ultimately show ?thesis
    by (simp only: trimEventsLocked_exact [OF cfg])
      (simp add: ring_diverges_def ring_append_def)
qed

text \<open>Closing a run publishes its last event, then closes every subscriber.\<close>

definition close_state :: "gotime \<Rightarrow> 'p run_state \<Rightarrow> 'p run_state" where
  "close_state now st = st\<lparr>rs_closed := True, rs_closedAt := now, rs_subscribers := []\<rparr>"

definition close_chans :: "'p chan_heap \<Rightarrow> (u64 \<times> subscriber) list \<Rightarrow> 'p chan_heap" where
  "close_chans heap subs = (\<lambda>a. if a \<in> chans subs then (heap a)\<lparr>ch_closed := True\<rparr> else heap a)"

lemma close_finish_exact:
  assumes "run_inv cfg st"
  shows "close_finish now (heap, st) = (close_chans heap (rs_subscribers st), close_state now st)"
  unfolding close_finish_def Let_def prod.case
proof (rule prod_eqI)
  have *: "\<forall>(sid, sub)\<in>set (rs_subscribers st). \<not> sub_closed sub"
    using assms by (auto simp: run_inv_def)
  show "fst (close_subs heap (st\<lparr>rs_closed := True, rs_closedAt := now\<rparr>)
          (rs_subscribers (st\<lparr>rs_closed := True, rs_closedAt := now\<rparr>))) =
      fst (close_chans heap (rs_subscribers st), close_state now st)"
    by (rule ext) (simp add: close_subs_effect(1) [OF *] close_chans_def)
  show "snd (close_subs heap (st\<lparr>rs_closed := True, rs_closedAt := now\<rparr>)
          (rs_subscribers (st\<lparr>rs_closed := True, rs_closedAt := now\<rparr>))) =
      snd (close_chans heap (rs_subscribers st), close_state now st)"
    by (simp add: close_subs_effect(2) [OF *] close_state_def)
      (intro run_state.equality, auto simp: filter_empty_conv image_iff)
qed

lemma close_publish_skip: "ev_Seq ev \<le> rs_lastPublished st \<Longrightarrow> close_publish cfg heap st ev = Some (heap, st)"
  using leD [of "ev_Seq ev" "rs_lastPublished st"] by (simp add: close_publish_def)

lemma close_locked_exact:
  assumes inv: "run_inv cfg st" and cfg: "cfg_ok cfg" and wrap: "rs_nextSeq st \<noteq> - 1"
    and opn: "\<not> rs_closed st"
  shows "close_locked marshal cfg r now heap st ev =
    (case accepted marshal r now st ev of
       None \<Rightarrow> Some (close_finish now (heap, st))
     | Some e \<Rightarrow>
         if ring_diverges cfg st e then None
         else Some (close_finish now (notifySubscribersLocked e heap
                ((published cfg st e)\<lparr>rs_snapshot := rs_snapshot st, rs_terminal := Some e\<rparr>))))"
proof -
  have lt: "rs_lastPublished st < rs_nextSeq st" using inv by (simp add: run_inv_def)
  then have nz: "rs_nextSeq st \<noteq> 0" and nle: "\<not> rs_nextSeq st \<le> rs_lastPublished st" by auto
  let ?n = "normalizeEvent marshal ev r now"
  show ?thesis
  proof (cases "ev_Seq ev = 0")
    case True
    with lt nz nle wrap opn show ?thesis
      using close_publish_exact [OF inv cfg, of "?n\<lparr>ev_Seq := rs_nextSeq st\<rparr>" "st\<lparr>rs_nextSeq := rs_nextSeq st + 1\<rparr>" heap]
      by (simp add: close_locked_def assign_seq_def next_seq_def accepted_def Let_def)
  next
    case False
    then show ?thesis
    proof (cases "ev_Seq ev \<le> rs_lastPublished st")
      case True
      with False opn show ?thesis
        by (simp add: close_locked_def assign_seq_def accepted_def close_publish_skip)
    next
      case new: False
      then have "rs_lastPublished st < ev_Seq ?n" by simp
      from close_publish_exact [OF inv cfg this, of st heap] show ?thesis
        by (simp add: close_locked_def assign_seq_def accepted_def Let_def False opn new)
    qed
  qed
qed

section \<open>The run invariant is kept\<close>

lemma ring_append_limit:
  assumes "\<not> ring_diverges cfg st e"
    "over_limit (cfg_MaxEvents cfg) (cfg_MaxBytes cfg) (ring_append cfg st e)"
  shows "list_all is_term (ring_append cfg st e) \<and> length (ring_append cfg st e) \<le> 1"
proof -
  have tm: "list_all is_term (ring_append cfg st e)"
    using evict_limit assms(2) by (simp add: ring_append_def)
  then have "ring_append cfg st e = filter is_term (ring_append cfg st e)"
    by (simp add: list_all_iff)
  also have "\<dots> = filter is_term (rs_events st @ [e])"
    unfolding ring_append_def by (rule evict_terminals)
  finally have "ring_append cfg st e = filter is_term (rs_events st @ [e])" .
  with assms tm show ?thesis by (auto simp: ring_diverges_def trim_diverges_def)
qed

lemma ring_append_sorted:
  assumes "run_inv cfg st" "rs_lastPublished st < ev_Seq e"
  shows "sorted_wrt (<) (map ev_Seq (ring_append cfg st e))"
proof -
  have "subseq (map ev_Seq (ring_append cfg st e)) (map ev_Seq (rs_events st @ [e]))"
    unfolding ring_append_def by (rule subseq_map [OF subseq_evict])
  then show ?thesis using ring_sorted_append [OF assms] by (rule subseq_sorted_wrt)
qed

lemma ring_append_set: "set (ring_append cfg st e) \<subseteq> insert e (set (rs_events st))"
  using set_evict by (fastforce simp: ring_append_def)

lemma published_inv:
  assumes inv: "run_inv cfg st" and new: "rs_lastPublished st < ev_Seq e" and wrap: "ev_Seq e \<noteq> - 1"
    and ret: "\<not> ring_diverges cfg st e" and opn: "\<not> rs_closed st"
  shows "run_inv cfg (published cfg st e)"
proof -
  have "0 < ev_Seq x \<and> ev_Seq x \<le> ev_Seq e" if "x \<in> set (ring_append cfg st e)" for x
  proof (cases "x = e")
    case True
    then show ?thesis using le_less_trans [OF word_zero_le new] by simp
  next
    case False
    with that ring_append_set [of cfg st e] have "x \<in> set (rs_events st)" by auto
    with inv have "0 < ev_Seq x \<and> ev_Seq x \<le> rs_lastPublished st" by (simp add: run_inv_def)
    with new show ?thesis by (meson less_imp_le order_trans)
  qed
  moreover have "ev_Seq e < (if rs_nextSeq st \<le> ev_Seq e then ev_Seq e + 1 else rs_nextSeq st)"
    using u64_less_Suc [OF wrap] by auto
  ultimately show ?thesis
    using inv opn ring_append_sorted [OF inv new] ring_append_limit [OF ret]
    by (auto simp: run_inv_def published_def commit_event_def)
qed

lemma run_inv_filter_subs:
  assumes "run_inv cfg st"
  shows "run_inv cfg (st\<lparr>rs_subscribers := filter P (rs_subscribers st)\<rparr>)"
  using assms by (auto simp: run_inv_def distinct_map_filter)

lemma run_inv_new: "cfg_ok cfg \<Longrightarrow> run_inv cfg newRunState"
  by (simp add: run_inv_def newRunState_def over_limit_def cfg_ok_def)

lemma prepare_inv:
  assumes "run_inv cfg st" "rs_nextSeq st \<noteq> - 1"
  shows "run_inv cfg (snd (prepare_locked marshal r now st ev))"
  using assms u64_less_Suc [of "rs_nextSeq st"]
  by (auto simp: prepare_locked_def next_seq_def Let_def run_inv_def)

lemma run_inv_close_state: "run_inv cfg st \<Longrightarrow> run_inv cfg (close_state now st)"
  by (simp add: run_inv_def close_state_def)

lemma run_inv_snap_term [simp]:
  "run_inv cfg (st\<lparr>rs_snapshot := a, rs_terminal := b\<rparr>) = run_inv cfg st"
  by (simp add: run_inv_def)

end
