(* ===== verification/Event_Hub_Live.thy ===== *)
theory Event_Hub_Live
  imports Event_Hub_Inv
begin

text \<open>
  The whole hub as a system of atomic operations: the invariant every operation keeps, and the
  delivery guarantee a subscriber gets. A \<open>session\<close> follows one live channel from the
  \<^verbatim>\<open>Subscribe\<close> call that made it, through any interleaving of the operations of the hub by any
  clients and publishers, to what its consumer has received.
\<close>

section \<open>Operations as steps\<close>

datatype 'p hub_op =
    Op_Prepare int "'p stream_event"
  | Op_Publish "'p stream_event"
  | Op_Subscribe int u64
  | Op_Cancel int "'p subscription"
  | Op_Snapshot int
  | Op_CloseRun int "'p stream_event"
  | Op_Purge
  | Op_Recv nat

text \<open>A receive from a channel takes the oldest buffered event.\<close>

definition recv :: "'p memory_hub \<Rightarrow> nat \<Rightarrow> 'p memory_hub" where
  "recv h a = h\<lparr>hub_heap := (hub_heap h)(a := (hub_heap h a)\<lparr>ch_buf := tl (ch_buf (hub_heap h a))\<rparr>)\<rparr>"

fun hub_exec :: "('p \<Rightarrow> string option) \<Rightarrow> gotime \<Rightarrow> 'p memory_hub \<Rightarrow> 'p hub_op \<Rightarrow> 'p memory_hub option" where
  "hub_exec marshal now h (Op_Prepare r ev) = Some (snd (Prepare marshal now h r ev))"
| "hub_exec marshal now h (Op_Publish ev) = PublishPrepared marshal now h ev"
| "hub_exec marshal now h (Op_Subscribe r s) = Some (snd (Subscribe marshal now h r s))"
| "hub_exec marshal now h (Op_Cancel r sb) = Some (cancel h r sb)"
| "hub_exec marshal now h (Op_Snapshot r) = Some (snd (Snapshot marshal now h r))"
| "hub_exec marshal now h (Op_CloseRun r ev) = CloseRun marshal now h r ev"
| "hub_exec marshal now h Op_Purge = Some (PurgeExpired h now)"
| "hub_exec marshal now h (Op_Recv a) = Some (recv h a)"

section \<open>The hub invariant\<close>

definition chan_inv :: "'p chan_heap \<Rightarrow> nat \<Rightarrow> 'p run_state \<Rightarrow> bool" where
  "chan_inv heap nxt st \<longleftrightarrow>
     distinct (map (sub_ch \<circ> snd) (rs_subscribers st)) \<and>
     (\<forall>a\<in>chans (rs_subscribers st). a < nxt \<and> \<not> ch_closed (heap a))"

definition hub_inv :: "'p memory_hub \<Rightarrow> bool" where
  "hub_inv h \<longleftrightarrow>
     cfg_ok (hub_config h) \<and> distinct (map fst (hub_runs h)) \<and>
     (\<forall>r st. map_of (hub_runs h) r = Some st \<longrightarrow>
        run_inv (hub_config h) st \<and> chan_inv (hub_heap h) (hub_next h) st) \<and>
     (\<forall>r st r' st'. map_of (hub_runs h) r = Some st \<longrightarrow> map_of (hub_runs h) r' = Some st' \<longrightarrow> r \<noteq> r' \<longrightarrow>
        chans (rs_subscribers st) \<inter> chans (rs_subscribers st') = {})"

text \<open>The counters an operation increments are not at their largest value.\<close>

definition run_of :: "'p memory_hub \<Rightarrow> int \<Rightarrow> 'p run_state" where
  "run_of h r = (case map_of (hub_runs h) r of Some st \<Rightarrow> st | None \<Rightarrow> newRunState)"

fun op_ok :: "'p memory_hub \<Rightarrow> 'p hub_op \<Rightarrow> bool" where
  "op_ok h (Op_Prepare r ev) \<longleftrightarrow> rs_nextSeq (run_of h r) \<noteq> - 1"
| "op_ok h (Op_Publish ev) \<longleftrightarrow> rs_nextSeq (run_of h (ev_RunID ev)) \<noteq> - 1 \<and> ev_Seq ev \<noteq> - 1"
| "op_ok h (Op_Subscribe r s) \<longleftrightarrow> rs_nextSubscriber (run_of h r) \<noteq> - 1"
| "op_ok h (Op_CloseRun r ev) \<longleftrightarrow> rs_nextSeq (run_of h r) \<noteq> - 1 \<and> ev_Seq ev \<noteq> - 1"
| "op_ok h _ \<longleftrightarrow> True"

section \<open>Updating one run\<close>

lemma hub_inv_run:
  "hub_inv h \<Longrightarrow> map_of (hub_runs h) r = Some st \<Longrightarrow>
     run_inv (hub_config h) st \<and> chan_inv (hub_heap h) (hub_next h) st"
  by (simp add: hub_inv_def)

lemma hub_inv_cfg: "hub_inv h \<Longrightarrow> cfg_ok (hub_config h)"
  by (simp add: hub_inv_def)

lemma putRun_sel [simp]:
  "map_of (hub_runs (putRun h r heap st)) = (map_of (hub_runs h))(r \<mapsto> st)"
  "hub_heap (putRun h r heap st) = heap" "hub_config (putRun h r heap st) = hub_config h"
  "hub_next (putRun h r heap st) = hub_next h"
  by (simp_all add: putRun_def update_conv')

lemma hub_inv_putRun:
  assumes inv: "hub_inv h" and run: "run_inv (hub_config h) st'" and ch: "chan_inv heap' (hub_next h) st'"
    and frame: "\<And>a. a \<notin> C \<Longrightarrow> heap' a = hub_heap h a"
    and own: "\<And>r' st''. map_of (hub_runs h) r' = Some st'' \<Longrightarrow> r' \<noteq> r \<Longrightarrow>
        chans (rs_subscribers st'') \<inter> (C \<union> chans (rs_subscribers st')) = {}"
  shows "hub_inv (putRun h r heap' st')"
proof -
  have frame': "heap' a = hub_heap h a"
    if "map_of (hub_runs h) r' = Some st''" "r' \<noteq> r" "a \<in> chans (rs_subscribers st'')" for r' st'' a
    using that own frame by blast
  have "chan_inv heap' (hub_next h) st''" if "map_of (hub_runs h) r' = Some st''" "r' \<noteq> r" for r' st''
    using that inv frame' [OF that] by (auto simp: hub_inv_def chan_inv_def)
  moreover have "distinct (map fst (hub_runs (putRun h r heap' st')))"
    using inv by (simp add: hub_inv_def putRun_def distinct_update)
  ultimately show ?thesis
    using inv run ch own by (auto simp: hub_inv_def split: if_splits) blast+
qed

text \<open>A hub in which the state of run \<open>r\<close> exists, and that is otherwise unchanged.\<close>

definition run_ready :: "'p memory_hub \<Rightarrow> int \<Rightarrow> 'p memory_hub \<Rightarrow> bool" where
  "run_ready h r h' \<longleftrightarrow> hub_inv h' \<and> map_of (hub_runs h') = (map_of (hub_runs h))(r \<mapsto> run_of h r) \<and>
     hub_heap h' = hub_heap h \<and> hub_next h' = hub_next h \<and> hub_config h' = hub_config h"

lemma getRun_create:
  assumes "hub_inv h" "r \<noteq> 0"
  obtains h' where "getRun h r True = Some (h', run_of h r)" "run_ready h r h'"
proof -
  have cfg: "h\<lparr>hub_config := withDefaults (hub_config h)\<rparr> = h"
    using withDefaults_id [OF hub_inv_cfg [OF assms(1)]] by simp
  show thesis
  proof (cases "map_of (hub_runs h) r")
    case None
    have "hub_inv (putRun h r (hub_heap h) newRunState)"
      by (rule hub_inv_putRun [where C = "{}"])
        (use assms run_inv_new [OF hub_inv_cfg [OF assms(1)]] in
          \<open>auto simp: chan_inv_def chans_def newRunState_def\<close>)
    with None assms(2) cfg show thesis
      by (intro that [of "putRun h r (hub_heap h) newRunState"])
        (auto simp: getRun_def run_of_def run_ready_def putRun_def update_conv')
  next
    case (Some st)
    with assms cfg show thesis
      by (intro that [of h]) (auto simp: getRun_def run_of_def run_ready_def fun_upd_idem)
  qed
qed

lemma run_of_inv:
  assumes "hub_inv h"
  shows "run_inv (hub_config h) (run_of h r)" "chan_inv (hub_heap h) (hub_next h) (run_of h r)"
proof -
  have "run_inv (hub_config h) newRunState"
    by (rule run_inv_new [OF hub_inv_cfg [OF assms]])
  moreover have "chan_inv (hub_heap h) (hub_next h) newRunState"
    by (simp add: chan_inv_def chans_def newRunState_def)
  ultimately show "run_inv (hub_config h) (run_of h r)" "chan_inv (hub_heap h) (hub_next h) (run_of h r)"
    using assms by (auto simp: run_of_def hub_inv_def split: option.split)
qed

lemma run_chans_disjoint:
  assumes "hub_inv h" "map_of (hub_runs h) r' = Some st'" "r' \<noteq> r"
  shows "chans (rs_subscribers st') \<inter> chans (rs_subscribers (run_of h r)) = {}"
  using assms unfolding hub_inv_def run_of_def
  by (auto simp: chans_def newRunState_def split: option.split)

section \<open>What an operation does to a channel\<close>

text \<open>The events an operation makes visible on run \<open>r\<close>.\<close>

fun visible_on :: "('p \<Rightarrow> string option) \<Rightarrow> gotime \<Rightarrow> 'p memory_hub \<Rightarrow> int \<Rightarrow> 'p hub_op \<Rightarrow> 'p stream_event list" where
  "visible_on marshal now h r (Op_Publish ev) =
     (if ev_RunID ev = r \<and> r \<noteq> 0
      then (case accepted marshal r now (run_of h r) ev of Some e \<Rightarrow> [e] | None \<Rightarrow> []) else [])"
| "visible_on marshal now h r (Op_CloseRun r' ev) =
     (if r' = r \<and> r \<noteq> 0
      then (case accepted marshal r now (run_of h r) ev of Some e \<Rightarrow> [e] | None \<Rightarrow> []) else [])"
| "visible_on marshal now h r _ = []"

definition subs_of :: "'p memory_hub \<Rightarrow> int \<Rightarrow> nat set" where
  "subs_of h r = chans (rs_subscribers (run_of h r))"

text \<open>How a registered channel of run \<open>r\<close> may evolve while the events \<open>E\<close> become visible: it stays
  open and gets exactly \<open>E\<close>, or it is closed.\<close>

definition chan_step :: "'p memory_hub \<Rightarrow> 'p memory_hub \<Rightarrow> int \<Rightarrow> nat \<Rightarrow> 'p stream_event list \<Rightarrow> bool" where
  "chan_step h h' r a E \<longleftrightarrow>
     (let c = hub_heap h a; c' = hub_heap h' a in
      if \<not> ch_closed c'
      then ch_buf c' = ch_buf c @ E \<and> a \<in> subs_of h' r \<and>
           rs_lastPublished (run_of h r) \<le> rs_lastPublished (run_of h' r) \<and>
           (\<forall>e\<in>set E. ev_Seq e \<le> rs_lastPublished (run_of h' r))
      else ch_buf c' = ch_buf c \<or> ch_buf c' = ch_buf c @ E)"

definition step_ok :: "'p memory_hub \<Rightarrow> 'p memory_hub \<Rightarrow> int \<Rightarrow> nat \<Rightarrow> 'p stream_event list \<Rightarrow> bool" where
  "step_ok h h' r a E \<longleftrightarrow>
     hub_inv h' \<and> hub_next h \<le> hub_next h' \<and>
     (\<forall>e\<in>set E. rs_lastPublished (run_of h r) < ev_Seq e) \<and> sorted_wrt (<) (map ev_Seq E) \<and>
     (a < hub_next h \<longrightarrow> a \<in> subs_of h r \<longrightarrow> chan_step h h' r a E) \<and>
     (a < hub_next h \<longrightarrow> (\<forall>r'. a \<notin> subs_of h r') \<longrightarrow> hub_heap h' a = hub_heap h a)"

lemma run_of_putRun [simp]:
  "run_of (putRun h r heap st) r' = (if r' = r then st else run_of h r')"
  by (simp add: run_of_def)

lemma run_of_get:
  assumes "map_of (hub_runs h') = (map_of (hub_runs h))(r \<mapsto> run_of h r)"
  shows "run_of h' r' = run_of h r'"
  using assms by (auto simp: run_of_def)

lemma subs_of_open:
  assumes "hub_inv h" "a \<in> subs_of h r"
  shows "\<not> ch_closed (hub_heap h a)" "a < hub_next h"
  using run_of_inv(2) [OF assms(1), of r] assms(2) by (auto simp: chan_inv_def subs_of_def)

lemma subs_of_disjoint:
  assumes "hub_inv h" "a \<in> subs_of h r" "a \<in> subs_of h r'"
  shows "r = r'"
proof (rule ccontr)
  assume "r \<noteq> r'"
  have "map_of (hub_runs h) r' \<noteq> None"
    using assms(3) by (auto simp: subs_of_def run_of_def chans_def newRunState_def split: option.splits)
  then obtain st' where "map_of (hub_runs h) r' = Some st'" by auto
  with run_chans_disjoint [OF assms(1) this, of r] \<open>r \<noteq> r'\<close> assms(2,3) show False
    by (auto simp: subs_of_def run_of_def)
qed

text \<open>An update of run \<open>r0\<close> that touches only channels of \<open>r0\<close>.\<close>

lemma step_ok_put:
  assumes inv: "hub_inv h" and get: "run_ready h r0 h1"
    and run: "run_inv (hub_config h) st'" and ch: "chan_inv heap' (hub_next h) st'"
    and sub: "chans (rs_subscribers st') \<subseteq> subs_of h r0"
    and frame: "\<And>a. a \<notin> subs_of h r0 \<Longrightarrow> heap' a = hub_heap h a"
    and E: "\<And>e. e \<in> set E \<Longrightarrow> rs_lastPublished (run_of h r) < ev_Seq e" "sorted_wrt (<) (map ev_Seq E)"
    and other: "r \<noteq> r0 \<Longrightarrow> E = []"
    and own: "r = r0 \<Longrightarrow> a \<in> subs_of h r0 \<Longrightarrow>
        chan_step h (putRun h1 r0 heap' st') r a E"
  shows "step_ok h (putRun h1 r0 heap' st') r a E"
proof -
  have h1: "hub_inv h1" "map_of (hub_runs h1) = (map_of (hub_runs h))(r0 \<mapsto> run_of h r0)"
    "hub_heap h1 = hub_heap h" "hub_next h1 = hub_next h" "hub_config h1 = hub_config h"
    using get by (simp_all add: run_ready_def)
  have ro: "run_of h1 r' = run_of h r'" for r' using run_of_get [OF h1(2)] .
  have "hub_inv (putRun h1 r0 heap' st')"
  proof (rule hub_inv_putRun [where C = "subs_of h r0"])
    show "hub_inv h1" "run_inv (hub_config h1) st'" "chan_inv heap' (hub_next h1) st'"
      using h1 run ch by simp_all
    show "heap' b = hub_heap h1 b" if "b \<notin> subs_of h r0" for b using frame [OF that] h1 by simp
    fix r' st'' assume "map_of (hub_runs h1) r' = Some st''" "r' \<noteq> r0"
    with h1(2) have "map_of (hub_runs h) r' = Some st''" by simp
    from run_chans_disjoint [OF inv this \<open>r' \<noteq> r0\<close>] sub
    show "chans (rs_subscribers st'') \<inter> (subs_of h r0 \<union> chans (rs_subscribers st')) = {}"
      by (auto simp: subs_of_def)
  qed
  moreover have "chan_step h (putRun h1 r0 heap' st') r a E" if "a \<in> subs_of h r" "r \<noteq> r0"
  proof -
    have "a \<notin> subs_of h r0" using subs_of_disjoint [OF inv that(1)] that(2) by auto
    with that other ro frame subs_of_open [OF inv that(1)] show ?thesis
      by (auto simp: chan_step_def subs_of_def)
  qed
  ultimately show ?thesis
    using E own frame h1(4) by (auto simp: step_ok_def)
qed

lemma step_ok_Prepare:
  assumes "hub_inv h" "op_ok h (Op_Prepare r0 ev)"
  shows "step_ok h (snd (Prepare marshal now h r0 ev)) r a []"
proof (cases "r0 = 0")
  case True
  then show ?thesis
    using assms subs_of_open [OF assms(1)] by (auto simp: Prepare_def getRun_def step_ok_def chan_step_def)
next
  case False
  obtain h1 where h1: "getRun h r0 True = Some (h1, run_of h r0)" "run_ready h r0 h1"
    using getRun_create [OF assms(1) False] .
  define st' where "st' = snd (prepare_locked marshal r0 now (run_of h r0) ev)"
  have sub: "rs_subscribers st' = rs_subscribers (run_of h r0)" "rs_lastPublished st' = rs_lastPublished (run_of h r0)"
    by (simp_all add: st'_def prepare_locked_def next_seq_def Let_def)
  have "step_ok h (putRun h1 r0 (hub_heap h) st') r a []"
    by (rule step_ok_put [OF assms(1) h1(2)])
      (use sub prepare_inv [OF run_of_inv(1) [OF assms(1), of r0]] assms(2)
         run_of_inv(2) [OF assms(1), of r0] subs_of_open [OF assms(1)] in
       \<open>auto simp: chan_inv_def subs_of_def chan_step_def st'_def\<close>)
  then show ?thesis
    using h1 by (simp add: Prepare_def st'_def run_ready_def case_prod_unfold)
qed

text \<open>Delivery of one event to the channels of a run.\<close>

lemma notify_chan_inv:
  fixes e :: "'p stream_event"
  assumes inv: "run_inv cfg st" and ch: "chan_inv heap nxt st"
  defines "heap' \<equiv> fst (notifySubscribersLocked e heap st)"
    and "st' \<equiv> snd (notifySubscribersLocked e heap st)"
  shows "chan_inv heap' nxt st'" and "run_inv cfg st'"
    and "chans (rs_subscribers st') = {a \<in> chans (rs_subscribers st). has_room heap a}"
    and "\<And>a. heap' a = (if a \<in> chans (rs_subscribers st)
           then if has_room heap a then (heap a)\<lparr>ch_buf := ch_buf (heap a) @ [cloneEvent e]\<rparr>
                else (heap a)\<lparr>ch_closed := True\<rparr>
           else heap a)"
    and "\<exists>P. st' = st\<lparr>rs_subscribers := filter P (rs_subscribers st)\<rparr>"
proof -
  have d: "distinct (map (sub_ch \<circ> snd) (rs_subscribers st))" using ch by (simp add: chan_inv_def)
  note st' = notifySubscribersLocked_state [OF inv d, of e heap, folded st'_def]
  show heap': "heap' a = (if a \<in> chans (rs_subscribers st)
           then if has_room heap a then (heap a)\<lparr>ch_buf := ch_buf (heap a) @ [cloneEvent e]\<rparr>
                else (heap a)\<lparr>ch_closed := True\<rparr>
           else heap a)" for a
    unfolding heap'_def by (rule notifySubscribersLocked_heap [OF inv d])
  show "run_inv cfg st'" unfolding st' by (rule run_inv_filter_subs [OF inv])
  show chans': "chans (rs_subscribers st') = {a \<in> chans (rs_subscribers st). has_room heap a}"
    unfolding st' by (force simp: chans_def)
  have "distinct (map (sub_ch \<circ> snd) (rs_subscribers st'))"
    unfolding st' using d by (simp add: distinct_map_filter)
  moreover have "a < nxt \<and> \<not> ch_closed (heap' a)" if "a \<in> chans (rs_subscribers st')" for a
    using that ch by (auto simp: chans' heap' chan_inv_def)
  ultimately show "chan_inv heap' nxt st'" by (simp add: chan_inv_def)
  show "\<exists>P. st' = st\<lparr>rs_subscribers := filter P (rs_subscribers st)\<rparr>" using st' by blast
qed

lemma published_sel [simp]:
  "rs_subscribers (published cfg st e) = rs_subscribers st" "rs_lastPublished (published cfg st e) = ev_Seq e"
  by (simp_all add: published_def commit_event_def)

lemma accepted_clone: "accepted marshal r now st ev = Some e \<Longrightarrow> cloneEvent e = e"
  by (auto simp: accepted_def Let_def split: if_splits)

lemma accepted_no_wrap:
  "accepted marshal r now st ev = Some e \<Longrightarrow> rs_nextSeq st \<noteq> - 1 \<Longrightarrow> ev_Seq ev \<noteq> - 1 \<Longrightarrow> ev_Seq e \<noteq> - 1"
  by (auto simp: accepted_def Let_def split: if_splits)

lemma step_ok_refl:
  assumes "hub_inv h"
  shows "step_ok h h r a []"
  using assms subs_of_open [OF assms] by (auto simp: step_ok_def chan_step_def)

lemma step_ok_Publish:
  assumes inv: "hub_inv h" and ok: "op_ok h (Op_Publish ev)"
    and ret: "PublishPrepared marshal now h ev = Some h'"
  shows "step_ok h h' r a (visible_on marshal now h r (Op_Publish ev))"
proof (cases "ev_RunID ev = 0")
  case True
  with ret step_ok_refl [OF inv] show ?thesis by (simp add: PublishPrepared_def getRun_def)
next
  case r0: False
  let ?r0 = "ev_RunID ev" and ?st = "run_of h (ev_RunID ev)"
  obtain h1 where get: "getRun h ?r0 True = Some (h1, ?st)" and ready: "run_ready h ?r0 h1"
    using getRun_create [OF inv r0] .
  then have h1: "getRun h ?r0 True = Some (h1, ?st)" "hub_heap h1 = hub_heap h" "hub_config h1 = hub_config h"
    by (simp_all add: run_ready_def)
  note run = run_of_inv [OF inv, of ?r0] and cfg = hub_inv_cfg [OF inv]
  have wrap: "rs_nextSeq ?st \<noteq> - 1" "ev_Seq ev \<noteq> - 1" using ok by simp_all
  note exact = publish_locked_exact [OF run(1) cfg wrap(1), of marshal now "hub_heap h" ev]
  show ?thesis
  proof (cases "accepted marshal ?r0 now ?st ev")
    case None
    with ret h1 exact have "h' = putRun h1 ?r0 (hub_heap h) ?st" by (simp add: PublishPrepared_def)
    moreover have "step_ok h (putRun h1 ?r0 (hub_heap h) ?st) r a []"
      by (rule step_ok_put [OF inv ready])
        (use run subs_of_open [OF inv] in \<open>auto simp: chan_step_def subs_of_def\<close>)
    ultimately show ?thesis using None by (auto split: option.split)
  next
    case (Some e)
    note new = accepted_Seq [OF Some, THEN conjunct1] and opn = accepted_Seq [OF Some, THEN conjunct2]
    let ?st1 = "published (hub_config h) ?st e"
    define heap' where "heap' = fst (notifySubscribersLocked e (hub_heap h) ?st1)"
    define st' where "st' = snd (notifySubscribersLocked e (hub_heap h) ?st1)"
    from ret h1 exact Some have div: "\<not> ring_diverges (hub_config h) ?st e"
      and h': "h' = putRun h1 ?r0 heap' st'"
      by (auto simp: PublishPrepared_def heap'_def st'_def case_prod_unfold split: if_splits)
    have inv1: "run_inv (hub_config h) ?st1"
      by (rule published_inv [OF run(1) new accepted_no_wrap [OF Some wrap] div opn])
    have ch1: "chan_inv (hub_heap h) (hub_next h) ?st1" using run(2) by (simp add: chan_inv_def)
    note n = notify_chan_inv [OF inv1 ch1, of e, folded heap'_def st'_def]
    have E: "visible_on marshal now h r (Op_Publish ev) = (if r = ?r0 then [e] else [])"
      using Some r0 by (cases "r = ?r0") simp_all
    have "step_ok h (putRun h1 ?r0 heap' st') r a (if r = ?r0 then [e] else [])"
    proof (rule step_ok_put [OF inv ready n(2,1)])
      show "chans (rs_subscribers st') \<subseteq> subs_of h ?r0" using n(3) by (auto simp: subs_of_def)
      show "heap' b = hub_heap h b" if "b \<notin> subs_of h ?r0" for b
        using that n(4) [of b] by (simp add: subs_of_def)
      show "rs_lastPublished (run_of h r) < ev_Seq x" if "x \<in> set (if r = ?r0 then [e] else [])" for x
        using that new by (cases "r = ?r0") simp_all
      assume r: "r = ?r0" "a \<in> subs_of h ?r0"
      have "rs_lastPublished st' = ev_Seq e" using n(5) by auto
      with r less_imp_le [OF new] n(3,4) subs_of_open [OF inv r(2)]
      show "chan_step h (putRun h1 ?r0 heap' st') r a (if r = ?r0 then [e] else [])"
        by (simp add: chan_step_def subs_of_def accepted_clone [OF Some])
    qed simp_all
    with h' E show ?thesis by simp
  qed
qed

text \<open>An accepted publication, in full.\<close>

lemma publish_prepared_exact:
  assumes inv: "hub_inv h" and ok: "op_ok h (Op_Publish ev)" and r: "ev_RunID ev \<noteq> 0"
    and acc: "accepted marshal (ev_RunID ev) now (run_of h (ev_RunID ev)) ev = Some e"
    and div: "\<not> ring_diverges (hub_config h) (run_of h (ev_RunID ev)) e"
  obtains h1 heap' st' P where "PublishPrepared marshal now h ev = Some (putRun h1 (ev_RunID ev) heap' st')"
    "run_ready h (ev_RunID ev) h1"
    "st' = (published (hub_config h) (run_of h (ev_RunID ev)) e)\<lparr>rs_subscribers := filter P (rs_subscribers (run_of h (ev_RunID ev)))\<rparr>"
    "chans (rs_subscribers st') = {a \<in> subs_of h (ev_RunID ev). has_room (hub_heap h) a}"
    "\<And>a. heap' a = (if a \<notin> subs_of h (ev_RunID ev) then hub_heap h a
       else if has_room (hub_heap h) a then (hub_heap h a)\<lparr>ch_buf := ch_buf (hub_heap h a) @ [e]\<rparr>
       else (hub_heap h a)\<lparr>ch_closed := True\<rparr>)"
proof -
  let ?r = "ev_RunID ev" and ?st = "run_of h (ev_RunID ev)"
  obtain h1 where get: "getRun h ?r True = Some (h1, ?st)" and ready: "run_ready h ?r h1"
    using getRun_create [OF inv r] .
  note run = run_of_inv [OF inv, of ?r]
  have wrap: "rs_nextSeq ?st \<noteq> - 1" "ev_Seq ev \<noteq> - 1" using ok by simp_all
  let ?st1 = "published (hub_config h) ?st e"
  have inv1: "run_inv (hub_config h) ?st1"
    by (rule published_inv [OF run(1) _ accepted_no_wrap [OF acc wrap] div]) (use accepted_Seq [OF acc] in auto)
  have ch1: "chan_inv (hub_heap h) (hub_next h) ?st1" using run(2) by (simp add: chan_inv_def)
  note n = notify_chan_inv [OF inv1 ch1, of e]
  let ?m = "notifySubscribersLocked e (hub_heap h) ?st1"
  have "PublishPrepared marshal now h ev = Some (putRun h1 ?r (fst ?m) (snd ?m))"
    using publish_locked_exact [OF run(1) hub_inv_cfg [OF inv] wrap(1), of marshal now "hub_heap h" ev]
      get ready acc div
    by (simp add: PublishPrepared_def run_ready_def case_prod_unfold)
  moreover obtain P where "snd ?m = ?st1\<lparr>rs_subscribers := filter P (rs_subscribers ?st1)\<rparr>" using n(5) by blast
  ultimately show thesis
    using that [of h1 "fst ?m" "snd ?m" P] ready n(3,4) by (simp add: subs_of_def accepted_clone [OF acc])
qed

lemma transient_never_diverges:
  assumes "run_inv cfg st" "\<not> is_term e"
  shows "\<not> ring_diverges cfg st e"
proof
  assume "ring_diverges cfg st e"
  then have "over_limit (cfg_MaxEvents cfg) (cfg_MaxBytes cfg) (filter is_term (rs_events st))"
    "2 \<le> length (filter is_term (rs_events st))"
    using assms(2) by (simp_all add: ring_diverges_def trim_diverges_def)
  moreover from this have "length (rs_events st) \<le> 1"
    using assms(1) over_limit_filter [of "cfg_MaxEvents cfg" "cfg_MaxBytes cfg" is_term "rs_events st"] by (simp add: run_inv_def)
  ultimately show False using length_filter_le [of is_term "rs_events st"] by simp
qed

text \<open>Closing a run: what happens to the channels of the run.\<close>

lemma close_chan_step:
  assumes run: "run_inv cfg st" and subs: "chans (rs_subscribers st) = S"
  shows "run_inv cfg (snd (close_finish now (heap, st)))"
    and "rs_subscribers (snd (close_finish now (heap, st))) = []"
    and "fst (close_finish now (heap, st)) b = (if b \<in> S then (heap b)\<lparr>ch_closed := True\<rparr> else heap b)"
  using run_inv_close_state [OF run, of now] subs
  by (simp_all add: close_finish_exact [OF run] close_state_def close_chans_def)

lemma step_ok_CloseRun:
  assumes inv: "hub_inv h" and ok: "op_ok h (Op_CloseRun r0 ev)"
    and ret: "CloseRun marshal now h r0 ev = Some h'"
  shows "step_ok h h' r a (visible_on marshal now h r (Op_CloseRun r0 ev))"
proof (cases "r0 = 0")
  case True
  with ret step_ok_refl [OF inv] show ?thesis by (simp add: CloseRun_def getRun_def)
next
  case r0: False
  let ?st = "run_of h r0"
  obtain h1 where get: "getRun h r0 True = Some (h1, ?st)" and ready: "run_ready h r0 h1"
    using getRun_create [OF inv r0] .
  then have h1: "hub_heap h1 = hub_heap h" "hub_config h1 = hub_config h"
    by (simp_all add: run_ready_def)
  note run = run_of_inv [OF inv, of r0] and cfg = hub_inv_cfg [OF inv]
  have wrap: "rs_nextSeq ?st \<noteq> - 1" "ev_Seq ev \<noteq> - 1" using ok by simp_all
  note exact = close_locked_exact [OF run(1) cfg wrap(1), of marshal r0 now "hub_heap h" ev]
  let ?E = "if r = r0 then (case accepted marshal r0 now ?st ev of Some e \<Rightarrow> [e] | None \<Rightarrow> []) else []"
  have E: "visible_on marshal now h r (Op_CloseRun r0 ev) = ?E"
    using r0 by (cases "r = r0") simp_all
  have put: "step_ok h (putRun h1 r0 heap' st') r a ?E"
    if "run_inv (hub_config h) st'" "rs_subscribers st' = []"
      "\<And>b. b \<notin> subs_of h r0 \<Longrightarrow> heap' b = hub_heap h b"
      "a \<in> subs_of h r0 \<Longrightarrow> r = r0 \<Longrightarrow> ch_closed (heap' a) \<and>
         (ch_buf (heap' a) = ch_buf (hub_heap h a) \<or> ch_buf (heap' a) = ch_buf (hub_heap h a) @ ?E)"
    for heap' st'
  proof (rule step_ok_put [OF inv ready that(1)])
    show "rs_lastPublished (run_of h r) < ev_Seq x" if "x \<in> set ?E" for x
      using that by (cases "r = r0") (auto split: option.splits dest: accepted_Seq accepted_Seq [OF sym])
    show "chan_step h (putRun h1 r0 heap' st') r a ?E" if "r = r0" "a \<in> subs_of h r0"
      using \<open>a \<in> subs_of h r0 \<Longrightarrow> r = r0 \<Longrightarrow> _\<close> that by (auto simp: chan_step_def)
  qed (use that in \<open>auto simp: chan_inv_def chans_def split: option.split\<close>)
  show ?thesis
  proof (cases "rs_closed ?st")
    case True
    with ret get h1 have h': "h' = putRun h1 r0 (hub_heap h) ?st"
      by (simp add: CloseRun_def close_locked_def)
    have "rs_subscribers ?st = []" using True run(1) by (simp add: run_inv_def)
    then show ?thesis
      unfolding h' E by (intro put) (use run in \<open>auto simp: subs_of_def chans_def\<close>)
  next
    case opn: False
    note exact = exact [OF opn]
    show ?thesis
    proof (cases "accepted marshal r0 now ?st ev")
      case None
      with ret get h1 exact have h': "h' = putRun h1 r0 (fst (close_finish now (hub_heap h, ?st)))
          (snd (close_finish now (hub_heap h, ?st)))"
        by (simp add: CloseRun_def case_prod_unfold)
      show ?thesis
        unfolding h' E
        by (rule put) (simp_all add: close_chan_step [OF run(1) refl] subs_of_def)
    next
      case (Some e)
      note new = accepted_Seq [OF Some, THEN conjunct1]
      let ?st1 = "(published (hub_config h) ?st e)\<lparr>rs_snapshot := rs_snapshot ?st, rs_terminal := Some e\<rparr>"
      define heap' where "heap' = fst (notifySubscribersLocked e (hub_heap h) ?st1)"
      define st' where "st' = snd (notifySubscribersLocked e (hub_heap h) ?st1)"
      from ret get h1 exact Some have div: "\<not> ring_diverges (hub_config h) ?st e"
        and h': "h' = putRun h1 r0 (fst (close_finish now (heap', st'))) (snd (close_finish now (heap', st')))"
        by (auto simp: CloseRun_def heap'_def st'_def case_prod_unfold split: if_splits)
      have inv1: "run_inv (hub_config h) ?st1"
        using published_inv [OF run(1) new accepted_no_wrap [OF Some wrap] div opn] by simp
      have ch1: "chan_inv (hub_heap h) (hub_next h) ?st1" using run(2) by (simp add: chan_inv_def)
      note n = notify_chan_inv [OF inv1 ch1, of e, folded heap'_def st'_def]
      show ?thesis
        unfolding h' E
        by (rule put) (simp_all add: close_chan_step [OF n(2) n(3)] n(4) subs_of_def Some accepted_clone [OF Some])
    qed
  qed
qed

text \<open>Cancelling a subscription.\<close>

lemma step_ok_Cancel:
  assumes inv: "hub_inv h"
  shows "step_ok h (cancel h r0 sb) r a []"
proof (cases "sb_id sb = None \<or> map_of (hub_runs h) r0 = None")
  case True
  with step_ok_refl [OF inv] show ?thesis by (auto simp: cancel_def split: option.split)
next
  case False
  then obtain sid st where sid: "sb_id sb = Some sid" and st: "map_of (hub_runs h) r0 = Some st" by auto
  have ro: "run_of h r0 = st" using st by (simp add: run_of_def)
  have ready: "run_ready h r0 h" using inv st ro by (simp add: run_ready_def fun_upd_idem)
  note run = run_of_inv [OF inv, of r0, unfolded ro]
  have keep: "step_ok h (putRun h r0 (hub_heap h) st) r a []"
    by (rule step_ok_put [OF inv ready])
      (use run ro subs_of_open [OF inv] in \<open>auto simp: chan_step_def subs_of_def\<close>)
  let ?dec = "cancel_locked (hub_heap h) st sid (sb_live sb)"
  have c: "cancel h r0 sb = putRun h r0 (fst ?dec) (snd ?dec)"
    by (simp add: cancel_def sid st case_prod_unfold)
  show ?thesis
  proof (cases "\<exists>sub. map_of (rs_subscribers st) sid = Some sub \<and> sub_ch sub = sb_live sb")
    case False
    then have "?dec = (hub_heap h, st)" by (auto simp: cancel_locked_def split: option.split)
    with c keep show ?thesis by simp
  next
    case True
    then obtain sub where sub: "map_of (rs_subscribers st) sid = Some sub" "sub_ch sub = sb_live sb" by blast
    then have mem: "(sid, sub) \<in> set (rs_subscribers st)" by (simp add: map_of_SomeD)
    with run(1) have opn: "\<not> sub_closed sub" by (auto simp: run_inv_def)
    have mem': "sub_ch sub \<in> chans (rs_subscribers st)" using mem by (force simp: chans_def)
    let ?heap = "(hub_heap h)(sub_ch sub := (hub_heap h (sub_ch sub))\<lparr>ch_closed := True\<rparr>)"
    let ?st = "st\<lparr>rs_subscribers := filter (\<lambda>(k, v). sid \<noteq> k) (rs_subscribers st)\<rparr>"
    have dec: "?dec = (?heap, ?st)"
      using sub opn by (simp add: cancel_locked_def closeSubscriberLocked_def AList.delete_eq case_prod_unfold)
    have d: "distinct (map (sub_ch \<circ> snd) (rs_subscribers st))" using run(2) by (simp add: chan_inv_def)
    have gone: "chans (rs_subscribers ?st) = chans (rs_subscribers st) - {sub_ch sub}"
    proof -
      have "(k, v) \<in> set (rs_subscribers st) \<Longrightarrow> sub_ch v = sub_ch sub \<longleftrightarrow> k = sid" for k v
        using d mem inj_onD [of "sub_ch \<circ> snd" "set (rs_subscribers st)" "(k, v)" "(sid, sub)"]
          run(1) distinct_sub_keys [of "rs_subscribers st" sid v sub]
        by (auto simp: distinct_map run_inv_def)
      then show ?thesis by (force simp: chans_def)
    qed
    have "chan_inv ?heap (hub_next h) ?st"
      using run(2) d gone by (auto simp: chan_inv_def distinct_map_filter)
    then have "step_ok h (putRun h r0 ?heap ?st) r a []"
      by (intro step_ok_put [OF inv ready run_inv_filter_subs [OF run(1)]])
        (use ro gone mem' subs_of_open [OF inv] in \<open>auto simp: chan_step_def subs_of_def\<close>)
    with c dec show ?thesis by simp
  qed
qed

section \<open>Expiry, subscription and receiving\<close>

lemma expire_runs_inv:
  assumes "\<forall>(r, st)\<in>set runs. rs_closed st \<longrightarrow> rs_subscribers st = []"
  shows "expire_runs cfg now heap runs = (heap, filter (\<lambda>(r, st). \<not> run_expired cfg now st) runs)"
  using assms
proof (induction runs)
  case (Cons p runs)
  obtain r st where p: "p = (r, st)" by (cases p)
  have "run_expired cfg now st \<Longrightarrow> rs_subscribers st = []"
    using Cons.prems p by (simp add: run_expired_def)
  with Cons show ?case by (auto simp: p)
qed simp

lemma map_of_filter_val:
  assumes "distinct (map fst xs)"
  shows "map_of (filter (\<lambda>(k, v). P v) xs) k =
    (case map_of xs k of Some v \<Rightarrow> if P v then Some v else None | None \<Rightarrow> None)"
  using assms by (induction xs) (auto split: option.splits simp: map_of_eq_None_iff [THEN iffD2] rev_image_eqI)

lemma removeExpiredRuns_exact:
  assumes inv: "hub_inv h"
  shows "removeExpiredRuns h now =
    h\<lparr>hub_runs := filter (\<lambda>(r, st). \<not> run_expired (hub_config h) now st) (hub_runs h)\<rparr>"
proof -
  have "\<forall>(r, st)\<in>set (hub_runs h). rs_closed st \<longrightarrow> rs_subscribers st = []"
    using inv by (auto simp: hub_inv_def run_inv_def)
  from expire_runs_inv [OF this] show ?thesis
    by (simp add: removeExpiredRuns_def withDefaults_id [OF hub_inv_cfg [OF inv]])
qed

lemma removeExpiredRuns_get:
  assumes inv: "hub_inv h"
  shows "map_of (hub_runs (removeExpiredRuns h now)) r =
    (case map_of (hub_runs h) r of
       Some st \<Rightarrow> if run_expired (hub_config h) now st then None else Some st | None \<Rightarrow> None)"
proof -
  have "distinct (map fst (hub_runs h))" using inv by (simp add: hub_inv_def)
  from map_of_filter_val [OF this, of "\<lambda>st. \<not> run_expired (hub_config h) now st"] show ?thesis
    by (simp add: removeExpiredRuns_exact [OF inv] split: option.split)
qed

lemma removeExpiredRuns_inv:
  assumes inv: "hub_inv h"
  shows "hub_inv (removeExpiredRuns h now)"
    and "hub_heap (removeExpiredRuns h now) = hub_heap h" "hub_next (removeExpiredRuns h now) = hub_next h"
    and "hub_config (removeExpiredRuns h now) = hub_config h"
    and "run_of (removeExpiredRuns h now) r =
      (if run_expired (hub_config h) now (run_of h r) then newRunState else run_of h r)"
    and "subs_of (removeExpiredRuns h now) r = subs_of h r"
proof -
  let ?h = "removeExpiredRuns h now"
  show sel: "hub_heap ?h = hub_heap h" "hub_next ?h = hub_next h" "hub_config ?h = hub_config h"
    by (simp_all add: removeExpiredRuns_exact [OF inv])
  have new: "\<not> run_expired (hub_config h) now newRunState" by (simp add: run_expired_def newRunState_def)
  show ro: "run_of ?h r = (if run_expired (hub_config h) now (run_of h r) then newRunState else run_of h r)" for r
    using new by (simp add: run_of_def removeExpiredRuns_get [OF inv] split: option.split)
  have "rs_subscribers (run_of h r) = []" if "run_expired (hub_config h) now (run_of h r)"
    using that run_of_inv(1) [OF inv, of r] by (simp add: run_expired_def run_inv_def)
  then show "subs_of ?h r = subs_of h r" by (simp add: subs_of_def ro newRunState_def)
  have sub: "map_of (hub_runs ?h) r = Some st \<Longrightarrow> map_of (hub_runs h) r = Some st" for r st
    by (auto simp: removeExpiredRuns_get [OF inv] split: option.splits if_splits)
  have "distinct (map fst (hub_runs ?h))"
    using inv by (simp add: removeExpiredRuns_exact [OF inv] hub_inv_def distinct_map_filter)
  then show "hub_inv ?h"
    using inv sub unfolding hub_inv_def sel by blast
qed

text \<open>Expired runs have no subscribers, so forgetting them is invisible to every live channel.\<close>

lemma step_ok_expire:
  assumes inv: "hub_inv h" and step: "step_ok (removeExpiredRuns h now) h' r a []"
  shows "step_ok h h' r a []"
proof -
  note x = removeExpiredRuns_inv [OF inv, where now = now]
  have "run_of (removeExpiredRuns h now) r = run_of h r" if "a \<in> subs_of h r"
  proof -
    have "rs_subscribers (run_of h r) \<noteq> []" using that by (auto simp: subs_of_def chans_def)
    then show ?thesis using run_of_inv(1) [OF inv, of r] by (auto simp: x run_inv_def run_expired_def)
  qed
  with step show ?thesis by (auto simp: step_ok_def x chan_step_def Let_def)
qed

lemma step_ok_Purge: "hub_inv h \<Longrightarrow> step_ok h (PurgeExpired h now) r a []"
  unfolding PurgeExpired_def
  by (rule step_ok_expire [where now = now]) (simp_all add: step_ok_refl removeExpiredRuns_inv)

lemma step_ok_Snapshot:
  assumes inv: "hub_inv h"
  shows "step_ok h (snd (Snapshot marshal now h r0)) r a []"
proof -
  note x = removeExpiredRuns_inv [OF inv, where now = now]
  have "snd (Snapshot marshal now h r0) \<in> {h, removeExpiredRuns h now}"
    using withDefaults_id [OF hub_inv_cfg [OF inv]] x(4)
    by (auto simp: Snapshot_def getRun_def Let_def split: option.splits)
  then consider "snd (Snapshot marshal now h r0) = h" | "snd (Snapshot marshal now h r0) = removeExpiredRuns h now"
    by blast
  then show ?thesis
    by cases (simp_all add: step_ok_refl inv x(1) step_ok_expire [OF inv, of now])
qed

lemma step_ok_Recv:
  assumes inv: "hub_inv h" and b: "b \<noteq> a"
  shows "step_ok h (recv h b) r a []"
proof -
  have "ch_closed (hub_heap (recv h b) c) = ch_closed (hub_heap h c)" for c by (simp add: recv_def)
  then have "hub_inv (recv h b)"
    using inv by (simp add: hub_inv_def chan_inv_def) (simp add: recv_def)
  with b subs_of_open [OF inv] show ?thesis
    by (auto simp: step_ok_def chan_step_def recv_def subs_of_def run_of_def)
qed

text \<open>A new channel.\<close>

lemma hub_inv_alloc:
  assumes "hub_inv h" and "alloc_chan h c = (b, h')"
  shows "hub_inv h'" "b = hub_next h" "hub_runs h' = hub_runs h" "hub_next h' = Suc (hub_next h)"
    "hub_heap h' = (hub_heap h)(hub_next h := c)" "hub_config h' = hub_config h"
proof -
  have h': "h' = h\<lparr>hub_heap := (hub_heap h)(hub_next h := c), hub_next := Suc (hub_next h)\<rparr>"
    using assms(2) by (auto simp: alloc_chan_def)
  show "b = hub_next h" using assms(2) by (simp add: alloc_chan_def)
  have "chan_inv (hub_heap h') (hub_next h') st" if "chan_inv (hub_heap h) (hub_next h) st" for st
    using that by (auto simp: chan_inv_def h' less_Suc_eq)
  moreover have "hub_runs h' = hub_runs h" "hub_config h' = hub_config h" by (simp_all add: h')
  ultimately show "hub_inv h'" using assms(1) unfolding hub_inv_def by metis
qed (use assms(2) in \<open>auto simp: alloc_chan_def\<close>)

lemma step_ok_alloc:
  assumes inv: "hub_inv h" and al: "alloc_chan h c = (b, h')"
  shows "step_ok h h' r a []"
  using hub_inv_alloc [OF assms] subs_of_open [OF inv]
  by (auto simp: step_ok_def chan_step_def subs_of_def run_of_def)

lemma update_fresh: "k \<notin> fst ` set al \<Longrightarrow> AList.update k v al = al @ [(k, v)]"
  by (induction al) auto

text \<open>Registering the channel just allocated.\<close>

lemma step_ok_register:
  assumes inv: "hub_inv h" and ready: "run_ready h r0 h1" and wrap: "rs_nextSubscriber (run_of h r0) \<noteq> - 1"
    and opn: "\<not> rs_closed (run_of h r0)"
    and al: "alloc_chan h1 c = (b, h2)" and c: "\<not> ch_closed c"
    and st': "st' = (run_of h r0)\<lparr>rs_nextSubscriber := sid,
      rs_subscribers := AList.update sid \<lparr>sub_ch = b, sub_closed = False\<rparr> (rs_subscribers (run_of h r0))\<rparr>"
    and sid: "sid = rs_nextSubscriber (run_of h r0) + 1"
  shows "step_ok h (putRun h2 r0 (hub_heap h2) st') r a []" and "subs_of (putRun h2 r0 (hub_heap h2) st') r0 = insert b (subs_of h r0)"
proof -
  let ?st = "run_of h r0" and ?h' = "putRun h2 r0 (hub_heap h2) st'"
  note run = run_of_inv [OF inv, of r0]
  have h1: "hub_inv h1" "map_of (hub_runs h1) = (map_of (hub_runs h))(r0 \<mapsto> ?st)"
    "hub_heap h1 = hub_heap h" "hub_next h1 = hub_next h" "hub_config h1 = hub_config h"
    using ready by (simp_all add: run_ready_def)
  note h2 = hub_inv_alloc [OF h1(1) al, unfolded h1]
  have lt: "rs_nextSubscriber ?st < sid" using u64_less_Suc [OF wrap] sid by simp
  have fresh: "sid \<notin> fst ` set (rs_subscribers ?st)"
    using run(1) lt by (auto simp: run_inv_def dest!: leD)
  have subs: "rs_subscribers st' = rs_subscribers ?st @ [(sid, \<lparr>sub_ch = b, sub_closed = False\<rparr>)]"
    by (simp add: st' update_fresh [OF fresh])
  have chans': "chans (rs_subscribers st') = insert b (subs_of h r0)"
    by (auto simp: subs chans_def subs_of_def)
  then show "subs_of ?h' r0 = insert b (subs_of h r0)" by (simp add: subs_of_def)
  have old: "c < hub_next h \<and> \<not> ch_closed (hub_heap h c)" if "c \<in> subs_of h r'" for c r'
    using subs_of_open [OF inv that] by simp
  have le: "k \<le> sid" if "(k, v) \<in> set (rs_subscribers ?st)" for k v
    using run(1) that less_imp_le [OF lt] by (auto simp: run_inv_def intro: order_trans)
  have "run_inv (hub_config h) st'"
    using run(1) fresh opn le by (auto simp: run_inv_def subs) (simp_all add: st')
  moreover have "chan_inv (hub_heap h2) (hub_next h2) st'"
  proof -
    have "b \<notin> sub_ch ` snd ` set (rs_subscribers ?st)" using old [of b r0] h2(2) by (auto simp: subs_of_def chans_def)
    then have "distinct (map (sub_ch \<circ> snd) (rs_subscribers st'))"
      using run(2) by (auto simp: subs chan_inv_def)
    moreover have "d < hub_next h2 \<and> \<not> ch_closed (hub_heap h2 d)" if "d \<in> insert b (subs_of h r0)" for d
      using that old [of d r0] c h2 by auto
    ultimately show ?thesis by (simp add: chan_inv_def chans')
  qed
  moreover have "chans (rs_subscribers st'') \<inter> ({} \<union> chans (rs_subscribers st')) = {}"
    if "map_of (hub_runs h2) r' = Some st''" "r' \<noteq> r0" for r' st''
  proof -
    have m: "map_of (hub_runs h) r' = Some st''" using that h2(3) h1(2) by simp
    then have "chans (rs_subscribers st'') = subs_of h r'" by (simp add: subs_of_def run_of_def)
    then show ?thesis
      using run_chans_disjoint [OF inv m that(2)] old [of b r'] h2(2) by (auto simp: chans' subs_of_def)
  qed
  ultimately have "hub_inv ?h'"
    by (intro hub_inv_putRun [where C = "{}"]) (simp_all add: h2(1,6))
  moreover have "run_of h2 r' = run_of h r'" for r'
    using h2(3) h1(2) by (auto simp: run_of_def)
  moreover have "rs_lastPublished st' = rs_lastPublished ?st" by (simp add: st')
  ultimately show "step_ok h ?h' r a []"
    using old h2 chans' by (auto simp: step_ok_def chan_step_def subs_of_def)
qed

lemma step_ok_ready:
  assumes ready: "run_ready h r0 h1"
  shows "step_ok h1 h2 r a E = step_ok h h2 r a E"
proof -
  have "run_of h1 = run_of h" using ready by (intro ext run_of_get) (simp add: run_ready_def)
  then show ?thesis using ready by (simp add: step_ok_def chan_step_def subs_of_def run_ready_def)
qed

lemma step_ok_Subscribe:
  assumes inv: "hub_inv h" and ok: "op_ok h (Op_Subscribe r0 s)"
  shows "step_ok h (snd (Subscribe marshal now h r0 s)) r a []"
proof (cases "r0 = 0")
  case True
  then show ?thesis
    using step_ok_alloc [OF inv prod.collapse [symmetric]] by (simp add: Subscribe_def case_prod_unfold)
next
  case r0: False
  note x = removeExpiredRuns_inv [OF inv, where now = now]
  obtain h1 where get: "getRun (removeExpiredRuns h now) r0 True = Some (h1, run_of (removeExpiredRuns h now) r0)"
    and ready: "run_ready (removeExpiredRuns h now) r0 h1"
    using getRun_create [OF x(1) r0] .
  let ?h = "removeExpiredRuns h now" and ?st = "run_of (removeExpiredRuns h now) r0"
  have wrap: "rs_nextSubscriber ?st \<noteq> - 1" using ok by (simp add: x newRunState_def)
  show ?thesis
  proof (cases "rs_closed ?st")
    case True
    obtain b h2 where al: "alloc_chan h1 \<lparr>ch_buf = [], ch_cap = 0, ch_closed = True\<rparr> = (b, h2)"
      by (metis surj_pair)
    have "hub_inv h1" using ready by (simp add: run_ready_def)
    from step_ok_alloc [OF this al] have "step_ok ?h h2 r a []" by (simp add: step_ok_ready [OF ready])
    with True get al r0 show ?thesis
      by (intro step_ok_expire [OF inv]) (simp add: Subscribe_def)
  next
    case False
    obtain b h2 where al: "alloc_chan h1 \<lparr>ch_buf = [], ch_cap = (if cfg_SubscriberBuffer (hub_config h1) \<le> 0
        then defaultSubscriberBuffer else cfg_SubscriberBuffer (hub_config h1)), ch_closed = False\<rparr> = (b, h2)"
      by (metis surj_pair)
    from step_ok_register(1) [OF x(1) ready wrap False al _ refl refl] False get al r0 show ?thesis
      by (intro step_ok_expire [OF inv]) (simp add: Subscribe_def Let_def)
  qed
qed

section \<open>Every operation\<close>

lemma hub_exec_step:
  assumes "hub_inv h" "op_ok h opr" "hub_exec marshal now h opr = Some h'" "opr \<noteq> Op_Recv a"
  shows "step_ok h h' r a (visible_on marshal now h r opr)"
proof (cases opr)
  case (Op_Prepare r0 ev)
  with step_ok_Prepare [OF assms(1), of r0 ev] assms show ?thesis by auto
next
  case (Op_Publish ev)
  with step_ok_Publish [OF assms(1), of ev] assms show ?thesis by auto
next
  case (Op_Subscribe r0 s)
  with step_ok_Subscribe [OF assms(1), of r0 s] assms show ?thesis by auto
next
  case (Op_CloseRun r0 ev)
  with step_ok_CloseRun [OF assms(1), of r0 ev] assms show ?thesis by auto
qed (use assms step_ok_Cancel step_ok_Snapshot step_ok_Purge step_ok_Recv in auto)

lemma hub_exec_inv:
  assumes "hub_inv h" "op_ok h opr" "hub_exec marshal now h opr = Some h'"
  shows "hub_inv h'"
proof -
  obtain a where "opr \<noteq> Op_Recv a" by (cases opr) (auto intro: that [of 0] that [of "Suc _"])
  from hub_exec_step [OF assms this, of 0] show ?thesis by (simp add: step_ok_def)
qed

lemma hub_inv_new: "hub_inv (NewMemoryHub c)"
  by (simp add: hub_inv_def NewMemoryHub_def withDefaults_ok)

text \<open>The states of a hub under any sequence of operations that return.\<close>

inductive hub_reach :: "('p \<Rightarrow> string option) \<Rightarrow> 'p memory_hub \<Rightarrow> bool" for marshal where
  start: "hub_reach marshal (NewMemoryHub c)"
| step: "hub_reach marshal h \<Longrightarrow> op_ok h opr \<Longrightarrow> hub_exec marshal now h opr = Some h' \<Longrightarrow> hub_reach marshal h'"

lemma hub_reach_inv: "hub_reach marshal h \<Longrightarrow> hub_inv h"
  by (induction rule: hub_reach.induct) (auto intro: hub_inv_new hub_exec_inv)

section \<open>A subscriber's session\<close>

text \<open>\<open>session m r a h0 got acc h\<close>: the channel \<open>a\<close> was made by a \<^verbatim>\<open>Subscribe\<close> call for run \<open>r\<close> that
  left the hub in \<open>h0\<close>; after some operations of any clients and publishers the hub is \<open>h\<close>, the
  events published on \<open>r\<close> meanwhile are \<open>acc\<close>, and the consumer of \<open>a\<close> has received \<open>got\<close>.\<close>

inductive session ::
  "('p \<Rightarrow> string option) \<Rightarrow> int \<Rightarrow> nat \<Rightarrow> 'p memory_hub \<Rightarrow> 'p stream_event list \<Rightarrow> 'p stream_event list \<Rightarrow> 'p memory_hub \<Rightarrow> bool"
  for marshal r a h0 where
  start: "session marshal r a h0 [] [] h0"
| receive: "session marshal r a h0 got acc h \<Longrightarrow> ch_buf (hub_heap h a) = e # rest \<Longrightarrow>
    session marshal r a h0 (got @ [e]) acc (recv h a)"
| other: "session marshal r a h0 got acc h \<Longrightarrow> op_ok h opr \<Longrightarrow> opr \<noteq> Op_Recv a \<Longrightarrow>
    hub_exec marshal now h opr = Some h' \<Longrightarrow>
    session marshal r a h0 got (acc @ visible_on marshal now h r opr) h'"

definition session_inv :: "int \<Rightarrow> nat \<Rightarrow> u64 \<Rightarrow> 'p stream_event list \<Rightarrow> 'p stream_event list \<Rightarrow> 'p memory_hub \<Rightarrow> bool" where
  "session_inv r a s0 got acc h \<longleftrightarrow>
     hub_inv h \<and> a < hub_next h \<and> prefix (got @ ch_buf (hub_heap h a)) acc \<and>
     sorted_wrt (<) (s0 # map ev_Seq (got @ ch_buf (hub_heap h a))) \<and>
     (if ch_closed (hub_heap h a) then (\<forall>r'. a \<notin> subs_of h r')
      else a \<in> subs_of h r \<and> got @ ch_buf (hub_heap h a) = acc \<and>
           (\<forall>s\<in>set (s0 # map ev_Seq acc). s \<le> rs_lastPublished (run_of h r)))"

lemma session_inv_recv:
  assumes "session_inv r a s0 got acc h" "ch_buf (hub_heap h a) = e # rest"
  shows "session_inv r a s0 (got @ [e]) acc (recv h a)"
proof -
  have "hub_inv (recv h a)"
    by (rule hub_exec_inv [of h "Op_Recv a" undefined undefined]) (use assms(1) in \<open>simp_all add: session_inv_def\<close>)
  moreover have "run_of (recv h a) = run_of h" "subs_of (recv h a) = subs_of h"
    by (simp_all add: recv_def subs_of_def run_of_def fun_eq_iff)
  ultimately show ?thesis
    using assms by (auto simp: session_inv_def) (auto simp: recv_def)
qed

lemma sorted_wrt_less_append:
  fixes s :: u64
  assumes "sorted_wrt (<) (s # xs)" "\<forall>x\<in>set (s # xs). x \<le> m" "\<forall>y\<in>set ys. m < y" "sorted_wrt (<) ys"
  shows "sorted_wrt (<) (s # xs @ ys)"
  using assms by (auto simp: sorted_wrt_append intro: le_less_trans)

lemma session_inv_step:
  assumes inv: "session_inv r a s0 got acc h" and step: "step_ok h h' r a E"
  shows "session_inv r a s0 got (acc @ E) h'"
proof -
  let ?c = "hub_heap h a" and ?c' = "hub_heap h' a"
  have h: "hub_inv h" "a < hub_next h" "prefix (got @ ch_buf ?c) acc"
    "sorted_wrt (<) (s0 # map ev_Seq (got @ ch_buf ?c))"
    using inv by (auto simp: session_inv_def)
  have h': "hub_inv h'" "a < hub_next h'" using step h(2) by (auto simp: step_ok_def)
  show ?thesis
  proof (cases "ch_closed ?c")
    case True
    with inv step h(2) have same: "?c' = ?c" by (auto simp: session_inv_def step_ok_def)
    then have "\<forall>r'. a \<notin> subs_of h' r'" using True subs_of_open(1) [OF h'(1)] by metis
    with same True h h' show ?thesis by (auto simp: session_inv_def)
  next
    case False
    with inv have sub: "a \<in> subs_of h r" and acc: "got @ ch_buf ?c = acc"
      and bnd: "\<forall>s\<in>set (s0 # map ev_Seq acc). s \<le> rs_lastPublished (run_of h r)"
      by (auto simp: session_inv_def)
    from step h(2) sub have cs: "chan_step h h' r a E" and new: "\<forall>s\<in>set (map ev_Seq E). rs_lastPublished (run_of h r) < s"
      and srt: "sorted_wrt (<) (map ev_Seq E)"
      by (auto simp: step_ok_def)
    have all: "sorted_wrt (<) (s0 # map ev_Seq acc @ map ev_Seq E)"
      using sorted_wrt_less_append [OF h(4) [unfolded acc] bnd new srt] .
    then have old: "sorted_wrt (<) (s0 # map ev_Seq acc)" by (auto simp: sorted_wrt_append)
    show ?thesis
    proof (cases "ch_closed ?c'")
      case True
      then have "\<forall>r'. a \<notin> subs_of h' r'" using subs_of_open(1) [OF h'(1)] by blast
      moreover have "ch_buf ?c' = ch_buf ?c \<or> ch_buf ?c' = ch_buf ?c @ E" using cs True by (simp add: chan_step_def Let_def)
      ultimately show ?thesis using True h' all old acc by (auto simp: session_inv_def simp flip: append_assoc)
    next
      case False
      then have "ch_buf ?c' = ch_buf ?c @ E" "a \<in> subs_of h' r"
        "rs_lastPublished (run_of h r) \<le> rs_lastPublished (run_of h' r)"
        "\<forall>e\<in>set E. ev_Seq e \<le> rs_lastPublished (run_of h' r)"
        using cs by (simp_all add: chan_step_def Let_def)
      with False h' all acc bnd show ?thesis
        by (auto simp: session_inv_def simp flip: append_assoc intro: order_trans)
    qed
  qed
qed

lemma session_keeps:
  assumes "session marshal r a h0 got acc h" "session_inv r a s0 [] [] h0"
  shows "session_inv r a s0 got acc h"
  using assms
proof (induction rule: session.induct)
  case (other got acc h opr now h')
  from other have "session_inv r a s0 got acc h" by simp
  moreover from this have "hub_inv h" by (simp add: session_inv_def)
  ultimately show ?case using hub_exec_step other.hyps session_inv_step by blast
qed (auto intro: session_inv_recv)

lemma session_start:
  assumes inv: "hub_inv h" and ok: "op_ok h (Op_Subscribe r s)" and sub: "Subscribe marshal now h r s = (sb, h0)"
  shows "session_inv r (sb_live sb) (rs_lastPublished (run_of h0 r)) [] [] h0"
    and "rs_lastPublished (run_of h0 r) = rs_lastPublished (run_of (removeExpiredRuns h now) r) \<or> r = 0"
proof -
  have h0: "hub_inv h0" using hub_exec_inv [OF inv ok, of marshal now] sub by simp
  have closed: "session_inv r (sb_live sb) (rs_lastPublished (run_of h0 r)) [] [] h0"
    if "hub_heap h0 (sb_live sb) = \<lparr>ch_buf = [], ch_cap = n, ch_closed = True\<rparr>" "sb_live sb < hub_next h0" for n
    using that h0 subs_of_open(1) [OF h0] by (fastforce simp: session_inv_def)
  have "session_inv r (sb_live sb) (rs_lastPublished (run_of h0 r)) [] [] h0 \<and>
    (rs_lastPublished (run_of h0 r) = rs_lastPublished (run_of (removeExpiredRuns h now) r) \<or> r = 0)"
  proof (cases "r = 0")
    case True
    with sub closed show ?thesis by (auto simp: Subscribe_def alloc_chan_def)
  next
    case r: False
    note x = removeExpiredRuns_inv [OF inv, where now = now]
    obtain h1 where get: "getRun (removeExpiredRuns h now) r True = Some (h1, run_of (removeExpiredRuns h now) r)"
      and ready: "run_ready (removeExpiredRuns h now) r h1"
      using getRun_create [OF x(1) r] .
    then have ro: "run_of h1 r' = run_of (removeExpiredRuns h now) r'" for r'
      by (intro run_of_get) (simp add: run_ready_def)
    let ?st = "run_of (removeExpiredRuns h now) r"
    have wrap: "rs_nextSubscriber ?st \<noteq> - 1" using ok by (simp add: x newRunState_def)
    show ?thesis
    proof (cases "rs_closed ?st")
      case True
      with sub r get ro closed show ?thesis by (auto simp: Subscribe_def alloc_chan_def run_of_def)
    next
      case False
      obtain b h2 where al: "alloc_chan h1 \<lparr>ch_buf = [], ch_cap = (if cfg_SubscriberBuffer (hub_config h1) \<le> 0
          then defaultSubscriberBuffer else cfg_SubscriberBuffer (hub_config h1)), ch_closed = False\<rparr> = (b, h2)"
        by (metis surj_pair)
      from step_ok_register(2) [OF x(1) ready wrap False al _ refl refl] False get al r sub
      have "b \<in> subs_of h0 r" "sb_live sb = b" "hub_heap h0 = hub_heap h2" "rs_lastPublished (run_of h0 r) = rs_lastPublished ?st"
        by (auto simp: Subscribe_def Let_def)
      moreover have "hub_heap h2 b = \<lparr>ch_buf = [], ch_cap = (if cfg_SubscriberBuffer (hub_config h1) \<le> 0
          then defaultSubscriberBuffer else cfg_SubscriberBuffer (hub_config h1)), ch_closed = False\<rparr>"
        using al by (auto simp: alloc_chan_def)
      ultimately show ?thesis using h0 subs_of_open(2) [OF h0, of b r] by (simp add: session_inv_def)
    qed
  qed
  then show "session_inv r (sb_live sb) (rs_lastPublished (run_of h0 r)) [] [] h0"
    "rs_lastPublished (run_of h0 r) = rs_lastPublished (run_of (removeExpiredRuns h now) r) \<or> r = 0" by auto
qed

text \<open>What \<^verbatim>\<open>Subscribe\<close> replays is in order and not newer than what it has published.\<close>

lemma replayHasGap_nonempty: "replayHasGap es s \<Longrightarrow> es \<noteq> []"
  by (auto simp: replayHasGap_def)

lemma ev_Seq_clone [simp]: "ev_Seq \<circ> cloneEvent = ev_Seq"
  by (simp add: fun_eq_iff)

lemma snapshotLocked_Seq:
  assumes "snapshotLocked marshal cfg r st now = Some e" "0 < rs_lastPublished st"
  shows "ev_Seq e = rs_lastPublished st"
  using assms by (auto simp: snapshotLocked_def normalizeSnapshot_def Let_def split: option.splits)

lemma subscribe_replay_sorted:
  assumes inv: "run_inv cfg st"
  shows "sorted_wrt (<) (map ev_Seq (subscribe_replay marshal cfg' r st s now))"
    and "\<forall>e\<in>set (subscribe_replay marshal cfg' r st s now). ev_Seq e \<le> rs_lastPublished st"
proof -
  let ?es = "filter (\<lambda>e. ev_Seq e > s) (rs_events st)"
  have es: "sorted_wrt (<) (map ev_Seq (rs_events st))" "\<forall>e\<in>set (rs_events st). 0 < ev_Seq e \<and> ev_Seq e \<le> rs_lastPublished st"
    using inv by (auto simp: run_inv_def)
  have "map ev_Seq (map cloneEvent ?es) = map ev_Seq ?es" by simp
  moreover have "sorted_wrt (<) (map ev_Seq ?es)" using es(1) by (rule sorted_wrt_map_filter)
  moreover have "0 < rs_lastPublished st" if gap: "replayHasGap (rs_events st) s"
  proof -
    obtain e where "e \<in> set (rs_events st)" using replayHasGap_nonempty [OF gap] by (cases "rs_events st") auto
    with es(2) show ?thesis by (blast intro: less_le_trans)
  qed
  ultimately show "sorted_wrt (<) (map ev_Seq (subscribe_replay marshal cfg' r st s now))"
    and "\<forall>e\<in>set (subscribe_replay marshal cfg' r st s now). ev_Seq e \<le> rs_lastPublished st"
    using es(2) snapshotLocked_Seq [of marshal cfg' r st now]
    by (auto simp: subscribe_replay_def split: option.split)
qed

lemma Subscribe_replay:
  assumes inv: "hub_inv h" and r: "r \<noteq> 0"
  shows "sb_replay (fst (Subscribe marshal now h r s)) =
    map cloneEvent (subscribe_replay marshal (hub_config h) r (run_of (removeExpiredRuns h now) r) s now)"
proof -
  note x = removeExpiredRuns_inv [OF inv, where now = now]
  obtain h1 where "getRun (removeExpiredRuns h now) r True = Some (h1, run_of (removeExpiredRuns h now) r)"
    "run_ready (removeExpiredRuns h now) r h1"
    using getRun_create [OF x(1) r] .
  with r show ?thesis by (simp add: Subscribe_def Let_def case_prod_unfold run_ready_def x(4))
qed

end
