(* ===== verification/Event_Hub_Props.thy ===== *)
theory Event_Hub_Props
  imports Event_Hub_Live
begin

text \<open>
  What the event hub guarantees: gap-free delivery on a live channel, exact eviction from the
  replay ring, complete replay, isolation of runs, closed runs, expiry and the legacy adapter.
  The concrete events, configurations and runs of the witnesses come first.
\<close>

section \<open>Concrete events\<close>

definition ex_event :: "int \<Rightarrow> u64 \<Rightarrow> string \<Rightarrow> unit stream_event" where
  "ex_event r n k = \<lparr>ev_Version = 1, ev_RunID = r, ev_ConversationID = None, ev_Seq = n, ev_Kind = k,
     ev_CreatedAt = 1, ev_Data = None, ev_Type = k, ev_Payload = None\<rparr>"

definition ex_config :: "int \<Rightarrow> int \<Rightarrow> unit hub_config" where
  "ex_config maxEvents buffer = \<lparr>cfg_MaxEvents = maxEvents, cfg_MaxBytes = 100000, cfg_TerminalRetention = 60,
     cfg_SubscriberBuffer = buffer, cfg_SnapshotProvider = None\<rparr>"

definition no_json :: "unit \<Rightarrow> string option" where
  "no_json _ = None"

lemma ex_event_sel [simp]:
  "ev_Seq (ex_event r n k) = n" "ev_Kind (ex_event r n k) = k" "ev_RunID (ex_event r n k) = r"
  "cloneEvent (ex_event r n k) = ex_event r n k" "ev_Data (ex_event r n k) = None"
  "eventSize (ex_event r n k) = 96 + 2 * int (length k)"
  by (simp_all add: ex_event_def cloneEvent_def eventSize_def data_len_def)

lemma normalize_ex_event [simp]: "r \<noteq> 0 \<Longrightarrow> k \<noteq> [] \<Longrightarrow> normalizeEvent m (ex_event r n k) r' now = ex_event r n k"
  by (simp add: normalizeEvent_def ex_event_def)

lemma ex_event_eq [simp]: "ex_event r n k = ex_event r' n' k' \<longleftrightarrow> r = r' \<and> n = n' \<and> k = k'"
  by (auto simp: ex_event_def)

lemma ex_config_sel [simp]:
  "cfg_MaxEvents (ex_config n b) = n" "cfg_MaxBytes (ex_config n b) = 100000"
  "cfg_TerminalRetention (ex_config n b) = 60" "cfg_SubscriberBuffer (ex_config n b) = b"
  "cfg_SnapshotProvider (ex_config n b) = None"
  "0 < n \<Longrightarrow> 0 < b \<Longrightarrow> withDefaults (ex_config n b) = ex_config n b"
  by (simp_all add: ex_config_def withDefaults_def)

section \<open>Delivery\<close>

text \<open>C4: Delivery without gaps. A client that subscribes to a run of a reachable hub and then reads
  its live channel, under any interleaving of operations of the hub: what it has received, with what
  is still buffered, is a prefix of the events published on the run since the subscription, is all of
  them while the channel is open, and together with the replay it was given is in strictly
  increasing sequence order, with no event twice.\<close>

theorem subscriber_no_gap:
  assumes "hub_reach marshal h" "op_ok h (Op_Subscribe r s)" "r \<noteq> 0"
    and "Subscribe marshal now h r s = (sb, h0)" "session marshal r (sb_live sb) h0 got acc h'"
  shows "prefix (got @ ch_buf (hub_heap h' (sb_live sb))) acc \<and>
    (\<not> ch_closed (hub_heap h' (sb_live sb)) \<longrightarrow> got @ ch_buf (hub_heap h' (sb_live sb)) = acc) \<and>
    sorted_wrt (<) (map ev_Seq (sb_replay sb @ got @ ch_buf (hub_heap h' (sb_live sb))))"
proof (intro conjI)
  have inv: "hub_inv h" using assms(1) by (rule hub_reach_inv)
  note st = session_start [OF inv assms(2,4)]
  note keep = session_keeps [OF assms(5) st(1)]
  from keep show "prefix (got @ ch_buf (hub_heap h' (sb_live sb))) acc"
    "\<not> ch_closed (hub_heap h' (sb_live sb)) \<longrightarrow> got @ ch_buf (hub_heap h' (sb_live sb)) = acc"
    by (auto simp: session_inv_def)
  let ?st = "run_of (removeExpiredRuns h now) r"
  have "run_inv (hub_config h) ?st"
    using run_of_inv(1) [OF removeExpiredRuns_inv(1) [OF inv, of now]] by (simp add: removeExpiredRuns_inv(4) [OF inv])
  note rep = subscribe_replay_sorted [OF this, of marshal "hub_config h" r s now]
  have sb: "sb_replay sb = map cloneEvent (subscribe_replay marshal (hub_config h) r ?st s now)"
    using Subscribe_replay [OF inv assms(3), of marshal now s] assms(4) by simp
  have last: "rs_lastPublished (run_of h0 r) = rs_lastPublished ?st" using st(2) assms(3) by simp
  have "sorted_wrt (<) (rs_lastPublished ?st # map ev_Seq (got @ ch_buf (hub_heap h' (sb_live sb))))"
    using keep last by (simp add: session_inv_def)
  with rep show "sorted_wrt (<) (map ev_Seq (sb_replay sb @ got @ ch_buf (hub_heap h' (sb_live sb))))"
    by (fastforce simp: sb sorted_wrt_append intro: le_less_trans)
qed

lemmas hub_eval =
  NewMemoryHub_def Subscribe_def removeExpiredRuns_def getRun_def run_of_def putRun_def alloc_chan_def
  PublishPrepared_def publish_locked_def publish_new_def assign_seq_def next_seq_def record_event_def
  trimEventsLocked_def trim_loop.simps [of _ _ "_ # _"] notifySubscribersLocked_def closeSubscriberLocked_def
  subscribe_replay_def replayHasGap_def snapshotLocked_def newRunState_def accepted_def run_expired_def
  isTerminalKind_def terminal_kinds_def RunComplete_def RunFailed_def RunPaused_def RunWaiting_def
  RunCancelled_def LegacyAgentFinished_def LegacyAgentFailed_def StreamSnapshot_def
  CloseRun_def close_locked_def close_publish_def close_finish_def recv_def

definition ex_hub :: "unit memory_hub" where
  "ex_hub = NewMemoryHub (ex_config 2 1)"

theorem subscriber_no_gap_witness:
  "\<exists>sb h0 h1. Subscribe no_json 1 ex_hub 7 0 = (sb, h0) \<and>
     hub_exec no_json 1 h0 (Op_Publish (ex_event 7 1 ''llm.delta'')) = Some h1 \<and>
     (prefix ([] @ ch_buf (hub_heap h1 (sb_live sb))) [ex_event 7 1 ''llm.delta''] \<and>
      (\<not> ch_closed (hub_heap h1 (sb_live sb)) \<longrightarrow> [] @ ch_buf (hub_heap h1 (sb_live sb)) = [ex_event 7 1 ''llm.delta'']) \<and>
      sorted_wrt (<) (map ev_Seq (sb_replay sb @ [] @ ch_buf (hub_heap h1 (sb_live sb)))))"
proof -
  obtain sb h0 where sub: "Subscribe no_json 1 ex_hub 7 0 = (sb, h0)" by fastforce
  obtain h1 where pub: "hub_exec no_json 1 h0 (Op_Publish (ex_event 7 1 ''llm.delta'')) = Some h1"
    using sub by (simp add: ex_hub_def hub_eval Let_def) (auto simp add: hub_eval Let_def)
  have acc: "visible_on no_json 1 h0 7 (Op_Publish (ex_event 7 1 ''llm.delta'')) = [ex_event 7 1 ''llm.delta'']"
    using sub by (auto simp add: ex_hub_def hub_eval Let_def)
  have ok: "op_ok h0 (Op_Publish (ex_event 7 1 ''llm.delta''))" "op_ok ex_hub (Op_Subscribe 7 0)"
    using sub by (auto simp add: ex_hub_def hub_eval Let_def)
  have "session no_json 7 (sb_live sb) h0 [] [ex_event 7 1 ''llm.delta''] h1"
    using session.other [OF session.start ok(1) _ pub, where r = 7 and a = "sb_live sb"] acc by simp
  moreover have "hub_reach no_json ex_hub" unfolding ex_hub_def by (rule hub_reach.start)
  ultimately show ?thesis
    using subscriber_no_gap [OF _ ok(2) _ sub, of "[]" "[ex_event 7 1 ''llm.delta'']" h1] sub pub by auto
qed

section \<open>The replay ring\<close>

text \<open>C19: The trimming loop of the ring computes a simple policy. On a ring in sequence order
  whose byte count is right, \<^verbatim>\<open>trimEventsLocked\<close> drops the oldest event that is not terminal until the
  ring is within both limits or holds only terminal events, and recounts the bytes. It fails to return
  exactly when the terminal events alone exceed a limit and there are at least two of them.\<close>

theorem trim_exact:
  assumes "cfg_ok cfg" "sorted_wrt (<) (map ev_Seq (rs_events st))"
    and "rs_eventBytes st = ring_bytes (rs_events st)"
  shows "trimEventsLocked st (cfg_MaxEvents cfg) (cfg_MaxBytes cfg) =
    (if over_limit (cfg_MaxEvents cfg) (cfg_MaxBytes cfg) (filter is_term (rs_events st)) \<and>
        2 \<le> length (filter is_term (rs_events st))
     then None
     else Some (st\<lparr>rs_events := evict (cfg_MaxEvents cfg) (cfg_MaxBytes cfg) (rs_events st),
        rs_eventBytes := ring_bytes (evict (cfg_MaxEvents cfg) (cfg_MaxBytes cfg) (rs_events st))\<rparr>))"
  using trimEventsLocked_exact [OF assms] by (simp only: trim_diverges_def)

definition ex_ring :: "unit stream_event list \<Rightarrow> unit run_state" where
  "ex_ring es = newRunState\<lparr>rs_events := es, rs_eventBytes := ring_bytes es, rs_lastPublished := 9, rs_nextSeq := 10\<rparr>"

lemma ex_ring_sel [simp]: "rs_events (ex_ring es) = es" "rs_eventBytes (ex_ring es) = ring_bytes es"
  "rs_subscribers (ex_ring es) = []" "rs_closed (ex_ring es) = False"
  "rs_lastPublished (ex_ring es) = 9" "rs_nextSeq (ex_ring es) = 10"
  by (simp_all add: ex_ring_def newRunState_def)

lemma ex_cfg_ok [simp]: "0 < n \<Longrightarrow> 0 < b \<Longrightarrow> cfg_ok (ex_config n b)"
  by (simp add: cfg_ok_def)

lemma ex_is_term [simp]: "is_term (ex_event r n k) = isTerminalKind k"
  by (simp add: is_term_def)

lemma terminal_ex [simp]: "isTerminalKind ''run.waiting''" "isTerminalKind ''run.complete''"
  "\<not> isTerminalKind ''llm.delta''" "\<not> isTerminalKind ''run.started''"
  by (simp_all add: isTerminalKind_def terminal_kinds_def RunComplete_def RunFailed_def RunPaused_def
      RunWaiting_def RunCancelled_def LegacyAgentFinished_def LegacyAgentFailed_def)

theorem trim_exact_witness:
  "trimEventsLocked (ex_ring [ex_event 7 1 ''run.waiting'', ex_event 7 2 ''llm.delta'', ex_event 7 3 ''llm.delta'']) 2 100000 =
   Some (ex_ring [ex_event 7 1 ''run.waiting'', ex_event 7 3 ''llm.delta''])"
proof -
  have "evict 2 100000 [ex_event 7 1 ''run.waiting'', ex_event 7 2 ''llm.delta'', ex_event 7 3 ''llm.delta''] =
      [ex_event 7 1 ''run.waiting'', ex_event 7 3 ''llm.delta'']"
    by (subst evict.simps, subst evict.simps) (simp add: over_limit_def)
  then show ?thesis
    using trim_exact [of "ex_config 2 1" "ex_ring [ex_event 7 1 ''run.waiting'', ex_event 7 2 ''llm.delta'', ex_event 7 3 ''llm.delta'']"]
    by (simp add: over_limit_def) (simp add: ex_ring_def)
qed

text \<open>What eviction keeps. After \<^verbatim>\<open>trimEventsLocked\<close> returns, the ring is a subsequence of the old one
  in the same order; every terminal event is still there; the other events it keeps are the most
  recent ones; the byte count is the sum of the sizes; and a limit is exceeded only by a ring that
  is one terminal event.\<close>

theorem trim_keeps:
  assumes "cfg_ok cfg" "sorted_wrt (<) (map ev_Seq (rs_events st))"
    and "rs_eventBytes st = ring_bytes (rs_events st)"
    and "trimEventsLocked st (cfg_MaxEvents cfg) (cfg_MaxBytes cfg) = Some st'"
  shows "subseq (rs_events st') (rs_events st) \<and>
    filter is_term (rs_events st') = filter is_term (rs_events st) \<and>
    (\<exists>k. filter (\<lambda>e. \<not> is_term e) (rs_events st') = drop k (filter (\<lambda>e. \<not> is_term e) (rs_events st))) \<and>
    rs_eventBytes st' = ring_bytes (rs_events st') \<and>
    (over_limit (cfg_MaxEvents cfg) (cfg_MaxBytes cfg) (rs_events st') \<longrightarrow>
       (\<exists>e. is_term e \<and> rs_events st' = [e]))"
proof -
  let ?ev = "evict (cfg_MaxEvents cfg) (cfg_MaxBytes cfg) (rs_events st)"
  from assms trimEventsLocked_exact [OF assms(1-3)]
  have st': "st' = st\<lparr>rs_events := ?ev, rs_eventBytes := ring_bytes ?ev\<rparr>"
    and nd: "\<not> trim_diverges (cfg_MaxEvents cfg) (cfg_MaxBytes cfg) (rs_events st)"
    by (auto split: if_splits)
  have "\<exists>e. is_term e \<and> ?ev = [e]" if over: "over_limit (cfg_MaxEvents cfg) (cfg_MaxBytes cfg) ?ev"
  proof -
    have tm: "list_all is_term ?ev" using evict_limit over .
    have "filter is_term ?ev = ?ev" by (rule filter_True) (use tm in \<open>simp add: list_all_iff\<close>)
    then have eq: "?ev = filter is_term (rs_events st)" by simp
    with nd over have "length ?ev \<le> 1" by (auto simp: trim_diverges_def)
    moreover have "?ev \<noteq> []" using over assms(1) by (auto simp: over_limit_def cfg_ok_def)
    ultimately show ?thesis using tm by (cases ?ev) auto
  qed
  then show ?thesis by (simp add: st' subseq_evict evict_transients)
qed

theorem trim_keeps_witness:
  "\<exists>st'. trimEventsLocked (ex_ring [ex_event 7 1 ''llm.delta'', ex_event 7 2 ''run.waiting'']) 1 100000 = Some st' \<and>
     filter is_term (rs_events st') = [ex_event 7 2 ''run.waiting''] \<and>
     rs_eventBytes st' = ring_bytes (rs_events st')"
proof -
  let ?st = "ex_ring [ex_event 7 1 ''llm.delta'', ex_event 7 2 ''run.waiting'']"
  obtain st' where "trimEventsLocked ?st 1 100000 = Some st'"
    using trimEventsLocked_exact [of "ex_config 1 1" ?st] by (simp add: trim_diverges_def over_limit_def)
  with trim_keeps [of "ex_config 1 1" ?st st'] show ?thesis by simp
qed


section \<open>The invariant of the hub\<close>

text \<open>C9: In every reachable hub, for every run: the ring is in strictly increasing sequence order,
  holds positive numbers not above the last published one, which is below the next number to
  reserve; its byte count is the sum of the sizes; it exceeds its limits only as one terminal event;
  subscriber ids are distinct; a closed run has no subscribers; each subscriber's channel is open
  and belongs to no other subscriber of any run.\<close>

theorem hub_invariant:
  assumes "hub_reach marshal h" "map_of (hub_runs h) r = Some st"
  shows "run_inv (hub_config h) st \<and>
    distinct (map (sub_ch \<circ> snd) (rs_subscribers st)) \<and>
    (\<forall>a\<in>chans (rs_subscribers st). \<not> ch_closed (hub_heap h a)) \<and>
    (\<forall>r' st'. r' \<noteq> r \<longrightarrow> map_of (hub_runs h) r' = Some st' \<longrightarrow>
       chans (rs_subscribers st) \<inter> chans (rs_subscribers st') = {})"
proof -
  have inv: "hub_inv h" using assms(1) by (rule hub_reach_inv)
  moreover have "chans (rs_subscribers st) \<inter> chans (rs_subscribers st') = {}"
    if "r' \<noteq> r" "map_of (hub_runs h) r' = Some st'" for r' st'
    using inv assms(2) that unfolding hub_inv_def by metis
  ultimately show ?thesis
    using hub_inv_run [OF inv assms(2)] by (auto simp: chan_inv_def)
qed

theorem hub_invariant_witness:
  "\<exists>h st. hub_reach no_json h \<and> map_of (hub_runs h) 7 = Some st \<and> rs_subscribers st \<noteq> [] \<and>
     run_inv (hub_config h) st"
proof -
  obtain sb h0 where sub: "Subscribe no_json 1 ex_hub 7 0 = (sb, h0)" by fastforce
  have "hub_reach no_json h0"
    by (rule hub_reach.step [OF hub_reach.start [of no_json "ex_config 2 1"], of "Op_Subscribe 7 0" 1])
      (use sub in \<open>simp_all add: ex_hub_def run_of_def NewMemoryHub_def newRunState_def\<close>)
  moreover obtain st where st: "map_of (hub_runs h0) 7 = Some st" "rs_subscribers st \<noteq> []"
    using sub by (auto simp add: ex_hub_def hub_eval Let_def)
  ultimately show ?thesis using hub_invariant [of no_json h0 7 st] by blast
qed

section \<open>Publication and isolation\<close>

text \<open>A publication never waits for a consumer. Unless the ring of the run cannot be trimmed,
  \<^verbatim>\<open>PublishPrepared\<close> of an event the run accepts returns; each channel subscribed to the run with
  room gets the event as its newest, each full one is closed with its buffer kept and its
  subscriber dropped, every other channel is untouched, and the run has published the event.\<close>

theorem publish_never_blocks:
  assumes "hub_reach marshal h" "op_ok h (Op_Publish ev)" "ev_RunID ev \<noteq> 0"
    and "accepted marshal (ev_RunID ev) now (run_of h (ev_RunID ev)) ev = Some e"
    and "\<not> ring_diverges (hub_config h) (run_of h (ev_RunID ev)) e"
  shows "\<exists>h'. PublishPrepared marshal now h ev = Some h' \<and>
    rs_lastPublished (run_of h' (ev_RunID ev)) = ev_Seq e \<and>
    (\<forall>a. hub_heap h' a =
      (if a \<notin> subs_of h (ev_RunID ev) then hub_heap h a
       else if has_room (hub_heap h) a then (hub_heap h a)\<lparr>ch_buf := ch_buf (hub_heap h a) @ [e]\<rparr>
       else (hub_heap h a)\<lparr>ch_closed := True\<rparr>)) \<and>
    subs_of h' (ev_RunID ev) = {a \<in> subs_of h (ev_RunID ev). has_room (hub_heap h) a}"
proof -
  have inv: "hub_inv h" using assms(1) by (rule hub_reach_inv)
  from inv assms(2-5) show ?thesis
  proof (rule publish_prepared_exact)
    fix h1 heap' st' P
    assume "PublishPrepared marshal now h ev = Some (putRun h1 (ev_RunID ev) heap' st')"
      "st' = (published (hub_config h) (run_of h (ev_RunID ev)) e)\<lparr>rs_subscribers := filter P (rs_subscribers (run_of h (ev_RunID ev)))\<rparr>"
      "chans (rs_subscribers st') = {a \<in> subs_of h (ev_RunID ev). has_room (hub_heap h) a}"
      "\<And>a. heap' a = (if a \<notin> subs_of h (ev_RunID ev) then hub_heap h a
         else if has_room (hub_heap h) a then (hub_heap h a)\<lparr>ch_buf := ch_buf (hub_heap h a) @ [e]\<rparr>
         else (hub_heap h a)\<lparr>ch_closed := True\<rparr>)"
    then show ?thesis
      by (intro exI [of _ "putRun h1 (ev_RunID ev) heap' st'"]) (simp add: subs_of_def)
  qed
qed

theorem publish_never_blocks_witness:
  "\<exists>h'. PublishPrepared no_json 1 ex_hub (ex_event 7 1 ''llm.delta'') = Some h' \<and>
     rs_lastPublished (run_of h' 7) = 1"
proof -
  have "hub_reach no_json ex_hub" unfolding ex_hub_def by (rule hub_reach.start)
  moreover have st: "run_of ex_hub 7 = newRunState" "hub_config ex_hub = ex_config 2 1"
    by (simp_all add: ex_hub_def run_of_def NewMemoryHub_def)
  moreover have "accepted no_json 7 1 newRunState (ex_event 7 1 ''llm.delta'') = Some (ex_event 7 1 ''llm.delta'')"
    by (simp add: accepted_def newRunState_def Let_def)
  moreover have "\<not> ring_diverges (ex_config 2 1) newRunState (ex_event 7 1 ''llm.delta'')"
    by (simp add: ring_diverges_def trim_diverges_def newRunState_def)
  moreover have "op_ok ex_hub (Op_Publish (ex_event 7 1 ''llm.delta''))" using st by (simp add: newRunState_def)
  ultimately show ?thesis
    using publish_never_blocks [of no_json ex_hub "ex_event 7 1 ''llm.delta''" 1 "ex_event 7 1 ''llm.delta''"] by auto
qed

fun op_run :: "'p hub_op \<Rightarrow> int option" where
  "op_run (Op_Prepare r ev) = Some r"
| "op_run (Op_Publish ev) = Some (ev_RunID ev)"
| "op_run (Op_Cancel r sb) = Some r"
| "op_run (Op_CloseRun r ev) = Some r"
| "op_run _ = None"

lemma closeSubscriber_frame:
  "a \<noteq> sub_ch sub \<Longrightarrow> fst (closeSubscriberLocked heap st sid sub) a = heap a"
  "rs_subscribers (snd (closeSubscriberLocked heap st sid sub)) = AList.delete sid (rs_subscribers st)"
  by (simp_all add: closeSubscriberLocked_def Let_def)

lemma close_subs_frame: "a \<notin> chans L \<Longrightarrow> fst (close_subs heap st L) a = heap a"
  by (induction L arbitrary: heap st)
    (auto simp: chans_def case_prod_unfold closeSubscriber_frame)

lemma notify_subs_frame: "a \<notin> chans L \<Longrightarrow> fst (notify_subs ev heap st L) a = heap a"
  by (induction L arbitrary: heap st)
    (auto simp: chans_def Let_def case_prod_unfold closeSubscriber_frame)

lemma notify_subs_subset: "set (rs_subscribers (snd (notify_subs ev heap st L))) \<subseteq> set (rs_subscribers st)"
proof (induction L arbitrary: heap st)
  case (Cons p L)
  obtain sid sub where p: "p = (sid, sub)" by (cases p)
  have del: "set (AList.delete sid xs) \<subseteq> set xs" for xs :: "(u64 \<times> subscriber) list"
    by (simp add: AList.delete_eq)
  show ?case
    unfolding p notify_subs.simps Let_def case_prod_unfold
    using Cons.IH subset_trans [OF Cons.IH] del by (auto simp: closeSubscriber_frame)
qed simp

lemma trim_subs: "trimEventsLocked st mE mB = Some st' \<Longrightarrow> rs_subscribers st' = rs_subscribers st"
  by (auto simp: trimEventsLocked_def Let_def)

lemma notify_trim_frame:
  assumes "map_option (notifySubscribersLocked e heap) (trimEventsLocked st mE mB) = Some (heap', st')"
    "a \<notin> chans (rs_subscribers st)"
  shows "heap' a = heap a \<and> a \<notin> chans (rs_subscribers st')"
proof -
  from assms(1) obtain s where s: "trimEventsLocked st mE mB = Some s" "notifySubscribersLocked e heap s = (heap', st')"
    by auto
  with assms(2) have "a \<notin> chans (rs_subscribers s)" using trim_subs by metis
  then show ?thesis
    using notify_subs_frame [of a "rs_subscribers s" e heap s] notify_subs_subset [of e heap s "rs_subscribers s"] s(2)
    by (auto simp: notifySubscribersLocked_def chans_def)
qed

lemma assign_seq_subs [simp]: "rs_subscribers (snd (assign_seq st x)) = rs_subscribers st"
  by (simp add: assign_seq_def next_seq_def Let_def)

lemma publish_frame:
  assumes "publish_locked marshal cfg now heap st ev = Some (heap', st')" "a \<notin> chans (rs_subscribers st)"
  shows "heap' a = heap a"
proof -
  have new: "heap' a = heap a" if "publish_new cfg heap s x = Some (heap', st')" "a \<notin> chans (rs_subscribers s)" for s x
    using that(1) unfolding publish_new_def Let_def
    by (rule notify_trim_frame [THEN conjunct1]) (use that(2) in \<open>simp add: record_event_def\<close>)
  show ?thesis
    using assms new by (auto simp: publish_locked_def case_prod_unfold split: if_splits)
qed

lemma close_frame:
  assumes "close_locked marshal cfg r now heap st ev = Some (heap', st')" "a \<notin> chans (rs_subscribers st)"
  shows "heap' a = heap a"
proof (cases "rs_closed st")
  case False
  let ?p = "assign_seq st (normalizeEvent marshal ev r now)"
  from assms(1) False obtain h2 s2 where pub: "close_publish cfg heap (snd ?p) (fst ?p) = Some (h2, s2)"
    and fin: "close_finish now (h2, s2) = (heap', st')"
    by (auto simp: close_locked_def case_prod_unfold)
  have "h2 a = heap a \<and> a \<notin> chans (rs_subscribers s2)"
  proof (cases "ev_Seq (fst ?p) > rs_lastPublished (snd ?p)")
    case True
    show ?thesis
      by (rule notify_trim_frame [OF pub [unfolded close_publish_def Let_def if_P [OF True]]])
        (use assms(2) in \<open>auto simp add: record_event_def\<close>)
  qed (use pub assms(2) in \<open>auto simp: close_publish_def\<close>)
  then show ?thesis
    using fin close_subs_frame [of a "rs_subscribers s2" h2]
    by (simp add: close_finish_def) (metis fst_conv)
qed (use assms in \<open>simp add: close_locked_def\<close>)

lemma chansI: "(sid, sub) \<in> set L \<Longrightarrow> sub_ch sub \<in> chans L"
  by (force simp: chans_def)

lemma cancel_frame:
  "r' \<noteq> r \<Longrightarrow> map_of (hub_runs (cancel h r sb)) r' = map_of (hub_runs h) r'"
  "a \<notin> subs_of h r \<Longrightarrow> hub_heap (cancel h r sb) a = hub_heap h a"
  by (auto simp: cancel_def cancel_locked_def closeSubscriberLocked_def Let_def case_prod_unfold
      subs_of_def run_of_def dest!: map_of_SomeD dest: chansI split: option.splits)

text \<open>Runs are isolated. An operation of the hub on one run (reserving a number, publishing,
  closing, cancelling) leaves the state of every other run as it was, and every channel that is
  not subscribed to that run.\<close>

theorem run_isolation:
  assumes "hub_exec marshal now h opr = Some h'" "op_run opr = Some r"
  shows "(\<forall>r'. r' \<noteq> r \<longrightarrow> map_of (hub_runs h') r' = map_of (hub_runs h) r') \<and>
    (\<forall>a. a \<notin> subs_of h r \<longrightarrow> hub_heap h' a = hub_heap h a)"
proof -
  have get: "hub_heap h1 = hub_heap h" "st = run_of h r" "\<forall>r'. r' \<noteq> r \<longrightarrow> map_of (hub_runs h1) r' = map_of (hub_runs h) r'"
    if "getRun h r True = Some (h1, st)" for h1 st
    using that by (auto simp: getRun_def run_of_def Let_def update_conv' split: if_splits option.splits)
  show ?thesis
  proof (cases "getRun h r True")
    case None
    with assms cancel_frame show ?thesis
      by (cases opr) (auto simp: Prepare_def PublishPrepared_def CloseRun_def)
  next
    case (Some p)
    obtain h1 st where p: "getRun h r True = Some (h1, st)" using Some by (cases p) auto
    note get = get [OF p]
    show ?thesis
    proof (cases opr)
      case (Op_Prepare r0 ev)
      with assms p get show ?thesis by (auto simp: Prepare_def case_prod_unfold)
    next
      case (Op_Publish ev)
      with assms p get publish_frame show ?thesis
        by (fastforce simp: PublishPrepared_def subs_of_def)
    next
      case (Op_CloseRun r0 ev)
      with assms p get close_frame show ?thesis
        by (fastforce simp: CloseRun_def subs_of_def)
    next
      case (Op_Cancel r0 sb)
      with assms cancel_frame show ?thesis by auto
    qed (use assms in auto)
  qed
qed

theorem run_isolation_witness:
  "\<exists>h'. hub_exec no_json 1 ex_hub (Op_Publish (ex_event 7 1 ''llm.delta'')) = Some h' \<and>
     map_of (hub_runs h') 8 = map_of (hub_runs ex_hub) 8"
proof -
  obtain h' where "hub_exec no_json 1 ex_hub (Op_Publish (ex_event 7 1 ''llm.delta'')) = Some h'"
    by (simp add: ex_hub_def hub_eval Let_def)
  then show ?thesis
    using run_isolation [of no_json 1 ex_hub "Op_Publish (ex_event 7 1 ''llm.delta'')" h' 7] by auto
qed

section \<open>Closed runs and expiry\<close>

text \<open>A closed run is frozen. Once a run of a reachable hub is closed, no later preparation,
  publication, closing or cancellation on any run changes its state, and a client that subscribes
  before the run expires gets the replay and a channel that is already closed and empty, so its
  reader ends after the replay.\<close>

theorem closed_run_frozen:
  assumes "hub_reach marshal h" "map_of (hub_runs h) r = Some st" "rs_closed st" "r \<noteq> 0"
  shows "(\<forall>opr now h'. op_run opr \<noteq> None \<longrightarrow> hub_exec marshal now h opr = Some h' \<longrightarrow>
       map_of (hub_runs h') r = Some st) \<and>
    (\<forall>now s. \<not> run_expired (hub_config h) now st \<longrightarrow>
       (\<exists>sb h'. Subscribe marshal now h r s = (sb, h') \<and>
          hub_heap h' (sb_live sb) = \<lparr>ch_buf = [], ch_cap = 0, ch_closed = True\<rparr> \<and>
          sb_replay sb = map cloneEvent (subscribe_replay marshal (hub_config h) r st s now)))"
proof (intro conjI allI impI)
  have inv: "hub_inv h" using assms(1) by (rule hub_reach_inv)
  have subs: "rs_subscribers st = []" using hub_inv_run [OF inv assms(2)] assms(3) by (simp add: run_inv_def)
  have ro: "run_of h r = st" using assms(2) by (simp add: run_of_def)
  fix opr now h' assume op: "op_run opr \<noteq> None" and ex: "hub_exec marshal now h opr = Some h'"
  show "map_of (hub_runs h') r = Some st"
  proof (cases "op_run opr = Some r")
    case False
    with op run_isolation [OF ex] assms(2) show ?thesis by fastforce
  next
    case True
    obtain h1 where h1: "getRun h r True = Some (h1, st)" using getRun_create [OF inv assms(4)] ro by metis
    show ?thesis
      using True ex h1 assms(2,3) subs
      by (cases opr) (auto simp: Prepare_def prepare_locked_def PublishPrepared_def publish_locked_def
          CloseRun_def close_locked_def cancel_def cancel_locked_def split: option.splits)
  qed
next
  have inv: "hub_inv h" using assms(1) by (rule hub_reach_inv)
  fix now s assume live: "\<not> run_expired (hub_config h) now st"
  note x = removeExpiredRuns_inv [OF inv, where now = now]
  have ro: "run_of h r = st" using assms(2) by (simp add: run_of_def)
  with x(5) [of r] live have st: "run_of (removeExpiredRuns h now) r = st" by simp
  obtain h1 where "getRun (removeExpiredRuns h now) r True = Some (h1, st)"
    using getRun_create [OF x(1) assms(4)] st by metis
  then have "hub_heap (snd (Subscribe marshal now h r s)) (sb_live (fst (Subscribe marshal now h r s))) =
      \<lparr>ch_buf = [], ch_cap = 0, ch_closed = True\<rparr>"
    using assms(3,4) by (simp add: Subscribe_def alloc_chan_def)
  with Subscribe_replay [OF inv assms(4), of marshal now s] st
  show "\<exists>sb h'. Subscribe marshal now h r s = (sb, h') \<and>
          hub_heap h' (sb_live sb) = \<lparr>ch_buf = [], ch_cap = 0, ch_closed = True\<rparr> \<and>
          sb_replay sb = map cloneEvent (subscribe_replay marshal (hub_config h) r st s now)"
    by (metis prod.collapse)
qed

text \<open>A hub with a closed run, for the witnesses.\<close>

lemma ex_closed:
  obtains h st where "hub_reach no_json h" "map_of (hub_runs h) 7 = Some st" "rs_closed st" "rs_closedAt st = 5"
    "rs_events st = [ex_event 7 1 ''run.complete'']" "hub_config h = ex_config 2 1" "hub_runs h = [(7, st)]"
proof -
  obtain h where h: "hub_exec no_json 5 ex_hub (Op_CloseRun 7 (ex_event 7 1 ''run.complete'')) = Some h"
    by (simp add: ex_hub_def hub_eval Let_def)
  have ok: "op_ok ex_hub (Op_CloseRun 7 (ex_event 7 1 ''run.complete''))"
    by (simp add: ex_hub_def run_of_def NewMemoryHub_def newRunState_def)
  have "hub_reach no_json h"
    using hub_reach.step [OF hub_reach.start ok [unfolded ex_hub_def] h [unfolded ex_hub_def]] .
  moreover obtain st where "hub_runs h = [(7, st)]" "rs_closed st" "rs_closedAt st = 5"
    "rs_events st = [ex_event 7 1 ''run.complete'']" "hub_config h = ex_config 2 1"
    using h by (auto simp: ex_hub_def hub_eval Let_def)
  ultimately show thesis by (intro that [of h st]) simp_all
qed

theorem closed_run_frozen_witness:
  "\<exists>h st h'. map_of (hub_runs h) 7 = Some st \<and> rs_closed st \<and>
     hub_exec no_json 6 h (Op_Publish (ex_event 7 2 ''llm.delta'')) = Some h' \<and> map_of (hub_runs h') 7 = Some st"
proof -
  obtain h st where h: "hub_reach no_json h" "map_of (hub_runs h) 7 = Some st" "rs_closed st"
    "hub_config h = ex_config 2 1" using ex_closed by metis
  then obtain h' where h': "hub_exec no_json 6 h (Op_Publish (ex_event 7 2 ''llm.delta'')) = Some h'"
    by (simp add: PublishPrepared_def getRun_def publish_locked_def Let_def)
  moreover have "op_run (Op_Publish (ex_event 7 2 ''llm.delta'')) \<noteq> None" by simp
  moreover have "(7::int) \<noteq> 0" by simp
  ultimately show ?thesis using closed_run_frozen [OF h(1-3), THEN conjunct1] h by blast
qed

text \<open>Expiry forgets exactly the closed runs whose retention has elapsed: \<^verbatim>\<open>PurgeExpired\<close> on a
  reachable hub removes a run iff it is closed and its closing instant plus the retention is not in the
  future, keeps every other run as it was, and touches no channel.\<close>

theorem purge_exact:
  assumes "hub_reach marshal h"
  shows "map_of (hub_runs (PurgeExpired h now)) r =
      (case map_of (hub_runs h) r of
         None \<Rightarrow> None
       | Some st \<Rightarrow> if rs_closed st \<and> rs_closedAt st \<noteq> 0 \<and>
                        rs_closedAt st + cfg_TerminalRetention (hub_config h) \<le> now
                    then None else Some st) \<and>
    hub_heap (PurgeExpired h now) = hub_heap h"
  using removeExpiredRuns_get [OF hub_reach_inv [OF assms], of now r]
    removeExpiredRuns_inv(2) [OF hub_reach_inv [OF assms], of now]
  by (auto simp: PurgeExpired_def run_expired_def split: option.split)

theorem purge_exact_witness:
  "\<exists>(h :: unit memory_hub) st. map_of (hub_runs h) 7 = Some st \<and> map_of (hub_runs (PurgeExpired h 64)) 7 = Some st \<and>
     map_of (hub_runs (PurgeExpired h 65)) 7 = None"
proof -
  obtain h st where h: "hub_reach no_json h" "map_of (hub_runs h) 7 = Some st" "rs_closed st"
    "rs_closedAt st = 5" "hub_config h = ex_config 2 1" using ex_closed by metis
  show ?thesis using h purge_exact [OF h(1), of 64 7] purge_exact [OF h(1), of 65 7]
    by (intro exI [where x = h] exI [where x = st]) simp
qed

section \<open>Replay\<close>

text \<open>The events published on a run since it was created, along the operations of the hub; an
  operation that looks for expired runs starts the run's history again when the run has expired.\<close>

fun expires :: "'p hub_op \<Rightarrow> bool" where
  "expires (Op_Subscribe r s) = (r \<noteq> 0)"
| "expires (Op_Snapshot r) = (r \<noteq> 0)"
| "expires Op_Purge = True"
| "expires _ = False"

inductive hub_trace :: "('p \<Rightarrow> string option) \<Rightarrow> int \<Rightarrow> 'p memory_hub \<Rightarrow> 'p stream_event list \<Rightarrow> bool"
  for marshal r where
  start: "hub_trace marshal r (NewMemoryHub c) []"
| step: "hub_trace marshal r h hist \<Longrightarrow> op_ok h opr \<Longrightarrow> hub_exec marshal now h opr = Some h' \<Longrightarrow>
    hub_trace marshal r h'
      (if expires opr \<and> run_expired (hub_config h) now (run_of h r) then []
       else hist @ visible_on marshal now h r opr)"

text \<open>How an operation changes the ring of a run.\<close>

definition run_core :: "'p run_state \<Rightarrow> 'p stream_event list \<times> u64" where
  "run_core st = (rs_events st, rs_lastPublished st)"

definition ring_next ::
  "('p \<Rightarrow> string option) \<Rightarrow> gotime \<Rightarrow> 'p memory_hub \<Rightarrow> int \<Rightarrow> 'p hub_op \<Rightarrow> 'p stream_event list \<times> u64" where
  "ring_next marshal now h r opr =
     (if expires opr \<and> run_expired (hub_config h) now (run_of h r) then ([], 0)
      else case visible_on marshal now h r opr of
             [] \<Rightarrow> run_core (run_of h r)
           | e # _ \<Rightarrow> (ring_append (hub_config h) (run_of h r) e, ev_Seq e))"

lemma notify_events: "run_core (snd (notify_subs e heap st L)) = run_core st"
  by (induction L arbitrary: heap st) (auto simp: Let_def case_prod_unfold closeSubscriberLocked_def run_core_def)

lemma close_subs_events: "run_core (snd (close_subs heap st L)) = run_core st"
  by (induction L arbitrary: heap st) (auto simp: Let_def case_prod_unfold closeSubscriberLocked_def run_core_def)

lemma close_finish_events: "run_core (snd (close_finish now p)) = run_core (snd p)"
  by (simp add: close_finish_def Let_def case_prod_unfold close_subs_events) (simp add: run_core_def)

lemma notify_events_eq: "notifySubscribersLocked e heap st = (heap', st') \<Longrightarrow> run_core st' = run_core st"
  using notify_events [of e heap st "rs_subscribers st"] by (simp add: notifySubscribersLocked_def)

lemma close_finish_events_eq: "close_finish now p = (heap', st') \<Longrightarrow> run_core st' = run_core (snd p)"
  using close_finish_events [of now p] by simp

lemma ring_next_own:
  assumes inv: "hub_inv h" and ok: "op_ok h opr" and ex: "hub_exec marshal now h opr = Some h'"
    and op: "op_run opr = Some r" and r: "r \<noteq> 0"
  shows "run_core (run_of h' r) = ring_next marshal now h r opr"
proof -
  let ?st = "run_of h r"
  obtain h1 where get: "getRun h r True = Some (h1, ?st)" and ready: "run_ready h r h1"
    using getRun_create [OF inv r] .
  then have h1: "hub_heap h1 = hub_heap h" "hub_config h1 = hub_config h" by (simp_all add: run_ready_def)
  note run = run_of_inv(1) [OF inv, of r] and cfg = hub_inv_cfg [OF inv]
  show ?thesis
  proof (cases opr)
    case (Op_Publish ev)
    with ok op have "rs_nextSeq ?st \<noteq> - 1" and ev: "ev_RunID ev = r" by simp_all
    from publish_locked_exact [OF run cfg this(1), of marshal now "hub_heap h" ev] Op_Publish ex get h1 r
    show ?thesis
      by (auto simp: PublishPrepared_def ev ring_next_def case_prod_unfold dest!: notify_events_eq
          split: option.splits if_splits) (simp add: published_def commit_event_def run_core_def)
  next
    case (Op_CloseRun r0 ev)
    with ok op have nw: "rs_nextSeq ?st \<noteq> - 1" and r0: "r0 = r" by simp_all
    show ?thesis
    proof (cases "rs_closed ?st")
      case True
      with Op_CloseRun ex get h1 r show ?thesis
        by (auto simp: CloseRun_def close_locked_def r0 ring_next_def accepted_def)
    next
      case False
      from close_locked_exact [OF run cfg nw False, of marshal r now "hub_heap h" ev] Op_CloseRun ex get h1 r
      show ?thesis
        by (auto simp: CloseRun_def r0 ring_next_def case_prod_unfold notifySubscribersLocked_def notify_events
            dest!: close_finish_events_eq split: option.splits if_splits) (simp add: published_def commit_event_def run_core_def)
    qed
  next
    case (Op_Prepare r0 ev)
    with ex get op show ?thesis
      by (auto simp: Prepare_def case_prod_unfold ring_next_def prepare_locked_def next_seq_def Let_def run_core_def)
  next
    case (Op_Cancel r0 sb)
    with ex op show ?thesis
      by (auto simp: cancel_def cancel_locked_def closeSubscriberLocked_def case_prod_unfold ring_next_def
          run_of_def run_core_def Let_def split: option.splits)
  qed (use op in auto)
qed

lemma visible_own: "visible_on marshal now h r opr \<noteq> [] \<Longrightarrow> op_run opr = Some r"
  by (cases opr) (auto split: if_splits)

lemma ring_next_step:
  assumes inv: "hub_inv h" and ok: "op_ok h opr" and ex: "hub_exec marshal now h opr = Some h'" and r: "r \<noteq> 0"
  shows "run_core (run_of h' r) = ring_next marshal now h r opr"
proof (cases "op_run opr")
  case (Some r0)
  show ?thesis
  proof (cases "r0 = r")
    case True
    with ring_next_own [OF inv ok ex] Some r show ?thesis by simp
  next
    case False
    then have "visible_on marshal now h r opr = []" using visible_own Some by fastforce
    moreover have "\<not> expires opr" using Some by (cases opr) auto
    moreover have "run_of h' r = run_of h r" using run_isolation [OF ex Some] False by (simp add: run_of_def)
    ultimately show ?thesis by (simp add: ring_next_def)
  qed
next
  case None
  then have vis: "visible_on marshal now h r opr = []" using visible_own by fastforce
  note x = removeExpiredRuns_inv [OF inv, where now = now]
  note wd = withDefaults_id [OF hub_inv_cfg [OF inv]]
  show ?thesis
  proof (cases opr)
    case (Op_Subscribe r0 s)
    show ?thesis
    proof (cases "r0 = 0")
      case True
      with Op_Subscribe ex show ?thesis by (auto simp: Subscribe_def alloc_chan_def ring_next_def run_of_def)
    next
      case r0: False
      obtain h1 where get: "getRun (removeExpiredRuns h now) r0 True = Some (h1, run_of (removeExpiredRuns h now) r0)"
        and ready: "run_ready (removeExpiredRuns h now) r0 h1"
        using getRun_create [OF x(1) r0] .
      have ro: "run_of h1 r' = run_of (removeExpiredRuns h now) r'" for r'
        using ready by (intro run_of_get) (simp add: run_ready_def)
      have al: "run_of (snd (alloc_chan h1 c)) r' = run_of h1 r'" for c r'
        by (simp add: alloc_chan_def run_of_def)
      have "run_core (run_of h' r) = run_core (run_of (removeExpiredRuns h now) r)"
        using Op_Subscribe ex get r0
        by (cases "rs_closed (run_of (removeExpiredRuns h now) r0)")
          (auto simp: Subscribe_def Let_def case_prod_unfold al ro run_core_def)
      then show ?thesis using vis Op_Subscribe r0 by (simp add: ring_next_def x newRunState_def run_core_def)
    qed
  next
    case (Op_Snapshot r0)
    then have "h' = (if r0 = 0 then h else removeExpiredRuns h now)"
      using ex wd x(4) by (auto simp: Snapshot_def getRun_def Let_def split: option.splits)
    with vis Op_Snapshot show ?thesis by (auto simp: ring_next_def x newRunState_def run_core_def)
  next
    case Op_Purge
    with ex vis show ?thesis by (auto simp: PurgeExpired_def ring_next_def x newRunState_def run_core_def)
  next
    case (Op_Recv a)
    with ex show ?thesis by (auto simp: recv_def ring_next_def run_of_def)
  qed (use None in auto)
qed

text \<open>The ring of a run against the history of the run.\<close>

definition ring_of :: "'p stream_event list \<Rightarrow> 'p stream_event list \<Rightarrow> bool" where
  "ring_of hist es \<longleftrightarrow> subseq es hist \<and> filter is_term es = filter is_term hist \<and>
     (\<exists>k. filter (\<lambda>e. \<not> is_term e) es = drop k (filter (\<lambda>e. \<not> is_term e) hist))"

lemma ring_of_append:
  assumes "ring_of hist (rs_events st)"
  shows "ring_of (hist @ [e]) (ring_append cfg st e)"
proof -
  let ?n = "\<lambda>e. \<not> is_term e"
  from assms obtain k where k: "filter ?n (rs_events st) = drop k (filter ?n hist)" by (auto simp: ring_of_def)
  obtain j where j: "filter ?n (ring_append cfg st e) = drop j (filter ?n (rs_events st @ [e]))"
    using evict_transients [of "cfg_MaxEvents cfg" "cfg_MaxBytes cfg" "rs_events st @ [e]"] by (auto simp: ring_append_def)
  have "filter ?n (rs_events st @ [e]) = drop (min k (length (filter ?n hist))) (filter ?n (hist @ [e]))"
    using k by (cases "k \<le> length (filter ?n hist)") (auto simp: min_def)
  then have "\<exists>i. filter ?n (ring_append cfg st e) = drop i (filter ?n (hist @ [e]))"
    by (metis j drop_drop)
  moreover have "subseq (ring_append cfg st e) (hist @ [e])"
    using subseq_evict [of "cfg_MaxEvents cfg" "cfg_MaxBytes cfg" "rs_events st @ [e]"] assms
    by (auto simp: ring_append_def ring_of_def intro: subseq_order.trans)
  ultimately show ?thesis
    using assms by (simp add: ring_of_def ring_append_def)
qed

lemma hub_trace_ring:
  assumes "hub_trace marshal r h hist" "r \<noteq> 0"
  shows "hub_inv h \<and> ring_of hist (rs_events (run_of h r)) \<and> sorted_wrt (<) (map ev_Seq hist) \<and>
    (\<forall>e\<in>set hist. ev_Seq e \<le> rs_lastPublished (run_of h r))"
  using assms
proof (induction rule: hub_trace.induct)
  case (start c)
  have "run_of (NewMemoryHub c) r = newRunState" by (simp add: run_of_def NewMemoryHub_def)
  then show ?case by (simp add: hub_inv_new ring_of_def newRunState_def)
next
  case (step h hist opr now h')
  note IH = step.IH [OF step.prems]
  have inv: "hub_inv h'" using hub_exec_inv IH step.hyps by blast
  note core = ring_next_step [OF conjunct1 [OF IH] step.hyps(2,3) step.prems]
  show ?case
  proof (cases "expires opr \<and> run_expired (hub_config h) now (run_of h r)")
    case True
    with core inv show ?thesis by (simp add: ring_next_def run_core_def ring_of_def)
  next
    case False
    show ?thesis
    proof (cases "visible_on marshal now h r opr")
      case Nil
      then have "run_core (run_of h' r) = run_core (run_of h r)" using False core by (auto simp: ring_next_def)
      with False inv IH Nil show ?thesis by (auto simp: run_core_def)
    next
      case (Cons e rest)
      then have "rest = []" by (cases opr) (auto split: if_splits option.splits)
      moreover have "step_ok h h' r a (visible_on marshal now h r opr)" if "opr \<noteq> Op_Recv a" for a
        using hub_exec_step that IH step.hyps by blast
      moreover have "opr \<noteq> Op_Recv 0" using Cons by auto
      ultimately have "rs_lastPublished (run_of h r) < ev_Seq e" using Cons by (force simp: step_ok_def)
      moreover have "ring_of (hist @ [e]) (ring_append (hub_config h) (run_of h r) e)"
        by (rule ring_of_append) (use IH in blast)
      ultimately show ?thesis
        using False core inv IH Cons \<open>rest = []\<close>
        by (auto simp: ring_next_def run_core_def sorted_wrt_append intro: le_less_trans less_imp_le order_trans)
    qed
  qed
qed

lemma subseq_filter_same:
  assumes "subseq es hist" "distinct hist" "\<forall>x\<in>set hist. P x \<longrightarrow> x \<in> set es"
  shows "filter P es = filter P hist"
  using assms
proof (induction rule: list_emb.induct)
  case (list_emb_Cons xs ys y)
  then have "y \<notin> set xs" using subseq_set by fastforce
  with list_emb_Cons show ?case by auto
qed auto

lemma foldl_min_head:
  fixes m :: u64
  assumes "\<forall>e\<in>set es. m < ev_Seq e"
  shows "foldl (\<lambda>m x. if ev_Seq x < m then ev_Seq x else m) m es = m"
  using assms by (induction es) (auto dest: less_asym)

lemma replayHasGap_sorted:
  assumes "sorted_wrt (<) (map ev_Seq (e # es))"
  shows "replayHasGap (e # es) s \<longleftrightarrow> 0 < ev_Seq e \<and> s < ev_Seq e - 1"
  using assms foldl_min_head [of es "ev_Seq e"] by (simp add: replayHasGap_def Let_def)

lemma u64_below_pred:
  fixes x e s :: u64
  assumes "x < e" "\<not> s < e - 1"
  shows "x \<le> s"
proof -
  have "e \<noteq> 0" using assms(1) by auto
  then have "x \<le> e - 1" using assms(1) by (simp add: word_le_nat_alt word_less_nat_alt unat_minus_one)
  with assms(2) show ?thesis by simp
qed

text \<open>An event of the history that is missing from the ring is older than all that is in it, if only
  the newest event of the history may be terminal.\<close>

lemma evicted_older:
  assumes ring: "ring_of hist es" and srt: "sorted_wrt (<) (map ev_Seq hist)"
    and tm: "\<forall>e\<in>set (butlast hist). \<not> is_term e"
    and x: "x \<in> set hist" "x \<notin> set es" and y: "y \<in> set es"
  shows "ev_Seq x < ev_Seq y"
proof -
  let ?n = "\<lambda>e. \<not> is_term e"
  obtain k where k: "filter ?n es = drop k (filter ?n hist)" and ft: "filter is_term es = filter is_term hist"
    and sub: "subseq es hist" using ring by (auto simp: ring_of_def)
  have "set (filter is_term es) = set (filter is_term hist)" using ft by simp
  then have xn: "?n x" using x by auto
  then have "x \<in> set (filter ?n hist)" "x \<notin> set (drop k (filter ?n hist))" using x k by (auto simp flip: k)
  then have xk: "x \<in> set (take k (filter ?n hist))" by (metis append_take_drop_id set_append Un_iff)
  have yh: "y \<in> set hist" using y sub subseq_set by blast
  show ?thesis
  proof (cases "is_term y")
    case False
    then have "y \<in> set (drop k (filter ?n hist))" using y by (simp flip: k)
    moreover have "sorted_wrt (<) (map ev_Seq (take k (filter ?n hist) @ drop k (filter ?n hist)))"
      using srt by (simp add: sorted_wrt_map_filter)
    ultimately show ?thesis using xk unfolding map_append sorted_wrt_append by auto
  next
    case True
    have "hist \<noteq> []" using yh by auto
    with True tm yh have "y = last hist" by (metis append_butlast_last_id in_set_butlast_appendI in_set_conv_decomp set_ConsD rotate1.simps(2) set_rotate1)
    moreover from this True xn x \<open>hist \<noteq> []\<close> have "x \<in> set (butlast hist)"
      by (metis append_butlast_last_id rotate1.simps(2) set_ConsD set_rotate1)
    moreover have "sorted_wrt (<) (map ev_Seq (butlast hist @ [last hist]))" using srt \<open>hist \<noteq> []\<close> by simp
    ultimately show ?thesis by (auto simp: sorted_wrt_append)
  qed
qed

text \<open>C20: Complete replay. When \<^verbatim>\<open>Subscribe\<close> decides there is no gap, on a run whose ring is not empty
  and of whose published events only the newest may be terminal, the client gets every event
  published on the run after its cursor, in order, whatever has been evicted since.\<close>

theorem replay_complete:
  assumes "hub_trace marshal r h hist" "r \<noteq> 0" "\<forall>e\<in>set (butlast hist). \<not> is_term e"
    and "\<not> replayHasGap (rs_events (run_of h r)) s" "rs_events (run_of h r) \<noteq> []"
  shows "subscribe_replay marshal cfg r (run_of h r) s now = map cloneEvent (filter (\<lambda>e. ev_Seq e > s) hist)"
proof -
  let ?es = "rs_events (run_of h r)"
  from hub_trace_ring [OF assms(1,2)]
  have inv: "hub_inv h" and ring: "ring_of hist ?es" and srt: "sorted_wrt (<) (map ev_Seq hist)" by auto
  from assms(5) obtain e es where es: "?es = e # es" by (cases ?es) auto
  have es_srt: "sorted_wrt (<) (map ev_Seq (e # es))" and pos: "0 < ev_Seq e"
    using run_of_inv(1) [OF inv, of r] es by (auto simp: run_inv_def)
  have cur: "\<not> s < ev_Seq e - 1" using assms(4) es pos replayHasGap_sorted [OF es_srt] by simp
  have old: "ev_Seq x \<le> s" if "x \<in> set hist" "x \<notin> set ?es" for x
    using u64_below_pred [OF evicted_older [OF ring srt assms(3) that, of e] cur] es by simp
  have "filter (\<lambda>e. ev_Seq e > s) ?es = filter (\<lambda>e. ev_Seq e > s) hist"
  proof (rule subseq_filter_same)
    show "subseq ?es hist" using ring by (simp add: ring_of_def)
    show "distinct hist" using srt by (metis distinct_map strict_sorted_iff)
    show "\<forall>x\<in>set hist. ev_Seq x > s \<longrightarrow> x \<in> set ?es" using old by fastforce
  qed
  with assms(4) show ?thesis by (simp add: subscribe_replay_def)
qed

text \<open>Publishing a list of events on a fresh hub.\<close>

fun publish_all :: "unit memory_hub \<Rightarrow> unit stream_event list \<Rightarrow> unit memory_hub option" where
  "publish_all h [] = Some h"
| "publish_all h (e # es) =
     (case PublishPrepared no_json 1 h e of None \<Rightarrow> None | Some h' \<Rightarrow> publish_all h' es)"

fun all_visible :: "unit memory_hub \<Rightarrow> unit stream_event list \<Rightarrow> bool" where
  "all_visible h [] \<longleftrightarrow> True"
| "all_visible h (e # es) \<longleftrightarrow> op_ok h (Op_Publish e) \<and> visible_on no_json 1 h 7 (Op_Publish e) = [e] \<and>
     (case PublishPrepared no_json 1 h e of None \<Rightarrow> False | Some h' \<Rightarrow> all_visible h' es)"

lemma publish_all_trace:
  assumes "hub_trace no_json 7 h hist" "all_visible h es" "publish_all h es = Some h'"
  shows "hub_trace no_json 7 h' (hist @ es)"
  using assms
proof (induction es arbitrary: h hist)
  case (Cons e es)
  then obtain h1 where h1: "PublishPrepared no_json 1 h e = Some h1" by (auto split: option.splits)
  then have "hub_trace no_json 7 h1 (hist @ [e])"
    using hub_trace.step [OF Cons.prems(1), of "Op_Publish e" 1 h1] Cons.prems by auto
  from Cons.IH [OF this] Cons.prems h1 show ?case by auto
qed simp

lemmas publish_eval = hub_eval Let_def word_le_nat_alt word_less_nat_alt

theorem replay_complete_witness:
  "\<exists>h. publish_all (NewMemoryHub (ex_config 2 1)) [ex_event 7 1 ''llm.delta'', ex_event 7 2 ''llm.delta'', ex_event 7 3 ''llm.delta''] = Some h \<and>
     subscribe_replay no_json (ex_config 2 1) 7 (run_of h 7) 2 9 = [ex_event 7 3 ''llm.delta'']"
proof -
  let ?es = "[ex_event 7 1 ''llm.delta'', ex_event 7 2 ''llm.delta'', ex_event 7 3 ''llm.delta'']"
  let ?H = "NewMemoryHub (ex_config 2 1)"
  have pub: "\<exists>h. publish_all ?H ?es = Some h \<and>
      rs_events (run_of h 7) = [ex_event 7 2 ''llm.delta'', ex_event 7 3 ''llm.delta'']"
    by (simp add: publish_eval)
  then obtain h where h: "publish_all ?H ?es = Some h"
      "rs_events (run_of h 7) = [ex_event 7 2 ''llm.delta'', ex_event 7 3 ''llm.delta'']" by blast
  have "all_visible ?H ?es" by (simp add: publish_eval)
  then have "hub_trace no_json 7 h ([] @ ?es)" by (rule publish_all_trace [OF hub_trace.start _ h(1)])
  moreover have "\<not> replayHasGap (rs_events (run_of h 7)) 2"
    by (simp add: h(2) replayHasGap_def Let_def word_less_nat_alt)
  ultimately show ?thesis
    using replay_complete [of no_json 7 h ?es 2 "ex_config 2 1" 9] h
    by (auto simp: word_less_nat_alt)
qed

text \<open>A hidden gap. A terminal event that is not the last one (a run that waited and was resumed)
  stays in the ring while later events are evicted around it; \<^verbatim>\<open>replayHasGap\<close> looks only at the oldest
  retained number, so a client that has seen event 1 is told there is no gap and gets event 4, and
  events 2 and 3 are lost without a snapshot.\<close>

theorem replay_hidden_gap:
  "\<exists>h. hub_trace no_json 7 h [ex_event 7 1 ''run.waiting'', ex_event 7 2 ''llm.delta'', ex_event 7 3 ''llm.delta'', ex_event 7 4 ''llm.delta''] \<and>
     \<not> replayHasGap (rs_events (run_of h 7)) 1 \<and>
     subscribe_replay no_json (hub_config h) 7 (run_of h 7) 1 9 = [ex_event 7 4 ''llm.delta'']"
proof -
  let ?es = "[ex_event 7 1 ''run.waiting'', ex_event 7 2 ''llm.delta'', ex_event 7 3 ''llm.delta'', ex_event 7 4 ''llm.delta'']"
  let ?H = "NewMemoryHub (ex_config 2 1)"
  have "\<exists>h. publish_all ?H ?es = Some h \<and>
      rs_events (run_of h 7) = [ex_event 7 1 ''run.waiting'', ex_event 7 4 ''llm.delta'']"
    by (simp add: publish_eval)
  then obtain h where h: "publish_all ?H ?es = Some h"
      "rs_events (run_of h 7) = [ex_event 7 1 ''run.waiting'', ex_event 7 4 ''llm.delta'']" by blast
  have "all_visible ?H ?es" by (simp add: publish_eval)
  then have "hub_trace no_json 7 h ([] @ ?es)" by (rule publish_all_trace [OF hub_trace.start _ h(1)])
  with h(2) show ?thesis
    by (intro exI [of _ h]) (simp add: subscribe_replay_def replayHasGap_def Let_def word_less_nat_alt)
qed

text \<open>An event larger than the byte limit of the ring is evicted at once with everything before it,
  and an empty ring reports no gap: a client that resumes from the start of the run is given
  nothing at all, and no snapshot, although events were published.\<close>

theorem replay_oversized_event:
  "\<exists>h. hub_trace no_json 7 h [ex_event 7 1 ''llm.delta'', ex_event 7 2 ''run.started''] \<and>
     \<not> replayHasGap (rs_events (run_of h 7)) 0 \<and>
     subscribe_replay no_json (hub_config h) 7 (run_of h 7) 0 9 = []"
proof -
  let ?es = "[ex_event 7 1 ''llm.delta'', ex_event 7 2 ''run.started'']"
  let ?H = "NewMemoryHub ((ex_config 8 1)\<lparr>cfg_MaxBytes := 116\<rparr>)"
  have cfg: "withDefaults ((ex_config 8 1)\<lparr>cfg_MaxBytes := 116\<rparr>) = (ex_config 8 1)\<lparr>cfg_MaxBytes := 116\<rparr>"
    by (simp add: withDefaults_def Let_def)
  have "\<exists>h. publish_all ?H ?es = Some h \<and> rs_events (run_of h 7) = []"
    by (simp add: publish_eval cfg trim_loop.simps [of _ _ "[]"])
  then obtain h where h: "publish_all ?H ?es = Some h" "rs_events (run_of h 7) = []" by blast
  have "all_visible ?H ?es" by (simp add: publish_eval cfg trim_loop.simps [of _ _ "[]"])
  then have "hub_trace no_json 7 h ([] @ ?es)" by (rule publish_all_trace [OF hub_trace.start _ h(1)])
  with h(2) show ?thesis
    by (intro exI [of _ h]) (simp add: subscribe_replay_def replayHasGap_def)
qed

section \<open>The legacy adapter\<close>

text \<open>A runtime event survives the trip through the stream envelope. If JSON decoding inverts
  JSON encoding on the event's payload (or the event has none), converting the event to a stream
  event, publishing it (normalising and numbering it) and converting it back gives the event.\<close>

theorem legacy_roundtrip:
  assumes "\<forall>p. re_Payload input = Some p \<longrightarrow> (\<exists>d. marshal p = Some d \<and> d \<noteq> [] \<and> unmarshal d = Some (Some p))"
    and "re_RunID input \<noteq> 0" "re_CreatedAt input \<noteq> 0"
  shows "ToRuntimeEvent unmarshal
      (cloneEvent ((normalizeEvent marshal (FromRuntimeEvent marshal input) r now)\<lparr>ev_Seq := n\<rparr>)) = input"
proof (cases "re_Payload input")
  case None
  with assms(2,3) show ?thesis
    by (intro runtime_event.equality)
      (simp_all add: ToRuntimeEvent_def FromRuntimeEvent_def normalizeEvent_def cloneEvent_def RunStreamVersion_def Let_def)
next
  case (Some p)
  with assms(1) obtain d where "marshal p = Some d" "d \<noteq> []" "unmarshal d = Some (Some p)" by blast
  with Some assms(2,3) show ?thesis
    by (intro runtime_event.equality)
      (simp_all add: ToRuntimeEvent_def FromRuntimeEvent_def normalizeEvent_def cloneEvent_def RunStreamVersion_def Let_def)
qed

theorem legacy_roundtrip_witness:
  "ToRuntimeEvent (\<lambda>d. if d = ''{}'' then Some (Some (4 :: int)) else None)
     (cloneEvent ((normalizeEvent (\<lambda>p. Some ''{}'')
        (FromRuntimeEvent (\<lambda>p. Some ''{}'') \<lparr>re_Type = ''tool'', re_RunID = 7, re_Payload = Some 4, re_CreatedAt = 1\<rparr>) 7 1)
        \<lparr>ev_Seq := 3\<rparr>)) =
   \<lparr>re_Type = ''tool'', re_RunID = 7, re_Payload = Some 4, re_CreatedAt = 1\<rparr>"
  by (rule legacy_roundtrip) simp_all

end
