(* ===== verification/Model_Stream_Props.thy ===== *)
theory Model_Stream_Props
  imports Model_Stream
begin

text \<open>
  What the model stream guarantees: the proposed-plan parser computes a line-by-line reference for
  every way the text is cut into chunks, the stream parser emits well-bracketed segments for any
  sequence of chunks, and the accumulator rebuilds the message whatever the interleaving.
\<close>

section \<open>Proposed plans, line by line\<close>

text \<open>The lines of a text, with their line ends; the last one may have none.\<close>

fun lines_acc :: "string \<Rightarrow> rune list \<Rightarrow> string list" where
  "lines_acc cur [] = (if cur = [] then [] else [cur])"
| "lines_acc cur (r # rs) =
     (if r = newline then (cur @ r) # lines_acc [] rs else lines_acc (cur @ r) rs)"

definition line_tag :: "string \<Rightarrow> string" where
  "line_tag l = TrimSuffix (TrimSuffix l newline) carriage"

text \<open>The visible lines and the last plan: \<open>cur\<close> is the plan being read, \<open>prev\<close> the last complete one.\<close>

fun plan_ref :: "bool \<Rightarrow> string \<Rightarrow> string \<Rightarrow> string list \<Rightarrow> string list \<times> string" where
  "plan_ref inside cur prev [] = ([], if inside then cur else prev)"
| "plan_ref inside cur prev (l # ls) =
     (if inside
      then if line_tag l = proposedPlanCloseTag then plan_ref False cur cur ls
           else plan_ref True (cur @ l) prev ls
      else if line_tag l = proposedPlanOpenTag then plan_ref True [] prev ls
           else case plan_ref False cur prev ls of (v, x) \<Rightarrow> (l # v, x))"

definition visible_text :: "model_event list \<Rightarrow> string" where
  "visible_text es = concat (map me_Text (filter (\<lambda>e. me_Kind e = ModelTextDelta) es))"

lemma mev_sel [simp]: "me_Kind (mev k) = k" "me_Text (mev k) = []" "me_Index (mev k) = 0"
  by (simp_all add: mev_def)

lemma visible_text_simps [simp]:
  "visible_text [] = []" "visible_text (es @ fs) = visible_text es @ visible_text fs"
  "visible_text (e # es) = (if me_Kind e = ModelTextDelta then me_Text e else []) @ visible_text es"
  by (simp_all add: visible_text_def)

lemma push_finish_ref:
  "(case push_runes p rs of (es, p') \<Rightarrow> case Finish p' of (es', p'') \<Rightarrow> (visible_text (es @ es'), pp_lastPlan p'')) =
   (case plan_ref (pp_inside p) (pp_plan p) (pp_lastPlan p) (lines_acc (pp_line p) rs) of (v, x) \<Rightarrow> (concat v, x))"
proof (induction rs arbitrary: p)
  case Nil
  show ?case
    by (simp add: Finish_def flushLine_def Let_def line_tag_def)
next
  case (Cons r rs)
  show ?case
  proof (cases "r = newline")
    case False
    then show ?thesis using Cons.IH [of "p\<lparr>pp_line := pp_line p @ r\<rparr>"] by simp
  next
    case True
    let ?p = "p\<lparr>pp_line := pp_line p @ newline\<rparr>"
    let ?q = "snd (flushLine ?p)"
    have q: "pp_line ?q = []" by (simp add: flushLine_def Let_def)
    have "(case push_runes p (r # rs) of (es, p') \<Rightarrow> case Finish p' of (es', p'') \<Rightarrow> (visible_text (es @ es'), pp_lastPlan p'')) =
        (case push_runes ?q rs of (es, p') \<Rightarrow> case Finish p' of (es', p'') \<Rightarrow>
           (visible_text (fst (flushLine ?p)) @ visible_text (es @ es'), pp_lastPlan p''))"
      using True by (simp add: case_prod_unfold Let_def)
    also have "\<dots> = (case plan_ref (pp_inside ?q) (pp_plan ?q) (pp_lastPlan ?q) (lines_acc [] rs) of
        (v, x) \<Rightarrow> (visible_text (fst (flushLine ?p)) @ concat v, x))"
      using Cons.IH [of ?q] unfolding q by (simp add: case_prod_unfold)
    also have "\<dots> = (case plan_ref (pp_inside p) (pp_plan p) (pp_lastPlan p) (lines_acc (pp_line p) (r # rs)) of
        (v, x) \<Rightarrow> (concat v, x))"
      using True by (simp add: flushLine_def Let_def line_tag_def case_prod_unfold)
    finally show ?thesis .
  qed
qed

text \<open>\<^verbatim>\<open>NormalizeProposedPlan\<close> is the line-by-line reading of the text: outside a plan every line is
  visible except a line that is exactly the opening tag, inside a plan no line is, a line that is
  exactly the closing tag ends it, and the last plan read (closed or cut off by the end) wins.\<close>

theorem normalize_plan_lines:
  "NormalizeProposedPlan text =
     (case plan_ref False [] [] (lines_acc [] (runes text)) of (v, x) \<Rightarrow> (concat v, x))"
proof -
  have "Push new_plan_parser text = push_runes new_plan_parser (runes text)" by (simp add: Push_def)
  then show ?thesis
    using push_finish_ref [of new_plan_parser "runes text"]
    by (simp add: NormalizeProposedPlan_def visible_text_def new_plan_parser_def)
qed

fun push_chunks :: "plan_parser \<Rightarrow> string list \<Rightarrow> model_event list \<times> plan_parser" where
  "push_chunks p [] = ([], p)"
| "push_chunks p (c # cs) =
     (case Push p c of (es, p') \<Rightarrow> case push_chunks p' cs of (es', p'') \<Rightarrow> (es @ es', p''))"

lemma push_runes_append:
  "push_runes p (rs @ rs') =
     (case push_runes p rs of (es, p') \<Rightarrow> case push_runes p' rs' of (es', p'') \<Rightarrow> (es @ es', p''))"
  by (induction rs arbitrary: p) (simp_all add: case_prod_unfold Let_def)

lemma Push_runes: "Push p t = push_runes p (runes t)"
  by (simp add: Push_def)

lemma push_chunks_runes: "push_chunks p cs = push_runes p (concat (map runes cs))"
  by (induction cs arbitrary: p) (simp_all add: Push_runes push_runes_append)

text \<open>A text that is cut into chunks anywhere between its runes gives the same plan events, and
  leaves the parser in the same state, as the whole text.\<close>

theorem plan_chunk_independence:
  assumes "concat (map runes cs) = runes (concat cs)"
  shows "push_chunks p cs = Push p (concat cs)"
  using assms by (simp add: push_chunks_runes Push_runes)

lemma runes_code [go_string]:
  "runes [] = []" "byte c < 0x80 \<Longrightarrow> runes (c # s) = [c] # runes s"
  by (simp_all add: runes.simps [of "c # s"] rune_len_def rune_width_def lead_info_def nth_byte_def)

theorem plan_chunk_independence_witness:
  "push_chunks new_plan_parser [''<propos'', ''ed_plan>'' @ newline @ ''x''] =
     Push new_plan_parser (''<proposed_plan>'' @ newline @ ''x'')"
  using plan_chunk_independence [of "[''<propos'', ''ed_plan>'' @ newline @ ''x'']" new_plan_parser]
  by (simp add: runes_code byte_def newline_def)

text \<open>The visible lines are themselves lines, so reading the visible text again finds no plan.\<close>

definition is_line :: "rune list \<Rightarrow> bool" where
  "is_line rs \<longleftrightarrow> rs \<noteq> [] \<and> newline \<notin> set (butlast rs) \<and> (\<forall>r\<in>set rs. valid_rune r)"

fun text_lines :: "rune list list \<Rightarrow> bool" where
  "text_lines [] \<longleftrightarrow> True"
| "text_lines (l # ls) \<longleftrightarrow> is_line l \<and> (ls \<noteq> [] \<longrightarrow> last l = newline) \<and> text_lines ls"

lemma concat_concat: "concat (map concat ls) = concat (concat ls)"
  by (induction ls) auto

lemma lines_acc_body:
  "newline \<notin> set rs \<Longrightarrow> lines_acc cur (rs @ rs') = lines_acc (cur @ concat rs) rs'"
  by (induction rs arbitrary: cur) auto

lemma lines_acc_end: "newline \<notin> set l \<Longrightarrow> lines_acc [] (l @ newline # rs) = (concat l @ newline) # lines_acc [] rs"
  by (simp add: lines_acc_body)

lemma is_line_cases:
  assumes "is_line l"
  obtains (ended) b where "l = b @ [newline]" "newline \<notin> set b" | (cut) "newline \<notin> set l" "last l \<noteq> newline" "concat l \<noteq> []"
proof (cases "last l = newline")
  case True
  then have "l = butlast l @ [newline]" using assms by (metis append_butlast_last_id is_line_def)
  then show thesis using assms ended [of "butlast l"] by (simp add: is_line_def)
next
  case False
  have "set l = insert (last l) (set (butlast l))"
    using assms by (metis Un_insert_right append_butlast_last_id is_line_def list.simps(15) set_append sup_bot.right_neutral empty_set)
  then have "newline \<notin> set l" using assms False by (auto simp: is_line_def)
  moreover have "concat l \<noteq> []" using assms by (cases l) (auto simp: is_line_def valid_rune_def)
  ultimately show thesis using cut False by blast
qed

lemma lines_acc_lines: "text_lines ls \<Longrightarrow> lines_acc [] (concat ls) = map concat ls"
proof (induction ls)
  case (Cons l ls)
  then have "is_line l" by simp
  then show ?case
  proof (cases rule: is_line_cases)
    case (ended b)
    then show ?thesis using Cons by (simp add: lines_acc_end)
  next
    case cut
    then have "ls = []" using Cons.prems by auto
    then show ?thesis using lines_acc_body [OF cut(1), of "[]" "[]"] cut(3) by simp
  qed
qed simp

lemma lines_of_text: "\<exists>ls. text_lines ls \<and> concat ls = rs" if "\<forall>r\<in>set rs. valid_rune r"
  using that
proof (induction "length rs" arbitrary: rs rule: less_induct)
  case less
  show ?case
  proof (cases "rs = []")
    case True
    then show ?thesis by (intro exI [of _ "[]"]) simp
  next
    case ne: False
    let ?l = "takeWhile (\<lambda>r. r \<noteq> newline) rs" and ?d = "dropWhile (\<lambda>r. r \<noteq> newline) rs"
    have l: "newline \<notin> set ?l" "\<forall>r\<in>set ?l. valid_rune r" using less.prems by (auto dest: set_takeWhileD)
    show ?thesis
    proof (cases ?d)
      case Nil
      then have "?l = rs" by (metis append.right_neutral takeWhile_dropWhile_id)
      with ne less.prems l(1) have "text_lines [rs]" by (auto simp: is_line_def dest: in_set_butlastD)
      then show ?thesis by (intro exI [of _ "[rs]"]) simp
    next
      case (Cons x rest)
      then have x: "x = newline" by (metis (mono_tags, lifting) dropWhile_eq_Cons_conv)
      have rs: "rs = ?l @ newline # rest" using Cons x by (metis takeWhile_dropWhile_id)
      have "length rest < length rs" using arg_cong [OF rs, of length] by simp
      moreover have "\<forall>r\<in>set rest. valid_rune r" using less.prems rs by (metis Un_iff list.set_intros(2) set_append)
      ultimately obtain ls where ls: "text_lines ls" "concat ls = rest" using less.hyps by blast
      have "valid_rune newline" using less.prems rs by (metis in_set_conv_decomp)
      then have "is_line (?l @ [newline])" using l by (auto simp: is_line_def butlast_append)
      then have "text_lines ((?l @ [newline]) # ls)" using ls(1) by simp
      moreover have "concat ((?l @ [newline]) # ls) = rs" using rs ls(2) by simp
      ultimately show ?thesis by blast
    qed
  qed
qed

lemma plan_ref_visible:
  "\<exists>ls'. fst (plan_ref inside cur prev (map concat ls)) = map concat ls' \<and> subseq ls' ls \<and>
     (\<forall>l\<in>set ls'. line_tag (concat l) \<noteq> proposedPlanOpenTag)"
proof (induction ls arbitrary: inside cur prev)
  case (Cons l ls)
  obtain ls' where ls': "fst (plan_ref False cur prev (map concat ls)) = map concat ls'" "subseq ls' ls"
    "\<forall>l\<in>set ls'. line_tag (concat l) \<noteq> proposedPlanOpenTag"
    using Cons by metis
  show ?case
  proof (cases "\<not> inside \<and> line_tag (concat l) \<noteq> proposedPlanOpenTag")
    case True
    then show ?thesis using ls' by (intro exI [of _ "l # ls'"]) (simp add: case_prod_unfold)
  next
    case False
    then obtain i c p where "plan_ref inside cur prev (map concat (l # ls)) = plan_ref i c p (map concat ls)"
      by (metis list.simps(9) plan_ref.simps(2))
    moreover obtain ls'' where "fst (plan_ref i c p (map concat ls)) = map concat ls''" "subseq ls'' ls"
      "\<forall>l\<in>set ls''. line_tag (concat l) \<noteq> proposedPlanOpenTag" using Cons by metis
    ultimately show ?thesis by (intro exI [of _ ls'']) (auto intro: list_emb_Cons)
  qed
qed simp

lemma text_lines_subseq: "subseq ls' ls \<Longrightarrow> text_lines ls \<Longrightarrow> text_lines ls'"
proof (induction rule: list_emb.induct)
  case (list_emb_Cons2 x y xs ys)
  then show ?case by (auto elim: list_emb.cases)
qed auto

lemma plan_ref_no_tags:
  "(\<forall>l\<in>set ls. line_tag l \<noteq> proposedPlanOpenTag) \<Longrightarrow> plan_ref False cur prev ls = (ls, prev)"
  by (induction ls) auto

text \<open>The visible text of a message holds no plan any more: normalising it again changes nothing
  and finds no plan, so a message that passes through the runtime twice is not cut twice.\<close>

theorem normalize_plan_idempotent:
  "NormalizeProposedPlan (fst (NormalizeProposedPlan text)) = (fst (NormalizeProposedPlan text), [])"
proof -
  obtain ls where ls: "text_lines ls" "concat ls = runes text"
    using lines_of_text [of "runes text"] valid_runes by blast
  have norm: "NormalizeProposedPlan t = (case plan_ref False [] [] (lines_acc [] (runes t)) of (v, x) \<Rightarrow> (concat v, x))" for t
    using push_finish_ref [of new_plan_parser "runes t"]
    by (simp add: NormalizeProposedPlan_def visible_text_def new_plan_parser_def Push_runes)
  obtain ls' where ls': "fst (plan_ref False [] [] (map concat ls)) = map concat ls'" "subseq ls' ls"
    "\<forall>l\<in>set ls'. line_tag (concat l) \<noteq> proposedPlanOpenTag" using plan_ref_visible by metis
  have tl': "text_lines ls'" using text_lines_subseq ls' ls by blast
  have vis: "fst (NormalizeProposedPlan text) = concat (concat ls')"
    using norm [of "text"] ls' lines_acc_lines [OF ls(1)] ls(2) by (simp add: case_prod_unfold concat_concat)
  have "\<forall>l\<in>set ls'. \<forall>r\<in>set l. valid_rune r" using tl' by (induction ls') (auto simp: is_line_def)
  then have "runes (concat (concat ls')) = concat ls'" by (intro runes_concat) auto
  with norm [of "concat (concat ls')"] lines_acc_lines [OF tl'] plan_ref_no_tags [of "map concat ls'" "[]" "[]"] ls'(3)
  show ?thesis by (simp add: vis concat_concat)
qed

section \<open>Segments of the stream\<close>

text \<open>A consumer that accepts only well-bracketed streams: text and reasoning never open together,
  fragments only inside their segment, a tool call started outside text and reasoning, its fragments
  and its end after its start, one end at most, usage and the end of the stream outside all segments
  and the end only when every call that started has ended.\<close>

record seg_state =
  sg_text :: bool
  sg_reasoning :: bool
  sg_started :: "int set"
  sg_ended :: "int set"

definition seg_init :: seg_state where
  "seg_init = \<lparr>sg_text = False, sg_reasoning = False, sg_started = {}, sg_ended = {}\<rparr>"

definition seg_step :: "seg_state \<Rightarrow> model_event \<Rightarrow> seg_state option" where
  "seg_step s e =
     (let quiet = (\<not> sg_text s \<and> \<not> sg_reasoning s); i = me_Index e in
      case me_Kind e of
        ModelTextStart \<Rightarrow> if quiet then Some (s\<lparr>sg_text := True\<rparr>) else None
      | ModelTextDelta \<Rightarrow> if sg_text s then Some s else None
      | ModelTextEnd \<Rightarrow> if sg_text s then Some (s\<lparr>sg_text := False\<rparr>) else None
      | ModelReasoningStart \<Rightarrow> if quiet then Some (s\<lparr>sg_reasoning := True\<rparr>) else None
      | ModelReasoningDelta \<Rightarrow> if sg_reasoning s then Some s else None
      | ModelReasoningEnd \<Rightarrow> if sg_reasoning s then Some (s\<lparr>sg_reasoning := False\<rparr>) else None
      | ModelToolCallStart \<Rightarrow>
          if quiet \<and> i \<notin> sg_started s then Some (s\<lparr>sg_started := insert i (sg_started s)\<rparr>) else None
      | ModelToolCallDelta \<Rightarrow> if i \<in> sg_started s then Some s else None
      | ModelToolCallEnd \<Rightarrow>
          if i \<in> sg_started s \<and> i \<notin> sg_ended s then Some (s\<lparr>sg_ended := insert i (sg_ended s)\<rparr>) else None
      | ModelUsage \<Rightarrow> if quiet then Some s else None
      | ModelDone \<Rightarrow> if quiet \<and> sg_started s = sg_ended s then Some s else None
      | ModelError \<Rightarrow> Some s
      | _ \<Rightarrow> None)"

fun seg_run :: "seg_state \<Rightarrow> model_event list \<Rightarrow> seg_state option" where
  "seg_run s [] = Some s"
| "seg_run s (e # es) = Option.bind (seg_step s e) (\<lambda>s'. seg_run s' es)"

lemma seg_run_append: "seg_run s (es @ fs) = Option.bind (seg_run s es) (\<lambda>s'. seg_run s' fs)"
  by (induction es arbitrary: s) (auto split: bind_split)

definition log_sink :: "model_event list sink" where
  "log_sink log e = (log @ [e], None)"

lemma emit_log [simp]: "emit log_sink p e = (p\<lparr>sp_world := sp_world p @ [e]\<rparr>, None)"
  by (simp add: emit_def log_sink_def)

definition terminals :: "model_event list \<Rightarrow> model_event list" where
  "terminals es = filter (\<lambda>e. me_Kind e = ModelDone \<or> me_Kind e = ModelError) es"

lemma terminals_simps [simp]:
  "terminals [] = []" "terminals (es @ fs) = terminals es @ terminals fs"
  "terminals (e # es) = (if me_Kind e = ModelDone \<or> me_Kind e = ModelError then [e] else []) @ terminals es"
  by (simp_all add: terminals_def)

text \<open>The parser's own state is the state of that consumer, and its accumulator holds what the
  consumer has seen.\<close>

definition args_of :: "int \<Rightarrow> model_event list \<Rightarrow> string" where
  "args_of i es = concat (map me_ArgumentDelta (filter (\<lambda>e. me_Kind e = ModelToolCallDelta \<and> me_Index e = i) es))"

definition sp_inv :: "model_event list stream_parser \<Rightarrow> bool" where
  "sp_inv p \<longleftrightarrow>
     seg_run seg_init (sp_world p) =
       Some \<lparr>sg_text = sp_textOpen p, sg_reasoning = sp_reasoningOpen p, sg_started = sp_toolStarted p, sg_ended = sp_toolEnded p\<rparr> \<and>
     \<not> (sp_textOpen p \<and> sp_reasoningOpen p) \<and>
     sp_toolEnded p \<subseteq> sp_toolStarted p \<and>
     set (acc_toolOrder (sp_acc p)) = sp_toolStarted p \<and> distinct (acc_toolOrder (sp_acc p)) \<and>
     acc_content (sp_acc p) = visible_text (sp_world p) \<and>
     (\<forall>i. map_option st_arguments (map_of (acc_toolCalls (sp_acc p)) i) =
          (if i \<in> sp_toolStarted p then Some (args_of i (sp_world p)) else None))"

text \<open>A parser that is still reading has emitted no terminal event; one that has failed ended its
  stream with exactly one error event.\<close>

definition sp_reading :: "model_event list stream_parser \<Rightarrow> bool" where
  "sp_reading p \<longleftrightarrow> sp_inv p \<and> terminals (sp_world p) = [] \<and> \<not> sp_failed p \<and> \<not> sp_done p"

definition sp_broken :: "model_event list stream_parser \<Rightarrow> bool" where
  "sp_broken p \<longleftrightarrow> sp_inv p \<and>
     (\<exists>es e. sp_world p = es @ [e] \<and> terminals es = [] \<and> me_Kind e = ModelError)"

definition reads :: "model_event list stream_parser outcome \<Rightarrow> bool" where
  "reads m \<longleftrightarrow> (if snd m = None then sp_reading (fst m) else sp_broken (fst m))"

lemma reads_try: "reads m \<Longrightarrow> (\<And>p. sp_reading p \<Longrightarrow> reads (k p)) \<Longrightarrow> reads (go_try m k)"
  by (auto simp: reads_def go_try_def split: option.splits)

lemma reads_skip: "sp_reading p \<Longrightarrow> reads (p, None)"
  by (simp add: reads_def)

lemma reads_for: "sp_reading p \<Longrightarrow> (\<And>p x. x \<in> set xs \<Longrightarrow> sp_reading p \<Longrightarrow> reads (f p x)) \<Longrightarrow> reads (go_for f p xs)"
proof (induction xs arbitrary: p)
  case (Cons x xs)
  show ?case unfolding go_for.simps
    by (rule reads_try) (use Cons in auto)
qed (simp add: reads_skip)

lemma args_of_append [simp]: "args_of i (es @ fs) = args_of i es @ args_of i fs"
  by (simp add: args_of_def)

lemma args_of_Cons [simp]:
  "args_of i (e # es) = (if me_Kind e = ModelToolCallDelta \<and> me_Index e = i then me_ArgumentDelta e else []) @ args_of i es"
  by (simp add: args_of_def)

lemma args_of_Nil [simp]: "args_of i [] = []"
  by (simp add: args_of_def)

lemma sp_inv_emit:
  assumes "sp_inv p" "me_Kind e \<notin> {ModelTextDelta, ModelToolCallDelta}"
    and "seg_step \<lparr>sg_text = sp_textOpen p, sg_reasoning = sp_reasoningOpen p, sg_started = sp_toolStarted p, sg_ended = sp_toolEnded p\<rparr> e =
      Some \<lparr>sg_text = t, sg_reasoning = r, sg_started = sp_toolStarted p, sg_ended = en\<rparr>"
    and "\<not> (t \<and> r)" "en \<subseteq> sp_toolStarted p"
  shows "sp_inv (p\<lparr>sp_world := sp_world p @ [e], sp_textOpen := t, sp_reasoningOpen := r, sp_toolEnded := en\<rparr>)"
  using assms by (auto simp: sp_inv_def seg_run_append)

lemma sp_inv_flags [simp]:
  "sp_inv (p\<lparr>sp_failed := b\<rparr>) = sp_inv p" "sp_inv (p\<lparr>sp_done := b\<rparr>) = sp_inv p"
  by (simp_all add: sp_inv_def)

lemma close_inv:
  assumes "sp_reading p"
  shows "\<exists>w. closeTextAndReasoning log_sink p = (p\<lparr>sp_world := w, sp_textOpen := False, sp_reasoningOpen := False\<rparr>, None) \<and>
    sp_reading (p\<lparr>sp_world := w, sp_textOpen := False, sp_reasoningOpen := False\<rparr>)"
proof -
  have inv: "sp_inv p" using assms by (simp add: sp_reading_def)
  let ?w = "sp_world p @ (if sp_textOpen p then [mev ModelTextEnd] else []) @
    (if sp_reasoningOpen p then [mev ModelReasoningEnd] else [])"
  show ?thesis
    using assms by (intro exI [of _ ?w])
      (auto simp: closeTextAndReasoning_def sp_reading_def sp_inv_def seg_run_append seg_step_def)
qed

lemma reasoning_reads: "sp_reading p \<Longrightarrow> reads (accept_reasoning log_sink p t)"
  by (auto simp: accept_reasoning_def beginReasoning_def reads_def sp_reading_def sp_inv_def seg_run_append seg_step_def)

lemma content_reads: "sp_reading p \<Longrightarrow> reads (accept_content log_sink p t)"
  by (auto simp: accept_content_def beginText_def reads_def sp_reading_def sp_inv_def seg_run_append seg_step_def AddText_def)

lemma AddToolCallDelta_sel:
  "acc_content (AddToolCallDelta a i c n d) = acc_content a"
  "acc_usage (AddToolCallDelta a i c n d) = acc_usage a"
  "acc_toolOrder (AddToolCallDelta a i c n d) =
     (if map_of (acc_toolCalls a) i = None then acc_toolOrder a @ [i] else acc_toolOrder a)"
  by (simp_all add: AddToolCallDelta_def case_prod_unfold Let_def split: option.split)

lemma AddToolCallDelta_get:
  "map_option st_arguments (map_of (acc_toolCalls (AddToolCallDelta a i c n d)) j) =
     (if j = i then Some ((case map_of (acc_toolCalls a) i of Some call \<Rightarrow> st_arguments call | None \<Rightarrow> []) @ d)
      else map_option st_arguments (map_of (acc_toolCalls a) j))"
  by (simp add: AddToolCallDelta_def case_prod_unfold Let_def update_conv' split: option.split)

lemma args_of_fresh:
  assumes "seg_run s es = Some s'" "i \<notin> sg_started s'"
  shows "args_of i es = []"
  using assms
proof (induction es arbitrary: s' rule: rev_induct)
  case (snoc e es)
  then obtain s1 where s1: "seg_run s es = Some s1" "seg_step s1 e = Some s'"
    by (auto simp: seg_run_append split: bind_splits)
  have "i \<notin> sg_started s1 \<and> \<not> (me_Kind e = ModelToolCallDelta \<and> me_Index e = i)"
    using s1(2) snoc.prems(2) by (auto simp: seg_step_def Let_def split: if_splits model_kind.splits)
  with snoc.IH [OF s1(1)] show ?case by auto
qed simp

text \<open>The two halves of an accepted call fragment: the start of a new call, and the fragment.\<close>

lemma call_reads:
  assumes rd: "sp_reading p"
  shows "reads (accept_call log_sink p tc)"
proof -
  have inv: "sp_inv p" using rd by (simp add: sp_reading_def)
  define i where "i = (let index = (case sc_Index tc of Some i \<Rightarrow> i | None \<Rightarrow> 0) in if index < 0 then 0 else index)"
  let ?add = "\<lambda>a. AddToolCallDelta a i (sc_ID tc) (sc_Name tc) (sc_Arguments tc)"
  let ?d = "(mev ModelToolCallDelta)\<lparr>me_Index := i, me_CallID := sc_ID tc, me_Name := sc_Name tc, me_ArgumentDelta := sc_Arguments tc\<rparr>"
  let ?s = "(mev ModelToolCallStart)\<lparr>me_Index := i, me_CallID := sc_ID tc, me_Name := sc_Name tc\<rparr>"
  show ?thesis
  proof (cases "i \<in> sp_toolStarted p")
    case True
    let ?es = "if sc_Arguments tc \<noteq> [] \<or> sc_ID tc \<noteq> [] \<or> sc_Name tc \<noteq> [] then [?d] else []"
    have acc: "accept_call log_sink p tc = (p\<lparr>sp_acc := ?add (sp_acc p), sp_world := sp_world p @ ?es\<rparr>, None)"
      using True by (simp add: accept_call_def i_def Let_def)
    from True inv obtain call where "map_of (acc_toolCalls (sp_acc p)) i = Some call" "st_arguments call = args_of i (sp_world p)"
      by (auto simp: sp_inv_def dest!: spec [of _ i])
    with rd True show ?thesis
      unfolding acc by (auto simp: reads_def sp_reading_def sp_inv_def AddToolCallDelta_sel AddToolCallDelta_get seg_run_append seg_step_def)
  next
    case False
    obtain w where w: "closeTextAndReasoning log_sink p = (p\<lparr>sp_world := w, sp_textOpen := False, sp_reasoningOpen := False\<rparr>, None)"
      and rd': "sp_reading (p\<lparr>sp_world := w, sp_textOpen := False, sp_reasoningOpen := False\<rparr>)"
      using close_inv [OF rd] by blast
    let ?es = "?s # (if sc_Arguments tc \<noteq> [] then [?d] else [])"
    have acc: "accept_call log_sink p tc = (p\<lparr>sp_world := w @ ?es, sp_textOpen := False, sp_reasoningOpen := False,
        sp_toolStarted := insert i (sp_toolStarted p), sp_acc := ?add (sp_acc p)\<rparr>, None)"
      using False w by (simp add: accept_call_def i_def Let_def)
    have new: "map_of (acc_toolCalls (sp_acc p)) i = None" "i \<notin> set (acc_toolOrder (sp_acc p))"
      using inv False by (auto simp: sp_inv_def dest!: spec [of _ i])
    have "seg_run seg_init w = Some \<lparr>sg_text = False, sg_reasoning = False, sg_started = sp_toolStarted p, sg_ended = sp_toolEnded p\<rparr>"
      using rd' by (simp add: sp_reading_def sp_inv_def)
    from args_of_fresh [OF this, of i] False have "args_of i w = []" by simp
    with rd' new show ?thesis
      unfolding acc by (auto simp: reads_def sp_reading_def sp_inv_def AddToolCallDelta_sel AddToolCallDelta_get seg_run_append seg_step_def)
  qed
qed

lemma close_reads: "sp_reading p \<Longrightarrow> reads (closeTextAndReasoning log_sink p)"
  using close_inv by (force simp: reads_def)

lemma fail_reads: "sp_reading p \<Longrightarrow> reads (fail log_sink p err) \<and> snd (fail log_sink p err) \<noteq> None"
  by (auto simp: fail_def reads_def sp_reading_def sp_broken_def sp_inv_def seg_run_append seg_step_def)

lemma finish_tool_reads:
  assumes rd: "sp_reading p" and i: "i \<in> sp_toolStarted p"
  shows "reads (finish_tool jv log_sink p i)"
proof (cases "i \<in> sp_toolEnded p")
  case True
  then show ?thesis using rd by (simp add: finish_tool_def reads_skip)
next
  case False
  show ?thesis
  proof (cases "ToolCall jv (sp_acc p) i")
    case (Inl err)
    with False fail_reads [OF rd] show ?thesis by (simp add: finish_tool_def)
  next
    case (Inr call)
    with False rd i show ?thesis
      by (auto simp: finish_tool_def reads_def sp_reading_def sp_inv_def seg_run_append seg_step_def)
  qed
qed

lemma finish_tool_frame:
  assumes "snd (finish_tool jv log_sink p i) = None"
  shows "sp_toolStarted (fst (finish_tool jv log_sink p i)) = sp_toolStarted p"
    "sp_toolEnded (fst (finish_tool jv log_sink p i)) = insert i (sp_toolEnded p)"
    "sp_textOpen (fst (finish_tool jv log_sink p i)) = sp_textOpen p"
    "sp_reasoningOpen (fst (finish_tool jv log_sink p i)) = sp_reasoningOpen p"
    "sp_acc (fst (finish_tool jv log_sink p i)) = sp_acc p"
  using assms by (auto simp: finish_tool_def fail_def split: sum.splits if_splits)

lemma finish_tools_loop:
  assumes "sp_reading p" "set is \<subseteq> sp_toolStarted p" "go_for (finish_tool jv log_sink) p is = m"
  shows "reads m \<and> (snd m = None \<longrightarrow> sp_toolStarted (fst m) = sp_toolStarted p \<and>
    sp_toolEnded (fst m) = sp_toolEnded p \<union> set is \<and> sp_textOpen (fst m) = sp_textOpen p \<and>
    sp_reasoningOpen (fst m) = sp_reasoningOpen p \<and> sp_acc (fst m) = sp_acc p)"
  using assms
proof (induction "is" arbitrary: p)
  case (Cons i "is")
  let ?m = "finish_tool jv log_sink p i"
  have rd: "reads ?m" using finish_tool_reads Cons.prems by simp
  show ?case
  proof (cases "snd ?m")
    case None
    then have "sp_reading (fst ?m)" using rd by (simp add: reads_def)
    from Cons.IH [OF this] finish_tool_frame [OF None] Cons.prems None show ?thesis
      by (auto simp: go_try_def)
  next
    case (Some e)
    with rd Cons.prems show ?thesis by (auto simp: go_try_def reads_def)
  qed
qed (auto simp: reads_def)

lemma finishTools_reads:
  assumes "sp_reading p"
  shows "reads (finishTools jv log_sink p)"
    and "snd (finishTools jv log_sink p) = None \<Longrightarrow>
      (let q = fst (finishTools jv log_sink p) in sp_toolEnded q = sp_toolStarted q \<and>
         sp_textOpen q = sp_textOpen p \<and> sp_reasoningOpen q = sp_reasoningOpen p \<and> sp_acc q = sp_acc p)"
proof -
  have "set (orderedToolIndexes (sp_acc p)) = sp_toolStarted p" "sp_toolEnded p \<subseteq> sp_toolStarted p"
    using assms by (simp_all add: sp_reading_def sp_inv_def orderedToolIndexes_def)
  with finish_tools_loop [OF assms, of "orderedToolIndexes (sp_acc p)" jv "finishTools jv log_sink p"]
  show "reads (finishTools jv log_sink p)"
    and "snd (finishTools jv log_sink p) = None \<Longrightarrow>
      (let q = fst (finishTools jv log_sink p) in sp_toolEnded q = sp_toolStarted q \<and>
         sp_textOpen q = sp_textOpen p \<and> sp_reasoningOpen q = sp_reasoningOpen p \<and> sp_acc q = sp_acc p)"
    by (auto simp: finishTools_def Let_def)
qed

text \<open>Closing everything: text, reasoning and every tool call.\<close>

lemma close_all_reads:
  assumes rd: "sp_reading p"
    and k: "\<And>q. sp_reading q \<Longrightarrow> \<not> sp_textOpen q \<Longrightarrow> \<not> sp_reasoningOpen q \<Longrightarrow> sp_toolEnded q = sp_toolStarted q \<Longrightarrow> P (k q)"
    and e: "\<And>q err. sp_broken q \<Longrightarrow> P (q, Some err)"
  shows "P (go_try (closeTextAndReasoning log_sink p) (\<lambda>p. go_try (finishTools jv log_sink p) k))"
proof -
  obtain w where w: "closeTextAndReasoning log_sink p = (p\<lparr>sp_world := w, sp_textOpen := False, sp_reasoningOpen := False\<rparr>, None)"
    "sp_reading (p\<lparr>sp_world := w, sp_textOpen := False, sp_reasoningOpen := False\<rparr>)" (is "sp_reading ?p")
    using close_inv [OF rd] by blast
  show ?thesis
  proof (cases "snd (finishTools jv log_sink ?p)")
    case None
    from finishTools_reads(2) [OF w(2) None] finishTools_reads(1) [OF w(2), of jv] None show ?thesis
      by (simp add: w(1) go_try_def Let_def reads_def k)
  next
    case (Some err)
    with finishTools_reads(1) [OF w(2), of jv] show ?thesis
      by (simp add: w(1) go_try_def reads_def e)
  qed
qed

lemma usage_reads: "sp_reading p \<Longrightarrow> reads (accept_usage jv log_sink p us)"
proof (cases us)
  case (Some u)
  assume rd: "sp_reading p"
  show ?thesis
    unfolding accept_usage_def Some option.case
    by (rule close_all_reads [OF rd])
      (auto simp: reads_def sp_reading_def sp_inv_def seg_run_append seg_step_def AddUsage_def)
qed (simp add: accept_usage_def reads_skip)

lemma reason_reads: "sp_reading p \<Longrightarrow> reads (finishForReason jv log_sink p reason)"
  unfolding finishForReason_def
  by (auto intro!: reads_try [OF close_reads] finishTools_reads(1) reads_skip)

lemma choice_reads: "sp_reading p \<Longrightarrow> reads (accept_choice jv log_sink p c)"
  unfolding accept_choice_def
  by (intro reads_try reasoning_reads content_reads reads_for call_reads) (auto intro: reason_reads reads_skip)

lemma accept_reads: "sp_reading p \<Longrightarrow> reads (accept jv log_sink p chunk)"
  unfolding accept_def by (intro reads_try reads_for choice_reads usage_reads)

definition sp_finished :: "model_event list stream_parser \<Rightarrow> bool" where
  "sp_finished p \<longleftrightarrow> sp_inv p \<and> (\<exists>es. sp_world p = es @ [mev ModelDone] \<and> terminals es = []) \<and>
     sp_toolEnded p = sp_toolStarted p"

lemma finish_finished:
  assumes "sp_reading p"
  shows "if snd (finish jv log_sink p) = None then sp_finished (fst (finish jv log_sink p))
    else sp_broken (fst (finish jv log_sink p))"
proof -
  have nd: "\<not> sp_done p" using assms by (simp add: sp_reading_def)
  show ?thesis
    unfolding finish_def if_not_P [OF nd]
    by (rule close_all_reads [OF assms, where P = "\<lambda>m. if snd m = None then sp_finished (fst m) else sp_broken (fst m)"])
      (auto simp: sp_finished_def sp_reading_def sp_inv_def seg_run_append seg_step_def)
qed

lemma stream_lines_reads:
  assumes "sp_reading p" "stream_lines jv dec log_sink p ls = (saw, m)"
  shows "if saw then (if snd m = None then sp_finished (fst m) else sp_broken (fst m)) else reads m"
  using assms
proof (induction ls arbitrary: p)
  case (Cons l ls)
  let ?data = "TrimSpace (drop 5 (TrimSpace l))"
  let ?skip = "TrimSpace l = [] \<or> HasPrefix (TrimSpace l) '':'' \<or> \<not> HasPrefix (TrimSpace l) ''data:'' \<or> ?data = []"
  show ?case
  proof (cases "?skip \<or> ?data = ''[DONE]''")
    case True
    then show ?thesis
      using Cons finish_finished [OF Cons.prems(1), of jv] by (auto simp: Let_def split: if_splits)
  next
    case False
    show ?thesis
    proof (cases "dec ?data")
      case (Inl err)
      with False Cons.prems fail_reads [OF Cons.prems(1), of err] show ?thesis by (auto simp: Let_def)
    next
      case (Inr chunk)
      have rd: "reads (accept jv log_sink p chunk)" by (rule accept_reads [OF Cons.prems(1)])
      show ?thesis
      proof (cases "accept jv log_sink p chunk")
        case (Pair q err)
        show ?thesis
        proof (cases err)
          case None
          with Pair rd have "sp_reading q" by (simp add: reads_def)
          with None Pair False Inr Cons show ?thesis by (auto simp: Let_def)
        next
          case (Some x)
          with Pair False Inr Cons.prems have "saw = False" "m = (q, Some x)" by (auto simp: Let_def)
          with rd Pair Some show ?thesis by simp
        qed
      qed
    qed
  qed
qed (auto simp: reads_def)

lemma new_parser_reading: "sp_reading (newToolStreamParser [])"
  by (simp add: sp_reading_def sp_inv_def newToolStreamParser_def NewToolStreamAccumulator_def seg_init_def args_of_def)


definition ex_chunk :: "string \<Rightarrow> string + stream_chunk" where
  "ex_chunk d = Inr \<lparr>ck_Choices = [\<lparr>ch_FinishReason = ''stop'', ch_Content = d, ch_ReasoningContent = [], ch_Reasoning = [],
     ch_ToolCalls = []\<rparr>], ck_Usage = None\<rparr>"

lemma TrimSpace_ex: "TrimSpace ''data: hi'' = ''data: hi''" "TrimSpace '' hi'' = ''hi''"
  "TrimSpace ''data: [DONE]'' = ''data: [DONE]''" "TrimSpace '' [DONE]'' = ''[DONE]''"
  by (simp_all add: TrimSpace_def trim_left_def trim_right_def trim_with.simps space_len_def space_len_last_def
      nth_byte_def byte_def ascii_space_def space2_def space3_def)


text \<open>The response against the stream.\<close>

lemma seg_started:
  "seg_run s es = Some s' \<Longrightarrow> sg_started s' = sg_started s \<union> me_Index ` {e \<in> set es. me_Kind e = ModelToolCallStart}"
proof (induction es arbitrary: s)
  case (Cons e es)
  then obtain s1 where s1: "seg_step s e = Some s1" "seg_run s1 es = Some s'" by (auto split: bind_splits)
  have "sg_started s1 = sg_started s \<union> (if me_Kind e = ModelToolCallStart then {me_Index e} else {})"
    using s1(1) by (cases "me_Kind e") (auto simp: seg_step_def Let_def split: if_splits)
  with Cons.IH [OF s1(2)] show ?case by auto
qed simp

lemma collect_calls_args:
  assumes "collect_calls jv a is = Inr calls"
  shows "map tc_Arguments calls = map (\<lambda>i. let t = TrimSpace (case map_of (acc_toolCalls a) i of Some c \<Rightarrow> st_arguments c | None \<Rightarrow> [])
      in if t = [] then ''{}'' else t) is"
  using assms
proof (induction "is" arbitrary: calls)
  case (Cons i "is")
  then show ?case
    by (auto simp: ToolCall_def validToolArguments_def Let_def split: sum.splits option.splits if_splits)
qed simp

text \<open>The response agrees with the stream. When reading a response succeeds, the content of the
  returned message is the concatenation of the text fragments that were streamed, and its tool
  calls are those that were started, in the order of their indexes, each with the concatenation of
  its own streamed argument fragments (trimmed, and an empty object when there were none), however
  the fragments were interleaved.\<close>

theorem stream_response_agrees:
  assumes "stream_body jv dec log_sink [] ls scan_err ctx_err = (log, Inr resp)"
  shows "cm_Content (cr_Message resp) = visible_text log \<and>
    map tc_Arguments (cm_ToolCalls (cr_Message resp)) =
      map (\<lambda>i. let t = TrimSpace (args_of i log) in if t = [] then ''{}'' else t)
        (sorted_list_of_set (me_Index ` {e \<in> set log. me_Kind e = ModelToolCallStart}))"
proof -
  obtain saw p err where run: "stream_lines jv dec log_sink (newToolStreamParser []) ls = (saw, (p, err))" using prod_cases3 by blast
  have ok: "err = None" "saw" "log = sp_world p" "Response jv (sp_acc p) = Inr resp"
    using assms run by (auto simp: stream_body_def Let_def split: option.splits bool.splits prod.splits)
  then have "sp_finished p" using stream_lines_reads [OF new_parser_reading run] by simp
  then have inv: "sp_inv p" by (simp add: sp_finished_def)
  let ?I = "sp_toolStarted p" and ?o = "acc_toolOrder (sp_acc p)"
  have st: "?I = me_Index ` {e \<in> set log. me_Kind e = ModelToolCallStart}"
    using seg_started [of seg_init log] inv ok(3) by (fastforce simp: sp_inv_def seg_init_def)
  have srt: "sort ?o = sorted_list_of_set ?I"
    using inv by (metis sp_inv_def distinct_remdups_id sorted_list_of_set_sort_remdups)
  obtain calls where calls: "ToolCalls jv (sp_acc p) = Inr calls" "cm_ToolCalls (cr_Message resp) = calls"
    and content: "cm_Content (cr_Message resp) = acc_content (sp_acc p)"
    using ok(4) by (auto simp: Response_def split: sum.splits)
  have get: "(case map_of (acc_toolCalls (sp_acc p)) i of Some c \<Rightarrow> st_arguments c | None \<Rightarrow> []) = args_of i log" if "i \<in> ?I" for i
    using inv that ok(3) by (auto simp: sp_inv_def dest!: spec [of _ i])
  have "map tc_Arguments calls = map (\<lambda>i. let t = TrimSpace (args_of i log) in if t = [] then ''{}'' else t) (sort ?o)"
  proof (cases "?o = []")
    case True
    with calls(1) show ?thesis by (simp add: ToolCalls_def)
  next
    case False
    with calls(1) have "collect_calls jv (sp_acc p) (sort ?o) = Inr calls"
      by (simp add: ToolCalls_def orderedToolIndexes_def)
    moreover have "set (sort ?o) = ?I" using inv by (simp add: sp_inv_def)
    ultimately show ?thesis using collect_calls_args get by (auto intro!: map_cong simp: Let_def)
  qed
  with content calls(2) srt st inv ok(3) show ?thesis by (simp add: sp_inv_def)
qed

theorem stream_response_agrees_witness:
  "\<exists>log resp. stream_body (\<lambda>_. True) ex_chunk log_sink [] [''data: hi'', ''data: [DONE]''] None None = (log, Inr resp) \<and>
     cm_Content (cr_Message resp) = visible_text log \<and> visible_text log = ''hi''"
proof -
  let ?run = "stream_body (\<lambda>_. True) ex_chunk log_sink [] [''data: hi'', ''data: [DONE]''] None None"
  have "\<exists>log resp. ?run = (log, Inr resp) \<and> visible_text log = ''hi''"
    by (simp add: stream_body_def TrimSpace_ex HasPrefix_def ex_chunk_def newToolStreamParser_def accept_def accept_choice_def
        accept_reasoning_def accept_content_def beginText_def finishForReason_def closeTextAndReasoning_def
        finishTools_def orderedToolIndexes_def NewToolStreamAccumulator_def AddText_def accept_usage_def finish_def Let_def
        Response_def ToolCalls_def)
  then obtain log resp where run: "?run = (log, Inr resp)" "visible_text log = ''hi''" by blast
  then show ?thesis using stream_response_agrees [OF run(1)] by blast
qed

text \<open>Usage that is reported incrementally breaks tool calls. A chunk that carries a usage report with
  the first fragment of a call's arguments ends the stream with an error, because every usage report
  finishes all calls and the incomplete arguments are not valid JSON.\<close>

theorem usage_report_breaks_partial_call:
  assumes "\<not> jv (TrimSpace frag)" "TrimSpace frag \<noteq> []"
  shows "\<exists>p err. accept jv log_sink (newToolStreamParser [])
      \<lparr>ck_Choices = [\<lparr>ch_FinishReason = [], ch_Content = [], ch_ReasoningContent = [], ch_Reasoning = [],
         ch_ToolCalls = [\<lparr>sc_Index = Some 0, sc_ID = ''c'', sc_Name = ''f'', sc_Arguments = frag\<rparr>]\<rparr>], ck_Usage = Some u\<rparr> = (p, Some err) \<and>
    me_Kind (last (sp_world p)) = ModelError"
proof -
  have "frag \<noteq> []" using assms(2) by auto
  then show ?thesis
    using assms
    by (simp add: accept_def accept_choice_def accept_reasoning_def accept_content_def newToolStreamParser_def
        NewToolStreamAccumulator_def accept_call_def closeTextAndReasoning_def AddToolCallDelta_def accept_usage_def
        finishTools_def orderedToolIndexes_def finish_tool_def ToolCall_def validToolArguments_def fail_def Let_def)
qed

lemma TrimSpace_brace: "TrimSpace ''{'' = ''{''"
  by (simp add: TrimSpace_def trim_left_def trim_right_def trim_with.simps space_len_def space_len_last_def
      nth_byte_def byte_def ascii_space_def space2_def space3_def)

theorem usage_report_breaks_partial_call_witness:
  "\<exists>p err. accept (\<lambda>s. s = ''{}'') log_sink (newToolStreamParser [])
      \<lparr>ck_Choices = [\<lparr>ch_FinishReason = [], ch_Content = [], ch_ReasoningContent = [], ch_Reasoning = [],
         ch_ToolCalls = [\<lparr>sc_Index = Some 0, sc_ID = ''c'', sc_Name = ''f'', sc_Arguments = ''{''\<rparr>]\<rparr>], ck_Usage = Some no_usage\<rparr> = (p, Some err) \<and>
    me_Kind (last (sp_world p)) = ModelError"
  by (rule usage_report_breaks_partial_call) (simp_all add: TrimSpace_brace)

end
