(* ===== verification/Model_Turn.thy ===== *)
theory Model_Turn
  imports Model_Stream_Props
begin

text \<open>
  One turn of the model (\<^verbatim>\<open>internal/runtime/agent/model_turn.go\<close>): the provider's events are
  forwarded to the run's observer, proposed plans taken out of the text on the way; a provider that
  cannot stream is called without streaming and its answer replayed as events.

  The streaming client is code of the provider: a finite script that calls the callback, sees the
  callback's error, and finally returns. \<open>unsupported\<close> says of an error that it is
  \<^verbatim>\<open>ErrToolStreamingUnsupported\<close> (\<^verbatim>\<open>errors.Is\<close>). The diagnostics log is not modelled.
\<close>

datatype stream_script =
    Call model_event "string option \<Rightarrow> stream_script"
  | Return "chat_response option" "string option"

record turn_state =
  ts_emittedAny :: bool
  ts_terminal :: "model_kind option"
  ts_terminalErr :: "string option"
  ts_emitterErr :: "string option"
  ts_lastUsage :: usage
  ts_hasUsage :: bool
  ts_parser :: plan_parser
  ts_textOpen :: bool

definition new_turn_state :: turn_state where
  "new_turn_state = \<lparr>ts_emittedAny = False, ts_terminal = None, ts_terminalErr = None, ts_emitterErr = None,
     ts_lastUsage = no_usage, ts_hasUsage = False, ts_parser = new_plan_parser, ts_textOpen = False\<rparr>"

definition emitModelEvent :: "'w sink option \<Rightarrow> 'w \<Rightarrow> model_event \<Rightarrow> 'w outcome" where
  "emitModelEvent onEvent w e = (case onEvent of None \<Rightarrow> (w, None) | Some f \<Rightarrow> f w e)"

type_synonym 'w turn = "'w \<times> turn_state"

definition turn_emit :: "'w sink option \<Rightarrow> 'w turn \<Rightarrow> model_event \<Rightarrow> 'w turn outcome" where
  "turn_emit onEvent s e = (case emitModelEvent onEvent (fst s) e of (w, err) \<Rightarrow> ((w, snd s), err))"

text \<open>The loop over the parser's events for a text fragment: \<^verbatim>\<open>textOpen\<close> is set even if the start could
  not be emitted, and the first error ends the loop.\<close>

definition forward_parsed :: "'w sink option \<Rightarrow> 'w turn \<Rightarrow> model_event \<Rightarrow> 'w turn outcome" where
  "forward_parsed onEvent s parsed =
     (if me_Kind parsed = ModelTextDelta
      then go_try (if \<not> ts_textOpen (snd s)
                   then (case turn_emit onEvent s (mev ModelTextStart) of
                           (s, err) \<Rightarrow> ((fst s, (snd s)\<lparr>ts_textOpen := True\<rparr>), err))
                   else (s, None))
             (\<lambda>s. turn_emit onEvent s parsed)
      else turn_emit onEvent s parsed)"

text \<open>\<^verbatim>\<open>emitParserFinish\<close>.\<close>

definition finish_parsed :: "'w sink option \<Rightarrow> 'w turn \<Rightarrow> model_event \<Rightarrow> 'w turn outcome" where
  "finish_parsed onEvent s parsed =
     (if me_Kind parsed = ModelTextDelta
      then go_try (if \<not> ts_textOpen (snd s)
                   then go_try (turn_emit onEvent s (mev ModelTextStart))
                          (\<lambda>s. ((fst s, (snd s)\<lparr>ts_textOpen := True\<rparr>), None))
                   else (s, None))
             (\<lambda>s. turn_emit onEvent s parsed)
      else turn_emit onEvent s parsed)"

definition emitParserFinish :: "'w sink option \<Rightarrow> 'w turn \<Rightarrow> 'w turn outcome" where
  "emitParserFinish onEvent s =
     (case Finish (ts_parser (snd s)) of (es, parser) \<Rightarrow>
        go_try (go_for (finish_parsed onEvent) (fst s, (snd s)\<lparr>ts_parser := parser\<rparr>) es)
          (\<lambda>s. if ts_textOpen (snd s)
               then turn_emit onEvent (fst s, (snd s)\<lparr>ts_textOpen := False\<rparr>) (mev ModelTextEnd)
               else (s, None)))"

fun kind_name :: "model_kind \<Rightarrow> string" where
  "kind_name ModelTextStart = ''text.start''"
| "kind_name ModelTextDelta = ''text.delta''"
| "kind_name ModelTextEnd = ''text.end''"
| "kind_name ModelReasoningStart = ''reasoning.start''"
| "kind_name ModelReasoningDelta = ''reasoning.delta''"
| "kind_name ModelReasoningEnd = ''reasoning.end''"
| "kind_name ModelProposedPlanStart = ''plan.start''"
| "kind_name ModelProposedPlanDelta = ''plan.delta''"
| "kind_name ModelProposedPlanEnd = ''plan.end''"
| "kind_name ModelToolCallStart = ''tool_call.start''"
| "kind_name ModelToolCallDelta = ''tool_call.delta''"
| "kind_name ModelToolCallEnd = ''tool_call.end''"
| "kind_name ModelUsage = ''usage''"
| "kind_name ModelDone = ''done''"
| "kind_name ModelError = ''error''"

definition forward_event :: "'w sink option \<Rightarrow> 'w turn \<Rightarrow> model_event \<Rightarrow> 'w turn outcome" where
  "forward_event onEvent s event =
     (case me_Kind event of
        ModelUsage \<Rightarrow> ((fst s, (snd s)\<lparr>ts_lastUsage := me_Usage event, ts_hasUsage := True\<rparr>), None)
      | ModelTextStart \<Rightarrow> (s, None)
      | ModelTextDelta \<Rightarrow>
          (case Push (ts_parser (snd s)) (me_Text event) of (es, parser) \<Rightarrow>
             go_for (forward_parsed onEvent) (fst s, (snd s)\<lparr>ts_parser := parser\<rparr>) es)
      | ModelTextEnd \<Rightarrow> emitParserFinish onEvent s
      | ModelDone \<Rightarrow> go_try (emitParserFinish onEvent s) (\<lambda>s. turn_emit onEvent s event)
      | _ \<Rightarrow> turn_emit onEvent s event)"

definition forward_done :: "model_event \<Rightarrow> 'w turn \<Rightarrow> 'w turn" where
  "forward_done event s =
     (fst s, let t = (snd s)\<lparr>ts_emittedAny := True\<rparr> in
        if me_Kind event = ModelDone then t\<lparr>ts_terminal := Some ModelDone\<rparr>
        else if me_Kind event = ModelError then t\<lparr>ts_terminal := Some ModelError, ts_terminalErr := me_Err event\<rparr>
        else t)"

definition forward :: "'w sink option \<Rightarrow> 'w turn \<Rightarrow> model_event \<Rightarrow> 'w turn outcome" where
  "forward onEvent s event =
     (case ts_terminal (snd s) of
        Some k \<Rightarrow>
          if me_Kind event = ModelDone \<or> me_Kind event = ModelError then (s, None)
          else (s, Some (''model stream emitted '' @ kind_name (me_Kind event) @ '' after terminal event '' @ kind_name k))
      | None \<Rightarrow>
          (case forward_event onEvent s event of
             (s, Some err) \<Rightarrow> ((fst s, (snd s)\<lparr>ts_emitterErr := Some err\<rparr>), Some err)
           | (s, None) \<Rightarrow> (forward_done event s, None)))"

primrec run_script :: "'w sink option \<Rightarrow> 'w turn \<Rightarrow> stream_script \<Rightarrow> 'w turn \<times> chat_response option \<times> string option" where
  "run_script onEvent s (Call e k) = run_script onEvent (fst (forward onEvent s e)) (k (snd (forward onEvent s e)))"
| "run_script onEvent s (Return r err) = (s, r, err)"

definition usage_reported :: "usage \<Rightarrow> bool" where
  "usage_reported u \<longleftrightarrow> PromptTokens u \<noteq> 0 \<or> CompletionTokens u \<noteq> 0 \<or> TotalTokens u \<noteq> 0"

definition normalize_response :: "chat_response \<Rightarrow> chat_response" where
  "normalize_response r =
     (case NormalizeProposedPlan (cm_Content (cr_Message r)) of (visible, plan) \<Rightarrow>
        r\<lparr>cr_Message := (cr_Message r)\<lparr>cm_Content := visible\<rparr>, cr_ProposedPlan := plan\<rparr>)"

fun tool_call_events :: "int \<Rightarrow> tool_call list \<Rightarrow> model_event list" where
  "tool_call_events i [] = []"
| "tool_call_events i (c # cs) =
     [(mev ModelToolCallStart)\<lparr>me_Index := i, me_CallID := tc_ID c, me_Name := tc_Name c\<rparr>,
      (mev ModelToolCallDelta)\<lparr>me_Index := i, me_CallID := tc_ID c, me_Name := tc_Name c, me_ArgumentDelta := tc_Arguments c\<rparr>,
      (mev ModelToolCallEnd)\<lparr>me_Index := i, me_CallID := tc_ID c, me_Name := tc_Name c, me_Arguments := Some (tc_Arguments c)\<rparr>]
     @ tool_call_events (i + 1) cs"

fun open_text :: "bool \<Rightarrow> model_event list \<Rightarrow> model_event list" where
  "open_text isOpen [] = (if isOpen then [mev ModelTextEnd] else [])"
| "open_text isOpen (e # es) =
     (if me_Kind e = ModelTextDelta \<and> \<not> isOpen then mev ModelTextStart # e # open_text True es
      else e # open_text isOpen es)"

text \<open>The events a complete response is replayed as, in the order they are emitted; the first error of
  the observer ends the replay.\<close>

definition accumulated_events :: "chat_response \<Rightarrow> model_event list" where
  "accumulated_events r =
     (if cm_Content (cr_Message r) \<noteq> [] \<or> cr_ProposedPlan r \<noteq> []
      then (case Push new_plan_parser (cm_Content (cr_Message r)) of (es, p) \<Rightarrow> open_text False (es @ fst (Finish p)))
           @ (if cr_ProposedPlan r \<noteq> []
              then [mev ModelProposedPlanStart, plan_delta (cr_ProposedPlan r), mev ModelProposedPlanEnd] else [])
      else [])
     @ tool_call_events 0 (cm_ToolCalls (cr_Message r))
     @ (if usage_reported (cr_Usage r) then [(mev ModelUsage)\<lparr>me_Usage := cr_Usage r\<rparr>] else [])
     @ [mev ModelDone]"

definition emitAccumulatedModelEvents :: "'w sink option \<Rightarrow> 'w \<Rightarrow> chat_response \<Rightarrow> 'w outcome" where
  "emitAccumulatedModelEvents onEvent w r = go_for (emitModelEvent onEvent) w (accumulated_events r)"

definition ErrEmptyModelResponse :: string where
  "ErrEmptyModelResponse = ''model returned an empty response''"

abbreviation error_event :: "string \<Rightarrow> model_event" where
  "error_event err \<equiv> (mev ModelError)\<lparr>me_Err := Some err\<rparr>"

definition executeNonStreamingModelTurn ::
  "'w sink option \<Rightarrow> 'w \<Rightarrow> chat_response option \<times> string option \<Rightarrow> 'w \<times> (string + chat_response)" where
  "executeNonStreamingModelTurn onEvent w chat =
     (case chat of
        (_, Some err) \<Rightarrow> (fst (emitModelEvent onEvent w (error_event err)), Inl err)
      | (None, None) \<Rightarrow>
          (fst (emitModelEvent onEvent w (error_event ErrEmptyModelResponse)), Inl ErrEmptyModelResponse)
      | (Some r, None) \<Rightarrow>
          (case emitAccumulatedModelEvents onEvent w (normalize_response r) of
             (w, Some err) \<Rightarrow> (w, Inl err)
           | (w, None) \<Rightarrow> (w, Inr (normalize_response r))))"

text \<open>The end of a streamed turn, once the client has returned a response and no error.\<close>

definition stream_response :: "turn_state \<Rightarrow> chat_response \<Rightarrow> chat_response" where
  "stream_response t r =
     (let r = normalize_response r in
      if TotalTokens (cr_Usage r) = 0 \<and> PromptTokens (cr_Usage r) = 0 \<and> CompletionTokens (cr_Usage r) = 0 \<and> ts_hasUsage t
      then r\<lparr>cr_Usage := ts_lastUsage t\<rparr> else r)"

definition finish_stream :: "'w sink option \<Rightarrow> 'w turn \<Rightarrow> chat_response \<Rightarrow> 'w \<times> (string + chat_response)" where
  "finish_stream onEvent s r =
     (let r = stream_response (snd s) r;
          m = go_try (if usage_reported (cr_Usage r)
                      then turn_emit onEvent s ((mev ModelUsage)\<lparr>me_Usage := cr_Usage r\<rparr>) else (s, None))
                (\<lambda>s. if ts_terminal (snd s) = None then forward onEvent s (mev ModelDone) else (s, None))
      in (fst (fst m), case snd m of Some err \<Rightarrow> Inl err | None \<Rightarrow> Inr r))"

definition executeModelTurn ::
  "(string \<Rightarrow> bool) \<Rightarrow> 'w sink option \<Rightarrow> 'w \<Rightarrow> string option \<Rightarrow> stream_script option \<Rightarrow> chat_response option \<times> string option \<Rightarrow>
     'w \<times> (string + chat_response)" where
  "executeModelTurn unsupported onEvent w ctx_err streaming chat =
     (case ctx_err of
        Some err \<Rightarrow> (w, Inl err)
      | None \<Rightarrow>
          (case streaming of
             None \<Rightarrow> executeNonStreamingModelTurn onEvent w chat
           | Some script \<Rightarrow>
               (case run_script onEvent (w, new_turn_state) script of
                  (s, r, Some err) \<Rightarrow>
                    if unsupported err \<and> \<not> ts_emittedAny (snd s) \<and> ts_emitterErr (snd s) = None
                    then executeNonStreamingModelTurn onEvent (fst s) chat
                    else if ts_emitterErr (snd s) = None \<and> ts_terminal (snd s) = None
                    then (fst (fst (forward onEvent s (error_event err))), Inl err)
                    else (fst s, Inl err)
                | (s, r, None) \<Rightarrow>
                    if ts_terminal (snd s) = Some ModelError
                    then (fst s, Inl (case ts_terminalErr (snd s) of Some e \<Rightarrow> e | None \<Rightarrow> ''model stream ended with an error event''))
                    else (case r of
                            None \<Rightarrow>
                              ((if ts_terminal (snd s) = None then fst (fst (forward onEvent s (error_event ErrEmptyModelResponse))) else fst s),
                               Inl ErrEmptyModelResponse)
                          | Some r \<Rightarrow> finish_stream onEvent s r))))"

section \<open>What the observer sees\<close>

text \<open>A consumer that accepts text only between its start and its end.\<close>

definition text_step :: "bool option \<Rightarrow> model_event \<Rightarrow> bool option" where
  "text_step st e = (case st of
       None \<Rightarrow> None
     | Some isOpen \<Rightarrow>
         if me_Kind e = ModelTextStart then (if isOpen then None else Some True)
         else if me_Kind e = ModelTextDelta then (if isOpen then Some True else None)
         else if me_Kind e = ModelTextEnd then (if isOpen then Some False else None)
         else Some isOpen)"

definition text_run :: "model_event list \<Rightarrow> bool option" where
  "text_run es = foldl text_step (Some False) es"

lemma text_run_simps [simp]: "text_run [] = Some False" "text_run (es @ [e]) = text_step (text_run es) e"
  by (simp_all add: text_run_def)

lemma turn_emit_log [simp]: "turn_emit (Some log_sink) s e = ((fst s @ [e], snd s), None)"
  by (simp add: turn_emit_def emitModelEvent_def log_sink_def)

definition parser_kinds :: "model_kind set" where
  "parser_kinds = {ModelTextDelta, ModelProposedPlanStart, ModelProposedPlanDelta, ModelProposedPlanEnd}"

lemma flushLine_kinds: "\<forall>e\<in>set (fst (flushLine p)). me_Kind e \<in> parser_kinds"
  by (simp add: flushLine_def Let_def parser_kinds_def)

lemma push_kinds: "\<forall>e\<in>set (fst (push_runes p rs)). me_Kind e \<in> parser_kinds"
  by (induction rs arbitrary: p) (use flushLine_kinds in \<open>auto simp: Let_def case_prod_unfold\<close>)

lemma Finish_kinds: "\<forall>e\<in>set (fst (Finish p)). me_Kind e \<in> parser_kinds"
  using flushLine_kinds by (auto simp: Finish_def case_prod_unfold parser_kinds_def)

text \<open>What forwarding the parser's events does to the log.\<close>

definition parsed_ok :: "model_event list turn \<Rightarrow> model_event list \<Rightarrow> model_event list turn outcome \<Rightarrow> bool" where
  "parsed_ok s es m \<longleftrightarrow> snd m = None \<and> terminals (fst (fst m)) = terminals (fst s) \<and>
     visible_text (fst (fst m)) = visible_text (fst s) @ visible_text es \<and>
     (text_run (fst s) = Some (ts_textOpen (snd s)) \<longrightarrow> text_run (fst (fst m)) = Some (ts_textOpen (snd (fst m)))) \<and>
     (snd (fst m))\<lparr>ts_textOpen := False\<rparr> = (snd s)\<lparr>ts_textOpen := False\<rparr>"

lemma parsed_ok_loop:
  assumes "f \<in> {forward_parsed (Some log_sink), finish_parsed (Some log_sink)}" "\<forall>e\<in>set es. me_Kind e \<in> parser_kinds"
  shows "parsed_ok s es (go_for f s es)"
  using assms(2)
proof (induction es arbitrary: s)
  case (Cons e es)
  have k: "me_Kind e \<in> parser_kinds" using Cons.prems by simp
  obtain s1 where s1: "f s e = (s1, None)" "parsed_ok s [e] (s1, None)"
    using assms(1) k
    by (cases "ts_textOpen (snd s)")
      (auto simp: forward_parsed_def finish_parsed_def parsed_ok_def parser_kinds_def text_step_def simp flip: append_assoc)
  from Cons.IH [of s1] Cons.prems s1 show ?case
    by (auto simp: parsed_ok_def go_try_def)
qed (simp add: parsed_ok_def)

lemma text_closed_id: "\<not> ts_textOpen t \<Longrightarrow> t\<lparr>ts_textOpen := False\<rparr> = t"
  by (cases t) simp

lemma finish_log:
  "\<exists>s'. emitParserFinish (Some log_sink) s = (s', None) \<and> terminals (fst s') = terminals (fst s) \<and>
     visible_text (fst s') = visible_text (fst s) @ visible_text (fst (Finish (ts_parser (snd s)))) \<and>
     (text_run (fst s) = Some (ts_textOpen (snd s)) \<longrightarrow> text_run (fst s') = Some False) \<and>
     snd s' = (snd s)\<lparr>ts_parser := snd (Finish (ts_parser (snd s))), ts_textOpen := False\<rparr>"
proof -
  let ?s = "(fst s, (snd s)\<lparr>ts_parser := snd (Finish (ts_parser (snd s)))\<rparr>)"
  let ?es = "fst (Finish (ts_parser (snd s)))"
  have ok: "parsed_ok ?s ?es (go_for (finish_parsed (Some log_sink)) ?s ?es)"
    by (rule parsed_ok_loop) (simp_all add: Finish_kinds)
  then obtain L t where m: "go_for (finish_parsed (Some log_sink)) ?s ?es = ((L, t), None)"
    by (cases "go_for (finish_parsed (Some log_sink)) ?s ?es") (auto simp: parsed_ok_def)
  have "emitParserFinish (Some log_sink) s =
      ((L @ (if ts_textOpen t then [mev ModelTextEnd] else []), t\<lparr>ts_textOpen := False\<rparr>), None)"
    using m text_closed_id [of t] by (simp add: emitParserFinish_def case_prod_unfold)
  with ok [unfolded m] show ?thesis
    by (cases "ts_textOpen t") (simp_all add: parsed_ok_def text_step_def)
qed

lemma same_but_open:
  assumes "(t :: turn_state)\<lparr>ts_textOpen := False\<rparr> = t'\<lparr>ts_textOpen := False\<rparr>"
  shows "ts_terminal t = ts_terminal t'" "ts_parser t = ts_parser t'" "ts_emitterErr t = ts_emitterErr t'"
    "ts_emittedAny t = ts_emittedAny t'"
  using arg_cong [OF assms, of ts_terminal] arg_cong [OF assms, of ts_parser] arg_cong [OF assms, of ts_emitterErr]
    arg_cong [OF assms, of ts_emittedAny] by simp_all

text \<open>One forwarded event, before any terminal one.\<close>

definition chunk_of :: "model_event \<Rightarrow> string list" where
  "chunk_of e = (if me_Kind e = ModelTextDelta then [me_Text e] else [])"

lemma push_log:
  "parsed_ok (fst s, (snd s)\<lparr>ts_parser := snd (Push (ts_parser (snd s)) t)\<rparr>) (fst (Push (ts_parser (snd s)) t))
     (go_for (forward_parsed (Some log_sink)) (fst s, (snd s)\<lparr>ts_parser := snd (Push (ts_parser (snd s)) t)\<rparr>)
        (fst (Push (ts_parser (snd s)) t)))"
  by (rule parsed_ok_loop) (simp_all add: Push_runes push_kinds)

lemma forward_event_log:
  "\<exists>s'. forward_event (Some log_sink) s e = (s', None) \<and>
     terminals (fst s') = terminals (fst s) @ (if me_Kind e = ModelDone \<or> me_Kind e = ModelError then [e] else []) \<and>
     (text_run (fst s) = Some (ts_textOpen (snd s)) \<longrightarrow> text_run (fst s') = Some (ts_textOpen (snd s'))) \<and>
     ts_terminal (snd s') = ts_terminal (snd s) \<and> ts_emitterErr (snd s') = ts_emitterErr (snd s)"
proof (cases "me_Kind e = ModelTextDelta")
  case True
  let ?s = "(fst s, (snd s)\<lparr>ts_parser := snd (Push (ts_parser (snd s)) (me_Text e))\<rparr>)"
  let ?es = "fst (Push (ts_parser (snd s)) (me_Text e))"
  note ok = push_log [of s "me_Text e"]
  then obtain L t where m: "go_for (forward_parsed (Some log_sink)) ?s ?es = ((L, t), None)"
    by (cases "go_for (forward_parsed (Some log_sink)) ?s ?es") (auto simp: parsed_ok_def)
  have same: "ts_terminal t = ts_terminal (snd s)" "ts_emitterErr t = ts_emitterErr (snd s)"
    using same_but_open [of t "snd ?s"] ok [unfolded m] by (simp_all add: parsed_ok_def)
  have "forward_event (Some log_sink) s e = ((L, t), None)"
    using True m by (simp add: forward_event_def case_prod_unfold)
  with True same ok [unfolded m] show ?thesis
    by (intro exI [of _ "(L, t)"]) (simp add: parsed_ok_def)
next
  case False
  obtain L t where s1: "emitParserFinish (Some log_sink) s = ((L, t), None)" "terminals L = terminals (fst s)"
     "text_run (fst s) = Some (ts_textOpen (snd s)) \<longrightarrow> text_run L = Some False"
     "t = (snd s)\<lparr>ts_parser := snd (Finish (ts_parser (snd s))), ts_textOpen := False\<rparr>"
    using finish_log [of s] by auto
  with False show ?thesis
    by (cases "me_Kind e") (simp_all add: forward_event_def text_step_def)
qed

lemma forward_log:
  "\<exists>s'. fst (forward (Some log_sink) s e) = s' \<and>
     (if ts_terminal (snd s) \<noteq> None then s' = s
      else snd (forward (Some log_sink) s e) = None \<and>
        terminals (fst s') = terminals (fst s) @ (if me_Kind e = ModelDone \<or> me_Kind e = ModelError then [e] else []) \<and>
        (text_run (fst s) = Some (ts_textOpen (snd s)) \<longrightarrow> text_run (fst s') = Some (ts_textOpen (snd s'))) \<and>
        ts_terminal (snd s') = (if me_Kind e = ModelDone \<or> me_Kind e = ModelError then Some (me_Kind e) else None) \<and>
        ts_emittedAny (snd s') \<and> ts_emitterErr (snd s') = ts_emitterErr (snd s))"
proof (cases "ts_terminal (snd s)")
  case None
  obtain s1 where "forward_event (Some log_sink) s e = (s1, None)"
     "terminals (fst s1) = terminals (fst s) @ (if me_Kind e = ModelDone \<or> me_Kind e = ModelError then [e] else [])"
     "text_run (fst s) = Some (ts_textOpen (snd s)) \<longrightarrow> text_run (fst s1) = Some (ts_textOpen (snd s1))"
     "ts_terminal (snd s1) = ts_terminal (snd s)" "ts_emitterErr (snd s1) = ts_emitterErr (snd s)"
    using forward_event_log [of s e] by blast
  with None show ?thesis by (auto simp: forward_def forward_done_def Let_def)
qed (auto simp: forward_def)

definition turn_inv :: "model_event list turn \<Rightarrow> bool" where
  "turn_inv s \<longleftrightarrow> ts_emitterErr (snd s) = None \<and>
     length (terminals (fst s)) = (if ts_terminal (snd s) = None then 0 else 1) \<and>
     text_run (fst s) = Some (ts_textOpen (snd s)) \<and>
     (\<not> ts_emittedAny (snd s) \<longrightarrow> fst s = [] \<and> ts_terminal (snd s) = None)"

lemma forward_inv: "turn_inv s \<Longrightarrow> turn_inv (fst (forward (Some log_sink) s e))"
  using forward_log [of s e] by (auto simp: turn_inv_def split: if_splits)

lemma run_script_inv: "turn_inv s \<Longrightarrow> turn_inv (fst (run_script (Some log_sink) s sc))"
proof (induction sc arbitrary: s)
  case (Call e k)
  from Call.IH [OF rangeI forward_inv [OF Call.prems]] show ?case by simp
qed simp

section \<open>The turn as a whole\<close>

lemma emit_all_log: "go_for (emitModelEvent (Some log_sink)) w es = (w @ es, None)"
  by (induction es arbitrary: w) (simp_all add: emitModelEvent_def log_sink_def)

lemma open_text_terminals: "\<forall>e\<in>set es. me_Kind e \<in> parser_kinds \<Longrightarrow> terminals (open_text b es) = []"
  by (induction es arbitrary: b) (auto simp: parser_kinds_def)

lemma open_text_run:
  "\<forall>e\<in>set es. me_Kind e \<in> parser_kinds \<Longrightarrow> foldl text_step (Some b) (open_text b es) = Some False"
  by (induction es arbitrary: b) (auto simp: parser_kinds_def text_step_def)

lemma tool_events_terminals: "terminals (tool_call_events i cs) = []"
  by (induction cs arbitrary: i) simp_all

lemma tool_events_run: "foldl text_step (Some b) (tool_call_events i cs) = Some b"
  by (induction cs arbitrary: i) (simp_all add: text_step_def)

lemma accumulated_terminals: "terminals (accumulated_events r) = [mev ModelDone]"
  using push_kinds Finish_kinds
  by (auto simp: accumulated_events_def tool_events_terminals case_prod_unfold Push_runes intro!: open_text_terminals)

lemma accumulated_run: "foldl text_step (Some False) (accumulated_events r) = Some False"
proof -
  let ?es = "case Push new_plan_parser (cm_Content (cr_Message r)) of (es, p) \<Rightarrow> es @ fst (Finish p)"
  have "foldl text_step (Some False) (open_text False ?es) = Some False"
    by (rule open_text_run) (use push_kinds Finish_kinds in \<open>auto simp: case_prod_unfold Push_runes\<close>)
  then show ?thesis
    by (simp add: accumulated_events_def tool_events_run case_prod_unfold text_step_def)
qed

lemma nonstreaming_log:
  "length (terminals (fst (executeNonStreamingModelTurn (Some log_sink) [] chat))) = 1 \<and>
   text_run (fst (executeNonStreamingModelTurn (Some log_sink) [] chat)) \<noteq> None"
proof -
  obtain r err where chat: "chat = (r, err)" by (cases chat)
  show ?thesis
    by (cases err; cases r)
      (simp_all add: chat executeNonStreamingModelTurn_def emitAccumulatedModelEvents_def emit_all_log accumulated_terminals
        accumulated_run text_run_def emitModelEvent_def log_sink_def text_step_def)
qed

lemma new_turn_inv: "turn_inv ([], new_turn_state)"
  by (simp add: turn_inv_def new_turn_state_def)

lemma forward_terminal_log:
  assumes "turn_inv s" "me_Kind e = ModelDone \<or> me_Kind e = ModelError"
  shows "length (terminals (fst (fst (forward (Some log_sink) s e)))) = 1 \<and>
    text_run (fst (fst (forward (Some log_sink) s e))) \<noteq> None"
proof -
  have "turn_inv (fst (forward (Some log_sink) s e))" by (rule forward_inv [OF assms(1)])
  moreover have "ts_terminal (snd (fst (forward (Some log_sink) s e))) \<noteq> None"
    using forward_log [of s e] assms(2) by (auto split: if_splits)
  ultimately show ?thesis by (auto simp: turn_inv_def)
qed

lemma finish_stream_log:
  assumes "turn_inv s"
  shows "length (terminals (fst (finish_stream (Some log_sink) s r))) = 1 \<and> text_run (fst (finish_stream (Some log_sink) s r)) \<noteq> None"
proof -
  define es where "es = (if usage_reported (cr_Usage (stream_response (snd s) r))
    then [(mev ModelUsage)\<lparr>me_Usage := cr_Usage (stream_response (snd s) r)\<rparr>] else [])"
  have es: "fst (finish_stream (Some log_sink) s r) =
      (if ts_terminal (snd s) = None then fst (fst (forward (Some log_sink) (fst s @ es, snd s) (mev ModelDone))) else fst s @ es)"
    by (cases "usage_reported (cr_Usage (stream_response (snd s) r))") (auto simp: finish_stream_def Let_def es_def)
  have run: "text_run (fst s @ es) = Some (ts_textOpen (snd s))" "terminals es = []"
    using assms by (auto simp: es_def turn_inv_def text_step_def)
  show ?thesis
  proof (cases "ts_terminal (snd s)")
    case None
    let ?m = "forward (Some log_sink) (fst s @ es, snd s) (mev ModelDone)"
    have "length (terminals (fst (fst ?m))) = 1" "text_run (fst (fst ?m)) \<noteq> None"
      using forward_log [of "(fst s @ es, snd s)" "mev ModelDone"] None run assms by (auto simp: turn_inv_def)
    with es None show ?thesis by simp
  next
    case (Some k)
    with es run assms show ?thesis by (auto simp: turn_inv_def)
  qed
qed


text \<open>A client that emits the events \<open>es\<close>, ignores the callback's errors and returns \<open>r\<close>.\<close>

fun script_of :: "model_event list \<Rightarrow> chat_response \<Rightarrow> stream_script" where
  "script_of [] r = Return (Some r) None"
| "script_of (e # es) r = Call e (\<lambda>_. script_of es r)"

lemma forward_visible:
  assumes "ts_terminal (snd s) = None" "me_Kind e \<notin> {ModelTextEnd, ModelDone, ModelError}"
  shows "ts_terminal (snd (fst (forward (Some log_sink) s e))) = None"
    and "ts_parser (snd (fst (forward (Some log_sink) s e))) = snd (push_chunks (ts_parser (snd s)) (chunk_of e))"
    and "visible_text (fst (fst (forward (Some log_sink) s e))) =
      visible_text (fst s) @ visible_text (fst (push_chunks (ts_parser (snd s)) (chunk_of e)))"
proof -
  let ?q = "push_chunks (ts_parser (snd s)) (chunk_of e)"
  have "\<exists>L t. forward_event (Some log_sink) s e = ((L, t), None) \<and> ts_terminal t = None \<and> ts_parser t = snd ?q \<and>
      visible_text L = visible_text (fst s) @ visible_text (fst ?q)"
  proof (cases "me_Kind e = ModelTextDelta")
    case True
    let ?s = "(fst s, (snd s)\<lparr>ts_parser := snd (Push (ts_parser (snd s)) (me_Text e))\<rparr>)"
    let ?es = "fst (Push (ts_parser (snd s)) (me_Text e))"
    note ok = push_log [of s "me_Text e"]
    then obtain L t where m: "go_for (forward_parsed (Some log_sink)) ?s ?es = ((L, t), None)"
      by (cases "go_for (forward_parsed (Some log_sink)) ?s ?es") (auto simp: parsed_ok_def)
    have "ts_terminal t = None" "ts_parser t = snd (Push (ts_parser (snd s)) (me_Text e))"
      using same_but_open [of t "snd ?s"] ok [unfolded m] assms(1) by (simp_all add: parsed_ok_def)
    with True ok [unfolded m] m show ?thesis
      by (simp add: forward_event_def case_prod_unfold chunk_of_def parsed_ok_def)
  next
    case False
    with assms show ?thesis
      by (cases s; cases "me_Kind e") (simp_all add: forward_event_def chunk_of_def)
  qed
  then obtain L t where "forward_event (Some log_sink) s e = ((L, t), None)" "ts_terminal t = None" "ts_parser t = snd ?q"
    "visible_text L = visible_text (fst s) @ visible_text (fst ?q)" by blast
  with assms show "ts_terminal (snd (fst (forward (Some log_sink) s e))) = None"
    "ts_parser (snd (fst (forward (Some log_sink) s e))) = snd ?q"
    "visible_text (fst (fst (forward (Some log_sink) s e))) = visible_text (fst s) @ visible_text (fst ?q)"
    by (simp_all add: forward_def forward_done_def Let_def)
qed

lemma run_visible:
  assumes "ts_terminal (snd s) = None" "\<forall>e\<in>set es. me_Kind e \<notin> {ModelTextEnd, ModelDone, ModelError}"
  shows "\<exists>s'. run_script (Some log_sink) s (script_of es r) = (s', Some r, None) \<and> ts_terminal (snd s') = None \<and>
    ts_parser (snd s') = snd (push_chunks (ts_parser (snd s)) (concat (map chunk_of es))) \<and>
    visible_text (fst s') = visible_text (fst s) @ visible_text (fst (push_chunks (ts_parser (snd s)) (concat (map chunk_of es))))"
  using assms
proof (induction es arbitrary: s)
  case (Cons e es)
  let ?s = "fst (forward (Some log_sink) s e)"
  have chunks: "push_chunks p (xs @ ys) = (case push_chunks p xs of (es, p') \<Rightarrow>
      case push_chunks p' ys of (es', p'') \<Rightarrow> (es @ es', p''))" for p xs ys
    by (simp add: push_chunks_runes push_runes_append)
  note f = forward_visible [OF Cons.prems(1), of e]
  have "me_Kind e \<notin> {ModelTextEnd, ModelDone, ModelError}" using Cons.prems(2) by simp
  from Cons.IH [of ?s] f [OF this] Cons.prems(2) show ?case
    by (simp add: chunks case_prod_unfold)
qed simp

text \<open>Streaming shows what the message says. When a provider streams its text in any chunks that
  respect runes, interleaved with any events that do not end the text, and returns the message whose
  content is that text, the text the observer is shown is exactly the content of the message the turn
  returns: the text without its proposed plans.\<close>

theorem turn_text_faithful:
  assumes "\<forall>e\<in>set es. me_Kind e \<notin> {ModelTextEnd, ModelDone, ModelError}"
    and "concat (map runes (concat (map chunk_of es))) = runes (concat (concat (map chunk_of es)))"
    and "cm_Content (cr_Message r) = concat (concat (map chunk_of es))"
  shows "\<exists>log r'. executeModelTurn unsupported (Some log_sink) [] None (Some (script_of es r)) chat = (log, Inr r') \<and>
    visible_text log = cm_Content (cr_Message r') \<and>
    (cm_Content (cr_Message r'), cr_ProposedPlan r') = NormalizeProposedPlan (cm_Content (cr_Message r))"
proof -
  let ?cs = "concat (map chunk_of es)" and ?q = "push_chunks new_plan_parser (concat (map chunk_of es))"
  obtain s where s: "run_script (Some log_sink) ([], new_turn_state) (script_of es r) = (s, Some r, None)"
    "ts_terminal (snd s) = None" "ts_parser (snd s) = snd ?q" "visible_text (fst s) = visible_text (fst ?q)"
    using run_visible [of "([], new_turn_state)" es r] assms(1) by (auto simp: new_turn_state_def)
  let ?r = "stream_response (snd s) r"
  define us where "us = (if usage_reported (cr_Usage ?r) then [(mev ModelUsage)\<lparr>me_Usage := cr_Usage ?r\<rparr>] else [])"
  obtain L t where fin: "emitParserFinish (Some log_sink) (fst s @ us, snd s) = ((L, t), None)"
    "visible_text L = visible_text (fst s @ us) @ visible_text (fst (Finish (ts_parser (snd s))))"
    using finish_log [of "(fst s @ us, snd s)"] by auto
  have fwd: "forward (Some log_sink) (fst s @ us, snd s) (mev ModelDone) = (forward_done (mev ModelDone) (L @ [mev ModelDone], t), None)"
    using s(2) fin(1) by (simp add: forward_def forward_event_def)
  have "finish_stream (Some log_sink) s r = (L @ [mev ModelDone], Inr ?r)"
    using s(2) fwd by (cases "usage_reported (cr_Usage ?r)") (simp_all add: finish_stream_def Let_def us_def forward_done_def)
  then have ex: "executeModelTurn unsupported (Some log_sink) [] None (Some (script_of es r)) chat = (L @ [mev ModelDone], Inr ?r)"
    using s by (simp add: executeModelTurn_def)
  have push: "Push new_plan_parser (concat ?cs) = ?q" using assms(2) by (simp add: push_chunks_runes Push_runes)
  have "visible_text us = []" by (simp add: us_def)
  then have "visible_text (L @ [mev ModelDone]) = fst (NormalizeProposedPlan (concat ?cs))"
    using fin(2) s(3,4) push by (simp add: NormalizeProposedPlan_def visible_text_def case_prod_unfold)
  moreover have "(cm_Content (cr_Message ?r), cr_ProposedPlan ?r) = NormalizeProposedPlan (cm_Content (cr_Message r))"
    by (simp add: stream_response_def normalize_response_def case_prod_unfold Let_def)
  ultimately show ?thesis using ex assms(3) by (metis fst_conv)
qed

definition ex_response :: "string \<Rightarrow> chat_response" where
  "ex_response t = \<lparr>cr_Message = \<lparr>cm_Role = ''assistant'', cm_Content = t, cm_ToolCallID = [], cm_ToolCalls = []\<rparr>,
     cr_Usage = no_usage, cr_ProposedPlan = []\<rparr>"

theorem turn_text_faithful_witness:
  "\<exists>log r'. executeModelTurn (\<lambda>_. False) (Some log_sink) [] None
     (Some (script_of [text_delta ''he'', text_delta ''llo''] (ex_response ''hello''))) (None, None) = (log, Inr r') \<and>
   visible_text log = cm_Content (cr_Message r')"
  using turn_text_faithful [of "[text_delta ''he'', text_delta ''llo'']" "ex_response ''hello''" "\<lambda>_. False" "(None, None)"]
  by (auto simp: chunk_of_def runes_code byte_def ex_response_def)

end
