(* ===== verification/Run_Publisher.thy ===== *)
theory Run_Publisher
  imports Event_Hub_Props Model_Turn
begin

text \<open>
  The publication lane of a run (\<^verbatim>\<open>internal/application/agent_usecase/run_publisher.go\<close>): runtime
  events are appended to the audit table and then published as stream events; the model's events
  are published live only, grouped into segments. The interface the lane relies on is the locale
  \<open>sequenced_hub\<close>; the memory hub is its instance.

  \<open>jm\<close> is \<^verbatim>\<open>json.Marshal\<close>, arbitrary (the code ignores its errors: the data is then nil). \<open>create\<close>
  is the repository's \<^verbatim>\<open>Create\<close> on a database \<open>'d\<close>, which may fail. One clock instant stands for the
  readings of the clock during one call. The \<^verbatim>\<open>onUsage\<close> callback is an output of the model. Metadata-only
  diagnostics are not modelled.
\<close>

section \<open>Values and rows\<close>

datatype goval = VNull | VBool bool | VInt int | VStr string | VMap "(string \<times> goval) list"

type_synonym payload = "(string \<times> goval) list"
type_synonym sevent = "payload stream_event"
type_synonym shub = "payload memory_hub"

record run_event_row =
  row_OwnerID :: int
  row_CreatedAt :: gotime
  row_RunID :: int
  row_EventType :: string
  row_PayloadJSON :: "string option"

record emitter =
  em_ownerID :: int
  em_runID :: int
  em_conversationID :: "int option"
  em_onUsage :: bool
  em_assistant :: string
  em_reasoning :: string
  em_plan :: string

definition newRunEventEmitter :: "int \<Rightarrow> int \<Rightarrow> int option \<Rightarrow> emitter" where
  "newRunEventEmitter owner run conv = \<lparr>em_ownerID = owner, em_runID = run, em_conversationID = conv,
     em_onUsage = True, em_assistant = [], em_reasoning = [], em_plan = []\<rparr>"

definition payload_val :: "payload option \<Rightarrow> goval" where
  "payload_val p = (case p of None \<Rightarrow> VNull | Some m \<Rightarrow> VMap m)"

definition field :: "payload option \<Rightarrow> string \<Rightarrow> goval" where
  "field p k = (case p of None \<Rightarrow> VNull | Some m \<Rightarrow> (case map_of m k of Some v \<Rightarrow> v | None \<Rightarrow> VNull))"

fun as_string :: "goval \<Rightarrow> string" where
  "as_string (VStr s) = s"
| "as_string _ = []"

fun as_bool :: "goval \<Rightarrow> bool" where
  "as_bool (VBool b) = b"
| "as_bool _ = False"

section \<open>Projection of runtime events\<close>

definition stream_of :: "payload runtime_event \<Rightarrow> int option \<Rightarrow> string \<Rightarrow> string option \<Rightarrow> sevent" where
  "stream_of event conv kind data =
     \<lparr>ev_Version = 0, ev_RunID = re_RunID event, ev_ConversationID = conv, ev_Seq = 0, ev_Kind = kind,
      ev_CreatedAt = re_CreatedAt event, ev_Data = data, ev_Type = [], ev_Payload = None\<rparr>"

definition status_val :: "string \<Rightarrow> string \<Rightarrow> goval" where
  "status_val message level = VMap [(''message'', VStr message), (''level'', VStr level)]"

definition workspace_types :: "string list" where
  "workspace_types = [''workspace.created'', ''workspace.ready'', ''workspace.failed'', ''workspace.status_changed'',
     ''workspace.preserved'', ''workspace.cleaned'', ''git.status_changed'', ''git.commit_created'']"

definition project_step :: "payload option \<Rightarrow> (string \<times> goval) option" where
  "project_step p =
     (let stepType = as_string (field p ''type'');
          callID = as_string (field p ''tool_call_id'');
          toolName = as_string (field p ''tool_name'');
          segmentID = ''tool:'' @ callID
      in if stepType = ''tool_call''
         then Some (''tool.start'', VMap [(''call_id'', VStr callID), (''segment_id'', VStr segmentID), (''name'', VStr toolName),
                (''status'', VStr ''running'')])
         else if stepType = ''tool_result''
         then (let isError = as_bool (field p ''is_error'') in
               Some (if isError then ''tool.error'' else ''tool.complete'',
                 VMap [(''call_id'', VStr callID), (''segment_id'', VStr segmentID), (''name'', VStr toolName),
                   (''status'', VStr (if isError then ''failed'' else ''succeeded'')),
                   (''output'', field p ''content''), (''truncated'', field p ''compressed'')]))
         else if stepType = ''error''
         then Some (''status.update'', status_val (as_string (field p ''error'')) ''error'')
         else None)"

definition projection :: "payload runtime_event \<Rightarrow> (string \<times> goval) option" where
  "projection event =
     (let t = re_Type event in
      if t = ''agent_started'' then Some (''status.update'', status_val ''Agent started'' ''info'')
      else if t = ''agent_failed'' then Some (''status.update'', status_val ''Agent runtime failed'' ''error'')
      else if t = ''agent_finished'' then Some (''status.update'', status_val ''Agent runtime finished; finalizing'' ''info'')
      else if t = ''todo.updated'' then Some (''todo.updated'', payload_val (re_Payload event))
      else if t = ''request_user_input'' then Some (''request_user_input'', payload_val (re_Payload event))
      else if t = ''goal.updated'' then Some (''goal.updated'', payload_val (re_Payload event))
      else if t = ''agent_step'' then project_step (re_Payload event)
      else if t \<in> set workspace_types then Some (''workspace.update'', payload_val (re_Payload event))
      else None)"

definition projectRuntimeEvent ::
  "(goval \<Rightarrow> string option) \<Rightarrow> payload runtime_event \<Rightarrow> int option \<Rightarrow> sevent list" where
  "projectRuntimeEvent jm event conv =
     (case projection event of None \<Rightarrow> [] | Some (kind, data) \<Rightarrow> [stream_of event conv kind (jm data)])"

section \<open>The lane\<close>

fun prepare_all :: "('h \<Rightarrow> 'e \<Rightarrow> 'e \<times> 'h) \<Rightarrow> 'h \<Rightarrow> 'e list \<Rightarrow> 'e list \<times> 'h" where
  "prepare_all prep h [] = ([], h)"
| "prepare_all prep h (e # es) =
     (case prep h e of (e', h') \<Rightarrow> case prepare_all prep h' es of (es', h'') \<Rightarrow> (e' # es', h''))"

fun publish_each :: "('h \<Rightarrow> 'e \<Rightarrow> 'h option) \<Rightarrow> 'h \<Rightarrow> 'e list \<Rightarrow> 'h option" where
  "publish_each pub h [] = Some h"
| "publish_each pub h (e # es) = Option.bind (pub h e) (\<lambda>h'. publish_each pub h' es)"

abbreviation hub_marshal :: "(goval \<Rightarrow> string option) \<Rightarrow> payload \<Rightarrow> string option" where
  "hub_marshal jm \<equiv> (\<lambda>p. jm (VMap p))"

abbreviation hub_prepare :: "(goval \<Rightarrow> string option) \<Rightarrow> gotime \<Rightarrow> int \<Rightarrow> shub \<Rightarrow> sevent \<Rightarrow> sevent \<times> shub" where
  "hub_prepare jm now r \<equiv> (\<lambda>h e. Prepare (hub_marshal jm) now h r e)"

abbreviation hub_publish :: "(goval \<Rightarrow> string option) \<Rightarrow> gotime \<Rightarrow> shub \<Rightarrow> sevent \<Rightarrow> shub option" where
  "hub_publish jm now \<equiv> (\<lambda>h e. PublishPrepared (hub_marshal jm) now h e)"

definition em_prepare ::
  "(goval \<Rightarrow> string option) \<Rightarrow> gotime \<Rightarrow> emitter \<Rightarrow> shub option \<Rightarrow> sevent list \<Rightarrow> sevent list \<times> shub option" where
  "em_prepare jm now e hub events =
     (case hub of
        None \<Rightarrow> ([], None)
      | Some h \<Rightarrow>
          if events = [] then ([], Some h)
          else (case prepare_all (hub_prepare jm now (em_runID e)) h events of (ps, h') \<Rightarrow> (ps, Some h')))"

definition em_publish ::
  "(goval \<Rightarrow> string option) \<Rightarrow> gotime \<Rightarrow> shub option \<Rightarrow> sevent list \<Rightarrow> shub option option" where
  "em_publish jm now hub events =
     (case hub of None \<Rightarrow> Some None | Some h \<Rightarrow> map_option Some (publish_each (hub_publish jm now) h events))"

definition fill_event :: "emitter \<Rightarrow> gotime \<Rightarrow> payload runtime_event \<Rightarrow> payload runtime_event" where
  "fill_event e now event =
     (let event = (if re_RunID event = 0 then event\<lparr>re_RunID := em_runID e\<rparr> else event)
      in if re_CreatedAt event = 0 then event\<lparr>re_CreatedAt := now\<rparr> else event)"

definition audit_row :: "(goval \<Rightarrow> string option) \<Rightarrow> emitter \<Rightarrow> payload runtime_event \<Rightarrow> run_event_row" where
  "audit_row jm e event =
     \<lparr>row_OwnerID = em_ownerID e, row_CreatedAt = re_CreatedAt event, row_RunID = re_RunID event,
      row_EventType = re_Type event, row_PayloadJSON = jm (payload_val (re_Payload event))\<rparr>"

text \<open>\<^verbatim>\<open>Emit\<close>: the error, the hub and the database afterwards; no value if the publication does not
  return.\<close>

definition Emit ::
  "(goval \<Rightarrow> string option) \<Rightarrow> ('d \<Rightarrow> run_event_row \<Rightarrow> string + 'd) \<Rightarrow> gotime \<Rightarrow> emitter \<Rightarrow> shub option \<Rightarrow> 'd \<Rightarrow>
     payload runtime_event \<Rightarrow> (string option \<times> shub option \<times> 'd) option" where
  "Emit jm create now e hub db event =
     (let event = fill_event e now event in
      case em_prepare jm now e hub (projectRuntimeEvent jm event (em_conversationID e)) of (projected, hub) \<Rightarrow>
        (case create db (audit_row jm e event) of
           Inl err \<Rightarrow> Some (Some err, hub, db)
         | Inr db' \<Rightarrow> map_option (\<lambda>hub'. (None, hub', db')) (em_publish jm now hub projected)))"

definition live_event :: "emitter \<Rightarrow> string \<Rightarrow> string option \<Rightarrow> sevent" where
  "live_event e kind data =
     \<lparr>ev_Version = 0, ev_RunID = em_runID e, ev_ConversationID = em_conversationID e, ev_Seq = 0, ev_Kind = kind,
      ev_CreatedAt = 0, ev_Data = data, ev_Type = [], ev_Payload = None\<rparr>"

definition segment_id :: "string \<Rightarrow> int \<Rightarrow> u64 \<Rightarrow> string" where
  "segment_id pre run n = pre @ '':'' @ itoa run @ '':'' @ itoa (int (unat n))"

definition segment_val :: "string \<Rightarrow> goval" where
  "segment_val sid = VMap [(''segment_id'', VStr sid)]"

definition text_val :: "string \<Rightarrow> string \<Rightarrow> goval" where
  "text_val sid t = VMap [(''segment_id'', VStr sid), (''text'', VStr t)]"

definition usage_val :: "usage \<Rightarrow> goval" where
  "usage_val u = VMap ([(''prompt_tokens'', VInt (PromptTokens u)), (''completion_tokens'', VInt (CompletionTokens u)),
     (''total_tokens'', VInt (TotalTokens u))]
     @ (if CachedInputTokens u = 0 then [] else [(''cached_input_tokens'', VInt (CachedInputTokens u))])
     @ (if ReasoningTokens u = 0 then [] else [(''reasoning_tokens'', VInt (ReasoningTokens u))]))"

definition publishSegmentStart ::
  "(goval \<Rightarrow> string option) \<Rightarrow> gotime \<Rightarrow> emitter \<Rightarrow> shub \<Rightarrow> string \<Rightarrow> string \<Rightarrow> (string \<times> shub) option" where
  "publishSegmentStart jm now e h kind pre =
     (case hub_prepare jm now (em_runID e) h (live_event e kind None) of (p, h) \<Rightarrow>
        let sid = segment_id pre (em_runID e) (ev_Seq p) in
        map_option (\<lambda>h'. (sid, h')) (hub_publish jm now h (p\<lparr>ev_Data := jm (segment_val sid)\<rparr>)))"

definition publishData ::
  "(goval \<Rightarrow> string option) \<Rightarrow> gotime \<Rightarrow> emitter \<Rightarrow> shub \<Rightarrow> string \<Rightarrow> goval \<Rightarrow> shub option" where
  "publishData jm now e h kind data =
     (case hub_prepare jm now (em_runID e) h (live_event e kind (jm data)) of (p, h) \<Rightarrow> hub_publish jm now h p)"

text \<open>A text, reasoning or plan fragment: the segment is started if none is open.\<close>

definition delta_segment ::
  "(goval \<Rightarrow> string option) \<Rightarrow> gotime \<Rightarrow> emitter \<Rightarrow> shub \<Rightarrow> string \<Rightarrow> string \<Rightarrow> string \<Rightarrow> string \<Rightarrow> string \<Rightarrow>
     (string \<times> shub) option" where
  "delta_segment jm now e h seg start pre delta t =
     Option.bind (if seg = [] then publishSegmentStart jm now e h start pre else Some (seg, h))
       (\<lambda>(seg, h). map_option (\<lambda>h'. (seg, h')) (publishData jm now e h delta (text_val seg t)))"

definition emit_model ::
  "(goval \<Rightarrow> string option) \<Rightarrow> gotime \<Rightarrow> emitter \<Rightarrow> shub \<Rightarrow> model_event \<Rightarrow> (emitter \<times> shub) option" where
  "emit_model jm now e h me =
     (case me_Kind me of
        ModelTextStart \<Rightarrow>
          map_option (\<lambda>(s, h). (e\<lparr>em_assistant := s\<rparr>, h)) (publishSegmentStart jm now e h ''assistant.start'' ''assistant'')
      | ModelTextDelta \<Rightarrow>
          map_option (\<lambda>(s, h). (e\<lparr>em_assistant := s\<rparr>, h))
            (delta_segment jm now e h (em_assistant e) ''assistant.start'' ''assistant'' ''assistant.delta'' (me_Text me))
      | ModelTextEnd \<Rightarrow>
          if em_assistant e = [] then Some (e, h)
          else map_option (\<lambda>h. (e\<lparr>em_assistant := []\<rparr>, h))
                 (publishData jm now e h ''assistant.end'' (segment_val (em_assistant e)))
      | ModelReasoningStart \<Rightarrow>
          map_option (\<lambda>(s, h). (e\<lparr>em_reasoning := s\<rparr>, h)) (publishSegmentStart jm now e h ''reasoning.start'' ''reasoning'')
      | ModelReasoningDelta \<Rightarrow>
          map_option (\<lambda>(s, h). (e\<lparr>em_reasoning := s\<rparr>, h))
            (delta_segment jm now e h (em_reasoning e) ''reasoning.start'' ''reasoning'' ''reasoning.delta'' (me_Text me))
      | ModelReasoningEnd \<Rightarrow>
          if em_reasoning e = [] then Some (e, h)
          else map_option (\<lambda>h. (e\<lparr>em_reasoning := []\<rparr>, h))
                 (publishData jm now e h ''reasoning.end'' (segment_val (em_reasoning e)))
      | ModelProposedPlanStart \<Rightarrow>
          if em_plan e = []
          then map_option (\<lambda>(s, h). (e\<lparr>em_plan := s\<rparr>, h)) (publishSegmentStart jm now e h ''plan.start'' ''plan'')
          else Some (e, h)
      | ModelProposedPlanDelta \<Rightarrow>
          map_option (\<lambda>(s, h). (e\<lparr>em_plan := s\<rparr>, h))
            (delta_segment jm now e h (em_plan e) ''plan.start'' ''plan'' ''plan.delta'' (me_Text me))
      | ModelProposedPlanEnd \<Rightarrow>
          if em_plan e = [] then Some (e, h)
          else map_option (\<lambda>h. (e, h)) (publishData jm now e h ''plan.end'' (segment_val (em_plan e)))
      | ModelUsage \<Rightarrow> map_option (\<lambda>h. (e, h)) (publishData jm now e h ''usage.update'' (usage_val (me_Usage me)))
      | ModelError \<Rightarrow>
          map_option (\<lambda>h. (e, h)) (publishData jm now e h ''status.update''
            (status_val (case me_Err me of Some m \<Rightarrow> m | None \<Rightarrow> ''model stream failed'') ''error''))
      | _ \<Rightarrow> Some (e, h))"

definition EmitModelEvent ::
  "(goval \<Rightarrow> string option) \<Rightarrow> gotime \<Rightarrow> emitter \<Rightarrow> shub option \<Rightarrow> model_event \<Rightarrow>
     ((int \<times> usage) list \<times> emitter \<times> shub option) option" where
  "EmitModelEvent jm now e hub me =
     (let calls = (if me_Kind me = ModelUsage \<and> em_onUsage e then [(em_runID e, me_Usage me)] else []) in
      case hub of
        None \<Rightarrow> Some (calls, e, None)
      | Some h \<Rightarrow> map_option (\<lambda>(e', h'). (calls, e', Some h')) (emit_model jm now e h me))"

section \<open>Publications outside the lane\<close>

text \<open>\<^verbatim>\<open>SubscribeRunStream\<close>: the run must be the caller's (\<open>run_err\<close> is the error of \<^verbatim>\<open>GetRun\<close>).\<close>

definition ErrRunStreamUnavailable :: string where
  "ErrRunStreamUnavailable = ''run event stream is not configured''"

definition SubscribeRunStream ::
  "(goval \<Rightarrow> string option) \<Rightarrow> gotime \<Rightarrow> string option \<Rightarrow> shub option \<Rightarrow> int \<Rightarrow> u64 \<Rightarrow>
     string + (payload subscription \<times> shub)" where
  "SubscribeRunStream jm now run_err hub runID afterSeq =
     (case run_err of
        Some err \<Rightarrow> Inl err
      | None \<Rightarrow> (case hub of None \<Rightarrow> Inl ErrRunStreamUnavailable
                | Some h \<Rightarrow> Inr (Subscribe (hub_marshal jm) now h runID afterSeq)))"

definition outside_event :: "int \<Rightarrow> int option \<Rightarrow> string \<Rightarrow> string option \<Rightarrow> sevent" where
  "outside_event runID conv kind data =
     \<lparr>ev_Version = 0, ev_RunID = runID, ev_ConversationID = conv, ev_Seq = 0, ev_Kind = kind,
      ev_CreatedAt = 0, ev_Data = data, ev_Type = [], ev_Payload = None\<rparr>"

text \<open>\<open>data\<close> is the JSON of the approval request.\<close>

definition publishApprovalRequired ::
  "(goval \<Rightarrow> string option) \<Rightarrow> gotime \<Rightarrow> shub option \<Rightarrow> int \<Rightarrow> int option \<Rightarrow> string option \<Rightarrow> shub option option" where
  "publishApprovalRequired jm now hub runID conv data =
     (case hub of
        None \<Rightarrow> Some None
      | Some h \<Rightarrow>
          (case hub_prepare jm now runID h (outside_event runID conv ''approval.required'' data) of (p, h) \<Rightarrow>
             map_option Some (hub_publish jm now h p)))"

definition snapshot_kind :: "string \<Rightarrow> string option" where
  "snapshot_kind status =
     (if status = ''succeeded'' then Some RunComplete
      else if status = ''failed'' \<or> status = ''timeout'' then Some RunFailed
      else if status = ''cancelled'' then Some RunCancelled
      else if status = ''waiting_human'' then Some RunWaiting
      else if status = ''paused'' then Some RunPaused
      else None)"

definition finished_status :: "string \<Rightarrow> bool" where
  "finished_status status \<longleftrightarrow> status = ''succeeded'' \<or> status = ''failed'' \<or> status = ''cancelled'' \<or> status = ''timeout''"

text \<open>\<open>data\<close> is the JSON of the terminal snapshot.\<close>

definition publishRunSnapshot ::
  "(goval \<Rightarrow> string option) \<Rightarrow> gotime \<Rightarrow> shub option \<Rightarrow> int \<Rightarrow> int option \<Rightarrow> string \<Rightarrow> string option \<Rightarrow> shub option option" where
  "publishRunSnapshot jm now hub runID conv status data =
     (case hub of
        None \<Rightarrow> Some None
      | Some h \<Rightarrow>
          (case snapshot_kind status of
             None \<Rightarrow> Some (Some h)
           | Some kind \<Rightarrow>
               (case hub_prepare jm now runID h (outside_event runID conv kind data) of (p, h) \<Rightarrow>
                  map_option Some (if finished_status status then CloseRun (hub_marshal jm) now h runID p else hub_publish jm now h p))))"

end
