(* ===== verification/Run_Publisher_Props.thy ===== *)
theory Run_Publisher_Props
  imports Run_Publisher
begin

text \<open>
  The contract between the publication lane and the hub, the lane's guarantees proved from the
  contract alone, and the memory hub as an instance: audit before publication, nothing published when
  the audit fails, model segments published exactly as specified and well-formed.
\<close>

section \<open>The contract of a hub\<close>

text \<open>A hub numbers events and publishes them. \<open>history h es\<close>: the events published so far are \<open>es\<close>;
  \<open>next_no\<close> is the next number to be reserved, \<open>last_no\<close> the last one published; \<open>limit\<close> bounds the
  numbers; \<open>norm\<close> is the form an event is published in.\<close>

locale sequenced_hub =
  fixes prepare :: "'h \<Rightarrow> 'e \<Rightarrow> 'e \<times> 'h"
    and publish :: "'h \<Rightarrow> 'e \<Rightarrow> 'h option"
    and history :: "'h \<Rightarrow> 'e list \<Rightarrow> bool"
    and ready :: "'h \<Rightarrow> bool"
    and number :: "'e \<Rightarrow> nat"
    and next_no :: "'h \<Rightarrow> nat"
    and last_no :: "'h \<Rightarrow> nat"
    and limit :: nat
    and plain :: "'e \<Rightarrow> bool"
    and norm :: "'e \<Rightarrow> 'e"
  assumes prepare_law: "history h es \<Longrightarrow> ready h \<Longrightarrow> plain e \<Longrightarrow> next_no h < limit \<Longrightarrow> prepare h e = (e', h') \<Longrightarrow>
      history h' es \<and> ready h' \<and> plain e' \<and> number e' = next_no h \<and> next_no h' = Suc (next_no h) \<and> last_no h' = last_no h"
    and publish_law: "history h es \<Longrightarrow> ready h \<Longrightarrow> plain e \<Longrightarrow> last_no h < number e \<Longrightarrow> number e < next_no h \<Longrightarrow> next_no h \<le> limit \<Longrightarrow>
      \<exists>h'. publish h e = Some h' \<and> history h' (es @ [norm e]) \<and> ready h' \<and> last_no h' = number e \<and> next_no h' = next_no h"
    and numbers: "history h es \<Longrightarrow> ready h \<Longrightarrow> last_no h < next_no h"
begin

lemma prepare_all_law:
  assumes "history h es" "ready h" "\<forall>x\<in>set xs. plain x" "next_no h + length xs \<le> limit" "prepare_all prepare h xs = (ps, h')"
  shows "history h' es \<and> ready h' \<and> (\<forall>x\<in>set ps. plain x) \<and> map number ps = [next_no h..<next_no h + length xs] \<and>
    next_no h' = next_no h + length xs \<and> last_no h' = last_no h"
  using assms
proof (induction xs arbitrary: h ps)
  case (Cons x xs)
  obtain p h1 where p: "prepare h x = (p, h1)" by fastforce
  obtain qs h2 where q: "prepare_all prepare h1 xs = (qs, h2)" by fastforce
  have law: "history h1 es \<and> ready h1 \<and> plain p \<and> number p = next_no h \<and> next_no h1 = Suc (next_no h) \<and> last_no h1 = last_no h"
    using prepare_law [OF Cons.prems(1,2) _ _ p] Cons.prems(3,4) by simp
  moreover have "ps = p # qs" "h' = h2" using Cons.prems(5) p q by auto
  moreover have "[next_no h..<next_no h + length (x # xs)] = next_no h # [Suc (next_no h)..<Suc (next_no h) + length xs]"
    by (subst upt_conv_Cons) simp_all
  ultimately show ?case using Cons.IH [of h1 qs] Cons.prems(3,4) q by auto
qed simp

lemma publish_each_law:
  assumes "history h es" "ready h" "\<forall>x\<in>set ps. plain x" "sorted_wrt (<) (map number ps)"
    "\<forall>x\<in>set ps. last_no h < number x \<and> number x < next_no h" "next_no h \<le> limit"
  shows "\<exists>h'. publish_each publish h ps = Some h' \<and> history h' (es @ map norm ps) \<and> ready h' \<and> next_no h' = next_no h"
  using assms
proof (induction ps arbitrary: h es)
  case (Cons p ps)
  obtain h1 where h1: "publish h p = Some h1" "history h1 (es @ [norm p])" "ready h1" "last_no h1 = number p" "next_no h1 = next_no h"
    using publish_law [of h es p] Cons.prems by auto
  with Cons.IH [of h1 "es @ [norm p]"] Cons.prems show ?case by auto
qed simp

text \<open>Reserving numbers for a batch and publishing the batch.\<close>

lemma batch_law:
  assumes "history h es" "ready h" "\<forall>x\<in>set xs. plain x" "next_no h + length xs \<le> limit" "prepare_all prepare h xs = (ps, h1)"
  shows "\<exists>h'. publish_each publish h1 ps = Some h' \<and> history h' (es @ map norm ps) \<and> ready h' \<and> next_no h' = next_no h + length xs"
proof -
  note p = prepare_all_law [OF assms]
  have "sorted_wrt (<) (map number ps)" using p by simp
  moreover have "last_no h1 < number x \<and> number x < next_no h1" if "x \<in> set ps" for x
  proof -
    have "number x \<in> set (map number ps)" using that by simp
    then show ?thesis using p numbers [OF assms(1,2)] by auto
  qed
  ultimately show ?thesis using publish_each_law [of h1 es ps] p assms(4) by auto
qed

text \<open>A single event, possibly edited between its preparation and its publication.\<close>

lemma single_law:
  assumes "history h es" "ready h" "plain x" "next_no h < limit" "prepare h x = (p, h1)"
    and "plain q" "number q = number p"
  shows "\<exists>h'. publish h1 q = Some h' \<and> history h' (es @ [norm q]) \<and> ready h' \<and> next_no h' = Suc (next_no h)"
  using prepare_law [OF assms(1-5)] publish_law [of h1 es q] numbers [OF assms(1,2)] assms(4,6,7) by fastforce

end

section \<open>The memory hub as an instance\<close>

definition plain_event :: "int \<Rightarrow> 'p stream_event \<Rightarrow> bool" where
  "plain_event r e \<longleftrightarrow> ev_RunID e = r \<and> ev_Kind e \<noteq> [] \<and> \<not> isTerminalKind (ev_Kind e)"

definition run_open :: "int \<Rightarrow> 'p memory_hub \<Rightarrow> bool" where
  "run_open r h \<longleftrightarrow> r \<noteq> 0 \<and> \<not> rs_closed (run_of h r)"

definition event_no :: "'p stream_event \<Rightarrow> nat" where
  "event_no e = unat (ev_Seq e)"

definition next_of :: "int \<Rightarrow> 'p memory_hub \<Rightarrow> nat" where
  "next_of r h = unat (rs_nextSeq (run_of h r))"

definition last_of :: "int \<Rightarrow> 'p memory_hub \<Rightarrow> nat" where
  "last_of r h = unat (rs_lastPublished (run_of h r))"

definition seq_limit :: nat where
  "seq_limit = 2 ^ 64 - 2"

definition stored :: "('p \<Rightarrow> string option) \<Rightarrow> gotime \<Rightarrow> int \<Rightarrow> 'p stream_event \<Rightarrow> 'p stream_event" where
  "stored marshal now r e = cloneEvent (normalizeEvent marshal e r now)"

lemma u64_limit: "unat (n::u64) \<le> seq_limit \<Longrightarrow> n \<noteq> - 1"
  by (auto simp: seq_limit_def unsigned_minus_1_eq_mask mask_eq_exp_minus_1)

lemma unat_Suc64: "unat n < seq_limit \<Longrightarrow> unat (n + 1 :: u64) = Suc (unat n)"
  by (simp add: unat_word_ariths seq_limit_def)

lemma normalize_plain:
  assumes "ev_Kind e \<noteq> []" "ev_RunID e = r" "r \<noteq> 0"
  shows "ev_Kind (normalizeEvent m e r' now) = ev_Kind e" "ev_RunID (normalizeEvent m e r' now) = r"
  using assms by (simp_all add: normalizeEvent_def Let_def split: option.split)

lemma hub_prepare_law:
  assumes "hub_trace marshal r h es" "run_open r h" "plain_event r e" "next_of r h < seq_limit"
    "Prepare marshal now h r e = (e', h')"
  shows "hub_trace marshal r h' es \<and> run_open r h' \<and> plain_event r e' \<and> event_no e' = next_of r h \<and>
    next_of r h' = Suc (next_of r h) \<and> last_of r h' = last_of r h"
proof -
  have r: "r \<noteq> 0" and opn: "\<not> rs_closed (run_of h r)" using assms(2) by (simp_all add: run_open_def)
  have inv: "hub_inv h" using hub_trace_ring [OF assms(1) r] by simp
  have wrap: "rs_nextSeq (run_of h r) \<noteq> - 1" using assms(4) by (simp add: next_of_def u64_limit)
  have lim: "unat (rs_nextSeq (run_of h r)) < seq_limit" using assms(4) by (simp add: next_of_def)
  have "rs_lastPublished (run_of h r) < rs_nextSeq (run_of h r)" using run_of_inv(1) [OF inv, of r] by (simp add: run_inv_def)
  then have nz: "rs_nextSeq (run_of h r) \<noteq> 0" by auto
  obtain h1 where h1: "getRun h r True = Some (h1, run_of h r)" using getRun_create [OF inv r] by metis
  have e': "e' = cloneEvent ((normalizeEvent marshal e r now)\<lparr>ev_Seq := rs_nextSeq (run_of h r)\<rparr>)"
    and h': "h' = putRun h1 r (hub_heap h1) ((run_of h r)\<lparr>rs_nextSeq := rs_nextSeq (run_of h r) + 1\<rparr>)"
    using assms(5) h1 opn nz by (auto simp: Prepare_def prepare_locked_def next_seq_def Let_def)
  have "hub_trace marshal r h' es"
    using hub_trace.step [OF assms(1), of "Op_Prepare r e" now h'] wrap assms(5) by simp
  moreover have "plain_event r e'"
    using assms(3) r normalize_plain [of e r marshal r now] by (simp add: plain_event_def e')
  ultimately show ?thesis
    using r opn unat_Suc64 [OF lim] by (simp add: run_open_def event_no_def next_of_def last_of_def e' h')
qed

lemma hub_publish_law:
  assumes "hub_trace marshal r h es" "run_open r h" "plain_event r e" "last_of r h < event_no e" "event_no e < next_of r h"
    "next_of r h \<le> seq_limit"
  shows "\<exists>h'. PublishPrepared marshal now h e = Some h' \<and> hub_trace marshal r h' (es @ [stored marshal now r e]) \<and>
    run_open r h' \<and> last_of r h' = event_no e \<and> next_of r h' = next_of r h"
proof -
  have r: "r \<noteq> 0" and opn: "\<not> rs_closed (run_of h r)" using assms(2) by (simp_all add: run_open_def)
  have e: "ev_RunID e = r" "ev_Kind e \<noteq> []" "\<not> isTerminalKind (ev_Kind e)" using assms(3) by (simp_all add: plain_event_def)
  have inv: "hub_inv h" using hub_trace_ring [OF assms(1) r] by simp
  have lt: "rs_lastPublished (run_of h r) < ev_Seq e" "ev_Seq e < rs_nextSeq (run_of h r)"
    using assms(4,5) by (simp_all add: last_of_def event_no_def next_of_def word_less_nat_alt)
  have nz: "ev_Seq e \<noteq> 0" using lt(1) by auto
  have ok: "op_ok h (Op_Publish e)"
    using u64_limit [of "rs_nextSeq (run_of h r)"] u64_limit [of "ev_Seq e"] assms(5,6) e(1) by (simp add: next_of_def event_no_def)
  have acc: "accepted marshal (ev_RunID e) now (run_of h (ev_RunID e)) e = Some (stored marshal now r e)"
    using opn nz lt(1) e(1) by (simp add: accepted_def stored_def Let_def not_le)
  have "\<not> is_term (stored marshal now r e)"
    using e r normalize_plain(1) [of e r marshal r now] by (simp add: is_term_def stored_def)
  then have div: "\<not> ring_diverges (hub_config h) (run_of h (ev_RunID e)) (stored marshal now r e)"
    by (rule transient_never_diverges [OF run_of_inv(1) [OF inv]])
  from inv ok _ acc div show ?thesis
  proof (rule publish_prepared_exact)
    show "ev_RunID e \<noteq> 0" using e(1) r by simp
    fix h1 heap' st' P
    assume pub: "PublishPrepared marshal now h e = Some (putRun h1 (ev_RunID e) heap' st')"
      and st': "st' = (published (hub_config h) (run_of h (ev_RunID e)) (stored marshal now r e))
        \<lparr>rs_subscribers := filter P (rs_subscribers (run_of h (ev_RunID e)))\<rparr>"
    have "hub_trace marshal r (putRun h1 r heap' st') (es @ [stored marshal now r e])"
      using hub_trace.step [OF assms(1) ok, of now "putRun h1 r heap' st'"] pub acc e(1) r by simp
    moreover have "rs_nextSeq st' = rs_nextSeq (run_of h r)" "rs_lastPublished st' = ev_Seq e" "rs_closed st' = rs_closed (run_of h r)"
      using lt(2) e(1) by (auto simp: st' published_def commit_event_def stored_def dest: leD)
    ultimately show ?thesis
      using pub e(1) r opn by (simp add: run_open_def last_of_def next_of_def event_no_def)
  qed
qed

interpretation mh: sequenced_hub "\<lambda>h e. Prepare marshal now h r e" "\<lambda>h e. PublishPrepared marshal now h e"
  "hub_trace marshal r" "run_open r" event_no "next_of r" "last_of r" seq_limit "plain_event r" "stored marshal now r"
  for marshal :: "'p \<Rightarrow> string option" and now r
proof
  show "last_of r h < next_of r h" if "hub_trace marshal r h es" "run_open r h" for h :: "'p memory_hub" and es
  proof -
    have "hub_inv h" using hub_trace_ring [OF that(1)] that(2) by (simp add: run_open_def)
    from run_of_inv(1) [OF this, of r] show ?thesis by (simp add: run_inv_def last_of_def next_of_def word_less_nat_alt)
  qed
qed (use hub_prepare_law hub_publish_law in blast)+

section \<open>Runtime events\<close>

lemma projection_plain:
  assumes "projection ev = Some (kind, data)"
  shows "kind \<noteq> [] \<and> \<not> isTerminalKind kind"
proof -
  have "kind \<in> {''status.update'', ''todo.updated'', ''request_user_input'', ''goal.updated'', ''tool.start'',
      ''tool.error'', ''tool.complete'', ''workspace.update''}"
    using assms by (auto simp: projection_def project_step_def Let_def split: if_splits)
  then show ?thesis
    by (auto simp: isTerminalKind_def terminal_kinds_def RunComplete_def RunFailed_def RunPaused_def
        RunWaiting_def RunCancelled_def LegacyAgentFinished_def LegacyAgentFailed_def)
qed

definition clean :: "string option \<Rightarrow> string option" where
  "clean d = (if d = Some [] then None else d)"

definition shown :: "'p stream_event list \<Rightarrow> (string \<times> string option) list" where
  "shown es = map (\<lambda>e. (ev_Kind e, ev_Data e)) es"

lemma stored_shown:
  assumes "ev_Payload e = None" "ev_Kind e \<noteq> []"
  shows "ev_Kind (stored m now r e) = ev_Kind e" "ev_Data (stored m now r e) = clean (ev_Data e)"
  using assms by (auto simp: stored_def normalizeEvent_def cloneEvent_def clean_def Let_def split: option.split)

lemma Prepare_shown:
  assumes "ev_Payload e = None" "ev_Kind e \<noteq> []" "run_open r h" "hub_trace m r h hist" "Prepare m now h r e = (p, h')"
  shows "ev_Payload p = None" "ev_Kind p = ev_Kind e" "ev_Data p = clean (ev_Data e)"
proof -
  have r: "r \<noteq> 0" "\<not> rs_closed (run_of h r)" using assms(3) by (simp_all add: run_open_def)
  have "hub_inv h" using hub_trace_ring [OF assms(4) r(1)] by simp
  then obtain h1 where "getRun h r True = Some (h1, run_of h r)" using getRun_create r(1) by metis
  then obtain n where p: "p = cloneEvent ((normalizeEvent m e r now)\<lparr>ev_Seq := n\<rparr>)"
    using assms(5) r(2) by (auto simp: Prepare_def prepare_locked_def next_seq_def Let_def)
  have n: "ev_Payload (normalizeEvent m e r now) = None" "ev_Kind (normalizeEvent m e r now) = ev_Kind e"
    "ev_Data (normalizeEvent m e r now) = ev_Data e"
    using assms(1,2) by (simp_all add: normalizeEvent_def Let_def split: option.split)
  show "ev_Payload p = None" "ev_Kind p = ev_Kind e" "ev_Data p = clean (ev_Data e)"
    by (simp_all add: p n cloneEvent_def clean_def)
qed

lemma clean_idem [simp]: "clean (clean d) = clean d"
  by (simp add: clean_def)

text \<open>C24: Audit before publication. On an open run of the hub, \<^verbatim>\<open>Emit\<close> of a runtime event of the run
  always returns. If appending the audit row fails, the error is returned and nothing is published
  (only numbers may be skipped); otherwise the row is in the database and the projection of the
  event, nothing else, is the newest part of the run's published history.\<close>

theorem emit_audit_first:
  fixes create :: "'d \<Rightarrow> run_event_row \<Rightarrow> string + 'd"
  assumes "hub_trace (hub_marshal jm) (em_runID e) h hist" "run_open (em_runID e) h"
    and "re_RunID event \<in> {0, em_runID e}" "next_of (em_runID e) h < seq_limit"
  shows "case create db (audit_row jm e (fill_event e now event)) of
      Inl err \<Rightarrow> \<exists>h'. Emit jm create now e (Some h) db event = Some (Some err, Some h', db) \<and>
        hub_trace (hub_marshal jm) (em_runID e) h' hist
    | Inr db' \<Rightarrow> \<exists>h' ps. Emit jm create now e (Some h) db event = Some (None, Some h', db') \<and>
        hub_trace (hub_marshal jm) (em_runID e) h' (hist @ ps) \<and>
        shown ps = (case projection (fill_event e now event) of None \<Rightarrow> [] | Some (k, d) \<Rightarrow> [(k, clean (jm d))])"
proof (cases "projection (fill_event e now event)")
  case None
  then have "em_prepare jm now e (Some h) (projectRuntimeEvent jm (fill_event e now event) (em_conversationID e)) = ([], Some h)"
    by (simp add: em_prepare_def projectRuntimeEvent_def)
  with None assms(1) show ?thesis
    by (auto simp: Emit_def em_publish_def shown_def Let_def split: sum.split intro!: exI [of _ "[]"])
next
  case (Some p)
  obtain k d where p: "p = (k, d)" by (cases p)
  let ?r = "em_runID e" and ?m = "hub_marshal jm"
  let ?s = "stream_of (fill_event e now event) (em_conversationID e) k (jm d)"
  have rid: "re_RunID (fill_event e now event) = ?r" using assms(3) by (auto simp: fill_event_def Let_def)
  have kind: "k \<noteq> []" "\<not> isTerminalKind k" using projection_plain Some p by auto
  have plain: "plain_event ?r ?s" using rid kind by (simp add: plain_event_def stream_of_def)
  obtain q h1 where q: "Prepare ?m now h ?r ?s = (q, h1)" by fastforce
  note prep = mh.prepare_law [OF assms(1,2) plain assms(4) q]
  have em: "em_prepare jm now e (Some h) (projectRuntimeEvent jm (fill_event e now event) (em_conversationID e)) = ([q], Some h1)"
    using Some p q by (simp add: em_prepare_def projectRuntimeEvent_def)
  obtain h2 where h2: "PublishPrepared ?m now h1 q = Some h2" "hub_trace ?m ?r h2 (hist @ [stored ?m now ?r q])"
    using mh.single_law [OF assms(1,2) plain assms(4) q, of q] prep by blast
  have "ev_Payload q = None" "ev_Kind q = k" "ev_Data q = clean (jm d)"
    using Prepare_shown [of ?s ?r h ?m hist now q h1] kind(1) assms(1,2) q by (simp_all add: stream_of_def)
  then have "shown [stored ?m now ?r q] = [(k, clean (jm d))]"
    using kind(1) by (simp add: shown_def stored_shown)
  with em h2 prep Some p show ?thesis
    by (auto simp: Emit_def em_publish_def Let_def split: sum.split)
qed

lemma fresh_hub_open: "r \<noteq> 0 \<Longrightarrow> run_open r (NewMemoryHub c)" "next_of r (NewMemoryHub c) = 1"
  by (simp_all add: run_open_def next_of_def run_of_def NewMemoryHub_def newRunState_def)

definition ex_started :: "payload runtime_event" where
  "ex_started = \<lparr>re_Type = ''agent_started'', re_RunID = 0, re_Payload = None, re_CreatedAt = 5\<rparr>"

definition ex_shub :: shub where
  "ex_shub = NewMemoryHub \<lparr>cfg_MaxEvents = 0, cfg_MaxBytes = 0, cfg_TerminalRetention = 0, cfg_SubscriberBuffer = 0,
     cfg_SnapshotProvider = None\<rparr>"

abbreviation ex_emitter :: emitter where
  "ex_emitter \<equiv> newRunEventEmitter 1 7 None"

lemma ex_lane: "hub_trace (hub_marshal jm) (em_runID ex_emitter) ex_shub []" "run_open (em_runID ex_emitter) ex_shub"
  "next_of (em_runID ex_emitter) ex_shub = 1" "rs_nextSeq (run_of ex_shub 7) = 1"
proof -
  show "hub_trace (hub_marshal jm) (em_runID ex_emitter) ex_shub []" unfolding ex_shub_def by (rule hub_trace.start)
qed (simp_all add: ex_shub_def newRunEventEmitter_def run_open_def next_of_def run_of_def NewMemoryHub_def newRunState_def)

theorem emit_audit_first_witness:
  "\<exists>h' ps. Emit (\<lambda>_. Some ''{}'') (\<lambda>db row. Inr (row # db)) 5 ex_emitter (Some ex_shub) [] ex_started =
      Some (None, Some h', [audit_row (\<lambda>_. Some ''{}'') ex_emitter (fill_event ex_emitter 5 ex_started)]) \<and>
     hub_trace (\<lambda>_. Some ''{}'') (em_runID ex_emitter) h' ps \<and> shown ps = [(''status.update'', Some ''{}'')]"
proof -
  have proj: "projection (fill_event ex_emitter 5 ex_started) = Some (''status.update'', status_val ''Agent started'' ''info'')"
    by (simp add: projection_def fill_event_def ex_started_def)
  have pre: "re_RunID ex_started \<in> {0, em_runID ex_emitter}" "next_of (em_runID ex_emitter) ex_shub < seq_limit"
    by (simp_all add: ex_started_def ex_lane seq_limit_def)
  show ?thesis
    using emit_audit_first [OF ex_lane(1,2) pre, where create = "\<lambda>db row. Inr (row # db)" and db = "[]" and now = 5 and jm = "\<lambda>_. Some ''{}''"]
    by (auto simp: proj clean_def)
qed

section \<open>Model events\<close>

text \<open>What the lane publishes for a model event, as kinds and values: the specification of
  \<open>emit_model\<close>, with \<open>n\<close> the next number of the run.\<close>

definition start_out :: "emitter \<Rightarrow> u64 \<Rightarrow> string \<Rightarrow> string \<Rightarrow> (string \<times> goval) list \<times> string" where
  "start_out e n kind pre = (let sid = segment_id pre (em_runID e) n in ([(kind, segment_val sid)], sid))"

definition delta_out :: "emitter \<Rightarrow> u64 \<Rightarrow> string \<Rightarrow> string \<Rightarrow> string \<Rightarrow> string \<Rightarrow> string \<Rightarrow> (string \<times> goval) list \<times> string" where
  "delta_out e n seg start pre delta t =
     (if seg = [] then (case start_out e n start pre of (out, sid) \<Rightarrow> (out @ [(delta, text_val sid t)], sid))
      else ([(delta, text_val seg t)], seg))"

definition model_out :: "emitter \<Rightarrow> u64 \<Rightarrow> model_event \<Rightarrow> (string \<times> goval) list \<times> emitter" where
  "model_out e n me =
     (case me_Kind me of
        ModelTextStart \<Rightarrow> (case start_out e n ''assistant.start'' ''assistant'' of (out, s) \<Rightarrow> (out, e\<lparr>em_assistant := s\<rparr>))
      | ModelTextDelta \<Rightarrow>
          (case delta_out e n (em_assistant e) ''assistant.start'' ''assistant'' ''assistant.delta'' (me_Text me) of
             (out, s) \<Rightarrow> (out, e\<lparr>em_assistant := s\<rparr>))
      | ModelTextEnd \<Rightarrow>
          if em_assistant e = [] then ([], e)
          else ([(''assistant.end'', segment_val (em_assistant e))], e\<lparr>em_assistant := []\<rparr>)
      | ModelReasoningStart \<Rightarrow> (case start_out e n ''reasoning.start'' ''reasoning'' of (out, s) \<Rightarrow> (out, e\<lparr>em_reasoning := s\<rparr>))
      | ModelReasoningDelta \<Rightarrow>
          (case delta_out e n (em_reasoning e) ''reasoning.start'' ''reasoning'' ''reasoning.delta'' (me_Text me) of
             (out, s) \<Rightarrow> (out, e\<lparr>em_reasoning := s\<rparr>))
      | ModelReasoningEnd \<Rightarrow>
          if em_reasoning e = [] then ([], e)
          else ([(''reasoning.end'', segment_val (em_reasoning e))], e\<lparr>em_reasoning := []\<rparr>)
      | ModelProposedPlanStart \<Rightarrow>
          if em_plan e = [] then (case start_out e n ''plan.start'' ''plan'' of (out, s) \<Rightarrow> (out, e\<lparr>em_plan := s\<rparr>)) else ([], e)
      | ModelProposedPlanDelta \<Rightarrow>
          (case delta_out e n (em_plan e) ''plan.start'' ''plan'' ''plan.delta'' (me_Text me) of
             (out, s) \<Rightarrow> (out, e\<lparr>em_plan := s\<rparr>))
      | ModelProposedPlanEnd \<Rightarrow> (if em_plan e = [] then [] else [(''plan.end'', segment_val (em_plan e))], e)
      | ModelUsage \<Rightarrow> ([(''usage.update'', usage_val (me_Usage me))], e)
      | ModelError \<Rightarrow> ([(''status.update'', status_val (case me_Err me of Some m \<Rightarrow> m | None \<Rightarrow> ''model stream failed'') ''error'')], e)
      | _ \<Rightarrow> ([], e))"

definition published_as :: "(goval \<Rightarrow> string option) \<Rightarrow> (string \<times> goval) list \<Rightarrow> (string \<times> string option) list" where
  "published_as jm out = map (\<lambda>(k, v). (k, clean (jm v))) out"

text \<open>The hub after the outputs \<open>out\<close> have been published on it.\<close>

definition lane_step ::
  "(goval \<Rightarrow> string option) \<Rightarrow> int \<Rightarrow> shub \<Rightarrow> sevent list \<Rightarrow> (string \<times> goval) list \<Rightarrow> shub \<Rightarrow> sevent list \<Rightarrow> bool" where
  "lane_step jm r h hist out h' hist' \<longleftrightarrow> hub_trace (hub_marshal jm) r h' hist' \<and> run_open r h' \<and>
     next_of r h' = next_of r h + length out \<and> (\<exists>ps. hist' = hist @ ps \<and> shown ps = published_as jm out)"

lemma lane_step_trans:
  "lane_step jm r h hist out h1 hist1 \<Longrightarrow> lane_step jm r h1 hist1 out' h2 hist2 \<Longrightarrow> lane_step jm r h hist (out @ out') h2 hist2"
  by (auto simp: lane_step_def published_as_def shown_def)

lemma lane_step_refl: "hub_trace (hub_marshal jm) r h hist \<Longrightarrow> run_open r h \<Longrightarrow> lane_step jm r h hist [] h hist"
  by (simp add: lane_step_def published_as_def shown_def)

definition lane_kinds :: "string set" where
  "lane_kinds = {''assistant.start'', ''assistant.delta'', ''assistant.end'', ''reasoning.start'', ''reasoning.delta'', ''reasoning.end'',
     ''plan.start'', ''plan.delta'', ''plan.end'', ''usage.update'', ''status.update''}"

lemma lane_kinds_plain: "k \<in> lane_kinds \<Longrightarrow> k \<noteq> [] \<and> \<not> isTerminalKind k"
  by (auto simp: lane_kinds_def isTerminalKind_def terminal_kinds_def RunComplete_def RunFailed_def RunPaused_def
        RunWaiting_def RunCancelled_def LegacyAgentFinished_def LegacyAgentFailed_def)

lemma live_plain: "k \<in> lane_kinds \<Longrightarrow> plain_event (em_runID e) (live_event e k d)"
  using lane_kinds_plain [of k] by (simp add: plain_event_def live_event_def)

lemma publishSegmentStart_law:
  assumes "hub_trace (hub_marshal jm) (em_runID e) h hist" "run_open (em_runID e) h" "next_of (em_runID e) h < seq_limit"
    and k: "kind \<in> lane_kinds"
  shows "\<exists>h' hist'. publishSegmentStart jm now e h kind pre = Some (segment_id pre (em_runID e) (rs_nextSeq (run_of h (em_runID e))), h') \<and>
    lane_step jm (em_runID e) h hist (fst (start_out e (rs_nextSeq (run_of h (em_runID e))) kind pre)) h' hist'"
proof -
  let ?r = "em_runID e" and ?m = "hub_marshal jm" and ?x = "live_event e kind None"
  obtain p h1 where p: "Prepare ?m now h ?r ?x = (p, h1)" by fastforce
  note prep = mh.prepare_law [OF assms(1,2) live_plain [OF k] assms(3) p]
  have seq: "ev_Seq p = rs_nextSeq (run_of h ?r)"
    using prep by (simp add: event_no_def next_of_def word_unat_eq_iff)
  let ?sid = "segment_id pre ?r (rs_nextSeq (run_of h ?r))"
  let ?q = "p\<lparr>ev_Data := jm (segment_val ?sid)\<rparr>"
  have q: "plain_event ?r ?q" "event_no ?q = event_no p" using prep by (simp_all add: plain_event_def event_no_def)
  obtain h2 where h2: "PublishPrepared ?m now h1 ?q = Some h2" "hub_trace ?m ?r h2 (hist @ [stored ?m now ?r ?q])"
    "run_open ?r h2" "next_of ?r h2 = Suc (next_of ?r h)"
    using mh.single_law [OF assms(1,2) live_plain [OF k] assms(3) p q] by blast
  have "ev_Payload p = None" "ev_Kind p = kind"
    using Prepare_shown [of ?x ?r h ?m hist now p h1] lane_kinds_plain [OF k] assms(1,2) p by (simp_all add: live_event_def)
  then have "shown [stored ?m now ?r ?q] = published_as jm [(kind, segment_val ?sid)]"
    using lane_kinds_plain [OF k] by (simp add: shown_def stored_shown published_as_def)
  then have "lane_step jm ?r h hist (fst (start_out e (rs_nextSeq (run_of h ?r)) kind pre)) h2 (hist @ [stored ?m now ?r ?q])"
    using h2 unfolding lane_step_def start_out_def Let_def by auto
  moreover have "publishSegmentStart jm now e h kind pre = Some (?sid, h2)"
    using p seq h2(1) by (simp add: publishSegmentStart_def Let_def)
  ultimately show ?thesis by blast
qed

lemma publishData_law:
  assumes "hub_trace (hub_marshal jm) (em_runID e) h hist" "run_open (em_runID e) h" "next_of (em_runID e) h < seq_limit"
    and k: "kind \<in> lane_kinds"
  shows "\<exists>h' hist'. publishData jm now e h kind v = Some h' \<and> lane_step jm (em_runID e) h hist [(kind, v)] h' hist'"
proof -
  let ?r = "em_runID e" and ?m = "hub_marshal jm" and ?x = "live_event e kind (jm v)"
  obtain p h1 where p: "Prepare ?m now h ?r ?x = (p, h1)" by fastforce
  note prep = mh.prepare_law [OF assms(1,2) live_plain [OF k] assms(3) p]
  obtain h2 where h2: "PublishPrepared ?m now h1 p = Some h2" "hub_trace ?m ?r h2 (hist @ [stored ?m now ?r p])"
    "run_open ?r h2" "next_of ?r h2 = Suc (next_of ?r h)"
    using mh.single_law [OF assms(1,2) live_plain [OF k] assms(3) p] prep by blast
  have "ev_Payload p = None" "ev_Kind p = kind" "ev_Data p = clean (jm v)"
    using Prepare_shown [of ?x ?r h ?m hist now p h1] lane_kinds_plain [OF k] assms(1,2) p by (simp_all add: live_event_def)
  then have "shown [stored ?m now ?r p] = published_as jm [(kind, v)]"
    using lane_kinds_plain [OF k] by (simp add: shown_def stored_shown published_as_def)
  with h2 p show ?thesis by (auto simp: publishData_def lane_step_def)
qed

lemma delta_segment_law:
  assumes "hub_trace (hub_marshal jm) (em_runID e) h hist" "run_open (em_runID e) h" "Suc (next_of (em_runID e) h) < seq_limit"
    and k: "start \<in> lane_kinds" "delta \<in> lane_kinds"
  shows "\<exists>h' hist'. delta_segment jm now e h seg start pre delta t =
      Some (snd (delta_out e (rs_nextSeq (run_of h (em_runID e))) seg start pre delta t), h') \<and>
    lane_step jm (em_runID e) h hist (fst (delta_out e (rs_nextSeq (run_of h (em_runID e))) seg start pre delta t)) h' hist'"
proof (cases "seg = []")
  case True
  let ?n = "rs_nextSeq (run_of h (em_runID e))"
  let ?sid = "segment_id pre (em_runID e) ?n"
  obtain h1 hist1 where h1: "publishSegmentStart jm now e h start pre = Some (?sid, h1)"
    "lane_step jm (em_runID e) h hist [(start, segment_val ?sid)] h1 hist1"
    using publishSegmentStart_law [OF assms(1,2) _ k(1), of now pre] assms(3) by (auto simp: start_out_def Let_def)
  then obtain h2 hist2 where h2: "publishData jm now e h1 delta (text_val ?sid t) = Some h2"
    "lane_step jm (em_runID e) h1 hist1 [(delta, text_val ?sid t)] h2 hist2"
    using publishData_law [OF _ _ _ k(2), of jm e h1 hist1 now "text_val ?sid t"] assms(3) by (auto simp: lane_step_def)
  with lane_step_trans [OF h1(2) h2(2)] h1(1) True show ?thesis
    by (auto simp: delta_segment_def delta_out_def start_out_def Let_def)
next
  case False
  then show ?thesis
    using publishData_law [OF assms(1,2) _ k(2), of now "text_val seg t"] assms(3)
    by (auto simp: delta_segment_def delta_out_def)
qed

lemma emit_model_law:
  assumes "hub_trace (hub_marshal jm) (em_runID e) h hist" "run_open (em_runID e) h" "Suc (next_of (em_runID e) h) < seq_limit"
  shows "\<exists>h' hist'. emit_model jm now e h me = Some (snd (model_out e (rs_nextSeq (run_of h (em_runID e))) me), h') \<and>
    lane_step jm (em_runID e) h hist (fst (model_out e (rs_nextSeq (run_of h (em_runID e))) me)) h' hist'"
proof -
  have lim: "next_of (em_runID e) h < seq_limit" using assms(3) by simp
  note start = publishSegmentStart_law [OF assms(1,2) lim, of _ now] and data = publishData_law [OF assms(1,2) lim, of _ now]
    and delta = delta_segment_law [OF assms, of _ _ now] and skip = lane_step_refl [OF assms(1,2)]
  note defs = emit_model_def model_out_def case_prod_unfold start_out_def Let_def
  show ?thesis
  proof (cases "me_Kind me")
    case ModelTextStart
    with start [of "''assistant.start''" "''assistant''"] show ?thesis by (auto simp: defs lane_kinds_def)
  next
    case ModelTextDelta
    with delta [of "''assistant.start''" "''assistant.delta''" "em_assistant e" "''assistant''" "me_Text me"]
    show ?thesis by (auto simp: emit_model_def model_out_def case_prod_unfold lane_kinds_def)
  next
    case ModelTextEnd
    with data [of "''assistant.end''" "segment_val (em_assistant e)"] skip show ?thesis by (auto simp: defs lane_kinds_def)
  next
    case ModelReasoningStart
    with start [of "''reasoning.start''" "''reasoning''"] show ?thesis by (auto simp: defs lane_kinds_def)
  next
    case ModelReasoningDelta
    with delta [of "''reasoning.start''" "''reasoning.delta''" "em_reasoning e" "''reasoning''" "me_Text me"]
    show ?thesis by (auto simp: emit_model_def model_out_def case_prod_unfold lane_kinds_def)
  next
    case ModelReasoningEnd
    with data [of "''reasoning.end''" "segment_val (em_reasoning e)"] skip show ?thesis by (auto simp: defs lane_kinds_def)
  next
    case ModelProposedPlanStart
    with start [of "''plan.start''" "''plan''"] skip show ?thesis by (auto simp: defs lane_kinds_def)
  next
    case ModelProposedPlanDelta
    with delta [of "''plan.start''" "''plan.delta''" "em_plan e" "''plan''" "me_Text me"]
    show ?thesis by (auto simp: emit_model_def model_out_def case_prod_unfold lane_kinds_def)
  next
    case ModelProposedPlanEnd
    with data [of "''plan.end''" "segment_val (em_plan e)"] skip show ?thesis by (auto simp: defs lane_kinds_def)
  next
    case ModelUsage
    with data [of "''usage.update''" "usage_val (me_Usage me)"] show ?thesis by (auto simp: defs lane_kinds_def)
  next
    case ModelError
    with data [of "''status.update''" "status_val (case me_Err me of Some m \<Rightarrow> m | None \<Rightarrow> ''model stream failed'') ''error''"]
    show ?thesis by (auto simp: defs lane_kinds_def)
  qed (use skip in \<open>auto simp: defs\<close>)
qed

text \<open>A sequence of model events, and what is published for it.\<close>

fun emit_models ::
  "(goval \<Rightarrow> string option) \<Rightarrow> gotime \<Rightarrow> emitter \<Rightarrow> shub \<Rightarrow> model_event list \<Rightarrow> (emitter \<times> shub) option" where
  "emit_models jm now e h [] = Some (e, h)"
| "emit_models jm now e h (me # mes) =
     Option.bind (EmitModelEvent jm now e (Some h) me) (\<lambda>(_, e', hub). case hub of
       Some h' \<Rightarrow> emit_models jm now e' h' mes | None \<Rightarrow> None)"

fun model_outs :: "emitter \<Rightarrow> u64 \<Rightarrow> model_event list \<Rightarrow> (string \<times> goval) list \<times> emitter" where
  "model_outs e n [] = ([], e)"
| "model_outs e n (me # mes) =
     (case model_out e n me of (out, e') \<Rightarrow>
        case model_outs e' (n + of_nat (length out)) mes of (outs, e'') \<Rightarrow> (out @ outs, e''))"

lemma model_out_length: "length (fst (model_out e n me)) \<le> 2"
  by (cases "me_Kind me") (simp_all add: model_out_def start_out_def delta_out_def Let_def)

lemma model_out_run: "em_runID (snd (model_out e n me)) = em_runID e"
  by (cases "me_Kind me") (simp_all add: model_out_def case_prod_unfold)

lemma u64_add_nat:
  assumes "unat (a::u64) = unat b + k"
  shows "a = b + of_nat k"
proof -
  have "unat (b + of_nat k) = (unat b + k) mod 2 ^ 64"
    by (simp add: unat_word_ariths unat_of_nat mod_add_right_eq)
  also have "\<dots> = unat a" using assms unsigned_less [where w = a and ?'a = nat] by simp
  finally show ?thesis by (simp add: word_unat_eq_iff)
qed

lemma emit_models_law:
  assumes "hub_trace (hub_marshal jm) (em_runID e) h hist" "run_open (em_runID e) h"
    "next_of (em_runID e) h + 2 * length mes < seq_limit"
  shows "\<exists>h' hist'. emit_models jm now e h mes = Some (snd (model_outs e (rs_nextSeq (run_of h (em_runID e))) mes), h') \<and>
    lane_step jm (em_runID e) h hist (fst (model_outs e (rs_nextSeq (run_of h (em_runID e))) mes)) h' hist'"
  using assms
proof (induction mes arbitrary: e h hist)
  case Nil
  from lane_step_refl [OF Nil.prems(1,2)] show ?case by auto
next
  case (Cons me mes)
  let ?r = "em_runID e" and ?n = "rs_nextSeq (run_of h (em_runID e))"
  let ?out = "fst (model_out e ?n me)" and ?e = "snd (model_out e ?n me)"
  obtain h1 hist1 where h1: "emit_model jm now e h me = Some (?e, h1)" "lane_step jm ?r h hist ?out h1 hist1"
    using emit_model_law [OF Cons.prems(1,2), of now me] Cons.prems(3) by auto
  have n1: "next_of ?r h1 = next_of ?r h + length ?out" using h1(2) by (simp add: lane_step_def)
  then have "unat (rs_nextSeq (run_of h1 ?r)) = unat ?n + length ?out" by (simp add: next_of_def)
  then have nx: "rs_nextSeq (run_of h1 ?r) = ?n + of_nat (length ?out)" by (rule u64_add_nat)
  have "next_of ?r h1 + 2 * length mes < seq_limit"
    using Cons.prems(3) n1 model_out_length [of e ?n me] by simp
  then obtain h2 hist2 where h2: "emit_models jm now ?e h1 mes = Some (snd (model_outs ?e (rs_nextSeq (run_of h1 ?r)) mes), h2)"
    "lane_step jm ?r h1 hist1 (fst (model_outs ?e (rs_nextSeq (run_of h1 ?r)) mes)) h2 hist2"
    using Cons.IH [of ?e h1 hist1] h1(2) by (auto simp: model_out_run lane_step_def)
  with lane_step_trans [OF h1(2) h2(2)] h1(1) show ?case
    by (auto simp: EmitModelEvent_def case_prod_unfold nx)
qed

text \<open>A consumer of the segments of one kind: fragments and ends must name the segment that was started
  last and has not ended.\<close>

fun seg_of :: "goval \<Rightarrow> string" where
  "seg_of (VMap ((k, VStr s) # _)) = s"
| "seg_of _ = []"

definition seg_next :: "string \<Rightarrow> string option \<Rightarrow> string \<times> goval \<Rightarrow> string option" where
  "seg_next pre cur out = (case cur of None \<Rightarrow> None | Some c \<Rightarrow>
     if fst out = pre @ ''.start'' then (if seg_of (snd out) = [] then None else Some (seg_of (snd out)))
     else if fst out = pre @ ''.delta'' then (if c \<noteq> [] \<and> seg_of (snd out) = c then Some c else None)
     else if fst out = pre @ ''.end'' then (if c \<noteq> [] \<and> seg_of (snd out) = c then Some [] else None)
     else Some c)"

lemma segment_id_ne: "segment_id pre r n \<noteq> []"
  by (simp add: segment_id_def)

lemma model_out_segments:
  "foldl (seg_next ''assistant'') (Some (em_assistant e)) (fst (model_out e n me)) = Some (em_assistant (snd (model_out e n me)))"
  "foldl (seg_next ''reasoning'') (Some (em_reasoning e)) (fst (model_out e n me)) = Some (em_reasoning (snd (model_out e n me)))"
  by (cases "me_Kind me"; simp add: model_out_def start_out_def delta_out_def seg_next_def segment_val_def text_val_def
      usage_val_def status_val_def segment_id_ne Let_def)+

lemma model_outs_segments:
  "foldl (seg_next ''assistant'') (Some (em_assistant e)) (fst (model_outs e n mes)) = Some (em_assistant (snd (model_outs e n mes))) \<and>
   foldl (seg_next ''reasoning'') (Some (em_reasoning e)) (fst (model_outs e n mes)) = Some (em_reasoning (snd (model_outs e n mes)))"
  by (induction mes arbitrary: e n) (simp_all add: case_prod_unfold model_out_segments)

text \<open>C25: The model's stream on the hub. For any sequence of model events on an open run, the lane
  always returns and the run's published history grows by exactly the specified kinds and values, in
  order; and of the specified events every assistant and reasoning fragment and end names the segment
  that was started last and has not ended.\<close>

theorem model_stream_published:
  assumes "hub_trace (hub_marshal jm) (em_runID e) h hist" "run_open (em_runID e) h"
    and "next_of (em_runID e) h + 2 * length mes < seq_limit" "em_assistant e = []" "em_reasoning e = []"
  shows "\<exists>h' ps outs e'. emit_models jm now e h mes = Some (e', h') \<and>
    model_outs e (rs_nextSeq (run_of h (em_runID e))) mes = (outs, e') \<and>
    hub_trace (hub_marshal jm) (em_runID e) h' (hist @ ps) \<and> shown ps = published_as jm outs \<and>
    foldl (seg_next ''assistant'') (Some []) outs = Some (em_assistant e') \<and>
    foldl (seg_next ''reasoning'') (Some []) outs = Some (em_reasoning e')"
proof -
  let ?o = "model_outs e (rs_nextSeq (run_of h (em_runID e))) mes"
  obtain h' hist' where h': "emit_models jm now e h mes = Some (snd ?o, h')" "lane_step jm (em_runID e) h hist (fst ?o) h' hist'"
    using emit_models_law [OF assms(1-3)] by blast
  then obtain ps where "hist' = hist @ ps" "shown ps = published_as jm (fst ?o)" "hub_trace (hub_marshal jm) (em_runID e) h' hist'"
    by (auto simp: lane_step_def)
  with h'(1) model_outs_segments [of e "rs_nextSeq (run_of h (em_runID e))" mes] assms(4,5) show ?thesis
    by (metis prod.collapse)
qed

theorem model_stream_published_witness:
  "\<exists>h' ps outs e'. emit_models (\<lambda>_. Some ''x'') 5 ex_emitter ex_shub [text_delta ''hi'', mev ModelTextEnd] = Some (e', h') \<and>
     model_outs ex_emitter 1 [text_delta ''hi'', mev ModelTextEnd] = (outs, e') \<and>
     map fst outs = [''assistant.start'', ''assistant.delta'', ''assistant.end''] \<and> shown ps = published_as (\<lambda>_. Some ''x'') outs \<and>
     hub_trace (hub_marshal (\<lambda>_. Some ''x'')) (em_runID ex_emitter) h' ps"
proof -
  have "next_of (em_runID ex_emitter) ex_shub + 2 * length [text_delta ''hi'', mev ModelTextEnd] < seq_limit"
    by (simp add: ex_lane seq_limit_def)
  from model_stream_published [OF ex_lane(1,2) this, where jm = "\<lambda>_. Some ''x''" and now = 5]
  obtain h' ps outs e' where *: "emit_models (\<lambda>_. Some ''x'') 5 ex_emitter ex_shub [text_delta ''hi'', mev ModelTextEnd] = Some (e', h')"
    "model_outs ex_emitter 1 [text_delta ''hi'', mev ModelTextEnd] = (outs, e')"
    "hub_trace (hub_marshal (\<lambda>_. Some ''x'')) (em_runID ex_emitter) h' ps" "shown ps = published_as (\<lambda>_. Some ''x'') outs"
    by (auto simp: newRunEventEmitter_def ex_lane)
  have "map fst outs = [''assistant.start'', ''assistant.delta'', ''assistant.end'']"
    using *(2) by (auto simp: model_out_def delta_out_def start_out_def newRunEventEmitter_def segment_id_ne Let_def)
  with * show ?thesis by (intro exI [of _ h'] exI [of _ ps] exI [of _ outs] exI [of _ e']) simp
qed

text \<open>A second plan of a run has no start. The plan segment is never closed by its end, so a second
  proposed plan in the same run is published as fragments of the segment that has already ended,
  with no start of its own.\<close>

theorem second_plan_without_start:
  "map fst (fst (model_outs (newRunEventEmitter owner run conv) n
     [mev ModelProposedPlanStart, plan_delta a, mev ModelProposedPlanEnd,
      mev ModelProposedPlanStart, plan_delta b, mev ModelProposedPlanEnd])) =
   [''plan.start'', ''plan.delta'', ''plan.end'', ''plan.delta'', ''plan.end'']"
  by (simp add: model_out_def start_out_def delta_out_def newRunEventEmitter_def segment_id_ne Let_def)

section \<open>The end of a run\<close>

lemma close_subs_closed: "rs_closed (snd (close_subs heap st L)) = rs_closed st"
  by (induction L arbitrary: heap st) (auto simp: case_prod_unfold closeSubscriberLocked_def Let_def split: if_splits)

lemma close_finish_closed: "rs_closed (snd (close_finish now p))"
  by (simp add: close_finish_def case_prod_unfold Let_def close_subs_closed)

text \<open>A finished run ends its stream. When a run has succeeded, failed, been cancelled or timed out,
  publishing its snapshot on its open stream closes the run in the hub with the matching terminal
  event as the last of its history; the only way not to return is a ring whose terminal events
  alone exceed its limits.\<close>

theorem snapshot_closes_run:
  assumes "hub_trace (hub_marshal jm) r h hist" "run_open r h" "next_of r h < seq_limit"
    and "finished_status status" "snapshot_kind status = Some kind"
  shows "\<exists>e. ev_Kind e = kind \<and> ev_Data e = clean data \<and>
    (if ring_diverges (hub_config h) (run_of h r) e
     then publishRunSnapshot jm now (Some h) r conv status data = None
     else \<exists>h'. publishRunSnapshot jm now (Some h) r conv status data = Some (Some h') \<and> rs_closed (run_of h' r) \<and>
       hub_trace (hub_marshal jm) r h' (hist @ [e]))"
proof -
  let ?m = "hub_marshal jm" and ?x = "outside_event r conv kind data" and ?st = "run_of h r"
  have r: "r \<noteq> 0" and opn: "\<not> rs_closed ?st" using assms(2) by (simp_all add: run_open_def)
  have inv: "hub_inv h" using hub_trace_ring [OF assms(1) r] by simp
  have kind: "kind \<noteq> []" "kind \<in> {RunComplete, RunFailed, RunCancelled}"
    using assms(4,5) by (auto simp: snapshot_kind_def finished_status_def RunComplete_def RunFailed_def RunCancelled_def split: if_splits)
  obtain h1 where get: "getRun h r True = Some (h1, ?st)" and ready: "run_ready h r h1" using getRun_create [OF inv r] .
  have lim: "unat (rs_nextSeq ?st) < seq_limit" using assms(3) by (simp add: next_of_def)
  have wrap: "rs_nextSeq ?st \<noteq> - 1" "rs_nextSeq ?st + 1 \<noteq> - 1"
    using u64_limit [of "rs_nextSeq ?st"] u64_limit [of "rs_nextSeq ?st + 1"] unat_Suc64 [OF lim] lim by simp_all
  have lt: "rs_lastPublished ?st < rs_nextSeq ?st" using run_of_inv(1) [OF inv, of r] by (simp add: run_inv_def)
  then have nz: "rs_nextSeq ?st \<noteq> 0" by auto
  define p where "p = cloneEvent ((normalizeEvent ?m ?x r now)\<lparr>ev_Seq := rs_nextSeq ?st\<rparr>)"
  define h2 where "h2 = putRun h1 r (hub_heap h1) (?st\<lparr>rs_nextSeq := rs_nextSeq ?st + 1\<rparr>)"
  have prep: "Prepare ?m now h r ?x = (p, h2)"
    using get opn nz by (simp add: Prepare_def prepare_locked_def next_seq_def Let_def p_def h2_def)
  have tr2: "hub_trace ?m r h2 hist"
    using hub_trace.step [OF assms(1), of "Op_Prepare r ?x" now h2] wrap prep by simp
  have inv2: "hub_inv h2" using hub_trace_ring [OF tr2 r] by simp
  have st2: "run_of h2 r = ?st\<lparr>rs_nextSeq := rs_nextSeq ?st + 1\<rparr>" by (simp add: h2_def)
  have cfg2: "hub_config h2 = hub_config h" using ready by (simp add: h2_def run_ready_def)
  have p: "ev_Kind p = kind" "ev_Payload p = None" "ev_Data p = clean data" "ev_Seq p = rs_nextSeq ?st" "ev_RunID p = r"
    using kind(1) r by (simp_all add: p_def outside_event_def normalizeEvent_def cloneEvent_def clean_def Let_def split: option.split)
  define e where "e = stored ?m now r p"
  have e: "ev_Kind e = kind" "ev_Data e = clean data"
    using stored_shown [of p ?m now r] p kind(1) by (simp_all add: e_def)
  have acc: "accepted ?m r now (run_of h2 r) p = Some e"
    using opn lt nz p by (simp add: accepted_def st2 e_def stored_def Let_def not_le)
  have ok: "op_ok h2 (Op_CloseRun r p)" using wrap p by (simp add: st2)
  obtain h3 where get3: "getRun h2 r True = Some (h3, run_of h2 r)" and ready3: "run_ready h2 r h3" using getRun_create [OF inv2 r] .
  have div: "ring_diverges (hub_config h2) (run_of h2 r) e = ring_diverges (hub_config h) ?st e"
    by (simp add: ring_diverges_def st2 cfg2)
  let ?st1 = "(published (hub_config h2) (run_of h2 r) e)\<lparr>rs_snapshot := rs_snapshot (run_of h2 r), rs_terminal := Some e\<rparr>"
  let ?f = "close_finish now (notifySubscribersLocked e (hub_heap h2) ?st1)"
  have close: "CloseRun ?m now h2 r p = (if ring_diverges (hub_config h) ?st e then None else Some (putRun h3 r (fst ?f) (snd ?f)))"
    using close_locked_exact [OF run_of_inv(1) [OF inv2, of r] hub_inv_cfg [OF inv2], of ?m r now "hub_heap h2" p]
      get3 ready3 acc wrap(2) opn div
    by (simp add: CloseRun_def run_ready_def st2 case_prod_unfold)
  have "hub_trace ?m r (putRun h3 r (fst ?f) (snd ?f)) (hist @ [e])" if "\<not> ring_diverges (hub_config h) ?st e"
    using hub_trace.step [OF tr2 ok, of now "putRun h3 r (fst ?f) (snd ?f)"] close that acc r by simp
  with e prep close close_finish_closed [of now "notifySubscribersLocked e (hub_heap h2) ?st1"] assms(4,5) show ?thesis
    by (intro exI [of _ e]) (simp add: publishRunSnapshot_def)
qed

theorem snapshot_closes_run_witness:
  "\<exists>e h'. ev_Kind e = RunComplete \<and> publishRunSnapshot (\<lambda>_. None) 5 (Some ex_shub) 7 None ''succeeded'' None = Some (Some h') \<and>
     rs_closed (run_of h' 7) \<and> hub_trace (hub_marshal (\<lambda>_. None)) 7 h' [e]"
proof -
  have pre: "finished_status ''succeeded''" "snapshot_kind ''succeeded'' = Some RunComplete" "next_of 7 ex_shub < seq_limit"
    "hub_trace (hub_marshal (\<lambda>_. None)) 7 ex_shub []" "run_open 7 ex_shub"
    using ex_lane(1) [of "\<lambda>_. None"] ex_lane(2,3) by (simp_all add: finished_status_def snapshot_kind_def newRunEventEmitter_def seq_limit_def)
  have "\<not> ring_diverges (hub_config ex_shub) (run_of ex_shub 7) e" for e
    by (simp add: ring_diverges_def trim_diverges_def run_of_def ex_shub_def NewMemoryHub_def newRunState_def)
  with snapshot_closes_run [OF pre(4,5,3,1,2), where now = 5 and conv = None and data = None] show ?thesis by auto
qed

end
