(* ===== verification/Tool_Schema.thy ===== *)
theory Tool_Schema
  imports Go_Json
begin

text \<open>
  The argument validator of \<^verbatim>\<open>internal/runtime/agent/tool_schema_validator.go\<close>: the JSON-Schema subset
  that stands between a model's tool call and the tool. A check returns \<open>None\<close> or the message of
  the first failure; a field loop visits the fields in the order of the object's entry list.

  The specification \<open>conforms\<close> states what a schema demands of a value without any order of checks;
  the validator accepts exactly the conforming values.
\<close>

section \<open>Model\<close>

text \<open>\<^verbatim>\<open>if err := a; err != nil { return err }; b\<close>\<close>

definition first_error :: "string option \<Rightarrow> string option \<Rightarrow> string option" where
  "first_error a b = (case a of None \<Rightarrow> b | Some e \<Rightarrow> Some e)"

definition reject :: "bool \<Rightarrow> string \<Rightarrow> string option" where
  "reject b msg = (if b then Some msg else None)"

definition matches_type_name :: "go_lib \<Rightarrow> string \<Rightarrow> json \<Rightarrow> bool" where
  "matches_type_name lib typeName v =
     (let t = ToLower lib typeName in
      if t = ''object'' then (case v of JObj _ \<Rightarrow> True | _ \<Rightarrow> False)
      else if t = ''array'' then (case v of JArr _ \<Rightarrow> True | _ \<Rightarrow> False)
      else if t = ''string'' then (case v of JStr _ \<Rightarrow> True | _ \<Rightarrow> False)
      else if t = ''number'' then (case v of JNum _ \<Rightarrow> True | _ \<Rightarrow> False)
      else if t = ''integer'' then (case v of JNum r \<Rightarrow> int64_rat r | _ \<Rightarrow> False)
      else if t = ''boolean'' then (case v of JBool _ \<Rightarrow> True | _ \<Rightarrow> False)
      else if t = ''null'' then v = JNull
      else True)"

fun matchesSchemaType :: "go_lib \<Rightarrow> json \<Rightarrow> json \<Rightarrow> bool"
  and matches_any_type :: "go_lib \<Rightarrow> json list \<Rightarrow> json \<Rightarrow> bool" where
  "matchesSchemaType lib raw v =
     (case raw of JArr items \<Rightarrow> matches_any_type lib items v
      | JStr t \<Rightarrow> matches_type_name lib t v
      | _ \<Rightarrow> matches_type_name lib '''' v)"
| "matches_any_type lib [] v = False"
| "matches_any_type lib (t # ts) v = (matchesSchemaType lib t v \<or> matches_any_type lib ts v)"

definition integerSchemaValue :: "json option \<Rightarrow> nat option" where
  "integerSchemaValue v =
     (case v of Some (JNum r) \<Rightarrow> (if 0 \<le> r \<and> int64_rat r then Some (nat (floor r)) else None)
      | _ \<Rightarrow> None)"

definition check_enum :: "json_object \<Rightarrow> json \<Rightarrow> string \<Rightarrow> string option" where
  "check_enum s v path =
     (case map_of s ''enum'' of
        Some (JArr enum) \<Rightarrow>
          reject (enum \<noteq> [] \<and> \<not> list_ex (\<lambda>c. json_eq c v) enum) (path @ '' must be one of enum values'')
      | _ \<Rightarrow> None)"

definition check_type :: "go_lib \<Rightarrow> json_object \<Rightarrow> json \<Rightarrow> string \<Rightarrow> string option" where
  "check_type lib s v path =
     (case map_of s ''type'' of
        Some types \<Rightarrow> reject (\<not> matchesSchemaType lib types v) (path @ '' has an invalid type'')
      | None \<Rightarrow> None)"

fun check_required :: "go_lib \<Rightarrow> json list \<Rightarrow> json_object \<Rightarrow> string \<Rightarrow> string option" where
  "check_required lib [] obj path = None"
| "check_required lib (raw # rest) obj path =
     first_error
       (case raw of JStr name \<Rightarrow>
          reject (name \<noteq> [] \<and> map_of obj name = None)
            (path @ '' is missing required field '' @ quote lib name)
        | _ \<Rightarrow> None)
       (check_required lib rest obj path)"

definition required_of :: "json_object \<Rightarrow> json list" where
  "required_of s = (case map_of s ''required'' of Some (JArr r) \<Rightarrow> r | _ \<Rightarrow> [])"

definition properties_of :: "json_object \<Rightarrow> json_object" where
  "properties_of s = (case map_of s ''properties'' of Some (JObj p) \<Rightarrow> p | _ \<Rightarrow> [])"

definition closed_object :: "json_object \<Rightarrow> bool" where
  "closed_object s \<longleftrightarrow> map_of s ''additionalProperties'' = Some (JBool False)"

definition check_count :: "json_object \<Rightarrow> nat \<Rightarrow> string \<Rightarrow> string \<Rightarrow> string \<Rightarrow> string \<Rightarrow> string option" where
  "check_count s n lo hi unit path =
     first_error
       (case integerSchemaValue (map_of s lo) of
          Some m \<Rightarrow> reject (n < m) (path @ '' must contain at least '' @ itoa (int m) @ '' '' @ unit)
        | None \<Rightarrow> None)
       (case integerSchemaValue (map_of s hi) of
          Some m \<Rightarrow> reject (m < n) (path @ '' must contain at most '' @ itoa (int m) @ '' '' @ unit)
        | None \<Rightarrow> None)"

function (sequential) validateJSONSchema :: "go_lib \<Rightarrow> json_object \<Rightarrow> json \<Rightarrow> string \<Rightarrow> string option"
  and check_fields :: "go_lib \<Rightarrow> json_object \<Rightarrow> json_object \<Rightarrow> string \<Rightarrow> string option"
  and check_items :: "go_lib \<Rightarrow> json_object \<Rightarrow> nat \<Rightarrow> json list \<Rightarrow> string \<Rightarrow> string option" where
  "validateJSONSchema lib s v path =
     first_error (check_enum s v path)
    (first_error (check_type lib s v path)
       (case v of
          JObj obj \<Rightarrow> first_error (check_required lib (required_of s) obj path) (check_fields lib s obj path)
        | JArr arr \<Rightarrow>
            first_error (check_count s (length arr) ''minItems'' ''maxItems'' ''items'' path)
              (case map_of s ''items'' of
                 Some (JObj items) \<Rightarrow> check_items lib items 0 arr path
               | _ \<Rightarrow> None)
        | JStr text \<Rightarrow> check_count s (RuneCount text) ''minLength'' ''maxLength'' ''characters'' path
        | _ \<Rightarrow> None))"
| "check_fields lib s [] path = None"
| "check_fields lib s ((name, child) # rest) path =
     first_error
       (case map_of (properties_of s) name of
          None \<Rightarrow> reject (closed_object s) (path @ '' contains unknown field '' @ quote lib name)
        | Some (JObj property) \<Rightarrow> validateJSONSchema lib property child (path @ ''.'' @ name)
        | Some _ \<Rightarrow> Some (path @ ''.'' @ name @ '' has invalid schema''))
       (check_fields lib s rest path)"
| "check_items lib items i [] path = None"
| "check_items lib items i (item # rest) path =
     first_error (validateJSONSchema lib items item (path @ ''['' @ itoa (int i) @ '']''))
       (check_items lib items (Suc i) rest path)"
  by pat_completeness auto
termination
  by (relation "measure (\<lambda>x. case x of
        Inl (lib, s, v, path) \<Rightarrow> size v
      | Inr (Inl (lib, s, obj, path)) \<Rightarrow> size (JObj obj) - 1
      | Inr (Inr (lib, s, i, arr, path)) \<Rightarrow> size (JArr arr) - 1)") auto

declare validateJSONSchema.simps [simp del]

definition trivial_schema :: "string \<Rightarrow> bool" where
  "trivial_schema schema \<longleftrightarrow> TrimSpace schema = [] \<or> TrimSpace schema = ''null'' \<or> TrimSpace schema = ''{}''"

definition ValidateToolArguments :: "go_lib \<Rightarrow> string \<Rightarrow> string \<Rightarrow> string option" where
  "ValidateToolArguments lib schema args =
     (if \<not> json_Valid lib args then Some ''arguments are not valid JSON''
      else if trivial_schema schema then None
      else case unmarshal_map lib schema of
        Inl e \<Rightarrow> Some (''invalid tool JSON schema: '' @ e)
      | Inr schemaValue \<Rightarrow>
          (case unmarshal_any lib args of
             Inl e \<Rightarrow> Some (''arguments are not valid JSON: '' @ e)
           | Inr v \<Rightarrow> validateJSONSchema lib schemaValue v ''$''))"

section \<open>Specification\<close>

text \<open>What a type description admits: a list admits what one of its elements admits.\<close>

definition type_admits :: "go_lib \<Rightarrow> json_object \<Rightarrow> json \<Rightarrow> bool" where
  "type_admits lib s v \<longleftrightarrow> (\<forall>t. map_of s ''type'' = Some t \<longrightarrow> matchesSchemaType lib t v)"

definition enum_admits :: "json_object \<Rightarrow> json \<Rightarrow> bool" where
  "enum_admits s v \<longleftrightarrow>
     (\<forall>enum. map_of s ''enum'' = Some (JArr enum) \<longrightarrow> enum = [] \<or> (\<exists>c\<in>set enum. json_eq c v))"

definition count_admits :: "json_object \<Rightarrow> string \<Rightarrow> string \<Rightarrow> nat \<Rightarrow> bool" where
  "count_admits s lo hi n \<longleftrightarrow>
     (\<forall>m. integerSchemaValue (map_of s lo) = Some m \<longrightarrow> m \<le> n) \<and>
     (\<forall>m. integerSchemaValue (map_of s hi) = Some m \<longrightarrow> n \<le> m)"

text \<open>A value conforms to a schema: the local demands hold, every field the schema describes conforms
  to its own schema, a field it does not describe is present only if the object is open, and every
  element conforms to the schema of the elements.\<close>

inductive conforms :: "go_lib \<Rightarrow> json_object \<Rightarrow> json \<Rightarrow> bool" for lib where
  scalar: "enum_admits s v \<Longrightarrow> type_admits lib s v \<Longrightarrow> v = JNull \<or> v = JBool b \<or> v = JNum r \<Longrightarrow> conforms lib s v"
| "text": "enum_admits s (JStr t) \<Longrightarrow> type_admits lib s (JStr t) \<Longrightarrow>
     count_admits s ''minLength'' ''maxLength'' (RuneCount t) \<Longrightarrow> conforms lib s (JStr t)"
| array: "enum_admits s (JArr xs) \<Longrightarrow> type_admits lib s (JArr xs) \<Longrightarrow>
     count_admits s ''minItems'' ''maxItems'' (length xs) \<Longrightarrow>
     (\<And>items x. map_of s ''items'' = Some (JObj items) \<Longrightarrow> x \<in> set xs \<Longrightarrow> conforms lib items x) \<Longrightarrow>
     conforms lib s (JArr xs)"
| object: "enum_admits s (JObj obj) \<Longrightarrow> type_admits lib s (JObj obj) \<Longrightarrow>
     (\<And>name. JStr name \<in> set (required_of s) \<Longrightarrow> name \<noteq> [] \<Longrightarrow> name \<in> fst ` set obj) \<Longrightarrow>
     (\<And>name child p. (name, child) \<in> set obj \<Longrightarrow> map_of (properties_of s) name = Some p \<Longrightarrow>
        \<exists>property. p = JObj property \<and> conforms lib property child) \<Longrightarrow>
     (\<And>name child. (name, child) \<in> set obj \<Longrightarrow> map_of (properties_of s) name = None \<Longrightarrow> \<not> closed_object s) \<Longrightarrow>
     conforms lib s (JObj obj)"

inductive_cases conforms_JArrE: "conforms lib s (JArr xs)"
inductive_cases conforms_JObjE: "conforms lib s (JObj obj)"
inductive_cases conforms_JStrE: "conforms lib s (JStr t)"

section \<open>The validator decides conformance\<close>

lemma first_error_None [simp]: "first_error a b = None \<longleftrightarrow> a = None \<and> b = None"
  by (auto simp: first_error_def split: option.splits)

lemma reject_None [simp]: "reject b msg = None \<longleftrightarrow> \<not> b"
  by (simp add: reject_def)

lemma check_enum_None: "check_enum s v path = None \<longleftrightarrow> enum_admits s v"
  by (auto simp: check_enum_def enum_admits_def list_ex_iff split: option.splits json.splits)

lemma check_type_None: "check_type lib s v path = None \<longleftrightarrow> type_admits lib s v"
  by (auto simp: check_type_def type_admits_def split: option.splits)

lemma check_count_None: "check_count s n lo hi unit path = None \<longleftrightarrow> count_admits s lo hi n"
  by (auto simp: check_count_def count_admits_def split: option.splits)

lemma map_of_None_image: "map_of xs k = None \<longleftrightarrow> k \<notin> fst ` set xs"
  by (simp add: map_of_eq_None_iff)

lemma check_required_None:
  "check_required lib rs obj path = None \<longleftrightarrow>
     (\<forall>name. JStr name \<in> set rs \<longrightarrow> name \<noteq> [] \<longrightarrow> name \<in> fst ` set obj)"
  by (induction rs) (auto simp: map_of_None_image split: json.splits)

lemmas check_iffs = check_enum_None check_type_None check_count_None check_required_None

lemma conforms_scalar:
  "v = JNull \<or> v = JBool b \<or> v = JNum r \<Longrightarrow> conforms lib s v \<longleftrightarrow> enum_admits s v \<and> type_admits lib s v"
  by (auto intro: conforms.scalar elim: conforms.cases)

lemma conforms_JStr:
  "conforms lib s (JStr t) \<longleftrightarrow> enum_admits s (JStr t) \<and> type_admits lib s (JStr t) \<and>
     count_admits s ''minLength'' ''maxLength'' (RuneCount t)"
  by (auto intro: conforms.text elim: conforms_JStrE)

lemma conforms_JArr:
  "conforms lib s (JArr xs) \<longleftrightarrow> enum_admits s (JArr xs) \<and> type_admits lib s (JArr xs) \<and>
     count_admits s ''minItems'' ''maxItems'' (length xs) \<and>
     (\<forall>items. map_of s ''items'' = Some (JObj items) \<longrightarrow> (\<forall>x\<in>set xs. conforms lib items x))"
  by (auto intro!: conforms.array elim!: conforms_JArrE)

lemma conforms_JObj:
  "conforms lib s (JObj obj) \<longleftrightarrow> enum_admits s (JObj obj) \<and> type_admits lib s (JObj obj) \<and>
     (\<forall>name. JStr name \<in> set (required_of s) \<longrightarrow> name \<noteq> [] \<longrightarrow> name \<in> fst ` set obj) \<and>
     (\<forall>(name, child)\<in>set obj. case map_of (properties_of s) name of
        None \<Rightarrow> \<not> closed_object s
      | Some p \<Rightarrow> \<exists>property. p = JObj property \<and> conforms lib property child)"
proof
  assume "conforms lib s (JObj obj)"
  then show "enum_admits s (JObj obj) \<and> type_admits lib s (JObj obj) \<and>
     (\<forall>name. JStr name \<in> set (required_of s) \<longrightarrow> name \<noteq> [] \<longrightarrow> name \<in> fst ` set obj) \<and>
     (\<forall>(name, child)\<in>set obj. case map_of (properties_of s) name of
        None \<Rightarrow> \<not> closed_object s
      | Some p \<Rightarrow> \<exists>property. p = JObj property \<and> conforms lib property child)"
    by (rule conforms_JObjE) (fastforce split: option.splits)+
qed (intro conforms.object; fastforce split: option.splits)

lemma validate_sound_complete:
  "(validateJSONSchema lib s v path = None) = conforms lib s v"
  "(check_fields lib s obj path = None) =
     (\<forall>(name, child)\<in>set obj. case map_of (properties_of s) name of
        None \<Rightarrow> \<not> closed_object s
      | Some p \<Rightarrow> \<exists>property. p = JObj property \<and> conforms lib property child)"
  "(check_items lib items i arr path = None) = (\<forall>x\<in>set arr. conforms lib items x)"
proof (induction lib s v path and lib s obj path and lib items i arr path
    rule: validateJSONSchema_check_fields_check_items.induct)
  case (1 lib s v path)
  show ?case
  proof (cases v)
    case (JArr xs)
    then show ?thesis
      using 1(1)[OF JArr] by (auto simp: validateJSONSchema.simps [of lib s "JArr xs"] check_iffs conforms_JArr
          split: option.splits json.splits)
  next
    case (JObj obj)
    then show ?thesis
      using 1(2)[OF JObj] by (simp add: validateJSONSchema.simps [of lib s "JObj obj"] check_iffs conforms_JObj)
  qed (auto simp: validateJSONSchema.simps [of lib s] check_iffs conforms_JStr conforms_scalar)
next
  case (3 lib s name child rest path)
  then show ?case by (auto split: option.splits json.splits)
qed auto


text \<open>The order in which Go's map iteration visits the fields decides which error is reported, never
  whether there is one.\<close>

lemma map_of_reorder: "distinct (map fst xs) \<Longrightarrow> mset xs = mset ys \<Longrightarrow> map_of xs = map_of ys"
  by (metis distinct_map map_of_inject_set mset_eq_imp_distinct_iff mset_eq_setD mset_map)

lemma validate_field_order:
  assumes "distinct (map fst obj)" "mset obj = mset obj'"
  shows "validateJSONSchema lib s (JObj obj) path = None \<longleftrightarrow> validateJSONSchema lib s (JObj obj') path = None"
proof -
  have m: "map_of obj = map_of obj'" and l: "length obj = length obj'" and st: "set obj = set obj'"
    using assms map_of_reorder [OF assms] by (auto dest: mset_eq_length mset_eq_setD)
  have e: "json_eq c (JObj obj) = json_eq c (JObj obj')" for c
    by (cases c) (auto simp: obj_sub_iff m l)
  have n: "matches_type_name l t (JObj obj) = matches_type_name l t (JObj obj')" for l t
    by (simp add: matches_type_name_def Let_def)
  have "matchesSchemaType lib t (JObj obj) = matchesSchemaType lib t (JObj obj')"
    "matches_any_type lib ts (JObj obj) = matches_any_type lib ts (JObj obj')" for t ts
    by (induction lib t "JObj obj" and lib ts "JObj obj" rule: matchesSchemaType_matches_any_type.induct)
      (auto split: json.splits simp: n)
  then show ?thesis
    by (simp add: validate_sound_complete conforms_JObj enum_admits_def type_admits_def e st)
qed

end
