(* ===== verification/Tool_Policy.thy ===== *)
theory Tool_Policy
  imports Go_Json
begin

text \<open>
  The policy around a tool call: the tool metadata and host lists of
  \<^verbatim>\<open>internal/runtime/toolruntime/tool.go\<close>, and the hook chain of
  \<^verbatim>\<open>internal/runtime/harness/hooks/tool_hooks.go\<close> with its two stock hooks: the policy hook that denies a
  call, asks for approval or bounds its time, and the observation hook that redacts and shortens a
  result. \<^verbatim>\<open>strutil\<close>'s truncation is here too.

  A \<^verbatim>\<open>context.Context\<close> is the list of the timeouts put on the run's context, innermost last, so a
  \<^verbatim>\<open>nil\<close> context is \<open>None\<close> and \<^verbatim>\<open>context.WithTimeout\<close> appends to the list. An error is its message.
\<close>

section \<open>Metadata and hosts (tool.go)\<close>

record tool_metadata =
  tm_RiskLevel :: string
  tm_RequiresApproval :: bool
  tm_TimeoutMS :: int
  tm_MaxOutputBytes :: int
  tm_SideEffect :: string
  tm_AllowedHosts :: "string list"
  tm_ExecutionClass :: string

definition RiskLow :: string where "RiskLow = ''low''"
definition SideEffectNone :: string where "SideEffectNone = ''none''"
definition SideEffectRead :: string where "SideEffectRead = ''read''"
definition ExecutionSerial :: string where "ExecutionSerial = ''serial''"
definition ExecutionDelegation :: string where "ExecutionDelegation = ''delegation''"

definition no_metadata :: tool_metadata where
  "no_metadata = \<lparr>tm_RiskLevel = [], tm_RequiresApproval = False, tm_TimeoutMS = 0, tm_MaxOutputBytes = 0,
     tm_SideEffect = [], tm_AllowedHosts = [], tm_ExecutionClass = []\<rparr>"

text \<open>A \<^verbatim>\<open>RuntimeTool\<close>: what the pipeline reads of it. \<open>rt_Metadata\<close> is \<open>None\<close> for a tool that is not a
  \<^verbatim>\<open>MetadataProvider\<close>; what \<^verbatim>\<open>Execute\<close> does is the outcome of an execution.\<close>

record runtime_tool =
  rt_Name :: string
  rt_Description :: string
  rt_Parameters :: string
  rt_Metadata :: "tool_metadata option"

definition MetadataOf :: "runtime_tool option \<Rightarrow> tool_metadata" where
  "MetadataOf tool =
     (case tool of
        None \<Rightarrow> no_metadata\<lparr>tm_RiskLevel := RiskLow, tm_SideEffect := SideEffectNone\<rparr>
      | Some t \<Rightarrow>
         (case rt_Metadata t of
            Some m \<Rightarrow> m\<lparr>tm_RiskLevel := (if tm_RiskLevel m = [] then RiskLow else tm_RiskLevel m),
              tm_SideEffect := (if tm_SideEffect m = [] then SideEffectNone else tm_SideEffect m),
              tm_ExecutionClass := (if tm_ExecutionClass m = [] then ExecutionSerial else tm_ExecutionClass m)\<rparr>
          | None \<Rightarrow> no_metadata\<lparr>tm_RiskLevel := RiskLow, tm_SideEffect := SideEffectNone,
              tm_ExecutionClass := ExecutionSerial\<rparr>))"

definition EffectiveLimit :: "int \<Rightarrow> int \<Rightarrow> int" where
  "EffectiveLimit v cap = (if 0 < cap \<and> (v \<le> 0 \<or> cap < v) then cap else v)"

text \<open>\<^verbatim>\<open>host[:strings.LastIndexByte(host, ':')]\<close> when the index is positive.\<close>

definition cut_last_colon :: "string \<Rightarrow> string" where
  "cut_last_colon h =
     (let r = dropWhile (\<lambda>c. c \<noteq> CHR '':'') (rev h) in if length r \<le> 1 then h else rev (tl r))"

definition NormalizeHost :: "go_lib \<Rightarrow> string \<Rightarrow> string" where
  "NormalizeHost lib host =
     (let host = TrimSpace (ToLower lib host);
          host = TrimPrefix host ''http://'';
          host = TrimPrefix host ''https://'';
          host = takeWhile (\<lambda>c. c \<noteq> CHR ''/'') host
      in cut_last_colon host)"

fun normalize_hosts :: "go_lib \<Rightarrow> string list \<Rightarrow> string list \<Rightarrow> string list" where
  "normalize_hosts lib seen [] = []"
| "normalize_hosts lib seen (h # hs) =
     (let n = NormalizeHost lib h in
      if n = [] \<or> n \<in> set seen then normalize_hosts lib seen hs
      else n # normalize_hosts lib (n # seen) hs)"

definition NormalizeHosts :: "go_lib \<Rightarrow> string list \<Rightarrow> string list" where
  "NormalizeHosts lib hosts = normalize_hosts lib [] hosts"

fun check_hosts :: "go_lib \<Rightarrow> string list \<Rightarrow> string list \<Rightarrow> string option" where
  "check_hosts lib allowed [] = None"
| "check_hosts lib allowed (h # hs) =
     (let n = NormalizeHost lib h in
      if n = [] then check_hosts lib allowed hs
      else if n \<notin> set allowed then Some (''tool host '' @ n @ '' is not allowed by policy'')
      else check_hosts lib allowed hs)"

definition ValidateAllowedHosts :: "go_lib \<Rightarrow> string list \<Rightarrow> string list \<Rightarrow> bool \<Rightarrow> string option" where
  "ValidateAllowedHosts lib toolHosts policyHosts denyAll =
     (if denyAll \<and> toolHosts \<noteq> [] then Some ''tool hosts are denied by intersected policy allowlists''
      else let allowed = NormalizeHosts lib policyHosts in
        if allowed = [] \<or> toolHosts = [] then None
        else check_hosts lib allowed toolHosts)"

section \<open>Policies and hooks (tool\_hooks.go)\<close>

type_synonym gctx = "int list"

record policy_binding =
  pb_RuleID :: string
  pb_PolicyKey :: string
  pb_Params :: string

record tool_policy =
  tp_RequireApprovalForRisk :: "string list"
  tp_MaxToolTimeoutMS :: int
  tp_MaxToolOutputBytes :: int
  tp_AllowedHosts :: "string list"
  tp_RuleBindings :: "policy_binding list"
  tp_DenyAllHosts :: bool

record hook_approval =
  ha_ToolCallID :: string
  ha_ToolName :: string
  ha_RiskLevel :: string
  ha_Reason :: string
  ha_Metadata :: tool_metadata

record hook_trace =
  ht_Stage :: string
  ht_Hook :: string
  ht_Decision :: string
  ht_Reason :: string
  ht_Compressed :: bool
  ht_RuleID :: string
  ht_PolicyKey :: string

definition mk_trace :: "string \<Rightarrow> string \<Rightarrow> string \<Rightarrow> string \<Rightarrow> hook_trace" where
  "mk_trace stage hook decision reason =
     \<lparr>ht_Stage = stage, ht_Hook = hook, ht_Decision = decision, ht_Reason = reason,
      ht_Compressed = False, ht_RuleID = [], ht_PolicyKey = []\<rparr>"

record pre_request =
  pq_ToolCallID :: string
  pq_ToolName :: string
  pq_Arguments :: string
  pq_Metadata :: tool_metadata
  pq_Policy :: tool_policy

record pre_result =
  pr_Context :: "gctx option"
  pr_Cancel :: bool
  pr_Approval :: "hook_approval option"
  pr_Denied :: "string option"
  pr_Traces :: "hook_trace list"

record post_request =
  po_ToolName :: string
  po_Content :: string
  po_OutputJSON :: string
  po_Metadata :: tool_metadata
  po_Policy :: tool_policy
  po_SensitiveFields :: "string list"

record post_result =
  ps_Content :: string
  ps_OutputJSON :: string
  ps_Compressed :: bool
  ps_Traces :: "hook_trace list"

type_synonym pre_hook = "gctx option \<Rightarrow> pre_request \<Rightarrow> pre_result"
type_synonym post_hook = "post_request \<Rightarrow> post_result"

record hook_chain =
  hc_Pre :: "pre_hook option list"
  hc_Post :: "post_hook option list"

text \<open>\<^verbatim>\<open>ToolHookChain.BeforeToolUse\<close>: the first hook that asks for approval or denies ends the chain.\<close>

fun run_pre :: "pre_request \<Rightarrow> pre_result \<Rightarrow> pre_hook option list \<Rightarrow> pre_result" where
  "run_pre req result [] = result"
| "run_pre req result (None # hooks) = run_pre req result hooks"
| "run_pre req result (Some hook # hooks) =
     (let next = hook (pr_Context result) req;
          result = result\<lparr>pr_Traces := pr_Traces result @ pr_Traces next,
            pr_Context := (if pr_Context next \<noteq> None then pr_Context next else pr_Context result),
            pr_Cancel := pr_Cancel next \<or> pr_Cancel result\<rparr>
      in if pr_Approval next \<noteq> None then result\<lparr>pr_Approval := pr_Approval next\<rparr>
         else if pr_Denied next \<noteq> None then result\<lparr>pr_Denied := pr_Denied next\<rparr>
         else run_pre req result hooks)"

definition BeforeToolUse :: "hook_chain \<Rightarrow> gctx \<Rightarrow> pre_request \<Rightarrow> pre_result" where
  "BeforeToolUse c ctx req =
     run_pre req \<lparr>pr_Context = Some ctx, pr_Cancel = False, pr_Approval = None, pr_Denied = None, pr_Traces = []\<rparr> (hc_Pre c)"

fun run_post :: "post_request \<Rightarrow> post_result \<Rightarrow> post_hook option list \<Rightarrow> post_result" where
  "run_post current result [] = result"
| "run_post current result (None # hooks) = run_post current result hooks"
| "run_post current result (Some hook # hooks) =
     (let next = hook current;
          result = result\<lparr>ps_Traces := ps_Traces result @ ps_Traces next, ps_Content := ps_Content next,
            ps_OutputJSON := ps_OutputJSON next, ps_Compressed := ps_Compressed result \<or> ps_Compressed next\<rparr>
      in run_post (current\<lparr>po_Content := ps_Content result, po_OutputJSON := ps_OutputJSON result\<rparr>) result hooks)"

definition AfterToolUse :: "hook_chain \<Rightarrow> post_request \<Rightarrow> post_result" where
  "AfterToolUse c req =
     run_post req \<lparr>ps_Content = po_Content req, ps_OutputJSON = po_OutputJSON req, ps_Compressed = False, ps_Traces = []\<rparr>
       (hc_Post c)"

definition PolicyDangerousArgumentsDeny :: string where
  "PolicyDangerousArgumentsDeny = ''tool.dangerous_arguments.deny''"
definition PolicyRiskRequireApproval :: string where
  "PolicyRiskRequireApproval = ''tool.risk.require_approval''"
definition PolicyHostAllowlist :: string where
  "PolicyHostAllowlist = ''tool.host.allowlist''"
definition PolicyExecutionLimits :: string where
  "PolicyExecutionLimits = ''tool.execution_limits''"

lemmas policy_keys = PolicyDangerousArgumentsDeny_def PolicyRiskRequireApproval_def
  PolicyHostAllowlist_def PolicyExecutionLimits_def

fun appendUniqueFold :: "go_lib \<Rightarrow> string list \<Rightarrow> string list \<Rightarrow> string list" where
  "appendUniqueFold lib vs [] = vs"
| "appendUniqueFold lib vs (a # additions) =
     (let a = TrimSpace a in
      if a = [] then appendUniqueFold lib vs additions
      else if list_ex (\<lambda>e. EqualFold lib e a) vs then appendUniqueFold lib vs additions
      else appendUniqueFold lib (vs @ [a]) additions)"

definition intersectAllowedHosts :: "go_lib \<Rightarrow> string list \<Rightarrow> string list \<Rightarrow> string list \<times> bool" where
  "intersectAllowedHosts lib current constraint =
     (let left = NormalizeHosts lib current; right = NormalizeHosts lib constraint in
      if left = [] then (right, right = [])
      else if right = [] then ([], True)
      else let allowed = filter (\<lambda>h. h \<in> set right) left in (allowed, allowed = []))"

definition minimumPositive :: "int \<Rightarrow> int \<Rightarrow> int" where
  "minimumPositive current constraint =
     (if constraint \<le> 0 then current else if current \<le> 0 \<or> constraint < current then constraint else current)"

text \<open>One binding of \<^verbatim>\<open>applyRuleBindings\<close>: the policy it leads to, or the error.\<close>

definition apply_binding :: "go_lib \<Rightarrow> tool_policy \<Rightarrow> policy_binding \<Rightarrow> string + tool_policy" where
  "apply_binding lib eff b =
     (let key = TrimSpace (pb_PolicyKey b);
          raw = (if pb_Params b = [] \<or> pb_Params b = ''null'' then ''{}'' else pb_Params b);
          fail = (\<lambda>what e. Inl (''rule '' @ pb_RuleID b @ what @ e))
      in if key = PolicyDangerousArgumentsDeny then
           (case unmarshal_empty lib raw of Some e \<Rightarrow> fail '' dangerous-arguments params: '' e | None \<Rightarrow> Inr eff)
         else if key = PolicyRiskRequireApproval then
           (case unmarshal_strings lib ''risk_levels'' raw of
              Inl e \<Rightarrow> fail '' approval params: '' e
            | Inr levels \<Rightarrow> Inr (eff\<lparr>tp_RequireApprovalForRisk :=
                appendUniqueFold lib (tp_RequireApprovalForRisk eff) levels\<rparr>))
         else if key = PolicyHostAllowlist then
           (case unmarshal_strings lib ''allowed_hosts'' raw of
              Inl e \<Rightarrow> fail '' host allowlist params: '' e
            | Inr hosts \<Rightarrow>
               (let (allowed, denyAll) = intersectAllowedHosts lib (tp_AllowedHosts eff) hosts
                in Inr (eff\<lparr>tp_AllowedHosts := allowed, tp_DenyAllHosts := tp_DenyAllHosts eff \<or> denyAll\<rparr>)))
         else if key = PolicyExecutionLimits then
           (case unmarshal_ints lib ''max_tool_timeout_ms'' ''max_tool_output_bytes'' raw of
              Inl e \<Rightarrow> fail '' execution limits params: '' e
            | Inr (timeout, bytes) \<Rightarrow> Inr (eff\<lparr>tp_MaxToolTimeoutMS := minimumPositive (tp_MaxToolTimeoutMS eff) timeout,
                tp_MaxToolOutputBytes := minimumPositive (tp_MaxToolOutputBytes eff) bytes\<rparr>))
         else Inl (''rule '' @ pb_RuleID b @ '' uses unknown policy binding '' @ quote lib key))"

definition binding_trace :: "policy_binding \<Rightarrow> hook_trace" where
  "binding_trace b = (mk_trace ''pre_tool_use'' ''rule_policy'' ''applied'' [])
     \<lparr>ht_RuleID := pb_RuleID b, ht_PolicyKey := TrimSpace (pb_PolicyKey b)\<rparr>"

fun apply_bindings :: "go_lib \<Rightarrow> tool_policy \<Rightarrow> hook_trace list \<Rightarrow> policy_binding list \<Rightarrow>
    tool_policy \<times> hook_trace list \<times> string option" where
  "apply_bindings lib eff traces [] = (eff, traces, None)"
| "apply_bindings lib eff traces (b # bs) =
     (case apply_binding lib eff b of
        Inl e \<Rightarrow> (eff, traces, Some e)
      | Inr eff' \<Rightarrow> apply_bindings lib eff' (traces @ [binding_trace b]) bs)"

definition applyRuleBindings :: "go_lib \<Rightarrow> tool_policy \<Rightarrow> tool_policy \<times> hook_trace list \<times> string option" where
  "applyRuleBindings lib policy =
     apply_bindings lib (policy\<lparr>tp_RuleBindings := []\<rparr>) [] (tp_RuleBindings policy)"

definition dangerous_patterns :: "string list" where
  "dangerous_patterns = [''rm -rf /'', ''rm -fr /'', ''rm -rf /*'', ''rm -fr /*'', ''sudo rm -rf'', ''mkfs.'', ''mkfs '',
     ''mkswap '', ''dd if='', ''dd '', '' of=/dev/'', '':(){'', '': () {'', ''fork bomb'', ''/dev/sda'', ''/dev/disk'',
     ''/dev/nvme'', ''curl '', ''| sh'', ''| bash'', ''bash <('', ''sh <('', ''wget '', ''chmod -r 777 /'', ''chown -r '',
     ''> /etc/'', ''tee /etc/'', ''launchctl unload'', ''systemctl disable'', ''iptables -f'', ''pfctl -d'', ''bash -c'',
     ''sh -c'', ''network_enabled'' @ [CHR 0x22] @ '':true'', ''network_enabled'' @ [CHR 0x22] @ '': true'']"

definition command_tool :: "string \<Rightarrow> bool" where
  "command_tool toolName \<longleftrightarrow> Contains toolName ''shell'' \<or> Contains toolName ''sandbox'' \<or>
     Contains toolName ''python'' \<or> Contains toolName ''execute''"

definition dangerousToolArgumentReason :: "go_lib \<Rightarrow> pre_request \<Rightarrow> string" where
  "dangerousToolArgumentReason lib req =
     (let toolName = ToLower lib (TrimSpace (pq_ToolName req)) in
      if toolName = [] \<or> pq_Arguments req = [] then []
      else if \<not> command_tool toolName then []
      else let payload = Join (Fields (ToLower lib (pq_Arguments req))) '' '' in
        if payload = [] then []
        else case find (Contains payload) dangerous_patterns of Some p \<Rightarrow> p | None \<Rightarrow> [])"

definition ShouldRequireApprovalForRisk :: "go_lib \<Rightarrow> string \<Rightarrow> bool \<Rightarrow> string list \<Rightarrow> string \<times> bool" where
  "ShouldRequireApprovalForRisk lib riskLevel requires policyRisks =
     (let risk = TrimSpace riskLevel; risk = (if risk = [] then RiskLow else risk)
      in (risk, requires \<or> list_ex (\<lambda>item. EqualFold lib (TrimSpace item) risk) policyRisks))"

definition approval_reason :: "go_lib \<Rightarrow> pre_request \<Rightarrow> string \<Rightarrow> string" where
  "approval_reason lib req risk =
     (let reason = ''tool '' @ pq_ToolName req @ '' requires human approval because risk level is '' @ risk in
      if EqualFold lib (pq_ToolName req) ''request_human_approval'' then
        (case unmarshal_text lib ''action'' ''reason'' (pq_Arguments req) of
           Inl e \<Rightarrow> reason
         | Inr (action, why) \<Rightarrow>
            (let parts = (if TrimSpace action \<noteq> [] then [''action: '' @ TrimSpace action] else []) @
                         (if TrimSpace why \<noteq> [] then [''reason: '' @ TrimSpace why] else [])
             in if parts \<noteq> [] then Join parts ''; '' else reason))
      else reason)"

definition requiredApproval :: "go_lib \<Rightarrow> pre_request \<Rightarrow> hook_approval option" where
  "requiredApproval lib req =
     (let (risk, required) = ShouldRequireApprovalForRisk lib (tm_RiskLevel (pq_Metadata req))
            (tm_RequiresApproval (pq_Metadata req)) (tp_RequireApprovalForRisk (pq_Policy req))
      in if \<not> required then None
         else Some \<lparr>ha_ToolCallID = pq_ToolCallID req, ha_ToolName = pq_ToolName req, ha_RiskLevel = risk,
           ha_Reason = approval_reason lib req risk, ha_Metadata = pq_Metadata req\<rparr>)"

definition deny :: "gctx option \<Rightarrow> hook_trace list \<Rightarrow> string \<Rightarrow> string \<Rightarrow> pre_result" where
  "deny ctx traces hook e =
     \<lparr>pr_Context = ctx, pr_Cancel = False, pr_Approval = None, pr_Denied = Some e,
      pr_Traces = traces @ [mk_trace ''pre_tool_use'' hook ''denied'' e]\<rparr>"

definition policy_pre_hook :: "go_lib \<Rightarrow> pre_hook" where
  "policy_pre_hook lib ctx req0 =
     (let (effective, traces, bindingErr) = applyRuleBindings lib (pq_Policy req0) in
      case bindingErr of
        Some e \<Rightarrow> deny ctx traces ''rule_policy'' (''rule policy evaluation failed closed: '' @ e)
      | None \<Rightarrow>
         (let req = req0\<lparr>pq_Policy := effective\<rparr>; danger = dangerousToolArgumentReason lib req in
          if danger \<noteq> [] then deny ctx traces ''policy'' (''dangerous tool invocation blocked: '' @ danger)
          else case ValidateAllowedHosts lib (tm_AllowedHosts (pq_Metadata req)) (tp_AllowedHosts effective)
                 (tp_DenyAllHosts effective) of
            Some e \<Rightarrow> deny ctx traces ''policy'' e
          | None \<Rightarrow>
             (case requiredApproval lib req of
                Some approval \<Rightarrow>
                  \<lparr>pr_Context = ctx, pr_Cancel = False, pr_Approval = Some approval, pr_Denied = None,
                   pr_Traces = traces @ [mk_trace ''pre_tool_use'' ''policy'' ''approval_required'' (ha_Reason approval)]\<rparr>
              | None \<Rightarrow>
                 (let timeoutMS = EffectiveLimit (tm_TimeoutMS (pq_Metadata req)) (tp_MaxToolTimeoutMS effective) in
                  if timeoutMS \<le> 0 then
                    \<lparr>pr_Context = ctx, pr_Cancel = False, pr_Approval = None, pr_Denied = None,
                     pr_Traces = traces @ [mk_trace ''pre_tool_use'' ''policy'' ''allowed'' []]\<rparr>
                  else
                    \<lparr>pr_Context = Some ((case ctx of None \<Rightarrow> [] | Some c \<Rightarrow> c) @ [timeoutMS]), pr_Cancel = True, pr_Approval = None,
                     pr_Denied = None,
                     pr_Traces = traces @ [mk_trace ''pre_tool_use'' ''policy'' ''allowed'' (''timeout_ms='' @ itoa timeoutMS)]\<rparr>))))"

text \<open>\<^verbatim>\<open>strutil\<close>: cut at a byte limit and mark the cut.\<close>

definition TruncateWithSuffixFlag :: "string \<Rightarrow> int \<Rightarrow> string \<Rightarrow> string \<times> bool" where
  "TruncateWithSuffixFlag v maxBytes mark =
     (if maxBytes \<le> 0 \<or> int (length v) \<le> maxBytes then (v, False) else (take (nat maxBytes) v @ mark, True))"

definition TruncateRawJSONWithSuffix :: "go_lib \<Rightarrow> string \<Rightarrow> int \<Rightarrow> string \<Rightarrow> string \<times> bool" where
  "TruncateRawJSONWithSuffix lib raw maxBytes mark =
     (if maxBytes \<le> 0 \<or> int (length raw) \<le> maxBytes then (raw, False)
      else ((case marshal lib (JStr (fst (TruncateWithSuffixFlag raw maxBytes mark))) of Some d \<Rightarrow> d | None \<Rightarrow> []), True))"

definition DefaultSensitiveFields :: "string list" where
  "DefaultSensitiveFields = [''api_key'', ''apikey'', ''authorization'', ''access_token'', ''refresh_token'', ''token'',
     ''password'', ''secret'']"

definition redacted :: json where "redacted = JStr ''[REDACTED]''"

text \<open>\<^verbatim>\<open>if _, ok := m[field]; ok { m[field] = "[REDACTED]" }\<close> for each field.\<close>

definition redact_entries :: "string list \<Rightarrow> json_object \<Rightarrow> json_object" where
  "redact_entries names m = map (\<lambda>(k, v). (k, if k \<in> set names then redacted else v)) m"

definition RedactSensitiveFields :: "go_lib \<Rightarrow> string \<Rightarrow> string list \<Rightarrow> string" where
  "RedactSensitiveFields lib raw names =
     (if names = [] \<or> raw = [] then raw
      else case unmarshal_map lib raw of
        Inl e \<Rightarrow> raw
      | Inr m \<Rightarrow> (case marshal lib (JObj (redact_entries names m)) of None \<Rightarrow> raw | Some out \<Rightarrow> out))"

definition truncated_mark :: string where "truncated_mark = ''...[truncated]''"

definition observation_post_hook :: "go_lib \<Rightarrow> post_hook" where
  "observation_post_hook lib req =
     (let names = (if po_SensitiveFields req = [] then DefaultSensitiveFields else po_SensitiveFields req);
          raw = RedactSensitiveFields lib (po_OutputJSON req) names;
          content = (if raw \<noteq> [] \<and> raw \<noteq> po_OutputJSON req \<and>
                        TrimSpace (po_Content req) = TrimSpace (po_OutputJSON req)
                     then raw else po_Content req);
          maxBytes = EffectiveLimit (tm_MaxOutputBytes (po_Metadata req)) (tp_MaxToolOutputBytes (po_Policy req))
      in if maxBytes \<le> 0 then
           \<lparr>ps_Content = content, ps_OutputJSON = raw, ps_Compressed = False,
            ps_Traces = [mk_trace ''post_tool_use'' ''observation'' ''recorded'' []]\<rparr>
         else
           (let (c, cc) = TruncateWithSuffixFlag content maxBytes truncated_mark;
                (j, jc) = TruncateRawJSONWithSuffix lib raw maxBytes truncated_mark;
                compressed = cc \<or> jc
            in \<lparr>ps_Content = c, ps_OutputJSON = j, ps_Compressed = compressed,
                ps_Traces = [(mk_trace ''post_tool_use'' ''observation'' (if compressed then ''compressed'' else ''recorded'') [])
                  \<lparr>ht_Compressed := compressed\<rparr>]\<rparr>))"

definition DefaultToolHookChain :: "go_lib \<Rightarrow> hook_chain" where
  "DefaultToolHookChain lib = \<lparr>hc_Pre = [Some (policy_pre_hook lib)], hc_Post = [Some (observation_post_hook lib)]\<rparr>"

end
