(* ===== verification/Tool_Calls.thy ===== *)
theory Tool_Calls
  imports Tool_Schema Tool_Policy Model_Stream
begin

text \<open>
  From the calls a model asks for to the results it gets: the normaliser
  (\<^verbatim>\<open>internal/runtime/agent/tool_normalizer.go\<close>), the planner that groups a batch into segments
  (\<^verbatim>\<open>tool_batch_planner.go\<close>), the executor that runs the segments (\<^verbatim>\<open>tool_batch_executor.go\<close>) and the
  delegation guard (\<^verbatim>\<open>delegation_guard.go\<close>).

  The maps of the normaliser are entry lists; \<^verbatim>\<open>range\<close> visits them in list order, and the statements
  hold for every order. A resolved name is always the name of a tool, so the branch of \<open>Normalize\<close> for a
  missing tool (a \<^verbatim>\<open>nil\<close> dereference in Go) is never taken. The goroutines of a parallel segment are a step relation on the states of
  the goroutines; \<open>ExecuteToolBatch\<close> is the function from the outcome of each call to the result list.
\<close>

section \<open>Normalisation\<close>

datatype issue_code = MissingName | UnknownName | AmbiguousName | InvalidJSON | InvalidArguments | InvalidAlias

fun issue_name :: "issue_code \<Rightarrow> string" where
  "issue_name MissingName = ''missing_name''"
| "issue_name UnknownName = ''unknown_name''"
| "issue_name AmbiguousName = ''ambiguous_name''"
| "issue_name InvalidJSON = ''invalid_json''"
| "issue_name InvalidArguments = ''invalid_arguments''"
| "issue_name InvalidAlias = ''invalid_alias''"

record call_issue =
  ci_Code :: issue_code
  ci_Message :: string

record normalized_call =
  nc_Call :: tool_call
  nc_Tool :: "runtime_tool option"
  nc_Metadata :: tool_metadata
  nc_Issue :: "call_issue option"

record normalizer =
  nz_Tools :: "(string \<times> runtime_tool) list"
  nz_Aliases :: "(string \<times> string) list"
  nz_CaseInsensitive :: bool

fun add_tools :: "go_lib \<Rightarrow> (string \<times> runtime_tool) list \<Rightarrow> runtime_tool option list \<Rightarrow>
    string + (string \<times> runtime_tool) list" where
  "add_tools lib acc [] = Inr acc"
| "add_tools lib acc (None # ts) = add_tools lib acc ts"
| "add_tools lib acc (Some t # ts) =
     (let name = TrimSpace (rt_Name t) in
      if name = [] then add_tools lib acc ts
      else if map_of acc name \<noteq> None then Inl (''duplicate tool name '' @ quote lib name)
      else add_tools lib (acc @ [(name, t)]) ts)"

fun add_aliases :: "go_lib \<Rightarrow> (string \<times> runtime_tool) list \<Rightarrow> (string \<times> string) list \<Rightarrow> (string \<times> string) list \<Rightarrow>
    string + (string \<times> string) list" where
  "add_aliases lib tools acc [] = Inr acc"
| "add_aliases lib tools acc ((alias0, target0) # rest) =
     (let alias = TrimSpace alias0; target = TrimSpace target0 in
      if alias = [] \<or> target = [] then Inl ''tool alias and target must not be empty''
      else if map_of acc alias \<noteq> None then Inl (''duplicate tool alias '' @ quote lib alias)
      else if map_of tools target = None
        then Inl (''tool alias '' @ quote lib alias @ '' points to unknown tool '' @ quote lib target)
      else add_aliases lib tools (acc @ [(alias, target)]) rest)"

definition NewToolCallNormalizer ::
    "go_lib \<Rightarrow> runtime_tool option list \<Rightarrow> (string \<times> string) list \<Rightarrow> string + normalizer" where
  "NewToolCallNormalizer lib tools aliases =
     (case add_tools lib [] tools of
        Inl e \<Rightarrow> Inl e
      | Inr ts \<Rightarrow>
         (case add_aliases lib ts [] aliases of
            Inl e \<Rightarrow> Inl e
          | Inr as \<Rightarrow> Inr \<lparr>nz_Tools = ts, nz_Aliases = as, nz_CaseInsensitive = True\<rparr>))"

text \<open>\<^verbatim>\<open>uniqueStrings\<close>: the first occurrence of each value.\<close>

fun unique_from :: "string list \<Rightarrow> string list \<Rightarrow> string list" where
  "unique_from seen [] = []"
| "unique_from seen (v # vs) =
     (if v \<in> set seen then unique_from seen vs else v # unique_from (v # seen) vs)"

definition uniqueStrings :: "string list \<Rightarrow> string list" where
  "uniqueStrings vs = unique_from [] vs"

definition unavailable :: "go_lib \<Rightarrow> string \<Rightarrow> call_issue" where
  "unavailable lib name = \<lparr>ci_Code = UnknownName, ci_Message = ''tool '' @ quote lib name @ '' is not available''\<rparr>"

definition name_candidates :: "go_lib \<Rightarrow> normalizer \<Rightarrow> string \<Rightarrow> string list" where
  "name_candidates lib n name =
     (let needle = ToLower lib name in
      uniqueStrings (map fst (filter (\<lambda>(canonical, _). ToLower lib canonical = needle) (nz_Tools n)) @
        map snd (filter (\<lambda>(alias, _). ToLower lib alias = needle) (nz_Aliases n))))"

definition resolveName :: "go_lib \<Rightarrow> normalizer \<Rightarrow> string \<Rightarrow> call_issue + string" where
  "resolveName lib n name =
     (if map_of (nz_Tools n) name \<noteq> None then Inr name
      else case map_of (nz_Aliases n) name of
        Some target \<Rightarrow> Inr target
      | None \<Rightarrow>
          if \<not> nz_CaseInsensitive n then Inl (unavailable lib name)
          else (case name_candidates lib n name of
              [] \<Rightarrow> Inl (unavailable lib name)
            | [c] \<Rightarrow> Inr c
            | _ \<Rightarrow> Inl \<lparr>ci_Code = AmbiguousName, ci_Message = ''tool name '' @ quote lib name @ '' is ambiguous''\<rparr>))"

definition generatedToolCallID :: "go_lib \<Rightarrow> nat \<Rightarrow> tool_call \<Rightarrow> string" where
  "generatedToolCallID lib index call =
     ''call_'' @ take 16 (sha256_hex lib
        (itoa (int index) @ [CHR 0x00] @ TrimSpace (tc_Name call) @ [CHR 0x00] @ tc_Arguments call))"

definition check_arguments :: "go_lib \<Rightarrow> runtime_tool \<Rightarrow> normalized_call \<Rightarrow> normalized_call" where
  "check_arguments lib tool item =
     (case ValidateToolArguments lib (rt_Parameters tool) (tc_Arguments (nc_Call item)) of
        Some e \<Rightarrow> item\<lparr>nc_Issue := Some \<lparr>ci_Code = InvalidArguments, ci_Message = e\<rparr>\<rparr>
      | None \<Rightarrow> item)"

definition Normalize :: "go_lib \<Rightarrow> normalizer \<Rightarrow> tool_call \<Rightarrow> nat \<Rightarrow> normalized_call" where
  "Normalize lib n call index =
     (let id0 = TrimSpace (tc_ID call);
          call1 = call\<lparr>tc_ID := (if id0 = [] then generatedToolCallID lib index call else id0),
                       tc_Name := TrimSpace (tc_Name call)\<rparr>;
          item = \<lparr>nc_Call = call1, nc_Tool = None, nc_Metadata = no_metadata, nc_Issue = None\<rparr>
      in if tc_Name call1 = [] then item\<lparr>nc_Issue := Some \<lparr>ci_Code = MissingName, ci_Message = ''tool name is required''\<rparr>\<rparr>
         else case resolveName lib n (tc_Name call1) of
           Inl issue \<Rightarrow> item\<lparr>nc_Issue := Some issue\<rparr>
         | Inr canonical \<Rightarrow>
            (let tool = map_of (nz_Tools n) canonical;
                 args = TrimSpace (tc_Arguments call1);
                 item = item\<lparr>nc_Call := call1\<lparr>tc_Name := canonical\<rparr>, nc_Tool := tool, nc_Metadata := MetadataOf tool\<rparr>
             in if args = [] \<or> args = ''null''
                then (case tool of None \<Rightarrow> item
                      | Some t \<Rightarrow> check_arguments lib t (item\<lparr>nc_Call := (nc_Call item)\<lparr>tc_Arguments := ''{}''\<rparr>\<rparr>))
                else if \<not> json_Valid lib (tc_Arguments call1)
                  then item\<lparr>nc_Issue := Some \<lparr>ci_Code = InvalidJSON, ci_Message = ''tool arguments must be valid JSON''\<rparr>\<rparr>
                else (case tool of None \<Rightarrow> item | Some t \<Rightarrow> check_arguments lib t item)))"

definition uniqueToolCallID :: "string \<Rightarrow> (string \<Rightarrow> nat) \<Rightarrow> string \<times> (string \<Rightarrow> nat)" where
  "uniqueToolCallID base0 used =
     (let base = TrimSpace base0; base = (if base = [] then ''call_unknown'' else base);
          count = used base; used = used(base := count + 1)
      in if count = 0 then (base, used) else (base @ ''_'' @ itoa (int (count + 1)), used))"

fun normalize_from :: "go_lib \<Rightarrow> normalizer \<Rightarrow> nat \<Rightarrow> (string \<Rightarrow> nat) \<Rightarrow> tool_call list \<Rightarrow> normalized_call list" where
  "normalize_from lib n index used [] = []"
| "normalize_from lib n index used (call # calls) =
     (let item = Normalize lib n call index;
          baseID = (if tc_ID (nc_Call item) = [] then generatedToolCallID lib index (nc_Call item)
                    else tc_ID (nc_Call item));
          (id, used) = uniqueToolCallID baseID used
      in item\<lparr>nc_Call := (nc_Call item)\<lparr>tc_ID := id\<rparr>\<rparr> # normalize_from lib n (Suc index) used calls)"

definition NormalizeBatch :: "go_lib \<Rightarrow> normalizer \<Rightarrow> tool_call list \<Rightarrow> normalized_call list" where
  "NormalizeBatch lib n calls = normalize_from lib n 0 (\<lambda>_. 0) calls"

section \<open>Planning\<close>

record batch_item =
  bi_Index :: nat
  bi_Call :: normalized_call

record batch_segment =
  bs_Parallel :: bool
  bs_Items :: "batch_item list"

type_synonym conflict_keys = "(tool_call \<Rightarrow> tool_metadata \<Rightarrow> string) option"

definition parallelizable :: "conflict_keys \<Rightarrow> normalized_call \<Rightarrow> bool" where
  "parallelizable conflicts call =
     (let metadata = nc_Metadata call;
          key = (case conflicts of None \<Rightarrow> [] | Some f \<Rightarrow> TrimSpace (f (nc_Call call) metadata));
          readOnly = (tm_SideEffect metadata = SideEffectNone \<or> tm_SideEffect metadata = SideEffectRead);
          delegation = (tm_ExecutionClass metadata = ExecutionDelegation)
      in nc_Issue call = None \<and> (readOnly \<or> delegation) \<and> key = [])"

definition flushParallel :: "batch_item list \<Rightarrow> batch_segment list" where
  "flushParallel pending =
     (if pending = [] then [] else [\<lparr>bs_Parallel = 1 < length pending, bs_Items = pending\<rparr>])"

fun plan_from :: "conflict_keys \<Rightarrow> nat \<Rightarrow> batch_item list \<Rightarrow> normalized_call list \<Rightarrow> batch_segment list" where
  "plan_from conflicts index pending [] = flushParallel pending"
| "plan_from conflicts index pending (call # calls) =
     (let item = \<lparr>bi_Index = index, bi_Call = call\<rparr> in
      if parallelizable conflicts call then plan_from conflicts (Suc index) (pending @ [item]) calls
      else flushParallel pending @ \<lparr>bs_Parallel = False, bs_Items = [item]\<rparr> # plan_from conflicts (Suc index) [] calls)"

definition PlanToolBatch :: "normalized_call list \<Rightarrow> conflict_keys \<Rightarrow> batch_segment list" where
  "PlanToolBatch calls conflicts = plan_from conflicts 0 [] calls"

section \<open>Execution\<close>

record user_question =
  uq_ID :: string
  uq_Header :: string
  uq_Question :: string
  uq_Options :: "(string \<times> string) list"
  uq_IsOther :: bool

record tool_approval =
  ta_Kind :: string
  ta_Title :: string
  ta_Reason :: string
  ta_IsBlocking :: bool
  ta_Options :: "(string \<times> string \<times> string) list"
  ta_Questions :: "user_question list"

record tool_result =
  tr_ContentJSON :: string
  tr_ContentText :: string
  tr_IsError :: bool
  tr_Metadata :: json_object
  tr_Approval :: "tool_approval option"

definition empty_result :: tool_result where
  "empty_result = \<lparr>tr_ContentJSON = [], tr_ContentText = [], tr_IsError = False, tr_Metadata = [], tr_Approval = None\<rparr>"

record batch_execution =
  be_Index :: nat
  be_CallID :: string
  be_Result :: tool_result
  be_Err :: "string option"

text \<open>What \<^verbatim>\<open>execute\<close> gives back: a result that may be \<^verbatim>\<open>nil\<close>, and an error that may be \<^verbatim>\<open>nil\<close>.\<close>

type_synonym outcome = "tool_result option \<times> string option"

definition executeOne :: "(batch_item \<Rightarrow> outcome) \<Rightarrow> batch_item \<Rightarrow> batch_execution" where
  "executeOne execute item =
     (case nc_Issue (bi_Call item) of
        Some issue \<Rightarrow>
          \<lparr>be_Index = bi_Index item, be_CallID = tc_ID (nc_Call (bi_Call item)),
           be_Result = empty_result\<lparr>tr_ContentText := ci_Message issue, tr_IsError := True,
             tr_Metadata := [(''error_code'', JStr (issue_name (ci_Code issue)))]\<rparr>,
           be_Err = Some (issue_name (ci_Code issue) @ '': '' @ ci_Message issue)\<rparr>
      | None \<Rightarrow>
         (let (result, err) = execute item;
              r = (case result of None \<Rightarrow> empty_result | Some r \<Rightarrow> r)
          in \<lparr>be_Index = bi_Index item, be_CallID = tc_ID (nc_Call (bi_Call item)),
              be_Result = (if err \<noteq> None then r\<lparr>tr_IsError := True\<rparr> else r), be_Err = err\<rparr>))"

definition cancelled_execution :: "string \<Rightarrow> batch_item \<Rightarrow> batch_execution" where
  "cancelled_execution e item =
     \<lparr>be_Index = bi_Index item, be_CallID = tc_ID (nc_Call (bi_Call item)),
      be_Result = empty_result\<lparr>tr_ContentText := e, tr_IsError := True, tr_Metadata := [(''error_code'', JStr ''cancelled'')]\<rparr>,
      be_Err = Some e\<rparr>"

definition serial_segment :: "batch_segment \<Rightarrow> bool" where
  "serial_segment segment \<longleftrightarrow> \<not> bs_Parallel segment \<or> length (bs_Items segment) \<le> 1"

text \<open>The result list, from the outcome of each call that ran and the context error of each goroutine
  that found the context done (\<open>cancelled\<close>).\<close>

definition segment_results ::
    "(batch_item \<Rightarrow> outcome) \<Rightarrow> (batch_item \<Rightarrow> string option) \<Rightarrow> batch_segment \<Rightarrow> batch_execution list" where
  "segment_results execute cancelled segment =
     map (\<lambda>item. if serial_segment segment then executeOne execute item
                 else case cancelled item of Some e \<Rightarrow> cancelled_execution e item | None \<Rightarrow> executeOne execute item)
       (bs_Items segment)"

definition ExecuteToolBatch ::
    "(batch_item \<Rightarrow> outcome) \<Rightarrow> (batch_item \<Rightarrow> string option) \<Rightarrow> batch_segment list \<Rightarrow> batch_execution list" where
  "ExecuteToolBatch execute cancelled segments = concat (map (segment_results execute cancelled) segments)"

text \<open>The goroutines of one parallel segment. Each waits for a slot of the semaphore or for the end of the
  context; with a slot it runs its call and then releases the slot. The context may end at any time.\<close>

datatype goroutine = Waiting | Running | Finished batch_execution

record segment_state =
  sg_Done :: bool
  sg_Threads :: "goroutine list"

definition running :: "segment_state \<Rightarrow> nat" where
  "running st = length (filter (\<lambda>g. g = Running) (sg_Threads st))"

definition slots :: "int \<Rightarrow> nat" where
  "slots maxParallel = (if maxParallel \<le> 0 then 1 else nat maxParallel)"

definition segment_start :: "bool \<Rightarrow> batch_item list \<Rightarrow> segment_state" where
  "segment_start done items = \<lparr>sg_Done = done, sg_Threads = replicate (length items) Waiting\<rparr>"

inductive segment_step ::
    "int \<Rightarrow> string \<Rightarrow> (batch_item \<Rightarrow> outcome) \<Rightarrow> batch_item list \<Rightarrow> segment_state \<Rightarrow> segment_state \<Rightarrow> bool"
  for maxParallel ctxErr execute items where
  acquire: "i < length (sg_Threads st) \<Longrightarrow> sg_Threads st ! i = Waiting \<Longrightarrow> running st < slots maxParallel \<Longrightarrow>
     segment_step maxParallel ctxErr execute items st (st\<lparr>sg_Threads := (sg_Threads st)[i := Running]\<rparr>)"
| finish: "i < length (sg_Threads st) \<Longrightarrow> sg_Threads st ! i = Running \<Longrightarrow>
     segment_step maxParallel ctxErr execute items st
       (st\<lparr>sg_Threads := (sg_Threads st)[i := Finished (executeOne execute (items ! i))]\<rparr>)"
| give_up: "i < length (sg_Threads st) \<Longrightarrow> sg_Threads st ! i = Waiting \<Longrightarrow> sg_Done st \<Longrightarrow>
     segment_step maxParallel ctxErr execute items st
       (st\<lparr>sg_Threads := (sg_Threads st)[i := Finished (cancelled_execution ctxErr (items ! i))]\<rparr>)"
| ctx_done: "\<not> sg_Done st \<Longrightarrow> segment_step maxParallel ctxErr execute items st (st\<lparr>sg_Done := True\<rparr>)"

inductive_cases segment_stepE: "segment_step m e ex items st st'"

section \<open>Delegation guard\<close>

definition CheckCallChain :: "int list \<Rightarrow> int \<Rightarrow> int \<Rightarrow> int \<Rightarrow> string option" where
  "CheckCallChain callChain targetID maxDepth currentDepth =
     (if targetID \<in> set callChain
      then Some (''circular delegation detected: agent '' @ itoa targetID @ '' is already in the call chain'')
      else if 0 < maxDepth \<and> maxDepth \<le> currentDepth
      then Some (''max subagent depth exceeded: current='' @ itoa currentDepth @ '' max='' @ itoa maxDepth)
      else None)"

end
