(* ===== verification/Tool_Batch.thy ===== *)
theory Tool_Batch
  imports Tool_Calls
begin

text \<open>
  One tool batch of an agent run (\<^verbatim>\<open>Runner.executeToolBatch\<close> and its helpers in
  \<^verbatim>\<open>internal/runtime/agent/runner.go\<close>), and how a run that stopped for a human is taken up again
  (\<^verbatim>\<open>findUnresolvedToolCalls\<close>, and \<^verbatim>\<open>BuildResumeRequest\<close> with \<^verbatim>\<open>ValidateUserInputAnswers\<close> in
  \<^verbatim>\<open>resumer.go\<close>).

  The runner's state in a batch is the run result and the message list; both are passed and returned.
  What a tool does when it runs is the argument \<open>exec\<close> (its result and error, from the prepared call),
  \<open>cancelled\<close> is the context error a waiting goroutine of a parallel segment saw, if any. The calls
  whose tool was run are returned as well. Instants and latencies come from the runner's clock
  (\<open>rn_CreatedAt\<close> by step number, \<open>rn_LatencyMS\<close> by call). \<open>rr_Emitted\<close> is the list of steps given to
  \<^verbatim>\<open>OnStep\<close>. The parts of a request that a checkpoint copies unread (context trace, rules, reflection
  policy) are one value \<open>rq_Carried\<close>; diagnostics logging is left out.
\<close>

section \<open>State\<close>

record run_step =
  rs_Index :: nat
  rs_Type :: string
  rs_Role :: string
  rs_Content :: string
  rs_ToolCallID :: string
  rs_ToolName :: string
  rs_ArgumentsJSON :: string
  rs_OutputJSON :: string
  rs_Compressed :: bool
  rs_IsError :: bool
  rs_Error :: string
  rs_ErrorCode :: string
  rs_LatencyMS :: int
  rs_ProviderID :: int
  rs_Model :: string
  rs_TokenCount :: int
  rs_CreatedAt :: gotime

record run_approval =
  ra_ToolCallID :: string
  ra_ToolName :: string
  ra_RiskLevel :: string
  ra_Reason :: string
  ra_IsBlocking :: bool
  ra_Metadata :: tool_metadata
  ra_Kind :: string
  ra_Title :: string
  ra_Options :: "(string \<times> string \<times> string) list"
  ra_Questions :: "user_question list"

record interaction =
  in_ID :: string
  in_Kind :: string
  in_Title :: string
  in_Reason :: string
  in_IsBlocking :: bool
  in_Options :: "(string \<times> string \<times> string) list"
  in_Questions :: "user_question list"
  in_ToolCallID :: string

record 'x checkpoint =
  cp_SnapshotVersion :: int
  cp_PersistedMessageCount :: int
  cp_TranscriptCursor :: int
  cp_BaseMessages :: "chat_message list"
  cp_Transcript :: "chat_message list"
  cp_Steps :: "run_step list"
  cp_Messages :: "chat_message list"
  cp_MessagesSummary :: string
  cp_PendingToolCall :: "tool_call option"
  cp_ToolPolicy :: tool_policy
  cp_ToolNames :: "string list"
  cp_Metadata :: json_object
  cp_Carried :: 'x
  cp_Interaction :: "interaction option"

record run_hook_trace =
  rh_Hook :: string
  rh_Action :: string
  rh_Reason :: string
  rh_ToolName :: string
  rh_Compressed :: bool

record 'x run_result =
  rr_FinalAnswer :: string
  rr_StopReason :: string
  rr_Iterations :: int
  rr_ToolCalls :: int
  rr_Steps :: "run_step list"
  rr_HookTrace :: "run_hook_trace list"
  rr_Approval :: "run_approval option"
  rr_Checkpoint :: "'x checkpoint option"
  rr_Emitted :: "run_step list"

record runner =
  rn_ProviderID :: int
  rn_ModelName :: string
  rn_CreatedAt :: "nat \<Rightarrow> gotime"
  rn_LatencyMS :: "string \<Rightarrow> int"

record 'x run_request =
  rq_AgentID :: int
  rq_RunID :: int
  rq_DelegationDepth :: int
  rq_RuleHash :: string
  rq_ToolPolicy :: tool_policy
  rq_Tools :: "runtime_tool option list"
  rq_MaxToolCalls :: int
  rq_MaxParallelTools :: int
  rq_Carried :: 'x

section \<open>Helpers of the runner\<close>

definition empty_step :: "runner \<Rightarrow> string \<Rightarrow> run_step" where
  "empty_step r typ = \<lparr>rs_Index = 0, rs_Type = typ, rs_Role = [], rs_Content = [], rs_ToolCallID = [], rs_ToolName = [],
     rs_ArgumentsJSON = [], rs_OutputJSON = [], rs_Compressed = False, rs_IsError = False, rs_Error = [], rs_ErrorCode = [],
     rs_LatencyMS = 0, rs_ProviderID = rn_ProviderID r, rs_Model = rn_ModelName r, rs_TokenCount = 0, rs_CreatedAt = 0\<rparr>"

text \<open>\<^verbatim>\<open>step := r.appendStep(result, ...); r.emit(ctx, step)\<close>\<close>

definition numbered_step :: "runner \<Rightarrow> 'x run_result \<Rightarrow> run_step \<Rightarrow> run_step" where
  "numbered_step r result step =
     step\<lparr>rs_Index := length (rr_Steps result) + 1, rs_CreatedAt := rn_CreatedAt r (length (rr_Steps result) + 1)\<rparr>"

definition appendStep :: "runner \<Rightarrow> 'x run_result \<Rightarrow> run_step \<Rightarrow> 'x run_result" where
  "appendStep r result step =
     (let s = numbered_step r result step
      in result\<lparr>rr_Steps := rr_Steps result @ [s], rr_Emitted := rr_Emitted result @ [s]\<rparr>)"

definition appendHookTrace :: "run_hook_trace list \<Rightarrow> string \<Rightarrow> hook_trace list \<Rightarrow> run_hook_trace list" where
  "appendHookTrace existing toolName traces =
     existing @ map (\<lambda>t. \<lparr>rh_Hook = ht_Hook t, rh_Action = ht_Stage t @ '':'' @ ht_Decision t, rh_Reason = ht_Reason t,
                          rh_ToolName = toolName, rh_Compressed = ht_Compressed t\<rparr>)
       (filter (\<lambda>t. \<not> (ht_Hook t = [] \<and> ht_Decision t = [])) traces)"

definition RoleTool :: string where "RoleTool = ''tool''"
definition RoleAssistant :: string where "RoleAssistant = ''assistant''"
definition RoleSystem :: string where "RoleSystem = ''system''"
definition RoleUser :: string where "RoleUser = ''user''"

definition toolMessage :: "string \<Rightarrow> string \<Rightarrow> chat_message" where
  "toolMessage toolCallID content =
     \<lparr>cm_Role = RoleTool, cm_Content = content, cm_ToolCallID = toolCallID, cm_ToolCalls = []\<rparr>"

definition toolResultContent :: "tool_result \<Rightarrow> string option \<Rightarrow> string" where
  "toolResultContent result toolErr =
     (let content = tr_ContentText result;
          content = (if content = [] \<and> tr_ContentJSON result \<noteq> [] then tr_ContentJSON result else content)
      in case toolErr of Some e \<Rightarrow> (if content = [] then e else content) | None \<Rightarrow> content)"

definition toolResultErrorCode :: "tool_result \<Rightarrow> string" where
  "toolResultErrorCode result = (case map_of (tr_Metadata result) ''error_code'' of Some (JStr code) \<Rightarrow> code | _ \<Rightarrow> [])"

definition summary_part :: "chat_message \<Rightarrow> string" where
  "summary_part message =
     (let content = TrimSpace (cm_Content message);
          content = (if 160 < length content then take 160 content @ ''...'' else content);
          content = (if content = [] \<and> cm_ToolCalls message \<noteq> []
                     then itoa (int (length (cm_ToolCalls message))) @ '' tool call(s)'' else content)
      in TrimSpace (cm_Role message @ '': '' @ content))"

definition summarizeMessages :: "chat_message list \<Rightarrow> string" where
  "summarizeMessages messages =
     (if messages = [] then []
      else let summary = Join (map summary_part messages) [CHR 0x0A] in
        if 2048 < length summary then take 2048 summary @ ''...'' else summary)"

definition checkpointFromMessages :: "'x run_request \<Rightarrow> chat_message list \<Rightarrow> string list \<Rightarrow> tool_call option \<Rightarrow>
    string \<Rightarrow> int \<Rightarrow> int \<Rightarrow> 'x checkpoint" where
  "checkpointFromMessages req messages toolNames pending stopReason iteration toolCalls =
     \<lparr>cp_SnapshotVersion = 2, cp_PersistedMessageCount = 0, cp_TranscriptCursor = 0, cp_BaseMessages = [],
      cp_Transcript = [], cp_Steps = [], cp_Messages = messages, cp_MessagesSummary = summarizeMessages messages,
      cp_PendingToolCall = pending, cp_ToolPolicy = rq_ToolPolicy req, cp_ToolNames = toolNames,
      cp_Metadata = [(''run_id'', JNum (of_int (rq_RunID req))), (''agent_id'', JNum (of_int (rq_AgentID req))),
        (''delegation_depth'', JNum (of_int (rq_DelegationDepth req))), (''stop_reason'', JStr stopReason),
        (''iteration'', JNum (of_int iteration)), (''tool_calls'', JNum (of_int toolCalls)),
        (''rule_hash'', JStr (rq_RuleHash req))],
      cp_Carried = rq_Carried req, cp_Interaction = None\<rparr>"

definition hydrateCheckpoint :: "'x checkpoint option \<Rightarrow> chat_message list \<Rightarrow> chat_message list \<Rightarrow> run_step list \<Rightarrow>
    chat_message list \<Rightarrow> int \<Rightarrow> int \<Rightarrow> 'x checkpoint option" where
  "hydrateCheckpoint checkpoint baseMessages transcript steps messages persistedCount transcriptCursor =
     map_option (\<lambda>c. c\<lparr>cp_SnapshotVersion := 2, cp_PersistedMessageCount := persistedCount,
        cp_TranscriptCursor := transcriptCursor, cp_BaseMessages := baseMessages, cp_Transcript := transcript,
        cp_Steps := steps, cp_Messages := messages, cp_MessagesSummary := summarizeMessages messages\<rparr>) checkpoint"

section \<open>The batch\<close>

record prepared_call =
  pc_call :: tool_call
  pc_tool :: runtime_tool
  pc_metadata :: tool_metadata
  pc_execCtx :: gctx
  pc_execCancel :: bool
  pc_stepIndex :: nat

definition normalize_calls :: "go_lib \<Rightarrow> 'x run_request \<Rightarrow> tool_call list \<Rightarrow> normalized_call list" where
  "normalize_calls lib req calls =
     (case NewToolCallNormalizer lib (rq_Tools req) [] of
        Inr n \<Rightarrow> NormalizeBatch lib n calls
      | Inl e \<Rightarrow> map (\<lambda>call. \<lparr>nc_Call = call, nc_Tool = None, nc_Metadata = no_metadata,
                   nc_Issue = Some \<lparr>ci_Code = InvalidAlias, ci_Message = e\<rparr>\<rparr>) calls)"

definition final_step :: "runner \<Rightarrow> 'x run_result \<Rightarrow> run_step" where
  "final_step r result = (empty_step r ''final_answer'')\<lparr>rs_Role := RoleAssistant, rs_Content := rr_FinalAnswer result\<rparr>"

definition stop_max_calls :: "runner \<Rightarrow> 'x run_result \<Rightarrow> 'x run_result" where
  "stop_max_calls r result =
     (let result = result\<lparr>rr_StopReason := ''max_tool_calls_exceeded'',
            rr_FinalAnswer := ''Agent stopped because max_tool_calls was exceeded.''\<rparr>
      in appendStep r result (final_step r result))"

definition tool_call_step :: "runner \<Rightarrow> tool_call \<Rightarrow> run_step" where
  "tool_call_step r call = (empty_step r ''tool_call'')\<lparr>rs_ToolCallID := tc_ID call, rs_ToolName := tc_Name call,
     rs_ArgumentsJSON := tc_Arguments call\<rparr>"

definition failed_step :: "runner \<Rightarrow> tool_call \<Rightarrow> string \<Rightarrow> string \<Rightarrow> run_step" where
  "failed_step r call content err = (empty_step r ''tool_result'')\<lparr>rs_ToolCallID := tc_ID call, rs_ToolName := tc_Name call,
     rs_Content := content, rs_IsError := True, rs_Error := err\<rparr>"

text \<open>A call the policy wants a human to approve: the batch stops before anything of it runs.\<close>

definition stop_for_approval :: "runner \<Rightarrow> 'x run_request \<Rightarrow> string list \<Rightarrow> string list \<Rightarrow> 'x run_result \<Rightarrow>
    chat_message list \<Rightarrow> tool_call \<Rightarrow> hook_approval \<Rightarrow> 'x run_result" where
  "stop_for_approval r req toolNames approvedIDs result messages call a =
     (let cp = checkpointFromMessages req messages toolNames (Some call) ''waiting_human'' (rr_Iterations result) (rr_ToolCalls result);
          result = result\<lparr>rr_StopReason := ''waiting_human'',
            rr_FinalAnswer := ''Agent is waiting for human approval before executing tool '' @ tc_Name call @ ''.'',
            rr_Approval := Some \<lparr>ra_ToolCallID = ha_ToolCallID a, ra_ToolName = ha_ToolName a, ra_RiskLevel = ha_RiskLevel a,
              ra_Reason = ha_Reason a, ra_IsBlocking = False, ra_Metadata = ha_Metadata a, ra_Kind = [], ra_Title = [],
              ra_Options = [], ra_Questions = []\<rparr>,
            rr_Checkpoint := Some (cp\<lparr>cp_Metadata := cp_Metadata cp @ [(''approved_tool_call_ids'', JArr (map JStr approvedIDs))]\<rparr>)\<rparr>;
          result = appendStep r result ((empty_step r ''approval_required'')\<lparr>rs_ToolCallID := tc_ID call,
            rs_ToolName := tc_Name call, rs_Content := ha_Reason a\<rparr>)
      in appendStep r result (final_step r result))"

datatype 'x preparation =
    Stop_batch "'x run_result" "chat_message list"
  | Prepared "'x run_result" "chat_message list" "prepared_call list"

fun prepare_calls :: "go_lib \<Rightarrow> runner \<Rightarrow> hook_chain \<Rightarrow> 'x run_request \<Rightarrow> string list \<Rightarrow> string list \<Rightarrow>
    'x run_result \<Rightarrow> chat_message list \<Rightarrow> prepared_call list \<Rightarrow> normalized_call list \<Rightarrow> 'x preparation" where
  "prepare_calls lib r hooks req toolNames approvedIDs result messages prepared [] = Prepared result messages prepared"
| "prepare_calls lib r hooks req toolNames approvedIDs result messages prepared (normalized # rest) =
     (let call = nc_Call normalized in
      if rq_MaxToolCalls req \<le> rr_ToolCalls result + int (length prepared) then Stop_batch (stop_max_calls r result) messages
      else
        (let stepIndex = length (rr_Steps result) + 1;
             result = appendStep r result (tool_call_step r call)
         in case (nc_Issue normalized, nc_Tool normalized) of
              (None, Some tool) \<Rightarrow>
                (let metadata = MetadataOf (Some tool);
                     pre = BeforeToolUse hooks [] \<lparr>pq_ToolCallID = tc_ID call, pq_ToolName = tc_Name call,
                       pq_Arguments = tc_Arguments call, pq_Metadata = metadata, pq_Policy = rq_ToolPolicy req\<rparr>;
                     result = result\<lparr>rr_HookTrace := appendHookTrace (rr_HookTrace result) (tc_Name call) (pr_Traces pre)\<rparr>
                 in case (if tc_ID call \<in> set approvedIDs then None else pr_Approval pre) of
                      Some a \<Rightarrow> Stop_batch (stop_for_approval r req toolNames approvedIDs result messages call a) messages
                    | None \<Rightarrow>
                       (case pr_Denied pre of
                          Some e \<Rightarrow>
                            prepare_calls lib r hooks req toolNames approvedIDs
                              (appendStep r result (failed_step r call e e)) (messages @ [toolMessage (tc_ID call) e]) prepared rest
                        | None \<Rightarrow>
                            prepare_calls lib r hooks req toolNames approvedIDs result messages
                              (prepared @ [\<lparr>pc_call = call, pc_tool = tool, pc_metadata = metadata,
                                 pc_execCtx = (case pr_Context pre of None \<Rightarrow> [] | Some c \<Rightarrow> c),
                                 pc_execCancel = pr_Cancel pre, pc_stepIndex = stepIndex\<rparr>]) rest))
            | (issue, _) \<Rightarrow>
                (let errMessage = (case issue of Some i \<Rightarrow> ci_Message i
                                   | None \<Rightarrow> ''tool '' @ tc_Name call @ '' is not available'');
                     result = result\<lparr>rr_StopReason := ''tool_name_not_found''\<rparr>
                 in prepare_calls lib r hooks req toolNames approvedIDs (appendStep r result (failed_step r call errMessage []))
                      (messages @ [toolMessage (tc_ID call) errMessage]) prepared rest)))"

definition planned_calls :: "prepared_call list \<Rightarrow> normalized_call list" where
  "planned_calls prepared =
     map (\<lambda>p. \<lparr>nc_Call = pc_call p, nc_Tool = Some (pc_tool p), nc_Metadata = pc_metadata p, nc_Issue = None\<rparr>) prepared"

text \<open>The executions of the batch and the calls whose tool ran: all of them, but those whose goroutine
  found the context done.\<close>

definition batch_executions ::
    "(prepared_call \<Rightarrow> outcome) \<Rightarrow> (nat \<Rightarrow> string option) \<Rightarrow> prepared_call list \<Rightarrow> batch_execution list" where
  "batch_executions exec cancelled prepared =
     ExecuteToolBatch (\<lambda>item. exec (prepared ! bi_Index item)) (\<lambda>item. cancelled (bi_Index item))
       (PlanToolBatch (planned_calls prepared) None)"

definition ran_calls :: "(nat \<Rightarrow> string option) \<Rightarrow> prepared_call list \<Rightarrow> prepared_call list" where
  "ran_calls cancelled prepared =
     map (\<lambda>item. prepared ! bi_Index item)
       (concat (map (\<lambda>s. filter (\<lambda>item. serial_segment s \<or> cancelled (bi_Index item) = None) (bs_Items s))
          (PlanToolBatch (planned_calls prepared) None)))"

text \<open>A tool that asks the user something: the batch stops after it ran.\<close>

definition stop_for_input :: "runner \<Rightarrow> 'x run_request \<Rightarrow> string list \<Rightarrow> 'x run_result \<Rightarrow> chat_message list \<Rightarrow>
    tool_call \<Rightarrow> tool_approval \<Rightarrow> 'x run_result" where
  "stop_for_input r req toolNames result messages call a =
     (let cp = checkpointFromMessages req messages toolNames (Some call) ''waiting_human'' (rr_Iterations result) (rr_ToolCalls result);
          result = result\<lparr>rr_StopReason := ''waiting_human'',
            rr_FinalAnswer := ''Agent is waiting for your input before continuing.'',
            rr_Approval := Some \<lparr>ra_ToolCallID = tc_ID call, ra_ToolName = tc_Name call, ra_RiskLevel = RiskLow,
              ra_Reason = ta_Reason a, ra_IsBlocking = ta_IsBlocking a, ra_Metadata = no_metadata, ra_Kind = ta_Kind a,
              ra_Title = ta_Title a, ra_Options = ta_Options a, ra_Questions = ta_Questions a\<rparr>,
            rr_Checkpoint := Some (cp\<lparr>cp_Metadata := cp_Metadata cp @ [(''interaction_kind'', JStr (ta_Kind a))],
              cp_Interaction := Some \<lparr>in_ID = ta_Kind a @ '':'' @ tc_ID call, in_Kind = ta_Kind a, in_Title = ta_Title a,
                in_Reason = ta_Reason a, in_IsBlocking = ta_IsBlocking a, in_Options = ta_Options a,
                in_Questions = ta_Questions a, in_ToolCallID = tc_ID call\<rparr>\<rparr>)\<rparr>;
          result = appendStep r result ((empty_step r ''approval_required'')\<lparr>rs_ToolCallID := tc_ID call,
            rs_ToolName := tc_Name call, rs_Content := ta_Reason a\<rparr>)
      in appendStep r result (final_step r result))"

text \<open>\<^verbatim>\<open>item.result\<close> and \<^verbatim>\<open>item.err\<close> of a prepared call, looked up by its index.\<close>

definition execution_of :: "batch_execution list \<Rightarrow> nat \<Rightarrow> tool_result \<times> string option" where
  "execution_of executions i =
     (case find (\<lambda>e. be_Index e = i) executions of
        Some e \<Rightarrow> (be_Result e, be_Err e) | None \<Rightarrow> (empty_result, None))"

definition first_input :: "batch_execution list \<Rightarrow> prepared_call list \<Rightarrow> (prepared_call \<times> tool_approval) option" where
  "first_input executions prepared =
     (case find (\<lambda>i. tr_Approval (fst (execution_of executions i)) \<noteq> None) [0..<length prepared] of
        None \<Rightarrow> None
      | Some i \<Rightarrow> Some (prepared ! i, the (tr_Approval (fst (execution_of executions i)))))"

definition newToolResultStep :: "runner \<Rightarrow> prepared_call \<Rightarrow> tool_result \<Rightarrow> string option \<Rightarrow> post_result \<Rightarrow> run_step" where
  "newToolResultStep r item result err post =
     (empty_step r ''tool_result'')\<lparr>rs_ToolCallID := tc_ID (pc_call item), rs_ToolName := tc_Name (pc_call item),
        rs_Content := ps_Content post, rs_OutputJSON := ps_OutputJSON post, rs_Compressed := ps_Compressed post,
        rs_IsError := tr_IsError result, rs_ErrorCode := toolResultErrorCode result,
        rs_LatencyMS := rn_LatencyMS r (tc_ID (pc_call item)), rs_Error := (case err of Some e \<Rightarrow> e | None \<Rightarrow> [])\<rparr>"

fun record_results :: "runner \<Rightarrow> hook_chain \<Rightarrow> 'x run_request \<Rightarrow> batch_execution list \<Rightarrow> nat \<Rightarrow> 'x run_result \<Rightarrow>
    chat_message list \<Rightarrow> prepared_call list \<Rightarrow> 'x run_result \<times> chat_message list" where
  "record_results r hooks req executions i result messages [] = (result, messages)"
| "record_results r hooks req executions i result messages (item # rest) =
     (let (res, err) = execution_of executions i;
          post = AfterToolUse hooks \<lparr>po_ToolName = tc_Name (pc_call item), po_Content = toolResultContent res err,
            po_OutputJSON = tr_ContentJSON res, po_Metadata = pc_metadata item, po_Policy = rq_ToolPolicy req,
            po_SensitiveFields = []\<rparr>;
          result = result\<lparr>rr_HookTrace := appendHookTrace (rr_HookTrace result) (tc_Name (pc_call item)) (ps_Traces post)\<rparr>
      in record_results r hooks req executions (Suc i) (appendStep r result (newToolResultStep r item res err post))
           (messages @ [toolMessage (tc_ID (pc_call item)) (ps_Content post)]) rest)"

definition executeToolBatch :: "go_lib \<Rightarrow> runner \<Rightarrow> hook_chain \<Rightarrow> 'x run_request \<Rightarrow> string list \<Rightarrow> string list \<Rightarrow>
    (prepared_call \<Rightarrow> outcome) \<Rightarrow> (nat \<Rightarrow> string option) \<Rightarrow> 'x run_result \<Rightarrow> chat_message list \<Rightarrow> tool_call list \<Rightarrow>
    bool \<times> 'x run_result \<times> chat_message list \<times> prepared_call list" where
  "executeToolBatch lib r hooks req toolNames approvedIDs exec cancelled result messages calls =
     (case prepare_calls lib r hooks req toolNames approvedIDs result messages [] (normalize_calls lib req calls) of
        Stop_batch result messages \<Rightarrow> (True, result, messages, [])
      | Prepared result messages prepared \<Rightarrow>
         (let executions = batch_executions exec cancelled prepared; ran = ran_calls cancelled prepared in
          case first_input executions prepared of
            Some (item, a) \<Rightarrow> (True, stop_for_input r req toolNames result messages (pc_call item) a, messages, ran)
          | None \<Rightarrow>
             (let (result, messages) = record_results r hooks req executions 0
                    (result\<lparr>rr_ToolCalls := rr_ToolCalls result + int (length prepared)\<rparr>) messages prepared
              in (False, result, messages, ran))))"

section \<open>Taking up a stopped run\<close>

definition tool_result_ids :: "chat_message list \<Rightarrow> string set" where
  "tool_result_ids messages = {cm_ToolCallID m | m. m \<in> set messages \<and> cm_Role m = RoleTool \<and> cm_ToolCallID m \<noteq> []}"

definition findUnresolvedToolCalls :: "chat_message list \<Rightarrow> string list \<Rightarrow> tool_call list" where
  "findUnresolvedToolCalls messages toolNames =
     (case find (\<lambda>m. cm_Role m = RoleAssistant \<and> cm_ToolCalls m \<noteq> []) (rev messages) of
        None \<Rightarrow> []
      | Some m \<Rightarrow> filter (\<lambda>call. \<not> list_ex (\<lambda>m. cm_Role m = RoleTool \<and> cm_ToolCallID m \<noteq> [] \<and> cm_ToolCallID m = tc_ID call) messages \<and>
                             tc_Name call \<in> set toolNames) (cm_ToolCalls m))"

fun check_answers :: "go_lib \<Rightarrow> (string \<times> string) list \<Rightarrow> user_question list \<Rightarrow> string option" where
  "check_answers lib answers [] = None"
| "check_answers lib answers (question # rest) =
     (if TrimSpace (uq_ID question) = [] then Some ''request_user_input question id is required''
      else case map_of answers (uq_ID question) of
        None \<Rightarrow> Some (''missing answer for request_user_input question '' @ quote lib (uq_ID question))
      | Some answer \<Rightarrow>
          if TrimSpace answer = [] then Some (''missing answer for request_user_input question '' @ quote lib (uq_ID question))
          else if uq_Options question \<noteq> [] \<and> answer \<notin> fst ` set (uq_Options question) \<and>
                  \<not> (uq_IsOther question \<and> answer \<noteq> ''__other__'')
            then Some (''invalid answer for request_user_input question '' @ quote lib (uq_ID question))
          else check_answers lib answers rest)"

definition ValidateUserInputAnswers :: "go_lib \<Rightarrow> user_question list \<Rightarrow> (string \<times> string) list \<Rightarrow> string option" where
  "ValidateUserInputAnswers lib questions answers =
     (if questions = [] then Some ''request_user_input checkpoint has no questions''
      else case check_answers lib answers questions of
        Some e \<Rightarrow> Some e
      | None \<Rightarrow>
         (case find (\<lambda>(q, _). q \<notin> uq_ID ` set questions) answers of
            Some (q, _) \<Rightarrow> Some (''unknown request_user_input question '' @ quote lib q)
          | None \<Rightarrow> None))"

definition appendUniqueString :: "string list \<Rightarrow> string \<Rightarrow> string list" where
  "appendUniqueString vs v = (if v \<in> set vs then vs else vs @ [v])"

definition metadataStringSlice :: "json option \<Rightarrow> string list" where
  "metadataStringSlice v =
     (case v of Some (JArr items) \<Rightarrow>
        foldl (\<lambda>out item. case item of JStr text \<Rightarrow> (if text \<noteq> [] then appendUniqueString out text else out) | _ \<Rightarrow> out) [] items
      | _ \<Rightarrow> [])"

definition metadata_int :: "json option \<Rightarrow> int" where
  "metadata_int v = (case v of Some (JNum n) \<Rightarrow> (if 0 \<le> n then floor n else - floor (- n)) | _ \<Rightarrow> 0)"

text \<open>What \<^verbatim>\<open>BuildResumeRequest\<close> puts into the request beside the fields it copies: the checkpoint is the one
  decoded from JSON, so the numbers in its metadata are JSON numbers. \<open>check_rules\<close> is the validation
  of the rules the checkpoint carries.\<close>

record resume_state =
  re_Messages :: "chat_message list"
  re_BaseMessages :: "chat_message list"
  re_Transcript :: "chat_message list"
  re_Steps :: "run_step list"
  re_PersistedMessageCount :: int
  re_TranscriptCursor :: int
  re_Iteration :: int
  re_ToolCalls :: int
  re_ApprovedToolCallIDs :: "string list"

definition is_user_input :: "'x checkpoint \<Rightarrow> bool" where
  "is_user_input cp = (case cp_Interaction cp of Some i \<Rightarrow> in_Kind i = ''request_user_input'' | None \<Rightarrow> False)"

definition check_choice :: "go_lib \<Rightarrow> 'x checkpoint \<Rightarrow> bool \<Rightarrow> string \<Rightarrow> string option" where
  "check_choice lib cp approved note =
     (case cp_Interaction cp of
        Some i \<Rightarrow>
          if approved \<and> HasPrefix note ''choice:''
          then (let choiceID = TrimSpace (TrimPrefix note ''choice:'') in
                if choiceID \<in> fst ` set (in_Options i) then None
                else Some (''unknown interaction option '' @ quote lib choiceID))
          else None
      | None \<Rightarrow> None)"

text \<open>The tool message the decision adds: the answers, the rejection, or nothing.\<close>

definition decision_message :: "go_lib \<Rightarrow> 'x checkpoint \<Rightarrow> bool \<Rightarrow> string \<Rightarrow> string + chat_message list" where
  "decision_message lib cp approved note =
     (case cp_PendingToolCall cp of
        None \<Rightarrow> Inr []
      | Some pending \<Rightarrow>
          if \<not> approved then
            Inr [toolMessage (tc_ID pending)
              (if note \<noteq> [] then ''Human rejected: '' @ note
               else ''Human rejected the request to execute tool '' @ tc_Name pending)]
          else (case cp_Interaction cp of
            Some i \<Rightarrow>
              if in_Kind i \<noteq> ''request_user_input'' then Inr []
              else
               (let decoded = (if HasPrefix note ''answers:'' then unmarshal_string_map lib (TrimPrefix note ''answers:'') else Inr []) in
                case decoded of
                  Inl e \<Rightarrow> Inl (''invalid request_user_input answers: '' @ e)
                | Inr answers \<Rightarrow>
                   (case ValidateUserInputAnswers lib (in_Questions i) answers of
                      Some e \<Rightarrow> Inl e
                    | None \<Rightarrow>
                        Inr [toolMessage (tc_ID pending)
                          (case marshal lib (JObj [(''answers'', JObj (map (\<lambda>(k, v). (k, JStr v)) answers))]) of
                             Some s \<Rightarrow> s | None \<Rightarrow> [])]))
          | None \<Rightarrow> Inr []))"

definition BuildResumeRequest :: "go_lib \<Rightarrow> ('x \<Rightarrow> string option) \<Rightarrow> 'x checkpoint option \<Rightarrow> bool \<Rightarrow> string \<Rightarrow> string + resume_state" where
  "BuildResumeRequest lib check_rules checkpoint approved note =
     (case checkpoint of
        None \<Rightarrow> Inl ''checkpoint is required''
      | Some cp \<Rightarrow>
         (case check_choice lib cp approved note of
            Some e \<Rightarrow> Inl e
          | None \<Rightarrow>
             (case decision_message lib cp approved note of
                Inl e \<Rightarrow> Inl e
              | Inr added \<Rightarrow>
                 (let messages = cp_Messages cp @ added;
                      transcript = cp_Transcript cp @ (if 2 \<le> cp_SnapshotVersion cp then added else []);
                      ids = metadataStringSlice (map_of (cp_Metadata cp) ''approved_tool_call_ids'');
                      ids = (case cp_PendingToolCall cp of
                               Some pending \<Rightarrow> if approved \<and> \<not> is_user_input cp then appendUniqueString ids (tc_ID pending) else ids
                             | None \<Rightarrow> ids)
                  in case check_rules (cp_Carried cp) of
                       Some e \<Rightarrow> Inl e
                     | None \<Rightarrow>
                        Inr \<lparr>re_Messages = messages,
                          re_BaseMessages = (if cp_BaseMessages cp = [] then messages else cp_BaseMessages cp),
                          re_Transcript = (if cp_BaseMessages cp = [] then [] else transcript),
                          re_Steps = cp_Steps cp, re_PersistedMessageCount = cp_PersistedMessageCount cp,
                          re_TranscriptCursor = cp_TranscriptCursor cp,
                          re_Iteration = metadata_int (map_of (cp_Metadata cp) ''iteration''),
                          re_ToolCalls = metadata_int (map_of (cp_Metadata cp) ''tool_calls''),
                          re_ApprovedToolCallIDs = ids\<rparr>))))"

end
