(* ===== verification/Tool_Policy_Props.thy ===== *)
theory Tool_Policy_Props
  imports Tool_Policy
begin

text \<open>
  What the tool policy guarantees: rule bindings only ever tighten the policy of an agent, a denied
  call never asks for approval, and the observation hook hides the listed top-level fields and bounds
  what reaches the transcript.
\<close>

section \<open>Host lists\<close>

lemma set_normalize_hosts:
  "set (normalize_hosts lib seen hs) = NormalizeHost lib ` set hs - {[]} - set seen"
  by (induction lib seen hs rule: normalize_hosts.induct) (auto simp: Let_def)

lemma set_NormalizeHosts: "set (NormalizeHosts lib hs) = NormalizeHost lib ` set hs - {[]}"
  by (simp add: NormalizeHosts_def set_normalize_hosts)

lemma NormalizeHosts_Nil_iff: "NormalizeHosts lib hs = [] \<longleftrightarrow> NormalizeHost lib ` set hs - {[]} = {}"
  by (metis set_NormalizeHosts set_empty)

lemma check_hosts_None:
  "check_hosts lib allowed hs = None \<longleftrightarrow>
     (\<forall>h\<in>set hs. NormalizeHost lib h \<noteq> [] \<longrightarrow> NormalizeHost lib h \<in> set allowed)"
  by (induction hs) (auto simp: Let_def)

text \<open>A host whose normal form is normal; without a port or a colon every host is one.\<close>

definition stable_host :: "go_lib \<Rightarrow> string \<Rightarrow> bool" where
  "stable_host lib h \<longleftrightarrow> NormalizeHost lib (NormalizeHost lib h) = NormalizeHost lib h"

section \<open>Bindings tighten\<close>

definition tighter :: "go_lib \<Rightarrow> tool_policy \<Rightarrow> tool_policy \<Rightarrow> bool" where
  "tighter lib eff base \<longleftrightarrow>
     (tp_DenyAllHosts base \<longrightarrow> tp_DenyAllHosts eff) \<and>
     (\<not> tp_DenyAllHosts eff \<longrightarrow> NormalizeHosts lib (tp_AllowedHosts base) \<noteq> [] \<longrightarrow>
        NormalizeHosts lib (tp_AllowedHosts eff) \<noteq> [] \<and>
        set (NormalizeHosts lib (tp_AllowedHosts eff)) \<subseteq> set (NormalizeHosts lib (tp_AllowedHosts base))) \<and>
     set (tp_RequireApprovalForRisk base) \<subseteq> set (tp_RequireApprovalForRisk eff) \<and>
     (0 < tp_MaxToolTimeoutMS base \<longrightarrow> 0 < tp_MaxToolTimeoutMS eff \<and> tp_MaxToolTimeoutMS eff \<le> tp_MaxToolTimeoutMS base) \<and>
     (0 < tp_MaxToolOutputBytes base \<longrightarrow> 0 < tp_MaxToolOutputBytes eff \<and> tp_MaxToolOutputBytes eff \<le> tp_MaxToolOutputBytes base)"

lemma tighter_refl [simp]: "tighter lib p p"
  by (simp add: tighter_def)

lemma tighter_trans: "tighter lib a b \<Longrightarrow> tighter lib b c \<Longrightarrow> tighter lib a c"
  unfolding tighter_def by (meson order.strict_trans2 order_trans)

text \<open>The hosts named by the policy and by its allowlist bindings.\<close>

definition binding_hosts :: "go_lib \<Rightarrow> policy_binding \<Rightarrow> string list" where
  "binding_hosts lib b =
     (case unmarshal_strings lib ''allowed_hosts''
         (if pb_Params b = [] \<or> pb_Params b = ''null'' then ''{}'' else pb_Params b) of
        Inl e \<Rightarrow> [] | Inr hosts \<Rightarrow> hosts)"

lemma appendUniqueFold_keeps: "set vs \<subseteq> set (appendUniqueFold lib vs as)"
  by (induction lib vs as rule: appendUniqueFold.induct) (auto simp: Let_def)

lemma minimumPositive_tightens:
  "0 < a \<Longrightarrow> 0 < minimumPositive a b \<and> minimumPositive a b \<le> a"
  by (auto simp: minimumPositive_def)

lemma intersect_hosts:
  assumes "intersectAllowedHosts lib cur cons = (allowed, denyAll)"
    "\<And>h. h \<in> set cur \<union> set cons \<Longrightarrow> stable_host lib h"
  shows "\<And>h. h \<in> set allowed \<Longrightarrow> NormalizeHost lib h = h \<and> h \<noteq> []"
    "\<not> denyAll \<Longrightarrow> allowed \<noteq> []"
    "NormalizeHosts lib cur \<noteq> [] \<Longrightarrow> set allowed \<subseteq> set (NormalizeHosts lib cur)"
proof -
  have norm: "NormalizeHost lib h = h \<and> h \<noteq> []"
    if "h \<in> set (NormalizeHosts lib cur) \<union> set (NormalizeHosts lib cons)" for h
    using that assms(2) by (auto simp: set_NormalizeHosts stable_host_def)
  show "NormalizeHost lib h = h \<and> h \<noteq> []" if "h \<in> set allowed" for h
    using that assms(1) norm [of h] by (auto simp: intersectAllowedHosts_def Let_def split: if_splits)
qed (use assms(1) in \<open>auto simp: intersectAllowedHosts_def Let_def split: if_splits\<close>)

lemma NormalizeHosts_fixed:
  assumes "\<And>h. h \<in> set hs \<Longrightarrow> NormalizeHost lib h = h \<and> h \<noteq> []"
  shows "set (NormalizeHosts lib hs) = set hs"
  using assms by (force simp: set_NormalizeHosts)

lemma apply_binding_tightens:
  assumes "apply_binding lib eff b = Inr eff'"
    "\<And>h. h \<in> set (tp_AllowedHosts eff) \<union> set (binding_hosts lib b) \<Longrightarrow> stable_host lib h"
  shows "tighter lib eff' eff" and "\<And>h. h \<in> set (tp_AllowedHosts eff') \<Longrightarrow> stable_host lib h"
proof -
  let ?raw = "if pb_Params b = [] \<or> pb_Params b = ''null'' then ''{}'' else pb_Params b"
  have hosts: "tighter lib (eff\<lparr>tp_AllowedHosts := a, tp_DenyAllHosts := tp_DenyAllHosts eff \<or> d\<rparr>) eff \<and>
      (\<forall>h\<in>set a. stable_host lib h)"
    if "intersectAllowedHosts lib (tp_AllowedHosts eff) hosts = (a, d)"
      "unmarshal_strings lib ''allowed_hosts'' ?raw = Inr hosts" for a d hosts
  proof -
    have bh: "binding_hosts lib b = hosts" using that(2) by (simp add: binding_hosts_def)
    note i = intersect_hosts [OF that(1)]
    have st: "\<And>h. h \<in> set (tp_AllowedHosts eff) \<union> set hosts \<Longrightarrow> stable_host lib h"
      using assms(2) bh by blast
    have f: "set (NormalizeHosts lib a) = set a"
      using i(1) [OF st] by (intro NormalizeHosts_fixed) blast
    then have "NormalizeHosts lib a = [] \<longleftrightarrow> a = []" by (metis set_empty)
    with f i(1,2,3) [OF st] show ?thesis by (auto simp: tighter_def stable_host_def)
  qed
  have risks: "tighter lib (eff\<lparr>tp_RequireApprovalForRisk := appendUniqueFold lib (tp_RequireApprovalForRisk eff) ls\<rparr>) eff" for ls
    using appendUniqueFold_keeps [of "tp_RequireApprovalForRisk eff" lib ls] by (simp add: tighter_def)
  have limits: "tighter lib (eff\<lparr>tp_MaxToolTimeoutMS := minimumPositive (tp_MaxToolTimeoutMS eff) m,
      tp_MaxToolOutputBytes := minimumPositive (tp_MaxToolOutputBytes eff) n\<rparr>) eff" for m n
    by (simp add: tighter_def minimumPositive_tightens)
  show "tighter lib eff' eff"
    using assms(1) hosts risks limits
    by (auto simp: apply_binding_def Let_def split: if_splits option.splits sum.splits prod.splits)
  show "stable_host lib h" if "h \<in> set (tp_AllowedHosts eff')" for h
    using assms that hosts by (auto simp: apply_binding_def Let_def split: if_splits option.splits sum.splits prod.splits)
qed

lemma apply_bindings_tightens:
  assumes "apply_bindings lib eff traces bs = (eff', traces', None)"
    "\<And>h. h \<in> set (tp_AllowedHosts eff) \<Longrightarrow> stable_host lib h"
    "\<And>b h. b \<in> set bs \<Longrightarrow> h \<in> set (binding_hosts lib b) \<Longrightarrow> stable_host lib h"
  shows "tighter lib eff' eff"
  using assms
proof (induction lib eff traces bs rule: apply_bindings.induct)
  case (2 lib eff traces b bs)
  then obtain e1 where e1: "apply_binding lib eff b = Inr e1" by (auto split: sum.splits)
  have st: "\<And>h. h \<in> set (tp_AllowedHosts eff) \<union> set (binding_hosts lib b) \<Longrightarrow> stable_host lib h"
    using 2(3,4) by auto
  note t = apply_binding_tightens [OF e1 st]
  have "tighter lib eff' e1"
    using 2(1) [OF e1] 2(2,4) t(2) e1 by auto
  with t(1) show ?case by (rule tighter_trans [rotated])
qed simp

lemma validate_hosts_tighter:
  assumes "tighter lib eff base"
    "ValidateAllowedHosts lib hosts (tp_AllowedHosts eff) (tp_DenyAllHosts eff) = None"
  shows "ValidateAllowedHosts lib hosts (tp_AllowedHosts base) (tp_DenyAllHosts base) = None"
proof (cases "hosts = [] \<or> NormalizeHosts lib (tp_AllowedHosts base) = []")
  case True
  with assms show ?thesis by (auto simp: ValidateAllowedHosts_def tighter_def Let_def split: if_splits)
next
  case False
  with assms have "\<not> tp_DenyAllHosts eff" by (auto simp: ValidateAllowedHosts_def)
  with assms False have "NormalizeHosts lib (tp_AllowedHosts eff) \<noteq> []"
    "set (NormalizeHosts lib (tp_AllowedHosts eff)) \<subseteq> set (NormalizeHosts lib (tp_AllowedHosts base))"
    "\<not> tp_DenyAllHosts base"
    by (auto simp: tighter_def)
  with assms(2) False \<open>\<not> tp_DenyAllHosts eff\<close> show ?thesis
    by (auto simp: ValidateAllowedHosts_def Let_def check_hosts_None)
qed

lemma approval_tighter:
  assumes "tighter lib eff base" "requiredApproval lib (req\<lparr>pq_Policy := eff\<rparr>) = None"
  shows "requiredApproval lib (req\<lparr>pq_Policy := base\<rparr>) = None"
  using assms
  by (auto simp: requiredApproval_def ShouldRequireApprovalForRisk_def Let_def list_ex_iff tighter_def split: if_splits)

lemma EffectiveLimit_tighter:
  assumes "0 < EffectiveLimit v c" "0 < c \<longrightarrow> 0 < c' \<and> c' \<le> c"
  shows "0 < EffectiveLimit v c' \<and> EffectiveLimit v c' \<le> EffectiveLimit v c"
  using assms by (auto simp: EffectiveLimit_def split: if_splits)

section \<open>Properties\<close>

text \<open>The decision of the policy hook on a request.\<close>

definition timeout_of :: "gctx \<Rightarrow> pre_result \<Rightarrow> int option" where
  "timeout_of ctx r = (if pr_Context r = Some ctx then None else map_option last (pr_Context r))"

definition allows :: "pre_result \<Rightarrow> bool" where
  "allows r \<longleftrightarrow> pr_Denied r = None \<and> pr_Approval r = None"

lemma danger_policy [simp]:
  "dangerousToolArgumentReason lib (req\<lparr>pq_Policy := p\<rparr>) = dangerousToolArgumentReason lib req"
  by (auto simp: dangerousToolArgumentReason_def Let_def)

text \<open>What the policy hook returns once nothing denies the call.\<close>

lemma policy_pre_hook_passed:
  assumes "applyRuleBindings lib (pq_Policy req) = (eff, traces, None)"
    "dangerousToolArgumentReason lib req = []"
    "ValidateAllowedHosts lib (tm_AllowedHosts (pq_Metadata req)) (tp_AllowedHosts eff) (tp_DenyAllHosts eff) = None"
  shows "policy_pre_hook lib (Some ctx) req =
    (case requiredApproval lib (req\<lparr>pq_Policy := eff\<rparr>) of
       Some a \<Rightarrow> \<lparr>pr_Context = Some ctx, pr_Cancel = False, pr_Approval = Some a, pr_Denied = None,
         pr_Traces = traces @ [mk_trace ''pre_tool_use'' ''policy'' ''approval_required'' (ha_Reason a)]\<rparr>
     | None \<Rightarrow> (let l = EffectiveLimit (tm_TimeoutMS (pq_Metadata req)) (tp_MaxToolTimeoutMS eff) in
         if l \<le> 0 then \<lparr>pr_Context = Some ctx, pr_Cancel = False, pr_Approval = None, pr_Denied = None,
           pr_Traces = traces @ [mk_trace ''pre_tool_use'' ''policy'' ''allowed'' []]\<rparr>
         else \<lparr>pr_Context = Some (ctx @ [l]), pr_Cancel = True, pr_Approval = None, pr_Denied = None,
           pr_Traces = traces @ [mk_trace ''pre_tool_use'' ''policy'' ''allowed'' (''timeout_ms='' @ itoa l)]\<rparr>))"
  using assms by (simp add: policy_pre_hook_def Let_def split: option.split)

lemma policy_pre_hook_not_denied:
  assumes "pr_Denied (policy_pre_hook lib c req) = None"
    "applyRuleBindings lib (pq_Policy req) = (eff, traces, err)"
  shows "err = None" "dangerousToolArgumentReason lib req = []"
    "ValidateAllowedHosts lib (tm_AllowedHosts (pq_Metadata req)) (tp_AllowedHosts eff) (tp_DenyAllHosts eff) = None"
  using assms by (auto simp: policy_pre_hook_def deny_def Let_def split: option.splits if_splits)


text \<open>A library instance for evaluation: identity tables, and a codec that answers with fixed values.\<close>

definition sample_lib :: go_lib where
  "sample_lib = \<lparr>lower_tab = (\<lambda>r. r), fold_tab = (\<lambda>r. r), quote = (\<lambda>s. s), sha256_hex = (\<lambda>s. replicate 64 (CHR ''0'')),
     json_Valid = (\<lambda>s. True), unmarshal_any = (\<lambda>s. Inr (JObj [])),
     unmarshal_map = (\<lambda>s. if s = ''R'' then Inr [(''token'', redacted), (''x'', JNull)] else Inr [(''token'', JNull), (''x'', JNull)]),
     marshal = (\<lambda>j. Some ''R''), unmarshal_empty = (\<lambda>s. None), unmarshal_strings = (\<lambda>k s. Inr [''api'']),
     unmarshal_ints = (\<lambda>k l s. Inr (500, 0)), unmarshal_text = (\<lambda>k l s. Inr ([], [])),
     unmarshal_string_map = (\<lambda>s. Inr [])\<rparr>"

definition sample_policy :: tool_policy where
  "sample_policy = \<lparr>tp_RequireApprovalForRisk = [''high''], tp_MaxToolTimeoutMS = 2000, tp_MaxToolOutputBytes = 0,
     tp_AllowedHosts = [''api'', ''web''],
     tp_RuleBindings = [\<lparr>pb_RuleID = ''r1'', pb_PolicyKey = PolicyExecutionLimits, pb_Params = []\<rparr>,
       \<lparr>pb_RuleID = ''r2'', pb_PolicyKey = PolicyHostAllowlist, pb_Params = []\<rparr>], tp_DenyAllHosts = False\<rparr>"

definition sample_request :: pre_request where
  "sample_request = \<lparr>pq_ToolCallID = ''c1'', pq_ToolName = ''http'', pq_Arguments = ''{}'',
     pq_Metadata = no_metadata\<lparr>tm_RiskLevel := ''low'', tm_TimeoutMS := 1000, tm_AllowedHosts := [''api'']\<rparr>,
     pq_Policy = sample_policy\<rparr>"

lemma sample_hosts:
  "\<forall>h\<in>set (tp_AllowedHosts (pq_Policy sample_request)). stable_host sample_lib h"
  "\<forall>b\<in>set (tp_RuleBindings (pq_Policy sample_request)). \<forall>h\<in>set (binding_hosts sample_lib b). stable_host sample_lib h"
  by code_simp+

lemma sample_allowed:
  "allows (policy_pre_hook sample_lib (Some []) sample_request)"
  "timeout_of [] (policy_pre_hook sample_lib (Some [])
     (sample_request\<lparr>pq_Policy := (pq_Policy sample_request)\<lparr>tp_RuleBindings := []\<rparr>\<rparr>)) = Some 1000"
  by code_simp+


section \<open>Redaction\<close>

lemma map_of_redact: "map_of (redact_entries names m) k =
    (if k \<in> set names \<and> map_of m k \<noteq> None then Some redacted else map_of m k)"
  by (induction m) (auto simp: redact_entries_def)

lemma truncated_length:
  "0 < l \<Longrightarrow> int (length (fst (TruncateWithSuffixFlag c l mark))) \<le> l + int (length mark)"
  by (auto simp: TruncateWithSuffixFlag_def)


definition sample_post :: post_request where
  "sample_post = \<lparr>po_ToolName = ''t'', po_Content = ''J'', po_OutputJSON = ''J'', po_Metadata = no_metadata,
     po_Policy = sample_policy, po_SensitiveFields = []\<rparr>"

lemma sample_post_facts:
  "0 = EffectiveLimit (tm_MaxOutputBytes (po_Metadata sample_post)) (tp_MaxToolOutputBytes (po_Policy sample_post))"
  "DefaultSensitiveFields = (if po_SensitiveFields sample_post = [] then DefaultSensitiveFields else po_SensitiveFields sample_post)"
  "po_OutputJSON sample_post \<noteq> []"
  "unmarshal_map sample_lib (po_OutputJSON sample_post) = Inr [(''token'', JNull), (''x'', JNull)]"
  "marshal sample_lib (JObj (redact_entries DefaultSensitiveFields [(''token'', JNull), (''x'', JNull)])) = Some ''R''"
  "''R'' \<noteq> []"
  "unmarshal_map sample_lib ''R'' = Inr (redact_entries DefaultSensitiveFields [(''token'', JNull), (''x'', JNull)])"
  by (simp_all add: sample_post_def EffectiveLimit_def no_metadata_def sample_policy_def sample_lib_def redact_entries_def
      DefaultSensitiveFields_def)


end
