(* ===== verification/Tool_Calls_Props.thy ===== *)
theory Tool_Calls_Props
  imports Tool_Calls Tool_Policy_Props
begin

text \<open>
  The tool pipeline up to the results: what a normalised call without an issue guarantees, which call
  identifiers a batch gets, that the plan is the unique grouping of the batch into maximal parallel
  runs, and that the goroutines of a parallel segment, under every interleaving, end, respect the
  limit and give the results in the order of the calls.
\<close>

section \<open>Normalisation\<close>

lemma unique_from_set: "set (unique_from seen vs) = set vs - set seen"
  by (induction seen vs rule: unique_from.induct) auto

lemma unique_from_distinct: "distinct (unique_from seen vs)"
  by (induction seen vs rule: unique_from.induct) (auto simp: unique_from_set)

lemma uniqueStrings_set [simp]: "set (uniqueStrings vs) = set vs"
  by (simp add: uniqueStrings_def unique_from_set)

lemma uniqueStrings_distinct: "distinct (uniqueStrings vs)"
  by (simp add: uniqueStrings_def unique_from_distinct)

lemma distinct_singleton: "distinct xs \<Longrightarrow> xs = [c] \<longleftrightarrow> set xs = {c}"
  by (cases xs; cases "tl xs") auto

lemma distinct_empty_or: "distinct xs \<Longrightarrow> (\<exists>a b cs. xs = a # b # cs) \<longleftrightarrow> (\<nexists>c. set xs = {c}) \<and> xs \<noteq> []"
  by (cases xs; cases "tl xs") auto

text \<open>The tools a name may mean when case is ignored.\<close>

definition case_candidates :: "go_lib \<Rightarrow> normalizer \<Rightarrow> string \<Rightarrow> string set" where
  "case_candidates lib n name =
     {c \<in> fst ` set (nz_Tools n). ToLower lib c = ToLower lib name} \<union>
     {c. \<exists>a. (a, c) \<in> set (nz_Aliases n) \<and> ToLower lib a = ToLower lib name}"

lemma name_candidates_set: "set (name_candidates lib n name) = case_candidates lib n name"
  by (force simp: name_candidates_def case_candidates_def Let_def)

lemma name_candidates_distinct: "distinct (name_candidates lib n name)"
  by (simp add: name_candidates_def Let_def uniqueStrings_distinct)

lemma resolveName_iff:
  "resolveName lib n name = Inr c \<longleftrightarrow>
     (if map_of (nz_Tools n) name \<noteq> None then c = name
      else if map_of (nz_Aliases n) name \<noteq> None then map_of (nz_Aliases n) name = Some c
      else nz_CaseInsensitive n \<and> case_candidates lib n name = {c})"
proof -
  have "name_candidates lib n name = [c] \<longleftrightarrow> case_candidates lib n name = {c}"
    using distinct_singleton [OF name_candidates_distinct] name_candidates_set by metis
  moreover have "(case xs of [] \<Rightarrow> Inl i | [d] \<Rightarrow> Inr d | _ \<Rightarrow> Inl j) = Inr c \<longleftrightarrow> xs = [c]"
    for xs :: "string list" and i j :: call_issue
    by (simp split: list.split)
  ultimately show ?thesis by (simp add: resolveName_def eq_commute [of c name] split: option.split)
qed

lemma add_tools_Inr:
  assumes "add_tools lib acc tools = Inr ts"
  shows "(\<forall>(name, t)\<in>set acc. Some t \<in> T \<and> name = TrimSpace (rt_Name t) \<and> name \<noteq> []) \<Longrightarrow> set tools \<subseteq> T \<Longrightarrow>
    (\<forall>(name, t)\<in>set ts. Some t \<in> T \<and> name = TrimSpace (rt_Name t) \<and> name \<noteq> [])"
  using assms by (induction lib acc tools rule: add_tools.induct) (auto simp: Let_def split: if_splits)

lemma add_aliases_Inr:
  assumes "add_aliases lib tools acc aliases = Inr as"
  shows "(\<forall>(a, c)\<in>set acc. map_of tools c \<noteq> None) \<Longrightarrow> (\<forall>(a, c)\<in>set as. map_of tools c \<noteq> None)"
  using assms by (induction lib tools acc aliases rule: add_aliases.induct) (auto simp: Let_def split: if_splits)

lemma normalizer_tools:
  assumes "NewToolCallNormalizer lib tools aliases = Inr n"
  shows "map_of (nz_Tools n) c = Some t \<Longrightarrow> Some t \<in> set tools \<and> c = TrimSpace (rt_Name t) \<and> c \<noteq> []"
    and "(a, c) \<in> set (nz_Aliases n) \<Longrightarrow> map_of (nz_Tools n) c \<noteq> None"
    and "nz_CaseInsensitive n"
proof -
  obtain ts as where ts: "add_tools lib [] tools = Inr ts" and as: "add_aliases lib ts [] aliases = Inr as"
    and n: "n = \<lparr>nz_Tools = ts, nz_Aliases = as, nz_CaseInsensitive = True\<rparr>"
    using assms by (auto simp: NewToolCallNormalizer_def split: sum.splits)
  show "map_of (nz_Tools n) c = Some t \<Longrightarrow> Some t \<in> set tools \<and> c = TrimSpace (rt_Name t) \<and> c \<noteq> []"
    using add_tools_Inr [OF ts, of "set tools"] by (auto simp: n dest!: map_of_SomeD)
  show "(a, c) \<in> set (nz_Aliases n) \<Longrightarrow> map_of (nz_Tools n) c \<noteq> None"
    using add_aliases_Inr [OF as] by (auto simp: n)
qed (use assms in \<open>auto simp: NewToolCallNormalizer_def split: sum.splits\<close>)

lemma resolved_is_tool:
  assumes "NewToolCallNormalizer lib tools aliases = Inr n" "resolveName lib n name = Inr c"
  shows "\<exists>t. map_of (nz_Tools n) c = Some t"
proof (cases "map_of (nz_Tools n) name = None")
  case False
  with assms(2) show ?thesis by (auto simp: resolveName_iff)
next
  case True
  have "c \<in> fst ` set (nz_Tools n) \<or> (\<exists>a. (a, c) \<in> set (nz_Aliases n))"
  proof (cases "map_of (nz_Aliases n) name")
    case None
    with True assms(2) have "c \<in> case_candidates lib n name" by (simp add: resolveName_iff)
    then show ?thesis unfolding case_candidates_def by blast
  next
    case (Some d)
    with True assms(2) show ?thesis by (auto simp: resolveName_iff dest: map_of_SomeD)
  qed
  then show ?thesis
    using normalizer_tools(2) [OF assms(1)] by (metis map_of_None_image not_Some_eq)
qed

lemma Normalize_ok:
  assumes n: "NewToolCallNormalizer lib tools aliases = Inr n" and ok: "nc_Issue (Normalize lib n call i) = None"
  shows "\<exists>t. Some t \<in> set tools \<and> nc_Tool (Normalize lib n call i) = Some t \<and>
    resolveName lib n (TrimSpace (tc_Name call)) = Inr (TrimSpace (rt_Name t)) \<and>
    tc_Name (nc_Call (Normalize lib n call i)) = TrimSpace (rt_Name t) \<and>
    nc_Metadata (Normalize lib n call i) = MetadataOf (Some t) \<and>
    ValidateToolArguments lib (rt_Parameters t) (tc_Arguments (nc_Call (Normalize lib n call i))) = None"
proof -
  obtain c where c: "resolveName lib n (TrimSpace (tc_Name call)) = Inr c"
    using ok by (auto simp: Normalize_def Let_def split: if_splits sum.splits)
  obtain t where t: "map_of (nz_Tools n) c = Some t" using resolved_is_tool [OF n c] by blast
  with normalizer_tools(1) [OF n t] c ok show ?thesis
    by (auto simp: Normalize_def Let_def check_arguments_def split: if_splits option.splits)
qed

lemma Normalize_ID_nonempty: "tc_ID (nc_Call (Normalize lib n call i)) \<noteq> []"
  by (auto simp: Normalize_def Let_def check_arguments_def generatedToolCallID_def
      split: sum.splits option.splits)

lemma Normalize_ID:
  "TrimSpace (tc_ID call) \<noteq> [] \<Longrightarrow> tc_ID (nc_Call (Normalize lib n call i)) = TrimSpace (tc_ID call)"
  by (auto simp: Normalize_def Let_def check_arguments_def split: sum.splits option.splits)

text \<open>An item of a batch is the normalised call under its batch identifier.\<close>

lemma normalize_from_nth:
  "i < length calls \<Longrightarrow> \<exists>id. normalize_from lib n index used calls ! i =
     (Normalize lib n (calls ! i) (index + i))\<lparr>nc_Call := (nc_Call (Normalize lib n (calls ! i) (index + i)))\<lparr>tc_ID := id\<rparr>\<rparr>"
proof (induction calls arbitrary: index used i)
  case (Cons call calls)
  show ?case
  proof (cases i)
    case (Suc j)
    with Cons.prems Cons.IH [of j "Suc index"] show ?thesis by (simp add: Let_def split: prod.split)
  qed (auto simp: Let_def split: prod.split)
qed simp

lemma length_normalize_from [simp]: "length (normalize_from lib n index used calls) = length calls"
  by (induction calls arbitrary: index used) (auto simp: Let_def split: prod.splits)

text \<open>C26: The safety boundary of tool calls. A batch is normalised call by call in order, and a call that
  comes out without an issue has a tool the agent was given, under that tool's own name, with the
  metadata of that tool and with arguments that tool's schema accepts. The name the model used is the
  tool's name, else an alias of it, else the tool is the only one that the name means when case is
  ignored.\<close>

theorem normalized_call_safe:
  assumes n: "NewToolCallNormalizer lib tools aliases = Inr n"
    and i: "i < length calls" and item: "item = NormalizeBatch lib n calls ! i" "nc_Issue item = None"
  shows "length (NormalizeBatch lib n calls) = length calls \<and>
    (\<exists>t. Some t \<in> set tools \<and> nc_Tool item = Some t \<and> tc_Name (nc_Call item) = TrimSpace (rt_Name t) \<and>
       nc_Metadata item = MetadataOf (Some t) \<and>
       ValidateToolArguments lib (rt_Parameters t) (tc_Arguments (nc_Call item)) = None \<and>
       (let name = TrimSpace (tc_Name (calls ! i)); c = TrimSpace (rt_Name t) in
        if map_of (nz_Tools n) name \<noteq> None then c = name
        else if map_of (nz_Aliases n) name \<noteq> None then map_of (nz_Aliases n) name = Some c
        else case_candidates lib n name = {c}))"
proof -
  obtain id where it: "item = (Normalize lib n (calls ! i) i)
      \<lparr>nc_Call := (nc_Call (Normalize lib n (calls ! i) i))\<lparr>tc_ID := id\<rparr>\<rparr>"
    using normalize_from_nth [OF i, of lib n 0] item(1) by (auto simp: NormalizeBatch_def)
  with item(2) have "nc_Issue (Normalize lib n (calls ! i) i) = None" by simp
  from Normalize_ok [OF n this] it show ?thesis
    by (auto simp: resolveName_iff NormalizeBatch_def Let_def split: if_splits)
qed

section \<open>Call identifiers\<close>

lemma uniqueToolCallID_nonempty: "fst (uniqueToolCallID base used) \<noteq> []"
  by (simp add: uniqueToolCallID_def Let_def)

lemma normalize_from_IDs_nonempty:
  "list_all (\<lambda>item. tc_ID (nc_Call item) \<noteq> []) (normalize_from lib n index used calls)"
proof (induction calls arbitrary: index used)
  case (Cons call calls)
  then show ?case
    using uniqueToolCallID_nonempty by (auto simp: Let_def split: prod.splits) (metis fst_conv)+
qed simp

lemma normalize_from_distinct_IDs:
  assumes "distinct (map (\<lambda>c. TrimSpace (tc_ID c)) calls)" "\<And>c. c \<in> set calls \<Longrightarrow> TrimSpace (tc_ID c) \<noteq> []"
    "\<And>c. c \<in> set calls \<Longrightarrow> used (TrimSpace (tc_ID c)) = 0"
  shows "map (\<lambda>item. tc_ID (nc_Call item)) (normalize_from lib n index used calls) = map (\<lambda>c. TrimSpace (tc_ID c)) calls"
  using assms
proof (induction calls arbitrary: index used)
  case (Cons call calls)
  have "uniqueToolCallID (TrimSpace (tc_ID call)) used =
      (TrimSpace (tc_ID call), used(TrimSpace (tc_ID call) := 1))"
    using Cons.prems(2,3) [of call] by (simp add: uniqueToolCallID_def Let_def)
  moreover have "map (\<lambda>item. tc_ID (nc_Call item))
      (normalize_from lib n (Suc index) (used(TrimSpace (tc_ID call) := 1)) calls) = map (\<lambda>c. TrimSpace (tc_ID c)) calls"
    using Cons.prems by (intro Cons.IH) (simp_all, metis image_eqI)
  ultimately show ?case
    using Cons.prems(2) [of call] by (simp add: Let_def Normalize_ID Normalize_ID_nonempty)
qed simp

definition id_call :: "string \<Rightarrow> tool_call" where
  "id_call i = \<lparr>tc_ID = i, tc_Type = ''function'', tc_Name = ''read'', tc_Arguments = []\<rparr>"

lemma sample_IDs_trimmed: "TrimSpace ''a'' = ''a''" "TrimSpace ''a_2'' = ''a_2''" "itoa 2 = ''2''"
  by code_simp+

lemma sample_IDs:
  "map (\<lambda>item. tc_ID (nc_Call item)) (NormalizeBatch lib n [id_call ''a'', id_call ''a_2'', id_call ''a'']) =
     [''a'', ''a_2'', ''a_2'']"
  by (simp add: NormalizeBatch_def Let_def Normalize_ID id_call_def sample_IDs_trimmed uniqueToolCallID_def)

text \<open>Call identifiers of a batch. Every identifier is non-empty, and identifiers that are distinct after
  trimming are kept. But identifiers are not unique in general, as \<^verbatim>\<open>NormalizedToolCall\<close> says they are: the
  suffix given to a repeated identifier may be another call's own identifier.\<close>

theorem batch_call_ids:
  "list_all (\<lambda>item. tc_ID (nc_Call item) \<noteq> []) (NormalizeBatch lib n calls) \<and>
   (distinct (map (\<lambda>c. TrimSpace (tc_ID c)) calls) \<and> [] \<notin> set (map (\<lambda>c. TrimSpace (tc_ID c)) calls) \<longrightarrow>
      map (\<lambda>item. tc_ID (nc_Call item)) (NormalizeBatch lib n calls) = map (\<lambda>c. TrimSpace (tc_ID c)) calls) \<and>
   \<not> distinct (map (\<lambda>item. tc_ID (nc_Call item)) (NormalizeBatch lib n [id_call ''a'', id_call ''a_2'', id_call ''a'']))"
proof (intro conjI impI)
  show "map (\<lambda>item. tc_ID (nc_Call item)) (NormalizeBatch lib n calls) = map (\<lambda>c. TrimSpace (tc_ID c)) calls"
    if "distinct (map (\<lambda>c. TrimSpace (tc_ID c)) calls) \<and> [] \<notin> set (map (\<lambda>c. TrimSpace (tc_ID c)) calls)"
    unfolding NormalizeBatch_def using that by (intro normalize_from_distinct_IDs) force+
qed (simp_all only: NormalizeBatch_def [of lib n calls] normalize_from_IDs_nonempty sample_IDs, simp)

section \<open>Planning\<close>

definition group_segment :: "conflict_keys \<Rightarrow> batch_segment \<Rightarrow> bool" where
  "group_segment conflicts s \<longleftrightarrow> bs_Items s \<noteq> [] \<and> list_all (\<lambda>it. parallelizable conflicts (bi_Call it)) (bs_Items s) \<and>
     bs_Parallel s = (1 < length (bs_Items s))"

definition single_segment :: "conflict_keys \<Rightarrow> batch_segment \<Rightarrow> bool" where
  "single_segment conflicts s \<longleftrightarrow> \<not> bs_Parallel s \<and> (\<exists>it. bs_Items s = [it] \<and> \<not> parallelizable conflicts (bi_Call it))"

definition numbered :: "nat \<Rightarrow> normalized_call list \<Rightarrow> batch_item list" where
  "numbered index calls = map2 (\<lambda>i c. \<lparr>bi_Index = i, bi_Call = c\<rparr>) [index..<index + length calls] calls"

lemma numbered_Cons: "numbered index (c # calls) = \<lparr>bi_Index = index, bi_Call = c\<rparr> # numbered (Suc index) calls"
  by (simp add: numbered_def upt_rec)

lemma flush_items: "concat (map bs_Items (flushParallel pending)) = pending"
  by (simp add: flushParallel_def)

lemma plan_from_items:
  "concat (map bs_Items (plan_from conflicts index pending calls)) = pending @ numbered index calls"
  by (induction conflicts index pending calls rule: plan_from.induct)
    (auto simp: Let_def flush_items numbered_Cons, simp add: numbered_def)

lemma flush_group:
  "list_all (\<lambda>it. parallelizable conflicts (bi_Call it)) pending \<Longrightarrow>
   list_all (group_segment conflicts) (flushParallel pending)"
  by (simp add: flushParallel_def group_segment_def)

lemma plan_from_shape:
  assumes "list_all (\<lambda>it. parallelizable conflicts (bi_Call it)) pending"
  shows "list_all (\<lambda>s. group_segment conflicts s \<or> single_segment conflicts s) (plan_from conflicts index pending calls) \<and>
    successively (\<lambda>a b. single_segment conflicts a \<or> single_segment conflicts b) (plan_from conflicts index pending calls)"
  using assms
proof (induction conflicts index pending calls rule: plan_from.induct)
  case (1 conflicts index pending)
  then show ?case using flush_group by (auto simp: flushParallel_def list_all_iff)
next
  case (2 conflicts index pending call calls)
  show ?case
  proof (cases "parallelizable conflicts call")
    case True
    then show ?thesis using 2(1) 2(3) by (simp add: Let_def)
  next
    case False
    let ?item = "\<lparr>bi_Index = index, bi_Call = call\<rparr>"
    let ?rest = "plan_from conflicts (Suc index) [] calls"
    have single: "single_segment conflicts \<lparr>bs_Parallel = False, bs_Items = [?item]\<rparr>"
      using False by (simp add: single_segment_def)
    have rest: "list_all (\<lambda>s. group_segment conflicts s \<or> single_segment conflicts s) ?rest"
      "successively (\<lambda>a b. single_segment conflicts a \<or> single_segment conflicts b) ?rest"
      using 2(2) [OF refl False] by simp_all
    have "successively (\<lambda>a b. single_segment conflicts a \<or> single_segment conflicts b)
        (\<lparr>bs_Parallel = False, bs_Items = [?item]\<rparr> # ?rest)"
      using rest(2) single by (cases ?rest) auto
    with rest(1) single flush_group [OF 2(3)] False show ?thesis
      by (auto simp: Let_def flushParallel_def list_all_iff)
  qed
qed

text \<open>The plan of a batch is its grouping into maximal parallel runs: it holds every call once, in order
  and under its index; a segment is either a run of calls that may run together (parallel exactly when
  there are two or more) or a single call that may not; and two neighbouring segments are never both
  runs, so the grouping is as coarse as the order allows.\<close>

theorem plan_groups_maximally:
  "concat (map bs_Items (PlanToolBatch calls conflicts)) = numbered 0 calls \<and>
   list_all (\<lambda>s. group_segment conflicts s \<or> single_segment conflicts s) (PlanToolBatch calls conflicts) \<and>
   successively (\<lambda>a b. single_segment conflicts a \<or> single_segment conflicts b) (PlanToolBatch calls conflicts)"
  using plan_from_shape [of conflicts "[]"] by (simp add: PlanToolBatch_def plan_from_items)

section \<open>Parallel execution\<close>

fun weight :: "goroutine \<Rightarrow> nat" where
  "weight Waiting = 2"
| "weight Running = 1"
| "weight (Finished e) = 0"

definition seg_measure :: "segment_state \<Rightarrow> nat" where
  "seg_measure st = sum_list (map weight (sg_Threads st)) +
     (if sg_Done st then 0 else 1)"

definition seg_inv :: "nat \<Rightarrow> string \<Rightarrow> (batch_item \<Rightarrow> outcome) \<Rightarrow> batch_item list \<Rightarrow> segment_state \<Rightarrow> bool" where
  "seg_inv k ctxErr execute items st \<longleftrightarrow>
     length (sg_Threads st) = length items \<and> running st \<le> k \<and>
     (\<forall>i e. i < length items \<and> sg_Threads st ! i = Finished e \<longrightarrow>
        e = executeOne execute (items ! i) \<or> (sg_Done st \<and> e = cancelled_execution ctxErr (items ! i)))"

lemma sum_list_update_nat:
  "i < length xs \<Longrightarrow> sum_list (map f (xs[i := y])) + f (xs ! i) = sum_list (map f xs) + (f y :: nat)"
  by (induction xs arbitrary: i) (auto split: nat.splits)

lemma running_sum: "running st = sum_list (map (\<lambda>g. if g = Running then 1 else 0) (sg_Threads st))"
proof -
  have "length (filter P xs) = sum_list (map (\<lambda>g. if P g then 1 else (0::nat)) xs)" for P and xs :: "goroutine list"
    by (induction xs) auto
  then show ?thesis by (simp add: running_def)
qed

lemma running_update:
  "i < length (sg_Threads st) \<Longrightarrow>
   running (st\<lparr>sg_Threads := (sg_Threads st)[i := g]\<rparr>) + (if sg_Threads st ! i = Running then 1 else 0) =
   running st + (if g = Running then 1 else 0)"
  using sum_list_update_nat [of i "sg_Threads st" "\<lambda>g. if g = Running then 1 else 0" g] by (simp add: running_sum)

lemma seg_measure_step: "segment_step m e ex items st st' \<Longrightarrow> seg_measure st' + 1 = seg_measure st \<or> seg_measure st' + 2 = seg_measure st"
proof (induction rule: segment_step.induct)
  case (acquire i st)
  with sum_list_update_nat [of i "sg_Threads st" weight Running]
  show ?case by (simp add: seg_measure_def)
next
  case (finish i st)
  with sum_list_update_nat [of i "sg_Threads st" weight
      "Finished (executeOne ex (items ! i))"]
  show ?case by (simp add: seg_measure_def)
next
  case (give_up i st)
  with sum_list_update_nat [of i "sg_Threads st" weight
      "Finished (cancelled_execution e (items ! i))"]
  show ?case by (simp add: seg_measure_def)
qed (simp add: seg_measure_def)

lemma seg_inv_step:
  "segment_step m e ex items st st' \<Longrightarrow> seg_inv (slots m) e ex items st \<Longrightarrow> seg_inv (slots m) e ex items st'"
proof (induction rule: segment_step.induct)
  case (acquire i st)
  with running_update [of i st Running] show ?case
    by (auto simp: seg_inv_def nth_list_update split: if_splits)
next
  case (finish i st)
  with running_update [of i st "Finished (executeOne ex (items ! i))"] show ?case
    by (auto simp: seg_inv_def nth_list_update split: if_splits)
next
  case (give_up i st)
  with running_update [of i st "Finished (cancelled_execution e (items ! i))"] show ?case
    by (auto simp: seg_inv_def nth_list_update split: if_splits)
qed (auto simp: seg_inv_def running_def)

lemma seg_inv_start: "seg_inv (slots m) e ex items (segment_start d items)"
  by (auto simp: seg_inv_def segment_start_def running_def)

lemma seg_measure_start: "seg_measure (segment_start d items) \<le> 2 * length items + 1"
  by (simp add: seg_measure_def segment_start_def sum_list_replicate)

lemma segment_steps:
  assumes "(segment_step m e ex items ^^ k) (segment_start d items) st"
  shows "seg_inv (slots m) e ex items st \<and> k + seg_measure st \<le> 2 * length items + 1"
  using assms
proof (induction k arbitrary: st)
  case 0
  then show ?case using seg_inv_start [of m e ex items d] seg_measure_start [of d items] by auto
next
  case (Suc k)
  then obtain st1 where "(segment_step m e ex items ^^ k) (segment_start d items) st1" "segment_step m e ex items st1 st"
    by auto
  with Suc.IH [of st1] seg_inv_step seg_measure_step show ?case by fastforce
qed

definition all_finished :: "segment_state \<Rightarrow> bool" where
  "all_finished st \<longleftrightarrow> (\<forall>g\<in>set (sg_Threads st). \<exists>e. g = Finished e)"

lemma slots_pos: "0 < slots m"
  by (simp add: slots_def)

lemma segment_progress:
  assumes "\<not> all_finished st"
  shows "\<exists>st'. segment_step m e ex items st st'"
proof (cases "Running \<in> set (sg_Threads st)")
  case True
  then show ?thesis by (metis in_set_conv_nth segment_step.finish)
next
  case False
  then have "running st = 0" by (auto simp: running_def filter_empty_conv)
  moreover have "Waiting \<in> set (sg_Threads st)"
    using assms False unfolding all_finished_def by (metis goroutine.exhaust)
  ultimately show ?thesis by (metis in_set_conv_nth segment_step.acquire slots_pos)
qed

definition results_of :: "segment_state \<Rightarrow> batch_execution list" where
  "results_of st = map (\<lambda>g. case g of Finished e \<Rightarrow> e | _ \<Rightarrow> undefined) (sg_Threads st)"

lemma segment_final:
  assumes "seg_inv k e ex items st" "all_finished st" "distinct items" "1 < length items"
  shows "\<exists>cancelled. (\<forall>it e'. cancelled it = Some e' \<longrightarrow> sg_Done st \<and> e' = e) \<and>
    results_of st = segment_results ex cancelled \<lparr>bs_Parallel = True, bs_Items = items\<rparr>"
proof -
  let ?r = "results_of st"
  define cancelled where "cancelled it = (if \<exists>i<length items. items ! i = it \<and> ?r ! i \<noteq> executeOne ex it then Some e else None)" for it
  have len: "length ?r = length items" using assms(1) by (simp add: results_of_def seg_inv_def)
  have entry: "?r ! i = executeOne ex (items ! i) \<or> sg_Done st \<and> ?r ! i = cancelled_execution e (items ! i)"
    if "i < length items" for i
  proof -
    have "i < length (sg_Threads st)" using that assms(1) by (simp add: seg_inv_def)
    then obtain x where x: "sg_Threads st ! i = Finished x"
      using assms(2) unfolding all_finished_def by (metis nth_mem)
    with \<open>i < length (sg_Threads st)\<close> have "?r ! i = x" by (simp add: results_of_def)
    with x assms(1) that show ?thesis by (auto simp: seg_inv_def)
  qed
  have c: "cancelled (items ! i) = (if ?r ! i \<noteq> executeOne ex (items ! i) then Some e else None)" if "i < length items" for i
    using that assms(3) by (auto simp: cancelled_def nth_eq_iff_index_eq)
  have "?r = segment_results ex cancelled \<lparr>bs_Parallel = True, bs_Items = items\<rparr>"
    using assms(4) len entry c by (intro nth_equalityI) (auto simp: segment_results_def serial_segment_def)
  moreover have "cancelled it = Some e' \<Longrightarrow> sg_Done st \<and> e' = e" for it e'
    using entry by (auto simp: cancelled_def split: if_splits)
  ultimately show ?thesis by blast
qed

text \<open>C27: The goroutines of a parallel segment. Under every interleaving, and wherever the context ends, the
  segment takes at most two steps per call and one for the context, never has more than
  \<^verbatim>\<open>maxParallel\<close> calls running, is never stuck before all goroutines are done, and when they are,
  its results are the entries of the calls in their order: what the call returned, or, only after the
  context ended, the cancellation entry.\<close>

theorem parallel_segment_correct:
  assumes "(segment_step maxParallel ctxErr execute items ^^ k) (segment_start d items) st"
    and "distinct items" and "1 < length items"
  shows "k \<le> 2 * length items + 1 \<and> running st \<le> (if maxParallel \<le> 0 then 1 else nat maxParallel) \<and>
    (all_finished st \<or> (\<exists>st'. segment_step maxParallel ctxErr execute items st st')) \<and>
    (all_finished st \<longrightarrow>
      (\<exists>cancelled. (\<forall>it e. cancelled it = Some e \<longrightarrow> sg_Done st \<and> e = ctxErr) \<and>
        results_of st = segment_results execute cancelled \<lparr>bs_Parallel = True, bs_Items = items\<rparr>))"
proof (intro conjI impI)
  note s = segment_steps [OF assms(1)]
  show "k \<le> 2 * length items + 1" "running st \<le> (if maxParallel \<le> 0 then 1 else nat maxParallel)"
    using s by (auto simp: seg_inv_def slots_def)
  show "all_finished st \<or> (\<exists>st'. segment_step maxParallel ctxErr execute items st st')"
    using segment_progress by blast
  show "\<exists>cancelled. (\<forall>it e. cancelled it = Some e \<longrightarrow> sg_Done st \<and> e = ctxErr) \<and>
        results_of st = segment_results execute cancelled \<lparr>bs_Parallel = True, bs_Items = items\<rparr>" if "all_finished st"
    using segment_final [OF conjunct1 [OF s] that assms(2,3)] .
qed

section \<open>Witnesses\<close>

definition read_tool :: runtime_tool where
  "read_tool = \<lparr>rt_Name = ''read'', rt_Description = [], rt_Parameters = [], rt_Metadata = None\<rparr>"

definition sample_normalizer :: normalizer where
  "sample_normalizer = \<lparr>nz_Tools = [(''read'', read_tool)], nz_Aliases = [], nz_CaseInsensitive = True\<rparr>"

lemma sample_normalizer_new: "NewToolCallNormalizer sample_lib [Some read_tool] [] = Inr sample_normalizer"
  by code_simp

lemma sample_batch_ok: "nc_Issue (NormalizeBatch sample_lib sample_normalizer [id_call ''a''] ! 0) = None"
  by code_simp

theorem normalized_call_safe_witness:
  "\<exists>t. nc_Tool (NormalizeBatch sample_lib sample_normalizer [id_call ''a''] ! 0) = Some t \<and> Some t \<in> set [Some read_tool]"
  using normalized_call_safe [OF sample_normalizer_new _ refl sample_batch_ok] by auto

theorem batch_call_ids_witness:
  "map (\<lambda>item. tc_ID (nc_Call item)) (NormalizeBatch sample_lib sample_normalizer [id_call ''a'', id_call ''a_2'']) =
     [''a'', ''a_2'']"
  using batch_call_ids [of sample_lib sample_normalizer "[id_call ''a'', id_call ''a_2'']"]
  by (simp add: sample_IDs_trimmed id_call_def)

definition sample_item :: "nat \<Rightarrow> batch_item" where
  "sample_item i = \<lparr>bi_Index = i, bi_Call = \<lparr>nc_Call = id_call ''a'', nc_Tool = Some read_tool, nc_Metadata = no_metadata, nc_Issue = None\<rparr>\<rparr>"

abbreviation sample_items :: "batch_item list" where
  "sample_items \<equiv> [sample_item 0, sample_item 1]"

definition sample_end :: segment_state where
  "sample_end = \<lparr>sg_Done = True, sg_Threads =
     [Finished (cancelled_execution ''context canceled'' (sample_item 0)), Finished (cancelled_execution ''context canceled'' (sample_item 1))]\<rparr>"

lemma sample_run:
  "(segment_step 4 ''context canceled'' (\<lambda>_. (None, None)) sample_items ^^ 2) (segment_start True sample_items) sample_end"
proof -
  let ?step = "segment_step 4 ''context canceled'' (\<lambda>_. (None, None)) sample_items"
  let ?mid = "\<lparr>sg_Done = True, sg_Threads = [Finished (cancelled_execution ''context canceled'' (sample_item 0)), Waiting]\<rparr>"
  have "?step (segment_start True sample_items) ?mid"
    using segment_step.give_up [of 0 "segment_start True sample_items" 4 "''context canceled''" "\<lambda>_. (None, None)" sample_items]
    by (simp add: segment_start_def)
  moreover have "?step ?mid sample_end"
    using segment_step.give_up [of 1 ?mid 4 "''context canceled''" "\<lambda>_. (None, None)" sample_items]
    by (simp add: sample_end_def)
  ultimately show ?thesis by (auto simp: numeral_2_eq_2)
qed

theorem parallel_segment_correct_witness:
  "\<exists>cancelled. results_of sample_end =
     segment_results (\<lambda>_. (None, None)) cancelled \<lparr>bs_Parallel = True, bs_Items = sample_items\<rparr>"
proof -
  have "distinct sample_items" "1 < length sample_items" by (simp_all add: sample_item_def)
  from parallel_segment_correct [OF sample_run this] show ?thesis
    by (auto simp: all_finished_def sample_end_def)
qed

end
