(* ===== verification/Tool_Batch_Props.thy ===== *)
theory Tool_Batch_Props
  imports Tool_Batch Tool_Calls_Props
begin

text \<open>
  What a tool batch guarantees: no tool runs unless it was given to the agent, its arguments fit its
  schema, and the policy let the call through or a human approved it; the limit on tool calls holds;
  a batch that goes on answers every call. And two behaviours of stopped batches: an approved call
  runs without its time limit, and a batch that stops for user input runs its calls again when the run
  is resumed.
\<close>

section \<open>Preparation\<close>

definition hook_request :: "'x run_request \<Rightarrow> tool_call \<Rightarrow> tool_metadata \<Rightarrow> pre_request" where
  "hook_request req call metadata = \<lparr>pq_ToolCallID = tc_ID call, pq_ToolName = tc_Name call,
     pq_Arguments = tc_Arguments call, pq_Metadata = metadata, pq_Policy = rq_ToolPolicy req\<rparr>"

text \<open>A prepared call comes from a normalised call without an issue that the hooks let through.\<close>

definition cleared :: "hook_chain \<Rightarrow> 'x run_request \<Rightarrow> string list \<Rightarrow> prepared_call \<Rightarrow> bool" where
  "cleared hooks req approvedIDs p \<longleftrightarrow>
     (let pre = BeforeToolUse hooks [] (hook_request req (pc_call p) (pc_metadata p)) in
      pr_Denied pre = None \<and> (pr_Approval pre = None \<or> tc_ID (pc_call p) \<in> set approvedIDs) \<and>
      pc_execCtx p = (case pr_Context pre of None \<Rightarrow> [] | Some c \<Rightarrow> c))"

definition comes_from :: "normalized_call list \<Rightarrow> prepared_call \<Rightarrow> bool" where
  "comes_from ns p \<longleftrightarrow> (\<exists>nc\<in>set ns. nc_Issue nc = None \<and> nc_Tool nc = Some (pc_tool p) \<and> pc_call p = nc_Call nc \<and>
     pc_metadata p = MetadataOf (Some (pc_tool p)))"

lemma comes_from_Cons: "comes_from ns p \<Longrightarrow> comes_from (n # ns) p"
  by (auto simp: comes_from_def)

lemma appendStep_simps [simp]:
  "rr_ToolCalls (appendStep r res s) = rr_ToolCalls res" "rr_Iterations (appendStep r res s) = rr_Iterations res"
  "rr_Checkpoint (appendStep r res s) = rr_Checkpoint res" "rr_StopReason (appendStep r res s) = rr_StopReason res"
  by (simp_all add: appendStep_def Let_def)

lemma toolMessage_simps [simp]: "cm_ToolCallID (toolMessage i c) = i" "cm_Role (toolMessage i c) = RoleTool"
  "cm_ToolCalls (toolMessage i c) = []"
  by (simp_all add: toolMessage_def)

definition tool_answer :: "chat_message \<Rightarrow> bool" where
  "tool_answer m \<longleftrightarrow> cm_Role m = RoleTool \<and> cm_ToolCalls m = []"

lemma tool_answer_toolMessage [simp]: "tool_answer (toolMessage i c)"
  by (simp add: tool_answer_def)

definition prep_spec :: "hook_chain \<Rightarrow> 'x run_request \<Rightarrow> string list \<Rightarrow> normalized_call list \<Rightarrow> 'x run_result \<Rightarrow>
    chat_message list \<Rightarrow> prepared_call list \<Rightarrow> 'x run_result \<Rightarrow> chat_message list \<Rightarrow> prepared_call list \<Rightarrow> bool" where
  "prep_spec hooks req approvedIDs ns result messages prepared result' messages' prepared' \<longleftrightarrow>
     (\<exists>new added. messages' = messages @ new \<and> prepared' = prepared @ added \<and> list_all tool_answer new \<and>
        list_all (\<lambda>p. comes_from ns p \<and> cleared hooks req approvedIDs p) added \<and>
        mset (map cm_ToolCallID new) + mset (map (\<lambda>p. tc_ID (pc_call p)) added) = mset (map (\<lambda>n. tc_ID (nc_Call n)) ns) \<and>
        (added = [] \<or> rr_ToolCalls result + int (length prepared') \<le> rq_MaxToolCalls req)) \<and>
     rr_ToolCalls result' = rr_ToolCalls result \<and> rr_Iterations result' = rr_Iterations result"

lemma prep_spec_message:
  assumes "prep_spec hooks req ids ns result1 (messages @ [toolMessage (tc_ID (nc_Call n)) c]) prepared result' messages' prepared'"
    "rr_ToolCalls result1 = rr_ToolCalls result" "rr_Iterations result1 = rr_Iterations result"
  shows "prep_spec hooks req ids (n # ns) result messages prepared result' messages' prepared'"
proof -
  obtain new added where "messages' = messages @ toolMessage (tc_ID (nc_Call n)) c # new" "prepared' = prepared @ added"
    "list_all tool_answer new" "list_all (\<lambda>p. comes_from ns p \<and> cleared hooks req ids p) added"
    "mset (map cm_ToolCallID new) + mset (map (\<lambda>p. tc_ID (pc_call p)) added) = mset (map (\<lambda>n. tc_ID (nc_Call n)) ns)"
    "added = [] \<or> rr_ToolCalls result + int (length prepared') \<le> rq_MaxToolCalls req"
    "rr_ToolCalls result' = rr_ToolCalls result" "rr_Iterations result' = rr_Iterations result"
    using assms unfolding prep_spec_def by auto
  then show ?thesis
    unfolding prep_spec_def
    by (intro conjI exI [of _ "toolMessage (tc_ID (nc_Call n)) c # new"] exI [of _ added])
      (auto simp: list_all_iff comes_from_Cons)
qed

lemma prep_spec_prepared:
  assumes "prep_spec hooks req ids ns result1 messages (prepared @ [p]) result' messages' prepared'"
    "rr_ToolCalls result1 = rr_ToolCalls result" "rr_Iterations result1 = rr_Iterations result"
    "comes_from (n # ns) p" "cleared hooks req ids p" "pc_call p = nc_Call n"
    "rr_ToolCalls result + int (length prepared) < rq_MaxToolCalls req"
  shows "prep_spec hooks req ids (n # ns) result messages prepared result' messages' prepared'"
proof -
  obtain new added where "messages' = messages @ new" "prepared' = prepared @ p # added"
    "list_all tool_answer new" "list_all (\<lambda>p. comes_from ns p \<and> cleared hooks req ids p) added"
    "mset (map cm_ToolCallID new) + mset (map (\<lambda>p. tc_ID (pc_call p)) added) = mset (map (\<lambda>n. tc_ID (nc_Call n)) ns)"
    "added = [] \<or> rr_ToolCalls result + int (length prepared') \<le> rq_MaxToolCalls req"
    "rr_ToolCalls result' = rr_ToolCalls result" "rr_Iterations result' = rr_Iterations result"
    using assms(1-3) unfolding prep_spec_def by auto
  then show ?thesis
    unfolding prep_spec_def using assms(4-)
    by (intro conjI exI [of _ new] exI [of _ "p # added"]) (auto simp: list_all_iff comes_from_Cons)
qed

text \<open>The branch of a call whose name resolved and whose arguments are valid.\<close>

lemma prepare_calls_tool:
  assumes "\<not> rq_MaxToolCalls req \<le> rr_ToolCalls result + int (length prepared)"
    "nc_Issue n = None" "nc_Tool n = Some tool"
    "pre = BeforeToolUse hooks [] (hook_request req (nc_Call n) (MetadataOf (Some tool)))"
    "res1 = (appendStep r result (tool_call_step r (nc_Call n)))
       \<lparr>rr_HookTrace := appendHookTrace (rr_HookTrace (appendStep r result (tool_call_step r (nc_Call n))))
          (tc_Name (nc_Call n)) (pr_Traces pre)\<rparr>"
  shows "prepare_calls lib r hooks req toolNames ids result messages prepared (n # ns) =
    (case (if tc_ID (nc_Call n) \<in> set ids then None else pr_Approval pre) of
       Some a \<Rightarrow> Stop_batch (stop_for_approval r req toolNames ids res1 messages (nc_Call n) a) messages
     | None \<Rightarrow>
        (case pr_Denied pre of
           Some e \<Rightarrow> prepare_calls lib r hooks req toolNames ids (appendStep r res1 (failed_step r (nc_Call n) e e))
             (messages @ [toolMessage (tc_ID (nc_Call n)) e]) prepared ns
         | None \<Rightarrow> prepare_calls lib r hooks req toolNames ids res1 messages
             (prepared @ [\<lparr>pc_call = nc_Call n, pc_tool = tool, pc_metadata = MetadataOf (Some tool),
                pc_execCtx = (case pr_Context pre of None \<Rightarrow> [] | Some c \<Rightarrow> c), pc_execCancel = pr_Cancel pre,
                pc_stepIndex = length (rr_Steps result) + 1\<rparr>]) ns))"
  using assms(1-3) unfolding assms(4,5) hook_request_def
  by (simp add: Let_def cong: if_cong option.case_cong)

lemma prepare_calls_spec:
  assumes "prepare_calls lib r hooks req toolNames ids result messages prepared ns = Prepared result' messages' prepared'"
  shows "prep_spec hooks req ids ns result messages prepared result' messages' prepared'"
  using assms
proof (induction ns arbitrary: result messages prepared)
  case Nil
  then show ?case by (auto simp: prep_spec_def)
next
  case (Cons n ns)
  have limit: "\<not> rq_MaxToolCalls req \<le> rr_ToolCalls result + int (length prepared)"
    using Cons.prems by (auto simp: Let_def)
  show ?case
  proof (cases "nc_Issue n = None \<and> nc_Tool n \<noteq> None")
    case False
    with Cons.prems limit obtain res1 c where
      "prepare_calls lib r hooks req toolNames ids res1 (messages @ [toolMessage (tc_ID (nc_Call n)) c]) prepared ns =
         Prepared result' messages' prepared'"
      "rr_ToolCalls res1 = rr_ToolCalls result" "rr_Iterations res1 = rr_Iterations result"
      by (auto simp: Let_def split: option.splits)
    then show ?thesis by (intro prep_spec_message [OF Cons.IH])
  next
    case True
    then obtain tool where tool: "nc_Issue n = None" "nc_Tool n = Some tool" by auto
    define pre where "pre = BeforeToolUse hooks [] (hook_request req (nc_Call n) (MetadataOf (Some tool)))"
    define res1 where "res1 = (appendStep r result (tool_call_step r (nc_Call n)))
       \<lparr>rr_HookTrace := appendHookTrace (rr_HookTrace (appendStep r result (tool_call_step r (nc_Call n))))
          (tc_Name (nc_Call n)) (pr_Traces pre)\<rparr>"
    note prems = Cons.prems [unfolded prepare_calls_tool [OF limit tool pre_def res1_def]]
    have res1: "rr_ToolCalls res1 = rr_ToolCalls result" "rr_Iterations res1 = rr_Iterations result"
      by (simp_all add: res1_def)
    have app: "(if tc_ID (nc_Call n) \<in> set ids then None else pr_Approval pre) = None"
      using prems by (cases "if tc_ID (nc_Call n) \<in> set ids then None else pr_Approval pre") simp_all
    show ?thesis
    proof (cases "pr_Denied pre")
      case (Some e)
      then show ?thesis
        using res1 by (intro prep_spec_message [OF Cons.IH [OF prems [unfolded app option.case Some]]]) simp_all
    next
      case None
      show ?thesis
      proof (rule prep_spec_prepared [OF Cons.IH [OF prems [unfolded app None option.case]]])
        show "comes_from (n # ns) \<lparr>pc_call = nc_Call n, pc_tool = tool, pc_metadata = MetadataOf (Some tool),
            pc_execCtx = (case pr_Context pre of None \<Rightarrow> [] | Some c \<Rightarrow> c), pc_execCancel = pr_Cancel pre,
            pc_stepIndex = length (rr_Steps result) + 1\<rparr>"
          using tool by (simp add: comes_from_def)
      qed (use tool None app res1 limit in \<open>auto simp: cleared_def pre_def split: if_splits\<close>)
    qed
  qed
qed

section \<open>Execution and results\<close>

lemma plan_items: "concat (map bs_Items (PlanToolBatch calls c)) = numbered 0 calls"
  by (simp add: PlanToolBatch_def plan_from_items)

lemma numbered_indices: "map bi_Index (numbered i calls) = [i..<i + length calls]"
proof (induction calls arbitrary: i)
  case (Cons c calls)
  then show ?case by (simp add: numbered_Cons upt_conv_Cons del: upt_Suc)
qed (simp add: numbered_def)

lemma subseq_concat_filter: "subseq (concat (map (\<lambda>s. filter (P s) (f s)) ss)) (concat (map f ss))"
  by (induction ss) (auto intro: list_emb_append_mono)

lemma ran_calls_subset:
  "length (ran_calls cancelled prepared) \<le> length prepared \<and> set (ran_calls cancelled prepared) \<subseteq> set prepared"
proof -
  let ?plan = "PlanToolBatch (planned_calls prepared) None"
  define runs where "runs = concat (map (\<lambda>s. filter (\<lambda>item. serial_segment s \<or> cancelled (bi_Index item) = None) (bs_Items s)) ?plan)"
  have sub: "subseq runs (numbered 0 (planned_calls prepared))"
    unfolding runs_def plan_items [of _ None, symmetric] by (rule subseq_concat_filter)
  have "bi_Index ` set (numbered 0 (planned_calls prepared)) = {0..<length prepared}"
    using arg_cong [OF numbered_indices [of 0 "planned_calls prepared"], of set] by (simp add: planned_calls_def)
  with subseq_set [OF sub] have "\<forall>it\<in>set runs. bi_Index it < length prepared" by (auto simp: set_eq_iff)
  moreover have "length (numbered 0 (planned_calls prepared)) = length prepared"
    by (simp add: numbered_def planned_calls_def)
  moreover have "ran_calls cancelled prepared = map (\<lambda>item. prepared ! bi_Index item) runs"
    by (simp only: ran_calls_def runs_def)
  ultimately show ?thesis using list_emb_length [OF sub] by auto
qed

lemma record_results_spec:
  "record_results r hooks req ex i result messages prepared = (result', messages') \<Longrightarrow>
   (\<exists>new. messages' = messages @ new \<and> map cm_ToolCallID new = map (\<lambda>p. tc_ID (pc_call p)) prepared \<and> list_all tool_answer new) \<and>
   rr_ToolCalls result' = rr_ToolCalls result"
proof (induction prepared arbitrary: i result messages)
  case (Cons p prepared)
  obtain res err where "execution_of ex i = (res, err)" by fastforce
  with Cons.prems obtain c result1 where
    "record_results r hooks req ex (Suc i) result1 (messages @ [toolMessage (tc_ID (pc_call p)) c]) prepared = (result', messages')"
    "rr_ToolCalls result1 = rr_ToolCalls result"
    by (auto simp: Let_def)
  with Cons.IH [OF this(1)] obtain new where "messages' = messages @ toolMessage (tc_ID (pc_call p)) c # new"
    "map cm_ToolCallID new = map (\<lambda>p. tc_ID (pc_call p)) prepared" "list_all tool_answer new"
    "rr_ToolCalls result' = rr_ToolCalls result" by auto
  then show ?case by (intro conjI exI [of _ "toolMessage (tc_ID (pc_call p)) c # new"]) auto
qed simp

text \<open>The three ways a batch ends.\<close>

lemma executeToolBatch_cases:
  assumes "executeToolBatch lib r hooks req toolNames ids exec cancelled result messages calls = (stop, result', messages', runs)"
  obtains (stopped) stop "runs = []"
      "prepare_calls lib r hooks req toolNames ids result messages [] (normalize_calls lib req calls) = Stop_batch result' messages'"
  | (input) res1 prepared item a where stop "runs = ran_calls cancelled prepared"
      "prep_spec hooks req ids (normalize_calls lib req calls) result messages [] res1 messages' prepared"
      "first_input (batch_executions exec cancelled prepared) prepared = Some (item, a)"
      "result' = stop_for_input r req toolNames res1 messages' (pc_call item) a"
  | (goes_on) res1 messages1 prepared where "\<not> stop" "runs = ran_calls cancelled prepared"
      "prep_spec hooks req ids (normalize_calls lib req calls) result messages [] res1 messages1 prepared"
      "record_results r hooks req (batch_executions exec cancelled prepared) 0
         (res1\<lparr>rr_ToolCalls := rr_ToolCalls res1 + int (length prepared)\<rparr>) messages1 prepared = (result', messages')"
proof (cases "prepare_calls lib r hooks req toolNames ids result messages [] (normalize_calls lib req calls)")
  case (Stop_batch res m)
  with assms stopped show ?thesis by (auto simp: executeToolBatch_def)
next
  case (Prepared res1 m prepared)
  note spec = prepare_calls_spec [OF this]
  show ?thesis
  proof (cases "first_input (batch_executions exec cancelled prepared) prepared")
    case None
    with assms Prepared spec goes_on show ?thesis
      by (auto simp: executeToolBatch_def Let_def split: prod.splits)
  next
    case (Some ia)
    obtain item a where "ia = (item, a)" by fastforce
    with assms Prepared spec input Some show ?thesis by (auto simp: executeToolBatch_def Let_def)
  qed
qed

lemma prep_spec_prepared_ok:
  assumes "prep_spec hooks req ids ns result messages [] result' messages' prepared"
  shows "p \<in> set prepared \<Longrightarrow> comes_from ns p \<and> cleared hooks req ids p"
    and "prepared = [] \<or> rr_ToolCalls result + int (length prepared) \<le> rq_MaxToolCalls req"
  using assms by (auto simp: prep_spec_def list_all_iff)

lemma normalize_calls_safe:
  assumes "comes_from (normalize_calls lib req calls) p"
  shows "Some (pc_tool p) \<in> set (rq_Tools req) \<and> tc_Name (pc_call p) = TrimSpace (rt_Name (pc_tool p)) \<and>
    pc_metadata p = MetadataOf (Some (pc_tool p)) \<and>
    ValidateToolArguments lib (rt_Parameters (pc_tool p)) (tc_Arguments (pc_call p)) = None"
proof -
  obtain nc where nc: "nc \<in> set (normalize_calls lib req calls)" "nc_Issue nc = None" "nc_Tool nc = Some (pc_tool p)"
    "pc_call p = nc_Call nc" "pc_metadata p = MetadataOf (Some (pc_tool p))"
    using assms by (auto simp: comes_from_def)
  show ?thesis
  proof (cases "NewToolCallNormalizer lib (rq_Tools req) []")
    case (Inl e)
    with nc(1,2) show ?thesis by (auto simp: normalize_calls_def)
  next
    case (Inr n)
    with nc(1) obtain i where "i < length calls" "nc = NormalizeBatch lib n calls ! i"
      by (auto simp: normalize_calls_def in_set_conv_nth NormalizeBatch_def)
    with normalize_from_nth [of i calls lib n 0 "\<lambda>_. 0"] obtain cid where
      "nc = (Normalize lib n (calls ! i) i)\<lparr>nc_Call := (nc_Call (Normalize lib n (calls ! i) i))\<lparr>tc_ID := cid\<rparr>\<rparr>"
      by (auto simp: NormalizeBatch_def)
    with Normalize_ok [OF Inr, of "calls ! i" i] nc show ?thesis by auto
  qed
qed

section \<open>Properties\<close>

text \<open>No tool runs unchecked. Whatever the model asked for and whatever the hooks are, every call whose tool
  runs in a batch names a tool the agent was given, has arguments that tool's schema accepts, was not
  denied by the hooks, and needed no approval or was approved under its own identifier. The calls
  run never exceed what is left of the run's limit on tool calls.\<close>

theorem no_tool_runs_unchecked:
  assumes "executeToolBatch lib r hooks req toolNames approvedIDs exec cancelled result messages calls =
    (stop, result', messages', runs)"
  shows "list_all (\<lambda>p. Some (pc_tool p) \<in> set (rq_Tools req) \<and> tc_Name (pc_call p) = TrimSpace (rt_Name (pc_tool p)) \<and>
      ValidateToolArguments lib (rt_Parameters (pc_tool p)) (tc_Arguments (pc_call p)) = None \<and>
      (let pre = BeforeToolUse hooks [] (hook_request req (pc_call p) (MetadataOf (Some (pc_tool p)))) in
       pr_Denied pre = None \<and> (pr_Approval pre = None \<or> tc_ID (pc_call p) \<in> set approvedIDs))) runs \<and>
    (runs = [] \<or> rr_ToolCalls result + int (length runs) \<le> rq_MaxToolCalls req)"
proof -
  have main: ?thesis
    if spec: "prep_spec hooks req approvedIDs (normalize_calls lib req calls) result messages [] res1 m prepared"
      and runs: "runs = ran_calls cancelled prepared" for res1 m prepared
  proof -
    have sub: "length runs \<le> length prepared" "set runs \<subseteq> set prepared" using ran_calls_subset runs by auto
    have "Some (pc_tool p) \<in> set (rq_Tools req) \<and> tc_Name (pc_call p) = TrimSpace (rt_Name (pc_tool p)) \<and>
      ValidateToolArguments lib (rt_Parameters (pc_tool p)) (tc_Arguments (pc_call p)) = None \<and>
      (let pre = BeforeToolUse hooks [] (hook_request req (pc_call p) (MetadataOf (Some (pc_tool p)))) in
       pr_Denied pre = None \<and> (pr_Approval pre = None \<or> tc_ID (pc_call p) \<in> set approvedIDs))" if "p \<in> set runs" for p
      using prep_spec_prepared_ok(1) [OF spec, of p] normalize_calls_safe [of lib req calls p] that sub(2)
      by (auto simp: cleared_def Let_def)
    with prep_spec_prepared_ok(2) [OF spec] sub(1) show ?thesis by (auto simp: list_all_iff)
  qed
  show ?thesis using assms by (cases rule: executeToolBatch_cases) (simp, rule main, assumption, assumption, rule main, assumption, assumption)
qed

text \<open>A batch that goes on answers every call exactly once: the messages it appends are tool messages whose
  call identifiers are, as a multiset, the identifiers of the normalised calls, and the run's call
  counter grows by at most the number of calls.\<close>

theorem batch_answers_every_call:
  assumes "executeToolBatch lib r hooks req toolNames approvedIDs exec cancelled result messages calls =
    (False, result', messages', runs)"
  shows "\<exists>new. messages' = messages @ new \<and> list_all (\<lambda>m. cm_Role m = RoleTool) new \<and>
    mset (map cm_ToolCallID new) = mset (map (\<lambda>n. tc_ID (nc_Call n)) (normalize_calls lib req calls)) \<and>
    rr_ToolCalls result \<le> rr_ToolCalls result' \<and> rr_ToolCalls result' \<le> rr_ToolCalls result + int (length calls)"
  using assms
proof (cases rule: executeToolBatch_cases)
  case (goes_on res1 messages1 prepared)
  from goes_on(3) obtain new1 where 1: "messages1 = messages @ new1" "list_all tool_answer new1"
    "mset (map cm_ToolCallID new1) + mset (map (\<lambda>p. tc_ID (pc_call p)) prepared) =
       mset (map (\<lambda>n. tc_ID (nc_Call n)) (normalize_calls lib req calls))"
    "rr_ToolCalls res1 = rr_ToolCalls result"
    by (auto simp: prep_spec_def)
  from record_results_spec [OF goes_on(4)] obtain new2 where 2: "messages' = messages1 @ new2"
    "map cm_ToolCallID new2 = map (\<lambda>p. tc_ID (pc_call p)) prepared" "list_all tool_answer new2"
    "rr_ToolCalls result' = rr_ToolCalls res1 + int (length prepared)" by auto
  have "length prepared \<le> length (normalize_calls lib req calls)"
    using arg_cong [OF 1(3), of size] by simp
  also have "\<dots> = length calls" by (simp add: normalize_calls_def NormalizeBatch_def split: sum.splits)
  finally show ?thesis
    using 1 2 by (intro exI [of _ "new1 @ new2"]) (auto simp: list_all_iff tool_answer_def)
qed simp_all

section \<open>Time limits\<close>

lemma default_chain_hook:
  "BeforeToolUse (DefaultToolHookChain lib) ctx req =
     (let h = policy_pre_hook lib (Some ctx) req in
      \<lparr>pr_Context = (if pr_Context h \<noteq> None then pr_Context h else Some ctx), pr_Cancel = pr_Cancel h, pr_Approval = pr_Approval h,
       pr_Denied = (if pr_Approval h \<noteq> None then None else pr_Denied h), pr_Traces = pr_Traces h\<rparr>)"
  by (simp add: BeforeToolUse_def DefaultToolHookChain_def Let_def)

lemma policy_hook_exclusive: "pr_Denied (policy_pre_hook lib ctx req) = None \<or> pr_Approval (policy_pre_hook lib ctx req) = None"
  by (auto simp: policy_pre_hook_def deny_def Let_def split: option.splits prod.splits)

lemma cleared_time_limit:
  assumes "cleared (DefaultToolHookChain lib) req ids p" "eff = fst (applyRuleBindings lib (rq_ToolPolicy req))"
    "limit = EffectiveLimit (tm_TimeoutMS (pc_metadata p)) (tp_MaxToolTimeoutMS eff)"
  shows "pc_execCtx p =
    (if requiredApproval lib ((hook_request req (pc_call p) (pc_metadata p))\<lparr>pq_Policy := eff\<rparr>) \<noteq> None \<or> limit \<le> 0
     then [] else [limit])"
proof -
  let ?rq = "hook_request req (pc_call p) (pc_metadata p)"
  let ?h = "policy_pre_hook lib (Some []) ?rq"
  have pol: "pq_Policy ?rq = rq_ToolPolicy req" "pq_Metadata ?rq = pc_metadata p" by (simp_all add: hook_request_def)
  obtain traces err where ap: "applyRuleBindings lib (pq_Policy ?rq) = (eff, traces, err)"
    using assms(2) pol by (metis fst_conv prod_cases3)
  have "pr_Denied ?h = None"
    using assms(1) policy_hook_exclusive [of lib "Some []" ?rq] by (auto simp: cleared_def Let_def default_chain_hook split: if_splits)
  note nd = policy_pre_hook_not_denied [OF this ap]
  have "pc_execCtx p = (case pr_Context ?h of None \<Rightarrow> [] | Some c \<Rightarrow> c)"
    using assms(1) by (auto simp: cleared_def Let_def default_chain_hook split: option.splits)
  then show ?thesis
    unfolding policy_pre_hook_passed [OF ap [unfolded nd(1)] nd(2,3)] assms(3) pol
    by (auto simp: Let_def split: option.splits)
qed

lemma runs_cleared:
  assumes "executeToolBatch lib r hooks req toolNames ids exec cancelled result messages calls = (stop, result', messages', runs)"
    "p \<in> set runs"
  shows "cleared hooks req ids p"
  using assms(1)
proof (cases rule: executeToolBatch_cases)
  case stopped
  with assms(2) show ?thesis by simp
next
  case input
  with assms(2) ran_calls_subset prep_spec_prepared_ok(1) [OF input(3)] show ?thesis by blast
next
  case goes_on
  with assms(2) ran_calls_subset prep_spec_prepared_ok(1) [OF goes_on(3)] show ?thesis by blast
qed

text \<open>Time limits of tool calls. Under the default hooks a call runs with the smaller of the tool's own time
  limit and the policy's (after rule bindings) exactly when the policy did not ask for its approval. A
  call that a human approved runs with no time limit of its own, whatever the tool and the policy say.\<close>

theorem approved_call_has_no_time_limit:
  assumes "executeToolBatch lib r (DefaultToolHookChain lib) req toolNames approvedIDs exec cancelled result messages calls =
    (stop, result', messages', runs)"
    and "p \<in> set runs" and "eff = fst (applyRuleBindings lib (rq_ToolPolicy req))"
  shows "pc_execCtx p =
    (let limit = EffectiveLimit (tm_TimeoutMS (pc_metadata p)) (tp_MaxToolTimeoutMS eff) in
     if requiredApproval lib ((hook_request req (pc_call p) (pc_metadata p))\<lparr>pq_Policy := eff\<rparr>) \<noteq> None \<or> limit \<le> 0
     then [] else [limit])"
  using cleared_time_limit [OF runs_cleared [OF assms(1,2)] assms(3) refl] by (simp add: Let_def)

section \<open>Resuming after user input\<close>

definition plain_ids :: "tool_call list \<Rightarrow> bool" where
  "plain_ids calls \<longleftrightarrow> distinct (map tc_ID calls) \<and> list_all (\<lambda>c. TrimSpace (tc_ID c) = tc_ID c \<and> tc_ID c \<noteq> []) calls"

lemma normalize_calls_ids:
  assumes "plain_ids calls"
  shows "map (\<lambda>n. tc_ID (nc_Call n)) (normalize_calls lib req calls) = map tc_ID calls"
proof (cases "NewToolCallNormalizer lib (rq_Tools req) []")
  case (Inr n)
  have eq: "map (\<lambda>c. TrimSpace (tc_ID c)) calls = map tc_ID calls"
    using assms by (auto simp: plain_ids_def list_all_iff)
  have "distinct (map (\<lambda>c. TrimSpace (tc_ID c)) calls)"
    unfolding eq using assms by (simp add: plain_ids_def)
  then have "map (\<lambda>n. tc_ID (nc_Call n)) (NormalizeBatch lib n calls) = map (\<lambda>c. TrimSpace (tc_ID c)) calls"
    unfolding NormalizeBatch_def using assms
    by (intro normalize_from_distinct_IDs) (auto simp: plain_ids_def list_all_iff)
  with Inr eq show ?thesis by (simp add: normalize_calls_def)
qed (simp add: normalize_calls_def)

lemma find_last_assistant:
  assumes "cm_Role asst = RoleAssistant" "cm_ToolCalls asst \<noteq> []" "list_all tool_answer new"
  shows "find (\<lambda>m. cm_Role m = RoleAssistant \<and> cm_ToolCalls m \<noteq> []) (rev (msgs @ asst # new)) = Some asst"
proof -
  have "find P (xs @ a # ys) = Some a" if "\<forall>x\<in>set xs. \<not> P x" "P a" for P and xs ys :: "chat_message list" and a
    using that by (induction xs) auto
  with assms show ?thesis by (auto simp: tool_answer_def list_all_iff)
qed

lemma unresolved_after:
  assumes "cm_Role asst = RoleAssistant" "list_all tool_answer new" "c \<in> set (cm_ToolCalls asst)" "tc_Name c \<in> set names"
    "\<And>m. m \<in> set (msgs @ asst # new) \<Longrightarrow> cm_Role m = RoleTool \<Longrightarrow> cm_ToolCallID m \<noteq> tc_ID c"
  shows "c \<in> set (findUnresolvedToolCalls (msgs @ asst # new) names)"
proof -
  have "cm_ToolCalls asst \<noteq> []" using assms(3) by auto
  from find_last_assistant [OF assms(1) this assms(2), of msgs] assms(3-5) show ?thesis
    by (auto simp: findUnresolvedToolCalls_def list_ex_iff)
qed

lemma roles_distinct [simp]: "RoleAssistant \<noteq> RoleTool"
  by (simp add: RoleAssistant_def RoleTool_def)

text \<open>A batch that stops for user input runs its other calls again. The tools of such a batch have all run
  when it stops, but the checkpoint holds no result of theirs: when the answer of the pending call is
  appended and the run goes on from the checkpoint, every other call that ran is found unresolved
  and is executed a second time. (Identifiers as providers send them: trimmed, distinct, not
  answered before; the model used the tools' names.)\<close>

theorem user_input_batch_runs_twice:
  assumes batch: "executeToolBatch lib r hooks req toolNames approvedIDs exec cancelled result (msgs @ [asst]) (cm_ToolCalls asst) =
      (True, result', messages', runs)" and "runs \<noteq> []"
    and asst: "cm_Role asst = RoleAssistant" and ids: "plain_ids (cm_ToolCalls asst)"
    and names: "list_all (\<lambda>c. tc_Name c \<in> set names) (cm_ToolCalls asst)"
    and fresh: "list_all (\<lambda>m. cm_Role m = RoleTool \<longrightarrow> cm_ToolCallID m \<notin> tc_ID ` set (cm_ToolCalls asst)) msgs"
  shows "\<exists>cp pending. rr_Checkpoint result' = Some cp \<and> cp_PendingToolCall cp = Some pending \<and> cp_Messages cp = messages' \<and>
    (\<forall>p\<in>set runs. tc_ID (pc_call p) \<noteq> tc_ID pending \<longrightarrow>
      tc_ID (pc_call p) \<in> tc_ID ` set (findUnresolvedToolCalls (messages' @ [toolMessage (tc_ID pending) answer]) names))"
  using batch
proof (cases rule: executeToolBatch_cases)
  case (input res1 prepared item a)
  obtain new where new: "messages' = msgs @ asst # new" "list_all tool_answer new"
    "mset (map cm_ToolCallID new) + mset (map (\<lambda>p. tc_ID (pc_call p)) prepared) = mset (map tc_ID (cm_ToolCalls asst))"
    using input(3) unfolding prep_spec_def normalize_calls_ids [OF ids] by auto
  have rerun: "tc_ID (pc_call p) \<in> tc_ID ` set (findUnresolvedToolCalls (messages' @ [toolMessage i answer]) names)"
    if p: "p \<in> set runs" and i: "tc_ID (pc_call p) \<noteq> i" for p i
  proof -
    have prep: "p \<in> set prepared" using p input(2) ran_calls_subset by blast
    have "mset (map cm_ToolCallID new @ map (\<lambda>p. tc_ID (pc_call p)) prepared) = mset (map tc_ID (cm_ToolCalls asst))"
      using new(3) by simp
    then have d: "distinct (map cm_ToolCallID new @ map (\<lambda>p. tc_ID (pc_call p)) prepared)"
      and s: "set (map cm_ToolCallID new @ map (\<lambda>p. tc_ID (pc_call p)) prepared) = set (map tc_ID (cm_ToolCalls asst))"
      using ids mset_eq_imp_distinct_iff [of _ "map tc_ID (cm_ToolCalls asst)"] unfolding plain_ids_def
      by (blast dest: mset_eq_setD)+
    from s prep obtain c where c: "c \<in> set (cm_ToolCalls asst)" "tc_ID c = tc_ID (pc_call p)" by force
    have "tc_ID (pc_call p) \<notin> cm_ToolCallID ` set new" using d prep by force
    then have "c \<in> set (findUnresolvedToolCalls (msgs @ asst # new @ [toolMessage i answer]) names)"
    proof (intro unresolved_after)
      fix m assume m: "m \<in> set (msgs @ asst # new @ [toolMessage i answer])" "cm_Role m = RoleTool"
      have "m \<noteq> asst" using m(2) asst roles_distinct by metis
      moreover have "cm_ToolCallID m \<noteq> tc_ID c" if "m \<in> set msgs"
        using fresh that m(2) c(1) unfolding list_all_iff by blast
      moreover have "cm_ToolCallID m \<noteq> tc_ID c" if "m \<in> set new"
        using that c(2) \<open>tc_ID (pc_call p) \<notin> cm_ToolCallID ` set new\<close> by (metis imageI)
      ultimately show "cm_ToolCallID m \<noteq> tc_ID c" using m(1) c(2) i by auto
    qed (use c names new(2) asst in \<open>auto simp: list_all_iff\<close>)
    then show ?thesis unfolding c(2) [symmetric] new(1) by simp
  qed
  obtain cp where cp: "rr_Checkpoint result' = Some cp" "cp_PendingToolCall cp = Some (pc_call item)" "cp_Messages cp = messages'"
    unfolding input(5) by (simp add: stop_for_input_def checkpointFromMessages_def Let_def)
  have "\<forall>p\<in>set runs. tc_ID (pc_call p) \<noteq> tc_ID (pc_call item) \<longrightarrow> tc_ID (pc_call p) \<in>
      tc_ID ` set (findUnresolvedToolCalls (messages' @ [toolMessage (tc_ID (pc_call item)) answer]) names)"
    using rerun by blast
  with cp show ?thesis by blast
qed (use \<open>runs \<noteq> []\<close> in auto)

section \<open>Witnesses\<close>

definition ask_tool :: runtime_tool where
  "ask_tool = \<lparr>rt_Name = ''ask'', rt_Description = [], rt_Parameters = [], rt_Metadata = None\<rparr>"

definition deploy_tool :: runtime_tool where
  "deploy_tool = \<lparr>rt_Name = ''deploy'', rt_Description = [], rt_Parameters = [],
     rt_Metadata = Some (no_metadata\<lparr>tm_RequiresApproval := True, tm_TimeoutMS := 30000, tm_SideEffect := ''write''\<rparr>)\<rparr>"

definition sample_runner :: runner where
  "sample_runner = \<lparr>rn_ProviderID = 1, rn_ModelName = ''m'', rn_CreatedAt = (\<lambda>i. int i), rn_LatencyMS = (\<lambda>_. 5)\<rparr>"

definition sample_req :: "unit run_request" where
  "sample_req = \<lparr>rq_AgentID = 1, rq_RunID = 2, rq_DelegationDepth = 0, rq_RuleHash = [],
     rq_ToolPolicy = sample_policy\<lparr>tp_RuleBindings := []\<rparr>,
     rq_Tools = [Some read_tool, Some ask_tool, Some deploy_tool], rq_MaxToolCalls = 16, rq_MaxParallelTools = 8, rq_Carried = ()\<rparr>"

definition sample_result :: "unit run_result" where
  "sample_result = \<lparr>rr_FinalAnswer = [], rr_StopReason = [], rr_Iterations = 1, rr_ToolCalls = 0, rr_Steps = [],
     rr_HookTrace = [], rr_Approval = None, rr_Checkpoint = None, rr_Emitted = []\<rparr>"

definition named_call :: "string \<Rightarrow> string \<Rightarrow> tool_call" where
  "named_call i name = \<lparr>tc_ID = i, tc_Type = ''function'', tc_Name = name, tc_Arguments = []\<rparr>"

definition sample_asst :: chat_message where
  "sample_asst = \<lparr>cm_Role = RoleAssistant, cm_Content = [], cm_ToolCallID = [],
     cm_ToolCalls = [named_call ''a'' ''read'', named_call ''b'' ''ask'']\<rparr>"

definition sample_exec :: "prepared_call \<Rightarrow> outcome" where
  "sample_exec p = (Some (if tc_Name (pc_call p) = ''ask''
     then empty_result\<lparr>tr_Approval := Some \<lparr>ta_Kind = ''request_user_input'', ta_Title = [], ta_Reason = [], ta_IsBlocking = True,
       ta_Options = [], ta_Questions = []\<rparr>\<rparr>
     else empty_result\<lparr>tr_ContentText := ''ok''\<rparr>), None)"

definition sample_batch :: "string list \<Rightarrow> tool_call list \<Rightarrow> bool \<times> unit run_result \<times> chat_message list \<times> prepared_call list" where
  "sample_batch approved calls = executeToolBatch sample_lib sample_runner (DefaultToolHookChain sample_lib) sample_req
     [''read'', ''ask'', ''deploy''] approved sample_exec (\<lambda>_. None) sample_result ([] @ [sample_asst]) calls"

definition sample_input :: "bool \<times> unit run_result \<times> chat_message list \<times> prepared_call list" where
  "sample_input = sample_batch [] (cm_ToolCalls sample_asst)"

definition sample_deploy :: "bool \<times> unit run_result \<times> chat_message list \<times> prepared_call list" where
  "sample_deploy = sample_batch [''d''] [named_call ''d'' ''deploy'']"

lemma sample_batch_input:
  "fst sample_input = True"
  "map (\<lambda>p. tc_ID (pc_call p)) (snd (snd (snd sample_input))) = [''a'', ''b'']"
  "map_option (\<lambda>cp. map_option tc_ID (cp_PendingToolCall cp)) (rr_Checkpoint (fst (snd sample_input))) = Some (Some ''b'')"
  by code_simp+

lemma sample_batch_approved:
  "fst sample_deploy = False" "map (\<lambda>p. pc_execCtx p) (snd (snd (snd sample_deploy))) = [[]]"
  by code_simp+

lemma sample_input_run: "sample_batch [] (cm_ToolCalls sample_asst) =
    (True, fst (snd sample_input), fst (snd (snd sample_input)), snd (snd (snd sample_input)))"
  using sample_batch_input(1) by (simp add: sample_input_def [symmetric] prod_eq_iff)

lemma sample_deploy_run: "sample_batch [''d''] [named_call ''d'' ''deploy''] =
    (False, fst (snd sample_deploy), fst (snd (snd sample_deploy)), snd (snd (snd sample_deploy)))"
  using sample_batch_approved(1) by (simp add: sample_deploy_def [symmetric] prod_eq_iff)

lemmas sample_runs = sample_input_run [unfolded sample_batch_def] sample_deploy_run [unfolded sample_batch_def]

theorem no_tool_runs_unchecked_witness:
  "list_all (\<lambda>p. Some (pc_tool p) \<in> set (rq_Tools sample_req)) (snd (snd (snd sample_input)))"
  using no_tool_runs_unchecked [OF sample_runs(1)] by (simp only: list_all_iff) blast

theorem batch_answers_every_call_witness:
  "\<exists>new. fst (snd (snd sample_deploy)) = ([] @ [sample_asst]) @ new \<and> list_all (\<lambda>m. cm_Role m = RoleTool) new"
  using batch_answers_every_call [OF sample_runs(2)] by blast

lemma sample_asst_facts:
  "cm_Role sample_asst = RoleAssistant" "plain_ids (cm_ToolCalls sample_asst)"
  "list_all (\<lambda>c. tc_Name c \<in> set [''read'', ''ask'']) (cm_ToolCalls sample_asst)"
  "list_all (\<lambda>m. cm_Role m = RoleTool \<longrightarrow> cm_ToolCallID m \<notin> tc_ID ` set (cm_ToolCalls sample_asst)) []"
  by code_simp+

lemma sample_input_pending:
  "rr_Checkpoint (fst (snd sample_input)) = Some cp \<Longrightarrow> cp_PendingToolCall cp = Some pending \<Longrightarrow> tc_ID pending = ''b''"
  using sample_batch_input(3) by simp

lemma map_nth_head: "map f xs = y # ys \<Longrightarrow> \<exists>x\<in>set xs. f x = y"
  by (cases xs) auto

theorem user_input_batch_runs_twice_witness:
  "\<exists>p\<in>set (snd (snd (snd sample_input))). tc_ID (pc_call p) = ''a'' \<and>
     ''a'' \<in> tc_ID ` set (findUnresolvedToolCalls (fst (snd (snd sample_input)) @ [toolMessage ''b'' ''yes'']) [''read'', ''ask''])"
proof -
  obtain p where p: "p \<in> set (snd (snd (snd sample_input)))" "tc_ID (pc_call p) = ''a''"
    using map_nth_head [OF sample_batch_input(2)] by blast
  then have "snd (snd (snd sample_input)) \<noteq> []" by auto
  note w = user_input_batch_runs_twice [OF sample_runs(1) this sample_asst_facts, of "''yes''"]
  then obtain cp pending where cp: "rr_Checkpoint (fst (snd sample_input)) = Some cp" "cp_PendingToolCall cp = Some pending"
    and rerun: "\<forall>p\<in>set (snd (snd (snd sample_input))). tc_ID (pc_call p) \<noteq> tc_ID pending \<longrightarrow>
      tc_ID (pc_call p) \<in> tc_ID ` set (findUnresolvedToolCalls (fst (snd (snd sample_input)) @
        [toolMessage (tc_ID pending) ''yes'']) [''read'', ''ask''])"
    by blast
  have "''a'' \<noteq> ''b''" by simp
  with rerun p show ?thesis unfolding sample_input_pending [OF cp] by metis
qed

theorem approved_call_has_no_time_limit_witness:
  "\<exists>p\<in>set (snd (snd (snd sample_deploy))). pc_execCtx p =
    (let limit = EffectiveLimit (tm_TimeoutMS (pc_metadata p))
         (tp_MaxToolTimeoutMS (fst (applyRuleBindings sample_lib (rq_ToolPolicy sample_req)))) in
     if requiredApproval sample_lib ((hook_request sample_req (pc_call p) (pc_metadata p))
          \<lparr>pq_Policy := fst (applyRuleBindings sample_lib (rq_ToolPolicy sample_req))\<rparr>) \<noteq> None \<or> limit \<le> 0
     then [] else [limit])"
proof -
  obtain p where p: "p \<in> set (snd (snd (snd sample_deploy)))"
    using map_nth_head [OF sample_batch_approved(2)] by blast
  from approved_call_has_no_time_limit [OF sample_runs(2) p refl] p show ?thesis by blast
qed

end
