(* ===== verification/Token_Count.thy ===== *)
theory Token_Count
  imports Go_Json
begin

text \<open>
  Token counting (\<^verbatim>\<open>internal/pkg/tokencounter/counter.go\<close> and the \<^verbatim>\<open>EstimatedTokenizer\<close> of
  \<^verbatim>\<open>internal/infrastructure/chunker/tokenizer.go\<close>) and the search for the longest prefix of a text within
  a token limit (\<^verbatim>\<open>TruncateToTokens\<close> of \<^verbatim>\<open>internal/runtime/compaction/retain.go\<close>).

  The tiktoken library is a parameter: \<open>tik\<close> gives, for a model it knows, the number of tokens of a
  text. Byte-pair counts are not monotone in the text, so what holds for every counter is stated
  without monotonicity; the interface \<open>monotone_counter\<close> adds what the two estimates of the program
  have, and the longest-prefix result needs.
\<close>

section \<open>Counters\<close>

record count_result =
  ct_Tokens :: nat
  ct_Method :: string
  ct_Error :: string

type_synonym tiktoken = "string \<Rightarrow> (string \<Rightarrow> nat) option"

definition conservative :: "string \<Rightarrow> nat" where
  "conservative text =
     (if length text = 0 then 0
      else let asciiEstimate = (length text + 2) div 3 in
        if asciiEstimate < RuneCount text then RuneCount text else asciiEstimate)"

definition Count :: "go_lib \<Rightarrow> tiktoken \<Rightarrow> string \<Rightarrow> string \<Rightarrow> string \<Rightarrow> count_result" where
  "Count lib tik providerType0 model0 text =
     (if text = [] then \<lparr>ct_Tokens = 0, ct_Method = ''tiktoken'', ct_Error = []\<rparr>
      else let providerType = ToLower lib (TrimSpace providerType0); model = TrimSpace model0;
          unknown_provider = \<lparr>ct_Tokens = conservative text, ct_Method = ''conservative_utf8'',
            ct_Error = ''tokenizer for provider '' @ quote lib providerType @ '' is unknown''\<rparr>
        in if providerType = ''openai'' \<or> providerType = ''openai_compatible'' \<or> providerType = ''azure_openai'' \<or> providerType = []
           then (case tik model of
               Some encode \<Rightarrow> \<lparr>ct_Tokens = encode text, ct_Method = ''tiktoken'', ct_Error = []\<rparr>
             | None \<Rightarrow>
                 if model \<noteq> [] then \<lparr>ct_Tokens = conservative text, ct_Method = ''conservative_utf8'',
                   ct_Error = ''tiktoken model '' @ quote lib model @ '' is unknown''\<rparr>
                 else unknown_provider)
           else unknown_provider)"

definition ascii_runes :: "rune list \<Rightarrow> nat" where
  "ascii_runes rs = length (filter (\<lambda>r. length r = 1) rs)"

definition estimated_count :: "string \<Rightarrow> nat" where
  "estimated_count text =
     (let rs = runes text in
      if length rs = 0 then 0
      else let ascii = ascii_runes rs; nonASCII = length rs - ascii;
          estimate = nonASCII + ascii div 4; estimate = (if ascii mod 4 \<noteq> 0 then estimate + 1 else estimate)
        in if estimate = 0 then 1 else estimate)"

section \<open>The longest prefix within a limit\<close>

definition rune_prefix :: "string \<Rightarrow> nat \<Rightarrow> string" where
  "rune_prefix text k = concat (take k (runes text))"

function truncate_search :: "(string \<Rightarrow> nat) \<Rightarrow> string \<Rightarrow> nat \<Rightarrow> nat \<Rightarrow> nat \<Rightarrow> nat" where
  "truncate_search tokens text cap lo hi =
     (if lo < hi then
        (let mid = (lo + hi + 1) div 2 in
         if tokens (rune_prefix text mid) \<le> cap then truncate_search tokens text cap mid hi
         else truncate_search tokens text cap lo (mid - 1))
      else lo)"
  by pat_completeness auto
termination
  by (relation "measure (\<lambda>(tokens, text, cap, lo, hi). hi - lo)") auto

declare truncate_search.simps [simp del]

definition TruncateToTokens :: "(string \<Rightarrow> nat) \<Rightarrow> string \<Rightarrow> nat \<Rightarrow> string" where
  "TruncateToTokens tokens text cap =
     rune_prefix text (truncate_search tokens text cap 0 (RuneCount text))"

section \<open>What holds for every counter\<close>

lemma truncate_search_spec:
  assumes "lo \<le> hi" "hi \<le> RuneCount text" "lo = 0 \<or> tokens (rune_prefix text lo) \<le> cap"
    "hi = RuneCount text \<or> cap < tokens (rune_prefix text (Suc hi))"
  defines "r \<equiv> truncate_search tokens text cap lo hi"
  shows "r \<le> RuneCount text \<and> (r = 0 \<or> tokens (rune_prefix text r) \<le> cap) \<and>
    (r = RuneCount text \<or> cap < tokens (rune_prefix text (Suc r)))"
  using assms(1-4) unfolding r_def
proof (induction tokens "text" cap lo hi rule: truncate_search.induct)
  case (1 tokens "text" cap lo hi)
  show ?case
  proof (cases "lo < hi")
    case False
    then have "truncate_search tokens text cap lo hi = lo"
      by (simp add: truncate_search.simps [of tokens "text" cap lo hi])
    moreover have "lo = hi" using False 1(3) by simp
    ultimately show ?thesis using 1(4-) by simp
  next
    case True
    let ?mid = "(lo + hi + 1) div 2"
    have mid: "lo < ?mid" "?mid \<le> hi" using True by auto
    show ?thesis
    proof (cases "tokens (rune_prefix text ?mid) \<le> cap")
      case le: True
      then show ?thesis
        using 1(1) [OF True refl le] 1(4,6) mid True by (simp add: truncate_search.simps [of tokens "text" cap lo hi])
    next
      case gt: False
      then have "Suc (?mid - 1) = ?mid" using mid(1) by simp
      with gt show ?thesis
        using 1(2) [OF True refl gt] 1(4,5) mid True by (simp add: truncate_search.simps [of tokens "text" cap lo hi])
    qed
  qed
qed

lemma rune_prefix_0 [simp]: "rune_prefix text 0 = []"
  by (simp add: rune_prefix_def)

lemma runes_rune_prefix: "runes (rune_prefix text k) = take k (runes text)"
  by (simp add: rune_prefix_def runes_prefix)

text \<open>The prefix found is within the limit, and one rune more is not.\<close>

lemma TruncateToTokens_within:
  assumes "tokens [] \<le> cap"
  shows "\<exists>k\<le>RuneCount text. TruncateToTokens tokens text cap = rune_prefix text k \<and>
    tokens (rune_prefix text k) \<le> cap \<and> (k = RuneCount text \<or> cap < tokens (rune_prefix text (Suc k)))"
  using truncate_search_spec [of 0 "RuneCount text" "text" tokens cap] assms
  unfolding TruncateToTokens_def by (metis le0 order_refl rune_prefix_0)

section \<open>Monotone counters\<close>

locale monotone_counter =
  fixes tokens :: "string \<Rightarrow> nat"
  assumes count_empty: "tokens [] = 0"
    and count_mono: "\<And>rs j k. (\<And>r. r \<in> set rs \<Longrightarrow> valid_rune r) \<Longrightarrow> j \<le> k \<Longrightarrow>
      tokens (concat (take j rs)) \<le> tokens (concat (take k rs))"
begin

lemma prefix_count_mono: "j \<le> k \<Longrightarrow> tokens (rune_prefix text j) \<le> tokens (rune_prefix text k)"
  unfolding rune_prefix_def by (rule count_mono) (auto dest: valid_runes)

text \<open>With a monotone counter the search finds the longest prefix of all.\<close>

lemma truncate_longest:
  "\<exists>k\<le>RuneCount text. TruncateToTokens tokens text cap = rune_prefix text k \<and>
     (\<forall>j\<le>RuneCount text. tokens (rune_prefix text j) \<le> cap \<longleftrightarrow> j \<le> k)"
proof -
  obtain k where k: "k \<le> RuneCount text" "TruncateToTokens tokens text cap = rune_prefix text k"
    "tokens (rune_prefix text k) \<le> cap" "k = RuneCount text \<or> cap < tokens (rune_prefix text (Suc k))"
    using TruncateToTokens_within [of tokens cap "text"] count_empty by auto
  have "tokens (rune_prefix text j) \<le> cap \<longleftrightarrow> j \<le> k" if "j \<le> RuneCount text" for j
  proof
    assume "j \<le> k"
    then show "tokens (rune_prefix text j) \<le> cap" using k(3) prefix_count_mono [of j k "text"] by linarith
  next
    assume "tokens (rune_prefix text j) \<le> cap"
    then show "j \<le> k" using k(1,4) prefix_count_mono [of "Suc k" j "text"] that by (cases "j \<le> k") auto
  qed
  with k show ?thesis by blast
qed

end

lemma RuneCount_concat: "(\<And>r. r \<in> set rs \<Longrightarrow> valid_rune r) \<Longrightarrow> RuneCount (concat rs) = length rs"
  by (simp add: RuneCount_def runes_concat)

lemma valid_rune_nonempty: "valid_rune r \<Longrightarrow> r \<noteq> []"
  by (simp add: valid_rune_def)

lemma conservative_max: "conservative s = (if s = [] then 0 else max ((length s + 2) div 3) (RuneCount s))"
  by (auto simp: conservative_def Let_def)

interpretation conservative: monotone_counter conservative
proof unfold_locales
  show "conservative [] = 0" by (simp add: conservative_def)
  fix rs :: "rune list" and j k :: nat
  assume v: "\<And>r. r \<in> set rs \<Longrightarrow> valid_rune r" and jk: "j \<le> k"
  have len: "length (concat (take j rs)) \<le> length (concat (take k rs))"
    using take_concat_prefix [OF jk] by (rule prefix_length_le)
  have "RuneCount (concat (take j rs)) \<le> RuneCount (concat (take k rs))"
    using v jk by (subst (1 2) RuneCount_concat) (auto dest: in_set_takeD)
  moreover have "(length (concat (take j rs)) + 2) div 3 \<le> (length (concat (take k rs)) + 2) div 3"
    using len by (intro div_le_mono) simp
  ultimately show "conservative (concat (take j rs)) \<le> conservative (concat (take k rs))"
    using len by (cases "concat (take j rs) = []") (auto simp: conservative_max max.coboundedI1 max.coboundedI2 simp del: concat_eq_Nil_conv)
qed

text \<open>The estimate of the chunker: one token per non-ASCII rune and one per four ASCII bytes.\<close>

definition estimate :: "rune list \<Rightarrow> nat" where
  "estimate rs = length (filter (\<lambda>r. length r \<noteq> 1) rs) + (ascii_runes rs + 3) div 4"

lemma estimated_count_eq: "estimated_count text = estimate (runes text)"
proof -
  have "length (runes text) - ascii_runes (runes text) = length (filter (\<lambda>r. length r \<noteq> 1) (runes text))"
    using sum_length_filter_compl [of "\<lambda>r. length r = 1" "runes text"] by (simp add: ascii_runes_def)
  moreover have "ascii_runes (runes text) + length (filter (\<lambda>r. length r \<noteq> 1) (runes text)) = length (runes text)"
    using sum_length_filter_compl [of "\<lambda>r. length r = 1" "runes text"] by (simp add: ascii_runes_def)
  moreover have "a mod 4 \<noteq> 0 \<Longrightarrow> (a + 3) div 4 = Suc (a div 4)" "a mod 4 = 0 \<Longrightarrow> (a + 3) div 4 = a div 4" for a :: nat
    by presburger+
  moreover have "runes text \<noteq> [] \<Longrightarrow> estimate (runes text) \<noteq> 0"
    using calculation(2) by (cases "ascii_runes (runes text) = 0") (auto simp: estimate_def div_greater_zero_iff)
  ultimately show ?thesis
    by (cases "runes text = []") (auto simp: estimated_count_def estimate_def ascii_runes_def Let_def mod_eq_0_iff_dvd)
qed

lemma estimate_mono: "subseq xs ys \<Longrightarrow> estimate xs \<le> estimate ys"
proof -
  assume s: "subseq xs ys"
  have "length (filter P xs) \<le> length (filter P ys)" for P
    using subseq_filter [OF s, of P] by (rule list_emb_length)
  then show ?thesis unfolding estimate_def ascii_runes_def by (intro add_mono div_le_mono) auto
qed

lemma take_subseq: "j \<le> k \<Longrightarrow> subseq (take j xs) (take k xs)"
  by (metis min.absorb1 prefix_imp_subseq take_is_prefix take_take)

interpretation estimated: monotone_counter estimated_count
proof unfold_locales
  show "estimated_count [] = 0" by (simp add: estimated_count_def)
  fix rs :: "rune list" and j k :: nat
  assume v: "\<And>r. r \<in> set rs \<Longrightarrow> valid_rune r" and jk: "j \<le> k"
  have "runes (concat (take i rs)) = take i rs" for i
    using v by (intro runes_concat) (auto dest: in_set_takeD)
  then show "estimated_count (concat (take j rs)) \<le> estimated_count (concat (take k rs))"
    using estimate_mono [OF take_subseq [OF jk]] by (simp add: estimated_count_eq)
qed

end
