(* ===== verification/Compaction.thy ===== *)
theory Compaction
  imports Token_Count Tool_Batch
begin

text \<open>
  Context compaction: the entry model and its conversions
  (\<^verbatim>\<open>internal/runtime/compaction/entry.go\<close>), the choice of the messages to retain (\<^verbatim>\<open>retain.go\<close>) and the
  summariser with its retries (\<^verbatim>\<open>compact.go\<close>).

  The chat client is an argument: a state \<open>'c\<close> and a function from the messages of a request to an
  outcome and the next state. \<open>ctx_done\<close> reads from the client's state whether the context has ended
  when the summariser is about to wait before a retry. An amount of tokens is a natural number; the
  limits of a request may be zero or negative, as in Go, and then take their defaults.
\<close>

section \<open>Entries (entry.go)\<close>

record comp_entry =
  en_MessageID :: int
  en_TranscriptIndex :: int
  en_SubEntryIndex :: int
  en_TranscriptEntryID :: string
  en_Role :: string
  en_ContentType :: string
  en_Content :: string
  en_ToolCallID :: string
  en_ToolName :: string
  en_Arguments :: string
  en_IsError :: "bool option"
  en_ErrorCode :: string

definition ContentTypeText :: string where "ContentTypeText = ''text''"
definition ContentTypeFunctionCall :: string where "ContentTypeFunctionCall = ''function_call''"
definition ContentTypeFunctionCallOutput :: string where "ContentTypeFunctionCallOutput = ''function_call_output''"

lemmas content_types = ContentTypeText_def ContentTypeFunctionCall_def ContentTypeFunctionCallOutput_def

definition newTranscriptEntry :: "int \<Rightarrow> int \<Rightarrow> string \<Rightarrow> string \<Rightarrow> string \<Rightarrow> comp_entry" where
  "newTranscriptEntry ti si role contentType content =
     \<lparr>en_MessageID = 0, en_TranscriptIndex = ti, en_SubEntryIndex = si,
      en_TranscriptEntryID = itoa ti @ '':'' @ itoa si, en_Role = role, en_ContentType = contentType, en_Content = content,
      en_ToolCallID = [], en_ToolName = [], en_Arguments = [], en_IsError = None, en_ErrorCode = []\<rparr>"

fun call_entries :: "int \<Rightarrow> int \<Rightarrow> tool_call list \<Rightarrow> comp_entry list" where
  "call_entries ti si [] = []"
| "call_entries ti si (call # calls) =
     (newTranscriptEntry ti si RoleAssistant ContentTypeFunctionCall [])
       \<lparr>en_ToolCallID := tc_ID call, en_ToolName := tc_Name call, en_Arguments := tc_Arguments call\<rparr>
     # call_entries ti (si + 1) calls"

definition message_entries :: "int \<Rightarrow> chat_message \<Rightarrow> comp_entry list" where
  "message_entries ti msg =
     (if cm_ToolCalls msg \<noteq> [] then
        (if cm_Content msg \<noteq> []
         then newTranscriptEntry ti 0 RoleAssistant ContentTypeText (cm_Content msg) # call_entries ti 1 (cm_ToolCalls msg)
         else call_entries ti 0 (cm_ToolCalls msg))
      else if cm_Role msg = RoleTool then
        [(newTranscriptEntry ti 0 RoleTool ContentTypeFunctionCallOutput (cm_Content msg))\<lparr>en_ToolCallID := cm_ToolCallID msg\<rparr>]
      else [newTranscriptEntry ti 0 (cm_Role msg) ContentTypeText (cm_Content msg)])"

fun FromChatAt :: "chat_message list \<Rightarrow> int \<Rightarrow> comp_entry list" where
  "FromChatAt [] startIndex = []"
| "FromChatAt (msg # messages) startIndex = message_entries startIndex msg @ FromChatAt messages (startIndex + 1)"

definition FromChat :: "chat_message list \<Rightarrow> comp_entry list" where
  "FromChat messages = FromChatAt messages 0"

text \<open>\<^verbatim>\<open>ToChat\<close>: \<open>pending\<close> says whether the last message built absorbs function calls.\<close>

fun to_chat :: "chat_message list \<Rightarrow> bool \<Rightarrow> comp_entry list \<Rightarrow> chat_message list" where
  "to_chat messages pending [] = messages"
| "to_chat messages pending (entry # entries) =
     (if en_ContentType entry = ContentTypeText then
        to_chat (messages @ [\<lparr>cm_Role = en_Role entry, cm_Content = en_Content entry, cm_ToolCallID = [], cm_ToolCalls = []\<rparr>])
          (en_Role entry = RoleAssistant) entries
      else if en_ContentType entry = ContentTypeFunctionCall then
        (let call = \<lparr>tc_ID = en_ToolCallID entry, tc_Type = [], tc_Name = en_ToolName entry, tc_Arguments = en_Arguments entry\<rparr>;
             messages = (if pending then messages
                         else messages @ [\<lparr>cm_Role = RoleAssistant, cm_Content = [], cm_ToolCallID = [], cm_ToolCalls = []\<rparr>])
         in to_chat (butlast messages @ [(last messages)\<lparr>cm_ToolCalls := cm_ToolCalls (last messages) @ [call]\<rparr>]) True entries)
      else if en_ContentType entry = ContentTypeFunctionCallOutput then
        to_chat (messages @ [\<lparr>cm_Role = RoleTool, cm_Content = en_Content entry, cm_ToolCallID = en_ToolCallID entry,
                              cm_ToolCalls = []\<rparr>]) False entries
      else to_chat messages pending entries)"

definition ToChat :: "comp_entry list \<Rightarrow> chat_message list" where
  "ToChat entries = to_chat [] False entries"

text \<open>A row of the messages table; its metadata is the decoded triple, \<open>None\<close> when absent or not JSON.\<close>

record conv_message =
  mg_ID :: int
  mg_Role :: string
  mg_ContentType :: string
  mg_Content :: string
  mg_TranscriptEntryID :: "string option"
  mg_ToolMetadata :: "(string \<times> string \<times> string) option"

definition from_message :: "conv_message \<Rightarrow> comp_entry" where
  "from_message msg =
     (let ct = (if mg_ContentType msg = [] then ContentTypeText else mg_ContentType msg);
          (callID, name, args) = (case mg_ToolMetadata msg of Some m \<Rightarrow> m | None \<Rightarrow> ([], [], []));
          tool = (ct = ContentTypeFunctionCall \<or> ct = ContentTypeFunctionCallOutput)
      in \<lparr>en_MessageID = mg_ID msg, en_TranscriptIndex = 0, en_SubEntryIndex = 0,
          en_TranscriptEntryID = (case mg_TranscriptEntryID msg of Some i \<Rightarrow> i | None \<Rightarrow> []),
          en_Role = mg_Role msg, en_ContentType = ct, en_Content = mg_Content msg,
          en_ToolCallID = (if tool then callID else []), en_ToolName = (if tool then name else []),
          en_Arguments = (if tool then args else []), en_IsError = None, en_ErrorCode = []\<rparr>)"

definition FromMessages :: "conv_message list \<Rightarrow> comp_entry list" where
  "FromMessages messages = map from_message messages"

section \<open>Requests and retention (compact.go, retain.go)\<close>

record comp_request =
  cq_SystemPrompt :: string
  cq_CompactPrompt :: string
  cq_ProviderType :: string
  cq_Model :: string
  cq_ParentSummary :: string
  cq_UserBudget :: int
  cq_PerEntryLimit :: int
  cq_HintProviderType :: string
  cq_TokenModelHint :: string

definition SummaryPrefix :: string where "SummaryPrefix = ''SUMMARY:'' @ [CHR 0x0A]"
definition FallbackSummary :: string where "FallbackSummary = ''(no summary available)''"

definition userBudget :: "comp_request \<Rightarrow> nat" where
  "userBudget r = (if 0 < cq_UserBudget r then nat (cq_UserBudget r) else 20000)"

definition perEntryLimit :: "comp_request \<Rightarrow> nat" where
  "perEntryLimit r = (if 0 < cq_PerEntryLimit r then nat (cq_PerEntryLimit r) else 8000)"

definition TokenModelHintOrModel :: "comp_request \<Rightarrow> string" where
  "TokenModelHintOrModel r = (if cq_TokenModelHint r \<noteq> [] then cq_TokenModelHint r else cq_Model r)"

definition tokenCount :: "go_lib \<Rightarrow> tiktoken \<Rightarrow> comp_request \<Rightarrow> string \<Rightarrow> nat" where
  "tokenCount lib tik r text =
     ct_Tokens (Count lib tik (if cq_ProviderType r = [] then cq_HintProviderType r else cq_ProviderType r)
       (TokenModelHintOrModel r) text)"

definition retainable :: "string \<Rightarrow> comp_entry \<Rightarrow> bool" where
  "retainable role entry \<longleftrightarrow> en_Role entry = role \<and> en_ContentType entry = ContentTypeText \<and>
     \<not> HasPrefix (TrimSpace (en_Content entry)) SummaryPrefix"

text \<open>The loop over the entries from the last to the first; what it keeps is in reverse order.\<close>

fun retain_loop :: "(string \<Rightarrow> nat) \<Rightarrow> string \<Rightarrow> nat \<Rightarrow> comp_entry list \<Rightarrow> comp_entry list" where
  "retain_loop tokens role remaining [] = []"
| "retain_loop tokens role remaining (entry # entries) =
     (if \<not> retainable role entry then retain_loop tokens role remaining entries
      else if tokens (en_Content entry) \<le> remaining
        then entry # retain_loop tokens role (remaining - tokens (en_Content entry)) entries
      else if 0 < remaining then
        (let content = TruncateToTokens tokens (en_Content entry) remaining
         in if TrimSpace content \<noteq> [] then [entry\<lparr>en_Content := content\<rparr>] else [])
      else [])"

definition RetainEntriesByRole :: "go_lib \<Rightarrow> tiktoken \<Rightarrow> comp_request \<Rightarrow> comp_entry list \<Rightarrow> string \<Rightarrow> comp_entry list" where
  "RetainEntriesByRole lib tik req entries role =
     rev (retain_loop (tokenCount lib tik req) role (userBudget req) (rev entries))"

definition RetainUserEntries :: "go_lib \<Rightarrow> tiktoken \<Rightarrow> comp_request \<Rightarrow> comp_entry list \<Rightarrow> comp_entry list" where
  "RetainUserEntries lib tik req entries = RetainEntriesByRole lib tik req entries RoleUser"

section \<open>Summarising (compact.go)\<close>

definition renderEntry :: "comp_entry \<Rightarrow> string" where
  "renderEntry entry =
     (if en_ContentType entry = ContentTypeFunctionCall then
        (let args = TrimSpace (en_Arguments entry); args = (if args = [] then ''{}'' else args)
         in ''[tool call: '' @ en_ToolName entry @ ''] '' @ args)
      else if en_ContentType entry = ContentTypeFunctionCallOutput then
        ''[tool result: '' @ en_ToolName entry @ ''] '' @ en_Content entry
      else en_Content entry)"

definition summarizableEntries :: "comp_entry list \<Rightarrow> comp_entry list" where
  "summarizableEntries entries =
     filter (\<lambda>e. en_ContentType e \<noteq> ''system_echo'' \<and> en_ContentType e \<noteq> ''reasoning'') entries"

definition plain_message :: "string \<Rightarrow> string \<Rightarrow> chat_message" where
  "plain_message role content = \<lparr>cm_Role = role, cm_Content = content, cm_ToolCallID = [], cm_ToolCalls = []\<rparr>"

definition summary_prompt :: "comp_request \<Rightarrow> string" where
  "summary_prompt req =
     ''Summarize the conversation for continuation. Include: progress and decisions; context constraints and preferences; remaining work; key data and references. Return summary text only.''
     @ (if TrimSpace (cq_CompactPrompt req) \<noteq> []
        then [CHR 0x0A] @ ''Additional guidance:'' @ [CHR 0x0A] @ TrimSpace (cq_CompactPrompt req) else [])"

definition entry_message :: "go_lib \<Rightarrow> tiktoken \<Rightarrow> comp_request \<Rightarrow> comp_entry \<Rightarrow> chat_message" where
  "entry_message lib tik req entry =
     (let content = renderEntry entry; limit = perEntryLimit req in
      plain_message (en_Role entry)
        (if limit < tokenCount lib tik req content then TruncateToTokens (tokenCount lib tik req) content limit else content))"

definition summary_messages :: "go_lib \<Rightarrow> tiktoken \<Rightarrow> comp_request \<Rightarrow> comp_entry list \<Rightarrow> chat_message list" where
  "summary_messages lib tik req trimmed =
     plain_message RoleSystem
       (if TrimSpace (cq_SystemPrompt req) = [] then ''You are a context compaction engine.'' else TrimSpace (cq_SystemPrompt req))
     # (if TrimSpace (cq_ParentSummary req) \<noteq> []
        then [plain_message RoleUser (SummaryPrefix @ TrimSpace (cq_ParentSummary req))] else [])
     @ map (entry_message lib tik req) trimmed
     @ [plain_message RoleUser (summary_prompt req)]"

text \<open>One call of \<^verbatim>\<open>client.Chat\<close>: a response that may be \<^verbatim>\<open>nil\<close>, and an error that may be \<^verbatim>\<open>nil\<close>.\<close>

datatype chat_error = WindowExceeded string | OtherError string

fun error_text :: "chat_error \<Rightarrow> string" where
  "error_text (WindowExceeded e) = e"
| "error_text (OtherError e) = e"

type_synonym chat_outcome = "(string \<times> usage) option \<times> chat_error option"

type_synonym 'c chat_client = "'c \<Rightarrow> chat_message list \<Rightarrow> chat_outcome \<times> 'c"

datatype summary_result =
    Summary string
  | Compaction_failed string
  | Context_error string
  | Nil_response

definition addUsage :: "usage \<Rightarrow> usage \<Rightarrow> usage" where
  "addUsage acc delta =
     \<lparr>PromptTokens = PromptTokens acc + PromptTokens delta, CompletionTokens = CompletionTokens acc + CompletionTokens delta,
      TotalTokens = TotalTokens acc + TotalTokens delta, CachedInputTokens = CachedInputTokens acc + CachedInputTokens delta,
      ReasoningTokens = ReasoningTokens acc + ReasoningTokens delta\<rparr>"

definition add_response :: "usage \<Rightarrow> (string \<times> usage) option \<Rightarrow> usage" where
  "add_response acc response = (case response of None \<Rightarrow> acc | Some (_, u) \<Rightarrow> addUsage acc u)"

function summarize_loop :: "go_lib \<Rightarrow> tiktoken \<Rightarrow> comp_request \<Rightarrow> 'c chat_client \<Rightarrow> ('c \<Rightarrow> string option) \<Rightarrow>
    comp_entry list \<Rightarrow> nat \<Rightarrow> usage \<Rightarrow> nat \<Rightarrow> 'c \<Rightarrow> summary_result \<times> usage \<times> nat \<times> 'c" where
  "summarize_loop lib tik req client ctx_done trimmed retries acc calls c =
     (let ((response, err), c') = client c (summary_messages lib tik req trimmed);
          acc' = add_response acc response; calls' = calls + 1
      in case err of
           None \<Rightarrow>
             (case response of
                None \<Rightarrow> (Nil_response, acc', calls', c')
              | Some (content, _) \<Rightarrow>
                  (Summary (if TrimSpace content = [] then FallbackSummary else TrimSpace content), acc', calls', c'))
         | Some (WindowExceeded e) \<Rightarrow>
             if length trimmed \<le> 1
             then (Compaction_failed (''compaction failed: summarizer context window exceeded with a single entry: '' @ e), acc', calls', c')
             else summarize_loop lib tik req client ctx_done (tl trimmed) 0 acc' calls' c'
         | Some (OtherError e) \<Rightarrow>
             if retries < 2
             then (case ctx_done c' of
                     Some ce \<Rightarrow> (Context_error ce, acc', calls', c')
                   | None \<Rightarrow> summarize_loop lib tik req client ctx_done trimmed (retries + 1) acc' calls' c')
             else (Compaction_failed (''compaction failed: '' @ e), acc', calls', c'))"
  by pat_completeness auto
termination
  by (relation "measures [\<lambda>(lib, tik, req, client, ctx_done, trimmed, retries, acc, calls, c). length trimmed,
      \<lambda>(lib, tik, req, client, ctx_done, trimmed, retries, acc, calls, c). 2 - retries]") auto

declare summarize_loop.simps [simp del]

definition summarize :: "go_lib \<Rightarrow> tiktoken \<Rightarrow> comp_request \<Rightarrow> 'c chat_client \<Rightarrow> ('c \<Rightarrow> string option) \<Rightarrow>
    comp_entry list \<Rightarrow> 'c \<Rightarrow> summary_result \<times> usage \<times> nat \<times> 'c" where
  "summarize lib tik req client ctx_done entries c =
     (let entries = summarizableEntries entries in
      if entries = [] then (Summary FallbackSummary, no_usage, 0, c)
      else summarize_loop lib tik req client ctx_done entries 0 no_usage 0 c)"

record comp_result =
  cs_Summary :: string
  cs_Retained :: "comp_entry list"
  cs_Usage :: usage
  cs_ModelCalls :: nat

definition Compact :: "go_lib \<Rightarrow> tiktoken \<Rightarrow> comp_request \<Rightarrow> 'c chat_client \<Rightarrow> ('c \<Rightarrow> string option) \<Rightarrow>
    comp_entry list \<Rightarrow> 'c \<Rightarrow> (summary_result + comp_result) \<times> usage \<times> nat \<times> 'c" where
  "Compact lib tik req client ctx_done entries c =
     (let (res, u, calls, c) = summarize lib tik req client ctx_done entries c in
      case res of
        Summary s \<Rightarrow> (Inr \<lparr>cs_Summary = s, cs_Retained = RetainUserEntries lib tik req entries, cs_Usage = u, cs_ModelCalls = calls\<rparr>, u, calls, c)
      | _ \<Rightarrow> (Inl res, u, calls, c))"

end
