(* ===== verification/Compaction_Props.thy ===== *)
theory Compaction_Props
  imports Compaction
begin

text \<open>
  The correctness of context compaction: what is retained is the longest tail of the user's messages
  within the budget, with at most one truncated message in front of it; the summariser makes a bounded
  number of calls, each on a suffix of the entries; the entries of a transcript have distinct
  identifiers and convert back to the transcript.
\<close>

section \<open>Retention\<close>

definition entry_tokens :: "(string \<Rightarrow> nat) \<Rightarrow> comp_entry list \<Rightarrow> nat" where
  "entry_tokens tokens es = (\<Sum>e\<leftarrow>es. tokens (en_Content e))"

lemma entry_tokens_simps [simp]:
  "entry_tokens tokens [] = 0"
  "entry_tokens tokens (e # es) = tokens (en_Content e) + entry_tokens tokens es"
  "entry_tokens tokens (es @ es') = entry_tokens tokens es + entry_tokens tokens es'"
  "entry_tokens tokens (rev es) = entry_tokens tokens es"
  by (simp_all add: entry_tokens_def rev_map [symmetric])

lemma tokenCount_empty [simp]: "tokenCount lib tik req [] = 0"
  by (simp add: tokenCount_def Count_def)

definition truncated_from :: "comp_entry \<Rightarrow> comp_entry list \<Rightarrow> bool" where
  "truncated_from e es \<longleftrightarrow>
     es = [] \<or> (\<exists>j. es = [e\<lparr>en_Content := rune_prefix (en_Content e) j\<rparr>] \<and> TrimSpace (rune_prefix (en_Content e) j) \<noteq> [])"

lemma retain_loop_spec:
  fixes tokens role es
  defines "el \<equiv> filter (retainable role) es"
  assumes "tokens [] = 0"
  shows "entry_tokens tokens (retain_loop tokens role budget es) \<le> budget \<and>
    (\<exists>k t. k \<le> length el \<and> retain_loop tokens role budget es = take k el @ t \<and>
      (if k = length el then t = []
       else budget < entry_tokens tokens (take (Suc k) el) \<and> truncated_from (el ! k) t))"
  unfolding el_def
proof (induction es arbitrary: budget)
  case Nil
  then show ?case by simp
next
  case (Cons e es)
  let ?el = "filter (retainable role) es" and ?n = "tokens (en_Content e)"
  consider (skip) "\<not> retainable role e" | (keep) "retainable role e" "?n \<le> budget"
    | (stop) "retainable role e" "budget < ?n" by linarith
  then show ?case
  proof cases
    case skip
    then have "retain_loop tokens role budget (e # es) = retain_loop tokens role budget es"
      "filter (retainable role) (e # es) = ?el" by simp_all
    then show ?thesis using Cons.IH [of budget] by (simp only:)
  next
    case keep
    obtain k t where k: "k \<le> length ?el" "retain_loop tokens role (budget - ?n) es = take k ?el @ t"
      "if k = length ?el then t = [] else budget - ?n < entry_tokens tokens (take (Suc k) ?el) \<and> truncated_from (?el ! k) t"
      using Cons.IH [of "budget - ?n"] by blast
    have "retain_loop tokens role budget (e # es) = take (Suc k) (e # ?el) @ t" using keep k(2) by simp
    moreover have "if Suc k = length (e # ?el) then t = []
      else budget < entry_tokens tokens (take (Suc (Suc k)) (e # ?el)) \<and> truncated_from ((e # ?el) ! Suc k) t"
      using k(3) keep by (auto split: if_splits)
    moreover have "Suc k \<le> length (e # ?el)" using k(1) by simp
    moreover have "entry_tokens tokens (retain_loop tokens role budget (e # es)) \<le> budget"
      using conjunct1 [OF Cons.IH [of "budget - ?n"]] keep by simp
    ultimately show ?thesis using keep(1) by (simp only: filter.simps if_True) blast
  next
    case stop
    let ?c = "TruncateToTokens tokens (en_Content e) budget"
    obtain j where j: "?c = rune_prefix (en_Content e) j" "tokens ?c \<le> budget"
      using TruncateToTokens_within [of tokens budget "en_Content e"] assms(2) by auto
    have "retain_loop tokens role budget (e # es) = (if 0 < budget \<and> TrimSpace ?c \<noteq> [] then [e\<lparr>en_Content := ?c\<rparr>] else [])"
      using stop by simp
    moreover have "truncated_from e \<dots>" using j(1) by (auto simp: truncated_from_def)
    moreover have "entry_tokens tokens (if 0 < budget \<and> TrimSpace ?c \<noteq> [] then [e\<lparr>en_Content := ?c\<rparr>] else []) \<le> budget"
      using j(2) by simp
    ultimately show ?thesis using stop by (intro conjI exI [of _ 0]) auto
  qed
qed

text \<open>C30: the messages compaction keeps are, in order, the longest tail of the messages of the role (less
  earlier summaries) whose token counts add up to at most the budget, preceded by at most one message
  cut to a prefix of its runes that is not blank; all of it together stays within the budget, whatever
  the tokenizer.\<close>

theorem retained_window:
  "let el = filter (retainable role) entries; tok = entry_tokens (tokenCount lib tik req);
       out = RetainEntriesByRole lib tik req entries role
   in tok out \<le> userBudget req \<and>
     (\<exists>k head. k \<le> length el \<and> out = head @ drop k el \<and>
       (if k = 0 then head = []
        else userBudget req < tok (drop (k - 1) el) \<and> truncated_from (el ! (k - 1)) head))"
proof -
  let ?tok = "tokenCount lib tik req" and ?el = "filter (retainable role) entries"
  have rev_el: "filter (retainable role) (rev entries) = rev ?el" by (simp add: rev_filter)
  from retain_loop_spec [of ?tok role "userBudget req" "rev entries"]
  obtain k t where bound: "entry_tokens ?tok (retain_loop ?tok role (userBudget req) (rev entries)) \<le> userBudget req"
    and k: "k \<le> length ?el" "retain_loop ?tok role (userBudget req) (rev entries) = take k (rev ?el) @ t"
      "if k = length ?el then t = []
       else userBudget req < entry_tokens ?tok (take (Suc k) (rev ?el)) \<and> truncated_from (rev ?el ! k) t"
    unfolding rev_el by auto
  define i where "i = length ?el - k"
  have out: "RetainEntriesByRole lib tik req entries role = rev t @ drop i ?el"
    unfolding RetainEntriesByRole_def k(2) i_def by (simp add: take_rev)
  have "if i = 0 then rev t = []
    else userBudget req < entry_tokens ?tok (drop (i - 1) ?el) \<and> truncated_from (?el ! (i - 1)) (rev t)"
  proof (cases "k = length ?el")
    case True
    then show ?thesis using k(3) by (simp add: i_def)
  next
    case False
    with k(1) have i: "k < length ?el" "i \<noteq> 0" "length ?el - Suc k = i - 1" unfolding i_def by linarith+
    have "take (Suc k) (rev ?el) = rev (drop (i - 1) ?el)" "rev ?el ! k = ?el ! (i - 1)"
      using rev_nth [OF i(1)] take_rev [of "Suc k" ?el] i(3) by simp_all
    moreover have "truncated_from e t \<longleftrightarrow> truncated_from e (rev t)" for e by (auto simp: truncated_from_def)
    ultimately show ?thesis using k(3) False i(2) by simp
  qed
  moreover have "i \<le> length ?el" by (simp add: i_def)
  moreover have "entry_tokens ?tok (RetainEntriesByRole lib tik req entries role) \<le> userBudget req"
    using bound by (simp add: RetainEntriesByRole_def)
  ultimately show ?thesis unfolding Let_def using out by blast
qed

section \<open>Summarising\<close>

text \<open>A client that keeps the requests it received.\<close>

definition logged :: "'c chat_client \<Rightarrow> ('c \<times> chat_message list list) chat_client" where
  "logged client = (\<lambda>(c, asked) ms. let (out, c') = client c ms in (out, (c', asked @ [ms])))"

definition asks_suffix :: "go_lib \<Rightarrow> tiktoken \<Rightarrow> comp_request \<Rightarrow> comp_entry list \<Rightarrow> chat_message list \<Rightarrow> bool" where
  "asks_suffix lib tik req es ms \<longleftrightarrow> (\<exists>k. k < length es \<and> ms = summary_messages lib tik req (drop k es))"

definition proper_summary :: "summary_result \<Rightarrow> bool" where
  "proper_summary res = (case res of Summary s \<Rightarrow> s \<noteq> [] \<and> TrimSpace s = s | _ \<Rightarrow> True)"

lemma FallbackSummary_trimmed [simp]: "TrimSpace FallbackSummary = FallbackSummary" "FallbackSummary \<noteq> []"
  by code_simp+

lemma asks_suffix_append: "asks_suffix lib tik req es ms \<Longrightarrow> asks_suffix lib tik req (e # es) ms"
  unfolding asks_suffix_def by (metis Suc_less_eq drop_Suc_Cons length_Cons)

lemma summarize_loop_calls:
  fixes client :: "'c chat_client"
  assumes "trimmed \<noteq> []" "retries \<le> 2"
  shows "\<exists>res u ms c'. summarize_loop lib tik req (logged client) ctx_done trimmed retries acc calls (c, asked)
      = (res, u, calls + length ms, (c', asked @ ms)) \<and>
    ms \<noteq> [] \<and> length ms \<le> 3 * length trimmed - retries \<and> list_all (asks_suffix lib tik req trimmed) ms \<and> proper_summary res"
  using assms
proof (induction "3 * length trimmed - retries" arbitrary: trimmed retries acc calls c asked rule: less_induct)
  case less
  let ?m = "summary_messages lib tik req trimmed"
  have ask: "asks_suffix lib tik req trimmed ?m"
    using less.prems(1) unfolding asks_suffix_def by (intro exI [of _ 0]) simp
  have room: "1 \<le> 3 * length trimmed - retries"
    using less.prems by (cases trimmed) auto
  obtain response err c1 where "client c ?m = ((response, err), c1)" by (metis prod.exhaust)
  then have step: "logged client (c, asked) ?m = ((response, err), (c1, asked @ [?m]))" by (simp add: logged_def)
  let ?done = "\<lambda>res. (res, add_response acc response, calls + 1, (c1, asked @ [?m]))"
  note unfold = summarize_loop.simps [of lib tik req "logged client" ctx_done trimmed retries acc calls "(c, asked)"]
  have stop: ?case if "summarize_loop lib tik req (logged client) ctx_done trimmed retries acc calls (c, asked) = ?done res"
      "proper_summary res" for res
    using that ask room by (intro exI [of _ res] exI [of _ "add_response acc response"] exI [of _ "[?m]"] exI [of _ c1]) simp
  consider (ok) "err = None" | (window) e where "err = Some (WindowExceeded e)" | (other) e where "err = Some (OtherError e)"
    by (metis chat_error.exhaust not_None_eq)
  then show ?case
  proof cases
    case ok
    show ?thesis
    proof (cases response)
      case None
      then show ?thesis by (intro stop [of Nil_response]) (simp_all add: unfold step ok Let_def proper_summary_def)
    next
      case (Some r)
      then obtain content w where "response = Some (content, w)" by (cases r) auto
      then show ?thesis by (intro stop) (auto simp: unfold step ok Let_def proper_summary_def)
    qed
  next
    case window
    show ?thesis
    proof (cases "length trimmed \<le> 1")
      case True
      then show ?thesis
        by (intro stop [of "Compaction_failed _"]) (simp_all add: unfold step window Let_def proper_summary_def)
    next
      case False
      then have t: "tl trimmed \<noteq> []" "3 * length (tl trimmed) - 0 < 3 * length trimmed - retries"
        "3 * length (tl trimmed) < 3 * length trimmed - retries" "trimmed = hd trimmed # tl trimmed"
        using less.prems by (cases trimmed; cases "tl trimmed"; simp)+
      from less.hyps [OF t(2) t(1), of "add_response acc response" "calls + 1" c1 "asked @ [?m]"]
      obtain res u ms c' where rec: "summarize_loop lib tik req (logged client) ctx_done (tl trimmed) 0
          (add_response acc response) (calls + 1) (c1, asked @ [?m]) = (res, u, calls + 1 + length ms, (c', (asked @ [?m]) @ ms))"
        "length ms \<le> 3 * length (tl trimmed)" "list_all (asks_suffix lib tik req (tl trimmed)) ms" "proper_summary res"
        by auto
      have "list_all (asks_suffix lib tik req trimmed) ms"
        using rec(3) asks_suffix_append t(4) by (metis list.pred_mono_strong)
      with rec t(3) ask show ?thesis using False
        by (intro exI [of _ res] exI [of _ u] exI [of _ "?m # ms"] exI [of _ c'])
          (simp add: unfold step window Let_def)
    qed
  next
    case other
    show ?thesis
    proof (cases "retries < 2 \<and> ctx_done (c1, asked @ [?m]) = None")
      case False
      then consider ce where "retries < 2" "ctx_done (c1, asked @ [?m]) = Some ce" | "\<not> retries < 2" by auto
      then show ?thesis
        by cases (rule stop [of "Context_error _"] stop [of "Compaction_failed _"];
          simp add: unfold step other Let_def proper_summary_def)+
    next
      case True
      then have t: "3 * length trimmed - (retries + 1) < 3 * length trimmed - retries" "retries + 1 \<le> 2"
        using room by simp_all
      from less.hyps [OF t(1) less.prems(1) t(2), of "add_response acc response" "calls + 1" c1 "asked @ [?m]"]
      obtain res u ms c' where rec: "summarize_loop lib tik req (logged client) ctx_done trimmed (retries + 1)
          (add_response acc response) (calls + 1) (c1, asked @ [?m]) = (res, u, calls + 1 + length ms, (c', (asked @ [?m]) @ ms))"
        "length ms \<le> 3 * length trimmed - (retries + 1)" "list_all (asks_suffix lib tik req trimmed) ms" "proper_summary res"
        by auto
      with t ask True room show ?thesis
        by (intro exI [of _ res] exI [of _ u] exI [of _ "?m # ms"] exI [of _ c'])
          (simp add: unfold step other Let_def)
    qed
  qed
qed

lemma entry_message_within: "tokenCount lib tik req (cm_Content (entry_message lib tik req e)) \<le> perEntryLimit req"
  using TruncateToTokens_within [of "tokenCount lib tik req" "perEntryLimit req" "renderEntry e"]
  by (auto simp: entry_message_def plain_message_def Let_def)

text \<open>C31: the summariser returns after at most three model calls per entry it summarises, and calls the
  model at least once when there is one; every request is the prompt built from a suffix of the entries
  (context-window errors drop the oldest), every entry in it is within the per-entry token limit, and a
  summary it returns is trimmed and never empty.\<close>

theorem summarize_bounded:
  "let es = summarizableEntries entries;
       (res, u, calls, (c', asked)) = summarize lib tik req (logged client) ctx_done entries (c, [])
   in calls = length asked \<and> calls \<le> 3 * length es \<and> (calls = 0 \<longleftrightarrow> es = []) \<and>
     list_all (asks_suffix lib tik req es) asked \<and> proper_summary res \<and>
     list_all (\<lambda>e. tokenCount lib tik req (cm_Content (entry_message lib tik req e)) \<le> perEntryLimit req) es"
proof (cases "summarizableEntries entries = []")
  case True
  then show ?thesis by (simp add: summarize_def proper_summary_def)
next
  case False
  from summarize_loop_calls [OF False, of 0 lib tik req client ctx_done no_usage 0 c "[]"]
  obtain res u ms c' where "summarize lib tik req (logged client) ctx_done entries (c, []) = (res, u, length ms, (c', ms))"
    "ms \<noteq> []" "length ms \<le> 3 * length (summarizableEntries entries)"
    "list_all (asks_suffix lib tik req (summarizableEntries entries)) ms" "proper_summary res"
    using False by (auto simp: summarize_def Let_def)
  then show ?thesis using False by (simp add: list_all_iff entry_message_within)
qed

section \<open>Entries of a transcript\<close>

lemma entry_id_inj: "itoa a @ '':'' @ itoa b = itoa a' @ '':'' @ itoa b' \<longleftrightarrow> a = a' \<and> b = b'"
proof
  assume eq: "itoa a @ '':'' @ itoa b = itoa a' @ '':'' @ itoa b'"
  have "takeWhile (\<lambda>c. c \<noteq> CHR '':'') (itoa x @ '':'' @ itoa y) = itoa x" for x y
    using itoa_no_colon [of x] by (simp add: takeWhile_tail takeWhile_append2 split: if_splits) (metis takeWhile_append2 append_Nil2 takeWhile.simps(1))
  with eq have "itoa a = itoa a'" by metis
  with eq show "a = a' \<and> b = b'" using itoa_inj by auto
qed simp

lemma call_entries_id:
  "x \<in> set (call_entries ti si calls) \<Longrightarrow> \<exists>b\<ge>si. en_TranscriptEntryID x = itoa ti @ '':'' @ itoa b"
proof (induction calls arbitrary: si)
  case (Cons call calls)
  show ?case
  proof (cases "x \<in> set (call_entries ti (si + 1) calls)")
    case True
    then obtain b where "si + 1 \<le> b" "en_TranscriptEntryID x = itoa ti @ '':'' @ itoa b" using Cons.IH by blast
    then show ?thesis by (intro exI [of _ b]) simp
  next
    case False
    with Cons.prems show ?thesis by (auto simp: newTranscriptEntry_def)
  qed
qed simp

lemma call_entries_distinct: "distinct (map en_TranscriptEntryID (call_entries ti si calls))"
proof (induction calls arbitrary: si)
  case (Cons call calls)
  have "itoa ti @ '':'' @ itoa si \<noteq> en_TranscriptEntryID x" if "x \<in> set (call_entries ti (si + 1) calls)" for x
    using call_entries_id [OF that] entry_id_inj [of ti si ti] by auto
  then show ?case using Cons.IH [of "si + 1"] by (auto simp: newTranscriptEntry_def)
qed simp

lemma message_entries_ids:
  "distinct (map en_TranscriptEntryID (message_entries ti msg))"
  "x \<in> set (message_entries ti msg) \<Longrightarrow> \<exists>b. en_TranscriptEntryID x = itoa ti @ '':'' @ itoa b"
proof -
  have "itoa ti @ '':'' @ itoa 0 \<noteq> en_TranscriptEntryID x" if "x \<in> set (call_entries ti 1 calls)" for x calls
    using call_entries_id [OF that] entry_id_inj [of ti 0 ti] by auto
  then show "distinct (map en_TranscriptEntryID (message_entries ti msg))"
    using call_entries_distinct [of ti _ "cm_ToolCalls msg"] by (auto simp: message_entries_def newTranscriptEntry_def)
  show "x \<in> set (message_entries ti msg) \<Longrightarrow> \<exists>b. en_TranscriptEntryID x = itoa ti @ '':'' @ itoa b"
    by (auto simp: message_entries_def newTranscriptEntry_def split: if_splits dest!: call_entries_id)
qed

lemma FromChatAt_ids:
  "x \<in> set (FromChatAt messages k) \<Longrightarrow> \<exists>a b. k \<le> a \<and> en_TranscriptEntryID x = itoa a @ '':'' @ itoa b"
proof (induction messages arbitrary: k)
  case (Cons msg messages)
  then consider "x \<in> set (message_entries k msg)" | "x \<in> set (FromChatAt messages (k + 1))" by auto
  then show ?case
  proof cases
    case 1
    then show ?thesis using message_entries_ids(2) by blast
  next
    case 2
    then obtain a b where "k + 1 \<le> a" "en_TranscriptEntryID x = itoa a @ '':'' @ itoa b" using Cons.IH by blast
    then show ?thesis by (intro exI [of _ a] exI [of _ b]) simp
  qed
qed simp

text \<open>Messages as the runner writes them: tool calls and results carry nothing that entries cannot hold.\<close>

definition plain_transcript_message :: "chat_message \<Rightarrow> bool" where
  "plain_transcript_message m \<longleftrightarrow>
     (if cm_ToolCalls m \<noteq> [] then cm_Role m = RoleAssistant \<and> cm_ToolCallID m = []
      else cm_Role m = RoleTool \<or> cm_ToolCallID m = [])"

text \<open>A text entry of the assistant absorbs the calls that follow it, so a message of bare calls must not
  follow another assistant message.\<close>

fun no_adjacent_calls :: "bool \<Rightarrow> chat_message list \<Rightarrow> bool" where
  "no_adjacent_calls after [] = True"
| "no_adjacent_calls after (m # ms) \<longleftrightarrow>
     \<not> (after \<and> cm_ToolCalls m \<noteq> [] \<and> cm_Content m = []) \<and> no_adjacent_calls (cm_Role m = RoleAssistant) ms"

definition untyped :: "chat_message \<Rightarrow> chat_message" where
  "untyped m = m\<lparr>cm_ToolCalls := map (\<lambda>c. c\<lparr>tc_Type := []\<rparr>) (cm_ToolCalls m)\<rparr>"

lemmas entry_fields = newTranscriptEntry_def content_types

lemma call_untyped:
  "\<lparr>tc_ID = tc_ID call, tc_Type = [], tc_Name = tc_Name call, tc_Arguments = tc_Arguments call\<rparr> = call\<lparr>tc_Type := []\<rparr>"
  by (cases call) simp

lemma to_chat_calls:
  "to_chat (ms @ [m]) True (call_entries ti si calls @ es) =
     to_chat (ms @ [m\<lparr>cm_ToolCalls := cm_ToolCalls m @ map (\<lambda>c. c\<lparr>tc_Type := []\<rparr>) calls\<rparr>]) True es"
proof (induction calls arbitrary: si m)
  case (Cons call calls)
  show ?case by (simp add: entry_fields call_untyped Cons.IH Let_def)
qed simp

lemma to_chat_bare_calls:
  "calls \<noteq> [] \<Longrightarrow> to_chat ms False (call_entries ti si calls @ es) =
     to_chat (ms @ [\<lparr>cm_Role = RoleAssistant, cm_Content = [], cm_ToolCallID = [],
       cm_ToolCalls = map (\<lambda>c. c\<lparr>tc_Type := []\<rparr>) calls\<rparr>]) True es"
proof (cases calls)
  case (Cons call rest)
  show ?thesis unfolding Cons by (simp add: entry_fields call_untyped to_chat_calls Let_def)
qed simp

lemma to_chat_message:
  assumes "plain_transcript_message m" "\<not> (pending \<and> cm_ToolCalls m \<noteq> [] \<and> cm_Content m = [])"
  shows "to_chat ms pending (message_entries ti m @ es) = to_chat (ms @ [untyped m]) (cm_Role m = RoleAssistant) es"
proof (cases "cm_ToolCalls m = []")
  case True
  with assms(1) show ?thesis
    by (cases m) (auto simp: message_entries_def entry_fields plain_transcript_message_def untyped_def RoleAssistant_def RoleTool_def)
next
  case False
  with assms have m: "m = \<lparr>cm_Role = RoleAssistant, cm_Content = cm_Content m, cm_ToolCallID = [], cm_ToolCalls = cm_ToolCalls m\<rparr>"
    by (cases m) (simp add: plain_transcript_message_def)
  show ?thesis
  proof (cases "cm_Content m = []")
    case True
    with False assms(2) have "to_chat ms pending (message_entries ti m @ es) = to_chat ms False (call_entries ti 0 (cm_ToolCalls m) @ es)"
      by (simp add: message_entries_def)
    also have "\<dots> = to_chat (ms @ [untyped m]) True es"
      using True False by (subst to_chat_bare_calls) (simp_all add: untyped_def, subst m, simp)
    finally show ?thesis by (subst (2) m) simp
  next
    case nonempty: False
    with False have "to_chat ms pending (message_entries ti m @ es) =
        to_chat (ms @ [\<lparr>cm_Role = RoleAssistant, cm_Content = cm_Content m, cm_ToolCallID = [], cm_ToolCalls = []\<rparr>]) True
          (call_entries ti 1 (cm_ToolCalls m) @ es)"
      by (simp add: message_entries_def entry_fields)
    also have "\<dots> = to_chat (ms @ [untyped m]) True es"
      by (subst to_chat_calls) (simp add: untyped_def, subst m, simp)
    finally show ?thesis by (subst (2) m) simp
  qed
qed

lemma to_chat_FromChatAt:
  "list_all plain_transcript_message messages \<Longrightarrow> no_adjacent_calls pending messages \<Longrightarrow>
     to_chat ms pending (FromChatAt messages k) = ms @ map untyped messages"
  by (induction messages arbitrary: ms pending k) (simp_all add: to_chat_message)

text \<open>C32: every entry a transcript expands to has its own transcript entry identifier, so that a retried
  write addresses each row once, and converting the entries back gives the transcript again, the type
  tags of the tool calls aside, when no message of bare tool calls directly follows another message of
  the assistant.\<close>

theorem transcript_entries_roundtrip:
  "distinct (map en_TranscriptEntryID (FromChatAt messages k)) \<and>
   (list_all plain_transcript_message messages \<and> no_adjacent_calls False messages \<longrightarrow>
      ToChat (FromChatAt messages k) = map untyped messages)"
proof -
  have "distinct (map en_TranscriptEntryID (FromChatAt messages k))"
  proof (induction messages arbitrary: k)
    case (Cons msg messages)
    have "en_TranscriptEntryID x \<noteq> en_TranscriptEntryID y"
      if "x \<in> set (message_entries k msg)" "y \<in> set (FromChatAt messages (k + 1))" for x y
      using message_entries_ids(2) [OF that(1)] FromChatAt_ids [OF that(2)] entry_id_inj by fastforce
    then show ?case using Cons.IH [of "k + 1"] message_entries_ids(1) [of k msg] by fastforce
  qed simp
  then show ?thesis by (simp add: ToChat_def to_chat_FromChatAt)
qed

definition sample_transcript :: "chat_message list" where
  "sample_transcript =
     [plain_message RoleUser ''go'',
      \<lparr>cm_Role = RoleAssistant, cm_Content = ''ok'', cm_ToolCallID = [],
       cm_ToolCalls = [\<lparr>tc_ID = ''a'', tc_Type = ''function'', tc_Name = ''t'', tc_Arguments = ''{}''\<rparr>]\<rparr>,
      \<lparr>cm_Role = RoleTool, cm_Content = ''done'', cm_ToolCallID = ''a'', cm_ToolCalls = []\<rparr>]"

lemma sample_transcript_plain: "list_all plain_transcript_message sample_transcript" "no_adjacent_calls False sample_transcript"
  by code_simp+

theorem transcript_entries_roundtrip_witness:
  "ToChat (FromChatAt sample_transcript 4) = map untyped sample_transcript"
  using transcript_entries_roundtrip [of sample_transcript 4] sample_transcript_plain by blast

end
