(* ===== verification/Rules.thy ===== *)
theory Rules
  imports Tool_Policy "HOL-Library.List_Lexorder" "HOL-Library.Char_ord" "HOL-Library.Product_Lexorder"
begin

text \<open>
  The rules of an agent (\<^verbatim>\<open>internal/runtime/harness/rules\<close>): the rule data with its activation
  (\<^verbatim>\<open>rules.go\<close>), the selection for one model turn (\<^verbatim>\<open>selector.go\<close>), the platform catalogue
  (\<^verbatim>\<open>catalog.go\<close>), and validation, snapshots and policy bindings (\<^verbatim>\<open>snapshot.go\<close>).

  Strings are ordered bytewise, as in Go. The strict JSON decoders of \<^verbatim>\<open>validateTypedPolicyParams\<close>
  (\<^verbatim>\<open>DisallowUnknownFields\<close>) and the encoding of a rule list are fields of \<open>rules_lib\<close>.
\<close>

section \<open>Rules (rules.go)\<close>

definition RuleMandatory :: string where "RuleMandatory = ''mandatory''"
definition RuleOptional :: string where "RuleOptional = ''optional''"

record activation =
  ac_ModeAny :: "string list"
  ac_RiskAny :: "string list"
  ac_ToolAny :: "string list"
  ac_TagAny :: "string list"
  ac_TagAll :: "string list"
  ac_KeywordsAny :: "string list"
  ac_Always :: bool

record rule =
  ru_ID :: string
  ru_Name :: string
  ru_Strength :: string
  ru_Content :: string
  ru_Activation :: activation
  ru_Priority :: int
  ru_SafetyCritical :: bool
  ru_PolicyBinding :: "(string \<times> string) option"

record load_context =
  lc_Mode :: string
  lc_ToolNames :: "string list"
  lc_RiskLevel :: string
  lc_Tags :: "string list"
  lc_Task :: string
  lc_Conversation :: string
  lc_TokenBudget :: int
  lc_RuleTokenCosts :: "string \<rightharpoonup> int"

record rule_trace =
  rt_Loaded :: "string list"
  rt_Skipped :: "string list"
  rt_SkipReasons :: "string \<rightharpoonup> string"
  rt_EstimatedUsed :: int
  rt_TokenBudget :: int
  rt_MandatoryTokens :: int
  rt_OptionalBudget :: int
  rt_RuleHash :: string

definition no_trace :: rule_trace where
  "no_trace = \<lparr>rt_Loaded = [], rt_Skipped = [], rt_SkipReasons = Map.empty, rt_EstimatedUsed = 0, rt_TokenBudget = 0,
     rt_MandatoryTokens = 0, rt_OptionalBudget = 0, rt_RuleHash = []\<rparr>"

definition no_activation :: activation where
  "no_activation = \<lparr>ac_ModeAny = [], ac_RiskAny = [], ac_ToolAny = [], ac_TagAny = [], ac_TagAll = [], ac_KeywordsAny = [],
     ac_Always = False\<rparr>"

definition ReasonSignalsNotMatched :: string where "ReasonSignalsNotMatched = ''activation_not_matched''"
definition ReasonTokenBudgetExceeded :: string where "ReasonTokenBudgetExceeded = ''token_budget_exceeded''"

definition ruleCost :: "rule \<Rightarrow> int" where
  "ruleCost rule = (let cost = RuneCount (TrimSpace (ru_Content rule)) div 4 in if cost < 1 then 1 else int cost)"

definition normal_form :: "go_lib \<Rightarrow> string \<Rightarrow> string" where
  "normal_form lib value = ToLower lib (TrimSpace value)"

definition normalizedSet :: "go_lib \<Rightarrow> string list \<Rightarrow> string list" where
  "normalizedSet lib values = filter (\<lambda>v. v \<noteq> []) (map (normal_form lib) values)"

definition containsAny :: "go_lib \<Rightarrow> string \<Rightarrow> string list \<Rightarrow> bool" where
  "containsAny lib value candidates \<longleftrightarrow>
     normal_form lib value \<noteq> [] \<and> list_ex (\<lambda>c. normal_form lib value = normal_form lib c) candidates"

definition matchesSet :: "go_lib \<Rightarrow> string list \<Rightarrow> string list \<Rightarrow> bool" where
  "matchesSet lib values candidates \<longleftrightarrow> list_ex (\<lambda>c. normal_form lib c \<in> set (normalizedSet lib values)) candidates"

definition containsAllSet :: "go_lib \<Rightarrow> string list \<Rightarrow> string list \<Rightarrow> bool" where
  "containsAllSet lib values required \<longleftrightarrow> list_all (\<lambda>c. normal_form lib c \<in> set (normalizedSet lib values)) required"

definition matchesKeyword :: "go_lib \<Rightarrow> load_context \<Rightarrow> string list \<Rightarrow> bool" where
  "matchesKeyword lib ctx candidates \<longleftrightarrow>
     (let body = ToLower lib (TrimSpace (lc_Task ctx @ [CHR 0x0A] @ lc_Conversation ctx))
      in list_ex (\<lambda>c. normal_form lib c \<noteq> [] \<and> Contains body (normal_form lib c)) candidates)"

definition matches :: "go_lib \<Rightarrow> rule \<Rightarrow> load_context \<Rightarrow> bool" where
  "matches lib rule ctx =
     (let a = ru_Activation rule in
      if ru_Strength rule = RuleMandatory then True
      else if ac_TagAll a \<noteq> [] \<and> \<not> containsAllSet lib (lc_Tags ctx) (ac_TagAll a) then False
      else if ac_Always a then True
      else containsAny lib (lc_Mode ctx) (ac_ModeAny a) \<or> containsAny lib (lc_RiskLevel ctx) (ac_RiskAny a) \<or>
        matchesSet lib (lc_ToolNames ctx) (ac_ToolAny a) \<or> matchesSet lib (lc_Tags ctx) (ac_TagAny a) \<or>
        matchesKeyword lib ctx (ac_KeywordsAny a))"

definition hasActivation :: "activation \<Rightarrow> bool" where
  "hasActivation a \<longleftrightarrow> ac_Always a \<or> ac_ModeAny a \<noteq> [] \<or> ac_RiskAny a \<noteq> [] \<or> ac_ToolAny a \<noteq> [] \<or> ac_TagAny a \<noteq> [] \<or>
     ac_TagAll a \<noteq> [] \<or> ac_KeywordsAny a \<noteq> []"

definition skip :: "rule_trace \<Rightarrow> string \<Rightarrow> string \<Rightarrow> rule_trace" where
  "skip t ruleID reason =
     (let t = t\<lparr>rt_Skipped := rt_Skipped t @ [ruleID]\<rparr>
      in if reason \<noteq> [] then t\<lparr>rt_SkipReasons := (rt_SkipReasons t)(ruleID \<mapsto> reason)\<rparr> else t)"

section \<open>Selection (selector.go)\<close>

fun select_mandatory :: "rule list \<Rightarrow> rule_trace \<Rightarrow> rule list \<Rightarrow> rule list \<times> rule_trace" where
  "select_mandatory loaded trace [] = (loaded, trace\<lparr>rt_MandatoryTokens := rt_EstimatedUsed trace\<rparr>)"
| "select_mandatory loaded trace (rule # items) =
     (if ru_Strength rule \<noteq> RuleMandatory then select_mandatory loaded trace items
      else select_mandatory (loaded @ [rule])
        (trace\<lparr>rt_Loaded := rt_Loaded trace @ [ru_ID rule], rt_EstimatedUsed := rt_EstimatedUsed trace + ruleCost rule\<rparr>) items)"

definition SelectMandatoryRules :: "rule list \<Rightarrow> rule list \<times> rule_trace" where
  "SelectMandatoryRules items = select_mandatory [] no_trace items"

definition candidate_cost :: "load_context \<Rightarrow> rule \<Rightarrow> int" where
  "candidate_cost ctx rule =
     (case lc_RuleTokenCosts ctx (ru_ID rule) of
        Some actual \<Rightarrow> if 0 < actual then actual else ruleCost rule
      | None \<Rightarrow> ruleCost rule)"

fun candidates :: "go_lib \<Rightarrow> load_context \<Rightarrow> rule_trace \<Rightarrow> rule list \<Rightarrow> (rule \<times> int) list \<times> rule_trace" where
  "candidates lib ctx trace [] = ([], trace)"
| "candidates lib ctx trace (rule # items) =
     (if ru_Strength rule \<noteq> RuleOptional then candidates lib ctx trace items
      else if \<not> matches lib rule ctx then candidates lib ctx (skip trace (ru_ID rule) ReasonSignalsNotMatched) items
      else (let (cs, trace') = candidates lib ctx trace items in ((rule, candidate_cost ctx rule) # cs, trace')))"

definition candidate_order :: "rule \<times> int \<Rightarrow> int \<times> int \<times> string" where
  "candidate_order c = (- ru_Priority (fst c), snd c, ru_ID (fst c))"

fun load_candidates :: "int \<Rightarrow> rule list \<Rightarrow> rule_trace \<Rightarrow> (rule \<times> int) list \<Rightarrow> rule list \<times> rule_trace" where
  "load_candidates budget loaded trace [] = (loaded, trace)"
| "load_candidates budget loaded trace ((rule, cost) # cs) =
     (if budget \<le> 0 \<or> budget < rt_EstimatedUsed trace + cost
      then load_candidates budget loaded (skip trace (ru_ID rule) ReasonTokenBudgetExceeded) cs
      else load_candidates budget (loaded @ [rule])
        (trace\<lparr>rt_Loaded := rt_Loaded trace @ [ru_ID rule], rt_EstimatedUsed := rt_EstimatedUsed trace + cost\<rparr>) cs)"

definition SelectOptionalRules :: "go_lib \<Rightarrow> rule list \<Rightarrow> load_context \<Rightarrow> rule list \<times> rule_trace" where
  "SelectOptionalRules lib items ctx =
     (let trace = no_trace\<lparr>rt_TokenBudget := lc_TokenBudget ctx, rt_OptionalBudget := lc_TokenBudget ctx\<rparr>;
          (cs, trace) = candidates lib ctx trace items
      in load_candidates (lc_TokenBudget ctx) [] trace (sort_key candidate_order cs))"

section \<open>The platform's rules (catalog.go)\<close>

definition platform_rule :: "string \<Rightarrow> string \<Rightarrow> string \<Rightarrow> int \<Rightarrow> string \<Rightarrow> activation \<Rightarrow> rule" where
  "platform_rule i name strength priority content a =
     \<lparr>ru_ID = i, ru_Name = name, ru_Strength = strength, ru_Content = content, ru_Activation = a, ru_Priority = priority,
      ru_SafetyCritical = False, ru_PolicyBinding = None\<rparr>"

definition DefaultPlatformMandatoryRules :: "rule list" where
  "DefaultPlatformMandatoryRules =
    [platform_rule ''safety.output.boundary'' ''Output Boundary'' RuleMandatory 100
       (''Reject impossible claims, keep tool claims grounded in observed outputs, and do not fabricate execution results or external facts.'')
       no_activation,
     platform_rule ''core.task.completion'' ''Task Completion'' RuleMandatory 90
       (''Answer the user'' @ [CHR 0x27] @ ''s task directly, preserve critical constraints, and prefer concise execution over speculative discussion.'')
       no_activation]"

definition DefaultFallbackOptionalRules :: "rule list" where
  "DefaultFallbackOptionalRules =
    [platform_rule ''scenario.rag.citations'' ''RAG Citations'' RuleOptional 70
       (''When retrieval content is present, cite or clearly attribute retrieved evidence and separate retrieved facts from reasoning.'')
       \<lparr>ac_ModeAny = [], ac_RiskAny = [], ac_ToolAny = [''search_knowledge'', ''knowledge_search'', ''retrieve_chunks''], ac_TagAny = [''retrieval'', ''knowledge'', ''rag''],
        ac_TagAll = [], ac_KeywordsAny = [''citation'', ''cite'', ''knowledge base'', ''retrieval''], ac_Always = False\<rparr>,
     platform_rule ''scenario.code.change_verification'' ''Code Verification'' RuleOptional 80
       (''For code changes, keep edits minimal, verify behavior with focused tests or checks, and report what was validated versus what was not.'')
       \<lparr>ac_ModeAny = [], ac_RiskAny = [], ac_ToolAny = [''bash'', ''apply_patch''], ac_TagAny = [''code'', ''repo'', ''git'', ''engineering''],
        ac_TagAll = [], ac_KeywordsAny = [''test'', ''build'', ''compile'', ''refactor'', ''bug'', ''code''], ac_Always = False\<rparr>,
     platform_rule ''scenario.review.risk_first'' ''Review Risk First'' RuleOptional 75
       (''For review tasks, lead with concrete findings, prioritize regressions and missing tests, and keep summaries secondary.'')
       \<lparr>ac_ModeAny = [], ac_RiskAny = [], ac_ToolAny = [], ac_TagAny = [''review''],
        ac_TagAll = [], ac_KeywordsAny = [''review'', ''code review'', [CHR 0xE5, CHR 0xAE, CHR 0xA1, CHR 0xE6, CHR 0x9F, CHR 0xA5], [CHR 0xE8, CHR 0xAF, CHR 0x84, CHR 0xE5, CHR 0xAE, CHR 0xA1]], ac_Always = False\<rparr>,
     platform_rule ''tool.high_risk.approval'' ''High Risk Approval'' RuleOptional 85
       (''For high-risk or side-effecting tools, confirm policy and explain operational impact before relying on the tool result in the final answer.'')
       \<lparr>ac_ModeAny = [], ac_RiskAny = [''high'', ''medium''], ac_ToolAny = [''bash'', ''http_request'', ''run_subagent'', ''run_code''], ac_TagAny = [],
        ac_TagAll = [''tool_used''], ac_KeywordsAny = [], ac_Always = False\<rparr>,
     platform_rule ''tool.plan.checkpoints'' ''Plan Checkpoints'' RuleOptional 65
       (''In Plan Mode, keep analysis explicit, revise the plan after failures, and never perform hidden side effects.'')
       \<lparr>ac_ModeAny = [''plan''], ac_RiskAny = [], ac_ToolAny = [], ac_TagAny = [],
        ac_TagAll = [''tool_used''], ac_KeywordsAny = [], ac_Always = False\<rparr>,
     platform_rule ''ephemeral.long_context.compaction'' ''Long Context Compaction'' RuleOptional 50
       (''When conversation context is long or repetitive, prefer summarized state over replaying every prior detail unless a rare signal would be lost.'')
       \<lparr>ac_ModeAny = [], ac_RiskAny = [], ac_ToolAny = [], ac_TagAny = [''long_context'', ''compression''],
        ac_TagAll = [], ac_KeywordsAny = [''summary'', ''compress'', ''long context'', ''32k'', [CHR 0xE7, CHR 0xAA, CHR 0x97, CHR 0xE5, CHR 0x8F, CHR 0xA3], [CHR 0xE4, CHR 0xB8, CHR 0x8A, CHR 0xE4, CHR 0xB8, CHR 0x8B, CHR 0xE6, CHR 0x96, CHR 0x87]], ac_Always = False\<rparr>]"


section \<open>Validation (snapshot.go)\<close>

record rules_lib =
  strict_empty :: "string \<Rightarrow> string option"
  strict_strings :: "string \<Rightarrow> string \<Rightarrow> string + string list"
  strict_ints :: "string \<Rightarrow> string \<Rightarrow> string \<Rightarrow> string + (int \<times> int)"
  marshal_rules :: "rule list \<Rightarrow> string + string"

definition maxRuleCount :: nat where "maxRuleCount = 50"
definition maxRuleContentBytes :: nat where "maxRuleContentBytes = 16 * 1024"

definition id_head :: "char \<Rightarrow> bool" where
  "id_head c \<longleftrightarrow> (97 \<le> byte c \<and> byte c \<le> 122) \<or> (48 \<le> byte c \<and> byte c \<le> 57)"

text \<open>\<^verbatim>\<open>^[a-z0-9][a-z0-9._-]{0,127}$\<close>\<close>

definition ruleIDPattern :: "string \<Rightarrow> bool" where
  "ruleIDPattern s = (case s of
       [] \<Rightarrow> False
     | c # cs \<Rightarrow> id_head c \<and> length cs \<le> 127 \<and> list_all (\<lambda>c. id_head c \<or> c = CHR ''.'' \<or> c = CHR ''_'' \<or> c = CHR ''-'') cs)"

definition stableUnique :: "string list \<Rightarrow> string list" where
  "stableUnique values = rev (remdups (rev (filter (\<lambda>v. v \<noteq> []) (map TrimSpace values))))"

definition validateTypedPolicyParams :: "rules_lib \<Rightarrow> string \<Rightarrow> string \<Rightarrow> string option" where
  "validateTypedPolicyParams dec policyKey raw0 =
     (let raw = (if raw0 = [] \<or> raw0 = ''null'' then ''{}'' else raw0) in
      if policyKey = PolicyDangerousArgumentsDeny then strict_empty dec raw
      else if policyKey = PolicyRiskRequireApproval then
        (case strict_strings dec ''risk_levels'' raw of
           Inl e \<Rightarrow> Some (''risk_levels must be an array: '' @ e)
         | Inr levels \<Rightarrow> if stableUnique levels = [] then Some ''risk_levels must not be empty'' else None)
      else if policyKey = PolicyHostAllowlist then
        (case strict_strings dec ''allowed_hosts'' raw of
           Inl e \<Rightarrow> Some (''allowed_hosts must be an array: '' @ e)
         | Inr hosts \<Rightarrow> if stableUnique hosts = [] then Some ''allowed_hosts must not be empty'' else None)
      else if policyKey = PolicyExecutionLimits then
        (case strict_ints dec ''max_tool_timeout_ms'' ''max_tool_output_bytes'' raw of
           Inl e \<Rightarrow> Some e
         | Inr (timeout, bytes) \<Rightarrow>
             if timeout < 0 \<or> 600000 < timeout then Some ''max_tool_timeout_ms must be 0..600000''
             else if bytes < 0 \<or> 2 * 1024 * 1024 < bytes then Some ''max_tool_output_bytes must be 0..2097152''
             else if timeout = 0 \<and> bytes = 0 then Some ''execution limits must set at least one positive limit'' else None)
      else None)"

definition validatePolicyBinding :: "go_lib \<Rightarrow> rules_lib \<Rightarrow> rule \<Rightarrow> string option" where
  "validatePolicyBinding lib dec rule =
     (case ru_PolicyBinding rule of
        None \<Rightarrow>
          if ru_SafetyCritical rule
          then Some (''safety-critical rule '' @ quote lib (ru_ID rule) @ '' requires a policy binding'') else None
      | Some (key, params) \<Rightarrow>
          let policyKey = TrimSpace key in
          if ru_Strength rule \<noteq> RuleMandatory
          then Some (''rule '' @ quote lib (ru_ID rule) @ '' with a policy binding must be mandatory'')
          else if policyKey \<notin> {PolicyDangerousArgumentsDeny, PolicyRiskRequireApproval, PolicyHostAllowlist, PolicyExecutionLimits}
          then Some (''rule '' @ quote lib (ru_ID rule) @ '' uses unknown policy binding '' @ quote lib key)
          else if params \<noteq> [] \<and> params \<noteq> ''null'' \<and>
            (case unmarshal_any lib params of Inr (JObj _) \<Rightarrow> False | _ \<Rightarrow> True)
          then Some (''rule '' @ quote lib (ru_ID rule) @ '' policy binding params must be a JSON object'')
          else map_option (\<lambda>e. ''rule '' @ quote lib (ru_ID rule) @ '' policy binding: '' @ e)
            (validateTypedPolicyParams dec policyKey params))"

definition trim_rule :: "rule \<Rightarrow> rule" where
  "trim_rule rule = rule\<lparr>ru_ID := TrimSpace (ru_ID rule), ru_Name := TrimSpace (ru_Name rule),
     ru_Content := TrimSpace (ru_Content rule)\<rparr>"

text \<open>The checks of one rule, in their order; \<open>seen\<close> are the identifiers accepted before it.\<close>

definition check_rule :: "go_lib \<Rightarrow> rules_lib \<Rightarrow> string list \<Rightarrow> rule \<Rightarrow> string option" where
  "check_rule lib dec seen rule =
     (let q = quote lib (ru_ID rule) in
      if \<not> ruleIDPattern (ru_ID rule) then Some (''rule id '' @ q @ '' is invalid'')
      else if ru_Content rule = [] then Some (''rule '' @ q @ '' requires content'')
      else if maxRuleContentBytes < length (ru_Content rule)
      then Some (''rule '' @ q @ '' content exceeds '' @ itoa (int maxRuleContentBytes) @ '' bytes'')
      else if ru_ID rule \<in> set seen then Some (''duplicate rule id '' @ q)
      else if ru_Strength rule \<noteq> RuleMandatory \<and> ru_Strength rule \<noteq> RuleOptional
      then Some (''rule '' @ q @ '' requires strength mandatory or optional'')
      else if ru_Strength rule = RuleOptional \<and> \<not> hasActivation (ru_Activation rule)
      then Some (''optional rule '' @ q @ '' requires an activation'')
      else validatePolicyBinding lib dec rule)"

fun check_rules :: "go_lib \<Rightarrow> rules_lib \<Rightarrow> string list \<Rightarrow> rule list \<Rightarrow> string + rule list" where
  "check_rules lib dec seen [] = Inr []"
| "check_rules lib dec seen (input # items) =
     (let rule = trim_rule input in
      case check_rule lib dec seen rule of
        Some e \<Rightarrow> Inl e
      | None \<Rightarrow> (case check_rules lib dec (ru_ID rule # seen) items of Inl e \<Rightarrow> Inl e | Inr rs \<Rightarrow> Inr (rule # rs)))"

definition validateRules :: "go_lib \<Rightarrow> rules_lib \<Rightarrow> rule list \<Rightarrow> string + rule list" where
  "validateRules lib dec items =
     (case check_rules lib dec [] items of Inl e \<Rightarrow> Inl e | Inr rs \<Rightarrow> Inr (sort_key ru_ID rs))"

definition reserved_ids :: "string list" where
  "reserved_ids = map ru_ID (DefaultPlatformMandatoryRules @ DefaultFallbackOptionalRules)"

definition ValidateRules :: "go_lib \<Rightarrow> rules_lib \<Rightarrow> rule list \<Rightarrow> string + rule list" where
  "ValidateRules lib dec items =
     (if maxRuleCount < length items then Inl (''at most '' @ itoa (int maxRuleCount) @ '' custom rules are allowed'')
      else case find (\<lambda>r. TrimSpace (ru_ID r) \<in> set reserved_ids) items of
        Some r \<Rightarrow> Inl (''rule id '' @ quote lib (TrimSpace (ru_ID r)) @ '' is reserved by the platform'')
      | None \<Rightarrow> validateRules lib dec items)"

definition ValidateLoadedRules :: "go_lib \<Rightarrow> rules_lib \<Rightarrow> rule list \<Rightarrow> string + rule list" where
  "ValidateLoadedRules lib dec items = validateRules lib dec items"

definition RuntimeRules :: "go_lib \<Rightarrow> rules_lib \<Rightarrow> rule list \<Rightarrow> bool \<Rightarrow> string + rule list" where
  "RuntimeRules lib dec custom includeFallback =
     (case ValidateRules lib dec custom of
        Inl e \<Rightarrow> Inl e
      | Inr validated \<Rightarrow>
          validateRules lib dec
            (DefaultPlatformMandatoryRules @ (if includeFallback then DefaultFallbackOptionalRules else []) @ validated))"

record rule_snapshot =
  sn_Hash :: string
  sn_Rules :: "rule list"

definition hashSnapshot :: "go_lib \<Rightarrow> rules_lib \<Rightarrow> rule_snapshot \<Rightarrow> string + string" where
  "hashSnapshot lib dec s =
     (case marshal_rules dec (sn_Rules s) of
        Inl e \<Rightarrow> Inl (''marshal rule snapshot: '' @ e)
      | Inr data \<Rightarrow> Inr (sha256_hex lib data))"

definition NewSnapshot :: "go_lib \<Rightarrow> rules_lib \<Rightarrow> rule list \<Rightarrow> string + rule_snapshot" where
  "NewSnapshot lib dec items =
     (case ValidateRules lib dec items of
        Inl e \<Rightarrow> Inl e
      | Inr normalized \<Rightarrow>
          (case hashSnapshot lib dec \<lparr>sn_Hash = [], sn_Rules = normalized\<rparr> of
             Inl e \<Rightarrow> Inl e
           | Inr h \<Rightarrow> Inr \<lparr>sn_Hash = h, sn_Rules = normalized\<rparr>))"

definition VerifySnapshot :: "go_lib \<Rightarrow> rules_lib \<Rightarrow> rule_snapshot option \<Rightarrow> string option" where
  "VerifySnapshot lib dec snapshot =
     (case snapshot of
        None \<Rightarrow> Some ''rule snapshot is nil''
      | Some s \<Rightarrow>
          let expected = TrimSpace (sn_Hash s) in
          if expected = [] then Some ''rule snapshot hash is empty''
          else (case hashSnapshot lib dec s of
              Inl e \<Rightarrow> Some e
            | Inr actual \<Rightarrow>
                if actual \<noteq> expected then Some ''rule snapshot hash mismatch''
                else (case validateRules lib dec (sn_Rules s) of Inl e \<Rightarrow> Some e | Inr _ \<Rightarrow> None)))"

definition HashLoadedRules :: "go_lib \<Rightarrow> rules_lib \<Rightarrow> rule list \<Rightarrow> string + string" where
  "HashLoadedRules lib dec items =
     (case ValidateLoadedRules lib dec items of
        Inl e \<Rightarrow> Inl e
      | Inr normalized \<Rightarrow> hashSnapshot lib dec \<lparr>sn_Hash = [], sn_Rules = normalized\<rparr>)"

definition PolicyBindingsForRules :: "rule list \<Rightarrow> policy_binding list" where
  "PolicyBindingsForRules items =
     concat (map (\<lambda>rule. case ru_PolicyBinding rule of
         Some (key, params) \<Rightarrow>
           if ru_Strength rule = RuleMandatory then [\<lparr>pb_RuleID = ru_ID rule, pb_PolicyKey = key, pb_Params = params\<rparr>] else []
       | None \<Rightarrow> []) items)"

end
