(* ===== verification/Rules_Props.thy ===== *)
theory Rules_Props
  imports Rules Tool_Policy_Props "HOL-Library.Multiset"
begin

text \<open>
  The correctness of the agent's rules: validation gives a canonical form that does not depend on the
  order of the rules, snapshots of it verify, platform rules are always present, the bindings of
  validated rules always apply to a tool policy, and the selection for a turn is the greedy one within
  the token budget.
\<close>

section \<open>Validation\<close>

text \<open>What \<^verbatim>\<open>check_rule\<close> accepts, apart from repeated identifiers.\<close>

definition rule_ok :: "go_lib \<Rightarrow> rules_lib \<Rightarrow> rule \<Rightarrow> bool" where
  "rule_ok lib dec rule \<longleftrightarrow> check_rule lib dec [] rule = None"

lemma check_rule_iff: "check_rule lib dec seen rule = None \<longleftrightarrow> rule_ok lib dec rule \<and> ru_ID rule \<notin> set seen"
  by (simp add: rule_ok_def check_rule_def Let_def)

lemma check_rules_result: "check_rules lib dec seen items = Inr rs \<Longrightarrow> rs = map trim_rule items"
  by (induction items arbitrary: seen rs) (auto simp: Let_def split: option.splits sum.splits)

lemma check_rules_ok:
  "(\<exists>rs. check_rules lib dec seen items = Inr rs) \<longleftrightarrow>
     list_all (rule_ok lib dec) (map trim_rule items) \<and> distinct (map (ru_ID \<circ> trim_rule) items) \<and>
     (ru_ID \<circ> trim_rule) ` set items \<inter> set seen = {}"
proof (induction items arbitrary: seen)
  case (Cons input items)
  let ?r = "trim_rule input"
  have "(\<exists>rs. check_rules lib dec seen (input # items) = Inr rs) \<longleftrightarrow>
      check_rule lib dec seen ?r = None \<and> (\<exists>rs. check_rules lib dec (ru_ID ?r # seen) items = Inr rs)"
    by (auto simp: Let_def split: option.splits sum.splits)
  also have "\<dots> \<longleftrightarrow> rule_ok lib dec ?r \<and> ru_ID ?r \<notin> set seen \<and>
      list_all (rule_ok lib dec) (map trim_rule items) \<and> distinct (map (ru_ID \<circ> trim_rule) items) \<and>
      (ru_ID \<circ> trim_rule) ` set items \<inter> set (ru_ID ?r # seen) = {}"
    unfolding Cons.IH check_rule_iff by blast
  finally show ?case by (auto simp: comp_def simp del: check_rules.simps)
qed simp

lemma check_rules_iff:
  "check_rules lib dec seen items = Inr rs \<longleftrightarrow>
     rs = map trim_rule items \<and> list_all (rule_ok lib dec) rs \<and> distinct (map ru_ID rs) \<and> set (map ru_ID rs) \<inter> set seen = {}"
proof -
  have "check_rules lib dec seen items = Inr rs \<longleftrightarrow> rs = map trim_rule items \<and> (\<exists>rs. check_rules lib dec seen items = Inr rs)"
    by (metis check_rules_result)
  then show ?thesis unfolding check_rules_ok by (simp add: image_image comp_def cong: conj_cong)
qed

lemma validateRules_iff:
  "validateRules lib dec items = Inr rs \<longleftrightarrow>
     rs = sort_key ru_ID (map trim_rule items) \<and> list_all (rule_ok lib dec) rs \<and> distinct (map ru_ID rs)"
proof -
  have "mset (map ru_ID (sort_key ru_ID xs)) = mset (map ru_ID xs)" for xs :: "rule list" by simp
  then have d: "distinct (map ru_ID (sort_key ru_ID xs)) = distinct (map ru_ID xs)" for xs :: "rule list"
    by (metis mset_eq_imp_distinct_iff)
  show ?thesis
  proof (cases "check_rules lib dec [] items")
    case (Inl e)
    have "\<not> (list_all (rule_ok lib dec) (map trim_rule items) \<and> distinct (map ru_ID (map trim_rule items)))"
      using check_rules_iff [of lib dec "[]" items "map trim_rule items"] Inl by auto
    with Inl show ?thesis using d [of "map trim_rule items"] by (auto simp: validateRules_def list_all_iff)
  next
    case (Inr xs)
    with check_rules_iff [of lib dec "[]" items xs] show ?thesis
      using d [of xs] by (auto simp: validateRules_def list_all_iff)
  qed
qed

lemma trim_rule_idem [simp]: "trim_rule (trim_rule r) = trim_rule r"
  by (simp add: trim_rule_def)

lemma sort_key_distinct_eq:
  assumes "mset xs = mset ys" "distinct (map f xs)"
  shows "sort_key f xs = sort_key f ys"
  using assms by (intro sort_key_inj_key_eq) (simp_all add: distinct_map)

lemma validated_trimmed: "validateRules lib dec items = Inr rs \<Longrightarrow> map trim_rule rs = rs"
  unfolding validateRules_iff by (intro map_idI) auto

lemma validateRules_idem: "validateRules lib dec items = Inr rs \<Longrightarrow> validateRules lib dec rs = Inr rs"
  using validated_trimmed [of lib dec items rs]
  by (auto simp: validateRules_iff intro!: sort_key_id_if_sorted [symmetric])

lemma validateRules_perm:
  assumes "validateRules lib dec items = Inr rs" "mset items' = mset items"
  shows "validateRules lib dec items' = Inr rs"
proof -
  have m: "mset (map trim_rule items) = mset (map trim_rule items')" using assms(2) by simp
  have "distinct (map ru_ID (map trim_rule items))"
    using assms(1) unfolding validateRules_iff by (metis mset_eq_imp_distinct_iff mset_map mset_sort)
  with m have "sort_key ru_ID (map trim_rule items) = sort_key ru_ID (map trim_rule items')"
    by (rule sort_key_distinct_eq)
  with assms(1) show ?thesis unfolding validateRules_iff by metis
qed

text \<open>validation is canonical: what it returns are exactly the given rules, trimmed, strictly ordered by
  their distinct identifiers, each with content and a known strength; validating the result again
  changes nothing, and any reordering of the rules validates to the same list.\<close>

theorem validation_canonical:
  assumes "validateRules lib dec items = Inr rs" "mset items' = mset items"
  shows "mset rs = mset (map trim_rule items) \<and> sorted_wrt (<) (map ru_ID rs) \<and>
    (\<forall>r\<in>set rs. ruleIDPattern (ru_ID r) \<and> ru_Content r \<noteq> [] \<and> length (ru_Content r) \<le> maxRuleContentBytes \<and>
       (ru_Strength r = RuleMandatory \<or> ru_Strength r = RuleOptional \<and> hasActivation (ru_Activation r)) \<and>
       (ru_SafetyCritical r \<longrightarrow> ru_PolicyBinding r \<noteq> None)) \<and>
    validateRules lib dec rs = Inr rs \<and> validateRules lib dec items' = Inr rs"
proof -
  have v: "rs = sort_key ru_ID (map trim_rule items)" "list_all (rule_ok lib dec) rs" "distinct (map ru_ID rs)"
    using assms(1) unfolding validateRules_iff by auto
  have "mset rs = mset (map trim_rule items)" by (simp add: v(1))
  moreover have "sorted_wrt (<) (map ru_ID rs)"
    using v(3) unfolding v(1) strict_sorted_iff by (metis sorted_sort_key)
  moreover have "ruleIDPattern (ru_ID r) \<and> ru_Content r \<noteq> [] \<and> length (ru_Content r) \<le> maxRuleContentBytes \<and>
       (ru_Strength r = RuleMandatory \<or> ru_Strength r = RuleOptional \<and> hasActivation (ru_Activation r)) \<and>
       (ru_SafetyCritical r \<longrightarrow> ru_PolicyBinding r \<noteq> None)" if "r \<in> set rs" for r
  proof -
    from that v(2) have "check_rule lib dec [] r = None" by (simp add: list_all_iff rule_ok_def)
    then show ?thesis
      by (auto simp: check_rule_def validatePolicyBinding_def Let_def split: if_splits option.splits)
  qed
  ultimately show ?thesis using validateRules_idem [OF assms(1)] validateRules_perm [OF assms] by blast
qed

section \<open>Snapshots and the platform's rules\<close>

lemma ValidateRules_eq: "ValidateRules lib dec items = Inr rs \<Longrightarrow> validateRules lib dec items = Inr rs"
  by (simp add: ValidateRules_def split: if_splits option.splits)

lemma ValidateRules_unreserved:
  assumes "ValidateRules lib dec items = Inr rs" "r \<in> set rs"
  shows "ru_ID r \<notin> set reserved_ids"
proof -
  have "find (\<lambda>r. TrimSpace (ru_ID r) \<in> set reserved_ids) items = None"
    using assms(1) by (simp add: ValidateRules_def split: if_splits option.splits)
  then have none: "\<And>i. i \<in> set items \<Longrightarrow> TrimSpace (ru_ID i) \<notin> set reserved_ids"
    by (simp add: find_None_iff)
  have "set rs = trim_rule ` set items"
    using ValidateRules_eq [OF assms(1)] by (simp add: validateRules_iff)
  with assms(2) none show ?thesis by (auto simp: trim_rule_def)
qed

text \<open>a snapshot taken of valid rules verifies, and its hash is the hash of the same rules in any order.\<close>

theorem snapshot_roundtrip:
  assumes "NewSnapshot lib dec items = Inr s" "TrimSpace (sn_Hash s) = sn_Hash s" "sn_Hash s \<noteq> []"
    "mset items' = mset items"
  shows "VerifySnapshot lib dec (Some s) = None \<and> HashLoadedRules lib dec items' = Inr (sn_Hash s)"
proof -
  obtain rs h where rs: "ValidateRules lib dec items = Inr rs" "s = \<lparr>sn_Hash = h, sn_Rules = rs\<rparr>"
    "hashSnapshot lib dec \<lparr>sn_Hash = [], sn_Rules = rs\<rparr> = Inr h"
    using assms(1) by (auto simp: NewSnapshot_def split: sum.splits)
  note v = ValidateRules_eq [OF rs(1)]
  have "hashSnapshot lib dec s = Inr h" using rs(2,3) by (simp add: hashSnapshot_def)
  then have "VerifySnapshot lib dec (Some s) = None"
    using assms(2,3) rs(2) validateRules_idem [OF v] by (simp add: VerifySnapshot_def)
  moreover have "HashLoadedRules lib dec items' = Inr (sn_Hash s)"
    using validateRules_perm [OF v assms(4)] rs(2,3) by (simp add: HashLoadedRules_def ValidateLoadedRules_def)
  ultimately show ?thesis by simp
qed

definition plain_rule :: "rule \<Rightarrow> bool" where
  "plain_rule r \<longleftrightarrow> trim_rule r = r \<and> ruleIDPattern (ru_ID r) \<and> ru_Content r \<noteq> [] \<and> length (ru_Content r) \<le> maxRuleContentBytes \<and>
     (ru_Strength r = RuleMandatory \<or> ru_Strength r = RuleOptional \<and> hasActivation (ru_Activation r)) \<and>
     \<not> ru_SafetyCritical r \<and> ru_PolicyBinding r = None"

lemma plain_rule_ok: "plain_rule r \<Longrightarrow> rule_ok lib dec r \<and> trim_rule r = r"
  by (auto simp: plain_rule_def rule_ok_def check_rule_def validatePolicyBinding_def Let_def RuleMandatory_def RuleOptional_def)

lemma platform_rules_plain:
  "list_all plain_rule DefaultPlatformMandatoryRules" "list_all plain_rule DefaultFallbackOptionalRules"
  "distinct reserved_ids" "list_all (\<lambda>r. ru_Strength r = RuleMandatory) DefaultPlatformMandatoryRules"
  by code_simp+


text \<open>a run always gets the platform's rules: composing them with the agent's own rules succeeds exactly
  when these are valid, and the result holds every mandatory platform rule, the fallback rules when
  they are asked for, and the validated rules of the agent, and nothing else.\<close>

theorem runtime_rules_complete:
  "(case ValidateRules lib dec custom of
      Inl e \<Rightarrow> RuntimeRules lib dec custom fallback = Inl e
    | Inr validated \<Rightarrow> (\<exists>rs. RuntimeRules lib dec custom fallback = Inr rs \<and>
        mset rs = mset DefaultPlatformMandatoryRules + (if fallback then mset DefaultFallbackOptionalRules else {#}) + mset validated))"
proof (cases "ValidateRules lib dec custom")
  case (Inl e)
  then show ?thesis by (simp add: RuntimeRules_def)
next
  case (Inr validated)
  let ?platform = "DefaultPlatformMandatoryRules @ (if fallback then DefaultFallbackOptionalRules else [])"
  let ?items = "DefaultPlatformMandatoryRules @ (if fallback then DefaultFallbackOptionalRules else []) @ validated"
  note v = ValidateRules_eq [OF Inr] and valid = ValidateRules_eq [OF Inr, unfolded validateRules_iff]
  have plain: "rule_ok lib dec r \<and> trim_rule r = r" if "r \<in> set ?platform" for r
    using that platform_rules_plain(1,2) plain_rule_ok by (auto simp: list_all_iff split: if_splits)
  have own: "rule_ok lib dec r \<and> trim_rule r = r" if "r \<in> set validated" for r
    using that valid validated_trimmed [OF v] by (auto simp: list_all_iff map_idI dest: map_eq_conv [THEN iffD1, of _ _ id, simplified])
  have trimmed: "map trim_rule ?items = ?items"
    using plain own by (intro map_idI) auto
  have "distinct (map ru_ID ?platform)" "set (map ru_ID ?platform) \<subseteq> set reserved_ids"
    using platform_rules_plain(3) by (auto simp: reserved_ids_def split: if_splits)
  moreover have "distinct (map ru_ID validated)" using valid by blast
  moreover have "set (map ru_ID validated) \<inter> set reserved_ids = {}"
    using ValidateRules_unreserved [OF Inr] by auto
  ultimately have "distinct (map ru_ID ?platform @ map ru_ID validated)" unfolding distinct_append by blast
  then have d: "distinct (map ru_ID ?items)" by simp
  have "list_all (rule_ok lib dec) ?items" using plain own by (auto simp: list_all_iff)
  then have "check_rules lib dec [] ?items = Inr ?items"
    using d by (subst check_rules_iff) (simp add: trimmed del: map_append append_assoc)
  then have "RuntimeRules lib dec custom fallback = Inr (sort_key ru_ID ?items)"
    using Inr by (simp add: RuntimeRules_def validateRules_def)
  with Inr show ?thesis by auto
qed

section \<open>Bindings\<close>

lemmas policy_keys = PolicyDangerousArgumentsDeny_def PolicyRiskRequireApproval_def PolicyHostAllowlist_def PolicyExecutionLimits_def

text \<open>What the documentation of \<^verbatim>\<open>encoding/json\<close> says of the two decoders: a JSON object that decodes with
  unknown fields disallowed decodes without that restriction to the same value.\<close>

definition decoders_agree :: "go_lib \<Rightarrow> rules_lib \<Rightarrow> bool" where
  "decoders_agree lib dec \<longleftrightarrow> unmarshal_any lib ''{}'' = Inr (JObj []) \<and>
     (\<forall>raw obj. unmarshal_any lib raw = Inr (JObj obj) \<longrightarrow>
        (strict_empty dec raw = None \<longrightarrow> unmarshal_empty lib raw = None) \<and>
        (\<forall>k v. strict_strings dec k raw = Inr v \<longrightarrow> unmarshal_strings lib k raw = Inr v) \<and>
        (\<forall>k l v. strict_ints dec k l raw = Inr v \<longrightarrow> unmarshal_ints lib k l raw = Inr v))"

lemma valid_binding_applies:
  assumes "rule_ok lib dec r" "ru_PolicyBinding r = Some (key, params)" "decoders_agree lib dec"
  shows "\<exists>eff'. apply_binding lib eff \<lparr>pb_RuleID = i, pb_PolicyKey = key, pb_Params = params\<rparr> = Inr eff'"
proof -
  let ?raw = "if params = [] \<or> params = ''null'' then ''{}'' else params"
  have v: "validatePolicyBinding lib dec r = None"
    using assms(1) by (simp add: rule_ok_def check_rule_def Let_def split: if_splits)
  with assms(2) have key: "TrimSpace key \<in> {PolicyDangerousArgumentsDeny, PolicyRiskRequireApproval, PolicyHostAllowlist, PolicyExecutionLimits}"
    and typed: "validateTypedPolicyParams dec (TrimSpace key) params = None"
    and obj: "params \<noteq> [] \<and> params \<noteq> ''null'' \<longrightarrow> (\<exists>obj. unmarshal_any lib params = Inr (JObj obj))"
    by (auto simp: validatePolicyBinding_def Let_def split: if_splits sum.splits json.splits)
  have "\<exists>obj. unmarshal_any lib ?raw = Inr (JObj obj)" using obj assms(3) by (auto simp: decoders_agree_def)
  then have agree: "strict_empty dec ?raw = None \<Longrightarrow> unmarshal_empty lib ?raw = None"
    "\<And>k v. strict_strings dec k ?raw = Inr v \<Longrightarrow> unmarshal_strings lib k ?raw = Inr v"
    "\<And>k l v. strict_ints dec k l ?raw = Inr v \<Longrightarrow> unmarshal_ints lib k l ?raw = Inr v"
    using assms(3) unfolding decoders_agree_def by blast+
  from key consider "TrimSpace key = PolicyDangerousArgumentsDeny" | "TrimSpace key = PolicyRiskRequireApproval"
    | "TrimSpace key = PolicyHostAllowlist" | "TrimSpace key = PolicyExecutionLimits" by blast
  then show ?thesis
  proof cases
    case 1
    with typed have "unmarshal_empty lib ?raw = None"
      by (intro agree(1)) (simp add: validateTypedPolicyParams_def Let_def)
    with 1 show ?thesis by (auto simp: apply_binding_def Let_def split: if_splits)
  next
    case 2
    with typed obtain v where "strict_strings dec ''risk_levels'' ?raw = Inr v"
      unfolding validateTypedPolicyParams_def Let_def by (cases "strict_strings dec ''risk_levels'' ?raw") (simp_all add: policy_keys)
    from agree(2) [OF this] 2 show ?thesis by (auto simp: apply_binding_def Let_def policy_keys split: if_splits)
  next
    case 3
    with typed obtain v where "strict_strings dec ''allowed_hosts'' ?raw = Inr v"
      unfolding validateTypedPolicyParams_def Let_def by (cases "strict_strings dec ''allowed_hosts'' ?raw") (simp_all add: policy_keys)
    from agree(2) [OF this] 3 show ?thesis
      by (auto simp: apply_binding_def Let_def policy_keys split: prod.splits if_splits)
  next
    case 4
    with typed obtain v where "strict_ints dec ''max_tool_timeout_ms'' ''max_tool_output_bytes'' ?raw = Inr v"
      unfolding validateTypedPolicyParams_def Let_def
      by (cases "strict_ints dec ''max_tool_timeout_ms'' ''max_tool_output_bytes'' ?raw") (simp_all add: policy_keys)
    from agree(3) [OF this] 4 show ?thesis
      by (cases v) (auto simp: apply_binding_def Let_def policy_keys split: if_splits)
  qed
qed

lemma apply_bindings_all:
  assumes "\<And>b eff. b \<in> set bs \<Longrightarrow> \<exists>eff'. apply_binding lib eff b = Inr eff'"
  shows "\<exists>eff'. apply_bindings lib eff traces bs = (eff', traces @ map binding_trace bs, None)"
  using assms
proof (induction bs arbitrary: eff traces)
  case (Cons b bs)
  obtain eff1 where e: "apply_binding lib eff b = Inr eff1" using Cons.prems [of b] by auto
  obtain eff2 where "apply_bindings lib eff1 (traces @ [binding_trace b]) bs = (eff2, (traces @ [binding_trace b]) @ map binding_trace bs, None)"
    using Cons.IH [of eff1 "traces @ [binding_trace b]"] Cons.prems by auto
  then show ?case by (intro exI [of _ eff2]) (simp add: e)
qed simp

text \<open>the policy bindings of validated rules never fail when a tool is about to run: every one of them is
  applied to the tool policy and traced, and every safety-critical rule is among them.\<close>

theorem validated_bindings_apply:
  assumes "validateRules lib dec items = Inr rs" "decoders_agree lib dec"
    "tp_RuleBindings policy = PolicyBindingsForRules rs"
  shows "\<exists>eff traces. applyRuleBindings lib policy = (eff, traces, None) \<and>
    map ht_RuleID traces = map pb_RuleID (PolicyBindingsForRules rs) \<and>
    (\<forall>r\<in>set rs. ru_SafetyCritical r \<longrightarrow> ru_ID r \<in> set (map ht_RuleID traces))"
proof -
  have ok: "rule_ok lib dec r" if "r \<in> set rs" for r
    using assms(1) that by (auto simp: validateRules_iff list_all_iff)
  have bindings: "\<exists>eff'. apply_binding lib eff b = Inr eff'" if "b \<in> set (PolicyBindingsForRules rs)" for b eff
  proof -
    from that obtain r key params where r: "r \<in> set rs" "ru_PolicyBinding r = Some (key, params)"
      "b = \<lparr>pb_RuleID = ru_ID r, pb_PolicyKey = key, pb_Params = params\<rparr>"
      by (auto simp: PolicyBindingsForRules_def split: option.splits if_splits)
    show ?thesis unfolding r(3) by (rule valid_binding_applies [OF ok [OF r(1)] r(2) assms(2)])
  qed
  have "\<exists>eff'. apply_bindings lib (policy\<lparr>tp_RuleBindings := []\<rparr>) [] (PolicyBindingsForRules rs) =
      (eff', [] @ map binding_trace (PolicyBindingsForRules rs), None)"
    using bindings by (rule apply_bindings_all)
  then obtain eff' where ap: "applyRuleBindings lib policy = (eff', map binding_trace (PolicyBindingsForRules rs), None)"
    using assms(3) by (auto simp: applyRuleBindings_def)
  have "ru_ID r \<in> set (map pb_RuleID (PolicyBindingsForRules rs))" if r: "r \<in> set rs" "ru_SafetyCritical r" for r
  proof -
    have "validatePolicyBinding lib dec r = None"
      using ok [OF r(1)] by (simp add: rule_ok_def check_rule_def Let_def split: if_splits)
    with r(2) obtain key params where "ru_PolicyBinding r = Some (key, params)" "ru_Strength r = RuleMandatory"
      by (auto simp: validatePolicyBinding_def Let_def split: option.splits if_splits)
    with r(1) show ?thesis by (force simp: PolicyBindingsForRules_def)
  qed
  moreover have "map ht_RuleID (map binding_trace bs) = map pb_RuleID bs" for bs
    by (simp add: binding_trace_def mk_trace_def)
  ultimately show ?thesis using ap by metis
qed

section \<open>Selection\<close>

definition wanted :: "go_lib \<Rightarrow> load_context \<Rightarrow> rule list \<Rightarrow> rule list" where
  "wanted lib ctx items = filter (\<lambda>r. ru_Strength r = RuleOptional \<and> matches lib r ctx) items"

lemma skip_fields [simp]:
  "rt_Skipped (skip t i reason) = rt_Skipped t @ [i]" "rt_Loaded (skip t i reason) = rt_Loaded t"
  "rt_EstimatedUsed (skip t i reason) = rt_EstimatedUsed t"
  by (simp_all add: skip_def Let_def)

lemma candidates_eq:
  "candidates lib ctx trace items = (cs, trace') \<Longrightarrow>
     cs = map (\<lambda>r. (r, candidate_cost ctx r)) (wanted lib ctx items) \<and>
     rt_Loaded trace' = rt_Loaded trace \<and> rt_EstimatedUsed trace' = rt_EstimatedUsed trace \<and>
     rt_Skipped trace' = rt_Skipped trace @ map ru_ID (filter (\<lambda>r. ru_Strength r = RuleOptional \<and> \<not> matches lib r ctx) items)"
  by (induction items arbitrary: trace cs trace') (auto simp: wanted_def Let_def split: if_splits prod.splits)

lemma mset_nths_compl: "mset (nths xs I) + mset (nths xs (- I)) = mset xs"
proof (induction xs arbitrary: I)
  case (Cons x xs)
  have "{j. Suc j \<in> - I} = - {j. Suc j \<in> I}" by auto
  then show ?case using Cons.IH [of "{j. Suc j \<in> I}"] by (simp add: nths_Cons)
qed simp

lemma mset_filter_split:
  "mset (filter (\<lambda>x. P x \<and> Q x) xs) + mset (filter (\<lambda>x. P x \<and> \<not> Q x) xs) = mset (filter P xs)"
  by (induction xs) auto

definition spent :: "(rule \<times> int) list \<Rightarrow> int" where
  "spent cs = (\<Sum>c\<leftarrow>cs. snd c)"

lemma load_candidates_greedy:
  "load_candidates budget loaded trace cs = (loaded', trace') \<Longrightarrow>
     \<exists>I. loaded' = loaded @ map fst (nths cs I) \<and> rt_Loaded trace' = rt_Loaded trace @ map ru_ID (map fst (nths cs I)) \<and>
       rt_EstimatedUsed trace' = rt_EstimatedUsed trace + spent (nths cs I) \<and>
       rt_Skipped trace' = rt_Skipped trace @ map ru_ID (map fst (nths cs (- I))) \<and>
       (\<forall>i<length cs. i \<in> I \<longleftrightarrow>
          0 < budget \<and> rt_EstimatedUsed trace + spent (nths (take i cs) I) + snd (cs ! i) \<le> budget)"
proof (induction cs arbitrary: loaded trace)
  case Nil
  then show ?case by (intro exI [of _ "{}"]) (simp add: spent_def)
next
  case (Cons c cs)
  obtain rule cost where c: "c = (rule, cost)" by fastforce
  define fits where "fits \<longleftrightarrow> 0 < budget \<and> rt_EstimatedUsed trace + cost \<le> budget"
  define trace1 where "trace1 = (if fits then trace\<lparr>rt_Loaded := rt_Loaded trace @ [ru_ID rule],
      rt_EstimatedUsed := rt_EstimatedUsed trace + cost\<rparr> else skip trace (ru_ID rule) ReasonTokenBudgetExceeded)"
  have "load_candidates budget (if fits then loaded @ [rule] else loaded) trace1 cs = (loaded', trace')"
    using Cons.prems by (auto simp: c fits_def trace1_def split: if_splits)
  from Cons.IH [OF this] obtain I where I:
    "loaded' = (if fits then loaded @ [rule] else loaded) @ map fst (nths cs I)"
    "rt_Loaded trace' = rt_Loaded trace1 @ map ru_ID (map fst (nths cs I))"
    "rt_EstimatedUsed trace' = rt_EstimatedUsed trace1 + spent (nths cs I)"
    "rt_Skipped trace' = rt_Skipped trace1 @ map ru_ID (map fst (nths cs (- I)))"
    "\<forall>i<length cs. i \<in> I \<longleftrightarrow> 0 < budget \<and> rt_EstimatedUsed trace1 + spent (nths (take i cs) I) + snd (cs ! i) \<le> budget"
    by blast
  define J where "J = {j. j = 0 \<and> fits \<or> (\<exists>i\<in>I. j = Suc i)}"
  have J: "0 \<in> J \<longleftrightarrow> fits" "{j. Suc j \<in> J} = I" "{j. Suc j \<in> - J} = - I" "0 \<in> - J \<longleftrightarrow> \<not> fits" by (auto simp: J_def)
  have nths: "nths (c # xs) J = (if fits then [c] else []) @ nths xs I" "nths (c # xs) (- J) = (if fits then [] else [c]) @ nths xs (- I)" for xs
    unfolding nths_Cons J by simp_all
  note nths' = nths [unfolded c]
  have "i \<in> J \<longleftrightarrow> 0 < budget \<and> rt_EstimatedUsed trace + spent (nths (take i (c # cs)) J) + snd ((c # cs) ! i) \<le> budget"
    if "i < length (c # cs)" for i
  proof (cases i)
    case 0
    then show ?thesis using J(1) by (simp add: fits_def c spent_def)
  next
    case (Suc k)
    have "i \<in> J \<longleftrightarrow> k \<in> I" using J(2) Suc by blast
    moreover have "spent (nths (take i (c # cs)) J) = (if fits then cost else 0) + spent (nths (take k cs) I)"
      using Suc nths'(1) [of "take k cs"] by (simp add: spent_def c)
    moreover have "rt_EstimatedUsed trace1 = rt_EstimatedUsed trace + (if fits then cost else 0)"
      by (simp add: trace1_def)
    ultimately show ?thesis using that I(5) Suc by (simp add: add.assoc)
  qed
  then show ?case
    using I(1-4) by (intro exI [of _ J]) (simp add: nths' trace1_def c spent_def)
qed

text \<open>the optional rules of a turn are the greedy choice among the optional rules whose activation matches,
  taken in order of priority, then cost, then identifier: a rule is loaded exactly when it still fits
  the token budget after those loaded before it. The cost used is that of the loaded rules and never
  exceeds the budget, and every optional rule is either loaded or reported as skipped.\<close>

theorem selection_greedy:
  "let (loaded, trace) = SelectOptionalRules lib items ctx;
       order = sort_key candidate_order (map (\<lambda>r. (r, candidate_cost ctx r)) (wanted lib ctx items))
   in \<exists>I. loaded = map fst (nths order I) \<and> rt_Loaded trace = map ru_ID loaded \<and>
        rt_EstimatedUsed trace = spent (nths order I) \<and> rt_EstimatedUsed trace \<le> max 0 (lc_TokenBudget ctx) \<and>
        list_all (\<lambda>i. i \<in> I \<longleftrightarrow> 0 < lc_TokenBudget ctx \<and>
          spent (nths (take i order) I) + snd (order ! i) \<le> lc_TokenBudget ctx) [0..<length order] \<and>
        mset (rt_Loaded trace @ rt_Skipped trace) = mset (map ru_ID (filter (\<lambda>r. ru_Strength r = RuleOptional) items))"
proof -
  let ?start = "no_trace\<lparr>rt_TokenBudget := lc_TokenBudget ctx, rt_OptionalBudget := lc_TokenBudget ctx\<rparr>"
  let ?cs = "map (\<lambda>r. (r, candidate_cost ctx r)) (wanted lib ctx items)"
  let ?skipped = "filter (\<lambda>r. ru_Strength r = RuleOptional \<and> \<not> matches lib r ctx) items"
  obtain cs trace0 where c: "candidates lib ctx ?start items = (cs, trace0)" by fastforce
  note c' = candidates_eq [OF c]
  have cs: "cs = ?cs" and t0: "rt_Loaded trace0 = []" "rt_EstimatedUsed trace0 = 0" "rt_Skipped trace0 = map ru_ID ?skipped"
    using c' by (simp_all add: no_trace_def)
  define order where "order = sort_key candidate_order ?cs"
  obtain loaded trace where l: "load_candidates (lc_TokenBudget ctx) [] trace0 order = (loaded, trace)" by fastforce
  have sel: "SelectOptionalRules lib items ctx = (loaded, trace)"
    using l by (simp add: SelectOptionalRules_def c cs order_def)
  from load_candidates_greedy [OF l] t0 obtain I where I: "loaded = map fst (nths order I)"
    "rt_Loaded trace = map ru_ID (map fst (nths order I))" "rt_EstimatedUsed trace = spent (nths order I)"
    "rt_Skipped trace = map ru_ID ?skipped @ map ru_ID (map fst (nths order (- I)))"
    "\<forall>i<length order. i \<in> I \<longleftrightarrow> 0 < lc_TokenBudget ctx \<and> spent (nths (take i order) I) + snd (order ! i) \<le> lc_TokenBudget ctx"
    by auto
  have within: "spent (nths (take n order) I) \<le> max 0 (lc_TokenBudget ctx)" if "n \<le> length order" for n
    using that
  proof (induction n)
    case (Suc n)
    have "nths (take (Suc n) order) I = nths (take n order) I @ (if n \<in> I then [order ! n] else [])"
      using Suc.prems by (simp add: take_Suc_conv_app_nth nths_append nths_singleton)
    then show ?case using Suc I(5) by (auto simp: spent_def)
  qed (simp add: spent_def)
  have "mset (nths order I) + mset (nths order (- I)) = mset order" by (rule mset_nths_compl)
  then have "mset (map fst (nths order I)) + mset (map fst (nths order (- I))) = mset (wanted lib ctx items)"
    by (simp add: order_def image_mset_union [symmetric] multiset.map_comp comp_def)
  then have "mset (map fst (nths order I)) + mset (map fst (nths order (- I))) + mset ?skipped
      = mset (filter (\<lambda>r. ru_Strength r = RuleOptional) items)"
    using mset_filter_split [of "\<lambda>r. ru_Strength r = RuleOptional" "\<lambda>r. matches lib r ctx" items] by (simp add: wanted_def)
  from arg_cong [OF this, of "image_mset ru_ID"]
  have "mset (rt_Loaded trace @ rt_Skipped trace) = mset (map ru_ID (filter (\<lambda>r. ru_Strength r = RuleOptional) items))"
    unfolding I(2,4) mset_append mset_map image_mset_union by (simp only: ac_simps)
  with I within [of "length order"] show ?thesis
    unfolding sel order_def [symmetric] Let_def by (auto simp: list_all_iff intro!: exI [of _ I])
qed

section \<open>Examples\<close>

definition sample_dec :: rules_lib where
  "sample_dec = \<lparr>strict_empty = (\<lambda>s. None), strict_strings = (\<lambda>k s. Inr [''api'']), strict_ints = (\<lambda>k l s. Inr (500, 0)),
     marshal_rules = (\<lambda>rs. Inr ''rules'')\<rparr>"

definition sample_rules :: "rule list" where
  "sample_rules =
     [(platform_rule ''limits'' ''Limits'' RuleMandatory 10 '' Keep tools short. '' no_activation)
        \<lparr>ru_SafetyCritical := True, ru_PolicyBinding := Some (PolicyExecutionLimits, [])\<rparr>,
      platform_rule ''brief'' ''Brief'' RuleOptional 5 ''Be brief.'' (no_activation\<lparr>ac_Always := True\<rparr>)]"

definition sample_valid :: "rule list" where
  "sample_valid =
     [platform_rule ''brief'' ''Brief'' RuleOptional 5 ''Be brief.'' (no_activation\<lparr>ac_Always := True\<rparr>),
      (platform_rule ''limits'' ''Limits'' RuleMandatory 10 ''Keep tools short.'' no_activation)
        \<lparr>ru_SafetyCritical := True, ru_PolicyBinding := Some (PolicyExecutionLimits, [])\<rparr>]"

definition sample_snapshot :: rule_snapshot where
  "sample_snapshot = \<lparr>sn_Hash = replicate 64 (CHR ''0''), sn_Rules = sample_valid\<rparr>"

lemma sample_validates: "validateRules sample_lib sample_dec sample_rules = Inr sample_valid"
  by code_simp

lemma sample_snapshot_taken: "NewSnapshot sample_lib sample_dec sample_rules = Inr sample_snapshot"
  "TrimSpace (sn_Hash sample_snapshot) = sn_Hash sample_snapshot" "sn_Hash sample_snapshot \<noteq> []"
  by code_simp+

lemma sample_decoders: "decoders_agree sample_lib sample_dec"
  by (simp add: decoders_agree_def sample_lib_def sample_dec_def)

theorem validation_canonical_witness:
  "mset sample_valid = mset (map trim_rule sample_rules) \<and> sorted_wrt (<) (map ru_ID sample_valid) \<and>
   validateRules sample_lib sample_dec (rev sample_rules) = Inr sample_valid"
  using validation_canonical [OF sample_validates, of "rev sample_rules"] by simp

theorem snapshot_roundtrip_witness:
  "VerifySnapshot sample_lib sample_dec (Some sample_snapshot) = None \<and>
   HashLoadedRules sample_lib sample_dec (rev sample_rules) = Inr (sn_Hash sample_snapshot)"
  using snapshot_roundtrip [OF sample_snapshot_taken, of "rev sample_rules"] by simp

theorem validated_bindings_apply_witness:
  "\<exists>eff traces. applyRuleBindings sample_lib (sample_policy\<lparr>tp_RuleBindings := PolicyBindingsForRules sample_valid\<rparr>) = (eff, traces, None) \<and>
     map ht_RuleID traces = map pb_RuleID (PolicyBindingsForRules sample_valid)"
  using validated_bindings_apply [OF sample_validates sample_decoders,
      of "sample_policy\<lparr>tp_RuleBindings := PolicyBindingsForRules sample_valid\<rparr>"] by auto

end
