(* ===== verification/Agent_Request.thy ===== *)
theory Agent_Request
  imports Rules Compaction
begin

text \<open>
  The data of an agent run (\<^verbatim>\<open>internal/runtime/agent/types.go\<close>) beyond what a tool batch needs: the
  request, the context blocks, the traces, and the reflection policy and signals of
  \<^verbatim>\<open>internal/domain/reflection\<close>.

  A run request extends the record of the tool batch. Of a provider configuration only the type is
  read; the rest goes to the client unread and is left out. A \<^verbatim>\<open>float64\<close> constant is the exact value of
  the nearest double.
\<close>

section \<open>Reflection policy (domain/reflection)\<close>

definition RuntimeOff :: string where "RuntimeOff = ''off''"
definition RuntimeShadow :: string where "RuntimeShadow = ''shadow''"
definition RuntimeActive :: string where "RuntimeActive = ''active''"

record reflection_policy =
  rp_Enabled :: bool
  rp_RuntimeMode :: string
  rp_InlineOnHardFailure :: bool
  rp_TerminalAsync :: bool
  rp_MaxInlinePerRun :: int
  rp_RecallTopK :: int
  rp_RecallTokenBudget :: int
  rp_MinImportance :: rat
  rp_MinConfidence :: rat
  rp_AllowValidatedGlobalFallback :: bool
  rp_ReflectOnSuccess :: string
  rp_ProviderID :: int
  rp_Model :: string

definition DefaultPolicy :: reflection_policy where
  "DefaultPolicy = \<lparr>rp_Enabled = True, rp_RuntimeMode = RuntimeActive, rp_InlineOnHardFailure = True, rp_TerminalAsync = True,
     rp_MaxInlinePerRun = 2, rp_RecallTopK = 3, rp_RecallTokenBudget = 800,
     rp_MinImportance = 5854679515581645 / 9007199254740992, rp_MinConfidence = 3152519739159347 / 4503599627370496,
     rp_AllowValidatedGlobalFallback = True, rp_ReflectOnSuccess = ''external_or_novel'', rp_ProviderID = 0, rp_Model = []\<rparr>"

definition Policy_Normalize :: "reflection_policy \<Rightarrow> reflection_policy" where
  "Policy_Normalize p =
     (let d = DefaultPolicy; topK = (if rp_RecallTopK p \<le> 0 then rp_RecallTopK d else rp_RecallTopK p) in
      p\<lparr>rp_RuntimeMode := (if rp_RuntimeMode p = [] then rp_RuntimeMode d else rp_RuntimeMode p),
        rp_MaxInlinePerRun := (if rp_MaxInlinePerRun p < 0 then rp_MaxInlinePerRun d else rp_MaxInlinePerRun p),
        rp_RecallTopK := (if 10 < topK then 10 else topK),
        rp_RecallTokenBudget := (if rp_RecallTokenBudget p \<le> 0 then rp_RecallTokenBudget d else rp_RecallTokenBudget p),
        rp_MinImportance := (if rp_MinImportance p \<le> 0 \<or> 1 < rp_MinImportance p then rp_MinImportance d else rp_MinImportance p),
        rp_MinConfidence := (if rp_MinConfidence p \<le> 0 \<or> 1 < rp_MinConfidence p then rp_MinConfidence d else rp_MinConfidence p),
        rp_ReflectOnSuccess := (if rp_ReflectOnSuccess p = [] then rp_ReflectOnSuccess d else rp_ReflectOnSuccess p)\<rparr>)"

definition Policy_Active :: "reflection_policy \<Rightarrow> bool" where
  "Policy_Active p \<longleftrightarrow> rp_Enabled (Policy_Normalize p) \<and> rp_RuntimeMode (Policy_Normalize p) \<noteq> RuntimeOff"

definition Policy_Validate :: "reflection_policy \<Rightarrow> string option" where
  "Policy_Validate p =
     (if rp_RuntimeMode p \<notin> {[], RuntimeOff, RuntimeShadow, RuntimeActive} then Some ''runtime_mode must be off, shadow, or active''
      else if rp_MaxInlinePerRun p < 0 \<or> 10 < rp_MaxInlinePerRun p then Some ''max_inline_per_run must be 0..10''
      else if rp_RecallTopK p < 0 \<or> 10 < rp_RecallTopK p then Some ''recall_top_k must be 0..10''
      else if rp_RecallTokenBudget p < 0 \<or> 8000 < rp_RecallTokenBudget p then Some ''recall_token_budget must be 0..8000''
      else if rp_MinImportance p < 0 \<or> 1 < rp_MinImportance p then Some ''min_importance must be 0..1''
      else if rp_MinConfidence p < 0 \<or> 1 < rp_MinConfidence p then Some ''min_confidence must be 0..1''
      else if rp_ReflectOnSuccess p \<notin> {[], ''never'', ''external_or_novel'', ''always''}
      then Some ''reflect_on_success must be never, external_or_novel, or always''
      else if rp_ProviderID p < 0 then Some ''provider_id must be non-negative'' else None)"

definition SignalToolError :: string where "SignalToolError = ''tool_error''"
definition SignalToolDenied :: string where "SignalToolDenied = ''tool_denied''"
definition SignalToolNotFound :: string where "SignalToolNotFound = ''tool_not_found''"
definition SignalRepeatedNoProgress :: string where "SignalRepeatedNoProgress = ''repeated_no_progress''"
definition SignalSchemaFailure :: string where "SignalSchemaFailure = ''schema_failure''"

record reflection_signal =
  sg_Type :: string
  sg_StepIndex :: nat
  sg_Message :: string
  sg_Metadata :: json_object

section \<open>Context blocks and traces\<close>

record context_block =
  cb_Name :: string
  cb_Role :: string
  cb_Content :: string
  cb_Pinned :: bool

record block_trace =
  bt_Name :: string
  bt_Role :: string
  bt_Pinned :: bool
  bt_OriginalChars :: nat
  bt_IncludedChars :: nat
  bt_EstimatedTokens :: nat
  bt_SavedTokens :: int
  bt_Status :: string

record token_audit =
  ta_System :: nat
  ta_Profile :: nat
  ta_RulesMandatory :: nat
  ta_RulesOptional :: nat
  ta_ToolSchema :: nat
  ta_History :: nat
  ta_Memory :: nat
  ta_ReflectionMemory :: nat
  ta_Retrieval :: nat
  ta_Task :: nat
  ta_Total :: nat

record rule_budget =
  rb_ContextWindowTokens :: int
  rb_ReservedOutputTokens :: int
  rb_SafetyMarginTokens :: int
  rb_InputBudgetTokens :: int
  rb_FixedTokens :: int
  rb_ToolSchemaTokens :: int
  rb_TranscriptTokens :: int
  rb_AvailableRuleTokens :: int

record rule_round =
  rn_Iteration :: int
  rn_Loaded :: "string list"
  rn_Removed :: "string list"
  rn_Trace :: rule_trace
  rn_Budget :: rule_budget
  rn_EstimatedPromptTokens :: int
  rn_ProviderPromptTokens :: int

record compaction_trace =
  tr_Trigger :: string
  tr_Scope :: string
  tr_Status :: string
  tr_BeforeTokens :: int
  tr_AfterTokens :: int
  tr_SavedTokens :: int
  tr_Threshold :: int
  tr_ModelCalled :: bool
  tr_Error :: string
  tr_Summary :: string

record context_trace =
  cx_MaxChars :: int
  cx_MaxInputTokens :: int
  cx_UsedChars :: nat
  cx_UsedTokens :: nat
  cx_EstimatedTokens :: nat
  cx_SavedTokens :: int
  cx_TokenAudit :: token_audit
  cx_RuleTrace :: rule_trace
  cx_Included :: "string list"
  cx_Omitted :: "string list"
  cx_Truncated :: "string list"
  cx_Compressed :: "string list"
  cx_Strategy :: string
  cx_Blocks :: "block_trace list"
  cx_RuleRounds :: "rule_round list"
  cx_RuleBudget :: rule_budget
  cx_RuleHash :: string
  cx_CoreOverflow :: bool
  cx_MandatoryTokens :: int
  cx_MandatoryBudgetTokens :: int
  cx_MandatoryDeficitTokens :: int
  cx_EstimatedPromptTokens :: int
  cx_ProviderPromptTokens :: int
  cx_TokenEstimationError :: int
  cx_TokenCounterMethod :: string
  cx_TokenCounterError :: string
  cx_AutoCompactTokenLimit :: int
  cx_AutoCompactLimitScope :: string
  cx_Compactions :: "compaction_trace list"

definition no_audit :: token_audit where
  "no_audit = \<lparr>ta_System = 0, ta_Profile = 0, ta_RulesMandatory = 0, ta_RulesOptional = 0, ta_ToolSchema = 0, ta_History = 0,
     ta_Memory = 0, ta_ReflectionMemory = 0, ta_Retrieval = 0, ta_Task = 0, ta_Total = 0\<rparr>"

definition no_budget :: rule_budget where
  "no_budget = \<lparr>rb_ContextWindowTokens = 0, rb_ReservedOutputTokens = 0, rb_SafetyMarginTokens = 0, rb_InputBudgetTokens = 0,
     rb_FixedTokens = 0, rb_ToolSchemaTokens = 0, rb_TranscriptTokens = 0, rb_AvailableRuleTokens = 0\<rparr>"

definition no_context :: context_trace where
  "no_context = \<lparr>cx_MaxChars = 0, cx_MaxInputTokens = 0, cx_UsedChars = 0, cx_UsedTokens = 0, cx_EstimatedTokens = 0,
     cx_SavedTokens = 0, cx_TokenAudit = no_audit, cx_RuleTrace = no_trace, cx_Included = [], cx_Omitted = [], cx_Truncated = [],
     cx_Compressed = [], cx_Strategy = [], cx_Blocks = [], cx_RuleRounds = [], cx_RuleBudget = no_budget, cx_RuleHash = [],
     cx_CoreOverflow = False, cx_MandatoryTokens = 0, cx_MandatoryBudgetTokens = 0, cx_MandatoryDeficitTokens = 0,
     cx_EstimatedPromptTokens = 0, cx_ProviderPromptTokens = 0, cx_TokenEstimationError = 0, cx_TokenCounterMethod = [],
     cx_TokenCounterError = [], cx_AutoCompactTokenLimit = 0, cx_AutoCompactLimitScope = [], cx_Compactions = []\<rparr>"

section \<open>The request\<close>

record run_carry =
  cy_Context :: context_trace
  cy_Rules :: "rule list"
  cy_ReflectionPolicy :: reflection_policy

record agent_request = "run_carry run_request" +
  aq_OwnerID :: int
  aq_ConversationID :: "int option"
  aq_ProviderType :: string
  aq_Model :: string
  aq_CompactionProviderType :: string
  aq_CompactionModel :: string
  aq_CompactionProviderID :: int
  aq_InitialUserMessageID :: int
  aq_Mode :: string
  aq_SystemPrompt :: string
  aq_Task :: string
  aq_EnforceContextPrecedence :: bool
  aq_ReflectionPolicy :: reflection_policy
  aq_MaxIterations :: int
  aq_MaxInputChars :: int
  aq_MaxInputTokens :: int
  aq_ContextWindowTokens :: int
  aq_ReservedOutputTokens :: int
  aq_ContextSafetyMarginTokens :: int
  aq_ModelAutoCompactTokenLimit :: int
  aq_ModelAutoCompactTokenLimitScope :: string
  aq_CompactPrompt :: string
  aq_TokenBudgetCompaction :: bool
  aq_RetainClientDeveloperMessages :: bool
  aq_MaxRuleTokens :: int
  aq_RuleTags :: "string list"
  aq_RuleRiskLevel :: string
  aq_Rules :: "rule list option"
  aq_RuleTrace :: rule_trace
  aq_ContextBlocks :: "context_block list"
  aq_ToolHookChain :: hook_chain
  aq_HasMessageSink :: bool
  aq_ResumeMessages :: "chat_message list"
  aq_ResumeBaseMessages :: "chat_message list"
  aq_ResumeTranscript :: "chat_message list"
  aq_ResumePersistedMessageCount :: int
  aq_ResumeTranscriptCursor :: int
  aq_ResumeSteps :: "run_step list"
  aq_ResumeContext :: context_trace
  aq_ResumeIteration :: int
  aq_ResumeToolCalls :: int
  aq_ResumeApprovedToolCallIDs :: "string list"

definition RoleDeveloper :: string where "RoleDeveloper = ''developer''"

definition defaultMaxInputChars :: int where "defaultMaxInputChars = 24000"
definition defaultMaxInputTokens :: int where "defaultMaxInputTokens = defaultMaxInputChars div 4"

end
