(* ===== verification/Context_Assembler.thy ===== *)
theory Context_Assembler
  imports Agent_Request
begin

text \<open>
  The initial context of a run (\<^verbatim>\<open>internal/runtime/agent/context_assembler.go\<close>): the context blocks are
  deduplicated, put in order and fitted into a budget of bytes and tokens, with the task last.
\<close>

section \<open>Estimates and categories\<close>

definition estimateContextTokens :: "string \<Rightarrow> nat" where
  "estimateContextTokens content =
     (if content = [] then 0
      else let rs = runes content; ascii = ascii_runes rs; estimate = (length rs - ascii) + ascii div 4
        in if estimate \<le> 0 then 1 else estimate)"

definition tokenAuditCategory :: "go_lib \<Rightarrow> string \<Rightarrow> string" where
  "tokenAuditCategory lib name0 =
     (let name = ToLower lib (TrimSpace name0) in
      if name = ''system'' \<or> name = ''agent_mode'' then ''system''
      else if HasPrefix name ''rule_mandatory'' \<or> HasPrefix name ''rules_mandatory'' then ''rules_mandatory''
      else if HasPrefix name ''rule_optional'' \<or> HasPrefix name ''rules_optional'' then ''rules_optional''
      else if Contains name ''tool_schema'' then ''tool_schema''
      else if Contains name ''history'' \<or> Contains name ''conversation'' then ''history''
      else if Contains name ''skills'' then ''profile''
      else if Contains name ''reflection_memory'' then ''reflection_memory''
      else if Contains name ''memory'' then ''memory''
      else if Contains name ''retrieval'' \<or> Contains name ''knowledge'' \<or> Contains name ''citation'' then ''retrieval''
      else if name = ''task'' then ''task''
      else ''profile'')"

definition isMandatoryRuleBlock :: "go_lib \<Rightarrow> string \<Rightarrow> bool" where
  "isMandatoryRuleBlock lib name \<longleftrightarrow> tokenAuditCategory lib name = ''rules_mandatory''"

definition blockSortPriority :: "go_lib \<Rightarrow> string \<Rightarrow> nat" where
  "blockSortPriority lib name =
     (let c = tokenAuditCategory lib name in
      if c = ''system'' \<or> c = ''rules_mandatory'' \<or> c = ''rules_optional'' then 0
      else if c = ''tool_schema'' then 1
      else if c = ''memory'' then 2
      else if c = ''history'' then 3
      else if c = ''retrieval'' then 4
      else if c = ''task'' then 5
      else 3)"

definition hasAdvisoryContext :: "go_lib \<Rightarrow> context_block list \<Rightarrow> bool" where
  "hasAdvisoryContext lib blocks \<longleftrightarrow>
     list_ex (\<lambda>b. tokenAuditCategory lib (cb_Name b) \<in> {''history'', ''memory'', ''retrieval'', ''reflection_memory''} \<and>
       TrimSpace (cb_Content b) \<noteq> []) blocks"

definition TokenAudit_add :: "go_lib \<Rightarrow> token_audit \<Rightarrow> string \<Rightarrow> nat \<Rightarrow> token_audit" where
  "TokenAudit_add lib a name tokens =
     (let c = tokenAuditCategory lib name in
      if tokens \<le> 0 then a
      else if c = ''system'' then a\<lparr>ta_System := ta_System a + tokens\<rparr>
      else if c = ''rules_mandatory'' then a\<lparr>ta_RulesMandatory := ta_RulesMandatory a + tokens\<rparr>
      else if c = ''rules_optional'' then a\<lparr>ta_RulesOptional := ta_RulesOptional a + tokens\<rparr>
      else if c = ''tool_schema'' then a\<lparr>ta_ToolSchema := ta_ToolSchema a + tokens\<rparr>
      else if c = ''history'' then a\<lparr>ta_History := ta_History a + tokens\<rparr>
      else if c = ''memory'' then a\<lparr>ta_Memory := ta_Memory a + tokens\<rparr>
      else if c = ''reflection_memory'' then a\<lparr>ta_ReflectionMemory := ta_ReflectionMemory a + tokens\<rparr>
      else if c = ''retrieval'' then a\<lparr>ta_Retrieval := ta_Retrieval a + tokens\<rparr>
      else if c = ''task'' then a\<lparr>ta_Task := ta_Task a + tokens\<rparr>
      else a\<lparr>ta_Profile := ta_Profile a + tokens\<rparr>)"

section \<open>Truncation and deduplication\<close>

text \<open>The loop of \<^verbatim>\<open>truncateRunes\<close> writes runes while they fit.\<close>

fun take_runes :: "nat \<Rightarrow> rune list \<Rightarrow> string" where
  "take_runes room [] = []"
| "take_runes room (r # rs) = (if room < length r then [] else r @ take_runes (room - length r) rs)"

definition truncateRunes :: "string \<Rightarrow> int \<Rightarrow> string" where
  "truncateRunes content maxBytes =
     (if maxBytes \<le> 0 \<or> int (length content) \<le> maxBytes then content else take_runes (nat maxBytes) (runes content))"

definition duplicate_key :: "go_lib \<Rightarrow> context_block \<Rightarrow> string option" where
  "duplicate_key lib block =
     (let content = TrimSpace (cb_Content block); category = tokenAuditCategory lib (cb_Name block) in
      if content = [] \<or> (category \<noteq> ''retrieval'' \<and> category \<noteq> ''history'' \<and> category \<noteq> ''memory'') then None
      else Some (category @ [CHR 0x1F] @ ToLower lib (Join (Fields content) '' '')))"

definition block_name :: "context_block \<Rightarrow> string" where
  "block_name block = (if cb_Name block = [] then cb_Role block else cb_Name block)"

definition omitted_block :: "context_block \<Rightarrow> block_trace" where
  "omitted_block block =
     (let content = TrimSpace (cb_Content block) in
      \<lparr>bt_Name = block_name block, bt_Role = cb_Role block, bt_Pinned = False, bt_OriginalChars = length content,
       bt_IncludedChars = 0, bt_EstimatedTokens = 0, bt_SavedTokens = int (estimateContextTokens content), bt_Status = ''omitted''\<rparr>)"

fun dedupe_from :: "go_lib \<Rightarrow> string list \<Rightarrow> context_block list \<Rightarrow> context_block list \<times> block_trace list" where
  "dedupe_from lib seen [] = ([], [])"
| "dedupe_from lib seen (block # blocks) =
     (case duplicate_key lib block of
        None \<Rightarrow> (let (kept, tr) = dedupe_from lib seen blocks in (block # kept, tr))
      | Some key \<Rightarrow>
          if key \<in> set seen then (let (kept, tr) = dedupe_from lib seen blocks in (kept, omitted_block block # tr))
          else (let (kept, tr) = dedupe_from lib (key # seen) blocks in (block # kept, tr)))"

definition dedupeContextBlocks :: "go_lib \<Rightarrow> context_block list \<Rightarrow> context_block list \<times> block_trace list" where
  "dedupeContextBlocks lib blocks = dedupe_from lib [] blocks"

definition compressContextBlocks :: "go_lib \<Rightarrow> context_block list \<Rightarrow> context_block list \<times> block_trace list" where
  "compressContextBlocks lib blocks = dedupeContextBlocks lib blocks"

section \<open>Instructions\<close>

definition contextPrecedenceInstruction :: string where
  "contextPrecedenceInstruction =
     ''Context precedence: the current user request and the latest conversation messages are authoritative. Conversation '' @
     ''snapshots, durable memories, and search results are advisory and may be stale or contradictory. When they conflict, '' @
     ''follow the latest explicit user instruction and state uncertainty instead of silently merging incompatible facts.''"

definition planModeDeveloperPrompt :: string where
  "planModeDeveloperPrompt =
     ''# Plan Mode (Conversational)'' @
     [CHR 0x0A, CHR 0x0A] @
     ''You work in 3 phases, and you should chat your way to a great plan before finalizing it. A great plan is detailed '' @
     ''in intent and implementation, and can be handed to another engineer or agent to implement immediately. It must '' @
     ''be decision complete: the implementer should not need to make decisions.'' @
     [CHR 0x0A, CHR 0x0A] @
     ''## Mode rules (strict)'' @
     [CHR 0x0A, CHR 0x0A] @
     ''You are in Plan Mode until a developer message explicitly ends it. Plan Mode is not changed by user intent, tone, '' @
     ''or imperative language. If a user asks for execution while still in Plan Mode, treat it as a request to plan the '' @
     ''execution, not perform it.'' @
     [CHR 0x0A, CHR 0x0A] @
     ''## Plan Mode vs update_plan tool'' @
     [CHR 0x0A, CHR 0x0A] @
     ''Plan Mode is a collaboration mode that can involve requesting user input and eventually issuing a proposed_plan '' @
     ''block. Separately, update_plan is a checklist/progress/TODOs tool; it does not enter or exit Plan Mode. Do not '' @
     ''confuse update_plan with Plan Mode or try to use it while in Plan Mode. If you try to use update_plan in Plan '' @
     ''Mode, it returns an error.'' @
     [CHR 0x0A, CHR 0x0A] @
     ''## Execution vs mutation in Plan Mode'' @
     [CHR 0x0A, CHR 0x0A] @
     ''You may explore and execute non-mutating actions that improve the plan. You must not perform mutating actions.'' @
     [CHR 0x0A, CHR 0x0A] @
     ''Allowed actions include reading or searching files, configs, schemas, types, manifests, and docs; static analysis '' @
     ''and repo exploration; dry-run commands; and tests or builds that only write caches or build artifacts and do not '' @
     ''edit tracked state.'' @
     [CHR 0x0A, CHR 0x0A] @
     ''Forbidden actions include editing or writing files; applying patches or migrations; running formatters or code '' @
     ''generation that updates tracked files; and side-effectful commands whose purpose is to implement the plan. When '' @
     ''in doubt, if an action would be described as doing the work rather than planning it, do not do it.'' @
     [CHR 0x0A, CHR 0x0A] @
     ''## PHASE 1 '' @
     [CHR 0xE2, CHR 0x80, CHR 0x94] @
     '' Ground in the environment (explore first, ask second)'' @
     [CHR 0x0A, CHR 0x0A] @
     ''Begin by grounding yourself in the actual environment. Eliminate unknowns by discovering facts rather than asking. '' @
     ''Resolve questions through inspection of relevant entrypoints, configs, schemas, types, and docs. Before asking '' @
     ''any question, perform a targeted non-mutating exploration pass. Ask only when the answer cannot be derived from '' @
     ''the environment.'' @
     [CHR 0x0A, CHR 0x0A] @
     ''## PHASE 2 '' @
     [CHR 0xE2, CHR 0x80, CHR 0x94] @
     '' Intent chat (what they actually want)'' @
     [CHR 0x0A, CHR 0x0A] @
     ''Keep asking until you can clearly state the goal, success criteria, audience, in/out of scope, constraints, current '' @
     ''state, and key preferences or tradeoffs. Bias toward questions over guessing when a high-impact ambiguity remains.'' @
     [CHR 0x0A, CHR 0x0A] @
     ''## PHASE 3 '' @
     [CHR 0xE2, CHR 0x80, CHR 0x94] @
     '' Implementation chat (what/how we'' @
     [CHR 0xE2, CHR 0x80, CHR 0x99] @
     ''ll build)'' @
     [CHR 0x0A, CHR 0x0A] @
     ''Once intent is stable, keep asking until the specification is decision complete: approach, interfaces and types, '' @
     ''data flow, edge cases and failure modes, testing and acceptance criteria, rollout and monitoring, and migrations '' @
     ''or compatibility constraints.'' @
     [CHR 0x0A, CHR 0x0A] @
     ''## Asking questions'' @
     [CHR 0x0A, CHR 0x0A] @
     ''Prefer request_user_input for important decisions. Offer only meaningful multiple-choice options. Ask only questions '' @
     ''that materially change the specification, confirm an important assumption, or choose a meaningful tradeoff. Discoverable '' @
     ''repository facts must be explored first.'' @
     [CHR 0x0A, CHR 0x0A] @
     ''## Finalization rule'' @
     [CHR 0x0A, CHR 0x0A] @
     ''Only output the final plan when it is decision complete. Wrap it in a proposed_plan block with the opening tag '' @
     ''on its own line and the closing tag on its own line. Use Markdown inside the block. The plan must include a clear '' @
     ''title, brief summary, important public API/interface/type changes, test cases and scenarios, and explicit assumptions '' @
     ''and defaults. Prefer a compact structure with Summary, Key Changes or Implementation Changes, Test Plan, and Assumptions. '' @
     ''Mention files only when needed to disambiguate. Do not ask whether to proceed in the final plan.'' @
     [CHR 0x0A, CHR 0x0A] @
     ''Only produce at most one proposed_plan block per turn. If the user requests revisions, produce a complete replacement '' @
     ''plan. The plan block is the final artifact of Plan Mode; a developer message is required to end Plan Mode.'' @
     [CHR 0x0A, CHR 0x0A] @
     ''## Decision-complete checklist'' @
     [CHR 0x0A, CHR 0x0A] @
     ''Before finalizing, ensure every implementation decision is explicit: ownership of state, API wire shape, validation, '' @
     ''persistence, ordering, error behavior, resume semantics, tests, and rollout. Keep the final plan concise but sufficient '' @
     ''for direct implementation.''"

definition modeInstruction :: "string \<Rightarrow> string" where
  "modeInstruction mode =
     (if TrimSpace mode = ''plan'' then planModeDeveloperPrompt
      else if TrimSpace mode = ''default''
      then ''You are in Default mode. Execute the user'' @ [CHR 0x27] @ ''s request, use tools when useful, verify changes, and return the result.''
      else [])"

section \<open>Building the messages\<close>

definition modelTokenCount :: "go_lib \<Rightarrow> tiktoken \<Rightarrow> agent_request \<Rightarrow> string \<Rightarrow> count_result" where
  "modelTokenCount lib tik req text = Count lib tik (aq_ProviderType req) (aq_Model req) text"

definition repeat_x_tokens :: "int \<Rightarrow> nat" where
  "repeat_x_tokens n = estimateContextTokens (replicate (nat n) (CHR ''x''))"

definition build_limits :: "agent_request \<Rightarrow> int \<times> int" where
  "build_limits req =
     (let maxChars = (if 0 < aq_MaxInputChars req then aq_MaxInputChars req else 0);
          maxTokens = (if 0 < aq_MaxInputTokens req then aq_MaxInputTokens req else 0)
      in if maxTokens \<le> 0 \<and> maxChars \<le> 0 then (defaultMaxInputChars, defaultMaxInputTokens)
         else if maxTokens \<le> 0 then (maxChars, int (repeat_x_tokens maxChars))
         else if maxChars \<le> 0 then (maxTokens * 4, maxTokens)
         else (maxChars, maxTokens))"

definition pinned_block :: "string \<Rightarrow> string \<Rightarrow> string \<Rightarrow> context_block" where
  "pinned_block name role content = \<lparr>cb_Name = name, cb_Role = role, cb_Content = content, cb_Pinned = True\<rparr>"

definition build_blocks :: "go_lib \<Rightarrow> agent_request \<Rightarrow> context_block list \<times> block_trace list" where
  "build_blocks lib req =
     (let advisory = aq_EnforceContextPrecedence req \<and> hasAdvisoryContext lib (aq_ContextBlocks req);
          systemPrompt = (if advisory \<and> TrimSpace (aq_SystemPrompt req) \<noteq> []
                          then aq_SystemPrompt req @ [CHR 0x0A, CHR 0x0A] @ contextPrecedenceInstruction else aq_SystemPrompt req);
          (contextBlocks, preTrace) = compressContextBlocks lib (aq_ContextBlocks req);
          blocks =
            (if TrimSpace systemPrompt \<noteq> [] then [pinned_block ''system'' RoleSystem systemPrompt] else []) @
            (if modeInstruction (aq_Mode req) \<noteq> [] then [pinned_block ''agent_mode'' RoleDeveloper (modeInstruction (aq_Mode req))] else []) @
            (if advisory \<and> TrimSpace systemPrompt = [] then [pinned_block ''context_precedence'' RoleSystem contextPrecedenceInstruction] else []) @
            map (\<lambda>b. if cb_Role b = [] then b\<lparr>cb_Role := RoleUser\<rparr> else b) (filter (\<lambda>b. TrimSpace (cb_Content b) \<noteq> []) contextBlocks)
      in (sort_key (\<lambda>b. blockSortPriority lib (cb_Name b)) blocks @ [pinned_block ''task'' RoleUser (aq_Task req)], preTrace))"

definition pre_trace :: "context_trace \<Rightarrow> block_trace \<Rightarrow> context_trace" where
  "pre_trace t b =
     (let t = t\<lparr>cx_Blocks := cx_Blocks t @ [b], cx_SavedTokens := cx_SavedTokens t + bt_SavedTokens b\<rparr> in
      if bt_Status b = ''compressed'' then t\<lparr>cx_Compressed := cx_Compressed t @ [bt_Name b]\<rparr>
      else if bt_Status b = ''omitted'' then t\<lparr>cx_Omitted := cx_Omitted t @ [bt_Name b]\<rparr> else t)"

record build_state =
  bs_messages :: "chat_message list"
  bs_used :: nat
  bs_usedTokens :: nat
  bs_trace :: context_trace

definition block_tokens :: "go_lib \<Rightarrow> tiktoken \<Rightarrow> agent_request \<Rightarrow> string \<Rightarrow> string \<Rightarrow> nat" where
  "block_tokens lib tik req name content =
     (let counted = ct_Tokens (modelTokenCount lib tik req content) in
      if isMandatoryRuleBlock lib name \<and> 0 < counted then counted else estimateContextTokens content)"

definition mandatory_trace :: "int \<Rightarrow> nat \<Rightarrow> nat \<Rightarrow> context_trace \<Rightarrow> context_trace" where
  "mandatory_trace maxTokens usedTokens originalTokens t =
     (let available = (if maxTokens - int usedTokens < 0 then 0 else maxTokens - int usedTokens);
          t = (if cx_MandatoryTokens t = 0 \<or> available < cx_MandatoryBudgetTokens t
               then t\<lparr>cx_MandatoryBudgetTokens := available\<rparr> else t)
      in t\<lparr>cx_MandatoryTokens := cx_MandatoryTokens t + int originalTokens\<rparr>)"

definition overflow_deficit :: "int \<Rightarrow> int \<Rightarrow> nat \<Rightarrow> nat \<Rightarrow> nat \<Rightarrow> nat \<Rightarrow> int" where
  "overflow_deficit maxChars maxTokens used usedTokens len originalTokens =
     (let deficit = int usedTokens + int originalTokens - maxTokens;
          charOverflow = int used + int len - maxChars
      in if 0 < charOverflow \<and> deficit < int (repeat_x_tokens charOverflow) then int (repeat_x_tokens charOverflow) else deficit)"

definition pinned_room :: "int \<Rightarrow> int \<Rightarrow> nat \<Rightarrow> nat \<Rightarrow> int" where
  "pinned_room maxChars maxTokens used usedTokens =
     (let remaining = maxChars - int used; tokenRemaining = (maxTokens - int usedTokens) * 4;
          remaining = (if 0 < tokenRemaining \<and> tokenRemaining < remaining then tokenRemaining else remaining)
      in if remaining \<le> 0 then maxChars else remaining)"

text \<open>The end of the loop body: the content, cut or not, becomes a message.\<close>

definition include_block :: "go_lib \<Rightarrow> bool \<Rightarrow> nat \<Rightarrow> context_block \<Rightarrow> string \<Rightarrow> block_trace \<Rightarrow> build_state \<Rightarrow> build_state" where
  "include_block lib mandatory originalTokens block content bt st =
     (let bt = (if bt_Status bt = [] then bt\<lparr>bt_Status := ''included''\<rparr> else bt);
          tokens = (if mandatory then originalTokens else estimateContextTokens content);
          bt = bt\<lparr>bt_IncludedChars := length content, bt_EstimatedTokens := tokens\<rparr>;
          t = bs_trace st
      in st\<lparr>bs_messages := bs_messages st @ [plain_message (cb_Role block) content],
            bs_used := bs_used st + length content, bs_usedTokens := bs_usedTokens st + tokens,
            bs_trace := t\<lparr>cx_Included := cx_Included t @ [bt_Name bt], cx_EstimatedTokens := cx_EstimatedTokens t + tokens,
              cx_TokenAudit := TokenAudit_add lib (cx_TokenAudit t) (bt_Name bt) tokens, cx_Blocks := cx_Blocks t @ [bt]\<rparr>\<rparr>)"

definition build_block :: "go_lib \<Rightarrow> tiktoken \<Rightarrow> agent_request \<Rightarrow> int \<Rightarrow> int \<Rightarrow> context_block \<Rightarrow> build_state \<Rightarrow> build_state" where
  "build_block lib tik req maxChars maxTokens block st =
     (let content = TrimSpace (cb_Content block) in
      if content = [] then st
      else
        (let name = block_name block; mandatory = isMandatoryRuleBlock lib name;
             originalTokens = block_tokens lib tik req name content;
             bt = \<lparr>bt_Name = name, bt_Role = cb_Role block, bt_Pinned = cb_Pinned block, bt_OriginalChars = length content,
                   bt_IncludedChars = 0, bt_EstimatedTokens = 0, bt_SavedTokens = 0, bt_Status = []\<rparr>;
             st = (if mandatory then st\<lparr>bs_trace := mandatory_trace maxTokens (bs_usedTokens st) originalTokens (bs_trace st)\<rparr> else st);
             t = bs_trace st
         in if maxChars < int (bs_used st + length content) \<or> maxTokens < int (bs_usedTokens st + originalTokens) then
              (if mandatory then
                 (let deficit = overflow_deficit maxChars maxTokens (bs_used st) (bs_usedTokens st) (length content) originalTokens
                  in st\<lparr>bs_trace := t\<lparr>cx_CoreOverflow := True,
                       cx_MandatoryDeficitTokens := (if cx_MandatoryDeficitTokens t < deficit then deficit else cx_MandatoryDeficitTokens t),
                       cx_Blocks := cx_Blocks t @ [bt\<lparr>bt_Status := ''core_overflow''\<rparr>]\<rparr>\<rparr>)
               else if \<not> cb_Pinned block then
                 st\<lparr>bs_trace := t\<lparr>cx_Omitted := cx_Omitted t @ [name], cx_SavedTokens := cx_SavedTokens t + int originalTokens,
                      cx_Blocks := cx_Blocks t @ [bt\<lparr>bt_Status := ''omitted'', bt_SavedTokens := int originalTokens\<rparr>]\<rparr>\<rparr>
               else
                 (let remaining = pinned_room maxChars maxTokens (bs_used st) (bs_usedTokens st) in
                  if remaining < int (length content) then
                    (let cut = truncateRunes content remaining; saved = int originalTokens - int (estimateContextTokens cut)
                     in include_block lib mandatory originalTokens block cut
                          (bt\<lparr>bt_Status := ''truncated'', bt_SavedTokens := saved\<rparr>)
                          (st\<lparr>bs_trace := t\<lparr>cx_Truncated := cx_Truncated t @ [name], cx_SavedTokens := cx_SavedTokens t + saved\<rparr>\<rparr>))
                  else include_block lib mandatory originalTokens block content bt st))
            else include_block lib mandatory originalTokens block content bt st))"

definition Build :: "go_lib \<Rightarrow> tiktoken \<Rightarrow> agent_request \<Rightarrow> chat_message list \<times> context_trace" where
  "Build lib tik req =
     (let (maxChars, maxTokens) = build_limits req;
          (blocks, preTrace) = build_blocks lib req;
          start = no_context\<lparr>cx_MaxChars := maxChars, cx_MaxInputTokens := maxTokens, cx_RuleTrace := aq_RuleTrace req,
            cx_RuleHash := rq_RuleHash req, cx_Strategy := ''token_budget:pinned_recent_summary_dedupe''\<rparr>;
          st = fold (build_block lib tik req maxChars maxTokens) blocks
            \<lparr>bs_messages = [], bs_used = 0, bs_usedTokens = 0, bs_trace = foldl pre_trace start preTrace\<rparr>;
          t = bs_trace st
      in (bs_messages st, t\<lparr>cx_UsedChars := bs_used st, cx_UsedTokens := bs_usedTokens st,
            cx_TokenAudit := (cx_TokenAudit t)\<lparr>ta_Total := cx_EstimatedTokens t\<rparr>\<rparr>))"

end
