(* ===== verification/Rule_Planner.thy ===== *)
theory Rule_Planner
  imports Context_Assembler
begin

text \<open>
  The rules of one model turn (\<^verbatim>\<open>internal/runtime/agent/rule_planner.go\<close>): the token budget left for
  optional rules and their selection.

  The JSON encodings the agent measures in tokens (of a message list, of a tool list and of one tool)
  are the fields of \<open>agent_lib\<close>; \<open>None\<close> is an encoding error.
\<close>

record tool_definition =
  td_Name :: string
  td_Description :: string
  td_Parameters :: string

record agent_lib =
  marshal_messages :: "chat_message list \<Rightarrow> string option"
  marshal_tools :: "tool_definition list \<Rightarrow> string option"
  marshal_tool :: "tool_definition \<Rightarrow> string option"

definition defaultRuleSafetyMarginTokens :: int where "defaultRuleSafetyMarginTokens = 256"

record planning_state =
  ps_Iteration :: int
  ps_SystemPrompt :: string
  ps_Task :: string
  ps_Mode :: string
  ps_RiskLevel :: string
  ps_Tags :: "string list"
  ps_UsedToolNames :: "string list"
  ps_AvailableTools :: "tool_definition list"
  ps_BaseMessages :: "chat_message list"
  ps_Transcript :: "chat_message list"
  ps_MaxInputTokens :: int
  ps_ContextWindow :: int
  ps_ReservedOutput :: int
  ps_SafetyMargin :: int
  ps_MaxRuleTokens :: int
  ps_ProviderType :: string
  ps_Model :: string
  ps_Rules :: "rule list option"

record rule_plan =
  pl_Rules :: "rule list"
  pl_Trace :: rule_trace
  pl_Budget :: rule_budget

definition estimateMessagesTokens :: "chat_message list \<Rightarrow> nat" where
  "estimateMessagesTokens messages = (\<Sum>m\<leftarrow>messages. estimateContextTokens (cm_Content m))"

definition estimateToolSchemaTokens :: "agent_lib \<Rightarrow> tool_definition list \<Rightarrow> nat" where
  "estimateToolSchemaTokens al tools =
     (\<Sum>tool\<leftarrow>tools. case marshal_tool al tool of
        Some data \<Rightarrow> estimateContextTokens data
      | None \<Rightarrow> estimateContextTokens (TrimSpace (td_Name tool) @ '' '' @ TrimSpace (td_Description tool)))"

definition modelRuleTokenCosts :: "go_lib \<Rightarrow> tiktoken \<Rightarrow> planning_state \<Rightarrow> rule list \<Rightarrow> (string \<rightharpoonup> int)" where
  "modelRuleTokenCosts lib tik state rules =
     foldl (\<lambda>costs rule.
         let tokens = ct_Tokens (Count lib tik (ps_ProviderType state) (ps_Model state) (ru_Content rule))
         in if 0 < tokens then costs(ru_ID rule \<mapsto> int tokens) else costs)
       Map.empty rules"

definition calculateRuleBudget :: "agent_lib \<Rightarrow> planning_state \<Rightarrow> rule_budget" where
  "calculateRuleBudget al state =
     (let margin = (if ps_SafetyMargin state \<le> 0 then defaultRuleSafetyMarginTokens else ps_SafetyMargin state);
          input = ps_MaxInputTokens state;
          windowInput = ps_ContextWindow state - ps_ReservedOutput state;
          input = (if 0 < ps_ContextWindow state \<and> (input \<le> 0 \<or> (0 < windowInput \<and> windowInput < input)) then windowInput else input);
          input = (if input \<le> 0 then defaultMaxInputTokens else input);
          fixed = int (estimateMessagesTokens (ps_BaseMessages state));
          transcript = int (estimateMessagesTokens (ps_Transcript state));
          schema = int (estimateToolSchemaTokens al (ps_AvailableTools state));
          available = input - fixed - transcript - schema - margin;
          available = (if 0 < ps_MaxRuleTokens state \<and> ps_MaxRuleTokens state < available then ps_MaxRuleTokens state else available);
          available = (if available < 0 then 0 else available)
      in \<lparr>rb_ContextWindowTokens = ps_ContextWindow state, rb_ReservedOutputTokens = ps_ReservedOutput state,
          rb_SafetyMarginTokens = margin, rb_InputBudgetTokens = input, rb_FixedTokens = fixed, rb_ToolSchemaTokens = schema,
          rb_TranscriptTokens = transcript, rb_AvailableRuleTokens = available\<rparr>)"

definition Plan :: "go_lib \<Rightarrow> tiktoken \<Rightarrow> rules_lib \<Rightarrow> agent_lib \<Rightarrow> planning_state \<Rightarrow> rule_plan" where
  "Plan lib tik dec al state =
     (let budget = calculateRuleBudget al state;
          rules = (case ps_Rules state of
              Some rs \<Rightarrow> rs
            | None \<Rightarrow> (case RuntimeRules lib dec [] True of Inr rs \<Rightarrow> rs | Inl _ \<Rightarrow> []));
          tags = ps_Tags state @ (if ps_UsedToolNames state \<noteq> [] then [''tool_used''] else []);
          (selected, trace) = SelectOptionalRules lib rules
            \<lparr>lc_Mode = ps_Mode state, lc_ToolNames = ps_UsedToolNames state, lc_RiskLevel = ps_RiskLevel state, lc_Tags = tags,
             lc_Task = ps_Task state, lc_Conversation = ps_SystemPrompt state, lc_TokenBudget = rb_AvailableRuleTokens budget,
             lc_RuleTokenCosts = modelRuleTokenCosts lib tik state rules\<rparr>
      in \<lparr>pl_Rules = selected, pl_Trace = trace, pl_Budget = budget\<rparr>)"

definition ruleMessages :: "rule list \<Rightarrow> chat_message list" where
  "ruleMessages items =
     map (\<lambda>r. plain_message RoleSystem (TrimSpace (ru_Content r))) (filter (\<lambda>r. TrimSpace (ru_Content r) \<noteq> []) items)"

end
