(* ===== verification/Runtime_Compaction.thy ===== *)
theory Runtime_Compaction
  imports Rule_Planner
begin

text \<open>
  Compaction during a run (\<^verbatim>\<open>internal/runtime/agent/auto_compaction.go\<close>): when the transcript is
  compacted, what is measured, what replaces the transcript, and how the result is stored.

  The client of the summariser is the runner's tool-calling client behind \<^verbatim>\<open>chatClientAdapter\<close>. The
  snapshot repository is a record of operations on the outer state \<open>'w\<close>; the token of a claim and the
  instants are supplied by the caller.
\<close>

section \<open>Limits\<close>

text \<open>\<^verbatim>\<open>int(float64(window) * 0.90)\<close>: the product of the nearest double of 0.9, below 9/10 plus one part in
  \<open>2\<^sup>5\<^sup>3\<close>, with an integer far below \<open>2\<^sup>5\<^sup>0\<close>, rounded to the nearest double and truncated, is \<open>9 * window div 10\<close>.\<close>

definition autoCompactLimit :: "agent_request \<Rightarrow> int" where
  "autoCompactLimit req =
     (let window = aq_ContextWindowTokens req;
          window = (if window \<le> 0 then aq_MaxInputTokens req else window);
          window = (if window \<le> 0 then defaultMaxInputTokens else window);
          cap = (9 * window) div 10;
          cap = (if cap \<le> 0 then window else cap)
      in if 0 < aq_ModelAutoCompactTokenLimit req \<and> aq_ModelAutoCompactTokenLimit req < cap
         then aq_ModelAutoCompactTokenLimit req else cap)"

definition autoCompactScope :: "agent_request \<Rightarrow> string" where
  "autoCompactScope req =
     (if TrimSpace (aq_ModelAutoCompactTokenLimitScope req) = ''body_after_prefix'' then ''body_after_prefix'' else ''total'')"

definition hardPromptTokenLimit :: "agent_request \<Rightarrow> int" where
  "hardPromptTokenLimit req =
     (let window = aq_ContextWindowTokens req;
          window = (if window \<le> 0 then aq_MaxInputTokens req else window);
          window = (if window \<le> 0 then defaultMaxInputTokens else window);
          cap = window - max 0 (aq_ReservedOutputTokens req) - max 0 (aq_ContextSafetyMarginTokens req);
          cap = (if 0 < aq_MaxInputTokens req \<and> aq_MaxInputTokens req < cap then aq_MaxInputTokens req else cap)
      in max 1 cap)"

section \<open>Messages\<close>

definition hasUserContent :: "chat_message list \<Rightarrow> string \<Rightarrow> bool" where
  "hasUserContent messages content \<longleftrightarrow> list_ex (\<lambda>m. cm_Role m = RoleUser \<and> cm_Content m = content) messages"

text \<open>The last index of a base message that repeats the task the transcript starts with.\<close>

fun skip_index :: "string \<Rightarrow> nat \<Rightarrow> chat_message list \<Rightarrow> nat option \<Rightarrow> nat option" where
  "skip_index task i [] found = found"
| "skip_index task i (m # ms) found =
     skip_index task (Suc i) ms (if cm_Role m \<noteq> RoleSystem \<and> cm_Role m = RoleUser \<and> cm_Content m = task then Some i else found)"

definition assembleRoundMessages :: "chat_message list \<Rightarrow> chat_message list \<Rightarrow> chat_message list \<Rightarrow> chat_message list" where
  "assembleRoundMessages base ruleMsgs transcript =
     (let skipTask = (case transcript of m # _ \<Rightarrow> (if cm_Role m = RoleUser then cm_Content m else []) | [] \<Rightarrow> []);
          skipIndex = (if skipTask \<noteq> [] then skip_index skipTask 0 base None else None)
      in filter (\<lambda>m. cm_Role m = RoleSystem) base @ ruleMsgs @
         map snd (filter (\<lambda>(i, m). Some i \<noteq> skipIndex \<and> cm_Role m \<noteq> RoleSystem) (enumerate 0 base)) @ transcript)"

section \<open>Measuring\<close>

definition modelTextTokens :: "go_lib \<Rightarrow> tiktoken \<Rightarrow> agent_request \<Rightarrow> string \<Rightarrow> nat" where
  "modelTextTokens lib tik req text = ct_Tokens (modelTokenCount lib tik req text)"

definition modelMessagesTokens :: "go_lib \<Rightarrow> tiktoken \<Rightarrow> agent_lib \<Rightarrow> agent_request \<Rightarrow> chat_message list \<Rightarrow> nat" where
  "modelMessagesTokens lib tik al req messages =
     (if messages = [] then 0
      else case marshal_messages al messages of
        None \<Rightarrow> estimateMessagesTokens messages
      | Some data \<Rightarrow> modelTextTokens lib tik req data)"

definition modelToolSchemaTokens :: "go_lib \<Rightarrow> tiktoken \<Rightarrow> agent_lib \<Rightarrow> agent_request \<Rightarrow> tool_definition list \<Rightarrow> nat" where
  "modelToolSchemaTokens lib tik al req tools =
     (if tools = [] then 0
      else case marshal_tools al tools of
        None \<Rightarrow> estimateToolSchemaTokens al tools
      | Some data \<Rightarrow> modelTextTokens lib tik req data)"

record token_status =
  st_Measured :: int
  st_Limit :: int
  st_HardLimit :: int
  st_TokenLimitReached :: bool

definition runtimeTokenStatus :: "go_lib \<Rightarrow> tiktoken \<Rightarrow> agent_lib \<Rightarrow> agent_request \<Rightarrow> chat_message list \<Rightarrow> chat_message list \<Rightarrow>
    tool_definition list \<Rightarrow> token_status" where
  "runtimeTokenStatus lib tik al req baseMessages transcript tools =
     (let history = (if aq_Task req \<noteq> [] \<and> hasUserContent baseMessages (aq_Task req) \<and> \<not> hasUserContent transcript (aq_Task req)
                     then plain_message RoleUser (aq_Task req) # transcript else transcript);
          body = int (modelMessagesTokens lib tik al req history);
          whole = int (modelMessagesTokens lib tik al req (assembleRoundMessages baseMessages [] transcript)) +
                  int (modelToolSchemaTokens lib tik al req tools);
          measured = (if autoCompactScope req = ''body_after_prefix'' then body else whole);
          cap = autoCompactLimit req; hard = hardPromptTokenLimit req
      in \<lparr>st_Measured = measured, st_Limit = cap, st_HardLimit = hard, st_TokenLimitReached = (cap \<le> measured \<or> hard \<le> whole)\<rparr>)"

section \<open>Compacting the transcript\<close>

definition runtimeCompactionHistory :: "agent_request \<Rightarrow> chat_message list \<Rightarrow> chat_message list" where
  "runtimeCompactionHistory req transcript =
     (if aq_Task req \<noteq> [] \<and> \<not> hasUserContent transcript (aq_Task req)
      then plain_message RoleUser (aq_Task req) # transcript else transcript)"

definition plain_request :: "agent_request \<Rightarrow> int \<Rightarrow> comp_request" where
  "plain_request req budget =
     \<lparr>cq_SystemPrompt = [], cq_CompactPrompt = [], cq_ProviderType = aq_ProviderType req, cq_Model = aq_Model req,
      cq_ParentSummary = [], cq_UserBudget = budget, cq_PerEntryLimit = 0, cq_HintProviderType = [], cq_TokenModelHint = []\<rparr>"

definition retainMessagesByRole :: "go_lib \<Rightarrow> tiktoken \<Rightarrow> agent_request \<Rightarrow> chat_message list \<Rightarrow> string \<Rightarrow> int \<Rightarrow> chat_message list" where
  "retainMessagesByRole lib tik req history role budget =
     map (\<lambda>e. plain_message (en_Role e) (en_Content e)) (RetainEntriesByRole lib tik (plain_request req budget) (FromChat history) role)"

definition UserMessageBudgetTokens :: int where "UserMessageBudgetTokens = 20000"

definition baseMessagesAfterTokenBudget :: "go_lib \<Rightarrow> tiktoken \<Rightarrow> agent_request \<Rightarrow> chat_message list \<Rightarrow> bool \<Rightarrow> chat_message list" where
  "baseMessagesAfterTokenBudget lib tik req messages retainDeveloper =
     filter (\<lambda>m. cm_Role m = RoleSystem) messages @
     (if retainDeveloper then retainMessagesByRole lib tik req messages RoleDeveloper UserMessageBudgetTokens else [])"

definition core_request :: "agent_request \<Rightarrow> comp_request" where
  "core_request req =
     (let own = TrimSpace (aq_CompactionProviderType req) = [] \<or> TrimSpace (aq_CompactionModel req) = [] in
      \<lparr>cq_SystemPrompt = aq_SystemPrompt req, cq_CompactPrompt = aq_CompactPrompt req,
       cq_ProviderType = (if own then aq_ProviderType req else aq_CompactionProviderType req),
       cq_Model = (if own then aq_Model req else TrimSpace (aq_CompactionModel req)),
       cq_ParentSummary = [], cq_UserBudget = 0, cq_PerEntryLimit = 0, cq_HintProviderType = [], cq_TokenModelHint = []\<rparr>)"

text \<open>\<^verbatim>\<open>chatClientAdapter\<close>: an error hides the response, and a missing response is passed on as such.\<close>

definition chatClientAdapter :: "('w \<Rightarrow> chat_message list \<Rightarrow> (chat_response option \<times> chat_error option) \<times> 'w) \<Rightarrow> 'w chat_client" where
  "chatClientAdapter client w messages =
     (let ((response, err), w') = client w messages in
      case (err, response) of
        (None, Some r) \<Rightarrow> ((Some (cm_Content (cr_Message r), cr_Usage r), None), w')
      | _ \<Rightarrow> ((None, err), w'))"

definition compaction_error :: "summary_result \<Rightarrow> string" where
  "compaction_error res = (case res of Compaction_failed e \<Rightarrow> e | Context_error e \<Rightarrow> e | _ \<Rightarrow> [])"

definition new_compaction_trace :: "agent_request \<Rightarrow> compaction_trace" where
  "new_compaction_trace req =
     \<lparr>tr_Trigger = ''runtime'', tr_Scope = autoCompactScope req, tr_Status = ''completed'', tr_BeforeTokens = 0, tr_AfterTokens = 0,
      tr_SavedTokens = 0, tr_Threshold = 0, tr_ModelCalled = False, tr_Error = [], tr_Summary = []\<rparr>"

text \<open>\<^verbatim>\<open>compactRuntimeTranscript\<close>; \<open>None\<close> is the panic on a client that returns neither response nor error.\<close>

definition compactRuntimeTranscript :: "go_lib \<Rightarrow> tiktoken \<Rightarrow> agent_lib \<Rightarrow> ('w \<Rightarrow> chat_message list \<Rightarrow> (chat_response option \<times> chat_error option) \<times> 'w) \<Rightarrow>
    ('w \<Rightarrow> string option) \<Rightarrow> agent_request \<Rightarrow> chat_message list \<Rightarrow> 'w \<Rightarrow> (chat_message list \<times> usage \<times> compaction_trace) option \<times> 'w" where
  "compactRuntimeTranscript lib tik al client ctx_done req transcript w =
     (let history = runtimeCompactionHistory req transcript;
          before = int (modelMessagesTokens lib tik al req history);
          trace = new_compaction_trace req
      in if aq_TokenBudgetCompaction req then
           (let retained = (if aq_RetainClientDeveloperMessages req
                  then retainMessagesByRole lib tik req history RoleDeveloper UserMessageBudgetTokens else []);
                after = int (modelMessagesTokens lib tik al req retained)
            in (Some (retained, no_usage, trace\<lparr>tr_AfterTokens := after, tr_SavedTokens := max 0 (before - after)\<rparr>), w))
         else
           (case Compact lib tik (core_request req) (chatClientAdapter client) ctx_done (FromChat history) w of
              (Inl Nil_response, u, calls, w') \<Rightarrow> (None, w')
            | (Inl res, u, calls, w') \<Rightarrow>
                (Some (transcript, u, trace\<lparr>tr_ModelCalled := True, tr_Status := ''failed'', tr_Error := compaction_error res\<rparr>), w')
            | (Inr result, u, calls, w') \<Rightarrow>
                (let kept = map (\<lambda>e. plain_message (en_Role e) (en_Content e)) (cs_Retained result) @
                       [plain_message RoleUser (SummaryPrefix @ cs_Summary result)];
                     after = int (modelMessagesTokens lib tik al req kept)
                 in (Some (kept, cs_Usage result, trace\<lparr>tr_ModelCalled := True, tr_Summary := cs_Summary result,
                       tr_AfterTokens := after, tr_SavedTokens := max 0 (before - after)\<rparr>), w'))))"

section \<open>Storing the result\<close>

record snapshot_row =
  sr_ID :: int
  sr_SnapshotVersion :: int

record compaction_row =
  cr_OwnerID :: int
  cr_ConversationID :: int
  cr_FirstMessageID :: int
  cr_LastMessageID :: int
  cr_ParentSnapshotID :: "int option"
  cr_SnapshotVersion :: int
  cr_SourceFingerprint :: string
  cr_Summary :: string
  cr_ProviderID :: int
  cr_Model :: string
  cr_BeforeTokens :: int
  cr_AfterTokens :: int
  cr_SummaryTokens :: int
  cr_ContextWindowTokens :: int
  cr_FirstMessageContent :: string

record 'w snapshot_repo =
  FindCurrentSnapshot :: "int \<Rightarrow> int \<Rightarrow> 'w \<Rightarrow> (string + snapshot_row option) \<times> 'w"
  ClaimSnapshot :: "int \<Rightarrow> int \<Rightarrow> int option \<Rightarrow> int \<Rightarrow> string \<Rightarrow> 'w \<Rightarrow> (string + bool) \<times> 'w"
  CompleteSnapshot :: "compaction_row \<Rightarrow> int option \<Rightarrow> int \<Rightarrow> string \<Rightarrow> 'w \<Rightarrow> string option \<times> 'w"
  ReleaseSnapshotClaim :: "int \<Rightarrow> int \<Rightarrow> string \<Rightarrow> string \<Rightarrow> 'w \<Rightarrow> 'w"

definition contentFingerprint :: "agent_lib \<Rightarrow> chat_message list \<Rightarrow> string" where
  "contentFingerprint al messages = (case marshal_messages al messages of Some d \<Rightarrow> d | None \<Rightarrow> [])"

definition runtime_compaction_row :: "go_lib \<Rightarrow> tiktoken \<Rightarrow> agent_lib \<Rightarrow> runner \<Rightarrow> agent_request \<Rightarrow> int \<Rightarrow> int option \<Rightarrow> int \<Rightarrow>
    compaction_trace \<Rightarrow> chat_message list \<Rightarrow> chat_message list \<Rightarrow> compaction_row" where
  "runtime_compaction_row lib tik al r req conv parentID parentVersion trace history kept =
     (let initial = aq_InitialUserMessageID req;
          lastID = (if 0 < initial then initial else 0);
          firstID = (if 0 < initial \<and> aq_TokenBudgetCompaction req then lastID + 1 else lastID);
          own = aq_CompactionProviderID req = 0 \<or> TrimSpace (aq_CompactionModel req) = []
      in \<lparr>cr_OwnerID = aq_OwnerID req, cr_ConversationID = conv, cr_FirstMessageID = firstID, cr_LastMessageID = lastID,
          cr_ParentSnapshotID = parentID, cr_SnapshotVersion = parentVersion + 1,
          cr_SourceFingerprint = sha256_hex lib (itoa (rq_RunID req) @ '':'' @ itoa parentVersion @ '':'' @ tr_Summary trace @ '':'' @
            contentFingerprint al history),
          cr_Summary = tr_Summary trace,
          cr_ProviderID = (if own then rn_ProviderID r else aq_CompactionProviderID req),
          cr_Model = (if own then aq_Model req else TrimSpace (aq_CompactionModel req)),
          cr_BeforeTokens = tr_BeforeTokens trace, cr_AfterTokens = int (modelMessagesTokens lib tik al req kept),
          cr_SummaryTokens = int (modelTextTokens lib tik req (tr_Summary trace)), cr_ContextWindowTokens = aq_ContextWindowTokens req,
          cr_FirstMessageContent =
            (case kept of
               m # _ \<Rightarrow> if \<not> aq_TokenBudgetCompaction req \<and> \<not> HasPrefix (cm_Content m) SummaryPrefix then cm_Content m else []
             | [] \<Rightarrow> [])\<rparr>)"

definition persistRuntimeCompaction :: "go_lib \<Rightarrow> tiktoken \<Rightarrow> agent_lib \<Rightarrow> 'w snapshot_repo option \<Rightarrow> ('w \<Rightarrow> string) \<Rightarrow> runner \<Rightarrow>
    agent_request \<Rightarrow> compaction_trace \<Rightarrow> chat_message list \<Rightarrow> chat_message list \<Rightarrow> 'w \<Rightarrow> string option \<times> 'w" where
  "persistRuntimeCompaction lib tik al repo new_token r req trace history kept w =
     (case (repo, aq_ConversationID req) of
        (Some snapshots, Some conv) \<Rightarrow>
          if conv \<le> 0 \<or> tr_Status trace \<noteq> ''completed'' then (None, w)
          else
            (case FindCurrentSnapshot snapshots (aq_OwnerID req) conv w of
               (Inl err, w) \<Rightarrow> (Some err, w)
             | (Inr current, w) \<Rightarrow>
                 (let parentID = map_option sr_ID current;
                      parentVersion = (case current of Some s \<Rightarrow> sr_SnapshotVersion s | None \<Rightarrow> 0);
                      token = new_token w
                  in case ClaimSnapshot snapshots (aq_OwnerID req) conv parentID parentVersion token w of
                       (Inl err, w) \<Rightarrow> (Some err, w)
                     | (Inr False, w) \<Rightarrow> (None, w)
                     | (Inr True, w) \<Rightarrow>
                         (case CompleteSnapshot snapshots
                                 (runtime_compaction_row lib tik al r req conv parentID parentVersion trace history kept)
                                 parentID parentVersion token w of
                            (None, w) \<Rightarrow> (None, w)
                          | (Some err, w) \<Rightarrow> (Some err, ReleaseSnapshotClaim snapshots (aq_OwnerID req) conv token err w))))
      | _ \<Rightarrow> (None, w))"

end
