(* ===== verification/Go_Text.thy ===== *)
theory Go_Text
  imports Go_Json
begin

text \<open>
  The functions of Go's \<^verbatim>\<open>strings\<close> package on lines and occurrences: \<^verbatim>\<open>Split\<close> at line feeds and its
  inverse \<^verbatim>\<open>Join\<close>, \<^verbatim>\<open>Index\<close>, \<^verbatim>\<open>Count\<close> and \<^verbatim>\<open>ReplaceAll\<close> for a non-empty pattern, and trimming with a cut set.
\<close>

section \<open>Lines\<close>

fun split_lines :: "string \<Rightarrow> string \<Rightarrow> string list" where
  "split_lines cur [] = [rev cur]"
| "split_lines cur (c # cs) = (if c = CHR 0x0A then rev cur # split_lines [] cs else split_lines (c # cur) cs)"

definition Split_nl :: "string \<Rightarrow> string list" where
  "Split_nl s = split_lines [] s"

section \<open>Occurrences\<close>

fun Index :: "string \<Rightarrow> string \<Rightarrow> nat option" where
  "Index [] p = (if p = [] then Some 0 else None)"
| "Index (c # cs) p = (if HasPrefix (c # cs) p then Some 0 else map_option Suc (Index cs p))"

text \<open>\<^verbatim>\<open>strings.Count\<close> and \<^verbatim>\<open>strings.ReplaceAll\<close> for a non-empty pattern: occurrences that do not overlap, from
  the left. (The empty pattern, which Go finds at every rune boundary, is never passed.)\<close>

function Count :: "string \<Rightarrow> string \<Rightarrow> nat" where
  "Count s p =
     (if p = [] then RuneCount s + 1
      else case Index s p of None \<Rightarrow> 0 | Some i \<Rightarrow> Suc (Count (drop (i + length p) s) p))"
  by pat_completeness auto
termination
proof (relation "measure (\<lambda>(s, p). length s)")
  show "((drop (i + length p) s, p), s, p) \<in> measure (\<lambda>(s, p). length s)" if "p \<noteq> []" "Index s p = Some i" for s p i
    using that by (cases s) auto
qed simp

declare Count.simps [simp del]

function ReplaceAll :: "string \<Rightarrow> string \<Rightarrow> string \<Rightarrow> string" where
  "ReplaceAll s p new =
     (if p = [] then s
      else case Index s p of None \<Rightarrow> s | Some i \<Rightarrow> take i s @ new @ ReplaceAll (drop (i + length p) s) p new)"
  by pat_completeness auto
termination
proof (relation "measure (\<lambda>(s, p, new). length s)")
  show "((drop (i + length p) s, p, new), s, p, new) \<in> measure (\<lambda>(s, p, new). length s)" if "p \<noteq> []" "Index s p = Some i" for s p new i
    using that by (cases s) auto
qed simp

declare ReplaceAll.simps [simp del]

text \<open>\<^verbatim>\<open>strings.TrimLeft(s, " \t")\<close> and \<^verbatim>\<open>strings.TrimRight(s, "\n")\<close>.\<close>

definition blank_char :: "char \<Rightarrow> bool" where
  "blank_char c \<longleftrightarrow> c = CHR '' '' \<or> c = CHR 0x09"

definition TrimLeft_blank :: "string \<Rightarrow> string" where
  "TrimLeft_blank s = dropWhile blank_char s"

definition TrimRight_nl :: "string \<Rightarrow> string" where
  "TrimRight_nl s = rev (dropWhile (\<lambda>c. c = CHR 0x0A) (rev s))"

section \<open>Lemmas\<close>

lemma split_lines_nonempty [simp]: "split_lines cur s \<noteq> []"
  by (induction s arbitrary: cur) auto

lemma split_lines_join: "Join (split_lines cur s) [CHR 0x0A] = rev cur @ s"
proof (induction s arbitrary: cur)
  case (Cons c s)
  obtain x xs where x: "split_lines [] s = x # xs" by (cases "split_lines [] s") auto
  show ?case using Cons.IH [of "[]"] Cons.IH [of "c # cur"] by (simp add: x)
qed simp

lemma Split_nl_join: "Join (Split_nl s) [CHR 0x0A] = s"
  by (simp add: Split_nl_def split_lines_join)

lemma sublist_Cons_split:
  assumes "sublist p (xs @ c # ys)" "c \<notin> set p"
  shows "sublist p xs \<or> sublist p ys"
proof -
  obtain a b where ab: "xs @ c # ys = a @ p @ b" using assms(1) by (auto simp: sublist_def)
  consider "length a + length p \<le> length xs" | "length xs < length a" | "length a \<le> length xs" "length xs < length a + length p" by linarith
  then show ?thesis
  proof cases
    case 1
    then have "take (length a + length p) (xs @ c # ys) = take (length a + length p) xs" by simp
    with ab have "a @ p = take (length a + length p) xs" by simp
    then have "xs = a @ p @ drop (length a + length p) xs" by (metis append.assoc append_take_drop_id)
    then show ?thesis unfolding sublist_def by blast
  next
    case 2
    then have "drop (Suc (length xs)) (xs @ c # ys) = drop (Suc (length xs)) a @ p @ b" unfolding ab by simp
    then have "ys = drop (Suc (length xs)) a @ p @ b" by simp
    then show ?thesis unfolding sublist_def by blast
  next
    case 3
    then have i: "length xs - length a < length p" by linarith
    with 3 have "(a @ p @ b) ! length xs = p ! (length xs - length a)" by (simp add: nth_append)
    moreover have "(a @ p @ b) ! length xs = c" using ab by (metis nth_append_length)
    ultimately show ?thesis using assms(2) i nth_mem by metis
  qed
qed

lemma Join_no_mark:
  assumes "\<And>l. l \<in> set ls \<Longrightarrow> \<not> sublist p l" "c \<notin> set p" "p \<noteq> []"
  shows "\<not> sublist p (Join ls [c])"
  using assms(1)
proof (induction ls "[c]" rule: Join.induct)
  case (3 x y xs)
  then show ?case using sublist_Cons_split [of p x c "Join (y # xs) [c]"] assms(2) by auto
qed (use assms(3) in auto)

lemma sublist_Join: "l \<in> set ls \<Longrightarrow> sublist l (Join ls sep)"
proof (induction ls sep rule: Join.induct)
  case (3 x y xs sep)
  show ?case
  proof (cases "l = x")
    case False
    with 3 have "sublist l (Join (y # xs) sep)" by simp
    then show ?thesis by (auto simp: sublist_def) (metis append.assoc)
  qed (auto simp: sublist_def intro: exI [of _ "[]"])
qed auto

lemma Index_Some:
  assumes "Index s p = Some i"
  shows "i + length p \<le> length s" "take (length p) (drop i s) = p" "s = take i s @ p @ drop (i + length p) s"
proof -
  have "i + length p \<le> length s \<and> take (length p) (drop i s) = p"
    using assms
  proof (induction s p arbitrary: i rule: Index.induct)
    case (2 c cs p)
    show ?case
    proof (cases "HasPrefix (c # cs) p")
      case True
      with 2 have "i = 0" "prefix p (c # cs)" by (auto simp: HasPrefix_iff)
      then show ?thesis using True by (auto simp: HasPrefix_def dest: prefix_length_le)
    next
      case False
      with 2 show ?thesis by auto
    qed
  qed (auto split: if_splits)
  then show 1: "i + length p \<le> length s" "take (length p) (drop i s) = p" by auto
  then have "drop i s = p @ drop (i + length p) s" by (metis add.commute append_take_drop_id drop_drop)
  then show "s = take i s @ p @ drop (i + length p) s" by (metis append_take_drop_id)
qed

lemma Index_None: "Index s p = None \<longleftrightarrow> \<not> sublist p s"
  by (induction s p rule: Index.induct) (auto simp: HasPrefix_iff sublist_Cons_right)

lemma Index_first: "Index s p = Some i \<Longrightarrow> j < i \<Longrightarrow> \<not> prefix p (drop j s)"
proof (induction s p arbitrary: i j rule: Index.induct)
  case (2 c cs p)
  then show ?case by (cases j) (auto simp: HasPrefix_iff split: if_splits)
qed (auto split: if_splits)

end
