(* ===== verification/Citations.thy ===== *)
theory Citations
  imports Go_Text
begin

text \<open>
  The memory citations of a final answer (\<^verbatim>\<open>internal/domain/memory/citation.go\<close>): lines that carry the
  citation tag are removed from what the user sees, and the well-formed ones are accounted.

  The regular expression of a citation line is spelled out: \<^verbatim>\<open>[^>]*\<close> is greedy, so of several
  \<^verbatim>\<open>memory_id\<close> attributes the last one of the opening tag is the captured one. The repository is a pair
  of functions on the outer state.
\<close>

section \<open>Citation lines\<close>

definition citationTagMark :: string where "citationTagMark = ''oai-mem-citation''"
definition citation_close :: string where "citation_close = ''</oai-mem-citation>''"

definition regex_space :: "char \<Rightarrow> bool" where
  "regex_space c \<longleftrightarrow> byte c \<in> {9, 10, 12, 13, 32}"

definition word_char :: "char \<Rightarrow> bool" where
  "word_char c \<longleftrightarrow> (48 \<le> byte c \<and> byte c \<le> 57) \<or> (65 \<le> byte c \<and> byte c \<le> 90) \<or> (97 \<le> byte c \<and> byte c \<le> 122) \<or> byte c = 95"

definition digit :: "char \<Rightarrow> bool" where
  "digit c \<longleftrightarrow> 48 \<le> byte c \<and> byte c \<le> 57"

text \<open>\<^verbatim>\<open>memory_id\s*=\s*"([0-9]+)"\<close> at the start of a text.\<close>

definition match_attr :: "string \<Rightarrow> string option" where
  "match_attr s =
     (if \<not> HasPrefix s ''memory_id'' then None
      else case dropWhile regex_space (drop 9 s) of
        [] \<Rightarrow> None
      | c # t \<Rightarrow>
          if c \<noteq> CHR ''='' then None
          else (case dropWhile regex_space t of
              [] \<Rightarrow> None
            | q # u \<Rightarrow>
                if q \<noteq> CHR 0x22 then None
                else let ds = takeWhile digit u in
                  if ds \<noteq> [] \<and> HasPrefix (dropWhile digit u) [CHR 0x22] then Some ds else None))"

text \<open>The last attribute of the opening tag; \<open>prev\<close> is the character before, for \<^verbatim>\<open>\b\<close>.\<close>

fun last_attr :: "char \<Rightarrow> string \<Rightarrow> string option \<Rightarrow> string option" where
  "last_attr prev [] found = found"
| "last_attr prev (c # cs) found =
     last_attr c cs (if word_char prev then found else case match_attr (c # cs) of Some ds \<Rightarrow> Some ds | None \<Rightarrow> found)"

definition citationLinePattern :: "string \<Rightarrow> string option" where
  "citationLinePattern line =
     (let s = dropWhile regex_space line; rest = drop (length ''<oai-mem-citation'') s in
      if \<not> HasPrefix s ''<oai-mem-citation'' then None
      else case rest of
        [] \<Rightarrow> None
      | c # body \<Rightarrow>
          if \<not> regex_space c then None
          else if \<not> list_ex (\<lambda>x. x = CHR ''>'') body then None
          else
            (let head = takeWhile (\<lambda>x. x \<noteq> CHR ''>'') body; tail = tl (dropWhile (\<lambda>x. x \<noteq> CHR ''>'') body) in
             if \<not> suffix citation_close (rev (dropWhile regex_space (rev tail))) then None
             else last_attr c head None))"

fun digits_value :: "nat \<Rightarrow> string \<Rightarrow> nat" where
  "digits_value acc [] = acc"
| "digits_value acc (c # cs) = digits_value (10 * acc + (byte c - 48)) cs"

text \<open>\<^verbatim>\<open>strconv.ParseInt(s, 10, 64)\<close> on a string of digits: \<open>None\<close> when it is out of range.\<close>

definition ParseInt64 :: "string \<Rightarrow> int option" where
  "ParseInt64 s = (let n = int (digits_value 0 s) in if n < 2 ^ 63 then Some n else None)"

section \<open>The citation block\<close>

definition malformed :: "go_lib \<Rightarrow> string \<Rightarrow> string" where
  "malformed lib line = ''dropped malformed citation line: '' @ quote lib (TrimSpace line)"

fun parse_lines :: "go_lib \<Rightarrow> string list \<Rightarrow> int list \<Rightarrow> string list \<Rightarrow> bool \<Rightarrow> string list \<Rightarrow> string list \<times> int list \<times> string list \<times> bool" where
  "parse_lines lib kept ids warnings removed [] = (kept, ids, warnings, removed)"
| "parse_lines lib kept ids warnings removed (line # lines) =
     (if \<not> Contains line citationTagMark then parse_lines lib (kept @ [line]) ids warnings removed lines
      else case citationLinePattern line of
        None \<Rightarrow> parse_lines lib kept ids (warnings @ [malformed lib line]) True lines
      | Some ds \<Rightarrow>
          (case ParseInt64 ds of
             None \<Rightarrow> parse_lines lib kept ids (warnings @ [malformed lib line]) True lines
           | Some i \<Rightarrow>
               if i \<le> 0 then parse_lines lib kept ids (warnings @ [malformed lib line]) True lines
               else parse_lines lib kept (if i \<in> set ids then ids else ids @ [i]) warnings True lines))"

definition TrimRight_ws :: "string \<Rightarrow> string" where
  "TrimRight_ws s = rev (dropWhile (\<lambda>c. byte c \<in> {32, 9, 13, 10}) (rev s))"

definition parseCitationBlock :: "go_lib \<Rightarrow> string \<Rightarrow> string \<times> int list \<times> string list" where
  "parseCitationBlock lib finalText =
     (let (kept, ids, warnings, removed) = parse_lines lib [] [] [] False (Split_nl finalText);
          visible = Join kept [CHR 0x0A]
      in (if removed then TrimRight_ws visible else visible, ids, warnings))"

definition StripCitations :: "go_lib \<Rightarrow> string \<Rightarrow> string" where
  "StripCitations lib text = fst (parseCitationBlock lib text)"

record citation_outcome =
  co_VisibleText :: string
  co_UpdatedIDs :: "int list"
  co_Warnings :: "string list"

record 'w citation_repo =
  FindByIDs :: "int \<Rightarrow> int list \<Rightarrow> 'w \<Rightarrow> (string + int list) \<times> 'w"
  MarkUsed :: "int \<Rightarrow> int list \<Rightarrow> 'w \<Rightarrow> string option \<times> 'w"

definition foreign_warning :: "int \<Rightarrow> string" where
  "foreign_warning i = ''citation memory '' @ itoa i @ '' does not exist or belongs to another owner; usage not recorded''"

definition AccountCitations :: "go_lib \<Rightarrow> int \<Rightarrow> string \<Rightarrow> 'w citation_repo option \<Rightarrow> 'w \<Rightarrow> citation_outcome \<times> 'w" where
  "AccountCitations lib ownerID finalText repo w =
     (let (visible, cited, warnings) = parseCitationBlock lib finalText;
          outcome = \<lparr>co_VisibleText = visible, co_UpdatedIDs = [], co_Warnings = warnings\<rparr>
      in case repo of
           None \<Rightarrow> (outcome, w)
         | Some repo \<Rightarrow>
             if cited = [] then (outcome, w)
             else
               (case FindByIDs repo ownerID cited w of
                  (Inl err, w) \<Rightarrow> (outcome\<lparr>co_Warnings := warnings @ [''citation usage accounting skipped: '' @ err]\<rparr>, w)
                | (Inr found, w) \<Rightarrow>
                    (let updated = filter (\<lambda>i. i \<in> set found) cited;
                         warnings = warnings @ map foreign_warning (filter (\<lambda>i. i \<notin> set found) cited)
                     in if updated = [] then (outcome\<lparr>co_Warnings := warnings\<rparr>, w)
                        else
                          (case MarkUsed repo ownerID updated w of
                             (None, w) \<Rightarrow> (outcome\<lparr>co_UpdatedIDs := updated, co_Warnings := warnings\<rparr>, w)
                           | (Some err, w) \<Rightarrow>
                               (outcome\<lparr>co_Warnings := warnings @ [''record citation usage: '' @ err]\<rparr>, w)))))"

section \<open>No citation markup is visible\<close>

lemma TrimRight_ws_prefix: "prefix (TrimRight_ws s) s"
  using suffix_dropWhile [of "\<lambda>c. byte c \<in> {32, 9, 13, 10}" "rev s"] by (simp add: TrimRight_ws_def suffix_to_prefix)

text \<open>What the loop keeps, removes and counts.\<close>

lemma parse_lines_kept:
  "parse_lines lib kept ids warnings removed lines = (kept', ids', warnings', removed') \<Longrightarrow>
     kept' = kept @ filter (\<lambda>l. \<not> Contains l citationTagMark) lines"
proof (induction lines arbitrary: kept ids warnings removed)
  case (Cons line lines)
  show ?case
  proof (cases "Contains line citationTagMark")
    case False
    with Cons.prems Cons.IH [of "kept @ [line]"] show ?thesis by simp
  next
    case True
    with Cons.prems Cons.IH [of kept] show ?thesis by (simp split: option.splits if_splits)
  qed
qed simp

lemma parse_lines_removed:
  "parse_lines lib kept ids warnings removed lines = (kept', ids', warnings', removed') \<Longrightarrow>
     removed' \<longleftrightarrow> removed \<or> list_ex (\<lambda>l. Contains l citationTagMark) lines"
  by (induction lines arbitrary: kept ids warnings removed) (auto split: if_splits option.splits)

lemma parse_lines_ids:
  "parse_lines lib kept ids warnings removed lines = (kept', ids', warnings', removed') \<Longrightarrow>
     distinct ids \<Longrightarrow> list_all (\<lambda>i. 0 < i) ids \<Longrightarrow> distinct ids' \<and> list_all (\<lambda>i. 0 < i) ids'"
  by (induction lines arbitrary: kept ids warnings removed) (auto split: if_splits option.splits)

lemma StripCitations_unmarked: "\<not> Contains (StripCitations lib text) citationTagMark"
proof -
  obtain kept ids warnings removed where p: "parse_lines lib [] [] [] False (Split_nl text) = (kept, ids, warnings, removed)"
    by (metis prod_cases4)
  have "\<not> sublist citationTagMark l" if "l \<in> set kept" for l
    using that parse_lines_kept [OF p] by (auto simp: Contains_iff)
  then have "\<not> sublist citationTagMark (Join kept [CHR 0x0A])"
    by (intro Join_no_mark) (simp_all add: citationTagMark_def)
  moreover have "sublist (TrimRight_ws s) s" for s using TrimRight_ws_prefix by (rule prefix_imp_sublist)
  ultimately show ?thesis
    unfolding StripCitations_def parseCitationBlock_def p Contains_iff Let_def by (auto dest: sublist_order.order.trans)
qed

text \<open>whatever the model writes, no citation markup is visible in the stripped answer, and an answer
  without it is left as it is. Accounting returns that same text, and marks as used only distinct
  positive identifiers of memories the repository found for the owner.\<close>

theorem citations_accounted:
  "\<not> Contains (StripCitations lib text) citationTagMark \<and>
   (if Contains text citationTagMark then True else StripCitations lib text = text) \<and>
   (let outcome = fst (AccountCitations lib owner text (Some repo) w); cited = fst (snd (parseCitationBlock lib text)) in
      co_VisibleText outcome = StripCitations lib text \<and> distinct (co_UpdatedIDs outcome) \<and> list_all (\<lambda>i. 0 < i) (co_UpdatedIDs outcome) \<and>
      (case fst (FindByIDs repo owner cited w) of
         Inr found \<Rightarrow> set (co_UpdatedIDs outcome) \<subseteq> set found | Inl _ \<Rightarrow> co_UpdatedIDs outcome = []))"
proof -
  obtain kept ids warnings removed where p: "parse_lines lib [] [] [] False (Split_nl text) = (kept, ids, warnings, removed)"
    by (metis prod_cases4)
  have same: "StripCitations lib text = text" if "\<not> Contains text citationTagMark"
  proof -
    have "\<not> Contains l citationTagMark" if l: "l \<in> set (Split_nl text)" for l
    proof -
      have "sublist l (Join (Split_nl text) [CHR 0x0A])" using l by (rule sublist_Join)
      with \<open>\<not> Contains text citationTagMark\<close> show ?thesis
        unfolding Split_nl_join Contains_iff by (auto dest: sublist_order.order.trans)
    qed
    then have "kept = Split_nl text" "\<not> removed"
      using parse_lines_kept [OF p] parse_lines_removed [OF p] by (auto simp: list_ex_iff)
    then show ?thesis by (simp add: StripCitations_def parseCitationBlock_def p Split_nl_join)
  qed
  have cited: "fst (snd (parseCitationBlock lib text)) = ids" by (simp add: parseCitationBlock_def p Let_def)
  have ids: "distinct ids" "list_all (\<lambda>i. 0 < i) ids" using parse_lines_ids [OF p] by simp_all
  then have upd: "distinct (filter P ids)" "list_all (\<lambda>i. 0 < i) (filter P ids)" for P by (auto simp: list_all_iff)
  obtain visible where block: "parseCitationBlock lib text = (visible, ids, warnings)" "StripCitations lib text = visible"
    by (simp add: parseCitationBlock_def p StripCitations_def Let_def)
  show ?thesis
    using StripCitations_unmarked [of lib "text"] same upd
    unfolding cited by (auto simp: AccountCitations_def block Let_def split: sum.splits option.splits prod.splits)
qed

end
