(* ===== verification/Runner_Loop.thy ===== *)
theory Runner_Loop
  imports Reflection Citations Model_Turn
begin

text \<open>
  The run of an agent (\<^verbatim>\<open>Runner.Run\<close> of \<^verbatim>\<open>internal/runtime/agent/runner.go\<close>): checks and defaults, the
  initial context or the resumed checkpoint, and the iterations of steering, compaction, rule
  planning, model turn, tool batch and reflection, with the transcript written to the message sink.

  What lies outside the runner is a record of functions on a state \<open>'w\<close> (\<open>run_env\<close>): the steering
  provider, the context, the observer of model events, the client's behaviour in a turn (a stream
  script or a response, as in the model turn), its plain chat, the behaviour of the tools of a batch,
  the message sink and the snapshot repository. The start and end instants, the latency and the
  diagnostics of a run are left out. Three fields of the state are kept for the observer only: the
  requests sent to the model (\<open>lp_sent\<close>), the calls whose tool ran (\<open>lp_ran\<close>) and the rows given to the
  message sink (\<open>lp_rows\<close>).
\<close>

section \<open>State\<close>

record 'w run_env =
  ev_steering :: "'w \<Rightarrow> string list \<times> 'w"
  ev_ctx_err :: "'w \<Rightarrow> string option"
  ev_paused :: "'w \<Rightarrow> bool"
  ev_is_cancelled :: "string \<Rightarrow> bool"
  ev_is_deadline :: "string \<Rightarrow> bool"
  ev_unsupported :: "string \<Rightarrow> bool"
  ev_observer :: "'w sink option"
  ev_turn :: "'w \<Rightarrow> chat_message list \<Rightarrow> stream_script option \<times> (chat_response option \<times> string option) \<times> 'w"
  ev_chat :: "'w tool_client"
  ev_tools :: "'w \<Rightarrow> (prepared_call \<Rightarrow> Tool_Calls.outcome) \<times> (nat \<Rightarrow> string option) \<times> 'w"
  ev_sink :: "'w \<Rightarrow> comp_entry list \<Rightarrow> (int \<times> string option) \<times> 'w"
  ev_snapshots :: "'w snapshot_repo option"
  ev_token :: "'w \<Rightarrow> string"

record loop_state =
  lp_messages :: "chat_message list"
  lp_base :: "chat_message list"
  lp_transcript :: "chat_message list"
  lp_persisted :: int
  lp_cursor :: int
  lp_previousRules :: "string list"
  lp_context :: context_trace
  lp_result :: agent_result
  lp_needsFollowUp :: bool
  lp_sent :: "chat_message list list"
  lp_ran :: "prepared_call list"
  lp_rows :: "comp_entry list"

datatype run_outcome =
    Refused string
  | Finished agent_result "string option"
  | Panicked

datatype 'w step_result =
    Stop run_outcome loop_state 'w
  | Next loop_state 'w

record run_libs =
  lb_go :: go_lib
  lb_tik :: tiktoken
  lb_rules :: rules_lib
  lb_agent :: agent_lib
  lb_reflect :: reflect_lib

section \<open>Persisting the transcript\<close>

definition sanitizePersistedEntries :: "go_lib \<Rightarrow> chat_message list \<Rightarrow> chat_message list" where
  "sanitizePersistedEntries lib entries =
     map (\<lambda>m. if cm_Role m = RoleAssistant \<and> cm_Content m \<noteq> [] then m\<lparr>cm_Content := StripCitations lib (cm_Content m)\<rparr> else m) entries"

definition tool_results_by_id :: "run_step list \<Rightarrow> (string \<times> run_step) list" where
  "tool_results_by_id steps =
     foldl (\<lambda>m s. if rs_Type s \<noteq> ''tool_result'' \<or> rs_ToolCallID s = [] then m else AList.update (rs_ToolCallID s) s m) [] steps"

definition EnrichTranscriptEntries :: "comp_entry list \<Rightarrow> run_step list \<Rightarrow> comp_entry list" where
  "EnrichTranscriptEntries entries steps =
     map (\<lambda>e. if en_ContentType e \<noteq> ContentTypeFunctionCallOutput \<or> en_ToolCallID e = [] then e
              else case map_of (tool_results_by_id steps) (en_ToolCallID e) of
                None \<Rightarrow> e
              | Some s \<Rightarrow> e\<lparr>en_IsError := Some (rs_IsError s), en_ErrorCode := rs_ErrorCode s\<rparr>) entries"

definition persist_entries :: "go_lib \<Rightarrow> agent_result \<Rightarrow> chat_message list \<Rightarrow> int \<Rightarrow> comp_entry list" where
  "persist_entries lib result entries start =
     EnrichTranscriptEntries (FromChatAt (sanitizePersistedEntries lib entries) start) (rr_Steps result)"

text \<open>\<^verbatim>\<open>persistTranscriptEntries\<close>: the new cursor, the first row, and the result with a step for a failed write.\<close>

definition persistTranscriptEntries :: "run_libs \<Rightarrow> runner \<Rightarrow> 'w run_env \<Rightarrow> agent_request \<Rightarrow> agent_result \<Rightarrow> chat_message list \<Rightarrow> int \<Rightarrow> int \<Rightarrow> 'w \<Rightarrow>
    int \<times> int \<times> agent_result \<times> 'w" where
  "persistTranscriptEntries lb r env req result entries persistedCount transcriptStart w =
     (if entries = [] then (persistedCount, 0, result, w)
      else if \<not> aq_HasMessageSink req then (persistedCount + int (length entries), 0, result, w)
      else
        (let ((firstID, err), w) = ev_sink env w (persist_entries (lb_go lb) result entries transcriptStart);
             result = (case err of
                 None \<Rightarrow> result
               | Some e \<Rightarrow> add_step r result ((empty_step r ''error'')\<lparr>rs_Error := ''persist transcript entries: '' @ e\<rparr>))
         in (persistedCount + int (length entries), firstID, result, w)))"

definition rows_of :: "run_libs \<Rightarrow> agent_request \<Rightarrow> agent_result \<Rightarrow> chat_message list \<Rightarrow> int \<Rightarrow> comp_entry list" where
  "rows_of lb req result entries start = (if aq_HasMessageSink req then persist_entries (lb_go lb) result entries start else [])"

text \<open>The pattern \<^verbatim>\<open>transcript = append(transcript, entries...); persistedCount, _ = persist(...); transcriptCursor += len(entries)\<close>.\<close>

definition append_transcript :: "run_libs \<Rightarrow> runner \<Rightarrow> 'w run_env \<Rightarrow> agent_request \<Rightarrow> chat_message list \<Rightarrow> loop_state \<Rightarrow> 'w \<Rightarrow> loop_state \<times> 'w" where
  "append_transcript lb r env req entries st w =
     (let (persisted, _, result, w) = persistTranscriptEntries lb r env req (lp_result st) entries (lp_persisted st) (lp_cursor st) w
      in (st\<lparr>lp_transcript := lp_transcript st @ entries, lp_persisted := persisted, lp_result := result,
             lp_cursor := lp_cursor st + int (length entries),
             lp_rows := lp_rows st @ rows_of lb req (lp_result st) entries (lp_cursor st)\<rparr>, w))"

section \<open>Ends of a run\<close>

definition finishWithContext :: "'w run_env \<Rightarrow> agent_result \<Rightarrow> string \<Rightarrow> agent_result" where
  "finishWithContext env result err =
     (let reason = (if ev_is_cancelled env err then ''cancelled'' else if ev_is_deadline env err then ''timeout'' else err)
      in result\<lparr>rr_StopReason := reason, rr_FinalAnswer := ''Agent stopped: '' @ reason\<rparr>)"

definition batch_request :: "agent_request \<Rightarrow> context_trace \<Rightarrow> run_carry run_request" where
  "batch_request req context =
     (run_request.truncate req)\<lparr>rq_Carried := \<lparr>cy_Context = context, cy_Rules = (case aq_Rules req of Some rs \<Rightarrow> rs | None \<Rightarrow> []),
        cy_ReflectionPolicy = aq_ReflectionPolicy req\<rparr>\<rparr>"

definition hydrate :: "loop_state \<Rightarrow> agent_result \<Rightarrow> agent_result" where
  "hydrate st result = result\<lparr>rr_Checkpoint := hydrateCheckpoint (rr_Checkpoint result) (lp_base st) (lp_transcript st) (rr_Steps result)
     (lp_messages st) (lp_persisted st) (lp_cursor st)\<rparr>"

text \<open>The context ended: the run is cancelled, timed out, or paused with a checkpoint.\<close>

definition stop_with_context :: "'w run_env \<Rightarrow> agent_request \<Rightarrow> string list \<Rightarrow> loop_state \<Rightarrow> string \<Rightarrow> 'w \<Rightarrow> 'w step_result" where
  "stop_with_context env req toolNames st err w =
     (let result = finishWithContext env (lp_result st) err;
          result = (if ev_paused env w
            then hydrate st (result\<lparr>rr_StopReason := ''paused'', rr_Checkpoint := Some (checkpointFromMessages
                   (batch_request req (lp_context st)) (lp_messages st) toolNames None ''paused'' (rr_Iterations result) (rr_ToolCalls result))\<rparr>)
            else result)
      in Stop (Finished result None) st w)"

section \<open>One tool batch in the run\<close>

definition on_batch :: "run_libs \<Rightarrow> runner \<Rightarrow> 'w run_env \<Rightarrow> agent_request \<Rightarrow> hook_chain \<Rightarrow> string list \<Rightarrow> string list \<Rightarrow> tool_call list \<Rightarrow>
    loop_state \<Rightarrow> 'w \<Rightarrow> bool \<times> chat_message list \<times> loop_state \<times> 'w" where
  "on_batch lb r env req hooks toolNames approvedIDs calls st w =
     (let (exec, cancelled, w) = ev_tools env w;
          (stop, res, messages, ran) = executeToolBatch (lb_go lb) r hooks (batch_request req (lp_context st)) toolNames approvedIDs exec cancelled
            (run_result.truncate (lp_result st)) (lp_messages st) calls
      in (stop, drop (length (lp_messages st)) messages,
          st\<lparr>lp_messages := messages, lp_result := run_result.extend res (run_result.more (lp_result st)), lp_ran := lp_ran st @ ran\<rparr>, w))"

text \<open>After a batch that did not stop: reflection may add a message.\<close>

definition after_batch :: "run_libs \<Rightarrow> runner \<Rightarrow> 'w run_env \<Rightarrow> agent_request \<Rightarrow> bool \<Rightarrow> nat \<Rightarrow> loop_state \<Rightarrow> 'w \<Rightarrow> 'w step_result" where
  "after_batch lb r env req stop stepStart st w =
     (if stop then Stop (Finished (hydrate st (lp_result st)) None) st w
      else case maybeReflect (lb_go lb) (lb_reflect lb) r (ev_chat env) req (lp_result st) (drop stepStart (rr_Steps (lp_result st))) w of
        (None, w) \<Rightarrow> Stop Panicked st w
      | (Some (None, result), w) \<Rightarrow> Next (st\<lparr>lp_result := result\<rparr>) w
      | (Some (Some feedback, result), w) \<Rightarrow>
          (case append_transcript lb r env req [feedback] (st\<lparr>lp_result := result, lp_messages := lp_messages st @ [feedback]\<rparr>) w of
             (st, w) \<Rightarrow> Next st w))"

section \<open>The phases of an iteration\<close>

text \<open>Steering messages join the transcript without being written by the runner.\<close>

definition steer :: "'w run_env \<Rightarrow> loop_state \<Rightarrow> 'w \<Rightarrow> loop_state \<times> 'w" where
  "steer env st w =
     (let (texts, w) = ev_steering env w;
          added = map (plain_message RoleDeveloper) (filter (\<lambda>s. TrimSpace s \<noteq> []) texts)
      in (st\<lparr>lp_messages := lp_messages st @ added, lp_transcript := lp_transcript st @ added,
             lp_persisted := lp_persisted st + int (length added), lp_cursor := lp_cursor st + int (length added)\<rparr>, w))"

definition appendUniqueStrings :: "string list \<Rightarrow> string list \<Rightarrow> string list" where
  "appendUniqueStrings left right = rev (remdups (rev (filter (\<lambda>v. v \<noteq> []) (left @ right))))"

definition stringDifference :: "string list \<Rightarrow> string list \<Rightarrow> string list" where
  "stringDifference values baseline = filter (\<lambda>v. v \<noteq> [] \<and> v \<notin> set baseline) values"

definition toolNamesFromMessages :: "chat_message list \<Rightarrow> string list" where
  "toolNamesFromMessages messages =
     rev (remdups (rev (filter (\<lambda>n. n \<noteq> []) (map (\<lambda>c. TrimSpace (tc_Name c)) (concat (map cm_ToolCalls messages))))))"

definition mergeRuleTraces :: "rule_trace \<Rightarrow> rule_trace \<Rightarrow> rule_trace" where
  "mergeRuleTraces persistent dynamic = dynamic\<lparr>rt_Loaded := appendUniqueStrings (rt_Loaded persistent) (rt_Loaded dynamic),
     rt_EstimatedUsed := rt_EstimatedUsed dynamic + rt_EstimatedUsed persistent\<rparr>"

text \<open>Compaction before a follow-up turn, when the prompt has reached a limit.\<close>

definition compact_phase :: "run_libs \<Rightarrow> runner \<Rightarrow> 'w run_env \<Rightarrow> agent_request \<Rightarrow> tool_definition list \<Rightarrow> loop_state \<Rightarrow> 'w \<Rightarrow> 'w step_result" where
  "compact_phase lb r env req tools st w =
     (let lib = lb_go lb; tik = lb_tik lb; al = lb_agent lb; status = runtimeTokenStatus lib tik al req (lp_base st) (lp_transcript st) tools in
      if \<not> lp_needsFollowUp st \<or> \<not> st_TokenLimitReached status then Next st w
      else case compactRuntimeTranscript lib tik al (ev_chat env) (ev_ctx_err env) req (lp_transcript st) w of
        (None, w) \<Rightarrow> Stop Panicked st w
      | (Some (compacted, u, trace), w) \<Rightarrow>
          (let previous = lp_transcript st;
               trace = trace\<lparr>tr_BeforeTokens := st_Measured status, tr_Threshold := st_Limit status,
                 tr_AfterTokens := int (modelMessagesTokens lib tik al req compacted)\<rparr>;
               (err, w) = (if tr_Status trace = ''completed''
                           then persistRuntimeCompaction lib tik al (ev_snapshots env) (ev_token env) r req trace previous compacted w else (None, w));
               trace = (case err of None \<Rightarrow> trace | Some e \<Rightarrow> trace\<lparr>tr_Status := ''failed'', tr_Error := ''persist runtime compaction: '' @ e\<rparr>);
               base = (if tr_Status trace = ''completed'' \<and> aq_TokenBudgetCompaction req
                       then baseMessagesAfterTokenBudget lib tik req (lp_base st) (aq_RetainClientDeveloperMessages req) else lp_base st);
               cx = lp_context st;
               cx = cx\<lparr>cx_Compactions := cx_Compactions cx @ [trace], cx_SavedTokens := cx_SavedTokens cx + tr_SavedTokens trace,
                 cx_Compressed := appendUniqueStrings (cx_Compressed cx) [''runtime_model_compaction'']\<rparr>;
               result = (lp_result st)\<lparr>ar_Usage := addUsage (ar_Usage (lp_result st)) u\<rparr>;
               st = st\<lparr>lp_transcript := compacted, lp_persisted := int (length compacted), lp_base := base, lp_context := cx, lp_result := result\<rparr>
           in if tr_Status trace = ''failed''
              then (let result = add_step r (result\<lparr>rr_StopReason := ''llm_error''\<rparr>) ((empty_step r ''error'')\<lparr>rs_Error := tr_Error trace\<rparr>);
                        result = result\<lparr>ar_Context := cx\<rparr>
                    in Stop (Finished result (Some (tr_Error trace))) (st\<lparr>lp_result := result\<rparr>) w)
              else Next st w))"

definition planning_of :: "agent_request \<Rightarrow> tool_definition list \<Rightarrow> int \<Rightarrow> loop_state \<Rightarrow> planning_state" where
  "planning_of req tools iteration st =
     \<lparr>ps_Iteration = iteration + 1, ps_SystemPrompt = aq_SystemPrompt req, ps_Task = aq_Task req, ps_Mode = aq_Mode req,
      ps_RiskLevel = aq_RuleRiskLevel req, ps_Tags = aq_RuleTags req, ps_UsedToolNames = toolNamesFromMessages (lp_transcript st),
      ps_AvailableTools = tools, ps_BaseMessages = lp_base st, ps_Transcript = lp_transcript st, ps_MaxInputTokens = aq_MaxInputTokens req,
      ps_ContextWindow = aq_ContextWindowTokens req, ps_ReservedOutput = aq_ReservedOutputTokens req,
      ps_SafetyMargin = aq_ContextSafetyMarginTokens req, ps_MaxRuleTokens = aq_MaxRuleTokens req, ps_ProviderType = aq_ProviderType req,
      ps_Model = aq_Model req, ps_Rules = aq_Rules req\<rparr>"

definition plan_phase :: "run_libs \<Rightarrow> agent_request \<Rightarrow> tool_definition list \<Rightarrow> int \<Rightarrow> loop_state \<Rightarrow> loop_state" where
  "plan_phase lb req tools iteration st =
     (let plan = Plan (lb_go lb) (lb_tik lb) (lb_rules lb) (lb_agent lb) (planning_of req tools iteration st);
          messages = assembleRoundMessages (lp_base st) (ruleMessages (pl_Rules plan)) (lp_transcript st);
          loaded = rt_Loaded (pl_Trace plan);
          estimated = int (estimateMessagesTokens messages);
          cx = lp_context st;
          cx = cx\<lparr>cx_RuleTrace := mergeRuleTraces (aq_RuleTrace req) (pl_Trace plan), cx_RuleBudget := pl_Budget plan,
            cx_RuleRounds := cx_RuleRounds cx @ [\<lparr>rn_Iteration = iteration + 1, rn_Loaded = stringDifference loaded (lp_previousRules st),
              rn_Removed = stringDifference (lp_previousRules st) loaded, rn_Trace = pl_Trace plan, rn_Budget = pl_Budget plan,
              rn_EstimatedPromptTokens = estimated, rn_ProviderPromptTokens = 0\<rparr>],
            cx_EstimatedPromptTokens := cx_EstimatedPromptTokens cx + estimated\<rparr>
      in st\<lparr>lp_messages := messages, lp_context := cx, lp_previousRules := loaded, lp_needsFollowUp := False,
            lp_result := (lp_result st)\<lparr>ar_Context := cx, rr_Iterations := iteration + 1\<rparr>\<rparr>)"

text \<open>The usage a provider reports corrects the estimate of the last round.\<close>

definition record_prompt_tokens :: "int \<Rightarrow> context_trace \<Rightarrow> context_trace" where
  "record_prompt_tokens n cx =
     (let provider = cx_ProviderPromptTokens cx + n in
      cx\<lparr>cx_ProviderPromptTokens := provider, cx_TokenEstimationError := provider - cx_EstimatedPromptTokens cx,
         cx_RuleRounds := (if cx_RuleRounds cx = [] then []
           else butlast (cx_RuleRounds cx) @ [(last (cx_RuleRounds cx))\<lparr>rn_ProviderPromptTokens := n\<rparr>])\<rparr>)"

definition record_response :: "runner \<Rightarrow> chat_response \<Rightarrow> loop_state \<Rightarrow> loop_state" where
  "record_response r resp st =
     (let result = (lp_result st)\<lparr>ar_Usage := addUsage (ar_Usage (lp_result st)) (cr_Usage resp)\<rparr>;
          reported = 0 < PromptTokens (cr_Usage resp);
          cx = (if reported then record_prompt_tokens (PromptTokens (cr_Usage resp)) (lp_context st) else lp_context st);
          result = (if reported then result\<lparr>ar_Context := cx\<rparr> else result);
          assistant = cr_Message resp;
          role = (if cm_Role assistant = [] then RoleAssistant else cm_Role assistant);
          result = add_step r result ((empty_step r ''llm_response'')\<lparr>rs_Role := role, rs_Content := cm_Content assistant,
            rs_TokenCount := TotalTokens (cr_Usage resp)\<rparr>);
          result = (if cr_ProposedPlan resp \<noteq> []
            then add_step r result ((empty_step r ''proposed_plan'')\<lparr>rs_Role := RoleAssistant, rs_Content := cr_ProposedPlan resp\<rparr>) else result)
      in st\<lparr>lp_result := result, lp_context := cx\<rparr>)"

definition answer_step :: "runner \<Rightarrow> agent_result \<Rightarrow> string \<Rightarrow> agent_result" where
  "answer_step r result content =
     add_step r result ((empty_step r ''final_answer'')\<lparr>rs_Role := RoleAssistant, rs_Content := content\<rparr>)"

text \<open>A response without tool calls is the final answer.\<close>

definition finish_answer :: "run_libs \<Rightarrow> runner \<Rightarrow> 'w run_env \<Rightarrow> agent_request \<Rightarrow> chat_message \<Rightarrow> loop_state \<Rightarrow> 'w \<Rightarrow> 'w step_result" where
  "finish_answer lb r env req assistant st w =
     (let result = (lp_result st)\<lparr>rr_FinalAnswer := cm_Content assistant, rr_StopReason := ''final_answer''\<rparr>;
          rows = rows_of lb req result [assistant] (lp_cursor st);
          (_, messageID, result, w) = persistTranscriptEntries lb r env req result [assistant] (lp_persisted st) (lp_cursor st) w;
          result = answer_step r (result\<lparr>ar_AssistantMessageID := messageID\<rparr>) (StripCitations (lb_go lb) (cm_Content assistant))
      in Stop (Finished result None) (st\<lparr>lp_result := result, lp_cursor := lp_cursor st + 1, lp_rows := lp_rows st @ rows\<rparr>) w)"

definition tool_phase :: "run_libs \<Rightarrow> runner \<Rightarrow> 'w run_env \<Rightarrow> agent_request \<Rightarrow> hook_chain \<Rightarrow> string list \<Rightarrow> chat_message \<Rightarrow> loop_state \<Rightarrow> 'w \<Rightarrow> 'w step_result" where
  "tool_phase lb r env req hooks toolNames assistant st w =
     (let st = st\<lparr>lp_messages := lp_messages st @ [assistant]\<rparr>;
          stepStart = length (rr_Steps (lp_result st));
          (stop, newEntries, st, w) = on_batch lb r env req hooks toolNames [] (cm_ToolCalls assistant) st w;
          (st, w) = append_transcript lb r env req [assistant] st w;
          (st, w) = append_transcript lb r env req newEntries st w
      in case after_batch lb r env req stop stepStart st w of
           Stop out st w \<Rightarrow> Stop out st w
         | Next st w \<Rightarrow> Next (st\<lparr>lp_needsFollowUp := True\<rparr>) w)"

definition turn_phase :: "run_libs \<Rightarrow> runner \<Rightarrow> 'w run_env \<Rightarrow> agent_request \<Rightarrow> hook_chain \<Rightarrow> string list \<Rightarrow> loop_state \<Rightarrow> 'w \<Rightarrow> 'w step_result" where
  "turn_phase lb r env req hooks toolNames st w =
     (let ctx_err = ev_ctx_err env w;
          (streaming, chat, w) = ev_turn env w (lp_messages st);
          (w, resp) = executeModelTurn (ev_unsupported env) (ev_observer env) w ctx_err streaming chat;
          st = st\<lparr>lp_sent := lp_sent st @ [lp_messages st]\<rparr>
      in case resp of
           Inl err \<Rightarrow>
             if ev_is_cancelled env err \<or> ev_is_deadline env err then stop_with_context env req toolNames st err w
             else
               (let result = add_step r ((lp_result st)\<lparr>rr_StopReason := ''llm_error''\<rparr>) ((empty_step r ''error'')\<lparr>rs_Error := err\<rparr>)
                in Stop (Finished result (Some err)) (st\<lparr>lp_result := result\<rparr>) w)
         | Inr resp \<Rightarrow>
             (let st = record_response r resp st;
                  assistant = (cr_Message resp)\<lparr>cm_Role := (if cm_Role (cr_Message resp) = [] then RoleAssistant else cm_Role (cr_Message resp))\<rparr>
              in if cm_ToolCalls assistant = [] then finish_answer lb r env req assistant st w
                 else tool_phase lb r env req hooks toolNames assistant st w))"

definition iterate :: "run_libs \<Rightarrow> runner \<Rightarrow> 'w run_env \<Rightarrow> agent_request \<Rightarrow> hook_chain \<Rightarrow> string list \<Rightarrow> tool_definition list \<Rightarrow> int \<Rightarrow>
    loop_state \<Rightarrow> 'w \<Rightarrow> 'w step_result" where
  "iterate lb r env req hooks toolNames tools iteration st w =
     (let (st, w) = steer env st w in
      case ev_ctx_err env w of
        Some err \<Rightarrow> stop_with_context env req toolNames st err w
      | None \<Rightarrow>
          (case compact_phase lb r env req tools st w of
             Stop out st w \<Rightarrow> Stop out st w
           | Next st w \<Rightarrow> turn_phase lb r env req hooks toolNames (plan_phase lb req tools iteration st) w))"

text \<open>The loop: \<open>n\<close> iterations are left, the next one is number \<open>MaxIterations - n\<close>.\<close>

definition stop_max_iterations :: "runner \<Rightarrow> loop_state \<Rightarrow> agent_result" where
  "stop_max_iterations r st =
     answer_step r ((lp_result st)\<lparr>rr_StopReason := ''max_iterations_exceeded'',
       rr_FinalAnswer := ''Agent stopped because max_iterations was exceeded.''\<rparr>) ''Agent stopped because max_iterations was exceeded.''"

primrec run_loop :: "run_libs \<Rightarrow> runner \<Rightarrow> 'w run_env \<Rightarrow> agent_request \<Rightarrow> hook_chain \<Rightarrow> string list \<Rightarrow> tool_definition list \<Rightarrow> nat \<Rightarrow>
    loop_state \<Rightarrow> 'w \<Rightarrow> run_outcome \<times> loop_state \<times> 'w" where
  "run_loop lb r env req hooks toolNames tools 0 st w =
     (Finished (stop_max_iterations r st) None, st\<lparr>lp_result := stop_max_iterations r st\<rparr>, w)"
| "run_loop lb r env req hooks toolNames tools (Suc n) st w =
     (case iterate lb r env req hooks toolNames tools (aq_MaxIterations req - int (Suc n)) st w of
        Stop out st w \<Rightarrow> (out, st, w)
      | Next st w \<Rightarrow> run_loop lb r env req hooks toolNames tools n st w)"

section \<open>Run\<close>

definition apply_defaults :: "agent_request \<Rightarrow> agent_request" where
  "apply_defaults req =
     (let par = (if rq_MaxParallelTools req \<le> 0 then 8 else rq_MaxParallelTools req) in
      req\<lparr>aq_Task := TrimSpace (aq_Task req), aq_MaxIterations := (if aq_MaxIterations req \<le> 0 then 8 else aq_MaxIterations req),
          rq_MaxToolCalls := (if rq_MaxToolCalls req \<le> 0 then 16 else rq_MaxToolCalls req),
          rq_MaxParallelTools := (if 64 < par then 64 else par)\<rparr>)"

fun tool_definitions :: "string list \<Rightarrow> runtime_tool option list \<Rightarrow> string + tool_definition list" where
  "tool_definitions seen [] = Inr []"
| "tool_definitions seen (item # items) =
     (case item of
        None \<Rightarrow> tool_definitions seen items
      | Some t \<Rightarrow>
          (let name = TrimSpace (rt_Name t) in
           if name = [] then tool_definitions seen items
           else if name \<in> set seen then Inl (''duplicate tool name: '' @ name)
           else (case tool_definitions (name # seen) items of
                   Inl e \<Rightarrow> Inl e
                 | Inr ds \<Rightarrow> Inr (\<lparr>td_Name = name, td_Description = rt_Description t, td_Parameters = rt_Parameters t\<rparr> # ds))))"

definition start_result :: "agent_request \<Rightarrow> agent_result" where
  "start_result req =
     \<lparr>rr_FinalAnswer = [], rr_StopReason = [], rr_Iterations = 0, rr_ToolCalls = 0, rr_Steps = aq_ResumeSteps req, rr_HookTrace = [],
      rr_Approval = None, rr_Checkpoint = None, rr_Emitted = [], ar_Usage = no_usage, ar_AssistantMessageID = 0, ar_Context = no_context,
      ar_Reflection = \<lparr>rf_Inline = [], rf_TriggerFingerprints = [], rf_Errors = [], rf_Usage = no_usage\<rparr>\<rparr>"

definition overflow_error :: "context_trace \<Rightarrow> string" where
  "overflow_error cx = ''mandatory rules exceed the configured input context budget: mandatory_tokens='' @ itoa (cx_MandatoryTokens cx) @
     '' budget_tokens='' @ itoa (cx_MandatoryBudgetTokens cx) @ '' deficit_tokens='' @ itoa (cx_MandatoryDeficitTokens cx)"

text \<open>The context of a fresh run.\<close>

definition fresh_context :: "run_libs \<Rightarrow> agent_request \<Rightarrow> string + (chat_message list \<times> context_trace)" where
  "fresh_context lb req =
     (let (base, cx) = Build (lb_go lb) (lb_tik lb) req;
          counter = modelTokenCount (lb_go lb) (lb_tik lb) req ''token counter probe'';
          cx = cx\<lparr>cx_TokenCounterMethod := ct_Method counter, cx_TokenCounterError := ct_Error counter,
            cx_AutoCompactTokenLimit := autoCompactLimit req, cx_AutoCompactLimitScope := autoCompactScope req, cx_RuleHash := rq_RuleHash req\<rparr>
      in if cx_CoreOverflow cx then Inl (overflow_error cx) else Inr (base, cx))"

definition start_state :: "agent_request \<Rightarrow> chat_message list \<Rightarrow> context_trace \<Rightarrow> loop_state" where
  "start_state req base cx =
     \<lparr>lp_messages = base, lp_base = base, lp_transcript = [],
      lp_persisted = (if 0 < aq_ResumePersistedMessageCount req then aq_ResumePersistedMessageCount req else 0),
      lp_cursor = aq_ResumeTranscriptCursor req, lp_previousRules = [], lp_context = cx,
      lp_result = (start_result req)\<lparr>ar_Context := cx\<rparr>, lp_needsFollowUp = False, lp_sent = [], lp_ran = [],
      lp_rows = []\<rparr>"

text \<open>A resumed run writes the entries past its cursor and executes the calls left unresolved.\<close>

definition resume_start :: "run_libs \<Rightarrow> runner \<Rightarrow> 'w run_env \<Rightarrow> agent_request \<Rightarrow> loop_state \<Rightarrow> 'w \<Rightarrow> loop_state \<times> 'w" where
  "resume_start lb r env req st w =
     (let transcript = aq_ResumeTranscript req;
          cursor = (if lp_cursor st < int (length transcript) then int (length transcript) else lp_cursor st);
          persisted = (if int (length transcript) < lp_persisted st then int (length transcript) else lp_persisted st);
          newEntries = drop (nat persisted) transcript;
          rows = rows_of lb req (lp_result st) newEntries cursor;
          (persisted, _, result, w) = persistTranscriptEntries lb r env req (lp_result st) newEntries persisted cursor w
      in (st\<lparr>lp_transcript := transcript, lp_persisted := persisted, lp_cursor := cursor + int (length newEntries),
             lp_messages := assembleRoundMessages (lp_base st) [] transcript, lp_rows := lp_rows st @ rows,
             lp_result := result\<lparr>rr_Iterations := aq_ResumeIteration req, rr_ToolCalls := aq_ResumeToolCalls req, ar_Context := lp_context st\<rparr>\<rparr>, w))"

definition resume_batch :: "run_libs \<Rightarrow> runner \<Rightarrow> 'w run_env \<Rightarrow> agent_request \<Rightarrow> hook_chain \<Rightarrow> string list \<Rightarrow> loop_state \<Rightarrow> 'w \<Rightarrow> 'w step_result" where
  "resume_batch lb r env req hooks toolNames st w =
     (let unresolved = findUnresolvedToolCalls (lp_messages st) toolNames in
      if unresolved = [] then Next st w
      else
        (let stepStart = length (rr_Steps (lp_result st));
             (stop, newEntries, st, w) = on_batch lb r env req hooks toolNames (aq_ResumeApprovedToolCallIDs req) unresolved st w;
             (st, w) = append_transcript lb r env req newEntries st w
         in after_batch lb r env req stop stepStart st w))"

definition begin_run :: "run_libs \<Rightarrow> runner \<Rightarrow> 'w run_env \<Rightarrow> agent_request \<Rightarrow> hook_chain \<Rightarrow> string list \<Rightarrow> 'w \<Rightarrow> string + 'w step_result" where
  "begin_run lb r env req hooks toolNames w =
     (if aq_ResumeMessages req \<noteq> [] then
        (let base = (if aq_ResumeBaseMessages req \<noteq> [] then aq_ResumeBaseMessages req else aq_ResumeMessages req);
             cx = (aq_ResumeContext req)\<lparr>cx_Strategy := ''resumed_from_checkpoint''\<rparr>;
             (st, w) = resume_start lb r env req (start_state req base cx) w
         in Inr (resume_batch lb r env req hooks toolNames st w))
      else
        (case fresh_context lb req of
           Inl e \<Rightarrow> Inl e
         | Inr (base, cx) \<Rightarrow> Inr (Next (start_state req base cx) w)))"

definition Run :: "run_libs \<Rightarrow> runner \<Rightarrow> 'w run_env \<Rightarrow> agent_request \<Rightarrow> 'w \<Rightarrow> run_outcome \<times> loop_state option \<times> 'w" where
  "Run lb r env req0 w =
     (if TrimSpace (aq_Model req0) = [] then (Refused ''agent model is required'', None, w)
      else if TrimSpace (aq_Task req0) = [] then (Refused ''agent task is required'', None, w)
      else
        (let req = apply_defaults req0;
             hooks = (if hc_Pre (aq_ToolHookChain req) = [] \<and> hc_Post (aq_ToolHookChain req) = []
                      then DefaultToolHookChain (lb_go lb) else aq_ToolHookChain req)
         in case tool_definitions [] (rq_Tools req) of
              Inl e \<Rightarrow> (Refused e, None, w)
            | Inr tools \<Rightarrow>
                (let toolNames = map td_Name tools;
                     start = (if aq_ResumeMessages req \<noteq> [] then aq_ResumeIteration req else 0)
                 in case begin_run lb r env req hooks toolNames w of
                      Inl e \<Rightarrow> (Refused e, None, w)
                    | Inr (Stop out st w) \<Rightarrow> (out, Some st, w)
                    | Inr (Next st w) \<Rightarrow>
                        (case run_loop lb r env req hooks toolNames tools (nat (aq_MaxIterations req - start)) st w of
                           (out, st, w) \<Rightarrow> (out, Some st, w)))))"

end
