(* ===== verification/Context_Assembler_Props.thy ===== *)
theory Context_Assembler_Props
  imports Context_Assembler Tool_Policy_Props Compaction_Props
begin

text \<open>
  The correctness of the initial context: the budgets, the mandatory rules, the task, and three
  consequences of how history is represented that the callers have to know about.
\<close>

section \<open>Truncation\<close>

lemma take_runes_prefix: "\<exists>k\<le>length rs. take_runes room rs = concat (take k rs)"
proof (induction rs arbitrary: room)
  case (Cons r rs)
  show ?case
  proof (cases "room < length r")
    case False
    obtain k where "k \<le> length rs" "take_runes (room - length r) rs = concat (take k rs)" using Cons.IH by blast
    with False show ?thesis by (intro exI [of _ "Suc k"]) simp
  qed (auto intro: exI [of _ 0])
qed simp

lemma take_runes_length: "length (take_runes room rs) \<le> room"
proof (induction rs arbitrary: room)
  case (Cons r rs)
  show ?case using Cons.IH [of "room - length r"] by auto
qed simp

lemma truncateRunes_prefix: "truncateRunes content n = content \<or> (\<exists>k. truncateRunes content n = rune_prefix content k)"
  unfolding truncateRunes_def rune_prefix_def using take_runes_prefix by auto

lemma truncateRunes_length: "0 < n \<Longrightarrow> int (length (truncateRunes content n)) \<le> n"
  using take_runes_length [of "nat n" "runes content"] by (auto simp: truncateRunes_def)

section \<open>One block\<close>

lemma build_limits_pos: "build_limits req = (maxChars, maxTokens) \<Longrightarrow> 0 < maxChars \<and> 0 < maxTokens"
proof -
  have "0 < repeat_x_tokens n" if "0 < n" for n
    using that by (auto simp: repeat_x_tokens_def estimateContextTokens_def Let_def)
  then show "build_limits req = (maxChars, maxTokens) \<Longrightarrow> 0 < maxChars \<and> 0 < maxTokens"
    by (auto simp: build_limits_def Let_def defaultMaxInputChars_def defaultMaxInputTokens_def split: if_splits)
qed

lemma pinned_room_bounds: "0 < maxChars \<Longrightarrow> 0 < pinned_room maxChars maxTokens used usedTokens \<and> pinned_room maxChars maxTokens used usedTokens \<le> maxChars"
  by (auto simp: pinned_room_def Let_def)

lemma mandatory_trace_fields [simp]:
  "cx_Blocks (mandatory_trace m u k t) = cx_Blocks t" "cx_CoreOverflow (mandatory_trace m u k t) = cx_CoreOverflow t"
  "cx_TokenAudit (mandatory_trace m u k t) = cx_TokenAudit t" "cx_EstimatedTokens (mandatory_trace m u k t) = cx_EstimatedTokens t"
  by (simp_all add: mandatory_trace_def Let_def)

text \<open>What a block may do to the state: leave it out, with a note, or append one message.\<close>

definition left_out :: "build_state \<Rightarrow> build_state \<Rightarrow> bool" where
  "left_out st st' \<longleftrightarrow> bs_messages st' = bs_messages st \<and> bs_used st' = bs_used st \<and> bs_usedTokens st' = bs_usedTokens st \<and>
     cx_TokenAudit (bs_trace st') = cx_TokenAudit (bs_trace st) \<and> cx_EstimatedTokens (bs_trace st') = cx_EstimatedTokens (bs_trace st) \<and>
     (\<exists>bts. cx_Blocks (bs_trace st') = cx_Blocks (bs_trace st) @ bts \<and> list_all (\<lambda>b. bt_IncludedChars b = 0 \<and> bt_EstimatedTokens b = 0) bts)"

definition added :: "go_lib \<Rightarrow> int \<Rightarrow> int \<Rightarrow> context_block \<Rightarrow> string \<Rightarrow> nat \<Rightarrow> build_state \<Rightarrow> build_state \<Rightarrow> bool" where
  "added lib maxChars maxTokens block content tokens st st' \<longleftrightarrow>
     bs_messages st' = bs_messages st @ [plain_message (cb_Role block) content] \<and>
     bs_used st' = bs_used st + length content \<and> bs_usedTokens st' = bs_usedTokens st + tokens \<and>
     cx_EstimatedTokens (bs_trace st') = cx_EstimatedTokens (bs_trace st) + tokens \<and>
     cx_TokenAudit (bs_trace st') = TokenAudit_add lib (cx_TokenAudit (bs_trace st)) (block_name block) tokens \<and>
     (\<exists>bt. cx_Blocks (bs_trace st') = cx_Blocks (bs_trace st) @ [bt] \<and> bt_IncludedChars bt = length content \<and>
        bt_EstimatedTokens bt = tokens \<and> bt_Pinned bt = cb_Pinned block) \<and>
     int (length content) \<le> maxChars \<and>
     (cb_Pinned block \<or> int (bs_used st') \<le> maxChars \<and> int (bs_usedTokens st') \<le> maxTokens) \<and>
     (content = TrimSpace (cb_Content block) \<or> (\<exists>k. content = rune_prefix (TrimSpace (cb_Content block)) k))"

lemma include_block_added:
  assumes "bs_messages st0 = bs_messages st" "bs_used st0 = bs_used st" "bs_usedTokens st0 = bs_usedTokens st"
    "cx_EstimatedTokens (bs_trace st0) = cx_EstimatedTokens (bs_trace st)" "cx_TokenAudit (bs_trace st0) = cx_TokenAudit (bs_trace st)"
    "cx_Blocks (bs_trace st0) = cx_Blocks (bs_trace st)"
    "bt_Name bt = block_name block" "bt_Pinned bt = cb_Pinned block" "int (length content) \<le> maxChars"
    "cb_Pinned block \<or> int (bs_used st + length content) \<le> maxChars \<and>
       int (bs_usedTokens st + (if mandatory then originalTokens else estimateContextTokens content)) \<le> maxTokens"
    "content = TrimSpace (cb_Content block) \<or> (\<exists>k. content = rune_prefix (TrimSpace (cb_Content block)) k)"
  shows "\<exists>tokens. added lib maxChars maxTokens block content tokens st (include_block lib mandatory originalTokens block content bt st0)"
  using assms
  by (intro exI [of _ "if mandatory then originalTokens else estimateContextTokens content"]) (simp add: added_def include_block_def Let_def)

lemma include_block_core [simp]: "cx_CoreOverflow (bs_trace (include_block lib m n block content bt st)) = cx_CoreOverflow (bs_trace st)"
  by (simp add: include_block_def Let_def)

lemma build_block_cases:
  assumes "0 < maxChars"
  shows "left_out st (build_block lib tik req maxChars maxTokens block st) \<and>
      (TrimSpace (cb_Content block) = [] \<or> isMandatoryRuleBlock lib (block_name block) \<and>
        cx_CoreOverflow (bs_trace (build_block lib tik req maxChars maxTokens block st)) \<or>
        \<not> isMandatoryRuleBlock lib (block_name block) \<and> \<not> cb_Pinned block) \<or>
    (\<exists>content tokens. added lib maxChars maxTokens block content tokens st (build_block lib tik req maxChars maxTokens block st) \<and>
      (isMandatoryRuleBlock lib (block_name block) \<longrightarrow> content = TrimSpace (cb_Content block)))"
proof -
  let ?c = "TrimSpace (cb_Content block)" and ?name = "block_name block" and ?st' = "build_block lib tik req maxChars maxTokens block st"
  let ?m = "isMandatoryRuleBlock lib ?name" and ?n = "block_tokens lib tik req ?name ?c"
  define bt where "bt = \<lparr>bt_Name = ?name, bt_Role = cb_Role block, bt_Pinned = cb_Pinned block, bt_OriginalChars = length ?c,
    bt_IncludedChars = 0, bt_EstimatedTokens = 0, bt_SavedTokens = 0, bt_Status = []\<rparr>"
  define st0 where "st0 = (if ?m then st\<lparr>bs_trace := mandatory_trace maxTokens (bs_usedTokens st) ?n (bs_trace st)\<rparr> else st)"
  have st0: "bs_messages st0 = bs_messages st" "bs_used st0 = bs_used st" "bs_usedTokens st0 = bs_usedTokens st"
    "cx_EstimatedTokens (bs_trace st0) = cx_EstimatedTokens (bs_trace st)" "cx_TokenAudit (bs_trace st0) = cx_TokenAudit (bs_trace st)"
    "cx_Blocks (bs_trace st0) = cx_Blocks (bs_trace st)" by (simp_all add: st0_def)
  define over where "over \<longleftrightarrow> maxChars < int (bs_used st0 + length ?c) \<or> maxTokens < int (bs_usedTokens st0 + ?n)"
  note unfold = build_block_def [of lib tik req maxChars maxTokens block st, unfolded Let_def, folded bt_def st0_def over_def]
  have tokens: "?n = (if ?m then ?n else estimateContextTokens ?c)" by (simp add: block_tokens_def)
  consider (blank) "?c = []" | (fits) "?c \<noteq> []" "\<not> over" | (mandatory) "?c \<noteq> []" over ?m
    | (unpinned) "?c \<noteq> []" over "\<not> ?m" "\<not> cb_Pinned block" | (pinned) "?c \<noteq> []" over "\<not> ?m" "cb_Pinned block" by blast
  then show ?thesis
  proof cases
    case blank
    then show ?thesis by (simp add: unfold left_out_def)
  next
    case fits
    then have "?st' = include_block lib ?m ?n block ?c bt st0" by (simp add: unfold)
    moreover have "\<exists>tokens. added lib maxChars maxTokens block ?c tokens st (include_block lib ?m ?n block ?c bt st0)"
      using fits(2) tokens by (intro include_block_added st0) (auto simp: bt_def over_def st0)
    ultimately show ?thesis by auto
  next
    case mandatory
    then show ?thesis by (simp add: unfold left_out_def st0 bt_def)
  next
    case unpinned
    then show ?thesis by (simp add: unfold left_out_def st0 bt_def)
  next
    case pinned
    let ?room = "pinned_room maxChars maxTokens (bs_used st0) (bs_usedTokens st0)"
    note room = pinned_room_bounds [OF assms, of maxTokens "bs_used st0" "bs_usedTokens st0"]
    show ?thesis
    proof (cases "?room < int (length ?c)")
      case True
      let ?cut = "truncateRunes ?c ?room"
      have "\<exists>st1 bt1. ?st' = include_block lib ?m ?n block ?cut bt1 st1 \<and> bs_messages st1 = bs_messages st \<and> bs_used st1 = bs_used st \<and>
          bs_usedTokens st1 = bs_usedTokens st \<and> cx_EstimatedTokens (bs_trace st1) = cx_EstimatedTokens (bs_trace st) \<and>
          cx_TokenAudit (bs_trace st1) = cx_TokenAudit (bs_trace st) \<and> cx_Blocks (bs_trace st1) = cx_Blocks (bs_trace st) \<and>
          bt_Name bt1 = ?name \<and> bt_Pinned bt1 = cb_Pinned block"
        using pinned True by (intro exI conjI) (simp add: unfold, simp_all add: st0 bt_def)
      then obtain st1 bt1 where st1: "?st' = include_block lib ?m ?n block ?cut bt1 st1" "bs_messages st1 = bs_messages st" "bs_used st1 = bs_used st"
          "bs_usedTokens st1 = bs_usedTokens st" "cx_EstimatedTokens (bs_trace st1) = cx_EstimatedTokens (bs_trace st)"
          "cx_TokenAudit (bs_trace st1) = cx_TokenAudit (bs_trace st)" "cx_Blocks (bs_trace st1) = cx_Blocks (bs_trace st)"
          "bt_Name bt1 = ?name" "bt_Pinned bt1 = cb_Pinned block" by blast
      have "\<exists>tokens. added lib maxChars maxTokens block ?cut tokens st (include_block lib ?m ?n block ?cut bt1 st1)"
        using room truncateRunes_length [of ?room ?c] truncateRunes_prefix [of ?c ?room] pinned(4)
        by (intro include_block_added st1(2-)) auto
      then show ?thesis using st1(1) pinned(3) by auto
    next
      case False
      with pinned have "?st' = include_block lib ?m ?n block ?c bt st0" by (simp add: unfold)
      moreover have "\<exists>tokens. added lib maxChars maxTokens block ?c tokens st (include_block lib ?m ?n block ?c bt st0)"
        using False room pinned(4) by (intro include_block_added st0) (auto simp: bt_def)
      ultimately show ?thesis by auto
    qed
  qed
qed

lemma build_block_core: "cx_CoreOverflow (bs_trace st) \<Longrightarrow> cx_CoreOverflow (bs_trace (build_block lib tik req maxChars maxTokens block st))"
  by (simp add: build_block_def Let_def)

section \<open>The whole context\<close>

definition audit_sum :: "token_audit \<Rightarrow> nat" where
  "audit_sum a = ta_System a + ta_Profile a + ta_RulesMandatory a + ta_RulesOptional a + ta_ToolSchema a + ta_History a +
     ta_Memory a + ta_ReflectionMemory a + ta_Retrieval a + ta_Task a"

lemma audit_sum_add [simp]: "audit_sum (TokenAudit_add lib a name tokens) = audit_sum a + tokens"
  by (simp add: audit_sum_def TokenAudit_add_def Let_def)

lemma audit_sum_total [simp]: "audit_sum (a\<lparr>ta_Total := n\<rparr>) = audit_sum a"
  by (simp add: audit_sum_def)

definition unpinned :: "context_trace \<Rightarrow> block_trace list" where
  "unpinned t = filter (\<lambda>b. \<not> bt_Pinned b) (cx_Blocks t)"

definition budgeted :: "int \<Rightarrow> int \<Rightarrow> build_state \<Rightarrow> bool" where
  "budgeted maxChars maxTokens st \<longleftrightarrow>
     (\<Sum>m\<leftarrow>bs_messages st. length (cm_Content m)) = bs_used st \<and> (\<Sum>b\<leftarrow>cx_Blocks (bs_trace st). bt_IncludedChars b) = bs_used st \<and>
     (\<Sum>b\<leftarrow>cx_Blocks (bs_trace st). bt_EstimatedTokens b) = bs_usedTokens st \<and> cx_EstimatedTokens (bs_trace st) = bs_usedTokens st \<and>
     audit_sum (cx_TokenAudit (bs_trace st)) = bs_usedTokens st \<and>
     list_all (\<lambda>m. int (length (cm_Content m)) \<le> maxChars) (bs_messages st) \<and>
     int (\<Sum>b\<leftarrow>unpinned (bs_trace st). bt_IncludedChars b) \<le> maxChars \<and>
     int (\<Sum>b\<leftarrow>unpinned (bs_trace st). bt_EstimatedTokens b) \<le> maxTokens"

lemma sum_list_filter_le: "(\<Sum>x\<leftarrow>filter P xs. f x) \<le> (\<Sum>x\<leftarrow>xs. f x :: nat)"
  by (induction xs) auto

lemma sum_list_zero: "list_all (\<lambda>x. f x = (0::nat)) xs \<Longrightarrow> (\<Sum>x\<leftarrow>filter P xs. f x) = 0"
  by (induction xs) auto

lemma left_out_budgeted: "left_out st st' \<Longrightarrow> budgeted c n st \<Longrightarrow> budgeted c n st'"
proof -
  assume l: "left_out st st'" and b: "budgeted c n st"
  obtain bts where bts: "cx_Blocks (bs_trace st') = cx_Blocks (bs_trace st) @ bts"
    "list_all (\<lambda>b. bt_IncludedChars b = 0 \<and> bt_EstimatedTokens b = 0) bts"
    using l by (auto simp: left_out_def)
  from bts(2) have z: "list_all (\<lambda>b. bt_IncludedChars b = 0) bts" "list_all (\<lambda>b. bt_EstimatedTokens b = 0) bts"
    by (simp_all add: list_all_iff)
  have "(\<Sum>b\<leftarrow>filter P bts. bt_IncludedChars b) = 0" "(\<Sum>b\<leftarrow>filter P bts. bt_EstimatedTokens b) = 0" for P
    using sum_list_zero [OF z(1)] sum_list_zero [OF z(2)] by blast+
  note zero = this [of "\<lambda>b. \<not> bt_Pinned b"] this [of "\<lambda>_. True"]
  show ?thesis using l b bts(1) zero by (simp add: budgeted_def left_out_def unpinned_def del: sum_list_eq_0_iff)
qed

lemma added_budgeted:
  assumes "added lib c n block content tokens st st'" "budgeted c n st"
  shows "budgeted c n st'"
proof -
  obtain bt where bt: "cx_Blocks (bs_trace st') = cx_Blocks (bs_trace st) @ [bt]" "bt_IncludedChars bt = length content"
    "bt_EstimatedTokens bt = tokens" "bt_Pinned bt = cb_Pinned block" using assms(1) by (auto simp: added_def)
  have "(\<Sum>b\<leftarrow>unpinned (bs_trace st). bt_IncludedChars b) \<le> bs_used st" "(\<Sum>b\<leftarrow>unpinned (bs_trace st). bt_EstimatedTokens b) \<le> bs_usedTokens st"
    using assms(2) sum_list_filter_le [of bt_IncludedChars _ "cx_Blocks (bs_trace st)"]
      sum_list_filter_le [of bt_EstimatedTokens _ "cx_Blocks (bs_trace st)"] by (simp_all add: budgeted_def unpinned_def)
  then show ?thesis
    using assms bt by (auto simp: budgeted_def added_def unpinned_def plain_message_def)
qed

lemma build_block_budgeted:
  "0 < maxChars \<Longrightarrow> budgeted maxChars maxTokens st \<Longrightarrow> budgeted maxChars maxTokens (build_block lib tik req maxChars maxTokens block st)"
  using build_block_cases left_out_budgeted added_budgeted by metis

lemma build_fold_budgeted:
  "0 < maxChars \<Longrightarrow> budgeted maxChars maxTokens st \<Longrightarrow> budgeted maxChars maxTokens (fold (build_block lib tik req maxChars maxTokens) blocks st)"
  by (induction blocks arbitrary: st) (simp_all add: build_block_budgeted)

text \<open>The start of the loop: the notes of the deduplication.\<close>

definition build_start :: "go_lib \<Rightarrow> agent_request \<Rightarrow> build_state" where
  "build_start lib req =
     \<lparr>bs_messages = [], bs_used = 0, bs_usedTokens = 0,
      bs_trace = foldl pre_trace (no_context\<lparr>cx_MaxChars := fst (build_limits req), cx_MaxInputTokens := snd (build_limits req),
        cx_RuleTrace := aq_RuleTrace req, cx_RuleHash := rq_RuleHash req,
        cx_Strategy := ''token_budget:pinned_recent_summary_dedupe''\<rparr>) (snd (build_blocks lib req))\<rparr>"

lemma Build_eq:
  fixes lib tik req
  assumes "build_limits req = (maxChars, maxTokens)"
  defines "st \<equiv> fold (build_block lib tik req maxChars maxTokens) (fst (build_blocks lib req)) (build_start lib req)"
  shows "Build lib tik req = (bs_messages st, (bs_trace st)\<lparr>cx_UsedChars := bs_used st, cx_UsedTokens := bs_usedTokens st,
     cx_TokenAudit := (cx_TokenAudit (bs_trace st))\<lparr>ta_Total := cx_EstimatedTokens (bs_trace st)\<rparr>\<rparr>)"
  unfolding st_def Build_def build_start_def assms(1) by (simp add: Let_def case_prod_unfold)

lemma pre_trace_fold:
  "cx_Blocks (foldl pre_trace t bts) = cx_Blocks t @ bts" "cx_TokenAudit (foldl pre_trace t bts) = cx_TokenAudit t"
  "cx_EstimatedTokens (foldl pre_trace t bts) = cx_EstimatedTokens t" "cx_CoreOverflow (foldl pre_trace t bts) = cx_CoreOverflow t"
  by (induction bts arbitrary: t) (simp_all add: pre_trace_def Let_def)

lemma dedupe_trace_zero: "dedupe_from lib seen blocks = (kept, tr) \<Longrightarrow> list_all (\<lambda>b. bt_IncludedChars b = 0 \<and> bt_EstimatedTokens b = 0) tr"
  by (induction blocks arbitrary: seen kept tr) (auto simp: omitted_block_def Let_def split: option.splits if_splits prod.splits)

lemma build_start_budgeted: "0 < maxChars \<Longrightarrow> 0 < maxTokens \<Longrightarrow> budgeted maxChars maxTokens (build_start lib req)"
proof -
  assume pos: "0 < maxChars" "0 < maxTokens"
  let ?tr = "snd (build_blocks lib req)"
  obtain kept where "dedupe_from lib [] (aq_ContextBlocks req) = (kept, ?tr)"
    by (cases "dedupe_from lib [] (aq_ContextBlocks req)")
      (simp add: build_blocks_def compressContextBlocks_def dedupeContextBlocks_def Let_def)
  from dedupe_trace_zero [OF this]
  have z: "list_all (\<lambda>b. bt_IncludedChars b = 0) ?tr" "list_all (\<lambda>b. bt_EstimatedTokens b = 0) ?tr" by (simp_all add: list_all_iff)
  have "(\<Sum>b\<leftarrow>filter P ?tr. bt_IncludedChars b) = 0" "(\<Sum>b\<leftarrow>filter P ?tr. bt_EstimatedTokens b) = 0" for P
    using sum_list_zero [OF z(1)] sum_list_zero [OF z(2)] by blast+
  note zero = this [of "\<lambda>b. \<not> bt_Pinned b"] this [of "\<lambda>_. True"]
  show ?thesis
    using pos zero by (simp add: budgeted_def build_start_def pre_trace_fold no_context_def no_audit_def audit_sum_def unpinned_def
        del: sum_list_eq_0_iff)
qed

lemma build_blocks_task: "\<exists>bs. fst (build_blocks lib req) = bs @ [pinned_block ''task'' RoleUser (aq_Task req)]"
  by (simp add: build_blocks_def Let_def case_prod_unfold)

lemma task_not_mandatory: "\<not> isMandatoryRuleBlock lib ''task''"
proof -
  have "TrimSpace ''task'' = ''task''" "is_ascii ''task''" "map ascii_lower ''task'' = ''task''" by code_simp+
  then show ?thesis
    by (simp add: isMandatoryRuleBlock_def tokenAuditCategory_def ToLower_def HasPrefix_def Contains_def Let_def)
qed

text \<open>C33: the initial context of a run: everything that is not pinned fits the byte and the token budget, no
  single message exceeds the byte budget, the reported use is the exact size of the messages and the
  audit by category adds up to the reported tokens, and the last message is the task, whole or cut
  after a rune.\<close>

theorem context_budget:
  assumes "TrimSpace (aq_Task req) \<noteq> []"
  shows "let (maxChars, maxTokens) = build_limits req; (messages, trace) = Build lib tik req in
    int (\<Sum>b\<leftarrow>unpinned trace. bt_IncludedChars b) \<le> maxChars \<and> int (\<Sum>b\<leftarrow>unpinned trace. bt_EstimatedTokens b) \<le> maxTokens \<and>
    list_all (\<lambda>m. int (length (cm_Content m)) \<le> maxChars) messages \<and>
    cx_UsedChars trace = (\<Sum>m\<leftarrow>messages. length (cm_Content m)) \<and>
    cx_UsedTokens trace = audit_sum (cx_TokenAudit trace) \<and> ta_Total (cx_TokenAudit trace) = audit_sum (cx_TokenAudit trace) \<and>
    (\<exists>ms c. messages = ms @ [plain_message RoleUser c] \<and>
       (c = TrimSpace (aq_Task req) \<or> (\<exists>k. c = rune_prefix (TrimSpace (aq_Task req)) k)))"
proof -
  obtain maxChars maxTokens where lim: "build_limits req = (maxChars, maxTokens)" by fastforce
  note pos = build_limits_pos [OF lim]
  define st where "st = fold (build_block lib tik req maxChars maxTokens) (fst (build_blocks lib req)) (build_start lib req)"
  have b: "budgeted maxChars maxTokens st"
    unfolding st_def using pos by (intro build_fold_budgeted build_start_budgeted) auto
  obtain bs where bs: "fst (build_blocks lib req) = bs @ [pinned_block ''task'' RoleUser (aq_Task req)]"
    using build_blocks_task by blast
  define st0 where "st0 = fold (build_block lib tik req maxChars maxTokens) bs (build_start lib req)"
  let ?task = "pinned_block ''task'' RoleUser (aq_Task req)"
  have fields: "cb_Pinned ?task" "block_name ?task = ''task''" "cb_Content ?task = aq_Task req" "cb_Role ?task = RoleUser"
    by (simp_all add: pinned_block_def block_name_def)
  have "st = build_block lib tik req maxChars maxTokens ?task st0" by (simp add: st_def st0_def bs)
  then obtain content tokens where "added lib maxChars maxTokens ?task content tokens st0 st"
    using build_block_cases [OF conjunct1 [OF pos], of st0 lib tik req maxTokens ?task] assms task_not_mandatory fields by auto
  then have "\<exists>ms c. bs_messages st = ms @ [plain_message RoleUser c] \<and>
      (c = TrimSpace (aq_Task req) \<or> (\<exists>k. c = rune_prefix (TrimSpace (aq_Task req)) k))"
    using fields by (auto simp: added_def)
  then show ?thesis
    using b unfolding lim Build_eq [OF lim, of lib tik] st_def [symmetric] by (simp add: budgeted_def unpinned_def)
qed

text \<open>C34: the mandatory rules are never lost: when the context is not refused for their overflow, the text of
  every mandatory rule block is in the messages, uncut.\<close>

theorem mandatory_rules_kept:
  assumes "Build lib tik req = (messages, trace)" "\<not> cx_CoreOverflow trace"
    "block \<in> set (fst (build_blocks lib req))" "isMandatoryRuleBlock lib (block_name block)" "TrimSpace (cb_Content block) \<noteq> []"
  shows "plain_message (cb_Role block) (TrimSpace (cb_Content block)) \<in> set messages"
proof -
  obtain maxChars maxTokens where lim: "build_limits req = (maxChars, maxTokens)" by fastforce
  note pos = conjunct1 [OF build_limits_pos [OF lim]]
  let ?f = "build_block lib tik req maxChars maxTokens" and ?m = "plain_message (cb_Role block) (TrimSpace (cb_Content block))"
  have keep: "?m \<in> set (bs_messages st) \<or> cx_CoreOverflow (bs_trace st) \<Longrightarrow>
      ?m \<in> set (bs_messages (?f b st)) \<or> cx_CoreOverflow (bs_trace (?f b st))" for b st
    using build_block_cases [OF pos, of st lib tik req maxTokens b] build_block_core [of st lib tik req maxChars maxTokens b]
    by (auto simp: left_out_def added_def)
  have step: "?m \<in> set (bs_messages (?f block st)) \<or> cx_CoreOverflow (bs_trace (?f block st))" for st
    using build_block_cases [OF pos, of st lib tik req maxTokens block] assms(4,5) by (auto simp: added_def)
  have "?m \<in> set (bs_messages (fold ?f bs st)) \<or> cx_CoreOverflow (bs_trace (fold ?f bs st))"
    if "block \<in> set bs \<or> ?m \<in> set (bs_messages st) \<or> cx_CoreOverflow (bs_trace st)" for bs st
    using that
  proof (induction bs arbitrary: st)
    case (Cons b bs)
    have "block \<in> set bs \<or> ?m \<in> set (bs_messages (?f b st)) \<or> cx_CoreOverflow (bs_trace (?f b st))"
      using Cons.prems step [of st] keep [of st b] by auto
    from Cons.IH [OF this] show ?case by simp
  qed simp
  from this [of "fst (build_blocks lib req)" "build_start lib req"] assms(1-3) show ?thesis
    unfolding Build_eq [OF lim] by auto
qed

section \<open>What history looks like in the context\<close>

text \<open>\<^verbatim>\<open>buildPreparedConversationContext\<close> turns the messages of the conversation into blocks.\<close>

definition conversation_blocks :: "chat_message list \<Rightarrow> context_block list" where
  "conversation_blocks messages =
     map (\<lambda>m. \<lparr>cb_Name = ''conversation'', cb_Role = cm_Role m, cb_Content = cm_Content m, cb_Pinned = False\<rparr>) messages"

definition sample_agent_request :: agent_request where
  "sample_agent_request =
     \<lparr>rq_AgentID = 1, rq_RunID = 1, rq_DelegationDepth = 0, rq_RuleHash = [], rq_ToolPolicy = sample_policy, rq_Tools = [],
      rq_MaxToolCalls = 0, rq_MaxParallelTools = 0,
      rq_Carried = \<lparr>cy_Context = no_context, cy_Rules = [], cy_ReflectionPolicy = DefaultPolicy\<rparr>,
      aq_OwnerID = 1, aq_ConversationID = None, aq_ProviderType = ''other'', aq_Model = ''m'', aq_CompactionProviderType = [],
      aq_CompactionModel = [], aq_CompactionProviderID = 0, aq_InitialUserMessageID = 0, aq_Mode = [], aq_SystemPrompt = [],
      aq_Task = ''Please delete the old reports.'', aq_EnforceContextPrecedence = False, aq_ReflectionPolicy = DefaultPolicy,
      aq_MaxIterations = 0, aq_MaxInputChars = 60, aq_MaxInputTokens = 0, aq_ContextWindowTokens = 0, aq_ReservedOutputTokens = 0,
      aq_ContextSafetyMarginTokens = 0, aq_ModelAutoCompactTokenLimit = 0, aq_ModelAutoCompactTokenLimitScope = [],
      aq_CompactPrompt = [], aq_TokenBudgetCompaction = False, aq_RetainClientDeveloperMessages = False, aq_MaxRuleTokens = 0,
      aq_RuleTags = [], aq_RuleRiskLevel = [], aq_Rules = None, aq_RuleTrace = no_trace, aq_ContextBlocks = [],
      aq_ToolHookChain = \<lparr>hc_Pre = [], hc_Post = []\<rparr>, aq_HasMessageSink = False, aq_ResumeMessages = [],
      aq_ResumeBaseMessages = [], aq_ResumeTranscript = [], aq_ResumePersistedMessageCount = 0, aq_ResumeTranscriptCursor = 0,
      aq_ResumeSteps = [], aq_ResumeContext = no_context, aq_ResumeIteration = 0, aq_ResumeToolCalls = 0,
      aq_ResumeApprovedToolCallIDs = []\<rparr>"

definition with_history :: "chat_message list \<Rightarrow> agent_request" where
  "with_history messages = sample_agent_request\<lparr>aq_ContextBlocks := conversation_blocks messages\<rparr>"

definition long_text :: "nat \<Rightarrow> string" where
  "long_text n = replicate n (CHR ''a'')"

definition no_tiktoken :: tiktoken where
  "no_tiktoken = (\<lambda>model. None)"

theorem context_budget_witness:
  "let (maxChars, maxTokens) = build_limits (with_history [plain_message RoleUser ''hello'']);
       (messages, trace) = Build sample_lib no_tiktoken (with_history [plain_message RoleUser ''hello'']) in
     int (\<Sum>b\<leftarrow>unpinned trace. bt_IncludedChars b) \<le> maxChars \<and> (\<exists>ms c. messages = ms @ [plain_message RoleUser c])"
proof -
  have "TrimSpace (aq_Task (with_history [plain_message RoleUser ''hello''])) \<noteq> []" by code_simp
  from context_budget [OF this, of sample_lib no_tiktoken] show ?thesis
    unfolding Let_def case_prod_unfold by blast
qed

text \<open>A context with one mandatory rule.\<close>

definition sample_rule_block :: context_block where
  "sample_rule_block = \<lparr>cb_Name = ''rule_mandatory:x'', cb_Role = RoleSystem, cb_Content = ''Be safe.'', cb_Pinned = True\<rparr>"

definition sample_rule_request :: agent_request where
  "sample_rule_request = sample_agent_request\<lparr>aq_ContextBlocks := [sample_rule_block]\<rparr>"

lemma sample_rule_facts:
  "isMandatoryRuleBlock sample_lib (block_name sample_rule_block)" "TrimSpace (cb_Content sample_rule_block) = ''Be safe.''"
  "block_tokens sample_lib no_tiktoken sample_rule_request (block_name sample_rule_block) ''Be safe.'' = 8"
  "build_limits sample_rule_request = (60, 15)" "duplicate_key sample_lib sample_rule_block = None"
  by code_simp+

lemma sample_rule_blocks:
  "fst (build_blocks sample_lib sample_rule_request) = [sample_rule_block, pinned_block ''task'' RoleUser (aq_Task sample_rule_request)]"
proof -
  have "aq_EnforceContextPrecedence sample_rule_request = False" "aq_SystemPrompt sample_rule_request = []" "aq_Mode sample_rule_request = []"
    "aq_ContextBlocks sample_rule_request = [sample_rule_block]" "cb_Role sample_rule_block \<noteq> []"
    by (simp_all add: sample_rule_request_def sample_agent_request_def sample_rule_block_def RoleSystem_def)
  then show ?thesis
    using sample_rule_facts(2,5)
    by (simp add: build_blocks_def compressContextBlocks_def dedupeContextBlocks_def modeInstruction_def Let_def)
qed

lemma core_overflow_iff:
  "cx_CoreOverflow (bs_trace (build_block lib tik req maxChars maxTokens block st)) \<longleftrightarrow> cx_CoreOverflow (bs_trace st) \<or>
     isMandatoryRuleBlock lib (block_name block) \<and> TrimSpace (cb_Content block) \<noteq> [] \<and>
     (maxChars < int (bs_used st + length (TrimSpace (cb_Content block))) \<or>
      maxTokens < int (bs_usedTokens st + block_tokens lib tik req (block_name block) (TrimSpace (cb_Content block))))"
  by (simp add: build_block_def Let_def)

lemma sample_rule_core: "\<not> cx_CoreOverflow (snd (Build sample_lib no_tiktoken sample_rule_request))"
  using task_not_mandatory [of sample_lib]
  unfolding Build_eq [OF sample_rule_facts(4)] sample_rule_blocks
  by (simp add: core_overflow_iff sample_rule_facts build_start_def pre_trace_fold no_context_def)
     (simp add: block_name_def pinned_block_def)

theorem mandatory_rules_kept_witness:
  "plain_message RoleSystem ''Be safe.'' \<in> set (fst (Build sample_lib no_tiktoken sample_rule_request))"
  using mandatory_rules_kept [OF prod.collapse [symmetric] sample_rule_core, of sample_rule_block]
  by (simp add: sample_rule_blocks sample_rule_facts) (simp add: sample_rule_block_def)

text \<open>The task block takes what room is left: with a single byte left it is cut to that byte, with none left
  it is kept whole.\<close>

theorem task_cut_by_context:
  fixes st req lib tik maxChars maxTokens
  defines "task \<equiv> TrimSpace (aq_Task req)"
    and "st' \<equiv> build_block lib tik req maxChars maxTokens (pinned_block ''task'' RoleUser (aq_Task req)) st"
  assumes "task \<noteq> []" "maxChars < int (bs_used st + length task)" "int (length task) \<le> maxChars"
    "maxChars - int (bs_used st) \<le> (maxTokens - int (bs_usedTokens st)) * 4"
  shows "int (bs_used st) < maxChars \<Longrightarrow>
      bs_messages st' = bs_messages st @ [plain_message RoleUser (truncateRunes task (maxChars - int (bs_used st)))]"
    and "int (bs_used st) = maxChars \<Longrightarrow> bs_messages st' = bs_messages st @ [plain_message RoleUser task]"
proof -
  have m: "\<not> isMandatoryRuleBlock lib (block_name (pinned_block ''task'' RoleUser (aq_Task req)))"
    using task_not_mandatory by (simp add: block_name_def pinned_block_def)
  note unfold = st'_def build_block_def Let_def
  show "int (bs_used st) < maxChars \<Longrightarrow>
      bs_messages st' = bs_messages st @ [plain_message RoleUser (truncateRunes task (maxChars - int (bs_used st)))]"
    using assms m by (simp add: unfold pinned_room_def include_block_def) (auto simp: pinned_block_def)
  show "int (bs_used st) = maxChars \<Longrightarrow> bs_messages st' = bs_messages st @ [plain_message RoleUser task]"
    using assms m by (simp add: unfold pinned_room_def include_block_def) (auto simp: pinned_block_def)
qed

lemma conversation_category: "tokenAuditCategory lib ''conversation'' = ''history''"
proof -
  have "TrimSpace ''conversation'' = ''conversation''" "is_ascii ''conversation''" "map ascii_lower ''conversation'' = ''conversation''"
    "Contains ''conversation'' ''conversation''" "\<not> Contains ''conversation'' ''tool_schema''" by code_simp+
  then show ?thesis by (simp add: tokenAuditCategory_def ToLower_def HasPrefix_def Let_def)
qed

text \<open>A message of the conversation that repeats an earlier one up to case and spaces is dropped from the
  context, whoever said it and whatever was said in between.\<close>

theorem repeated_message_dropped:
  assumes "\<And>m. m \<in> {u, a, v} \<Longrightarrow> TrimSpace (cm_Content m) \<noteq> []"
    and "ToLower lib (Join (Fields (TrimSpace (cm_Content v))) '' '') = ToLower lib (Join (Fields (TrimSpace (cm_Content u))) '' '')"
    and "ToLower lib (Join (Fields (TrimSpace (cm_Content a))) '' '') \<noteq> ToLower lib (Join (Fields (TrimSpace (cm_Content u))) '' '')"
  shows "fst (dedupeContextBlocks lib (conversation_blocks [u, a, v])) = conversation_blocks [u, a]"
  using assms by (simp add: dedupeContextBlocks_def conversation_blocks_def duplicate_key_def conversation_category Let_def)

text \<open>The tool messages of the history lose the identifier of the call they answer, and the calls themselves.\<close>

theorem history_loses_pairing:
  assumes "Build lib tik req = (messages, trace)" "m \<in> set messages"
  shows "cm_ToolCallID m = [] \<and> cm_ToolCalls m = []"
proof -
  obtain maxChars maxTokens where lim: "build_limits req = (maxChars, maxTokens)" by fastforce
  note pos = conjunct1 [OF build_limits_pos [OF lim]]
  let ?plain = "\<lambda>st. list_all (\<lambda>m. cm_ToolCallID m = [] \<and> cm_ToolCalls m = []) (bs_messages st)"
  have "?plain (fold (build_block lib tik req maxChars maxTokens) bs st)" if "?plain st" for bs st
    using that
  proof (induction bs arbitrary: st)
    case (Cons b bs)
    have "?plain (build_block lib tik req maxChars maxTokens b st)"
      using build_block_cases [OF pos, of st lib tik req maxTokens b] Cons.prems
      by (auto simp: left_out_def added_def plain_message_def)
    from Cons.IH [OF this] show ?case by simp
  qed simp
  then have "?plain (fold (build_block lib tik req maxChars maxTokens) (fst (build_blocks lib req)) (build_start lib req))"
    by (simp add: build_start_def)
  moreover have "messages = bs_messages (fold (build_block lib tik req maxChars maxTokens) (fst (build_blocks lib req)) (build_start lib req))"
    using assms(1) unfolding Build_eq [OF lim, of lib tik] by (simp only: prod.inject)
  ultimately show ?thesis using assms(2) by (simp add: list_all_iff)
qed

end
