(* ===== verification/Runner_Ledger.thy ===== *)
theory Runner_Ledger
  imports Runner_Loop Tool_Batch_Props Compaction_Props Context_Assembler_Props
begin

text \<open>
  The run as a step machine. A run is observed through its ledger: the rows given to the message sink
  with the transcript cursor, the requests sent to the model, the calls whose tool ran with the run's
  call counter, and whether a batch has stopped the run. \<open>ledger_step\<close> says how a ledger may change;
  every run of the detailed model is a sequence of such steps (\<open>Run_refines\<close>), so a property kept by
  every step holds after every run: this is the locale \<open>run_invariant\<close> of \<open>Runner_Loop_Props\<close>.
\<close>

section \<open>Ledgers\<close>

record ledger =
  lg_cursor :: int
  lg_rows :: "comp_entry list"
  lg_sent :: "chat_message list list"
  lg_ran :: "prepared_call list"
  lg_calls :: int
  lg_stopped :: bool

definition ledger_of :: "bool \<Rightarrow> loop_state \<Rightarrow> ledger" where
  "ledger_of stopped st = \<lparr>lg_cursor = lp_cursor st, lg_rows = lp_rows st, lg_sent = lp_sent st, lg_ran = lp_ran st,
     lg_calls = rr_ToolCalls (lp_result st), lg_stopped = stopped\<rparr>"

inductive ledger_step :: "run_libs \<Rightarrow> runner \<Rightarrow> agent_request \<Rightarrow> hook_chain \<Rightarrow> string list \<Rightarrow> ledger \<Rightarrow> ledger \<Rightarrow> bool"
  for lb r req hooks toolNames where
  skip: "0 \<le> k \<Longrightarrow> ledger_step lb r req hooks toolNames l (l\<lparr>lg_cursor := lg_cursor l + k\<rparr>)"
| rows: "ledger_step lb r req hooks toolNames l
     (l\<lparr>lg_rows := lg_rows l @ rows_of lb req result entries (lg_cursor l), lg_cursor := lg_cursor l + int (length entries)\<rparr>)"
| ask: "ledger_step lb r req hooks toolNames l (l\<lparr>lg_sent := lg_sent l @ [messages]\<rparr>)"
| batch: "\<lbrakk>\<not> lg_stopped l; ids = [] \<or> ids = aq_ResumeApprovedToolCallIDs req; rr_ToolCalls res = lg_calls l;
     executeToolBatch (lb_go lb) r hooks (batch_request req cx) toolNames ids exec cancelled res messages calls = (stop, res', messages', runs)\<rbrakk>
     \<Longrightarrow> ledger_step lb r req hooks toolNames l (l\<lparr>lg_ran := lg_ran l @ runs, lg_calls := rr_ToolCalls res', lg_stopped := stop\<rparr>)"

abbreviation ledger_reaches :: "run_libs \<Rightarrow> runner \<Rightarrow> agent_request \<Rightarrow> hook_chain \<Rightarrow> string list \<Rightarrow> ledger \<Rightarrow> ledger \<Rightarrow> bool" where
  "ledger_reaches lb r req hooks toolNames \<equiv> (ledger_step lb r req hooks toolNames)\<^sup>*\<^sup>*"

lemma ledger_reaches_same: "l' = l \<Longrightarrow> ledger_reaches lb r req hooks toolNames l l'"
  by simp

section \<open>What the helpers leave alone\<close>

lemma add_step_simps [simp]:
  "rr_ToolCalls (add_step r res s) = rr_ToolCalls res" "rr_Iterations (add_step r res s) = rr_Iterations res"
  "rr_Checkpoint (add_step r res s) = rr_Checkpoint res" "rr_StopReason (add_step r res s) = rr_StopReason res"
  "rr_FinalAnswer (add_step r res s) = rr_FinalAnswer res" "ar_Reflection (add_step r res s) = ar_Reflection res"
  by (cases res; simp add: add_step_def on_result_def run_result.defs appendStep_def Let_def)+

lemma failed_reflection_simps [simp]:
  "rr_ToolCalls (failed_reflection r res e c) = rr_ToolCalls res" "rr_Checkpoint (failed_reflection r res e c) = rr_Checkpoint res"
  by (simp_all add: failed_reflection_def Let_def)

lemma maybeReflect_keeps:
  assumes "maybeReflect lib rl r client req res recent w = (Some (fb, res'), w')"
  shows "rr_ToolCalls res' = rr_ToolCalls res \<and> rr_Checkpoint res' = rr_Checkpoint res \<and>
    (\<forall>m. fb = Some m \<longrightarrow> cm_ToolCalls m = [] \<and> cm_Role m = RoleSystem)"
  using assms unfolding maybeReflect_def Let_def
  by (auto simp: plain_message_def split: if_splits option.splits prod.splits sum.splits)

lemma persistTranscriptEntries_keeps:
  assumes "persistTranscriptEntries lb r env req res entries p c w = (p', i, res', w')"
  shows "rr_ToolCalls res' = rr_ToolCalls res \<and> rr_Checkpoint res' = rr_Checkpoint res \<and> rr_StopReason res' = rr_StopReason res"
  using assms unfolding persistTranscriptEntries_def Let_def
  by (auto split: if_splits prod.splits option.splits)

lemma append_transcript_keeps:
  assumes "append_transcript lb r env req entries st w = (st', w')"
  shows "lp_rows st' = lp_rows st @ rows_of lb req (lp_result st) entries (lp_cursor st)"
    "lp_cursor st' = lp_cursor st + int (length entries)" "lp_ran st' = lp_ran st" "lp_sent st' = lp_sent st"
    "rr_ToolCalls (lp_result st') = rr_ToolCalls (lp_result st)" "rr_Checkpoint (lp_result st') = rr_Checkpoint (lp_result st)"
    "rr_StopReason (lp_result st') = rr_StopReason (lp_result st)"
    "lp_transcript st' = lp_transcript st @ entries" "lp_base st' = lp_base st" "lp_messages st' = lp_messages st"
  using assms persistTranscriptEntries_keeps unfolding append_transcript_def Let_def by (fastforce split: prod.splits)+

lemma append_transcript_ledger:
  assumes "append_transcript lb r env req entries st w = (st', w')"
  shows "ledger_step lb r req hooks toolNames (ledger_of b st) (ledger_of b st')"
  using ledger_step.rows [of lb r req hooks toolNames "ledger_of b st" entries "lp_result st"] append_transcript_keeps [OF assms]
  by (simp add: ledger_of_def)

lemma steer_ledger:
  assumes "steer env st w = (st', w')"
  shows "ledger_step lb r req hooks toolNames (ledger_of b st) (ledger_of b st')"
  using ledger_step.skip [of "lp_cursor st' - lp_cursor st" lb r req hooks toolNames "ledger_of b st"] assms
  by (auto simp: steer_def Let_def ledger_of_def split: prod.splits)


section \<open>Every run is a sequence of ledger steps\<close>

definition follows :: "run_libs \<Rightarrow> runner \<Rightarrow> agent_request \<Rightarrow> hook_chain \<Rightarrow> string list \<Rightarrow> loop_state \<Rightarrow> 'w step_result \<Rightarrow> bool" where
  "follows lb r req hooks toolNames st res =
     (case res of
        Next st' _ \<Rightarrow> ledger_reaches lb r req hooks toolNames (ledger_of False st) (ledger_of False st')
      | Stop _ st' _ \<Rightarrow> (\<exists>b. ledger_reaches lb r req hooks toolNames (ledger_of False st) (ledger_of b st')))"

lemma follows_simps [simp]:
  "follows lb r req hooks toolNames st (Next st' w) = ledger_reaches lb r req hooks toolNames (ledger_of False st) (ledger_of False st')"
  "follows lb r req hooks toolNames st (Stop out st' w) = (\<exists>b. ledger_reaches lb r req hooks toolNames (ledger_of False st) (ledger_of b st'))"
  by (simp_all add: follows_def)

lemma follows_trans:
  "ledger_reaches lb r req hooks toolNames (ledger_of False st) (ledger_of False st1) \<Longrightarrow> follows lb r req hooks toolNames st1 res \<Longrightarrow>
     follows lb r req hooks toolNames st res"
  by (cases res) (auto intro: rtranclp_trans)

lemma follows_same: "ledger_of False st' = ledger_of False st \<Longrightarrow> follows lb r req hooks toolNames st (Stop out st' w)"
  by (auto intro: exI [of _ False])

lemma on_batch_ledger:
  assumes "on_batch lb r env req hooks toolNames ids calls st w = (stop, new, st', w')" "ids = [] \<or> ids = aq_ResumeApprovedToolCallIDs req"
  shows "ledger_step lb r req hooks toolNames (ledger_of False st) (ledger_of stop st')"
proof -
  obtain exec cancelled w1 where "ev_tools env w = (exec, cancelled, w1)" by (metis prod_cases3)
  moreover obtain stop1 res messages runs where
    x: "executeToolBatch (lb_go lb) r hooks (batch_request req (lp_context st)) toolNames ids exec cancelled
      (run_result.truncate (lp_result st)) (lp_messages st) calls = (stop1, res, messages, runs)" by (metis prod_cases4)
  ultimately have st': "stop = stop1" "st' = st\<lparr>lp_messages := messages, lp_result := run_result.extend res (run_result.more (lp_result st)), lp_ran := lp_ran st @ runs\<rparr>"
    using assms(1) by (simp_all add: on_batch_def)
  have "rr_ToolCalls (run_result.truncate (lp_result st)) = lg_calls (ledger_of False st)"
    by (simp add: ledger_of_def run_result.defs)
  from ledger_step.batch [OF _ assms(2) this x] st' show ?thesis
    by (simp add: ledger_of_def run_result.defs)
qed

lemma after_batch_ledger:
  assumes "after_batch lb r env req stop k st w = res"
  shows "(case res of Next st' _ \<Rightarrow> \<not> stop \<and> ledger_reaches lb r req hooks toolNames (ledger_of False st) (ledger_of False st')
     | Stop _ st' _ \<Rightarrow> ledger_of stop st' = ledger_of stop st)"
proof (cases stop)
  case False
  obtain o1 w1 where m: "maybeReflect (lb_go lb) (lb_reflect lb) r (ev_chat env) req (lp_result st) (drop k (rr_Steps (lp_result st))) w = (o1, w1)"
    by fastforce
  show ?thesis
  proof (cases o1)
    case (Some p)
    obtain fb res' where p: "p = (fb, res')" by fastforce
    note keeps = maybeReflect_keeps [OF m [unfolded Some p]]
    show ?thesis
    proof (cases fb)
      case None
      with False Some assms m p keeps show ?thesis by (auto simp: after_batch_def ledger_of_def)
    next
      case (Some fm)
      let ?st = "st\<lparr>lp_result := res', lp_messages := lp_messages st @ [fm]\<rparr>"
      obtain st2 w2 where a: "append_transcript lb r env req [fm] ?st w1 = (st2, w2)" by fastforce
      have "ledger_step lb r req hooks toolNames (ledger_of False st) (ledger_of False st2)"
        using append_transcript_ledger [OF a, of hooks toolNames False] keeps by (simp add: ledger_of_def)
      moreover have "res = Next st2 w2"
        using assms False m \<open>o1 = Some p\<close> p Some a by (simp add: after_batch_def)
      ultimately show ?thesis using False by auto
    qed
  qed (use assms False m in \<open>auto simp: after_batch_def ledger_of_def\<close>)
qed (use assms in \<open>auto simp: after_batch_def\<close>)

lemma batch_phase_ledger:
  assumes "ledger_reaches lb r req hooks toolNames (ledger_of False st) (ledger_of stop st1)"
  shows "follows lb r req hooks toolNames st (after_batch lb r env req stop k st1 w)"
  using assms after_batch_ledger [OF refl, where lb = lb and r = r and env = env and req = req and stop = stop and k = k and st = st1 and w = w
    and hooks = hooks and toolNames = toolNames]
  by (auto simp: follows_def split: step_result.splits) (metis rtranclp_trans)+


lemma finishWithContext_keeps [simp]:
  "rr_ToolCalls (finishWithContext env res e) = rr_ToolCalls res" "rr_Checkpoint (finishWithContext env res e) = rr_Checkpoint res"
  by (simp_all add: finishWithContext_def Let_def)

lemma stop_with_context_ledger: "follows lb r req hooks toolNames st (stop_with_context env req toolNames st e w)"
  by (auto simp: stop_with_context_def Let_def)

text \<open>Compaction writes nothing, sends nothing to the turn and runs no tool; what it leaves as transcript has no tool calls.\<close>

lemma retain_loop_role: "e \<in> set (retain_loop tokens role n es) \<Longrightarrow> en_Role e = role"
  by (induction es arbitrary: n) (auto simp: retainable_def Let_def split: if_splits)

lemma compacted_plain:
  assumes "compactRuntimeTranscript lib tik al client ctx req transcript w = (Some (kept, u, trace), w')" "tr_Status trace \<noteq> ''failed''"
  shows "list_all (\<lambda>m. cm_ToolCalls m = [] \<and> cm_Role m \<noteq> RoleTool) kept"
proof -
  have retained: "en_Role e \<noteq> RoleTool" if "e \<in> set (RetainEntriesByRole lib tik q es role)" "role = RoleUser \<or> role = RoleDeveloper" for e q es role
    using that retain_loop_role by (fastforce simp: RetainEntriesByRole_def RoleUser_def RoleDeveloper_def RoleTool_def)
  show ?thesis
  proof (cases "aq_TokenBudgetCompaction req")
    case True
    with assms(1) retained show ?thesis
      by (auto simp: compactRuntimeTranscript_def Let_def list_all_iff retainMessagesByRole_def plain_message_def split: if_splits)
  next
    case False
    obtain c where c: "Compact lib tik (core_request req) (chatClientAdapter client) ctx (FromChat (runtimeCompactionHistory req transcript)) w = c" by simp
    have "e \<in> set (cs_Retained result) \<Longrightarrow> en_Role e \<noteq> RoleTool" if "fst c = Inr result" for e result
      using that c retained by (auto simp: Compact_def Let_def RetainUserEntries_def split: prod.splits summary_result.splits)
    with assms False c show ?thesis
      by (auto simp: compactRuntimeTranscript_def Let_def list_all_iff plain_message_def RoleUser_def RoleTool_def
          split: prod.splits sum.splits summary_result.splits)
  qed
qed

lemma compact_phase_keeps:
  assumes "compact_phase lb r env req tools st w = res"
  shows "case res of
      Next st' _ \<Rightarrow> ledger_of b st' = ledger_of b st \<and> rr_Checkpoint (lp_result st') = rr_Checkpoint (lp_result st)
    | Stop _ st' _ \<Rightarrow> ledger_of b st' = ledger_of b st"
  using assms unfolding compact_phase_def Let_def
  by (auto simp: ledger_of_def split: if_splits option.splits prod.splits step_result.splits)

lemma plan_phase_keeps [simp]:
  "ledger_of b (plan_phase lb req tools i st) = ledger_of b st"
  "rr_Checkpoint (lp_result (plan_phase lb req tools i st)) = rr_Checkpoint (lp_result st)"
  "lp_transcript (plan_phase lb req tools i st) = lp_transcript st"
  by (simp_all add: plan_phase_def Let_def ledger_of_def)

lemma record_response_keeps [simp]:
  "ledger_of b (record_response r resp st) = ledger_of b st"
  "rr_Checkpoint (lp_result (record_response r resp st)) = rr_Checkpoint (lp_result st)"
  "lp_transcript (record_response r resp st) = lp_transcript st"
  by (simp_all add: record_response_def Let_def ledger_of_def)


lemma ledger_of_messages [simp]: "ledger_of b (st\<lparr>lp_messages := ms\<rparr>) = ledger_of b st"
  "ledger_of b (st\<lparr>lp_needsFollowUp := f\<rparr>) = ledger_of b st"
  by (simp_all add: ledger_of_def)

lemma finish_answer_ledger: "follows lb r req hooks toolNames st (finish_answer lb r env req m st w)"
proof -
  let ?result = "(lp_result st)\<lparr>rr_FinalAnswer := cm_Content m, rr_StopReason := ''final_answer''\<rparr>"
  obtain p i res' w' where x: "persistTranscriptEntries lb r env req ?result [m] (lp_persisted st) (lp_cursor st) w = (p, i, res', w')"
    by (metis prod_cases4)
  obtain st' where st': "finish_answer lb r env req m st w = Stop (Finished (lp_result st') None) st' w'"
    "st' = st\<lparr>lp_result := answer_step r (res'\<lparr>ar_AssistantMessageID := i\<rparr>) (StripCitations (lb_go lb) (cm_Content m)),
       lp_cursor := lp_cursor st + 1, lp_rows := lp_rows st @ rows_of lb req ?result [m] (lp_cursor st)\<rparr>"
    by (simp add: finish_answer_def x Let_def)
  have "ledger_step lb r req hooks toolNames (ledger_of False st) (ledger_of False st')"
    using ledger_step.rows [of lb r req hooks toolNames "ledger_of False st" "[m]" ?result] persistTranscriptEntries_keeps [OF x]
    by (simp add: ledger_of_def st'(2) answer_step_def)
  then show ?thesis unfolding st'(1) by (auto intro: exI [of _ False])
qed

lemma tool_phase_ledger: "follows lb r req hooks toolNames st (tool_phase lb r env req hooks toolNames m st w)"
proof -
  let ?st = "st\<lparr>lp_messages := lp_messages st @ [m]\<rparr>"
  obtain stop new st1 w1 where b: "on_batch lb r env req hooks toolNames [] (cm_ToolCalls m) ?st w = (stop, new, st1, w1)" by (metis prod_cases4)
  obtain st2 w2 where a: "append_transcript lb r env req [m] st1 w1 = (st2, w2)" by fastforce
  obtain st3 w3 where a': "append_transcript lb r env req new st2 w2 = (st3, w3)" by fastforce
  have "ledger_reaches lb r req hooks toolNames (ledger_of False st) (ledger_of stop st3)"
    using on_batch_ledger [OF b] append_transcript_ledger [OF a, of hooks toolNames stop] append_transcript_ledger [OF a', of hooks toolNames stop]
    by (auto intro: rtranclp.intros)
  note main = batch_phase_ledger [OF this, of env "length (rr_Steps (lp_result st))" w3]
  have eq: "tool_phase lb r env req hooks toolNames m st w =
    (case after_batch lb r env req stop (length (rr_Steps (lp_result st))) st3 w3 of
       Stop out st w \<Rightarrow> Stop out st w | Next st w \<Rightarrow> Next (st\<lparr>lp_needsFollowUp := True\<rparr>) w)"
    by (simp add: tool_phase_def b a a' Let_def)
  show ?thesis unfolding eq using main by (cases "after_batch lb r env req stop (length (rr_Steps (lp_result st))) st3 w3") auto
qed


lemma turn_phase_ledger: "follows lb r req hooks toolNames st (turn_phase lb r env req hooks toolNames st w)"
proof -
  obtain streaming chat w1 where tu: "ev_turn env w (lp_messages st) = (streaming, chat, w1)" by (metis prod_cases3)
  obtain w2 resp where ex: "executeModelTurn (ev_unsupported env) (ev_observer env) w1 (ev_ctx_err env w) streaming chat = (w2, resp)" by fastforce
  let ?st = "st\<lparr>lp_sent := lp_sent st @ [lp_messages st]\<rparr>"
  have ask: "ledger_reaches lb r req hooks toolNames (ledger_of False st) (ledger_of False ?st)"
    using ledger_step.ask [of lb r req hooks toolNames "ledger_of False st" "lp_messages st"] by (auto simp: ledger_of_def)
  have "follows lb r req hooks toolNames ?st (turn_phase lb r env req hooks toolNames st w)"
  proof (cases resp)
    case (Inl e)
    then show ?thesis
      using stop_with_context_ledger [of lb r req hooks toolNames ?st env e w2]
      by (auto simp: turn_phase_def tu ex Let_def ledger_of_def intro!: follows_same)
  next
    case (Inr resp)
    let ?m = "(cr_Message resp)\<lparr>cm_Role := (if cm_Role (cr_Message resp) = [] then RoleAssistant else cm_Role (cr_Message resp))\<rparr>"
    have "follows lb r req hooks toolNames (record_response r resp ?st)
      (if cm_ToolCalls ?m = [] then finish_answer lb r env req ?m (record_response r resp ?st) w2
       else tool_phase lb r env req hooks toolNames ?m (record_response r resp ?st) w2)"
      by (simp only: finish_answer_ledger tool_phase_ledger split: if_split) simp
    moreover have "turn_phase lb r env req hooks toolNames st w =
      (if cm_ToolCalls ?m = [] then finish_answer lb r env req ?m (record_response r resp ?st) w2
       else tool_phase lb r env req hooks toolNames ?m (record_response r resp ?st) w2)"
      using Inr by (simp add: turn_phase_def tu ex Let_def)
    ultimately show ?thesis by (simp only:) (rule follows_trans [rotated], assumption, simp)
  qed
  with ask show ?thesis by (rule follows_trans)
qed

lemma iterate_ledger: "follows lb r req hooks toolNames st (iterate lb r env req hooks toolNames tools i st w)"
proof -
  obtain st1 w1 where s: "steer env st w = (st1, w1)" by fastforce
  have reach: "ledger_reaches lb r req hooks toolNames (ledger_of False st) (ledger_of False st1)"
    using steer_ledger [OF s] by blast
  have "follows lb r req hooks toolNames st1 (iterate lb r env req hooks toolNames tools i st w)"
  proof (cases "ev_ctx_err env w1")
    case (Some e)
    then show ?thesis using stop_with_context_ledger by (simp add: iterate_def s)
  next
    case None
    note keeps = compact_phase_keeps [OF refl, where lb = lb and r = r and env = env and req = req and tools = tools and st = st1 and w = w1 and b = False]
    show ?thesis
    proof (cases "compact_phase lb r env req tools st1 w1")
      case (Stop out st2 w2)
      with None keeps show ?thesis by (auto simp: iterate_def s simp del: follows_simps intro: follows_same)
    next
      case (Next st2 w2)
      have "follows lb r req hooks toolNames (plan_phase lb req tools i st2) (turn_phase lb r env req hooks toolNames (plan_phase lb req tools i st2) w2)"
        by (rule turn_phase_ledger)
      then have "follows lb r req hooks toolNames st1 (turn_phase lb r env req hooks toolNames (plan_phase lb req tools i st2) w2)"
        using keeps Next by (intro follows_trans [of lb r req hooks toolNames st1]) simp_all
      with Next None show ?thesis by (simp add: iterate_def s)
    qed
  qed
  with reach show ?thesis by (rule follows_trans)
qed

lemma run_loop_ledger:
  assumes "run_loop lb r env req hooks toolNames tools n st w = (out, st', w')"
  shows "\<exists>b. ledger_reaches lb r req hooks toolNames (ledger_of False st) (ledger_of b st')"
  using assms
proof (induction n arbitrary: st w)
  case 0
  then show ?case
    by (auto simp: ledger_of_def stop_max_iterations_def answer_step_def intro: exI [of _ False])
next
  case (Suc n)
  let ?it = "iterate lb r env req hooks toolNames tools (aq_MaxIterations req - int (Suc n)) st w"
  have "follows lb r req hooks toolNames st ?it" by (rule iterate_ledger)
  with Suc show ?case by (cases ?it) (auto simp del: of_nat_Suc, meson rtranclp_trans)
qed

text \<open>The hooks a run uses, the ledger it starts with, and the refinement.\<close>

definition run_hooks :: "run_libs \<Rightarrow> agent_request \<Rightarrow> hook_chain" where
  "run_hooks lb req = (if hc_Pre (aq_ToolHookChain req) = [] \<and> hc_Post (aq_ToolHookChain req) = []
     then DefaultToolHookChain (lb_go lb) else aq_ToolHookChain req)"

definition resumed_calls :: "agent_request \<Rightarrow> int" where
  "resumed_calls req = (if aq_ResumeMessages req \<noteq> [] then aq_ResumeToolCalls req else 0)"

definition start_ledger :: "agent_request \<Rightarrow> ledger" where
  "start_ledger req = \<lparr>lg_cursor = aq_ResumeTranscriptCursor req, lg_rows = [], lg_sent = [], lg_ran = [],
     lg_calls = resumed_calls req, lg_stopped = False\<rparr>"

lemma resume_start_ledger:
  assumes "resume_start lb r env req (start_state req base cx) w = (st, w')" "aq_ResumeMessages req \<noteq> []"
  shows "ledger_reaches lb r req hooks toolNames (start_ledger req) (ledger_of False st)"
proof -
  let ?n = "int (length (aq_ResumeTranscript req))" and ?st = "start_state req base cx"
  let ?cursor = "if lp_cursor ?st < ?n then ?n else lp_cursor ?st"
  let ?persisted = "if ?n < lp_persisted ?st then ?n else lp_persisted ?st"
  let ?new = "drop (nat ?persisted) (aq_ResumeTranscript req)"
  let ?l = "(start_ledger req)\<lparr>lg_cursor := lg_cursor (start_ledger req) + (?cursor - lp_cursor ?st)\<rparr>"
  obtain p i res' w1 where x: "persistTranscriptEntries lb r env req (lp_result ?st) ?new ?persisted ?cursor w = (p, i, res', w1)" by (metis prod_cases4)
  have cur: "lg_cursor ?l = ?cursor" by (simp add: start_ledger_def start_state_def)
  have st: "st = ?st\<lparr>lp_transcript := aq_ResumeTranscript req, lp_persisted := p, lp_cursor := ?cursor + int (length ?new),
     lp_messages := assembleRoundMessages (lp_base ?st) [] (aq_ResumeTranscript req),
     lp_rows := lp_rows ?st @ rows_of lb req (lp_result ?st) ?new ?cursor,
     lp_result := res'\<lparr>rr_Iterations := aq_ResumeIteration req, rr_ToolCalls := aq_ResumeToolCalls req, ar_Context := lp_context ?st\<rparr>\<rparr>"
    using assms(1) x unfolding resume_start_def Let_def by simp
  have "ledger_step lb r req hooks toolNames (start_ledger req) ?l" by (rule ledger_step.skip) simp
  moreover have "ledger_step lb r req hooks toolNames ?l (ledger_of False st)"
    using ledger_step.rows [of lb r req hooks toolNames ?l ?new "lp_result ?st", unfolded cur] assms(2)
    unfolding st by (simp add: ledger_of_def start_ledger_def start_state_def resumed_calls_def)
  ultimately show ?thesis by (auto intro: rtranclp.intros)
qed

lemma resume_batch_ledger: "follows lb r req hooks toolNames st (resume_batch lb r env req hooks toolNames st w)"
proof (cases "findUnresolvedToolCalls (lp_messages st) toolNames = []")
  case False
  obtain stop new st1 w1 where b: "on_batch lb r env req hooks toolNames (aq_ResumeApprovedToolCallIDs req)
    (findUnresolvedToolCalls (lp_messages st) toolNames) st w = (stop, new, st1, w1)" by (metis prod_cases4)
  obtain st2 w2 where a: "append_transcript lb r env req new st1 w1 = (st2, w2)" by fastforce
  have "ledger_reaches lb r req hooks toolNames (ledger_of False st) (ledger_of stop st2)"
    using on_batch_ledger [OF b] append_transcript_ledger [OF a, of hooks toolNames stop] by (auto intro: rtranclp.intros)
  from batch_phase_ledger [OF this, of env "length (rr_Steps (lp_result st))" w2] False show ?thesis
    by (simp add: resume_batch_def b a Let_def)
qed (simp add: resume_batch_def)

lemma Run_cases:
  assumes "Run lb r env req0 w = (out, Some st, w')"
  obtains (stopped) tools where "tool_definitions [] (rq_Tools (apply_defaults req0)) = Inr tools"
      "begin_run lb r env (apply_defaults req0) (run_hooks lb (apply_defaults req0)) (map td_Name tools) w = Inr (Stop out st w')"
  | (loop) tools st1 w1 where "tool_definitions [] (rq_Tools (apply_defaults req0)) = Inr tools"
      "begin_run lb r env (apply_defaults req0) (run_hooks lb (apply_defaults req0)) (map td_Name tools) w = Inr (Next st1 w1)"
      "run_loop lb r env (apply_defaults req0) (run_hooks lb (apply_defaults req0)) (map td_Name tools) tools
         (nat (aq_MaxIterations (apply_defaults req0) - (if aq_ResumeMessages req0 \<noteq> [] then aq_ResumeIteration req0 else 0))) st1 w1 = (out, st, w')"
proof -
  let ?req = "apply_defaults req0"
  have same: "aq_ResumeMessages ?req = aq_ResumeMessages req0" "aq_ResumeIteration ?req = aq_ResumeIteration req0"
    by (simp_all add: apply_defaults_def Let_def)
  note run = assms [unfolded Run_def Let_def run_hooks_def [of lb ?req, symmetric] same]
  show ?thesis
  proof (cases "tool_definitions [] (rq_Tools ?req)")
    case (Inr tools)
    note tools = this
    show ?thesis
    proof (cases "begin_run lb r env ?req (run_hooks lb ?req) (map td_Name tools) w")
      case (Inr res)
      with run tools stopped loop show ?thesis by (cases res) (auto split: if_splits prod.splits)
    qed (use run tools in \<open>auto split: if_splits\<close>)
  qed (use run in \<open>auto split: if_splits\<close>)
qed

lemma begin_run_ledger:
  assumes "begin_run lb r env req hooks toolNames w = Inr res"
  shows "\<exists>st0. ledger_reaches lb r req hooks toolNames (start_ledger req) (ledger_of False st0) \<and> follows lb r req hooks toolNames st0 res"
proof (cases "aq_ResumeMessages req = []")
  case True
  with assms obtain base cx where "res = Next (start_state req base cx) w"
    by (auto simp: begin_run_def split: sum.splits prod.splits)
  moreover have "start_ledger req = ledger_of False (start_state req base cx)"
    using True by (simp add: start_ledger_def ledger_of_def start_state_def resumed_calls_def start_result_def)
  ultimately show ?thesis by (metis follows_simps(1) rtranclp.rtrancl_refl)
next
  case False
  let ?base = "if aq_ResumeBaseMessages req \<noteq> [] then aq_ResumeBaseMessages req else aq_ResumeMessages req"
  let ?cx = "(aq_ResumeContext req)\<lparr>cx_Strategy := ''resumed_from_checkpoint''\<rparr>"
  obtain st0 w0 where s: "resume_start lb r env req (start_state req ?base ?cx) w = (st0, w0)" by fastforce
  have "begin_run lb r env req hooks toolNames w = Inr (resume_batch lb r env req hooks toolNames st0 w0)"
    unfolding begin_run_def Let_def s using False by (simp only: if_True not_False_eq_True case_prod_conv simp_thms)
  with assms have "res = resume_batch lb r env req hooks toolNames st0 w0" by (simp only: sum.inject)
  then have "follows lb r req hooks toolNames st0 res" using resume_batch_ledger by (simp only:)
  with resume_start_ledger [OF s False] show ?thesis by (intro exI [of _ st0] conjI)
qed

theorem Run_refines:
  assumes "Run lb r env req0 w = (out, Some st, w')"
  shows "\<exists>toolNames b. ledger_reaches lb r (apply_defaults req0) (run_hooks lb req0) toolNames (start_ledger req0) (ledger_of b st)"
proof -
  let ?req = "apply_defaults req0"
  have defaults: "start_ledger ?req = start_ledger req0" "run_hooks lb ?req = run_hooks lb req0"
    by (simp_all add: start_ledger_def resumed_calls_def apply_defaults_def run_hooks_def Let_def)
  from assms show ?thesis
  proof (cases rule: Run_cases)
    case (stopped tools)
    from begin_run_ledger [OF stopped(2)] show ?thesis unfolding defaults by (auto intro: rtranclp_trans)
  next
    case (loop tools st1 w1)
    from begin_run_ledger [OF loop(2)] run_loop_ledger [OF loop(3)] show ?thesis
      unfolding defaults follows_simps by (meson rtranclp_trans)
  qed
qed

end
