(* ===== verification/Runner_Ends.thy ===== *)
theory Runner_Ends
  imports Runner_Ledger
begin

text \<open>
  Turn by turn: how a run can end, with which stop reason and checkpoint, how many requests it sends,
  and what the requests look like: every assistant message with tool calls is followed by the answers
  to those calls.
\<close>

section \<open>Checkpoints and stop reasons of a batch\<close>

lemma prepare_calls_end:
  assumes "rr_Checkpoint result = None"
  shows "case prepare_calls lib r hooks req toolNames ids result messages prepared ns of
      Prepared res _ _ \<Rightarrow> rr_Checkpoint res = None
    | Stop_batch res _ \<Rightarrow> rr_StopReason res = ''max_tool_calls_exceeded'' \<and> rr_Checkpoint res = None \<or>
        rr_StopReason res = ''waiting_human'' \<and> rr_Checkpoint res \<noteq> None"
  using assms
proof (induction ns arbitrary: result messages prepared)
  case (Cons n ns)
  show ?case
  proof (cases "rq_MaxToolCalls req \<le> rr_ToolCalls result + int (length prepared)")
    case True
    then show ?thesis using Cons.prems by (simp add: stop_max_calls_def Let_def)
  next
    case False
    then show ?thesis using Cons
      by (auto simp: Let_def stop_for_approval_def split: option.split)
  qed
qed simp

lemma record_results_checkpoint:
  "record_results r hooks req ex i result messages prepared = (result', messages') \<Longrightarrow> rr_Checkpoint result' = rr_Checkpoint result"
  by (induction prepared arbitrary: i result messages) (auto simp: Let_def split: prod.splits)

lemma batch_end:
  assumes "executeToolBatch lib r hooks req toolNames ids exec cancelled result messages calls = (stop, result', messages', runs)"
    "rr_Checkpoint result = None"
  shows "if stop then rr_StopReason result' = ''max_tool_calls_exceeded'' \<and> rr_Checkpoint result' = None \<or>
      rr_StopReason result' = ''waiting_human'' \<and> rr_Checkpoint result' \<noteq> None
    else rr_Checkpoint result' = None"
proof (cases "prepare_calls lib r hooks req toolNames ids result messages [] (normalize_calls lib req calls)")
  case (Stop_batch res m)
  with assms prepare_calls_end [OF assms(2), of lib r hooks req toolNames ids messages "[]" "normalize_calls lib req calls"]
  show ?thesis by (simp add: executeToolBatch_def)
next
  case (Prepared res1 m prepared)
  then have none: "rr_Checkpoint res1 = None"
    using prepare_calls_end [OF assms(2), of lib r hooks req toolNames ids messages "[]" "normalize_calls lib req calls"] by simp
  show ?thesis
  proof (cases "first_input (batch_executions exec cancelled prepared) prepared")
    case None
    with Prepared assms none show ?thesis
      by (auto simp: executeToolBatch_def Let_def dest!: record_results_checkpoint split: prod.splits)
  next
    case (Some ia)
    with Prepared assms show ?thesis
      by (auto simp: executeToolBatch_def Let_def stop_for_input_def split: prod.splits)
  qed
qed

section \<open>How a run ends\<close>

definition resumable :: "loop_state \<Rightarrow> agent_result \<Rightarrow> bool" where
  "resumable st res \<longleftrightarrow> (case rr_Checkpoint res of
     None \<Rightarrow> rr_StopReason res \<notin> {''paused'', ''waiting_human''}
   | Some cp \<Rightarrow> rr_StopReason res \<in> {''paused'', ''waiting_human''} \<and> cp_SnapshotVersion cp = 2 \<and>
       cp_Transcript cp = lp_transcript st \<and> cp_Messages cp = lp_messages st \<and> cp_BaseMessages cp = lp_base st \<and>
       cp_TranscriptCursor cp = lp_cursor st \<and> cp_PersistedMessageCount cp = lp_persisted st \<and> cp_Steps cp = rr_Steps res)"

definition final_reasons :: "string list" where
  "final_reasons = [''final_answer'', ''max_iterations_exceeded'', ''max_tool_calls_exceeded'', ''waiting_human'', ''paused'', ''cancelled'', ''timeout'']"

definition ends_well :: "loop_state \<Rightarrow> run_outcome \<Rightarrow> bool" where
  "ends_well st out \<longleftrightarrow> (case out of
     Refused _ \<Rightarrow> False
   | Panicked \<Rightarrow> True
   | Finished res None \<Rightarrow> rr_StopReason res \<in> set final_reasons \<and> resumable st res
   | Finished res (Some e) \<Rightarrow> rr_StopReason res = ''llm_error'' \<and> rr_Checkpoint res = None)"

lemma ends_well_simps [simp]:
  "ends_well st Panicked"
  "ends_well st (Finished res None) \<longleftrightarrow> rr_StopReason res \<in> set final_reasons \<and> resumable st res"
  "ends_well st (Finished res (Some e)) \<longleftrightarrow> rr_StopReason res = ''llm_error'' \<and> rr_Checkpoint res = None"
  by (simp_all add: ends_well_def)

text \<open>The documented behaviour of a context: its error is one of the two sentinel errors.\<close>

definition context_errors :: "'w run_env \<Rightarrow> bool" where
  "context_errors env \<longleftrightarrow> (\<forall>w e. ev_ctx_err env w = Some e \<longrightarrow> ev_is_cancelled env e \<or> ev_is_deadline env e)"

lemma stop_with_context_end:
  assumes "ev_is_cancelled env e \<or> ev_is_deadline env e" "rr_Checkpoint (lp_result st) = None"
  shows "\<exists>res. stop_with_context env req toolNames st e w = Stop (Finished res None) st w \<and> ends_well st (Finished res None)"
  using assms
  by (auto simp: stop_with_context_def Let_def finishWithContext_def hydrate_def hydrateCheckpoint_def resumable_def final_reasons_def)

lemma hydrate_end:
  assumes "rr_StopReason res = ''max_tool_calls_exceeded'' \<and> rr_Checkpoint res = None \<or> rr_StopReason res = ''waiting_human'' \<and> rr_Checkpoint res \<noteq> None"
  shows "ends_well st (Finished (hydrate st res) None)"
  using assms by (auto simp: hydrate_def hydrateCheckpoint_def resumable_def final_reasons_def)


section \<open>Transcripts with every call answered\<close>

definition plain :: "chat_message \<Rightarrow> bool" where
  "plain m \<longleftrightarrow> cm_ToolCalls m = [] \<and> cm_Role m \<noteq> RoleTool"

text \<open>\<open>new\<close> answers the calls of an assistant message: one tool message for every normalised call.\<close>

definition answers :: "run_libs \<Rightarrow> agent_request \<Rightarrow> tool_call list \<Rightarrow> chat_message list \<Rightarrow> bool" where
  "answers lb req calls new \<longleftrightarrow> list_all (\<lambda>m. cm_Role m = RoleTool) new \<and>
     mset (map cm_ToolCallID new) = mset (map (\<lambda>n. tc_ID (nc_Call n)) (normalize_calls (lb_go lb) (batch_request req no_context) calls))"

inductive paired :: "run_libs \<Rightarrow> agent_request \<Rightarrow> chat_message list \<Rightarrow> bool" for lb req where
  none: "paired lb req []"
| message: "paired lb req t \<Longrightarrow> plain m \<Longrightarrow> paired lb req (t @ [m])"
| calls: "paired lb req t \<Longrightarrow> cm_ToolCalls m \<noteq> [] \<Longrightarrow> answers lb req (cm_ToolCalls m) new \<Longrightarrow> paired lb req (t @ m # new)"

lemma paired_plain: "paired lb req t \<Longrightarrow> list_all plain ms \<Longrightarrow> paired lb req (t @ ms)"
proof (induction ms arbitrary: t)
  case (Cons m ms)
  then show ?case using Cons.IH [of "t @ [m]"] paired.message by simp
qed simp

lemma normalize_calls_batch: "normalize_calls lib (batch_request req cx) calls = normalize_calls lib (batch_request req no_context) calls"
  by (simp add: normalize_calls_def batch_request_def run_request.defs)

text \<open>The answers carry the normalised identifiers while the assistant message keeps the ones the provider
  sent: a call that came without an identifier is answered under another one.\<close>

lemma answers_renamed:
  assumes "answers lb req calls new" "NewToolCallNormalizer (lb_go lb) (rq_Tools req) [] = Inr n"
  shows "[] \<notin> set (map cm_ToolCallID new)"
proof -
  have "normalize_calls (lb_go lb) (batch_request req no_context) calls = NormalizeBatch (lb_go lb) n calls"
    using assms(2) by (simp add: normalize_calls_def batch_request_def run_request.defs)
  then have "set (map cm_ToolCallID new) = (\<lambda>item. tc_ID (nc_Call item)) ` set (NormalizeBatch (lb_go lb) n calls)"
    using assms(1) unfolding answers_def by (metis list.set_map set_mset_mset)
  with batch_call_ids [of "lb_go lb" n calls] show ?thesis by (auto simp: list_all_iff)
qed

text \<open>One batch in the run: it stops the run with a reason and a checkpoint, or answers its calls.\<close>

lemma on_batch_spec:
  assumes "on_batch lb r env req hooks toolNames ids calls st w = (stop, new, st', w')" "rr_Checkpoint (lp_result st) = None"
  shows "lp_sent st' = lp_sent st" "lp_transcript st' = lp_transcript st" "lp_base st' = lp_base st"
    "if stop then rr_StopReason (lp_result st') = ''max_tool_calls_exceeded'' \<and> rr_Checkpoint (lp_result st') = None \<or>
        rr_StopReason (lp_result st') = ''waiting_human'' \<and> rr_Checkpoint (lp_result st') \<noteq> None
      else rr_Checkpoint (lp_result st') = None \<and> answers lb req calls new"
proof -
  obtain exec cancelled w1 where "ev_tools env w = (exec, cancelled, w1)" by (metis prod_cases3)
  moreover obtain stop1 res messages runs where
    x: "executeToolBatch (lb_go lb) r hooks (batch_request req (lp_context st)) toolNames ids exec cancelled
      (run_result.truncate (lp_result st)) (lp_messages st) calls = (stop1, res, messages, runs)" by (metis prod_cases4)
  ultimately have st': "stop = stop1" "new = drop (length (lp_messages st)) messages"
    "st' = st\<lparr>lp_messages := messages, lp_result := run_result.extend res (run_result.more (lp_result st)), lp_ran := lp_ran st @ runs\<rparr>"
    using assms(1) by (simp_all add: on_batch_def)
  then show "lp_sent st' = lp_sent st" "lp_transcript st' = lp_transcript st" "lp_base st' = lp_base st" by simp_all
  have res: "rr_StopReason (lp_result st') = rr_StopReason res" "rr_Checkpoint (lp_result st') = rr_Checkpoint res"
    by (simp_all add: st'(3) run_result.defs)
  have "rr_Checkpoint (run_result.truncate (lp_result st)) = None" using assms(2) by (simp add: run_result.defs)
  note fin = batch_end [OF x this]
  have "answers lb req calls new" if "\<not> stop"
  proof -
    from that x st'(1) have "executeToolBatch (lb_go lb) r hooks (batch_request req (lp_context st)) toolNames ids exec cancelled
      (run_result.truncate (lp_result st)) (lp_messages st) calls = (False, res, messages, runs)" by simp
    from batch_answers_every_call [OF this] obtain added where "messages = lp_messages st @ added"
      "list_all (\<lambda>m. cm_Role m = RoleTool) added"
      "mset (map cm_ToolCallID added) = mset (map (\<lambda>n. tc_ID (nc_Call n)) (normalize_calls (lb_go lb) (batch_request req (lp_context st)) calls))"
      by blast
    then show ?thesis unfolding st'(2) answers_def normalize_calls_batch [of _ _ "lp_context st"] by simp
  qed
  with fin show "if stop then rr_StopReason (lp_result st') = ''max_tool_calls_exceeded'' \<and> rr_Checkpoint (lp_result st') = None \<or>
        rr_StopReason (lp_result st') = ''waiting_human'' \<and> rr_Checkpoint (lp_result st') \<noteq> None
      else rr_Checkpoint (lp_result st') = None \<and> answers lb req calls new"
    unfolding res st'(1) by (cases stop1) auto
qed

lemma after_batch_spec:
  assumes "if stop then rr_StopReason (lp_result st) = ''max_tool_calls_exceeded'' \<and> rr_Checkpoint (lp_result st) = None \<or>
        rr_StopReason (lp_result st) = ''waiting_human'' \<and> rr_Checkpoint (lp_result st) \<noteq> None
      else rr_Checkpoint (lp_result st) = None"
  shows "case after_batch lb r env req stop k st w of
      Stop out st' _ \<Rightarrow> lp_sent st' = lp_sent st \<and> ends_well st' out
    | Next st' _ \<Rightarrow> \<not> stop \<and> lp_sent st' = lp_sent st \<and> rr_Checkpoint (lp_result st') = None \<and> lp_base st' = lp_base st \<and>
        (\<exists>fb. list_all plain fb \<and> lp_transcript st' = lp_transcript st @ fb)"
proof (cases stop)
  case True
  with assms show ?thesis using hydrate_end [of "lp_result st" st] by (simp add: after_batch_def del: ends_well_simps)
next
  case False
  obtain o1 w1 where m: "maybeReflect (lb_go lb) (lb_reflect lb) r (ev_chat env) req (lp_result st) (drop k (rr_Steps (lp_result st))) w = (o1, w1)"
    by fastforce
  show ?thesis
  proof (cases o1)
    case (Some p)
    obtain fb res' where p: "p = (fb, res')" by fastforce
    note keeps = maybeReflect_keeps [OF m [unfolded Some p]]
    show ?thesis
    proof (cases fb)
      case None
      with False Some assms m p keeps show ?thesis by (auto simp: after_batch_def intro: exI [of _ "[]"])
    next
      case (Some fm)
      let ?st = "st\<lparr>lp_result := res', lp_messages := lp_messages st @ [fm]\<rparr>"
      obtain st2 w2 where a: "append_transcript lb r env req [fm] ?st w1 = (st2, w2)" by fastforce
      have "after_batch lb r env req stop k st w = Next st2 w2"
        using False m \<open>o1 = Some p\<close> p Some a by (simp add: after_batch_def)
      moreover have "plain fm" using keeps Some by (simp add: plain_def RoleSystem_def RoleTool_def)
      ultimately show ?thesis using False assms keeps append_transcript_keeps [OF a] by (auto intro: exI [of _ "[fm]"])
    qed
  qed (use False m in \<open>simp add: after_batch_def\<close>)
qed


section \<open>Turns and iterations\<close>

lemma tool_phase_spec:
  assumes "rr_Checkpoint (lp_result st) = None" "cm_ToolCalls m \<noteq> []"
  shows "case tool_phase lb r env req hooks toolNames m st w of
      Stop out st' _ \<Rightarrow> lp_sent st' = lp_sent st \<and> ends_well st' out
    | Next st' _ \<Rightarrow> lp_sent st' = lp_sent st \<and> rr_Checkpoint (lp_result st') = None \<and> lp_base st' = lp_base st \<and>
        (paired lb req (lp_transcript st) \<longrightarrow> paired lb req (lp_transcript st'))"
proof -
  let ?st = "st\<lparr>lp_messages := lp_messages st @ [m]\<rparr>"
  obtain stop new st1 w1 where b: "on_batch lb r env req hooks toolNames [] (cm_ToolCalls m) ?st w = (stop, new, st1, w1)" by (metis prod_cases4)
  obtain st2 w2 where a: "append_transcript lb r env req [m] st1 w1 = (st2, w2)" by fastforce
  obtain st3 w3 where a': "append_transcript lb r env req new st2 w2 = (st3, w3)" by fastforce
  let ?res = "after_batch lb r env req stop (length (rr_Steps (lp_result st))) st3 w3"
  have eq: "tool_phase lb r env req hooks toolNames m st w =
    (case ?res of Stop out st w \<Rightarrow> Stop out st w | Next st w \<Rightarrow> Next (st\<lparr>lp_needsFollowUp := True\<rparr>) w)"
    by (simp add: tool_phase_def b a a' Let_def)
  note batch = on_batch_spec [OF b] and keep = append_transcript_keeps [OF a] append_transcript_keeps [OF a']
  have tr: "lp_transcript st3 = lp_transcript st @ m # new" using batch assms(1) keep by simp
  have pre: "if stop then rr_StopReason (lp_result st3) = ''max_tool_calls_exceeded'' \<and> rr_Checkpoint (lp_result st3) = None \<or>
        rr_StopReason (lp_result st3) = ''waiting_human'' \<and> rr_Checkpoint (lp_result st3) \<noteq> None
      else rr_Checkpoint (lp_result st3) = None"
    using batch assms(1) keep by (simp split: if_splits)
  have same: "lp_sent st3 = lp_sent st" "lp_base st3 = lp_base st" using batch assms(1) keep by simp_all
  have "answers lb req (cm_ToolCalls m) new" if "\<not> stop" using batch(4) assms(1) that by simp
  then have "paired lb req (lp_transcript st3 @ fb)" if "paired lb req (lp_transcript st)" "list_all plain fb" "\<not> stop" for fb
    unfolding tr using paired.calls [OF that(1) assms(2)] paired_plain that(2,3) by blast
  with after_batch_spec [OF pre, of lb r env req "length (rr_Steps (lp_result st))" w3] same show ?thesis
    unfolding eq by (cases ?res) (auto simp del: append_assoc)
qed

lemma finish_answer_spec:
  assumes "rr_Checkpoint (lp_result st) = None"
  shows "\<exists>out st' w'. finish_answer lb r env req m st w = Stop out st' w' \<and> lp_sent st' = lp_sent st \<and> ends_well st' out"
proof -
  let ?result = "(lp_result st)\<lparr>rr_FinalAnswer := cm_Content m, rr_StopReason := ''final_answer''\<rparr>"
  obtain p i res' w' where x: "persistTranscriptEntries lb r env req ?result [m] (lp_persisted st) (lp_cursor st) w = (p, i, res', w')"
    by (metis prod_cases4)
  show ?thesis using persistTranscriptEntries_keeps [OF x] assms
    by (auto simp: finish_answer_def x Let_def answer_step_def resumable_def final_reasons_def)
qed

lemma turn_phase_spec:
  assumes "rr_Checkpoint (lp_result st) = None"
  shows "case turn_phase lb r env req hooks toolNames st w of
      Stop out st' _ \<Rightarrow> lp_sent st' = lp_sent st @ [lp_messages st] \<and> ends_well st' out
    | Next st' _ \<Rightarrow> lp_sent st' = lp_sent st @ [lp_messages st] \<and> rr_Checkpoint (lp_result st') = None \<and> lp_base st' = lp_base st \<and>
        (paired lb req (lp_transcript st) \<longrightarrow> paired lb req (lp_transcript st'))"
proof -
  obtain streaming chat w1 where tu: "ev_turn env w (lp_messages st) = (streaming, chat, w1)" by (metis prod_cases3)
  obtain w2 resp where ex: "executeModelTurn (ev_unsupported env) (ev_observer env) w1 (ev_ctx_err env w) streaming chat = (w2, resp)" by fastforce
  let ?st = "st\<lparr>lp_sent := lp_sent st @ [lp_messages st]\<rparr>"
  show ?thesis
  proof (cases resp)
    case (Inl e)
    show ?thesis
    proof (cases "ev_is_cancelled env e \<or> ev_is_deadline env e")
      case True
      then obtain res where "stop_with_context env req toolNames ?st e w2 = Stop (Finished res None) ?st w2" "ends_well ?st (Finished res None)"
        using stop_with_context_end [of env e ?st req toolNames w2] assms by auto
      with Inl True show ?thesis by (simp add: turn_phase_def tu ex Let_def)
    next
      case False
      with Inl assms show ?thesis by (simp add: turn_phase_def tu ex Let_def)
    qed
  next
    case (Inr resp)
    let ?m = "(cr_Message resp)\<lparr>cm_Role := (if cm_Role (cr_Message resp) = [] then RoleAssistant else cm_Role (cr_Message resp))\<rparr>"
    let ?rst = "record_response r resp ?st"
    have eq: "turn_phase lb r env req hooks toolNames st w =
      (if cm_ToolCalls ?m = [] then finish_answer lb r env req ?m ?rst w2 else tool_phase lb r env req hooks toolNames ?m ?rst w2)"
      using Inr by (simp add: turn_phase_def tu ex Let_def)
    have rst: "rr_Checkpoint (lp_result ?rst) = None" "lp_sent ?rst = lp_sent st @ [lp_messages st]" "lp_base ?rst = lp_base st"
      "lp_transcript ?rst = lp_transcript st"
      using assms by (simp_all, simp_all add: record_response_def Let_def)
    show ?thesis
    proof (cases "cm_ToolCalls ?m = []")
      case True
      with finish_answer_spec [OF rst(1), of lb r env req ?m w2] rst(2) show ?thesis unfolding eq by auto
    next
      case False
      with tool_phase_spec [OF rst(1) False, where lb = lb and r = r and env = env and req = req and hooks = hooks and toolNames = toolNames and w = w2] rst(2-4) show ?thesis unfolding eq if_not_P [OF False] by (auto split: step_result.splits)
    qed
  qed
qed


text \<open>A request: messages without tool calls, then a transcript with every call answered.\<close>

definition no_calls :: "chat_message list \<Rightarrow> bool" where
  "no_calls ms \<longleftrightarrow> list_all (\<lambda>m. cm_ToolCalls m = []) ms"

definition request_ok :: "run_libs \<Rightarrow> agent_request \<Rightarrow> chat_message list \<Rightarrow> bool" where
  "request_ok lb req ms \<longleftrightarrow> (\<exists>pre t. ms = pre @ t \<and> no_calls pre \<and> paired lb req t)"

definition state_ok :: "run_libs \<Rightarrow> agent_request \<Rightarrow> loop_state \<Rightarrow> bool" where
  "state_ok lb req st \<longleftrightarrow> paired lb req (lp_transcript st) \<and> no_calls (lp_base st)"

lemma assembled_ok:
  assumes "no_calls base" "no_calls rules" "paired lb req t"
  shows "request_ok lb req (assembleRoundMessages base rules t)"
proof -
  have "cm_ToolCalls m = []" if "m \<in> set base" for m using that assms(1) by (simp add: no_calls_def list_all_iff)
  then show ?thesis
    using assms(2,3) unfolding request_ok_def assembleRoundMessages_def Let_def
    by (intro exI [of _ "filter (\<lambda>m. cm_Role m = RoleSystem) base @ rules @ map snd (filter _ (enumerate 0 base))"] exI [of _ t])
       (fastforce simp: no_calls_def list_all_iff in_set_enumerate_eq)
qed

lemma plan_phase_request:
  assumes "state_ok lb req st"
  shows "request_ok lb req (lp_messages (plan_phase lb req tools i st))" "state_ok lb req (plan_phase lb req tools i st)"
proof -
  have "no_calls (ruleMessages rs)" for rs by (auto simp: no_calls_def list_all_iff ruleMessages_def plain_message_def)
  with assms show "request_ok lb req (lp_messages (plan_phase lb req tools i st))"
    by (simp add: plan_phase_def Let_def state_ok_def assembled_ok)
  show "state_ok lb req (plan_phase lb req tools i st)" using assms by (simp add: state_ok_def plan_phase_def Let_def)
qed

lemma steer_spec:
  assumes "steer env st w = (st', w')"
  shows "lp_sent st' = lp_sent st" "lp_result st' = lp_result st" "state_ok lb req st \<Longrightarrow> state_ok lb req st'"
proof -
  show "lp_sent st' = lp_sent st" "lp_result st' = lp_result st" using assms by (auto simp: steer_def Let_def split: prod.splits)
  have "list_all plain (map (plain_message RoleDeveloper) xs)" for xs
    by (simp add: list_all_iff plain_def plain_message_def RoleDeveloper_def RoleTool_def)
  with assms show "state_ok lb req st \<Longrightarrow> state_ok lb req st'"
    by (auto simp: steer_def Let_def state_ok_def paired_plain split: prod.splits)
qed

lemma compact_phase_spec:
  assumes "rr_Checkpoint (lp_result st) = None"
  shows "case compact_phase lb r env req tools st w of
      Stop out st' _ \<Rightarrow> lp_sent st' = lp_sent st \<and> ends_well st' out
    | Next st' _ \<Rightarrow> lp_sent st' = lp_sent st \<and> rr_Checkpoint (lp_result st') = None \<and> (state_ok lb req st \<longrightarrow> state_ok lb req st')"
proof -
  let ?lib = "lb_go lb" and ?tik = "lb_tik lb" and ?al = "lb_agent lb"
  obtain o1 w1 where c: "compactRuntimeTranscript ?lib ?tik ?al (ev_chat env) (ev_ctx_err env) req (lp_transcript st) w = (o1, w1)" by fastforce
  have base: "no_calls (baseMessagesAfterTokenBudget ?lib ?tik req b d)" if "no_calls b" for b d
    using that by (auto simp: no_calls_def list_all_iff baseMessagesAfterTokenBudget_def retainMessagesByRole_def plain_message_def)
  have kept: "paired lb req kept" if "o1 = Some (kept, u, tr)" "tr_Status tr \<noteq> ''failed''" for kept u tr
  proof -
    have "list_all plain kept" using compacted_plain [OF c [unfolded that(1)] that(2)] by (simp add: plain_def [abs_def])
    with paired_plain [OF paired.none] show ?thesis by simp
  qed
  show ?thesis
    using assms base kept unfolding compact_phase_def Let_def c
    by (auto simp: state_ok_def split: option.split prod.split if_split)
qed

lemma iterate_spec:
  assumes "rr_Checkpoint (lp_result st) = None"
  shows "case iterate lb r env req hooks toolNames tools i st w of
      Stop out st' _ \<Rightarrow> (context_errors env \<longrightarrow> ends_well st' out) \<and>
        (lp_sent st' = lp_sent st \<or> (\<exists>ms. lp_sent st' = lp_sent st @ [ms] \<and> (state_ok lb req st \<longrightarrow> request_ok lb req ms)))
    | Next st' _ \<Rightarrow> rr_Checkpoint (lp_result st') = None \<and> (state_ok lb req st \<longrightarrow> state_ok lb req st') \<and>
        (\<exists>ms. lp_sent st' = lp_sent st @ [ms] \<and> (state_ok lb req st \<longrightarrow> request_ok lb req ms))"
proof -
  obtain st1 w1 where s: "steer env st w = (st1, w1)" by fastforce
  note steer = steer_spec [OF s]
  show ?thesis
  proof (cases "ev_ctx_err env w1")
    case (Some e)
    have "context_errors env \<Longrightarrow> \<exists>res. stop_with_context env req toolNames st1 e w1 = Stop (Finished res None) st1 w1 \<and> ends_well st1 (Finished res None)"
      using stop_with_context_end [of env e st1 req toolNames w1] Some assms steer(2) by (auto simp: context_errors_def simp del: ends_well_simps)
    moreover obtain res where "stop_with_context env req toolNames st1 e w1 = Stop (Finished res None) st1 w1"
      by (simp add: stop_with_context_def Let_def)
    ultimately show ?thesis using Some steer(1) by (auto simp: iterate_def s simp del: ends_well_simps)
  next
    case None
    have none: "rr_Checkpoint (lp_result st1) = None" using assms steer(2) by simp
    note comp = compact_phase_spec [OF none, where lb = lb and r = r and env = env and req = req and tools = tools and w = w1]
    show ?thesis
    proof (cases "compact_phase lb r env req tools st1 w1")
      case (Stop out st2 w2)
      with None comp steer(1) show ?thesis by (simp add: iterate_def s)
    next
      case (Next st2 w2)
      let ?p = "plan_phase lb req tools i st2"
      have p: "rr_Checkpoint (lp_result ?p) = None" "lp_sent ?p = lp_sent st" "state_ok lb req st \<Longrightarrow> state_ok lb req st2"
        using comp Next steer by (simp_all, simp add: plan_phase_def Let_def)
      have it: "iterate lb r env req hooks toolNames tools i st w = turn_phase lb r env req hooks toolNames ?p w2"
        using None Next by (simp add: iterate_def s)
      have ok: "request_ok lb req (lp_messages ?p)" "state_ok lb req ?p" if "state_ok lb req st"
        using plan_phase_request [OF p(3) [OF that]] by auto
      show ?thesis
        using turn_phase_spec [OF p(1), where lb = lb and r = r and env = env and req = req and hooks = hooks and toolNames = toolNames and w = w2] ok p(2)
        unfolding it by (auto simp: state_ok_def simp del: plan_phase_keeps split: step_result.splits)
    qed
  qed
qed


section \<open>Whole runs\<close>

lemma run_loop_spec:
  assumes "run_loop lb r env req hooks toolNames tools n st w = (out, st', w')" "rr_Checkpoint (lp_result st) = None"
  shows "(context_errors env \<longrightarrow> ends_well st' out) \<and>
    (\<exists>sent. lp_sent st' = lp_sent st @ sent \<and> length sent \<le> n \<and> (state_ok lb req st \<longrightarrow> list_all (request_ok lb req) sent))"
  using assms
proof (induction n arbitrary: st w)
  case 0
  then have "out = Finished (stop_max_iterations r st) None" "lp_sent st' = lp_sent st" by auto
  with "0.prems"(2) show ?case by (auto simp: stop_max_iterations_def answer_step_def resumable_def final_reasons_def)
next
  case (Suc n)
  let ?it = "iterate lb r env req hooks toolNames tools (aq_MaxIterations req - int (Suc n)) st w"
  note spec = iterate_spec [OF Suc.prems(2), where lb = lb and r = r and env = env and req = req and hooks = hooks
    and toolNames = toolNames and tools = tools and i = "aq_MaxIterations req - int (Suc n)" and w = w]
  show ?case
  proof (cases ?it)
    case (Stop out1 st1 w1)
    with Suc.prems(1) have "out1 = out" "st1 = st'" by (simp_all del: of_nat_Suc)
    with spec Stop show ?thesis by (auto simp del: of_nat_Suc)
  next
    case (Next st1 w1)
    with spec obtain ms where ms: "lp_sent st1 = lp_sent st @ [ms]" "rr_Checkpoint (lp_result st1) = None"
      "state_ok lb req st \<Longrightarrow> request_ok lb req ms \<and> state_ok lb req st1" by (auto simp del: of_nat_Suc)
    from Next Suc.prems(1) have "run_loop lb r env req hooks toolNames tools n st1 w1 = (out, st', w')" by (simp del: of_nat_Suc)
    from Suc.IH [OF this ms(2)] obtain sent where "context_errors env \<longrightarrow> ends_well st' out" "lp_sent st' = lp_sent st1 @ sent"
      "length sent \<le> n" "state_ok lb req st1 \<longrightarrow> list_all (request_ok lb req) sent" by blast
    with ms show ?thesis by (intro conjI exI [of _ "ms # sent"]) auto
  qed
qed

lemma begin_run_spec:
  assumes "begin_run lb r env req hooks toolNames w = Inr res"
  shows "case res of
      Stop out st _ \<Rightarrow> lp_sent st = [] \<and> ends_well st out
    | Next st _ \<Rightarrow> lp_sent st = [] \<and> rr_Checkpoint (lp_result st) = None \<and> (aq_ResumeMessages req = [] \<longrightarrow> state_ok lb req st)"
proof (cases "aq_ResumeMessages req = []")
  case True
  with assms obtain base cx where res: "res = Next (start_state req base cx) w" "fresh_context lb req = Inr (base, cx)"
    by (auto simp: begin_run_def split: sum.splits prod.splits)
  obtain base' cx' where build: "Build (lb_go lb) (lb_tik lb) req = (base', cx')" by fastforce
  with res(2) have "base = base'" by (auto simp: fresh_context_def Let_def split: if_splits)
  with history_loses_pairing [OF build] have "no_calls base" by (simp add: no_calls_def list_all_iff)
  then show ?thesis using res(1) by (simp add: start_state_def start_result_def state_ok_def paired.none)
next
  case False
  let ?base = "if aq_ResumeBaseMessages req \<noteq> [] then aq_ResumeBaseMessages req else aq_ResumeMessages req"
  let ?cx = "(aq_ResumeContext req)\<lparr>cx_Strategy := ''resumed_from_checkpoint''\<rparr>"
  obtain st w1 where s: "resume_start lb r env req (start_state req ?base ?cx) w = (st, w1)" by fastforce
  have "begin_run lb r env req hooks toolNames w = Inr (resume_batch lb r env req hooks toolNames st w1)"
    unfolding begin_run_def Let_def s using False by (simp only: if_True not_False_eq_True case_prod_conv simp_thms)
  with assms have res: "res = resume_batch lb r env req hooks toolNames st w1" by (simp only: sum.inject)
  have st: "lp_sent st = []" "rr_Checkpoint (lp_result st) = None"
    using s by (auto simp: resume_start_def Let_def start_state_def start_result_def dest!: persistTranscriptEntries_keeps split: prod.splits)
  let ?calls = "findUnresolvedToolCalls (lp_messages st) toolNames"
  show ?thesis
  proof (cases "?calls = []")
    case True
    with st False show ?thesis by (simp add: res resume_batch_def)
  next
    case some: False
    obtain stop new st1 w2 where b: "on_batch lb r env req hooks toolNames (aq_ResumeApprovedToolCallIDs req) ?calls st w1 = (stop, new, st1, w2)"
      by (metis prod_cases4)
    obtain st2 w3 where a: "append_transcript lb r env req new st1 w2 = (st2, w3)" by fastforce
    note keep = append_transcript_keeps [OF a] and batch = on_batch_spec [OF b st(2)]
    have "if stop then rr_StopReason (lp_result st2) = ''max_tool_calls_exceeded'' \<and> rr_Checkpoint (lp_result st2) = None \<or>
        rr_StopReason (lp_result st2) = ''waiting_human'' \<and> rr_Checkpoint (lp_result st2) \<noteq> None
      else rr_Checkpoint (lp_result st2) = None"
      using batch(4) keep by (simp split: if_splits)
    from after_batch_spec [OF this, where lb = lb and r = r and env = env and req = req and k = "length (rr_Steps (lp_result st))" and w = w3]
      some False st(1) keep batch(1) show ?thesis
      by (auto simp: res resume_batch_def b a Let_def split: step_result.splits)
  qed
qed

lemma Run_spec:
  assumes "Run lb r env req w = (out, Some st, w')"
  shows "context_errors env \<longrightarrow> ends_well st out"
    "length (lp_sent st) \<le> nat (aq_MaxIterations (apply_defaults req) - (if aq_ResumeMessages req \<noteq> [] then aq_ResumeIteration req else 0))"
    "aq_ResumeMessages req = [] \<longrightarrow> list_all (request_ok lb (apply_defaults req)) (lp_sent st)"
proof -
  have resume: "aq_ResumeMessages (apply_defaults req) = aq_ResumeMessages req" by (simp add: apply_defaults_def Let_def)
  from assms have "(context_errors env \<longrightarrow> ends_well st out) \<and>
    length (lp_sent st) \<le> nat (aq_MaxIterations (apply_defaults req) - (if aq_ResumeMessages req \<noteq> [] then aq_ResumeIteration req else 0)) \<and>
    (aq_ResumeMessages req = [] \<longrightarrow> list_all (request_ok lb (apply_defaults req)) (lp_sent st))"
  proof (cases rule: Run_cases)
    case (stopped tools)
    with begin_run_spec [OF stopped(2)] show ?thesis by simp
  next
    case (loop tools st1 w1)
    note init = begin_run_spec [OF loop(2), simplified]
    from run_loop_spec [OF loop(3)] init resume show ?thesis by auto
  qed
  then show "context_errors env \<longrightarrow> ends_well st out"
    "length (lp_sent st) \<le> nat (aq_MaxIterations (apply_defaults req) - (if aq_ResumeMessages req \<noteq> [] then aq_ResumeIteration req else 0))"
    "aq_ResumeMessages req = [] \<longrightarrow> list_all (request_ok lb (apply_defaults req)) (lp_sent st)" by blast+
qed

end
