(* ===== verification/Runner_Loop_Props.thy ===== *)
theory Runner_Loop_Props
  imports Runner_Ends
begin

text \<open>
  What a whole run guarantees, whatever the model answers and whatever the tools, the steering
  provider, the message sink and the snapshot repository do: no tool runs unchecked and the limit on
  tool calls holds over all batches; a run ends after a bounded number of requests with a known stop
  reason and, when it waits or is paused, a checkpoint of its whole state; every request answers every
  tool call before it; rows of the transcript are written under identifiers no row of this or a later
  resumed run shares.
\<close>

section \<open>Invariants of a run\<close>

locale run_invariant =
  fixes lb :: run_libs and r :: runner and req :: agent_request and inv :: "ledger \<Rightarrow> bool"
  assumes start: "inv (start_ledger req)"
    and preserved: "ledger_step lb r (apply_defaults req) (run_hooks lb req) toolNames l l' \<Longrightarrow> inv l \<Longrightarrow> inv l'"
begin

lemma reached: "ledger_reaches lb r (apply_defaults req) (run_hooks lb req) toolNames l l' \<Longrightarrow> inv l \<Longrightarrow> inv l'"
  by (induction rule: rtranclp_induct) (auto intro: preserved)

lemma after_run: "Run lb r env req w = (out, Some st, w') \<Longrightarrow> \<exists>b. inv (ledger_of b st)"
  using Run_refines [of lb r env req w out st w'] reached start by blast

end

section \<open>Rows of the transcript\<close>

definition row_at :: "comp_entry \<Rightarrow> bool" where
  "row_at e \<longleftrightarrow> en_TranscriptEntryID e = itoa (en_TranscriptIndex e) @ '':'' @ itoa (en_SubEntryIndex e)"

lemma newTranscriptEntry_at:
  "row_at (newTranscriptEntry ti si role ct content)" "en_TranscriptIndex (newTranscriptEntry ti si role ct content) = ti"
  by (simp_all add: newTranscriptEntry_def row_at_def)

lemma row_at_update [simp]: "row_at (e\<lparr>en_ToolCallID := a\<rparr>) = row_at e" "row_at (e\<lparr>en_ToolName := a\<rparr>) = row_at e"
  "row_at (e\<lparr>en_Arguments := a\<rparr>) = row_at e" "row_at (e\<lparr>en_IsError := b\<rparr>) = row_at e" "row_at (e\<lparr>en_ErrorCode := a\<rparr>) = row_at e"
  by (simp_all add: row_at_def)

lemma call_entries_at: "e \<in> set (call_entries ti si calls) \<Longrightarrow> row_at e \<and> en_TranscriptIndex e = ti"
  by (induction calls arbitrary: si) (auto simp: newTranscriptEntry_at)

lemma message_entries_at: "e \<in> set (message_entries ti m) \<Longrightarrow> row_at e \<and> en_TranscriptIndex e = ti"
  by (auto simp: message_entries_def newTranscriptEntry_at split: if_splits dest: call_entries_at)

lemma FromChatAt_at:
  "e \<in> set (FromChatAt ms k) \<Longrightarrow> row_at e \<and> k \<le> en_TranscriptIndex e \<and> en_TranscriptIndex e < k + int (length ms)"
proof (induction ms arbitrary: k)
  case (Cons m ms)
  then consider "e \<in> set (message_entries k m)" | "e \<in> set (FromChatAt ms (k + 1))" by auto
  then show ?case using Cons.IH [of "k + 1"] message_entries_at by cases fastforce+
qed simp

lemma rows_apart:
  assumes "row_at e" "row_at e'" "en_TranscriptIndex e \<noteq> en_TranscriptIndex e'"
  shows "en_TranscriptEntryID e \<noteq> en_TranscriptEntryID e'"
  using assms entry_id_inj unfolding row_at_def by metis

lemma FromChatAt_distinct: "distinct (map en_TranscriptEntryID (FromChatAt ms k))"
proof (induction ms arbitrary: k)
  case (Cons m ms)
  have "en_TranscriptEntryID e \<noteq> en_TranscriptEntryID e'" if "e \<in> set (message_entries k m)" "e' \<in> set (FromChatAt ms (k + 1))" for e e'
    using message_entries_at [OF that(1)] FromChatAt_at [OF that(2)] by (intro rows_apart) auto
  then show ?case using message_entries_ids(1) [of k m] Cons.IH [of "k + 1"] by fastforce
qed simp

definition enrich :: "run_step list \<Rightarrow> comp_entry \<Rightarrow> comp_entry" where
  "enrich steps e = (if en_ContentType e \<noteq> ContentTypeFunctionCallOutput \<or> en_ToolCallID e = [] then e
     else case map_of (tool_results_by_id steps) (en_ToolCallID e) of
       None \<Rightarrow> e | Some s \<Rightarrow> e\<lparr>en_IsError := Some (rs_IsError s), en_ErrorCode := rs_ErrorCode s\<rparr>)"

lemma enrich_keeps [simp]: "row_at (enrich steps e) = row_at e" "en_TranscriptEntryID (enrich steps e) = en_TranscriptEntryID e"
  "en_TranscriptIndex (enrich steps e) = en_TranscriptIndex e"
  by (simp_all add: enrich_def split: option.splits)

lemma rows_of_at:
  "e \<in> set (rows_of lb req res ms k) \<Longrightarrow> row_at e \<and> k \<le> en_TranscriptIndex e \<and> en_TranscriptIndex e < k + int (length ms)"
  "distinct (map en_TranscriptEntryID (rows_of lb req res ms k))"
proof -
  have eq: "rows_of lb req res ms k = (if aq_HasMessageSink req
    then map (enrich (rr_Steps res)) (FromChatAt (sanitizePersistedEntries (lb_go lb) ms) k) else [])"
    by (simp add: rows_of_def persist_entries_def EnrichTranscriptEntries_def enrich_def [abs_def])
  have len: "length (sanitizePersistedEntries (lb_go lb) ms) = length ms" by (simp add: sanitizePersistedEntries_def)
  show "e \<in> set (rows_of lb req res ms k) \<Longrightarrow> row_at e \<and> k \<le> en_TranscriptIndex e \<and> en_TranscriptIndex e < k + int (length ms)"
    using FromChatAt_at [of _ "sanitizePersistedEntries (lb_go lb) ms" k] len by (auto simp: eq split: if_splits)
  have "map en_TranscriptEntryID (map (enrich steps) es) = map en_TranscriptEntryID es" for steps es by simp
  then show "distinct (map en_TranscriptEntryID (rows_of lb req res ms k))"
    by (simp only: eq FromChatAt_distinct split: if_split) simp
qed

definition rows_inv :: "int \<Rightarrow> ledger \<Rightarrow> bool" where
  "rows_inv c l \<longleftrightarrow> c \<le> lg_cursor l \<and> distinct (map en_TranscriptEntryID (lg_rows l)) \<and>
     list_all (\<lambda>e. row_at e \<and> c \<le> en_TranscriptIndex e \<and> en_TranscriptIndex e < lg_cursor l) (lg_rows l)"

lemma rows_inv_write:
  assumes "rows_inv c l"
  shows "rows_inv c (l\<lparr>lg_rows := lg_rows l @ rows_of lb req res entries (lg_cursor l), lg_cursor := lg_cursor l + int (length entries)\<rparr>)"
proof -
  have "en_TranscriptEntryID e \<noteq> en_TranscriptEntryID e'" if "e \<in> set (lg_rows l)" "e' \<in> set (rows_of lb req res entries (lg_cursor l))" for e e'
    using assms that rows_of_at(1) [OF that(2)] by (intro rows_apart) (auto simp: rows_inv_def list_all_iff)
  with assms rows_of_at(2) show ?thesis
    by (fastforce simp: rows_inv_def list_all_iff dest: rows_of_at(1))
qed

interpretation rows: run_invariant lb r req "rows_inv (aq_ResumeTranscriptCursor req)" for lb r req
proof
  show "rows_inv (aq_ResumeTranscriptCursor req) (start_ledger req)" by (simp add: rows_inv_def start_ledger_def)
next
  fix toolNames l l'
  assume "ledger_step lb r (apply_defaults req) (run_hooks lb req) toolNames l l'" "rows_inv (aq_ResumeTranscriptCursor req) l"
  then show "rows_inv (aq_ResumeTranscriptCursor req) l'"
    by (cases rule: ledger_step.cases) (auto simp: rows_inv_write, auto simp: rows_inv_def list_all_iff)
qed

section \<open>Tool calls over the whole run\<close>

text \<open>What \<open>no_tool_runs_unchecked\<close> says of one call of a batch.\<close>

definition call_checked :: "run_libs \<Rightarrow> agent_request \<Rightarrow> prepared_call \<Rightarrow> bool" where
  "call_checked lb req p \<longleftrightarrow> Some (pc_tool p) \<in> set (rq_Tools req) \<and> tc_Name (pc_call p) = TrimSpace (rt_Name (pc_tool p)) \<and>
     ValidateToolArguments (lb_go lb) (rt_Parameters (pc_tool p)) (tc_Arguments (pc_call p)) = None \<and>
     (let pre = BeforeToolUse (run_hooks lb req) [] (hook_request (batch_request req no_context) (pc_call p) (MetadataOf (Some (pc_tool p)))) in
      pr_Denied pre = None \<and> (pr_Approval pre = None \<or> tc_ID (pc_call p) \<in> set (aq_ResumeApprovedToolCallIDs req)))"

definition tools_inv :: "run_libs \<Rightarrow> agent_request \<Rightarrow> ledger \<Rightarrow> bool" where
  "tools_inv lb req l \<longleftrightarrow> list_all (call_checked lb req) (lg_ran l) \<and>
     (lg_ran l = [] \<or> resumed_calls req + int (length (lg_ran l)) \<le> rq_MaxToolCalls (apply_defaults req)) \<and>
     (lg_stopped l \<or> resumed_calls req + int (length (lg_ran l)) \<le> lg_calls l)"

lemma batch_counter:
  assumes "executeToolBatch lib r hooks req toolNames ids exec cancelled res messages calls = (stop, res', messages', runs)" "\<not> stop"
  shows "rr_ToolCalls res + int (length runs) \<le> rr_ToolCalls res'"
  using assms
proof (cases rule: executeToolBatch_cases)
  case (goes_on res1 messages1 prepared)
  then show ?thesis
    using record_results_spec [OF goes_on(4)] ran_calls_subset(1) [of cancelled prepared] by (auto simp: prep_spec_def)
qed simp_all

lemma batch_request_simps [simp]: "rq_Tools (batch_request req cx) = rq_Tools req" "rq_MaxToolCalls (batch_request req cx) = rq_MaxToolCalls req"
  "rq_ToolPolicy (batch_request req cx) = rq_ToolPolicy req"
  by (simp_all add: batch_request_def run_request.defs)

lemma apply_defaults_simps [simp]: "rq_Tools (apply_defaults req) = rq_Tools req" "rq_ToolPolicy (apply_defaults req) = rq_ToolPolicy req"
  "aq_ResumeApprovedToolCallIDs (apply_defaults req) = aq_ResumeApprovedToolCallIDs req"
  by (simp_all add: apply_defaults_def Let_def)

lemma tools_inv_batch:
  assumes "tools_inv lb req l" "\<not> lg_stopped l" "ids = [] \<or> ids = aq_ResumeApprovedToolCallIDs (apply_defaults req)" "rr_ToolCalls res = lg_calls l"
    and batch: "executeToolBatch (lb_go lb) r (run_hooks lb req) (batch_request (apply_defaults req) cx) toolNames ids exec cancelled res messages calls =
      (stop, res', messages', runs)"
  shows "tools_inv lb req (l\<lparr>lg_ran := lg_ran l @ runs, lg_calls := rr_ToolCalls res', lg_stopped := stop\<rparr>)"
proof -
  have hook: "hook_request (batch_request (apply_defaults req) cx) c m = hook_request (batch_request req no_context) c m" for c m
    by (simp add: hook_request_def)
  note ok = no_tool_runs_unchecked [OF batch]
  have "list_all (call_checked lb req) runs"
    using ok assms(3) unfolding hook by (auto simp: list_all_iff call_checked_def Let_def)
  with assms(1,2,4) ok batch_counter [OF batch] show ?thesis by (cases stop) (auto simp: tools_inv_def)
qed

interpretation tools: run_invariant lb r req "tools_inv lb req" for lb r req
proof
  show "tools_inv lb req (start_ledger req)" by (simp add: tools_inv_def start_ledger_def)
next
  fix toolNames l l'
  assume "ledger_step lb r (apply_defaults req) (run_hooks lb req) toolNames l l'" "tools_inv lb req l"
  then show "tools_inv lb req l'"
  proof (cases rule: ledger_step.cases)
    case (batch ids res cx exec cancelled messages calls stop res' messages' runs)
    with tools_inv_batch [OF \<open>tools_inv lb req l\<close>] show ?thesis by simp
  qed (simp_all add: tools_inv_def)
qed

text \<open>C2: No tool runs unchecked in a whole run, fresh or resumed: every call whose tool ran names a tool the agent
  was given, has arguments that tool's schema accepts, was not denied by the hooks, and needed no
  approval or has an identifier a human approved before the run was resumed. The tools run in all
  batches together, on top of the calls counted before the resume, never exceed the limit on tool calls.\<close>

theorem run_tools_checked:
  assumes "Run lb r env req w = (out, Some st, w')"
  shows "list_all (\<lambda>p. Some (pc_tool p) \<in> set (rq_Tools req) \<and> tc_Name (pc_call p) = TrimSpace (rt_Name (pc_tool p)) \<and>
      ValidateToolArguments (lb_go lb) (rt_Parameters (pc_tool p)) (tc_Arguments (pc_call p)) = None \<and>
      (let pre = BeforeToolUse (run_hooks lb req) [] (hook_request (batch_request req no_context) (pc_call p) (MetadataOf (Some (pc_tool p)))) in
       pr_Denied pre = None \<and> (pr_Approval pre = None \<or> tc_ID (pc_call p) \<in> set (aq_ResumeApprovedToolCallIDs req)))) (lp_ran st) \<and>
    (lp_ran st = [] \<or> resumed_calls req + int (length (lp_ran st)) \<le> rq_MaxToolCalls (apply_defaults req))"
  using tools.after_run [OF assms] by (auto simp: tools_inv_def ledger_of_def call_checked_def list_all_iff)


section \<open>Ends, requests and rows\<close>

text \<open>C10: A run ends: it sends at most as many requests as iterations are left, and unless a client breaks its
  contract by returning nothing (a panic), it ends with an error exactly as llm_error, or with one of
  seven stop reasons; it has a checkpoint exactly when it is paused or waits for a human, and that
  checkpoint holds the transcript, messages, base messages, steps and cursors the run stopped with.
  (The error of a context is a cancellation or a missed deadline, as Go documents it.)\<close>

theorem run_ends:
  assumes "Run lb r env req w = (out, Some st, w')" "context_errors env"
  shows "int (length (lp_sent st)) \<le> max 0 (aq_MaxIterations (apply_defaults req) - (if aq_ResumeMessages req \<noteq> [] then aq_ResumeIteration req else 0)) \<and>
    (case out of
       Refused _ \<Rightarrow> False
     | Panicked \<Rightarrow> True
     | Finished res (Some e) \<Rightarrow> rr_StopReason res = ''llm_error'' \<and> rr_Checkpoint res = None
     | Finished res None \<Rightarrow> rr_StopReason res \<in> set final_reasons \<and>
         (case rr_Checkpoint res of
            None \<Rightarrow> rr_StopReason res \<notin> {''paused'', ''waiting_human''}
          | Some cp \<Rightarrow> rr_StopReason res \<in> {''paused'', ''waiting_human''} \<and> cp_SnapshotVersion cp = 2 \<and>
              cp_Transcript cp = lp_transcript st \<and> cp_Messages cp = lp_messages st \<and> cp_BaseMessages cp = lp_base st \<and>
              cp_TranscriptCursor cp = lp_cursor st \<and> cp_PersistedMessageCount cp = lp_persisted st \<and> cp_Steps cp = rr_Steps res))"
proof -
  have "ends_well st out" using Run_spec(1) [OF assms(1)] assms(2) by simp
  moreover have "int (length (lp_sent st)) \<le> max 0 (aq_MaxIterations (apply_defaults req) - (if aq_ResumeMessages req \<noteq> [] then aq_ResumeIteration req else 0))"
    using Run_spec(2) [OF assms(1)] by linarith
  ultimately show ?thesis unfolding ends_well_def resumable_def by blast
qed

text \<open>C5: Every request of a fresh run is well formed for a provider: after messages without tool calls comes a
  transcript in which each assistant message with tool calls is directly followed by tool messages
  that answer its normalised calls one by one, also after steering, reflection and compaction.\<close>

theorem requests_paired:
  assumes "Run lb r env req w = (out, Some st, w')" "aq_ResumeMessages req = []"
  shows "list_all (\<lambda>ms. \<exists>pre t. ms = pre @ t \<and> no_calls pre \<and> paired lb (apply_defaults req) t) (lp_sent st)"
  using Run_spec(3) [OF assms(1)] assms(2) by (simp add: request_ok_def [abs_def])

text \<open>C8: No transcript row is written twice: the rows a run gives to the message sink have distinct identifiers,
  made of their position and their index in the message, and lie between the cursor the run was
  resumed with and the cursor it ends with. So when a run stops with a checkpoint and a run is resumed
  from its cursor, no row of one has the identifier of a row of the other.\<close>

theorem rows_written_once:
  assumes "Run lb r env req w = (Finished res err, Some st, w')" "context_errors env" "rr_Checkpoint res = Some cp"
    "aq_ResumeTranscriptCursor req2 = cp_TranscriptCursor cp" "Run lb2 r2 env2 req2 v = (out2, Some st2, v')"
  shows "distinct (map en_TranscriptEntryID (lp_rows st @ lp_rows st2)) \<and>
    list_all (\<lambda>e. en_TranscriptEntryID e = itoa (en_TranscriptIndex e) @ '':'' @ itoa (en_SubEntryIndex e)) (lp_rows st @ lp_rows st2) \<and>
    list_all (\<lambda>e. aq_ResumeTranscriptCursor req \<le> en_TranscriptIndex e \<and> en_TranscriptIndex e < lp_cursor st) (lp_rows st) \<and>
    list_all (\<lambda>e. lp_cursor st \<le> en_TranscriptIndex e \<and> en_TranscriptIndex e < lp_cursor st2) (lp_rows st2)"
proof -
  have "ends_well st (Finished res err)" using Run_spec(1) [OF assms(1)] assms(2) by simp
  with assms(3) have "cp_TranscriptCursor cp = lp_cursor st" by (cases err) (simp_all add: resumable_def)
  with rows.after_run [OF assms(1)] rows.after_run [OF assms(5)] assms(4)
  have inv: "distinct (map en_TranscriptEntryID (lp_rows st))" "distinct (map en_TranscriptEntryID (lp_rows st2))"
    "list_all (\<lambda>e. row_at e \<and> aq_ResumeTranscriptCursor req \<le> en_TranscriptIndex e \<and> en_TranscriptIndex e < lp_cursor st) (lp_rows st)"
    "list_all (\<lambda>e. row_at e \<and> lp_cursor st \<le> en_TranscriptIndex e \<and> en_TranscriptIndex e < lp_cursor st2) (lp_rows st2)"
    by (auto simp: rows_inv_def ledger_of_def)
  have "en_TranscriptEntryID e \<noteq> en_TranscriptEntryID e'" if "e \<in> set (lp_rows st)" "e' \<in> set (lp_rows st2)" for e e'
    using inv(3,4) that by (intro rows_apart) (fastforce simp: list_all_iff)+
  with inv show ?thesis by (auto simp: list_all_iff row_at_def)
qed

section \<open>Witnesses\<close>

text \<open>A run resumed with an approved call: the call runs, then the run is paused.\<close>

definition sample_libs :: run_libs where
  "sample_libs = \<lparr>lb_go = sample_lib, lb_tik = no_tiktoken,
     lb_rules = \<lparr>strict_empty = (\<lambda>_. None), strict_strings = (\<lambda>_ _. Inr []), strict_ints = (\<lambda>_ _ _. Inr (0, 0)), marshal_rules = (\<lambda>_. Inr [])\<rparr>,
     lb_agent = \<lparr>marshal_messages = (\<lambda>_. None), marshal_tools = (\<lambda>_. None), marshal_tool = (\<lambda>_. None)\<rparr>,
     lb_reflect = \<lparr>normalize_json = (\<lambda>_. None), decode_reflection = (\<lambda>_. Inl []), encode_reflection = (\<lambda>_. [])\<rparr>\<rparr>"

definition sample_env :: "unit run_env" where
  "sample_env = \<lparr>ev_steering = (\<lambda>w. ([], w)), ev_ctx_err = (\<lambda>_. Some ''context canceled''), ev_paused = (\<lambda>_. True),
     ev_is_cancelled = (\<lambda>e. e = ''context canceled''), ev_is_deadline = (\<lambda>_. False), ev_unsupported = (\<lambda>_. False), ev_observer = None,
     ev_turn = (\<lambda>w _. (None, (None, None), w)), ev_chat = (\<lambda>w _. ((None, None), w)), ev_tools = (\<lambda>w. (sample_exec, (\<lambda>_. None), w)),
     ev_sink = (\<lambda>w _. ((1, None), w)), ev_snapshots = None, ev_token = (\<lambda>_. [])\<rparr>"

definition deploy_message :: chat_message where
  "deploy_message = \<lparr>cm_Role = RoleAssistant, cm_Content = [], cm_ToolCallID = [], cm_ToolCalls = [named_call ''d'' ''deploy'']\<rparr>"

definition sample_resume :: agent_request where
  "sample_resume = sample_agent_request\<lparr>rq_Tools := [Some deploy_tool], rq_ToolPolicy := sample_policy\<lparr>tp_RuleBindings := []\<rparr>,
     aq_HasMessageSink := True, aq_ResumeMessages := [deploy_message], aq_ResumeBaseMessages := [plain_message RoleUser ''go''],
     aq_ResumeTranscript := [deploy_message], aq_ResumePersistedMessageCount := 1, aq_ResumeTranscriptCursor := 1,
     aq_ResumeApprovedToolCallIDs := [''d'']\<rparr>"

definition sample_run :: "int \<Rightarrow> run_outcome \<times> loop_state option \<times> unit" where
  "sample_run cursor = Run sample_libs sample_runner sample_env (sample_resume\<lparr>aq_ResumeTranscriptCursor := cursor\<rparr>) ()"

definition paused_after_call :: "int \<Rightarrow> run_outcome \<times> loop_state option \<times> unit \<Rightarrow> bool" where
  "paused_after_call cursor run = (case run of
     (Finished res None, Some st, _) \<Rightarrow> map_option cp_TranscriptCursor (rr_Checkpoint res) = Some cursor \<and>
       map (\<lambda>p. tc_ID (pc_call p)) (lp_ran st) = [''d''] \<and> map en_ToolCallID (lp_rows st) = [''d'']
   | _ \<Rightarrow> False)"

lemma sample_run_facts: "paused_after_call 2 (sample_run 1)" "paused_after_call 3 (sample_run 2)"
  by code_simp+

lemma paused_after_callE:
  assumes "paused_after_call c run"
  obtains res st cp where "run = (Finished res None, Some st, ())" "rr_Checkpoint res = Some cp" "cp_TranscriptCursor cp = c"
    "map (\<lambda>p. tc_ID (pc_call p)) (lp_ran st) = [''d'']" "map en_ToolCallID (lp_rows st) = [''d'']"
  using assms by (auto simp: paused_after_call_def split: prod.splits run_outcome.splits option.splits)

lemma sample_env_context: "context_errors sample_env"
  by (simp add: context_errors_def sample_env_def)

theorem run_tools_checked_witness:
  "\<exists>out st. sample_run 1 = (out, Some st, ()) \<and> map (\<lambda>p. tc_ID (pc_call p)) (lp_ran st) = [''d''] \<and>
     list_all (\<lambda>p. Some (pc_tool p) \<in> set (rq_Tools (sample_resume\<lparr>aq_ResumeTranscriptCursor := 1\<rparr>))) (lp_ran st)"
proof -
  obtain res st cp where run: "sample_run 1 = (Finished res None, Some st, ())" "map (\<lambda>p. tc_ID (pc_call p)) (lp_ran st) = [''d'']"
    by (rule paused_after_callE [OF sample_run_facts(1)])
  from run_tools_checked [OF run(1) [unfolded sample_run_def]] run show ?thesis
    by (intro exI [of _ "Finished res None"] exI [of _ st]) (simp add: list_all_iff)
qed

theorem run_ends_witness:
  "\<exists>res st. sample_run 1 = (Finished res None, Some st, ()) \<and> rr_StopReason res \<in> set final_reasons \<and> rr_Checkpoint res \<noteq> None"
proof -
  obtain res st cp where run: "sample_run 1 = (Finished res None, Some st, ())" "rr_Checkpoint res = Some cp"
    by (rule paused_after_callE [OF sample_run_facts(1)])
  from run_ends [OF run(1) [unfolded sample_run_def] sample_env_context] run show ?thesis by simp
qed

theorem rows_written_once_witness:
  "\<exists>out st out2 st2. sample_run 1 = (out, Some st, ()) \<and> sample_run 2 = (out2, Some st2, ()) \<and> lp_rows st \<noteq> [] \<and> lp_rows st2 \<noteq> [] \<and>
     distinct (map en_TranscriptEntryID (lp_rows st @ lp_rows st2))"
proof -
  obtain res st cp where run: "sample_run 1 = (Finished res None, Some st, ())" "rr_Checkpoint res = Some cp" "cp_TranscriptCursor cp = 2"
    "map en_ToolCallID (lp_rows st) = [''d'']"
    by (rule paused_after_callE [OF sample_run_facts(1)])
  obtain res2 st2 cp2 where run2: "sample_run 2 = (Finished res2 None, Some st2, ())" "map en_ToolCallID (lp_rows st2) = [''d'']"
    by (rule paused_after_callE [OF sample_run_facts(2)])
  have "aq_ResumeTranscriptCursor (sample_resume\<lparr>aq_ResumeTranscriptCursor := 2\<rparr>) = cp_TranscriptCursor cp" using run(3) by simp
  from rows_written_once [OF run(1) [unfolded sample_run_def] sample_env_context run(2) this run2(1) [unfolded sample_run_def]] run run2
  show ?thesis by (intro exI [of _ "Finished res None"] exI [of _ st] exI [of _ "Finished res2 None"] exI [of _ st2]) auto
qed

text \<open>A fresh run that sends a request.\<close>

definition live_env :: "unit run_env" where
  "live_env = sample_env\<lparr>ev_ctx_err := (\<lambda>_. None)\<rparr>"

lemma Build_limits_of_run:
  "Build lib tik (req\<lparr>aq_MaxIterations := a, rq_MaxToolCalls := b, rq_MaxParallelTools := c\<rparr>) = Build lib tik req"
proof -
  have "build_block lib tik (req\<lparr>aq_MaxIterations := a, rq_MaxToolCalls := b, rq_MaxParallelTools := c\<rparr>) = build_block lib tik req"
    by (intro ext) (simp add: build_block_def block_tokens_def modelTokenCount_def cong: if_cong)
  then show ?thesis by (simp add: Build_def build_limits_def build_blocks_def cong: if_cong)
qed

lemma fresh_run_sends:
  assumes "TrimSpace (aq_Model req) \<noteq> []" "TrimSpace (aq_Task req) \<noteq> []" "rq_Tools req = []" "aq_ResumeMessages req = []"
    and "\<not> cx_CoreOverflow (snd (Build (lb_go lb) (lb_tik lb) (apply_defaults req)))" "\<And>w. ev_ctx_err env w = None"
  shows "\<exists>out st w'. Run lb r env req w = (out, Some st, w') \<and> lp_sent st \<noteq> []"
proof -
  let ?req = "apply_defaults req" and ?hooks = "run_hooks lb (apply_defaults req)"
  have resume: "aq_ResumeMessages ?req = []" "rq_Tools ?req = []" using assms(3,4) by (simp_all add: apply_defaults_def Let_def)
  obtain b0 cx0 where "Build (lb_go lb) (lb_tik lb) ?req = (b0, cx0)" by fastforce
  with assms(5) obtain base cx where "fresh_context lb ?req = Inr (base, cx)" by (simp add: fresh_context_def Let_def)
  then have init: "begin_run lb r env ?req ?hooks [] w = Inr (Next (start_state ?req base cx) w)"
    using resume by (simp add: begin_run_def)
  let ?st = "start_state ?req base cx"
  obtain n where n: "nat (aq_MaxIterations ?req) = Suc n"
    by (cases "nat (aq_MaxIterations ?req)") (auto simp: apply_defaults_def Let_def split: if_splits)
  obtain out st w' where loop: "run_loop lb r env ?req ?hooks [] [] (Suc n) ?st w = (out, st, w')" by (metis prod_cases3)
  have run: "Run lb r env req w = (out, Some st, w')"
    using assms(1,2) init loop n resume unfolding Run_def Let_def run_hooks_def [of lb ?req, symmetric] by (simp del: run_loop.simps)
  have "lp_sent st \<noteq> []"
  proof -
    let ?it = "iterate lb r env ?req ?hooks [] [] (aq_MaxIterations ?req - int (Suc n)) ?st w"
    obtain st1 w1 where s: "steer env ?st w = (st1, w1)" by fastforce
    have st1: "lp_needsFollowUp st1 = False" "rr_Checkpoint (lp_result st1) = None"
      using s by (auto simp: steer_def Let_def start_state_def start_result_def split: prod.splits)
    let ?p = "plan_phase lb ?req [] (aq_MaxIterations ?req - int (Suc n)) st1"
    have it: "?it = turn_phase lb r env ?req ?hooks [] ?p w1"
      unfolding iterate_def s Let_def compact_phase_def using assms(6) st1(1) by simp
    have none: "rr_Checkpoint (lp_result ?p) = None" using st1(2) by simp
    note turn = turn_phase_spec [OF none, where lb = lb and r = r and env = env and req = ?req and hooks = ?hooks and toolNames = "[]" and w = w1]
    show ?thesis
    proof (cases ?it)
      case (Stop out1 st2 w2)
      with loop have "st = st2" by (simp del: of_nat_Suc)
      with turn Stop show ?thesis unfolding it by auto
    next
      case (Next st2 w2)
      with loop have "run_loop lb r env ?req ?hooks [] [] n st2 w2 = (out, st, w')" by (simp del: of_nat_Suc)
      moreover have "rr_Checkpoint (lp_result st2) = None" "lp_sent st2 \<noteq> []" using turn Next unfolding it by auto
      ultimately show ?thesis using run_loop_spec by fastforce
    qed
  qed
  with run show ?thesis by blast
qed

theorem requests_paired_witness:
  "\<exists>out st. Run sample_libs sample_runner live_env sample_rule_request () = (out, Some st, ()) \<and> lp_sent st \<noteq> [] \<and>
     list_all (\<lambda>ms. \<exists>pre t. ms = pre @ t \<and> no_calls pre \<and> paired sample_libs (apply_defaults sample_rule_request) t) (lp_sent st)"
proof -
  have trim: "TrimSpace (aq_Task sample_rule_request) = aq_Task sample_rule_request" "TrimSpace (aq_Task sample_rule_request) \<noteq> []"
    "TrimSpace (aq_Model sample_rule_request) \<noteq> []" by code_simp+
  have "apply_defaults sample_rule_request = sample_rule_request\<lparr>aq_MaxIterations := 8, rq_MaxToolCalls := 16, rq_MaxParallelTools := 8\<rparr>"
    unfolding apply_defaults_def trim(1) by (simp add: sample_rule_request_def sample_agent_request_def Let_def)
  then have core: "\<not> cx_CoreOverflow (snd (Build (lb_go sample_libs) (lb_tik sample_libs) (apply_defaults sample_rule_request)))"
    using sample_rule_core by (simp add: Build_limits_of_run sample_libs_def)
  have plain: "rq_Tools sample_rule_request = []" "aq_ResumeMessages sample_rule_request = []"
    by (simp_all add: sample_rule_request_def sample_agent_request_def)
  have "ev_ctx_err live_env w = None" for w by (simp add: live_env_def)
  from fresh_run_sends [OF trim(3,2) plain core this, of sample_runner "()"] obtain out st
    where run: "Run sample_libs sample_runner live_env sample_rule_request () = (out, Some st, ())" "lp_sent st \<noteq> []" by auto
  with requests_paired [OF run(1) plain(2)] show ?thesis by blast
qed

end
