(* ===== verification/Go_Path.thy ===== *)
theory Go_Path
  imports Go_Text "HOL-Library.Sublist"
begin

text \<open>
  The lexical path operations of Go's \<^verbatim>\<open>path/filepath\<close> on a Unix system: \<^verbatim>\<open>Clean\<close>, \<^verbatim>\<open>Join\<close>,
  \<^verbatim>\<open>IsAbs\<close>, \<^verbatim>\<open>Abs\<close>, \<^verbatim>\<open>Dir\<close>, \<^verbatim>\<open>Base\<close> and \<^verbatim>\<open>Rel\<close>, and \<^verbatim>\<open>strings.Split\<close> at a byte. A clean absolute
  path is the list of its components; the lemmas reduce the operations on such paths to operations on
  these lists. (\<^verbatim>\<open>ToSlash\<close> and \<^verbatim>\<open>FromSlash\<close> are the identity there.)
\<close>

section \<open>Splitting at a byte\<close>

fun split_at :: "char \<Rightarrow> string \<Rightarrow> string \<Rightarrow> string list" where
  "split_at d cur [] = [rev cur]"
| "split_at d cur (c # cs) = (if c = d then rev cur # split_at d [] cs else split_at d (c # cur) cs)"

definition Split :: "char \<Rightarrow> string \<Rightarrow> string list" where
  "Split d s = split_at d [] s"

abbreviation slash :: char where "slash \<equiv> CHR ''/''"

section \<open>Paths\<close>

definition IsAbs :: "string \<Rightarrow> bool" where
  "IsAbs p \<longleftrightarrow> HasPrefix p ''/''"

definition path_parts :: "string \<Rightarrow> string list" where
  "path_parts p = filter (\<lambda>x. x \<noteq> [] \<and> x \<noteq> ''.'') (Split slash p)"

text \<open>\<^verbatim>\<open>Clean\<close>: the components of the path on a stack; a parent component takes one off, and stays at the bottom of
  a relative path.\<close>

fun clean_parts :: "bool \<Rightarrow> string list \<Rightarrow> string list \<Rightarrow> string list" where
  "clean_parts rooted st [] = rev st"
| "clean_parts rooted st (x # xs) =
     (if x = ''..'' then
        (if st = [] then clean_parts rooted (if rooted then [] else [x]) xs
         else if hd st = ''..'' then clean_parts rooted (x # st) xs
         else clean_parts rooted (tl st) xs)
      else clean_parts rooted (x # st) xs)"

definition Clean :: "string \<Rightarrow> string" where
  "Clean p =
     (let parts = clean_parts (IsAbs p) [] (path_parts p) in
      if IsAbs p then ''/'' @ Join parts ''/'' else if parts = [] then ''.'' else Join parts ''/'')"

definition Join_path :: "string list \<Rightarrow> string" where
  "Join_path elems = (let es = filter (\<lambda>e. e \<noteq> []) elems in if es = [] then [] else Clean (Join es ''/''))"

text \<open>\<^verbatim>\<open>Abs\<close>; the working directory, or the error of \<^verbatim>\<open>os.Getwd\<close>, is an argument.\<close>

definition Abs_path :: "string + string \<Rightarrow> string \<Rightarrow> string + string" where
  "Abs_path cwd p =
     (if IsAbs p then Inr (Clean p) else case cwd of Inl e \<Rightarrow> Inl e | Inr wd \<Rightarrow> Inr (Join_path [wd, p]))"

definition before_last_slash :: "string \<Rightarrow> string" where
  "before_last_slash p = rev (dropWhile (\<lambda>c. c \<noteq> slash) (rev p))"

definition Dir :: "string \<Rightarrow> string" where
  "Dir p = Clean (before_last_slash p)"

definition Base :: "string \<Rightarrow> string" where
  "Base p =
     (if p = [] then ''.''
      else let q = rev (dropWhile (\<lambda>c. c = slash) (rev p)) in
        if q = [] then ''/'' else rev (takeWhile (\<lambda>c. c \<noteq> slash) (rev q)))"

text \<open>\<^verbatim>\<open>Rel\<close>: what remains of both clean paths after their common components; an error when one is absolute and
  the other is not, or when the base goes up from the common part.\<close>

definition rel_parts :: "string \<Rightarrow> string list" where
  "rel_parts p = (if p = [] then [] else if p = ''/'' then [[]] else Split slash p)"

fun strip_common :: "'a list \<Rightarrow> 'a list \<Rightarrow> 'a list \<times> 'a list" where
  "strip_common (x # xs) (y # ys) = (if x = y then strip_common xs ys else (x # xs, y # ys))"
| "strip_common xs ys = (xs, ys)"

definition Rel :: "string \<Rightarrow> string \<Rightarrow> string option" where
  "Rel basepath targpath =
     (let b = Clean basepath; t = Clean targpath in
      if t = b then Some ''.''
      else let b = (if b = ''.'' then [] else b) in
        if IsAbs b \<noteq> IsAbs t then None
        else case strip_common (rel_parts b) (rel_parts t) of (rb, rt) \<Rightarrow>
          if rb \<noteq> [] \<and> rt \<noteq> [] \<and> hd rb = ''..'' then None
          else Some (Join (replicate (length rb) ''..'' @ rt) ''/''))"

section \<open>Clean absolute paths as lists of components\<close>

text \<open>A component of a clean path: not empty, no separator, neither the current nor the parent directory.\<close>

definition plain_part :: "string \<Rightarrow> bool" where
  "plain_part x \<longleftrightarrow> x \<noteq> [] \<and> x \<noteq> ''.'' \<and> x \<noteq> ''..'' \<and> slash \<notin> set x"

definition abs_path :: "string list \<Rightarrow> string" where
  "abs_path parts = ''/'' @ Join parts ''/''"

definition comps :: "string \<Rightarrow> string list" where
  "comps p = clean_parts True [] (path_parts p)"

lemma split_at_no_sep: "d \<notin> set cur \<Longrightarrow> l \<in> set (split_at d cur s) \<Longrightarrow> d \<notin> set l"
proof (induction s arbitrary: cur)
  case (Cons a s)
  then show ?case using Cons.IH [of "[]"] Cons.IH [of "a # cur"] by (cases "a = d") auto
qed simp

lemma Split_no_sep: "l \<in> set (Split d s) \<Longrightarrow> d \<notin> set l"
  using split_at_no_sep [of d "[]"] by (simp add: Split_def)

lemma split_at_plain: "d \<notin> set s \<Longrightarrow> split_at d cur (s @ t) = split_at d (rev s @ cur) t"
  by (induction s arbitrary: cur) auto

lemma Split_Join: "ls \<noteq> [] \<Longrightarrow> \<forall>l\<in>set ls. d \<notin> set l \<Longrightarrow> Split d (Join ls [d]) = ls"
proof (induction ls "[d]" rule: Join.induct)
  case (2 x)
  then show ?case using split_at_plain [of d x "[]" "[]"] by (simp add: Split_def)
next
  case (3 x y xs)
  then show ?case using split_at_plain [of d x "[]" "d # Join (y # xs) [d]"] by (simp add: Split_def)
qed simp

lemma split_at_nonempty [simp]: "split_at d cur s \<noteq> []"
  by (induction s arbitrary: cur) auto

lemma split_at_append: "split_at d cur (s @ d # t) = split_at d cur s @ split_at d [] t"
  by (induction s arbitrary: cur) auto

lemma Split_slash_front: "Split d (s @ d # t) = Split d s @ Split d t"
  by (simp add: Split_def split_at_append)

lemma Split_Nil [simp]: "Split d [] = [[]]"
  by (simp add: Split_def)

lemma path_parts_clean: "x \<in> set (path_parts p) \<Longrightarrow> x \<noteq> ''..'' \<Longrightarrow> plain_part x"
  by (auto simp: path_parts_def plain_part_def dest: Split_no_sep)

lemma clean_parts_plain:
  "(\<forall>x\<in>set st. plain_part x) \<Longrightarrow> (\<forall>x\<in>set xs. x = ''..'' \<or> plain_part x) \<Longrightarrow> y \<in> set (clean_parts True st xs) \<Longrightarrow> plain_part y"
proof (induction xs arbitrary: st)
  case (Cons x xs)
  have tl: "\<forall>z\<in>set (tl st). plain_part z" using Cons.prems(1) by (cases st) auto
  have hd: "st \<noteq> [] \<Longrightarrow> hd st \<noteq> ''..''" using Cons.prems(1) by (cases st) (auto simp: plain_part_def)
  show ?case
  proof (cases "x = ''..''")
    case True
    then show ?thesis using Cons.prems tl hd Cons.IH [of "[]"] Cons.IH [of "tl st"] by (cases "st = []") auto
  next
    case False
    then show ?thesis using Cons.prems Cons.IH [of "x # st"] by auto
  qed
qed auto

lemma comps_plain: "x \<in> set (comps p) \<Longrightarrow> plain_part x"
  unfolding comps_def by (rule clean_parts_plain [of "[]" "path_parts p"]) (auto dest: path_parts_clean)

lemma clean_parts_id: "\<forall>x\<in>set xs. plain_part x \<Longrightarrow> clean_parts r st xs = rev st @ xs"
  by (induction xs arbitrary: st) (auto simp: plain_part_def)

lemma path_parts_abs:
  assumes "\<forall>x\<in>set ps. plain_part x"
  shows "path_parts (abs_path ps) = ps"
proof (cases "ps = []")
  case False
  have "Split slash (abs_path ps) = [] # ps"
    using Split_Join [OF False, of slash] assms Split_slash_front [of slash "[]" "Join ps ''/''"] by (auto simp: abs_path_def plain_part_def)
  then have "path_parts (abs_path ps) = filter (\<lambda>x. x \<noteq> [] \<and> x \<noteq> ''.'') ps" by (simp add: path_parts_def)
  then show ?thesis using assms by (simp add: plain_part_def)
qed (simp add: path_parts_def abs_path_def Split_def)

lemma comps_abs_path [simp]: "\<forall>x\<in>set ps. plain_part x \<Longrightarrow> comps (abs_path ps) = ps"
  by (simp add: comps_def path_parts_abs clean_parts_id)

lemma IsAbs_abs_path [simp]: "IsAbs (abs_path ps)"
  by (simp add: IsAbs_def abs_path_def HasPrefix_def)

lemma Clean_abs: "IsAbs p \<Longrightarrow> Clean p = abs_path (comps p)"
  by (simp add: Clean_def comps_def abs_path_def Let_def)

lemma Clean_abs_path [simp]: "\<forall>x\<in>set ps. plain_part x \<Longrightarrow> Clean (abs_path ps) = abs_path ps"
  by (simp add: Clean_abs)

lemma Clean_idem: "IsAbs p \<Longrightarrow> Clean (Clean p) = Clean p"
  by (simp add: Clean_abs comps_plain)

lemma abs_path_inj: "\<forall>x\<in>set ps. plain_part x \<Longrightarrow> \<forall>x\<in>set qs. plain_part x \<Longrightarrow> abs_path ps = abs_path qs \<longleftrightarrow> ps = qs"
  using comps_abs_path by metis

lemma rel_parts_abs:
  assumes "\<forall>x\<in>set ps. plain_part x"
  shows "rel_parts (abs_path ps) = [] # ps"
proof (cases "ps = []")
  case False
  then have ne: "Join ps ''/'' \<noteq> []" using assms by (cases ps; cases "tl ps") (auto simp: plain_part_def)
  have "Split slash (abs_path ps) = [] # ps"
    using Split_Join [OF False, of slash] assms Split_slash_front [of slash "[]" "Join ps ''/''"] by (auto simp: abs_path_def plain_part_def)
  then show ?thesis using ne by (simp add: rel_parts_def abs_path_def)
qed (simp add: rel_parts_def abs_path_def)

lemma strip_common_split: "strip_common xs ys = (a, b) \<Longrightarrow> \<exists>c. xs = c @ a \<and> ys = c @ b \<and> (a = [] \<or> b = [] \<or> hd a \<noteq> hd b)"
proof (induction xs ys arbitrary: a b rule: strip_common.induct)
  case (1 x xs y ys)
  show ?case
  proof (cases "x = y")
    case True
    with 1 obtain c where "xs = c @ a" "ys = c @ b" "a = [] \<or> b = [] \<or> hd a \<noteq> hd b" by (auto split: if_splits)
    with True show ?thesis by (intro exI [of _ "x # c"]) auto
  qed (use 1 in auto)
qed auto

lemma strip_common_prefix: "strip_common xs ys = ([], b) \<longleftrightarrow> ys = xs @ b"
  by (induction xs ys rule: strip_common.induct) auto

text \<open>The relative path between two clean absolute paths.\<close>

lemma Rel_abs:
  assumes "\<forall>x\<in>set r. plain_part x" "\<forall>x\<in>set t. plain_part x"
  shows "Rel (abs_path r) (abs_path t) =
    (if t = r then Some ''.'' else case strip_common r t of (rb, rt) \<Rightarrow> Some (Join (replicate (length rb) ''..'' @ rt) ''/''))"
proof -
  obtain rb rt where s: "strip_common r t = (rb, rt)" by fastforce
  then obtain c where "r = c @ rb" using strip_common_split by blast
  then have "rb \<noteq> [] \<Longrightarrow> hd rb \<noteq> ''..''" using assms(1) by (cases rb) (auto simp: plain_part_def)
  moreover have "abs_path r \<noteq> ''.''" by (simp add: abs_path_def)
  ultimately show ?thesis using assms s by (auto simp: Rel_def Let_def abs_path_inj rel_parts_abs)
qed

end
