(* ===== verification/Workspace_Path.thy ===== *)
theory Workspace_Path
  imports Go_Path
begin

text \<open>
  Paths of a workspace (\<^verbatim>\<open>domain/workspace/path.go\<close>, and \<^verbatim>\<open>workspacePath\<close> of
  \<^verbatim>\<open>toolruntime/filesystem_path.go\<close>): the names of branches, the check that a path stays below the root of
  the workspace, lexically and through symbolic links, and the list of protected files. What the file system
  answers (\<^verbatim>\<open>os.Lstat\<close>, \<^verbatim>\<open>filepath.EvalSymlinks\<close>, \<^verbatim>\<open>os.Getwd\<close>) is an argument.
\<close>

section \<open>Branch names\<close>

text \<open>A maximal run of characters of a class becomes one character; the trims with a cut set.\<close>

function squeeze :: "(char \<Rightarrow> bool) \<Rightarrow> char \<Rightarrow> string \<Rightarrow> string" where
  "squeeze P d [] = []"
| "squeeze P d (c # cs) = (if P c then d # squeeze P d (dropWhile P cs) else c # squeeze P d cs)"
  by pat_completeness auto
termination
  by (relation "measure (\<lambda>(P, d, s). length s)") (auto simp: less_Suc_eq_le length_dropWhile_le)

definition trim_set :: "string \<Rightarrow> string \<Rightarrow> string" where
  "trim_set cutset s = rev (dropWhile (\<lambda>c. c \<in> set cutset) (rev (dropWhile (\<lambda>c. c \<in> set cutset) s)))"

definition HasSuffix :: "string \<Rightarrow> string \<Rightarrow> bool" where
  "HasSuffix s p \<longleftrightarrow> length p \<le> length s \<and> drop (length s - length p) s = p"

definition TrimSuffix :: "string \<Rightarrow> string \<Rightarrow> string" where
  "TrimSuffix s p = (if HasSuffix s p then take (length s - length p) s else s)"

text \<open>The class \<^verbatim>\<open>[a-z0-9._/-]\<close>.\<close>

definition branch_char :: "char \<Rightarrow> bool" where
  "branch_char c \<longleftrightarrow> 97 \<le> byte c \<and> byte c \<le> 122 \<or> 48 \<le> byte c \<and> byte c \<le> 57 \<or> c \<in> set ''._/-''"

definition SanitizeBranch :: "go_lib \<Rightarrow> string \<Rightarrow> string" where
  "SanitizeBranch lib v =
     (let v = ToLower lib (TrimSpace v);
          v = squeeze (\<lambda>c. \<not> branch_char c) (CHR ''-'') v;
          v = trim_set ''-/_ .'' v;
          v = ReplaceAll v ''..'' ''-'';
          v = TrimSuffix v ''.lock'';
          v = squeeze (\<lambda>c. c = slash) slash v;
          v = squeeze (\<lambda>c. c = CHR ''-'') (CHR ''-'') v
      in Join (filter (\<lambda>p. p \<noteq> []) (map (trim_set ''-._'') (Split slash v))) ''/'')"

definition Slugify :: "go_lib \<Rightarrow> string \<Rightarrow> string" where
  "Slugify lib v =
     (let v = ReplaceAll (SanitizeBranch lib v) ''/'' ''-'';
          v = (if 80 < length v then take 80 v else v);
          v = trim_set ''-._'' v
      in if v = [] then ''run'' else v)"

definition BranchName :: "go_lib \<Rightarrow> string \<Rightarrow> int \<Rightarrow> string \<Rightarrow> string" where
  "BranchName lib projectSlug runID task =
     (let projectSlug = Slugify lib projectSlug;
          projectSlug = (if 48 < length projectSlug then take 48 projectSlug else projectSlug)
      in SanitizeBranch lib (projectSlug @ ''/'' @ itoa runID @ ''-'' @ Slugify lib task))"

section \<open>Paths below a root\<close>

record fs_view =
  Lstat_ok :: "string \<Rightarrow> bool"
  EvalSymlinks :: "string \<Rightarrow> string option"
  Getwd :: "string + string"

definition EnsureInside :: "fs_view \<Rightarrow> string \<Rightarrow> string \<Rightarrow> string + string" where
  "EnsureInside v base target =
     (case Abs_path (Getwd v) (Clean base) of Inl e \<Rightarrow> Inl e | Inr base \<Rightarrow>
      case Abs_path (Getwd v) (Clean target) of Inl e \<Rightarrow> Inl e | Inr target \<Rightarrow>
      case Rel base target of None \<Rightarrow> Inl ''path escapes workspace root''
      | Some rel \<Rightarrow> if rel = ''..'' \<or> HasPrefix rel ''../'' then Inl ''path escapes workspace root'' else Inr target)"

text \<open>The loop to the nearest existing ancestor, on the reversed components of the absolute target: the parent
  directory has one component less (\<open>Dir_abs\<close>), and the loop ends at the root of the file system.\<close>

fun nearest_existing :: "fs_view \<Rightarrow> string list \<Rightarrow> string" where
  "nearest_existing v [] = abs_path []"
| "nearest_existing v (x # up) = (if Lstat_ok v (abs_path (rev (x # up))) then abs_path (rev (x # up)) else nearest_existing v up)"

definition EnsureSafePath :: "fs_view \<Rightarrow> string \<Rightarrow> string \<Rightarrow> string + string" where
  "EnsureSafePath v base target =
     (case Abs_path (Getwd v) (Clean base) of Inl e \<Rightarrow> Inl e | Inr base \<Rightarrow>
      case Abs_path (Getwd v) (Clean target) of Inl e \<Rightarrow> Inl e | Inr target \<Rightarrow>
      case EnsureInside v base target of Inl e \<Rightarrow> Inl e | Inr _ \<Rightarrow>
        let baseReal = (case EvalSymlinks v base of Some resolved \<Rightarrow> resolved | None \<Rightarrow> base);
            existing = nearest_existing v (rev (comps target));
            check = (\<lambda>p. case EvalSymlinks v p of None \<Rightarrow> None
                       | Some resolved \<Rightarrow> (case EnsureInside v baseReal resolved of Inl e \<Rightarrow> Some e | Inr _ \<Rightarrow> None))
        in case check existing of Some e \<Rightarrow> Inl e
           | None \<Rightarrow> (case (if Lstat_ok v target then check target else None) of Some e \<Rightarrow> Inl e | None \<Rightarrow> Inr target))"

definition protected_dirs :: "string list" where
  "protected_dirs = [''.git'', ''.agentcanvas'', ''credentials'', ''secrets'', ''.ssh'', ''.aws'']"

definition protected_suffixes :: "string list" where
  "protected_suffixes = [''.pem'', ''.key'', ''.p12'', ''.pfx'', ''-credentials.json'', ''_credentials.json'']"

definition protected_files :: "string list" where
  "protected_files =
     [''.git-credentials'', ''.netrc'', ''.npmrc'', ''.pypirc'', ''authorized_keys'', ''credentials'', ''credentials.json'',
      ''google-credentials.json'', ''id_dsa'', ''id_ecdsa'', ''id_ed25519'', ''id_rsa'', ''service-account.json'', ''service_account.json'',
      ''secrets.json'', ''secrets.yaml'', ''secrets.yml'', ''secrets.toml'', ''secrets.ini'']"

definition secret_base :: "string \<Rightarrow> bool" where
  "secret_base b \<longleftrightarrow> b = ''.env'' \<or> HasPrefix b ''.env.'' \<or> b \<in> set protected_files \<or> list_ex (HasSuffix b) protected_suffixes"

definition IsSensitivePath :: "go_lib \<Rightarrow> fs_view \<Rightarrow> string \<Rightarrow> string \<Rightarrow> bool" where
  "IsSensitivePath lib v base target =
     (case EnsureSafePath v base target of Inl e \<Rightarrow> True | Inr _ \<Rightarrow>
        let resolved = (case EvalSymlinks v target of Some candidate \<Rightarrow> candidate | None \<Rightarrow> Clean target);
            rel = (case Rel base resolved of Some r \<Rightarrow> r | None \<Rightarrow> [])
        in list_ex (\<lambda>part. ToLower lib part \<in> set protected_dirs) (Split slash rel) \<or> secret_base (ToLower lib (Base resolved)))"

text \<open>The workspace of a tool call.\<close>

record workspace_context =
  ws_ID :: int
  ws_ProjectID :: int
  ws_RunID :: int
  ws_Kind :: string
  ws_RepositoryRoot :: string
  ws_WorkspacePath :: string
  ws_BranchName :: string
  ws_BaseSHA :: string
  ws_HeadSHA :: string
  ws_Dirty :: bool
  ws_HasUnpushedCommits :: bool
  ws_FileWriteEnabled :: bool
  ws_GitEnabled :: bool
  ws_ExecEnabled :: bool

definition workspacePath :: "go_lib \<Rightarrow> fs_view \<Rightarrow> workspace_context option \<Rightarrow> string \<Rightarrow> string + string" where
  "workspacePath lib v workspace raw =
     (case workspace of None \<Rightarrow> Inl ''workspace is not configured'' | Some w \<Rightarrow>
      if TrimSpace (ws_WorkspacePath w) = [] then Inl ''workspace is not configured''
      else if TrimSpace raw = [] then Inl ''path is required''
      else if ''..'' \<in> set (Split slash raw) then Inl ''path traversal is not allowed''
      else case Abs_path (Getwd v) (Clean (if IsAbs raw then raw else Join_path [ws_WorkspacePath w, raw])) of
        Inl e \<Rightarrow> Inl e
      | Inr path \<Rightarrow>
          (case EnsureSafePath v (ws_WorkspacePath w) path of Inl e \<Rightarrow> Inl e
           | Inr _ \<Rightarrow> if IsSensitivePath lib v (ws_WorkspacePath w) path then Inl ''path is protected'' else Inr path))"

section \<open>Confinement\<close>

lemma Dir_abs:
  assumes "\<forall>y\<in>set ps. plain_part y" "plain_part x"
  shows "Dir (abs_path (ps @ [x])) = abs_path ps"
proof -
  have x: "slash \<notin> set x" using assms(2) by (simp add: plain_part_def)
  have "before_last_slash (s @ slash # x) = s @ [slash]" for s
  proof -
    have "dropWhile (\<lambda>c. c \<noteq> slash) (rev x @ slash # rev s) = slash # rev s"
      using x by (subst dropWhile_append2) auto
    then show ?thesis by (simp add: before_last_slash_def)
  qed
  moreover have "\<exists>s. abs_path (ps @ [x]) = s @ slash # x \<and> path_parts (s @ [slash]) = ps \<and> IsAbs (s @ [slash])"
  proof (cases "ps = []")
    case True
    then show ?thesis by (intro exI [of _ "[]"]) (simp add: abs_path_def path_parts_def Split_def IsAbs_def HasPrefix_def)
  next
    case False
    then have "abs_path (ps @ [x]) = abs_path ps @ slash # x"
    proof (induction ps)
      case (Cons y ys)
      then show ?case by (cases ys) (auto simp: abs_path_def)
    qed simp
    moreover have "path_parts (abs_path ps @ [slash]) = ps"
      using path_parts_abs [OF assms(1)] Split_slash_front [of slash "abs_path ps" "[]"] by (simp add: path_parts_def)
    ultimately show ?thesis by (intro exI [of _ "abs_path ps"]) (simp add: IsAbs_def HasPrefix_def abs_path_def)
  qed
  ultimately obtain s where "Dir (abs_path (ps @ [x])) = Clean (s @ [slash])" "path_parts (s @ [slash]) = ps" "IsAbs (s @ [slash])"
    by (metis Dir_def)
  then show ?thesis using assms(1) by (simp add: Clean_abs comps_def clean_parts_id)
qed

lemma Abs_abs: "IsAbs p \<Longrightarrow> Abs_path cwd (Clean p) = Inr (abs_path (comps p))"
  using comps_plain [of _ p] by (simp add: Abs_path_def Clean_abs)

text \<open>The lexical check is a check on components.\<close>

lemma Split_rel:
  assumes "ls \<noteq> []" "\<forall>x\<in>set ls. slash \<notin> set x"
  shows "Split slash (Join ls ''/'') = ls"
  using Split_Join [OF assms] by simp

lemma up_first:
  assumes "\<forall>x\<in>set rt. plain_part x" "rb @ rt \<noteq> []"
  shows "(Join (replicate (length rb) ''..'' @ rt) ''/'' = ''..'' \<or> HasPrefix (Join (replicate (length rb) ''..'' @ rt) ''/'') ''../'') \<longleftrightarrow> rb \<noteq> []"
proof (cases rb)
  case Nil
  then obtain x xs where rt: "rt = x # xs" using assms(2) by (cases rt) auto
  have sp: "Split slash (Join rt ''/'') = rt" using Split_rel [of rt] assms(1) rt by (auto simp: plain_part_def)
  have "Join rt ''/'' \<noteq> ''..''"
  proof
    assume e: "Join rt ''/'' = ''..''"
    have "Split slash ''..'' = [''..'']" by (simp add: Split_def)
    with sp e have "rt = [''..'']" by simp
    with assms(1) show False by (simp add: plain_part_def)
  qed
  moreover have "\<not> HasPrefix (Join rt ''/'') ''../''"
  proof
    assume "HasPrefix (Join rt ''/'') ''../''"
    then obtain t where t: "Join rt ''/'' = ''..'' @ slash # t" by (auto simp: HasPrefix_iff prefix_def)
    have "rt = Split slash ''..'' @ Split slash t" using sp unfolding t Split_slash_front by simp
    then have "''..'' \<in> set rt" by (simp add: Split_def)
    with assms(1) show False by (auto simp: plain_part_def)
  qed
  ultimately show ?thesis using Nil by simp
next
  case (Cons y ys)
  then show ?thesis by (cases "replicate (length ys) ''..'' @ rt") (auto simp: HasPrefix_def)
qed

lemma inside_iff:
  assumes "IsAbs base" "IsAbs target"
  shows "EnsureInside v base target = (if prefix (comps base) (comps target) then Inr (abs_path (comps target)) else Inl ''path escapes workspace root'')"
proof (cases "comps target = comps base")
  case True
  then show ?thesis using assms comps_plain [of _ base] by (simp add: EnsureInside_def Abs_abs Rel_abs HasPrefix_def)
next
  case False
  obtain rb rt where s: "strip_common (comps base) (comps target) = (rb, rt)" by fastforce
  then obtain c where c: "comps base = c @ rb" "comps target = c @ rt" "rb = [] \<or> rt = [] \<or> hd rb \<noteq> hd rt" using strip_common_split by blast
  have "prefix (comps base) (comps target) \<longleftrightarrow> rb = []"
    using c by (cases rb; cases rt) auto
  moreover have "\<forall>x\<in>set rt. plain_part x" using comps_plain [of _ target] c(2) by auto
  moreover have "rb @ rt \<noteq> []" using False c by auto
  ultimately show ?thesis
    using assms False s up_first [of rt rb] comps_plain [of _ base] comps_plain [of _ target]
    by (simp add: EnsureInside_def Abs_abs Rel_abs)
qed

lemma safe_path:
  assumes "IsAbs base" "IsAbs target" "EnsureSafePath v base target = Inr t"
  shows "t = abs_path (comps target)" "prefix (comps base) (comps target)"
    "EvalSymlinks v (nearest_existing v (rev (comps target))) = Some r \<Longrightarrow>
       \<exists>u. EnsureInside v (case EvalSymlinks v (Clean base) of Some resolved \<Rightarrow> resolved | None \<Rightarrow> Clean base) r = Inr u"
proof -
  have p: "\<forall>x\<in>set (comps base). plain_part x" "\<forall>x\<in>set (comps target). plain_part x" using comps_plain by auto
  note safe = assms(3) [unfolded EnsureSafePath_def Abs_abs [OF assms(1)] Abs_abs [OF assms(2)], simplified sum.case Let_def]
  show "prefix (comps base) (comps target)" "t = abs_path (comps target)"
    using safe p by (auto simp: inside_iff split: if_splits option.splits sum.splits)
  show "\<exists>u. EnsureInside v (case EvalSymlinks v (Clean base) of Some resolved \<Rightarrow> resolved | None \<Rightarrow> Clean base) r = Inr u"
    if "EvalSymlinks v (nearest_existing v (rev (comps target))) = Some r"
    using safe p that by (auto simp: inside_iff Clean_abs [OF assms(1)] split: if_splits option.splits sum.splits)
qed

lemma sensitive_parts:
  assumes "IsAbs base" "\<forall>x\<in>set ps. plain_part x" "prefix (comps base) ps" "EvalSymlinks v (abs_path ps) \<in> {None, Some (abs_path ps)}"
    "\<not> IsSensitivePath lib v base (abs_path ps)"
  shows "\<forall>part\<in>set (drop (length (comps base)) ps). ToLower lib part \<notin> set protected_dirs" "\<not> secret_base (ToLower lib (Base (abs_path ps)))"
proof -
  let ?b = "comps base"
  obtain rt where rt: "ps = ?b @ rt" using assms(3) by (auto simp: prefix_def)
  have b: "\<forall>x\<in>set ?b. plain_part x" using comps_plain by blast
  have rel: "Rel base (abs_path ps) = (if rt = [] then Some ''.'' else Some (Join rt ''/''))"
  proof -
    have "Rel base (abs_path ps) = Rel (abs_path ?b) (abs_path ps)" using assms(1,2) b by (simp add: Rel_def Clean_abs)
    also have "\<dots> = (if rt = [] then Some ''.'' else Some (Join rt ''/''))"
      using Rel_abs [OF b assms(2)] strip_common_prefix [of ?b ps rt] rt by simp
    finally show ?thesis .
  qed
  have res: "(case EvalSymlinks v (abs_path ps) of Some candidate \<Rightarrow> candidate | None \<Rightarrow> Clean (abs_path ps)) = abs_path ps"
    using assms(2,4) by auto
  note sens = assms(5) [unfolded IsSensitivePath_def res rel Let_def]
  then show "\<not> secret_base (ToLower lib (Base (abs_path ps)))" by (auto split: sum.splits)
  show "\<forall>part\<in>set (drop (length ?b) ps). ToLower lib part \<notin> set protected_dirs"
  proof (cases "rt = []")
    case False
    have "Split slash (Join rt ''/'') = rt" using Split_rel [OF False] assms(2) rt by (auto simp: plain_part_def)
    with sens False rt show ?thesis by (auto simp: list_ex_iff split: sum.splits)
  qed (simp add: rt)
qed


definition plain_disk :: fs_view where
  "plain_disk = \<lparr>Lstat_ok = (\<lambda>p. p = ''/ws''), EvalSymlinks = (\<lambda>p. if p = ''/ws'' then Some ''/ws'' else None), Getwd = Inl []\<rparr>"

definition ascii_lib :: go_lib where
  "ascii_lib = \<lparr>lower_tab = (\<lambda>r. r), fold_tab = (\<lambda>r. r), quote = (\<lambda>s. s), sha256_hex = (\<lambda>s. s),
     json_Valid = (\<lambda>s. True), unmarshal_any = (\<lambda>s. Inr JNull), unmarshal_map = (\<lambda>s. Inr []),
     marshal = (\<lambda>j. None), unmarshal_empty = (\<lambda>s. None), unmarshal_strings = (\<lambda>k s. Inr []),
     unmarshal_ints = (\<lambda>k l s. Inr (0, 0)), unmarshal_text = (\<lambda>k l s. Inr ([], [])), unmarshal_string_map = (\<lambda>s. Inr [])\<rparr>"

definition plain_workspace :: workspace_context where
  "plain_workspace = \<lparr>ws_ID = 1, ws_ProjectID = 1, ws_RunID = 1, ws_Kind = ''shared'', ws_RepositoryRoot = ''/ws'', ws_WorkspacePath = ''/ws'',
     ws_BranchName = [], ws_BaseSHA = [], ws_HeadSHA = [], ws_Dirty = False, ws_HasUnpushedCommits = False,
     ws_FileWriteEnabled = True, ws_GitEnabled = False, ws_ExecEnabled = False\<rparr>"


text \<open>A link that leads nowhere passes the check: its target cannot be resolved, and an unresolved ancestor is not
  checked, wherever the link points.\<close>

lemma dangling_link_accepted:
  "EnsureSafePath \<lparr>Lstat_ok = (\<lambda>p. p \<in> {''/ws'', ''/ws/link''}), EvalSymlinks = (\<lambda>p. if p = ''/ws'' then Some ''/ws'' else None), Getwd = Inl []\<rparr>
     ''/ws'' ''/ws/link/new'' = Inr ''/ws/link/new''"
  by code_simp

section \<open>Branch names are valid\<close>

lemma sublist_Cons_pair: "sublist [d, d] (c # cs) \<longleftrightarrow> (c = d \<and> cs \<noteq> [] \<and> hd cs = d) \<or> sublist [d, d] cs"
  by (cases cs) (auto simp: sublist_Cons_right)

lemma sublist_pair_append:
  "sublist [d, d] (s @ t) \<longleftrightarrow> sublist [d, d] s \<or> sublist [d, d] t \<or> (s \<noteq> [] \<and> t \<noteq> [] \<and> last s = d \<and> hd t = d)"
proof (induction s)
  case (Cons c cs)
  then show ?case by (cases cs) (auto simp: sublist_Cons_pair)
qed simp

lemma set_squeeze: "set (squeeze P d s) \<subseteq> {c \<in> set s. \<not> P c} \<union> {d}"
  by (induction P d s rule: squeeze.induct) (auto dest: set_dropWhileD)

lemma squeeze_hd: "squeeze P d s \<noteq> [] \<Longrightarrow> hd (squeeze P d s) = d \<or> hd (squeeze P d s) = hd s"
  by (cases s) auto

lemma squeeze_pair:
  "d \<noteq> e \<Longrightarrow> \<not> sublist [e, e] s \<Longrightarrow> \<not> sublist [e, e] (squeeze P d s)"
proof (induction P d s rule: squeeze.induct)
  case (2 P d c cs)
  show ?case
  proof (cases "P c")
    case True
    have "suffix (dropWhile P cs) cs" by (rule suffix_dropWhile)
    then have "\<not> sublist [e, e] (dropWhile P cs)" using "2.prems"(2) by (meson sublist_Cons_pair sublist_order.order.trans suffix_imp_sublist)
    then show ?thesis using 2 True by (auto simp: sublist_Cons_pair)
  next
    case False
    have "hd cs = e \<Longrightarrow> cs \<noteq> [] \<Longrightarrow> c \<noteq> e" using "2.prems"(2) by (auto simp: sublist_Cons_pair)
    moreover have "squeeze P d cs \<noteq> [] \<Longrightarrow> hd (squeeze P d cs) = e \<Longrightarrow> hd cs = e \<and> cs \<noteq> []"
      using squeeze_hd [of P d cs] "2.prems"(1) by auto
    ultimately show ?thesis using 2 False by (auto simp: sublist_Cons_pair)
  qed
qed simp

lemma sublist_trim: "sublist (trim_set cutset s) s"
proof -
  have "prefix (rev (dropWhile P (rev t))) t" for P and t :: string
    by (metis suffix_dropWhile suffix_to_prefix rev_rev_ident)
  then show ?thesis unfolding trim_set_def by (meson prefix_imp_sublist sublist_order.order.trans suffix_dropWhile suffix_imp_sublist)
qed

lemma trim_set_ends:
  assumes "trim_set cutset s \<noteq> []"
  shows "hd (trim_set cutset s) \<notin> set cutset" "last (trim_set cutset s) \<notin> set cutset"
proof -
  let ?l = "dropWhile (\<lambda>c. c \<in> set cutset) s" and ?d = "\<lambda>t. dropWhile (\<lambda>c. c \<in> set cutset) t"
  have ne: "?d (rev ?l) \<noteq> []" using assms by (simp add: trim_set_def)
  then show "last (trim_set cutset s) \<notin> set cutset" using hd_dropWhile [OF ne] by (simp add: trim_set_def last_rev)
  have l: "?l \<noteq> []" using ne by (metis dropWhile.simps(1) rev.simps(1))
  have "suffix (?d (rev ?l)) (rev ?l)" by (rule suffix_dropWhile)
  then have "prefix (trim_set cutset s) ?l" by (simp add: trim_set_def suffix_to_prefix)
  then have "hd (trim_set cutset s) = hd ?l" using assms by (auto simp: prefix_def)
  then show "hd (trim_set cutset s) \<notin> set cutset" using hd_dropWhile [OF l] by simp
qed

lemma ReplaceAll_pair:
  "\<not> sublist [d, d] (ReplaceAll s [d, d] [e])" if "d \<noteq> e"
proof (induction s "[d, d]" "[e]" rule: ReplaceAll.induct)
  case (1 s)
  show ?case
  proof (cases "Index s [d, d]")
    case None
    then have "\<not> sublist [d, d] s" using Index_None by blast
    then show ?thesis using None by (subst ReplaceAll.simps) simp
  next
    case (Some i)
    have "\<not> sublist [d, d] (take i s)"
    proof
      assume "sublist [d, d] (take i s)"
      then obtain a b where a: "take i s = a @ [d, d] @ b" by (auto simp: sublist_def)
      have "s = a @ [d, d] @ b @ drop i s" using append_take_drop_id [of i s] unfolding a by simp
      then have "prefix [d, d] (drop (length a) s)" by (metis append_eq_conv_conj prefixI)
      moreover have "length a < i" using arg_cong [OF a, of length] by (simp split: if_splits)
      ultimately show False using Index_first [OF Some] by blast
    qed
    then show ?thesis using 1 Some that by (subst ReplaceAll.simps) (auto simp: sublist_pair_append sublist_Cons_pair)
  qed
qed

lemma set_ReplaceAll: "set (ReplaceAll s p new) \<subseteq> set s \<union> set new"
proof (induction s p new rule: ReplaceAll.induct)
  case (1 s p new)
  then show ?case by (subst ReplaceAll.simps) (auto split: option.splits dest: in_set_takeD in_set_dropD)
qed

lemma sublist_pair_Join:
  "d \<noteq> e \<Longrightarrow> (\<forall>l\<in>set ls. \<not> sublist [d, d] l) \<Longrightarrow> \<not> sublist [d, d] (Join ls [e])"
  by (induction ls "[e]" rule: Join.induct) (auto simp: sublist_pair_append sublist_Cons_pair)

lemma split_at_sublist: "l \<in> set (split_at d cur s) \<Longrightarrow> sublist l (rev cur @ s)"
proof (induction s arbitrary: cur)
  case (Cons a s)
  then consider "l = rev cur" | "a = d" "l \<in> set (split_at d [] s)" | "a \<noteq> d" "l \<in> set (split_at d (a # cur) s)" by (auto split: if_splits)
  then show ?case
  proof cases
    case 2
    then show ?thesis using Cons.IH [of "[]"] by (auto intro: sublist_appendI sublist_order.order.trans simp: sublist_append sublist_Cons_right)
  next
    case 3
    then show ?thesis using Cons.IH [of "a # cur"] by simp
  qed simp
qed simp

lemma Split_sublist: "l \<in> set (Split d s) \<Longrightarrow> sublist l s"
  using split_at_sublist [of l d "[]"] by (simp add: Split_def)

lemma Split_covers: "c \<in> set s \<Longrightarrow> c \<noteq> d \<Longrightarrow> \<exists>l\<in>set (Split d s). c \<in> set l"
proof -
  have "c \<in> set s \<union> set cur \<Longrightarrow> c \<noteq> d \<Longrightarrow> \<exists>l\<in>set (split_at d cur s). c \<in> set l" for cur
  proof (induction s arbitrary: cur)
    case (Cons a s)
    then show ?case using Cons.IH [of "[]"] Cons.IH [of "a # cur"] by (cases "a = d") auto
  qed simp
  from this [of "[]"] show "c \<in> set s \<Longrightarrow> c \<noteq> d \<Longrightarrow> \<exists>l\<in>set (Split d s). c \<in> set l" by (simp add: Split_def)
qed

lemma trim_set_keeps: "c \<in> set s \<Longrightarrow> c \<notin> set cutset \<Longrightarrow> c \<in> set (trim_set cutset s)"
proof -
  have keep: "c \<in> set s \<Longrightarrow> \<not> P c \<Longrightarrow> c \<in> set (dropWhile P s)" for P and s :: string by (induction s) auto
  show "c \<in> set s \<Longrightarrow> c \<notin> set cutset \<Longrightarrow> c \<in> set (trim_set cutset s)" by (simp add: trim_set_def keep)
qed

lemma squeeze_keeps: "c \<in> set s \<Longrightarrow> \<not> P c \<Longrightarrow> c \<in> set (squeeze P d s)"
proof (induction P d s rule: squeeze.induct)
  case (2 P d x cs)
  have "c \<in> set cs \<Longrightarrow> \<not> P c \<Longrightarrow> c \<in> set (dropWhile P cs)" by (induction cs) auto
  with 2 show ?case by auto
qed simp

lemma ReplaceAll_keeps: "c \<in> set s \<Longrightarrow> c \<notin> set p \<Longrightarrow> c \<in> set (ReplaceAll s p new)"
proof (induction s p new rule: ReplaceAll.induct)
  case (1 s p new)
  show ?case
  proof (cases "p = [] \<or> Index s p = None")
    case True
    then show ?thesis using 1 by (subst ReplaceAll.simps) auto
  next
    case False
    then obtain i where i: "Index s p = Some i" "p \<noteq> []" by auto
    have "s = take i s @ p @ drop (i + length p) s"
      using Index_Some(2) [OF i(1)] by (metis append_take_drop_id drop_drop add.commute)
    then have "c \<in> set (take i s) \<or> c \<in> set (drop (i + length p) s)" using "1.prems" by (metis Un_iff set_append)
    then show ?thesis using 1 i by (subst ReplaceAll.simps) auto
  qed
qed

lemma TrimSuffix_keeps: "c \<in> set s \<Longrightarrow> c \<notin> set p \<Longrightarrow> c \<in> set (TrimSuffix s p)"
proof -
  assume a: "c \<in> set s" "c \<notin> set p"
  have "HasSuffix s p \<Longrightarrow> s = take (length s - length p) s @ p" by (metis HasSuffix_def append_take_drop_id)
  then show "c \<in> set (TrimSuffix s p)" using a by (metis TrimSuffix_def Un_iff set_append)
qed

lemma prefix_TrimSuffix: "prefix (TrimSuffix s p) s"
  by (simp add: TrimSuffix_def take_is_prefix)

text \<open>The shape of a sanitised name.\<close>

definition valid_branch :: "string \<Rightarrow> bool" where
  "valid_branch b \<longleftrightarrow> list_all branch_char b \<and> \<not> Contains b ''..'' \<and>
     list_all (\<lambda>part. part \<noteq> [] \<and> hd part \<notin> set ''-._'' \<and> last part \<notin> set ''-._'') (Split slash b)"

definition pre_parts :: "go_lib \<Rightarrow> string \<Rightarrow> string" where
  "pre_parts lib v =
     squeeze (\<lambda>c. c = CHR ''-'') (CHR ''-'') (squeeze (\<lambda>c. c = slash) slash
       (TrimSuffix (ReplaceAll (trim_set ''-/_ .'' (squeeze (\<lambda>c. \<not> branch_char c) (CHR ''-'') (ToLower lib (TrimSpace v)))) ''..'' ''-'') ''.lock''))"

lemma Sanitize_parts: "SanitizeBranch lib v = Join (filter (\<lambda>p. p \<noteq> []) (map (trim_set ''-._'') (Split slash (pre_parts lib v)))) ''/''"
  by (simp add: SanitizeBranch_def pre_parts_def Let_def)

lemma pre_parts_chars: "c \<in> set (pre_parts lib v) \<Longrightarrow> branch_char c"
proof -
  have minus: "branch_char (CHR ''-'')" "branch_char slash" by (simp_all add: branch_char_def)
  let ?s = "squeeze (\<lambda>c. \<not> branch_char c) (CHR ''-'') (ToLower lib (TrimSpace v))"
  let ?r = "ReplaceAll (trim_set ''-/_ .'' ?s) ''..'' ''-''"
  have "set ?s \<subseteq> {c. branch_char c}" using set_squeeze [of "\<lambda>c. \<not> branch_char c" "CHR ''-''"] minus by fastforce
  moreover have "set (trim_set ''-/_ .'' ?s) \<subseteq> set ?s" using sublist_trim set_mono_sublist by blast
  ultimately have "set ?r \<subseteq> {c. branch_char c}" using set_ReplaceAll [of "trim_set ''-/_ .'' ?s" "''..''" "''-''"] minus by fastforce
  moreover have "set (TrimSuffix ?r ''.lock'') \<subseteq> set ?r" using prefix_TrimSuffix set_mono_prefix by blast
  ultimately have t: "set (TrimSuffix ?r ''.lock'') \<subseteq> {c. branch_char c}" by blast
  then have "set (squeeze (\<lambda>c. c = slash) slash (TrimSuffix ?r ''.lock'')) \<subseteq> {c. branch_char c}"
    using set_squeeze [of "\<lambda>c. c = slash" slash "TrimSuffix ?r ''.lock''"] minus by fastforce
  then show "c \<in> set (pre_parts lib v) \<Longrightarrow> branch_char c"
    unfolding pre_parts_def using set_squeeze [of "\<lambda>c. c = CHR ''-''" "CHR ''-''"] minus by fastforce
qed

lemma pre_parts_dots: "\<not> sublist ''..'' (pre_parts lib v)"
proof -
  let ?r = "ReplaceAll (trim_set ''-/_ .'' (squeeze (\<lambda>c. \<not> branch_char c) (CHR ''-'') (ToLower lib (TrimSpace v)))) ''..'' ''-''"
  have "\<not> sublist ''..'' ?r" by (rule ReplaceAll_pair) simp
  then have "\<not> sublist ''..'' (TrimSuffix ?r ''.lock'')"
    using prefix_TrimSuffix prefix_imp_sublist sublist_order.order.trans by blast
  then show ?thesis unfolding pre_parts_def by (intro squeeze_pair) auto
qed

lemma Sanitize_valid:
  assumes "SanitizeBranch lib v \<noteq> []"
  shows "valid_branch (SanitizeBranch lib v)"
proof -
  let ?ls = "filter (\<lambda>p. p \<noteq> []) (map (trim_set ''-._'') (Split slash (pre_parts lib v)))"
  have part: "sublist l (pre_parts lib v) \<and> slash \<notin> set l \<and> l \<noteq> [] \<and> hd l \<notin> set ''-._'' \<and> last l \<notin> set ''-._''" if l: "l \<in> set ?ls" for l
  proof -
    from l obtain p where p: "p \<in> set (Split slash (pre_parts lib v))" "l = trim_set ''-._'' p" "l \<noteq> []" by auto
    have "sublist p (pre_parts lib v)" using Split_sublist [OF p(1)] .
    moreover have "sublist l p" using p(2) sublist_trim by simp
    ultimately have "sublist l (pre_parts lib v)" "slash \<notin> set l"
      using Split_no_sep [OF p(1)] set_mono_sublist [of l p] by (auto intro: sublist_order.order.trans)
    then show ?thesis using p(3) trim_set_ends [of "''-._''" p] unfolding p(2) by blast
  qed
  have ne: "?ls \<noteq> []" using assms by (auto simp: Sanitize_parts)
  have "Split slash (Join ?ls ''/'') = ?ls" using Split_rel [OF ne] part by blast
  moreover have "\<not> sublist ''..'' (Join ?ls ''/'')"
  proof (rule sublist_pair_Join)
    show "\<forall>l\<in>set ?ls. \<not> sublist ''..'' l" using part pre_parts_dots sublist_order.order.trans by blast
  qed simp
  moreover have "branch_char c" if "c \<in> set (Join ?ls ''/'')" for c
  proof -
    have "set (Join ls ''/'') \<subseteq> (\<Union>l\<in>set ls. set l) \<union> {slash}" for ls by (induction ls "''/''" rule: Join.induct) auto
    then have "c = slash \<or> (\<exists>l\<in>set ?ls. c \<in> set l)" using that by blast
    then show ?thesis
    proof
      assume "\<exists>l\<in>set ?ls. c \<in> set l"
      then obtain l where "l \<in> set ?ls" "c \<in> set l" by blast
      then show ?thesis using part [of l] set_mono_sublist [of l "pre_parts lib v"] pre_parts_chars by blast
    qed (simp add: branch_char_def)
  qed
  ultimately have "list_all branch_char (Join ?ls ''/'')" "\<not> Contains (Join ?ls ''/'') ''..''"
    "list_all (\<lambda>part. part \<noteq> [] \<and> hd part \<notin> set ''-._'' \<and> last part \<notin> set ''-._'') (Split slash (Join ?ls ''/''))"
    using part unfolding Contains_iff list_all_iff by metis+
  then show ?thesis unfolding Sanitize_parts valid_branch_def by blast
qed

lemma branch_plain: "branch_char c \<Longrightarrow> byte c < 128 \<and> \<not> ascii_space (byte c) \<and> ascii_lower c = c"
  by (auto simp: branch_char_def ascii_lower_def byte_def ascii_space_def)

lemma TrimSpace_branch:
  assumes "\<forall>c\<in>set v. branch_char c"
  shows "TrimSpace v = v" "ToLower lib v = v"
proof -
  have p: "byte c < 128 \<and> \<not> ascii_space (byte c)" if "c \<in> set v" for c using assms branch_plain that by blast
  have first: "nth_byte t 0 < 128 \<and> \<not> ascii_space (nth_byte t 0)" if "set t = set v" "t \<noteq> []" for t
  proof -
    have "t ! 0 \<in> set v" using that nth_mem [of 0 t] by simp
    then show ?thesis using p that(2) by (simp add: nth_byte_def)
  qed
  have "space_len v = 0" using first [of v] by (cases "v = []") (auto simp: space_len_def space2_def space3_def)
  moreover have "space_len_last (rev v) = 0" using first [of "rev v"] by (cases "v = []") (auto simp: space_len_last_def space2_def space3_def)
  ultimately show "TrimSpace v = v" by (simp add: TrimSpace_def trim_left_def trim_right_def trim_with.simps [of _ v] trim_with.simps [of _ "rev v"])
  show "ToLower lib v = v" using assms branch_plain by (auto simp: ToLower_def is_ascii_def intro!: map_idI)
qed

lemma Sanitize_keeps:
  assumes "\<forall>c\<in>set v. branch_char c" "c \<in> set v" "c \<notin> set ''-/_ .lock''"
  shows "SanitizeBranch lib v \<noteq> []"
proof -
  have br: "branch_char c" using assms by blast
  let ?s = "squeeze (\<lambda>c. \<not> branch_char c) (CHR ''-'') v"
  have "c \<in> set ?s" using assms(2) br by (simp add: squeeze_keeps)
  then have "c \<in> set (trim_set ''-/_ .'' ?s)" by (rule trim_set_keeps) (use assms(3) in auto)
  then have "c \<in> set (ReplaceAll (trim_set ''-/_ .'' ?s) ''..'' ''-'')" by (rule ReplaceAll_keeps) (use assms(3) in auto)
  then have "c \<in> set (TrimSuffix (ReplaceAll (trim_set ''-/_ .'' ?s) ''..'' ''-'') ''.lock'')" by (rule TrimSuffix_keeps) (use assms(3) in auto)
  then have "c \<in> set (pre_parts lib v)"
    unfolding pre_parts_def TrimSpace_branch [OF assms(1)] by (intro squeeze_keeps) (use assms(3) in auto)
  then obtain l where l: "l \<in> set (Split slash (pre_parts lib v))" "c \<in> set l" using Split_covers [of c "pre_parts lib v" slash] assms(3) by auto
  have "c \<in> set (trim_set ''-._'' l)" by (rule trim_set_keeps [OF l(2)]) (use assms(3) in auto)
  then have m: "trim_set ''-._'' l \<in> set (filter (\<lambda>p. p \<noteq> []) (map (trim_set ''-._'') (Split slash (pre_parts lib v))))"
    using l(1) by auto
  have "\<exists>x\<in>set ls. x \<noteq> [] \<Longrightarrow> Join ls ''/'' \<noteq> []" for ls :: "string list" by (induction ls "''/''" rule: Join.induct) auto
  moreover have "trim_set ''-._'' l \<noteq> []" using m by simp
  ultimately show ?thesis unfolding Sanitize_parts using m by blast
qed

lemma Sanitize_chars: "c \<in> set (SanitizeBranch lib v) \<Longrightarrow> branch_char c"
  using Sanitize_valid [of lib v] by (cases "SanitizeBranch lib v = []") (auto simp: valid_branch_def list_all_iff)

lemma Slugify_chars: "c \<in> set (Slugify lib v) \<Longrightarrow> branch_char c"
proof -
  let ?v = "ReplaceAll (SanitizeBranch lib v) ''/'' ''-''"
  assume c: "c \<in> set (Slugify lib v)"
  have "branch_char d" if "d \<in> set ?v" for d
    using set_ReplaceAll [of "SanitizeBranch lib v" "''/''" "''-''"] that Sanitize_chars by (auto simp: branch_char_def [of "CHR ''-''"])
  moreover have "set (trim_set ''-._'' t) \<subseteq> set t" for t using sublist_trim set_mono_sublist by blast
  ultimately have "branch_char d" if "d \<in> set (trim_set ''-._'' (if 80 < length ?v then take 80 ?v else ?v))" for d
    using that by (auto split: if_splits dest: in_set_takeD)
  moreover have "branch_char d" if "d \<in> set ''run''" for d
  proof -
    have "list_all branch_char ''run''" by code_simp
    then show ?thesis using that by (auto simp: list_all_iff)
  qed
  ultimately show "branch_char c" using c unfolding Slugify_def Let_def by (auto split: if_splits)
qed

lemma itoa_digit: "\<exists>c\<in>set (itoa n). 48 \<le> byte c \<and> byte c \<le> 57" "c \<in> set (itoa n) \<Longrightarrow> branch_char c"
proof -
  have "nat_digits m \<noteq> []" for m by (simp add: nat_digits.simps [of m])
  then have d: "\<exists>c\<in>set (nat_digits m). 48 \<le> byte c \<and> byte c \<le> 57" for m by (meson nat_digits_bytes hd_in_set)
  then show "\<exists>c\<in>set (itoa n). 48 \<le> byte c \<and> byte c \<le> 57" by (auto simp: itoa_def)
  have "c \<in> set (nat_digits m) \<Longrightarrow> branch_char c" for m using nat_digits_bytes [of c m] by (simp add: branch_char_def)
  then show "c \<in> set (itoa n) \<Longrightarrow> branch_char c" by (auto simp: itoa_def branch_char_def [of "CHR ''-''"] split: if_splits)
qed

text \<open>C38: The branch a run gets has a well-formed name whatever the project and the task are called: it is
  not empty, has only lower-case letters, digits and \<^verbatim>\<open>._/-\<close>, no two adjacent dots, and every component between
  slashes is non-empty and neither starts nor ends with a dot, a dash or an underscore.\<close>

theorem branch_name_valid: "BranchName lib projectSlug runID task \<noteq> [] \<and> valid_branch (BranchName lib projectSlug runID task)"
proof -
  let ?p = "if 48 < length (Slugify lib projectSlug) then take 48 (Slugify lib projectSlug) else Slugify lib projectSlug"
  let ?v = "?p @ ''/'' @ itoa runID @ ''-'' @ Slugify lib task"
  have chars: "\<forall>c\<in>set ?v. branch_char c"
    using Slugify_chars itoa_digit(2) by (auto simp: branch_char_def [of "CHR ''-''"] branch_char_def [of slash] split: if_splits dest: in_set_takeD)
  obtain c where c: "c \<in> set (itoa runID)" "48 \<le> byte c" "byte c \<le> 57" using itoa_digit(1) by blast
  have "c \<notin> set ''-/_ .lock''" using c(2,3) by (auto simp: byte_def)
  then have "SanitizeBranch lib ?v \<noteq> []" using c(1) by (intro Sanitize_keeps [OF chars, of c]) auto
  moreover have "BranchName lib projectSlug runID task = SanitizeBranch lib ?v" by (simp add: BranchName_def Let_def)
  ultimately show ?thesis using Sanitize_valid by simp
qed

text \<open>The suffix \<^verbatim>\<open>.lock\<close>, which git refuses at the end of a component, is taken off the end of the whole name only.\<close>

lemma lock_component: "BranchName ascii_lib ''a.lock.lock'' 7 ''t'' = ''a.lock/7-t''"
  by code_simp

end
