(* ===== verification/File_System.thy ===== *)
theory File_System
  imports Workspace_Path "HOL-Library.List_Lexorder" "HOL-Library.Char_ord"
begin

text \<open>
  The file system as the file tools use it (\<^verbatim>\<open>os\<close>), \<^verbatim>\<open>atomicWriteFile\<close> and the locks of
  \<^verbatim>\<open>toolruntime/filesystem_path.go\<close>. A file is its bytes and its permission bits. Every call may fail: a
  stream of faults, an argument, says what the \<^verbatim>\<open>n\<close>-th call reports, so that a theorem for all streams holds
  for every sequence of failures. Directories and links are not represented; what they make a call
  report is a fault of that call. \<^verbatim>\<open>ENOTDIR\<close> is reported for a path that names no file only.
\<close>

section \<open>State and faults\<close>

datatype os_error = Not_exist | Not_dir | Os_error string

datatype fault = Done | Fails string | Enotdir

record os_file =
  of_data :: string
  of_mode :: nat

record fs_state =
  fs_files :: "string \<Rightarrow> os_file option"
  fs_calls :: nat
  fs_locks :: "string list"
  fs_dirty :: bool
  fs_events :: "json list"

text \<open>The environment: the faults, how many bytes a failing \<^verbatim>\<open>Write\<close> has written, the names \<^verbatim>\<open>os.CreateTemp\<close>
  picks, and the order in which a \<^verbatim>\<open>range\<close> over a map visits its keys.\<close>

record fs_env =
  fault_at :: "nat \<Rightarrow> fault"
  written_at :: "nat \<Rightarrow> nat"
  temp_name :: "string \<Rightarrow> nat \<Rightarrow> string"
  range_order :: "string list \<Rightarrow> string list"

definition tick :: "fs_state \<Rightarrow> fs_state" where
  "tick st = st\<lparr>fs_calls := Suc (fs_calls st)\<rparr>"

definition call_fault :: "fs_env \<Rightarrow> string \<Rightarrow> fs_state \<Rightarrow> os_error option" where
  "call_fault env p st =
     (case fault_at env (fs_calls st) of
        Done \<Rightarrow> None
      | Fails e \<Rightarrow> Some (Os_error e)
      | Enotdir \<Rightarrow> if fs_files st p = None then Some Not_dir else None)"

definition set_file :: "string \<Rightarrow> os_file option \<Rightarrow> fs_state \<Rightarrow> fs_state" where
  "set_file p f st = st\<lparr>fs_files := (fs_files st)(p := f)\<rparr>"

text \<open>A call without an effect on files: \<^verbatim>\<open>MkdirAll\<close>, \<^verbatim>\<open>Sync\<close>, \<^verbatim>\<open>Close\<close>, opening and locking a lock file.\<close>

definition os_call :: "fs_env \<Rightarrow> string \<Rightarrow> fs_state \<Rightarrow> (os_error + unit) \<times> fs_state" where
  "os_call env p st = (case call_fault env p st of Some e \<Rightarrow> (Inl e, tick st) | None \<Rightarrow> (Inr (), tick st))"

abbreviation MkdirAll :: "fs_env \<Rightarrow> string \<Rightarrow> fs_state \<Rightarrow> (os_error + unit) \<times> fs_state" where
  "MkdirAll \<equiv> os_call"

definition ReadFile :: "fs_env \<Rightarrow> string \<Rightarrow> fs_state \<Rightarrow> (os_error + string) \<times> fs_state" where
  "ReadFile env p st =
     (case call_fault env p st of Some e \<Rightarrow> (Inl e, tick st)
      | None \<Rightarrow> (case fs_files st p of None \<Rightarrow> (Inl Not_exist, tick st) | Some f \<Rightarrow> (Inr (of_data f), tick st)))"

definition Stat_mode :: "fs_env \<Rightarrow> string \<Rightarrow> fs_state \<Rightarrow> (os_error + nat) \<times> fs_state" where
  "Stat_mode env p st =
     (case call_fault env p st of Some e \<Rightarrow> (Inl e, tick st)
      | None \<Rightarrow> (case fs_files st p of None \<Rightarrow> (Inl Not_exist, tick st) | Some f \<Rightarrow> (Inr (of_mode f), tick st)))"

definition Remove :: "fs_env \<Rightarrow> string \<Rightarrow> fs_state \<Rightarrow> (os_error + unit) \<times> fs_state" where
  "Remove env p st =
     (case call_fault env p st of Some e \<Rightarrow> (Inl e, tick st)
      | None \<Rightarrow> if fs_files st p = None then (Inl Not_exist, tick st) else (Inr (), set_file p None (tick st)))"

definition Rename :: "fs_env \<Rightarrow> string \<Rightarrow> string \<Rightarrow> fs_state \<Rightarrow> (os_error + unit) \<times> fs_state" where
  "Rename env p q st =
     (case call_fault env p st of Some e \<Rightarrow> (Inl e, tick st)
      | None \<Rightarrow> if fs_files st p = None then (Inl Not_exist, tick st)
               else (Inr (), set_file q (fs_files st p) (set_file p None (tick st))))"

text \<open>\<^verbatim>\<open>os.CreateTemp\<close> opens a new file, exclusively.\<close>

definition CreateTemp :: "fs_env \<Rightarrow> string \<Rightarrow> fs_state \<Rightarrow> (os_error + string) \<times> fs_state" where
  "CreateTemp env dir st =
     (let name = temp_name env dir (fs_calls st) in
      case call_fault env name st of Some e \<Rightarrow> (Inl e, tick st)
      | None \<Rightarrow> if fs_files st name \<noteq> None then (Inl (Os_error ''file exists''), tick st)
               else (Inr name, set_file name (Some \<lparr>of_data = [], of_mode = 384\<rparr>) (tick st)))"

definition Chmod :: "fs_env \<Rightarrow> string \<Rightarrow> nat \<Rightarrow> fs_state \<Rightarrow> (os_error + unit) \<times> fs_state" where
  "Chmod env p mode st =
     (case call_fault env p st of Some e \<Rightarrow> (Inl e, tick st)
      | None \<Rightarrow> (Inr (), set_file p (map_option (of_mode_update (\<lambda>_. mode)) (fs_files st p)) (tick st)))"

definition Write_file :: "fs_env \<Rightarrow> string \<Rightarrow> string \<Rightarrow> fs_state \<Rightarrow> (os_error + unit) \<times> fs_state" where
  "Write_file env p data st =
     (case call_fault env p st of
        Some e \<Rightarrow> (Inl e, set_file p (map_option (of_data_update (\<lambda>_. take (written_at env (fs_calls st)) data)) (fs_files st p)) (tick st))
      | None \<Rightarrow> (Inr (), set_file p (map_option (of_data_update (\<lambda>_. data)) (fs_files st p)) (tick st)))"

text \<open>Sequencing of calls: an error ends the sequence.\<close>

definition io_then :: "('e + 'a) \<times> fs_state \<Rightarrow> ('a \<Rightarrow> fs_state \<Rightarrow> ('e + 'b) \<times> fs_state) \<Rightarrow> ('e + 'b) \<times> fs_state" where
  "io_then r k = (case r of (Inl e, st) \<Rightarrow> (Inl e, st) | (Inr x, st) \<Rightarrow> k x st)"

section \<open>Atomic writes\<close>

text \<open>The deferred function: the file is closed again and the temporary file removed unless it was renamed.\<close>

definition discard_temp :: "fs_env \<Rightarrow> string \<Rightarrow> fs_state \<Rightarrow> fs_state" where
  "discard_temp env temporaryPath st = snd (Remove env temporaryPath (snd (os_call env temporaryPath st)))"

definition atomicWriteFile :: "fs_env \<Rightarrow> string \<Rightarrow> string \<Rightarrow> nat \<Rightarrow> fs_state \<Rightarrow> (os_error + unit) \<times> fs_state" where
  "atomicWriteFile env path data mode st =
     (case CreateTemp env (Dir path) st of
        (Inl e, st) \<Rightarrow> (Inl e, st)
      | (Inr temporaryPath, st) \<Rightarrow>
          case io_then (Chmod env temporaryPath mode st) (\<lambda>_ st.
               io_then (Write_file env temporaryPath data st) (\<lambda>_ st.
               io_then (os_call env temporaryPath st) (\<lambda>_ st.
               io_then (os_call env temporaryPath st) (\<lambda>_ st.
               Rename env temporaryPath path st)))) of
            (Inl e, st) \<Rightarrow> (Inl e, discard_temp env temporaryPath st)
          | (Inr _, st) \<Rightarrow> (Inr (), snd (os_call env temporaryPath st)))"

section \<open>Locks\<close>

text \<open>The lock of a path: a mutex of the process and an advisory lock on a file of the lock directory. The
  list holds the paths whose locks are taken; a path that is in it already would block its caller forever.\<close>

definition acquirePathLock :: "fs_env \<Rightarrow> string \<Rightarrow> fs_state \<Rightarrow> (os_error + unit) \<times> fs_state" where
  "acquirePathLock env path st =
     (let locked = st\<lparr>fs_locks := path # fs_locks st\<rparr>;
          unlock = (\<lambda>st. st\<lparr>fs_locks := remove1 path (fs_locks st)\<rparr>) in
      case MkdirAll env [] locked of (Inl e, st) \<Rightarrow> (Inl e, unlock st)
      | (Inr _, st) \<Rightarrow>
          (case os_call env [] st of (Inl e, st) \<Rightarrow> (Inl e, unlock st)
           | (Inr _, st) \<Rightarrow>
               (case os_call env [] st of (Inl e, st) \<Rightarrow> (Inl e, unlock (snd (os_call env [] st)))
                | (Inr _, st) \<Rightarrow> (Inr (), st))))"

definition release :: "fs_env \<Rightarrow> string \<Rightarrow> fs_state \<Rightarrow> fs_state" where
  "release env path st =
     (let st = snd (os_call env [] (snd (os_call env [] st))) in st\<lparr>fs_locks := remove1 path (fs_locks st)\<rparr>)"

section \<open>UTF-8\<close>

text \<open>\<^verbatim>\<open>utf8.Valid\<close>.\<close>

function Valid_utf8 :: "string \<Rightarrow> bool" where
  "Valid_utf8 s = (if s = [] then True else if rune_len s = 0 then False else Valid_utf8 (drop (rune_len s) s))"
  by pat_completeness auto
termination
  by (relation "measure length") auto

declare Valid_utf8.simps [simp del]

definition fileHash :: "go_lib \<Rightarrow> string \<Rightarrow> string" where
  "fileHash lib data = sha256_hex lib data"

section \<open>What the operations keep\<close>

definition is_temp :: "fs_env \<Rightarrow> string \<Rightarrow> bool" where
  "is_temp env p \<longleftrightarrow> (\<exists>d n. p = temp_name env d n)"

text \<open>All files of \<open>A\<close> are in \<open>B\<close>, unchanged; what \<open>B\<close> has beyond them are temporary files.\<close>

definition keeps :: "fs_env \<Rightarrow> (string \<Rightarrow> os_file option) \<Rightarrow> (string \<Rightarrow> os_file option) \<Rightarrow> bool" where
  "keeps env A B \<longleftrightarrow> (\<forall>p. A p \<noteq> None \<or> \<not> is_temp env p \<longrightarrow> B p = A p)"

lemma keeps_refl [simp, intro]: "keeps env A A"
  by (simp add: keeps_def)

lemma keeps_trans: "keeps env A B \<Longrightarrow> keeps env B C \<Longrightarrow> keeps env A C"
  by (auto simp: keeps_def)

lemma keeps_update: "keeps env A B \<Longrightarrow> \<not> is_temp env p \<Longrightarrow> keeps env (A(p := f)) (B(p := f))"
  by (auto simp: keeps_def)

lemma keeps_at: "keeps env A B \<Longrightarrow> \<not> is_temp env p \<Longrightarrow> B p = A p"
  by (auto simp: keeps_def)

text \<open>The rest of the state: the locks, the dirty flag and the events.\<close>

definition frame :: "fs_state \<Rightarrow> fs_state \<Rightarrow> bool" where
  "frame st st' \<longleftrightarrow> fs_locks st' = fs_locks st \<and> fs_dirty st' = fs_dirty st \<and> fs_events st' = fs_events st"

lemma frame_refl [simp, intro]: "frame st st"
  by (simp add: frame_def)

lemma frame_trans: "frame st st' \<Longrightarrow> frame st' st'' \<Longrightarrow> frame st st''"
  by (simp add: frame_def)

lemma tick_files [simp]: "fs_files (tick st) = fs_files st" "frame st (tick st)"
  by (simp_all add: tick_def frame_def)

lemma frame_tick [simp]: "frame st (set_file p f (tick st))" "frame st (set_file p f (set_file q g (tick st)))"
  by (simp_all add: frame_def set_file_def tick_def)

lemma set_file_files [simp]: "fs_files (set_file p f st) = (fs_files st)(p := f)"
  by (simp add: set_file_def)

lemma os_call_files [simp]: "fs_files (snd (os_call env p st)) = fs_files st" "frame st (snd (os_call env p st))"
  by (auto simp: os_call_def split: option.splits)

lemma ReadFile_spec:
  assumes "ReadFile env p st = (r, st')"
  shows "fs_files st' = fs_files st" "frame st st'" "r = Inr data \<Longrightarrow> \<exists>f. fs_files st p = Some f \<and> of_data f = data"
    "r = Inl Not_exist \<Longrightarrow> fs_files st p = None"
  using assms by (auto simp: ReadFile_def call_fault_def split: option.splits fault.splits if_splits)

lemma Stat_mode_spec:
  assumes "Stat_mode env p st = (r, st')"
  shows "fs_files st' = fs_files st" "frame st st'" "r = Inr mode \<Longrightarrow> \<exists>f. fs_files st p = Some f \<and> of_mode f = mode"
  using assms by (auto simp: Stat_mode_def split: option.splits)

lemma Remove_spec:
  assumes "Remove env p st = (r, st')"
  shows "frame st st'" "r = Inr () \<Longrightarrow> fs_files st' = (fs_files st)(p := None)" "r = Inl e \<Longrightarrow> fs_files st' = fs_files st"
    "r = Inl Not_exist \<or> r = Inl Not_dir \<Longrightarrow> fs_files st p = None"
  using assms by (auto simp: Remove_def call_fault_def split: option.splits fault.splits if_splits)

lemma discard_temp_files:
  "fs_files (discard_temp env t st) = fs_files st \<or> fs_files (discard_temp env t st) = (fs_files st)(t := None)" "frame st (discard_temp env t st)"
proof -
  obtain r st' where r: "Remove env t (snd (os_call env t st)) = (r, st')" by fastforce
  note spec = Remove_spec [OF r]
  show "fs_files (discard_temp env t st) = fs_files st \<or> fs_files (discard_temp env t st) = (fs_files st)(t := None)"
    using spec(2,3) r by (cases r) (auto simp: discard_temp_def)
  show "frame st (discard_temp env t st)" using spec(1) r frame_trans [OF os_call_files(2)] by (simp add: discard_temp_def)
qed

text \<open>The calls on the open temporary file change that file alone.\<close>

lemma temp_calls:
  assumes "io_then (Chmod env t mode st) (\<lambda>_ st. io_then (Write_file env t data st) (\<lambda>_ st.
      io_then (os_call env t st) (\<lambda>_ st. io_then (os_call env t st) (\<lambda>_ st. Rename env t path st)))) = (r, st')"
    "fs_files st t = Some f0" "t \<noteq> path"
  shows "frame st st'" "r = Inr u \<Longrightarrow> fs_files st' = (fs_files st)(t := None, path := Some \<lparr>of_data = data, of_mode = mode\<rparr>)"
    "r = Inl e \<Longrightarrow> \<exists>g. fs_files st' = (fs_files st)(t := Some g)"
proof -
  have c: "\<exists>r1 st1. Chmod env t mode st = (r1, st1) \<and> frame st st1 \<and>
      (case r1 of Inl _ \<Rightarrow> fs_files st1 = fs_files st | Inr _ \<Rightarrow> fs_files st1 = (fs_files st)(t := Some (f0\<lparr>of_mode := mode\<rparr>)))"
    using assms(2) by (auto simp: Chmod_def fun_upd_def split: option.splits)
  have w: "\<exists>r1 st1. Write_file env t data s = (r1, st1) \<and> frame s st1 \<and>
      (case r1 of Inl _ \<Rightarrow> \<exists>d. fs_files st1 = (fs_files s)(t := Some (f1\<lparr>of_data := d\<rparr>)) | Inr _ \<Rightarrow> fs_files st1 = (fs_files s)(t := Some (f1\<lparr>of_data := data\<rparr>)))"
    if "fs_files s t = Some f1" for s f1
    using that by (auto simp: Write_file_def split: option.splits)
  have n: "\<exists>r1 st1. Rename env t path s = (r1, st1) \<and> frame s st1 \<and>
      (case r1 of Inl _ \<Rightarrow> fs_files st1 = fs_files s | Inr _ \<Rightarrow> fs_files st1 = (fs_files s)(t := None, path := Some f1))"
    if "fs_files s t = Some f1" for s f1
    using that by (auto simp: Rename_def split: option.splits)
  obtain r1 st1 where 1: "Chmod env t mode st = (r1, st1)" "frame st st1"
    "case r1 of Inl _ \<Rightarrow> fs_files st1 = fs_files st | Inr _ \<Rightarrow> fs_files st1 = (fs_files st)(t := Some (f0\<lparr>of_mode := mode\<rparr>))"
    using c by blast
  have goal: "frame st st' \<and> (case r of Inr _ \<Rightarrow> fs_files st' = (fs_files st)(t := None, path := Some \<lparr>of_data = data, of_mode = mode\<rparr>)
      | Inl _ \<Rightarrow> \<exists>g. fs_files st' = (fs_files st)(t := Some g))"
  proof (cases r1)
    case (Inl e)
    then show ?thesis using assms(1,2) 1 fun_upd_triv [of "fs_files st" t] by (auto simp: io_then_def intro!: exI [of _ f0])
  next
    case (Inr u1)
    have f0: "f0\<lparr>of_mode := mode, of_data := data\<rparr> = \<lparr>of_data = data, of_mode = mode\<rparr>" by (cases f0) simp
    have st1: "fs_files st1 t = Some (f0\<lparr>of_mode := mode\<rparr>)" "fs_files st1 = (fs_files st)(t := Some (f0\<lparr>of_mode := mode\<rparr>))" using 1(3) Inr by auto
    obtain r2 st2 where 2: "Write_file env t data st1 = (r2, st2)" "frame st1 st2"
      "case r2 of Inl _ \<Rightarrow> \<exists>d. fs_files st2 = (fs_files st)(t := Some (f0\<lparr>of_mode := mode, of_data := d\<rparr>))
        | Inr _ \<Rightarrow> fs_files st2 = (fs_files st)(t := Some \<lparr>of_data = data, of_mode = mode\<rparr>)"
      using w [OF st1(1), unfolded st1(2) fun_upd_upd f0] by blast
    show ?thesis
    proof (cases r2)
      case Inl
      then show ?thesis using assms(1) 1 2 Inr frame_trans [OF 1(2) 2(2)] by (auto simp: io_then_def)
    next
      case r2: (Inr u2)
      obtain q3 s3 where 3: "os_call env t st2 = (q3, s3)" by fastforce
      obtain q4 s4 where 4: "os_call env t s3 = (q4, s4)" by fastforce
      have e3: "s3 = snd (os_call env t st2)" "s4 = snd (os_call env t s3)" using 3 4 by simp_all
      have fr: "frame st s3" "frame s3 s4" unfolding e3(2) using frame_trans [OF frame_trans [OF 1(2) 2(2)] os_call_files(2)] e3(1) by simp_all
      have fl: "fs_files s3 = fs_files st2" "fs_files s4 = fs_files st2" "frame st s3" "frame st s4"
        using fr frame_trans [OF fr] by (simp_all add: e3)
      have st2: "fs_files s4 t = Some \<lparr>of_data = data, of_mode = mode\<rparr>" using fl(2) 2(3) r2 by simp
      obtain q5 s5 where 5: "Rename env t path s4 = (q5, s5)" "frame s4 s5"
        "case q5 of Inl _ \<Rightarrow> fs_files s5 = fs_files s4 | Inr _ \<Rightarrow> fs_files s5 = (fs_files s4)(t := None, path := Some \<lparr>of_data = data, of_mode = mode\<rparr>)"
        using n [OF st2] by blast
      show ?thesis
        using assms(1,3) 1(1) 2(1,3) 3 4 5 Inr r2 fl frame_trans [OF fl(4) 5(2)]
        by (cases q3; cases q4; cases q5) (auto simp: io_then_def fun_upd_twist)
    qed
  qed
  then show "frame st st'" "r = Inr u \<Longrightarrow> fs_files st' = (fs_files st)(t := None, path := Some \<lparr>of_data = data, of_mode = mode\<rparr>)"
    "r = Inl e \<Longrightarrow> \<exists>g. fs_files st' = (fs_files st)(t := Some g)" by auto
qed

lemma atomicWriteFile_spec:
  assumes "atomicWriteFile env path data mode st = (r, st')" "\<not> is_temp env path"
  shows "frame st st'" "r = Inr u \<Longrightarrow> keeps env ((fs_files st)(path := Some \<lparr>of_data = data, of_mode = mode\<rparr>)) (fs_files st')"
    "r = Inl e \<Longrightarrow> keeps env (fs_files st) (fs_files st')"
proof -
  let ?t = "temp_name env (Dir path) (fs_calls st)"
  have t: "is_temp env ?t" "?t \<noteq> path" using assms(2) unfolding is_temp_def by metis+
  have "frame st st' \<and> (case r of Inr _ \<Rightarrow> keeps env ((fs_files st)(path := Some \<lparr>of_data = data, of_mode = mode\<rparr>)) (fs_files st')
      | Inl _ \<Rightarrow> keeps env (fs_files st) (fs_files st'))"
  proof (cases "call_fault env ?t st = None \<and> fs_files st ?t = None")
    case False
    then show ?thesis using assms(1) by (auto simp: atomicWriteFile_def CreateTemp_def Let_def split: option.splits)
  next
    case True
    define s1 where "s1 = set_file ?t (Some \<lparr>of_data = [], of_mode = 384\<rparr>) (tick st)"
    have c: "CreateTemp env (Dir path) st = (Inr ?t, s1)" using True by (simp add: CreateTemp_def Let_def s1_def)
    have s1: "frame st s1" "fs_files s1 = (fs_files st)(?t := Some \<lparr>of_data = [], of_mode = 384\<rparr>)" by (simp_all add: s1_def)
    obtain q s2 where q: "io_then (Chmod env ?t mode s1) (\<lambda>_ st. io_then (Write_file env ?t data st) (\<lambda>_ st.
      io_then (os_call env ?t st) (\<lambda>_ st. io_then (os_call env ?t st) (\<lambda>_ st. Rename env ?t path st)))) = (q, s2)" by fastforce
    note tc = temp_calls [OF q, of "\<lparr>of_data = [], of_mode = 384\<rparr>"]
    have fr: "frame st s2" using tc(1) s1 t(2) frame_trans by fastforce
    show ?thesis
    proof (cases q)
      case (Inl e)
      obtain g where "fs_files s2 = (fs_files s1)(?t := Some g)" using tc(3) [OF _ _ Inl] s1 t(2) by auto
      then have g: "fs_files s2 = (fs_files st)(?t := Some g)" using s1(2) by simp
      have k: "keeps env (fs_files st) (fs_files (discard_temp env ?t s2))"
        using discard_temp_files(1) [of env ?t s2] True t(1) g by (auto simp: keeps_def)
      have "r = Inl e" "st' = discard_temp env ?t s2" using assms(1) c q Inl by (auto simp: atomicWriteFile_def)
      then show ?thesis using k fr frame_trans discard_temp_files(2) by auto
    next
      case (Inr u)
      have "fs_files s2 = (fs_files s1)(?t := None, path := Some \<lparr>of_data = data, of_mode = mode\<rparr>)" using tc(2) [OF _ _ Inr] s1 t(2) by auto
      then have g: "fs_files s2 = (fs_files st)(path := Some \<lparr>of_data = data, of_mode = mode\<rparr>)"
        using s1(2) True t(2) by (auto simp: fun_upd_twist fun_upd_idem_iff)
      have "r = Inr ()" "st' = snd (os_call env ?t s2)" using assms(1) c q Inr by (auto simp: atomicWriteFile_def)
      then show ?thesis using g fr frame_trans os_call_files by auto
    qed
  qed
  then show "frame st st'" "r = Inr u \<Longrightarrow> keeps env ((fs_files st)(path := Some \<lparr>of_data = data, of_mode = mode\<rparr>)) (fs_files st')"
    "r = Inl e \<Longrightarrow> keeps env (fs_files st) (fs_files st')" by auto
qed

text \<open>Taking a lock and giving it back.\<close>

lemma acquire_spec:
  assumes "acquirePathLock env p st = (r, st')"
  shows "fs_files st' = fs_files st" "fs_dirty st' = fs_dirty st" "fs_events st' = fs_events st"
    "fs_locks st' = (case r of Inl e \<Rightarrow> fs_locks st | Inr _ \<Rightarrow> p # fs_locks st)"
  using assms by (auto simp: acquirePathLock_def os_call_def tick_def Let_def split: option.splits prod.splits sum.splits)

lemma release_spec:
  "fs_files (release env p st) = fs_files st" "fs_dirty (release env p st) = fs_dirty st" "fs_events (release env p st) = fs_events st"
  "fs_locks (release env p st) = remove1 p (fs_locks st)"
  using os_call_files [where env = env and p = "[]" and st = st] os_call_files [where env = env and p = "[]" and st = "snd (os_call env [] st)"]
  by (simp_all add: release_def Let_def frame_def)

end
