(* ===== verification/Text_Match.thy ===== *)
theory Text_Match
  imports Go_Text "HOL-Library.Sublist"
begin

text \<open>
  Fuzzy text replacement of the workspace tools (\<^verbatim>\<open>internal/runtime/toolruntime/filesystem_fuzzy.go\<close>): nine
  strategies to find a text in a file, the similarity of two texts, and the replacement of what was found.

  Offsets are byte offsets. A ratio of the similarity is the exact rational number: the nearest double
  of a quotient of two lengths below \<open>2\<^sup>4\<^sup>0\<close> compares with the constants 0.5, 0.7 and 0.8 as the quotient
  itself does. A slice out of range, where Go panics, is \<open>None\<close>.
\<close>

section \<open>Matches\<close>

record text_match =
  tm_start :: nat
  tm_end :: nat

definition slice :: "string \<Rightarrow> nat \<Rightarrow> nat \<Rightarrow> string" where
  "slice s i j = take (j - i) (drop i s)"

abbreviation region :: "string \<Rightarrow> text_match \<Rightarrow> string" where
  "region content m \<equiv> slice content (tm_start m) (tm_end m)"

function exact_from :: "string \<Rightarrow> string \<Rightarrow> nat \<Rightarrow> text_match list" where
  "exact_from content pattern offset =
     (if pattern = [] \<or> length content < offset + length pattern then []
      else case Index (drop offset content) pattern of
        None \<Rightarrow> []
      | Some index \<Rightarrow>
          \<lparr>tm_start = offset + index, tm_end = offset + index + length pattern\<rparr> #
          exact_from content pattern (offset + index + length pattern))"
  by pat_completeness auto
termination
proof (relation "measure (\<lambda>(content, pattern, offset). length content - offset)")
  show "((content, pattern, offset + i + length pattern), content, pattern, offset) \<in> measure (\<lambda>(content, pattern, offset). length content - offset)"
    if "\<not> (pattern = [] \<or> length content < offset + length pattern)" for content pattern :: string and offset i
    using that by (cases pattern) auto
qed simp

declare exact_from.simps [simp del]

definition exactMatches :: "string \<Rightarrow> string \<Rightarrow> text_match list" where
  "exactMatches content pattern = exact_from content pattern 0"

definition lineMatchSpan :: "string \<Rightarrow> string list \<Rightarrow> nat \<Rightarrow> nat \<Rightarrow> text_match" where
  "lineMatchSpan content lines start n =
     (let startByte = (\<Sum>l\<leftarrow>take start lines. length l + 1);
          endByte = startByte + (\<Sum>l\<leftarrow>take n (drop start lines). length l) + (n - 1)
      in \<lparr>tm_start = startByte, tm_end = min endByte (length content)\<rparr>)"

text \<open>The starts a loop \<^verbatim>\<open>for start := 0; start+len(patternLines) <= len(contentLines); start++\<close> visits.\<close>

definition starts :: "string list \<Rightarrow> string list \<Rightarrow> nat list" where
  "starts contentLines patternLines = [0..<length contentLines + 1 - length patternLines]"

definition block :: "string list \<Rightarrow> nat \<Rightarrow> nat \<Rightarrow> string list" where
  "block lines start n = take n (drop start lines)"

definition normalizedLineMatches :: "string \<Rightarrow> string \<Rightarrow> (string \<Rightarrow> string) \<Rightarrow> text_match list" where
  "normalizedLineMatches content pattern normal =
     (let contentLines = Split_nl content; patternLines = Split_nl pattern; n = length patternLines in
      map (\<lambda>start. lineMatchSpan content contentLines start n)
        (filter (\<lambda>start. map normal (block contentLines start n) = map normal patternLines) (starts contentLines patternLines)))"

fun collapse_runes :: "bool \<Rightarrow> rune list \<Rightarrow> string" where
  "collapse_runes inWhitespace [] = []"
| "collapse_runes inWhitespace (r # rs) =
     (if r = '' '' \<or> r = [CHR 0x09] then (if inWhitespace then [] else '' '') @ collapse_runes True rs
      else r @ collapse_runes False rs)"

definition collapseHorizontalWhitespace :: "string \<Rightarrow> string" where
  "collapseHorizontalWhitespace s = collapse_runes False (runes s)"

definition lineTrimmedMatches :: "string \<Rightarrow> string \<Rightarrow> text_match list" where
  "lineTrimmedMatches content pattern = normalizedLineMatches content pattern TrimSpace"

definition whitespaceNormalizedMatches :: "string \<Rightarrow> string \<Rightarrow> text_match list" where
  "whitespaceNormalizedMatches content pattern = normalizedLineMatches content pattern collapseHorizontalWhitespace"

definition indentationFlexibleMatches :: "string \<Rightarrow> string \<Rightarrow> text_match list" where
  "indentationFlexibleMatches content pattern = normalizedLineMatches content pattern TrimLeft_blank"

text \<open>The replacer of the escapes for line feed, tab and carriage return.\<close>

fun unescape :: "string \<Rightarrow> string" where
  "unescape [] = []"
| "unescape [c] = [c]"
| "unescape (c # d # cs) =
     (if c = CHR 0x5C \<and> d = CHR ''n'' then CHR 0x0A # unescape cs
      else if c = CHR 0x5C \<and> d = CHR ''t'' then CHR 0x09 # unescape cs
      else if c = CHR 0x5C \<and> d = CHR ''r'' then CHR 0x0D # unescape cs
      else c # unescape (d # cs))"

definition escapeNormalizedMatches :: "string \<Rightarrow> string \<Rightarrow> text_match list" where
  "escapeNormalizedMatches content pattern =
     (if unescape pattern = pattern then [] else exactMatches content (unescape pattern))"

text \<open>The first and the last line of a block are trimmed.\<close>

definition trim_boundary :: "string list \<Rightarrow> string list" where
  "trim_boundary lines =
     (case lines of
        [] \<Rightarrow> []
      | l # ls \<Rightarrow> (let lines = TrimSpace l # ls in
          if ls = [] then lines else butlast lines @ [TrimSpace (last lines)]))"

definition trimmedBoundaryMatches :: "string \<Rightarrow> string \<Rightarrow> text_match list" where
  "trimmedBoundaryMatches content pattern =
     (let patternLines = Split_nl pattern; contentLines = Split_nl content; n = length patternLines; wanted = Join (trim_boundary patternLines) [CHR 0x0A] in
      map (\<lambda>start. lineMatchSpan content contentLines start n)
        (filter (\<lambda>start. Join (trim_boundary (block contentLines start n)) [CHR 0x0A] = wanted) (starts contentLines patternLines)))"

section \<open>Unicode look-alikes\<close>

definition hermesUnicodeMap :: "(rune \<times> string) list" where
  "hermesUnicodeMap =
     [([CHR 0xE2, CHR 0x80, CHR 0x9C], [CHR 0x22]), ([CHR 0xE2, CHR 0x80, CHR 0x9D], [CHR 0x22]),
      ([CHR 0xE2, CHR 0x80, CHR 0x98], [CHR 0x27]), ([CHR 0xE2, CHR 0x80, CHR 0x99], [CHR 0x27]),
      ([CHR 0xE2, CHR 0x80, CHR 0x94], ''--''), ([CHR 0xE2, CHR 0x80, CHR 0x93], ''-''),
      ([CHR 0xE2, CHR 0x80, CHR 0xA6], ''...''), ([CHR 0xC2, CHR 0xA0], '' ''), ([CHR 0xE2, CHR 0x88, CHR 0x92], ''-''),
      ([CHR 0xE2, CHR 0x80, CHR 0x80], '' ''), ([CHR 0xE2, CHR 0x80, CHR 0x81], '' ''), ([CHR 0xE2, CHR 0x80, CHR 0x82], '' ''),
      ([CHR 0xE2, CHR 0x80, CHR 0x83], '' ''), ([CHR 0xE2, CHR 0x80, CHR 0x84], '' ''), ([CHR 0xE2, CHR 0x80, CHR 0x85], '' ''),
      ([CHR 0xE2, CHR 0x80, CHR 0x86], '' ''), ([CHR 0xE2, CHR 0x80, CHR 0x87], '' ''), ([CHR 0xE2, CHR 0x80, CHR 0x88], '' ''),
      ([CHR 0xE2, CHR 0x80, CHR 0x89], '' ''), ([CHR 0xE2, CHR 0x80, CHR 0x8A], '' ''), ([CHR 0xE2, CHR 0x80, CHR 0xAF], '' ''),
      ([CHR 0xE2, CHR 0x81, CHR 0x9F], '' ''), ([CHR 0xE3, CHR 0x80, CHR 0x80], '' '')]"

definition look_alike :: "rune \<Rightarrow> string" where
  "look_alike r = (case map_of hermesUnicodeMap r of Some s \<Rightarrow> s | None \<Rightarrow> r)"

definition normalizeUnicode :: "string \<Rightarrow> string" where
  "normalizeUnicode value = concat (map look_alike (runes value))"

text \<open>The runes of a string with the byte offsets at which a \<^verbatim>\<open>range\<close> loop finds them.\<close>

function runes_at :: "nat \<Rightarrow> string \<Rightarrow> (nat \<times> rune) list" where
  "runes_at i s =
     (if s = [] then []
      else if rune_len s = 0 then (i, rune_error) # runes_at (i + 1) (tl s)
      else (i, take (rune_len s) s) # runes_at (i + rune_len s) (drop (rune_len s) s))"
  by pat_completeness auto
termination
  by (relation "measure (\<lambda>(i, s). length s)") auto

declare runes_at.simps [simp del]

definition normalizeUnicodeWithBoundaries :: "string \<Rightarrow> string \<times> nat list" where
  "normalizeUnicodeWithBoundaries value =
     (concat (map (\<lambda>(i, r). look_alike r) (runes_at 0 value)),
      concat (map (\<lambda>(i, r). replicate (length (look_alike r)) i) (runes_at 0 value)) @ [length value])"

definition unicodeNormalizedMatches :: "string \<Rightarrow> string \<Rightarrow> text_match list" where
  "unicodeNormalizedMatches content pattern =
     (let (normalizedContent, boundaries) = normalizeUnicodeWithBoundaries content; normalizedPattern = normalizeUnicode pattern in
      if normalizedContent = content \<and> normalizedPattern = pattern then []
      else
        (let normalizedMatches = exactMatches normalizedContent normalizedPattern in
         if normalizedMatches = [] then normalizedLineMatches content pattern (\<lambda>line. TrimSpace (normalizeUnicode line))
         else filter (\<lambda>m. tm_start m < tm_end m)
                (map (\<lambda>m. \<lparr>tm_start = boundaries ! tm_start m, tm_end = boundaries ! tm_end m\<rparr>)
                   (filter (\<lambda>m. tm_end m < length boundaries) normalizedMatches))))"

section \<open>Similarity\<close>

text \<open>One row of the table of the longest common subsequence: \<open>row\<close> has an entry for every prefix of \<open>b\<close>;
  the loop over \<open>b\<close> reads the entry to the left as already updated and the old one above it.\<close>

fun lcs_row :: "'a \<Rightarrow> 'a list \<Rightarrow> nat \<Rightarrow> nat \<Rightarrow> nat list \<Rightarrow> nat list" where
  "lcs_row x [] previous left row = []"
| "lcs_row x (y # ys) previous left [] = []"
| "lcs_row x (y # ys) previous left (old # row) =
     (let new = (if x = y then previous + 1 else if left > old then left else old)
      in new # lcs_row x ys old new row)"

definition lcs_rows :: "'a list \<Rightarrow> 'a list \<Rightarrow> nat list" where
  "lcs_rows a b = foldl (\<lambda>row x. hd row # lcs_row x b 0 (hd row) (tl row)) (replicate (length b + 1) 0) a"

fun common_prefix :: "'a list \<Rightarrow> 'a list \<Rightarrow> nat" where
  "common_prefix (x # xs) (y # ys) = (if x = y then Suc (common_prefix xs ys) else 0)"
| "common_prefix _ _ = 0"

definition similarity_ratio :: "nat \<Rightarrow> nat \<Rightarrow> rat" where
  "similarity_ratio n m = of_nat (2 * n) / of_nat m"

definition sequenceSimilarity :: "string \<Rightarrow> string \<Rightarrow> rat" where
  "sequenceSimilarity left right =
     (let a = runes left; b = runes right; prefix_len = common_prefix a b;
          suffix_len = common_prefix (rev (drop prefix_len a)) (rev (drop prefix_len b))
      in if left = right then 1
         else if a = [] \<or> b = [] then 0
         else if 2000000 < length a * length b then similarity_ratio (prefix_len + suffix_len) (length a + length b)
         else similarity_ratio (last (if length a < length b then lcs_rows b a else lcs_rows a b)) (length a + length b))"

definition blockAnchorMatches :: "string \<Rightarrow> string \<Rightarrow> text_match list" where
  "blockAnchorMatches content pattern =
     (let patternLines = Split_nl (normalizeUnicode pattern); n = length patternLines;
          normalizedLines = Split_nl (normalizeUnicode content); originalLines = Split_nl content;
          candidates = filter (\<lambda>start. TrimSpace (normalizedLines ! start) = TrimSpace (hd patternLines) \<and>
              TrimSpace (normalizedLines ! (start + n - 1)) = TrimSpace (last patternLines)) (starts normalizedLines patternLines);
          threshold = (if 1 < length candidates then 7 / 10 else 1 / 2);
          ratio = (\<lambda>start. if 2 < n
              then sequenceSimilarity (Join (block normalizedLines (start + 1) (n - 2)) [CHR 0x0A]) (Join (block patternLines 1 (n - 2)) [CHR 0x0A])
              else 1)
      in if n < 2 then []
         else map (\<lambda>start. lineMatchSpan content originalLines start n) (filter (\<lambda>start. threshold \<le> ratio start) candidates))"

definition similar_lines :: "string \<Rightarrow> string \<Rightarrow> bool" where
  "similar_lines l m \<longleftrightarrow> 4 / 5 \<le> sequenceSimilarity (TrimSpace l) (TrimSpace m)"

definition contextAwareMatches :: "string \<Rightarrow> string \<Rightarrow> text_match list" where
  "contextAwareMatches content pattern =
     (let patternLines = Split_nl pattern; contentLines = Split_nl content; n = length patternLines in
      if length contentLines < n then []
      else map (\<lambda>start. lineMatchSpan content contentLines start n)
        (filter (\<lambda>start. let lines = block contentLines start n in
             similar_lines (hd patternLines) (hd lines) \<and> similar_lines (last patternLines) (last lines) \<and>
             list_all (\<lambda>(p, l). TrimSpace p = [] \<or> similar_lines p l) (zip patternLines lines))
          (starts contentLines patternLines)))"

section \<open>Replacement\<close>

fun firstMeaningfulIndent :: "string list \<Rightarrow> string option" where
  "firstMeaningfulIndent [] = None"
| "firstMeaningfulIndent (line # lines) =
     (if TrimSpace line = [] then firstMeaningfulIndent lines else Some (take (length line - length (TrimLeft_blank line)) line))"

definition reindentReplacement :: "string \<Rightarrow> string \<Rightarrow> string \<Rightarrow> string" where
  "reindentReplacement fileRegion oldString newString =
     (if newString = [] then newString
      else case (firstMeaningfulIndent (Split_nl oldString), firstMeaningfulIndent (Split_nl fileRegion)) of
        (Some oldIndent, Some fileIndent) \<Rightarrow>
          if oldIndent = fileIndent then newString
          else Join (map (\<lambda>line. if TrimSpace line = [] then line
                            else if HasPrefix line oldIndent then fileIndent @ TrimPrefix line oldIndent
                            else fileIndent @ TrimLeft_blank line) (Split_nl newString)) [CHR 0x0A]
      | _ \<Rightarrow> newString)"

text \<open>The replacements from the last match to the first; Go slices the text built so far, so a match that
  reaches beyond it is a panic.\<close>

definition splice :: "string \<Rightarrow> text_match \<Rightarrow> string \<Rightarrow> string option" where
  "splice text m new = (if length text < tm_start m \<or> length text < tm_end m then None
     else Some (take (tm_start m) text @ new @ drop (tm_end m) text))"

definition applyTextMatches :: "string \<Rightarrow> text_match list \<Rightarrow> string \<Rightarrow> string \<Rightarrow> bool \<Rightarrow> string option" where
  "applyTextMatches content matches replacement oldString reindent =
     foldl (\<lambda>result m. case result of None \<Rightarrow> None
              | Some text \<Rightarrow> splice text m (if reindent then reindentReplacement (region content m) oldString replacement else replacement))
       (Some content) (rev (sort_key tm_start matches))"

definition escape_suspects :: "string list" where
  "escape_suspects = [[CHR 0x5C, CHR 0x27], [CHR 0x5C, CHR 0x22]]"

definition detectEscapeDrift :: "go_lib \<Rightarrow> string \<Rightarrow> text_match list \<Rightarrow> string \<Rightarrow> string \<Rightarrow> string option" where
  "detectEscapeDrift lib content matches oldString newString =
     map_option (\<lambda>suspect. ''escape-drift detected for '' @ quote lib suspect @ ''; re-read the file and remove spurious backslashes'')
       (find (\<lambda>suspect. Contains newString suspect \<and> Contains oldString suspect \<and>
                \<not> list_ex (\<lambda>m. Contains (region content m) suspect) matches) escape_suspects)"

definition maybeUnescapeReplacement :: "string \<Rightarrow> string \<Rightarrow> text_match list \<Rightarrow> string" where
  "maybeUnescapeReplacement replacement content matches =
     (let regions = concat (map (region content) matches);
          result = (if Contains regions [CHR 0x09] then ReplaceAll replacement [CHR 0x5C, CHR ''t''] [CHR 0x09] else replacement)
      in if Contains regions [CHR 0x0D] then ReplaceAll result [CHR 0x5C, CHR ''r''] [CHR 0x0D] else result)"

definition preserveUnicodeReplacement :: "string \<Rightarrow> string \<Rightarrow> string \<Rightarrow> string" where
  "preserveUnicodeReplacement fileRegion oldString newString =
     (let (normalizedRegion, boundaries) = normalizeUnicodeWithBoundaries fileRegion; normalizedOld = normalizeUnicode oldString;
          prefix_len = common_prefix normalizedOld newString;
          suffix_len = common_prefix (rev (drop prefix_len normalizedOld)) (rev (drop prefix_len newString))
      in if normalizedRegion \<noteq> normalizedOld then newString
         else if length boundaries \<le> prefix_len \<or> length boundaries \<le> length normalizedRegion - suffix_len then newString
         else take (boundaries ! prefix_len) fileRegion @ slice newString prefix_len (length newString - suffix_len) @
              drop (boundaries ! (length normalizedRegion - suffix_len)) fileRegion)"

definition patchAlreadyApplied :: "string \<Rightarrow> string \<Rightarrow> string \<Rightarrow> bool" where
  "patchAlreadyApplied content oldString newString \<longleftrightarrow>
     \<not> (length (TrimSpace newString) < 8 \<or> \<not> Contains content newString) \<and> (oldString = newString \<or> \<not> Contains content oldString)"

definition formatMatchLocations :: "string \<Rightarrow> text_match list \<Rightarrow> string" where
  "formatMatchLocations content matches =
     Join (map (\<lambda>m. ''L'' @ itoa (int (Count (take (tm_start m) content) [CHR 0x0A]) + 1)) (take 5 matches)) '', ''"

section \<open>fuzzyFindAndReplace\<close>

record fuzzy_strategy =
  fs_name :: string
  fs_approximate :: bool
  fs_find :: "string \<Rightarrow> string \<Rightarrow> text_match list"

definition strategy :: "string \<Rightarrow> bool \<Rightarrow> (string \<Rightarrow> string \<Rightarrow> text_match list) \<Rightarrow> fuzzy_strategy" where
  "strategy name approximate f = \<lparr>fs_name = name, fs_approximate = approximate, fs_find = f\<rparr>"

definition strategies :: "fuzzy_strategy list" where
  "strategies =
     [strategy ''exact'' False exactMatches, strategy ''line_trimmed'' False lineTrimmedMatches,
      strategy ''whitespace_normalized'' False whitespaceNormalizedMatches, strategy ''indentation_flexible'' False indentationFlexibleMatches,
      strategy ''escape_normalized'' False escapeNormalizedMatches, strategy ''trimmed_boundary'' False trimmedBoundaryMatches,
      strategy ''unicode_normalized'' False unicodeNormalizedMatches, strategy ''block_anchor'' True blockAnchorMatches,
      strategy ''context_aware'' True contextAwareMatches]"

datatype replace_outcome =
    Replaced string nat string
  | Match_error string
  | Slice_panic

definition replace_with :: "go_lib \<Rightarrow> fuzzy_strategy \<Rightarrow> string \<Rightarrow> text_match list \<Rightarrow> string \<Rightarrow> string \<Rightarrow> bool \<Rightarrow> replace_outcome" where
  "replace_with lib s content matches oldString newString replaceAll =
     (if 1 < length matches \<and> \<not> replaceAll
      then Match_error (''found '' @ itoa (int (length matches)) @ '' matches for old_string; provide more context or use replace_all: '' @
             formatMatchLocations content matches)
      else if 1 < length matches \<and> replaceAll \<and> fs_approximate s
      then Match_error (''found '' @ itoa (int (length matches)) @ '' approximate matches via '' @ fs_name s @ ''; replace_all requires a precise strategy'')
      else case (if fs_name s \<noteq> ''exact'' then detectEscapeDrift lib content matches oldString newString else None) of
        Some e \<Rightarrow> Match_error e
      | None \<Rightarrow>
          (let effectiveNew = maybeUnescapeReplacement newString content matches;
               effectiveNew = (if fs_name s = ''unicode_normalized'' \<and> length matches = 1
                 then preserveUnicodeReplacement (region content (hd matches)) oldString effectiveNew else effectiveNew)
           in case applyTextMatches content matches effectiveNew oldString (fs_name s \<noteq> ''exact'') of
                Some text \<Rightarrow> Replaced text (length matches) (fs_name s)
              | None \<Rightarrow> Slice_panic))"

fun try_strategies :: "go_lib \<Rightarrow> fuzzy_strategy list \<Rightarrow> string \<Rightarrow> string \<Rightarrow> string \<Rightarrow> bool \<Rightarrow> replace_outcome" where
  "try_strategies lib [] content oldString newString replaceAll = Match_error ''could not find a match for old_string in the file''"
| "try_strategies lib (s # ss) content oldString newString replaceAll =
     (if fs_find s content oldString = [] then try_strategies lib ss content oldString newString replaceAll
      else replace_with lib s content (fs_find s content oldString) oldString newString replaceAll)"

definition fuzzyFindAndReplace :: "go_lib \<Rightarrow> string \<Rightarrow> string \<Rightarrow> string \<Rightarrow> bool \<Rightarrow> replace_outcome" where
  "fuzzyFindAndReplace lib content oldString newString replaceAll =
     (if oldString = [] then Match_error ''old_string cannot be empty''
      else if TrimSpace oldString = [] then Match_error ''old_string is only whitespace; provide non-blank text to match''
      else if oldString = newString then Match_error ''old_string and new_string are identical''
      else try_strategies lib strategies content oldString newString replaceAll)"

end
