(* ===== verification/Patch_V4A.thy ===== *)
theory Patch_V4A
  imports File_System Text_Match
begin

text \<open>
  Multi-file patches (\<^verbatim>\<open>toolruntime/filesystem_v4a.go\<close>): the parser of the patch format, the simulation of the
  operations on the states of the files, the check of expected hashes, and the two phases that write the
  result and roll it back. The regular expressions are the functions \<open>v4aBeginPattern\<close> to \<open>v4aHintPattern\<close>,
  which return the submatches; a \<^verbatim>\<open>map[string]*v4aFileState\<close> is an association list.
\<close>

section \<open>The patch format\<close>

datatype v4a_kind = V4A_update | V4A_add | V4A_delete | V4A_move

record v4a_hunk_line =
  hl_prefix :: char
  hl_content :: string

record v4a_hunk =
  hk_contextHint :: string
  hk_lines :: "v4a_hunk_line list"

record v4a_operation =
  vo_kind :: v4a_kind
  vo_rawPath :: string
  vo_rawNewPath :: string
  vo_path :: string
  vo_newPath :: string
  vo_hunks :: "v4a_hunk list"

text \<open>The class \<^verbatim>\<open>\s\<close>.\<close>

definition re_blank :: "char \<Rightarrow> bool" where
  "re_blank c \<longleftrightarrow> c \<in> set [CHR '' '', CHR 0x09, CHR 0x0A, CHR 0x0C, CHR 0x0D]"

definition skip_blank :: "string \<Rightarrow> string" where
  "skip_blank s = dropWhile re_blank s"

text \<open>\<^verbatim>\<open>^\*\*\*\s*<word>\s+\<close>: what follows it.\<close>

definition v4a_header :: "string \<Rightarrow> string \<Rightarrow> string option" where
  "v4a_header word line =
     (let s = skip_blank (drop 3 line); t = drop (length word) s in
      if HasPrefix line ''***'' \<and> HasPrefix s word \<and> t \<noteq> [] \<and> re_blank (hd t) then Some (skip_blank t) else None)"

definition v4a_mark :: "string \<Rightarrow> string \<Rightarrow> bool" where
  "v4a_mark word line =
     (case v4a_header word line of None \<Rightarrow> False | Some t \<Rightarrow> HasPrefix t ''Patch'' \<and> list_all re_blank (drop 5 t))"

definition v4aBeginPattern :: "string \<Rightarrow> bool" where "v4aBeginPattern line = v4a_mark ''Begin'' line"
definition v4aEndPattern :: "string \<Rightarrow> bool" where "v4aEndPattern line = v4a_mark ''End'' line"

text \<open>\<^verbatim>\<open>\s*(.+)$\<close> on a rest that is not empty: blanks are skipped, but for the last of a blank rest.\<close>

definition dot_plus :: "string \<Rightarrow> string option" where
  "dot_plus r = (if r = [] then None else if skip_blank r = [] then Some [last r] else Some (skip_blank r))"

definition file_rest :: "string \<Rightarrow> string \<Rightarrow> string option" where
  "file_rest word line =
     (case v4a_header word line of None \<Rightarrow> None | Some t \<Rightarrow> if HasPrefix t ''File:'' then Some (drop 5 t) else None)"

definition v4a_file :: "string \<Rightarrow> string \<Rightarrow> string option" where
  "v4a_file word line = (case file_rest word line of None \<Rightarrow> None | Some r \<Rightarrow> dot_plus r)"

definition v4aUpdatePattern :: "string \<Rightarrow> string option" where "v4aUpdatePattern line = v4a_file ''Update'' line"
definition v4aAddPattern :: "string \<Rightarrow> string option" where "v4aAddPattern line = v4a_file ''Add'' line"
definition v4aDeletePattern :: "string \<Rightarrow> string option" where "v4aDeletePattern line = v4a_file ''Delete'' line"

text \<open>\<^verbatim>\<open>\s*(.+?)\s*->\s*(.+)$\<close>: the most blanks first, then the shortest first group.\<close>

definition move_at :: "string \<Rightarrow> (string \<times> string) option" where
  "move_at body =
     (case find (\<lambda>k. HasPrefix (skip_blank (drop k body)) ''->'' \<and> drop 2 (skip_blank (drop k body)) \<noteq> []) [1..<Suc (length body)] of
        None \<Rightarrow> None
      | Some k \<Rightarrow> map_option (\<lambda>g. (take k body, g)) (dot_plus (drop 2 (skip_blank (drop k body)))))"

definition v4aMovePattern :: "string \<Rightarrow> (string \<times> string) option" where
  "v4aMovePattern line =
     (case file_rest ''Move'' line of None \<Rightarrow> None
      | Some r \<Rightarrow> (case List.map_filter (\<lambda>i. move_at (drop i r)) (rev [0..<Suc (length (takeWhile re_blank r))]) of
          [] \<Rightarrow> None | m # _ \<Rightarrow> Some m))"

definition v4aHintPattern :: "string \<Rightarrow> string option" where
  "v4aHintPattern line =
     (let body = skip_blank (drop 2 line) in
      if HasPrefix line ''@@'' then
        map_option (\<lambda>k. take k body) (find (\<lambda>k. HasPrefix (skip_blank (drop k body)) ''@@'') [0..<Suc (length body)])
      else None)"

section \<open>The parser\<close>

definition new_operation :: "v4a_kind \<Rightarrow> string \<Rightarrow> string \<Rightarrow> v4a_operation" where
  "new_operation kind rawPath rawNewPath =
     \<lparr>vo_kind = kind, vo_rawPath = TrimSpace rawPath, vo_rawNewPath = TrimSpace rawNewPath, vo_path = [], vo_newPath = [], vo_hunks = []\<rparr>"

record v4a_parser =
  vp_operations :: "v4a_operation list"
  vp_current :: "v4a_operation option"
  vp_currentHunk :: "v4a_hunk option"

definition flush_hunk :: "v4a_hunk option \<Rightarrow> v4a_operation \<Rightarrow> v4a_operation" where
  "flush_hunk h op = (case h of Some hunk \<Rightarrow> if hk_lines hunk \<noteq> [] then op\<lparr>vo_hunks := vo_hunks op @ [hunk]\<rparr> else op | None \<Rightarrow> op)"

definition finishCurrent :: "v4a_parser \<Rightarrow> v4a_parser" where
  "finishCurrent p =
     (case vp_current p of None \<Rightarrow> p
      | Some current \<Rightarrow> \<lparr>vp_operations = vp_operations p @ [flush_hunk (vp_currentHunk p) current], vp_current = None, vp_currentHunk = None\<rparr>)"

definition empty_hunk :: v4a_hunk where
  "empty_hunk = \<lparr>hk_contextHint = [], hk_lines = []\<rparr>"

definition hunk_line :: "v4a_parser \<Rightarrow> string \<Rightarrow> v4a_parser" where
  "hunk_line p line =
     (let hunk = (case vp_currentHunk p of Some h \<Rightarrow> h | None \<Rightarrow> empty_hunk) in
      if hd line \<in> set ''+- '' then p\<lparr>vp_currentHunk := Some (hunk\<lparr>hk_lines := hk_lines hunk @ [\<lparr>hl_prefix = hd line, hl_content = tl line\<rparr>]\<rparr>)\<rparr>
      else if hd line = CHR 0x5C then p\<lparr>vp_currentHunk := Some hunk\<rparr>
      else p\<lparr>vp_currentHunk := Some (hunk\<lparr>hk_lines := hk_lines hunk @ [\<lparr>hl_prefix = CHR '' '', hl_content = line\<rparr>]\<rparr>)\<rparr>)"

definition v4a_line :: "v4a_parser \<Rightarrow> string \<Rightarrow> v4a_parser" where
  "v4a_line p line =
     (case v4aUpdatePattern line of Some m \<Rightarrow> (finishCurrent p)\<lparr>vp_current := Some (new_operation V4A_update m [])\<rparr>
      | None \<Rightarrow> (case v4aAddPattern line of
          Some m \<Rightarrow> (finishCurrent p)\<lparr>vp_current := Some (new_operation V4A_add m []), vp_currentHunk := Some empty_hunk\<rparr>
        | None \<Rightarrow> (case v4aDeletePattern line of
            Some m \<Rightarrow> (let q = finishCurrent p in q\<lparr>vp_operations := vp_operations q @ [new_operation V4A_delete m []]\<rparr>)
          | None \<Rightarrow> (case v4aMovePattern line of
              Some (m, n) \<Rightarrow> (let q = finishCurrent p in q\<lparr>vp_operations := vp_operations q @ [new_operation V4A_move m n]\<rparr>)
            | None \<Rightarrow>
                (case vp_current p of None \<Rightarrow> p
                 | Some current \<Rightarrow>
                     if HasPrefix line ''@@'' then
                       p\<lparr>vp_current := Some (flush_hunk (vp_currentHunk p) current),
                         vp_currentHunk := Some (empty_hunk\<lparr>hk_contextHint := (case v4aHintPattern line of Some m \<Rightarrow> TrimSpace m | None \<Rightarrow> [])\<rparr>)\<rparr>
                     else if line \<noteq> [] then hunk_line p line else p)))))"

text \<open>The marks: operations are read after the last begin mark before the first end mark.\<close>

fun v4a_body :: "string list \<Rightarrow> string list \<Rightarrow> string list" where
  "v4a_body acc [] = rev acc"
| "v4a_body acc (line # rest) =
     (if v4aBeginPattern line then v4a_body [] rest else if v4aEndPattern line then rev acc else v4a_body (line # acc) rest)"

definition v4a_invalid :: "go_lib \<Rightarrow> v4a_operation \<Rightarrow> string option" where
  "v4a_invalid lib operation =
     (if vo_rawPath operation = [] then Some ''patch operation has an empty path''
      else if vo_kind operation = V4A_update \<and> vo_hunks operation = [] then Some (''update '' @ quote lib (vo_rawPath operation) @ '' contains no hunks'')
      else if vo_kind operation = V4A_move \<and> vo_rawNewPath operation = [] then Some (''move '' @ quote lib (vo_rawPath operation) @ '' has no destination'')
      else None)"

definition parseV4APatch :: "go_lib \<Rightarrow> string \<Rightarrow> string + v4a_operation list" where
  "parseV4APatch lib patchContent =
     (let lines = map (\<lambda>line. TrimSuffix line [CHR 0x0D]) (Split_nl (ReplaceAll patchContent [CHR 0x0D, CHR 0x0A] [CHR 0x0A]));
          p = foldl v4a_line \<lparr>vp_operations = [], vp_current = None, vp_currentHunk = None\<rparr> (v4a_body [] lines);
          operations = vp_operations (finishCurrent p)
      in if operations = [] then Inl ''patch contains no file operations''
         else case List.map_filter (v4a_invalid lib) operations of [] \<Rightarrow> Inr operations | e # _ \<Rightarrow> Inl e)"

section \<open>Errors\<close>

text \<open>Errors as they are wrapped: a text, the error of a call, \<^verbatim>\<open>"<text>: %w"\<close>, and the two results of a rollback.\<close>

datatype file_error =
    Msg string
  | Sys os_error
  | At string file_error
  | Retry file_error
  | Rolled_back file_error
  | Rollback_failed file_error "file_error list"

section \<open>Simulation\<close>

record v4a_file_state =
  vs_exists :: bool
  vs_content :: string
  vs_mode :: nat
  vs_originalExists :: bool
  vs_originalContent :: string

type_synonym v4a_states = "(string \<times> v4a_file_state) list"

definition put_state :: "string \<Rightarrow> v4a_file_state \<Rightarrow> v4a_states \<Rightarrow> v4a_states" where
  "put_state path state states = (if path \<in> set (map fst states) then map (\<lambda>(p, s). if p = path then (p, state) else (p, s)) states else states @ [(path, state)])"

definition load :: "fs_env \<Rightarrow> string \<Rightarrow> v4a_states \<Rightarrow> fs_state \<Rightarrow> (file_error + v4a_file_state \<times> v4a_states) \<times> fs_state" where
  "load env path states st =
     (case map_of states path of Some state \<Rightarrow> (Inr (state, states), st)
      | None \<Rightarrow>
          (case ReadFile env path st of
             (Inl Not_exist, st) \<Rightarrow>
               (let state = \<lparr>vs_exists = False, vs_content = [], vs_mode = 420, vs_originalExists = False, vs_originalContent = []\<rparr> in
                (Inr (state, put_state path state states), st))
           | (Inl e, st) \<Rightarrow> (Inl (Sys e), st)
           | (Inr data, st) \<Rightarrow>
               if \<not> Valid_utf8 data then (Inl (Msg (path @ '' is not valid UTF-8'')), st)
               else (case Stat_mode env path st of (m, st) \<Rightarrow>
                  let state = \<lparr>vs_exists = True, vs_content = data, vs_mode = (case m of Inr mode \<Rightarrow> mode | Inl _ \<Rightarrow> 420),
                                vs_originalExists = True, vs_originalContent = data\<rparr>
                  in (Inr (state, put_state path state states), st))))"

definition insertV4AText :: "go_lib \<Rightarrow> string \<Rightarrow> string \<Rightarrow> string \<Rightarrow> string + string" where
  "insertV4AText lib content insertion contextHint =
     (if contextHint = [] then Inr (TrimRight_nl content @ [CHR 0x0A] @ insertion @ [CHR 0x0A])
      else if Count content contextHint = 0 then Inl (''addition-only context hint '' @ quote lib contextHint @ '' not found'')
      else if Count content contextHint > 1
        then Inl (''addition-only context hint '' @ quote lib contextHint @ '' is ambiguous ('' @ itoa (int (Count content contextHint)) @ '' occurrences)'')
      else let position = the (Index content contextHint) in
        case Index (drop position content) [CHR 0x0A] of
          None \<Rightarrow> Inr (content @ [CHR 0x0A] @ insertion)
        | Some k \<Rightarrow> Inr (take (position + k + 1) content @ insertion @ [CHR 0x0A] @ drop (position + k + 1) content))"

definition hunk_search :: "v4a_hunk \<Rightarrow> string list" where
  "hunk_search hunk = map hl_content (filter (\<lambda>l. hl_prefix l = CHR '' '' \<or> hl_prefix l = CHR ''-'') (hk_lines hunk))"

definition hunk_replace :: "v4a_hunk \<Rightarrow> string list" where
  "hunk_replace hunk = map hl_content (filter (\<lambda>l. hl_prefix l = CHR '' '' \<or> hl_prefix l = CHR ''+'') (hk_lines hunk))"

definition hunk_changes :: "v4a_hunk \<Rightarrow> bool" where
  "hunk_changes hunk \<longleftrightarrow> list_ex (\<lambda>l. hl_prefix l = CHR ''+'' \<or> hl_prefix l = CHR ''-'') (hk_lines hunk)"

text \<open>One hunk on the text; \<open>fuzzyFindAndReplace\<close> without \<^verbatim>\<open>replace_all\<close> replaces one match, and does not panic.\<close>

definition applyV4AHunk :: "go_lib \<Rightarrow> nat \<Rightarrow> v4a_hunk \<Rightarrow> string \<Rightarrow> file_error + string" where
  "applyV4AHunk lib index hunk content =
     (let searchPattern = Join (hunk_search hunk) [CHR 0x0A]; replacement = Join (hunk_replace hunk) [CHR 0x0A];
          label = ''hunk '' @ itoa (int index + 1) in
      if \<not> hunk_changes hunk then Inr content
      else if hunk_search hunk = [] then
        (case insertV4AText lib content replacement (hk_contextHint hunk) of Inl e \<Rightarrow> Inl (At label (Msg e)) | Inr updated \<Rightarrow> Inr updated)
      else if searchPattern = replacement then Inr content
      else case fuzzyFindAndReplace lib content searchPattern replacement False of
        Replaced updated n _ \<Rightarrow> if n = 0 then Inl (Msg (label @ '' '' @ quote lib (hk_contextHint hunk) @ '' made no change'')) else Inr updated
      | Match_error e \<Rightarrow>
          if patchAlreadyApplied content searchPattern replacement then Inr content
          else Inl (At (label @ '' '' @ quote lib (hk_contextHint hunk) @ '' could not be applied'') (Msg e))
      | Slice_panic \<Rightarrow> Inl (Msg ''panic''))"

fun apply_hunks :: "go_lib \<Rightarrow> nat \<Rightarrow> v4a_hunk list \<Rightarrow> string \<Rightarrow> nat \<Rightarrow> file_error + string \<times> nat" where
  "apply_hunks lib index [] content changes = Inr (content, changes)"
| "apply_hunks lib index (h # hs) content changes =
     (case applyV4AHunk lib index h content of Inl e \<Rightarrow> Inl e
      | Inr updated \<Rightarrow> apply_hunks lib (index + 1) hs updated (if hunk_changes h then changes + 1 else changes))"

definition applyV4AHunks :: "go_lib \<Rightarrow> string \<Rightarrow> v4a_hunk list \<Rightarrow> file_error + string \<times> nat" where
  "applyV4AHunks lib content hunks = apply_hunks lib 0 hunks content 0"

definition added_text :: "v4a_operation \<Rightarrow> string" where
  "added_text operation = Join (map hl_content (filter (\<lambda>l. hl_prefix l = CHR ''+'') (concat (map hk_lines (vo_hunks operation))))) [CHR 0x0A]"

text \<open>One operation: the states after it, and the number of changes it counts.\<close>

definition simulate_op :: "go_lib \<Rightarrow> fs_env \<Rightarrow> v4a_operation \<Rightarrow> v4a_states \<Rightarrow> fs_state \<Rightarrow> (file_error + v4a_states \<times> nat) \<times> fs_state" where
  "simulate_op lib env operation states st =
     (case load env (vo_path operation) states st of
        (Inl e, st) \<Rightarrow> (Inl (At (vo_rawPath operation) e), st)
      | (Inr (state, states), st) \<Rightarrow>
          (case vo_kind operation of
             V4A_add \<Rightarrow>
               if vs_exists state then (Inl (Msg (vo_rawPath operation @ '': file already exists'')), st)
               else (Inr (put_state (vo_path operation) (state\<lparr>vs_exists := True, vs_content := added_text operation\<rparr>) states, 1), st)
           | V4A_delete \<Rightarrow>
               if \<not> vs_exists state then (Inl (Msg (vo_rawPath operation @ '': file not found for deletion'')), st)
               else (Inr (put_state (vo_path operation) (state\<lparr>vs_exists := False, vs_content := []\<rparr>) states, 1), st)
           | V4A_move \<Rightarrow>
               (case load env (vo_newPath operation) states st of
                  (Inl e, st) \<Rightarrow> (Inl (At (vo_rawNewPath operation) e), st)
                | (Inr (destination, states), st) \<Rightarrow>
                    if \<not> vs_exists state then (Inl (Msg (vo_rawPath operation @ '': source file not found for move'')), st)
                    else if vs_exists destination then (Inl (Msg (vo_rawNewPath operation @ '': move destination already exists'')), st)
                    else (Inr (put_state (vo_path operation) (state\<lparr>vs_exists := False, vs_content := []\<rparr>)
                                (put_state (vo_newPath operation) (destination\<lparr>vs_exists := True, vs_content := vs_content state, vs_mode := vs_mode state\<rparr>) states), 1), st))
           | V4A_update \<Rightarrow>
               if \<not> vs_exists state then (Inl (Msg (vo_rawPath operation @ '': file not found for update'')), st)
               else (case applyV4AHunks lib (vs_content state) (vo_hunks operation) of
                  Inl e \<Rightarrow> (Inl (At (vo_rawPath operation) e), st)
                | Inr (updated, changes) \<Rightarrow> (Inr (put_state (vo_path operation) (state\<lparr>vs_content := updated\<rparr>) states, changes), st))))"

fun simulate_ops :: "go_lib \<Rightarrow> fs_env \<Rightarrow> v4a_operation list \<Rightarrow> v4a_states \<Rightarrow> nat \<Rightarrow> fs_state \<Rightarrow> (file_error + v4a_states \<times> nat) \<times> fs_state" where
  "simulate_ops lib env [] states realChanges st = (Inr (states, realChanges), st)"
| "simulate_ops lib env (operation # rest) states realChanges st =
     (case simulate_op lib env operation states st of
        (Inl e, st) \<Rightarrow> (Inl e, st)
      | (Inr (states, changes), st) \<Rightarrow> simulate_ops lib env rest states (realChanges + changes) st)"

definition simulateV4AOperations :: "go_lib \<Rightarrow> fs_env \<Rightarrow> v4a_operation list \<Rightarrow> fs_state \<Rightarrow> (file_error + v4a_states) \<times> fs_state" where
  "simulateV4AOperations lib env operations st =
     (case simulate_ops lib env operations [] 0 st of
        (Inl e, st) \<Rightarrow> (Inl e, st)
      | (Inr (states, realChanges), st) \<Rightarrow> if realChanges = 0 then (Inl (Msg ''patch contains no changes''), st) else (Inr states, st))"

section \<open>Writing and rolling back\<close>

definition sorted_paths :: "v4a_states \<Rightarrow> string list" where
  "sorted_paths states = sort (map fst states)"

definition state_of :: "v4a_states \<Rightarrow> string \<Rightarrow> v4a_file_state" where
  "state_of states path = the (map_of states path)"

definition file_mode :: "nat \<Rightarrow> nat" where
  "file_mode mode = (if mode = 0 then 420 else mode)"

fun restore_files :: "fs_env \<Rightarrow> v4a_states \<Rightarrow> string list \<Rightarrow> fs_state \<Rightarrow> file_error list \<times> fs_state" where
  "restore_files env states [] st = ([], st)"
| "restore_files env states (path # paths) st =
     (let state = state_of states path in
      if \<not> vs_originalExists state then restore_files env states paths st
      else case MkdirAll env (Dir path) st of
        (Inl e, st) \<Rightarrow> (case restore_files env states paths st of (es, st) \<Rightarrow> (At (''restore directory for '' @ path) (Sys e) # es, st))
      | (Inr _, st) \<Rightarrow>
          (case atomicWriteFile env path (vs_originalContent state) (file_mode (vs_mode state)) st of
             (Inl e, st) \<Rightarrow> (case restore_files env states paths st of (es, st) \<Rightarrow> (At (''restore '' @ path) (Sys e) # es, st))
           | (Inr _, st) \<Rightarrow> restore_files env states paths st))"

fun remove_created :: "fs_env \<Rightarrow> v4a_states \<Rightarrow> string list \<Rightarrow> fs_state \<Rightarrow> file_error list \<times> fs_state" where
  "remove_created env states [] st = ([], st)"
| "remove_created env states (path # paths) st =
     (if vs_originalExists (state_of states path) then remove_created env states paths st
      else case Remove env path st of
        (Inr _, st) \<Rightarrow> remove_created env states paths st
      | (Inl e, st) \<Rightarrow>
          (case remove_created env states paths st of (es, st) \<Rightarrow>
             ((if e = Not_exist \<or> e = Not_dir then es else At (''remove newly created '' @ path) (Sys e) # es), st)))"

definition rollbackV4AStates :: "fs_env \<Rightarrow> v4a_states \<Rightarrow> file_error \<Rightarrow> fs_state \<Rightarrow> file_error \<times> fs_state" where
  "rollbackV4AStates env states applyErr st =
     (case restore_files env states (sorted_paths states) st of (es1, st) \<Rightarrow>
      case remove_created env states (rev (sorted_paths states)) st of (es2, st) \<Rightarrow>
        ((if es1 @ es2 \<noteq> [] then Rollback_failed applyErr (es1 @ es2) else Rolled_back applyErr), st))"

fun write_files :: "fs_env \<Rightarrow> v4a_states \<Rightarrow> string list \<Rightarrow> fs_state \<Rightarrow> (os_error + unit) \<times> fs_state" where
  "write_files env states [] st = (Inr (), st)"
| "write_files env states (path # paths) st =
     (let state = state_of states path in
      if \<not> vs_exists state \<or> vs_originalExists state \<and> vs_originalContent state = vs_content state then write_files env states paths st
      else io_then (MkdirAll env (Dir path) st) (\<lambda>_ st.
           io_then (atomicWriteFile env path (vs_content state) (file_mode (vs_mode state)) st) (\<lambda>_ st.
           write_files env states paths st)))"

fun remove_files :: "fs_env \<Rightarrow> v4a_states \<Rightarrow> string list \<Rightarrow> fs_state \<Rightarrow> (os_error + unit) \<times> fs_state" where
  "remove_files env states [] st = (Inr (), st)"
| "remove_files env states (path # paths) st =
     (let state = state_of states path in
      if vs_exists state \<or> \<not> vs_originalExists state then remove_files env states paths st
      else case Remove env path st of
        (Inl e, st) \<Rightarrow> if e = Not_exist then remove_files env states paths st else (Inl e, st)
      | (Inr _, st) \<Rightarrow> remove_files env states paths st)"

definition applyV4AStates :: "fs_env \<Rightarrow> v4a_states \<Rightarrow> fs_state \<Rightarrow> (file_error + unit) \<times> fs_state" where
  "applyV4AStates env states st =
     (case io_then (write_files env states (sorted_paths states) st) (\<lambda>_ st. remove_files env states (sorted_paths states) st) of
        (Inl e, st) \<Rightarrow> (case rollbackV4AStates env states (Sys e) st of (err, st) \<Rightarrow> (Inl err, st))
      | (Inr _, st) \<Rightarrow> (Inr (), st))"

section \<open>Expected hashes\<close>

record patch_input =
  pi_Path :: string
  pi_Mode :: string
  pi_OldString :: string
  pi_NewString :: string
  pi_ReplaceAll :: bool
  pi_Patch :: string
  pi_ExpectedSHA256 :: string
  pi_ExpectedSHA256ByPath :: "(string \<times> string) list"

text \<open>The call's workspace, the answers about links, and the environment of the file system.\<close>

record file_ctx =
  fc_lib :: go_lib
  fc_view :: fs_view
  fc_env :: fs_env
  fc_workspace :: workspace_context
  fc_emits :: bool

abbreviation ws_path :: "file_ctx \<Rightarrow> string \<Rightarrow> string + string" where
  "ws_path rc raw \<equiv> workspacePath (fc_lib rc) (fc_view rc) (Some (fc_workspace rc)) raw"

fun expected_hashes :: "file_ctx \<Rightarrow> v4a_states \<Rightarrow> (string \<times> string) list \<Rightarrow> (string \<Rightarrow> string option) \<Rightarrow> file_error + (string \<Rightarrow> string option)" where
  "expected_hashes rc states [] expected = Inr expected"
| "expected_hashes rc states ((rawPath, hash) # rest) expected =
     (case ws_path rc rawPath of
        Inl e \<Rightarrow> Inl (At (''unsafe expected_sha256_by_path entry '' @ quote (fc_lib rc) rawPath) (Msg e))
      | Inr path \<Rightarrow>
          if TrimSpace hash = [] then Inl (Msg (''expected SHA-256 is empty for '' @ quote (fc_lib rc) rawPath))
          else if path \<notin> set (map fst states) then Inl (Msg (''expected SHA-256 path '' @ quote (fc_lib rc) rawPath @ '' is not modified by the patch''))
          else expected_hashes rc states rest (expected(path := Some hash)))"

definition changed :: "v4a_file_state \<Rightarrow> bool" where
  "changed s \<longleftrightarrow> \<not> (vs_originalExists s = vs_exists s \<and> vs_originalContent s = vs_content s)"

definition changed_existing :: "file_ctx \<Rightarrow> v4a_states \<Rightarrow> string list" where
  "changed_existing rc states =
     filter (\<lambda>p. vs_originalExists (state_of states p) \<and> changed (state_of states p)) (range_order (fc_env rc) (map fst states))"

definition hash_error :: "file_ctx \<Rightarrow> v4a_states \<Rightarrow> (string \<Rightarrow> string option) \<Rightarrow> string \<Rightarrow> file_error option" where
  "hash_error rc states expected path =
     (case expected path of
        None \<Rightarrow> if ws_Kind (fc_workspace rc) = ''shared''
          then Some (Msg (''expected SHA-256 is required for shared workspace file '' @
                 quote (fc_lib rc) (case Rel (ws_WorkspacePath (fc_workspace rc)) path of Some r \<Rightarrow> r | None \<Rightarrow> [])))
          else None
      | Some hash \<Rightarrow>
          if \<not> EqualFold (fc_lib rc) (TrimSpace hash) (fileHash (fc_lib rc) (vs_originalContent (state_of states path)))
          then Some (Msg (''file '' @ quote (fc_lib rc) path @ '' changed since expected SHA-256'')) else None)"

definition validateV4AExpectedHashes :: "file_ctx \<Rightarrow> patch_input \<Rightarrow> v4a_states \<Rightarrow> file_error option" where
  "validateV4AExpectedHashes rc inp states =
     (case expected_hashes rc states (pi_ExpectedSHA256ByPath inp) Map.empty of
        Inl e \<Rightarrow> Some e
      | Inr expected \<Rightarrow>
          let existing = changed_existing rc states; single = TrimSpace (pi_ExpectedSHA256 inp) \<noteq> [] in
          if single \<and> length existing \<noteq> 1
          then Some (Msg ''expected_sha256 requires exactly one modified existing file; use expected_sha256_by_path for multi-file patches'')
          else let expected = (if single then expected(hd existing := Some (pi_ExpectedSHA256 inp)) else expected) in
            (case List.map_filter (hash_error rc states expected) existing of [] \<Rightarrow> None | e # _ \<Rightarrow> Some e))"

section \<open>The operation\<close>

text \<open>\<^verbatim>\<open>emitWorkspaceMutation\<close>: the workspace becomes dirty and, with a publisher, an event is emitted.\<close>

definition mutation_event :: "workspace_context \<Rightarrow> json \<Rightarrow> json" where
  "mutation_event w payload =
     JObj [(''workspace_id'', JNum (of_int (ws_ID w))), (''project_id'', JNum (of_int (ws_ProjectID w))), (''run_id'', JNum (of_int (ws_RunID w))),
       (''kind'', JStr (ws_Kind w)), (''repository_root'', JStr (ws_RepositoryRoot w)), (''workspace_path'', JStr (ws_WorkspacePath w)),
       (''branch_name'', JStr (ws_BranchName w)), (''base_sha'', JStr (ws_BaseSHA w)), (''head_sha'', JStr (ws_HeadSHA w)),
       (''dirty'', JBool True), (''has_unpushed_commits'', JBool (ws_HasUnpushedCommits w)), (''status'', JStr ''ready''),
       (''error_message'', JStr []), (''mutation'', payload)]"

definition emitWorkspaceMutation :: "file_ctx \<Rightarrow> json \<Rightarrow> fs_state \<Rightarrow> fs_state" where
  "emitWorkspaceMutation rc payload st =
     (let st = st\<lparr>fs_dirty := True\<rparr> in
      if fc_emits rc then st\<lparr>fs_events := fs_events st @ [mutation_event (fc_workspace rc) payload]\<rparr> else st)"

definition ResultFromValue :: "go_lib \<Rightarrow> json \<Rightarrow> file_error + json" where
  "ResultFromValue lib v = (case marshal lib v of None \<Rightarrow> Inl (Msg ''json: unsupported value'') | Some _ \<Rightarrow> Inr v)"

fun resolve_paths :: "file_ctx \<Rightarrow> v4a_operation list \<Rightarrow> file_error + v4a_operation list" where
  "resolve_paths rc [] = Inr []"
| "resolve_paths rc (operation # rest) =
     (case ws_path rc (vo_rawPath operation) of
        Inl e \<Rightarrow> Inl (At (''unsafe V4A path '' @ quote (fc_lib rc) (vo_rawPath operation)) (Msg e))
      | Inr path \<Rightarrow>
          (case (if vo_kind operation \<noteq> V4A_move then Inr (operation\<lparr>vo_path := path\<rparr>)
                 else case ws_path rc (vo_rawNewPath operation) of
                   Inl e \<Rightarrow> Inl (At (''unsafe V4A move destination '' @ quote (fc_lib rc) (vo_rawNewPath operation)) (Msg e))
                 | Inr newPath \<Rightarrow> if path = newPath then Inl (Msg ''V4A move source and destination are the same path'')
                                else Inr (operation\<lparr>vo_path := path, vo_newPath := newPath\<rparr>)) of
             Inl e \<Rightarrow> Inl e
           | Inr operation \<Rightarrow> (case resolve_paths rc rest of Inl e \<Rightarrow> Inl e | Inr rest \<Rightarrow> Inr (operation # rest))))"

definition operation_paths :: "v4a_operation list \<Rightarrow> string list" where
  "operation_paths operations = concat (map (\<lambda>op. vo_path op # (if vo_kind op = V4A_move then [vo_newPath op] else [])) operations)"

fun acquire_all :: "fs_env \<Rightarrow> string list \<Rightarrow> string list \<Rightarrow> fs_state \<Rightarrow> (os_error + unit) \<times> fs_state" where
  "acquire_all env held [] st = (Inr (), st)"
| "acquire_all env held (path # paths) st =
     (case acquirePathLock env path st of
        (Inl e, st) \<Rightarrow> (Inl e, fold (release env) held st)
      | (Inr _, st) \<Rightarrow> acquire_all env (path # held) paths st)"

definition diff_file :: "go_lib \<Rightarrow> v4a_states \<Rightarrow> string \<Rightarrow> json" where
  "diff_file lib states path =
     (let s = state_of states path in
      JObj [(''path'', JStr path),
        (''kind'', JStr (if \<not> vs_originalExists s \<and> vs_exists s then ''created'' else if vs_originalExists s \<and> \<not> vs_exists s then ''deleted'' else ''modified'')),
        (''before_sha256'', JStr (if vs_originalExists s then fileHash lib (vs_originalContent s) else [])),
        (''after_sha256'', JStr (if vs_exists s then fileHash lib (vs_content s) else []))])"

definition patch_value :: "go_lib \<Rightarrow> v4a_states \<Rightarrow> json" where
  "patch_value lib states =
     (let paths = filter (\<lambda>p. changed (state_of states p)) (sorted_paths states);
          created = filter (\<lambda>p. \<not> vs_originalExists (state_of states p) \<and> vs_exists (state_of states p)) paths;
          deleted = filter (\<lambda>p. vs_originalExists (state_of states p) \<and> \<not> vs_exists (state_of states p)) paths;
          modified = filter (\<lambda>p. p \<notin> set created \<and> p \<notin> set deleted) paths
      in JObj [(''mode'', JStr ''patch''), (''files_modified'', JArr (map JStr modified)), (''files_created'', JArr (map JStr created)),
           (''files_deleted'', JArr (map JStr deleted)), (''diff'', JObj [(''kind'', JStr ''v4a''), (''files'', JArr (map (diff_file lib states) paths))])])"

definition patchV4A_locked :: "file_ctx \<Rightarrow> patch_input \<Rightarrow> v4a_operation list \<Rightarrow> fs_state \<Rightarrow> (file_error + json) \<times> fs_state" where
  "patchV4A_locked rc inp operations st =
     (case simulateV4AOperations (fc_lib rc) (fc_env rc) operations st of
        (Inl e, st) \<Rightarrow> (Inl (At ''patch validation failed (no files were modified)'' e), st)
      | (Inr states, st) \<Rightarrow>
          (case validateV4AExpectedHashes rc inp states of
             Some e \<Rightarrow> (Inl (At ''patch version validation failed (no files were modified)'' e), st)
           | None \<Rightarrow>
               (case applyV4AStates (fc_env rc) states st of
                  (Inl e, st) \<Rightarrow> (Inl (At ''patch apply failed'' e), st)
                | (Inr _, st) \<Rightarrow>
                    (let v = patch_value (fc_lib rc) states in
                     (ResultFromValue (fc_lib rc) v, emitWorkspaceMutation rc v st)))))"

definition patchV4A :: "file_ctx \<Rightarrow> patch_input \<Rightarrow> fs_state \<Rightarrow> (file_error + json) \<times> fs_state" where
  "patchV4A rc inp st =
     (if TrimSpace (pi_Patch inp) = [] then (Inl (Msg ''patch content is required for patch mode''), st)
      else case parseV4APatch (fc_lib rc) (pi_Patch inp) of Inl e \<Rightarrow> (Inl (Msg e), st)
      | Inr operations \<Rightarrow>
          (case resolve_paths rc operations of Inl e \<Rightarrow> (Inl e, st)
           | Inr operations \<Rightarrow>
               let paths = sort (remdups (operation_paths operations)) in
               (case acquire_all (fc_env rc) [] paths st of
                  (Inl e, st) \<Rightarrow> (Inl (Sys e), st)
                | (Inr _, st) \<Rightarrow>
                    (case patchV4A_locked rc inp operations st of (r, st) \<Rightarrow> (r, fold (release (fc_env rc)) (rev paths) st)))))"

end
