(* ===== verification/File_Tools.thy ===== *)
theory File_Tools
  imports Patch_V4A
begin

text \<open>
  The file tools of a workspace (\<^verbatim>\<open>toolruntime/filesystem_tools.go\<close> and \<^verbatim>\<open>filesystem_patch.go\<close>): reading a page of
  lines, listing, searching with path globs, writing, patching, moving and deleting. Reading, writing
  and removing go through the file system with faults; a directory walk is a walk of a tree. The decoders of the
  inputs and \<^verbatim>\<open>path.Match\<close> are arguments, and \<^verbatim>\<open>int\<close> arithmetic that can overflow wraps
  at 64 bits.
\<close>

section \<open>Inputs\<close>

record read_input =
  ri_Path :: string
  ri_Offset :: int
  ri_Limit :: int

record search_input =
  si_Pattern :: string
  si_Path :: string
  si_MaxResults :: int
  si_MaxOutputBytes :: int

record list_input =
  li_Path :: string
  li_MaxResults :: int

record write_input =
  wi_Path :: string
  wi_Content :: string
  wi_ExpectedSHA256 :: string

record move_input =
  mi_From :: string
  mi_To :: string
  mi_ExpectedSHA256 :: string

record delete_input =
  di_Path :: string
  di_ExpectedSHA256 :: string

text \<open>\<^verbatim>\<open>json.Unmarshal\<close> of the arguments into the input of each tool.\<close>

record file_decoders =
  dec_read :: "string \<Rightarrow> string + read_input"
  dec_search :: "string \<Rightarrow> string + search_input"
  dec_list :: "string \<Rightarrow> string + list_input"
  dec_write :: "string \<Rightarrow> string + write_input"
  dec_patch :: "string \<Rightarrow> string + patch_input"
  dec_move :: "string \<Rightarrow> string + move_input"
  dec_delete :: "string \<Rightarrow> string + delete_input"

record file_tool =
  ft_Kind :: string
  ft_MaxReadChars :: int
  ft_MaxOutputBytes :: int

section \<open>Reading\<close>

definition wrap64 :: "int \<Rightarrow> int" where
  "wrap64 i = (i + 2 ^ 63) mod 2 ^ 64 - 2 ^ 63"

definition truncateCharacters :: "string \<Rightarrow> int \<Rightarrow> string" where
  "truncateCharacters s n =
     (if n \<le> 0 then [] else if int (RuneCount s) \<le> n then s else concat (take (nat n) (runes s)))"

definition readLimit :: "file_tool \<Rightarrow> int" where
  "readLimit t = (if ft_MaxReadChars t \<le> 0 then 100000 else ft_MaxReadChars t)"

definition numbered_line :: "nat \<Rightarrow> string \<Rightarrow> string" where
  "numbered_line i l = itoa (int i + 1) @ ''|'' @ l"

text \<open>The loop over the lines of a page: the text so far, its characters and the next line; the result is the text, the
  next line, and whether the budget cut the page and a line of it.\<close>

fun read_lines :: "int \<Rightarrow> nat \<Rightarrow> string list \<Rightarrow> string \<Rightarrow> int \<Rightarrow> string \<times> nat \<times> bool \<times> bool" where
  "read_lines budget i [] b characters = (b, i, False, False)"
| "read_lines budget i (l # ls) b characters =
     (let line = numbered_line i l; separator = (if b \<noteq> [] then 1 else 0); lineCharacters = int (RuneCount line);
          nl = (if b \<noteq> [] then [CHR 0x0A] else []) in
      if characters + lineCharacters + separator > budget then
        (let remaining = budget - characters - separator in
         if remaining > 0 then (b @ nl @ truncateCharacters line remaining, i + 1, True, True) else (b, i, True, False))
      else read_lines budget (i + 1) ls (b @ nl @ line) (characters + lineCharacters + separator))"

record read_page =
  pg_content :: string
  pg_total_lines :: nat
  pg_truncated :: bool
  pg_next_offset :: "nat option"
  pg_truncated_by :: string
  pg_partial :: bool

definition page_bounds :: "int \<Rightarrow> int \<Rightarrow> nat \<Rightarrow> nat \<times> int" where
  "page_bounds offset limit n =
     (let offset = (if offset \<le> 0 then 1 else offset); limit = (if limit \<le> 0 then 2000 else limit);
          start = (if offset - 1 > int n then int n else offset - 1);
          stop = wrap64 (start + limit) in
      (nat start, if stop > int n then int n else stop))"

definition read_page_of :: "file_tool \<Rightarrow> read_input \<Rightarrow> string \<Rightarrow> read_page" where
  "read_page_of t inp data =
     (let lines = Split_nl (ReplaceAll data [CHR 0x0D, CHR 0x0A] [CHR 0x0A]); n = length lines;
          (start, stop) = page_bounds (ri_Offset inp) (ri_Limit inp) n;
          (content, nextLine, contentTruncated, partialLine) = read_lines (readLimit t) start (take (nat (stop - int start)) (drop start lines)) [] 0;
          truncated = (contentTruncated \<or> nextLine < n)
      in \<lparr>pg_content = content, pg_total_lines = n, pg_truncated = truncated, pg_next_offset = (if truncated then Some (nextLine + 1) else None),
           pg_truncated_by = (if \<not> truncated then [] else if contentTruncated then ''characters'' else ''lines''), pg_partial = partialLine\<rparr>)"

definition page_hint :: "file_tool \<Rightarrow> read_page \<Rightarrow> string" where
  "page_hint t pg =
     (let next = itoa (int (the (pg_next_offset pg))) in
      if pg_truncated_by pg = ''characters''
      then ''Output truncated at the '' @ itoa (readLimit t) @ ''-character read budget. Use offset='' @ next @ '' to continue reading'' @
           (if pg_partial pg then ''. The last displayed line was clamped mid-line; its remainder is not retrievable with the line-based offset'' else [])
      else ''Line limit reached. Use offset='' @ next @ '' to continue reading'')"

definition page_value :: "go_lib \<Rightarrow> file_tool \<Rightarrow> string \<Rightarrow> string \<Rightarrow> read_page \<Rightarrow> json" where
  "page_value lib t path data pg =
     JObj ([(''path'', JStr path), (''content'', JStr (pg_content pg)), (''total_lines'', JNum (of_nat (pg_total_lines pg))),
            (''sha256'', JStr (fileHash lib data)), (''truncated'', JBool (pg_truncated pg))] @
       (if pg_truncated pg then
          [(''next_offset'', JNum (of_nat (the (pg_next_offset pg)))), (''truncated_by'', JStr (pg_truncated_by pg)), (''hint'', JStr (page_hint t pg))]
        else []))"

definition file_read :: "file_ctx \<Rightarrow> file_tool \<Rightarrow> read_input \<Rightarrow> fs_state \<Rightarrow> (file_error + json) \<times> fs_state" where
  "file_read rc t inp st =
     (case ws_path rc (ri_Path inp) of Inl e \<Rightarrow> (Inl (Msg e), st)
      | Inr path \<Rightarrow>
          (case ReadFile (fc_env rc) path st of (Inl e, st) \<Rightarrow> (Inl (Sys e), st)
           | (Inr data, st) \<Rightarrow>
               if \<not> Valid_utf8 data then (Inl (Msg ''file is not valid UTF-8''), st)
               else (ResultFromValue (fc_lib rc) (page_value (fc_lib rc) t path data (read_page_of t inp data)), st)))"

section \<open>Writing, patching, moving, deleting\<close>

definition shared :: "file_ctx \<Rightarrow> bool" where
  "shared rc \<longleftrightarrow> ws_Kind (fc_workspace rc) = ''shared''"

definition perm_of :: "os_error + nat \<Rightarrow> nat" where
  "perm_of m = (case m of Inr mode \<Rightarrow> mode | Inl _ \<Rightarrow> 420)"

definition with_lock :: "file_ctx \<Rightarrow> string \<Rightarrow> (fs_state \<Rightarrow> (file_error + json) \<times> fs_state) \<Rightarrow> fs_state \<Rightarrow> (file_error + json) \<times> fs_state" where
  "with_lock rc path body st =
     (case acquirePathLock (fc_env rc) path st of (Inl e, st) \<Rightarrow> (Inl (Sys e), st)
      | (Inr _, st) \<Rightarrow> (case body st of (r, st) \<Rightarrow> (r, release (fc_env rc) path st)))"

definition write_value :: "go_lib \<Rightarrow> string \<Rightarrow> string option \<Rightarrow> string \<Rightarrow> json" where
  "write_value lib path old content =
     (let beforeHash = (case old of Some data \<Rightarrow> fileHash lib data | None \<Rightarrow> []); afterHash = fileHash lib content in
      JObj [(''path'', JStr path), (''created'', JBool (old = None)), (''before_sha256'', JStr beforeHash), (''after_sha256'', JStr afterHash),
        (''bytes'', JNum (of_nat (length content))), (''diff'', JObj [(''kind'', JStr ''file_write''), (''changed'', JBool (beforeHash \<noteq> afterHash))])])"

definition write_locked :: "file_ctx \<Rightarrow> string \<Rightarrow> write_input \<Rightarrow> fs_state \<Rightarrow> (file_error + json) \<times> fs_state" where
  "write_locked rc path inp st =
     (case ReadFile (fc_env rc) path st of (readResult, st) \<Rightarrow>
        let old = (case readResult of Inr data \<Rightarrow> Some data | Inl _ \<Rightarrow> None) in
        if (case readResult of Inl e \<Rightarrow> e \<noteq> Not_exist | Inr _ \<Rightarrow> False) then (Inl (Sys (projl readResult)), st)
        else if (case old of Some data \<Rightarrow> \<not> Valid_utf8 data | None \<Rightarrow> False) then (Inl (Msg ''file is not valid UTF-8''), st)
        else if old \<noteq> None \<and> shared rc \<and> TrimSpace (wi_ExpectedSHA256 inp) = []
          then (Inl (Msg ''expected_sha256 is required when overwriting a file in a shared workspace''), st)
        else if wi_ExpectedSHA256 inp \<noteq> [] \<and>
            (case old of None \<Rightarrow> True | Some data \<Rightarrow> \<not> EqualFold (fc_lib rc) (wi_ExpectedSHA256 inp) (fileHash (fc_lib rc) data))
          then (Inl (Msg ''file changed since expected_sha256''), st)
        else case MkdirAll (fc_env rc) (Dir path) st of (Inl e, st) \<Rightarrow> (Inl (Sys e), st)
        | (Inr _, st) \<Rightarrow>
            (case Stat_mode (fc_env rc) path st of (m, st) \<Rightarrow>
               (case atomicWriteFile (fc_env rc) path (wi_Content inp) (perm_of m) st of (Inl e, st) \<Rightarrow> (Inl (Sys e), st)
                | (Inr _, st) \<Rightarrow>
                    (let v = write_value (fc_lib rc) path old (wi_Content inp) in (ResultFromValue (fc_lib rc) v, emitWorkspaceMutation rc v st)))))"

definition file_put :: "file_ctx \<Rightarrow> write_input \<Rightarrow> fs_state \<Rightarrow> (file_error + json) \<times> fs_state" where
  "file_put rc inp st =
     (case ws_path rc (wi_Path inp) of Inl e \<Rightarrow> (Inl (Msg e), st) | Inr path \<Rightarrow> with_lock rc path (write_locked rc path inp) st)"

text \<open>The guard of the operations on an existing file: the version the caller has seen.\<close>

definition version_error :: "file_ctx \<Rightarrow> string \<Rightarrow> string \<Rightarrow> string \<Rightarrow> file_error option" where
  "version_error rc verb expected data =
     (if shared rc \<and> TrimSpace expected = [] then Some (Msg (''expected_sha256 is required when '' @ verb @ '' a file in a shared workspace''))
      else if expected \<noteq> [] \<and> \<not> EqualFold (fc_lib rc) expected (fileHash (fc_lib rc) data) then Some (Msg ''file changed since expected_sha256'')
      else None)"

definition applied_value :: "go_lib \<Rightarrow> string \<Rightarrow> string \<Rightarrow> json" where
  "applied_value lib path data =
     JObj [(''path'', JStr path), (''replacements'', JNum 0), (''already_applied'', JBool True), (''before_sha256'', JStr (fileHash lib data)),
       (''after_sha256'', JStr (fileHash lib data)), (''diff'', JObj [(''kind'', JStr ''patch''), (''strategy'', JStr ''already_applied'')])]"

definition replace_value :: "go_lib \<Rightarrow> string \<Rightarrow> string \<Rightarrow> string \<Rightarrow> nat \<Rightarrow> string \<Rightarrow> json" where
  "replace_value lib path old patched n name =
     JObj [(''path'', JStr path), (''replacements'', JNum (of_nat n)), (''strategy'', JStr name), (''before_sha256'', JStr (fileHash lib old)),
       (''after_sha256'', JStr (fileHash lib patched)),
       (''diff'', JObj [(''kind'', JStr ''patch''), (''replacements'', JNum (of_nat n)), (''strategy'', JStr name)])]"

text \<open>A panic of the replacement leaves the call; the state is the one before it, with the lock released by the deferred
  function. It is the error \<^verbatim>\<open>panic\<close> here.\<close>

definition replace_locked :: "file_ctx \<Rightarrow> string \<Rightarrow> patch_input \<Rightarrow> fs_state \<Rightarrow> (file_error + json) \<times> fs_state" where
  "replace_locked rc path inp st =
     (case ReadFile (fc_env rc) path st of (Inl e, st) \<Rightarrow> (Inl (Sys e), st)
      | (Inr old, st) \<Rightarrow>
          if \<not> Valid_utf8 old then (Inl (Msg ''file is not valid UTF-8''), st)
          else case version_error rc ''patching'' (pi_ExpectedSHA256 inp) old of Some e \<Rightarrow> (Inl e, st)
          | None \<Rightarrow>
              (case fuzzyFindAndReplace (fc_lib rc) old (pi_OldString inp) (pi_NewString inp) (pi_ReplaceAll inp) of
                 Slice_panic \<Rightarrow> (Inl (Msg ''panic''), st)
               | Match_error e \<Rightarrow>
                   if patchAlreadyApplied old (pi_OldString inp) (pi_NewString inp) then (ResultFromValue (fc_lib rc) (applied_value (fc_lib rc) path old), st)
                   else (Inl (Retry (Msg e)), st)
               | Replaced patched n name \<Rightarrow>
                   (case Stat_mode (fc_env rc) path st of (m, st) \<Rightarrow>
                      (case atomicWriteFile (fc_env rc) path patched (perm_of m) st of (Inl e, st) \<Rightarrow> (Inl (Sys e), st)
                       | (Inr _, st) \<Rightarrow>
                           (let v = replace_value (fc_lib rc) path old patched n name in (ResultFromValue (fc_lib rc) v, emitWorkspaceMutation rc v st))))))"

definition patchReplace :: "file_ctx \<Rightarrow> patch_input \<Rightarrow> fs_state \<Rightarrow> (file_error + json) \<times> fs_state" where
  "patchReplace rc inp st =
     (if TrimSpace (pi_Path inp) = [] then (Inl (Msg ''path is required for replace mode''), st)
      else case ws_path rc (pi_Path inp) of Inl e \<Rightarrow> (Inl (Msg e), st) | Inr path \<Rightarrow> with_lock rc path (replace_locked rc path inp) st)"

definition file_patch :: "file_ctx \<Rightarrow> patch_input \<Rightarrow> fs_state \<Rightarrow> (file_error + json) \<times> fs_state" where
  "file_patch rc inp st =
     (let mode = (if TrimSpace (pi_Mode inp) = [] then ''replace'' else TrimSpace (pi_Mode inp)) in
      if mode = ''patch'' then patchV4A rc inp st
      else if mode \<noteq> ''replace'' then (Inl (Msg (''unknown patch mode '' @ quote (fc_lib rc) mode)), st)
      else patchReplace rc inp st)"

definition move_locked :: "file_ctx \<Rightarrow> string \<Rightarrow> string \<Rightarrow> string \<Rightarrow> fs_state \<Rightarrow> (file_error + json) \<times> fs_state" where
  "move_locked rc from dest expected st =
     (case Stat_mode (fc_env rc) dest st of
        (Inr _, st) \<Rightarrow> (Inl (Msg ''destination already exists''), st)
      | (Inl e, st) \<Rightarrow>
          if e \<noteq> Not_exist then (Inl (Sys e), st)
          else case ReadFile (fc_env rc) from st of (Inl e, st) \<Rightarrow> (Inl (Sys e), st)
          | (Inr old, st) \<Rightarrow>
              (case version_error rc ''moving'' expected old of Some e \<Rightarrow> (Inl e, st)
               | None \<Rightarrow>
                   (case MkdirAll (fc_env rc) (Dir dest) st of (Inl e, st) \<Rightarrow> (Inl (Sys e), st)
                    | (Inr _, st) \<Rightarrow>
                        (case Rename (fc_env rc) from dest st of (Inl e, st) \<Rightarrow> (Inl (Sys e), st)
                         | (Inr _, st) \<Rightarrow>
                             (let hash = fileHash (fc_lib rc) old;
                                  v = JObj [(''from'', JStr from), (''to'', JStr dest), (''before_sha256'', JStr hash), (''after_sha256'', JStr hash),
                                    (''diff'', JObj [(''kind'', JStr ''move'')])]
                              in (ResultFromValue (fc_lib rc) v, emitWorkspaceMutation rc v st))))))"

definition file_move :: "file_ctx \<Rightarrow> move_input \<Rightarrow> fs_state \<Rightarrow> (file_error + json) \<times> fs_state" where
  "file_move rc inp st =
     (case ws_path rc (mi_From inp) of Inl e \<Rightarrow> (Inl (Msg e), st)
      | Inr from \<Rightarrow>
          (case ws_path rc (mi_To inp) of Inl e \<Rightarrow> (Inl (Msg e), st)
           | Inr dest \<Rightarrow>
               if from = dest then (Inl (Msg ''source and destination are the same path''), st)
               else let (firstPath, secondPath) = (if dest < from then (dest, from) else (from, dest)) in
                 with_lock rc firstPath (with_lock rc secondPath (move_locked rc from dest (mi_ExpectedSHA256 inp))) st))"

definition delete_locked :: "file_ctx \<Rightarrow> string \<Rightarrow> string \<Rightarrow> fs_state \<Rightarrow> (file_error + json) \<times> fs_state" where
  "delete_locked rc path expected st =
     (case ReadFile (fc_env rc) path st of (Inl e, st) \<Rightarrow> (Inl (Sys e), st)
      | (Inr old, st) \<Rightarrow>
          (case version_error rc ''deleting'' expected old of Some e \<Rightarrow> (Inl e, st)
           | None \<Rightarrow>
               (case Remove (fc_env rc) path st of (Inl e, st) \<Rightarrow> (Inl (Sys e), st)
                | (Inr _, st) \<Rightarrow>
                    (let v = JObj [(''path'', JStr path), (''deleted'', JBool True), (''before_sha256'', JStr (fileHash (fc_lib rc) old)),
                           (''after_sha256'', JStr []), (''diff'', JObj [(''kind'', JStr ''delete'')])]
                     in (ResultFromValue (fc_lib rc) v, emitWorkspaceMutation rc v st)))))"

definition file_delete :: "file_ctx \<Rightarrow> delete_input \<Rightarrow> fs_state \<Rightarrow> (file_error + json) \<times> fs_state" where
  "file_delete rc inp st =
     (case ws_path rc (di_Path inp) of Inl e \<Rightarrow> (Inl (Msg e), st)
      | Inr path \<Rightarrow> with_lock rc path (delete_locked rc path (di_ExpectedSHA256 inp)) st)"

section \<open>Path globs\<close>

text \<open>\<^verbatim>\<open>matchPathGlob\<close>: the memoised search over positions in the segments of pattern and candidate. A key is
  entered before its search, with the value a lookup finds there.\<close>

type_synonym glob_memo = "nat \<times> nat \<Rightarrow> bool option"

function glob_match :: "(string \<Rightarrow> string \<Rightarrow> string + bool) \<Rightarrow> string list \<Rightarrow> string list \<Rightarrow> nat \<Rightarrow> nat \<Rightarrow> glob_memo \<Rightarrow> (string + bool) \<times> glob_memo" where
  "glob_match segment ps cs i j memo =
     (case memo (i, j) of Some b \<Rightarrow> (Inr b, memo)
      | None \<Rightarrow>
          let memo = memo((i, j) \<mapsto> False) in
          if length ps \<le> i then (Inr (j = length cs), memo((i, j) \<mapsto> (j = length cs)))
          else if ps ! i = ''**'' then
            (case glob_match segment ps cs (i + 1) j memo of
               (Inl e, memo) \<Rightarrow> (Inl e, memo((i, j) \<mapsto> False))
             | (Inr True, memo) \<Rightarrow> (Inr True, memo((i, j) \<mapsto> True))
             | (Inr False, memo) \<Rightarrow>
                 if j < length cs then
                   (case glob_match segment ps cs i (j + 1) memo of
                      (Inl e, memo) \<Rightarrow> (Inl e, memo((i, j) \<mapsto> False))
                    | (Inr b, memo) \<Rightarrow> (Inr b, memo((i, j) \<mapsto> b)))
                 else (Inr False, memo))
          else if length cs \<le> j then (Inr False, memo)
          else (case segment (ps ! i) (cs ! j) of
                  Inl e \<Rightarrow> (Inl e, memo)
                | Inr False \<Rightarrow> (Inr False, memo)
                | Inr True \<Rightarrow>
                    (case glob_match segment ps cs (i + 1) (j + 1) memo of
                       (Inl e, memo) \<Rightarrow> (Inl e, memo((i, j) \<mapsto> False))
                     | (Inr b, memo) \<Rightarrow> (Inr b, memo((i, j) \<mapsto> b)))))"
  by pat_completeness auto
termination
  by (relation "measure (\<lambda>(segment, ps, cs, i, j, memo). (length ps - i) + (length cs - j))") auto

declare glob_match.simps [simp del]

definition bad_segment :: "(string \<Rightarrow> string \<Rightarrow> string + bool) \<Rightarrow> string \<Rightarrow> string option" where
  "bad_segment segment s = (if s = ''**'' then None else case segment s [] of Inl e \<Rightarrow> Some e | Inr _ \<Rightarrow> None)"

definition matchPathGlob :: "(string \<Rightarrow> string \<Rightarrow> string + bool) \<Rightarrow> string \<Rightarrow> string \<Rightarrow> string + bool" where
  "matchPathGlob segment pattern candidate =
     (let patternParts = Split slash (trim_set ''/'' pattern);
          normalized = trim_set ''/'' candidate;
          candidateParts = (if normalized \<noteq> [] then Split slash normalized else [])
      in case List.map_filter (bad_segment segment) patternParts of
           e # _ \<Rightarrow> Inl e
         | [] \<Rightarrow> fst (glob_match segment patternParts candidateParts 0 0 (\<lambda>_. None)))"

section \<open>Walks\<close>

text \<open>A directory as \<^verbatim>\<open>filepath.WalkDir\<close> meets it, entries in the order of their names; an entry that cannot be
  visited has no contents.\<close>

datatype dir_tree = File_node | Dir_node "(string \<times> dir_tree) list" | Err_node

definition skipped_dir :: "string \<Rightarrow> bool" where
  "skipped_dir name \<longleftrightarrow> name \<in> {''.git'', ''.agentcanvas'', ''.worktrees''}"

text \<open>The files a walk visits, in order: the subtrees of skipped directories are left out, but for the root itself.\<close>

fun walk_files :: "string \<Rightarrow> dir_tree \<Rightarrow> string list" and walk_entries :: "string \<Rightarrow> (string \<times> dir_tree) list \<Rightarrow> string list" where
  "walk_files path File_node = [path]"
| "walk_files path Err_node = []"
| "walk_files path (Dir_node es) = walk_entries path es"
| "walk_entries path [] = []"
| "walk_entries path ((name, t) # es) =
     (if (case t of Dir_node _ \<Rightarrow> skipped_dir name | _ \<Rightarrow> False) then [] else walk_files (Join_path [path, name]) t) @ walk_entries path es"

text \<open>Shrinking a result until its encoding fits: the last entry is dropped again and again.\<close>

function shrink :: "go_lib \<Rightarrow> ('a list \<Rightarrow> bool \<Rightarrow> json) \<Rightarrow> int \<Rightarrow> 'a list \<Rightarrow> bool \<Rightarrow> 'a list \<times> bool" where
  "shrink lib val maxBytes xs truncated =
     (if xs = [] then (xs, truncated)
      else if int (length (case marshal lib (val xs truncated) of Some s \<Rightarrow> s | None \<Rightarrow> [])) \<le> maxBytes then (xs, truncated)
      else shrink lib val maxBytes (butlast xs) True)"
  by pat_completeness auto
termination
  by (relation "measure (\<lambda>(lib, val, maxBytes, xs, truncated). length xs)") auto

declare shrink.simps [simp del]

definition list_value :: "string list \<Rightarrow> bool \<Rightarrow> json" where
  "list_value paths truncated = JObj [(''files'', JArr (map JStr paths)), (''truncated'', JBool truncated)]"

definition rel_or_empty :: "string \<Rightarrow> string \<Rightarrow> string" where
  "rel_or_empty basepath p = (case Rel basepath p of Some r \<Rightarrow> r | None \<Rightarrow> [])"

definition file_list :: "file_ctx \<Rightarrow> file_tool \<Rightarrow> (string \<Rightarrow> dir_tree) \<Rightarrow> list_input \<Rightarrow> file_error + json" where
  "file_list rc t tree inp =
     (let top = ws_WorkspacePath (fc_workspace rc) in
      case (if li_Path inp = [] then Inr top else ws_path rc (li_Path inp)) of Inl e \<Rightarrow> Inl (Msg e)
      | Inr start \<Rightarrow>
          let most = (if li_MaxResults inp \<le> 0 \<or> 1000 < li_MaxResults inp then 200 else li_MaxResults inp);
              seen = filter (\<lambda>p. \<not> IsSensitivePath (fc_lib rc) (fc_view rc) top p) (walk_files start (tree start));
              paths = sort (map (rel_or_empty top) (take (nat most) seen));
              outputLimit = (if ft_MaxOutputBytes t \<le> 0 then 256 * 1024 else ft_MaxOutputBytes t);
              (paths, truncated) = shrink (fc_lib rc) list_value outputLimit paths (int (length paths) \<ge> most)
          in ResultFromValue (fc_lib rc) (list_value paths truncated))"

record search_match =
  sm_path :: string
  sm_line :: nat
  sm_text :: string

definition match_value :: "search_match \<Rightarrow> json" where
  "match_value m = JObj [(''path'', JStr (sm_path m)), (''line'', JNum (of_nat (sm_line m))), (''text'', JStr (sm_text m))]"

definition search_value :: "string \<Rightarrow> search_match list \<Rightarrow> bool \<Rightarrow> json" where
  "search_value pattern ms truncated = JObj [(''pattern'', JStr pattern), (''matches'', JArr (map match_value ms)), (''truncated'', JBool truncated)]"

definition line_matches :: "string \<Rightarrow> string \<Rightarrow> string \<Rightarrow> search_match list" where
  "line_matches path pattern data =
     (let lines = Split_nl (ReplaceAll data [CHR 0x0D, CHR 0x0A] [CHR 0x0A]) in
      map (\<lambda>(n, line). \<lparr>sm_path = path, sm_line = n + 1, sm_text = line\<rparr>) (filter (\<lambda>(n, line). Contains line pattern) (enumerate 0 lines)))"

text \<open>The walk of a search: it ends when the results are full; a file that is protected, outside the glob, not readable or not text
  is passed over.\<close>

fun search_files :: "file_ctx \<Rightarrow> (string \<Rightarrow> bool) \<Rightarrow> nat \<Rightarrow> string \<Rightarrow> string list \<Rightarrow> search_match list \<Rightarrow> fs_state \<Rightarrow> search_match list \<times> fs_state" where
  "search_files rc wanted most pattern [] matches st = (matches, st)"
| "search_files rc wanted most pattern (path # paths) matches st =
     (if most \<le> length matches then (matches, st)
      else if IsSensitivePath (fc_lib rc) (fc_view rc) (ws_WorkspacePath (fc_workspace rc)) path \<or> \<not> wanted path
        then search_files rc wanted most pattern paths matches st
      else case ReadFile (fc_env rc) path st of
        (Inl e, st) \<Rightarrow> search_files rc wanted most pattern paths matches st
      | (Inr data, st) \<Rightarrow>
          if \<not> Valid_utf8 data \<or> CHR 0x00 \<in> set data then search_files rc wanted most pattern paths matches st
          else search_files rc wanted most pattern paths (matches @ take (most - length matches) (line_matches path pattern data)) st)"

definition glob_chars :: "string \<Rightarrow> bool" where
  "glob_chars p \<longleftrightarrow> list_ex (\<lambda>c. c \<in> set ''*?['') p"

definition search_scope :: "file_ctx \<Rightarrow> (string \<Rightarrow> string \<Rightarrow> string + bool) \<Rightarrow> string \<Rightarrow> file_error + string \<times> string" where
  "search_scope rc segment p =
     (let top = ws_WorkspacePath (fc_workspace rc) in
      if p = [] then Inr (top, [])
      else if glob_chars p then
        (if IsAbs p then Inl (Msg ''search path glob must be relative'')
         else case EnsureInside (fc_view rc) top (Join_path [top, Dir p]) of Inl e \<Rightarrow> Inl (Msg e)
         | Inr _ \<Rightarrow> (case matchPathGlob segment p [] of Inl e \<Rightarrow> Inl (At ''invalid search path glob'' (Msg e)) | Inr _ \<Rightarrow> Inr (top, p)))
      else case ws_path rc p of Inl e \<Rightarrow> Inl (Msg e) | Inr path \<Rightarrow> Inr (path, []))"

definition file_search :: "file_ctx \<Rightarrow> file_tool \<Rightarrow> (string \<Rightarrow> string \<Rightarrow> string + bool) \<Rightarrow> (string \<Rightarrow> dir_tree) \<Rightarrow> search_input \<Rightarrow> fs_state \<Rightarrow> (file_error + json) \<times> fs_state" where
  "file_search rc t segment tree inp st =
     (if si_Pattern inp = [] then (Inl (Msg ''search pattern is required''), st)
      else case search_scope rc segment (si_Path inp) of Inl e \<Rightarrow> (Inl e, st)
      | Inr (start, globPattern) \<Rightarrow>
          let most = (if si_MaxResults inp \<le> 0 \<or> 500 < si_MaxResults inp then 100 else si_MaxResults inp);
              maxBytes = (if 0 < si_MaxOutputBytes inp then si_MaxOutputBytes inp else if 0 < ft_MaxOutputBytes t then ft_MaxOutputBytes t else 256 * 1024);
              wanted = (\<lambda>path. globPattern = [] \<or> matchPathGlob segment globPattern (rel_or_empty (ws_WorkspacePath (fc_workspace rc)) path) = Inr True)
          in (case search_files rc wanted (nat most) (si_Pattern inp) (walk_files start (tree start)) [] st of (matches, st) \<Rightarrow>
                case shrink (fc_lib rc) (search_value (si_Pattern inp)) maxBytes matches (int (length matches) \<ge> most) of (matches, truncated) \<Rightarrow>
                  (ResultFromValue (fc_lib rc) (search_value (si_Pattern inp) matches truncated), st)))"

section \<open>Dispatch\<close>

definition mutating :: "string \<Rightarrow> bool" where
  "mutating kind \<longleftrightarrow> kind \<in> {''write_file'', ''patch_file'', ''move_file'', ''delete_file''}"

definition decoded :: "string + 'a \<Rightarrow> ('a \<Rightarrow> fs_state \<Rightarrow> (file_error + json) \<times> fs_state) \<Rightarrow> fs_state \<Rightarrow> (file_error + json) \<times> fs_state" where
  "decoded inp run st = (case inp of Inl e \<Rightarrow> (Inl (Msg e), st) | Inr x \<Rightarrow> run x st)"

text \<open>\<^verbatim>\<open>Execute\<close>, for a call with a workspace.\<close>

definition Execute_file :: "file_ctx \<Rightarrow> file_tool \<Rightarrow> file_decoders \<Rightarrow> (string \<Rightarrow> string \<Rightarrow> string + bool) \<Rightarrow> (string \<Rightarrow> dir_tree) \<Rightarrow> string \<Rightarrow> fs_state \<Rightarrow> (file_error + json) \<times> fs_state" where
  "Execute_file rc t dec segment tree input st =
     (let kind = ft_Kind t in
      if \<not> ws_FileWriteEnabled (fc_workspace rc) \<and> mutating kind then (Inl (Msg ''workspace file writes are disabled''), st)
      else if kind = ''read_file'' then decoded (dec_read dec input) (file_read rc t) st
      else if kind = ''search_files'' then decoded (dec_search dec input) (file_search rc t segment tree) st
      else if kind = ''list_files'' then decoded (dec_list dec input) (\<lambda>l st. (file_list rc t tree l, st)) st
      else if kind = ''write_file'' then decoded (dec_write dec input) (file_put rc) st
      else if kind = ''patch_file'' then decoded (dec_patch dec input) (file_patch rc) st
      else if kind = ''move_file'' then decoded (dec_move dec input) (file_move rc) st
      else if kind = ''delete_file'' then decoded (dec_delete dec input) (file_delete rc) st
      else (Inl (Msg (''unsupported workspace file tool: '' @ kind)), st))"

end
