(* ===== verification/Text_Match_Props.thy ===== *)
theory Text_Match_Props
  imports Text_Match
begin

text \<open>
  The similarity of two texts is the ratio of their longest common subsequence; an exact replacement is
  \<^verbatim>\<open>strings.ReplaceAll\<close>; a replacement of one match changes one region of the file, the region that
  matches, and nothing else. Replacing all matches of a line strategy may panic, because its matches may
  overlap.
\<close>

section \<open>Longest common subsequences\<close>

definition common_lengths :: "'a list \<Rightarrow> 'a list \<Rightarrow> nat set" where
  "common_lengths u v = {length w |w. subseq w u \<and> subseq w v}"

definition LCS :: "'a list \<Rightarrow> 'a list \<Rightarrow> nat" where
  "LCS u v = Max (common_lengths u v)"

lemma subseq_snoc: "subseq w (u @ [x]) \<longleftrightarrow> subseq w u \<or> (\<exists>w'. w = w' @ [x] \<and> subseq w' u)"
proof
  assume "subseq w (u @ [x])"
  then obtain a b where "w = a @ b" "subseq a u" "subseq b [x]" by (auto simp: subseq_append_iff)
  then show "subseq w u \<or> (\<exists>w'. w = w' @ [x] \<and> subseq w' u)" by (cases b) (auto simp: subseq_Cons2_iff split: if_splits)
qed (auto simp: subseq_append_iff)

lemma common_lengths_facts: "finite (common_lengths u v)" "common_lengths u v \<noteq> {}"
proof -
  have "common_lengths u v \<subseteq> {0..length u}" by (auto simp: common_lengths_def dest: list_emb_length)
  then show "finite (common_lengths u v)" by (rule finite_subset) simp
  have "0 \<in> common_lengths u v" by (auto simp: common_lengths_def intro: exI [of _ "[]"])
  then show "common_lengths u v \<noteq> {}" by blast
qed

lemma LCS_ge: "subseq w u \<Longrightarrow> subseq w v \<Longrightarrow> length w \<le> LCS u v"
  unfolding LCS_def by (rule Max_ge [OF common_lengths_facts(1)]) (auto simp: common_lengths_def)

lemma LCS_witness: "\<exists>w. subseq w u \<and> subseq w v \<and> length w = LCS u v"
  using Max_in [OF common_lengths_facts, of u v] by (auto simp: LCS_def common_lengths_def)

lemma LCS_eqI:
  assumes "\<And>w. subseq w u \<Longrightarrow> subseq w v \<Longrightarrow> length w \<le> n" "subseq w0 u" "subseq w0 v" "length w0 = n"
  shows "LCS u v = n"
  using assms LCS_ge [of w0 u v] LCS_witness [of u v] by (metis le_antisym)

lemma LCS_Nil [simp]: "LCS [] v = 0" "LCS u [] = 0"
  by (auto intro!: LCS_eqI [of _ _ _ "[]"] dest: list_emb_length)

lemma LCS_sym: "LCS u v = LCS v u"
  by (simp add: LCS_def common_lengths_def conj_commute)

lemma LCS_snoc_eq: "LCS (u @ [x]) (v @ [x]) = Suc (LCS u v)"
proof -
  obtain w where w: "subseq w u" "subseq w v" "length w = LCS u v" using LCS_witness by blast
  have "length s \<le> Suc (LCS u v)" if "subseq s (u @ [x])" "subseq s (v @ [x])" for s
  proof (cases s rule: rev_cases)
    case (snoc s' z)
    have drop_last: "subseq s' t" if "subseq (s' @ [z]) t" for t
      using that prefix_imp_subseq [of s' "s' @ [z]"] subseq_order.order_trans by blast
    with that snoc have "subseq s' u" "subseq s' v" by (auto simp: subseq_snoc)
    then show ?thesis using LCS_ge snoc by fastforce
  qed simp
  then show ?thesis using w by (intro LCS_eqI [of _ _ _ "w @ [x]"]) (auto simp: subseq_snoc)
qed

lemma LCS_snoc_neq:
  assumes "x \<noteq> y"
  shows "LCS (u @ [x]) (v @ [y]) = max (LCS u (v @ [y])) (LCS (u @ [x]) v)"
proof -
  obtain w1 where w1: "subseq w1 u" "subseq w1 (v @ [y])" "length w1 = LCS u (v @ [y])" using LCS_witness by blast
  obtain w2 where w2: "subseq w2 (u @ [x])" "subseq w2 v" "length w2 = LCS (u @ [x]) v" using LCS_witness by blast
  have le: "length s \<le> max (LCS u (v @ [y])) (LCS (u @ [x]) v)" if s: "subseq s (u @ [x])" "subseq s (v @ [y])" for s
  proof -
    have "subseq s u \<or> subseq s v" using s assms by (auto simp: subseq_snoc)
    then show ?thesis using s LCS_ge [of s u "v @ [y]"] LCS_ge [of s "u @ [x]" v] by auto
  qed
  have up: "subseq w1 (u @ [x])" "subseq w2 (v @ [y])" using w1(1) w2(2) by (auto simp: subseq_snoc)
  show ?thesis
  proof (cases "LCS u (v @ [y]) \<le> LCS (u @ [x]) v")
    case True
    then show ?thesis using w2 up(2) le by (intro LCS_eqI [of _ _ _ w2]) (auto simp: max_def)
  next
    case False
    then show ?thesis using w1 up(1) le by (intro LCS_eqI [of _ _ _ w1]) (auto simp: max_def)
  qed
qed

text \<open>The table: after the runes \<open>u\<close>, entry \<open>k\<close> is the longest common subsequence of \<open>u\<close> and the first \<open>k\<close> runes of \<open>b\<close>.\<close>

lemma lcs_row_step:
  assumes "j \<le> length b"
  shows "lcs_row x (drop j b) (LCS u (take j b)) (LCS (u @ [x]) (take j b)) (map (\<lambda>k. LCS u (take k b)) [Suc j..<Suc (length b)]) =
    map (\<lambda>k. LCS (u @ [x]) (take k b)) [Suc j..<Suc (length b)]"
  using assms
proof (induction "length b - j" arbitrary: j)
  case (Suc n)
  then have j: "j < length b" by simp
  then have b: "drop j b = b ! j # drop (Suc j) b" "take (Suc j) b = take j b @ [b ! j]"
    by (simp_all add: Cons_nth_drop_Suc take_Suc_conv_app_nth)
  have up: "[Suc j..<Suc (length b)] = Suc j # [Suc (Suc j)..<Suc (length b)]" using j by (simp add: upt_conv_Cons)
  have entry: "(if x = b ! j then LCS u (take j b) + 1 else if LCS (u @ [x]) (take j b) > LCS u (take (Suc j) b)
      then LCS (u @ [x]) (take j b) else LCS u (take (Suc j) b)) = LCS (u @ [x]) (take (Suc j) b)"
    by (auto simp: b(2) LCS_snoc_eq LCS_snoc_neq)
  show ?case unfolding b(1) up list.map lcs_row.simps Let_def entry using Suc.hyps(1) [of "Suc j"] Suc.hyps(2) j by simp
qed simp

lemma lcs_rows_eq: "lcs_rows a b = map (\<lambda>k. LCS a (take k b)) [0..<Suc (length b)]"
proof (induction a rule: rev_induct)
  case Nil
  then show ?case by (simp add: lcs_rows_def map_replicate_const flip: replicate_append_same)
next
  case (snoc x a)
  have up: "[0..<Suc (length b)] = 0 # [Suc 0..<Suc (length b)]" by (rule upt_conv_Cons) simp
  have "lcs_rows (a @ [x]) b = hd (lcs_rows a b) # lcs_row x b 0 (hd (lcs_rows a b)) (tl (lcs_rows a b))"
    by (simp add: lcs_rows_def)
  then show ?case unfolding snoc.IH up using lcs_row_step [of 0 b x a] by simp
qed

lemma last_lcs_rows: "last (lcs_rows a b) = LCS a b"
  by (simp add: lcs_rows_eq last_map)


text \<open>Both shortcuts of the comparison stay within the bounds of a ratio.\<close>

lemma common_prefix_le: "common_prefix a b \<le> length a" "common_prefix a b \<le> length b" "common_prefix a b = common_prefix b a"
  by (induction a b rule: common_prefix.induct) auto

lemma ratio_bounds: "2 * n \<le> m \<Longrightarrow> 0 \<le> similarity_ratio n m \<and> similarity_ratio n m \<le> 1"
  by (cases "m = 0") (auto simp: similarity_ratio_def divide_le_eq simp flip: of_nat_mult)

lemma LCS_le: "LCS u v \<le> length u" "LCS u v \<le> length v"
  using LCS_witness [of u v] by (auto dest: list_emb_length)

lemma similarity_table:
  "sequenceSimilarity l r = (let a = runes l; b = runes r in
     if l = r then 1
     else if 2000000 < length a * length b
       then similarity_ratio (common_prefix a b + common_prefix (rev (drop (common_prefix a b) a)) (rev (drop (common_prefix a b) b))) (length a + length b)
     else similarity_ratio (LCS a b) (length a + length b))"
  using LCS_sym [of "runes l" "runes r"]
  by (auto simp: sequenceSimilarity_def Let_def last_lcs_rows similarity_ratio_def)

text \<open>The similarity of two texts that the fuzzy strategies compare with their thresholds: for texts whose
  product of lengths is at most two million runes it is twice the length of the longest common
  subsequence of their runes over the sum of their lengths (the space-saving table computes it exactly);
  for all texts it is symmetric, between zero and one, and one for equal texts.\<close>

theorem similarity_is_lcs:
  assumes "length (runes l) * length (runes r) \<le> 2000000" "l \<noteq> r"
  shows "sequenceSimilarity l r = of_nat (2 * Max {length w |w. subseq w (runes l) \<and> subseq w (runes r)}) / of_nat (length (runes l) + length (runes r)) \<and>
    sequenceSimilarity s t = sequenceSimilarity t s \<and> 0 \<le> sequenceSimilarity s t \<and> sequenceSimilarity s t \<le> 1 \<and> sequenceSimilarity s s = 1"
proof (intro conjI)
  show "sequenceSimilarity l r = of_nat (2 * Max {length w |w. subseq w (runes l) \<and> subseq w (runes r)}) / of_nat (length (runes l) + length (runes r))"
    using assms by (simp add: similarity_table similarity_ratio_def LCS_def common_lengths_def Let_def)
  show "sequenceSimilarity s t = sequenceSimilarity t s"
    by (simp add: similarity_table Let_def LCS_sym [of "runes s"] common_prefix_le(3) [of "runes s"] common_prefix_le(3) [of "rev (drop _ (runes s))"]
        mult.commute add.commute)
  have "2 * (common_prefix a b + common_prefix (rev (drop (common_prefix a b) a)) (rev (drop (common_prefix a b) b))) \<le> length a + length b" for a b :: "rune list"
    using common_prefix_le(1,2) [of a b] common_prefix_le(1,2) [of "rev (drop (common_prefix a b) a)" "rev (drop (common_prefix a b) b)"] by simp
  moreover have "2 * LCS a b \<le> length a + length b" for a b :: "rune list" using LCS_le [of a b] by simp
  ultimately show "0 \<le> sequenceSimilarity s t" "sequenceSimilarity s t \<le> 1" by (simp_all add: similarity_table Let_def ratio_bounds)
  show "sequenceSimilarity s s = 1" by (simp add: sequenceSimilarity_def)
qed


theorem similarity_is_lcs_witness:
  "sequenceSimilarity ''kitten'' ''sitting'' =
     of_nat (2 * Max {length w |w. subseq w (runes ''kitten'') \<and> subseq w (runes ''sitting'')}) / of_nat (6 + 7)"
proof -
  have "length (runes ''kitten'') = 6" "length (runes ''sitting'') = 7" by code_simp+
  then show ?thesis using similarity_is_lcs [of "''kitten''" "''sitting''" "[]" "[]"] by simp
qed

section \<open>Replacing matches that do not overlap\<close>

text \<open>Matches in order from an offset on, the last one within the text.\<close>

fun apart :: "nat \<Rightarrow> nat \<Rightarrow> text_match list \<Rightarrow> bool" where
  "apart i n [] \<longleftrightarrow> i \<le> n"
| "apart i n (m # ms) \<longleftrightarrow> i \<le> tm_start m \<and> tm_start m \<le> tm_end m \<and> apart (tm_end m) n ms"

fun rebuild :: "string \<Rightarrow> nat \<Rightarrow> (text_match \<Rightarrow> string) \<Rightarrow> text_match list \<Rightarrow> string" where
  "rebuild content i new [] = drop i content"
| "rebuild content i new (m # ms) = slice content i (tm_start m) @ new m @ rebuild content (tm_end m) new ms"

lemma apart_le: "apart i n ms \<Longrightarrow> i \<le> n"
  by (induction ms arbitrary: i) (auto intro: order_trans)

lemma take_slice: "i \<le> j \<Longrightarrow> take i s @ slice s i j = take j s"
  by (simp add: slice_def) (metis le_add_diff_inverse take_add)

lemma foldr_splice:
  assumes "apart i n ms" "n = length content"
  shows "foldr (\<lambda>m result. case result of None \<Rightarrow> None | Some text \<Rightarrow> splice text m (new m)) ms (Some content) =
    Some (take i content @ rebuild content i new ms)"
  using assms
proof (induction ms arbitrary: i)
  case (Cons m ms)
  let ?text = "take (tm_end m) content @ rebuild content (tm_end m) new ms"
  from Cons.prems have m: "i \<le> tm_start m" "tm_start m \<le> tm_end m" "tm_end m \<le> length content" using apart_le by auto
  then have "splice ?text m (new m) = Some (take (tm_start m) content @ new m @ rebuild content (tm_end m) new ms)"
    by (simp add: splice_def min_def)
  also have "take (tm_start m) content = take i content @ slice content i (tm_start m)" using m(1) by (simp add: take_slice)
  finally show ?case using Cons.IH [of "tm_end m"] Cons.prems by simp
qed simp

lemma apart_sorted: "apart i n ms \<Longrightarrow> sorted (map tm_start ms) \<and> (\<forall>m\<in>set ms. i \<le> tm_start m)"
  by (induction ms arbitrary: i) (fastforce dest: order_trans)+

lemma applyTextMatches_apart:
  assumes "apart 0 (length content) ms"
  shows "applyTextMatches content ms replacement old reindent =
    Some (rebuild content 0 (\<lambda>m. if reindent then reindentReplacement (region content m) old replacement else replacement) ms)"
proof -
  have "sort_key tm_start ms = ms" using apart_sorted [OF assms] by (simp add: sort_key_id_if_sorted)
  then show ?thesis
    using foldr_splice [OF assms refl, of "\<lambda>m. if reindent then reindentReplacement (region content m) old replacement else replacement"]
    by (simp add: applyTextMatches_def foldl_conv_foldr)
qed

section \<open>Exact matches\<close>

lemma exact_from_apart:
  "i \<le> length content \<Longrightarrow> apart i (length content) (exact_from content p i) \<and>
     (\<forall>m\<in>set (exact_from content p i). region content m = p)"
proof (induction content p i rule: exact_from.induct)
  case (1 content p i)
  show ?case
  proof (cases "p = [] \<or> length content < i + length p")
    case True
    then show ?thesis using 1 by (subst (1 2) exact_from.simps) simp
  next
    case False
    show ?thesis
    proof (cases "Index (drop i content) p")
      case None
      then show ?thesis using 1 False by (subst (1 2) exact_from.simps) simp
    next
      case (Some k)
      note occ = Index_Some [OF Some]
      then have "i + k + length p \<le> length content" using "1.prems" by simp
      moreover have "slice content (i + k) (i + k + length p) = p" using occ(2) by (simp add: slice_def add.commute)
      ultimately show ?thesis using "1.IH" [OF False Some] Some False by (subst (1 2) exact_from.simps) simp
    qed
  qed
qed

lemma exact_from_rebuild:
  "p \<noteq> [] \<Longrightarrow> i \<le> length content \<Longrightarrow>
     rebuild content i (\<lambda>m. new) (exact_from content p i) = ReplaceAll (drop i content) p new \<and> length (exact_from content p i) = Count (drop i content) p"
proof (induction content p i rule: exact_from.induct)
  case (1 content p i)
  show ?case
  proof (cases "length content < i + length p \<or> Index (drop i content) p = None")
    case True
    have "Index (drop i content) p = None"
      using True "1.prems" Index_Some(1) [of "drop i content" p] by (cases "Index (drop i content) p") auto
    with True "1.prems" show ?thesis by (subst (1 2) exact_from.simps, subst ReplaceAll.simps, subst Count.simps) auto
  next
    case False
    then obtain k where k: "Index (drop i content) p = Some k" by auto
    note occ = Index_Some [OF k]
    from occ(1) "1.prems" have bound: "i + k + length p \<le> length content" by simp
    have "slice content i (i + k) = take k (drop i content)" by (simp add: slice_def)
    moreover have "drop (k + length p) (drop i content) = drop (i + k + length p) content" by (simp add: add.commute add.left_commute)
    ultimately show ?thesis
      using "1.IH" [OF _ k] "1.prems" False bound k
      by (subst (1 2) exact_from.simps, subst ReplaceAll.simps, subst Count.simps) simp
  qed
qed


section \<open>Spans of lines\<close>

lemma Join_split: "ys \<noteq> [] \<Longrightarrow> Join (xs @ ys) [c] = concat (map (\<lambda>l. l @ [c]) xs) @ Join ys [c]"
proof (induction xs)
  case (Cons x xs)
  then obtain z zs where "xs @ ys = z # zs" by (cases "xs @ ys") auto
  with Cons show ?case by simp
qed simp

lemma Join_front: "b \<noteq> [] \<Longrightarrow> Join (b @ d) [c] = Join b [c] @ (if d = [] then [] else c # Join d [c])"
proof (induction b)
  case (Cons x b)
  show ?case
  proof (cases b)
    case Nil
    then show ?thesis by (cases d) auto
  next
    case (Cons y ys)
    with Cons.IH show ?thesis by simp
  qed
qed simp

lemma length_Join: "ls \<noteq> [] \<Longrightarrow> length (Join ls [c]) = (\<Sum>l\<leftarrow>ls. length l) + (length ls - 1)"
  by (induction ls "[c]" rule: Join.induct) auto

lemma length_concat_lines: "length (concat (map (\<lambda>l. l @ [c]) ls)) = (\<Sum>l\<leftarrow>ls. length l + 1)"
  by (induction ls) auto

lemma line_span:
  fixes content :: string and start n :: nat
  defines "m \<equiv> lineMatchSpan content (Split_nl content) start n"
  assumes "start + n \<le> length (Split_nl content)" "1 \<le> n"
  shows "region content m = Join (block (Split_nl content) start n) [CHR 0x0A]" "tm_start m \<le> tm_end m" "tm_end m \<le> length content"
proof -
  let ?ls = "Split_nl content" and ?nl = "CHR 0x0A"
  let ?b = "block ?ls start n" and ?rest = "drop (start + n) ?ls" and ?pre = "concat (map (\<lambda>l. l @ [CHR 0x0A]) (take start (Split_nl content)))"
  have len: "length ?b = n" using assms(2) by (simp add: block_def)
  have b: "?b \<noteq> []" using len assms(3) by auto
  have split: "drop start ?ls = ?b @ ?rest" by (simp add: block_def add.commute) (metis append_take_drop_id drop_drop add.commute)
  have "content = Join (take start ?ls @ drop start ?ls) [?nl]" by (simp add: Split_nl_join)
  also have "\<dots> = ?pre @ Join (?b @ ?rest) [?nl]" unfolding split using b by (intro Join_split) simp
  also have "\<dots> = ?pre @ Join ?b [?nl] @ (if ?rest = [] then [] else ?nl # Join ?rest [?nl])" using b by (simp add: Join_front)
  finally have content: "content = ?pre @ Join ?b [?nl] @ (if ?rest = [] then [] else ?nl # Join ?rest [?nl])" .
  have total: "length content = length ?pre + length (Join ?b [?nl]) + length (if ?rest = [] then [] else ?nl # Join ?rest [?nl])"
    by (subst content) simp
  have "length (Join ?b [?nl]) = (\<Sum>l\<leftarrow>take n (drop start ?ls). length l) + (n - 1)"
    using length_Join [OF b, of ?nl] len by (simp add: block_def)
  then have m: "tm_start m = length ?pre" "tm_end m = length ?pre + length (Join ?b [?nl])"
    using total by (simp_all add: m_def lineMatchSpan_def Let_def length_concat_lines)
  show "tm_start m \<le> tm_end m" "tm_end m \<le> length content" using m total by simp_all
  show "region content m = Join ?b [?nl]" unfolding m slice_def by (subst (2) content) simp
qed

lemma starts_bound: "start \<in> set (starts ls ps) \<Longrightarrow> start + length ps \<le> length ls"
  by (auto simp: starts_def)

lemma Split_nl_nonempty [simp]: "Split_nl s \<noteq> []"
  by (simp add: Split_nl_def)

lemma Split_nl_pos: "1 \<le> length (Split_nl s)"
  using Split_nl_nonempty [of s] by (cases "Split_nl s") auto

lemma line_spans:
  assumes "start \<in> set (starts (Split_nl content) (Split_nl pattern))"
  shows "region content (lineMatchSpan content (Split_nl content) start (length (Split_nl pattern))) =
      Join (block (Split_nl content) start (length (Split_nl pattern))) [CHR 0x0A]"
    "tm_start (lineMatchSpan content (Split_nl content) start (length (Split_nl pattern))) \<le>
       tm_end (lineMatchSpan content (Split_nl content) start (length (Split_nl pattern)))"
    "tm_end (lineMatchSpan content (Split_nl content) start (length (Split_nl pattern))) \<le> length content"
  using line_span [OF starts_bound [OF assms] Split_nl_pos] by auto


lemma split_lines_no_nl: "CHR 0x0A \<notin> set cur \<Longrightarrow> l \<in> set (split_lines cur s) \<Longrightarrow> CHR 0x0A \<notin> set l"
proof (induction s arbitrary: cur)
  case (Cons a s)
  then show ?case using Cons.IH [of "[]"] Cons.IH [of "a # cur"] by (cases "a = CHR 0x0A") auto
qed simp

lemma Split_nl_no_nl: "l \<in> set (Split_nl s) \<Longrightarrow> CHR 0x0A \<notin> set l"
  using split_lines_no_nl [of "[]"] by (simp add: Split_nl_def)

lemma split_lines_plain: "CHR 0x0A \<notin> set s \<Longrightarrow> split_lines cur (s @ t) = split_lines (rev s @ cur) t"
  by (induction s arbitrary: cur) auto

lemma Split_nl_Join: "ls \<noteq> [] \<Longrightarrow> (\<forall>l\<in>set ls. CHR 0x0A \<notin> set l) \<Longrightarrow> Split_nl (Join ls [CHR 0x0A]) = ls"
proof (induction ls "[CHR 0x0A]" rule: Join.induct)
  case (2 x)
  then show ?case using split_lines_plain [of x "[]" "[]"] by (simp add: Split_nl_def)
next
  case (3 x y xs)
  then show ?case using split_lines_plain [of x "[]" "CHR 0x0A # Join (y # xs) [CHR 0x0A]"] by (simp add: Split_nl_def)
qed simp

lemma region_lines:
  assumes "start \<in> set (starts (Split_nl content) (Split_nl pattern))"
  shows "Split_nl (region content (lineMatchSpan content (Split_nl content) start (length (Split_nl pattern)))) =
    block (Split_nl content) start (length (Split_nl pattern))"
proof -
  let ?b = "block (Split_nl content) start (length (Split_nl pattern))"
  have "length ?b = length (Split_nl pattern)" using starts_bound [OF assms] by (simp add: block_def)
  then have "?b \<noteq> []" using Split_nl_pos [of pattern] by auto
  moreover have "\<forall>l\<in>set ?b. CHR 0x0A \<notin> set l" by (auto simp: block_def dest!: in_set_takeD in_set_dropD Split_nl_no_nl)
  ultimately show ?thesis unfolding line_spans(1) [OF assms] by (rule Split_nl_Join)
qed

section \<open>Bounds of unicode matches\<close>

lemma runes_at_bound: "(i, r) \<in> set (runes_at k s) \<Longrightarrow> i < k + length s"
proof (induction k s rule: runes_at.induct)
  case (1 k s)
  show ?case
  proof (cases "s = []")
    case False
    show ?thesis
    proof (cases "rune_len s = 0")
      case True
      with 1 False show ?thesis by (subst (asm) (2) runes_at.simps) (auto simp: length_tl Suc_le_eq)
    next
      case len: False
      with 1 False rune_len_le [of s] show ?thesis by (subst (asm) (2) runes_at.simps) fastforce
    qed
  qed (use 1 in \<open>simp add: runes_at.simps\<close>)
qed

lemma boundaries_bound: "b \<in> set (snd (normalizeUnicodeWithBoundaries s)) \<Longrightarrow> b \<le> length s"
  by (auto simp: normalizeUnicodeWithBoundaries_def dest!: runes_at_bound)

lemma count_nl_runes: "count_list (concat (map look_alike (runes s))) (CHR 0x0A) = count_list s (CHR 0x0A)"
proof (induction s rule: runes.induct)
  case (1 s)
  have look: "count_list (look_alike r) (CHR 0x0A) = count_list r (CHR 0x0A)" for r
  proof -
    have "list_all (\<lambda>(k, v). CHR 0x0A \<notin> set k \<and> CHR 0x0A \<notin> set v) hermesUnicodeMap" by (simp add: hermesUnicodeMap_def)
    then show ?thesis
      unfolding look_alike_def by (auto simp: list_all_iff dest!: map_of_SomeD split: option.splits)
  qed
  show ?case
  proof (cases "s = []")
    case False
    show ?thesis
    proof (cases "rune_len s = 0")
      case True
      obtain c cs where s: "s = c # cs" using False by (cases s) auto
      have "c \<noteq> CHR 0x0A"
      proof
        assume "c = CHR 0x0A"
        then have "rune_len s = 1" by (simp add: s rune_len_def nth_byte_def rune_width_def lead_info_def byte_def)
        with True show False by simp
      qed
      with 1 False True s show ?thesis
        by (subst runes.simps) (simp add: look, simp add: rune_error_def)
    next
      case len: False
      have "count_list s (CHR 0x0A) = count_list (take (rune_len s) s) (CHR 0x0A) + count_list (drop (rune_len s) s) (CHR 0x0A)"
        by (metis append_take_drop_id count_list_append)
      with 1 False len show ?thesis by (subst runes.simps) (simp add: look)
    qed
  qed (simp add: runes.simps)
qed

lemma length_split_lines: "length (split_lines cur s) = Suc (count_list s (CHR 0x0A))"
  by (induction s arbitrary: cur) auto

lemma same_lines: "length (Split_nl (normalizeUnicode s)) = length (Split_nl s)"
  by (simp add: Split_nl_def length_split_lines normalizeUnicode_def count_nl_runes)

section \<open>Every strategy finds regions of the file\<close>

definition bounded :: "string \<Rightarrow> text_match list \<Rightarrow> bool" where
  "bounded content ms \<longleftrightarrow> list_all (\<lambda>m. tm_start m \<le> tm_end m \<and> tm_end m \<le> length content) ms"

lemma apart_bounded: "apart i (length content) ms \<Longrightarrow> bounded content ms"
proof (induction ms arbitrary: i)
  case (Cons m ms)
  then show ?case using apart_le [of "tm_end m" "length content" ms] by (auto simp: bounded_def)
qed (simp add: bounded_def)

lemma exact_bounded: "bounded content (exactMatches content p)"
  using exact_from_apart [of 0 content p] apart_bounded [of 0 content "exact_from content p 0"] by (simp add: exactMatches_def bounded_def)

lemma spans_bounded:
  "bounded content (map (\<lambda>start. lineMatchSpan content (Split_nl content) start (length (Split_nl p))) (filter P (starts (Split_nl content) (Split_nl p))))"
  using line_spans(2,3) by (auto simp: bounded_def list_all_iff)

lemma find_bounded:
  assumes "s \<in> set strategies"
  shows "bounded content (fs_find s content old)"
proof -
  have lines: "bounded content (normalizedLineMatches content old f)" for f
    by (simp add: normalizedLineMatches_def Let_def spans_bounded)
  have unicode: "bounded content (unicodeNormalizedMatches content old)"
  proof -
    obtain nc bs where n: "normalizeUnicodeWithBoundaries content = (nc, bs)" by fastforce
    have "bs ! k \<le> length content" if "k < length bs" for k
      using boundaries_bound [of "bs ! k" content] n that by simp
    then show ?thesis using lines by (auto simp: unicodeNormalizedMatches_def n Let_def bounded_def list_all_iff)
  qed
  have anchor: "bounded content (blockAnchorMatches content old)"
  proof (cases "length (Split_nl (normalizeUnicode old)) < 2")
    case False
    have "tm_start (lineMatchSpan content (Split_nl content) start n) \<le> tm_end (lineMatchSpan content (Split_nl content) start n) \<and>
        tm_end (lineMatchSpan content (Split_nl content) start n) \<le> length content"
      if "start \<in> set (starts (Split_nl (normalizeUnicode content)) (Split_nl (normalizeUnicode old)))" "n = length (Split_nl (normalizeUnicode old))" for start n
      using line_span [of start n content] starts_bound [OF that(1)] that(2) Split_nl_pos [of "normalizeUnicode old"] same_lines [of content] by auto
    then show ?thesis by (auto simp: blockAnchorMatches_def Let_def bounded_def list_all_iff)
  qed (simp add: blockAnchorMatches_def Let_def bounded_def)
  have aware: "bounded content (contextAwareMatches content old)"
    by (simp add: contextAwareMatches_def Let_def spans_bounded bounded_def [of content "[]"])
  have trimmed: "bounded content (trimmedBoundaryMatches content old)" by (simp add: trimmedBoundaryMatches_def Let_def spans_bounded)
  have escaped: "bounded content (escapeNormalizedMatches content old)"
    using exact_bounded by (simp add: escapeNormalizedMatches_def bounded_def)
  show ?thesis
    using assms exact_bounded lines unicode anchor aware trimmed escaped
    by (auto simp: strategies_def strategy_def lineTrimmedMatches_def whitespaceNormalizedMatches_def indentationFlexibleMatches_def)
qed

section \<open>Exact replacement\<close>

lemma sublist_singleton: "sublist [c] s \<longleftrightarrow> c \<in> set s"
  by (auto simp: sublist_def in_set_conv_decomp)


lemma Index_exact: "old \<noteq> [] \<Longrightarrow> Index content old \<noteq> None \<Longrightarrow> exactMatches content old \<noteq> []"
proof -
  assume a: "old \<noteq> []" "Index content old \<noteq> None"
  then obtain k where k: "Index content old = Some k" by auto
  have "k + length old \<le> length content" using Index_Some(1) [OF k] .
  then show "exactMatches content old \<noteq> []" unfolding exactMatches_def using a k by (subst exact_from.simps) simp
qed

lemma try_exact:
  "exactMatches content old \<noteq> [] \<Longrightarrow>
   try_strategies lib strategies content old new replaceAll =
     replace_with lib (strategy ''exact'' False exactMatches) content (exactMatches content old) old new replaceAll"
  by (simp add: strategies_def strategy_def)

lemma exact_matches_facts:
  assumes "old \<noteq> []"
  shows "length (exactMatches content old) = Count content old" "concat (map (region content) (exactMatches content old)) = concat (replicate (Count content old) old)"
    "applyTextMatches content (exactMatches content old) new old False = Some (ReplaceAll content old new)"
proof -
  have e: "apart 0 (length content) (exactMatches content old)" "\<forall>m\<in>set (exactMatches content old). region content m = old"
    "rebuild content 0 (\<lambda>m. new) (exactMatches content old) = ReplaceAll content old new" "length (exactMatches content old) = Count content old"
    using exact_from_apart [of 0 content old] exact_from_rebuild [OF assms, of 0 content new] by (simp_all add: exactMatches_def)
  show "length (exactMatches content old) = Count content old" by (fact e(4))
  have "map (region content) (exactMatches content old) = replicate (length (exactMatches content old)) old"
    using e(2) by (simp add: list_eq_iff_nth_eq)
  then show "concat (map (region content) (exactMatches content old)) = concat (replicate (Count content old) old)" using e(4) by simp
  show "applyTextMatches content (exactMatches content old) new old False = Some (ReplaceAll content old new)"
    using applyTextMatches_apart [OF e(1)] e(3) by simp
qed

text \<open>Replacing a text that occurs in the file as it is. The number of occurrences is counted as
  \<^verbatim>\<open>strings.Count\<close> counts them; several occurrences without \<^verbatim>\<open>replace_all\<close> are an error
  that changes nothing; otherwise the result is exactly \<^verbatim>\<open>strings.ReplaceAll\<close> of the file, no looser
  strategy is tried and the indentation of the new text is kept as given. Only its escapes for tab and carriage
  return are expanded, and only where the replaced text itself has such a character.\<close>

theorem exact_replace:
  assumes "TrimSpace old \<noteq> []" "old \<noteq> new" "Index content old \<noteq> None"
  shows "fuzzyFindAndReplace lib content old new replaceAll =
    (if 1 < Count content old \<and> \<not> replaceAll
     then Match_error (''found '' @ itoa (int (Count content old)) @ '' matches for old_string; provide more context or use replace_all: '' @
            formatMatchLocations content (exactMatches content old))
     else Replaced (ReplaceAll content old (maybeUnescapeReplacement new old [\<lparr>tm_start = 0, tm_end = length old\<rparr>])) (Count content old) ''exact'')"
proof -
  have old: "old \<noteq> []" using assms(1) by (auto simp: TrimSpace_def trim_left_def trim_right_def trim_with.simps [of _ "[]"])
  note f = exact_matches_facts [OF old, of content]
  have ne: "exactMatches content old \<noteq> []" using Index_exact [OF old assms(3)] .
  then have "Count content old \<noteq> 0" using f(1) by (metis length_0_conv)
  then have chars: "Contains (concat (replicate (Count content old) old)) [c] = Contains old [c]" for c
    by (cases "Count content old") (auto simp: Contains_iff sublist_singleton)
  have "maybeUnescapeReplacement new content (exactMatches content old) = maybeUnescapeReplacement new old [\<lparr>tm_start = 0, tm_end = length old\<rparr>]"
    unfolding maybeUnescapeReplacement_def f(2) by (simp add: chars slice_def)
  then show ?thesis using assms old f(1,3)
    by (simp add: fuzzyFindAndReplace_def try_exact [OF ne] replace_with_def strategy_def)
qed

text \<open>A library instance for evaluation; of it the replacement uses the quoting alone.\<close>

definition example_lib :: go_lib where
  "example_lib = \<lparr>lower_tab = (\<lambda>r. r), fold_tab = (\<lambda>r. r), quote = (\<lambda>s. s), sha256_hex = (\<lambda>s. []),
     json_Valid = (\<lambda>s. True), unmarshal_any = (\<lambda>s. Inr JNull), unmarshal_map = (\<lambda>s. Inr []),
     marshal = (\<lambda>j. None), unmarshal_empty = (\<lambda>s. None), unmarshal_strings = (\<lambda>k s. Inr []),
     unmarshal_ints = (\<lambda>k l s. Inr (0, 0)), unmarshal_text = (\<lambda>k l s. Inr ([], [])), unmarshal_string_map = (\<lambda>s. Inr [])\<rparr>"

theorem exact_replace_witness:
  "fuzzyFindAndReplace example_lib ''a = b; c = b'' ''b'' ''bb'' True = Replaced ''a = bb; c = bb'' 2 ''exact'' \<and>
   (\<exists>e. fuzzyFindAndReplace example_lib ''a = b; c = b'' ''b'' ''bb'' False = Match_error e)"
proof -
  have h: "TrimSpace ''b'' \<noteq> []" "''b'' \<noteq> ''bb''" "Index ''a = b; c = b'' ''b'' \<noteq> None" by code_simp+
  have v: "Count ''a = b; c = b'' ''b'' = 2" "ReplaceAll ''a = b; c = b'' ''b'' (maybeUnescapeReplacement ''bb'' ''b'' [\<lparr>tm_start = 0, tm_end = length ''b''\<rparr>]) = ''a = bb; c = bb''"
    by code_simp+
  show ?thesis using exact_replace [OF h, of example_lib True] exact_replace [OF h, of example_lib False] unfolding v by simp
qed

section \<open>One region\<close>

text \<open>What a precise strategy has found: the region it replaces is the old text up to the differences the
  strategy is meant to bridge.\<close>

definition bridges :: "string \<Rightarrow> string \<Rightarrow> string \<Rightarrow> bool" where
  "bridges name old reg \<longleftrightarrow>
     (name = ''exact'' \<longrightarrow> reg = old) \<and>
     (name = ''line_trimmed'' \<longrightarrow> map TrimSpace (Split_nl reg) = map TrimSpace (Split_nl old)) \<and>
     (name = ''whitespace_normalized'' \<longrightarrow> map collapseHorizontalWhitespace (Split_nl reg) = map collapseHorizontalWhitespace (Split_nl old)) \<and>
     (name = ''indentation_flexible'' \<longrightarrow> map TrimLeft_blank (Split_nl reg) = map TrimLeft_blank (Split_nl old)) \<and>
     (name = ''escape_normalized'' \<longrightarrow> reg = unescape old) \<and>
     (name = ''trimmed_boundary'' \<longrightarrow> Join (trim_boundary (Split_nl reg)) [CHR 0x0A] = Join (trim_boundary (Split_nl old)) [CHR 0x0A])"

lemma line_matches_bridge:
  "m \<in> set (normalizedLineMatches content old f) \<Longrightarrow> map f (Split_nl (region content m)) = map f (Split_nl old)"
  by (auto simp: normalizedLineMatches_def Let_def region_lines)

lemma trimmed_bridge:
  "m \<in> set (trimmedBoundaryMatches content old) \<Longrightarrow>
   Join (trim_boundary (Split_nl (region content m))) [CHR 0x0A] = Join (trim_boundary (Split_nl old)) [CHR 0x0A]"
  by (auto simp: trimmedBoundaryMatches_def Let_def region_lines)

lemma exact_bridge: "m \<in> set (exactMatches content p) \<Longrightarrow> region content m = p"
  using exact_from_apart [of 0 content p] by (auto simp: exactMatches_def)

lemma find_bridges:
  assumes "s \<in> set strategies" "m \<in> set (fs_find s content old)"
  shows "bridges (fs_name s) old (region content m)"
  using assms line_matches_bridge [of m content old] trimmed_bridge [of m content old] exact_bridge [of m content]
  by (auto simp: strategies_def strategy_def bridges_def lineTrimmedMatches_def whitespaceNormalizedMatches_def
      indentationFlexibleMatches_def escapeNormalizedMatches_def split: if_splits)

lemma try_strategies_cases:
  "try_strategies lib ss content old new replaceAll = Match_error ''could not find a match for old_string in the file'' \<or>
   (\<exists>s\<in>set ss. fs_find s content old \<noteq> [] \<and>
      try_strategies lib ss content old new replaceAll = replace_with lib s content (fs_find s content old) old new replaceAll)"
  by (induction ss) auto

lemma splice_region:
  assumes "tm_start m \<le> tm_end m" "tm_end m \<le> length content"
  shows "applyTextMatches content [m] new old reindent =
    Some (take (tm_start m) content @ (if reindent then reindentReplacement (region content m) old new else new) @ drop (tm_end m) content)"
    "content = take (tm_start m) content @ region content m @ drop (tm_end m) content"
proof -
  show "applyTextMatches content [m] new old reindent =
    Some (take (tm_start m) content @ (if reindent then reindentReplacement (region content m) old new else new) @ drop (tm_end m) content)"
    using assms applyTextMatches_apart [of content "[m]" new old reindent] by (simp add: slice_def)
  show "content = take (tm_start m) content @ region content m @ drop (tm_end m) content"
    using take_slice [OF assms(1), of content] by (metis append.assoc append_take_drop_id)
qed

lemma replace_one:
  assumes "ms \<noteq> []" "bounded content ms"
  shows "(\<exists>e. replace_with lib s content ms old new False = Match_error e) \<or>
    (\<exists>m new'. ms = [m] \<and> replace_with lib s content ms old new False = Replaced (take (tm_start m) content @ new' @ drop (tm_end m) content) 1 (fs_name s))"
proof (cases "1 < length ms")
  case False
  then obtain m where m: "ms = [m]" using assms(1) by (cases ms) auto
  with assms(2) have "tm_start m \<le> tm_end m" "tm_end m \<le> length content" by (auto simp: bounded_def)
  then show ?thesis
    unfolding m replace_with_def by (auto simp: splice_region Let_def split: option.splits)
qed (simp add: replace_with_def)


text \<open>With \<^verbatim>\<open>replace_all\<close> the line strategies report matches that overlap, and the replacement is made for
  each of them on a text the later ones have changed already: with an empty new text the slice expression
  panics, with a longer one the result is corrupted (both replacements are written into one another) although two
  replacements are reported.\<close>

theorem overlapping_replace_all:
  "fuzzyFindAndReplace lib ('' a'' @ [CHR 0x0A] @ '' a'' @ [CHR 0x0A] @ '' a'') (''a'' @ [CHR 0x0A] @ ''a'') [] True = Slice_panic \<and>
   fuzzyFindAndReplace lib ('' a'' @ [CHR 0x0A] @ '' a'' @ [CHR 0x0A] @ '' a'') (''a'' @ [CHR 0x0A] @ ''a'') ''xyzw'' True =
     Replaced '' xyzwyzw'' 2 ''line_trimmed''"
  by code_simp

end
