(* ===== verification/Patch_V4A_Props.thy ===== *)
theory Patch_V4A_Props
  imports Patch_V4A Text_Match_Props
begin

text \<open>
  A patch over several files is all or nothing: it refines the execution of its operations one after the other
  on a map from paths to contents, although the files are read once, written in the order of their paths
  and removed last; and when it reports that all changes were rolled back, every file has its contents again.
\<close>

section \<open>The abstract operations\<close>

type_synonym contents = "string \<rightharpoonup> string"

definition contents_of :: "fs_state \<Rightarrow> contents" where
  "contents_of st = (\<lambda>p. map_option of_data (fs_files st p))"

definition spec_op :: "go_lib \<Rightarrow> v4a_operation \<Rightarrow> contents \<Rightarrow> contents option" where
  "spec_op lib op fs =
     (let p = vo_path op; q = vo_newPath op in
      case vo_kind op of
        V4A_add \<Rightarrow> (case fs p of None \<Rightarrow> Some (fs(p \<mapsto> added_text op)) | Some _ \<Rightarrow> None)
      | V4A_delete \<Rightarrow> (case fs p of None \<Rightarrow> None | Some _ \<Rightarrow> Some (fs(p := None)))
      | V4A_move \<Rightarrow> (case (fs p, fs q) of (Some c, None) \<Rightarrow> Some (fs(q \<mapsto> c, p := None)) | _ \<Rightarrow> None)
      | V4A_update \<Rightarrow>
          (case fs p of None \<Rightarrow> None
           | Some c \<Rightarrow> (case applyV4AHunks lib c (vo_hunks op) of Inl _ \<Rightarrow> None | Inr (u, _) \<Rightarrow> Some (fs(p \<mapsto> u)))))"

fun spec_ops :: "go_lib \<Rightarrow> v4a_operation list \<Rightarrow> contents \<Rightarrow> contents option" where
  "spec_ops lib [] fs = Some fs"
| "spec_ops lib (op # ops) fs = (case spec_op lib op fs of None \<Rightarrow> None | Some fs' \<Rightarrow> spec_ops lib ops fs')"

section \<open>The simulated states\<close>

text \<open>The contents that the states stand for, over the contents of the files on disk.\<close>

definition view :: "v4a_states \<Rightarrow> contents \<Rightarrow> contents" where
  "view states fs0 = (\<lambda>p. case map_of states p of Some s \<Rightarrow> (if vs_exists s then Some (vs_content s) else None) | None \<Rightarrow> fs0 p)"

text \<open>What a state records of the file on disk.\<close>

definition records :: "contents \<Rightarrow> string \<Rightarrow> v4a_file_state \<Rightarrow> bool" where
  "records fs0 p s \<longleftrightarrow> fs0 p = (if vs_originalExists s then Some (vs_originalContent s) else None)"

definition faithful :: "contents \<Rightarrow> v4a_states \<Rightarrow> bool" where
  "faithful fs0 states \<longleftrightarrow> distinct (map fst states) \<and> (\<forall>p s. map_of states p = Some s \<longrightarrow> records fs0 p s)"

lemma map_of_put: "map_of (put_state p s states) = (map_of states)(p \<mapsto> s)"
proof (cases "p \<in> set (map fst states)")
  case True
  have "map_of (map (\<lambda>(q, t). if q = p then (q, s) else (q, t)) states) = (\<lambda>q. if q = p then map_option (\<lambda>_. s) (map_of states p) else map_of states q)"
    by (induction states) (auto simp: fun_eq_iff)
  moreover have "map_of states p \<noteq> None" using True by (auto simp: map_of_eq_None_iff image_iff)
  ultimately show ?thesis using True by (auto simp: put_state_def fun_eq_iff)
next
  case False
  then have "map_of states p = None" by (simp add: map_of_eq_None_iff)
  with False show ?thesis by (auto simp: put_state_def fun_eq_iff map_add_def split: option.splits)
qed

lemma fst_put: "map fst (put_state p s states) = (if p \<in> set (map fst states) then map fst states else map fst states @ [p])"
  by (auto simp: put_state_def comp_def split_beta)

lemma set_put [simp]: "fst ` set (put_state p s states) = insert p (fst ` set states)"
  using arg_cong [OF fst_put [of p s states], of set] by (auto split: if_splits)

lemma faithful_put: "faithful fs0 states \<Longrightarrow> records fs0 p s \<Longrightarrow> faithful fs0 (put_state p s states)"
  unfolding faithful_def map_of_put fst_put by auto

lemma view_put: "view (put_state p s states) fs0 = (view states fs0)(p := (if vs_exists s then Some (vs_content s) else None))"
  by (auto simp: view_def map_of_put fun_eq_iff)

lemma records_update [simp]:
  "records fs0 p (s\<lparr>vs_exists := b, vs_content := c\<rparr>) = records fs0 p s" "records fs0 p (s\<lparr>vs_content := c\<rparr>) = records fs0 p s"
  "records fs0 p (s\<lparr>vs_exists := b, vs_content := c, vs_mode := m\<rparr>) = records fs0 p s" "records fs0 p (s\<lparr>vs_exists := b\<rparr>) = records fs0 p s"
  by (simp_all add: records_def)

lemma load_spec:
  assumes "load env p states st = (r, st')" "faithful (contents_of st) states"
  shows "fs_files st' = fs_files st" "frame st st'"
    "r = Inr (s, states') \<Longrightarrow> faithful (contents_of st) states' \<and> map_of states' p = Some s \<and> view states' (contents_of st) = view states (contents_of st) \<and>
       fst ` set states' = insert p (fst ` set states)"
proof -
  have "fs_files st' = fs_files st \<and> frame st st' \<and> (\<forall>s states'. r = Inr (s, states') \<longrightarrow>
      faithful (contents_of st) states' \<and> map_of states' p = Some s \<and> view states' (contents_of st) = view states (contents_of st) \<and>
      fst ` set states' = insert p (fst ` set states))"
  proof (cases "map_of states p")
    case (Some s)
    then show ?thesis using assms by (auto simp: load_def dest: map_of_SomeD intro: rev_image_eqI)
  next
    case None
    then have new: "p \<notin> set (map fst states)" by (simp add: map_of_eq_None_iff)
    obtain q s1 where q: "ReadFile env p st = (q, s1)" by fastforce
    note rd = ReadFile_spec [OF q]
    obtain m s2 where m: "Stat_mode env p s1 = (m, s2)" by fastforce
    note sm = Stat_mode_spec [OF m]
    have fr: "fs_files s2 = fs_files st" "frame st s2" using rd sm frame_trans by auto
    show ?thesis
    proof (cases q)
      case (Inl e)
      show ?thesis
      proof (cases "e = Not_exist")
        case True
        then have absent: "fs_files st p = None" using rd(4) Inl by simp
        let ?s = "\<lparr>vs_exists = False, vs_content = [], vs_mode = 420, vs_originalExists = False, vs_originalContent = []\<rparr>"
        have "r = Inr (?s, put_state p ?s states)" "st' = s1" using assms(1) None q Inl True by (auto simp: load_def Let_def)
        moreover have "records (contents_of st) p ?s" using absent by (simp add: records_def contents_of_def)
        moreover have "view (put_state p ?s states) (contents_of st) = view states (contents_of st)"
          using None absent by (auto simp: view_def map_of_put contents_of_def fun_eq_iff)
        ultimately show ?thesis using rd(1,2) faithful_put [OF assms(2)] new by (auto simp: map_of_put)
      next
        case False
        then show ?thesis using assms(1) None q Inl rd(1,2) by (cases e) (auto simp: load_def)
      qed
    next
      case (Inr data)
      then obtain f where f: "fs_files st p = Some f" "of_data f = data" using rd(3) by blast
      let ?s = "\<lparr>vs_exists = True, vs_content = data, vs_mode = (case m of Inr mode \<Rightarrow> mode | Inl _ \<Rightarrow> 420), vs_originalExists = True, vs_originalContent = data\<rparr>"
      show ?thesis
      proof (cases "Valid_utf8 data")
        case False
        then show ?thesis using assms(1) None q Inr rd(1,2) by (auto simp: load_def)
      next
        case True
        have "r = Inr (?s, put_state p ?s states)" "st' = s2" using assms(1) None q Inr m True by (auto simp: load_def Let_def)
        moreover have "records (contents_of st) p ?s" using f by (simp add: records_def contents_of_def)
        moreover have "view (put_state p ?s states) (contents_of st) = view states (contents_of st)"
          using None f by (auto simp: view_def map_of_put contents_of_def fun_eq_iff)
        ultimately show ?thesis using fr faithful_put [OF assms(2)] new by (auto simp: map_of_put)
      qed
    qed
  qed
  then show "fs_files st' = fs_files st" "frame st st'"
    "r = Inr (s, states') \<Longrightarrow> faithful (contents_of st) states' \<and> map_of states' p = Some s \<and> view states' (contents_of st) = view states (contents_of st) \<and>
       fst ` set states' = insert p (fst ` set states)" by blast+
qed

lemma view_at: "map_of states p = Some s \<Longrightarrow> view states fs0 p = (if vs_exists s then Some (vs_content s) else None)"
  by (simp add: view_def)

lemma simulate_op_spec:
  assumes "simulate_op lib env op states st = (r, st')" "faithful (contents_of st) states" "vo_kind op = V4A_move \<Longrightarrow> vo_path op \<noteq> vo_newPath op"
  shows "fs_files st' = fs_files st \<and> frame st st' \<and> (\<forall>states' n. r = Inr (states', n) \<longrightarrow>
    faithful (contents_of st) states' \<and> spec_op lib op (view states (contents_of st)) = Some (view states' (contents_of st)) \<and>
    fst ` set states' = fst ` set states \<union> set (operation_paths [op]))"
proof -
  let ?fs0 = "contents_of st"
  obtain q1 st1 where l1: "load env (vo_path op) states st = (q1, st1)" by fastforce
  note ld1 = load_spec [OF l1 assms(2)]
  show ?thesis
  proof (cases q1)
    case (Inl e)
    then show ?thesis using assms(1) l1 ld1(1,2) by (auto simp: simulate_op_def)
  next
    case (Inr x)
    obtain s states1 where q1: "q1 = Inr (s, states1)" using Inr by (cases x) auto
    have s1: "faithful ?fs0 states1" "map_of states1 (vo_path op) = Some s" "view states1 ?fs0 = view states ?fs0"
      "fst ` set states1 = insert (vo_path op) (fst ` set states)" using ld1(3) [OF q1] by auto
    have vs: "view states ?fs0 (vo_path op) = (if vs_exists s then Some (vs_content s) else None)" using view_at [OF s1(2), of ?fs0] s1(3) by simp
    have rec: "records ?fs0 (vo_path op) s" using s1(1,2) by (auto simp: faithful_def)
    note run = assms(1) [unfolded simulate_op_def l1 q1 prod.case sum.case]
    have fin: ?thesis if "r = Inr (put_state (vo_path op) t states1, k)" "st' = st1" "records ?fs0 (vo_path op) t" "vo_kind op \<noteq> V4A_move"
      "spec_op lib op (view states ?fs0) = Some ((view states ?fs0)(vo_path op := (if vs_exists t then Some (vs_content t) else None)))" for t k
      using that ld1(1,2) s1(3,4) faithful_put [OF s1(1) that(3)] by (auto simp: view_put operation_paths_def)
    have err: ?thesis if "r = Inl e" "st' = st1" for e using that ld1(1,2) by simp
    show ?thesis
    proof (cases "vo_kind op")
      case V4A_add
      show ?thesis
      proof (cases "vs_exists s")
        case True
        then show ?thesis using run V4A_add err by auto
      next
        case False
        then show ?thesis using run V4A_add rec vs by (intro fin [of "s\<lparr>vs_exists := True, vs_content := added_text op\<rparr>" 1]) (auto simp: spec_op_def)
      qed
    next
      case V4A_delete
      show ?thesis
      proof (cases "vs_exists s")
        case False
        then show ?thesis using run V4A_delete err by auto
      next
        case True
        then show ?thesis using run V4A_delete rec vs by (intro fin [of "s\<lparr>vs_exists := False, vs_content := []\<rparr>" 1]) (auto simp: spec_op_def)
      qed
    next
      case V4A_update
      show ?thesis
      proof (cases "vs_exists s \<and> (\<exists>u k. applyV4AHunks lib (vs_content s) (vo_hunks op) = Inr (u, k))")
        case False
        then show ?thesis using run V4A_update err by (auto split: if_splits sum.splits)
      next
        case True
        then obtain u k where "applyV4AHunks lib (vs_content s) (vo_hunks op) = Inr (u, k)" by blast
        with True show ?thesis using run V4A_update rec vs by (intro fin [of "s\<lparr>vs_content := u\<rparr>" k]) (auto simp: spec_op_def)
      qed
    next
      case V4A_move
      have ne: "vo_path op \<noteq> vo_newPath op" using assms(3) V4A_move by simp
      obtain q2 st2 where l2: "load env (vo_newPath op) states1 st1 = (q2, st2)" by fastforce
      have c1: "contents_of st1 = ?fs0" using ld1(1) by (simp add: contents_of_def)
      note ld2 = load_spec [OF l2, unfolded c1, OF s1(1)]
      have fr: "fs_files st2 = fs_files st" "frame st st2" using ld1(1,2) ld2(1,2) frame_trans by auto
      show ?thesis
      proof (cases q2)
        case (Inl e)
        then show ?thesis using run V4A_move l2 fr by auto
      next
        case (Inr y)
        obtain d states2 where q2: "q2 = Inr (d, states2)" using Inr by (cases y) auto
        have s2: "faithful ?fs0 states2" "map_of states2 (vo_newPath op) = Some d" "view states2 ?fs0 = view states ?fs0"
          "fst ` set states2 = insert (vo_newPath op) (fst ` set states1)" using ld2(3) [OF q2] s1(3) by auto
        have vd: "view states ?fs0 (vo_newPath op) = (if vs_exists d then Some (vs_content d) else None)" using view_at [OF s2(2), of ?fs0] s2(3) by simp
        have recd: "records ?fs0 (vo_newPath op) d" using s2(1,2) by (auto simp: faithful_def)
        show ?thesis
        proof (cases "vs_exists s \<and> \<not> vs_exists d")
          case False
          then show ?thesis using run V4A_move l2 q2 fr by (auto split: if_splits)
        next
          case True
          let ?t = "put_state (vo_path op) (s\<lparr>vs_exists := False, vs_content := []\<rparr>)
              (put_state (vo_newPath op) (d\<lparr>vs_exists := True, vs_content := vs_content s, vs_mode := vs_mode s\<rparr>) states2)"
          have r: "r = Inr (?t, 1)" "st' = st2" using run V4A_move l2 q2 True by auto
          have "faithful ?fs0 ?t" using s2(1) rec recd by (intro faithful_put) auto
          moreover have "spec_op lib op (view states ?fs0) = Some (view ?t ?fs0)"
            using True V4A_move vs vd s2(3) by (simp add: spec_op_def view_put)
          moreover have "fst ` set ?t = fst ` set states \<union> set (operation_paths [op])"
            using s1(4) s2(4) V4A_move by (auto simp: fst_put operation_paths_def)
          ultimately show ?thesis using r fr by auto
        qed
      qed
    qed
  qed
qed

lemma simulate_ops_spec:
  assumes "simulate_ops lib env ops states n st = (r, st')" "faithful (contents_of st) states"
    "\<forall>op\<in>set ops. vo_kind op = V4A_move \<longrightarrow> vo_path op \<noteq> vo_newPath op"
  shows "fs_files st' = fs_files st \<and> frame st st' \<and> (\<forall>states' m. r = Inr (states', m) \<longrightarrow>
    faithful (contents_of st) states' \<and> spec_ops lib ops (view states (contents_of st)) = Some (view states' (contents_of st)) \<and>
    fst ` set states' = fst ` set states \<union> set (operation_paths ops))"
  using assms
proof (induction ops arbitrary: states n st r)
  case (Cons op ops)
  obtain q st1 where q: "simulate_op lib env op states st = (q, st1)" by fastforce
  have one: "vo_kind op = V4A_move \<Longrightarrow> vo_path op \<noteq> vo_newPath op" using Cons.prems(3) by simp
  note sp = simulate_op_spec [OF q Cons.prems(2) one]
  have c1: "contents_of st1 = contents_of st" using sp by (simp add: contents_of_def)
  show ?case
  proof (cases q)
    case (Inl e)
    then show ?thesis using Cons.prems(1) q sp by auto
  next
    case (Inr x)
    obtain states1 k where x: "q = Inr (states1, k)" using Inr by (cases x) auto
    have rest: "simulate_ops lib env ops states1 (n + k) st1 = (r, st')" using Cons.prems(1) q x by simp
    have f1: "faithful (contents_of st) states1" "spec_op lib op (view states (contents_of st)) = Some (view states1 (contents_of st))"
      "fst ` set states1 = fst ` set states \<union> set (operation_paths [op])" using sp x by auto
    have paths: "set (operation_paths (op # ops)) = set (operation_paths [op]) \<union> set (operation_paths ops)" by (simp add: operation_paths_def)
    show ?thesis using Cons.IH [OF rest, unfolded c1, OF f1(1)] Cons.prems(3) sp f1(2,3) frame_trans unfolding paths by auto
  qed
qed (auto simp: operation_paths_def)

lemma simulate_spec:
  assumes "simulateV4AOperations lib env ops st = (r, st')" "\<forall>op\<in>set ops. vo_kind op = V4A_move \<longrightarrow> vo_path op \<noteq> vo_newPath op"
  shows "fs_files st' = fs_files st" "frame st st'"
    "r = Inr states \<Longrightarrow> faithful (contents_of st) states \<and> spec_ops lib ops (contents_of st) = Some (view states (contents_of st)) \<and>
       fst ` set states = set (operation_paths ops)"
proof -
  obtain q st1 where q: "simulate_ops lib env ops [] 0 st = (q, st1)" by fastforce
  have "faithful (contents_of st) []" "view [] (contents_of st) = contents_of st" by (simp_all add: faithful_def view_def)
  then have sp: "fs_files st1 = fs_files st \<and> frame st st1 \<and> (\<forall>states' m. q = Inr (states', m) \<longrightarrow>
    faithful (contents_of st) states' \<and> spec_ops lib ops (contents_of st) = Some (view states' (contents_of st)) \<and>
    fst ` set states' = set (operation_paths ops))" using simulate_ops_spec [OF q _ assms(2)] by simp
  have st: "st' = st1" using assms(1) q by (auto simp: simulateV4AOperations_def split: sum.splits if_splits)
  then show "fs_files st' = fs_files st" "frame st st'" using sp by auto
  show "faithful (contents_of st) states \<and> spec_ops lib ops (contents_of st) = Some (view states (contents_of st)) \<and>
       fst ` set states = set (operation_paths ops)" if "r = Inr states"
  proof -
    have "\<exists>m. q = Inr (states, m)" using assms(1) q that by (auto simp: simulateV4AOperations_def split: sum.splits if_splits)
    then show ?thesis using sp by blast
  qed
qed

section \<open>Writing, removing, restoring\<close>

text \<open>The files after an update of some of the paths of the patch.\<close>

definition overlay :: "string set \<Rightarrow> (string \<Rightarrow> os_file option) \<Rightarrow> (string \<Rightarrow> os_file option) \<Rightarrow> string \<Rightarrow> os_file option" where
  "overlay P new A = (\<lambda>p. if p \<in> P then new p else A p)"

definition final_file :: "v4a_states \<Rightarrow> string \<Rightarrow> os_file option" where
  "final_file states p = Some \<lparr>of_data = vs_content (state_of states p), of_mode = file_mode (vs_mode (state_of states p))\<rparr>"

definition original_file :: "v4a_states \<Rightarrow> string \<Rightarrow> os_file option" where
  "original_file states p = Some \<lparr>of_data = vs_originalContent (state_of states p), of_mode = file_mode (vs_mode (state_of states p))\<rparr>"

definition to_write :: "v4a_states \<Rightarrow> string \<Rightarrow> bool" where
  "to_write states p \<longleftrightarrow> \<not> (\<not> vs_exists (state_of states p) \<or> vs_originalExists (state_of states p) \<and> vs_originalContent (state_of states p) = vs_content (state_of states p))"

definition to_remove :: "v4a_states \<Rightarrow> string \<Rightarrow> bool" where
  "to_remove states p \<longleftrightarrow> \<not> (vs_exists (state_of states p) \<or> \<not> vs_originalExists (state_of states p))"

text \<open>Files outside a set of paths are kept.\<close>

definition keeps_off :: "fs_env \<Rightarrow> string set \<Rightarrow> (string \<Rightarrow> os_file option) \<Rightarrow> (string \<Rightarrow> os_file option) \<Rightarrow> bool" where
  "keeps_off env P A B \<longleftrightarrow> (\<forall>p. p \<notin> P \<and> (A p \<noteq> None \<or> \<not> is_temp env p) \<longrightarrow> B p = A p)"

lemma keeps_offI: "keeps env (A(q := f)) B \<Longrightarrow> q \<in> P \<Longrightarrow> keeps_off env P A B" "keeps env A B \<Longrightarrow> keeps_off env P A B"
  unfolding keeps_def keeps_off_def by (metis fun_upd_apply)+

lemma keeps_off_trans: "keeps_off env P A B \<Longrightarrow> keeps_off env P B C \<Longrightarrow> keeps_off env P A C"
  by (auto simp: keeps_off_def)

lemma keeps_off_mono: "keeps_off env P A B \<Longrightarrow> P \<subseteq> Q \<Longrightarrow> keeps_off env Q A B"
  by (auto simp: keeps_off_def)

lemma keeps_overlay_step:
  assumes "keeps env (A(q := new q)) B" "keeps env (overlay P new B) C" "\<not> is_temp env q"
  shows "keeps env (overlay (insert q P) new A) C"
proof -
  have "C p = overlay (insert q P) new A p" if "overlay (insert q P) new A p \<noteq> None \<or> \<not> is_temp env p" for p
    using that assms by (cases "p = q"; cases "p \<in> P") (auto simp: keeps_def overlay_def)
  then show ?thesis by (simp add: keeps_def)
qed

lemma keeps_overlay_skip: "keeps env A B \<Longrightarrow> keeps env (overlay P new B) C \<Longrightarrow> keeps env (overlay P new A) C"
proof -
  assume a: "keeps env A B" "keeps env (overlay P new B) C"
  have "C p = overlay P new A p" if "overlay P new A p \<noteq> None \<or> \<not> is_temp env p" for p
    using that a by (cases "p \<in> P") (auto simp: keeps_def overlay_def)
  then show ?thesis by (simp add: keeps_def)
qed

lemma write_files_spec:
  assumes "write_files env states ps st = (r, st')" "\<forall>p\<in>set ps. \<not> is_temp env p"
  shows "frame st st' \<and> keeps_off env (set ps) (fs_files st) (fs_files st') \<and>
    (r = Inr () \<longrightarrow> keeps env (overlay {p \<in> set ps. to_write states p} (final_file states) (fs_files st)) (fs_files st'))"
  using assms
proof (induction ps arbitrary: st)
  case (Cons p ps)
  have p: "\<not> is_temp env p" "\<forall>p\<in>set ps. \<not> is_temp env p" using Cons.prems(2) by auto
  show ?case
  proof (cases "to_write states p")
    case False
    then have rest: "write_files env states ps st = (r, st')" using Cons.prems(1) by (auto simp: to_write_def Let_def split: if_splits)
    have "{q \<in> set (p # ps). to_write states q} = {q \<in> set ps. to_write states q}" using False by auto
    then show ?thesis using Cons.IH [OF rest p(2)] keeps_off_mono [of env "set ps" _ _ "set (p # ps)"] by auto
  next
    case True
    obtain r1 st1 where 1: "MkdirAll env (Dir p) st = (r1, st1)" by fastforce
    have f1: "fs_files st1 = fs_files st" "frame st st1" using os_call_files [where env = env and p = "Dir p" and st = st] 1 by auto
    let ?c = "vs_content (state_of states p)" and ?m = "file_mode (vs_mode (state_of states p))"
    obtain r2 st2 where 2: "atomicWriteFile env p ?c ?m st1 = (r2, st2)" by fastforce
    note w = atomicWriteFile_spec [OF 2 p(1), unfolded f1(1)]
    have fr: "frame st st2" using w(1) f1(2) frame_trans by blast
    have run: "io_then (r1, st1) (\<lambda>_ st. io_then (atomicWriteFile env p ?c ?m st) (\<lambda>_ st. write_files env states ps st)) = (r, st')"
      using Cons.prems(1) True 1 by (auto simp: to_write_def Let_def split: if_splits)
    show ?thesis
    proof (cases r1)
      case (Inl e)
      then show ?thesis using run f1 by (auto simp: io_then_def keeps_off_def)
    next
      case r1: (Inr u)
      show ?thesis
      proof (cases r2)
        case (Inl e)
        then show ?thesis using run r1 2 fr keeps_offI(2) [OF w(3) [OF Inl]] by (auto simp: io_then_def)
      next
        case (Inr u2)
        have rest: "write_files env states ps st2 = (r, st')" using run r1 2 Inr by (simp add: io_then_def)
        have up: "keeps env ((fs_files st)(p := final_file states p)) (fs_files st2)" using w(2) [OF Inr] by (simp add: final_file_def)
        have off: "keeps_off env (set (p # ps)) (fs_files st) (fs_files st2)" using keeps_offI(1) [OF up, of "set (p # ps)"] by simp
        note IH = Cons.IH [OF rest p(2)]
        have off': "keeps_off env (set (p # ps)) (fs_files st2) (fs_files st')" using IH keeps_off_mono [of env "set ps" _ _ "set (p # ps)"] by auto
        have ins: "{q \<in> set (p # ps). to_write states q} = insert p {q \<in> set ps. to_write states q}" using True by auto
        show ?thesis unfolding ins using IH keeps_off_trans [OF off off'] keeps_overlay_step [where new = "final_file states", OF up _ p(1)] frame_trans [OF fr] by blast
      qed
    qed
  qed
qed (auto simp: keeps_off_def overlay_def keeps_def)

lemma remove_step:
  assumes "Remove env p st = (r, st')" "r = Inr () \<or> r = Inl Not_exist \<or> r = Inl Not_dir"
  shows "frame st st'" "fs_files st' = (fs_files st)(p := None)"
proof -
  note sp = Remove_spec [OF assms(1)]
  show "frame st st'" by (fact sp(1))
  show "fs_files st' = (fs_files st)(p := None)" using assms(2) sp(2,3,4) by (auto simp: fun_upd_idem_iff)
qed

lemma remove_files_spec:
  assumes "remove_files env states ps st = (r, st')" "\<forall>p\<in>set ps. \<not> is_temp env p"
  shows "frame st st' \<and> keeps_off env (set ps) (fs_files st) (fs_files st') \<and>
    (r = Inr () \<longrightarrow> keeps env (overlay {p \<in> set ps. to_remove states p} (\<lambda>_. None) (fs_files st)) (fs_files st'))"
  using assms
proof (induction ps arbitrary: st)
  case (Cons p ps)
  have p: "\<not> is_temp env p" "\<forall>p\<in>set ps. \<not> is_temp env p" using Cons.prems(2) by auto
  show ?case
  proof (cases "to_remove states p")
    case False
    then have rest: "remove_files env states ps st = (r, st')" using Cons.prems(1) by (auto simp: to_remove_def Let_def split: if_splits)
    have "{q \<in> set (p # ps). to_remove states q} = {q \<in> set ps. to_remove states q}" using False by auto
    then show ?thesis using Cons.IH [OF rest p(2)] keeps_off_mono [of env "set ps" _ _ "set (p # ps)"] by auto
  next
    case True
    obtain r1 st1 where 1: "Remove env p st = (r1, st1)" by fastforce
    show ?thesis
    proof (cases "r1 = Inr () \<or> r1 = Inl Not_exist")
      case ok: True
      have f1: "frame st st1" "fs_files st1 = (fs_files st)(p := None)" using remove_step [OF 1] ok by auto
      have rest: "remove_files env states ps st1 = (r, st')" using Cons.prems(1) True 1 ok by (auto simp: to_remove_def Let_def split: if_splits)
      have up: "keeps env ((fs_files st)(p := (\<lambda>_. None) p)) (fs_files st1)" using f1(2) by simp
      note IH = Cons.IH [OF rest p(2)]
      have off: "keeps_off env (set (p # ps)) (fs_files st) (fs_files st1)" using f1(2) by (auto simp: keeps_off_def)
      have off': "keeps_off env (set (p # ps)) (fs_files st1) (fs_files st')" using IH keeps_off_mono [of env "set ps" _ _ "set (p # ps)"] by auto
      have ins: "{q \<in> set (p # ps). to_remove states q} = insert p {q \<in> set ps. to_remove states q}" using True by auto
      show ?thesis unfolding ins using IH keeps_off_trans [OF off off'] keeps_overlay_step [where new = "\<lambda>_. None", OF up _ p(1)] frame_trans [OF f1(1)] by blast
    next
      case False
      then obtain e where e: "r1 = Inl e" "e \<noteq> Not_exist" by (cases r1) auto
      then have "r = Inl e" "st' = st1" using Cons.prems(1) True 1 by (auto simp: to_remove_def Let_def split: if_splits)
      then show ?thesis using Remove_spec(1,3) [OF 1] e by (auto simp: keeps_off_def)
    qed
  qed
qed (auto simp: keeps_off_def overlay_def keeps_def)

lemma restore_files_spec:
  assumes "restore_files env states ps st = (es, st')" "\<forall>p\<in>set ps. \<not> is_temp env p"
  shows "frame st st' \<and> keeps_off env (set ps) (fs_files st) (fs_files st') \<and>
    (es = [] \<longrightarrow> keeps env (overlay {p \<in> set ps. vs_originalExists (state_of states p)} (original_file states) (fs_files st)) (fs_files st'))"
  using assms
proof (induction ps arbitrary: st es)
  case (Cons p ps)
  have p: "\<not> is_temp env p" "\<forall>p\<in>set ps. \<not> is_temp env p" using Cons.prems(2) by auto
  show ?case
  proof (cases "vs_originalExists (state_of states p)")
    case False
    then have rest: "restore_files env states ps st = (es, st')" using Cons.prems(1) by (simp add: Let_def)
    have "{q \<in> set (p # ps). vs_originalExists (state_of states q)} = {q \<in> set ps. vs_originalExists (state_of states q)}" using False by auto
    then show ?thesis using Cons.IH [OF rest p(2)] keeps_off_mono [of env "set ps" _ _ "set (p # ps)"] by auto
  next
    case True
    obtain r1 st1 where 1: "MkdirAll env (Dir p) st = (r1, st1)" by fastforce
    have f1: "fs_files st1 = fs_files st" "frame st st1" using os_call_files [where env = env and p = "Dir p" and st = st] 1 by auto
    let ?c = "vs_originalContent (state_of states p)" and ?m = "file_mode (vs_mode (state_of states p))"
    obtain r2 st2 where 2: "atomicWriteFile env p ?c ?m st1 = (r2, st2)" by fastforce
    note w = atomicWriteFile_spec [OF 2 p(1), unfolded f1(1)]
    have fr: "frame st st2" using w(1) f1(2) frame_trans by blast
    define s where "s = (case r1 of Inl _ \<Rightarrow> st1 | Inr _ \<Rightarrow> st2)"
    obtain es' where rest: "restore_files env states ps s = (es', st')" and es: "es = [] \<Longrightarrow> es' = [] \<and> r1 = Inr () \<and> r2 = Inr ()"
      using Cons.prems(1) True 1 2 by (auto simp: Let_def s_def split: sum.splits prod.splits)
    note IH = Cons.IH [OF rest p(2)]
    have off: "keeps_off env (set (p # ps)) (fs_files st) (fs_files s)"
      using w(2,3) f1(1) keeps_offI(1) [where P = "set (p # ps)" and q = p] keeps_offI(2) [where P = "set (p # ps)"]
      by (cases r1; cases r2) (auto simp: s_def)
    have off': "keeps_off env (set (p # ps)) (fs_files s) (fs_files st')" using IH keeps_off_mono [of env "set ps" _ _ "set (p # ps)"] by auto
    have ins: "{q \<in> set (p # ps). vs_originalExists (state_of states q)} = insert p {q \<in> set ps. vs_originalExists (state_of states q)}" using True by auto
    have "keeps env (overlay (insert p {q \<in> set ps. vs_originalExists (state_of states q)}) (original_file states) (fs_files st)) (fs_files st')" if "es = []"
    proof -
      have up: "keeps env ((fs_files st)(p := original_file states p)) (fs_files s)" using es [OF that] w(2) by (simp add: s_def original_file_def)
      show ?thesis using keeps_overlay_step [where new = "original_file states", OF up _ p(1)] IH es [OF that] by blast
    qed
    moreover have "frame st s" using f1(2) fr by (auto simp: s_def split: sum.splits)
    ultimately show ?thesis unfolding ins using IH keeps_off_trans [OF off off'] frame_trans by blast
  qed
qed (auto simp: keeps_off_def overlay_def keeps_def)

lemma remove_created_spec:
  assumes "remove_created env states ps st = (es, st')" "\<forall>p\<in>set ps. \<not> is_temp env p"
  shows "frame st st' \<and> keeps_off env (set ps) (fs_files st) (fs_files st') \<and>
    (es = [] \<longrightarrow> keeps env (overlay {p \<in> set ps. \<not> vs_originalExists (state_of states p)} (\<lambda>_. None) (fs_files st)) (fs_files st'))"
  using assms
proof (induction ps arbitrary: st es)
  case (Cons p ps)
  have p: "\<not> is_temp env p" "\<forall>p\<in>set ps. \<not> is_temp env p" using Cons.prems(2) by auto
  show ?case
  proof (cases "vs_originalExists (state_of states p)")
    case True
    then have rest: "remove_created env states ps st = (es, st')" using Cons.prems(1) by simp
    have "{q \<in> set (p # ps). \<not> vs_originalExists (state_of states q)} = {q \<in> set ps. \<not> vs_originalExists (state_of states q)}" using True by auto
    then show ?thesis using Cons.IH [OF rest p(2)] keeps_off_mono [of env "set ps" _ _ "set (p # ps)"] by auto
  next
    case False
    obtain r1 s where 1: "Remove env p st = (r1, s)" by fastforce
    obtain es' where rest: "remove_created env states ps s = (es', st')" and es: "es = [] \<Longrightarrow> es' = [] \<and> (r1 = Inr () \<or> r1 = Inl Not_exist \<or> r1 = Inl Not_dir)"
      using Cons.prems(1) False 1 by (auto split: sum.splits prod.splits if_splits)
    note IH = Cons.IH [OF rest p(2)]
    have off: "keeps_off env (set (p # ps)) (fs_files st) (fs_files s)" using Remove_spec(2,3) [OF 1] by (cases r1) (auto simp: keeps_off_def)
    have off': "keeps_off env (set (p # ps)) (fs_files s) (fs_files st')" using IH keeps_off_mono [of env "set ps" _ _ "set (p # ps)"] by auto
    have ins: "{q \<in> set (p # ps). \<not> vs_originalExists (state_of states q)} = insert p {q \<in> set ps. \<not> vs_originalExists (state_of states q)}" using False by auto
    have "keeps env (overlay (insert p {q \<in> set ps. \<not> vs_originalExists (state_of states q)}) (\<lambda>_. None) (fs_files st)) (fs_files st')" if "es = []"
    proof -
      have up: "keeps env ((fs_files st)(p := (\<lambda>_. None) p)) (fs_files s)" using es [OF that] remove_step(2) [OF 1] by auto
      show ?thesis using keeps_overlay_step [where new = "\<lambda>_. None", OF up _ p(1)] IH es [OF that] by blast
    qed
    then show ?thesis unfolding ins using IH keeps_off_trans [OF off off'] frame_trans [OF Remove_spec(1) [OF 1]] by blast
  qed
qed (auto simp: keeps_off_def overlay_def keeps_def)

text \<open>The paths the guarantees speak of: all but temporary files that did not exist before.\<close>

definition settled :: "fs_env \<Rightarrow> fs_state \<Rightarrow> string \<Rightarrow> bool" where
  "settled env st p \<longleftrightarrow> fs_files st p \<noteq> None \<or> \<not> is_temp env p"

lemma set_sorted_paths [simp]: "set (sorted_paths states) = fst ` set states"
  by (simp add: sorted_paths_def)

lemma state_of_key:
  assumes "p \<in> fst ` set states" "faithful fs0 states"
  shows "map_of states p = Some (state_of states p)" "records fs0 p (state_of states p)"
proof -
  obtain s where s: "map_of states p = Some s" using assms(1) by (metis map_of_eq_None_iff not_None_eq)
  then show "map_of states p = Some (state_of states p)" by (simp add: state_of_def)
  then show "records fs0 p (state_of states p)" using assms(2) by (simp add: faithful_def)
qed

lemma apply_success:
  assumes w: "keeps env (overlay {p \<in> fst ` set states. to_write states p} (final_file states) (fs_files st)) (fs_files st1)"
    and d: "keeps env (overlay {p \<in> fst ` set states. to_remove states p} (\<lambda>_. None) (fs_files st1)) (fs_files st2)"
    and f: "faithful (contents_of st) states" "\<forall>p\<in>fst ` set states. \<not> is_temp env p" and p: "settled env st p"
  shows "contents_of st2 p = view states (contents_of st) p"
proof (cases "p \<in> fst ` set states")
  case False
  then have "fs_files st1 p = fs_files st p" using w p by (auto simp: keeps_def overlay_def settled_def)
  then have "fs_files st2 p = fs_files st p" using d p False by (auto simp: keeps_def overlay_def settled_def)
  then show ?thesis using False by (simp add: contents_of_def view_def map_of_eq_None_iff split: option.splits) (metis image_eqI map_of_SomeD fst_conv)
next
  case True
  note s = state_of_key [OF True f(1)]
  have nt: "\<not> is_temp env p" using f(2) True by blast
  have 1: "fs_files st1 p = (if to_write states p then final_file states p else fs_files st p)" using w nt True by (auto simp: keeps_def overlay_def)
  have 2: "fs_files st2 p = (if to_remove states p then None else fs_files st1 p)" using d nt True by (auto simp: keeps_def overlay_def)
  have v: "view states (contents_of st) p = (if vs_exists (state_of states p) then Some (vs_content (state_of states p)) else None)" using view_at [OF s(1)] .
  have c: "map_option of_data (fs_files st p) = (if vs_originalExists (state_of states p) then Some (vs_originalContent (state_of states p)) else None)"
    using s(2) by (simp add: records_def contents_of_def)
  show ?thesis
  proof (cases "to_write states p")
    case True
    then have "\<not> to_remove states p" by (auto simp: to_write_def to_remove_def)
    then show ?thesis using 1 2 v True by (auto simp: contents_of_def final_file_def to_write_def)
  next
    case False
    then show ?thesis using 1 2 v c by (auto simp: contents_of_def to_write_def to_remove_def)
  qed
qed

lemma rollback_restores:
  assumes "rollbackV4AStates env states e0 st1 = (e, st2)" "keeps_off env (fst ` set states) (fs_files st) (fs_files st1)"
    "faithful (contents_of st) states" "\<forall>p\<in>fst ` set states. \<not> is_temp env p"
  shows "frame st1 st2" "(\<exists>es. e = Rollback_failed e0 es) \<or> (e = Rolled_back e0 \<and> (\<forall>p. settled env st p \<longrightarrow> contents_of st2 p = contents_of st p))"
proof -
  obtain es1 s1 where 1: "restore_files env states (sorted_paths states) st1 = (es1, s1)" by fastforce
  obtain es2 s2 where 2: "remove_created env states (rev (sorted_paths states)) s1 = (es2, s2)" by fastforce
  have sp1: "frame st1 s1 \<and> keeps_off env (fst ` set states) (fs_files st1) (fs_files s1) \<and>
    (es1 = [] \<longrightarrow> keeps env (overlay {p \<in> fst ` set states. vs_originalExists (state_of states p)} (original_file states) (fs_files st1)) (fs_files s1))"
    using restore_files_spec [OF 1] assms(4) by simp
  have sp2: "frame s1 s2 \<and> keeps_off env (fst ` set states) (fs_files s1) (fs_files s2) \<and>
    (es2 = [] \<longrightarrow> keeps env (overlay {p \<in> fst ` set states. \<not> vs_originalExists (state_of states p)} (\<lambda>_. None) (fs_files s1)) (fs_files s2))"
    using remove_created_spec [OF 2] assms(4) by simp
  have e: "e = (if es1 @ es2 \<noteq> [] then Rollback_failed e0 (es1 @ es2) else Rolled_back e0)" "st2 = s2"
    using assms(1) 1 2 by (auto simp: rollbackV4AStates_def)
  show "frame st1 st2" using sp1 sp2 e(2) frame_trans by blast
  show "(\<exists>es. e = Rollback_failed e0 es) \<or> (e = Rolled_back e0 \<and> (\<forall>p. settled env st p \<longrightarrow> contents_of st2 p = contents_of st p))"
  proof (cases "es1 @ es2 = []")
    case True
    have "contents_of s2 p = contents_of st p" if p: "settled env st p" for p
    proof (cases "p \<in> fst ` set states")
      case False
      then have "fs_files st1 p = fs_files st p" using assms(2) p by (auto simp: keeps_off_def settled_def)
      then have "fs_files s2 p = fs_files st p" using sp1 sp2 False p by (auto simp: keeps_off_def settled_def)
      then show ?thesis by (simp add: contents_of_def)
    next
      case key: True
      have nt: "\<not> is_temp env p" using assms(4) key by blast
      note rc = state_of_key(2) [OF key assms(3)]
      have "fs_files s1 p = (if vs_originalExists (state_of states p) then original_file states p else fs_files st1 p)"
        using sp1 True nt key by (auto simp: keeps_def overlay_def)
      moreover have "fs_files s2 p = (if vs_originalExists (state_of states p) then fs_files s1 p else None)"
        using sp2 True nt key by (auto simp: keeps_def overlay_def)
      ultimately show ?thesis using rc by (auto simp: records_def contents_of_def original_file_def)
    qed
    then show ?thesis using True e by simp
  qed (simp add: e)
qed

lemma apply_spec:
  assumes "applyV4AStates env states st = (r, st')" "faithful (contents_of st) states" "\<forall>p\<in>fst ` set states. \<not> is_temp env p"
  shows "frame st st'" "r = Inr () \<Longrightarrow> settled env st p \<Longrightarrow> contents_of st' p = view states (contents_of st) p"
    "r = Inl e \<Longrightarrow> (\<exists>e0 es. e = Rollback_failed e0 es) \<or> ((\<exists>e0. e = Rolled_back e0) \<and> (\<forall>p. settled env st p \<longrightarrow> contents_of st' p = contents_of st p))"
proof -
  obtain r1 st1 where 1: "write_files env states (sorted_paths states) st = (r1, st1)" by fastforce
  obtain r2 st2 where 2: "remove_files env states (sorted_paths states) st1 = (r2, st2)" by fastforce
  have w: "frame st st1 \<and> keeps_off env (fst ` set states) (fs_files st) (fs_files st1) \<and>
    (r1 = Inr () \<longrightarrow> keeps env (overlay {p \<in> fst ` set states. to_write states p} (final_file states) (fs_files st)) (fs_files st1))"
    using write_files_spec [OF 1] assms(3) by simp
  have d: "frame st1 st2 \<and> keeps_off env (fst ` set states) (fs_files st1) (fs_files st2) \<and>
    (r2 = Inr () \<longrightarrow> keeps env (overlay {p \<in> fst ` set states. to_remove states p} (\<lambda>_. None) (fs_files st1)) (fs_files st2))"
    using remove_files_spec [OF 2] assms(3) by simp
  have fr: "frame st st2" "keeps_off env (fst ` set states) (fs_files st) (fs_files st2)" using w d frame_trans keeps_off_trans by blast+
  define q where "q = (case r1 of Inl e \<Rightarrow> (Inl e, st1) | Inr _ \<Rightarrow> (r2, st2))"
  have run: "applyV4AStates env states st = (case q of (Inl e, st) \<Rightarrow> (case rollbackV4AStates env states (Sys e) st of (err, st) \<Rightarrow> (Inl err, st)) | (Inr _, st) \<Rightarrow> (Inr (), st))"
    using 1 2 by (auto simp: applyV4AStates_def io_then_def q_def split: sum.splits)
  have q: "frame st (snd q)" "keeps_off env (fst ` set states) (fs_files st) (fs_files (snd q))" using fr w by (auto simp: q_def split: sum.splits)
  have goal: "frame st st' \<and> (r = Inr () \<longrightarrow> (\<forall>p. settled env st p \<longrightarrow> contents_of st' p = view states (contents_of st) p)) \<and>
     (\<forall>e. r = Inl e \<longrightarrow> (\<exists>e0 es. e = Rollback_failed e0 es) \<or> ((\<exists>e0. e = Rolled_back e0) \<and> (\<forall>p. settled env st p \<longrightarrow> contents_of st' p = contents_of st p)))"
  proof (cases "fst q")
    case (Inl e0)
    obtain e s where rb: "rollbackV4AStates env states (Sys e0) (snd q) = (e, s)" by fastforce
    have res: "r = Inl e" "st' = s" using assms(1) run Inl rb by (cases q, auto)+
    show ?thesis using rollback_restores [OF rb q(2) assms(2,3)] q(1) frame_trans res by blast
  next
    case (Inr u)
    have "r1 = Inr ()" "r2 = Inr ()" "snd q = st2" using Inr by (auto simp: q_def split: sum.splits)
    then show ?thesis using assms(1) run Inr q(1) apply_success [of env states st st1 st2] w d assms(2,3) by (cases q) auto
  qed
  then show "frame st st'" "r = Inr () \<Longrightarrow> settled env st p \<Longrightarrow> contents_of st' p = view states (contents_of st) p"
    "r = Inl e \<Longrightarrow> (\<exists>e0 es. e = Rollback_failed e0 es) \<or> ((\<exists>e0. e = Rolled_back e0) \<and> (\<forall>p. settled env st p \<longrightarrow> contents_of st' p = contents_of st p))"
    by blast+
qed

section \<open>The whole operation\<close>

lemma release_all:
  "fs_locks st = held @ L \<Longrightarrow> fs_locks (fold (release env) held st) = L \<and> fs_files (fold (release env) held st) = fs_files st"
proof (induction held arbitrary: st)
  case (Cons p held)
  then have "fs_locks (release env p st) = held @ L" by (simp add: release_spec(4))
  from Cons.IH [OF this] show ?case by (simp add: release_spec(1))
qed simp

lemma acquire_all_spec:
  assumes "acquire_all env held ps st = (r, st')" "fs_locks st = held @ L"
  shows "fs_files st' = fs_files st \<and> fs_locks st' = (case r of Inl _ \<Rightarrow> L | Inr _ \<Rightarrow> rev ps @ held @ L)"
  using assms
proof (induction ps arbitrary: held st)
  case (Cons p ps)
  obtain q st1 where q: "acquirePathLock env p st = (q, st1)" by fastforce
  note a = acquire_spec [OF q]
  show ?case
  proof (cases q)
    case (Inl e)
    have "fs_locks st1 = held @ L" using a(4) Inl Cons.prems(2) by simp
    from release_all [OF this, of env] show ?thesis using Cons.prems(1) q Inl a(1) by auto
  next
    case (Inr u)
    have l: "fs_locks st1 = (p # held) @ L" using a(4) Inr Cons.prems(2) by simp
    have rest: "acquire_all env (p # held) ps st1 = (r, st')" using Cons.prems(1) q Inr by simp
    show ?thesis using Cons.IH [OF rest l] a(1) by (simp split: sum.splits)
  qed
qed auto

lemma resolve_moves:
  "resolve_paths rc ops = Inr ops' \<Longrightarrow> \<forall>op\<in>set ops'. vo_kind op = V4A_move \<longrightarrow> vo_path op \<noteq> vo_newPath op"
  by (induction ops arbitrary: ops') (auto split: sum.splits if_splits)

lemma contents_cong: "fs_files st = fs_files st' \<Longrightarrow> contents_of st = contents_of st'" "fs_files st = fs_files st' \<Longrightarrow> settled env st = settled env st'"
  by (auto simp: contents_of_def settled_def fun_eq_iff)

lemma emit_files: "fs_files (emitWorkspaceMutation rc v st) = fs_files st" "fs_locks (emitWorkspaceMutation rc v st) = fs_locks st"
  by (simp_all add: emitWorkspaceMutation_def Let_def)

text \<open>What a finished patch leaves behind: the files of the operations executed one after the other, the
  files as they were, or the report that the rollback failed too.\<close>

definition patched :: "file_ctx \<Rightarrow> v4a_operation list \<Rightarrow> fs_state \<Rightarrow> fs_state \<Rightarrow> bool" where
  "patched rc ops st st' \<longleftrightarrow>
     (\<exists>fs'. spec_ops (fc_lib rc) ops (contents_of st) = Some fs' \<and> (\<forall>p. settled (fc_env rc) st p \<longrightarrow> contents_of st' p = fs' p))"

definition untouched :: "file_ctx \<Rightarrow> fs_state \<Rightarrow> fs_state \<Rightarrow> bool" where
  "untouched rc st st' \<longleftrightarrow> (\<forall>p. settled (fc_env rc) st p \<longrightarrow> contents_of st' p = contents_of st p)"

lemma locked_spec:
  assumes "patchV4A_locked rc inp ops st = (r, st')" "\<forall>op\<in>set ops. vo_kind op = V4A_move \<longrightarrow> vo_path op \<noteq> vo_newPath op"
    "\<forall>p\<in>set (operation_paths ops). \<not> is_temp (fc_env rc) p" "\<forall>v. marshal (fc_lib rc) v \<noteq> None"
  shows "fs_locks st' = fs_locks st" "case r of Inr v \<Rightarrow> patched rc ops st st' \<and> fs_dirty st'
     | Inl e \<Rightarrow> untouched rc st st' \<or> (\<exists>e0 es. e = At ''patch apply failed'' (Rollback_failed e0 es))"
proof -
  obtain q st1 where 1: "simulateV4AOperations (fc_lib rc) (fc_env rc) ops st = (q, st1)" by fastforce
  note sim = simulate_spec [OF 1 assms(2)]
  note c1 = contents_cong [OF sim(1)]
  have un: "untouched rc st s" if "fs_files s = fs_files st" for s using that by (simp add: untouched_def contents_of_def)
  have goal: "fs_locks st' = fs_locks st \<and> (case r of Inr v \<Rightarrow> patched rc ops st st' \<and> fs_dirty st'
     | Inl e \<Rightarrow> untouched rc st st' \<or> (\<exists>e0 es. e = At ''patch apply failed'' (Rollback_failed e0 es)))"
  proof (cases q)
    case (Inl e)
    then show ?thesis using assms(1) 1 sim(1,2) un by (auto simp: patchV4A_locked_def frame_def)
  next
    case (Inr states)
    have s: "faithful (contents_of st1) states" "spec_ops (fc_lib rc) ops (contents_of st) = Some (view states (contents_of st))"
      "\<forall>p\<in>fst ` set states. \<not> is_temp (fc_env rc) p" using sim(3) [OF Inr] assms(3) c1 by auto
    show ?thesis
    proof (cases "validateV4AExpectedHashes rc inp states")
      case (Some e)
      then show ?thesis using assms(1) 1 Inr sim(1,2) un by (auto simp: patchV4A_locked_def frame_def)
    next
      case None
      obtain r2 st2 where 2: "applyV4AStates (fc_env rc) states st1 = (r2, st2)" by fastforce
      note ap = apply_spec [OF 2 s(1,3)]
      have fr: "fs_locks st2 = fs_locks st" using ap(1) sim(2) by (simp add: frame_def)
      show ?thesis
      proof (cases r2)
        case (Inl e)
        then have "r = Inl (At ''patch apply failed'' e)" "st' = st2" using assms(1) 1 2 Inr None by (auto simp: patchV4A_locked_def)
        then show ?thesis using ap(3) [OF Inl] fr c1 by (auto simp: untouched_def)
      next
        case r2: (Inr u)
        let ?v = "patch_value (fc_lib rc) states"
        have "r = Inr ?v" "st' = emitWorkspaceMutation rc ?v st2"
          using assms(1) spec [OF assms(4), of ?v] 1 2 Inr None r2 by (auto simp: patchV4A_locked_def ResultFromValue_def Let_def)
        moreover have "patched rc ops st st2" using ap(2) r2 s(2) c1 by (auto simp: patched_def)
        ultimately show ?thesis using fr by (simp add: emit_files patched_def contents_of_def emitWorkspaceMutation_def Let_def)
      qed
    qed
  qed
  then show "fs_locks st' = fs_locks st" "case r of Inr v \<Rightarrow> patched rc ops st st' \<and> fs_dirty st'
     | Inl e \<Rightarrow> untouched rc st st' \<or> (\<exists>e0 es. e = At ''patch apply failed'' (Rollback_failed e0 es))" by auto
qed

text \<open>C6: A multi-file patch is all or nothing, for every sequence of failing system calls. If it
  succeeds, the files are what executing its operations one after the other on a map from paths to
  contents gives, although the files are written in the order of their paths and removed last. If it fails, every file
  has the contents it had (only temporary files may be left over), unless the error reports that the rollback
  failed as well. In every case the locks that were taken are given back.\<close>

theorem patch_all_or_nothing:
  assumes "patchV4A rc inp st = (r, st')" "\<forall>v. marshal (fc_lib rc) v \<noteq> None"
    "\<forall>ops ops'. parseV4APatch (fc_lib rc) (pi_Patch inp) = Inr ops \<and> resolve_paths rc ops = Inr ops' \<longrightarrow>
       (\<forall>p\<in>set (operation_paths ops'). \<not> is_temp (fc_env rc) p)"
  shows "fs_locks st' = fs_locks st \<and>
    (case r of
       Inr v \<Rightarrow> \<exists>ops ops'. parseV4APatch (fc_lib rc) (pi_Patch inp) = Inr ops \<and> resolve_paths rc ops = Inr ops' \<and> patched rc ops' st st' \<and> fs_dirty st'
     | Inl e \<Rightarrow> untouched rc st st' \<or> (\<exists>e0 es. e = At ''patch apply failed'' (Rollback_failed e0 es)))"
proof -
  have early: ?thesis if "r = Inl e" "st' = st" for e using that by (simp add: untouched_def)
  show ?thesis
  proof (cases "TrimSpace (pi_Patch inp) = [] \<or> (\<exists>e. parseV4APatch (fc_lib rc) (pi_Patch inp) = Inl e)")
    case True
    then show ?thesis using assms(1) early by (auto simp: patchV4A_def split: if_splits)
  next
    case False
    then obtain ops where ops: "parseV4APatch (fc_lib rc) (pi_Patch inp) = Inr ops" by (metis sumE)
    show ?thesis
    proof (cases "resolve_paths rc ops")
      case (Inl e)
      then show ?thesis using assms(1) early False ops by (auto simp: patchV4A_def)
    next
      case (Inr ops')
      let ?ps = "sort (remdups (operation_paths ops'))"
      obtain q st1 where 1: "acquire_all (fc_env rc) [] ?ps st = (q, st1)" by fastforce
      have a: "fs_files st1 = fs_files st" "fs_locks st1 = (case q of Inl _ \<Rightarrow> fs_locks st | Inr _ \<Rightarrow> rev ?ps @ fs_locks st)"
        using acquire_all_spec [OF 1, of "fs_locks st"] by (simp_all split: sum.splits)
      note c1 = contents_cong [OF a(1)]
      show ?thesis
      proof (cases q)
        case (Inl e)
        then show ?thesis using assms(1) False ops Inr 1 a by (auto simp: patchV4A_def Let_def untouched_def contents_of_def)
      next
        case q: (Inr u)
        obtain r2 st2 where 2: "patchV4A_locked rc inp ops' st1 = (r2, st2)" by fastforce
        have temps: "\<forall>p\<in>set (operation_paths ops'). \<not> is_temp (fc_env rc) p" using assms(3) ops Inr by blast
        note lk = locked_spec [OF 2 resolve_moves [OF Inr] temps assms(2)]
        have res: "r = r2" "st' = fold (release (fc_env rc)) (rev ?ps) st2" using assms(1) False ops Inr 1 q 2 by (auto simp: patchV4A_def Let_def)
        have held: "fs_locks st2 = rev ?ps @ fs_locks st" using lk(1) a(2) q by simp
        note rel = release_all [OF held, of "fc_env rc"]
        have dirty: "fs_dirty (fold (release env) xs s) = fs_dirty s" for env xs s by (induction xs arbitrary: s) (simp_all add: release_spec(2))
        have cs: "contents_of st' = contents_of st2" using rel res(2) by (simp add: contents_of_def)
        show ?thesis using rel lk(2) ops Inr c1 cs unfolding res
          by (cases r2) (auto simp: patched_def untouched_def dirty)
      qed
    qed
  qed
qed

definition calm_env :: fs_env where
  "calm_env = \<lparr>fault_at = (\<lambda>_. Done), written_at = (\<lambda>_. 0), temp_name = (\<lambda>_ _. ''/tmp/t''), range_order = (\<lambda>ps. ps)\<rparr>"

definition calm_ctx :: file_ctx where
  "calm_ctx = \<lparr>fc_lib = ascii_lib\<lparr>marshal := (\<lambda>_. Some [])\<rparr>, fc_view = plain_disk, fc_env = calm_env,
     fc_workspace = plain_workspace\<lparr>ws_Kind := ''worktree''\<rparr>, fc_emits = True\<rparr>"

definition example_patch :: patch_input where
  "example_patch = \<lparr>pi_Path = [], pi_Mode = ''patch'', pi_OldString = [], pi_NewString = [], pi_ReplaceAll = False,
     pi_Patch = Join [''*** Begin Patch'', ''*** Add File: a.txt'', ''+hi'', ''*** Move File: b.txt -> c.txt'', ''*** End Patch''] [CHR 0x0A],
     pi_ExpectedSHA256 = [], pi_ExpectedSHA256ByPath = []\<rparr>"

definition example_disk :: fs_state where
  "example_disk = \<lparr>fs_files = [''/ws/b.txt'' \<mapsto> \<lparr>of_data = ''bye'', of_mode = 420\<rparr>], fs_calls = 0, fs_locks = [], fs_dirty = False, fs_events = []\<rparr>"

theorem patch_all_or_nothing_witness:
  "isl (fst (patchV4A calm_ctx example_patch example_disk)) = False \<and>
   (\<exists>ops'. patched calm_ctx ops' example_disk (snd (patchV4A calm_ctx example_patch example_disk))) \<and>
   map (contents_of (snd (patchV4A calm_ctx example_patch example_disk))) [''/ws/a.txt'', ''/ws/b.txt'', ''/ws/c.txt''] = [Some ''hi'', None, Some ''bye'']"
proof -
  obtain r st' where r: "patchV4A calm_ctx example_patch example_disk = (r, st')" by fastforce
  have ok: "isl (fst (patchV4A calm_ctx example_patch example_disk)) = False" by code_simp
  have vals: "map (contents_of (snd (patchV4A calm_ctx example_patch example_disk))) [''/ws/a.txt'', ''/ws/b.txt'', ''/ws/c.txt''] = [Some ''hi'', None, Some ''bye'']"
    by code_simp
  have "(case parseV4APatch (fc_lib calm_ctx) (pi_Patch example_patch) of Inl _ \<Rightarrow> True
     | Inr ops \<Rightarrow> (case resolve_paths calm_ctx ops of Inl _ \<Rightarrow> True | Inr ops' \<Rightarrow> list_all (\<lambda>p. p \<noteq> ''/tmp/t'') (operation_paths ops')))" by code_simp
  then have temps: "\<forall>ops ops'. parseV4APatch (fc_lib calm_ctx) (pi_Patch example_patch) = Inr ops \<and> resolve_paths calm_ctx ops = Inr ops' \<longrightarrow>
     (\<forall>p\<in>set (operation_paths ops'). \<not> is_temp (fc_env calm_ctx) p)"
    by (auto simp: is_temp_def calm_ctx_def calm_env_def list_all_iff)
  have m: "\<forall>v. marshal (fc_lib calm_ctx) v \<noteq> None" by (simp add: calm_ctx_def)
  show ?thesis using patch_all_or_nothing [OF r m temps] ok vals r by (cases r) auto
qed

text \<open>The rollback and permission bits: when a patch deletes a file and moves another one into its place, the state of
  the path takes the mode of the moved file, and a rollback restores the deleted file with that mode.\<close>

definition move_over :: "v4a_operation list" where
  "move_over =
     [\<lparr>vo_kind = V4A_delete, vo_rawPath = ''b'', vo_rawNewPath = [], vo_path = ''/ws/b'', vo_newPath = [], vo_hunks = []\<rparr>,
      \<lparr>vo_kind = V4A_move, vo_rawPath = ''a'', vo_rawNewPath = ''b'', vo_path = ''/ws/a'', vo_newPath = ''/ws/b'', vo_hunks = []\<rparr>]"

definition move_over_disk :: fs_state where
  "move_over_disk = \<lparr>fs_files = [''/ws/a'' \<mapsto> \<lparr>of_data = ''run'', of_mode = 493\<rparr>, ''/ws/b'' \<mapsto> \<lparr>of_data = ''secret'', of_mode = 384\<rparr>],
     fs_calls = 0, fs_locks = [], fs_dirty = False, fs_events = []\<rparr>"

definition failing_env :: fs_env where
  "failing_env = calm_env\<lparr>fault_at := (\<lambda>n. if n = 12 then Fails ''permission denied'' else Done)\<rparr>"

lemma rollback_changes_mode:
  "(case simulateV4AOperations ascii_lib failing_env move_over move_over_disk of (Inr states, st) \<Rightarrow>
      (case applyV4AStates failing_env states st of (r, st') \<Rightarrow>
         r = Inl (Rolled_back (Sys (Os_error ''permission denied''))) \<and>
         fs_files st' ''/ws/b'' = Some \<lparr>of_data = ''secret'', of_mode = 493\<rparr> \<and> fs_files move_over_disk ''/ws/b'' = Some \<lparr>of_data = ''secret'', of_mode = 384\<rparr>)
    | _ \<Rightarrow> False)"
  by code_simp

end
