(* ===== verification/File_Tools_Props.thy ===== *)
theory File_Tools_Props
  imports File_Tools Patch_V4A_Props
begin

text \<open>
  The memoised glob matcher decides the reference relation; paging through a file makes progress, shows every line
  and stays within the character budget; a tool that fails changes no file, and one that succeeds
  changes its own files alone, and in a shared workspace only a version its caller has named.
\<close>

section \<open>Globs\<close>

text \<open>The reference: a \<^verbatim>\<open>**\<close> stands for any number of segments, every other segment for one.\<close>

fun glob :: "(string \<Rightarrow> string \<Rightarrow> bool) \<Rightarrow> string list \<Rightarrow> string list \<Rightarrow> bool" where
  "glob m [] cs \<longleftrightarrow> cs = []"
| "glob m (p # ps) cs \<longleftrightarrow>
     (if p = ''**'' then \<exists>k\<le>length cs. glob m ps (drop k cs) else cs \<noteq> [] \<and> m p (hd cs) \<and> glob m ps (tl cs))"

lemma glob_stars: "glob m (''**'' # ps) cs \<longleftrightarrow> glob m ps cs \<or> cs \<noteq> [] \<and> glob m (''**'' # ps) (tl cs)"
proof (cases cs)
  case (Cons c ds)
  have "(\<exists>k\<le>Suc (length ds). glob m ps (drop k (c # ds))) \<longleftrightarrow> glob m ps (c # ds) \<or> (\<exists>k\<le>length ds. glob m ps (drop k ds))"
  proof
    assume "\<exists>k\<le>Suc (length ds). glob m ps (drop k (c # ds))"
    then obtain k where "k \<le> Suc (length ds)" "glob m ps (drop k (c # ds))" by blast
    then show "glob m ps (c # ds) \<or> (\<exists>k\<le>length ds. glob m ps (drop k ds))" by (cases k) auto
  next
    assume "glob m ps (c # ds) \<or> (\<exists>k\<le>length ds. glob m ps (drop k ds))"
    then show "\<exists>k\<le>Suc (length ds). glob m ps (drop k (c # ds))"
      by (metis Suc_le_mono drop0 drop_Suc_Cons le0)
  qed
  then show ?thesis using Cons by simp
qed simp

text \<open>The memo holds right answers for all keys at or after a position; the keys that are being searched lie before it.\<close>

definition glob_at :: "(string \<Rightarrow> string \<Rightarrow> string + bool) \<Rightarrow> string list \<Rightarrow> string list \<Rightarrow> nat \<Rightarrow> nat \<Rightarrow> bool" where
  "glob_at segment ps cs i j = glob (\<lambda>p c. segment p c = Inr True) (drop i ps) (drop j cs)"

definition memo_ok :: "(nat \<Rightarrow> nat \<Rightarrow> bool) \<Rightarrow> nat \<Rightarrow> nat \<Rightarrow> glob_memo \<Rightarrow> bool" where
  "memo_ok G i j memo \<longleftrightarrow> (\<forall>i' j' b. i \<le> i' \<and> j \<le> j' \<and> memo (i', j') = Some b \<longrightarrow> b = G i' j')"

definition memo_keeps :: "nat \<Rightarrow> nat \<Rightarrow> glob_memo \<Rightarrow> glob_memo \<Rightarrow> bool" where
  "memo_keeps i j memo memo' \<longleftrightarrow> (\<forall>i' j'. \<not> (i \<le> i' \<and> j \<le> j') \<longrightarrow> memo' (i', j') = memo (i', j'))"

lemma glob_at_end: "length ps \<le> i \<Longrightarrow> j \<le> length cs \<Longrightarrow> glob_at segment ps cs i j = (j = length cs)"
  by (auto simp: glob_at_def)

lemma glob_at_stars: "i < length ps \<Longrightarrow> ps ! i = ''**'' \<Longrightarrow> j \<le> length cs \<Longrightarrow>
  glob_at segment ps cs i j \<longleftrightarrow> glob_at segment ps cs (i + 1) j \<or> j < length cs \<and> glob_at segment ps cs i (j + 1)"
proof -
  assume a: "i < length ps" "ps ! i = ''**''" "j \<le> length cs"
  have d: "drop i ps = ''**'' # drop (i + 1) ps" using a(1,2) Cons_nth_drop_Suc [of i ps] by simp
  have t: "tl (drop j cs) = drop (j + 1) cs" "drop j cs \<noteq> [] \<longleftrightarrow> j < length cs" by (simp_all add: tl_drop drop_Suc not_le)
  show ?thesis unfolding glob_at_def d using glob_stars [of _ "drop (i + 1) ps" "drop j cs"] unfolding t .
qed

lemma glob_at_one: "i < length ps \<Longrightarrow> ps ! i \<noteq> ''**'' \<Longrightarrow> j \<le> length cs \<Longrightarrow>
  glob_at segment ps cs i j \<longleftrightarrow> j < length cs \<and> segment (ps ! i) (cs ! j) = Inr True \<and> glob_at segment ps cs (i + 1) (j + 1)"
  unfolding glob_at_def by (subst (1) Cons_nth_drop_Suc [symmetric]) (auto simp: hd_drop_conv_nth drop_Suc tl_drop)

lemma glob_match_correct:
  assumes "memo_ok (glob_at segment ps cs) i j memo" "\<forall>p\<in>set ps. p \<noteq> ''**'' \<longrightarrow> (\<forall>c. \<not> isl (segment p c))" "j \<le> length cs"
    "glob_match segment ps cs i j memo = (r, memo')"
  shows "r = Inr (glob_at segment ps cs i j) \<and> memo_ok (glob_at segment ps cs) i j memo' \<and> memo_keeps i j memo memo'"
  using assms
proof (induction segment ps cs i j memo arbitrary: r memo' rule: glob_match.induct)
  case (1 segment ps cs i j memo)
  let ?G = "glob_at segment ps cs"
  note prems = "1.prems"
  have fin: ?case if "r = Inr v" "memo' = m((i, j) \<mapsto> v)" "?G i j = v" "memo_ok ?G (i + 1) j m" "\<forall>j'>j. \<forall>b. m (i, j') = Some b \<longrightarrow> b = ?G i j'" "\<forall>i' j'. \<not> (i \<le> i' \<and> j \<le> j') \<longrightarrow> m (i', j') = memo (i', j')" for m v
  proof (intro conjI)
    show "r = Inr (?G i j)" using that(1,3) by simp
    show "memo_keeps i j memo memo'" using that(2,6) by (auto simp: memo_keeps_def)
    show "memo_ok ?G i j memo'" unfolding memo_ok_def
    proof (intro allI impI)
      fix i' j' b assume a: "i \<le> i' \<and> j \<le> j' \<and> memo' (i', j') = Some b"
      consider "(i', j') = (i, j)" | "i' = i" "j < j'" | "i + 1 \<le> i'" using a by fastforce
      then show "b = ?G i' j'"
      proof cases
        case 2
        then show ?thesis using a that(2,5) by auto
      next
        case 3
        then have "m (i', j') = Some b" using a that(2) by auto
        then show ?thesis using 3 a that(4) unfolding memo_ok_def by blast
      qed (use a that(2,3) in auto)
    qed
  qed
  show ?case
  proof (cases "memo (i, j)")
    case (Some b)
    then show ?thesis using prems by (subst (asm) glob_match.simps) (auto simp: memo_ok_def memo_keeps_def)
  next
    case None
    let ?m = "memo((i, j) \<mapsto> False)"
    have base: "memo_ok ?G (i + 1) j ?m" "memo_ok ?G (i + 1) (j + 1) ?m" "\<forall>j'>j. \<forall>b. ?m (i, j') = Some b \<longrightarrow> b = ?G i j'"
      "\<forall>i' j'. \<not> (i \<le> i' \<and> j \<le> j') \<longrightarrow> ?m (i', j') = memo (i', j')" "memo_ok ?G i (j + 1) ?m"
      using prems(1) by (auto simp: memo_ok_def)
    show ?thesis
    proof (cases "length ps \<le> i")
      case True
      then have "r = Inr (j = length cs)" "memo' = ?m((i, j) \<mapsto> (j = length cs))" using prems(4) None by (auto simp: glob_match.simps [of _ _ _ _ _ memo])
      then show ?thesis by (rule fin [OF _ _ glob_at_end [OF True prems(3)] base(1,3,4)])
    next
      case i: False
      then have il: "i < length ps" by simp
      show ?thesis
      proof (cases "ps ! i = ''**''")
        case star: True
        obtain r1 m1 where 1: "glob_match segment ps cs (i + 1) j ?m = (r1, m1)" by fastforce
        have c1: "r1 = Inr (?G (i + 1) j) \<and> memo_ok ?G (i + 1) j m1 \<and> memo_keeps (i + 1) j ?m m1"
          using "1.IH"(1) [OF None refl i star base(1) prems(2,3) 1] by (simp add: fun_upd_def)
        have k1: "\<forall>j'>j. \<forall>b. m1 (i, j') = Some b \<longrightarrow> b = ?G i j'" "\<forall>i' j'. \<not> (i \<le> i' \<and> j \<le> j') \<longrightarrow> m1 (i', j') = memo (i', j')"
          using c1 base(3,4) by (auto simp: memo_keeps_def)
        note st = glob_at_stars [OF il star prems(3), of segment]
        show ?thesis
        proof (cases "?G (i + 1) j")
          case True
          then have "r = Inr True" "memo' = m1((i, j) \<mapsto> True)" using prems(4) None i star 1 c1 by (auto simp: glob_match.simps [of _ _ _ i j memo])
          then show ?thesis by (rule fin [OF _ _ _ _ k1]) (use c1 st True in blast)+
        next
          case no: False
          show ?thesis
          proof (cases "j < length cs")
            case False
            have "m1 (i, j) = Some False" using c1 by (auto simp: memo_keeps_def)
            then have m1: "m1((i, j) \<mapsto> False) = m1" by auto
            have "r = Inr False" "memo' = m1" using prems(4) None i star 1 c1 no False by (auto simp: glob_match.simps [of _ _ _ i j memo])
            then show ?thesis by (intro fin [OF _ _ _ _ k1, of False]) (use c1 st no False m1 in simp_all)
          next
            case j: True
            obtain r2 m2 where 2: "glob_match segment ps cs i (j + 1) m1 = (r2, m2)" by fastforce
            have ok: "memo_ok ?G i (j + 1) m1" unfolding memo_ok_def
            proof (intro allI impI)
              fix i' j' b assume a: "i \<le> i' \<and> j + 1 \<le> j' \<and> m1 (i', j') = Some b"
              show "b = ?G i' j'"
              proof (cases "i' = i")
                case True
                then show ?thesis using a k1(1) by (metis Suc_eq_plus1 Suc_le_eq)
              next
                case False
                then have "i + 1 \<le> i' \<and> j \<le> j' \<and> m1 (i', j') = Some b" using a by simp
                then show ?thesis using c1 unfolding memo_ok_def by blast
              qed
            qed
            have c2: "r2 = Inr (?G i (j + 1)) \<and> memo_ok ?G i (j + 1) m2 \<and> memo_keeps i (j + 1) m1 m2"
            proof -
              have r1: "r1 = Inr False" "j + 1 \<le> length cs" using c1 no j by auto
              show ?thesis by (rule "1.IH"(2) [OF None refl i star 1 [symmetric] r1(1) refl j ok prems(2) r1(2) 2])
            qed
            have k2: "memo_ok ?G (i + 1) j m2" "\<forall>j'>j. \<forall>b. m2 (i, j') = Some b \<longrightarrow> b = ?G i j'" "\<forall>i' j'. \<not> (i \<le> i' \<and> j \<le> j') \<longrightarrow> m2 (i', j') = memo (i', j')"
            proof -
              show "memo_ok ?G (i + 1) j m2" unfolding memo_ok_def
              proof (intro allI impI)
                fix i' j' b assume a: "i + 1 \<le> i' \<and> j \<le> j' \<and> m2 (i', j') = Some b"
                show "b = ?G i' j'"
                proof (cases "j + 1 \<le> j'")
                  case True
                  then have "i \<le> i' \<and> j + 1 \<le> j' \<and> m2 (i', j') = Some b" using a by simp
                  then show ?thesis using c2 unfolding memo_ok_def by blast
                next
                  case False
                  then have "m2 (i', j') = m1 (i', j')" using c2 by (simp add: memo_keeps_def)
                  then have "i + 1 \<le> i' \<and> j \<le> j' \<and> m1 (i', j') = Some b" using a by simp
                  then show ?thesis using c1 unfolding memo_ok_def by blast
                qed
              qed
              show "\<forall>j'>j. \<forall>b. m2 (i, j') = Some b \<longrightarrow> b = ?G i j'" using c2 unfolding memo_ok_def by (metis Suc_eq_plus1 Suc_le_eq order_refl)
              show "\<forall>i' j'. \<not> (i \<le> i' \<and> j \<le> j') \<longrightarrow> m2 (i', j') = memo (i', j')" using c2 k1(2) by (auto simp: memo_keeps_def)
            qed
            have "r = Inr (?G i (j + 1))" "memo' = m2((i, j) \<mapsto> ?G i (j + 1))" using prems(4) None i star 1 c1 no j 2 c2 by (auto simp: glob_match.simps [of _ _ _ i j memo])
            then show ?thesis by (rule fin [OF _ _ _ k2]) (use st no j in blast)
          qed
        qed
      next
        case star: False
        note st = glob_at_one [OF il star prems(3), of segment]
        have noerr: "\<not> isl (segment (ps ! i) c)" for c using prems(2) il star by auto
        show ?thesis
        proof (cases "j < length cs \<and> segment (ps ! i) (cs ! j) = Inr True")
          case False
          have "r = Inr False \<and> memo' = ?m"
          proof (cases "length cs \<le> j")
            case True
            then show ?thesis using prems(4) None i star by (simp add: glob_match.simps [of _ _ _ i j memo])
          next
            case j: False
            have "segment (ps ! i) (cs ! j) = Inr False" using False j noerr [of "cs ! j"] by (cases "segment (ps ! i) (cs ! j)") auto
            then show ?thesis using prems(4) None i star j by (simp add: glob_match.simps [of _ _ _ i j memo])
          qed
          then have "r = Inr False" "memo' = ?m((i, j) \<mapsto> False)" "?G i j = False" using st False by auto
          then show ?thesis by (rule fin [of _ ?m, OF _ _ _ base(1,3,4)])
        next
          case yes: True
          obtain r2 m2 where 2: "glob_match segment ps cs (i + 1) (j + 1) ?m = (r2, m2)" by fastforce
          have c2: "r2 = Inr (?G (i + 1) (j + 1)) \<and> memo_ok ?G (i + 1) (j + 1) m2 \<and> memo_keeps (i + 1) (j + 1) ?m m2"
          proof -
            have nj: "\<not> length cs \<le> j" "segment (ps ! i) (cs ! j) = Inr True" "j + 1 \<le> length cs" using yes by auto
            show ?thesis by (rule "1.IH"(3) [OF None refl i star nj(1,2) refl base(2) prems(2) nj(3) 2])
          qed
          have k2: "memo_ok ?G (i + 1) j m2" unfolding memo_ok_def
          proof (intro allI impI)
            fix i' j' b assume a: "i + 1 \<le> i' \<and> j \<le> j' \<and> m2 (i', j') = Some b"
            show "b = ?G i' j'"
            proof (cases "j + 1 \<le> j'")
              case True
              then have "i + 1 \<le> i' \<and> j + 1 \<le> j' \<and> m2 (i', j') = Some b" using a by simp
              then show ?thesis using c2 unfolding memo_ok_def by blast
            next
              case False
              then have "m2 (i', j') = ?m (i', j')" using c2 by (simp add: memo_keeps_def)
              then have "i + 1 \<le> i' \<and> j \<le> j' \<and> ?m (i', j') = Some b" using a by simp
              then show ?thesis using base(1) unfolding memo_ok_def by blast
            qed
          qed
          have k3: "\<forall>j'>j. \<forall>b. m2 (i, j') = Some b \<longrightarrow> b = ?G i j'" "\<forall>i' j'. \<not> (i \<le> i' \<and> j \<le> j') \<longrightarrow> m2 (i', j') = memo (i', j')"
            using c2 base(3,4) by (auto simp: memo_keeps_def)
          have "r = Inr (?G (i + 1) (j + 1))" "memo' = m2((i, j) \<mapsto> ?G (i + 1) (j + 1))"
            using prems(4) None i star yes 2 c2 by (auto simp: glob_match.simps [of _ _ _ i j memo])
          then show ?thesis by (rule fin [OF _ _ _ k2 k3]) (use st yes in blast)
        qed
      qed
    qed
  qed
qed

text \<open>C37: The glob matcher of file searches decides the reference relation: a pattern with a malformed segment is an
  error; for every other one the memoised search over positions terminates without an error and returns whether the segments
  of the candidate match those of the pattern, where \<^verbatim>\<open>**\<close> stands for any number of segments. The assumption is
  the documented behaviour of \<^verbatim>\<open>path.Match\<close>: whether a pattern is malformed does not depend on the name.\<close>

theorem glob_decides:
  assumes "\<forall>p c. isl (segment p c) = isl (segment p [])"
  shows "matchPathGlob segment pattern candidate =
    (let ps = Split slash (trim_set ''/'' pattern); normalized = trim_set ''/'' candidate in
     case List.map_filter (bad_segment segment) ps of
       e # _ \<Rightarrow> Inl e
     | [] \<Rightarrow> Inr (glob (\<lambda>p c. segment p c = Inr True) ps (if normalized \<noteq> [] then Split slash normalized else [])))"
proof -
  let ?ps = "Split slash (trim_set ''/'' pattern)" and ?cs = "if trim_set ''/'' candidate \<noteq> [] then Split slash (trim_set ''/'' candidate) else []"
  show ?thesis
  proof (cases "List.map_filter (bad_segment segment) ?ps")
    case Nil
    then have good: "\<forall>p\<in>set ?ps. bad_segment segment p = None" by (auto simp: List.map_filter_def filter_empty_conv)
    have ok: "\<forall>p\<in>set ?ps. p \<noteq> ''**'' \<longrightarrow> (\<forall>c. \<not> isl (segment p c))"
    proof (intro ballI impI allI notI)
      fix p c assume p: "p \<in> set ?ps" "p \<noteq> ''**''" "isl (segment p c)"
      then obtain e where "segment p [] = Inl e" using assms by (metis isl_def)
      then show False using good p(1,2) by (auto simp: bad_segment_def)
    qed
    obtain r m where r: "glob_match segment ?ps ?cs 0 0 (\<lambda>_. None) = (r, m)" by fastforce
    have "memo_ok (glob_at segment ?ps ?cs) 0 0 (\<lambda>_. None)" by (simp add: memo_ok_def)
    from glob_match_correct [OF this ok _ r] have "r = Inr (glob_at segment ?ps ?cs 0 0)" by simp
    then show ?thesis using Nil r by (simp add: matchPathGlob_def Let_def glob_at_def)
  qed (simp add: matchPathGlob_def Let_def)
qed

definition star_segment :: "string \<Rightarrow> string \<Rightarrow> string + bool" where
  "star_segment p c = Inr (p = ''*'' \<or> p = c)"

theorem glob_decides_witness:
  "matchPathGlob star_segment ''src/**/*'' ''src/a/b/c.go'' = Inr True \<and> glob (\<lambda>p c. star_segment p c = Inr True) [''src'', ''**'', ''*''] [''src'', ''a'', ''b'', ''c.go'']"
proof -
  have h: "\<forall>p c. isl (star_segment p c) = isl (star_segment p [])" by (simp add: star_segment_def)
  have v: "matchPathGlob star_segment ''src/**/*'' ''src/a/b/c.go'' = Inr True" by code_simp
  have s: "Split slash (trim_set ''/'' ''src/**/*'') = [''src'', ''**'', ''*'']" "trim_set ''/'' ''src/a/b/c.go'' = ''src/a/b/c.go''"
    "Split slash ''src/a/b/c.go'' = [''src'', ''a'', ''b'', ''c.go'']" "List.map_filter (bad_segment star_segment) [''src'', ''**'', ''*''] = []" by code_simp+
  show ?thesis using glob_decides [OF h, of "''src/**/*''" "''src/a/b/c.go''"] v s by simp
qed

section \<open>Characters of a concatenation\<close>

lemma nth_byte_Suc [simp]: "nth_byte (x # xs) (Suc j) = nth_byte xs j"
  by (simp add: nth_byte_def)

lemma nth_byte_shift [simp]: "nth_byte (a @ b) (length a + j) = nth_byte b j"
  by (simp add: nth_byte_def nth_append)

lemma take_drop_Cons:
  assumes "x # xs = take n (drop i ys)"
  shows "i < length ys" "x = ys ! i" "xs = take (n - 1) (drop (Suc i) ys)"
proof -
  show i: "i < length ys" using arg_cong [OF assms, of length] by simp
  obtain m where n: "n = Suc m" using assms by (cases n) auto
  have "x # xs = ys ! i # take m (drop (Suc i) ys)" using assms unfolding n Cons_nth_drop_Suc [OF i, symmetric] by simp
  then show "x = ys ! i" "xs = take (n - 1) (drop (Suc i) ys)" using n by auto
qed

lemma rune_cont:
  assumes "rune_len s = n" "0 < j" "j < n"
  shows "cont_byte (nth_byte s j)"
proof -
  let ?b = "nth_byte s"
  have w: "rune_width (?b 0) (?b 1) (?b 2) (?b 3) = n" using assms by (auto simp: rune_len_def split: if_splits)
  obtain m lo hi where l: "lead_info (?b 0) = (m, lo, hi)" by (cases "lead_info (?b 0)")
  have b: "2 \<le> m \<Longrightarrow> 0x80 \<le> lo \<and> hi \<le> 0xBF" "m \<le> 4" using l by (auto simp: lead_info_def split: if_splits)
  have n: "n = m" "lo \<le> ?b 1" "?b 1 \<le> hi" "3 \<le> m \<longrightarrow> cont_byte (?b 2)" "4 \<le> m \<longrightarrow> cont_byte (?b 3)"
    using w assms(2,3) l by (auto simp: rune_width_def split: if_splits)
  have "j = 1 \<or> j = 2 \<or> j = 3" using assms(2,3) n(1) b(2) by auto
  then show ?thesis using n b assms(2,3) by (auto simp: cont_byte_def)
qed

lemma cont_no_rune: "cont_byte (nth_byte s 0) \<Longrightarrow> rune_len s = 0"
  by (auto simp: rune_len_def rune_width_def lead_info_def cont_byte_def)

lemma RuneCount_step: "s \<noteq> [] \<Longrightarrow> RuneCount s = Suc (RuneCount (if rune_len s = 0 then tl s else drop (rune_len s) s))"
  by (subst RuneCount_def, subst runes.simps) (simp add: RuneCount_def)

lemma RuneCount_cont:
  assumes "\<And>j. j < k \<Longrightarrow> cont_byte (nth_byte s j)"
  shows "RuneCount s = k + RuneCount (drop k s)"
  using assms
proof (induction k arbitrary: s)
  case (Suc k)
  have c: "cont_byte (nth_byte s 0)" using Suc.prems [of 0] by simp
  then obtain x xs where s: "s = x # xs" by (cases s) (auto simp: nth_byte_def cont_byte_def)
  have "cont_byte (nth_byte xs j)" if "j < k" for j using Suc.prems [of "Suc j"] that s by simp
  then have "RuneCount xs = k + RuneCount (drop k xs)" by (rule Suc.IH)
  then show ?case using RuneCount_step [of s] cont_no_rune [OF c] s by simp
qed simp

lemma RuneCount_append_le: "RuneCount (a @ b) \<le> RuneCount a + RuneCount b"
proof (induction "length a" arbitrary: a rule: less_induct)
  case less
  show ?case
  proof (cases "a = []")
    case False
    have ab: "a @ b \<noteq> []" using False by simp
    show ?thesis
    proof (cases "rune_len a = 0")
      case whole: False
      have le: "rune_len a \<le> length a" by (rule rune_len_le)
      have "rune_len (a @ b) = rune_len a" using whole ab by (intro rune_len_cong [OF refl whole]) (use le in auto)
      then show ?thesis using less [of "drop (rune_len a) a"] False whole le RuneCount_step [OF False] RuneCount_step [OF ab] by simp
    next
      case bad: True
      show ?thesis
      proof (cases "rune_len (a @ b) = 0")
        case True
        then show ?thesis using less [of "tl a"] False bad RuneCount_step [OF False] RuneCount_step [OF ab] by simp
      next
        case w: False
        let ?w = "rune_len (a @ b)"
        have long: "length a < ?w"
        proof (rule ccontr)
          assume "\<not> length a < ?w"
          then have "rune_len a = ?w" using w False by (intro rune_len_cong [OF refl w]) auto
          then show False using bad w by simp
        qed
        have cont: "cont_byte (nth_byte (a @ b) j)" if "0 < j" "j < ?w" for j using rune_cont [OF refl that] .
        have "cont_byte (nth_byte b j)" if "j < ?w - length a" for j
          using cont [of "length a + j"] that False by simp
        then have "RuneCount b = (?w - length a) + RuneCount (drop (?w - length a) b)" by (rule RuneCount_cont)
        moreover have "RuneCount (a @ b) = Suc (RuneCount (drop (?w - length a) b))" using RuneCount_step [OF ab] w long by simp
        ultimately show ?thesis using long by simp
      qed
    qed
  qed simp
qed

section \<open>Pages\<close>

lemma RuneCount_nl [simp]: "RuneCount [CHR 0x0A] = 1"
  by (simp add: RuneCount_def) code_simp

lemma truncate_budget: "int (RuneCount (truncateCharacters s n)) \<le> max 0 n"
proof -
  have "RuneCount (concat (take k (runes s))) = length (take k (runes s))" for k by (simp add: RuneCount_def runes_prefix)
  then show ?thesis by (auto simp: truncateCharacters_def RuneCount_def)
qed

lemma read_lines_budget:
  assumes "read_lines budget i ls b ch = (c, rest)" "int (RuneCount b) \<le> ch" "ch \<le> budget"
  shows "int (RuneCount c) \<le> budget"
  using assms
proof (induction ls arbitrary: i b ch)
  case (Cons l ls)
  let ?line = "numbered_line i l" and ?nl = "if b \<noteq> [] then [CHR 0x0A] else []" and ?sep = "if b \<noteq> [] then 1 else 0 :: int"
  have nl: "int (RuneCount ?nl) = ?sep" by (simp add: RuneCount_def [of "[]"])
  have app: "int (RuneCount (b @ ?nl @ t)) \<le> ch + ?sep + int (RuneCount t)" for t
    using RuneCount_append_le [of b "?nl @ t"] RuneCount_append_le [of ?nl t] nl Cons.prems(2) by linarith
  show ?case
  proof (cases "ch + int (RuneCount ?line) + ?sep > budget")
    case False
    have rec: "read_lines budget (i + 1) ls (b @ ?nl @ ?line) (ch + int (RuneCount ?line) + ?sep) = (c, rest)" using Cons.prems(1) False by (auto simp: Let_def)
    show ?thesis using Cons.IH [OF rec] app [of ?line] False by simp
  next
    case True
    then show ?thesis using Cons.prems app [of "truncateCharacters ?line (budget - ch - ?sep)"] truncate_budget [of ?line "budget - ch - ?sep"]
      by (auto simp: Let_def split: if_splits)
  qed
qed simp

text \<open>The lines a page shows, with their numbers.\<close>

definition page_lines :: "string list \<Rightarrow> nat \<Rightarrow> nat \<Rightarrow> string list" where
  "page_lines lines i j = map (\<lambda>k. numbered_line k (lines ! k)) [i..<j]"

lemma Join_snoc: "Join (xs @ [y]) sep = Join xs sep @ (if xs = [] then [] else sep) @ y"
proof (induction xs)
  case (Cons x xs)
  then show ?case by (cases xs) auto
qed simp

lemma numbered_nonempty [simp]: "numbered_line i l \<noteq> []"
  by (simp add: numbered_line_def)

lemma Join_shown_empty: "Join (page_lines lines s i) [CHR 0x0A] = [] \<longleftrightarrow> i \<le> s"
proof (cases "s < i")
  case True
  then have "page_lines lines s i = numbered_line s (lines ! s) # page_lines lines (Suc s) i" by (simp add: page_lines_def upt_conv_Cons)
  then show ?thesis using True by (cases "page_lines lines (Suc s) i") auto
qed (simp add: page_lines_def)

lemma shown_snoc: "s \<le> i \<Longrightarrow> page_lines lines s (Suc i) = page_lines lines s i @ [numbered_line i (lines ! i)]"
  by (simp add: page_lines_def)

lemma read_lines_spec:
  assumes "read_lines budget i ls b ch = (c, nxt, clipped, part)" "b = Join (page_lines lines s i) [CHR 0x0A]" "s \<le> i" "ls = take n (drop i lines)" "i + length ls \<le> length lines"
  shows "i \<le> nxt \<and> nxt \<le> i + length ls \<and> (\<not> clipped \<longrightarrow> nxt = i + length ls) \<and> (part \<longrightarrow> clipped) \<and>
    (if part then i < nxt \<and> (\<exists>m. c = Join (page_lines lines s (nxt - 1) @ [truncateCharacters (numbered_line (nxt - 1) (lines ! (nxt - 1))) m]) [CHR 0x0A])
     else c = Join (page_lines lines s nxt) [CHR 0x0A])"
  using assms
proof (induction ls arbitrary: i b ch n)
  case (Cons l ls)
  have len: "i < length lines" using Cons.prems(5) by simp
  then have l: "l = lines ! i" "ls = take (n - 1) (drop (i + 1) lines)"
    using take_drop_Cons [OF Cons.prems(4)] by simp_all
  have ne: "b \<noteq> [] \<longleftrightarrow> s < i" using Cons.prems(2) Join_shown_empty by (auto simp: not_le)
  have emp: "page_lines lines s i = [] \<longleftrightarrow> \<not> s < i" by (auto simp: page_lines_def)
  let ?nl = "if b \<noteq> [] then [CHR 0x0A] else []" and ?sep = "if b \<noteq> [] then 1 else 0 :: int" and ?line = "numbered_line i l"
  have app: "b @ ?nl @ t = Join (page_lines lines s i @ [t]) [CHR 0x0A]" for t
    using Cons.prems(2) ne emp by (auto simp: Join_snoc)
  show ?case
  proof (cases "ch + int (RuneCount ?line) + ?sep > budget")
    case False
    have rec: "read_lines budget (i + 1) ls (b @ ?nl @ ?line) (ch + int (RuneCount ?line) + ?sep) = (c, nxt, clipped, part)" using Cons.prems(1) False by (auto simp: Let_def)
    have b: "b @ ?nl @ ?line = Join (page_lines lines s (i + 1)) [CHR 0x0A]" using app [of ?line] l(1) Cons.prems(3) by (simp add: shown_snoc)
    show ?thesis using Cons.IH [OF rec b _ l(2)] Cons.prems(3,5) by (auto split: if_splits)
  next
    case True
    show ?thesis
    proof (cases "budget - ch - ?sep > 0")
      case False
      then have "c = b" "nxt = i" "clipped" "\<not> part" using Cons.prems(1) True by (auto simp: Let_def split: if_splits)
      then show ?thesis using Cons.prems(2) by simp
    next
      case rem: True
      have "c = b @ ?nl @ truncateCharacters ?line (budget - ch - ?sep)" "nxt = i + 1" "clipped" "part"
        using Cons.prems(1) True rem by (auto simp: Let_def split: if_splits)
      then show ?thesis unfolding app using l(1) by auto
    qed
  qed
qed auto

lemma read_lines_progress:
  assumes "read_lines budget i (l # ls) [] 0 = (c, nxt, clipped, part)" "0 < budget" "i + length (l # ls) \<le> length lines" "l # ls = take n (drop i lines)"
  shows "i < nxt"
proof -
  show ?thesis
  proof (cases "int (RuneCount (numbered_line i l)) > budget")
    case True
    then show ?thesis using assms(1,2) by (auto simp: Let_def split: if_splits)
  next
    case False
    then have rec: "read_lines budget (i + 1) ls (numbered_line i l) (int (RuneCount (numbered_line i l))) = (c, nxt, clipped, part)" using assms(1) by (auto simp: Let_def)
    have len: "i < length lines" using assms(3) by simp
    then have l: "l = lines ! i" "ls = take (n - 1) (drop (i + 1) lines)"
      using take_drop_Cons [OF assms(4)] by simp_all
    have "numbered_line i l = Join (page_lines lines i (i + 1)) [CHR 0x0A]" using l(1) by (simp add: page_lines_def)
    moreover have "i + 1 + length ls \<le> length lines" using assms(3) by simp
    ultimately have "i + 1 \<le> nxt" using read_lines_spec [OF rec _ _ l(2), of i] by auto
    then show ?thesis by simp
  qed
qed

text \<open>The lines of a file, and the line after the last one a page shows.\<close>

definition file_lines :: "string \<Rightarrow> string list" where
  "file_lines data = Split_nl (ReplaceAll data [CHR 0x0D, CHR 0x0A] [CHR 0x0A])"

definition page_end :: "read_page \<Rightarrow> nat" where
  "page_end pg = (case pg_next_offset pg of Some k \<Rightarrow> k - 1 | None \<Rightarrow> pg_total_lines pg)"

lemma readLimit_pos: "0 < readLimit t"
  by (simp add: readLimit_def)

lemma page_bounds_eq:
  assumes "1 \<le> offset" "offset \<le> int n" "1 \<le> limit" "limit \<le> 2 ^ 62" "n \<le> 2 ^ 62"
  shows "page_bounds offset limit n = (nat (offset - 1), min (int n) (offset - 1 + limit))"
proof -
  have b: "0 \<le> offset - 1 + limit" "offset - 1 + limit < 2 ^ 63" using assms by auto
  then have "wrap64 (offset - 1 + limit) = offset - 1 + limit" by (simp add: wrap64_def mod_pos_pos_trivial)
  then show ?thesis using assms by (auto simp: page_bounds_def Let_def)
qed


definition sample_tool :: file_tool where
  "sample_tool = \<lparr>ft_Kind = ''read_file'', ft_MaxReadChars = 6, ft_MaxOutputBytes = 0\<rparr>"

definition three_lines :: string where
  "three_lines = ''ab'' @ [CHR 0x0A] @ ''c'' @ [CHR 0x0A] @ ''d''"


text \<open>The text of a page never has more characters than the read budget of the tool, whatever the file holds.\<close>

theorem page_budget: "int (RuneCount (pg_content (read_page_of t inp data))) \<le> readLimit t"
proof -
  obtain start stop where b: "page_bounds (ri_Offset inp) (ri_Limit inp) (length (file_lines data)) = (start, stop)" by fastforce
  obtain c rest where r: "read_lines (readLimit t) start (take (nat (stop - int start)) (drop start (file_lines data))) [] 0 = (c, rest)" by (meson surj_pair)
  have "pg_content (read_page_of t inp data) = c" using b r by (cases rest) (simp add: read_page_of_def file_lines_def Let_def split: prod.splits)
  then show ?thesis using read_lines_budget [OF r] readLimit_pos [of t] by (simp add: RuneCount_def)
qed

text \<open>A limit near the largest integer overflows: the end of the page is negative, nothing is shown, and the continuation offset
  is the offset of the request.\<close>

lemma huge_limit_stalls:
  "pg_content (read_page_of sample_tool \<lparr>ri_Path = [], ri_Offset = 2, ri_Limit = 2 ^ 63 - 1\<rparr> three_lines) = [] \<and>
   pg_next_offset (read_page_of sample_tool \<lparr>ri_Path = [], ri_Offset = 2, ri_Limit = 2 ^ 63 - 1\<rparr> three_lines) = Some 2"
  by code_simp

section \<open>Changing one file\<close>

text \<open>How an operation ends: the locks are given back, a failed one leaves every file as it was, and the
  contents after a successful one are related to the contents before it.\<close>

definition ends :: "file_ctx \<Rightarrow> (contents \<Rightarrow> contents \<Rightarrow> bool) \<Rightarrow> fs_state \<Rightarrow> (file_error + json) \<times> fs_state \<Rightarrow> bool" where
  "ends rc Q st out \<longleftrightarrow> fs_locks (snd out) = fs_locks st \<and>
     (case fst out of
        Inl e \<Rightarrow> untouched rc st (snd out)
      | Inr v \<Rightarrow> \<exists>fs'. Q (contents_of st) fs' \<and> (\<forall>p. settled (fc_env rc) st p \<longrightarrow> contents_of (snd out) p = fs' p))"

lemma ends_error: "fs_files st' = fs_files st \<Longrightarrow> fs_locks st' = fs_locks st \<Longrightarrow> ends rc Q st (Inl e, st')"
  by (simp add: ends_def untouched_def contents_of_def)

lemma ends_keeps: "keeps (fc_env rc) (fs_files st) (fs_files st') \<Longrightarrow> fs_locks st' = fs_locks st \<Longrightarrow> ends rc Q st (Inl e, st')"
  by (auto simp: ends_def untouched_def contents_of_def keeps_def settled_def)

lemma with_lock_ends:
  assumes "\<And>st1. ends rc Q st1 (body st1)"
  shows "ends rc Q st (with_lock rc p body st)"
proof -
  obtain q st1 where q: "acquirePathLock (fc_env rc) p st = (q, st1)" by fastforce
  note a = acquire_spec [OF q]
  show ?thesis
  proof (cases q)
    case (Inl e)
    then show ?thesis using q a by (simp add: with_lock_def ends_error)
  next
    case (Inr u)
    obtain r st2 where b: "body st1 = (r, st2)" by fastforce
    have out: "with_lock rc p body st = (r, release (fc_env rc) p st2)" using q Inr b by (simp add: with_lock_def)
    have "fs_locks st2 = p # fs_locks st" using assms [of st1] b a(4) Inr by (simp add: ends_def)
    then have l: "fs_locks (release (fc_env rc) p st2) = fs_locks st" by (simp add: release_spec)
    have c: "contents_of (release (fc_env rc) p st2) = contents_of st2" by (simp add: release_spec contents_of_def)
    show ?thesis using assms [of st1] b contents_cong [OF a(1)] unfolding out ends_def
      by (auto simp: l c untouched_def split: sum.splits)
  qed
qed

lemma version_ok: "version_error rc verb expected data = None \<Longrightarrow> shared rc \<Longrightarrow> EqualFold (fc_lib rc) expected (fileHash (fc_lib rc) data)"
  by (auto simp: version_error_def split: if_splits)

lemma emit_ends:
  assumes "\<forall>v. marshal (fc_lib rc) v \<noteq> None" "Q (contents_of st) fs'" "\<forall>p. settled (fc_env rc) st p \<longrightarrow> contents_of st' p = fs' p" "fs_locks st' = fs_locks st"
  shows "ends rc Q st (ResultFromValue (fc_lib rc) v, emitWorkspaceMutation rc v st')" "ends rc Q st (ResultFromValue (fc_lib rc) v, st')"
proof -
  obtain t where "marshal (fc_lib rc) v = Some t" using assms(1) by blast
  then have "ResultFromValue (fc_lib rc) v = Inr v" by (simp add: ResultFromValue_def)
  then show "ends rc Q st (ResultFromValue (fc_lib rc) v, emitWorkspaceMutation rc v st')" "ends rc Q st (ResultFromValue (fc_lib rc) v, st')"
    using assms(2-4) by (auto simp: ends_def emit_files contents_of_def)
qed

text \<open>The shared end of writing and patching: the file is replaced, with its mode, or nothing changes.\<close>

lemma write_step:
  assumes "fs_files st1 = fs_files st" "frame st st1" "\<not> is_temp (fc_env rc) path" "\<forall>v. marshal (fc_lib rc) v \<noteq> None" "Q (contents_of st) ((contents_of st)(path \<mapsto> data))"
  shows "ends rc Q st (case Stat_mode (fc_env rc) path st1 of (m, st) \<Rightarrow>
    (case atomicWriteFile (fc_env rc) path data (perm_of m) st of (Inl e, st) \<Rightarrow> (Inl (Sys e), st)
     | (Inr _, st) \<Rightarrow> (ResultFromValue (fc_lib rc) v, emitWorkspaceMutation rc v st)))"
proof -
  obtain m st2 where 2: "Stat_mode (fc_env rc) path st1 = (m, st2)" by fastforce
  obtain r st3 where 3: "atomicWriteFile (fc_env rc) path data (perm_of m) st2 = (r, st3)" by fastforce
  have f: "fs_files st2 = fs_files st" "fs_locks st2 = fs_locks st" using Stat_mode_spec(1,2) [OF 2] assms(1,2) by (auto simp: frame_def)
  note w = atomicWriteFile_spec [OF 3 assms(3), unfolded f(1)]
  have l: "fs_locks st3 = fs_locks st" using w(1) f(2) by (simp add: frame_def)
  show ?thesis
  proof (cases r)
    case (Inl e)
    then show ?thesis using 2 3 ends_keeps [OF w(3) [OF Inl] l] by simp
  next
    case (Inr u)
    have "\<forall>p. settled (fc_env rc) st p \<longrightarrow> contents_of st3 p = ((contents_of st)(path \<mapsto> data)) p"
      using w(2) [OF Inr] assms(3) by (auto simp: keeps_def settled_def contents_of_def)
    then show ?thesis using 2 3 Inr emit_ends(1) [where Q = Q, OF assms(4,5) _ l] by simp
  qed
qed

definition put_effect :: "file_ctx \<Rightarrow> write_input \<Rightarrow> contents \<Rightarrow> contents \<Rightarrow> bool" where
  "put_effect rc inp fs fs' \<longleftrightarrow> (\<exists>path. ws_path rc (wi_Path inp) = Inr path \<and> fs' = fs(path \<mapsto> wi_Content inp) \<and>
     (\<forall>old. fs path = Some old \<and> shared rc \<longrightarrow> EqualFold (fc_lib rc) (wi_ExpectedSHA256 inp) (fileHash (fc_lib rc) old)))"

definition replace_effect :: "file_ctx \<Rightarrow> patch_input \<Rightarrow> contents \<Rightarrow> contents \<Rightarrow> bool" where
  "replace_effect rc inp fs fs' \<longleftrightarrow> (\<exists>path old. ws_path rc (pi_Path inp) = Inr path \<and> fs path = Some old \<and>
     (shared rc \<longrightarrow> EqualFold (fc_lib rc) (pi_ExpectedSHA256 inp) (fileHash (fc_lib rc) old)) \<and>
     ((\<exists>new n name. fuzzyFindAndReplace (fc_lib rc) old (pi_OldString inp) (pi_NewString inp) (pi_ReplaceAll inp) = Replaced new n name \<and> fs' = fs(path \<mapsto> new)) \<or>
      patchAlreadyApplied old (pi_OldString inp) (pi_NewString inp) \<and> fs' = fs))"

definition move_effect :: "file_ctx \<Rightarrow> move_input \<Rightarrow> contents \<Rightarrow> contents \<Rightarrow> bool" where
  "move_effect rc inp fs fs' \<longleftrightarrow> (\<exists>from dest old. ws_path rc (mi_From inp) = Inr from \<and> ws_path rc (mi_To inp) = Inr dest \<and> from \<noteq> dest \<and>
     fs from = Some old \<and> fs dest = None \<and> fs' = fs(dest \<mapsto> old, from := None) \<and>
     (shared rc \<longrightarrow> EqualFold (fc_lib rc) (mi_ExpectedSHA256 inp) (fileHash (fc_lib rc) old)))"

definition delete_effect :: "file_ctx \<Rightarrow> delete_input \<Rightarrow> contents \<Rightarrow> contents \<Rightarrow> bool" where
  "delete_effect rc inp fs fs' \<longleftrightarrow> (\<exists>path old. ws_path rc (di_Path inp) = Inr path \<and> fs path = Some old \<and> fs' = fs(path := None) \<and>
     (shared rc \<longrightarrow> EqualFold (fc_lib rc) (di_ExpectedSHA256 inp) (fileHash (fc_lib rc) old)))"

lemma write_locked_ends:
  assumes "ws_path rc (wi_Path inp) = Inr path" "\<not> is_temp (fc_env rc) path" "\<forall>v. marshal (fc_lib rc) v \<noteq> None"
  shows "ends rc (put_effect rc inp) st (write_locked rc path inp st)"
proof -
  obtain q st1 where q: "ReadFile (fc_env rc) path st = (q, st1)" by fastforce
  note rd = ReadFile_spec [OF q]
  have l1: "fs_locks st1 = fs_locks st" using rd(2) by (simp add: frame_def)
  have err: "ends rc (put_effect rc inp) st (Inl e, st1)" for e using ends_error rd(1) l1 by blast
  let ?old = "case q of Inr data \<Rightarrow> Some data | Inl _ \<Rightarrow> None"
  show ?thesis
  proof (cases "(case q of Inl e \<Rightarrow> e \<noteq> Not_exist | Inr _ \<Rightarrow> False) \<or> (case ?old of Some data \<Rightarrow> \<not> Valid_utf8 data | None \<Rightarrow> False) \<or>
      ?old \<noteq> None \<and> shared rc \<and> TrimSpace (wi_ExpectedSHA256 inp) = [] \<or>
      wi_ExpectedSHA256 inp \<noteq> [] \<and> (case ?old of None \<Rightarrow> True | Some data \<Rightarrow> \<not> EqualFold (fc_lib rc) (wi_ExpectedSHA256 inp) (fileHash (fc_lib rc) data))")
    case True
    then show ?thesis unfolding write_locked_def q prod.case Let_def using err by (auto split: sum.splits option.splits)
  next
    case False
    have old: "contents_of st path = ?old"
    proof (cases q)
      case (Inl e)
      then have "e = Not_exist" using False by auto
      then show ?thesis using rd(4) Inl by (simp add: contents_of_def)
    next
      case (Inr data)
      then show ?thesis using rd(3) [OF Inr] by (auto simp: contents_of_def)
    qed
    have eff: "put_effect rc inp (contents_of st) ((contents_of st)(path \<mapsto> wi_Content inp))"
      using assms(1) False old unfolding put_effect_def by (auto split: sum.splits)
    obtain r st2 where 2: "MkdirAll (fc_env rc) (Dir path) st1 = (r, st2)" by fastforce
    have f2: "fs_files st2 = fs_files st" "frame st st2"
      using os_call_files [where env = "fc_env rc" and p = "Dir path" and st = st1] 2 rd(1) frame_trans [OF rd(2)] by auto
    have l2: "fs_locks st2 = fs_locks st" using f2(2) by (simp add: frame_def)
    show ?thesis
    proof (cases r)
      case (Inl e)
      then show ?thesis unfolding write_locked_def q prod.case Let_def 2 using False ends_error [OF f2(1) l2] by (auto split: sum.splits option.splits)
    next
      case (Inr u)
      have w: "write_locked rc path inp st = (case Stat_mode (fc_env rc) path st2 of (m, st) \<Rightarrow>
          (case atomicWriteFile (fc_env rc) path (wi_Content inp) (perm_of m) st of (Inl e, st) \<Rightarrow> (Inl (Sys e), st)
           | (Inr _, st) \<Rightarrow> (ResultFromValue (fc_lib rc) (write_value (fc_lib rc) path ?old (wi_Content inp)),
               emitWorkspaceMutation rc (write_value (fc_lib rc) path ?old (wi_Content inp)) st)))"
      proof -
        have n: "\<not> (case q of Inl e \<Rightarrow> e \<noteq> Not_exist | Inr _ \<Rightarrow> False)" "\<not> (case ?old of Some data \<Rightarrow> \<not> Valid_utf8 data | None \<Rightarrow> False)"
          "\<not> (?old \<noteq> None \<and> shared rc \<and> TrimSpace (wi_ExpectedSHA256 inp) = [])"
          "\<not> (wi_ExpectedSHA256 inp \<noteq> [] \<and> (case ?old of None \<Rightarrow> True | Some data \<Rightarrow> \<not> EqualFold (fc_lib rc) (wi_ExpectedSHA256 inp) (fileHash (fc_lib rc) data)))"
          using False by blast+
        show ?thesis unfolding write_locked_def q prod.case Let_def if_not_P [OF n(1)] if_not_P [OF n(2)] if_not_P [OF n(3)] if_not_P [OF n(4)] 2 Inr sum.case ..
      qed
      show ?thesis unfolding w by (rule write_step [where Q = "put_effect rc inp", OF f2 assms(2,3) eff])
    qed
  qed
qed

lemma replace_locked_ends:
  assumes "ws_path rc (pi_Path inp) = Inr path" "\<not> is_temp (fc_env rc) path" "\<forall>v. marshal (fc_lib rc) v \<noteq> None"
  shows "ends rc (replace_effect rc inp) st (replace_locked rc path inp st)"
proof -
  obtain q st1 where q: "ReadFile (fc_env rc) path st = (q, st1)" by fastforce
  note rd = ReadFile_spec [OF q]
  have l1: "fs_locks st1 = fs_locks st" using rd(2) by (simp add: frame_def)
  have err: "ends rc (replace_effect rc inp) st (Inl e, st1)" for e using ends_error rd(1) l1 by blast
  show ?thesis
  proof (cases q)
    case (Inl e)
    then show ?thesis using q err by (simp add: replace_locked_def)
  next
    case (Inr old)
    have old: "contents_of st path = Some old" using rd(3) [OF Inr] by (auto simp: contents_of_def)
    show ?thesis
    proof (cases "Valid_utf8 old \<and> version_error rc ''patching'' (pi_ExpectedSHA256 inp) old = None")
      case False
      then show ?thesis using q Inr err by (auto simp: replace_locked_def split: option.splits)
    next
      case ok: True
      note ver = version_ok [OF conjunct2 [OF ok]]
      show ?thesis
      proof (cases "fuzzyFindAndReplace (fc_lib rc) old (pi_OldString inp) (pi_NewString inp) (pi_ReplaceAll inp)")
        case (Match_error e)
        have same: "\<forall>p. settled (fc_env rc) st p \<longrightarrow> contents_of st1 p = contents_of st p" using rd(1) by (simp add: contents_of_def)
        have "replace_effect rc inp (contents_of st) (contents_of st)" if "patchAlreadyApplied old (pi_OldString inp) (pi_NewString inp)"
          using that assms(1) old ver by (auto simp: replace_effect_def)
        then show ?thesis using q Inr ok Match_error err emit_ends(2) [where Q = "replace_effect rc inp", OF assms(3) _ same l1]
          by (simp add: replace_locked_def)
      next
        case Slice_panic
        then show ?thesis using q Inr ok err by (simp add: replace_locked_def)
      next
        case (Replaced new n name)
        have eff: "replace_effect rc inp (contents_of st) ((contents_of st)(path \<mapsto> new))"
          using assms(1) old ver Replaced unfolding replace_effect_def by blast
        show ?thesis using q Inr ok Replaced write_step [where Q = "replace_effect rc inp", OF rd(1,2) assms(2,3) eff, of "replace_value (fc_lib rc) path old new n name"]
          unfolding replace_locked_def Let_def by simp
      qed
    qed
  qed
qed

lemma delete_locked_ends:
  assumes "ws_path rc (di_Path inp) = Inr path" "\<forall>v. marshal (fc_lib rc) v \<noteq> None"
  shows "ends rc (delete_effect rc inp) st (delete_locked rc path (di_ExpectedSHA256 inp) st)"
proof -
  obtain q st1 where q: "ReadFile (fc_env rc) path st = (q, st1)" by fastforce
  note rd = ReadFile_spec [OF q]
  have l1: "fs_locks st1 = fs_locks st" using rd(2) by (simp add: frame_def)
  have err: "ends rc (delete_effect rc inp) st (Inl e, st1)" for e using ends_error rd(1) l1 by blast
  show ?thesis
  proof (cases "\<exists>old. q = Inr old \<and> version_error rc ''deleting'' (di_ExpectedSHA256 inp) old = None")
    case False
    then show ?thesis using q err by (auto simp: delete_locked_def split: sum.splits option.splits)
  next
    case True
    then obtain old where old: "q = Inr old" "version_error rc ''deleting'' (di_ExpectedSHA256 inp) old = None" by blast
    obtain r st2 where 2: "Remove (fc_env rc) path st1 = (r, st2)" by fastforce
    note rm = Remove_spec [OF 2]
    have l2: "fs_locks st2 = fs_locks st" using rm(1) l1 by (simp add: frame_def)
    show ?thesis
    proof (cases r)
      case (Inl e)
      then show ?thesis using q old 2 rm(3) rd(1) l2 ends_error by (simp add: delete_locked_def)
    next
      case (Inr u)
      have c: "contents_of st path = Some old" using rd(3) [OF old(1)] by (auto simp: contents_of_def)
      have eff: "delete_effect rc inp (contents_of st) ((contents_of st)(path := None))"
        using assms(1) c version_ok [OF old(2)] by (auto simp: delete_effect_def)
      have after: "\<forall>p. settled (fc_env rc) st p \<longrightarrow> contents_of st2 p = ((contents_of st)(path := None)) p"
        using rm(2) Inr rd(1) by (auto simp: contents_of_def)
      show ?thesis using q old 2 Inr emit_ends(1) [where Q = "delete_effect rc inp", OF assms(2) eff after l2] by (simp add: delete_locked_def Let_def)
    qed
  qed
qed

lemma Rename_spec:
  assumes "Rename env p q st = (r, st')"
  shows "frame st st'" "r = Inl e \<Longrightarrow> fs_files st' = fs_files st" "r = Inr u \<Longrightarrow> fs_files st' = (fs_files st)(p := None, q := fs_files st p)"
  using assms by (auto simp: Rename_def split: option.splits if_splits)

lemma move_locked_ends:
  assumes "ws_path rc (mi_From inp) = Inr from" "ws_path rc (mi_To inp) = Inr dest" "from \<noteq> dest" "\<forall>v. marshal (fc_lib rc) v \<noteq> None"
  shows "ends rc (move_effect rc inp) st (move_locked rc from dest (mi_ExpectedSHA256 inp) st)"
proof -
  obtain q st1 where q: "Stat_mode (fc_env rc) dest st = (q, st1)" by fastforce
  note sm = Stat_mode_spec [OF q]
  have absent: "fs_files st dest = None" if "q = Inl Not_exist"
    using q that by (auto simp: Stat_mode_def call_fault_def split: option.splits fault.splits if_splits)
  obtain q2 st2 where q2: "ReadFile (fc_env rc) from st1 = (q2, st2)" by fastforce
  note rd = ReadFile_spec [OF q2]
  obtain q3 st3 where q3: "MkdirAll (fc_env rc) (Dir dest) st2 = (q3, st3)" by fastforce
  obtain q4 st4 where q4: "Rename (fc_env rc) from dest st3 = (q4, st4)" by fastforce
  note rn = Rename_spec [OF q4]
  have f3: "fs_files st3 = fs_files st2" "frame st2 st3" using os_call_files [where env = "fc_env rc" and p = "Dir dest" and st = st2] q3 by auto
  have f: "fs_files st1 = fs_files st" "fs_files st2 = fs_files st" "fs_files st3 = fs_files st"
    "fs_locks st1 = fs_locks st" "fs_locks st2 = fs_locks st" "fs_locks st3 = fs_locks st" "fs_locks st4 = fs_locks st"
    using sm(1,2) rd(1,2) f3 rn(1) by (auto simp: frame_def)
  note err = ends_error [OF f(1,4)] ends_error [OF f(2,5)] ends_error [OF f(3,6)]
  show ?thesis
  proof (cases "q = Inl Not_exist \<and> (\<exists>old. q2 = Inr old \<and> version_error rc ''moving'' (mi_ExpectedSHA256 inp) old = None) \<and> q3 = Inr ()")
    case False
    then show ?thesis using q q2 q3 err by (auto simp: move_locked_def split: sum.splits option.splits)
  next
    case True
    then obtain old where old: "q = Inl Not_exist" "q2 = Inr old" "version_error rc ''moving'' (mi_ExpectedSHA256 inp) old = None" "q3 = Inr ()" by blast
    obtain g where g: "fs_files st from = Some g" "of_data g = old" using rd(3) [OF old(2)] f(1) by auto
    show ?thesis
    proof (cases q4)
      case (Inl e)
      then show ?thesis using q q2 q3 q4 old rn(2) f ends_error by (simp add: move_locked_def)
    next
      case (Inr u)
      have eff: "move_effect rc inp (contents_of st) ((contents_of st)(dest \<mapsto> old, from := None))"
        using assms(1-3) g absent [OF old(1)] version_ok [OF old(3)] unfolding move_effect_def contents_of_def
        by (intro exI [of _ "from"] exI [of _ dest] exI [of _ old]) auto
      have after: "\<forall>p. settled (fc_env rc) st p \<longrightarrow> contents_of st4 p = ((contents_of st)(dest \<mapsto> old, from := None)) p"
        using rn(3) Inr f(3) g assms(3) by (auto simp: contents_of_def)
      show ?thesis using q q2 q3 q4 old Inr emit_ends(1) [where Q = "move_effect rc inp", OF assms(4) eff after f(7)] by (simp add: move_locked_def Let_def)
    qed
  qed
qed

text \<open>C14: The tools that change one file, for every sequence of failing system calls. A failed call leaves the
  contents of every file as they were, and gives its locks back. A successful one does what it says and nothing else: writing sets
  the contents of its path, patching replaces them by the result of the replacement (or finds the patch applied and
  changes nothing), moving takes an existing file to a path that was free, deleting removes an existing file. In a
  shared workspace none of them touches an existing file unless the caller has named the hash of the contents it replaces.\<close>

theorem single_file_tools:
  assumes "\<forall>v. marshal (fc_lib rc) v \<noteq> None"
    "\<forall>raw\<in>{wi_Path w, pi_Path q, mi_From m, mi_To m, di_Path d}. \<forall>p. ws_path rc raw = Inr p \<longrightarrow> \<not> is_temp (fc_env rc) p"
  shows "ends rc (put_effect rc w) st (file_put rc w st) \<and> ends rc (replace_effect rc q) st (patchReplace rc q st) \<and>
    ends rc (move_effect rc m) st (file_move rc m st) \<and> ends rc (delete_effect rc d) st (file_delete rc d st)"
proof (intro conjI)
  note err = ends_error [OF refl refl]
  show "ends rc (put_effect rc w) st (file_put rc w st)"
  proof (cases "ws_path rc (wi_Path w)")
    case (Inr path)
    have "\<not> is_temp (fc_env rc) path" using assms(2) Inr by simp
    then show ?thesis using Inr with_lock_ends [OF write_locked_ends [OF Inr _ assms(1)]] by (simp add: file_put_def)
  qed (simp add: file_put_def err)
  show "ends rc (replace_effect rc q) st (patchReplace rc q st)"
  proof (cases "ws_path rc (pi_Path q)")
    case (Inr path)
    have "\<not> is_temp (fc_env rc) path" using assms(2) Inr by simp
    then show ?thesis using Inr with_lock_ends [OF replace_locked_ends [OF Inr _ assms(1)]] by (simp add: patchReplace_def err)
  qed (simp add: patchReplace_def err)
  show "ends rc (delete_effect rc d) st (file_delete rc d st)"
  proof (cases "ws_path rc (di_Path d)")
    case (Inr path)
    then show ?thesis using with_lock_ends [OF delete_locked_ends [OF Inr assms(1)]] by (simp add: file_delete_def)
  qed (simp add: file_delete_def err)
  show "ends rc (move_effect rc m) st (file_move rc m st)"
  proof (cases "\<exists>a b. ws_path rc (mi_From m) = Inr a \<and> ws_path rc (mi_To m) = Inr b \<and> a \<noteq> b")
    case True
    then obtain a b where ab: "ws_path rc (mi_From m) = Inr a" "ws_path rc (mi_To m) = Inr b" "a \<noteq> b" by blast
    have e: "ends rc (move_effect rc m) s (with_lock rc x (with_lock rc y (move_locked rc a b (mi_ExpectedSHA256 m))) s)" for x y s
      by (intro with_lock_ends move_locked_ends [OF ab assms(1)])
    show ?thesis using ab e by (simp add: file_move_def)
  next
    case False
    then show ?thesis using err by (auto simp: file_move_def split: sum.splits)
  qed
qed

definition sample_write :: write_input where
  "sample_write = \<lparr>wi_Path = ''b.txt'', wi_Content = ''new'', wi_ExpectedSHA256 = []\<rparr>"

theorem single_file_tools_witness:
  "isl (fst (file_put calm_ctx sample_write example_disk)) = False \<and> ends calm_ctx (put_effect calm_ctx sample_write) example_disk (file_put calm_ctx sample_write example_disk) \<and>
   contents_of (snd (file_put calm_ctx sample_write example_disk)) ''/ws/b.txt'' = Some ''new''"
proof -
  have ok: "isl (fst (file_put calm_ctx sample_write example_disk)) = False" "contents_of (snd (file_put calm_ctx sample_write example_disk)) ''/ws/b.txt'' = Some ''new''"
    by code_simp+
  have m: "\<forall>v. marshal (fc_lib calm_ctx) v \<noteq> None" by (simp add: calm_ctx_def)
  have p: "ws_path calm_ctx ''b.txt'' = Inr ''/ws/b.txt''" by code_simp
  have t: "\<forall>raw\<in>{wi_Path sample_write, pi_Path (example_patch\<lparr>pi_Path := ''b.txt''\<rparr>), mi_From \<lparr>mi_From = ''b.txt'', mi_To = ''b.txt'', mi_ExpectedSHA256 = []\<rparr>,
      mi_To \<lparr>mi_From = ''b.txt'', mi_To = ''b.txt'', mi_ExpectedSHA256 = []\<rparr>, di_Path \<lparr>di_Path = ''b.txt'', di_ExpectedSHA256 = []\<rparr>}.
      \<forall>p. ws_path calm_ctx raw = Inr p \<longrightarrow> \<not> is_temp (fc_env calm_ctx) p"
    using p by (auto simp: sample_write_def is_temp_def) (auto simp: calm_ctx_def calm_env_def)
  show ?thesis using single_file_tools [OF m t, of example_disk] ok by blast
qed

end
